(* ===== verification/Kit_Prelude.thy ===== *)
theory Kit_Prelude
  imports Main "HOL-Library.Char_ord" "HOL-Library.List_Lexorder" "HOL-Library.Sublist"
begin

section \<open>Prelude: results, text, association lists and tables\<close>

text \<open>
  What every component of the development shares: the error values and the result
  type that stand for Python exceptions, the string methods of Python the sources use,
  ordered dictionaries as association lists, and relational tables as lists of rows in
  rowid order.

  Text. A Python \<open>str\<close> is modelled by its UTF-8 encoding, a list of bytes (\<open>char\<close>
  is an 8-bit value), so that equality, concatenation and the code-point order are those
  of Python and of SQLite's BINARY collation, and \<open>encode("utf-8")\<close> is the identity.
  \<open>strip\<close>, \<open>lower\<close> and \<open>isspace\<close> act on ASCII characters only.
\<close>

named_theorems kit_defs \<open>definitions that component proofs unfold\<close>

subsection \<open>Errors and results\<close>

text \<open>
  One constructor per exception class the sources raise or catch. The argument is the
  message, up to the first value that the source interpolates for diagnosis.
\<close>

datatype py_error =
    ValueError string
  | TypeError string
  | KeyError string
  | ValidationError string
  | IdentifierValidationError string
  | SQLiteBackendError string
  | SQLiteValidationError string
  | DuplicateTransactionError string
  | TransactionNotFoundError string
  | IntegrityError string
  | TransportRouteError string
  | EnvelopeValidationError string
  | EnvelopeSignatureError string
  | EnvelopePayloadCodecError string
  | OverflowError string
  | InvalidTag string
  | PeerDeliveryError string
  | InvitationError string

type_synonym 'a res = "py_error + 'a"
type_synonym bytes = "char list"

text \<open>Sequencing: the first exception ends the computation.\<close>

definition rbind :: "'a res \<Rightarrow> ('a \<Rightarrow> 'b res) \<Rightarrow> 'b res" where
  "rbind m f = (case m of Inl e \<Rightarrow> Inl e | Inr a \<Rightarrow> f a)"

lemma rbind_simps [simp]:
  "rbind (Inl e) f = Inl e"
  "rbind (Inr a) f = f a"
  by (simp_all add: rbind_def)

lemma rbind_Inr_iff: "rbind m f = Inr b \<longleftrightarrow> (\<exists>a. m = Inr a \<and> f a = Inr b)"
  by (cases m) auto

lemma rbind_InrE:
  assumes "rbind m f = Inr b"
  obtains a where "m = Inr a" "f a = Inr b"
  using assms by (auto simp: rbind_Inr_iff)

lemma rbind_cong [fundef_cong]:
  assumes "m = m'" and "\<And>a. m' = Inr a \<Longrightarrow> f a = f' a"
  shows "rbind m f = rbind m' f'"
  using assms by (cases m') simp_all

lemma rbind_assoc: "rbind (rbind m f) g = rbind m (\<lambda>a. rbind (f a) g)"
  by (cases m) simp_all

text \<open>\<open>if not cond: raise error\<close>.\<close>

definition rguard :: "bool \<Rightarrow> py_error \<Rightarrow> unit res" where
  "rguard c e = (if c then Inr () else Inl e)"

lemma rguard_Inr_iff [simp]: "rguard c e = Inr u \<longleftrightarrow> c"
  by (simp add: rguard_def)

lemma rguard_True [simp]: "rguard True e = Inr ()"
  by (simp add: rguard_def)

lemma rguard_False [simp]: "rguard False e = Inl e"
  by (simp add: rguard_def)

text \<open>\<open>except E as exc: raise F(...) from exc\<close>.\<close>

definition rmap_error :: "(py_error \<Rightarrow> py_error) \<Rightarrow> 'a res \<Rightarrow> 'a res" where
  "rmap_error h m = (case m of Inl e \<Rightarrow> Inl (h e) | Inr a \<Rightarrow> Inr a)"

lemma rmap_error_simps [simp]:
  "rmap_error h (Inl e) = Inl (h e)"
  "rmap_error h (Inr a) = Inr a"
  by (simp_all add: rmap_error_def)

lemma rmap_error_Inr_iff [simp]: "rmap_error h m = Inr a \<longleftrightarrow> m = Inr a"
  by (cases m) simp_all

text \<open>A loop whose body may raise, over a list with a state.\<close>

fun rfold :: "('a \<Rightarrow> 's \<Rightarrow> 's res) \<Rightarrow> 'a list \<Rightarrow> 's \<Rightarrow> 's res" where
  "rfold f [] s = Inr s"
| "rfold f (x # xs) s = rbind (f x s) (rfold f xs)"

lemma rfold_append: "rfold f (xs @ ys) s = rbind (rfold f xs s) (rfold f ys)"
proof (induction xs arbitrary: s)
  case (Cons x xs)
  show ?case by (cases "f x s") (simp_all add: Cons.IH)
qed simp

lemma rfold_invariant:
  assumes "rfold f xs s = Inr s'" and "P s"
    and "\<And>x s s'. x \<in> set xs \<Longrightarrow> P s \<Longrightarrow> f x s = Inr s' \<Longrightarrow> P s'"
  shows "P s'"
  using assms
proof (induction xs arbitrary: s)
  case Nil
  then show ?case by simp
next
  case (Cons x xs)
  from Cons.prems(1) obtain t where t: "f x s = Inr t" "rfold f xs t = Inr s'"
    by (auto elim: rbind_InrE)
  show ?case
    by (rule Cons.IH [OF t(2)]) (use Cons.prems t in auto)
qed

fun rmapM :: "('a \<Rightarrow> 'b res) \<Rightarrow> 'a list \<Rightarrow> 'b list res" where
  "rmapM f [] = Inr []"
| "rmapM f (x # xs) = rbind (f x) (\<lambda>y. rbind (rmapM f xs) (\<lambda>ys. Inr (y # ys)))"

lemma rmapM_Inr:
  "rmapM f xs = Inr ys \<longleftrightarrow> length ys = length xs \<and> (\<forall>i < length xs. f (xs ! i) = Inr (ys ! i))"
proof (induction xs arbitrary: ys)
  case Nil
  then show ?case by auto
next
  case (Cons x xs)
  show ?case
  proof (cases ys)
    case Nil
    then show ?thesis by (auto simp: rbind_Inr_iff)
  next
    case (Cons y ys')
    then show ?thesis
      using Cons.IH [of ys'] by (auto simp: rbind_Inr_iff less_Suc_eq_0_disj)
  qed
qed


subsection \<open>Text\<close>

definition starts_with :: "'a list \<Rightarrow> 'a list \<Rightarrow> bool" where
  "starts_with p s \<longleftrightarrow> take (length p) s = p"

definition ends_with :: "'a list \<Rightarrow> 'a list \<Rightarrow> bool" where
  "ends_with p s \<longleftrightarrow> starts_with (rev p) (rev s)"

lemma starts_with_append [simp]: "starts_with p (p @ s)"
  by (simp add: starts_with_def)

lemma starts_with_iff_prefix: "starts_with p s \<longleftrightarrow> prefix p s"
  by (metis append_eq_conv_conj prefix_def starts_with_def append_take_drop_id)

fun has_substring :: "'a list \<Rightarrow> 'a list \<Rightarrow> bool" where
  "has_substring p [] \<longleftrightarrow> p = []"
| "has_substring p (c # s) \<longleftrightarrow> starts_with p (c # s) \<or> has_substring p s"

text \<open>\<open>s.replace(p, "")\<close> for a non-empty pattern.\<close>

function remove_sub :: "'a list \<Rightarrow> 'a list \<Rightarrow> 'a list" where
  "remove_sub p [] = []"
| "remove_sub p (c # s) =
     (if p \<noteq> [] \<and> starts_with p (c # s) then remove_sub p (drop (length p) (c # s))
      else c # remove_sub p s)"
  by pat_completeness auto
termination
proof (relation "measure (\<lambda>(p, s). length s)", goal_cases)
  case (2 p c s)
  then show ?case by (cases p) auto
qed auto

lemma remove_sub_absent:
  assumes "x \<in> set p" and "x \<notin> set s"
  shows "remove_sub p s = s"
  using assms(2)
proof (induction s)
  case Nil
  then show ?case by simp
next
  case (Cons c s)
  have "\<not> starts_with p (c # s)"
  proof
    assume "starts_with p (c # s)"
    then have "set p \<subseteq> set (c # s)"
      by (metis starts_with_def set_take_subset)
    with assms(1) Cons.prems show False by auto
  qed
  with Cons show ?case by simp
qed

text \<open>The ASCII characters for which \<open>str.isspace\<close> holds.\<close>

definition is_space :: "char \<Rightarrow> bool" where
  "is_space c \<longleftrightarrow> (let n = (of_char c :: nat) in (9 \<le> n \<and> n \<le> 13) \<or> (28 \<le> n \<and> n \<le> 32))"

definition strip_by :: "('a \<Rightarrow> bool) \<Rightarrow> 'a list \<Rightarrow> 'a list" where
  "strip_by P s = rev (dropWhile P (rev (dropWhile P s)))"

abbreviation strip :: "string \<Rightarrow> string" where
  "strip \<equiv> strip_by is_space"

definition is_upper :: "char \<Rightarrow> bool" where
  "is_upper c \<longleftrightarrow> (let n = (of_char c :: nat) in 65 \<le> n \<and> n \<le> 90)"

definition is_lower :: "char \<Rightarrow> bool" where
  "is_lower c \<longleftrightarrow> (let n = (of_char c :: nat) in 97 \<le> n \<and> n \<le> 122)"

definition is_digit :: "char \<Rightarrow> bool" where
  "is_digit c \<longleftrightarrow> (let n = (of_char c :: nat) in 48 \<le> n \<and> n \<le> 57)"

definition lower_char :: "char \<Rightarrow> char" where
  "lower_char c = (if is_upper c then char_of ((of_char c :: nat) + 32) else c)"

definition upper_char :: "char \<Rightarrow> char" where
  "upper_char c = (if is_lower c then char_of ((of_char c :: nat) - 32) else c)"

abbreviation lower :: "string \<Rightarrow> string" where
  "lower \<equiv> map lower_char"

abbreviation upper :: "string \<Rightarrow> string" where
  "upper \<equiv> map upper_char"

fun split_on :: "'a \<Rightarrow> 'a list \<Rightarrow> 'a list list" where
  "split_on d [] = [[]]"
| "split_on d (c # s) =
     (if c = d then [] # split_on d s
      else (case split_on d s of [] \<Rightarrow> [[c]] | w # ws \<Rightarrow> (c # w) # ws))"

fun join_with :: "'a list \<Rightarrow> 'a list list \<Rightarrow> 'a list" where
  "join_with d [] = []"
| "join_with d [w] = w"
| "join_with d (w # ws) = w @ d @ join_with d ws"

lemma split_on_absent: "d \<notin> set s \<Longrightarrow> split_on d s = [s]"
  by (induction s) auto

lemma split_on_append: "d \<notin> set w \<Longrightarrow> split_on d (w @ d # s) = w # split_on d s"
  by (induction w) auto

lemma split_on_join:
  "\<forall>w \<in> set ws. d \<notin> set w \<Longrightarrow> ws \<noteq> [] \<Longrightarrow> split_on d (join_with [d] ws) = ws"
  by (induction "[d]" ws rule: join_with.induct) (auto simp: split_on_absent split_on_append)

lemma strip_by_noop:
  assumes "s \<noteq> [] \<Longrightarrow> \<not> P (hd s)" and "s \<noteq> [] \<Longrightarrow> \<not> P (last s)"
  shows "strip_by P s = s"
proof (cases "s = []")
  case True
  then show ?thesis by (simp add: strip_by_def)
next
  case False
  with assms have "dropWhile P s = s" by (cases s) auto
  moreover from False assms have "dropWhile P (rev s) = rev s"
    by (cases s rule: rev_cases) auto
  ultimately show ?thesis by (simp add: strip_by_def)
qed

lemma strip_by_none: "\<forall>c \<in> set s. \<not> P c \<Longrightarrow> strip_by P s = s"
  by (rule strip_by_noop) auto

lemma hd_strip_by: "strip_by P s \<noteq> [] \<Longrightarrow> \<not> P (hd (strip_by P s))"
proof -
  assume ne: "strip_by P s \<noteq> []"
  let ?t = "dropWhile P s"
  have pre: "prefix (strip_by P s) ?t"
    by (metis strip_by_def suffix_dropWhile suffix_to_prefix rev_rev_ident)
  then obtain zs where zs: "?t = strip_by P s @ zs" by (auto simp: prefix_def)
  with ne have "?t \<noteq> []" and "hd (strip_by P s) = hd ?t" by (simp_all only: hd_append) simp_all
  then show ?thesis by (metis hd_dropWhile)
qed

lemma last_strip_by: "strip_by P s \<noteq> [] \<Longrightarrow> \<not> P (last (strip_by P s))"
  by (auto simp: strip_by_def last_rev hd_dropWhile)

lemma strip_by_idem [simp]: "strip_by P (strip_by P s) = strip_by P s"
  by (rule strip_by_noop) (auto dest: hd_strip_by last_strip_by)

lemma set_strip_by: "set (strip_by P s) \<subseteq> set s"
proof
  fix x
  assume "x \<in> set (strip_by P s)"
  then have "x \<in> set (rev (dropWhile P s))" by (metis strip_by_def set_rev set_dropWhileD)
  then show "x \<in> set s" by (auto dest: set_dropWhileD)
qed

subsection \<open>Ordered dictionaries\<close>

text \<open>
  A Python \<open>dict\<close> is an association list in insertion order with distinct keys.
  \<open>map_of d k\<close> is \<open>d.get(k)\<close>; \<open>dict_set\<close> is \<open>d[k] = v\<close> (a new key goes to the end, an
  old key keeps its place); \<open>dict_pop\<close> is \<open>d.pop(k, None)\<close>.
\<close>

fun dict_set :: "'k \<Rightarrow> 'v \<Rightarrow> ('k \<times> 'v) list \<Rightarrow> ('k \<times> 'v) list" where
  "dict_set k v [] = [(k, v)]"
| "dict_set k v ((k', v') # d) =
     (if k = k' then (k, v) # d else (k', v') # dict_set k v d)"

definition dict_pop :: "'k \<Rightarrow> ('k \<times> 'v) list \<Rightarrow> ('k \<times> 'v) list" where
  "dict_pop k d = filter (\<lambda>kv. fst kv \<noteq> k) d"

definition dict_has :: "'k \<Rightarrow> ('k \<times> 'v) list \<Rightarrow> bool" where
  "dict_has k d \<longleftrightarrow> k \<in> set (map fst d)"

definition dict_update :: "('k \<times> 'v) list \<Rightarrow> ('k \<times> 'v) list \<Rightarrow> ('k \<times> 'v) list" where
  "dict_update d new = fold (\<lambda>(k, v). dict_set k v) new d"

definition dict_wf :: "('k \<times> 'v) list \<Rightarrow> bool" where
  "dict_wf d \<longleftrightarrow> distinct (map fst d)"

lemma map_of_dict_set [simp]: "map_of (dict_set k v d) = (map_of d)(k \<mapsto> v)"
  by (induction k v d rule: dict_set.induct) auto

lemma keys_dict_set [simp]: "fst ` set (dict_set k v d) = insert k (fst ` set d)"
  by (induction k v d rule: dict_set.induct) auto

lemma dict_wf_set [simp]: "dict_wf d \<Longrightarrow> dict_wf (dict_set k v d)"
proof (induction k v d rule: dict_set.induct)
  case (2 k v k' v' d)
  then show ?case using keys_dict_set [of k v d] by (auto simp: dict_wf_def)
qed (simp add: dict_wf_def)

lemma map_of_dict_pop [simp]: "map_of (dict_pop k d) = (map_of d)(k := None)"
  by (induction d) (auto simp: dict_pop_def)

lemma dict_wf_pop [simp]: "dict_wf d \<Longrightarrow> dict_wf (dict_pop k d)"
  unfolding dict_wf_def dict_pop_def by (induction d) auto

lemma dict_has_iff: "dict_has k d \<longleftrightarrow> map_of d k \<noteq> None"
  by (simp add: dict_has_def map_of_eq_None_iff)

subsection \<open>Tables\<close>

text \<open>
  A table is the list of its rows in rowid order. \<open>t_get key k t\<close> is the row with primary
  key \<open>k\<close>; \<open>t_update\<close> is an UPDATE restricted by the primary key; \<open>t_upsert\<close> is INSERT with
  ON CONFLICT DO UPDATE; \<open>t_insert_ignore\<close> is INSERT OR IGNORE on the primary key.
\<close>

definition t_get :: "('r \<Rightarrow> 'k) \<Rightarrow> 'k \<Rightarrow> 'r list \<Rightarrow> 'r option" where
  "t_get key k t = find (\<lambda>r. key r = k) t"

definition t_has :: "('r \<Rightarrow> 'k) \<Rightarrow> 'k \<Rightarrow> 'r list \<Rightarrow> bool" where
  "t_has key k t \<longleftrightarrow> k \<in> key ` set t"

definition t_update :: "('r \<Rightarrow> 'k) \<Rightarrow> 'k \<Rightarrow> ('r \<Rightarrow> 'r) \<Rightarrow> 'r list \<Rightarrow> 'r list" where
  "t_update key k f t = map (\<lambda>r. if key r = k then f r else r) t"

definition t_upsert :: "('r \<Rightarrow> 'k) \<Rightarrow> 'r \<Rightarrow> ('r \<Rightarrow> 'r) \<Rightarrow> 'r list \<Rightarrow> 'r list" where
  "t_upsert key r f t = (if t_has key (key r) t then t_update key (key r) f t else t @ [r])"

definition t_insert_ignore :: "('r \<Rightarrow> 'k) \<Rightarrow> 'r \<Rightarrow> 'r list \<Rightarrow> 'r list" where
  "t_insert_ignore key r t = (if t_has key (key r) t then t else t @ [r])"

definition t_keyed :: "('r \<Rightarrow> 'k) \<Rightarrow> 'r list \<Rightarrow> bool" where
  "t_keyed key t \<longleftrightarrow> distinct (map key t)"

lemma t_get_Nil [simp]: "t_get key k [] = None"
  by (simp add: t_get_def)

lemma t_get_Cons: "t_get key k (r # t) = (if key r = k then Some r else t_get key k t)"
  by (simp add: t_get_def)

lemma t_get_append:
  "t_get key k (t @ u) = (case t_get key k t of None \<Rightarrow> t_get key k u | Some r \<Rightarrow> Some r)"
  by (induction t) (simp_all add: t_get_Cons)

lemma t_get_SomeD: "t_get key k t = Some r \<Longrightarrow> r \<in> set t \<and> key r = k"
  by (auto simp: t_get_def find_Some_iff)

lemma t_get_None_iff: "t_get key k t = None \<longleftrightarrow> \<not> t_has key k t"
  by (auto simp: t_get_def t_has_def find_None_iff)

lemma t_has_iff_get: "t_has key k t \<longleftrightarrow> (\<exists>r. t_get key k t = Some r)"
  using t_get_None_iff [of key k t] by (cases "t_get key k t") auto

lemma t_has_simps [simp]:
  "t_has key k [] \<longleftrightarrow> False"
  "t_has key k (r # t) \<longleftrightarrow> key r = k \<or> t_has key k t"
  "t_has key k (t @ u) \<longleftrightarrow> t_has key k t \<or> t_has key k u"
  by (auto simp: t_has_def)

lemma t_get_update:
  assumes "\<And>r. key (f r) = key r"
  shows "t_get key k' (t_update key k f t) =
    (if k' = k then map_option f (t_get key k t) else t_get key k' t)"
  by (induction t) (auto simp: t_update_def t_get_Cons assms)

lemma t_has_update [simp]:
  assumes "\<And>r. key (f r) = key r"
  shows "t_has key k' (t_update key k f t) \<longleftrightarrow> t_has key k' t"
proof -
  have "map key (t_update key k f t) = map key t"
    by (simp add: t_update_def assms)
  then show ?thesis unfolding t_has_def by (metis set_map)
qed

lemma t_keyed_update [simp]:
  assumes "\<And>r. key (f r) = key r"
  shows "t_keyed key (t_update key k f t) \<longleftrightarrow> t_keyed key t"
proof -
  have "map key (t_update key k f t) = map key t"
    by (simp add: t_update_def assms)
  then show ?thesis by (simp add: t_keyed_def)
qed

lemma t_get_upsert:
  assumes "\<And>x. key (f x) = key x"
  shows "t_get key k (t_upsert key r f t) =
    (if k = key r then Some (case t_get key k t of None \<Rightarrow> r | Some x \<Rightarrow> f x) else t_get key k t)"
proof (cases "t_get key (key r) t")
  case None
  then have "\<not> t_has key (key r) t" by (simp add: t_get_None_iff)
  with None show ?thesis
    by (cases "t_get key k t") (auto simp: t_upsert_def t_get_append t_get_Cons)
next
  case (Some x)
  then have "t_has key (key r) t" by (auto simp: t_has_iff_get)
  with Some assms show ?thesis by (simp add: t_upsert_def t_get_update)
qed

lemma t_has_upsert [simp]:
  assumes "\<And>x. key (f x) = key x"
  shows "t_has key k (t_upsert key r f t) \<longleftrightarrow> k = key r \<or> t_has key k t"
  using assms by (auto simp: t_upsert_def)

lemma t_keyed_append1: "t_keyed key (t @ [r]) \<longleftrightarrow> t_keyed key t \<and> \<not> t_has key (key r) t"
  by (auto simp: t_keyed_def t_has_def)

lemma t_keyed_upsert [simp]:
  assumes "\<And>x. key (f x) = key x" and "t_keyed key t"
  shows "t_keyed key (t_upsert key r f t)"
  using assms by (simp add: t_upsert_def t_keyed_append1)

lemma t_get_insert_ignore:
  "t_get key k (t_insert_ignore key r t) =
    (case t_get key k t of None \<Rightarrow> if k = key r then Some r else None | Some x \<Rightarrow> Some x)"
  by (auto simp: t_insert_ignore_def t_get_append t_get_Cons t_has_iff_get split: option.splits)

lemma t_has_insert_ignore [simp]:
  "t_has key k (t_insert_ignore key r t) \<longleftrightarrow> k = key r \<or> t_has key k t"
  by (auto simp: t_insert_ignore_def)

lemma t_keyed_insert_ignore [simp]: "t_keyed key t \<Longrightarrow> t_keyed key (t_insert_ignore key r t)"
  by (simp add: t_insert_ignore_def t_keyed_append1)

lemma t_keyed_get: "t_keyed key t \<Longrightarrow> r \<in> set t \<Longrightarrow> t_get key (key r) t = Some r"
  by (induction t) (auto simp: t_keyed_def t_get_Cons)

subsection \<open>Interface: codecs\<close>

text \<open>
  What a client of an encoding relies on. A codec reads back what it wrote, up to a normal form
  that does not change the text; a strict codec accepts nothing but what it wrote.
\<close>

locale codec =
  fixes encode :: "'a \<Rightarrow> 'b"
    and decode :: "'b \<Rightarrow> 'a res"
    and valid :: "'a \<Rightarrow> bool"
    and norm :: "'a \<Rightarrow> 'a"
  assumes decode_encode: "valid a \<Longrightarrow> decode (encode a) = Inr (norm a)"
    and encode_norm: "valid a \<Longrightarrow> encode (norm a) = encode a"
begin

lemma encode_eq_iff:
  assumes "valid a" and "valid b"
  shows "encode a = encode b \<longleftrightarrow> norm a = norm b"
  by (metis assms decode_encode encode_norm sum.inject(2))

lemma encode_injective: "inj_on encode {a. valid a \<and> norm a = a}"
  by (rule inj_onI) (metis (mono_tags, lifting) encode_eq_iff mem_Collect_eq)

end

locale strict_codec =
  fixes encode :: "'a \<Rightarrow> 'b"
    and decode :: "'b \<Rightarrow> 'a res"
    and valid :: "'a \<Rightarrow> bool"
  assumes decode_iff: "decode s = Inr a \<longleftrightarrow> valid a \<and> s = encode a"
begin

lemma decode_unique: "decode s = Inr a \<Longrightarrow> decode t = Inr a \<Longrightarrow> s = t"
  by (simp add: decode_iff)

lemma decode_rejects: "(\<forall>a. valid a \<longrightarrow> s \<noteq> encode a) \<longleftrightarrow> (\<exists>e. decode s = Inl e)"
proof (cases "decode s")
  case (Inl e)
  then show ?thesis using decode_iff [of s] by auto
next
  case (Inr a)
  then show ?thesis using decode_iff [of s a] by auto
qed

end

sublocale strict_codec \<subseteq> codec encode decode valid id
  by unfold_locales (simp_all add: decode_iff)

end
