(* ===== verification/Kit_Encoding.thy ===== *)
theory Kit_Encoding
  imports Kit_Prelude
begin

section \<open>Byte encodings: hexadecimal, base64 and UTF-8\<close>

text \<open>
  The byte codecs that the datastore and the protocol rely on
  (\<open>crypto/codecs.py\<close>, \<open>backends/sqlite/hashing.py\<close> and the base64 helpers of
  \<open>backends/sqlite/projections.py\<close>), written over the standard library's
  \<open>bytes.hex\<close>, \<open>bytes.fromhex\<close>, \<open>base64.b64encode\<close>, \<open>base64.b64decode(validate=True)\<close> and
  \<open>bytes.decode("utf-8")\<close>. The lemmas are the round trips of each codec.
\<close>

subsection \<open>Positions in an alphabet\<close>

fun index_of :: "'a \<Rightarrow> 'a list \<Rightarrow> nat option" where
  "index_of x [] = None"
| "index_of x (y # ys) = (if x = y then Some 0 else map_option Suc (index_of x ys))"

lemma index_of_nth: "distinct xs \<Longrightarrow> n < length xs \<Longrightarrow> index_of (xs ! n) xs = Some n"
  by (induction xs arbitrary: n) (auto simp: less_Suc_eq_0_disj)

lemma index_of_Some: "index_of x xs = Some n \<Longrightarrow> n < length xs \<and> xs ! n = x"
  by (induction xs arbitrary: n) (auto split: if_splits)

subsection \<open>Hexadecimal\<close>

definition hex_alphabet :: string where
  "hex_alphabet = ''0123456789abcdef''"

definition hex_char :: "nat \<Rightarrow> char" where
  "hex_char n = hex_alphabet ! n"

text \<open>The value of a hexadecimal digit, of either case.\<close>

definition hex_val :: "char \<Rightarrow> nat option" where
  "hex_val c = index_of (lower_char c) hex_alphabet"

definition bytes_to_hex :: "bytes \<Rightarrow> string" where
  "bytes_to_hex bs =
     concat (map (\<lambda>b. [hex_char ((of_char b :: nat) div 16), hex_char ((of_char b :: nat) mod 16)]) bs)"

definition is_hex_gap :: "char \<Rightarrow> bool" where
  "is_hex_gap c \<longleftrightarrow> (let n = (of_char c :: nat) in (9 \<le> n \<and> n \<le> 13) \<or> n = 32)"

text \<open>\<open>bytes.fromhex\<close>: ASCII whitespace is skipped between bytes.\<close>

fun bytes_fromhex :: "string \<Rightarrow> bytes option" where
  "bytes_fromhex [] = Some []"
| "bytes_fromhex [c] = (if is_hex_gap c then Some [] else None)"
| "bytes_fromhex (c # d # s) =
     (if is_hex_gap c then bytes_fromhex (d # s)
      else (case (hex_val c, hex_val d) of
          (Some h, Some l) \<Rightarrow> map_option ((#) (char_of (16 * h + l))) (bytes_fromhex s)
        | _ \<Rightarrow> None))"

lemma lower_char_hex: "n < 16 \<Longrightarrow> lower_char (hex_char n) = hex_char n"
proof -
  have "\<forall>n < 16. lower_char (hex_char n) = hex_char n" by code_simp
  then show "n < 16 \<Longrightarrow> ?thesis" by blast
qed

lemma hex_val_char [simp]: "n < 16 \<Longrightarrow> hex_val (hex_char n) = Some n"
proof -
  have "\<forall>n < 16. hex_val (hex_char n) = Some n" by code_simp
  then show "n < 16 \<Longrightarrow> ?thesis" by blast
qed

lemma hex_char_no_gap [simp]: "n < 16 \<Longrightarrow> \<not> is_hex_gap (hex_char n)"
proof -
  have "\<forall>n < 16. \<not> is_hex_gap (hex_char n)" by code_simp
  then show "n < 16 \<Longrightarrow> ?thesis" by blast
qed

lemma byte_div16 [simp]: "(of_char (b :: char) :: nat) div 16 < 16"
  using nat_of_char_less_256 [of b] by linarith

lemma byte_recombine [simp]:
  "char_of (16 * ((of_char (b :: char) :: nat) div 16) + (of_char b :: nat) mod 16) = b"
  by (simp add: mult_div_mod_eq)

lemma bytes_to_hex_Cons:
  "bytes_to_hex (b # bs) =
    hex_char ((of_char b :: nat) div 16) # hex_char ((of_char b :: nat) mod 16) # bytes_to_hex bs"
  by (simp add: bytes_to_hex_def)

lemma bytes_fromhex_to_hex [simp]: "bytes_fromhex (bytes_to_hex bs) = Some bs"
proof (induction bs)
  case Nil
  show ?case by (simp add: bytes_to_hex_def)
next
  case (Cons b bs)
  then show ?case by (simp add: bytes_to_hex_Cons)
qed

lemma length_bytes_to_hex [simp]: "length (bytes_to_hex bs) = 2 * length bs"
  by (induction bs) (simp_all add: bytes_to_hex_Cons, simp add: bytes_to_hex_def)

lemma lower_bytes_to_hex [simp]: "lower (bytes_to_hex bs) = bytes_to_hex bs"
  by (induction bs) (simp_all add: bytes_to_hex_Cons lower_char_hex, simp add: bytes_to_hex_def)

subsection \<open>Payload hashes (\<open>hashing.py\<close>)\<close>

definition payload_hash_hex_to_bytes :: "string \<Rightarrow> bytes res" where
  "payload_hash_hex_to_bytes h =
     (if length h \<noteq> 64 \<or> h \<noteq> lower h
      then Inl (SQLiteValidationError ''payload_hash must be lowercase hexadecimal SHA-256'')
      else (case bytes_fromhex h of
          None \<Rightarrow> Inl (SQLiteValidationError ''payload_hash must be lowercase hexadecimal SHA-256'')
        | Some bs \<Rightarrow>
            if length bs \<noteq> 32 then Inl (SQLiteValidationError ''payload_hash must be 32 bytes'')
            else Inr bs))"

definition payload_hash_bytes_to_hex :: "bytes \<Rightarrow> string res" where
  "payload_hash_bytes_to_hex bs =
     (if length bs \<noteq> 32 then Inl (SQLiteValidationError ''stored payload_hash must be 32 bytes'')
      else Inr (bytes_to_hex bs))"

lemma payload_hash_hex_of_bytes:
  "length bs = 32 \<Longrightarrow> payload_hash_hex_to_bytes (bytes_to_hex bs) = Inr bs"
  by (simp add: payload_hash_hex_to_bytes_def)

lemma payload_hash_length: "payload_hash_hex_to_bytes h = Inr bs \<Longrightarrow> length bs = 32"
  by (auto simp: payload_hash_hex_to_bytes_def split: if_splits option.splits)


lemma bytes_fromhex_length: "bytes_fromhex s = Some bs \<Longrightarrow> 2 * length bs \<le> length s"
proof (induction s arbitrary: bs rule: bytes_fromhex.induct)
  case (3 c d s)
  show ?case
  proof (cases "is_hex_gap c")
    case True
    with "3.prems" have "2 * length bs \<le> length (d # s)" by (intro "3.IH"(1)) auto
    then show ?thesis by simp
  next
    case False
    with "3.prems" obtain h l bs' where "hex_val c = Some h" "hex_val d = Some l"
      "bytes_fromhex s = Some bs'" "bs = char_of (16 * h + l) # bs'"
      by (auto split: option.splits)
    with False "3.IH"(2) have "2 * length bs' \<le> length s" by auto
    with \<open>bs = _\<close> show ?thesis by simp
  qed
qed (auto split: if_splits)

lemma hex_val_bound: "hex_val c = Some h \<Longrightarrow> h < 16 \<and> lower_char c = hex_char h"
  using index_of_Some [of "lower_char c" hex_alphabet h]
  by (simp add: hex_val_def hex_char_def) (simp add: hex_alphabet_def)

lemma bytes_fromhex_exact:
  assumes "bytes_fromhex s = Some bs" and "length s = 2 * length bs" and "s = lower s"
  shows "s = bytes_to_hex bs"
  using assms
proof (induction s arbitrary: bs rule: bytes_fromhex.induct)
  case 1
  then show ?case by (simp add: bytes_to_hex_def)
next
  case (2 c)
  then show ?case by (auto split: if_splits)
next
  case (3 c d s)
  have nogap: "\<not> is_hex_gap c"
  proof
    assume "is_hex_gap c"
    with "3.prems"(1) have "bytes_fromhex (d # s) = Some bs" by simp
    then have "2 * length bs \<le> length (d # s)" by (rule bytes_fromhex_length)
    with "3.prems"(2) show False by simp
  qed
  with "3.prems"(1) obtain h l bs' where hl: "hex_val c = Some h" "hex_val d = Some l"
    and bs': "bytes_fromhex s = Some bs'" "bs = char_of (16 * h + l) # bs'"
    by (auto split: option.splits)
  from hl have b: "h < 16" "l < 16" and cd: "lower_char c = hex_char h" "lower_char d = hex_char l"
    by (auto dest: hex_val_bound)
  from b have "(of_char (char_of (16 * h + l) :: char) :: nat) = 16 * h + l" by simp
  moreover have "s = bytes_to_hex bs'"
    using "3.IH"(2) [OF nogap refl hl bs'(1)] "3.prems" bs' by auto
  moreover from "3.prems"(3) cd have "c = hex_char h" "d = hex_char l" by auto
  ultimately show ?case using b bs' by (simp add: bytes_to_hex_Cons)
qed

lemma payload_hash_exact:
  "payload_hash_hex_to_bytes h = Inr bs \<longleftrightarrow> length bs = 32 \<and> h = bytes_to_hex bs"
proof
  assume h: "payload_hash_hex_to_bytes h = Inr bs"
  then have "length h = 64" "h = lower h" "bytes_fromhex h = Some bs" "length bs = 32"
    by (auto simp: payload_hash_hex_to_bytes_def split: if_splits option.splits)
  then show "length bs = 32 \<and> h = bytes_to_hex bs"
    by (auto intro: bytes_fromhex_exact)
qed (auto simp: payload_hash_hex_of_bytes)

subsection \<open>Base64\<close>

definition b64_alphabet :: string where
  "b64_alphabet = ''ABCDEFGHIJKLMNOPQRSTUVWXYZabcdefghijklmnopqrstuvwxyz0123456789+/''"

definition b64_char :: "nat \<Rightarrow> char" where
  "b64_char n = b64_alphabet ! n"

definition b64_val :: "char \<Rightarrow> nat option" where
  "b64_val c = index_of c b64_alphabet"

abbreviation b64_pad :: char where
  "b64_pad \<equiv> CHR ''=''"

text \<open>\<open>base64.b64encode\<close>: three bytes become four characters, the last group is padded.\<close>

fun b64encode :: "bytes \<Rightarrow> string" where
  "b64encode [] = []"
| "b64encode [a] = (let x = (of_char a :: nat) in
     [b64_char (x div 4), b64_char (x mod 4 * 16), b64_pad, b64_pad])"
| "b64encode [a, b] = (let x = (of_char a :: nat); y = (of_char b :: nat) in
     [b64_char (x div 4), b64_char (x mod 4 * 16 + y div 16), b64_char (y mod 16 * 4), b64_pad])"
| "b64encode (a # b # c # s) =
     (let x = (of_char a :: nat); y = (of_char b :: nat); z = (of_char c :: nat) in
     b64_char (x div 4) # b64_char (x mod 4 * 16 + y div 16) #
     b64_char (y mod 16 * 4 + z div 64) # b64_char (z mod 64) # b64encode s)"

text \<open>
  \<open>binascii.a2b_base64(strict_mode=True)\<close>: groups of four characters of the alphabet, padding
  only at the very end and in the right amount; surplus low bits of the last character are
  dropped. \<open>None\<close> is \<open>binascii.Error\<close>.
\<close>

definition b64_group1 :: "char \<Rightarrow> char \<Rightarrow> bytes option" where
  "b64_group1 p q = (case (b64_val p, b64_val q) of
      (Some i, Some j) \<Rightarrow> Some [char_of (4 * i + j div 16)] | _ \<Rightarrow> None)"

definition b64_group2 :: "char \<Rightarrow> char \<Rightarrow> char \<Rightarrow> bytes option" where
  "b64_group2 p q r = (case (b64_val p, b64_val q, b64_val r) of
      (Some i, Some j, Some k) \<Rightarrow>
        Some [char_of (4 * i + j div 16), char_of (j mod 16 * 16 + k div 4)] | _ \<Rightarrow> None)"

definition b64_group3 :: "char \<Rightarrow> char \<Rightarrow> char \<Rightarrow> char \<Rightarrow> bytes option" where
  "b64_group3 p q r t = (case (b64_val p, b64_val q, b64_val r, b64_val t) of
      (Some i, Some j, Some k, Some l) \<Rightarrow>
        Some [char_of (4 * i + j div 16), char_of (j mod 16 * 16 + k div 4), char_of (k mod 4 * 64 + l)]
    | _ \<Rightarrow> None)"

fun b64decode_strict :: "string \<Rightarrow> bytes option" where
  "b64decode_strict [] = Some []"
| "b64decode_strict (p # q # r # t # s) =
     (if t = b64_pad
      then (if s \<noteq> [] then None
            else if r = b64_pad then b64_group1 p q else b64_group2 p q r)
      else (case b64_group3 p q r t of
          None \<Rightarrow> None
        | Some bs \<Rightarrow> map_option ((@) bs) (b64decode_strict s)))"
| "b64decode_strict _ = None"

lemma distinct_b64_alphabet: "distinct b64_alphabet"
  by code_simp

lemma length_b64_alphabet: "length b64_alphabet = 64"
  by (simp add: b64_alphabet_def)

lemma b64_val_char [simp]: "n < 64 \<Longrightarrow> b64_val (b64_char n) = Some n"
  by (simp add: b64_val_def b64_char_def index_of_nth distinct_b64_alphabet length_b64_alphabet)

lemma b64_char_not_pad [simp]: "n < 64 \<Longrightarrow> b64_char n \<noteq> b64_pad"
proof -
  have "\<forall>n < 64. b64_char n \<noteq> b64_pad" by code_simp
  then show "n < 64 \<Longrightarrow> ?thesis" by blast
qed

lemma split16:
  fixes y m :: nat
  assumes "y < 16"
  shows "(m * 16 + y) div 16 = m" "(m * 16 + y) mod 16 = y"
  using assms by (simp_all add: div_mult_self3)

lemma split4:
  fixes y m :: nat
  assumes "y < 4"
  shows "(m * 4 + y) div 4 = m" "(m * 4 + y) mod 4 = y"
  using assms by (simp_all add: div_mult_self3)

text \<open>The groups over six-bit values: what the encoder writes is what the decoder reads.\<close>

lemma b64_group1_values:
  "i < 64 \<Longrightarrow> j < 64 \<Longrightarrow> b64_group1 (b64_char i) (b64_char j) = Some [char_of (4 * i + j div 16)]"
  by (simp add: b64_group1_def)

lemma b64_group2_values:
  "i < 64 \<Longrightarrow> j < 64 \<Longrightarrow> k < 64 \<Longrightarrow> b64_group2 (b64_char i) (b64_char j) (b64_char k) =
    Some [char_of (4 * i + j div 16), char_of (j mod 16 * 16 + k div 4)]"
  by (simp add: b64_group2_def)

lemma b64_group3_values:
  "i < 64 \<Longrightarrow> j < 64 \<Longrightarrow> k < 64 \<Longrightarrow> l < 64 \<Longrightarrow>
    b64_group3 (b64_char i) (b64_char j) (b64_char k) (b64_char l) =
    Some [char_of (4 * i + j div 16), char_of (j mod 16 * 16 + k div 4), char_of (k mod 4 * 64 + l)]"
  by (simp add: b64_group3_def)

lemma byte_parts:
  fixes a :: char
  shows "(of_char a :: nat) div 4 < 64" "(of_char a :: nat) div 16 < 16" "(of_char a :: nat) div 64 < 4"
    "4 * ((of_char a :: nat) div 4) + of_char a mod 4 = of_char a"
    "(of_char a :: nat) div 16 * 16 + of_char a mod 16 = of_char a"
    "(of_char a :: nat) div 64 * 64 + of_char a mod 64 = of_char a"
proof -
  show "(of_char a :: nat) div 4 < 64" "(of_char a :: nat) div 16 < 16" "(of_char a :: nat) div 64 < 4"
    using nat_of_char_less_256 [of a] by linarith+
qed (simp_all only: div_mult_mod_eq mult_div_mod_eq)

lemma six_bits:
  fixes a b :: nat
  shows "b < 16 \<Longrightarrow> a mod 4 * 16 + b < 64" "b < 4 \<Longrightarrow> a mod 16 * 4 + b < 64" "a mod 64 < 64"
    "a mod 4 * 16 < 64" "a mod 16 * 4 < 64"
  by linarith+

lemma b64_group1_encode:
  "b64_group1 (b64_char (of_char a div 4)) (b64_char (of_char a mod 4 * 16)) = Some [a]"
  by (simp add: b64_group1_values byte_parts six_bits del: mult_div_mod_eq)

lemma b64_group2_encode:
  "b64_group2 (b64_char (of_char a div 4)) (b64_char (of_char a mod 4 * 16 + of_char b div 16))
     (b64_char (of_char b mod 16 * 4)) = Some [a, b]"
  by (simp add: b64_group2_values byte_parts six_bits split16)

lemma b64_group3_encode:
  "b64_group3 (b64_char (of_char a div 4)) (b64_char (of_char a mod 4 * 16 + of_char b div 16))
     (b64_char (of_char b mod 16 * 4 + of_char c div 64)) (b64_char (of_char c mod 64)) = Some [a, b, c]"
  by (simp add: b64_group3_values byte_parts six_bits split16 split4)

lemma b64decode_encode [simp]: "b64decode_strict (b64encode bs) = Some bs"
proof (induction bs rule: b64encode.induct)
  case (2 a)
  then show ?case by (simp add: b64_group1_encode Let_def)
next
  case (3 a b)
  have "b64_char (of_char b mod 16 * 4) \<noteq> b64_pad"
    by (rule b64_char_not_pad) (rule six_bits)
  then show ?case by (simp add: b64_group2_encode Let_def)
next
  case (4 a b c s)
  have "b64_char (of_char c mod 64) \<noteq> b64_pad" by simp
  with 4 show ?case by (simp add: b64_group3_encode Let_def)
qed simp

lemma length_b64encode_mod4: "length (b64encode bs) mod 4 = 0"
  by (induction bs rule: b64encode.induct) (simp_all add: Let_def)

subsection \<open>URL-safe base64 (\<open>crypto/codecs.py\<close>)\<close>

definition url_to_std :: "char \<Rightarrow> char" where
  "url_to_std c = (if c = CHR ''-'' then CHR ''+'' else if c = CHR ''_'' then CHR ''/'' else c)"

definition std_to_url :: "char \<Rightarrow> char" where
  "std_to_url c = (if c = CHR ''+'' then CHR ''-'' else if c = CHR ''/'' then CHR ''_'' else c)"

definition is_ascii :: "char \<Rightarrow> bool" where
  "is_ascii c \<longleftrightarrow> (of_char c :: nat) < 128"

definition rstrip_pad :: "string \<Rightarrow> string" where
  "rstrip_pad s = rev (dropWhile (\<lambda>c. c = b64_pad) (rev s))"

definition encode_b64url :: "bytes \<Rightarrow> string" where
  "encode_b64url bs = rstrip_pad (map std_to_url (b64encode bs))"

text \<open>\<open>"=" * (-len(value) % 4)\<close>\<close>

definition b64_padding :: "string \<Rightarrow> string" where
  "b64_padding s = replicate ((4 - length s mod 4) mod 4) b64_pad"

definition decode_b64url :: "string \<Rightarrow> bytes res" where
  "decode_b64url s =
     (let padded = s @ b64_padding s in
      if \<not> list_all is_ascii padded then Inl (ValueError ''invalid base64url value'')
      else (case b64decode_strict (map url_to_std padded) of
          None \<Rightarrow> Inl (ValueError ''invalid base64url value'')
        | Some bs \<Rightarrow> Inr bs))"

text \<open>\<open>projections._decode_b64\<close>: the standard alphabet, strictly.\<close>

definition decode_b64 :: "string \<Rightarrow> string \<Rightarrow> bytes res" where
  "decode_b64 field s =
     (if \<not> list_all is_ascii s then Inl (SQLiteValidationError (field @ '' must be valid base64''))
      else (case b64decode_strict s of
          None \<Rightarrow> Inl (SQLiteValidationError (field @ '' must be valid base64''))
        | Some bs \<Rightarrow> Inr bs))"

lemma b64_alphabet_props:
  assumes "c \<in> set b64_alphabet"
  shows "is_ascii c" "is_ascii (std_to_url c)" "url_to_std (std_to_url c) = c" "url_to_std c = c"
    "std_to_url c \<noteq> b64_pad"
proof -
  have "list_all is_ascii b64_alphabet" by code_simp
  with assms show "is_ascii c" by (simp only: list_all_iff)
  have "list_all (\<lambda>c. is_ascii (std_to_url c)) b64_alphabet" by code_simp
  with assms show "is_ascii (std_to_url c)" by (simp only: list_all_iff)
  have "list_all (\<lambda>c. url_to_std (std_to_url c) = c) b64_alphabet" by code_simp
  with assms show "url_to_std (std_to_url c) = c" by (simp only: list_all_iff)
  have "list_all (\<lambda>c. url_to_std c = c) b64_alphabet" by code_simp
  with assms show "url_to_std c = c" by (simp only: list_all_iff)
  have "list_all (\<lambda>c. std_to_url c \<noteq> b64_pad) b64_alphabet" by code_simp
  with assms show "std_to_url c \<noteq> b64_pad"
    by (simp only: list_all_iff not_False_eq_True)
qed

lemma b64_char_alphabet: "n < 64 \<Longrightarrow> b64_char n \<in> set b64_alphabet"
  by (simp add: b64_char_def length_b64_alphabet)

text \<open>Every encoding is a word over the alphabet followed by zero, one or two pads.\<close>

definition b64_word :: "string \<Rightarrow> bool" where
  "b64_word w \<longleftrightarrow> set w \<subseteq> set b64_alphabet"

lemma b64_word_simps [simp]:
  "b64_word []"
  "b64_word (c # w) \<longleftrightarrow> c \<in> set b64_alphabet \<and> b64_word w"
  by (simp_all add: b64_word_def)

lemma b64encode_shape:
  "\<exists>w k. b64encode bs = w @ replicate k b64_pad \<and> b64_word w \<and> k \<le> 2"
proof (induction bs rule: b64encode.induct)
  case 1
  have "b64encode [] = [] @ replicate 0 b64_pad" by simp
  then show ?case using b64_word_simps(1) by blast
next
  case (2 a)
  let ?w = "[b64_char (of_char a div 4), b64_char (of_char a mod 4 * 16)]"
  have "b64encode [a] = ?w @ replicate 2 b64_pad" by (simp add: Let_def numeral_2_eq_2)
  moreover have "b64_word ?w"
    by (simp only: b64_word_simps b64_char_alphabet byte_parts six_bits simp_thms)
  ultimately show ?case by blast
next
  case (3 a b)
  let ?w = "[b64_char (of_char a div 4), b64_char (of_char a mod 4 * 16 + of_char b div 16),
    b64_char (of_char b mod 16 * 4)]"
  have "b64encode [a, b] = ?w @ replicate 1 b64_pad" by (simp add: Let_def)
  moreover have "b64_word ?w"
    by (simp only: b64_word_simps b64_char_alphabet byte_parts six_bits simp_thms)
  ultimately show ?case by (metis one_le_numeral)
next
  case (4 a b c s)
  then obtain w k where IH: "b64encode s = w @ replicate k b64_pad" "b64_word w" "k \<le> 2"
    by blast
  let ?v = "b64_char (of_char a div 4) # b64_char (of_char a mod 4 * 16 + of_char b div 16) #
    b64_char (of_char b mod 16 * 4 + of_char c div 64) # b64_char (of_char c mod 64) # w"
  have "b64encode (a # b # c # s) = ?v @ replicate k b64_pad" by (simp add: Let_def IH)
  moreover have "b64_word ?v"
    by (simp only: IH b64_word_simps b64_char_alphabet byte_parts six_bits simp_thms)
  ultimately show ?case using IH by blast
qed

lemma pad_props:
  "is_ascii b64_pad" "url_to_std b64_pad = b64_pad" "std_to_url b64_pad = b64_pad"
  by code_simp+

lemma b64_word_maps:
  assumes "b64_word w"
  shows "list_all is_ascii (w @ replicate k b64_pad)"
    and "list_all is_ascii (map std_to_url w @ replicate k b64_pad)"
    and "map url_to_std (w @ replicate k b64_pad) = w @ replicate k b64_pad"
    and "map url_to_std (map std_to_url w @ replicate k b64_pad) = w @ replicate k b64_pad"
    and "b64_pad \<notin> set (map std_to_url w)"
  using assms
  by (induction w) (auto simp: pad_props b64_alphabet_props list_all_iff dest: b64_alphabet_props(5) [symmetric])

lemma rstrip_pad_append:
  assumes "b64_pad \<notin> set s"
  shows "rstrip_pad (s @ replicate k b64_pad) = s"
proof -
  have "dropWhile (\<lambda>c. c = b64_pad) (replicate k b64_pad @ rev s) = dropWhile (\<lambda>c. c = b64_pad) (rev s)"
    by (induction k) simp_all
  also have "\<dots> = rev s"
    using assms by (cases s rule: rev_cases) auto
  finally show ?thesis by (simp add: rstrip_pad_def)
qed

text \<open>The two decoders invert the two encoders; the URL-safe decoder also reads the
  standard alphabet, which is what the synchronisation code relies on.\<close>

lemma decode_b64_encode: "decode_b64 field (b64encode bs) = Inr bs"
proof -
  have "list_all is_ascii (b64encode bs)"
    using b64encode_shape [of bs] b64_word_maps(1) by auto
  then show ?thesis by (simp add: decode_b64_def)
qed

lemma b64_padding_of_prefix:
  assumes "(length s + k) mod 4 = 0" and "k \<le> 2"
  shows "b64_padding s = replicate k b64_pad"
proof -
  consider "k = 0" | "k = 1" | "k = 2" using assms(2) by linarith
  then have "(4 - length s mod 4) mod 4 = k"
  proof cases
    case 1
    with assms(1) show ?thesis by simp
  next
    case 2
    with assms(1) have "length s mod 4 = 3" by presburger
    with 2 show ?thesis by simp
  next
    case 3
    with assms(1) have "length s mod 4 = 2" by presburger
    with 3 show ?thesis by simp
  qed
  then show ?thesis by (simp add: b64_padding_def)
qed

lemma decode_b64url_encode: "decode_b64url (encode_b64url bs) = Inr bs"
proof -
  obtain w k where e: "b64encode bs = w @ replicate k b64_pad" and w: "b64_word w" and k: "k \<le> 2"
    using b64encode_shape by blast
  let ?u = "map std_to_url w"
  have enc: "encode_b64url bs = ?u"
    unfolding encode_b64url_def e map_append map_replicate pad_props
    by (rule rstrip_pad_append [OF b64_word_maps(5) [OF w]])
  have "(length ?u + k) mod 4 = 0"
    using length_b64encode_mod4 [of bs] unfolding e by simp
  then have pad: "b64_padding ?u = replicate k b64_pad" using k by (rule b64_padding_of_prefix)
  show ?thesis
    unfolding decode_b64url_def enc pad Let_def b64_word_maps(4) [OF w]
    using b64_word_maps(2) [OF w] by (simp only: e [symmetric] b64decode_encode) simp
qed

lemma decode_b64url_of_std: "decode_b64url (b64encode bs) = Inr bs"
proof -
  obtain w k where e: "b64encode bs = w @ replicate k b64_pad" and w: "b64_word w"
    using b64encode_shape by blast
  have pad: "b64_padding (b64encode bs) = []"
    by (simp add: b64_padding_def length_b64encode_mod4)
  have "list_all is_ascii (b64encode bs)" and "map url_to_std (b64encode bs) = b64encode bs"
    unfolding e by (rule b64_word_maps(1) [OF w], rule b64_word_maps(3) [OF w])
  then show ?thesis by (simp add: decode_b64url_def pad)
qed

lemma b64encode_eq_Nil [simp]: "b64encode bs = [] \<longleftrightarrow> bs = []"
  by (cases bs rule: b64encode.cases) (auto simp: Let_def)

subsection \<open>UTF-8\<close>

definition utf8_cont :: "char \<Rightarrow> bool" where
  "utf8_cont c \<longleftrightarrow> (let n = (of_char c :: nat) in 128 \<le> n \<and> n < 192)"

definition byte_in :: "nat \<Rightarrow> nat \<Rightarrow> char \<Rightarrow> bool" where
  "byte_in lo hi c \<longleftrightarrow> (let n = (of_char c :: nat) in lo \<le> n \<and> n \<le> hi)"

text \<open>Whether \<open>decode("utf-8")\<close> succeeds: no overlong forms, no surrogates, at most U+10FFFF.\<close>

fun utf8_ok :: "bytes \<Rightarrow> bool" where
  "utf8_ok [] = True"
| "utf8_ok (a # s) =
     (if is_ascii a then utf8_ok s
      else (case s of
          [] \<Rightarrow> False
        | b # s1 \<Rightarrow>
            if byte_in 194 223 a then utf8_cont b \<and> utf8_ok s1
            else (case s1 of
                [] \<Rightarrow> False
              | c # s2 \<Rightarrow>
                  if byte_in 224 239 a then
                    (if byte_in 224 224 a then byte_in 160 191 b
                     else if byte_in 237 237 a then byte_in 128 159 b else utf8_cont b)
                    \<and> utf8_cont c \<and> utf8_ok s2
                  else (case s2 of
                      [] \<Rightarrow> False
                    | d # s3 \<Rightarrow>
                        byte_in 240 244 a \<and>
                        (if byte_in 240 240 a then byte_in 144 191 b
                         else if byte_in 244 244 a then byte_in 128 143 b else utf8_cont b)
                        \<and> utf8_cont c \<and> utf8_cont d \<and> utf8_ok s3))))"

definition utf8_decode :: "bytes \<Rightarrow> string option" where
  "utf8_decode bs = (if utf8_ok bs then Some bs else None)"

lemma utf8_ok_ascii: "list_all is_ascii s \<Longrightarrow> utf8_ok s"
  by (induction s) auto

text \<open>A valid text is built from ASCII characters and from sequences of non-ASCII bytes.\<close>

lemma non_ascii_bytes:
  "utf8_cont c \<Longrightarrow> \<not> is_ascii c" "byte_in 160 191 c \<Longrightarrow> \<not> is_ascii c"
  "byte_in 128 159 c \<Longrightarrow> \<not> is_ascii c" "byte_in 144 191 c \<Longrightarrow> \<not> is_ascii c"
  "byte_in 128 143 c \<Longrightarrow> \<not> is_ascii c"
  by (auto simp: utf8_cont_def byte_in_def is_ascii_def Let_def)

lemma utf8_ok_induct [consumes 1, case_names Nil Ascii Unit]:
  assumes "utf8_ok s" and "P []"
    and ascii: "\<And>a s. is_ascii a \<Longrightarrow> utf8_ok s \<Longrightarrow> P s \<Longrightarrow> P (a # s)"
    and unit: "\<And>w s. \<forall>c \<in> set w. \<not> is_ascii c \<Longrightarrow> (\<And>t. utf8_ok t \<Longrightarrow> utf8_ok (w @ t)) \<Longrightarrow>
      utf8_ok s \<Longrightarrow> P s \<Longrightarrow> P (w @ s)"
  shows "P s"
  using assms(1,2)
proof (induction s rule: utf8_ok.induct)
  case (2 a s)
  show ?case
  proof (cases "is_ascii a")
    case True
    with 2 show ?thesis by (simp add: ascii)
  next
    case na: False
    with "2.prems" obtain b s1 where s1: "s = b # s1" by (cases s) auto
    show ?thesis
    proof (cases "byte_in 194 223 a")
      case True
      with 2 na s1 unit [of "[a, b]" s1] show ?thesis by (simp add: non_ascii_bytes)
    next
      case n1: False
      with "2.prems" na s1 obtain c s2 where s2: "s1 = c # s2" by (cases s1) auto
      show ?thesis
      proof (cases "byte_in 224 239 a")
        case True
        with 2 na n1 s1 s2 unit [of "[a, b, c]" s2] "2.IH"(3) [OF na s1 n1 s2] show ?thesis
          by (auto simp: non_ascii_bytes split: if_splits)
      next
        case n2: False
        with "2.prems" na s1 n1 s2 obtain d s3 where s3: "s2 = d # s3" by (cases s2) auto
        with 2 na n1 n2 s1 s2 unit [of "[a, b, c, d]" s3] "2.IH"(4) [OF na s1 n1 s2 n2 s3] show ?thesis
          by (auto simp: non_ascii_bytes split: if_splits)
      qed
    qed
  qed
qed simp

lemma utf8_ok_append: "utf8_ok s \<Longrightarrow> utf8_ok t \<Longrightarrow> utf8_ok (s @ t)"
  by (induction s rule: utf8_ok_induct) auto

subsection \<open>The encodings as codecs\<close>

interpretation payload_hash: strict_codec bytes_to_hex payload_hash_hex_to_bytes "\<lambda>bs. length bs = 32"
  by unfold_locales (rule payload_hash_exact)

interpretation b64: codec b64encode "decode_b64 field" "\<lambda>_. True" id
  by unfold_locales (simp_all add: decode_b64_encode)

interpretation b64url: codec encode_b64url decode_b64url "\<lambda>_. True" id
  by unfold_locales (simp_all add: decode_b64url_encode)

subsection \<open>Property\<close>

text \<open>The byte codecs of the datastore and of the protocol lose nothing: a payload hash column
  holds exactly the 32-byte digests whose lower-case hexadecimal text is the API's hash, standard
  and URL-safe base64 decode to what was encoded, and the URL-safe decoder also reads standard
  base64, on which the synchronisation code relies.\<close>

theorem byte_codecs_roundtrip:
  "(payload_hash_hex_to_bytes h = Inr bs \<longleftrightarrow> length bs = 32 \<and> h = bytes_to_hex bs) \<and>
   decode_b64 field (b64encode data) = Inr data \<and>
   decode_b64url (encode_b64url data) = Inr data \<and>
   decode_b64url (b64encode data) = Inr data \<and>
   (encode_b64url data = encode_b64url data' \<longleftrightarrow> data = data')"
  using b64url.encode_eq_iff [of data data']
  by (simp add: payload_hash.decode_iff decode_b64_encode decode_b64url_encode decode_b64url_of_std)

end
