(* ===== verification/Kit_Hash.thy ===== *)
theory Kit_Hash
  imports Kit_Encoding "HOL-Library.Word"
begin

unbundle bit_operations_syntax

section \<open>Digests: \<open>hashlib.sha256\<close> and the SHA-1 behind \<open>uuid.uuid5\<close>\<close>

text \<open>
  The two digests of the Python standard library that the program uses, over 32-bit words
  with wrap-around addition: SHA-256 (payload hashes, \<open>crypto/hashing.py\<close>,
  \<open>backends/sqlite/hashing.py\<close>) and SHA-1 (version 5 UUIDs, \<open>identifiers.py\<close>). The lemmas
  give the length of the digests, which is what the stored payload hash relies on.
\<close>

subsection \<open>Blocks\<close>

definition byte_word :: "char \<Rightarrow> 32 word" where
  "byte_word c = of_nat (of_char c)"

definition word_bytes :: "32 word \<Rightarrow> bytes" where
  "word_bytes w = map (\<lambda>k. char_of (unat (drop_bit k w) mod 256)) [24, 16, 8, 0]"

definition nat_bytes_be :: "nat \<Rightarrow> nat \<Rightarrow> bytes" where
  "nat_bytes_be k n = map (\<lambda>i. char_of (n div 256 ^ i mod 256)) (rev [0..<k])"

text \<open>One bit, zeros up to 56 modulo 64, and the length in bits as a 64-bit big-endian number.\<close>

definition sha_pad :: "bytes \<Rightarrow> bytes" where
  "sha_pad m = m @ char_of (128 :: nat) # replicate ((119 - length m mod 64) mod 64) (char_of (0 :: nat))
     @ nat_bytes_be 8 (8 * length m)"

fun be_words :: "bytes \<Rightarrow> 32 word list" where
  "be_words (a # b # c # d # s) =
     (push_bit 24 (byte_word a) OR push_bit 16 (byte_word b) OR push_bit 8 (byte_word c) OR byte_word d)
     # be_words s"
| "be_words _ = []"

fun blocks16 :: "nat \<Rightarrow> 32 word list \<Rightarrow> 32 word list list" where
  "blocks16 0 ws = []"
| "blocks16 (Suc n) ws = take 16 ws # blocks16 n (drop 16 ws)"

definition sha_blocks :: "bytes \<Rightarrow> 32 word list list" where
  "sha_blocks m = (let p = sha_pad m in blocks16 (length p div 64) (be_words p))"

subsection \<open>SHA-256\<close>

definition sha256_k :: "32 word list" where
  "sha256_k =
   [1116352408, 1899447441, 3049323471, 3921009573, 961987163, 1508970993,
    2453635748, 2870763221, 3624381080, 310598401, 607225278, 1426881987,
    1925078388, 2162078206, 2614888103, 3248222580, 3835390401, 4022224774,
    264347078, 604807628, 770255983, 1249150122, 1555081692, 1996064986,
    2554220882, 2821834349, 2952996808, 3210313671, 3336571891, 3584528711,
    113926993, 338241895, 666307205, 773529912, 1294757372, 1396182291,
    1695183700, 1986661051, 2177026350, 2456956037, 2730485921, 2820302411,
    3259730800, 3345764771, 3516065817, 3600352804, 4094571909, 275423344,
    430227734, 506948616, 659060556, 883997877, 958139571, 1322822218,
    1537002063, 1747873779, 1955562222, 2024104815, 2227730452, 2361852424,
    2428436474, 2756734187, 3204031479, 3329325298]"

definition sha256_init :: "32 word list" where
  "sha256_init =
   [1779033703, 3144134277, 1013904242, 2773480762, 1359893119, 2600822924,
    528734635, 1541459225]"

text \<open>The message schedule, kept newest first: \<open>ws ! 1\<close> is \<open>w[t-2]\<close>, \<open>ws ! 14\<close> is \<open>w[t-15]\<close>.\<close>

fun sha256_extend :: "nat \<Rightarrow> 32 word list \<Rightarrow> 32 word list" where
  "sha256_extend 0 ws = ws"
| "sha256_extend (Suc n) ws =
     (let x = ws ! 14; y = ws ! 1;
          s0 = word_rotr 7 x XOR word_rotr 18 x XOR drop_bit 3 x;
          s1 = word_rotr 17 y XOR word_rotr 19 y XOR drop_bit 10 y
      in sha256_extend n ((ws ! 15 + s0 + ws ! 6 + s1) # ws))"

fun sha256_round :: "32 word \<times> 32 word \<Rightarrow> 32 word list \<Rightarrow> 32 word list" where
  "sha256_round (k, w) [a, b, c, d, e, f, g, h] =
     (let s1 = word_rotr 6 e XOR word_rotr 11 e XOR word_rotr 25 e;
          ch = (e AND f) XOR (NOT e AND g);
          t1 = h + s1 + ch + k + w;
          s0 = word_rotr 2 a XOR word_rotr 13 a XOR word_rotr 22 a;
          maj = (a AND b) XOR (a AND c) XOR (b AND c)
      in [t1 + (s0 + maj), a, b, c, d + t1, e, f, g])"
| "sha256_round _ st = st"

definition sha256_block :: "32 word list \<Rightarrow> 32 word list \<Rightarrow> 32 word list" where
  "sha256_block blk st =
     map (\<lambda>(x, y). x + y) (zip st (fold sha256_round (zip sha256_k (rev (sha256_extend 48 (rev blk)))) st))"

definition sha256 :: "bytes \<Rightarrow> bytes" where
  "sha256 m = concat (map word_bytes (fold sha256_block (sha_blocks m) sha256_init))"

subsection \<open>SHA-1\<close>

definition sha1_init :: "32 word list" where
  "sha1_init = [0x67452301, 0xefcdab89, 0x98badcfe, 0x10325476, 0xc3d2e1f0]"

fun sha1_extend :: "nat \<Rightarrow> 32 word list \<Rightarrow> 32 word list" where
  "sha1_extend 0 ws = ws"
| "sha1_extend (Suc n) ws =
     sha1_extend n (word_rotl 1 (ws ! 2 XOR ws ! 7 XOR ws ! 13 XOR ws ! 15) # ws)"

fun sha1_round :: "nat \<times> 32 word \<Rightarrow> 32 word list \<Rightarrow> 32 word list" where
  "sha1_round (t, w) [a, b, c, d, e] =
     (let (f, k) = (if t < 20 then ((b AND c) OR (NOT b AND d), 0x5a827999)
                    else if t < 40 then (b XOR c XOR d, 0x6ed9eba1)
                    else if t < 60 then ((b AND c) OR (b AND d) OR (c AND d), 0x8f1bbcdc)
                    else (b XOR c XOR d, 0xca62c1d6))
      in [word_rotl 5 a + f + e + k + w, a, word_rotl 30 b, c, d])"
| "sha1_round _ st = st"

definition sha1_block :: "32 word list \<Rightarrow> 32 word list \<Rightarrow> 32 word list" where
  "sha1_block blk st =
     map (\<lambda>(x, y). x + y) (zip st (fold sha1_round (zip [0..<80] (rev (sha1_extend 64 (rev blk)))) st))"

definition sha1 :: "bytes \<Rightarrow> bytes" where
  "sha1 m = concat (map word_bytes (fold sha1_block (sha_blocks m) sha1_init))"

subsection \<open>Digest lengths\<close>

lemma length_word_bytes [simp]: "length (word_bytes w) = 4"
  by (simp add: word_bytes_def)

lemma length_sha256_round [simp]: "length (sha256_round kw st) = length st"
  by (induction kw st rule: sha256_round.induct) (simp_all add: Let_def)

lemma length_sha1_round [simp]: "length (sha1_round tw st) = length st"
  by (induction tw st rule: sha1_round.induct) (simp_all add: Let_def)

lemma length_fold:
  assumes "\<And>x st. length (f x st) = length st"
  shows "length (fold f xs st) = length st"
  by (induction xs arbitrary: st) (simp_all add: assms)

lemma length_sha256 [simp]: "length (sha256 m) = 32"
proof -
  have "length (sha256_block blk st) = length st" for blk st
    by (simp add: sha256_block_def length_fold)
  then have "length (fold sha256_block (sha_blocks m) sha256_init) = 8"
    by (simp add: length_fold) (simp add: sha256_init_def)
  then show ?thesis
    by (simp add: sha256_def length_concat o_def) (simp add: sum_list_triv)
qed

lemma length_sha1 [simp]: "length (sha1 m) = 20"
proof -
  have "length (sha1_block blk st) = length st" for blk st
    by (simp add: sha1_block_def length_fold)
  then have "length (fold sha1_block (sha_blocks m) sha1_init) = 5"
    by (simp add: length_fold) (simp add: sha1_init_def)
  then show ?thesis
    by (simp add: sha1_def length_concat o_def) (simp add: sum_list_triv)
qed

end
