(* ===== verification/Kit_Identifiers.thy ===== *)
theory Kit_Identifiers
  imports Kit_Hash
begin

section \<open>Canonical typed identifiers (\<open>identifiers.py\<close>)\<close>

text \<open>
  The typed identifiers \<open><prefix>:<uuid>\<close> that name every object of the datastore, over a model
  of the part of Python's \<open>uuid\<close> module they rest on: \<open>uuid.UUID(text)\<close> with all the spellings
  it accepts, \<open>str(uuid)\<close> and \<open>uuid.uuid5\<close>. The lemmas show that parsing accepts exactly
  the canonical text, that formatting and parsing are inverse to each other, and that
  identifiers of different types never coincide.
\<close>

subsection \<open>Python's \<open>uuid\<close> module\<close>

type_synonym uuid = "128 word"

text \<open>\<open>'%0nx' % v\<close> for \<open>v < 16 ^ n\<close>.\<close>

fun hex_fixed :: "nat \<Rightarrow> nat \<Rightarrow> string" where
  "hex_fixed 0 v = []"
| "hex_fixed (Suc n) v = hex_fixed n (v div 16) @ [hex_char (v mod 16)]"

definition uuid_dashes :: "string \<Rightarrow> string" where
  "uuid_dashes h = take 8 h @ ''-'' @ take 4 (drop 8 h) @ ''-'' @ take 4 (drop 12 h) @ ''-'' @
     take 4 (drop 16 h) @ ''-'' @ drop 20 h"

definition uuid_str :: "uuid \<Rightarrow> string" where
  "uuid_str u = uuid_dashes (hex_fixed 32 (unat u))"

text \<open>
  The digits of \<open>int(text, 16)\<close>: single underscores are allowed between digits. The flag tells
  whether the previous character was a digit.
\<close>

fun hex_digits :: "nat \<Rightarrow> bool \<Rightarrow> string \<Rightarrow> nat option" where
  "hex_digits acc prev [] = (if prev then Some acc else None)"
| "hex_digits acc prev (c # s) =
     (if c = CHR ''_'' then (if prev then hex_digits acc False s else None)
      else (case hex_val c of None \<Rightarrow> None | Some d \<Rightarrow> hex_digits (16 * acc + d) True s))"

text \<open>After the optional sign: an optional \<open>0x\<close>, which one underscore may follow.\<close>

definition hex_body :: "string \<Rightarrow> nat option" where
  "hex_body s =
     (case s of
        z # x # r \<Rightarrow>
          if z = CHR ''0'' \<and> (x = CHR ''x'' \<or> x = CHR ''X'')
          then (case r of CHR ''_'' # r' \<Rightarrow> hex_digits 0 False r' | _ \<Rightarrow> hex_digits 0 False r)
          else hex_digits 0 False s
      | _ \<Rightarrow> hex_digits 0 False s)"

definition int_base16 :: "string \<Rightarrow> int option" where
  "int_base16 s =
     (case strip s of
        CHR ''+'' # r \<Rightarrow> map_option int (hex_body r)
      | CHR ''-'' # r \<Rightarrow> map_option (\<lambda>n. - int n) (hex_body r)
      | r \<Rightarrow> map_option int (hex_body r))"

text \<open>\<open>uuid.UUID(text)\<close>; \<open>None\<close> is its \<open>ValueError\<close>.\<close>

definition uuid_UUID :: "string \<Rightarrow> uuid option" where
  "uuid_UUID s =
     (let h = remove_sub ''uuid:'' (remove_sub ''urn:'' s);
          h = remove_sub ''-'' (strip_by (\<lambda>c. c = CHR ''{'' \<or> c = CHR ''}'') h)
      in if length h \<noteq> 32 then None
         else (case int_base16 h of
             None \<Rightarrow> None
           | Some i \<Rightarrow> if 0 \<le> i \<and> i < 2 ^ 128 then Some (word_of_int i) else None))"

definition uuid_bytes :: "uuid \<Rightarrow> bytes" where
  "uuid_bytes u = nat_bytes_be 16 (unat u)"

definition bytes_uuid :: "bytes \<Rightarrow> uuid" where
  "bytes_uuid bs = of_nat (fold (\<lambda>b n. 256 * n + of_char b) bs 0)"

text \<open>The RFC 4122 variant bits and the version number.\<close>

definition uuid_set_version :: "nat \<Rightarrow> uuid \<Rightarrow> uuid" where
  "uuid_set_version v u =
     (((u AND NOT (push_bit 48 0xc000)) OR push_bit 48 0x8000) AND NOT (push_bit 64 0xf000))
     OR push_bit 76 (of_nat v)"

definition uuid5 :: "uuid \<Rightarrow> string \<Rightarrow> uuid" where
  "uuid5 ns name = uuid_set_version 5 (bytes_uuid (take 16 (sha1 (uuid_bytes ns @ name))))"

text \<open>\<open>uuid.uuid4\<close>; the sixteen bytes of \<open>os.urandom\<close> are the argument.\<close>

definition uuid4 :: "bytes \<Rightarrow> uuid" where
  "uuid4 entropy = uuid_set_version 4 (bytes_uuid (take 16 entropy))"

subsection \<open>Identifier types and prefixes\<close>

datatype IdentifierType =
    Organization | Client | Owner | Peer_group | Service_group | Node | Secret | Transaction
  | Envelope | Entry_type | Entry_kind | Schema

definition IdentifierTypes :: "IdentifierType list" where
  "IdentifierTypes = [Organization, Client, Owner, Peer_group, Service_group, Node, Secret,
     Transaction, Envelope, Entry_type, Entry_kind, Schema]"

fun identifier_type_value :: "IdentifierType \<Rightarrow> string" where
  "identifier_type_value Organization = ''organization''"
| "identifier_type_value Client = ''client''"
| "identifier_type_value Owner = ''owner''"
| "identifier_type_value Peer_group = ''peer_group''"
| "identifier_type_value Service_group = ''service_group''"
| "identifier_type_value Node = ''node''"
| "identifier_type_value Secret = ''secret''"
| "identifier_type_value Transaction = ''transaction''"
| "identifier_type_value Envelope = ''envelope''"
| "identifier_type_value Entry_type = ''entry_type''"
| "identifier_type_value Entry_kind = ''entry_kind''"
| "identifier_type_value Schema = ''schema''"

fun PREFIX_BY_TYPE :: "IdentifierType \<Rightarrow> string" where
  "PREFIX_BY_TYPE Organization = ''org''"
| "PREFIX_BY_TYPE Client = ''cli''"
| "PREFIX_BY_TYPE Owner = ''own''"
| "PREFIX_BY_TYPE Peer_group = ''pg''"
| "PREFIX_BY_TYPE Service_group = ''sg''"
| "PREFIX_BY_TYPE Node = ''node''"
| "PREFIX_BY_TYPE Secret = ''sec''"
| "PREFIX_BY_TYPE Transaction = ''txn''"
| "PREFIX_BY_TYPE Envelope = ''env''"
| "PREFIX_BY_TYPE Entry_type = ''et''"
| "PREFIX_BY_TYPE Entry_kind = ''ek''"
| "PREFIX_BY_TYPE Schema = ''sch''"

definition TYPE_BY_PREFIX :: "string \<Rightarrow> IdentifierType option" where
  "TYPE_BY_PREFIX = map_of (map (\<lambda>t. (PREFIX_BY_TYPE t, t)) IdentifierTypes)"

record CanonicalIdentifier =
  ci_identifier_type :: IdentifierType
  ci_prefix :: string
  ci_uuid :: uuid

definition CANONICAL_IDENTIFIER_NAMESPACE :: uuid where
  "CANONICAL_IDENTIFIER_NAMESPACE = 0x4bdc25e76e504c47a136b447f15f8035"

subsection \<open>Operations\<close>

definition parse_uuid_text :: "string \<Rightarrow> string \<Rightarrow> uuid res" where
  "parse_uuid_text v field =
     (case uuid_UUID v of
        None \<Rightarrow> Inl (IdentifierValidationError (field @ '' must contain a valid UUID''))
      | Some parsed \<Rightarrow>
          if uuid_str parsed \<noteq> v
          then Inl (IdentifierValidationError (field @ '' must contain lowercase canonical UUID text''))
          else Inr parsed)"

text \<open>\<open>format_identifier\<close> on a \<open>uuid.UUID\<close> and on text.\<close>

definition format_identifier :: "IdentifierType \<Rightarrow> uuid \<Rightarrow> string" where
  "format_identifier t u = PREFIX_BY_TYPE t @ '':'' @ uuid_str u"

definition format_identifier_text :: "IdentifierType \<Rightarrow> string \<Rightarrow> string res" where
  "format_identifier_text t v =
     rbind (parse_uuid_text v ''uuid'') (\<lambda>u. Inr (format_identifier t u))"

definition parse_identifier :: "string \<Rightarrow> string \<Rightarrow> CanonicalIdentifier res" where
  "parse_identifier v field =
     (if v = [] then Inl (IdentifierValidationError (field @ '' is required''))
      else if count_list v CHR '':'' \<noteq> 1
      then Inl (IdentifierValidationError
             (field @ '' must be a canonical typed identifier with one ':' separator''))
      else
        let prefix = takeWhile (\<lambda>c. c \<noteq> CHR '':'') v;
            uuid_text = drop (length prefix + 1) v
        in case TYPE_BY_PREFIX prefix of
             None \<Rightarrow> Inl (IdentifierValidationError (field @ '' has unknown identifier prefix''))
           | Some t \<Rightarrow>
               rbind (parse_uuid_text uuid_text field) (\<lambda>u.
                 if v \<noteq> prefix @ '':'' @ uuid_str u
                 then Inl (IdentifierValidationError (field @ '' must use lowercase canonical UUID text''))
                 else Inr \<lparr>ci_identifier_type = t, ci_prefix = prefix, ci_uuid = u\<rparr>))"

definition identifier_text :: "CanonicalIdentifier \<Rightarrow> string" where
  "identifier_text i = format_identifier (ci_identifier_type i) (ci_uuid i)"

definition validate_identifier :: "string \<Rightarrow> IdentifierType \<Rightarrow> string \<Rightarrow> string res" where
  "validate_identifier v expected field =
     rbind (parse_identifier v field) (\<lambda>parsed.
       if ci_identifier_type parsed \<noteq> expected
       then Inl (IdentifierValidationError
              (field @ '' must be '' @ PREFIX_BY_TYPE expected @ '':<uuid>; got '' @ ci_prefix parsed))
       else Inr (identifier_text parsed))"

definition identifier_type :: "string \<Rightarrow> string \<Rightarrow> IdentifierType res" where
  "identifier_type v field =
     rbind (parse_identifier v field) (\<lambda>p. Inr (ci_identifier_type p))"

definition identifier_uuid :: "string \<Rightarrow> string \<Rightarrow> uuid res" where
  "identifier_uuid v field =
     rbind (parse_identifier v field) (\<lambda>p. Inr (ci_uuid p))"

abbreviation NUL :: string where
  "NUL \<equiv> [CHR 0x00]"

definition deterministic_identifier :: "IdentifierType \<Rightarrow> string \<Rightarrow> string \<Rightarrow> string res" where
  "deterministic_identifier t namespace name =
     (if namespace = []
      then Inl (IdentifierValidationError ''namespace is required for deterministic identifier'')
      else if name = []
      then Inl (IdentifierValidationError ''name is required for deterministic identifier'')
      else Inr (format_identifier t (uuid5 CANONICAL_IDENTIFIER_NAMESPACE
                  (identifier_type_value t @ NUL @ namespace @ NUL @ name))))"

definition deterministic_uuid_text :: "string \<Rightarrow> string \<Rightarrow> string res" where
  "deterministic_uuid_text namespace name =
     (if namespace = []
      then Inl (IdentifierValidationError ''namespace is required for deterministic UUID'')
      else if name = []
      then Inl (IdentifierValidationError ''name is required for deterministic UUID'')
      else Inr (uuid_str (uuid5 CANONICAL_IDENTIFIER_NAMESPACE
                  (''uuid'' @ NUL @ namespace @ NUL @ name))))"

definition random_identifier :: "IdentifierType \<Rightarrow> bytes \<Rightarrow> string" where
  "random_identifier t entropy = format_identifier t (uuid4 entropy)"

definition random_uuid_text :: "bytes \<Rightarrow> string" where
  "random_uuid_text entropy = uuid_str (uuid4 entropy)"

subsection \<open>UUID text\<close>

lemma length_hex_fixed [simp]: "length (hex_fixed n v) = n"
  by (induction n v rule: hex_fixed.induct) simp_all

definition hex_word :: "string \<Rightarrow> bool" where
  "hex_word s \<longleftrightarrow> set s \<subseteq> set hex_alphabet"

lemma hex_char_alphabet: "n < 16 \<Longrightarrow> hex_char n \<in> set hex_alphabet"
  by (simp add: hex_char_def hex_alphabet_def del: set_simps list.set)

lemma hex_word_fixed [simp]: "hex_word (hex_fixed n v)"
  by (induction n v rule: hex_fixed.induct) (simp_all add: hex_word_def hex_char_alphabet)

lemma hex_alphabet_excludes:
  assumes "c \<in> set hex_alphabet"
  shows "c \<noteq> CHR ''-''" "c \<noteq> CHR '':''" "c \<noteq> CHR ''_''" "c \<noteq> CHR ''{''" "c \<noteq> CHR ''}''"
    "c \<noteq> CHR ''x''" "c \<noteq> CHR ''X''" "c \<noteq> CHR ''+''" "\<not> is_space c"
proof -
  have "list_all (\<lambda>c. c \<noteq> CHR ''-'' \<and> c \<noteq> CHR '':'' \<and> c \<noteq> CHR ''_'' \<and> c \<noteq> CHR ''{'' \<and> c \<noteq> CHR ''}''
    \<and> c \<noteq> CHR ''x'' \<and> c \<noteq> CHR ''X'' \<and> c \<noteq> CHR ''+'' \<and> \<not> is_space c) hex_alphabet"
    by code_simp
  with assms show "c \<noteq> CHR ''-''" "c \<noteq> CHR '':''" "c \<noteq> CHR ''_''" "c \<noteq> CHR ''{''" "c \<noteq> CHR ''}''"
    "c \<noteq> CHR ''x''" "c \<noteq> CHR ''X''" "c \<noteq> CHR ''+''" "\<not> is_space c"
    unfolding list_all_iff by blast+
qed

lemma hex_word_notin:
  assumes "hex_word s"
  shows "CHR ''-'' \<notin> set s" "CHR '':'' \<notin> set s"
  using assms hex_alphabet_excludes(1,2) unfolding hex_word_def by blast+

lemma hex_digits_fixed:
  "hex_digits acc prev (hex_fixed n v @ s) =
    (if n = 0 then hex_digits acc prev s else hex_digits (acc * 16 ^ n + v mod 16 ^ n) True s)"
proof (induction n arbitrary: acc v s prev)
  case 0
  then show ?case by simp
next
  case (Suc n)
  have "hex_char (v mod 16) \<noteq> CHR ''_''"
    by (rule hex_alphabet_excludes(3)) (simp add: hex_char_alphabet)
  then have "hex_digits acc prev (hex_fixed (Suc n) v @ s) =
      hex_digits (16 * (acc * 16 ^ n + v div 16 mod 16 ^ n) + v mod 16) True s"
    by (cases "n = 0") (simp_all add: Suc.IH)
  also have "16 * (acc * 16 ^ n + v div 16 mod 16 ^ n) + v mod 16 = acc * 16 ^ Suc n + v mod 16 ^ Suc n"
    by (simp add: mod_mult2_eq)
  finally show ?case by simp
qed

lemma hex_body_word:
  assumes "hex_word s"
  shows "hex_body s = hex_digits 0 False s"
proof (cases s rule: hex_digits.cases [of "(0, False, s)" for s])
  case (1 acc prev)
  then show ?thesis by (simp add: hex_body_def)
next
  case (2 acc prev c r)
  show ?thesis
  proof (cases r)
    case Nil
    with 2 show ?thesis by (simp add: hex_body_def)
  next
    case (Cons x r')
    with assms 2 have "x \<in> set hex_alphabet" by (simp add: hex_word_def)
    then have "x \<noteq> CHR ''x''" "x \<noteq> CHR ''X''" by (rule hex_alphabet_excludes)+
    with 2 Cons show ?thesis by (simp add: hex_body_def)
  qed
qed

lemma int_base16_fixed:
  assumes "0 < n" and "v < 16 ^ n"
  shows "int_base16 (hex_fixed n v) = Some (int v)"
proof -
  let ?s = "hex_fixed n v"
  have w: "hex_word ?s" by simp
  then have "strip ?s = ?s"
    using hex_alphabet_excludes(9) unfolding hex_word_def by (intro strip_by_none) blast
  moreover from assms(1) obtain c r where cr: "?s = c # r"
    by (metis length_hex_fixed length_greater_0_conv neq_Nil_conv)
  moreover from w cr have "c \<noteq> CHR ''+''" "c \<noteq> CHR ''-''"
    using hex_alphabet_excludes(1,8) unfolding hex_word_def by auto
  moreover have "hex_body ?s = Some v"
    using hex_body_word [OF w] hex_digits_fixed [of 0 False n v "[]"] assms by simp
  ultimately show ?thesis
    unfolding int_base16_def by (auto split: list.splits char.splits bool.splits)
qed

lemma remove_dash_append: "remove_sub [d] (s @ t) = remove_sub [d] s @ remove_sub [d] t"
  by (induction s) (simp_all add: starts_with_def)

lemma remove_dash: "remove_sub [d] (d # t) = remove_sub [d] t"
  by (simp add: starts_with_def)

lemma set_uuid_dashes: "set (uuid_dashes h) \<subseteq> insert CHR ''-'' (set h)"
  unfolding uuid_dashes_def by (auto dest: in_set_takeD in_set_dropD)

lemma take_drop_slices:
  "take 8 h @ take 4 (drop 8 h) @ take 4 (drop 12 h) @ take 4 (drop 16 h) @ drop 20 h = h"
proof -
  have slice: "take k (drop n h) @ drop (k + n) h = drop n h" for k n
    by (simp add: append_take_drop_id flip: drop_drop)
  have "take 4 (drop 16 h) @ drop 20 h = drop 16 h" using slice [of 4 16] by simp
  moreover have "take 4 (drop 12 h) @ drop 16 h = drop 12 h" using slice [of 4 12] by simp
  moreover have "take 4 (drop 8 h) @ drop 12 h = drop 8 h" using slice [of 4 8] by simp
  ultimately show ?thesis by simp
qed

lemma remove_dash_uuid_dashes:
  assumes "hex_word h" and "length h = 32"
  shows "remove_sub ''-'' (uuid_dashes h) = h"
proof -
  have sub: "remove_sub ''-'' t = t" if "set t \<subseteq> set h" for t
    using that hex_word_notin(1) [OF assms(1)] by (intro remove_sub_absent [of "CHR ''-''"]) auto
  have "remove_sub ''-'' (uuid_dashes h) =
    take 8 h @ take 4 (drop 8 h) @ take 4 (drop 12 h) @ take 4 (drop 16 h) @ drop 20 h"
    unfolding uuid_dashes_def
    by (simp only: append.simps remove_dash_append remove_dash)
      (simp add: sub set_take_subset set_drop_subset subset_trans [OF set_take_subset set_drop_subset])
  with assms(2) show ?thesis by (simp add: take_drop_slices)
qed

lemma length_uuid_dashes: "length h = 32 \<Longrightarrow> length (uuid_dashes h) = 36"
  by (simp add: uuid_dashes_def)

lemma uuid_str_chars:
  "c \<in> set (uuid_str u) \<Longrightarrow> c = CHR ''-'' \<or> c \<in> set hex_alphabet"
  using set_uuid_dashes [of "hex_fixed 32 (unat u)"] hex_word_fixed [of 32 "unat u"]
  unfolding uuid_str_def hex_word_def by auto

lemma uuid_str_no_colon: "CHR '':'' \<notin> set (uuid_str u)"
  using uuid_str_chars hex_alphabet_excludes(2) by fastforce

lemma length_uuid_str [simp]: "length (uuid_str u) = 36"
  by (simp add: uuid_str_def length_uuid_dashes)

lemma uuid_UUID_str [simp]: "uuid_UUID (uuid_str u) = Some u"
proof -
  let ?s = "uuid_str u"
  have "remove_sub ''uuid:'' (remove_sub ''urn:'' ?s) = ?s"
    using uuid_str_no_colon by (simp add: remove_sub_absent [of "CHR '':''"])
  moreover have "strip_by (\<lambda>c. c = CHR ''{'' \<or> c = CHR ''}'') ?s = ?s"
    using uuid_str_chars hex_alphabet_excludes(4,5) by (intro strip_by_none) fastforce
  moreover have "remove_sub ''-'' ?s = hex_fixed 32 (unat u)"
    unfolding uuid_str_def by (rule remove_dash_uuid_dashes) simp_all
  moreover have lt: "unat u < 16 ^ 32"
    using unsigned_less [of u] by simp
  moreover from lt have "int_base16 (hex_fixed 32 (unat u)) = Some (int (unat u))"
    by (intro int_base16_fixed) simp_all
  ultimately show ?thesis
    using unsigned_less [of u] by (simp add: uuid_UUID_def)
qed

lemma uuid_str_inject [simp]: "uuid_str u = uuid_str v \<longleftrightarrow> u = v"
  by (metis option.inject uuid_UUID_str)

text \<open>Only the canonical text of a UUID is accepted.\<close>

lemma parse_uuid_text_iff: "parse_uuid_text v field = Inr u \<longleftrightarrow> v = uuid_str u"
  by (auto simp: parse_uuid_text_def split: option.splits if_splits)

subsection \<open>Identifiers\<close>

lemma IdentifierTypes_all: "t \<in> set IdentifierTypes"
  by (cases t) (simp_all add: IdentifierTypes_def)

lemma TYPE_BY_PREFIX_type [simp]: "TYPE_BY_PREFIX (PREFIX_BY_TYPE t) = Some t"
  by (cases t) (simp_all add: TYPE_BY_PREFIX_def IdentifierTypes_def)

lemma TYPE_BY_PREFIX_Some: "TYPE_BY_PREFIX p = Some t \<longleftrightarrow> p = PREFIX_BY_TYPE t"
proof
  assume "TYPE_BY_PREFIX p = Some t"
  then show "p = PREFIX_BY_TYPE t"
    unfolding TYPE_BY_PREFIX_def by (auto dest!: map_of_SomeD)
qed simp

lemma PREFIX_BY_TYPE_inject: "PREFIX_BY_TYPE s = PREFIX_BY_TYPE t \<longleftrightarrow> s = t"
  by (metis TYPE_BY_PREFIX_type option.inject)

lemma PREFIX_no_colon: "CHR '':'' \<notin> set (PREFIX_BY_TYPE t)"
  by (cases t) simp_all

lemma format_identifier_split:
  "takeWhile (\<lambda>c. c \<noteq> CHR '':'') (format_identifier t u) = PREFIX_BY_TYPE t"
  "drop (Suc (length (PREFIX_BY_TYPE t))) (format_identifier t u) = uuid_str u"
proof -
  have "\<forall>c \<in> set (PREFIX_BY_TYPE t). c \<noteq> CHR '':''" using PREFIX_no_colon by metis
  then show "takeWhile (\<lambda>c. c \<noteq> CHR '':'') (format_identifier t u) = PREFIX_BY_TYPE t"
    unfolding format_identifier_def by (subst takeWhile_append2) simp_all
qed (simp add: format_identifier_def)

lemma format_identifier_colons: "count_list (format_identifier t u) CHR '':'' = 1"
  using PREFIX_no_colon [of t] uuid_str_no_colon [of u]
  by (simp add: format_identifier_def count_list_0_iff)

lemma format_identifier_inject:
  "format_identifier s u = format_identifier t v \<longleftrightarrow> s = t \<and> u = v"
  by (metis PREFIX_BY_TYPE_inject format_identifier_split uuid_str_inject)

lemma parse_format_identifier:
  "parse_identifier (format_identifier t u) field =
    Inr \<lparr>ci_identifier_type = t, ci_prefix = PREFIX_BY_TYPE t, ci_uuid = u\<rparr>"
proof -
  have "format_identifier t u \<noteq> []" by (simp add: format_identifier_def)
  moreover have "parse_uuid_text (uuid_str u) field = Inr u" by (simp add: parse_uuid_text_iff)
  ultimately show ?thesis
    unfolding parse_identifier_def
    by (simp add: format_identifier_colons format_identifier_split Let_def) (simp add: format_identifier_def)
qed

lemma parse_identifier_iff:
  "parse_identifier v field = Inr i \<longleftrightarrow>
    v = identifier_text i \<and> ci_prefix i = PREFIX_BY_TYPE (ci_identifier_type i)"
proof
  assume "parse_identifier v field = Inr i"
  then obtain t u where "TYPE_BY_PREFIX (ci_prefix i) = Some t"
    "v = ci_prefix i @ '':'' @ uuid_str u" "ci_identifier_type i = t" "ci_uuid i = u"
    unfolding parse_identifier_def Let_def
    by (auto simp: rbind_Inr_iff split: if_splits option.splits)
  then show "v = identifier_text i \<and> ci_prefix i = PREFIX_BY_TYPE (ci_identifier_type i)"
    by (simp add: identifier_text_def format_identifier_def TYPE_BY_PREFIX_Some)
next
  assume "v = identifier_text i \<and> ci_prefix i = PREFIX_BY_TYPE (ci_identifier_type i)"
  then show "parse_identifier v field = Inr i"
    by (simp add: identifier_text_def parse_format_identifier)
qed

text \<open>\<open>validate_identifier\<close> returns its argument, and only canonical text of the expected type.\<close>

lemma validate_identifier_iff:
  "validate_identifier v t field = Inr w \<longleftrightarrow> w = v \<and> (\<exists>u. v = format_identifier t u)"
proof
  assume "validate_identifier v t field = Inr w"
  then obtain i where "parse_identifier v field = Inr i" "ci_identifier_type i = t" "w = identifier_text i"
    by (auto simp: validate_identifier_def rbind_Inr_iff split: if_splits)
  then show "w = v \<and> (\<exists>u. v = format_identifier t u)"
    by (auto simp: parse_identifier_iff identifier_text_def)
qed (auto simp: validate_identifier_def parse_format_identifier identifier_text_def)

lemma validate_identifier_format [simp]:
  "validate_identifier (format_identifier t u) t field = Inr (format_identifier t u)"
  by (auto simp: validate_identifier_iff)

text \<open>Whether a value is a canonical identifier of a type, the condition other components guard on.\<close>

definition is_identifier :: "IdentifierType \<Rightarrow> string \<Rightarrow> bool" where
  "is_identifier t v \<longleftrightarrow> (case validate_identifier v t [] of Inr _ \<Rightarrow> True | Inl _ \<Rightarrow> False)"

lemma is_identifier_iff: "is_identifier t v \<longleftrightarrow> (\<exists>u. v = format_identifier t u)"
proof (cases "validate_identifier v t []")
  case (Inl e)
  then show ?thesis using validate_identifier_iff [of v t "[]" v] by (auto simp: is_identifier_def)
next
  case (Inr w)
  then show ?thesis using validate_identifier_iff [of v t "[]" w] by (simp add: is_identifier_def)
qed

lemma is_identifier_format [simp]: "is_identifier t (format_identifier t u)"
  by (auto simp: is_identifier_iff)

lemma validate_identifier_ok: "is_identifier t v \<Longrightarrow> validate_identifier v t field = Inr v"
  by (auto simp: is_identifier_iff)

lemma is_identifier_types: "is_identifier s v \<Longrightarrow> is_identifier t v \<Longrightarrow> s = t"
  by (auto simp: is_identifier_iff format_identifier_inject)

lemma is_identifier_not_Nil: "is_identifier t v \<Longrightarrow> v \<noteq> []"
  by (auto simp: is_identifier_iff format_identifier_def)

lemma deterministic_identifier_ok:
  "deterministic_identifier t ns nm = Inr v \<Longrightarrow> is_identifier t v"
  by (auto simp: deterministic_identifier_def split: if_splits)

subsection \<open>UUIDs and identifiers as strict codecs\<close>

interpretation uuid_text: strict_codec uuid_str "\<lambda>v. parse_uuid_text v field" "\<lambda>_. True"
  by unfold_locales (simp add: parse_uuid_text_iff)

interpretation typed_id: strict_codec identifier_text "\<lambda>v. parse_identifier v field"
  "\<lambda>i. ci_prefix i = PREFIX_BY_TYPE (ci_identifier_type i)"
  by unfold_locales (auto simp: parse_identifier_iff)

subsection \<open>Property\<close>

text \<open>C36. Identifiers are a strict codec: parsing succeeds exactly on the canonical text
  \<open><prefix>:<lower-case uuid>\<close> and returns what was formatted, although Python's \<open>uuid.UUID\<close> accepts
  many other spellings; validation accepts exactly the identifiers of the expected type and
  returns them unchanged; identifiers of different types or UUIDs have different texts.\<close>

theorem identifier_canonical:
  "(parse_identifier v field = Inr i \<longleftrightarrow>
      v = identifier_text i \<and> ci_prefix i = PREFIX_BY_TYPE (ci_identifier_type i)) \<and>
   (validate_identifier v t field = Inr w \<longleftrightarrow> w = v \<and> (\<exists>u. v = format_identifier t u)) \<and>
   (format_identifier s u = format_identifier t u' \<longleftrightarrow> s = t \<and> u = u')"
  using typed_id.decode_iff validate_identifier_iff format_identifier_inject by auto

end
