(* ===== verification/Kit_Json.thy ===== *)
theory Kit_Json
  imports Kit_Identifiers "HOL-Library.Multiset"
begin

section \<open>JSON values, canonical text and its parser\<close>

text \<open>
  \<open>json.dumps(sort_keys=True, separators=(",", ":"), ensure_ascii=False)\<close> and \<open>json.loads\<close> as the
  program uses them (\<open>crypto/canonical.py\<close>, \<open>backends/sqlite/serialization.py\<close>,
  \<open>backends/sqlite/hashing.py\<close>), with objects as association lists in insertion order. The main
  lemmas: the parser reads back what the printer wrote, up to the order of object members,
  so that two values with the same canonical text are equal as JSON.

  Floating-point numbers have no value here (a text that has one does not parse), nor do
  lone surrogate escapes, which no UTF-8 text can hold.
\<close>

datatype json =
    JNull
  | JBool bool
  | JInt int
  | JStr string
  | JList "json list"
  | JObj "(string \<times> json) list"

type_synonym json_obj = "(string \<times> json) list"

subsection \<open>Printing\<close>

definition digit_char :: "nat \<Rightarrow> char" where
  "digit_char n = char_of (48 + n)"

fun dec_of_nat :: "nat \<Rightarrow> string" where
  "dec_of_nat n = (if n < 10 then [digit_char n] else dec_of_nat (n div 10) @ [digit_char (n mod 10)])"

declare dec_of_nat.simps [simp del]

definition dec_of_int :: "int \<Rightarrow> string" where
  "dec_of_int i = (if i < 0 then CHR ''-'' # dec_of_nat (nat (- i)) else dec_of_nat (nat i))"

abbreviation Quote :: char where
  "Quote \<equiv> CHR 0x22"

abbreviation Backslash :: char where
  "Backslash \<equiv> CHR 0x5C"

definition short_escape :: "char \<Rightarrow> char option" where
  "short_escape c =
     (if c = Quote then Some Quote
      else if c = Backslash then Some Backslash
      else if c = CHR 0x0A then Some CHR ''n''
      else if c = CHR 0x0D then Some CHR ''r''
      else if c = CHR 0x09 then Some CHR ''t''
      else if c = CHR 0x0C then Some CHR ''f''
      else if c = CHR 0x08 then Some CHR ''b''
      else None)"

definition is_control :: "char \<Rightarrow> bool" where
  "is_control c \<longleftrightarrow> (of_char c :: nat) < 32"

definition escape_char :: "char \<Rightarrow> string" where
  "escape_char c =
     (case short_escape c of
        Some e \<Rightarrow> [Backslash, e]
      | None \<Rightarrow>
          if is_control c
          then Backslash # CHR ''u'' # CHR ''0'' # CHR ''0'' #
               [hex_char ((of_char c :: nat) div 16), hex_char ((of_char c :: nat) mod 16)]
          else [c])"

definition print_string :: "string \<Rightarrow> string" where
  "print_string s = Quote # concat (map escape_char s) @ [Quote]"

fun print_json :: "json \<Rightarrow> string"
  and print_elems :: "json list \<Rightarrow> string"
  and print_members :: "json_obj \<Rightarrow> string" where
  "print_json JNull = ''null''"
| "print_json (JBool b) = (if b then ''true'' else ''false'')"
| "print_json (JInt i) = dec_of_int i"
| "print_json (JStr s) = print_string s"
| "print_json (JList js) = CHR ''['' # print_elems js"
| "print_json (JObj kvs) = CHR ''{'' # print_members kvs"
| "print_elems [] = '']''"
| "print_elems [j] = print_json j @ '']''"
| "print_elems (j # js) = print_json j @ CHR '','' # print_elems js"
| "print_members [] = ''}''"
| "print_members [(k, v)] = print_string k @ CHR '':'' # print_json v @ ''}''"
| "print_members ((k, v) # kvs) = print_string k @ CHR '':'' # print_json v @ CHR '','' # print_members kvs"

text \<open>\<open>sort_keys=True\<close>, at every level.\<close>

fun canon :: "json \<Rightarrow> json" where
  "canon (JList js) = JList (map canon js)"
| "canon (JObj kvs) = JObj (sort_key fst (map (\<lambda>(k, v). (k, canon v)) kvs))"
| "canon j = j"

definition canonical_json_text :: "json \<Rightarrow> string" where
  "canonical_json_text j = print_json (canon j)"

text \<open>
  \<open>serialization.canonical_json_bytes\<close>. Every value of the datatype is serialisable and every text
  is its own UTF-8 encoding, so its two error branches do not arise here.
\<close>

definition canonical_json_bytes :: "json_obj \<Rightarrow> bytes" where
  "canonical_json_bytes payload = canonical_json_text (JObj payload)"

definition sha256_hex :: "bytes \<Rightarrow> string" where
  "sha256_hex bs = bytes_to_hex (sha256 bs)"

definition hash_payload :: "json_obj \<Rightarrow> string" where
  "hash_payload payload = sha256_hex (canonical_json_bytes payload)"

subsection \<open>Parsing\<close>

definition json_ws :: "char \<Rightarrow> bool" where
  "json_ws c \<longleftrightarrow> c = CHR '' '' \<or> c = CHR 0x09 \<or> c = CHR 0x0A \<or> c = CHR 0x0D"

definition skip_ws :: "string \<Rightarrow> string" where
  "skip_ws = dropWhile json_ws"

definition short_unescape :: "char \<Rightarrow> char option" where
  "short_unescape c =
     (if c = Quote then Some Quote
      else if c = Backslash then Some Backslash
      else if c = CHR ''/'' then Some CHR ''/''
      else if c = CHR ''n'' then Some CHR 0x0A
      else if c = CHR ''r'' then Some CHR 0x0D
      else if c = CHR ''t'' then Some CHR 0x09
      else if c = CHR ''f'' then Some CHR 0x0C
      else if c = CHR ''b'' then Some CHR 0x08
      else None)"

definition hex4 :: "char \<Rightarrow> char \<Rightarrow> char \<Rightarrow> char \<Rightarrow> nat option" where
  "hex4 a b c d =
     (case (hex_val a, hex_val b, hex_val c, hex_val d) of
        (Some w, Some x, Some y, Some z) \<Rightarrow> Some (((w * 16 + x) * 16 + y) * 16 + z)
      | _ \<Rightarrow> None)"

definition utf8_encode :: "nat \<Rightarrow> bytes" where
  "utf8_encode cp =
     (if cp < 128 then [char_of cp]
      else if cp < 2048 then [char_of (192 + cp div 64), char_of (128 + cp mod 64)]
      else if cp < 65536 then
        [char_of (224 + cp div 4096), char_of (128 + cp div 64 mod 64), char_of (128 + cp mod 64)]
      else [char_of (240 + cp div 262144), char_of (128 + cp div 4096 mod 64),
            char_of (128 + cp div 64 mod 64), char_of (128 + cp mod 64)])"

definition prepend :: "'a list \<Rightarrow> ('a list \<times> 'b) option \<Rightarrow> ('a list \<times> 'b) option" where
  "prepend w = map_option (\<lambda>(s, r). (w @ s, r))"

text \<open>The characters of a string literal after its opening quote.\<close>

fun string_body :: "string \<Rightarrow> (string \<times> string) option" where
  "string_body [] = None"
| "string_body (c # s) =
     (if c = Quote then Some ([], s)
      else if is_control c then None
      else if c \<noteq> Backslash then prepend [c] (string_body s)
      else (case s of
          [] \<Rightarrow> None
        | e # s1 \<Rightarrow>
            (case short_unescape e of
               Some x \<Rightarrow> prepend [x] (string_body s1)
             | None \<Rightarrow>
                 if e \<noteq> CHR ''u'' then None
                 else (case s1 of
                     h1 # h2 # h3 # h4 # s2 \<Rightarrow>
                       (case hex4 h1 h2 h3 h4 of
                          None \<Rightarrow> None
                        | Some cp \<Rightarrow>
                            if cp < 0xd800 \<or> 0xdfff < cp then prepend (utf8_encode cp) (string_body s2)
                            else if 0xdc00 \<le> cp then None
                            else (case s2 of
                                b # u # g1 # g2 # g3 # g4 # s3 \<Rightarrow>
                                  if b = Backslash \<and> u = CHR ''u'' then
                                    (case hex4 g1 g2 g3 g4 of
                                       None \<Rightarrow> None
                                     | Some lo \<Rightarrow>
                                         if 0xdc00 \<le> lo \<and> lo \<le> 0xdfff
                                         then prepend (utf8_encode
                                                (0x10000 + (cp - 0xd800) * 1024 + (lo - 0xdc00)))
                                                (string_body s3)
                                         else None)
                                  else None
                              | _ \<Rightarrow> None))
                   | _ \<Rightarrow> None))))"

definition nat_of_digits :: "string \<Rightarrow> nat" where
  "nat_of_digits ds = fold (\<lambda>c n. 10 * n + ((of_char c :: nat) - 48)) ds 0"

text \<open>An integer literal; a fraction or an exponent would make it a float.\<close>

definition number_body :: "string \<Rightarrow> (nat \<times> string) option" where
  "number_body s =
     (let ds = (case s of c # _ \<Rightarrow> if c = CHR ''0'' then [c] else takeWhile is_digit s | [] \<Rightarrow> []);
          r = drop (length ds) s
      in if ds = [] then None
         else (case r of
             c # _ \<Rightarrow> if c = CHR ''.'' \<or> c = CHR ''e'' \<or> c = CHR ''E'' then None
                      else Some (nat_of_digits ds, r)
           | [] \<Rightarrow> Some (nat_of_digits ds, r)))"

definition parse_number :: "string \<Rightarrow> (json \<times> string) option" where
  "parse_number s =
     (case s of
        [] \<Rightarrow> None
      | c # r \<Rightarrow>
          if c = CHR ''-'' then map_option (\<lambda>(n, t). (JInt (- int n), t)) (number_body r)
          else map_option (\<lambda>(n, t). (JInt (int n), t)) (number_body s))"

definition parse_literal :: "string \<Rightarrow> json \<Rightarrow> string \<Rightarrow> (json \<times> string) option" where
  "parse_literal w v s = (if starts_with w s then Some (v, drop (length w) s) else None)"

text \<open>
  The values, the elements after \<open>[\<close> and the members after \<open>{\<close>. The fuel bounds the number of
  nested calls; \<open>json_loads\<close> starts with more than a text of its length can use. A repeated
  member name keeps the last value; with \<open>unique\<close> it is refused, as the
  \<open>object_pairs_hook\<close> of the envelope parser does.
\<close>

fun parse_value :: "bool \<Rightarrow> nat \<Rightarrow> string \<Rightarrow> (json \<times> string) option"
  and parse_elems :: "bool \<Rightarrow> nat \<Rightarrow> string \<Rightarrow> (json list \<times> string) option"
  and parse_members :: "bool \<Rightarrow> nat \<Rightarrow> json_obj \<Rightarrow> string \<Rightarrow> (json_obj \<times> string) option" where
  "parse_value unique 0 s = None"
| "parse_value unique (Suc n) s =
     (case s of
        [] \<Rightarrow> None
      | c # r \<Rightarrow>
          if c = Quote then map_option (\<lambda>(t, u). (JStr t, u)) (string_body r)
          else if c = CHR ''{'' then
            (case skip_ws r of
               [] \<Rightarrow> None
             | d # u \<Rightarrow> if d = CHR ''}'' then Some (JObj [], u)
                       else map_option (\<lambda>(kvs, v). (JObj kvs, v)) (parse_members unique n [] (d # u)))
          else if c = CHR ''['' then
            (case skip_ws r of
               [] \<Rightarrow> None
             | d # u \<Rightarrow> if d = CHR '']'' then Some (JList [], u)
                       else map_option (\<lambda>(js, v). (JList js, v)) (parse_elems unique n (d # u)))
          else if c = CHR ''n'' then parse_literal ''null'' JNull s
          else if c = CHR ''t'' then parse_literal ''true'' (JBool True) s
          else if c = CHR ''f'' then parse_literal ''false'' (JBool False) s
          else parse_number s)"
| "parse_elems unique 0 s = None"
| "parse_elems unique (Suc n) s =
     (case parse_value unique n s of
        None \<Rightarrow> None
      | Some (j, r) \<Rightarrow>
          (case skip_ws r of
             [] \<Rightarrow> None
           | d # u \<Rightarrow>
               if d = CHR '']'' then Some ([j], u)
               else if d = CHR '','' then
                 map_option (\<lambda>(js, v). (j # js, v)) (parse_elems unique n (skip_ws u))
               else None))"
| "parse_members unique 0 acc s = None"
| "parse_members unique (Suc n) acc s =
     (case s of
        [] \<Rightarrow> None
      | q # r \<Rightarrow>
          if q \<noteq> Quote then None
          else (case string_body r of
              None \<Rightarrow> None
            | Some (k, r1) \<Rightarrow>
                (case skip_ws r1 of
                   [] \<Rightarrow> None
                 | c # r2 \<Rightarrow>
                     if c \<noteq> CHR '':'' then None
                     else (case parse_value unique n (skip_ws r2) of
                         None \<Rightarrow> None
                       | Some (j, r3) \<Rightarrow>
                           (case skip_ws r3 of
                              [] \<Rightarrow> None
                            | d # u \<Rightarrow>
                                if unique \<and> dict_has k acc then None
                                else if d = CHR ''}'' then Some (dict_set k j acc, u)
                                else if d = CHR '','' then
                                  parse_members unique n (dict_set k j acc) (skip_ws u)
                                else None)))))"

definition json_text :: "bool \<Rightarrow> string \<Rightarrow> json option" where
  "json_text unique s =
     (case parse_value unique (2 * length s + 2) (skip_ws s) of
        Some (j, r) \<Rightarrow> if skip_ws r = [] then Some j else None
      | None \<Rightarrow> None)"

definition json_loads :: "string \<Rightarrow> json option" where
  "json_loads = json_text False"

definition json_loads_unique :: "string \<Rightarrow> json option" where
  "json_loads_unique = json_text True"

definition load_canonical_json :: "bytes \<Rightarrow> json_obj res" where
  "load_canonical_json bs =
     (case Option.bind (utf8_decode bs) json_loads of
        None \<Rightarrow> Inl (SQLiteValidationError ''stored payload is not valid canonical JSON'')
      | Some (JObj kvs) \<Rightarrow> Inr kvs
      | Some _ \<Rightarrow> Inl (SQLiteValidationError ''stored payload must be a JSON object''))"

subsection \<open>Strings\<close>

lemma short_escape_inverse: "short_escape c = Some e \<Longrightarrow> short_unescape e = Some c"
  by (auto simp: short_escape_def short_unescape_def split: if_splits)

lemma short_escape_None:
  "short_escape c = None \<Longrightarrow> c \<noteq> Quote \<and> c \<noteq> Backslash"
  by (auto simp: short_escape_def split: if_splits)

lemma hex4_control:
  assumes "is_control c"
  shows "hex4 CHR ''0'' CHR ''0'' (hex_char ((of_char c :: nat) div 16)) (hex_char ((of_char c :: nat) mod 16)) =
    Some (of_char c)"
proof -
  have "hex_val CHR ''0'' = Some 0" by code_simp
  then show ?thesis by (simp add: hex4_def mult.commute [of _ 16])
qed

lemma string_body_escape: "string_body (escape_char c @ t) = prepend [c] (string_body t)"
proof (cases "short_escape c")
  case (Some e)
  then show ?thesis
    by (simp add: escape_char_def short_escape_inverse is_control_def)
next
  case None
  note c = short_escape_None [OF None]
  show ?thesis
  proof (cases "is_control c")
    case True
    then have "(of_char c :: nat) < 32" by (simp add: is_control_def)
    then have "utf8_encode (of_char c) = [c]" "(of_char c :: nat) < 0xd800" by (simp_all add: utf8_encode_def)
    moreover have "short_unescape CHR ''u'' = None" by (simp add: short_unescape_def)
    ultimately show ?thesis
      using None True hex4_control [OF True] by (simp add: escape_char_def is_control_def)
  next
    case False
    with None c show ?thesis by (simp add: escape_char_def)
  qed
qed

lemma prepend_Some [simp]: "prepend w (Some (s, r)) = Some (w @ s, r)"
  by (simp add: prepend_def)

lemma string_body_print: "string_body (concat (map escape_char s) @ Quote # r) = Some (s, r)"
  by (induction s) (simp_all add: string_body_escape)

subsection \<open>Numbers\<close>

lemma is_digit_char: "n < 10 \<Longrightarrow> is_digit (digit_char n)"
  by (simp add: is_digit_def digit_char_def)

lemma digit_char_value: "n < 10 \<Longrightarrow> (of_char (digit_char n) :: nat) = 48 + n"
  by (simp add: digit_char_def)

lemma dec_of_nat_digits: "list_all is_digit (dec_of_nat n)"
proof (induction n rule: dec_of_nat.induct)
  case (1 n)
  then show ?case
    by (cases "n < 10") (simp_all add: dec_of_nat.simps [of n] is_digit_char)
qed

lemma dec_of_nat_neq_Nil [simp]: "dec_of_nat n \<noteq> []"
  by (simp add: dec_of_nat.simps [of n])

lemma nat_of_digits_dec [simp]: "nat_of_digits (dec_of_nat n) = n"
proof (induction n rule: dec_of_nat.induct)
  case (1 n)
  then show ?case
    by (cases "n < 10") (simp_all add: dec_of_nat.simps [of n] nat_of_digits_def digit_char_value)
qed

lemma dec_of_nat_no_leading_zero: "0 < n \<Longrightarrow> hd (dec_of_nat n) \<noteq> CHR ''0''"
proof (induction n rule: dec_of_nat.induct)
  case (1 n)
  show ?case
  proof (cases "n < 10")
    case True
    with "1.prems" have "(of_char (digit_char n) :: nat) \<noteq> of_char (CHR ''0'')"
      by (simp add: digit_char_value)
    with True show ?thesis by (auto simp: dec_of_nat.simps [of n])
  next
    case False
    then have "hd (dec_of_nat (n div 10)) \<noteq> CHR ''0''" by (intro "1.IH") auto
    with False show ?thesis by (simp add: dec_of_nat.simps [of n])
  qed
qed

text \<open>What follows a value: the end of the text or a separator.\<close>

definition delim :: "string \<Rightarrow> bool" where
  "delim r \<longleftrightarrow> (case r of [] \<Rightarrow> True | c # _ \<Rightarrow> c = CHR '','' \<or> c = CHR '']'' \<or> c = CHR ''}'')"

lemma delim_simps [simp]:
  "delim []" "delim (CHR '','' # r)" "delim (CHR '']'' # r)" "delim (CHR ''}'' # r)"
  by (simp_all add: delim_def)

lemma takeWhile_digits:
  assumes "list_all is_digit ds" and "delim r"
  shows "takeWhile is_digit (ds @ r) = ds"
proof -
  have "takeWhile is_digit r = []"
    using assms(2) by (cases r) (auto simp: delim_def is_digit_def)
  then show ?thesis using assms(1) by (simp add: takeWhile_append2 list_all_iff)
qed

lemma number_body_print:
  assumes "delim r"
  shows "number_body (dec_of_nat n @ r) = Some (n, r)"
proof -
  obtain c ds where cds: "dec_of_nat n = c # ds" by (cases "dec_of_nat n") auto
  have digits: "(case dec_of_nat n @ r of c # _ \<Rightarrow> if c = CHR ''0'' then [c] else takeWhile is_digit (dec_of_nat n @ r)
      | [] \<Rightarrow> []) = dec_of_nat n"
  proof (cases "n = 0")
    case True
    have "dec_of_nat 0 = ''0''" by code_simp
    with True show ?thesis by simp
  next
    case False
    then have "c \<noteq> CHR ''0''" using dec_of_nat_no_leading_zero [of n] cds by simp
    then show ?thesis
      using takeWhile_digits [OF dec_of_nat_digits assms, of n] by (simp add: cds)
  qed
  then show ?thesis
    unfolding number_body_def Let_def digits using assms by (cases r) (auto simp: delim_def)
qed

lemma digit_facts:
  assumes "is_digit c"
  shows "c \<noteq> CHR ''-''" "c \<noteq> Quote" "c \<noteq> CHR ''{''" "c \<noteq> CHR ''[''" "c \<noteq> CHR ''n''" "c \<noteq> CHR ''t''"
    "c \<noteq> CHR ''f''" "c \<noteq> CHR ''}''" "c \<noteq> CHR '']''" "\<not> json_ws c"
  using assms by (auto simp: is_digit_def json_ws_def)

lemma dec_of_nat_Cons: obtains c ds where "dec_of_nat n = c # ds" "is_digit c"
  using dec_of_nat_digits [of n] dec_of_nat_neq_Nil [of n] by (cases "dec_of_nat n") auto

lemma parse_number_print:
  assumes "delim r"
  shows "parse_number (dec_of_int i @ r) = Some (JInt i, r)"
proof (cases "i < 0")
  case True
  then show ?thesis
    by (simp add: parse_number_def dec_of_int_def number_body_print assms)
next
  case False
  obtain c ds where "dec_of_nat (nat i) = c # ds" "is_digit c" by (rule dec_of_nat_Cons)
  with False show ?thesis
    using number_body_print [OF assms, of "nat i"]
    by (simp add: parse_number_def dec_of_int_def digit_facts)
qed

subsection \<open>The parser reads what the printer wrote\<close>

text \<open>Objects have distinct member names, at every level; every text is UTF-8.\<close>

fun json_wf :: "json \<Rightarrow> bool" where
  "json_wf (JStr s) \<longleftrightarrow> utf8_ok s"
| "json_wf (JList js) \<longleftrightarrow> (\<forall>j \<in> set js. json_wf j)"
| "json_wf (JObj kvs) \<longleftrightarrow> dict_wf kvs \<and> (\<forall>(k, v) \<in> set kvs. utf8_ok k \<and> json_wf v)"
| "json_wf _ \<longleftrightarrow> True"

lemma skip_ws_Cons: "skip_ws (c # s) = (if json_ws c then skip_ws s else c # s)"
  by (simp add: skip_ws_def)

lemma print_json_head:
  obtains c t where "print_json j = c # t" "\<not> json_ws c" "c \<noteq> CHR '']''" "c \<noteq> CHR ''}''"
proof (cases j)
  case (JInt i)
  obtain c ds where c: "dec_of_nat (nat i) = c # ds" "is_digit c" by (rule dec_of_nat_Cons)
  show ?thesis
  proof (cases "i < 0")
    case True
    with JInt that show ?thesis by (auto simp: dec_of_int_def json_ws_def)
  next
    case False
    with JInt c that show ?thesis by (auto simp: dec_of_int_def digit_facts)
  qed
next
  case (JBool b)
  with that show ?thesis by (cases b) (auto simp: json_ws_def)
qed (use that in \<open>auto simp: print_string_def json_ws_def\<close>)

lemma skip_ws_print [simp]: "skip_ws (print_json j @ r) = print_json j @ r"
  by (rule print_json_head [of j]) (simp add: skip_ws_Cons)

lemma skip_ws_string [simp]: "skip_ws (print_string k @ r) = print_string k @ r"
  by (simp add: print_string_def skip_ws_Cons json_ws_def)

lemma skip_ws_delims [simp]:
  "skip_ws (CHR '','' # r) = CHR '','' # r" "skip_ws (CHR '']'' # r) = CHR '']'' # r"
  "skip_ws (CHR ''}'' # r) = CHR ''}'' # r" "skip_ws (CHR '':'' # r) = CHR '':'' # r"
  by (simp_all add: skip_ws_Cons json_ws_def)

lemma print_elems_head:
  assumes "js \<noteq> []"
  obtains c t where "print_elems js = c # t" "c \<noteq> CHR '']''" "skip_ws (print_elems js @ r) = print_elems js @ r"
proof -
  from assms obtain j js' where js: "js = j # js'" by (cases js) auto
  obtain c t where c: "print_json j = c # t" "\<not> json_ws c" "c \<noteq> CHR '']''" by (rule print_json_head)
  with js that show ?thesis by (cases js') (auto simp: skip_ws_Cons)
qed

lemma print_members_head:
  assumes "kvs \<noteq> []"
  obtains t where "print_members kvs = Quote # t"
proof -
  from assms obtain k v kvs' where "kvs = (k, v) # kvs'" by (cases kvs) auto
  with that show ?thesis by (cases kvs') (auto simp: print_string_def)
qed

lemma dict_set_new: "k \<notin> fst ` set acc \<Longrightarrow> dict_set k v acc = acc @ [(k, v)]"
  by (induction k v acc rule: dict_set.induct) auto

lemma parse_members_step:
  assumes "parse_value unique n (print_json v @ d # r) = Some (v, d # r)" and "d = CHR '','' \<or> d = CHR ''}''"
    and "k \<notin> fst ` set acc"
  shows "parse_members unique (Suc n) acc (print_string k @ CHR '':'' # print_json v @ d # r) =
    (if d = CHR ''}'' then Some (acc @ [(k, v)], r) else parse_members unique n (acc @ [(k, v)]) (skip_ws r))"
  using assms by (auto simp: print_string_def string_body_print dict_has_iff map_of_eq_None_iff dict_set_new)

theorem parse_print:
  "json_wf j \<Longrightarrow> delim r \<Longrightarrow> length (print_json j) \<le> n \<Longrightarrow> parse_value unique n (print_json j @ r) = Some (j, r)"
  "\<forall>j \<in> set js. json_wf j \<Longrightarrow> js \<noteq> [] \<Longrightarrow> length (print_elems js) \<le> n \<Longrightarrow>
    parse_elems unique n (print_elems js @ r) = Some (js, r)"
  "\<forall>(k, v) \<in> set kvs. json_wf v \<Longrightarrow> distinct (map fst (acc @ kvs)) \<Longrightarrow> kvs \<noteq> [] \<Longrightarrow>
    length (print_members kvs) \<le> n \<Longrightarrow> parse_members unique n acc (print_members kvs @ r) = Some (acc @ kvs, r)"
proof (induction j and js and kvs arbitrary: r n and r n and r n acc rule: print_json_print_elems_print_members.induct)
  case 1
  then show ?case by (cases n) (simp_all add: parse_literal_def starts_with_def)
next
  case (2 b)
  then show ?case by (cases n) (auto simp: parse_literal_def starts_with_def split: if_splits)
next
  case (3 i)
  obtain c ds where c: "dec_of_nat (nat i) = c # ds" "is_digit c" by (rule dec_of_nat_Cons)
  from 3 obtain m where "n = Suc m" by (cases n) (auto simp: dec_of_int_def split: if_splits)
  with 3 c show ?case
    using parse_number_print [of r i] by (auto simp: dec_of_int_def digit_facts split: if_splits)
next
  case (4 s)
  then show ?case by (cases n) (simp_all add: print_string_def string_body_print)
next
  case (5 js)
  then obtain m where n: "n = Suc m" by (cases n) auto
  show ?case
  proof (cases "js = []")
    case True
    with n show ?thesis by (simp add: skip_ws_Cons json_ws_def)
  next
    case False
    then obtain c t where ct: "print_elems js = c # t" "c \<noteq> CHR '']''"
      "skip_ws (print_elems js @ r) = print_elems js @ r" by (rule print_elems_head [where r = r])
    have "parse_elems unique m (print_elems js @ r) = Some (js, r)"
      using 5 False n by (intro "5.IH") auto
    with ct n show ?thesis by simp
  qed
next
  case (6 kvs)
  then obtain m where n: "n = Suc m" by (cases n) auto
  show ?case
  proof (cases "kvs = []")
    case True
    with n show ?thesis by (simp add: skip_ws_Cons json_ws_def)
  next
    case False
    then obtain t where t: "print_members kvs = Quote # t" by (rule print_members_head)
    have "parse_members unique m [] (print_members kvs @ r) = Some ([] @ kvs, r)"
      using 6 False n by (intro "6.IH") (auto simp: dict_wf_def)
    with t n show ?thesis by (simp add: skip_ws_Cons json_ws_def)
  qed
next
  case (8 j)
  then obtain m where "n = Suc m" by (cases n) auto
  with 8 show ?case by simp
next
  case (9 j j' js)
  then obtain m where n: "n = Suc m" by (cases n) auto
  have "parse_value unique m (print_json j @ CHR '','' # print_elems (j' # js) @ r) =
      Some (j, CHR '','' # print_elems (j' # js) @ r)"
    using 9 n by (intro "9.IH"(1)) auto
  moreover have "parse_elems unique m (print_elems (j' # js) @ r) = Some (j' # js, r)"
    using 9 n by (intro "9.IH"(2)) auto
  moreover have "skip_ws (print_elems (j' # js) @ r) = print_elems (j' # js) @ r"
    by (rule print_elems_head [of "j' # js" r]) simp_all
  ultimately show ?case using n by simp
next
  case (11 k v)
  then obtain m where n: "n = Suc m" by (cases n) auto
  have "parse_value unique m (print_json v @ CHR ''}'' # r) = Some (v, CHR ''}'' # r)"
    using 11 n by (intro "11.IH") auto
  then show ?case
    using 11 n parse_members_step [of unique m v "CHR ''}''" r k acc] by simp
next
  case (12 k v kv kvs)
  then obtain m where n: "n = Suc m" by (cases n) auto
  let ?rest = "print_members (kv # kvs) @ r"
  have "parse_value unique m (print_json v @ CHR '','' # ?rest) = Some (v, CHR '','' # ?rest)"
    using 12 n by (intro "12.IH"(1)) auto
  then have step: "parse_members unique n acc (print_members ((k, v) # kv # kvs) @ r) =
      parse_members unique m (acc @ [(k, v)]) (skip_ws ?rest)"
    using 12 n parse_members_step [of unique m v "CHR '',''" ?rest k acc] by simp
  have "skip_ws ?rest = ?rest"
    by (rule print_members_head [of "kv # kvs"]) (simp_all add: skip_ws_Cons json_ws_def)
  moreover have "parse_members unique m (acc @ [(k, v)]) ?rest = Some ((acc @ [(k, v)]) @ kv # kvs, r)"
    using 12 n by (intro "12.IH"(2)) auto
  ultimately show ?case using step by simp
qed simp_all

subsection \<open>Canonical text is UTF-8\<close>

lemma ascii_escape: "is_ascii c \<Longrightarrow> list_all is_ascii (escape_char c)"
proof -
  assume a: "is_ascii c"
  have "list_all is_ascii hex_alphabet" by code_simp
  then have "is_ascii (hex_char n)" if "n < 16" for n
    using hex_char_alphabet [OF that] by (simp add: list_all_iff)
  then have h: "is_ascii (hex_char ((of_char c :: nat) div 16))" "is_ascii (hex_char ((of_char c :: nat) mod 16))"
    by simp_all
  have k: "is_ascii Backslash" "is_ascii Quote" "list_all is_ascii ''u0nrtfb''" by code_simp+
  show ?thesis
    using a h k by (auto simp: escape_char_def short_escape_def)
qed

lemma escape_non_ascii: "\<not> is_ascii c \<Longrightarrow> escape_char c = [c]"
proof -
  assume a: "\<not> is_ascii c"
  have "is_ascii Backslash" "is_ascii Quote" "is_ascii CHR 0x0A" "is_ascii CHR 0x0D" "is_ascii CHR 0x09"
    "is_ascii CHR 0x0C" "is_ascii CHR 0x08" by code_simp+
  with a have "short_escape c = None" by (auto simp: short_escape_def)
  moreover from a have "\<not> is_control c" by (simp add: is_ascii_def is_control_def)
  ultimately show ?thesis by (simp add: escape_char_def)
qed

lemma utf8_ok_escape: "utf8_ok s \<Longrightarrow> utf8_ok (concat (map escape_char s))"
proof (induction s rule: utf8_ok_induct)
  case (Ascii a s)
  then show ?case by (simp add: utf8_ok_append utf8_ok_ascii ascii_escape)
next
  case (Unit w s)
  from Unit.hyps(1) have "concat (map escape_char w) = w" by (induction w) (auto simp: escape_non_ascii)
  with Unit show ?case by simp
qed simp

lemma utf8_ok_print_string: "utf8_ok s \<Longrightarrow> utf8_ok (print_string s)"
proof -
  assume "utf8_ok s"
  moreover have "utf8_ok [Quote]" by code_simp
  ultimately have "utf8_ok ([Quote] @ concat (map escape_char s) @ [Quote])"
    by (intro utf8_ok_append utf8_ok_escape)
  then show ?thesis by (simp add: print_string_def)
qed

lemma utf8_ok_dec_of_int: "utf8_ok (dec_of_int i)"
proof -
  have "list_all is_ascii (dec_of_nat n)" for n
    using dec_of_nat_digits [of n] by (auto simp: list_all_iff is_digit_def is_ascii_def Let_def)
  moreover have "is_ascii CHR ''-''" by code_simp
  ultimately show ?thesis by (simp add: dec_of_int_def utf8_ok_ascii)
qed

lemma ascii_punct: "is_ascii CHR ''{''" "is_ascii CHR ''}''" "is_ascii CHR ''[''" "is_ascii CHR '']''"
  "is_ascii CHR '',''" "is_ascii CHR '':''"
  by code_simp+

lemma utf8_ok_print:
  "json_wf j \<Longrightarrow> utf8_ok (print_json j)"
  "\<forall>j \<in> set js. json_wf j \<Longrightarrow> utf8_ok (print_elems js)"
  "\<forall>(k, v) \<in> set kvs. utf8_ok k \<and> json_wf v \<Longrightarrow> utf8_ok (print_members kvs)"
proof (induction j and js and kvs rule: print_json_print_elems_print_members.induct)
  case 1
  show ?case by code_simp
next
  case (2 b)
  have "utf8_ok ''true''" "utf8_ok ''false''" by code_simp+
  then show ?case by (cases b) (simp_all only: print_json.simps if_True if_False)
qed (simp_all add: utf8_ok_dec_of_int utf8_ok_print_string utf8_ok_append ascii_punct)

subsection \<open>Canonical form\<close>

lemma map_fst_canon: "map fst (map (\<lambda>(k, v). (k, canon v)) kvs) = map fst kvs"
  by (induction kvs) auto

lemma distinct_map_fst_sort_key: "distinct (map fst (sort_key f kvs)) \<longleftrightarrow> distinct (map fst kvs)"
  by (metis mset_sort mset_map mset_eq_imp_distinct_iff)

lemma canon_wf: "json_wf j \<Longrightarrow> json_wf (canon j)"
proof (induction j rule: canon.induct)
  case (2 kvs)
  have "distinct (map fst (sort_key fst (map (\<lambda>(k, v). (k, canon v)) kvs)))"
    using "2.prems" by (simp add: distinct_map_fst_sort_key dict_wf_def map_fst_canon del: map_map)
  with 2 show ?case by (auto simp: dict_wf_def)
qed auto

lemma canon_idem [simp]: "canon (canon j) = canon j"
proof (induction j rule: canon.induct)
  case (2 kvs)
  have "map (\<lambda>(k, v). (k, canon v)) (sort_key fst (map (\<lambda>(k, v). (k, canon v)) kvs)) =
      sort_key fst (map (\<lambda>(k, v). (k, canon v)) kvs)"
    by (rule map_idI) (use 2 in auto)
  then show ?case by (simp add: sort_key_id_if_sorted)
qed simp_all

text \<open>The round trip through canonical text: only the order of object members is lost.\<close>

lemma json_text_dumps: "json_wf j \<Longrightarrow> json_text unique (canonical_json_text j) = Some (canon j)"
proof -
  assume "json_wf j"
  then have "json_wf (canon j)" by (rule canon_wf)
  then have "parse_value unique (2 * length (print_json (canon j)) + 2) (print_json (canon j) @ []) = Some (canon j, [])"
    by (intro parse_print) simp_all
  then show ?thesis
    using skip_ws_print [of "canon j" "[]"]
    by (simp add: json_text_def canonical_json_text_def) (simp add: skip_ws_def)
qed

lemma json_loads_dumps: "json_wf j \<Longrightarrow> json_loads (canonical_json_text j) = Some (canon j)"
  and json_loads_unique_dumps: "json_wf j \<Longrightarrow> json_loads_unique (canonical_json_text j) = Some (canon j)"
  by (simp_all add: json_loads_def json_loads_unique_def json_text_dumps)

lemma canonical_json_text_eq:
  assumes "json_wf a" and "json_wf b"
  shows "canonical_json_text a = canonical_json_text b \<longleftrightarrow> canon a = canon b"
  by (metis assms canonical_json_text_def json_loads_dumps option.inject)

definition canon_obj :: "json_obj \<Rightarrow> json_obj" where
  "canon_obj kvs = sort_key fst (map (\<lambda>(k, v). (k, canon v)) kvs)"

lemma canon_JObj: "canon (JObj kvs) = JObj (canon_obj kvs)"
  by (simp add: canon_obj_def)

lemma load_canonical_json_bytes:
  "json_wf (JObj p) \<Longrightarrow> load_canonical_json (canonical_json_bytes p) = Inr (canon_obj p)"
  using json_loads_dumps [of "JObj p"] utf8_ok_print(1) [OF canon_wf, of "JObj p"]
  by (simp add: load_canonical_json_def canonical_json_bytes_def utf8_decode_def canon_JObj canonical_json_text_def
      del: json_wf.simps canon.simps)

lemma map_of_canon_obj: "dict_wf kvs \<Longrightarrow> map_of (canon_obj kvs) k = map_option canon (map_of kvs k)"
proof -
  assume "dict_wf kvs"
  let ?m = "map (\<lambda>(k, v). (k, canon v)) kvs"
  from \<open>dict_wf kvs\<close> have d: "distinct (map fst ?m)" by (simp add: dict_wf_def map_fst_canon del: map_map)
  then have "distinct (map fst (sort_key fst ?m))" by (simp add: distinct_map_fst_sort_key)
  then have "map_of (sort_key fst ?m) = map_of ?m"
    using d by (intro map_of_inject_set [THEN iffD2]) auto
  then show ?thesis by (simp add: canon_obj_def map_of_map)
qed

lemma hash_payload_length [simp]: "length (hash_payload p) = 64"
  by (simp add: hash_payload_def sha256_hex_def)

lemma hash_payload_bytes: "payload_hash_hex_to_bytes (hash_payload p) = Inr (sha256 (canonical_json_bytes p))"
  by (simp add: hash_payload_def sha256_hex_def payload_hash_hex_of_bytes)

subsection \<open>Canonical JSON as a codec\<close>

interpretation canonical_json: codec canonical_json_bytes load_canonical_json "\<lambda>p. json_wf (JObj p)" canon_obj
proof
  fix p
  assume "json_wf (JObj p)"
  then show "load_canonical_json (canonical_json_bytes p) = Inr (canon_obj p)"
    by (rule load_canonical_json_bytes)
  show "canonical_json_bytes (canon_obj p) = canonical_json_bytes p"
    using canon_idem [of "JObj p"]
    by (simp add: canonical_json_bytes_def canonical_json_text_def canon_JObj del: canon_idem canon.simps)
qed

subsection \<open>Property\<close>

text \<open>C37. Canonical JSON is a faithful encoding of payloads: loading the stored bytes of a
  well-formed payload gives the payload back with its members in sorted order, two payloads have
  the same stored bytes exactly when they are equal as JSON, so equal payloads have equal
  hashes whatever the insertion order of their members, and the hash fits its 32-byte column.\<close>

theorem canonical_payload_roundtrip:
  assumes "json_wf (JObj p)" and "json_wf (JObj q)"
  shows "load_canonical_json (canonical_json_bytes p) = Inr (canon_obj p) \<and>
    (canonical_json_bytes p = canonical_json_bytes q \<longleftrightarrow> canon_obj p = canon_obj q) \<and>
    (canon_obj p = canon_obj q \<longrightarrow> hash_payload p = hash_payload q) \<and>
    payload_hash_hex_to_bytes (hash_payload p) = Inr (sha256 (canonical_json_bytes p))"
  using canonical_json.decode_encode [OF assms(1)] canonical_json.encode_eq_iff [OF assms]
  by (simp add: hash_payload_bytes) (auto simp: hash_payload_def)

theorem canonical_payload_roundtrip_witness:
  "load_canonical_json (canonical_json_bytes [(''b'', JInt (- 5)), (''a'', JStr ''x'')]) =
     Inr [(''a'', JStr ''x''), (''b'', JInt (- 5))] \<and>
   hash_payload [(''b'', JInt (- 5)), (''a'', JStr ''x'')] =
     hash_payload [(''a'', JStr ''x''), (''b'', JInt (- 5))]"
proof -
  have wf: "json_wf (JObj [(''b'', JInt (- 5)), (''a'', JStr ''x'')])"
    "json_wf (JObj [(''a'', JStr ''x''), (''b'', JInt (- 5))])"
    by (simp_all add: dict_wf_def utf8_ok_ascii is_ascii_def)
  have c: "canon_obj [(''b'', JInt (- 5)), (''a'', JStr ''x'')] = [(''a'', JStr ''x''), (''b'', JInt (- 5))]"
    "canon_obj [(''a'', JStr ''x''), (''b'', JInt (- 5))] = [(''a'', JStr ''x''), (''b'', JInt (- 5))]"
    by (simp_all add: canon_obj_def)
  show ?thesis using canonical_payload_roundtrip [OF wf] unfolding c by blast
qed

subsection \<open>The reader terminates\<close>

lemma length_skip_ws: "length (skip_ws s) \<le> length s"
  by (simp add: skip_ws_def length_dropWhile_le)

lemma skip_ws_shorter: "skip_ws s = d # u \<Longrightarrow> length u < length s"
  using length_skip_ws [of s] by simp

lemma prepend_SomeD: "prepend w x = Some (t, r) \<Longrightarrow> \<exists>t'. x = Some (t', r)"
  by (auto simp: prepend_def)

lemma string_body_step:
  assumes "string_body (c # s) = Some (t, r)"
  shows "r = s \<or> (\<exists>s' t'. length s' \<le> length s \<and> string_body s' = Some (t', r))"
proof (cases "c = Quote \<or> is_control c \<or> c \<noteq> Backslash")
  case True
  with assms show ?thesis by (auto split: if_split_asm dest!: prepend_SomeD)
next
  case False
  then have c: "c \<noteq> Quote" "is_control c = False" "(c \<noteq> Backslash) = False" by blast+
  note body = assms [unfolded string_body.simps c if_False if_not_P [OF c(1)]]
  from body obtain e s1 where s: "s = e # s1" by (cases s) simp_all
  show ?thesis
  proof (cases "short_unescape e")
    case (Some x)
    with body have "prepend [x] (string_body s1) = Some (t, r)" by (simp add: s)
    then obtain t' where "string_body s1 = Some (t', r)" "length s1 \<le> length s" by (auto simp: s dest!: prepend_SomeD)
      then show ?thesis by blast
  next
    case None
    from body None obtain h1 h2 h3 h4 s2 cp where h: "s1 = h1 # h2 # h3 # h4 # s2" "hex4 h1 h2 h3 h4 = Some cp"
      by (simp add: s split: if_split_asm list.split_asm option.split_asm)
    show ?thesis
    proof (cases "cp < 0xd800 \<or> 0xdfff < cp")
      case True
      with body None h have "prepend (utf8_encode cp) (string_body s2) = Some (t, r)" by (simp add: s split: if_split_asm)
      then obtain t' where "string_body s2 = Some (t', r)" "length s2 \<le> length s" by (auto simp: s h dest!: prepend_SomeD)
      then show ?thesis by blast
    next
      case pair: False
      with body None h obtain b u g1 g2 g3 g4 s3 w where "s2 = b # u # g1 # g2 # g3 # g4 # s3" "prepend w (string_body s3) = Some (t, r)"
        by (simp add: s split: if_split_asm list.split_asm option.split_asm)
      then obtain t' where "string_body s3 = Some (t', r)" "length s3 \<le> length s" by (auto simp: s h dest!: prepend_SomeD)
      then show ?thesis by blast
    qed
  qed
qed

lemma string_body_consumes: "string_body s = Some (t, r) \<Longrightarrow> length r < length s"
proof (induction s arbitrary: t rule: length_induct)
  case (1 s)
  then obtain c s' where s: "s = c # s'" by (cases s) simp_all
  from string_body_step [OF "1.prems" [unfolded s]] show ?case
  proof (elim disjE exE conjE)
    fix t u assume u: "length u \<le> length s'" "string_body u = Some (t, r)"
    then have "length u < length s" by (simp add: s)
    with "1.IH" u have "length r < length u" by blast
    with u(1) show ?thesis by (simp add: s)
  qed (simp add: s)
qed

lemma parse_number_consumes: "parse_number s = Some (j, r) \<Longrightarrow> length r < length s"
  by (auto simp: parse_number_def number_body_def Let_def split: list.split_asm if_split_asm)

lemma parse_literal_consumes: "parse_literal w v s = Some (j, r) \<Longrightarrow> w \<noteq> [] \<Longrightarrow> length r < length s"
  by (cases s) (auto simp: parse_literal_def starts_with_def split: if_split_asm)

lemma parse_value_step:
  assumes "parse_value unique (Suc n) (c # s) = Some (j, r)"
  shows "length r \<le> length s \<or> (\<exists>d u. skip_ws s = d # u \<and>
    ((\<exists>js. parse_elems unique n (d # u) = Some (js, r)) \<or> (\<exists>kvs. parse_members unique n [] (d # u) = Some (kvs, r))))"
proof -
  have lit: "length r \<le> length s" if "parse_literal w v (c # s) = Some (j, r)" "w \<noteq> []" for w v using parse_literal_consumes [OF that] by simp
  have num: "length r \<le> length s" if "parse_number (c # s) = Some (j, r)" using parse_number_consumes [OF that] by simp
  consider "c = Quote" | "c = CHR ''{''" | "c = CHR ''[''" | "c \<noteq> Quote" "c \<noteq> CHR ''{''" "c \<noteq> CHR ''[''" by blast
  then show ?thesis
  proof cases
    case 1
    with assms show ?thesis using string_body_consumes [of s] by fastforce
  next
    case 2
    with assms show ?thesis using skip_ws_shorter [of s] by (fastforce split: list.split_asm if_split_asm)
  next
    case 3
    with assms show ?thesis using skip_ws_shorter [of s] by (fastforce split: list.split_asm if_split_asm)
  next
    case 4
    with assms lit num show ?thesis by (auto split: if_split_asm)
  qed
qed

lemma parse_elems_step:
  assumes "parse_elems unique (Suc n) s = Some (js, r)"
  shows "\<exists>j t d u. parse_value unique n s = Some (j, t) \<and> skip_ws t = d # u \<and> (r = u \<or> (\<exists>js'. parse_elems unique n (skip_ws u) = Some (js', r)))"
  using assms by (auto split: if_split_asm list.split_asm option.split_asm)

lemma parse_members_step':
  assumes "parse_members unique (Suc n) acc s = Some (kvs, r)"
  shows "\<exists>s1 k r1 c r2 j r3 d u. s = Quote # s1 \<and> string_body s1 = Some (k, r1) \<and> skip_ws r1 = c # r2 \<and> parse_value unique n (skip_ws r2) = Some (j, r3) \<and>
    skip_ws r3 = d # u \<and> (r = u \<or> (\<exists>acc'. parse_members unique n acc' (skip_ws u) = Some (kvs, r)))"
  using assms by (auto split: if_split_asm list.split_asm option.split_asm)

lemma parse_consumes:
  "(\<forall>s j r. parse_value unique n s = Some (j, r) \<longrightarrow> length r < length s) \<and>
   (\<forall>s js r. parse_elems unique n s = Some (js, r) \<longrightarrow> length r < length s) \<and>
   (\<forall>acc s kvs r. parse_members unique n acc s = Some (kvs, r) \<longrightarrow> length r < length s)"
proof (induction n)
  case (Suc n)
  then have v: "parse_value unique n s = Some (j, r) \<Longrightarrow> length r < length s"
    and es: "parse_elems unique n s = Some (js, r) \<Longrightarrow> length r < length s"
    and ms: "parse_members unique n acc s = Some (kvs, r) \<Longrightarrow> length r < length s" for s j r js acc kvs by blast+
  show ?case
  proof (intro conjI allI impI)
    fix s j r assume a: "parse_value unique (Suc n) s = Some (j, r)"
    then obtain c t where s: "s = c # t" by (cases s) simp_all
    from parse_value_step [OF a [unfolded s]] show "length r < length s"
      using es ms length_skip_ws [of t] by (fastforce simp: s)
  next
    fix s js r assume "parse_elems unique (Suc n) s = Some (js, r)"
    from parse_elems_step [OF this] obtain j t d u where "parse_value unique n s = Some (j, t)" "skip_ws t = d # u"
      "r = u \<or> (\<exists>js'. parse_elems unique n (skip_ws u) = Some (js', r))" by blast
    with v [of s j t] es [of "skip_ws u" _ r] skip_ws_shorter [of t d u] length_skip_ws [of u] show "length r < length s" by auto
  next
    fix acc s kvs r assume "parse_members unique (Suc n) acc s = Some (kvs, r)"
    from parse_members_step' [OF this] obtain s1 k r1 c r2 j r3 d u acc' where m: "s = Quote # s1" "string_body s1 = Some (k, r1)" "skip_ws r1 = c # r2"
      "parse_value unique n (skip_ws r2) = Some (j, r3)" "skip_ws r3 = d # u" "r = u \<or> parse_members unique n acc' (skip_ws u) = Some (kvs, r)" by blast
    from m(6) have "length r \<le> length u" using ms [of acc' "skip_ws u" kvs r] length_skip_ws [of u] by auto
    with string_body_consumes [OF m(2)] skip_ws_shorter [OF m(3)] length_skip_ws [of r2] v [OF m(4)] skip_ws_shorter [OF m(5)] m(1)
    show "length r < length s" by simp
  qed
qed simp

lemmas parse_shorter = parse_consumes [THEN conjunct1, rule_format] parse_consumes [THEN conjunct2, THEN conjunct1, rule_format]

text \<open>Once a call has succeeded, or has more fuel than its text can use, more fuel changes nothing.\<close>

lemma parse_fuel:
  "(\<forall>s. parse_value unique n s \<noteq> None \<or> 2 * length s < n \<longrightarrow> parse_value unique (Suc n) s = parse_value unique n s) \<and>
   (\<forall>s. parse_elems unique n s \<noteq> None \<or> 2 * length s + 1 < n \<longrightarrow> parse_elems unique (Suc n) s = parse_elems unique n s) \<and>
   (\<forall>acc s. parse_members unique n acc s \<noteq> None \<or> 2 * length s + 1 < n \<longrightarrow> parse_members unique (Suc n) acc s = parse_members unique n acc s)"
proof (induction n)
  case (Suc n)
  then have v: "parse_value unique n s \<noteq> None \<or> 2 * length s < n \<Longrightarrow> parse_value unique (Suc n) s = parse_value unique n s"
    and es: "parse_elems unique n s \<noteq> None \<or> 2 * length s + 1 < n \<Longrightarrow> parse_elems unique (Suc n) s = parse_elems unique n s"
    and ms: "parse_members unique n acc s \<noteq> None \<or> 2 * length s + 1 < n \<Longrightarrow> parse_members unique (Suc n) acc s = parse_members unique n acc s"
    for s acc by blast+
  note [simp del] = parse_value.simps parse_elems.simps parse_members.simps
  show ?case
  proof (intro conjI allI impI)
    fix s assume a: "parse_value unique (Suc n) s \<noteq> None \<or> 2 * length s < Suc n"
    show "parse_value unique (Suc (Suc n)) s = parse_value unique (Suc n) s"
    proof (cases s)
      case (Cons c t)
      have "parse_elems unique (Suc n) (d # u) = parse_elems unique n (d # u)" "parse_members unique (Suc n) [] (d # u) = parse_members unique n [] (d # u)"
        if "skip_ws t = d # u" "2 * length s < Suc n" for d u
        using es [of "d # u"] ms [of "[]" "d # u"] that skip_ws_shorter [OF that(1)] by (simp_all add: Cons)
      with a es ms show ?thesis unfolding Cons parse_value.simps(2) [of _ "Suc n"] parse_value.simps(2) [of _ n]
        by (auto split: list.split if_split_asm)
    qed (simp add: parse_value.simps)
  next
    fix s assume a: "parse_elems unique (Suc n) s \<noteq> None \<or> 2 * length s + 1 < Suc n"
    then have "parse_value unique n s \<noteq> None \<or> 2 * length s < n" by (auto simp: parse_elems.simps split: option.split_asm)
    note v = v [OF this]
    show "parse_elems unique (Suc (Suc n)) s = parse_elems unique (Suc n) s"
    proof (cases "parse_value unique n s")
      case (Some p)
      then obtain j r where p: "parse_value unique n s = Some (j, r)" by (cases p) auto
      have "parse_elems unique (Suc n) (skip_ws u) = parse_elems unique n (skip_ws u)" if "skip_ws r = CHR '','' # u" for u
        using a es [of "skip_ws u"] parse_shorter(1) [OF p] skip_ws_shorter [OF that] length_skip_ws [of u]
        by (auto simp: parse_elems.simps(2) [of unique n s] p that)
      then show ?thesis by (simp add: parse_elems.simps(2) [of unique "Suc n" s] parse_elems.simps(2) [of unique n s] v p split: list.split)
    qed (simp add: parse_elems.simps(2) v)
  next
    fix acc s assume a: "parse_members unique (Suc n) acc s \<noteq> None \<or> 2 * length s + 1 < Suc n"
    show "parse_members unique (Suc (Suc n)) acc s = parse_members unique (Suc n) acc s"
    proof (cases "\<exists>s1 k r1 r2. s = Quote # s1 \<and> string_body s1 = Some (k, r1) \<and> skip_ws r1 = CHR '':'' # r2")
      case True
      then obtain s1 k r1 r2 where s: "s = Quote # s1" "string_body s1 = Some (k, r1)" "skip_ws r1 = CHR '':'' # r2" by blast
      have short: "length (skip_ws r2) < length s"
        using string_body_consumes [OF s(2)] skip_ws_shorter [OF s(3)] length_skip_ws [of r2] by (simp add: s(1))
      from a short have "parse_value unique n (skip_ws r2) \<noteq> None \<or> 2 * length (skip_ws r2) < n" by (auto simp: parse_members.simps s split: option.split_asm)
      note v = v [OF this]
      show ?thesis
      proof (cases "parse_value unique n (skip_ws r2)")
        case (Some p)
        then obtain j r where p: "parse_value unique n (skip_ws r2) = Some (j, r)" by (cases p) auto
        have step: "parse_members unique (Suc n) (dict_set k j acc) (skip_ws u) = parse_members unique n (dict_set k j acc) (skip_ws u)"
          if "skip_ws r = CHR '','' # u" "\<not> (unique \<and> dict_has k acc)" for u
          using a ms [of "dict_set k j acc" "skip_ws u"] short parse_shorter(1) [OF p] skip_ws_shorter [OF that(1)] length_skip_ws [of u]
          by (auto simp: parse_members.simps(2) [of unique n acc "Quote # s1"] s p that)
        note simps = parse_members.simps(2) [of unique "Suc n" acc "Quote # s1"] parse_members.simps(2) [of unique n acc "Quote # s1"] s v p
        show ?thesis
        proof (cases "unique \<and> dict_has k acc")
          case True
          then have none: "parse_members unique (Suc m) acc s = None" if "parse_value unique m (skip_ws r2) = Some (j, r)" for m
            using that by (auto simp: parse_members.simps(2) s split: list.split)
          show ?thesis unfolding none [OF p] none [OF trans [OF v p]] ..
        next
          case False
          then show ?thesis using step by (cases "skip_ws r") (simp_all add: simps if_not_P [OF False])
        qed
      qed (simp add: parse_members.simps(2) s v)
    next
      case False
      then have none: "parse_members unique (Suc m) acc s = None" for m
        by (auto simp: parse_members.simps(2) split: list.split option.split)
      show ?thesis unfolding none ..
    qed
  qed
qed simp

lemma parse_value_mono: "n \<le> m \<Longrightarrow> parse_value unique n s = Some x \<Longrightarrow> parse_value unique m s = Some x"
proof (induction rule: dec_induct)
  case (step m)
  then show ?case using parse_fuel [THEN conjunct1, rule_format, of unique m s] by (simp del: parse_value.simps)
qed (simp del: parse_value.simps)

lemma parse_value_enough: "n \<le> m \<Longrightarrow> 2 * length s < n \<Longrightarrow> parse_value unique m s = parse_value unique n s"
proof (induction rule: dec_induct)
  case (step m)
  then show ?case using parse_fuel [THEN conjunct1, rule_format, of unique m s] by (simp del: parse_value.simps)
qed (simp del: parse_value.simps)

lemma json_text_iff: "json_text unique s = Some j \<longleftrightarrow> (\<exists>n r. parse_value unique n (skip_ws s) = Some (j, r) \<and> skip_ws r = [])"
proof
  assume "json_text unique s = Some j"
  then obtain r where "parse_value unique (2 * length s + 2) (skip_ws s) = Some (j, r)" "skip_ws r = []"
    unfolding json_text_def by (auto simp del: parse_value.simps split: option.split_asm if_split_asm)
  then show "\<exists>n r. parse_value unique n (skip_ws s) = Some (j, r) \<and> skip_ws r = []"
    by blast
next
  assume "\<exists>n r. parse_value unique n (skip_ws s) = Some (j, r) \<and> skip_ws r = []"
  then obtain n r where p: "parse_value unique n (skip_ws s) = Some (j, r)" "skip_ws r = []" by blast
  let ?m = "2 * length s + 2"
  have "2 * length (skip_ws s) < ?m" using length_skip_ws [of s] by simp
  from parse_value_enough [OF _ this, of "max n ?m" unique] parse_value_mono [OF _ p(1), of "max n ?m"]
  have "parse_value unique ?m (skip_ws s) = Some (j, r)" by (simp del: parse_value.simps)
  with p(2) show "json_text unique s = Some j" unfolding json_text_def by simp
qed


end
