(* ===== verification/Kit_Taxonomy.thy ===== *)
theory Kit_Taxonomy
  imports Kit_Json
begin

section \<open>Vocabulary: names, identifiers and the registry document (\<open>taxonomy/\<close>)\<close>

text \<open>
  \<open>normalize.py\<close> (canonical vocabulary names), \<open>uuid.py\<close> (their deterministic identifiers),
  \<open>registry_doc.py\<close> (the registry document and its upserts), \<open>merge.py\<close> (the add-only merge),
  \<open>validate.py\<close> and \<open>resolve.py\<close> (the vocabulary of one write). The lemmas: canonical names are
  exactly the fixed points of normalisation; the merge keeps every identity of the base;
  resolving registers what it returns and registers nothing twice.
\<close>

subsection \<open>Canonical names (\<open>normalize.py\<close>)\<close>

text \<open>\<open>re.sub(run, r, s)\<close> for a run of characters that satisfy \<open>P\<close>.\<close>

function collapse :: "(char \<Rightarrow> bool) \<Rightarrow> char \<Rightarrow> string \<Rightarrow> string" where
  "collapse P r [] = []"
| "collapse P r (c # s) = (if P c then r # collapse P r (dropWhile P s) else c # collapse P r s)"
  by pat_completeness auto
termination
  by (relation "measure (\<lambda>(P, r, s). length s)") (auto simp: less_Suc_eq_le length_dropWhile_le)

definition underscore :: "char \<Rightarrow> bool" where
  "underscore c \<longleftrightarrow> c = CHR ''_''"

definition name_char :: "char \<Rightarrow> bool" where
  "name_char c \<longleftrightarrow> is_lower c \<or> is_digit c \<or> underscore c"

text \<open>\<open>^[a-z0-9_]+$\<close>; \<open>$\<close> also matches before a final newline.\<close>

definition canonical_charset :: "string \<Rightarrow> bool" where
  "canonical_charset s \<longleftrightarrow>
     (let w = (if s \<noteq> [] \<and> last s = CHR 0x0A then butlast s else s) in w \<noteq> [] \<and> list_all name_char w)"

definition validate_taxonomy_name_charset :: "string \<Rightarrow> unit res" where
  "validate_taxonomy_name_charset name =
     rguard (canonical_charset name)
       (ValidationError ''taxonomy name must use lowercase letters, digits, and underscores only '')"

definition separator :: "char \<Rightarrow> bool" where
  "separator c \<longleftrightarrow> c = CHR ''-'' \<or> is_space c"

definition canonical_taxonomy_name :: "string \<Rightarrow> string res" where
  "canonical_taxonomy_name raw =
     (let stripped = strip raw in
      if stripped = [] then Inl (ValidationError ''taxonomy name cannot be empty'')
      else
        let lowered = lower stripped;
            underscored = collapse separator CHR ''_'' lowered;
            collapsed = strip_by underscore (collapse underscore CHR ''_'' underscored)
        in if collapsed = []
           then Inl (ValidationError ''taxonomy name cannot be empty after normalization'')
           else rbind (validate_taxonomy_name_charset collapsed) (\<lambda>_. Inr collapsed))"

definition resolve_stored_taxonomy_name :: "string \<Rightarrow> bool \<Rightarrow> string res" where
  "resolve_stored_taxonomy_name raw force_raw =
     (let stripped = strip raw in
      if stripped = [] then Inl (ValidationError ''taxonomy name cannot be empty'')
      else if force_raw then Inr stripped
      else canonical_taxonomy_name raw)"

definition normalization_changed :: "string \<Rightarrow> bool" where
  "normalization_changed raw =
     (case canonical_taxonomy_name raw of Inl _ \<Rightarrow> True | Inr c \<Rightarrow> strip raw \<noteq> c)"

subsection \<open>Vocabulary identifiers (\<open>uuid.py\<close>)\<close>

definition taxonomy_uuid :: "string \<Rightarrow> string \<Rightarrow> bool \<Rightarrow> string res" where
  "taxonomy_uuid kind name force_raw =
     rbind (resolve_stored_taxonomy_name name force_raw) (\<lambda>stored.
       deterministic_uuid_text ''taxonomy'' (kind @ '':'' @ stored))"

definition entry_type_id_for_name :: "string \<Rightarrow> bool \<Rightarrow> string res" where
  "entry_type_id_for_name name force_raw =
     rbind (resolve_stored_taxonomy_name name force_raw) (\<lambda>stored.
       deterministic_identifier Entry_type ''taxonomy'' (''entry_type:'' @ stored))"

definition entry_kind_id_for_name :: "string \<Rightarrow> bool \<Rightarrow> string res" where
  "entry_kind_id_for_name name force_raw =
     rbind (resolve_stored_taxonomy_name name force_raw) (\<lambda>stored.
       deterministic_identifier Entry_kind ''taxonomy'' (''entry_kind:'' @ stored))"

definition tag_id_for_name :: "string \<Rightarrow> bool \<Rightarrow> string res" where
  "tag_id_for_name name force_raw = taxonomy_uuid ''tag'' name force_raw"

subsection \<open>The registry document (\<open>registry_doc.py\<close>)\<close>

record TaxonomyEntry =
  te_id :: string
  te_name :: string
  te_builtin :: bool
  te_operator_comment :: string

record TaxonomyRegistryDocument =
  td_registry_version :: int
  td_entry_types :: "TaxonomyEntry list"
  td_entry_kinds :: "TaxonomyEntry list"
  td_tags :: "TaxonomyEntry list"

definition empty_taxonomy_document :: TaxonomyRegistryDocument where
  "empty_taxonomy_document =
     \<lparr>td_registry_version = 1, td_entry_types = [], td_entry_kinds = [], td_tags = []\<rparr>"

definition taxonomy_entry_to_dict :: "TaxonomyEntry \<Rightarrow> json" where
  "taxonomy_entry_to_dict e = JObj
     ([(''id'', JStr (te_id e)), (''name'', JStr (te_name e)), (''builtin'', JBool (te_builtin e))] @
      (if te_operator_comment e \<noteq> [] then [(''operator_comment'', JStr (te_operator_comment e))] else []))"

definition taxonomy_document_to_dict :: "TaxonomyRegistryDocument \<Rightarrow> json" where
  "taxonomy_document_to_dict d = JObj
     [(''registry_version'', JInt (td_registry_version d)),
      (''entry_types'', JList (map taxonomy_entry_to_dict (sort_key te_name (td_entry_types d)))),
      (''entry_kinds'', JList (map taxonomy_entry_to_dict (sort_key te_name (td_entry_kinds d)))),
      (''tags'', JList (map taxonomy_entry_to_dict (sort_key te_name (td_tags d))))]"

definition find_entry :: "TaxonomyEntry list \<Rightarrow> string \<Rightarrow> TaxonomyEntry option res" where
  "find_entry entries name =
     rbind (canonical_taxonomy_name name) (\<lambda>stored. Inr (find (\<lambda>e. te_name e = stored) entries))"

definition find_entry_type :: "TaxonomyRegistryDocument \<Rightarrow> string \<Rightarrow> TaxonomyEntry option res" where
  "find_entry_type d name = find_entry (td_entry_types d) name"

definition find_entry_kind :: "TaxonomyRegistryDocument \<Rightarrow> string \<Rightarrow> TaxonomyEntry option res" where
  "find_entry_kind d name = find_entry (td_entry_kinds d) name"

definition find_tag :: "TaxonomyRegistryDocument \<Rightarrow> string \<Rightarrow> TaxonomyEntry option res" where
  "find_tag d name = find_entry (td_tags d) name"

text \<open>The entry already there, or a new one at the end of the list.\<close>

definition upsert_entry ::
  "(string \<Rightarrow> bool \<Rightarrow> string res) \<Rightarrow> TaxonomyEntry list \<Rightarrow> string \<Rightarrow> bool \<Rightarrow> string \<Rightarrow> bool
    \<Rightarrow> (TaxonomyEntry \<times> TaxonomyEntry list) res" where
  "upsert_entry id_for entries stored builtin comment force_raw =
     (case find (\<lambda>e. te_name e = stored) entries of
        Some e \<Rightarrow> Inr (e, entries)
      | None \<Rightarrow>
          rbind (id_for stored force_raw) (\<lambda>i.
            let e = \<lparr>te_id = i, te_name = stored, te_builtin = builtin, te_operator_comment = comment\<rparr>
            in Inr (e, entries @ [e])))"

definition upsert_entry_type ::
  "TaxonomyRegistryDocument \<Rightarrow> string \<Rightarrow> bool \<Rightarrow> string \<Rightarrow> bool
    \<Rightarrow> (TaxonomyEntry \<times> TaxonomyRegistryDocument) res" where
  "upsert_entry_type d name builtin comment force_raw =
     rbind (resolve_stored_taxonomy_name name force_raw) (\<lambda>stored.
     rbind (if force_raw then Inr None else find_entry_type d stored) (\<lambda>existing.
       case existing of
         Some e \<Rightarrow> Inr (e, d)
       | None \<Rightarrow>
           rbind (upsert_entry entry_type_id_for_name (td_entry_types d) stored builtin comment force_raw)
             (\<lambda>(e, es). Inr (e, d\<lparr>td_entry_types := es\<rparr>))))"

definition upsert_entry_kind ::
  "TaxonomyRegistryDocument \<Rightarrow> string \<Rightarrow> bool \<Rightarrow> string \<Rightarrow> bool
    \<Rightarrow> (TaxonomyEntry \<times> TaxonomyRegistryDocument) res" where
  "upsert_entry_kind d name builtin comment force_raw =
     rbind (resolve_stored_taxonomy_name name force_raw) (\<lambda>stored.
     rbind (upsert_entry entry_kind_id_for_name (td_entry_kinds d) stored builtin comment force_raw)
       (\<lambda>(e, es). Inr (e, d\<lparr>td_entry_kinds := es\<rparr>)))"

definition upsert_tag ::
  "TaxonomyRegistryDocument \<Rightarrow> string \<Rightarrow> bool \<Rightarrow> string \<Rightarrow> bool
    \<Rightarrow> (TaxonomyEntry \<times> TaxonomyRegistryDocument) res" where
  "upsert_tag d name builtin comment force_raw =
     rbind (resolve_stored_taxonomy_name name force_raw) (\<lambda>stored.
     rbind (upsert_entry tag_id_for_name (td_tags d) stored builtin comment force_raw)
       (\<lambda>(e, es). Inr (e, d\<lparr>td_tags := es\<rparr>)))"

subsection \<open>The add-only merge (\<open>merge.py\<close>)\<close>

record TaxonomyMergeResult =
  tm_document :: TaxonomyRegistryDocument
  tm_added_types :: nat
  tm_added_kinds :: nat
  tm_added_tags :: nat

definition merge_item ::
  "TaxonomyEntry \<Rightarrow> (string \<times> TaxonomyEntry) list \<times> nat \<Rightarrow> (string \<times> TaxonomyEntry) list \<times> nat" where
  "merge_item item acc =
     (let (by_name, added) = acc in
      case map_of by_name (te_name item) of
        Some existing \<Rightarrow>
          if te_builtin existing \<and> \<not> te_builtin item then (by_name, added)
          else if te_operator_comment item \<noteq> [] \<and> te_operator_comment existing = []
          then (dict_set (te_name item)
                  (existing\<lparr>te_operator_comment := te_operator_comment item\<rparr>) by_name, added)
          else (by_name, added)
      | None \<Rightarrow> (dict_set (te_name item) item by_name, added + 1))"

definition merge_list :: "TaxonomyEntry list \<Rightarrow> TaxonomyEntry list \<Rightarrow> TaxonomyEntry list \<times> nat" where
  "merge_list base overlay =
     (let by_name = dict_update [] (map (\<lambda>item. (te_name item, item)) base);
          (by_name, added) = fold merge_item overlay (by_name, 0)
      in (sort_key te_name (map snd by_name), added))"

definition merge_taxonomy_documents ::
  "TaxonomyRegistryDocument \<Rightarrow> TaxonomyRegistryDocument \<Rightarrow> TaxonomyMergeResult" where
  "merge_taxonomy_documents base overlay =
     (let (types, added_types) = merge_list (td_entry_types base) (td_entry_types overlay);
          (kinds, added_kinds) = merge_list (td_entry_kinds base) (td_entry_kinds overlay);
          (tags, added_tags) = merge_list (td_tags base) (td_tags overlay)
      in \<lparr>tm_document =
            \<lparr>td_registry_version = max (td_registry_version base) (td_registry_version overlay),
             td_entry_types = types, td_entry_kinds = kinds, td_tags = tags\<rparr>,
          tm_added_types = added_types, tm_added_kinds = added_kinds, tm_added_tags = added_tags\<rparr>)"

definition merge_seed_into_registry ::
  "TaxonomyRegistryDocument \<Rightarrow> TaxonomyRegistryDocument \<Rightarrow> TaxonomyMergeResult" where
  "merge_seed_into_registry registry seeds =
     merge_taxonomy_documents
       (if td_registry_version seeds > td_registry_version registry
        then registry\<lparr>td_registry_version := td_registry_version seeds\<rparr> else registry) seeds"

subsection \<open>Vocabulary of one write (\<open>validate.py\<close>, \<open>resolve.py\<close>)\<close>

definition require_known_entry_type :: "TaxonomyRegistryDocument \<Rightarrow> string \<Rightarrow> bool \<Rightarrow> unit res" where
  "require_known_entry_type registry name policy_mode =
     (if \<not> policy_mode then Inr ()
      else rbind (find_entry_type registry name) (\<lambda>e.
        rguard (e \<noteq> None) (ValidationError ''unknown entry_type '')))"

definition require_known_entry_kind :: "TaxonomyRegistryDocument \<Rightarrow> string \<Rightarrow> bool \<Rightarrow> unit res" where
  "require_known_entry_kind registry name policy_mode =
     (if \<not> policy_mode then Inr ()
      else rbind (find_entry_kind registry name) (\<lambda>e.
        rguard (e \<noteq> None) (ValidationError ''unknown entry_kind '')))"

definition policy_mode_active :: "bool \<Rightarrow> bool" where
  "policy_mode_active force_policy = force_policy"

record ResolvedVocabularyNames =
  rv_entry_type :: string
  rv_entry_kind :: string
  rv_tags :: "string list"

text \<open>The loop over the tags; \<open>seen\<close> holds the lower-case keys met so far.\<close>

fun resolve_tags ::
  "string list \<Rightarrow> bool \<Rightarrow> bool \<Rightarrow> string list \<Rightarrow> string list \<Rightarrow> TaxonomyRegistryDocument
    \<Rightarrow> (string list \<times> TaxonomyRegistryDocument) res" where
  "resolve_tags [] force_raw auto_register seen stored_tags registry = Inr (stored_tags, registry)"
| "resolve_tags (raw # tags) force_raw auto_register seen stored_tags registry =
     rbind (resolve_stored_taxonomy_name raw force_raw) (\<lambda>stored.
       if lower stored \<in> set seen
       then resolve_tags tags force_raw auto_register seen stored_tags registry
       else
         rbind (if auto_register then rbind (upsert_tag registry stored False [] force_raw) (\<lambda>(_, r). Inr r)
                else Inr registry) (\<lambda>registry'.
           resolve_tags tags force_raw auto_register (lower stored # seen) (stored_tags @ [stored]) registry'))"

definition resolve_vocabulary_for_write ::
  "TaxonomyRegistryDocument \<Rightarrow> string \<Rightarrow> string \<Rightarrow> string list \<Rightarrow> bool \<Rightarrow> bool \<Rightarrow> bool
    \<Rightarrow> (ResolvedVocabularyNames \<times> TaxonomyRegistryDocument) res" where
  "resolve_vocabulary_for_write registry entry_type entry_kind tags policy_mode force_raw auto_register =
     rbind (resolve_stored_taxonomy_name entry_type force_raw) (\<lambda>stored_type.
     rbind (resolve_stored_taxonomy_name entry_kind force_raw) (\<lambda>stored_kind.
     let strict = policy_mode_active policy_mode in
     rbind (require_known_entry_type registry stored_type strict) (\<lambda>_.
     rbind (require_known_entry_kind registry stored_kind strict) (\<lambda>_.
     rbind (if auto_register \<or> \<not> strict
            then rbind (upsert_entry_type registry stored_type False [] force_raw) (\<lambda>(_, r1).
                 rbind (upsert_entry_kind r1 stored_kind False [] force_raw) (\<lambda>(_, r2). Inr r2))
            else Inr registry) (\<lambda>registry'.
     rbind (resolve_tags tags force_raw auto_register [] [] registry') (\<lambda>(stored_tags, registry'').
       Inr (\<lparr>rv_entry_type = stored_type, rv_entry_kind = stored_kind, rv_tags = stored_tags\<rparr>,
            registry'')))))))"

subsection \<open>Canonical names are the fixed points of normalisation\<close>

fun no_double :: "char \<Rightarrow> string \<Rightarrow> bool" where
  "no_double d (a # b # s) \<longleftrightarrow> \<not> (a = d \<and> b = d) \<and> no_double d (b # s)"
| "no_double d _ \<longleftrightarrow> True"

definition canonical_name :: "string \<Rightarrow> bool" where
  "canonical_name c \<longleftrightarrow> c \<noteq> [] \<and> list_all name_char c \<and> \<not> underscore (hd c) \<and> \<not> underscore (last c)
     \<and> no_double CHR ''_'' c"

lemma name_char_facts:
  assumes "name_char c"
  shows "lower_char c = c" "\<not> separator c" "\<not> is_space c" "c \<noteq> CHR 0x0A"
  using assms
  by (auto simp: name_char_def lower_char_def separator_def is_space_def is_lower_def is_upper_def is_digit_def
      underscore_def Let_def)

lemma collapse_none: "\<forall>c \<in> set s. \<not> P c \<Longrightarrow> collapse P r s = s"
  by (induction s) auto

lemma no_double_Cons: "no_double d (a # s) \<longleftrightarrow> no_double d s \<and> (s = [] \<or> a \<noteq> d \<or> hd s \<noteq> d)"
  by (cases s) auto

lemma no_double_append: "no_double d (s @ t) \<Longrightarrow> no_double d s \<and> no_double d t"
proof (induction s)
  case (Cons a s)
  then show ?case by (cases s) (auto simp: no_double_Cons)
qed simp

lemma no_double_rev: "no_double d (rev s) = no_double d s"
proof -
  have snoc: "no_double d (s @ [a]) \<longleftrightarrow> no_double d s \<and> (s = [] \<or> a \<noteq> d \<or> last s \<noteq> d)" for s a
    by (induction s) (auto simp: no_double_Cons hd_append)
  show ?thesis by (induction s) (auto simp: snoc no_double_Cons last_rev)
qed

lemma no_double_dropWhile: "no_double d s \<Longrightarrow> no_double d (dropWhile P s)"
  by (induction s) (auto simp: no_double_Cons)

lemma no_double_strip_by: "no_double d s \<Longrightarrow> no_double d (strip_by P s)"
  unfolding strip_by_def
  by (metis no_double_dropWhile no_double_rev)

lemma collapse_underscore_id: "no_double CHR ''_'' s \<Longrightarrow> collapse underscore CHR ''_'' s = s"
proof (induction s)
  case (Cons a s)
  show ?case
  proof (cases "underscore a")
    case True
    with Cons.prems have "dropWhile underscore s = s"
      by (cases s) (auto simp: underscore_def)
    moreover from True have "a = CHR ''_''" by (simp add: underscore_def)
    ultimately show ?thesis using True Cons by (simp add: no_double_Cons)
  next
    case False
    with Cons show ?thesis by (simp add: no_double_Cons)
  qed
qed simp

lemma hd_collapse: "collapse P r s \<noteq> [] \<Longrightarrow> hd (collapse P r s) = (if P (hd s) then r else hd s)"
  by (cases s) auto

lemma collapse_dropWhile_head:
  "collapse P r (dropWhile P s) = [] \<or> \<not> P (hd (collapse P r (dropWhile P s)))"
proof (cases "dropWhile P s")
  case Nil
  show ?thesis unfolding Nil by simp
next
  case (Cons a t)
  then have "\<not> P a" by (metis hd_dropWhile list.sel(1) list.distinct(1))
  with Cons show ?thesis by simp
qed

lemma collapse_no_double: "no_double CHR ''_'' (collapse underscore CHR ''_'' s)"
proof (induction "length s" arbitrary: s rule: less_induct)
  case less
  show ?case
  proof (cases s)
    case (Cons c t)
    show ?thesis
    proof (cases "underscore c")
      case True
      let ?d = "collapse underscore CHR ''_'' (dropWhile underscore t)"
      have "?d = [] \<or> \<not> underscore (hd ?d)" by (rule collapse_dropWhile_head)
      then have "?d = [] \<or> hd ?d \<noteq> CHR ''_''" by (simp add: underscore_def)
      moreover have "no_double CHR ''_'' ?d"
        using Cons length_dropWhile_le [of underscore t] by (intro less) simp
      ultimately show ?thesis using Cons True by (simp add: no_double_Cons)
    next
      case False
      then have "c \<noteq> CHR ''_''" by (simp add: underscore_def)
      moreover have "no_double CHR ''_'' (collapse underscore CHR ''_'' t)" using Cons by (intro less) simp
      ultimately show ?thesis using Cons False by (simp add: no_double_Cons)
    qed
  qed simp
qed

lemma name_chars:
  assumes "list_all name_char c"
  shows "strip c = c" "lower c = c" "collapse separator CHR ''_'' c = c" "CHR 0x0A \<notin> set c"
proof -
  from assms have ch: "name_char x" if "x \<in> set c" for x using that by (simp add: list_all_iff)
  show "strip c = c" using ch name_char_facts(3) by (intro strip_by_none) blast
  show "lower c = c" using ch name_char_facts(1) by (intro map_idI) blast
  show "collapse separator CHR ''_'' c = c" using ch name_char_facts(2) by (intro collapse_none) blast
  show "CHR 0x0A \<notin> set c" using ch name_char_facts(4) by blast
qed

lemma canonical_charset_iff: "CHR 0x0A \<notin> set c \<Longrightarrow> canonical_charset c \<longleftrightarrow> c \<noteq> [] \<and> list_all name_char c"
proof -
  assume nl: "CHR 0x0A \<notin> set c"
  have "\<not> (c \<noteq> [] \<and> last c = CHR 0x0A)"
  proof
    assume "c \<noteq> [] \<and> last c = CHR 0x0A"
    then have "CHR 0x0A \<in> set c" using last_in_set [of c] by (simp only: simp_thms)
    with nl show False ..
  qed
  then show ?thesis unfolding canonical_charset_def Let_def by (simp only: if_False)
qed

lemma canonical_name_fixed:
  assumes "canonical_name c"
  shows "canonical_taxonomy_name c = Inr c"
proof -
  from assms have ne: "c \<noteq> []" and ch: "list_all name_char c" and nd: "no_double CHR ''_'' c"
    and hl: "\<not> underscore (hd c)" "\<not> underscore (last c)"
    by (simp_all add: canonical_name_def)
  have "strip_by underscore c = c" using hl by (rule strip_by_noop)
  moreover have "canonical_charset c"
    using ne ch by (simp add: canonical_charset_iff name_chars)
  ultimately show ?thesis
    using ne nd
    by (simp add: canonical_taxonomy_name_def Let_def collapse_underscore_id validate_taxonomy_name_charset_def
        name_chars [OF ch])
qed

lemma set_collapse: "set (collapse P r s) \<subseteq> insert r {c \<in> set s. \<not> P c}"
proof (induction P r s rule: collapse.induct)
  case (2 P r c s)
  then show ?case using set_dropWhileD [of _ P s] by auto
qed simp

lemma canonical_taxonomy_name_range:
  assumes "canonical_taxonomy_name raw = Inr c"
  shows "canonical_name c"
proof -
  let ?u = "collapse separator CHR ''_'' (lower (strip raw))"
  let ?c = "strip_by underscore (collapse underscore CHR ''_'' ?u)"
  from assms have c: "c = ?c" "c \<noteq> []" "canonical_charset c"
    by (auto simp: canonical_taxonomy_name_def Let_def validate_taxonomy_name_charset_def rbind_Inr_iff
        split: if_splits)
  have nl: "CHR 0x0A \<notin> set c"
  proof
    assume "CHR 0x0A \<in> set c"
    then have "CHR 0x0A \<in> set ?u"
      using c(1) set_strip_by [of underscore "collapse underscore CHR ''_'' ?u"]
        set_collapse [of underscore "CHR ''_''" ?u] by auto
    then have "\<not> separator CHR 0x0A" using set_collapse [of separator "CHR ''_''"] by fastforce
    then show False by (simp add: separator_def is_space_def)
  qed
  with c have "list_all name_char c" by (simp add: canonical_charset_iff)
  moreover have "\<not> underscore (hd c)" "\<not> underscore (last c)"
    using c(1,2) hd_strip_by [of underscore] last_strip_by [of underscore] by simp_all
  moreover have "no_double CHR ''_'' c"
    unfolding c(1) by (intro no_double_strip_by collapse_no_double)
  ultimately show ?thesis using c(2) by (simp add: canonical_name_def)
qed

lemma canonical_taxonomy_name_idem:
  "canonical_taxonomy_name raw = Inr c \<Longrightarrow> canonical_taxonomy_name c = Inr c"
  by (intro canonical_name_fixed canonical_taxonomy_name_range)

lemma resolve_stored_idem:
  "resolve_stored_taxonomy_name raw f = Inr s \<Longrightarrow> resolve_stored_taxonomy_name s f = Inr s"
proof -
  assume r: "resolve_stored_taxonomy_name raw f = Inr s"
  show ?thesis
  proof (cases f)
    case True
    with r show ?thesis by (auto simp: resolve_stored_taxonomy_name_def Let_def split: if_splits)
  next
    case False
    with r have c: "canonical_taxonomy_name raw = Inr s"
      by (auto simp: resolve_stored_taxonomy_name_def Let_def split: if_splits)
    then have "canonical_name s" by (rule canonical_taxonomy_name_range)
    then have "strip s = s" "s \<noteq> []" by (simp_all add: canonical_name_def name_chars)
    with False canonical_taxonomy_name_idem [OF c] show ?thesis by (simp add: resolve_stored_taxonomy_name_def)
  qed
qed

subsection \<open>The merge is add-only\<close>

text \<open>What a merge may do to an entry of the base: fill in a missing comment, nothing else.\<close>

definition keeps_entry :: "TaxonomyEntry \<Rightarrow> TaxonomyEntry \<Rightarrow> bool" where
  "keeps_entry e e' \<longleftrightarrow> te_id e' = te_id e \<and> te_name e' = te_name e \<and> te_builtin e' = te_builtin e \<and>
     (te_operator_comment e = [] \<or> te_operator_comment e' = te_operator_comment e)"

lemma keeps_entry_refl [simp]: "keeps_entry e e"
  by (simp add: keeps_entry_def)

lemma keeps_entry_trans: "keeps_entry a b \<Longrightarrow> keeps_entry b c \<Longrightarrow> keeps_entry a c"
  by (auto simp: keeps_entry_def)

text \<open>The dictionary of the loop is keyed by name.\<close>

definition by_name_wf :: "(string \<times> TaxonomyEntry) list \<Rightarrow> bool" where
  "by_name_wf d \<longleftrightarrow> dict_wf d \<and> (\<forall>k e. map_of d k = Some e \<longrightarrow> te_name e = k)"

lemma length_dict_set: "length (dict_set k v d) = (if dict_has k d then length d else Suc (length d))"
  by (induction k v d rule: dict_set.induct) (auto simp: dict_has_def)

lemma merge_item_props:
  assumes "merge_item item (d, n) = (d', n')" and "by_name_wf d"
  shows "by_name_wf d'" and "length d' + n = length d + n'"
    and "dom (map_of d') = insert (te_name item) (dom (map_of d))"
    and "map_of d k = Some e \<Longrightarrow> \<exists>e'. map_of d' k = Some e' \<and> keeps_entry e e'"
  using assms
  by (auto simp: merge_item_def by_name_wf_def length_dict_set dict_has_iff keeps_entry_def
      split: option.splits if_splits)

lemma fold_merge_item_props:
  assumes "fold merge_item overlay (d, n) = (d', n')" and "by_name_wf d"
  shows "by_name_wf d'" and "length d' + n = length d + n'"
    and "dom (map_of d') = te_name ` set overlay \<union> dom (map_of d)"
    and "map_of d k = Some e \<Longrightarrow> \<exists>e'. map_of d' k = Some e' \<and> keeps_entry e e'"
proof -
  have "by_name_wf d' \<and> length d' + n = length d + n' \<and>
      dom (map_of d') = te_name ` set overlay \<union> dom (map_of d) \<and>
      (\<forall>k e. map_of d k = Some e \<longrightarrow> (\<exists>e'. map_of d' k = Some e' \<and> keeps_entry e e'))"
    using assms
  proof (induction overlay arbitrary: d n)
    case Nil
    then show ?case by auto
  next
    case (Cons item overlay)
    obtain d1 n1 where step: "merge_item item (d, n) = (d1, n1)" by fastforce
    note p = merge_item_props [OF step Cons.prems(2)]
    have "fold merge_item overlay (d1, n1) = (d', n')" using Cons.prems(1) step by simp
    from Cons.IH [OF this p(1)]
    have IH: "by_name_wf d'" "length d' + n1 = length d1 + n'"
      "dom (map_of d') = te_name ` set overlay \<union> dom (map_of d1)"
      "\<And>k e. map_of d1 k = Some e \<Longrightarrow> \<exists>e'. map_of d' k = Some e' \<and> keeps_entry e e'"
      by blast+
    have "\<exists>e'. map_of d' k = Some e' \<and> keeps_entry e e'" if "map_of d k = Some e" for k e
      using p(4) [OF that] IH(4) by (meson keeps_entry_trans)
    moreover have "length d' + n = length d + n'" using p(2) IH(2) by linarith
    moreover have "dom (map_of d') = te_name ` set (item # overlay) \<union> dom (map_of d)"
      using p(3) IH(3) by auto
    ultimately show ?case using IH(1) by blast
  qed
  then show "by_name_wf d'" and "length d' + n = length d + n'"
    and "dom (map_of d') = te_name ` set overlay \<union> dom (map_of d)"
    and "map_of d k = Some e \<Longrightarrow> \<exists>e'. map_of d' k = Some e' \<and> keeps_entry e e'"
    by blast+
qed

lemma dict_update_new:
  assumes "distinct (map fst new)" and "fst ` set d \<inter> fst ` set new = {}"
  shows "dict_update d new = d @ new"
  using assms
proof (induction new arbitrary: d)
  case Nil
  then show ?case by (simp add: dict_update_def)
next
  case (Cons kv new)
  obtain k v where kv: "kv = (k, v)" by fastforce
  have "dict_update d (kv # new) = dict_update (d @ [(k, v)]) new"
    using Cons.prems by (auto simp: dict_update_def kv dict_set_new)
  also have "\<dots> = (d @ [(k, v)]) @ new"
    using Cons.prems kv by (intro Cons.IH) auto
  finally show ?case by (simp add: kv)
qed

definition add_only_merge :: "TaxonomyEntry list \<Rightarrow> TaxonomyEntry list \<Rightarrow> TaxonomyEntry list \<Rightarrow> nat \<Rightarrow> bool" where
  "add_only_merge base overlay merged added \<longleftrightarrow>
     sorted (map te_name merged) \<and> distinct (map te_name merged) \<and>
     te_name ` set merged = te_name ` set base \<union> te_name ` set overlay \<and>
     length merged = length base + added \<and>
     (\<forall>e \<in> set base. \<exists>e' \<in> set merged. keeps_entry e e')"

lemma map_snd_keyed:
  assumes "by_name_wf d"
  shows "map te_name (map snd d) = map fst d"
proof -
  have "te_name (snd kv) = fst kv" if "kv \<in> set d" for kv
  proof -
    obtain k e where kv: "kv = (k, e)" by fastforce
    with that assms have "map_of d k = Some e" by (auto simp: by_name_wf_def dict_wf_def intro: map_of_is_SomeI)
    with kv assms show ?thesis by (simp add: by_name_wf_def)
  qed
  then show ?thesis by simp
qed

lemma merge_list_add_only:
  assumes "distinct (map te_name base)" and "merge_list base overlay = (merged, added)"
  shows "add_only_merge base overlay merged added"
proof -
  let ?d = "map (\<lambda>item. (te_name item, item)) base"
  have fst_d: "map fst ?d = map te_name base" by simp
  have upd: "dict_update [] ?d = ?d"
    using dict_update_new [of ?d "[]"] assms(1) by (simp add: o_def)
  have wf: "by_name_wf ?d"
    using assms(1) by (auto simp: by_name_wf_def dict_wf_def o_def dest: map_of_SomeD)
  obtain d' n' where f: "fold merge_item overlay (?d, 0) = (d', n')" by fastforce
  with assms(2) upd have m: "merged = sort_key te_name (map snd d')" "added = n'"
    by (auto simp: merge_list_def Let_def)
  note p = fold_merge_item_props [OF f wf]
  have names: "map te_name (map snd d') = map fst d'" using p(1) by (rule map_snd_keyed)
  have "distinct (map te_name merged)"
    using p(1) names m(1)
    by (metis by_name_wf_def dict_wf_def distinct_sort map_map mset_map mset_sort mset_eq_imp_distinct_iff)
  moreover have "te_name ` set merged = te_name ` set base \<union> te_name ` set overlay"
  proof -
    have "te_name ` set merged = set (map fst d')" using names m(1) by (metis set_map set_sort)
    also have "\<dots> = dom (map_of d')" by (simp add: dom_map_of_conv_image_fst)
    also have "\<dots> = te_name ` set overlay \<union> te_name ` set base"
      using p(3) by (simp add: dom_map_of_conv_image_fst image_image)
    finally show ?thesis by blast
  qed
  moreover have "\<exists>e' \<in> set merged. keeps_entry e e'" if "e \<in> set base" for e
  proof -
    have "map_of ?d (te_name e) = Some e" using that assms(1) by (intro map_of_is_SomeI) (auto simp: o_def)
    from p(4) [OF this] obtain e' where "map_of d' (te_name e) = Some e'" "keeps_entry e e'" by blast
    then show ?thesis using m(1) by (force dest: map_of_SomeD)
  qed
  ultimately show ?thesis
    using p(2) m by (simp add: add_only_merge_def)
qed

subsection \<open>Resolving the vocabulary of a write\<close>

text \<open>Upserts only append, and what they return is in the list afterwards.\<close>

lemma upsert_entry_props:
  assumes "upsert_entry f es stored b c fr = Inr (e, es')"
  shows "e \<in> set es'" and "te_name e = stored" and "\<exists>new. es' = es @ new"
    and "distinct (map te_name es) \<Longrightarrow> distinct (map te_name es')"
  using assms
  by (auto simp: upsert_entry_def Let_def rbind_Inr_iff find_Some_iff find_None_iff split: option.splits)

definition extends_registry :: "TaxonomyRegistryDocument \<Rightarrow> TaxonomyRegistryDocument \<Rightarrow> bool" where
  "extends_registry d d' \<longleftrightarrow> td_registry_version d' = td_registry_version d \<and>
     (\<exists>ts. td_entry_types d' = td_entry_types d @ ts) \<and>
     (\<exists>ks. td_entry_kinds d' = td_entry_kinds d @ ks) \<and>
     (\<exists>gs. td_tags d' = td_tags d @ gs)"

lemma extends_registry_refl [simp]: "extends_registry d d"
  by (simp add: extends_registry_def)

lemma extends_registry_trans: "extends_registry a b \<Longrightarrow> extends_registry b c \<Longrightarrow> extends_registry a c"
  by (auto simp: extends_registry_def)

lemma upsert_entry_type_props:
  assumes "upsert_entry_type d name b c fr = Inr (e, d')"
  shows "extends_registry d d'" and "e \<in> set (td_entry_types d')"
    and "resolve_stored_taxonomy_name name fr = Inr (te_name e)"
proof -
  from assms obtain stored ex where r: "resolve_stored_taxonomy_name name fr = Inr stored"
    and ex: "(if fr then Inr None else find_entry_type d stored) = Inr ex"
    and k: "(case ex of Some e \<Rightarrow> Inr (e, d) | None \<Rightarrow>
      rbind (upsert_entry entry_type_id_for_name (td_entry_types d) stored b c fr)
        (\<lambda>(e, es). Inr (e, d\<lparr>td_entry_types := es\<rparr>))) = Inr (e, d')"
    by (auto simp: upsert_entry_type_def rbind_Inr_iff)
  show "extends_registry d d'" "e \<in> set (td_entry_types d')"
    "resolve_stored_taxonomy_name name fr = Inr (te_name e)"
  proof (atomize (full), cases ex)
    case None
    with k obtain es where u: "upsert_entry entry_type_id_for_name (td_entry_types d) stored b c fr = Inr (e, es)"
      "d' = d\<lparr>td_entry_types := es\<rparr>" by (auto simp: rbind_Inr_iff)
    from upsert_entry_props [OF u(1)] u(2) r
    show "extends_registry d d' \<and> e \<in> set (td_entry_types d') \<and>
        resolve_stored_taxonomy_name name fr = Inr (te_name e)"
      by (auto simp: extends_registry_def)
  next
    case (Some e')
    with k have e: "e' = e" "d' = d" by auto
    from Some ex have nfr: "\<not> fr" and "find_entry_type d stored = Inr (Some e')" by (auto split: if_splits)
    then obtain st where st: "canonical_taxonomy_name stored = Inr st" "e' \<in> set (td_entry_types d)" "te_name e' = st"
      by (auto simp: find_entry_type_def find_entry_def rbind_Inr_iff find_Some_iff)
    from r nfr have "canonical_taxonomy_name name = Inr stored"
      by (auto simp: resolve_stored_taxonomy_name_def Let_def split: if_splits)
    then have "canonical_taxonomy_name stored = Inr stored" by (rule canonical_taxonomy_name_idem)
    with st e r show "extends_registry d d' \<and> e \<in> set (td_entry_types d') \<and>
        resolve_stored_taxonomy_name name fr = Inr (te_name e)" by simp
  qed
qed

lemma upsert_entry_kind_props:
  assumes "upsert_entry_kind d name b c fr = Inr (e, d')"
  shows "extends_registry d d'" and "e \<in> set (td_entry_kinds d')"
    and "resolve_stored_taxonomy_name name fr = Inr (te_name e)"
  using assms upsert_entry_props
  by (fastforce simp: upsert_entry_kind_def rbind_Inr_iff extends_registry_def)+

lemma upsert_tag_props:
  assumes "upsert_tag d name b c fr = Inr (e, d')"
  shows "extends_registry d d'" and "e \<in> set (td_tags d')"
    and "resolve_stored_taxonomy_name name fr = Inr (te_name e)"
  using assms upsert_entry_props
  by (fastforce simp: upsert_tag_def rbind_Inr_iff extends_registry_def)+

lemma resolve_tags_props:
  assumes "resolve_tags tags fr auto seen acc d = Inr (out, d')"
    and "set (map lower acc) \<subseteq> set seen" and "distinct (map lower acc)"
    and "auto \<Longrightarrow> set acc \<subseteq> te_name ` set (td_tags d)"
  shows "extends_registry d d'" and "distinct (map lower out)" and "prefix acc out"
    and "auto \<Longrightarrow> set out \<subseteq> te_name ` set (td_tags d')"
    and "set out \<subseteq> set acc \<union> {s. \<exists>raw \<in> set tags. resolve_stored_taxonomy_name raw fr = Inr s}"
proof -
  have "extends_registry d d' \<and> distinct (map lower out) \<and> prefix acc out \<and>
      (auto \<longrightarrow> set out \<subseteq> te_name ` set (td_tags d')) \<and>
      set out \<subseteq> set acc \<union> {s. \<exists>raw \<in> set tags. resolve_stored_taxonomy_name raw fr = Inr s}"
    using assms
  proof (induction tags fr auto seen acc d rule: resolve_tags.induct)
    case (1 fr auto seen acc d)
    then show ?case by auto
  next
    case (2 raw tags fr auto seen acc d)
    then obtain stored where st: "resolve_stored_taxonomy_name raw fr = Inr stored"
      by (auto simp: rbind_Inr_iff)
    show ?case
    proof (cases "lower stored \<in> set seen")
      case True
      have "extends_registry d d' \<and> distinct (map lower out) \<and> prefix acc out \<and>
          (auto \<longrightarrow> set out \<subseteq> te_name ` set (td_tags d')) \<and>
          set out \<subseteq> set acc \<union> {s. \<exists>raw \<in> set tags. resolve_stored_taxonomy_name raw fr = Inr s}"
        using "2.prems" True st by (intro "2.IH"(1) [OF st True]) auto
      then show ?thesis by auto
    next
      case False
      let ?step = "if auto then rbind (upsert_tag d stored False [] fr) (\<lambda>(_, r). Inr r) else Inr d"
      from "2.prems"(1) st False obtain d1 where d1: "?step = Inr d1"
        and rest: "resolve_tags tags fr auto (lower stored # seen) (acc @ [stored]) d1 = Inr (out, d')"
        by (auto simp: rbind_Inr_iff)
      have up: "extends_registry d d1 \<and> (auto \<longrightarrow> stored \<in> te_name ` set (td_tags d1))"
      proof (cases auto)
        case True
        with d1 obtain e where e: "upsert_tag d stored False [] fr = Inr (e, d1)" by (auto simp: rbind_Inr_iff)
        from upsert_tag_props [OF e] resolve_stored_idem [OF st] show ?thesis by auto
      next
        case False
        with d1 show ?thesis by simp
      qed
      have "auto \<Longrightarrow> set (acc @ [stored]) \<subseteq> te_name ` set (td_tags d1)"
        using "2.prems"(4) up by (auto simp: extends_registry_def)
      with "2.prems" False rest have "extends_registry d1 d' \<and> distinct (map lower out) \<and> prefix (acc @ [stored]) out \<and>
          (auto \<longrightarrow> set out \<subseteq> te_name ` set (td_tags d')) \<and>
          set out \<subseteq> set (acc @ [stored]) \<union> {s. \<exists>raw \<in> set tags. resolve_stored_taxonomy_name raw fr = Inr s}"
        by (intro "2.IH"(2) [OF st False d1]) auto
      with up st show ?thesis by (auto intro: extends_registry_trans simp: prefix_def)
    qed
  qed
  then show "extends_registry d d'" and "distinct (map lower out)" and "prefix acc out"
    and "auto \<Longrightarrow> set out \<subseteq> te_name ` set (td_tags d')"
    and "set out \<subseteq> set acc \<union> {s. \<exists>raw \<in> set tags. resolve_stored_taxonomy_name raw fr = Inr s}"
    by blast+
qed

subsection \<open>Properties\<close>

text \<open>Normalisation of vocabulary names is a projection onto the canonical names: a name is
  the result of normalising something exactly when it is non-empty, uses only \<open>[a-z0-9_]\<close>, neither
  starts nor ends with an underscore and has no two underscores in a row, and such a name is its
  own normal form, so one logical name has one stored spelling and one identifier.\<close>

theorem taxonomy_names_canonical:
  "((\<exists>raw. canonical_taxonomy_name raw = Inr c) \<longleftrightarrow> canonical_name c) \<and>
   (canonical_taxonomy_name c = Inr c \<longleftrightarrow> canonical_name c)"
  using canonical_name_fixed canonical_taxonomy_name_range by blast

text \<open>C38. Merging a seed document into the registry is add-only: in each of the three lists every
  entry of the base survives with its id, name and builtin flag (only a missing comment may be
  filled in), the names are those of the base and of the overlay, sorted and without
  repetition, and the reported number of additions is what the list grew by.\<close>

theorem taxonomy_merge_add_only:
  assumes "distinct (map te_name (td_entry_types base))"
    and "distinct (map te_name (td_entry_kinds base))"
    and "distinct (map te_name (td_tags base))"
  shows "let r = merge_taxonomy_documents base overlay; d = tm_document r in
    add_only_merge (td_entry_types base) (td_entry_types overlay) (td_entry_types d) (tm_added_types r) \<and>
    add_only_merge (td_entry_kinds base) (td_entry_kinds overlay) (td_entry_kinds d) (tm_added_kinds r) \<and>
    add_only_merge (td_tags base) (td_tags overlay) (td_tags d) (tm_added_tags r)"
proof -
  obtain ts nt ks nk gs ng where m:
    "merge_list (td_entry_types base) (td_entry_types overlay) = (ts, nt)"
    "merge_list (td_entry_kinds base) (td_entry_kinds overlay) = (ks, nk)"
    "merge_list (td_tags base) (td_tags overlay) = (gs, ng)" by fastforce
  from merge_list_add_only [OF assms(1) m(1)] merge_list_add_only [OF assms(2) m(2)]
    merge_list_add_only [OF assms(3) m(3)]
  show ?thesis by (simp add: merge_taxonomy_documents_def m Let_def)
qed

definition taxonomy_example :: TaxonomyRegistryDocument where
  "taxonomy_example =
     \<lparr>td_registry_version = 1,
      td_entry_types = [\<lparr>te_id = ''t1'', te_name = ''secret'', te_builtin = True, te_operator_comment = []\<rparr>],
      td_entry_kinds = [\<lparr>te_id = ''k1'', te_name = ''api_key'', te_builtin = True, te_operator_comment = []\<rparr>],
      td_tags = [\<lparr>te_id = ''g1'', te_name = ''prod'', te_builtin = False, te_operator_comment = []\<rparr>]\<rparr>"

theorem taxonomy_merge_add_only_witness:
  "let r = merge_taxonomy_documents taxonomy_example taxonomy_example in
    distinct (map te_name (td_entry_types taxonomy_example)) \<and>
    add_only_merge (td_tags taxonomy_example) (td_tags taxonomy_example)
      (td_tags (tm_document r)) (tm_added_tags r)"
  using taxonomy_merge_add_only [of taxonomy_example taxonomy_example]
  by (simp add: Let_def taxonomy_example_def)

text \<open>Resolving the vocabulary of a write with automatic registration: the names it returns are
  the stored forms of its arguments, each of them is registered afterwards, the tags are
  distinct up to case, and the registry only grows at the end of its lists.\<close>

theorem resolve_vocabulary_registers:
  assumes "resolve_vocabulary_for_write registry entry_type entry_kind tags policy force_raw True = Inr (v, registry')"
  shows "extends_registry registry registry' \<and>
    resolve_stored_taxonomy_name entry_type force_raw = Inr (rv_entry_type v) \<and>
    resolve_stored_taxonomy_name entry_kind force_raw = Inr (rv_entry_kind v) \<and>
    rv_entry_type v \<in> te_name ` set (td_entry_types registry') \<and>
    rv_entry_kind v \<in> te_name ` set (td_entry_kinds registry') \<and>
    set (rv_tags v) \<subseteq> te_name ` set (td_tags registry') \<and>
    distinct (map lower (rv_tags v))"
proof -
  from assms obtain st sk e1 r1 e2 r2 ts where
    st: "resolve_stored_taxonomy_name entry_type force_raw = Inr st" and
    sk: "resolve_stored_taxonomy_name entry_kind force_raw = Inr sk" and
    u1: "upsert_entry_type registry st False [] force_raw = Inr (e1, r1)" and
    u2: "upsert_entry_kind r1 sk False [] force_raw = Inr (e2, r2)" and
    t: "resolve_tags tags force_raw True [] [] r2 = Inr (ts, registry')" and
    v: "v = \<lparr>rv_entry_type = st, rv_entry_kind = sk, rv_tags = ts\<rparr>"
    by (auto simp: resolve_vocabulary_for_write_def Let_def rbind_Inr_iff)
  note p1 = upsert_entry_type_props [OF u1]
  note p2 = upsert_entry_kind_props [OF u2]
  note p3 = resolve_tags_props [OF t, simplified]
  have "te_name e1 = st" "te_name e2 = sk"
    using p1(3) p2(3) resolve_stored_idem [OF st] resolve_stored_idem [OF sk] by simp_all
  then have "st \<in> te_name ` set (td_entry_types registry')" "sk \<in> te_name ` set (td_entry_kinds registry')"
    using p1(2) p2 p3(1) by (auto simp: extends_registry_def)
  moreover have "extends_registry registry registry'"
    using p1(1) p2(1) p3(1) extends_registry_trans by blast
  ultimately show ?thesis using st sk v p3 by simp
qed

lemma resolve_vocabulary_example:
  "resolve_vocabulary_for_write taxonomy_example ''Secret'' ''API-Key'' [''prod'', '' Prod ''] True False True =
    Inr (\<lparr>rv_entry_type = ''secret'', rv_entry_kind = ''api_key'', rv_tags = [''prod'']\<rparr>, taxonomy_example)"
  by code_simp

theorem resolve_vocabulary_registers_witness:
  "rv_tags \<lparr>rv_entry_type = ''secret'', rv_entry_kind = ''api_key'', rv_tags = [''prod'']\<rparr> = [''prod''] \<and>
   ''api_key'' \<in> te_name ` set (td_entry_kinds taxonomy_example)"
  using resolve_vocabulary_registers [OF resolve_vocabulary_example] by simp

end
