(* ===== verification/Kit_Storage.thy ===== *)
theory Kit_Storage
  imports Kit_Json
begin

section \<open>Storage codec: encrypted blobs and the SQLite payload columns\<close>

text \<open>
  \<open>crypto/codecs.py\<close> (the versioned JSON form of an encrypted blob), \<open>crypto/encryption.py\<close>
  (ChaCha20-Poly1305) and \<open>crypto/storage/sqlite.py\<close> (\<open>encrypt_payload\<close>, \<open>decrypt_payload\<close>). The
  cipher is third-party code: it is a pair of functions of the \<open>aead\<close> record, with the law that
  opening what was sealed under the same key, nonce and associated data gives the plaintext back
  as a named hypothesis. The main lemma is the round trip through a column in both storage modes.
\<close>

subsection \<open>The outside world\<close>

text \<open>
  \<open>aead_seal key nonce plaintext aad\<close> and \<open>aead_open key nonce ciphertext aad\<close>; \<open>None\<close> is the
  cipher's \<open>InvalidTag\<close>.
\<close>

record aead =
  aead_seal :: "bytes \<Rightarrow> bytes \<Rightarrow> bytes \<Rightarrow> bytes \<Rightarrow> bytes"
  aead_open :: "bytes \<Rightarrow> bytes \<Rightarrow> bytes \<Rightarrow> bytes \<Rightarrow> bytes option"

definition aead_law :: "aead \<Rightarrow> bool" where
  "aead_law c \<longleftrightarrow>
     (\<forall>key nonce p aad. aead_open c key nonce (aead_seal c key nonce p aad) aad = Some p
        \<and> aead_seal c key nonce p aad \<noteq> [])"

subsection \<open>Encrypted blobs (\<open>codecs.py\<close>)\<close>

record CryptoHeader =
  ch_version :: int
  ch_algorithm :: string
  ch_key_id :: string
  ch_context :: string

record EncryptedBlob =
  eb_header :: CryptoHeader
  eb_nonce :: bytes
  eb_ciphertext :: bytes

definition SUPPORTED_CRYPTO_BLOB_VERSIONS :: "int list" where
  "SUPPORTED_CRYPTO_BLOB_VERSIONS = [1]"

text \<open>
  \<open>ensure_ascii=True\<close>: every code point outside the printable ASCII range is written as \<open>\uXXXX\<close>,
  as a surrogate pair above U+FFFF. Outside string literals JSON text is printable ASCII, so the
  escape can run over the printed text.
\<close>

definition escape_u :: "nat \<Rightarrow> string" where
  "escape_u n = Backslash # CHR ''u'' # hex_fixed 4 n"

definition escape_cp :: "nat \<Rightarrow> string" where
  "escape_cp cp =
     (if cp < 65536 then escape_u cp
      else escape_u (0xd800 + (cp - 65536) div 1024) @ escape_u (0xdc00 + (cp - 65536) mod 1024))"

abbreviation (input) cont_bits :: "char \<Rightarrow> nat" where
  "cont_bits c \<equiv> of_char c mod 64"

fun ensure_ascii :: "string \<Rightarrow> string" where
  "ensure_ascii [] = []"
| "ensure_ascii (a # s) =
     (if (of_char a :: nat) < 127 then a # ensure_ascii s
      else if (of_char a :: nat) = 127 then escape_u 127 @ ensure_ascii s
      else if byte_in 194 223 a then
        (case s of b # r \<Rightarrow> escape_cp (of_char a mod 32 * 64 + cont_bits b) @ ensure_ascii r | _ \<Rightarrow> [])
      else if byte_in 224 239 a then
        (case s of b # c # r \<Rightarrow>
           escape_cp ((of_char a mod 16 * 64 + cont_bits b) * 64 + cont_bits c) @ ensure_ascii r | _ \<Rightarrow> [])
      else (case s of b # c # d # r \<Rightarrow>
           escape_cp (((of_char a mod 8 * 64 + cont_bits b) * 64 + cont_bits c) * 64 + cont_bits d)
             @ ensure_ascii r | _ \<Rightarrow> []))"

definition validate_blob :: "EncryptedBlob \<Rightarrow> unit res" where
  "validate_blob blob =
     rbind (rguard (ch_version (eb_header blob) \<in> set SUPPORTED_CRYPTO_BLOB_VERSIONS)
              (ValueError ''unsupported encrypted blob version: '')) (\<lambda>_.
     rbind (rguard (ch_algorithm (eb_header blob) \<noteq> [])
              (ValueError ''encrypted blob algorithm is required'')) (\<lambda>_.
     rbind (rguard (eb_nonce blob \<noteq> [])
              (ValueError ''encrypted blob nonce must be non-empty bytes'')) (\<lambda>_.
     rguard (eb_ciphertext blob \<noteq> [])
              (ValueError ''encrypted blob ciphertext must be non-empty bytes''))))"

definition encrypted_blob_payload :: "EncryptedBlob \<Rightarrow> json" where
  "encrypted_blob_payload blob = JObj
     [(''ciphertext'', JStr (encode_b64url (eb_ciphertext blob))),
      (''header'', JObj
         [(''algorithm'', JStr (ch_algorithm (eb_header blob))),
          (''context'', JStr (ch_context (eb_header blob))),
          (''key_id'', JStr (ch_key_id (eb_header blob))),
          (''version'', JInt (ch_version (eb_header blob)))]),
      (''nonce'', JStr (encode_b64url (eb_nonce blob)))]"

definition encode_encrypted_blob :: "EncryptedBlob \<Rightarrow> bytes res" where
  "encode_encrypted_blob blob =
     rbind (validate_blob blob) (\<lambda>_.
       Inr (ensure_ascii (canonical_json_text (encrypted_blob_payload blob))))"

definition blob_required_text :: "json_obj \<Rightarrow> string \<Rightarrow> string res" where
  "blob_required_text payload field =
     (case map_of payload field of
        Some (JStr s) \<Rightarrow> if s = [] then Inl (ValueError (field @ '' is required'')) else Inr s
      | _ \<Rightarrow> Inl (ValueError (field @ '' is required'')))"

definition blob_optional_text :: "json_obj \<Rightarrow> string \<Rightarrow> string res" where
  "blob_optional_text payload field =
     (case map_of payload field of
        None \<Rightarrow> Inr []
      | Some (JStr s) \<Rightarrow> Inr s
      | Some _ \<Rightarrow> Inl (ValueError (field @ '' must be a string'')))"

definition decode_header :: "json_obj \<Rightarrow> CryptoHeader res" where
  "decode_header payload =
     (case map_of payload ''version'' of
        Some (JInt v) \<Rightarrow>
          rbind (rguard (v \<in> set SUPPORTED_CRYPTO_BLOB_VERSIONS)
                   (ValueError ''unsupported encrypted blob version: '')) (\<lambda>_.
          rbind (blob_required_text payload ''algorithm'') (\<lambda>alg.
          rbind (blob_optional_text payload ''key_id'') (\<lambda>kid.
          rbind (blob_optional_text payload ''context'') (\<lambda>ctx.
            Inr \<lparr>ch_version = v, ch_algorithm = alg, ch_key_id = kid, ch_context = ctx\<rparr>))))
      | _ \<Rightarrow> Inl (ValueError ''encrypted blob header version must be an integer''))"

definition decode_encrypted_blob :: "bytes \<Rightarrow> EncryptedBlob res" where
  "decode_encrypted_blob data =
     (case Option.bind (utf8_decode data) json_loads of
        None \<Rightarrow> Inl (ValueError ''encrypted blob must be valid JSON bytes'')
      | Some (JObj payload) \<Rightarrow>
          (case map_of payload ''header'' of
             Some (JObj h) \<Rightarrow>
               rbind (decode_header h) (\<lambda>header.
               rbind (blob_required_text payload ''nonce'') (\<lambda>n.
               rbind (decode_b64url n) (\<lambda>nonce.
               rbind (blob_required_text payload ''ciphertext'') (\<lambda>c.
               rbind (decode_b64url c) (\<lambda>ciphertext.
               let blob = \<lparr>eb_header = header, eb_nonce = nonce, eb_ciphertext = ciphertext\<rparr> in
               rbind (validate_blob blob) (\<lambda>_. Inr blob))))))
           | _ \<Rightarrow> Inl (ValueError ''encrypted blob header is required''))
      | Some _ \<Rightarrow> Inl (ValueError ''encrypted blob must be a JSON object''))"

subsection \<open>AEAD helpers (\<open>encryption.py\<close>)\<close>

definition AEAD_ALGORITHM :: string where
  "AEAD_ALGORITHM = ''chacha20poly1305''"

definition validate_key :: "bytes \<Rightarrow> unit res" where
  "validate_key key = rguard (length key = 32) (ValueError ''key must be exactly 32 bytes'')"

text \<open>The nonce, twelve random bytes, is an argument.\<close>

definition encrypt_aead ::
  "aead \<Rightarrow> bytes \<Rightarrow> bytes \<Rightarrow> bytes \<Rightarrow> bytes \<Rightarrow> string \<Rightarrow> string \<Rightarrow> EncryptedBlob res" where
  "encrypt_aead c nonce key plaintext aad key_id context =
     rbind (validate_key key) (\<lambda>_.
       Inr \<lparr>eb_header = \<lparr>ch_version = 1, ch_algorithm = AEAD_ALGORITHM, ch_key_id = key_id, ch_context = context\<rparr>,
            eb_nonce = nonce, eb_ciphertext = aead_seal c key nonce plaintext aad\<rparr>)"

definition decrypt_aead :: "aead \<Rightarrow> bytes \<Rightarrow> EncryptedBlob \<Rightarrow> bytes \<Rightarrow> bytes res" where
  "decrypt_aead c key blob aad =
     rbind (validate_key key) (\<lambda>_.
     rbind (rguard (ch_version (eb_header blob) = 1) (ValueError ''unsupported encrypted blob version: '')) (\<lambda>_.
     rbind (rguard (ch_algorithm (eb_header blob) = AEAD_ALGORITHM)
              (ValueError ''unsupported AEAD algorithm: '')) (\<lambda>_.
     rbind (rguard (length (eb_nonce blob) = 12) (ValueError ''nonce must be 12 bytes'')) (\<lambda>_.
     rbind (rguard (eb_ciphertext blob \<noteq> []) (ValueError ''ciphertext must be non-empty bytes'')) (\<lambda>_.
       case aead_open c key (eb_nonce blob) (eb_ciphertext blob) aad of
         None \<Rightarrow> Inl (InvalidTag [])
       | Some p \<Rightarrow> Inr p)))))"

subsection \<open>Payload columns (\<open>storage/sqlite.py\<close>)\<close>

definition SQLITE_STORAGE_MODE_ENCRYPTED :: string where
  "SQLITE_STORAGE_MODE_ENCRYPTED = ''encrypted''"

definition SQLITE_STORAGE_MODE_PLAINTEXT :: string where
  "SQLITE_STORAGE_MODE_PLAINTEXT = ''plaintext''"

definition validate_field_name :: "string \<Rightarrow> unit res" where
  "validate_field_name field =
     rguard (field = ''encrypted_name'' \<or> field = ''encrypted_payload'')
       (ValueError ''unsupported SQLite storage field'')"

definition validate_storage_mode :: "string \<Rightarrow> string res" where
  "validate_storage_mode mode =
     (if mode = SQLITE_STORAGE_MODE_ENCRYPTED \<or> mode = SQLITE_STORAGE_MODE_PLAINTEXT then Inr mode
      else Inl (ValueError ''unsupported SQLite storage mode''))"

definition looks_like_encrypted_blob :: "bytes \<Rightarrow> bool" where
  "looks_like_encrypted_blob stored =
     (case Option.bind (utf8_decode stored) json_loads of
        Some (JObj payload) \<Rightarrow>
          (case map_of payload ''header'' of Some (JObj _) \<Rightarrow> True | _ \<Rightarrow> False)
          \<and> dict_has ''ciphertext'' payload \<and> dict_has ''nonce'' payload
      | _ \<Rightarrow> False)"

definition storage_aad :: "string \<Rightarrow> bytes" where
  "storage_aad field = ''secrets-kit.sqlite-storage.v1:'' @ field"

text \<open>The contents of the storage key file and the nonce are arguments.\<close>

definition encrypt_payload ::
  "aead \<Rightarrow> bytes \<Rightarrow> bytes \<Rightarrow> bytes \<Rightarrow> string \<Rightarrow> string \<Rightarrow> bytes res" where
  "encrypt_payload c storage_key nonce plaintext field storage_mode =
     rbind (validate_field_name field) (\<lambda>_.
     rbind (validate_storage_mode storage_mode) (\<lambda>mode.
       if mode = SQLITE_STORAGE_MODE_PLAINTEXT then Inr plaintext
       else rbind (encrypt_aead c nonce storage_key plaintext (storage_aad field) ''sqlite-storage.key''
                     (''sqlite-storage:'' @ field)) encode_encrypted_blob))"

definition decrypt_payload :: "aead \<Rightarrow> bytes \<Rightarrow> bytes \<Rightarrow> string \<Rightarrow> string \<Rightarrow> bytes res" where
  "decrypt_payload c storage_key stored field storage_mode =
     rbind (validate_field_name field) (\<lambda>_.
     rbind (validate_storage_mode storage_mode) (\<lambda>mode.
       if mode = SQLITE_STORAGE_MODE_PLAINTEXT
       then (if looks_like_encrypted_blob stored
             then Inl (ValueError ''encrypted SQLite storage record found in plaintext datastore'')
             else Inr stored)
       else rbind (decode_encrypted_blob stored) (\<lambda>blob.
              decrypt_aead c storage_key blob (storage_aad field))))"

subsection \<open>Blobs survive their JSON form\<close>

definition below_del :: "char \<Rightarrow> bool" where
  "below_del c \<longleftrightarrow> (of_char c :: nat) < 127"

abbreviation plain :: "string \<Rightarrow> bool" where
  "plain \<equiv> list_all below_del"

fun json_plain :: "json \<Rightarrow> bool" where
  "json_plain (JStr s) \<longleftrightarrow> plain s"
| "json_plain (JList js) \<longleftrightarrow> (\<forall>j \<in> set js. json_plain j)"
| "json_plain (JObj kvs) \<longleftrightarrow> (\<forall>(k, v) \<in> set kvs. plain k \<and> json_plain v)"
| "json_plain _ \<longleftrightarrow> True"

lemma ensure_ascii_plain: "plain s \<Longrightarrow> ensure_ascii s = s"
  by (induction s) (auto simp: below_del_def)

lemma plain_utf8: "plain s \<Longrightarrow> utf8_ok s"
  by (rule utf8_ok_ascii) (auto simp: list_all_iff below_del_def is_ascii_def)

lemma below_del_alphabets:
  "c \<in> set hex_alphabet \<Longrightarrow> below_del c" "c \<in> set b64_alphabet \<Longrightarrow> below_del (std_to_url c)"
proof -
  have "list_all below_del hex_alphabet" "list_all (\<lambda>c. below_del (std_to_url c)) b64_alphabet" by code_simp+
  then show "c \<in> set hex_alphabet \<Longrightarrow> below_del c" "c \<in> set b64_alphabet \<Longrightarrow> below_del (std_to_url c)"
    by (simp_all only: list_all_iff)
qed

lemma plain_escape: "below_del c \<Longrightarrow> plain (escape_char c)"
proof -
  assume c: "below_del c"
  have k: "below_del Backslash" "below_del Quote" "plain ''u0nrtfb''" by code_simp+
  have h: "below_del (hex_char ((of_char c :: nat) div 16))" "below_del (hex_char ((of_char c :: nat) mod 16))"
    by (simp_all add: below_del_alphabets hex_char_alphabet)
  show ?thesis using c h k by (auto simp: escape_char_def short_escape_def)
qed

lemma plain_print_string: "plain s \<Longrightarrow> plain (print_string s)"
proof -
  assume "plain s"
  then have "plain (concat (map escape_char s))" by (induction s) (simp_all add: plain_escape)
  moreover have "below_del Quote" by code_simp
  ultimately show ?thesis by (simp add: print_string_def)
qed

lemma plain_dec_of_int: "plain (dec_of_int i)"
proof -
  have "plain (dec_of_nat n)" for n
    using dec_of_nat_digits [of n] by (auto simp: list_all_iff is_digit_def below_del_def Let_def)
  moreover have "below_del CHR ''-''" by code_simp
  ultimately show ?thesis by (simp add: dec_of_int_def)
qed

lemma plain_punct: "below_del CHR ''{''" "below_del CHR ''}''" "below_del CHR ''[''" "below_del CHR '']''"
  "below_del CHR '',''" "below_del CHR '':''"
  by code_simp+

lemma plain_print:
  "json_plain j \<Longrightarrow> plain (print_json j)"
  "\<forall>j \<in> set js. json_plain j \<Longrightarrow> plain (print_elems js)"
  "\<forall>(k, v) \<in> set kvs. plain k \<and> json_plain v \<Longrightarrow> plain (print_members kvs)"
proof (induction j and js and kvs rule: print_json_print_elems_print_members.induct)
  case 1
  show ?case by code_simp
next
  case (2 b)
  have "plain ''true''" "plain ''false''" by code_simp+
  then show ?case by (cases b) (simp_all only: print_json.simps if_True if_False)
qed (simp_all add: plain_dec_of_int plain_print_string plain_punct)

lemma plain_b64url: "plain (encode_b64url bs)"
proof -
  obtain w k where e: "b64encode bs = w @ replicate k b64_pad" and w: "b64_word w"
    using b64encode_shape by blast
  have "rstrip_pad (map std_to_url w @ replicate k b64_pad) = map std_to_url w"
    by (rule rstrip_pad_append [OF b64_word_maps(5) [OF w]])
  then have "encode_b64url bs = map std_to_url w"
    by (simp only: encode_b64url_def e map_append map_replicate pad_props)
  then show ?thesis
    using w below_del_alphabets(2) by (auto simp: b64_word_def list_all_iff)
qed

lemma encode_b64url_neq_Nil: "bs \<noteq> [] \<Longrightarrow> encode_b64url bs \<noteq> []"
proof
  assume "bs \<noteq> []" and "encode_b64url bs = []"
  moreover have "encode_b64url [] = []" by code_simp
  ultimately show False using b64url.encode_eq_iff [of bs "[]"] by simp
qed

text \<open>A blob that \<open>encode_encrypted_blob\<close> accepts and whose header texts are printable ASCII.\<close>

definition blob_ok :: "EncryptedBlob \<Rightarrow> bool" where
  "blob_ok b \<longleftrightarrow> ch_version (eb_header b) = 1 \<and> ch_algorithm (eb_header b) \<noteq> [] \<and> eb_nonce b \<noteq> [] \<and>
     eb_ciphertext b \<noteq> [] \<and> plain (ch_algorithm (eb_header b)) \<and> plain (ch_key_id (eb_header b)) \<and>
     plain (ch_context (eb_header b))"

lemma plain_keys:
  "plain ''ciphertext''" "plain ''header''" "plain ''nonce''" "plain ''algorithm''" "plain ''context''"
  "plain ''key_id''" "plain ''version''"
  by code_simp+

lemma encrypted_blob_payload_wf: "blob_ok b \<Longrightarrow> json_wf (encrypted_blob_payload b)"
  unfolding encrypted_blob_payload_def json_wf.simps
  by (simp add: dict_wf_def plain_keys [THEN plain_utf8] plain_b64url [THEN plain_utf8] blob_ok_def plain_utf8
      del: utf8_ok.simps)

lemma encrypted_blob_payload_canon: "canon (encrypted_blob_payload b) = encrypted_blob_payload b"
  by (simp add: encrypted_blob_payload_def)

lemma encrypted_blob_payload_plain: "blob_ok b \<Longrightarrow> json_plain (encrypted_blob_payload b)"
  by (simp add: encrypted_blob_payload_def blob_ok_def plain_b64url) (simp add: below_del_def)

lemma validate_blob_ok: "blob_ok b \<Longrightarrow> validate_blob b = Inr ()"
  by (simp add: validate_blob_def blob_ok_def SUPPORTED_CRYPTO_BLOB_VERSIONS_def)

lemma encode_blob_text:
  assumes "blob_ok b"
  shows "encode_encrypted_blob b = Inr (canonical_json_text (encrypted_blob_payload b))"
    and "Option.bind (utf8_decode (canonical_json_text (encrypted_blob_payload b))) json_loads =
      Some (encrypted_blob_payload b)"
proof -
  have p: "plain (canonical_json_text (encrypted_blob_payload b))"
    unfolding canonical_json_text_def encrypted_blob_payload_canon
    by (rule plain_print(1) [OF encrypted_blob_payload_plain [OF assms]])
  then show "encode_encrypted_blob b = Inr (canonical_json_text (encrypted_blob_payload b))"
    by (simp add: encode_encrypted_blob_def validate_blob_ok [OF assms] ensure_ascii_plain)
  show "Option.bind (utf8_decode (canonical_json_text (encrypted_blob_payload b))) json_loads =
      Some (encrypted_blob_payload b)"
    using json_loads_dumps [OF encrypted_blob_payload_wf [OF assms]] p
    by (simp add: utf8_decode_def plain_utf8 encrypted_blob_payload_canon)
qed

lemma decode_encode_blob:
  assumes "blob_ok b" and "encode_encrypted_blob b = Inr data"
  shows "decode_encrypted_blob data = Inr b"
proof -
  have data: "Option.bind (utf8_decode data) json_loads = Some (encrypted_blob_payload b)"
    using encode_blob_text [OF assms(1)] assms(2) by simp
  have b: "ch_version (eb_header b) = 1" "ch_algorithm (eb_header b) \<noteq> []" "eb_nonce b \<noteq> []" "eb_ciphertext b \<noteq> []"
    using assms(1) by (simp_all add: blob_ok_def)
  have "encode_b64url (eb_nonce b) \<noteq> []" "encode_b64url (eb_ciphertext b) \<noteq> []"
    using b by (simp_all add: encode_b64url_neq_Nil)
  with b show ?thesis
    unfolding decode_encrypted_blob_def data encrypted_blob_payload_def
    by (simp add: decode_header_def blob_required_text_def blob_optional_text_def SUPPORTED_CRYPTO_BLOB_VERSIONS_def
        decode_b64url_encode validate_blob_def)
qed

subsection \<open>Columns read back what was written\<close>

definition storage_field :: "string \<Rightarrow> bool" where
  "storage_field field \<longleftrightarrow> field = ''encrypted_name'' \<or> field = ''encrypted_payload''"

lemma plain_storage_texts:
  "plain AEAD_ALGORITHM" "plain ''sqlite-storage.key''"
  "storage_field field \<Longrightarrow> plain (''sqlite-storage:'' @ field)"
proof -
  show "plain AEAD_ALGORITHM" "plain ''sqlite-storage.key''" by code_simp+
  have "plain ''sqlite-storage:encrypted_name''" "plain ''sqlite-storage:encrypted_payload''" by code_simp+
  then show "storage_field field \<Longrightarrow> plain (''sqlite-storage:'' @ field)" by (auto simp: storage_field_def)
qed

lemma encrypt_payload_encrypted:
  assumes "aead_law c" and "length key = 32" and "length nonce = 12" and "storage_field field"
  obtains blob data where "encrypt_payload c key nonce p field SQLITE_STORAGE_MODE_ENCRYPTED = Inr data"
    "encode_encrypted_blob blob = Inr data" "blob_ok blob"
    "decrypt_aead c key blob (storage_aad field) = Inr p"
    "\<And>key' aad. length key' = 32 \<Longrightarrow> decrypt_aead c key' blob aad =
      (case aead_open c key' nonce (aead_seal c key nonce p (storage_aad field)) aad of None \<Rightarrow> Inl (InvalidTag []) | Some q \<Rightarrow> Inr q)"
proof -
  let ?blob = "\<lparr>eb_header = \<lparr>ch_version = 1, ch_algorithm = AEAD_ALGORITHM, ch_key_id = ''sqlite-storage.key'',
      ch_context = ''sqlite-storage:'' @ field\<rparr>, eb_nonce = nonce,
      eb_ciphertext = aead_seal c key nonce p (storage_aad field)\<rparr>"
  have ok: "blob_ok ?blob"
    using assms plain_storage_texts(3) [OF assms(4)]
    by (auto simp: blob_ok_def plain_storage_texts(1) aead_law_def AEAD_ALGORITHM_def below_del_def)
  obtain data where d: "encode_encrypted_blob ?blob = Inr data" using encode_blob_text(1) [OF ok] by blast
  have "encrypt_payload c key nonce p field SQLITE_STORAGE_MODE_ENCRYPTED = Inr data"
    using assms d
    by (simp add: encrypt_payload_def encrypt_aead_def validate_key_def validate_field_name_def storage_field_def
        validate_storage_mode_def SQLITE_STORAGE_MODE_ENCRYPTED_def SQLITE_STORAGE_MODE_PLAINTEXT_def)
  moreover have "decrypt_aead c key ?blob (storage_aad field) = Inr p"
    using assms by (simp add: decrypt_aead_def validate_key_def aead_law_def)
  moreover have "decrypt_aead c key' ?blob aad =
      (case aead_open c key' nonce (aead_seal c key nonce p (storage_aad field)) aad of None \<Rightarrow> Inl (InvalidTag []) | Some q \<Rightarrow> Inr q)"
    if "length key' = 32" for key' aad
    using assms that by (simp add: decrypt_aead_def validate_key_def aead_law_def)
  ultimately show ?thesis using that d ok by blast
qed

lemma storage_roundtrip:
  assumes "aead_law c" and "length key = 32" and "length nonce = 12" and "storage_field field"
    and "mode = SQLITE_STORAGE_MODE_ENCRYPTED \<or> mode = SQLITE_STORAGE_MODE_PLAINTEXT \<and> \<not> looks_like_encrypted_blob p"
  shows "rbind (encrypt_payload c key nonce p field mode) (\<lambda>stored. decrypt_payload c key stored field mode) = Inr p"
  using assms(5)
proof
  assume m: "mode = SQLITE_STORAGE_MODE_ENCRYPTED"
  obtain blob data where b: "encrypt_payload c key nonce p field SQLITE_STORAGE_MODE_ENCRYPTED = Inr data"
    "encode_encrypted_blob blob = Inr data" "blob_ok blob" "decrypt_aead c key blob (storage_aad field) = Inr p"
    by (rule encrypt_payload_encrypted [OF assms(1-4)])
  from decode_encode_blob [OF b(3,2)] b(1,4) m assms(4) show ?thesis
    by (simp add: decrypt_payload_def validate_field_name_def storage_field_def validate_storage_mode_def
        SQLITE_STORAGE_MODE_ENCRYPTED_def SQLITE_STORAGE_MODE_PLAINTEXT_def)
next
  assume "mode = SQLITE_STORAGE_MODE_PLAINTEXT \<and> \<not> looks_like_encrypted_blob p"
  with assms(4) show ?thesis
    by (simp add: encrypt_payload_def decrypt_payload_def validate_field_name_def storage_field_def
        validate_storage_mode_def)
qed

lemma looks_like_blob:
  assumes "blob_ok b" and "encode_encrypted_blob b = Inr data"
  shows "looks_like_encrypted_blob data"
proof -
  have "Option.bind (utf8_decode data) json_loads = Some (encrypted_blob_payload b)"
    using encode_blob_text [OF assms(1)] assms(2) by simp
  then show ?thesis
    by (simp add: looks_like_encrypted_blob_def encrypted_blob_payload_def dict_has_def)
qed

lemma not_blob_refused:
  assumes "\<not> looks_like_encrypted_blob data"
  shows "\<exists>x. decode_encrypted_blob data = Inl (ValueError x)"
proof (cases "Option.bind (utf8_decode data) json_loads")
  case None
  then show ?thesis by (simp add: decode_encrypted_blob_def)
next
  case (Some j)
  show ?thesis
  proof (cases "\<exists>p h. j = JObj p \<and> map_of p ''header'' = Some (JObj h)")
    case False
    then show ?thesis using Some by (auto simp: decode_encrypted_blob_def split: json.split option.split)
  next
    case True
    then obtain p h where p: "j = JObj p" "map_of p ''header'' = Some (JObj h)" by blast
    with assms Some have no: "map_of p ''nonce'' = None \<or> map_of p ''ciphertext'' = None"
      by (auto simp: looks_like_encrypted_blob_def dict_has_def map_of_eq_None_iff)
    have rt: "(\<exists>x. blob_required_text q f = Inl (ValueError x)) \<or> (\<exists>s. blob_required_text q f = Inr s)" for q f
      by (auto simp: blob_required_text_def split: option.split json.split)
    have opt: "(\<exists>x. blob_optional_text q f = Inl (ValueError x)) \<or> (\<exists>s. blob_optional_text q f = Inr s)" for q f
      by (auto simp: blob_optional_text_def split: option.split json.split)
    have head: "(\<exists>x. decode_header h = Inl (ValueError x)) \<or> (\<exists>r. decode_header h = Inr r)"
      using rt [of h "''algorithm''"] opt [of h "''key_id''"] opt [of h "''context''"]
      by (auto simp: decode_header_def rguard_def split: option.split json.split)
    have b64: "(\<exists>x. decode_b64url v = Inl (ValueError x)) \<or> (\<exists>b. decode_b64url v = Inr b)" for v
      by (cases "decode_b64url v") (auto simp: decode_b64url_def Let_def split: if_split_asm option.split_asm)
    have none: "map_of p f = None \<Longrightarrow> \<exists>x. blob_required_text p f = Inl (ValueError x)" for f by (simp add: blob_required_text_def)
    have dec: "decode_encrypted_blob data = rbind (decode_header h) (\<lambda>header. rbind (blob_required_text p ''nonce'') (\<lambda>n.
        rbind (decode_b64url n) (\<lambda>nonce. rbind (blob_required_text p ''ciphertext'') (\<lambda>c. rbind (decode_b64url c) (\<lambda>ciphertext.
        let blob = \<lparr>eb_header = header, eb_nonce = nonce, eb_ciphertext = ciphertext\<rparr> in rbind (validate_blob blob) (\<lambda>_. Inr blob))))))"
      using Some p by (simp add: decode_encrypted_blob_def)
    from head show ?thesis
    proof (elim disjE exE)
      fix r assume r: "decode_header h = Inr r"
      from rt [of p "''nonce''"] show ?thesis
      proof (elim disjE exE)
        fix n assume n: "blob_required_text p ''nonce'' = Inr n"
        then have "map_of p ''ciphertext'' = None" using no by (auto simp: blob_required_text_def)
        then obtain x where "blob_required_text p ''ciphertext'' = Inl (ValueError x)" using none by blast
        then show ?thesis using b64 [of n] by (elim disjE exE) (simp_all add: dec r n)
      qed (simp add: dec r)
    qed (simp add: dec)
  qed
qed

text \<open>The documented binding of the AEAD: a sealed text opens under no other key of the right length and under no other associated data.\<close>

definition aead_binding :: "aead \<Rightarrow> bool" where
  "aead_binding c \<longleftrightarrow> (\<forall>key key' nonce p aad aad'. length key = 32 \<and> length key' = 32 \<and> (key', aad') \<noteq> (key, aad) \<longrightarrow>
     aead_open c key' nonce (aead_seal c key nonce p aad) aad' = None)"

subsection \<open>Property\<close>

text \<open>C35. A payload column reads back what was written. In encrypted mode any bytes survive
  \<open>encrypt_payload\<close> and \<open>decrypt_payload\<close> under the same key and column, and when the AEAD binds its associated
  data the record is refused as the other column, or under another key; in plaintext mode all bytes survive that do not
  themselves look like an encrypted record. The modes do not mix: a record written in encrypted mode is refused, not returned
  as if it were plaintext, by a plaintext datastore, and a plaintext record by an encrypted one.\<close>

theorem storage_column_roundtrip:
  assumes "aead_law c" and "length key = 32" and "length nonce = 12"
    and "field \<in> {''encrypted_name'', ''encrypted_payload''}"
  shows "rbind (encrypt_payload c key nonce p field SQLITE_STORAGE_MODE_ENCRYPTED)
           (\<lambda>stored. decrypt_payload c key stored field SQLITE_STORAGE_MODE_ENCRYPTED) = Inr p \<and>
    (aead_binding c \<longrightarrow> (\<forall>key' field'. length key' = 32 \<and> field' \<in> {''encrypted_name'', ''encrypted_payload''} \<and> (key', field') \<noteq> (key, field) \<longrightarrow>
       rbind (encrypt_payload c key nonce p field SQLITE_STORAGE_MODE_ENCRYPTED)
         (\<lambda>stored. decrypt_payload c key' stored field' SQLITE_STORAGE_MODE_ENCRYPTED) = Inl (InvalidTag []))) \<and>
    (\<not> looks_like_encrypted_blob p \<longrightarrow>
       rbind (encrypt_payload c key nonce p field SQLITE_STORAGE_MODE_PLAINTEXT)
         (\<lambda>stored. decrypt_payload c key stored field SQLITE_STORAGE_MODE_PLAINTEXT) = Inr p \<and>
       (\<exists>x. rbind (encrypt_payload c key nonce p field SQLITE_STORAGE_MODE_PLAINTEXT)
         (\<lambda>stored. decrypt_payload c key stored field SQLITE_STORAGE_MODE_ENCRYPTED) = Inl (ValueError x))) \<and>
    rbind (encrypt_payload c key nonce p field SQLITE_STORAGE_MODE_ENCRYPTED)
      (\<lambda>stored. decrypt_payload c key stored field SQLITE_STORAGE_MODE_PLAINTEXT) =
      Inl (ValueError ''encrypted SQLite storage record found in plaintext datastore'')"
proof -
  have f: "storage_field field" using assms(4) by (auto simp: storage_field_def)
  obtain blob data where b: "encrypt_payload c key nonce p field SQLITE_STORAGE_MODE_ENCRYPTED = Inr data"
    "encode_encrypted_blob blob = Inr data" "blob_ok blob"
    "\<And>key' aad. length key' = 32 \<Longrightarrow> decrypt_aead c key' blob aad =
      (case aead_open c key' nonce (aead_seal c key nonce p (storage_aad field)) aad of None \<Rightarrow> Inl (InvalidTag []) | Some q \<Rightarrow> Inr q)"
    by (rule encrypt_payload_encrypted [OF assms(1-3) f]) blast
  note modes = validate_field_name_def storage_field_def validate_storage_mode_def SQLITE_STORAGE_MODE_ENCRYPTED_def SQLITE_STORAGE_MODE_PLAINTEXT_def
  have "decrypt_payload c key data field SQLITE_STORAGE_MODE_PLAINTEXT =
      Inl (ValueError ''encrypted SQLite storage record found in plaintext datastore'')"
    using looks_like_blob [OF b(3,2)] f by (simp add: decrypt_payload_def modes)
  moreover have "decrypt_payload c key' data field' SQLITE_STORAGE_MODE_ENCRYPTED = Inl (InvalidTag [])"
    if "aead_binding c" "length key' = 32" "storage_field field'" "(key', field') \<noteq> (key, field)" for key' field'
  proof -
    have "(key', storage_aad field') \<noteq> (key, storage_aad field)" using that(4) by (auto simp: storage_aad_def)
    then have "aead_open c key' nonce (aead_seal c key nonce p (storage_aad field)) (storage_aad field') = None"
      using that(1,2) assms(2) unfolding aead_binding_def by blast
    then show ?thesis using decode_encode_blob [OF b(3,2)] b(4) [OF that(2)] that(3) by (simp add: decrypt_payload_def modes)
  qed
  moreover have "\<exists>x. decrypt_payload c key p field SQLITE_STORAGE_MODE_ENCRYPTED = Inl (ValueError x)" if "\<not> looks_like_encrypted_blob p"
    using not_blob_refused [OF that] f by (auto simp: decrypt_payload_def modes)
  moreover have "encrypt_payload c key nonce p field SQLITE_STORAGE_MODE_PLAINTEXT = Inr p" using f by (simp add: encrypt_payload_def modes)
  ultimately show ?thesis
    using storage_roundtrip [OF assms(1-3) f, of SQLITE_STORAGE_MODE_ENCRYPTED p]
      storage_roundtrip [OF assms(1-3) f, of SQLITE_STORAGE_MODE_PLAINTEXT p] b(1) by (auto simp: storage_field_def)
qed

definition example_aead :: aead where
  "example_aead = \<lparr>aead_seal = \<lambda>key nonce p aad. CHR ''T'' # p,
     aead_open = \<lambda>key nonce ct aad. case ct of [] \<Rightarrow> None | t # p \<Rightarrow> if t = CHR ''T'' then Some p else None\<rparr>"

lemma example_aead_law: "aead_law example_aead"
  by (simp add: aead_law_def example_aead_def)

text \<open>An AEAD that binds: the sealed text begins with the key and the associated data.\<close>

definition binding_aead :: aead where
  "binding_aead = \<lparr>aead_seal = \<lambda>key nonce p aad. replicate (length (key @ aad)) CHR ''x'' @ CHR ''T'' # key @ aad @ p,
     aead_open = \<lambda>key nonce ct aad. let n = length (takeWhile (\<lambda>c. c = CHR ''x'') ct); r = drop (Suc n) ct in
       if n = length (key @ aad) \<and> take n r = key @ aad then Some (drop n r) else None\<rparr>"

lemma binding_aead_laws: "aead_law binding_aead" "aead_binding binding_aead"
proof -
  have n: "takeWhile (\<lambda>c. c = CHR ''x'') (replicate k CHR ''x'' @ CHR ''T'' # r) = replicate k CHR ''x''" for k r
    by (induction k) simp_all
  show "aead_law binding_aead" by (simp add: aead_law_def binding_aead_def n Let_def)
  show "aead_binding binding_aead" by (auto simp: aead_binding_def binding_aead_def n Let_def)
qed

theorem storage_column_roundtrip_witness:
  "rbind (encrypt_payload binding_aead (replicate 32 CHR ''k'') (replicate 12 CHR ''n'') ''s3cret'' ''encrypted_payload''
      SQLITE_STORAGE_MODE_ENCRYPTED)
    (\<lambda>stored. decrypt_payload binding_aead (replicate 32 CHR ''k'') stored ''encrypted_payload''
      SQLITE_STORAGE_MODE_ENCRYPTED) = Inr ''s3cret'' \<and>
   rbind (encrypt_payload binding_aead (replicate 32 CHR ''k'') (replicate 12 CHR ''n'') ''s3cret'' ''encrypted_payload''
      SQLITE_STORAGE_MODE_ENCRYPTED)
    (\<lambda>stored. decrypt_payload binding_aead (replicate 32 CHR ''k'') stored ''encrypted_name''
      SQLITE_STORAGE_MODE_ENCRYPTED) = Inl (InvalidTag [])"
proof -
  have "length (replicate 32 CHR ''k'') = 32 \<and> ''encrypted_name'' \<in> {''encrypted_name'', ''encrypted_payload''} \<and>
    (replicate 32 CHR ''k'', ''encrypted_name'') \<noteq> (replicate 32 CHR ''k'', ''encrypted_payload'')" by simp
  moreover have "length (replicate 32 CHR ''k'') = 32" "length (replicate 12 CHR ''n'') = 12"
    "''encrypted_payload'' \<in> {''encrypted_name'', ''encrypted_payload''}" by simp_all
  note storage_column_roundtrip [OF binding_aead_laws(1) this, of "''s3cret''"]
  ultimately show ?thesis using binding_aead_laws(2) by blast
qed

end
