(* ===== verification/Kit_Datastore.thy ===== *)
theory Kit_Datastore
  imports Kit_Taxonomy Kit_Storage
begin

section \<open>The datastore: tables, constraints and storage mode\<close>

text \<open>
  The SQLite schema of \<open>backends/sqlite/schema.py\<close> as one record: a table is the list of its rows in
  rowid order, a nullable column that some operation leaves NULL an \<open>option\<close>. Primary keys, \<open>UNIQUE\<close> and \<open>REFERENCES\<close> constraints
  are checked by the writing operations, which answer \<open>IntegrityError\<close> as SQLite does; an
  operation that fails returns no new state, which is the rollback of the transaction or
  savepoint it runs in. Columns that no modelled operation reads or writes are left out.
  \<open>storage_mode.py\<close> and \<open>local_hierarchy.py\<close> are here too.
\<close>

subsection \<open>Rows\<close>

record Transaction =
  tx_transaction_id :: string
  tx_transaction_type :: string
  tx_payload :: json_obj
  tx_payload_hash :: string
  tx_transaction_version :: int
  tx_payload_version :: int
  tx_protocol_version :: int
  tx_organization_id :: "string option"
  tx_client_id :: "string option"
  tx_owner_id :: "string option"
  tx_origin_node_id :: "string option"
  tx_previous_transaction_id :: "string option"
  tx_signature :: "bytes option"
  tx_state :: string
  tx_created_at :: "string option"
  tx_received_at :: "string option"
  tx_applied_at :: "string option"
  tx_acknowledged_at :: "string option"
  tx_cleared_at :: "string option"

text \<open>A row of \<open>transactions\<close>: the payload and its hash are stored as bytes.\<close>

record transaction_row =
  tr_transaction_id :: string
  tr_transaction_type :: string
  tr_payload :: bytes
  tr_payload_hash :: bytes
  tr_transaction_version :: int
  tr_payload_version :: int
  tr_protocol_version :: int
  tr_organization_id :: "string option"
  tr_client_id :: "string option"
  tr_owner_id :: "string option"
  tr_origin_node_id :: "string option"
  tr_previous_transaction_id :: "string option"
  tr_signature :: "bytes option"
  tr_state :: string
  tr_created_at :: "string option"
  tr_received_at :: "string option"
  tr_applied_at :: "string option"
  tr_acknowledged_at :: "string option"
  tr_cleared_at :: "string option"

record secret_row =
  sc_secret_id :: string
  sc_owner_id :: string
  sc_service_group_id :: string
  sc_entry_type_id :: string
  sc_entry_kind_id :: string
  sc_schema_id :: "string option"
  sc_schema_version :: "int option"
  sc_name :: string
  sc_service :: string
  sc_account :: string
  sc_source :: string
  sc_comment :: string
  sc_source_url :: string
  sc_source_label :: string
  sc_rotation_days :: "int option"
  sc_rotation_warn_days :: "int option"
  sc_last_rotated_at :: string
  sc_expires_at :: string
  sc_locator_hash :: bytes
  sc_encrypted_name :: bytes
  sc_encrypted_payload :: bytes
  sc_content_hash :: bytes
  sc_state :: string
  sc_created_at :: string
  sc_updated_at :: string

record vocabulary_row =
  vo_id :: string
  vo_name :: string
  vo_operator_comment :: string

record tag_row =
  tg_tag_id :: string
  tg_name :: string
  tg_created_at :: string

text \<open>\<open>secret_tag_assignments\<close>, \<open>secret_domains\<close> and \<open>secret_custom_metadata\<close>.\<close>

record secret_item_row =
  si_secret_id :: string
  si_key :: string
  si_value :: string
  si_created_at :: string

record client_row =
  cl_client_id :: string
  cl_organization_id :: string

record owner_row =
  ow_owner_id :: string
  ow_client_id :: string

record peer_group_row =
  pg_peer_group_id :: string
  pg_name :: "string option"

record service_group_row =
  sg_service_group_id :: string
  sg_owner_id :: "string option"

record service_group_node_row =
  sn_service_group_id :: string
  sn_node_id :: string
  sn_state :: string
  sn_created_at :: "string option"
  sn_updated_at :: "string option"

record node_row =
  nd_node_id :: string
  nd_peer_group_id :: string
  nd_signing_public_key :: "bytes option"
  nd_signing_algorithm :: "string option"
  nd_encryption_public_key :: "bytes option"
  nd_encryption_algorithm :: "string option"
  nd_authorization_mode :: string
  nd_service_address :: "string option"
  nd_operator_description :: "string option"
  nd_last_seen_at :: "string option"
  nd_state :: "string option"
  nd_created_at :: "string option"
  nd_updated_at :: "string option"
  nd_operator_comment :: "string option"

record endpoint_row =
  ep_node_id :: string
  ep_endpoint :: string
  ep_state :: string
  ep_created_at :: string
  ep_updated_at :: string
  ep_expires_at :: "string option"
  ep_last_seen_at :: "string option"
  ep_operator_comment :: "string option"

record envelope_row =
  ev_envelope_id :: string
  ev_transaction_id :: string
  ev_source_node_id :: string
  ev_destination_node_id :: string
  ev_state :: string
  ev_encrypted_payload :: bytes
  ev_envelope_hash :: bytes
  ev_attempt_count :: int
  ev_claimed_at :: "string option"
  ev_sent_at :: "string option"
  ev_failed_at :: "string option"
  ev_next_attempt_at :: "string option"
  ev_last_error :: "string option"

record datastore =
  ds_metadata :: "(string \<times> string) list"
  ds_organizations :: "string list"
  ds_clients :: "client_row list"
  ds_owners :: "owner_row list"
  ds_peer_groups :: "peer_group_row list"
  ds_service_groups :: "service_group_row list"
  ds_service_group_nodes :: "service_group_node_row list"
  ds_nodes :: "node_row list"
  ds_node_private :: "string list"
  ds_peer_endpoints :: "endpoint_row list"
  ds_entry_types :: "vocabulary_row list"
  ds_entry_kinds :: "vocabulary_row list"
  ds_tags :: "tag_row list"
  ds_transactions :: "transaction_row list"
  ds_secrets :: "secret_row list"
  ds_tag_assignments :: "secret_item_row list"
  ds_domains :: "secret_item_row list"
  ds_custom :: "secret_item_row list"
  ds_envelopes :: "envelope_row list"

text \<open>\<open>bootstrap_schema\<close> on a new file.\<close>

definition empty_datastore :: datastore where
  "empty_datastore =
     \<lparr>ds_metadata = [], ds_organizations = [], ds_clients = [], ds_owners = [], ds_peer_groups = [],
      ds_service_groups = [], ds_service_group_nodes = [], ds_nodes = [], ds_node_private = [],
      ds_peer_endpoints = [], ds_entry_types = [], ds_entry_kinds = [], ds_tags = [],
      ds_transactions = [], ds_secrets = [], ds_tag_assignments = [], ds_domains = [], ds_custom = [],
      ds_envelopes = []\<rparr>"

text \<open>
  What the operations take from outside the repository: one reading of the clock, the cipher and the
  storage key, and the verification functions of the \<open>cryptography\<close> package.
\<close>

record host =
  h_now :: string
  h_aead :: aead
  h_storage_key :: bytes
  h_ed25519_verify :: "bytes \<Rightarrow> bytes \<Rightarrow> bytes \<Rightarrow> bool"
  h_ed25519_key_ok :: "bytes \<Rightarrow> bool"
  h_x25519_key_ok :: "bytes \<Rightarrow> bool"

subsection \<open>Constraint failures\<close>

definition fk_failed :: py_error where
  "fk_failed = IntegrityError ''FOREIGN KEY constraint failed''"

definition unique_failed :: "string \<Rightarrow> py_error" where
  "unique_failed column = IntegrityError (''UNIQUE constraint failed: '' @ column)"

definition fk_opt :: "('r \<Rightarrow> 'k) \<Rightarrow> 'k option \<Rightarrow> 'r list \<Rightarrow> bool" where
  "fk_opt key k t \<longleftrightarrow> (case k of None \<Rightarrow> True | Some v \<Rightarrow> t_has key v t)"

text \<open>INSERT OR IGNORE on a table with a second \<open>UNIQUE\<close> column.\<close>

definition t_insert_ignore2 :: "('r \<Rightarrow> 'k) \<Rightarrow> ('r \<Rightarrow> 'u) \<Rightarrow> 'r \<Rightarrow> 'r list \<Rightarrow> 'r list" where
  "t_insert_ignore2 key uniq r t = (if t_has key (key r) t \<or> t_has uniq (uniq r) t then t else t @ [r])"

text \<open>A Python integer bound to a statement must fit SQLite's signed 64 bits.\<close>

definition sqlite_int :: "int \<Rightarrow> int res" where
  "sqlite_int i = (if - (2 ^ 63) \<le> i \<and> i < 2 ^ 63 then Inr i
     else Inl (OverflowError ''Python int too large to convert to SQLite INTEGER''))"

definition sqlite_int_opt :: "int option \<Rightarrow> int option res" where
  "sqlite_int_opt i = (case i of None \<Rightarrow> Inr None | Some v \<Rightarrow> rbind (sqlite_int v) (\<lambda>w. Inr (Some w)))"

subsection \<open>Storage mode (\<open>storage_mode.py\<close>)\<close>

definition normalize_sqlite_storage_mode :: "string option \<Rightarrow> string res" where
  "normalize_sqlite_storage_mode v =
     (case v of
        None \<Rightarrow> Inr SQLITE_STORAGE_MODE_ENCRYPTED
      | Some s \<Rightarrow>
          let mode = lower (strip s) in
          if mode = SQLITE_STORAGE_MODE_ENCRYPTED \<or> mode = SQLITE_STORAGE_MODE_PLAINTEXT then Inr mode
          else Inl (SQLiteBackendError ''unsupported SQLite storage mode: ''))"

definition read_sqlite_storage_mode_opt :: "datastore \<Rightarrow> string option res" where
  "read_sqlite_storage_mode_opt ds =
     (case map_of (ds_metadata ds) ''storage_mode'' of
        None \<Rightarrow> Inr None
      | Some v \<Rightarrow> rbind (normalize_sqlite_storage_mode (Some v)) (\<lambda>m. Inr (Some m)))"

definition read_sqlite_storage_mode :: "datastore \<Rightarrow> string res" where
  "read_sqlite_storage_mode ds =
     rbind (read_sqlite_storage_mode_opt ds) (\<lambda>m.
       case m of
         None \<Rightarrow> Inl (SQLiteBackendError
           (''SQLite storage mode metadata is missing; '' @
            ''run explicit SQLite initialization before using this datastore''))
       | Some mode \<Rightarrow> Inr mode)"

definition initialize_sqlite_storage_mode :: "datastore \<Rightarrow> string option \<Rightarrow> (string \<times> datastore) res" where
  "initialize_sqlite_storage_mode ds mode =
     rbind (normalize_sqlite_storage_mode mode) (\<lambda>resolved.
     rbind (read_sqlite_storage_mode_opt ds) (\<lambda>existing.
       case existing of
         None \<Rightarrow> Inr (resolved, ds\<lparr>ds_metadata := ds_metadata ds @ [(''storage_mode'', resolved)]\<rparr>)
       | Some m \<Rightarrow>
           if m \<noteq> resolved then Inl (SQLiteBackendError ''SQLite storage mode mismatch: '')
           else Inr (resolved, ds)))"

definition validate_sqlite_storage_mode :: "datastore \<Rightarrow> string option \<Rightarrow> string res" where
  "validate_sqlite_storage_mode ds configured =
     rbind (read_sqlite_storage_mode ds) (\<lambda>mode.
       case configured of
         None \<Rightarrow> Inr mode
       | Some c \<Rightarrow> rbind (normalize_sqlite_storage_mode (Some c)) (\<lambda>expected.
           if expected \<noteq> mode then Inl (SQLiteBackendError ''SQLite storage mode mismatch: '')
           else Inr mode))"

subsection \<open>Local hierarchy (\<open>local_hierarchy.py\<close>)\<close>

text \<open>Module constants: \<open>deterministic_identifier\<close> with a non-empty namespace and name.\<close>

definition deterministic_constant :: "IdentifierType \<Rightarrow> string \<Rightarrow> string \<Rightarrow> string" where
  "deterministic_constant t namespace name =
     (case deterministic_identifier t namespace name of Inr v \<Rightarrow> v | Inl _ \<Rightarrow> [])"

definition LOCAL_ORGANIZATION_ID :: string where
  "LOCAL_ORGANIZATION_ID = deterministic_constant Organization ''sqlite.bootstrap'' ''local-standalone''"

definition LOCAL_CLIENT_ID :: string where
  "LOCAL_CLIENT_ID = deterministic_constant Client ''sqlite.bootstrap'' ''local-standalone-client''"

definition LOCAL_FALLBACK_NODE_ID :: string where
  "LOCAL_FALLBACK_NODE_ID = deterministic_constant Node ''sqlite.bootstrap'' ''local-standalone-cli''"

definition local_peer_group_id_for_node :: "string \<Rightarrow> string res" where
  "local_peer_group_id_for_node node_id =
     rbind (validate_identifier node_id Node ''node_id'') (\<lambda>_.
       deterministic_identifier Peer_group ''sqlite.local_peer_group'' node_id)"

definition local_peer_group_display_name :: "string \<Rightarrow> string res" where
  "local_peer_group_display_name peer_group_id =
     rbind (validate_identifier peer_group_id Peer_group ''peer_group_id'') (\<lambda>_.
       let v = (if starts_with ''pg:'' peer_group_id then drop 3 peer_group_id else peer_group_id)
       in Inr (''peergroup-'' @ take 8 v))"

lemma local_ids_identifiers:
  "is_identifier Organization LOCAL_ORGANIZATION_ID" "is_identifier Client LOCAL_CLIENT_ID"
  "is_identifier Node LOCAL_FALLBACK_NODE_ID"
  unfolding LOCAL_ORGANIZATION_ID_def LOCAL_CLIENT_ID_def LOCAL_FALLBACK_NODE_ID_def deterministic_constant_def
  by (simp_all add: deterministic_identifier_def)

lemma local_peer_group_ok:
  assumes "is_identifier Node n"
  obtains g where "local_peer_group_id_for_node n = Inr g" "is_identifier Peer_group g"
    "local_peer_group_display_name g = Inr (''peergroup-'' @ take 8 (drop 3 g))"
proof -
  obtain g where g: "local_peer_group_id_for_node n = Inr g" "is_identifier Peer_group g"
    using assms is_identifier_not_Nil [OF assms]
    by (simp add: local_peer_group_id_for_node_def validate_identifier_ok deterministic_identifier_def)
  moreover from g(2) obtain u where "g = format_identifier Peer_group u" by (auto simp: is_identifier_iff)
  then have "starts_with ''pg:'' g" by (simp add: format_identifier_def starts_with_def)
  ultimately show ?thesis
    using that by (simp add: local_peer_group_display_name_def validate_identifier_ok)
qed

lemma storage_mode_immutable:
  assumes "initialize_sqlite_storage_mode ds mode = Inr (m, ds')"
  shows "read_sqlite_storage_mode ds' = Inr m"
    and "initialize_sqlite_storage_mode ds' (Some other) = Inr (m', ds'') \<Longrightarrow> m' = m \<and> ds'' = ds'"
proof -
  have norm: "normalize_sqlite_storage_mode (Some x) = Inr x"
    if "x = SQLITE_STORAGE_MODE_ENCRYPTED \<or> x = SQLITE_STORAGE_MODE_PLAINTEXT" for x
  proof -
    have "normalize_sqlite_storage_mode (Some SQLITE_STORAGE_MODE_ENCRYPTED) = Inr SQLITE_STORAGE_MODE_ENCRYPTED"
      "normalize_sqlite_storage_mode (Some SQLITE_STORAGE_MODE_PLAINTEXT) = Inr SQLITE_STORAGE_MODE_PLAINTEXT"
      by code_simp+
    with that show ?thesis by auto
  qed
  have range: "x = SQLITE_STORAGE_MODE_ENCRYPTED \<or> x = SQLITE_STORAGE_MODE_PLAINTEXT"
    if "normalize_sqlite_storage_mode v = Inr x" for v x
    using that by (auto simp: normalize_sqlite_storage_mode_def Let_def split: option.splits if_splits)
  have r: "read_sqlite_storage_mode_opt ds' = Inr (Some m)"
    using assms norm range
    by (auto simp: initialize_sqlite_storage_mode_def rbind_Inr_iff read_sqlite_storage_mode_opt_def map_add_def
        split: option.splits if_splits)
  then show "read_sqlite_storage_mode ds' = Inr m" by (simp add: read_sqlite_storage_mode_def)
  show "m' = m \<and> ds'' = ds'" if "initialize_sqlite_storage_mode ds' (Some other) = Inr (m', ds'')"
    using that r by (auto simp: initialize_sqlite_storage_mode_def rbind_Inr_iff split: if_splits)
qed

end
