(* ===== verification/Kit_Transactions.thy ===== *)
theory Kit_Transactions
  imports Kit_Datastore
begin

section \<open>The transaction log (\<open>transactions.py\<close>, \<open>transaction_scope.py\<close>)\<close>

text \<open>
  Creating, validating, inserting, reading and marking the canonical transactions of the log, the
  operator's inspection views of it, and the classification of transactions into synchronisation
  scopes. The lemmas: what is inserted is what is read back, up to the order of payload members;
  the log is append-only and keyed; a stored row always decodes.
\<close>

subsection \<open>Validation\<close>

fun error_message :: "py_error \<Rightarrow> string" where
  "error_message (ValueError m) = m"
| "error_message (TypeError m) = m"
| "error_message (KeyError m) = m"
| "error_message (ValidationError m) = m"
| "error_message (IdentifierValidationError m) = m"
| "error_message (SQLiteBackendError m) = m"
| "error_message (SQLiteValidationError m) = m"
| "error_message (DuplicateTransactionError m) = m"
| "error_message (TransactionNotFoundError m) = m"
| "error_message (IntegrityError m) = m"
| "error_message (TransportRouteError m) = m"
| "error_message (EnvelopeValidationError m) = m"
| "error_message (EnvelopeSignatureError m) = m"
| "error_message (EnvelopePayloadCodecError m) = m"
| "error_message (OverflowError m) = m"
| "error_message (InvalidTag m) = m"
| "error_message (PeerDeliveryError m) = m"

definition sqlite_validation :: "py_error \<Rightarrow> py_error" where
  "sqlite_validation e = SQLiteValidationError (error_message e)"

text \<open>\<open>if value:\<close> for an optional string.\<close>

definition truthy :: "string option \<Rightarrow> bool" where
  "truthy v \<longleftrightarrow> (case v of None \<Rightarrow> False | Some s \<Rightarrow> s \<noteq> [])"

definition tx_validate_identifier :: "string option \<Rightarrow> IdentifierType \<Rightarrow> string \<Rightarrow> unit res" where
  "tx_validate_identifier v t field =
     (case v of
        None \<Rightarrow> Inl (SQLiteValidationError (field @ '' is required''))
      | Some s \<Rightarrow> rbind (rmap_error sqlite_validation (validate_identifier s t field)) (\<lambda>_. Inr ()))"

definition optional_scope :: "string option \<Rightarrow> IdentifierType \<Rightarrow> string \<Rightarrow> unit res" where
  "optional_scope v t field = (if truthy v then tx_validate_identifier v t field else Inr ())"

definition TRANSACTION_STATES :: "string list" where
  "TRANSACTION_STATES = [''pending'', ''applied'', ''replayed'', ''failed'']"

definition validate_transaction :: "Transaction \<Rightarrow> unit res" where
  "validate_transaction t =
     rbind (rguard (tx_transaction_id t \<noteq> []) (SQLiteValidationError ''transaction_id is required'')) (\<lambda>_.
     rbind (rguard (tx_transaction_type t \<noteq> []) (SQLiteValidationError ''transaction_type is required'')) (\<lambda>_.
     rbind (rguard (truthy (tx_origin_node_id t)) (SQLiteValidationError ''origin_node_id is required'')) (\<lambda>_.
     rbind (rguard (truthy (tx_created_at t)) (SQLiteValidationError ''created_at is required'')) (\<lambda>_.
     rbind (rguard (tx_state t \<in> set TRANSACTION_STATES)
              (SQLiteValidationError ''state must be pending, applied, replayed, or failed'')) (\<lambda>_.
     rbind (tx_validate_identifier (Some (tx_transaction_id t)) IdentifierType.Transaction ''transaction_id'') (\<lambda>_.
     rbind (tx_validate_identifier (tx_origin_node_id t) Node ''origin_node_id'') (\<lambda>_.
     rbind (optional_scope (tx_organization_id t) Organization ''organization_id'') (\<lambda>_.
     rbind (optional_scope (tx_client_id t) Client ''client_id'') (\<lambda>_.
     rbind (optional_scope (tx_owner_id t) Owner ''owner_id'') (\<lambda>_.
     rbind (optional_scope (tx_previous_transaction_id t) IdentifierType.Transaction ''previous_transaction_id'') (\<lambda>_.
     rbind (rguard (tx_payload_hash t = sha256_hex (canonical_json_bytes (tx_payload t)))
              (SQLiteValidationError ''payload_hash does not match payload'')) (\<lambda>_.
     rbind (payload_hash_hex_to_bytes (tx_payload_hash t)) (\<lambda>_. Inr ())))))))))))))"

text \<open>The arguments are the fields of the record without the hash; a hash in it is replaced.\<close>

definition create_transaction :: "Transaction \<Rightarrow> Transaction res" where
  "create_transaction f =
     (let t = f\<lparr>tx_payload_hash := sha256_hex (canonical_json_bytes (tx_payload f))\<rparr>
      in rbind (validate_transaction t) (\<lambda>_. Inr t))"

subsection \<open>Writing\<close>

text \<open>Columns checked by SQLite on INSERT: the primary key and the five references.\<close>

definition transaction_fk_ok :: "datastore \<Rightarrow> transaction_row \<Rightarrow> bool" where
  "transaction_fk_ok ds r \<longleftrightarrow>
     fk_opt id (tr_organization_id r) (ds_organizations ds) \<and>
     fk_opt cl_client_id (tr_client_id r) (ds_clients ds) \<and>
     fk_opt ow_owner_id (tr_owner_id r) (ds_owners ds) \<and>
     fk_opt nd_node_id (tr_origin_node_id r) (ds_nodes ds) \<and>
     fk_opt tr_transaction_id (tr_previous_transaction_id r) (ds_transactions ds @ [r])"

definition transaction_to_row :: "Transaction \<Rightarrow> bytes \<Rightarrow> transaction_row" where
  "transaction_to_row t hash =
     \<lparr>tr_transaction_id = tx_transaction_id t, tr_transaction_type = tx_transaction_type t,
      tr_payload = canonical_json_bytes (tx_payload t), tr_payload_hash = hash,
      tr_transaction_version = tx_transaction_version t, tr_payload_version = tx_payload_version t,
      tr_protocol_version = tx_protocol_version t, tr_organization_id = tx_organization_id t,
      tr_client_id = tx_client_id t, tr_owner_id = tx_owner_id t, tr_origin_node_id = tx_origin_node_id t,
      tr_previous_transaction_id = tx_previous_transaction_id t, tr_signature = tx_signature t,
      tr_state = tx_state t, tr_created_at = tx_created_at t, tr_received_at = tx_received_at t,
      tr_applied_at = tx_applied_at t, tr_acknowledged_at = tx_acknowledged_at t,
      tr_cleared_at = tx_cleared_at t\<rparr>"

definition insert_transaction :: "datastore \<Rightarrow> Transaction \<Rightarrow> datastore res" where
  "insert_transaction ds t =
     rbind (validate_transaction t) (\<lambda>_.
     rbind (payload_hash_hex_to_bytes (tx_payload_hash t)) (\<lambda>hash.
     rbind (sqlite_int (tx_transaction_version t)) (\<lambda>_.
     rbind (sqlite_int (tx_payload_version t)) (\<lambda>_.
     rbind (sqlite_int (tx_protocol_version t)) (\<lambda>_.
       let r = transaction_to_row t hash in
       if t_has tr_transaction_id (tr_transaction_id r) (ds_transactions ds)
       then Inl (DuplicateTransactionError (tx_transaction_id t))
       else if \<not> transaction_fk_ok ds r
       then Inl (SQLiteBackendError ''FOREIGN KEY constraint failed'')
       else Inr (ds\<lparr>ds_transactions := ds_transactions ds @ [r]\<rparr>))))))"

definition transaction_exists :: "datastore \<Rightarrow> string \<Rightarrow> bool" where
  "transaction_exists ds i = t_has tr_transaction_id i (ds_transactions ds)"

definition mark_transaction_applied :: "string \<Rightarrow> datastore \<Rightarrow> string \<Rightarrow> datastore res" where
  "mark_transaction_applied now ds i =
     (case t_get tr_transaction_id i (ds_transactions ds) of
        Some r \<Rightarrow>
          if tr_state r = ''pending''
          then Inr (ds\<lparr>ds_transactions := t_update tr_transaction_id i
                  (\<lambda>r. r\<lparr>tr_state := ''applied'', tr_applied_at := Some now\<rparr>) (ds_transactions ds)\<rparr>)
          else Inl (SQLiteValidationError ''pending transaction not found for applied transition: '')
      | None \<Rightarrow> Inl (SQLiteValidationError ''pending transaction not found for applied transition: ''))"

subsection \<open>Reading\<close>

definition transaction_from_row :: "transaction_row \<Rightarrow> Transaction res" where
  "transaction_from_row r =
     rbind (load_canonical_json (tr_payload r)) (\<lambda>payload.
     rbind (payload_hash_bytes_to_hex (tr_payload_hash r)) (\<lambda>hash.
       Inr \<lparr>tx_transaction_id = tr_transaction_id r, tx_transaction_type = tr_transaction_type r,
            tx_payload = payload, tx_payload_hash = hash,
            tx_transaction_version = tr_transaction_version r, tx_payload_version = tr_payload_version r,
            tx_protocol_version = tr_protocol_version r, tx_organization_id = tr_organization_id r,
            tx_client_id = tr_client_id r, tx_owner_id = tr_owner_id r,
            tx_origin_node_id = tr_origin_node_id r,
            tx_previous_transaction_id = tr_previous_transaction_id r, tx_signature = tr_signature r,
            tx_state = tr_state r, tx_created_at = tr_created_at r, tx_received_at = tr_received_at r,
            tx_applied_at = tr_applied_at r, tx_acknowledged_at = tr_acknowledged_at r,
            tx_cleared_at = tr_cleared_at r\<rparr>))"

definition get_transaction :: "datastore \<Rightarrow> string \<Rightarrow> Transaction res" where
  "get_transaction ds i =
     (case t_get tr_transaction_id i (ds_transactions ds) of
        None \<Rightarrow> Inl (TransactionNotFoundError ''transaction not found: '')
      | Some r \<Rightarrow> transaction_from_row r)"

record TransactionListInspection =
  tl_transaction_id :: string
  tl_transaction_type :: string
  tl_state :: string
  tl_origin_node_id :: string
  tl_created_at :: string
  tl_received_at :: string
  tl_applied_at :: string
  tl_acknowledged_at :: string
  tl_cleared_at :: string
  tl_payload_hash :: string

definition or_empty :: "string option \<Rightarrow> string" where
  "or_empty v = (case v of None \<Rightarrow> [] | Some s \<Rightarrow> s)"

definition transaction_list_inspection_from_row :: "transaction_row \<Rightarrow> TransactionListInspection res" where
  "transaction_list_inspection_from_row r =
     rbind (payload_hash_bytes_to_hex (tr_payload_hash r)) (\<lambda>hash.
       Inr \<lparr>tl_transaction_id = tr_transaction_id r, tl_transaction_type = tr_transaction_type r,
            tl_state = tr_state r, tl_origin_node_id = or_empty (tr_origin_node_id r),
            tl_created_at = or_empty (tr_created_at r), tl_received_at = or_empty (tr_received_at r),
            tl_applied_at = or_empty (tr_applied_at r),
            tl_acknowledged_at = or_empty (tr_acknowledged_at r),
            tl_cleared_at = or_empty (tr_cleared_at r), tl_payload_hash = hash\<rparr>)"

text \<open>Newest first; \<open>LIMIT\<close> with a negative number is no limit.\<close>

definition list_transactions_for_inspection ::
  "datastore \<Rightarrow> int \<Rightarrow> string option \<Rightarrow> TransactionListInspection list res" where
  "list_transactions_for_inspection ds limit state =
     (let rows = rev (filter (\<lambda>r. case state of None \<Rightarrow> True | Some s \<Rightarrow> tr_state r = s) (ds_transactions ds));
          rows = (if limit < 0 then rows else take (nat limit) rows)
      in rmapM transaction_list_inspection_from_row rows)"

record TransactionInspection =
  ti_transaction_id :: string
  ti_transaction_version :: int
  ti_payload_version :: int
  ti_protocol_version :: int
  ti_organization_id :: string
  ti_client_id :: string
  ti_owner_id :: string
  ti_origin_node_id :: string
  ti_transaction_type :: string
  ti_previous_transaction_id :: string
  ti_payload :: json_obj
  ti_payload_hash :: string
  ti_signature :: string
  ti_state :: string
  ti_created_at :: string
  ti_received_at :: string
  ti_applied_at :: string
  ti_acknowledged_at :: string
  ti_cleared_at :: string

definition transaction_inspection_from_row :: "transaction_row \<Rightarrow> TransactionInspection res" where
  "transaction_inspection_from_row r =
     rbind (load_canonical_json (tr_payload r)) (\<lambda>payload.
     rbind (payload_hash_bytes_to_hex (tr_payload_hash r)) (\<lambda>hash.
       Inr \<lparr>ti_transaction_id = tr_transaction_id r, ti_transaction_version = tr_transaction_version r,
            ti_payload_version = tr_payload_version r, ti_protocol_version = tr_protocol_version r,
            ti_organization_id = or_empty (tr_organization_id r), ti_client_id = or_empty (tr_client_id r),
            ti_owner_id = or_empty (tr_owner_id r), ti_origin_node_id = or_empty (tr_origin_node_id r),
            ti_transaction_type = tr_transaction_type r,
            ti_previous_transaction_id = or_empty (tr_previous_transaction_id r),
            ti_payload = payload, ti_payload_hash = hash,
            ti_signature = (case tr_signature r of None \<Rightarrow> [] | Some s \<Rightarrow> bytes_to_hex s),
            ti_state = tr_state r, ti_created_at = or_empty (tr_created_at r),
            ti_received_at = or_empty (tr_received_at r), ti_applied_at = or_empty (tr_applied_at r),
            ti_acknowledged_at = or_empty (tr_acknowledged_at r),
            ti_cleared_at = or_empty (tr_cleared_at r)\<rparr>))"

definition inspect_transaction :: "datastore \<Rightarrow> string \<Rightarrow> TransactionInspection res" where
  "inspect_transaction ds i =
     (case t_get tr_transaction_id i (ds_transactions ds) of
        None \<Rightarrow> Inl (TransactionNotFoundError ''transaction not found: '')
      | Some r \<Rightarrow> transaction_inspection_from_row r)"

subsection \<open>Synchronisation scope (\<open>transaction_scope.py\<close>)\<close>

datatype TransactionScope = SERVICE_GROUP string | CONTROL | LOCAL_SYSTEM

definition SERVICE_GROUP_SCOPED_TRANSACTION_TYPES :: "string list" where
  "SERVICE_GROUP_SCOPED_TRANSACTION_TYPES = [''secret.set'', ''secret.delete'']"

definition CONTROL_TRANSACTION_TYPES :: "string list" where
  "CONTROL_TRANSACTION_TYPES =
     [''peer.admission.request'', ''peer.admission.accept'', ''peer.admission.reject'',
      ''peer.admission.revoke'', ''peer.endpoint.register'', ''peer.endpoint.update'',
      ''peer.endpoint.replace'', ''peer.endpoint.expire'', ''peer.endpoint.remove'']"

definition required_service_group_id :: "Transaction \<Rightarrow> string res" where
  "required_service_group_id t =
     (case map_of (tx_payload t) ''service_group_id'' of
        None \<Rightarrow> Inl (SQLiteValidationError ''service_group_id is required for transaction type: '')
      | Some JNull \<Rightarrow> Inl (SQLiteValidationError ''service_group_id is required for transaction type: '')
      | Some (JStr s) \<Rightarrow>
          if s = [] then Inl (SQLiteValidationError
            ''service_group_id must be a non-empty canonical service_group identifier: '')
          else rbind (rmap_error sqlite_validation (validate_identifier s Service_group ''service_group_id''))
                 (\<lambda>_. Inr s)
      | Some _ \<Rightarrow> Inl (SQLiteValidationError
            ''service_group_id must be a non-empty canonical service_group identifier: ''))"

definition reject_unexpected_service_group_id :: "Transaction \<Rightarrow> unit res" where
  "reject_unexpected_service_group_id t =
     rguard (\<not> dict_has ''service_group_id'' (tx_payload t))
       (SQLiteValidationError ''service_group_id is not valid for transaction type: '')"

definition transaction_scope :: "Transaction \<Rightarrow> TransactionScope res" where
  "transaction_scope t =
     (let ty = tx_transaction_type t in
      if ty \<in> set SERVICE_GROUP_SCOPED_TRANSACTION_TYPES
      then rbind (required_service_group_id t) (\<lambda>sg. Inr (SERVICE_GROUP sg))
      else if ty \<in> set CONTROL_TRANSACTION_TYPES
      then rbind (reject_unexpected_service_group_id t) (\<lambda>_. Inr CONTROL)
      else if starts_with ''vocabulary.'' ty
      then rbind (reject_unexpected_service_group_id t) (\<lambda>_. Inr LOCAL_SYSTEM)
      else Inl (SQLiteValidationError ''transaction scope is unknown: ''))"

definition service_group_scope_id :: "Transaction \<Rightarrow> string option res" where
  "service_group_scope_id t =
     rbind (transaction_scope t) (\<lambda>s. Inr (case s of SERVICE_GROUP sg \<Rightarrow> Some sg | _ \<Rightarrow> None))"

subsection \<open>Interface: an append-only keyed log\<close>

text \<open>
  What replay and duplicate detection rely on: an accepted entry goes to the end under a fresh key,
  reads back as its normal form, and leaves every other entry alone.
\<close>

locale keyed_log =
  fixes ids :: "'s \<Rightarrow> 'k list"
    and put :: "'s \<Rightarrow> 'v \<Rightarrow> 's res"
    and get :: "'s \<Rightarrow> 'k \<Rightarrow> 'v res"
    and key :: "'v \<Rightarrow> 'k"
    and norm :: "'v \<Rightarrow> 'v"
    and ok :: "'v \<Rightarrow> bool"
  assumes put_ids: "put s v = Inr s' \<Longrightarrow> ids s' = ids s @ [key v]"
    and put_fresh: "put s v = Inr s' \<Longrightarrow> key v \<notin> set (ids s)"
    and get_put: "put s v = Inr s' \<Longrightarrow> ok v \<Longrightarrow> get s' (key v) = Inr (norm v)"
    and get_other: "put s v = Inr s' \<Longrightarrow> k \<noteq> key v \<Longrightarrow> get s' k = get s k"
begin

lemma put_all:
  assumes "rfold (\<lambda>v s. put s v) vs s = Inr s'"
  shows "ids s' = ids s @ map key vs"
    and "distinct (map key vs)" and "set (ids s) \<inter> key ` set vs = {}"
    and "\<And>v. v \<in> set vs \<Longrightarrow> ok v \<Longrightarrow> get s' (key v) = Inr (norm v)"
    and "\<And>k. k \<notin> key ` set vs \<Longrightarrow> get s' k = get s k"
proof -
  have "ids s' = ids s @ map key vs \<and> distinct (map key vs) \<and> set (ids s) \<inter> key ` set vs = {} \<and>
      (\<forall>v \<in> set vs. ok v \<longrightarrow> get s' (key v) = Inr (norm v)) \<and> (\<forall>k. k \<notin> key ` set vs \<longrightarrow> get s' k = get s k)"
    using assms
  proof (induction vs arbitrary: s)
    case Nil
    then show ?case by simp
  next
    case (Cons v vs)
    from Cons.prems obtain s1 where s1: "put s v = Inr s1" and rest: "rfold (\<lambda>v s. put s v) vs s1 = Inr s'"
      by (auto elim: rbind_InrE)
    from Cons.IH [OF rest] put_ids [OF s1] put_fresh [OF s1] get_put [OF s1] get_other [OF s1]
    show ?case by auto
  qed
  then show "ids s' = ids s @ map key vs"
    and "distinct (map key vs)" and "set (ids s) \<inter> key ` set vs = {}"
    and "\<And>v. v \<in> set vs \<Longrightarrow> ok v \<Longrightarrow> get s' (key v) = Inr (norm v)"
    and "\<And>k. k \<notin> key ` set vs \<Longrightarrow> get s' k = get s k"
    by blast+
qed

end

subsection \<open>The transaction table is such a log\<close>

definition tx_wf :: "Transaction \<Rightarrow> bool" where
  "tx_wf t \<longleftrightarrow> json_wf (JObj (tx_payload t))"

definition tx_norm :: "Transaction \<Rightarrow> Transaction" where
  "tx_norm t = t\<lparr>tx_payload := canon_obj (tx_payload t)\<rparr>"

definition log_ids :: "datastore \<Rightarrow> string list" where
  "log_ids ds = map tr_transaction_id (ds_transactions ds)"

lemma insert_transaction_InrD:
  assumes "insert_transaction ds t = Inr ds'"
  obtains hash where "validate_transaction t = Inr ()" "payload_hash_hex_to_bytes (tx_payload_hash t) = Inr hash"
    "\<not> t_has tr_transaction_id (tx_transaction_id t) (ds_transactions ds)"
    "transaction_fk_ok ds (transaction_to_row t hash)"
    "ds' = ds\<lparr>ds_transactions := ds_transactions ds @ [transaction_to_row t hash]\<rparr>"
  using assms
  by (auto simp: insert_transaction_def rbind_Inr_iff Let_def transaction_to_row_def split: if_splits)

lemma validate_transaction_hash:
  "validate_transaction t = Inr () \<Longrightarrow> tx_payload_hash t = hash_payload (tx_payload t)"
  by (simp add: validate_transaction_def rbind_Inr_iff hash_payload_def)

lemma transaction_row_roundtrip:
  assumes "tx_wf t" and "validate_transaction t = Inr ()"
    and "payload_hash_hex_to_bytes (tx_payload_hash t) = Inr hash"
  shows "transaction_from_row (transaction_to_row t hash) = Inr (tx_norm t)"
proof -
  have "length hash = 32" "tx_payload_hash t = bytes_to_hex hash"
    using assms(3) by (simp_all add: payload_hash.decode_iff)
  then have "payload_hash_bytes_to_hex hash = Inr (tx_payload_hash t)"
    by (simp add: payload_hash_bytes_to_hex_def)
  moreover have "load_canonical_json (canonical_json_bytes (tx_payload t)) = Inr (canon_obj (tx_payload t))"
    using assms(1) by (simp only: tx_wf_def canonical_json.decode_encode)
  ultimately show ?thesis
    by (simp add: transaction_from_row_def transaction_to_row_def tx_norm_def)
qed

interpretation txlog: keyed_log log_ids insert_transaction get_transaction tx_transaction_id tx_norm tx_wf
proof
  fix s v s' k
  assume put: "insert_transaction s v = Inr s'"
  then obtain hash where h: "validate_transaction v = Inr ()"
    "payload_hash_hex_to_bytes (tx_payload_hash v) = Inr hash"
    "\<not> t_has tr_transaction_id (tx_transaction_id v) (ds_transactions s)"
    "s' = s\<lparr>ds_transactions := ds_transactions s @ [transaction_to_row v hash]\<rparr>"
    by (rule insert_transaction_InrD)
  have key: "tr_transaction_id (transaction_to_row v hash) = tx_transaction_id v"
    by (simp add: transaction_to_row_def)
  show "log_ids s' = log_ids s @ [tx_transaction_id v]" using h(4) key by (simp add: log_ids_def)
  show "tx_transaction_id v \<notin> set (log_ids s)" using h(3) by (simp add: log_ids_def t_has_def)
  show "get_transaction s' (tx_transaction_id v) = Inr (tx_norm v)" if "tx_wf v"
  proof -
    have "t_get tr_transaction_id (tx_transaction_id v) (ds_transactions s) = None"
      using h(3) by (simp add: t_get_None_iff)
    then have "t_get tr_transaction_id (tx_transaction_id v) (ds_transactions s') = Some (transaction_to_row v hash)"
      using h(4) key by (simp add: t_get_append t_get_Cons)
    then show ?thesis
      using transaction_row_roundtrip [OF that h(1,2)] by (simp add: get_transaction_def)
  qed
  show "get_transaction s' k = get_transaction s k" if "k \<noteq> tx_transaction_id v"
    using that h(4) key by (auto simp: get_transaction_def t_get_append t_get_Cons split: option.splits)
qed

subsection \<open>Stored rows decode and validate again\<close>

definition row_wf :: "transaction_row \<Rightarrow> bool" where
  "row_wf r \<longleftrightarrow> (\<exists>t. tx_wf t \<and> validate_transaction t = Inr () \<and> transaction_from_row r = Inr (tx_norm t))"

definition log_wf :: "datastore \<Rightarrow> bool" where
  "log_wf ds \<longleftrightarrow> t_keyed tr_transaction_id (ds_transactions ds) \<and> (\<forall>r \<in> set (ds_transactions ds). row_wf r)"

lemma canon_obj_bytes: "canonical_json_bytes (canon_obj p) = canonical_json_bytes p"
  using canon_idem [of "JObj p"]
  by (simp add: canonical_json_bytes_def canonical_json_text_def canon_JObj del: canon_idem canon.simps)

lemma validate_tx_norm: "validate_transaction (tx_norm t) = validate_transaction t"
  by (simp add: validate_transaction_def tx_norm_def canon_obj_bytes)

lemma insert_log_wf:
  assumes "insert_transaction ds t = Inr ds'" and "tx_wf t" and "log_wf ds"
  shows "log_wf ds'"
proof -
  obtain hash where h: "validate_transaction t = Inr ()"
    "payload_hash_hex_to_bytes (tx_payload_hash t) = Inr hash"
    "\<not> t_has tr_transaction_id (tx_transaction_id t) (ds_transactions ds)"
    "ds' = ds\<lparr>ds_transactions := ds_transactions ds @ [transaction_to_row t hash]\<rparr>"
    using assms(1) by (rule insert_transaction_InrD)
  have "row_wf (transaction_to_row t hash)"
    using transaction_row_roundtrip [OF assms(2) h(1,2)] assms(2) h(1) unfolding row_wf_def by blast
  with assms(3) h show ?thesis
    by (auto simp: log_wf_def t_keyed_append1 transaction_to_row_def)
qed

lemma log_wf_get:
  assumes "log_wf ds" and "transaction_exists ds i"
  obtains t where "get_transaction ds i = Inr t" "validate_transaction t = Inr ()"
proof -
  from assms(2) obtain r where r: "t_get tr_transaction_id i (ds_transactions ds) = Some r"
    by (auto simp: transaction_exists_def t_has_iff_get)
  then have "row_wf r" using assms(1) by (auto simp: log_wf_def dest: t_get_SomeD)
  with r that show ?thesis by (auto simp: row_wf_def get_transaction_def validate_tx_norm)
qed

lemma tx_norm_mark:
  "tx_norm (t\<lparr>tx_state := a, tx_applied_at := b\<rparr>) = (tx_norm t)\<lparr>tx_state := a, tx_applied_at := b\<rparr>"
  by (cases t) (simp add: tx_norm_def)

lemma mark_applied_log:
  assumes "mark_transaction_applied now ds i = Inr ds'"
  shows "log_ids ds' = log_ids ds" and "log_wf ds \<Longrightarrow> log_wf ds'"
    and "\<exists>r. t_get tr_transaction_id i (ds_transactions ds) = Some r \<and> tr_state r = ''pending'' \<and>
      t_get tr_transaction_id i (ds_transactions ds') = Some (r\<lparr>tr_state := ''applied'', tr_applied_at := Some now\<rparr>)"
    and "k \<noteq> i \<Longrightarrow> get_transaction ds' k = get_transaction ds k"
proof -
  let ?f = "\<lambda>r :: transaction_row. r\<lparr>tr_state := ''applied'', tr_applied_at := Some now\<rparr>"
  from assms obtain r where r: "t_get tr_transaction_id i (ds_transactions ds) = Some r" "tr_state r = ''pending''"
    and ds': "ds' = ds\<lparr>ds_transactions := t_update tr_transaction_id i ?f (ds_transactions ds)\<rparr>"
    by (auto simp: mark_transaction_applied_def split: option.splits if_splits)
  show "log_ids ds' = log_ids ds" by (simp add: ds' log_ids_def t_update_def)
  show "\<exists>r. t_get tr_transaction_id i (ds_transactions ds) = Some r \<and> tr_state r = ''pending'' \<and>
      t_get tr_transaction_id i (ds_transactions ds') = Some (?f r)"
    using r by (simp add: ds' t_get_update)
  show "get_transaction ds' k = get_transaction ds k" if "k \<noteq> i"
    using that by (simp add: ds' get_transaction_def t_get_update)
  have "row_wf (?f q)" if "row_wf q" for q
  proof -
    from that obtain t where t: "tx_wf t" "validate_transaction t = Inr ()" "transaction_from_row q = Inr (tx_norm t)"
      by (auto simp: row_wf_def)
    let ?t = "t\<lparr>tx_state := ''applied'', tx_applied_at := Some now\<rparr>"
    have "transaction_from_row (?f q) = Inr (tx_norm ?t)"
    proof -
      from t(3) obtain p h where ph: "load_canonical_json (tr_payload q) = Inr p"
        "payload_hash_bytes_to_hex (tr_payload_hash q) = Inr h"
        by (auto simp: transaction_from_row_def rbind_Inr_iff)
      have n: "tx_norm ?t = (projr (transaction_from_row q))\<lparr>tx_state := ''applied'', tx_applied_at := Some now\<rparr>"
        by (simp add: t(3) tx_norm_mark)
      show ?thesis unfolding n using ph by (simp add: transaction_from_row_def)
    qed
    moreover have "validate_transaction ?t = Inr ()"
      using t(2) by (auto simp: validate_transaction_def rbind_Inr_iff TRANSACTION_STATES_def)
    moreover have "tx_wf ?t" using t(1) by (simp add: tx_wf_def)
    ultimately show ?thesis unfolding row_wf_def by blast
  qed
  then show "log_wf ds \<Longrightarrow> log_wf ds'"
    by (auto simp: log_wf_def ds') (auto simp: t_update_def)
qed

text \<open>The two statements that write the log, and what each does to the reading of a transaction.\<close>

datatype log_write = Insert Transaction | Mark string string

fun log_write_step :: "log_write \<Rightarrow> datastore \<Rightarrow> datastore res" where
  "log_write_step (Insert t) ds = insert_transaction ds t"
| "log_write_step (Mark now i) ds = mark_transaction_applied now ds i"

fun log_write_reads :: "string \<Rightarrow> log_write \<Rightarrow> Transaction res \<Rightarrow> Transaction res" where
  "log_write_reads i (Insert t) v = (if i = tx_transaction_id t then Inr (t\<lparr>tx_payload := canon_obj (tx_payload t)\<rparr>) else v)"
| "log_write_reads i (Mark now j) v = (if i = j then map_sum id (\<lambda>t. t\<lparr>tx_state := ''applied'', tx_applied_at := Some now\<rparr>) v else v)"

definition inserted_ids :: "log_write list \<Rightarrow> string list" where
  "inserted_ids ws = List.map_filter (\<lambda>w. case w of Insert t \<Rightarrow> Some (tx_transaction_id t) | Mark _ _ \<Rightarrow> None) ws"

definition marked_ids :: "log_write list \<Rightarrow> string list" where
  "marked_ids ws = List.map_filter (\<lambda>w. case w of Insert _ \<Rightarrow> None | Mark _ i \<Rightarrow> Some i) ws"

lemma write_ids_simps [simp]:
  "inserted_ids [] = []" "inserted_ids (Insert t # ws) = tx_transaction_id t # inserted_ids ws" "inserted_ids (Mark n i # ws) = inserted_ids ws"
  "marked_ids [] = []" "marked_ids (Insert t # ws) = marked_ids ws" "marked_ids (Mark n i # ws) = i # marked_ids ws"
  by (simp_all add: inserted_ids_def marked_ids_def map_filter_simps)

lemma mark_applied_reads:
  assumes "mark_transaction_applied now ds i = Inr ds'"
  shows "get_transaction ds' k = log_write_reads k (Mark now i) (get_transaction ds k)"
proof (cases "k = i")
  case True
  from mark_applied_log(3) [OF assms] obtain r where r: "t_get tr_transaction_id i (ds_transactions ds) = Some r"
    "t_get tr_transaction_id i (ds_transactions ds') = Some (r\<lparr>tr_state := ''applied'', tr_applied_at := Some now\<rparr>)" by blast
  have "transaction_from_row (r\<lparr>tr_state := ''applied'', tr_applied_at := Some now\<rparr>) =
      map_sum id (\<lambda>t. t\<lparr>tx_state := ''applied'', tx_applied_at := Some now\<rparr>) (transaction_from_row r)"
    by (cases "load_canonical_json (tr_payload r)"; cases "payload_hash_bytes_to_hex (tr_payload_hash r)") (simp_all add: transaction_from_row_def)
  then show ?thesis using True r by (simp add: get_transaction_def)
qed (use mark_applied_log(4) [OF assms] in simp)

definition applied_in :: "datastore \<Rightarrow> string \<Rightarrow> bool" where
  "applied_in ds i \<longleftrightarrow> (\<exists>r. t_get tr_transaction_id i (ds_transactions ds) = Some r \<and> tr_state r = ''applied'')"

lemma log_write_step_ok:
  assumes "log_write_step w ds = Inr ds'" "\<forall>t. w = Insert t \<longrightarrow> json_wf (JObj (tx_payload t))"
  shows "log_ids ds' = log_ids ds @ inserted_ids [w]" "set (inserted_ids [w]) \<inter> set (log_ids ds) = {}"
    "get_transaction ds' k = log_write_reads k w (get_transaction ds k)" "ds' = ds\<lparr>ds_transactions := ds_transactions ds'\<rparr>"
    "applied_in ds k \<Longrightarrow> applied_in ds' k \<and> k \<notin> set (marked_ids [w])" "\<forall>i \<in> set (marked_ids [w]). applied_in ds' i"
proof -
  have "log_ids ds' = log_ids ds @ inserted_ids [w] \<and> set (inserted_ids [w]) \<inter> set (log_ids ds) = {} \<and>
    get_transaction ds' k = log_write_reads k w (get_transaction ds k) \<and> ds' = ds\<lparr>ds_transactions := ds_transactions ds'\<rparr> \<and>
    (applied_in ds k \<longrightarrow> applied_in ds' k \<and> k \<notin> set (marked_ids [w])) \<and> (\<forall>i \<in> set (marked_ids [w]). applied_in ds' i)"
  proof (cases w)
    case (Insert t)
    with assms(1) have i: "insert_transaction ds t = Inr ds'" by simp
    have wf: "tx_wf t" using assms(2) Insert by (simp add: tx_wf_def)
    from i obtain hash where h: "ds' = ds\<lparr>ds_transactions := ds_transactions ds @ [transaction_to_row t hash]\<rparr>" by (rule insert_transaction_InrD)
    have "applied_in ds k \<longrightarrow> applied_in ds' k" by (auto simp: applied_in_def h t_get_append)
    moreover have "rfold (\<lambda>t ds. insert_transaction ds t) [t] ds = Inr ds'" using i by simp
    note p = txlog.put_all [OF this]
    ultimately show ?thesis using p(1,3) p(4) [of t] wf p(5) h by (auto simp: Insert tx_norm_def)
  next
    case (Mark now i)
    with assms(1) have m: "mark_transaction_applied now ds i = Inr ds'" by simp
    from mark_applied_log(3) [OF m] obtain r where r: "t_get tr_transaction_id i (ds_transactions ds) = Some r" "tr_state r = ''pending''"
      "t_get tr_transaction_id i (ds_transactions ds') = Some (r\<lparr>tr_state := ''applied'', tr_applied_at := Some now\<rparr>)" by blast
    have ds': "ds' = ds\<lparr>ds_transactions := t_update tr_transaction_id i (\<lambda>r. r\<lparr>tr_state := ''applied'', tr_applied_at := Some now\<rparr>) (ds_transactions ds)\<rparr>"
      using m by (auto simp: mark_transaction_applied_def split: option.split_asm if_split_asm)
    have "applied_in ds' i" "\<not> applied_in ds i" using r by (simp_all add: applied_in_def)
    moreover have "k \<noteq> i \<Longrightarrow> applied_in ds' k = applied_in ds k" by (simp add: applied_in_def ds' t_get_update)
    ultimately show ?thesis using mark_applied_log(1) [OF m] mark_applied_reads [OF m, of k] ds' by (auto simp: Mark)
  qed
  then show "log_ids ds' = log_ids ds @ inserted_ids [w]" "set (inserted_ids [w]) \<inter> set (log_ids ds) = {}"
    "get_transaction ds' k = log_write_reads k w (get_transaction ds k)" "ds' = ds\<lparr>ds_transactions := ds_transactions ds'\<rparr>"
    "applied_in ds k \<Longrightarrow> applied_in ds' k \<and> k \<notin> set (marked_ids [w])" "\<forall>i \<in> set (marked_ids [w]). applied_in ds' i" by blast+
qed

subsection \<open>Properties\<close>

text \<open>C31. The log is a keyed, append-only history. Through any sequence of insertions and of marks that is carried out, the log is
  extended by exactly the ids of the inserted transactions, in order, with no id twice; every transaction reads as the sequence
  says: an inserted one as it was inserted, its payload members in canonical order, a marked one with the state \<open>applied\<close> and the time
  of the mark and otherwise as before, and every other one as before; a transaction is marked at most once; no other table
  changes.\<close>

theorem transaction_log_history:
  assumes "rfold log_write_step ws ds = Inr ds'" and "\<forall>t. Insert t \<in> set ws \<longrightarrow> json_wf (JObj (tx_payload t))"
  shows "map tr_transaction_id (ds_transactions ds') = map tr_transaction_id (ds_transactions ds) @ inserted_ids ws \<and>
    distinct (inserted_ids ws) \<and> set (inserted_ids ws) \<inter> tr_transaction_id ` set (ds_transactions ds) = {} \<and>
    (\<forall>i. get_transaction ds' i = fold (log_write_reads i) ws (get_transaction ds i)) \<and>
    distinct (marked_ids ws) \<and> ds' = ds\<lparr>ds_transactions := ds_transactions ds'\<rparr>"
proof -
  have "log_ids ds' = log_ids ds @ inserted_ids ws \<and> distinct (inserted_ids ws) \<and> set (inserted_ids ws) \<inter> set (log_ids ds) = {} \<and>
    (\<forall>i. get_transaction ds' i = fold (log_write_reads i) ws (get_transaction ds i)) \<and> distinct (marked_ids ws) \<and>
    (\<forall>i. applied_in ds i \<longrightarrow> i \<notin> set (marked_ids ws)) \<and> ds' = ds\<lparr>ds_transactions := ds_transactions ds'\<rparr>"
    using assms
  proof (induction ws arbitrary: ds)
    case Nil
    then show ?case by simp
  next
    case (Cons w ws)
    from Cons.prems(1) obtain d where d: "log_write_step w ds = Inr d" "rfold log_write_step ws d = Inr ds'" by (auto elim: rbind_InrE)
    have wf: "\<forall>t. w = Insert t \<longrightarrow> json_wf (JObj (tx_payload t))" "\<forall>t. Insert t \<in> set ws \<longrightarrow> json_wf (JObj (tx_payload t))"
      using Cons.prems(2) by auto
    note IH = Cons.IH [OF d(2) wf(2)] and s = log_write_step_ok [OF d(1) wf(1)]
    have ids: "inserted_ids (w # ws) = inserted_ids [w] @ inserted_ids ws" "marked_ids (w # ws) = marked_ids [w] @ marked_ids ws"
      "distinct (inserted_ids [w])" "distinct (marked_ids [w])" by (cases w; simp)+
    have "\<forall>i. get_transaction ds' i = fold (log_write_reads i) (w # ws) (get_transaction ds i)" using IH s(3) by simp
    moreover have "distinct (marked_ids (w # ws)) \<and> (\<forall>i. applied_in ds i \<longrightarrow> i \<notin> set (marked_ids (w # ws)))"
      using IH s(5,6) unfolding ids(2) using ids(4) by auto
    moreover have "log_ids ds' = log_ids ds @ inserted_ids (w # ws) \<and> distinct (inserted_ids (w # ws)) \<and> set (inserted_ids (w # ws)) \<inter> set (log_ids ds) = {}"
      using IH s(1,2) unfolding ids(1) using ids(3) by auto
    moreover have "ds' = ds\<lparr>ds_transactions := ds_transactions ds'\<rparr>"
    proof -
      have "ds' = d\<lparr>ds_transactions := ds_transactions ds'\<rparr>" using IH by blast
      then show ?thesis by (subst (asm) s(4)) simp
    qed
    ultimately show ?case by blast
  qed
  then show ?thesis by (simp add: log_ids_def)
qed

definition example_node_row :: node_row where
  "example_node_row =
     \<lparr>nd_node_id = format_identifier Node 1, nd_peer_group_id = ''pg'', nd_signing_public_key = None,
      nd_signing_algorithm = None, nd_encryption_public_key = None, nd_encryption_algorithm = None,
      nd_authorization_mode = ''none'', nd_service_address = None, nd_operator_description = None,
      nd_last_seen_at = None, nd_state = Some ''active'', nd_created_at = None, nd_updated_at = None,
      nd_operator_comment = None\<rparr>"

definition example_datastore :: datastore where
  "example_datastore = empty_datastore\<lparr>ds_nodes := [example_node_row], ds_metadata := [(''storage_mode'', ''plaintext'')]\<rparr>"

definition example_transaction :: "string \<Rightarrow> json_obj \<Rightarrow> uuid \<Rightarrow> Transaction" where
  "example_transaction ty payload u =
     \<lparr>tx_transaction_id = format_identifier IdentifierType.Transaction u, tx_transaction_type = ty,
      tx_payload = payload, tx_payload_hash = hash_payload payload, tx_transaction_version = 1,
      tx_payload_version = 1, tx_protocol_version = 1, tx_organization_id = None, tx_client_id = None,
      tx_owner_id = None, tx_origin_node_id = Some (format_identifier Node 1),
      tx_previous_transaction_id = None, tx_signature = None, tx_state = ''pending'',
      tx_created_at = Some ''2026-01-01T00:00:00Z'', tx_received_at = None, tx_applied_at = None,
      tx_acknowledged_at = None, tx_cleared_at = None\<rparr>"

lemma example_transaction_valid:
  "ty \<noteq> [] \<Longrightarrow> validate_transaction (example_transaction ty payload u) = Inr ()"
  using hash_payload_bytes [of payload] is_identifier_not_Nil [OF is_identifier_format]
  by (simp add: validate_transaction_def example_transaction_def truthy_def tx_validate_identifier_def
      optional_scope_def TRANSACTION_STATES_def) (simp add: hash_payload_def)

lemma example_transaction_insert:
  assumes "ty \<noteq> []" and "t_has nd_node_id (format_identifier Node 1) (ds_nodes ds)"
    and "\<not> t_has tr_transaction_id (format_identifier IdentifierType.Transaction u) (ds_transactions ds)"
  shows "insert_transaction ds (example_transaction ty payload u) =
    Inr (ds\<lparr>ds_transactions := ds_transactions ds @
      [transaction_to_row (example_transaction ty payload u) (sha256 (canonical_json_bytes payload))]\<rparr>)"
  unfolding insert_transaction_def example_transaction_valid [OF assms(1)]
  using assms(2,3) hash_payload_bytes [of payload]
  by (simp add: example_transaction_def transaction_fk_ok_def transaction_to_row_def fk_opt_def sqlite_int_def)

theorem transaction_log_history_witness:
  "\<exists>ds'. rfold log_write_step [Insert (example_transaction ''secret.set'' [(''k'', JInt 1)] 7),
      Mark ''2026-01-03T00:00:00Z'' (format_identifier IdentifierType.Transaction 7)] example_datastore = Inr ds' \<and>
    get_transaction ds' (format_identifier IdentifierType.Transaction 7) =
      Inr ((example_transaction ''secret.set'' [(''k'', JInt 1)] 7)\<lparr>tx_state := ''applied'', tx_applied_at := Some ''2026-01-03T00:00:00Z''\<rparr>)"
proof -
  let ?t = "example_transaction ''secret.set'' [(''k'', JInt 1)] 7"
  let ?ws = "[Insert ?t, Mark ''2026-01-03T00:00:00Z'' (format_identifier IdentifierType.Transaction 7)]"
  obtain ds' where ds': "rfold log_write_step ?ws example_datastore = Inr ds'"
    using example_transaction_insert [of "''secret.set''" example_datastore 7 "[(''k'', JInt 1)]"]
    by (simp add: example_datastore_def empty_datastore_def example_node_row_def mark_transaction_applied_def t_get_Cons transaction_to_row_def)
      (simp add: example_transaction_def)
  have "\<forall>t. Insert t \<in> set ?ws \<longrightarrow> json_wf (JObj (tx_payload t))"
    by (simp add: example_transaction_def dict_wf_def utf8_ok_ascii is_ascii_def)
  from transaction_log_history [OF ds' this]
  have "get_transaction ds' (tx_transaction_id ?t) = fold (log_write_reads (tx_transaction_id ?t)) ?ws (get_transaction example_datastore (tx_transaction_id ?t))"
    by blast
  with ds' show ?thesis by (auto simp: example_transaction_def canon_obj_def)
qed

text \<open>The scope that synchronisation is authorised against is determined by the transaction:
  exactly the secret transactions have a service-group scope, and it is the canonical identifier
  in their payload; exactly the nine control types are control, exactly the vocabulary types are
  local, and those may not carry a service group at all; anything else has no scope.\<close>

theorem transaction_scope_classifies:
  "(transaction_scope t = Inr (SERVICE_GROUP sg) \<longleftrightarrow>
      tx_transaction_type t \<in> {''secret.set'', ''secret.delete''} \<and>
      map_of (tx_payload t) ''service_group_id'' = Some (JStr sg) \<and> is_identifier Service_group sg) \<and>
   (transaction_scope t = Inr CONTROL \<longleftrightarrow>
      tx_transaction_type t \<in> set CONTROL_TRANSACTION_TYPES \<and> \<not> dict_has ''service_group_id'' (tx_payload t)) \<and>
   (transaction_scope t = Inr LOCAL_SYSTEM \<longleftrightarrow>
      starts_with ''vocabulary.'' (tx_transaction_type t) \<and> \<not> dict_has ''service_group_id'' (tx_payload t)) \<and>
   (service_group_scope_id t = Inr (Some sg) \<longleftrightarrow> transaction_scope t = Inr (SERVICE_GROUP sg))"
proof -
  have disj: "ty \<in> set SERVICE_GROUP_SCOPED_TRANSACTION_TYPES \<Longrightarrow>
      ty \<notin> set CONTROL_TRANSACTION_TYPES \<and> \<not> starts_with ''vocabulary.'' ty"
    "ty \<in> set CONTROL_TRANSACTION_TYPES \<Longrightarrow> \<not> starts_with ''vocabulary.'' ty" for ty
    by (auto simp: SERVICE_GROUP_SCOPED_TRANSACTION_TYPES_def CONTROL_TRANSACTION_TYPES_def starts_with_def)
  have req: "required_service_group_id t = Inr sg \<longleftrightarrow>
      map_of (tx_payload t) ''service_group_id'' = Some (JStr sg) \<and> is_identifier Service_group sg"
    by (auto simp: required_service_group_id_def rbind_Inr_iff is_identifier_iff validate_identifier_iff
        format_identifier_def split: option.splits json.splits if_splits)
  have ty: "tx_transaction_type t \<in> {''secret.set'', ''secret.delete''} \<longleftrightarrow>
      tx_transaction_type t \<in> set SERVICE_GROUP_SCOPED_TRANSACTION_TYPES"
    by (auto simp: SERVICE_GROUP_SCOPED_TRANSACTION_TYPES_def)
  have "service_group_scope_id t = Inr (Some sg) \<longleftrightarrow> transaction_scope t = Inr (SERVICE_GROUP sg)"
    by (cases "transaction_scope t") (auto simp: service_group_scope_id_def split: TransactionScope.splits)
  then show ?thesis
    unfolding ty transaction_scope_def Let_def
    using req disj [of "tx_transaction_type t"]
    by (auto simp: rbind_Inr_iff reject_unexpected_service_group_id_def)
qed

end
