(* ===== verification/Kit_Projections.thy ===== *)
theory Kit_Projections
  imports Kit_Transactions
begin

section \<open>Projections of vocabulary and secret transactions\<close>

text \<open>
  \<open>projections.py\<close> (\<open>secret.set\<close> and \<open>secret.delete\<close>), \<open>vocabulary_projections.py\<close>
  (\<open>vocabulary.*.upsert\<close>) and \<open>taxonomy.py\<close> of the SQLite backend (the vocabulary rows and tag
  assignments that the secret projections need). Each operation reads the payload in the order of
  the source, so that it fails with the error the source raises first, and returns the new
  datastore. The source reads the clock once for every tag row and assignment it writes; here one
  reading, \<open>h_now\<close>, serves a whole projection. The lemmas give the row each projection leaves behind
  and what it leaves alone.
\<close>

subsection \<open>Payload fields\<close>

definition payload_get :: "json_obj \<Rightarrow> string \<Rightarrow> json option" where
  "payload_get p field = (case map_of p field of None \<Rightarrow> None | Some JNull \<Rightarrow> None | Some v \<Rightarrow> Some v)"

definition pj_required_text :: "json_obj \<Rightarrow> string \<Rightarrow> string res" where
  "pj_required_text p field =
     (case payload_get p field of
        Some (JStr s) \<Rightarrow> if s = [] then Inl (SQLiteValidationError (field @ '' is required'')) else Inr s
      | _ \<Rightarrow> Inl (SQLiteValidationError (field @ '' is required'')))"

definition pj_optional_text :: "json_obj \<Rightarrow> string \<Rightarrow> string option res" where
  "pj_optional_text p field =
     (case payload_get p field of
        None \<Rightarrow> Inr None
      | Some (JStr s) \<Rightarrow> Inr (Some s)
      | Some _ \<Rightarrow> Inl (SQLiteValidationError (field @ '' must be a string'')))"

definition pj_validate_identifier :: "string \<Rightarrow> string \<Rightarrow> IdentifierType \<Rightarrow> string res" where
  "pj_validate_identifier v field t = rmap_error sqlite_validation (validate_identifier v t field)"

definition pj_required_identifier :: "json_obj \<Rightarrow> string \<Rightarrow> IdentifierType \<Rightarrow> string res" where
  "pj_required_identifier p field t =
     rbind (pj_required_text p field) (\<lambda>v. pj_validate_identifier v field t)"

definition pj_optional_identifier :: "json_obj \<Rightarrow> string \<Rightarrow> IdentifierType \<Rightarrow> string option res" where
  "pj_optional_identifier p field t =
     rbind (pj_optional_text p field) (\<lambda>v.
       case v of None \<Rightarrow> Inr None | Some s \<Rightarrow> rbind (pj_validate_identifier s field t) (\<lambda>w. Inr (Some w)))"

definition pj_optional_int :: "json_obj \<Rightarrow> string \<Rightarrow> int option res" where
  "pj_optional_int p field =
     (case payload_get p field of
        None \<Rightarrow> Inr None
      | Some (JInt i) \<Rightarrow> Inr (Some i)
      | Some _ \<Rightarrow> Inl (SQLiteValidationError (field @ '' must be an integer'')))"

definition nonblank_text :: "json \<Rightarrow> string option" where
  "nonblank_text j = (case j of JStr s \<Rightarrow> if strip s = [] then None else Some s | _ \<Rightarrow> None)"

definition pj_text_list :: "json_obj \<Rightarrow> string \<Rightarrow> string list res" where
  "pj_text_list p field =
     (case map_of p field of
        None \<Rightarrow> Inr []
      | Some (JList js) \<Rightarrow>
          rmapM (\<lambda>j. case nonblank_text j of
                   None \<Rightarrow> Inl (SQLiteValidationError (field @ '' must contain non-empty strings''))
                 | Some s \<Rightarrow> Inr s) js
      | Some _ \<Rightarrow> Inl (SQLiteValidationError (field @ '' must be a list'')))"

definition pj_custom_metadata :: "json_obj \<Rightarrow> json_obj res" where
  "pj_custom_metadata p =
     (case map_of p ''custom'' of
        None \<Rightarrow> Inr []
      | Some (JObj kvs) \<Rightarrow>
          if [] \<in> set (map fst kvs) then Inl (SQLiteValidationError ''custom keys must be non-empty strings'')
          else Inr kvs
      | Some _ \<Rightarrow> Inl (SQLiteValidationError ''custom must be an object''))"

definition pj_required_b64 :: "json_obj \<Rightarrow> string \<Rightarrow> bytes res" where
  "pj_required_b64 p field = rbind (pj_required_text p field) (decode_b64 field)"

definition pj_optional_b64 :: "json_obj \<Rightarrow> string \<Rightarrow> bytes option res" where
  "pj_optional_b64 p field =
     rbind (pj_optional_text p field) (\<lambda>v.
       case v of None \<Rightarrow> Inr None | Some s \<Rightarrow> rbind (decode_b64 field s) (\<lambda>b. Inr (Some b)))"

definition pj_validate_required_fields :: "json_obj \<Rightarrow> string list \<Rightarrow> unit res" where
  "pj_validate_required_fields p required =
     (case find (\<lambda>f. \<not> dict_has f p) (sort required) of
        None \<Rightarrow> Inr ()
      | Some f \<Rightarrow> Inl (SQLiteValidationError (f @ '' is required'')))"

text \<open>\<open>value or default\<close>.\<close>

definition or_default :: "string option \<Rightarrow> string \<Rightarrow> string" where
  "or_default v d = (if truthy v then the v else d)"

definition SET_REQUIRED_FIELDS :: "string list" where
  "SET_REQUIRED_FIELDS =
     [''secret_id'', ''owner_id'', ''service_group_id'', ''entry_type'', ''entry_kind'', ''service'', ''account'',
      ''locator_hash_b64'', ''encrypted_name_b64'', ''encrypted_payload_b64'', ''content_hash_b64'']"

definition DELETE_REQUIRED_FIELDS :: "string list" where
  "DELETE_REQUIRED_FIELDS =
     [''secret_id'', ''owner_id'', ''service_group_id'', ''entry_type'', ''entry_kind'', ''service'', ''account'',
      ''locator_hash_b64'', ''encrypted_name_b64'', ''content_hash_b64'']"

subsection \<open>Vocabulary rows (\<open>taxonomy.py\<close>)\<close>

definition ensure_entry_type_id :: "datastore \<Rightarrow> string \<Rightarrow> bool \<Rightarrow> (string \<times> datastore) res" where
  "ensure_entry_type_id ds name force_raw =
     rbind (resolve_stored_taxonomy_name name force_raw) (\<lambda>display.
     rbind (entry_type_id_for_name display force_raw) (\<lambda>row_id.
       Inr (row_id, ds\<lparr>ds_entry_types := t_insert_ignore2 vo_id vo_name
              \<lparr>vo_id = row_id, vo_name = display, vo_operator_comment = []\<rparr> (ds_entry_types ds)\<rparr>)))"

definition ensure_entry_kind_id :: "datastore \<Rightarrow> string \<Rightarrow> bool \<Rightarrow> (string \<times> datastore) res" where
  "ensure_entry_kind_id ds name force_raw =
     rbind (resolve_stored_taxonomy_name name force_raw) (\<lambda>display.
     rbind (entry_kind_id_for_name display force_raw) (\<lambda>row_id.
       Inr (row_id, ds\<lparr>ds_entry_kinds := t_insert_ignore2 vo_id vo_name
              \<lparr>vo_id = row_id, vo_name = display, vo_operator_comment = []\<rparr> (ds_entry_kinds ds)\<rparr>)))"

definition ensure_tag_id :: "string \<Rightarrow> datastore \<Rightarrow> string \<Rightarrow> bool \<Rightarrow> (string \<times> datastore) res" where
  "ensure_tag_id now ds name force_raw =
     rbind (resolve_stored_taxonomy_name name force_raw) (\<lambda>display.
     rbind (tag_id_for_name display force_raw) (\<lambda>tag_id.
       Inr (tag_id, ds\<lparr>ds_tags := t_insert_ignore2 tg_tag_id tg_name
              \<lparr>tg_tag_id = tag_id, tg_name = display, tg_created_at = now\<rparr> (ds_tags ds)\<rparr>)))"

definition resolve_entry_type_and_kind_ids ::
  "datastore \<Rightarrow> string \<Rightarrow> string \<Rightarrow> bool \<Rightarrow> ((string \<times> string) \<times> datastore) res" where
  "resolve_entry_type_and_kind_ids ds entry_type entry_kind force_raw =
     rbind (entry_type_id_for_name entry_type force_raw) (\<lambda>type_id.
     rbind (entry_kind_id_for_name entry_kind force_raw) (\<lambda>kind_id.
     let type_row = t_has vo_id type_id (ds_entry_types ds);
         kind_row = t_has vo_id kind_id (ds_entry_kinds ds) in
     rbind (if type_row then Inr (type_id, ds) else ensure_entry_type_id ds entry_type force_raw) (\<lambda>(type_id', ds1).
     rbind (if kind_row then Inr (kind_id, ds1) else ensure_entry_kind_id ds1 entry_kind force_raw) (\<lambda>(kind_id', ds2).
       Inr ((type_id', kind_id'), ds2)))))"

text \<open>The loop of \<open>sync_secret_tags\<close>; INSERT OR IGNORE does not ignore a missing parent row.\<close>

fun sync_tag_loop :: "string \<Rightarrow> string \<Rightarrow> bool \<Rightarrow> string list \<Rightarrow> string list \<Rightarrow> datastore \<Rightarrow> datastore res" where
  "sync_tag_loop now secret_id force_raw [] seen ds = Inr ds"
| "sync_tag_loop now secret_id force_raw (raw # tags) seen ds =
     rbind (resolve_stored_taxonomy_name raw force_raw) (\<lambda>display.
       if lower display \<in> set seen then sync_tag_loop now secret_id force_raw tags seen ds
       else
         rbind (ensure_tag_id now ds display force_raw) (\<lambda>(tag_id, ds1).
           if \<not> t_has tg_tag_id tag_id (ds_tags ds1) \<or> \<not> t_has sc_secret_id secret_id (ds_secrets ds1)
           then Inl fk_failed
           else sync_tag_loop now secret_id force_raw tags (lower display # seen)
                  (ds1\<lparr>ds_tag_assignments := t_insert_ignore (\<lambda>r. (si_secret_id r, si_key r))
                     \<lparr>si_secret_id = secret_id, si_key = tag_id, si_value = [], si_created_at = now\<rparr>
                     (ds_tag_assignments ds1)\<rparr>)))"

definition sync_secret_tags :: "string \<Rightarrow> datastore \<Rightarrow> string \<Rightarrow> string list \<Rightarrow> bool \<Rightarrow> datastore res" where
  "sync_secret_tags now ds secret_id tags force_raw =
     sync_tag_loop now secret_id force_raw tags []
       (ds\<lparr>ds_tag_assignments := filter (\<lambda>r. si_secret_id r \<noteq> secret_id) (ds_tag_assignments ds)\<rparr>)"

definition tags_from_payload :: "json_obj \<Rightarrow> string list res" where
  "tags_from_payload p =
     (case map_of p ''tags'' of
        None \<Rightarrow> Inr []
      | Some (JList js) \<Rightarrow>
          rmapM (\<lambda>j. case nonblank_text j of
                   None \<Rightarrow> Inl (SQLiteValidationError ''tags must contain non-empty strings'')
                 | Some s \<Rightarrow> Inr s) js
      | Some _ \<Rightarrow> Inl (SQLiteValidationError ''tags must be a list''))"

subsection \<open>Vocabulary transactions (\<open>vocabulary_projections.py\<close>)\<close>

definition vp_required_text :: "json_obj \<Rightarrow> string \<Rightarrow> string res" where
  "vp_required_text p field =
     (case Option.bind (payload_get p field) nonblank_text of
        None \<Rightarrow> Inl (SQLiteValidationError (field @ '' is required''))
      | Some s \<Rightarrow> Inr s)"

definition vp_optional_text :: "json_obj \<Rightarrow> string \<Rightarrow> string res" where
  "vp_optional_text p field = rbind (pj_optional_text p field) (\<lambda>v. Inr (or_empty v))"

definition vp_required_identifier :: "json_obj \<Rightarrow> string \<Rightarrow> IdentifierType \<Rightarrow> string res" where
  "vp_required_identifier p field t =
     rbind (vp_required_text p field) (\<lambda>v. rmap_error sqlite_validation (validate_identifier v t field))"

text \<open>The upsert of both vocabulary tables: an empty comment keeps the stored one.\<close>

definition upsert_vocabulary_row :: "string \<Rightarrow> vocabulary_row \<Rightarrow> vocabulary_row list \<Rightarrow> vocabulary_row list res" where
  "upsert_vocabulary_row column r t =
     (if \<exists>q \<in> set t. vo_name q = vo_name r \<and> vo_id q \<noteq> vo_id r then Inl (unique_failed column)
      else Inr (t_upsert vo_id r
        (\<lambda>q. q\<lparr>vo_name := vo_name r,
               vo_operator_comment := (if vo_operator_comment r \<noteq> [] then vo_operator_comment r
                                       else vo_operator_comment q)\<rparr>) t))"

definition apply_vocabulary_entry_type_upsert :: "datastore \<Rightarrow> Transaction \<Rightarrow> datastore res" where
  "apply_vocabulary_entry_type_upsert ds t =
     rbind (vp_required_identifier (tx_payload t) ''entry_type_id'' Entry_type) (\<lambda>row_id.
     rbind (vp_required_text (tx_payload t) ''name'') (\<lambda>name.
     rbind (vp_optional_text (tx_payload t) ''operator_comment'') (\<lambda>comment.
     rbind (upsert_vocabulary_row ''entry_types.name''
              \<lparr>vo_id = row_id, vo_name = name, vo_operator_comment = comment\<rparr> (ds_entry_types ds)) (\<lambda>rows.
       Inr (ds\<lparr>ds_entry_types := rows\<rparr>)))))"

definition apply_vocabulary_entry_kind_upsert :: "datastore \<Rightarrow> Transaction \<Rightarrow> datastore res" where
  "apply_vocabulary_entry_kind_upsert ds t =
     rbind (vp_required_identifier (tx_payload t) ''entry_kind_id'' Entry_kind) (\<lambda>row_id.
     rbind (vp_required_text (tx_payload t) ''name'') (\<lambda>name.
     rbind (vp_optional_text (tx_payload t) ''operator_comment'') (\<lambda>comment.
     rbind (upsert_vocabulary_row ''entry_kinds.name''
              \<lparr>vo_id = row_id, vo_name = name, vo_operator_comment = comment\<rparr> (ds_entry_kinds ds)) (\<lambda>rows.
       Inr (ds\<lparr>ds_entry_kinds := rows\<rparr>)))))"

definition apply_vocabulary_tag_upsert :: "datastore \<Rightarrow> Transaction \<Rightarrow> datastore res" where
  "apply_vocabulary_tag_upsert ds t =
     rbind (vp_required_text (tx_payload t) ''tag_id'') (\<lambda>tag_id.
     rbind (vp_required_text (tx_payload t) ''name'') (\<lambda>name.
       case tx_created_at t of
         None \<Rightarrow> Inl (IntegrityError ''NOT NULL constraint failed: secret_tags.created_at'')
       | Some created_at \<Rightarrow>
           if \<exists>q \<in> set (ds_tags ds). tg_name q = name \<and> tg_tag_id q \<noteq> tag_id
           then Inl (unique_failed ''secret_tags.name'')
           else Inr (ds\<lparr>ds_tags := t_upsert tg_tag_id
                  \<lparr>tg_tag_id = tag_id, tg_name = name, tg_created_at = created_at\<rparr>
                  (\<lambda>q. q\<lparr>tg_name := name\<rparr>) (ds_tags ds)\<rparr>)))"

definition project_registry_vocabulary :: "string \<Rightarrow> datastore \<Rightarrow> TaxonomyRegistryDocument \<Rightarrow> datastore" where
  "project_registry_vocabulary now ds d =
     ds\<lparr>ds_entry_types := fold (\<lambda>e. t_insert_ignore2 vo_id vo_name
            \<lparr>vo_id = te_id e, vo_name = te_name e, vo_operator_comment = te_operator_comment e\<rparr>)
            (td_entry_types d) (ds_entry_types ds),
        ds_entry_kinds := fold (\<lambda>e. t_insert_ignore2 vo_id vo_name
            \<lparr>vo_id = te_id e, vo_name = te_name e, vo_operator_comment = te_operator_comment e\<rparr>)
            (td_entry_kinds d) (ds_entry_kinds ds),
        ds_tags := fold (\<lambda>e. t_insert_ignore2 tg_tag_id tg_name
            \<lparr>tg_tag_id = te_id e, tg_name = te_name e, tg_created_at = now\<rparr>) (td_tags d) (ds_tags ds)\<rparr>"

definition vocabulary_entry_type_payload :: "string \<Rightarrow> string \<Rightarrow> string \<Rightarrow> json_obj" where
  "vocabulary_entry_type_payload entry_type_id name comment =
     [(''entry_type_id'', JStr entry_type_id), (''name'', JStr name)] @
     (if comment \<noteq> [] then [(''operator_comment'', JStr comment)] else [])"

definition vocabulary_entry_kind_payload :: "string \<Rightarrow> string \<Rightarrow> string \<Rightarrow> json_obj" where
  "vocabulary_entry_kind_payload entry_kind_id name comment =
     [(''entry_kind_id'', JStr entry_kind_id), (''name'', JStr name)] @
     (if comment \<noteq> [] then [(''operator_comment'', JStr comment)] else [])"

subsection \<open>Secret transactions (\<open>projections.py\<close>)\<close>

definition decode_storage_text :: "host \<Rightarrow> bytes \<Rightarrow> string \<Rightarrow> string \<Rightarrow> string res" where
  "decode_storage_text h stored field storage_mode =
     (case decrypt_payload (h_aead h) (h_storage_key h) stored field storage_mode of
        Inl (ValueError _) \<Rightarrow> Inl (SQLiteValidationError (field @ ''_b64 does not match SQLite storage mode''))
      | Inl e \<Rightarrow> Inl e
      | Inr bs \<Rightarrow>
          (case utf8_decode bs of
             None \<Rightarrow> Inl (SQLiteValidationError (field @ ''_b64 does not match SQLite storage mode''))
           | Some s \<Rightarrow> Inr s))"

definition projection_name :: "host \<Rightarrow> json_obj \<Rightarrow> bytes \<Rightarrow> string \<Rightarrow> string res" where
  "projection_name h p encrypted_name storage_mode =
     rbind (pj_optional_text p ''name'') (\<lambda>plaintext_name.
     rbind (decode_storage_text h encrypted_name ''encrypted_name'' storage_mode) (\<lambda>decoded.
       if truthy plaintext_name
       then (if decoded \<noteq> the plaintext_name
             then Inl (SQLiteValidationError ''encrypted_name_b64 does not match payload name'')
             else Inr (the plaintext_name))
       else Inr decoded))"

text \<open>The values bound by both INSERT statements, evaluated from left to right.\<close>

definition secret_values ::
  "host \<Rightarrow> json_obj \<Rightarrow> string \<Rightarrow> string \<times> string \<Rightarrow> string \<Rightarrow> bytes \<Rightarrow> bytes \<Rightarrow> string \<Rightarrow> string \<Rightarrow> string
    \<Rightarrow> secret_row res" where
  "secret_values h p secret_id ids storage_mode encrypted_name encrypted_payload state created_at updated_at =
     rbind (pj_required_identifier p ''owner_id'' Owner) (\<lambda>owner_id.
     rbind (pj_required_identifier p ''service_group_id'' Service_group) (\<lambda>service_group_id.
     rbind (pj_optional_identifier p ''schema_id'' Schema) (\<lambda>schema_id.
     rbind (pj_optional_int p ''schema_version'') (\<lambda>schema_version.
     rbind (projection_name h p encrypted_name storage_mode) (\<lambda>name.
     rbind (pj_required_text p ''service'') (\<lambda>service.
     rbind (pj_required_text p ''account'') (\<lambda>account.
     rbind (pj_optional_text p ''source'') (\<lambda>source.
     rbind (pj_optional_text p ''comment'') (\<lambda>comment.
     rbind (pj_optional_text p ''source_url'') (\<lambda>source_url.
     rbind (pj_optional_text p ''source_label'') (\<lambda>source_label.
     rbind (pj_optional_int p ''rotation_days'') (\<lambda>rotation_days.
     rbind (pj_optional_int p ''rotation_warn_days'') (\<lambda>rotation_warn_days.
     rbind (pj_optional_text p ''last_rotated_at'') (\<lambda>last_rotated_at.
     rbind (pj_optional_text p ''expires_at'') (\<lambda>expires_at.
     rbind (pj_required_b64 p ''locator_hash_b64'') (\<lambda>locator_hash.
     rbind (pj_required_b64 p ''content_hash_b64'') (\<lambda>content_hash.
     rbind (sqlite_int_opt schema_version) (\<lambda>schema_version.
     rbind (sqlite_int_opt rotation_days) (\<lambda>rotation_days.
     rbind (sqlite_int_opt rotation_warn_days) (\<lambda>rotation_warn_days.
       Inr \<lparr>sc_secret_id = secret_id, sc_owner_id = owner_id, sc_service_group_id = service_group_id,
            sc_entry_type_id = fst ids, sc_entry_kind_id = snd ids, sc_schema_id = schema_id,
            sc_schema_version = schema_version, sc_name = name, sc_service = service, sc_account = account,
            sc_source = or_default source ''manual'', sc_comment = or_default comment [],
            sc_source_url = or_default source_url [], sc_source_label = or_default source_label [],
            sc_rotation_days = rotation_days, sc_rotation_warn_days = rotation_warn_days,
            sc_last_rotated_at = or_default last_rotated_at [], sc_expires_at = or_default expires_at [],
            sc_locator_hash = locator_hash, sc_encrypted_name = encrypted_name,
            sc_encrypted_payload = encrypted_payload, sc_content_hash = content_hash, sc_state = state,
            sc_created_at = created_at, sc_updated_at = updated_at\<rparr>))))))))))))))))))))"

text \<open>
  \<open>INSERT INTO secrets ... ON CONFLICT(secret_id) DO UPDATE\<close>: every column but \<open>created_at\<close> is
  replaced; \<open>locator_hash\<close> is unique and four columns are references.
\<close>

definition upsert_secret :: "datastore \<Rightarrow> secret_row \<Rightarrow> datastore res" where
  "upsert_secret ds r =
     (if \<exists>q \<in> set (ds_secrets ds). sc_locator_hash q = sc_locator_hash r \<and> sc_secret_id q \<noteq> sc_secret_id r
      then Inl (unique_failed ''secrets.locator_hash'')
      else if \<not> (t_has ow_owner_id (sc_owner_id r) (ds_owners ds)
                 \<and> t_has sg_service_group_id (sc_service_group_id r) (ds_service_groups ds)
                 \<and> t_has vo_id (sc_entry_type_id r) (ds_entry_types ds)
                 \<and> t_has vo_id (sc_entry_kind_id r) (ds_entry_kinds ds))
      then Inl fk_failed
      else Inr (ds\<lparr>ds_secrets := t_upsert sc_secret_id r
             (\<lambda>q. if sc_secret_id q = sc_secret_id r then r\<lparr>sc_created_at := sc_created_at q\<rparr> else q)
             (ds_secrets ds)\<rparr>))"

definition write_domains :: "datastore \<Rightarrow> string \<Rightarrow> string list \<Rightarrow> string \<Rightarrow> datastore" where
  "write_domains ds secret_id domains created_at =
     ds\<lparr>ds_domains := filter (\<lambda>r. si_secret_id r \<noteq> secret_id) (ds_domains ds) @
         map (\<lambda>d. \<lparr>si_secret_id = secret_id, si_key = d, si_value = [], si_created_at = created_at\<rparr>)
           (sorted_list_of_set (set domains))\<rparr>"

definition write_custom_metadata :: "datastore \<Rightarrow> string \<Rightarrow> json_obj \<Rightarrow> string \<Rightarrow> datastore" where
  "write_custom_metadata ds secret_id custom created_at =
     ds\<lparr>ds_custom := filter (\<lambda>r. si_secret_id r \<noteq> secret_id) (ds_custom ds) @
         map (\<lambda>(k, v). \<lparr>si_secret_id = secret_id, si_key = k, si_value = canonical_json_text v,
                        si_created_at = created_at\<rparr>)
           (sort_key fst custom)\<rparr>"

definition created_at_or_fail :: "Transaction \<Rightarrow> string res" where
  "created_at_or_fail t =
     (case tx_created_at t of
        None \<Rightarrow> Inl (IntegrityError ''NOT NULL constraint failed: secrets.created_at'')
      | Some v \<Rightarrow> Inr v)"

text \<open>
  The common tail of both projections: the lists, the vocabulary identifiers, the row, then the tags,
  domains and custom metadata. \<open>created\<close> and \<open>updated\<close> are the optional timestamps of the payload.
\<close>

definition materialize_secret ::
  "host \<Rightarrow> datastore \<Rightarrow> Transaction \<Rightarrow> string \<Rightarrow> string \<Rightarrow> string \<Rightarrow> bytes \<Rightarrow> bytes \<Rightarrow> string \<Rightarrow> string
    \<Rightarrow> string option \<Rightarrow> string option \<Rightarrow> datastore res" where
  "materialize_secret h ds t secret_id entry_type entry_kind encrypted_name encrypted_payload storage_mode state
     created updated =
     (let p = tx_payload t in
     rbind (pj_text_list p ''domains'') (\<lambda>domains.
     rbind (pj_custom_metadata p) (\<lambda>custom.
     rbind (resolve_entry_type_and_kind_ids ds entry_type entry_kind False) (\<lambda>(ids, ds1).
     rbind (if truthy created then Inr (the created) else created_at_or_fail t) (\<lambda>created_at.
     rbind (if truthy updated then Inr (the updated) else created_at_or_fail t) (\<lambda>updated_at.
     rbind (secret_values h p secret_id ids storage_mode encrypted_name encrypted_payload state
              created_at updated_at) (\<lambda>row.
     rbind (upsert_secret ds1 row) (\<lambda>ds2.
     rbind (tags_from_payload p) (\<lambda>tags.
     rbind (sync_secret_tags (h_now h) ds2 secret_id tags False) (\<lambda>ds3.
       Inr (write_custom_metadata (write_domains ds3 secret_id domains updated_at)
              secret_id custom updated_at)))))))))))"

definition apply_secret_set_projection :: "host \<Rightarrow> datastore \<Rightarrow> Transaction \<Rightarrow> datastore res" where
  "apply_secret_set_projection h ds t =
     (let p = tx_payload t in
     rbind (pj_validate_required_fields p SET_REQUIRED_FIELDS) (\<lambda>_.
     rbind (pj_optional_text p ''projection_created_at'') (\<lambda>created.
     rbind (pj_optional_text p ''projection_updated_at'') (\<lambda>updated.
     rbind (pj_required_text p ''entry_type'') (\<lambda>entry_type.
     rbind (pj_required_text p ''entry_kind'') (\<lambda>entry_kind.
     rbind (pj_required_identifier p ''secret_id'' Secret) (\<lambda>secret_id.
     rbind (pj_required_b64 p ''encrypted_name_b64'') (\<lambda>encrypted_name.
     rbind (pj_required_b64 p ''encrypted_payload_b64'') (\<lambda>encrypted_payload.
     rbind (read_sqlite_storage_mode ds) (\<lambda>storage_mode.
     rbind (decode_storage_text h encrypted_payload ''encrypted_payload'' storage_mode) (\<lambda>_.
       materialize_secret h ds t secret_id entry_type entry_kind encrypted_name encrypted_payload storage_mode
         ''active'' created updated)))))))))))"

definition apply_secret_delete_projection :: "host \<Rightarrow> datastore \<Rightarrow> Transaction \<Rightarrow> datastore res" where
  "apply_secret_delete_projection h ds t =
     (let p = tx_payload t in
     rbind (pj_validate_required_fields p DELETE_REQUIRED_FIELDS) (\<lambda>_.
     rbind (pj_optional_text p ''projection_updated_at'') (\<lambda>updated.
     rbind (pj_optional_b64 p ''encrypted_payload_b64'') (\<lambda>ep.
     rbind (pj_required_b64 p ''encrypted_name_b64'') (\<lambda>encrypted_name.
     rbind (read_sqlite_storage_mode ds) (\<lambda>storage_mode.
     let encrypted_payload = (case ep of None \<Rightarrow> [] | Some b \<Rightarrow> b) in
     rbind (if encrypted_payload = [] then Inr []
            else decode_storage_text h encrypted_payload ''encrypted_payload'' storage_mode) (\<lambda>_.
     rbind (pj_required_text p ''entry_type'') (\<lambda>entry_type.
     rbind (pj_required_text p ''entry_kind'') (\<lambda>entry_kind.
     rbind (pj_required_identifier p ''secret_id'' Secret) (\<lambda>secret_id.
       materialize_secret h ds t secret_id entry_type entry_kind encrypted_name encrypted_payload storage_mode
         ''deleted'' None updated))))))))))"

subsection \<open>A projection is a plan from the payload and a commit to the tables\<close>

text \<open>
  Everything a secret transaction writes is determined by its payload, the storage mode and the key:
  the row with its vocabulary identifiers, the vocabulary names, the domains, the custom metadata
  and the tags. Only the commit looks at the tables.
\<close>

record secret_plan =
  sp_row :: secret_row
  sp_entry_type :: string
  sp_entry_kind :: string
  sp_domains :: "string list"
  sp_custom :: json_obj
  sp_tags :: "string list"

definition plan_secret ::
  "host \<Rightarrow> Transaction \<Rightarrow> string \<Rightarrow> string \<Rightarrow> string \<Rightarrow> bytes \<Rightarrow> bytes \<Rightarrow> string \<Rightarrow> string
    \<Rightarrow> string option \<Rightarrow> string option \<Rightarrow> secret_plan res" where
  "plan_secret h t secret_id entry_type entry_kind encrypted_name encrypted_payload mode state created updated =
     (let p = tx_payload t in
     rbind (pj_text_list p ''domains'') (\<lambda>domains.
     rbind (pj_custom_metadata p) (\<lambda>custom.
     rbind (entry_type_id_for_name entry_type False) (\<lambda>type_id.
     rbind (entry_kind_id_for_name entry_kind False) (\<lambda>kind_id.
     rbind (if truthy created then Inr (the created) else created_at_or_fail t) (\<lambda>created_at.
     rbind (if truthy updated then Inr (the updated) else created_at_or_fail t) (\<lambda>updated_at.
     rbind (secret_values h p secret_id (type_id, kind_id) mode encrypted_name encrypted_payload state
              created_at updated_at) (\<lambda>row.
     rbind (tags_from_payload p) (\<lambda>tags.
       Inr \<lparr>sp_row = row, sp_entry_type = entry_type, sp_entry_kind = entry_kind, sp_domains = domains,
            sp_custom = custom, sp_tags = tags\<rparr>)))))))))"

definition set_plan :: "host \<Rightarrow> string \<Rightarrow> Transaction \<Rightarrow> secret_plan res" where
  "set_plan h mode t =
     (let p = tx_payload t in
     rbind (pj_validate_required_fields p SET_REQUIRED_FIELDS) (\<lambda>_.
     rbind (pj_optional_text p ''projection_created_at'') (\<lambda>created.
     rbind (pj_optional_text p ''projection_updated_at'') (\<lambda>updated.
     rbind (pj_required_text p ''entry_type'') (\<lambda>entry_type.
     rbind (pj_required_text p ''entry_kind'') (\<lambda>entry_kind.
     rbind (pj_required_identifier p ''secret_id'' Secret) (\<lambda>secret_id.
     rbind (pj_required_b64 p ''encrypted_name_b64'') (\<lambda>encrypted_name.
     rbind (pj_required_b64 p ''encrypted_payload_b64'') (\<lambda>encrypted_payload.
     rbind (decode_storage_text h encrypted_payload ''encrypted_payload'' mode) (\<lambda>_.
       plan_secret h t secret_id entry_type entry_kind encrypted_name encrypted_payload mode
         ''active'' created updated))))))))))"

definition delete_plan :: "host \<Rightarrow> string \<Rightarrow> Transaction \<Rightarrow> secret_plan res" where
  "delete_plan h mode t =
     (let p = tx_payload t in
     rbind (pj_validate_required_fields p DELETE_REQUIRED_FIELDS) (\<lambda>_.
     rbind (pj_optional_text p ''projection_updated_at'') (\<lambda>updated.
     rbind (pj_optional_b64 p ''encrypted_payload_b64'') (\<lambda>ep.
     rbind (pj_required_b64 p ''encrypted_name_b64'') (\<lambda>encrypted_name.
     let encrypted_payload = (case ep of None \<Rightarrow> [] | Some b \<Rightarrow> b) in
     rbind (if encrypted_payload = [] then Inr []
            else decode_storage_text h encrypted_payload ''encrypted_payload'' mode) (\<lambda>_.
     rbind (pj_required_text p ''entry_type'') (\<lambda>entry_type.
     rbind (pj_required_text p ''entry_kind'') (\<lambda>entry_kind.
     rbind (pj_required_identifier p ''secret_id'' Secret) (\<lambda>secret_id.
       plan_secret h t secret_id entry_type entry_kind encrypted_name encrypted_payload mode
         ''deleted'' None updated)))))))))"

definition canonical_or_empty :: "string \<Rightarrow> string" where
  "canonical_or_empty name = (case canonical_taxonomy_name name of Inr c \<Rightarrow> c | Inl _ \<Rightarrow> [])"

definition ensure_vocabulary :: "string \<Rightarrow> string \<Rightarrow> vocabulary_row list \<Rightarrow> vocabulary_row list" where
  "ensure_vocabulary i name t =
     (if t_has vo_id i t then t
      else t_insert_ignore2 vo_id vo_name
        \<lparr>vo_id = i, vo_name = canonical_or_empty name, vo_operator_comment = []\<rparr> t)"

definition commit_plan :: "string \<Rightarrow> datastore \<Rightarrow> secret_plan \<Rightarrow> datastore res" where
  "commit_plan now ds pl =
     (let row = sp_row pl; i = sc_secret_id row; at = sc_updated_at row in
     rbind (upsert_secret
         (ds\<lparr>ds_entry_types := ensure_vocabulary (sc_entry_type_id row) (sp_entry_type pl) (ds_entry_types ds),
             ds_entry_kinds := ensure_vocabulary (sc_entry_kind_id row) (sp_entry_kind pl) (ds_entry_kinds ds)\<rparr>)
         row) (\<lambda>ds2.
     rbind (sync_secret_tags now ds2 i (sp_tags pl) False) (\<lambda>ds3.
       Inr (write_custom_metadata (write_domains ds3 i (sp_domains pl) at) i (sp_custom pl) at))))"

lemma type_id_stored:
  "entry_type_id_for_name name False = Inr i \<longleftrightarrow>
    (\<exists>c. canonical_taxonomy_name name = Inr c \<and>
      deterministic_identifier Entry_type ''taxonomy'' (''entry_type:'' @ c) = Inr i)"
  "entry_kind_id_for_name name False = Inr i \<longleftrightarrow>
    (\<exists>c. canonical_taxonomy_name name = Inr c \<and>
      deterministic_identifier Entry_kind ''taxonomy'' (''entry_kind:'' @ c) = Inr i)"
  unfolding entry_type_id_for_name_def entry_kind_id_for_name_def rbind_Inr_iff
  by (auto simp: resolve_stored_taxonomy_name_def canonical_taxonomy_name_def Let_def)

lemma resolve_stored_canonical: "resolve_stored_taxonomy_name name False = canonical_taxonomy_name name"
  by (simp add: resolve_stored_taxonomy_name_def canonical_taxonomy_name_def Let_def)

lemma resolve_ids_iff:
  "resolve_entry_type_and_kind_ids ds et ek False = Inr (ids, ds1) \<longleftrightarrow>
    entry_type_id_for_name et False = Inr (fst ids) \<and> entry_kind_id_for_name ek False = Inr (snd ids) \<and>
    ds1 = ds\<lparr>ds_entry_types := ensure_vocabulary (fst ids) et (ds_entry_types ds),
            ds_entry_kinds := ensure_vocabulary (snd ids) ek (ds_entry_kinds ds)\<rparr>"
  (is "?l = ?r")
proof (cases "entry_type_id_for_name et False"; cases "entry_kind_id_for_name ek False")
  fix ti ki
  assume ti: "entry_type_id_for_name et False = Inr ti" and ki: "entry_kind_id_for_name ek False = Inr ki"
  then obtain ct ck where c: "canonical_taxonomy_name et = Inr ct" "canonical_taxonomy_name ek = Inr ck"
    by (auto simp: type_id_stored)
  have cc: "canonical_taxonomy_name ct = Inr ct" "canonical_taxonomy_name ck = Inr ck"
    using canonical_taxonomy_name_idem c by blast+
  have "entry_type_id_for_name ct False = Inr ti" "entry_kind_id_for_name ck False = Inr ki"
    using ti ki c cc by (auto simp: type_id_stored)
  then have "ensure_entry_type_id d et False = Inr (ti, d\<lparr>ds_entry_types := t_insert_ignore2 vo_id vo_name
        \<lparr>vo_id = ti, vo_name = ct, vo_operator_comment = []\<rparr> (ds_entry_types d)\<rparr>)"
    "ensure_entry_kind_id d ek False = Inr (ki, d\<lparr>ds_entry_kinds := t_insert_ignore2 vo_id vo_name
        \<lparr>vo_id = ki, vo_name = ck, vo_operator_comment = []\<rparr> (ds_entry_kinds d)\<rparr>)" for d
    using c by (simp_all add: ensure_entry_type_id_def ensure_entry_kind_id_def resolve_stored_canonical)
  then show ?thesis
    using ti ki c
    by (cases ids) (auto simp: resolve_entry_type_and_kind_ids_def Let_def ensure_vocabulary_def canonical_or_empty_def)
qed (auto simp: resolve_entry_type_and_kind_ids_def)

lemma secret_values_row:
  assumes "secret_values h p i ids mode en ep st ca ua = Inr row"
  shows "sc_secret_id row = i" "sc_entry_type_id row = fst ids" "sc_entry_kind_id row = snd ids"
    "sc_encrypted_payload row = ep" "sc_encrypted_name row = en" "sc_state row = st" "sc_created_at row = ca"
    "sc_updated_at row = ua"
  using assms by (simp_all add: secret_values_def rbind_Inr_iff) auto


lemma materialize_iff:
  "materialize_secret h ds t i et ek en ep mode st c u = Inr ds' \<longleftrightarrow>
    (\<exists>pl. plan_secret h t i et ek en ep mode st c u = Inr pl \<and> commit_plan (h_now h) ds pl = Inr ds')"
proof
  assume "materialize_secret h ds t i et ek en ep mode st c u = Inr ds'"
  then obtain domains custom ids ds1 ca ua row ds2 tags ds3 where s:
    "pj_text_list (tx_payload t) ''domains'' = Inr domains" "pj_custom_metadata (tx_payload t) = Inr custom"
    "resolve_entry_type_and_kind_ids ds et ek False = Inr (ids, ds1)"
    "(if truthy c then Inr (the c) else created_at_or_fail t) = Inr ca"
    "(if truthy u then Inr (the u) else created_at_or_fail t) = Inr ua"
    "secret_values h (tx_payload t) i ids mode en ep st ca ua = Inr row"
    "upsert_secret ds1 row = Inr ds2" "tags_from_payload (tx_payload t) = Inr tags"
    "sync_secret_tags (h_now h) ds2 i tags False = Inr ds3"
    "ds' = write_custom_metadata (write_domains ds3 i domains ua) i custom ua"
    unfolding materialize_secret_def Let_def by (elim rbind_InrE) (clarsimp, elim rbind_InrE, blast)
  note ids = s(3) [unfolded resolve_ids_iff]
  let ?pl = "\<lparr>sp_row = row, sp_entry_type = et, sp_entry_kind = ek, sp_domains = domains, sp_custom = custom,
      sp_tags = tags\<rparr>"
  have "plan_secret h t i et ek en ep mode st c u = Inr ?pl"
    unfolding plan_secret_def Let_def s(1,2,4,5,8) rbind_simps using ids s(6) by simp
  moreover have "commit_plan (h_now h) ds ?pl = Inr ds'"
    using s(7,9,10) ids secret_values_row [OF s(6)] by (simp add: commit_plan_def)
  ultimately show "\<exists>pl. plan_secret h t i et ek en ep mode st c u = Inr pl \<and>
    commit_plan (h_now h) ds pl = Inr ds'" by blast
next
  assume "\<exists>pl. plan_secret h t i et ek en ep mode st c u = Inr pl \<and> commit_plan (h_now h) ds pl = Inr ds'"
  then obtain pl where pl: "plan_secret h t i et ek en ep mode st c u = Inr pl"
    and c: "commit_plan (h_now h) ds pl = Inr ds'" by blast
  from pl obtain domains custom ti ki ca ua row tags where s:
    "pj_text_list (tx_payload t) ''domains'' = Inr domains" "pj_custom_metadata (tx_payload t) = Inr custom"
    "entry_type_id_for_name et False = Inr ti" "entry_kind_id_for_name ek False = Inr ki"
    "(if truthy c then Inr (the c) else created_at_or_fail t) = Inr ca"
    "(if truthy u then Inr (the u) else created_at_or_fail t) = Inr ua"
    "secret_values h (tx_payload t) i (ti, ki) mode en ep st ca ua = Inr row"
    "tags_from_payload (tx_payload t) = Inr tags"
    "pl = \<lparr>sp_row = row, sp_entry_type = et, sp_entry_kind = ek, sp_domains = domains, sp_custom = custom,
      sp_tags = tags\<rparr>"
    unfolding plan_secret_def Let_def by (elim rbind_InrE) auto
  have r: "resolve_entry_type_and_kind_ids ds et ek False = Inr ((ti, ki),
      ds\<lparr>ds_entry_types := ensure_vocabulary ti et (ds_entry_types ds),
         ds_entry_kinds := ensure_vocabulary ki ek (ds_entry_kinds ds)\<rparr>)"
    using s by (simp add: resolve_ids_iff)
  show "materialize_secret h ds t i et ek en ep mode st c u = Inr ds'"
    unfolding materialize_secret_def Let_def s(1,2,5,6,8) r rbind_simps
    using c secret_values_row [OF s(7)] by (simp add: s(7,9) commit_plan_def)
qed

lemma apply_secret_set_iff:
  "apply_secret_set_projection h ds t = Inr ds' \<longleftrightarrow>
    (\<exists>mode pl. read_sqlite_storage_mode ds = Inr mode \<and> set_plan h mode t = Inr pl \<and>
      commit_plan (h_now h) ds pl = Inr ds')"
  by (cases "read_sqlite_storage_mode ds")
    (auto simp: apply_secret_set_projection_def set_plan_def Let_def rbind_Inr_iff materialize_iff)

lemma apply_secret_delete_iff:
  "apply_secret_delete_projection h ds t = Inr ds' \<longleftrightarrow>
    (\<exists>mode pl. read_sqlite_storage_mode ds = Inr mode \<and> delete_plan h mode t = Inr pl \<and>
      commit_plan (h_now h) ds pl = Inr ds')"
  unfolding apply_secret_delete_projection_def delete_plan_def Let_def rbind_Inr_iff materialize_iff by blast


subsection \<open>What a projection leaves behind\<close>

text \<open>
  \<open>tag_frame\<close>: the tag synchronisation of one secret appends tag rows, rewrites the assignments of
  that secret and touches nothing else.
\<close>

definition tag_frame :: "string \<Rightarrow> datastore \<Rightarrow> datastore \<Rightarrow> bool" where
  "tag_frame i ds ds' \<longleftrightarrow>
     ds' = ds\<lparr>ds_tags := ds_tags ds', ds_tag_assignments := ds_tag_assignments ds'\<rparr> \<and>
     prefix (ds_tags ds) (ds_tags ds') \<and>
     filter (\<lambda>r. si_secret_id r \<noteq> i) (ds_tag_assignments ds') =
       filter (\<lambda>r. si_secret_id r \<noteq> i) (ds_tag_assignments ds)"

lemma tag_frame_refl: "tag_frame i ds ds"
  by (simp add: tag_frame_def)

lemma tag_frame_trans: "tag_frame i a b \<Longrightarrow> tag_frame i b c \<Longrightarrow> tag_frame i a c"
  unfolding tag_frame_def by (cases a; cases b; cases c) auto

lemma prefix_insert_ignore2: "prefix t (t_insert_ignore2 key uniq r t)"
  by (simp add: t_insert_ignore2_def)

lemma sync_tag_loop_frame:
  "sync_tag_loop now i fr tags seen ds = Inr ds' \<Longrightarrow> tag_frame i ds ds'"
proof (induction now i fr tags seen ds arbitrary: ds' rule: sync_tag_loop.induct)
  case (1 now i fr seen ds)
  then show ?case by (simp add: tag_frame_refl)
next
  case (2 now i fr raw tags seen ds)
  from "2.prems" obtain display where d: "resolve_stored_taxonomy_name raw fr = Inr display"
    by (auto elim: rbind_InrE)
  show ?case
  proof (cases "lower display \<in> set seen")
    case True
    with 2 d show ?thesis by simp
  next
    case False
    with "2.prems" d obtain tid ds1 where e: "ensure_tag_id now ds display fr = Inr (tid, ds1)"
      and loop: "t_has tg_tag_id tid (ds_tags ds1)" "t_has sc_secret_id i (ds_secrets ds1)"
      by (auto elim!: rbind_InrE split: if_splits)
    let ?ds2 = "ds1\<lparr>ds_tag_assignments := t_insert_ignore (\<lambda>r. (si_secret_id r, si_key r))
        \<lparr>si_secret_id = i, si_key = tid, si_value = [], si_created_at = now\<rparr> (ds_tag_assignments ds1)\<rparr>"
    from False "2.prems" d e loop have "sync_tag_loop now i fr tags (lower display # seen) ?ds2 = Inr ds'"
      by simp
    then have "tag_frame i ?ds2 ds'" using "2.IH"(2) [OF d False e] loop by simp
    moreover from e have "tag_frame i ds ?ds2"
      by (auto simp: ensure_tag_id_def rbind_Inr_iff tag_frame_def prefix_insert_ignore2 t_insert_ignore_def)
    ultimately show ?thesis by (rule tag_frame_trans [rotated])
  qed
qed

lemma sync_secret_tags_frame:
  assumes "sync_secret_tags now ds i tags fr = Inr ds'"
  shows "tag_frame i ds ds'"
proof -
  let ?ds1 = "ds\<lparr>ds_tag_assignments := filter (\<lambda>r. si_secret_id r \<noteq> i) (ds_tag_assignments ds)\<rparr>"
  have "tag_frame i ds ?ds1" by (simp add: tag_frame_def)
  then show ?thesis
    using assms sync_tag_loop_frame [of now i fr tags "[]" ?ds1 ds'] unfolding sync_secret_tags_def
    by (blast intro: tag_frame_trans)
qed

text \<open>
  The synchronisation run again over tables that already hold the tag rows: it succeeds, adds no tag,
  and its assignments are those of the first run up to their time stamp.
\<close>

definition restamp :: "(secret_item_row \<Rightarrow> string) \<Rightarrow> secret_item_row \<Rightarrow> secret_item_row" where
  "restamp g r = r\<lparr>si_created_at := g r\<rparr>"

lemma restamp_same [simp]: "restamp si_created_at = id"
  by (rule ext) (simp add: restamp_def)

lemma t_insert_ignore_map:
  assumes "\<And>r. key (f r) = key r"
  shows "t_insert_ignore key (f r) (map f t) = map f (t_insert_ignore key r t)"
  using assms by (auto simp: t_insert_ignore_def t_has_def image_image)

lemma sync_tag_loop_rerun:
  assumes "sync_tag_loop now i fr tags seen A = Inr A'"
    and "\<And>k. t_has tg_tag_id k (ds_tags A') \<Longrightarrow> t_has tg_tag_id k (ds_tags B)"
    and "t_has sc_secret_id i (ds_secrets B)"
    and "\<And>k. g \<lparr>si_secret_id = i, si_key = k, si_value = [], si_created_at = now\<rparr> = now'"
  shows "sync_tag_loop now' i fr tags seen
      (B\<lparr>ds_tag_assignments := map (restamp g) (ds_tag_assignments A)\<rparr>) =
    Inr (B\<lparr>ds_tag_assignments := map (restamp g) (ds_tag_assignments A')\<rparr>)"
  using assms(1,2)
proof (induction tags arbitrary: seen A)
  case Nil
  then show ?case by simp
next
  case (Cons raw tags)
  from Cons.prems(1) obtain display where d: "resolve_stored_taxonomy_name raw fr = Inr display"
    by (auto elim: rbind_InrE)
  show ?case
  proof (cases "lower display \<in> set seen")
    case True
    with Cons d show ?thesis by simp
  next
    case False
    with Cons.prems(1) d obtain tid A1 where e: "ensure_tag_id now A display fr = Inr (tid, A1)"
      and has: "t_has tg_tag_id tid (ds_tags A1)" "t_has sc_secret_id i (ds_secrets A1)"
      by (auto elim!: rbind_InrE split: if_splits)
    let ?row = "\<lambda>n. \<lparr>si_secret_id = i, si_key = tid, si_value = [], si_created_at = n\<rparr>"
    let ?A2 = "A1\<lparr>ds_tag_assignments := t_insert_ignore (\<lambda>r. (si_secret_id r, si_key r)) (?row now)
        (ds_tag_assignments A1)\<rparr>"
    from False Cons.prems(1) d e has
    have loop: "sync_tag_loop now i fr tags (lower display # seen) ?A2 = Inr A'" by simp
    then have "prefix (ds_tags A1) (ds_tags A')"
      using sync_tag_loop_frame [OF loop] by (simp add: tag_frame_def)
    with has(1) Cons.prems(2) have tb: "t_has tg_tag_id tid (ds_tags B)" by (auto simp: prefix_def)
    with e have eB: "ensure_tag_id now' (B\<lparr>ds_tag_assignments := as\<rparr>) display fr =
        Inr (tid, B\<lparr>ds_tag_assignments := as\<rparr>)" for as
      by (auto simp: ensure_tag_id_def rbind_Inr_iff t_insert_ignore2_def)
    have as1: "ds_tag_assignments A1 = ds_tag_assignments A"
      using e by (auto simp: ensure_tag_id_def rbind_Inr_iff)
    have rr: "?row now' = restamp g (?row now)" using assms(4) by (simp add: restamp_def)
    have step: "t_insert_ignore (\<lambda>r. (si_secret_id r, si_key r)) (?row now')
        (map (restamp g) (ds_tag_assignments A)) = map (restamp g) (ds_tag_assignments ?A2)"
      unfolding rr by (subst t_insert_ignore_map) (simp_all add: as1 restamp_def)
    show ?thesis
      using Cons.IH [OF loop Cons.prems(2)] False d eB tb assms(3) step by simp
  qed
qed

text \<open>The row a secret transaction stores: the planned one, with the creation time of an existing row.\<close>

definition kept_row :: "datastore \<Rightarrow> secret_row \<Rightarrow> secret_row" where
  "kept_row ds r =
     (case t_get sc_secret_id (sc_secret_id r) (ds_secrets ds) of
        None \<Rightarrow> r
      | Some q \<Rightarrow> r\<lparr>sc_created_at := sc_created_at q\<rparr>)"

definition secret_upsert :: "secret_row \<Rightarrow> secret_row list \<Rightarrow> secret_row list" where
  "secret_upsert r t = t_upsert sc_secret_id r
     (\<lambda>q. if sc_secret_id q = sc_secret_id r then r\<lparr>sc_created_at := sc_created_at q\<rparr> else q) t"

definition secret_fk_ok :: "datastore \<Rightarrow> secret_row \<Rightarrow> bool" where
  "secret_fk_ok ds r \<longleftrightarrow>
     t_has ow_owner_id (sc_owner_id r) (ds_owners ds) \<and>
     t_has sg_service_group_id (sc_service_group_id r) (ds_service_groups ds) \<and>
     t_has vo_id (sc_entry_type_id r) (ds_entry_types ds) \<and>
     t_has vo_id (sc_entry_kind_id r) (ds_entry_kinds ds)"

lemma upsert_secret_iff:
  "upsert_secret ds r = Inr ds' \<longleftrightarrow>
    (\<forall>q \<in> set (ds_secrets ds). sc_locator_hash q = sc_locator_hash r \<longrightarrow> sc_secret_id q = sc_secret_id r) \<and>
    secret_fk_ok ds r \<and> ds' = ds\<lparr>ds_secrets := secret_upsert r (ds_secrets ds)\<rparr>"
  by (auto simp: upsert_secret_def secret_fk_ok_def secret_upsert_def)

lemma secret_upsert_get:
  "t_get sc_secret_id j (secret_upsert r t) =
    (if j = sc_secret_id r
     then Some (case t_get sc_secret_id j t of None \<Rightarrow> r | Some q \<Rightarrow> r\<lparr>sc_created_at := sc_created_at q\<rparr>)
     else t_get sc_secret_id j t)"
  unfolding secret_upsert_def by (subst t_get_upsert) (auto split: option.splits dest: t_get_SomeD)

lemma secret_upsert_has [simp]:
  "t_has sc_secret_id j (secret_upsert r t) \<longleftrightarrow> j = sc_secret_id r \<or> t_has sc_secret_id j t"
  unfolding secret_upsert_def by (rule t_has_upsert) simp

lemma secret_upsert_rows:
  "q \<in> set (secret_upsert r t) \<Longrightarrow> q \<in> set t \<and> sc_secret_id q \<noteq> sc_secret_id r \<or> (\<exists>c. q = r\<lparr>sc_created_at := c\<rparr>)"
proof (cases "t_has sc_secret_id (sc_secret_id r) t")
  case True
  assume "q \<in> set (secret_upsert r t)"
  with True obtain x where "x \<in> set t"
    "q = (if sc_secret_id x = sc_secret_id r then r\<lparr>sc_created_at := sc_created_at x\<rparr> else x)"
    by (auto simp: secret_upsert_def t_upsert_def t_update_def split del: if_split)
  then show ?thesis by (cases "sc_secret_id x = sc_secret_id r") auto
next
  case False
  assume "q \<in> set (secret_upsert r t)"
  with False have "q \<in> set t \<or> q = r" by (simp add: secret_upsert_def t_upsert_def) blast
  moreover have "r = r\<lparr>sc_created_at := sc_created_at r\<rparr>" by simp
  ultimately show ?thesis using False by (metis image_eqI t_has_def)
qed

lemma secret_upsert_idem: "secret_upsert r (secret_upsert r t) = secret_upsert r t"
proof -
  have "t_has sc_secret_id (sc_secret_id r) (secret_upsert r t)" by simp
  then have "secret_upsert r (secret_upsert r t) = t_update sc_secret_id (sc_secret_id r)
      (\<lambda>q. if sc_secret_id q = sc_secret_id r then r\<lparr>sc_created_at := sc_created_at q\<rparr> else q) (secret_upsert r t)"
    unfolding secret_upsert_def [of r "secret_upsert r t"] t_upsert_def by simp
  also have "\<dots> = secret_upsert r t"
    unfolding t_update_def
  proof (rule map_idI)
    fix q
    assume "q \<in> set (secret_upsert r t)"
    then show "(if sc_secret_id q = sc_secret_id r
        then (if sc_secret_id q = sc_secret_id r then r\<lparr>sc_created_at := sc_created_at q\<rparr> else q) else q) = q"
      by (auto dest!: secret_upsert_rows)
  qed
  finally show ?thesis .
qed

lemma secret_upsert_keyed:
  assumes "t_keyed sc_secret_id t"
  shows "t_keyed sc_secret_id (secret_upsert r t)"
  unfolding secret_upsert_def using assms by (intro t_keyed_upsert) auto

lemma secret_upsert_locator:
  assumes "t_keyed sc_secret_id t" and "t_keyed sc_locator_hash t"
    and u: "\<forall>q \<in> set t. sc_locator_hash q = sc_locator_hash r \<longrightarrow> sc_secret_id q = sc_secret_id r"
  shows "t_keyed sc_locator_hash (secret_upsert r t)"
proof -
  let ?t' = "secret_upsert r t"
  have k: "t_keyed sc_secret_id ?t'" using assms(1) by (rule secret_upsert_keyed)
  have "inj_on sc_locator_hash (set ?t')"
  proof (rule inj_onI)
    fix x y
    assume x: "x \<in> set ?t'" and y: "y \<in> set ?t'" and e: "sc_locator_hash x = sc_locator_hash y"
    have "sc_secret_id x = sc_secret_id y"
      using secret_upsert_rows [OF x] secret_upsert_rows [OF y] e u assms(2)
      by (auto simp: t_keyed_def distinct_map dest: inj_onD)
    with k x y show "x = y" by (auto simp: t_keyed_def distinct_map dest: inj_onD)
  qed
  with k show ?thesis by (simp add: t_keyed_def distinct_map)
qed


lemma prefix_ensure_vocabulary: "prefix t (ensure_vocabulary i name t)"
  by (simp add: ensure_vocabulary_def prefix_insert_ignore2)

lemma commit_plan_iff:
  "commit_plan now ds pl = Inr ds' \<longleftrightarrow>
    (\<exists>ds3. let row = sp_row pl; i = sc_secret_id row; at = sc_updated_at row;
         ds1 = ds\<lparr>ds_entry_types := ensure_vocabulary (sc_entry_type_id row) (sp_entry_type pl) (ds_entry_types ds),
                 ds_entry_kinds := ensure_vocabulary (sc_entry_kind_id row) (sp_entry_kind pl) (ds_entry_kinds ds)\<rparr> in
       (\<forall>q \<in> set (ds_secrets ds). sc_locator_hash q = sc_locator_hash row \<longrightarrow> sc_secret_id q = sc_secret_id row) \<and>
       secret_fk_ok ds1 row \<and>
       sync_secret_tags now (ds1\<lparr>ds_secrets := secret_upsert row (ds_secrets ds)\<rparr>) i (sp_tags pl) False = Inr ds3 \<and>
       ds' = write_custom_metadata (write_domains ds3 i (sp_domains pl) at) i (sp_custom pl) at)"
  by (simp add: commit_plan_def Let_def rbind_Inr_iff upsert_secret_iff) blast

lemma commit_plan_effect:
  assumes "commit_plan now ds pl = Inr ds'"
  defines "i \<equiv> sc_secret_id (sp_row pl)"
  shows "ds_secrets ds' = secret_upsert (sp_row pl) (ds_secrets ds)"
    and "filter (\<lambda>r. si_secret_id r \<noteq> i) (ds_tag_assignments ds') =
      filter (\<lambda>r. si_secret_id r \<noteq> i) (ds_tag_assignments ds)"
    and "ds_domains ds' = ds_domains (write_domains ds i (sp_domains pl) (sc_updated_at (sp_row pl)))"
    and "ds_custom ds' = ds_custom (write_custom_metadata ds i (sp_custom pl) (sc_updated_at (sp_row pl)))"
    and "ds_entry_types ds' = ensure_vocabulary (sc_entry_type_id (sp_row pl)) (sp_entry_type pl) (ds_entry_types ds)"
    and "ds_entry_kinds ds' = ensure_vocabulary (sc_entry_kind_id (sp_row pl)) (sp_entry_kind pl) (ds_entry_kinds ds)"
    and "prefix (ds_tags ds) (ds_tags ds')"
    and "secret_fk_ok ds' (sp_row pl)"
    and "\<forall>q \<in> set (ds_secrets ds). sc_locator_hash q = sc_locator_hash (sp_row pl) \<longrightarrow> sc_secret_id q = i"
    and "ds' = ds\<lparr>ds_entry_types := ds_entry_types ds', ds_entry_kinds := ds_entry_kinds ds', ds_tags := ds_tags ds',
      ds_secrets := ds_secrets ds', ds_tag_assignments := ds_tag_assignments ds', ds_domains := ds_domains ds',
      ds_custom := ds_custom ds'\<rparr>"
proof -
  define row where "row = sp_row pl"
  define ds2 where "ds2 = ds\<lparr>ds_entry_types := ensure_vocabulary (sc_entry_type_id row) (sp_entry_type pl) (ds_entry_types ds),
      ds_entry_kinds := ensure_vocabulary (sc_entry_kind_id row) (sp_entry_kind pl) (ds_entry_kinds ds),
      ds_secrets := secret_upsert row (ds_secrets ds)\<rparr>"
  from assms(1) obtain ds3 where
    u: "\<forall>q \<in> set (ds_secrets ds). sc_locator_hash q = sc_locator_hash row \<longrightarrow> sc_secret_id q = i"
    and fk: "secret_fk_ok ds2 row"
    and sync: "sync_secret_tags now ds2 i (sp_tags pl) False = Inr ds3"
    and ds': "ds' = write_custom_metadata (write_domains ds3 i (sp_domains pl) (sc_updated_at row)) i
      (sp_custom pl) (sc_updated_at row)"
    unfolding commit_plan_iff Let_def ds2_def i_def row_def by (auto simp: secret_fk_ok_def)
  note frame = sync_secret_tags_frame [OF sync, unfolded tag_frame_def]
  define T where "T = ds_tags ds3"
  define G where "G = ds_tag_assignments ds3"
  have ds3: "ds3 = ds2\<lparr>ds_tags := T, ds_tag_assignments := G\<rparr>" using frame by (simp add: T_def G_def)
  have G: "filter (\<lambda>r. si_secret_id r \<noteq> i) G = filter (\<lambda>r. si_secret_id r \<noteq> i) (ds_tag_assignments ds)"
    and T: "prefix (ds_tags ds) T" using frame by (simp_all add: T_def G_def ds2_def)
  note eqs = ds' ds3 ds2_def write_custom_metadata_def write_domains_def row_def
  show "ds_secrets ds' = secret_upsert (sp_row pl) (ds_secrets ds)" by (simp add: eqs)
  show "filter (\<lambda>r. si_secret_id r \<noteq> i) (ds_tag_assignments ds') =
      filter (\<lambda>r. si_secret_id r \<noteq> i) (ds_tag_assignments ds)" using G by (simp add: eqs)
  show "ds_domains ds' = ds_domains (write_domains ds i (sp_domains pl) (sc_updated_at (sp_row pl)))"
    by (simp add: eqs)
  show "ds_custom ds' = ds_custom (write_custom_metadata ds i (sp_custom pl) (sc_updated_at (sp_row pl)))"
    by (simp add: eqs)
  show "ds_entry_types ds' = ensure_vocabulary (sc_entry_type_id (sp_row pl)) (sp_entry_type pl) (ds_entry_types ds)"
    "ds_entry_kinds ds' = ensure_vocabulary (sc_entry_kind_id (sp_row pl)) (sp_entry_kind pl) (ds_entry_kinds ds)"
    by (simp_all add: eqs)
  show "prefix (ds_tags ds) (ds_tags ds')" using T by (simp add: eqs)
  show "secret_fk_ok ds' (sp_row pl)" using fk by (simp add: eqs secret_fk_ok_def)
  show "\<forall>q \<in> set (ds_secrets ds). sc_locator_hash q = sc_locator_hash (sp_row pl) \<longrightarrow> sc_secret_id q = i"
    using u by (simp add: row_def)
  show "ds' = ds\<lparr>ds_entry_types := ds_entry_types ds', ds_entry_kinds := ds_entry_kinds ds', ds_tags := ds_tags ds',
      ds_secrets := ds_secrets ds', ds_tag_assignments := ds_tag_assignments ds', ds_domains := ds_domains ds',
      ds_custom := ds_custom ds'\<rparr>" by (simp add: eqs)
qed


text \<open>
  The same plan committed again, on tables that hold every row it refers to: only the rows of the
  secret are written, and the tag assignments are those of the first commit up to their time stamp.
\<close>

lemma ensure_vocabulary_present [simp]: "t_has vo_id i t \<Longrightarrow> ensure_vocabulary i name t = t"
  by (simp add: ensure_vocabulary_def)

lemma commit_plan_rerun:
  assumes A: "commit_plan now A pl = Inr A'"
    and row: "row = sp_row pl" and i: "i = sc_secret_id row"
    and u: "\<forall>q \<in> set (ds_secrets B). sc_locator_hash q = sc_locator_hash row \<longrightarrow> sc_secret_id q = i"
    and fk: "secret_fk_ok B row"
    and tags: "\<And>k. t_has tg_tag_id k (ds_tags A') \<Longrightarrow> t_has tg_tag_id k (ds_tags B)"
    and asg: "filter (\<lambda>r. si_secret_id r \<noteq> i) (ds_tag_assignments B) =
      map (restamp g) (filter (\<lambda>r. si_secret_id r \<noteq> i) (ds_tag_assignments A))"
    and g: "\<And>k. g \<lparr>si_secret_id = i, si_key = k, si_value = [], si_created_at = now\<rparr> = now'"
  shows "commit_plan now' B (pl\<lparr>sp_custom := cu\<rparr>) =
    Inr (B\<lparr>ds_secrets := secret_upsert row (ds_secrets B),
           ds_tag_assignments := map (restamp g) (ds_tag_assignments A'),
           ds_domains := ds_domains (write_domains B i (sp_domains pl) (sc_updated_at row)),
           ds_custom := ds_custom (write_custom_metadata B i cu (sc_updated_at row))\<rparr>)"
proof -
  define A2 where "A2 = A\<lparr>ds_entry_types := ensure_vocabulary (sc_entry_type_id row) (sp_entry_type pl) (ds_entry_types A),
      ds_entry_kinds := ensure_vocabulary (sc_entry_kind_id row) (sp_entry_kind pl) (ds_entry_kinds A),
      ds_secrets := secret_upsert row (ds_secrets A)\<rparr>"
  define B2 where "B2 = B\<lparr>ds_secrets := secret_upsert row (ds_secrets B)\<rparr>"
  from A obtain A3 where sync: "sync_secret_tags now A2 i (sp_tags pl) False = Inr A3"
    and A': "A' = write_custom_metadata (write_domains A3 i (sp_domains pl) (sc_updated_at row)) i
      (sp_custom pl) (sc_updated_at row)"
    unfolding commit_plan_iff Let_def A2_def row i by auto
  have A3: "ds_tags A3 = ds_tags A'" "ds_tag_assignments A3 = ds_tag_assignments A'"
    by (simp_all add: A' write_custom_metadata_def write_domains_def)
  have "sync_secret_tags now' B2 i (sp_tags pl) False =
      Inr (B2\<lparr>ds_tag_assignments := map (restamp g) (ds_tag_assignments A3)\<rparr>)"
    using sync_tag_loop_rerun [OF sync [unfolded sync_secret_tags_def], where B = B2 and g = g and now' = now']
      tags g asg unfolding sync_secret_tags_def by (simp add: B2_def A2_def A3 i)
  moreover have "sc_secret_id row = i" by (simp add: i)
  moreover have "t_has vo_id (sc_entry_type_id row) (ds_entry_types B)"
    "t_has vo_id (sc_entry_kind_id row) (ds_entry_kinds B)" using fk by (simp_all add: secret_fk_ok_def)
  ultimately show ?thesis
    using u fk unfolding commit_plan_iff Let_def
    by (simp add: B2_def A3 row [symmetric] secret_fk_ok_def write_custom_metadata_def write_domains_def)
qed

lemma write_items_again:
  "ds_domains (write_domains (write_domains ds i d at) i d at) = ds_domains (write_domains ds i d at)"
  "ds_custom (write_custom_metadata (write_custom_metadata ds i c at) i c at) = ds_custom (write_custom_metadata ds i c at)"
  by (simp_all add: write_domains_def write_custom_metadata_def filter_map o_def case_prod_beta)

lemma commit_plan_idem:
  assumes "commit_plan now ds pl = Inr ds'"
  shows "commit_plan now ds' pl = Inr ds'"
proof -
  define row where "row = sp_row pl"
  define i where "i = sc_secret_id row"
  note eff = commit_plan_effect [OF assms, folded row_def, folded i_def]
  have u: "\<forall>q \<in> set (ds_secrets ds'). sc_locator_hash q = sc_locator_hash row \<longrightarrow> sc_secret_id q = i"
    using eff(9) by (auto simp: eff(1) i_def dest!: secret_upsert_rows)
  have "commit_plan now ds' (pl\<lparr>sp_custom := sp_custom pl\<rparr>) =
    Inr (ds'\<lparr>ds_secrets := secret_upsert row (ds_secrets ds'),
           ds_tag_assignments := map (restamp si_created_at) (ds_tag_assignments ds'),
           ds_domains := ds_domains (write_domains ds' i (sp_domains pl) (sc_updated_at row)),
           ds_custom := ds_custom (write_custom_metadata ds' i (sp_custom pl) (sc_updated_at row))\<rparr>)"
    by (rule commit_plan_rerun [OF assms row_def i_def u eff(8)]) (simp_all add: eff(2))
  moreover have "secret_upsert row (ds_secrets ds') = ds_secrets ds'"
    by (simp add: eff(1) secret_upsert_idem)
  moreover have "ds_domains (write_domains ds' i (sp_domains pl) (sc_updated_at row)) = ds_domains ds'"
    "ds_custom (write_custom_metadata ds' i (sp_custom pl) (sc_updated_at row)) = ds_custom ds'"
    using write_items_again eff(3,4) by (simp_all add: write_domains_def write_custom_metadata_def)
  ultimately show ?thesis by simp
qed

lemma commit_plan_mode: "commit_plan now ds pl = Inr ds' \<Longrightarrow> read_sqlite_storage_mode ds' = read_sqlite_storage_mode ds"
proof -
  assume "commit_plan now ds pl = Inr ds'"
  then have "ds_metadata ds' = ds_metadata ds" by (subst commit_plan_effect(10)) simp_all
  then show ?thesis by (simp add: read_sqlite_storage_mode_def read_sqlite_storage_mode_opt_def)
qed


subsection \<open>The constraints of the projection tables\<close>

definition items_wf :: "datastore \<Rightarrow> secret_item_row list \<Rightarrow> bool" where
  "items_wf ds t \<longleftrightarrow>
     t_keyed (\<lambda>r. (si_secret_id r, si_key r)) t \<and> (\<forall>r \<in> set t. t_has sc_secret_id (si_secret_id r) (ds_secrets ds))"

definition tags_wf :: "datastore \<Rightarrow> bool" where
  "tags_wf ds \<longleftrightarrow>
     t_keyed tg_tag_id (ds_tags ds) \<and> t_keyed tg_name (ds_tags ds) \<and> items_wf ds (ds_tag_assignments ds) \<and>
     (\<forall>r \<in> set (ds_tag_assignments ds). t_has tg_tag_id (si_key r) (ds_tags ds))"

definition vocabulary_wf :: "vocabulary_row list \<Rightarrow> bool" where
  "vocabulary_wf t \<longleftrightarrow> t_keyed vo_id t \<and> t_keyed vo_name t"

definition secrets_wf :: "datastore \<Rightarrow> bool" where
  "secrets_wf ds \<longleftrightarrow>
     t_keyed sc_secret_id (ds_secrets ds) \<and> t_keyed sc_locator_hash (ds_secrets ds) \<and>
     (\<forall>r \<in> set (ds_secrets ds). secret_fk_ok ds r)"

text \<open>Every primary key, \<open>UNIQUE\<close> and \<open>REFERENCES\<close> constraint of the projection tables.\<close>

definition projections_wf :: "datastore \<Rightarrow> bool" where
  "projections_wf ds \<longleftrightarrow>
     secrets_wf ds \<and> vocabulary_wf (ds_entry_types ds) \<and> vocabulary_wf (ds_entry_kinds ds) \<and>
     tags_wf ds \<and> items_wf ds (ds_domains ds) \<and> items_wf ds (ds_custom ds)"

lemma t_keyed_insert_ignore2:
  "t_keyed key t \<Longrightarrow> t_keyed key (t_insert_ignore2 key uniq r t)"
  "t_keyed uniq t \<Longrightarrow> t_keyed uniq (t_insert_ignore2 key uniq r t)"
  by (simp_all add: t_insert_ignore2_def t_keyed_append1)

lemma t_has_insert_ignore2: "t_has f k t \<Longrightarrow> t_has f k (t_insert_ignore2 key uniq r t)"
  by (simp add: t_insert_ignore2_def)

lemma vocabulary_wf_ensure: "vocabulary_wf t \<Longrightarrow> vocabulary_wf (ensure_vocabulary i name t)"
  by (simp add: vocabulary_wf_def ensure_vocabulary_def t_keyed_insert_ignore2)

lemma t_has_prefix: "t_has key k t \<Longrightarrow> prefix t u \<Longrightarrow> t_has key k u"
  by (auto simp: prefix_def)

lemma sync_tag_loop_wf:
  "sync_tag_loop now i fr tags seen ds = Inr ds' \<Longrightarrow> tags_wf ds \<Longrightarrow> tags_wf ds'"
proof (induction tags arbitrary: seen ds)
  case Nil
  then show ?case by simp
next
  case (Cons raw tags)
  from Cons.prems(1) obtain display where d: "resolve_stored_taxonomy_name raw fr = Inr display"
    by (auto elim: rbind_InrE)
  show ?case
  proof (cases "lower display \<in> set seen")
    case True
    with Cons d show ?thesis by simp
  next
    case False
    with Cons.prems(1) d obtain tid ds1 where e: "ensure_tag_id now ds display fr = Inr (tid, ds1)"
      and has: "t_has tg_tag_id tid (ds_tags ds1)" "t_has sc_secret_id i (ds_secrets ds1)"
      by (auto elim!: rbind_InrE split: if_splits)
    let ?r = "\<lparr>si_secret_id = i, si_key = tid, si_value = [], si_created_at = now\<rparr>"
    let ?ds2 = "ds1\<lparr>ds_tag_assignments :=
        t_insert_ignore (\<lambda>r. (si_secret_id r, si_key r)) ?r (ds_tag_assignments ds1)\<rparr>"
    from e Cons.prems(2) have "tags_wf ds1"
      by (auto simp: ensure_tag_id_def rbind_Inr_iff tags_wf_def items_wf_def t_keyed_insert_ignore2
          t_has_insert_ignore2)
    then have "tags_wf ?ds2"
      using has by (auto simp: tags_wf_def items_wf_def) (auto simp: t_insert_ignore_def split: if_splits)
    moreover from False Cons.prems(1) d e has
    have "sync_tag_loop now i fr tags (lower display # seen) ?ds2 = Inr ds'" by simp
    ultimately show ?thesis using Cons.IH by blast
  qed
qed

lemma t_keyed_filter: "t_keyed key t \<Longrightarrow> t_keyed key (filter P t)"
  by (simp add: t_keyed_def distinct_map_filter)

lemma items_wf_rewrite:
  assumes "items_wf ds t" and "\<And>j. t_has sc_secret_id j (ds_secrets ds) \<Longrightarrow> t_has sc_secret_id j (ds_secrets ds')"
    and "t_has sc_secret_id i (ds_secrets ds')" and "\<forall>r \<in> set new. si_secret_id r = i" and "t_keyed si_key new"
  shows "items_wf ds' (filter (\<lambda>r. si_secret_id r \<noteq> i) t @ new)"
proof -
  have "t_keyed (\<lambda>r. (si_secret_id r, si_key r)) (filter (\<lambda>r. si_secret_id r \<noteq> i) t)"
    using assms(1) by (simp add: items_wf_def t_keyed_filter)
  moreover have "t_keyed (\<lambda>r. (si_secret_id r, si_key r)) new"
    using assms(5) by (auto simp: t_keyed_def distinct_map inj_on_def)
  ultimately show ?thesis
    using assms by (auto simp: items_wf_def t_keyed_def)
qed

lemma tags_wf_extend:
  assumes "tags_wf ds" and "\<And>j. t_has sc_secret_id j (ds_secrets ds) \<Longrightarrow> t_has sc_secret_id j (ds_secrets ds')"
    and "ds_tags ds' = ds_tags ds" and "ds_tag_assignments ds' = filter P (ds_tag_assignments ds)"
  shows "tags_wf ds'"
  using assms by (auto simp: tags_wf_def items_wf_def t_keyed_filter)

lemma commit_plan_tags_wf:
  assumes c: "commit_plan now ds pl = Inr ds'" and wf: "projections_wf ds"
  shows "tags_wf ds'"
proof -
  define i where "i = sc_secret_id (sp_row pl)"
  define ds2 where "ds2 = ds\<lparr>ds_entry_types :=
        ensure_vocabulary (sc_entry_type_id (sp_row pl)) (sp_entry_type pl) (ds_entry_types ds),
      ds_entry_kinds := ensure_vocabulary (sc_entry_kind_id (sp_row pl)) (sp_entry_kind pl) (ds_entry_kinds ds),
      ds_secrets := secret_upsert (sp_row pl) (ds_secrets ds)\<rparr>"
  have s2: "ds_secrets ds2 = secret_upsert (sp_row pl) (ds_secrets ds)" "ds_tags ds2 = ds_tags ds"
    "ds_tag_assignments ds2 = ds_tag_assignments ds" by (simp_all add: ds2_def)
  from c obtain ds3 where sync: "sync_secret_tags now ds2 i (sp_tags pl) False = Inr ds3"
    and ds': "ds_secrets ds' = ds_secrets ds3" "ds_tags ds' = ds_tags ds3"
      "ds_tag_assignments ds' = ds_tag_assignments ds3"
    unfolding commit_plan_iff Let_def i_def ds2_def by (auto simp: write_custom_metadata_def write_domains_def)
  have "tags_wf (ds2\<lparr>ds_tag_assignments := filter (\<lambda>r. si_secret_id r \<noteq> i) (ds_tag_assignments ds2)\<rparr>)"
    by (rule tags_wf_extend [where ds = ds]) (use wf in \<open>auto simp: projections_wf_def s2\<close>)
  then have "tags_wf ds3" using sync unfolding sync_secret_tags_def by (rule sync_tag_loop_wf [rotated])
  then show ?thesis using ds' by (simp add: tags_wf_def items_wf_def)
qed

lemma commit_plan_wf:
  assumes c: "commit_plan now ds pl = Inr ds'" and wf: "projections_wf ds" and cu: "dict_wf (sp_custom pl)"
  shows "projections_wf ds'"
proof -
  define row where "row = sp_row pl"
  define i where "i = sc_secret_id row"
  note eff = commit_plan_effect [OF c, folded row_def, folded i_def]
  have own: "ds_owners ds' = ds_owners ds" "ds_service_groups ds' = ds_service_groups ds" by (subst eff(10), simp)+
  have fk: "secret_fk_ok ds' r" if "secret_fk_ok ds r" for r
    using that eff(5,6) by (auto simp: secret_fk_ok_def own intro: t_has_prefix [OF _ prefix_ensure_vocabulary])
  have rows: "secret_fk_ok ds' q" if "q \<in> set (ds_secrets ds')" for q
  proof -
    from that have "q \<in> set (ds_secrets ds) \<or> (\<exists>c. q = row\<lparr>sc_created_at := c\<rparr>)"
      by (auto simp: eff(1) dest: secret_upsert_rows)
    then show ?thesis
    proof (elim disjE exE)
      assume "q \<in> set (ds_secrets ds)"
      then show ?thesis using wf fk by (simp add: projections_wf_def secrets_wf_def)
    next
      fix c
      assume "q = row\<lparr>sc_created_at := c\<rparr>"
      then show ?thesis using eff(8) by (simp add: secret_fk_ok_def)
    qed
  qed
  have s: "secrets_wf ds'"
    using wf eff(9) rows by (simp add: secrets_wf_def eff(1) i_def projections_wf_def secret_upsert_keyed
        secret_upsert_locator)
  have has: "t_has sc_secret_id j (ds_secrets ds) \<Longrightarrow> t_has sc_secret_id j (ds_secrets ds')"
    "t_has sc_secret_id i (ds_secrets ds')" for j by (simp_all add: eff(1) i_def)
  have "items_wf ds' (ds_domains ds')"
    unfolding eff(3) write_domains_def
    using wf by (simp add: projections_wf_def) (rule items_wf_rewrite [OF _ has], auto simp: t_keyed_def o_def)
  moreover have "items_wf ds' (ds_custom ds')"
    unfolding eff(4) write_custom_metadata_def
    using wf cu by (simp add: projections_wf_def)
      (rule items_wf_rewrite [OF _ has], auto simp: t_keyed_def o_def case_prod_beta dict_wf_def
        distinct_map_fst_sort_key [unfolded o_def])
  moreover have "tags_wf ds'" by (rule commit_plan_tags_wf [OF c wf])
  ultimately show ?thesis
    using wf s by (simp add: projections_wf_def eff(5,6) vocabulary_wf_ensure)
qed

lemma secret_values_fields:
  assumes "secret_values h p i ids mode en ep st ca ua = Inr row"
  shows "pj_required_text p ''service'' = Inr (sc_service row)" "pj_required_text p ''account'' = Inr (sc_account row)"
    "pj_required_b64 p ''locator_hash_b64'' = Inr (sc_locator_hash row)"
    "pj_required_b64 p ''content_hash_b64'' = Inr (sc_content_hash row)"
    "projection_name h p en mode = Inr (sc_name row)"
  using assms unfolding secret_values_def by (elim rbind_InrE; (simp; fail)?; clarsimp)+

lemma plan_secret_fields:
  assumes "plan_secret h t i et ek en ep mode st c u = Inr pl"
  shows "sc_secret_id (sp_row pl) = i" "sc_encrypted_payload (sp_row pl) = ep" "sc_encrypted_name (sp_row pl) = en"
    "sc_state (sp_row pl) = st" "pj_required_text (tx_payload t) ''service'' = Inr (sc_service (sp_row pl))"
    "pj_required_text (tx_payload t) ''account'' = Inr (sc_account (sp_row pl))"
    "pj_required_b64 (tx_payload t) ''locator_hash_b64'' = Inr (sc_locator_hash (sp_row pl))"
    "pj_required_b64 (tx_payload t) ''content_hash_b64'' = Inr (sc_content_hash (sp_row pl))"
    "projection_name h (tx_payload t) en mode = Inr (sc_name (sp_row pl))"
    "pj_text_list (tx_payload t) ''domains'' = Inr (sp_domains pl)" "tags_from_payload (tx_payload t) = Inr (sp_tags pl)"
proof -
  from assms obtain domains custom ti ki ca ua row tags where s:
    "secret_values h (tx_payload t) i (ti, ki) mode en ep st ca ua = Inr row"
    "pl = \<lparr>sp_row = row, sp_entry_type = et, sp_entry_kind = ek, sp_domains = domains, sp_custom = custom,
      sp_tags = tags\<rparr>" "pj_text_list (tx_payload t) ''domains'' = Inr domains"
    "tags_from_payload (tx_payload t) = Inr tags"
    unfolding plan_secret_def Let_def by (elim rbind_InrE) auto
  show "sc_secret_id (sp_row pl) = i" "sc_encrypted_payload (sp_row pl) = ep" "sc_encrypted_name (sp_row pl) = en"
    "sc_state (sp_row pl) = st" "pj_required_text (tx_payload t) ''service'' = Inr (sc_service (sp_row pl))"
    "pj_required_text (tx_payload t) ''account'' = Inr (sc_account (sp_row pl))"
    "pj_required_b64 (tx_payload t) ''locator_hash_b64'' = Inr (sc_locator_hash (sp_row pl))"
    "pj_required_b64 (tx_payload t) ''content_hash_b64'' = Inr (sc_content_hash (sp_row pl))"
    "projection_name h (tx_payload t) en mode = Inr (sc_name (sp_row pl))"
    "pj_text_list (tx_payload t) ''domains'' = Inr (sp_domains pl)" "tags_from_payload (tx_payload t) = Inr (sp_tags pl)"
    using secret_values_row [OF s(1)] secret_values_fields [OF s(1)] s by simp_all
qed

lemma set_plan_fields:
  assumes "set_plan h mode t = Inr pl"
  shows "pj_required_identifier (tx_payload t) ''secret_id'' Secret = Inr (sc_secret_id (sp_row pl))"
    "pj_required_b64 (tx_payload t) ''encrypted_name_b64'' = Inr (sc_encrypted_name (sp_row pl))"
    "pj_required_b64 (tx_payload t) ''encrypted_payload_b64'' = Inr (sc_encrypted_payload (sp_row pl))"
    "sc_state (sp_row pl) = ''active''"
    "\<exists>i et ek en ep st c u. plan_secret h t i et ek en ep mode st c u = Inr pl"
proof -
  from assms obtain i et ek en ep c u where s:
    "pj_required_identifier (tx_payload t) ''secret_id'' Secret = Inr i"
    "pj_required_b64 (tx_payload t) ''encrypted_name_b64'' = Inr en"
    "pj_required_b64 (tx_payload t) ''encrypted_payload_b64'' = Inr ep"
    "plan_secret h t i et ek en ep mode ''active'' c u = Inr pl"
    unfolding set_plan_def Let_def by (elim rbind_InrE) blast
  then show "pj_required_identifier (tx_payload t) ''secret_id'' Secret = Inr (sc_secret_id (sp_row pl))"
    "pj_required_b64 (tx_payload t) ''encrypted_name_b64'' = Inr (sc_encrypted_name (sp_row pl))"
    "pj_required_b64 (tx_payload t) ''encrypted_payload_b64'' = Inr (sc_encrypted_payload (sp_row pl))"
    "sc_state (sp_row pl) = ''active''"
    using plan_secret_fields(1-4) [OF s(4)] by simp_all
  show "\<exists>i et ek en ep st c u. plan_secret h t i et ek en ep mode st c u = Inr pl" using s(4) by blast
qed

lemma delete_plan_fields:
  assumes "delete_plan h mode t = Inr pl"
  shows "pj_required_identifier (tx_payload t) ''secret_id'' Secret = Inr (sc_secret_id (sp_row pl))"
    "pj_required_b64 (tx_payload t) ''encrypted_name_b64'' = Inr (sc_encrypted_name (sp_row pl))"
    "sc_state (sp_row pl) = ''deleted''"
    "\<exists>i et ek en ep st c u. plan_secret h t i et ek en ep mode st c u = Inr pl"
proof -
  from assms obtain i et ek en ep u where s:
    "pj_required_identifier (tx_payload t) ''secret_id'' Secret = Inr i"
    "pj_required_b64 (tx_payload t) ''encrypted_name_b64'' = Inr en"
    "plan_secret h t i et ek en ep mode ''deleted'' None u = Inr pl"
    unfolding delete_plan_def Let_def by (elim rbind_InrE) blast
  then show "pj_required_identifier (tx_payload t) ''secret_id'' Secret = Inr (sc_secret_id (sp_row pl))"
    "pj_required_b64 (tx_payload t) ''encrypted_name_b64'' = Inr (sc_encrypted_name (sp_row pl))"
    "sc_state (sp_row pl) = ''deleted''"
    using plan_secret_fields(1-4) [OF s(3)] by simp_all
  show "\<exists>i et ek en ep st c u. plan_secret h t i et ek en ep mode st c u = Inr pl" using s(3) by blast
qed

definition example_host :: host where
  "example_host =
     \<lparr>h_now = ''2026-01-02T00:00:00Z'', h_aead = example_aead, h_storage_key = [],
      h_ed25519_verify = (\<lambda>key message signature. signature = key @ message), h_ed25519_key_ok = (\<lambda>key. length key = 32),
      h_x25519_key_ok = (\<lambda>key. length key = 32)\<rparr>"

definition example_secret_payload :: json_obj where
  "example_secret_payload =
     [(''secret_id'', JStr (format_identifier Secret 4)), (''owner_id'', JStr (format_identifier Owner 2)),
      (''service_group_id'', JStr (format_identifier Service_group 3)), (''entry_type'', JStr ''secret''),
      (''entry_kind'', JStr ''api_key''), (''service'', JStr ''svc''), (''account'', JStr ''me''),
      (''locator_hash_b64'', JStr ''bG9j''), (''encrypted_name_b64'', JStr ''QVBJ''),
      (''encrypted_payload_b64'', JStr ''czNjcjN0''), (''content_hash_b64'', JStr ''Y29u''),
      (''tags'', JList [JStr ''Prod'', JStr ''prod''])]"

definition example_secrets_datastore :: datastore where
  "example_secrets_datastore = example_datastore\<lparr>
     ds_owners := [\<lparr>ow_owner_id = format_identifier Owner 2, ow_client_id = ''c''\<rparr>],
     ds_service_groups := [\<lparr>sg_service_group_id = format_identifier Service_group 3,
       sg_owner_id = Some (format_identifier Owner 2)\<rparr>]\<rparr>"

definition example_set :: Transaction where
  "example_set = example_transaction ''secret.set'' example_secret_payload 7"

definition example_type_id :: string where
  "example_type_id = deterministic_constant Entry_type ''taxonomy'' ''entry_type:secret''"

definition example_kind_id :: string where
  "example_kind_id = deterministic_constant Entry_kind ''taxonomy'' ''entry_kind:api_key''"

definition example_tag_id :: string where
  "example_tag_id = (case deterministic_uuid_text ''taxonomy'' ''tag:prod'' of Inr v \<Rightarrow> v | Inl _ \<Rightarrow> [])"

definition example_plan :: "string \<Rightarrow> secret_plan" where
  "example_plan state =
     \<lparr>sp_row =
        \<lparr>sc_secret_id = format_identifier Secret 4, sc_owner_id = format_identifier Owner 2,
         sc_service_group_id = format_identifier Service_group 3, sc_entry_type_id = example_type_id,
         sc_entry_kind_id = example_kind_id, sc_schema_id = None, sc_schema_version = None, sc_name = ''API'',
         sc_service = ''svc'', sc_account = ''me'', sc_source = ''manual'', sc_comment = [], sc_source_url = [],
         sc_source_label = [], sc_rotation_days = None, sc_rotation_warn_days = None, sc_last_rotated_at = [],
         sc_expires_at = [], sc_locator_hash = ''loc'', sc_encrypted_name = ''API'',
         sc_encrypted_payload = ''s3cr3t'', sc_content_hash = ''con'', sc_state = state,
         sc_created_at = ''2026-01-01T00:00:00Z'', sc_updated_at = ''2026-01-01T00:00:00Z''\<rparr>,
      sp_entry_type = ''secret'', sp_entry_kind = ''api_key'', sp_domains = [], sp_custom = [],
      sp_tags = [''Prod'', ''prod'']\<rparr>"

lemma example_b64:
  "decode_b64 f ''bG9j'' = Inr ''loc''" "decode_b64 f ''QVBJ'' = Inr ''API''"
  "decode_b64 f ''czNjcjN0'' = Inr ''s3cr3t''" "decode_b64 f ''Y29u'' = Inr ''con''"
  by code_simp+

lemma example_names:
  "canonical_taxonomy_name ''secret'' = Inr ''secret''" "canonical_taxonomy_name ''api_key'' = Inr ''api_key''"
  "canonical_taxonomy_name ''Prod'' = Inr ''prod''" "canonical_taxonomy_name ''prod'' = Inr ''prod''"
  by code_simp+

lemma example_decode:
  "decode_storage_text h ''API'' ''encrypted_name'' ''plaintext'' = Inr ''API''"
  "decode_storage_text h ''s3cr3t'' ''encrypted_payload'' ''plaintext'' = Inr ''s3cr3t''"
  by code_simp+

lemma example_strip: "strip ''prod'' = ''prod''" "strip ''Prod'' = ''Prod''"
  by code_simp+

lemma example_ids:
  "entry_type_id_for_name ''secret'' False = Inr example_type_id"
  "entry_kind_id_for_name ''api_key'' False = Inr example_kind_id"
  "tag_id_for_name ''prod'' False = Inr example_tag_id"
  by (simp_all add: type_id_stored example_names example_type_id_def example_kind_id_def deterministic_constant_def
    deterministic_identifier_def tag_id_for_name_def taxonomy_uuid_def deterministic_uuid_text_def example_tag_id_def
    resolve_stored_canonical)

lemma example_set_plan: "set_plan example_host ''plaintext'' example_set = Inr (example_plan ''active'')"
  using is_identifier_not_Nil [OF is_identifier_format]
  by (simp add: example_strip set_plan_def example_set_def example_transaction_def example_secret_payload_def
    pj_validate_required_fields_def SET_REQUIRED_FIELDS_def dict_has_def pj_optional_text_def pj_required_text_def
    payload_get_def pj_required_identifier_def pj_validate_identifier_def validate_identifier_ok
    pj_required_b64_def example_b64 example_decode plan_secret_def pj_text_list_def pj_custom_metadata_def
    example_ids truthy_def created_at_or_fail_def secret_values_def pj_optional_identifier_def pj_optional_int_def
    projection_name_def sqlite_int_opt_def or_default_def tags_from_payload_def nonblank_text_def example_plan_def)

definition example_set_result :: datastore where
  "example_set_result = example_secrets_datastore\<lparr>
     ds_entry_types := [\<lparr>vo_id = example_type_id, vo_name = ''secret'', vo_operator_comment = []\<rparr>],
     ds_entry_kinds := [\<lparr>vo_id = example_kind_id, vo_name = ''api_key'', vo_operator_comment = []\<rparr>],
     ds_tags := [\<lparr>tg_tag_id = example_tag_id, tg_name = ''prod'', tg_created_at = h_now example_host\<rparr>],
     ds_secrets := [sp_row (example_plan ''active'')],
     ds_tag_assignments := [\<lparr>si_secret_id = format_identifier Secret 4, si_key = example_tag_id, si_value = [],
       si_created_at = h_now example_host\<rparr>]\<rparr>"

lemma example_mode: "read_sqlite_storage_mode example_secrets_datastore = Inr ''plaintext''"
  by code_simp

lemma example_set_applied:
  "apply_secret_set_projection example_host example_secrets_datastore example_set = Inr example_set_result"
proof -
  have "commit_plan (h_now example_host) example_secrets_datastore (example_plan ''active'') = Inr example_set_result"
    by (simp add: commit_plan_def example_plan_def Let_def upsert_secret_def example_secrets_datastore_def
      example_datastore_def empty_datastore_def ensure_vocabulary_def t_insert_ignore2_def canonical_or_empty_def
      example_names t_upsert_def sync_secret_tags_def resolve_stored_canonical ensure_tag_id_def example_ids
      t_insert_ignore_def write_domains_def write_custom_metadata_def example_set_result_def lower_char_def is_upper_def)
  then show ?thesis using example_mode example_set_plan by (auto simp: apply_secret_set_iff)
qed

lemma secret_projection_plan:
  assumes "apply_secret_set_projection h ds t = Inr ds' \<and> st = ''active'' \<or>
    apply_secret_delete_projection h ds t = Inr ds' \<and> st = ''deleted''"
  obtains pl mode i et ek en ep st' c u where "commit_plan (h_now h) ds pl = Inr ds'"
    "pj_required_identifier (tx_payload t) ''secret_id'' Secret = Inr (sc_secret_id (sp_row pl))"
    "pj_required_b64 (tx_payload t) ''encrypted_name_b64'' = Inr (sc_encrypted_name (sp_row pl))"
    "sc_state (sp_row pl) = st"
    "st = ''active'' \<longrightarrow> pj_required_b64 (tx_payload t) ''encrypted_payload_b64'' = Inr (sc_encrypted_payload (sp_row pl))"
    "plan_secret h t i et ek en ep mode st' c u = Inr pl"
proof (cases "st = ''active''")
  case True
  with assms obtain mode pl where pl: "set_plan h mode t = Inr pl" "commit_plan (h_now h) ds pl = Inr ds'"
    by (auto simp: apply_secret_set_iff)
  note f = set_plan_fields [OF pl(1)]
  from f(5) obtain i et ek en ep st' c u where "plan_secret h t i et ek en ep mode st' c u = Inr pl" by blast
  from that [OF pl(2) f(1,2) _ _ this] f(3,4) True show ?thesis by simp
next
  case False
  with assms obtain mode pl where pl: "delete_plan h mode t = Inr pl" "commit_plan (h_now h) ds pl = Inr ds'"
    and st: "st = ''deleted''" by (auto simp: apply_secret_delete_iff)
  note f = delete_plan_fields [OF pl(1)]
  from f(4) obtain i et ek en ep st' c u where "plan_secret h t i et ek en ep mode st' c u = Inr pl" by blast
  from that [OF pl(2) f(1,2) _ _ this] f(3) st False show ?thesis by simp
qed

lemma plan_secret_custom:
  assumes "plan_secret h t i et ek en ep mode st c u = Inr pl"
  shows "pj_custom_metadata (tx_payload t) = Inr (sp_custom pl)"
  using assms unfolding plan_secret_def Let_def by (elim rbind_InrE) auto

lemma json_wf_member: "json_wf (JObj p) \<Longrightarrow> map_of p k = Some v \<Longrightarrow> json_wf v"
  by (auto dest: map_of_SomeD)

lemma custom_wf:
  assumes "pj_custom_metadata p = Inr custom" and "json_wf (JObj p)"
  shows "dict_wf custom"
  using assms json_wf_member [OF assms(2), of "''custom''"]
  by (auto simp: pj_custom_metadata_def dict_wf_def split: option.splits json.splits if_splits)

lemma secret_projection_wf:
  assumes "apply_secret_set_projection h ds t = Inr ds' \<or> apply_secret_delete_projection h ds t = Inr ds'"
    and "projections_wf ds" and "json_wf (JObj (tx_payload t))"
  shows "projections_wf ds'"
proof -
  from assms(1) obtain st where "apply_secret_set_projection h ds t = Inr ds' \<and> st = ''active'' \<or>
    apply_secret_delete_projection h ds t = Inr ds' \<and> st = ''deleted''" by auto
  from secret_projection_plan [OF this] obtain pl mode i et ek en ep st' c u where
    "commit_plan (h_now h) ds pl = Inr ds'" "plan_secret h t i et ek en ep mode st' c u = Inr pl" .
  then show ?thesis using assms(2,3) commit_plan_wf custom_wf plan_secret_custom by blast
qed

lemma t_keyed_upsert_unique:
  assumes "t_keyed key t" and "t_keyed uniq t"
    and u: "\<And>q. q \<in> set t \<Longrightarrow> uniq q = uniq r \<Longrightarrow> key q = key r"
    and f: "\<And>x. key (f x) = key x" "\<And>x. uniq (f x) = uniq r"
  shows "t_keyed uniq (t_upsert key r f t)"
proof -
  let ?t = "t_upsert key r f t"
  have k: "t_keyed key ?t" using f(1) assms(1) by (rule t_keyed_upsert)
  have "inj_on uniq (set ?t)"
  proof (rule inj_onI)
    fix x y
    assume xy: "x \<in> set ?t" "y \<in> set ?t" "uniq x = uniq y"
    have row: "z \<in> set t \<and> key z \<noteq> key r \<or> key z = key r \<and> uniq z = uniq r" if "z \<in> set ?t" for z
      using that f unfolding t_upsert_def t_update_def t_has_def
      by (auto split: if_splits) (metis image_eqI)
    have "key x = key y"
      using row [OF xy(1)] row [OF xy(2)] xy(3) u assms(2)
      by (auto simp: t_keyed_def distinct_map dest: inj_onD)
    with k xy show "x = y" by (auto simp: t_keyed_def distinct_map dest: inj_onD)
  qed
  with k show ?thesis by (simp add: t_keyed_def distinct_map)
qed

lemma upsert_vocabulary_row_wf:
  assumes "upsert_vocabulary_row column r t = Inr t'" and "vocabulary_wf t"
  shows "vocabulary_wf t'" "t_has vo_id k t' \<longleftrightarrow> k = vo_id r \<or> t_has vo_id k t"
proof -
  from assms obtain f where u: "\<And>q. q \<in> set t \<Longrightarrow> vo_name q = vo_name r \<Longrightarrow> vo_id q = vo_id r"
    and t': "t' = t_upsert vo_id r f t" and f: "\<And>q. vo_id (f q) = vo_id q" "\<And>q. vo_name (f q) = vo_name r"
    by (auto simp: upsert_vocabulary_row_def split: if_splits)
  show "vocabulary_wf t'"
    using assms(2) u f t_keyed_upsert t_keyed_upsert_unique unfolding vocabulary_wf_def t' by metis
  show "t_has vo_id k t' \<longleftrightarrow> k = vo_id r \<or> t_has vo_id k t" unfolding t' by (rule t_has_upsert) (rule f)
qed

lemma tag_projection_wf:
  assumes "apply_vocabulary_tag_upsert ds t = Inr ds'" and "projections_wf ds"
  shows "projections_wf ds'"
proof -
  from assms(1) obtain i n c where
    u': "\<forall>q \<in> set (ds_tags ds). tg_name q = n \<longrightarrow> tg_tag_id q = i"
    and ds'': "ds' = ds\<lparr>ds_tags := t_upsert tg_tag_id \<lparr>tg_tag_id = i, tg_name = n, tg_created_at = c\<rparr>
      (\<lambda>q. q\<lparr>tg_name := n\<rparr>) (ds_tags ds)\<rparr>"
    unfolding apply_vocabulary_tag_upsert_def by (elim rbind_InrE) (auto split: option.splits if_splits)
  define r where "r = \<lparr>tg_tag_id = i, tg_name = n, tg_created_at = c\<rparr>"
  define f where "f = (\<lambda>q::tag_row. q\<lparr>tg_name := n\<rparr>)"
  have ds': "ds' = ds\<lparr>ds_tags := t_upsert tg_tag_id r f (ds_tags ds)\<rparr>"
    and u: "\<And>q. q \<in> set (ds_tags ds) \<Longrightarrow> tg_name q = tg_name r \<Longrightarrow> tg_tag_id q = tg_tag_id r"
    and f: "\<And>q. tg_tag_id (f q) = tg_tag_id q" "\<And>q. tg_name (f q) = tg_name r"
    using ds'' u' by (simp_all add: r_def f_def)
  have "t_keyed tg_tag_id (ds_tags ds)" "t_keyed tg_name (ds_tags ds)"
    using assms(2) by (simp_all add: projections_wf_def tags_wf_def)
  then have "t_keyed tg_tag_id (ds_tags ds')" "t_keyed tg_name (ds_tags ds')"
    using u f by (simp_all add: ds' t_keyed_upsert_unique)
  moreover have "t_has tg_tag_id k (ds_tags ds')" if "t_has tg_tag_id k (ds_tags ds)" for k
    using that f(1) by (simp add: ds')
  ultimately show ?thesis
    using assms(2) by (auto simp: ds' projections_wf_def secrets_wf_def secret_fk_ok_def tags_wf_def items_wf_def)
qed

lemma vocabulary_projection_wf:
  assumes "apply_vocabulary_entry_type_upsert ds t = Inr ds' \<or> apply_vocabulary_entry_kind_upsert ds t = Inr ds'"
    and "projections_wf ds"
  shows "projections_wf ds'"
proof -
  have ext: "projections_wf (ds\<lparr>ds_entry_types := ts\<rparr>)" "projections_wf (ds\<lparr>ds_entry_kinds := ks\<rparr>)"
    if "vocabulary_wf ts" "\<And>k. t_has vo_id k (ds_entry_types ds) \<Longrightarrow> t_has vo_id k ts"
      "vocabulary_wf ks" "\<And>k. t_has vo_id k (ds_entry_kinds ds) \<Longrightarrow> t_has vo_id k ks" for ts ks
    using that assms(2)
    by (simp_all add: projections_wf_def secrets_wf_def secret_fk_ok_def tags_wf_def items_wf_def)
  from assms(1) obtain c r where "(\<exists>ts. upsert_vocabulary_row c r (ds_entry_types ds) = Inr ts \<and> ds' = ds\<lparr>ds_entry_types := ts\<rparr>) \<or>
      (\<exists>ks. upsert_vocabulary_row c r (ds_entry_kinds ds) = Inr ks \<and> ds' = ds\<lparr>ds_entry_kinds := ks\<rparr>)"
    unfolding apply_vocabulary_entry_type_upsert_def apply_vocabulary_entry_kind_upsert_def
    by (elim disjE rbind_InrE) auto
  then show ?thesis
    using ext upsert_vocabulary_row_wf assms(2) by (auto simp: projections_wf_def)
qed

subsection \<open>What a payload says\<close>

text \<open>The members of a payload read directly, for the statements below: a text, a text with the default for an absent or empty
  one, an integer, encoded bytes, a list of texts and the custom fields.\<close>

definition opt_member :: "json_obj \<Rightarrow> string \<Rightarrow> string option" where
  "opt_member p f = (case map_of p f of Some (JStr s) \<Rightarrow> Some s | _ \<Rightarrow> None)"

definition text_member :: "json_obj \<Rightarrow> string \<Rightarrow> string \<Rightarrow> string" where
  "text_member p f d = (case opt_member p f of None \<Rightarrow> d | Some s \<Rightarrow> if s = [] then d else s)"

definition int_member :: "json_obj \<Rightarrow> string \<Rightarrow> int option" where
  "int_member p f = (case map_of p f of Some (JInt n) \<Rightarrow> Some n | _ \<Rightarrow> None)"

definition bytes_member :: "json_obj \<Rightarrow> string \<Rightarrow> bytes" where
  "bytes_member p f = (case opt_member p f of None \<Rightarrow> [] | Some s \<Rightarrow> (case decode_b64 f s of Inl _ \<Rightarrow> [] | Inr b \<Rightarrow> b))"

definition texts_member :: "json_obj \<Rightarrow> string \<Rightarrow> string list" where
  "texts_member p f = (case map_of p f of Some (JList js) \<Rightarrow> List.map_filter (\<lambda>j. case j of JStr s \<Rightarrow> Some s | _ \<Rightarrow> None) js | _ \<Rightarrow> [])"

definition custom_member :: "json_obj \<Rightarrow> json_obj" where
  "custom_member p = (case map_of p ''custom'' of Some (JObj kvs) \<Rightarrow> kvs | _ \<Rightarrow> [])"

lemma or_default_member: "or_default (opt_member p f) d = text_member p f d"
  by (simp add: or_default_def text_member_def truthy_def split: option.split)

lemma optional_text_member: "pj_optional_text p f = Inr x \<Longrightarrow> x = opt_member p f"
  by (auto simp: pj_optional_text_def payload_get_def opt_member_def split: option.split_asm json.split_asm)

lemma required_text_member: "pj_required_text p f = Inr s \<Longrightarrow> opt_member p f = Some s \<and> s = text_member p f []"
  by (auto simp: pj_required_text_def payload_get_def opt_member_def text_member_def split: option.split_asm json.split_asm if_split_asm)

lemma validated_identifier: "pj_validate_identifier v f t = Inr w \<Longrightarrow> w = v"
  by (cases "validate_identifier v t f") (auto simp: pj_validate_identifier_def rmap_error_def validate_identifier_iff)

lemma required_identifier_member: "pj_required_identifier p f t = Inr s \<Longrightarrow> s = text_member p f []"
  by (auto simp: pj_required_identifier_def rbind_Inr_iff dest!: required_text_member validated_identifier)

lemma optional_identifier_member: "pj_optional_identifier p f t = Inr x \<Longrightarrow> x = opt_member p f"
  by (auto simp: pj_optional_identifier_def rbind_Inr_iff split: option.split_asm dest!: optional_text_member validated_identifier)

lemma optional_int_member: "pj_optional_int p f = Inr x \<Longrightarrow> x = int_member p f"
  by (auto simp: pj_optional_int_def payload_get_def int_member_def split: option.split_asm json.split_asm)

lemma sqlite_int_opt_id: "sqlite_int_opt x = Inr y \<Longrightarrow> y = x"
  by (auto simp: sqlite_int_opt_def sqlite_int_def rbind_Inr_iff split: option.split_asm if_split_asm)

lemma required_b64_member: "pj_required_b64 p f = Inr b \<Longrightarrow> b = bytes_member p f"
  by (auto simp: pj_required_b64_def rbind_Inr_iff bytes_member_def dest!: required_text_member)

lemma optional_b64_member: "pj_optional_b64 p f = Inr x \<Longrightarrow> (case x of None \<Rightarrow> [] | Some b \<Rightarrow> b) = bytes_member p f"
  by (auto simp: pj_optional_b64_def rbind_Inr_iff bytes_member_def split: option.split_asm dest!: optional_text_member [symmetric])

lemma nonblank_texts:
  "rmapM (\<lambda>j. case nonblank_text j of None \<Rightarrow> Inl (x :: py_error) | Some s \<Rightarrow> Inr s) js = Inr ss \<Longrightarrow>
    ss = List.map_filter (\<lambda>j. case j of JStr s \<Rightarrow> Some s | _ \<Rightarrow> None) js"
  by (induction js arbitrary: ss)
    (auto simp: rbind_Inr_iff nonblank_text_def map_filter_simps split: option.split_asm json.split_asm if_split_asm)

lemma text_list_member: "pj_text_list p f = Inr ss \<Longrightarrow> ss = texts_member p f"
  by (auto simp: pj_text_list_def texts_member_def split: option.split_asm json.split_asm dest: nonblank_texts)

lemma tags_member: "tags_from_payload p = Inr ss \<Longrightarrow> ss = texts_member p ''tags''"
  by (auto simp: tags_from_payload_def texts_member_def split: option.split_asm json.split_asm dest: nonblank_texts)

lemma custom_metadata_member: "pj_custom_metadata p = Inr c \<Longrightarrow> c = custom_member p"
  by (auto simp: pj_custom_metadata_def custom_member_def split: option.split_asm json.split_asm if_split_asm)

text \<open>The row of a secret transaction, column by column from the payload.\<close>

definition projected_row :: "json_obj \<Rightarrow> string \<Rightarrow> string \<Rightarrow> string \<times> string \<Rightarrow> string \<Rightarrow> string \<Rightarrow> secret_row" where
  "projected_row p state name ids created_at updated_at =
     \<lparr>sc_secret_id = text_member p ''secret_id'' [], sc_owner_id = text_member p ''owner_id'' [],
      sc_service_group_id = text_member p ''service_group_id'' [], sc_entry_type_id = fst ids, sc_entry_kind_id = snd ids,
      sc_schema_id = opt_member p ''schema_id'', sc_schema_version = int_member p ''schema_version'', sc_name = name,
      sc_service = text_member p ''service'' [], sc_account = text_member p ''account'' [],
      sc_source = text_member p ''source'' ''manual'', sc_comment = text_member p ''comment'' [],
      sc_source_url = text_member p ''source_url'' [], sc_source_label = text_member p ''source_label'' [],
      sc_rotation_days = int_member p ''rotation_days'', sc_rotation_warn_days = int_member p ''rotation_warn_days'',
      sc_last_rotated_at = text_member p ''last_rotated_at'' [], sc_expires_at = text_member p ''expires_at'' [],
      sc_locator_hash = bytes_member p ''locator_hash_b64'', sc_encrypted_name = bytes_member p ''encrypted_name_b64'',
      sc_encrypted_payload = bytes_member p ''encrypted_payload_b64'', sc_content_hash = bytes_member p ''content_hash_b64'',
      sc_state = state, sc_created_at = created_at, sc_updated_at = updated_at\<rparr>"

lemma secret_values_projected:
  assumes "secret_values h p (text_member p ''secret_id'' []) ids mode (bytes_member p ''encrypted_name_b64'')
    (bytes_member p ''encrypted_payload_b64'') st ca ua = Inr row"
  shows "row = projected_row p st (sc_name row) ids ca ua"
  using assms unfolding secret_values_def
  by (elim rbind_InrE)
    (auto simp: projected_row_def or_default_member dest!: required_text_member required_identifier_member optional_identifier_member
      optional_int_member optional_text_member required_b64_member sqlite_int_opt_id)

subsection \<open>The tags of a secret\<close>

definition tag_keys :: "string \<Rightarrow> datastore \<Rightarrow> string list" where
  "tag_keys i ds = map si_key (filter (\<lambda>a. si_secret_id a = i) (ds_tag_assignments ds))"

lemma canonical_lower: "canonical_taxonomy_name x = Inr c \<Longrightarrow> lower c = c"
  using canonical_taxonomy_name_range name_chars(2) by (auto simp: canonical_name_def)

lemma tag_id_canonical: "canonical_taxonomy_name x = Inr c \<Longrightarrow> tag_id_for_name c False = tag_id_for_name x False"
  by (simp add: tag_id_for_name_def taxonomy_uuid_def resolve_stored_canonical canonical_taxonomy_name_idem)

text \<open>One step of the loop: a tag whose name was seen is skipped; otherwise its row is inserted or kept and assigned.\<close>

lemma sync_tag_loop_step:
  assumes "sync_tag_loop now i False (x # tags) seen ds = Inr ds'"
  obtains (seen) c where "canonical_taxonomy_name x = Inr c" "c \<in> set seen" "sync_tag_loop now i False tags seen ds = Inr ds'"
  | (assigned) c k d where "canonical_taxonomy_name x = Inr c" "tag_id_for_name x False = Inr k"
    "sync_tag_loop now i False tags (c # seen) d = Inr ds'"
    "ds_tags d = t_insert_ignore2 tg_tag_id tg_name \<lparr>tg_tag_id = k, tg_name = c, tg_created_at = now\<rparr> (ds_tags ds)"
    "t_has tg_tag_id k (ds_tags d)" "tag_keys i d = (if k \<in> set (tag_keys i ds) then tag_keys i ds else tag_keys i ds @ [k])"
proof -
  from assms obtain c where c: "canonical_taxonomy_name x = Inr c" by (auto simp: rbind_Inr_iff resolve_stored_canonical)
  note lower = canonical_lower [OF c]
  show thesis
  proof (cases "c \<in> set seen")
    case True
    then have "sync_tag_loop now i False tags seen ds = Inr ds'" using assms by (simp add: resolve_stored_canonical c lower)
    with c True show thesis by (rule seen)
  next
    case False
    with assms obtain k where k: "tag_id_for_name x False = Inr k"
      by (auto simp: resolve_stored_canonical c lower ensure_tag_id_def canonical_taxonomy_name_idem [OF c] tag_id_canonical [OF c] rbind_Inr_iff)
    define a where "a = ds\<lparr>ds_tags := t_insert_ignore2 tg_tag_id tg_name \<lparr>tg_tag_id = k, tg_name = c, tg_created_at = now\<rparr> (ds_tags ds)\<rparr>"
    define d where "d = a\<lparr>ds_tag_assignments := t_insert_ignore (\<lambda>r. (si_secret_id r, si_key r))
      \<lparr>si_secret_id = i, si_key = k, si_value = [], si_created_at = now\<rparr> (ds_tag_assignments a)\<rparr>"
    have loop: "t_has tg_tag_id k (ds_tags d)" "sync_tag_loop now i False tags (c # seen) d = Inr ds'"
      using False assms
      by (auto simp: resolve_stored_canonical c lower ensure_tag_id_def canonical_taxonomy_name_idem [OF c] tag_id_canonical [OF c] k
          a_def d_def split: if_split_asm)
    have has: "t_has (\<lambda>r. (si_secret_id r, si_key r)) (i, k) t \<longleftrightarrow> k \<in> set (map si_key (filter (\<lambda>a. si_secret_id a = i) t))"
      for t :: "secret_item_row list" by (induction t) (auto simp: t_has_def)
    have "tag_keys i d = (if k \<in> set (tag_keys i ds) then tag_keys i ds else tag_keys i ds @ [k])"
      by (simp add: tag_keys_def d_def a_def t_insert_ignore_def has)
    with loop c k show thesis by (intro assigned [of c k d]) (simp_all add: d_def a_def)
  qed
qed

text \<open>Afterwards the secret is assigned the identifier of each tag exactly once, and the tag rows are the old ones and those of
  the list.\<close>

lemma sync_tag_loop_keys:
  assumes "sync_tag_loop now i False tags seen ds = Inr ds'"
  shows "(\<forall>x \<in> set tags. \<exists>c. canonical_taxonomy_name x = Inr c \<and> (c \<notin> set seen \<longrightarrow> (\<exists>k. tag_id_for_name x False = Inr k \<and>
      k \<in> set (tag_keys i ds') \<and> t_has tg_tag_id k (ds_tags ds')))) \<and>
    set (tag_keys i ds) \<subseteq> set (tag_keys i ds') \<and>
    set (tag_keys i ds') \<subseteq> set (tag_keys i ds) \<union> {k. \<exists>x \<in> set tags. tag_id_for_name x False = Inr k} \<and>
    (distinct (tag_keys i ds) \<longrightarrow> distinct (tag_keys i ds')) \<and>
    (\<forall>q \<in> set (ds_tags ds'). q \<in> set (ds_tags ds) \<or> (\<exists>x \<in> set tags. canonical_taxonomy_name x = Inr (tg_name q) \<and>
      tag_id_for_name x False = Inr (tg_tag_id q)))"
  using assms
proof (induction tags arbitrary: seen ds)
  case Nil
  then show ?case by simp
next
  case (Cons x tags)
  from Cons.prems show ?case
  proof (cases rule: sync_tag_loop_step)
    case (seen c)
    from Cons.IH [OF seen(3)] seen(1,2) show ?thesis by auto
  next
    case (assigned c k d)
    note IH = Cons.IH [OF assigned(3)]
    have keys: "set (tag_keys i d) = insert k (set (tag_keys i ds))" "distinct (tag_keys i ds) \<longrightarrow> distinct (tag_keys i d)"
      by (simp_all add: assigned(6) insert_absorb)
    have rows: "q \<in> set (ds_tags d) \<Longrightarrow> q \<in> set (ds_tags ds) \<or> tg_tag_id q = k \<and> tg_name q = c" for q
      by (auto simp: assigned(4) t_insert_ignore2_def split: if_split_asm)
    have "prefix (ds_tags d) (ds_tags ds')" using sync_tag_loop_frame [OF assigned(3)] by (simp add: tag_frame_def)
    then have has: "t_has tg_tag_id k (ds_tags ds')" using assigned(5) by (auto simp: prefix_def)
    have here: "tag_id_for_name y False = Inr k" if "canonical_taxonomy_name y = Inr c" for y
      using assigned(1,2) tag_id_canonical [OF assigned(1)] tag_id_canonical [OF that] by simp
    have "\<exists>c'. canonical_taxonomy_name y = Inr c' \<and> (c' \<notin> set seen \<longrightarrow> (\<exists>k. tag_id_for_name y False = Inr k \<and>
        k \<in> set (tag_keys i ds') \<and> t_has tg_tag_id k (ds_tags ds')))" if "y \<in> set (x # tags)" for y
    proof (cases "canonical_taxonomy_name y = Inr c")
      case True
      have "k \<in> set (tag_keys i ds')" using IH keys(1) by blast
      with here [OF True] True has show ?thesis by blast
    next
      case False
      with that assigned(1) have "y \<in> set tags" by auto
      with IH obtain c' where "canonical_taxonomy_name y = Inr c'" "c' \<notin> set (c # seen) \<longrightarrow> (\<exists>k. tag_id_for_name y False = Inr k \<and>
        k \<in> set (tag_keys i ds') \<and> t_has tg_tag_id k (ds_tags ds'))" by blast
      moreover have "c' \<noteq> c" using calculation(1) False by blast
      ultimately show ?thesis by auto
    qed
    moreover have "set (tag_keys i ds) \<subseteq> set (tag_keys i ds')" using IH keys(1) by blast
    moreover have "set (tag_keys i ds') \<subseteq> set (tag_keys i ds) \<union> {k. \<exists>x \<in> set (x # tags). tag_id_for_name x False = Inr k}"
      using IH keys(1) assigned(2) by auto
    moreover have "distinct (tag_keys i ds) \<longrightarrow> distinct (tag_keys i ds')" using IH keys(2) by blast
    moreover have "q \<in> set (ds_tags ds) \<or> (\<exists>x \<in> set (x # tags). canonical_taxonomy_name x = Inr (tg_name q) \<and>
      tag_id_for_name x False = Inr (tg_tag_id q))" if "q \<in> set (ds_tags ds')" for q
    proof -
      from IH that have "q \<in> set (ds_tags d) \<or> (\<exists>x \<in> set tags. canonical_taxonomy_name x = Inr (tg_name q) \<and>
        tag_id_for_name x False = Inr (tg_tag_id q))" by blast
      with rows [of q] assigned(1,2) show ?thesis by auto
    qed
    ultimately show ?thesis by blast
  qed
qed

lemma commit_plan_tags:
  assumes "commit_plan now ds pl = Inr ds'"
  defines "i \<equiv> sc_secret_id (sp_row pl)"
  shows "\<forall>x \<in> set (sp_tags pl). \<exists>c k. canonical_taxonomy_name x = Inr c \<and> tag_id_for_name x False = Inr k \<and> k \<in> set (tag_keys i ds')"
    "set (tag_keys i ds') = {k. \<exists>x \<in> set (sp_tags pl). tag_id_for_name x False = Inr k}" "distinct (tag_keys i ds')"
    "\<forall>k \<in> set (tag_keys i ds'). t_has tg_tag_id k (ds_tags ds')"
    "\<forall>q \<in> set (ds_tags ds'). q \<in> set (ds_tags ds) \<or> (\<exists>x \<in> set (sp_tags pl). canonical_taxonomy_name x = Inr (tg_name q) \<and>
      tag_id_for_name x False = Inr (tg_tag_id q))"
proof -
  from assms(1) obtain a d where sync: "sync_secret_tags now a i (sp_tags pl) False = Inr d" and tabs: "ds_tags a = ds_tags ds"
    "ds_tags ds' = ds_tags d" "ds_tag_assignments ds' = ds_tag_assignments d"
    unfolding commit_plan_iff Let_def i_def by (auto simp: write_custom_metadata_def write_domains_def)
  let ?a = "a\<lparr>ds_tag_assignments := filter (\<lambda>r. si_secret_id r \<noteq> i) (ds_tag_assignments a)\<rparr>"
  have no: "tag_keys i ?a = []" "tag_keys i ds' = tag_keys i d" "ds_tags ?a = ds_tags ds" by (simp_all add: tag_keys_def tabs)
  note r = sync_tag_loop_keys [OF sync [unfolded sync_secret_tags_def], unfolded no(1,3), folded no(2) tabs(2)]
  then show x: "\<forall>x \<in> set (sp_tags pl). \<exists>c k. canonical_taxonomy_name x = Inr c \<and> tag_id_for_name x False = Inr k \<and> k \<in> set (tag_keys i ds')"
    by (simp only: list.set empty_iff simp_thms) blast
  show keys: "set (tag_keys i ds') = {k. \<exists>x \<in> set (sp_tags pl). tag_id_for_name x False = Inr k}"
    using r x by (simp only: list.set Un_empty_left) fastforce
  show "distinct (tag_keys i ds')" "\<forall>q \<in> set (ds_tags ds'). q \<in> set (ds_tags ds) \<or> (\<exists>x \<in> set (sp_tags pl). canonical_taxonomy_name x = Inr (tg_name q) \<and>
      tag_id_for_name x False = Inr (tg_tag_id q))" using r by simp_all
  show "\<forall>k \<in> set (tag_keys i ds'). t_has tg_tag_id k (ds_tags ds')"
    unfolding keys using r by (simp only: list.set empty_iff simp_thms) fastforce
qed

text \<open>The plan of either projection, with the readings of its payload.\<close>

lemma plan_projected:
  assumes "plan_secret h t (text_member (tx_payload t) ''secret_id'' []) (text_member (tx_payload t) ''entry_type'' [])
      (text_member (tx_payload t) ''entry_kind'' []) (bytes_member (tx_payload t) ''encrypted_name_b64'')
      (bytes_member (tx_payload t) ''encrypted_payload_b64'') mode st c u = Inr pl"
  shows "\<exists>name ids. decode_storage_text h (bytes_member (tx_payload t) ''encrypted_name_b64'') ''encrypted_name'' mode = Inr name \<and>
    entry_type_id_for_name (text_member (tx_payload t) ''entry_type'' []) False = Inr (fst ids) \<and>
    entry_kind_id_for_name (text_member (tx_payload t) ''entry_kind'' []) False = Inr (snd ids) \<and>
    sp_row pl = projected_row (tx_payload t) st name ids (if truthy c then the c else or_empty (tx_created_at t))
      (if truthy u then the u else or_empty (tx_created_at t))"
    "sp_domains pl = texts_member (tx_payload t) ''domains''" "sp_custom pl = custom_member (tx_payload t)"
    "sp_tags pl = texts_member (tx_payload t) ''tags''"
proof -
  let ?p = "tx_payload t"
  have stamp: "(if truthy x then Inr (the x) else created_at_or_fail t) = Inr y \<Longrightarrow> y = (if truthy x then the x else or_empty (tx_created_at t))" for x y
    by (auto simp: created_at_or_fail_def or_empty_def split: if_split_asm option.split_asm)
  from assms obtain domains custom ti ki ca ua row tags where s:
    "pj_text_list ?p ''domains'' = Inr domains" "pj_custom_metadata ?p = Inr custom"
    "entry_type_id_for_name (text_member ?p ''entry_type'' []) False = Inr ti"
    "entry_kind_id_for_name (text_member ?p ''entry_kind'' []) False = Inr ki"
    "(if truthy c then Inr (the c) else created_at_or_fail t) = Inr ca" "(if truthy u then Inr (the u) else created_at_or_fail t) = Inr ua"
    "secret_values h ?p (text_member ?p ''secret_id'' []) (ti, ki) mode (bytes_member ?p ''encrypted_name_b64'')
      (bytes_member ?p ''encrypted_payload_b64'') st ca ua = Inr row" "tags_from_payload ?p = Inr tags"
    "pl = \<lparr>sp_row = row, sp_entry_type = text_member ?p ''entry_type'' [], sp_entry_kind = text_member ?p ''entry_kind'' [],
      sp_domains = domains, sp_custom = custom, sp_tags = tags\<rparr>"
    unfolding plan_secret_def Let_def by (elim rbind_InrE) auto
  have "decode_storage_text h (bytes_member ?p ''encrypted_name_b64'') ''encrypted_name'' mode = Inr (sc_name row)"
    using secret_values_fields(5) [OF s(7)] by (auto simp: projection_name_def rbind_Inr_iff split: if_split_asm)
  then show "\<exists>name ids. decode_storage_text h (bytes_member ?p ''encrypted_name_b64'') ''encrypted_name'' mode = Inr name \<and>
    entry_type_id_for_name (text_member ?p ''entry_type'' []) False = Inr (fst ids) \<and>
    entry_kind_id_for_name (text_member ?p ''entry_kind'' []) False = Inr (snd ids) \<and>
    sp_row pl = projected_row ?p st name ids (if truthy c then the c else or_empty (tx_created_at t))
      (if truthy u then the u else or_empty (tx_created_at t))"
    using s(3,4,9) secret_values_projected [OF s(7)] stamp [OF s(5)] stamp [OF s(6)]
    by (intro exI [of _ "sc_name row"] exI [of _ "(ti, ki)"]) simp
  show "sp_domains pl = texts_member ?p ''domains''" "sp_custom pl = custom_member ?p" "sp_tags pl = texts_member ?p ''tags''"
    using text_list_member [OF s(1)] custom_metadata_member [OF s(2)] tags_member [OF s(8)] by (simp_all add: s(9))
qed

lemma secret_projection_reads:
  assumes "apply_secret_set_projection h ds t = Inr ds' \<and> st = ''active'' \<or>
    apply_secret_delete_projection h ds t = Inr ds' \<and> st = ''deleted''"
  obtains pl mode name ids where "commit_plan (h_now h) ds pl = Inr ds'" "read_sqlite_storage_mode ds = Inr mode"
    "decode_storage_text h (bytes_member (tx_payload t) ''encrypted_name_b64'') ''encrypted_name'' mode = Inr name"
    "entry_type_id_for_name (text_member (tx_payload t) ''entry_type'' []) False = Inr (fst ids)"
    "entry_kind_id_for_name (text_member (tx_payload t) ''entry_kind'' []) False = Inr (snd ids)"
    "sp_row pl = projected_row (tx_payload t) st name ids
      (if st = ''active'' then text_member (tx_payload t) ''projection_created_at'' (or_empty (tx_created_at t)) else or_empty (tx_created_at t))
      (text_member (tx_payload t) ''projection_updated_at'' (or_empty (tx_created_at t)))"
    "sp_domains pl = texts_member (tx_payload t) ''domains''" "sp_custom pl = custom_member (tx_payload t)"
    "sp_tags pl = texts_member (tx_payload t) ''tags''"
proof -
  let ?p = "tx_payload t"
  have stamp: "(if truthy (opt_member ?p f) then the (opt_member ?p f) else d) = text_member ?p f d" for f d
    using or_default_member [of ?p f d] by (simp add: or_default_def)
  have none: "truthy None = False" by (simp add: truthy_def)
  have cr: "(if truthy (if st = ''active'' then opt_member ?p f else None) then the (if st = ''active'' then opt_member ?p f else None) else d) =
      (if st = ''active'' then text_member ?p f d else d)" for f d by (cases "st = ''active''") (simp_all only: stamp if_True if_False simp_thms none)
  obtain mode pl where m: "read_sqlite_storage_mode ds = Inr mode" "commit_plan (h_now h) ds pl = Inr ds'"
    "st = ''active'' \<and> set_plan h mode t = Inr pl \<or> st = ''deleted'' \<and> delete_plan h mode t = Inr pl"
    using assms by (auto simp: apply_secret_set_iff apply_secret_delete_iff)
  from m(3) have "plan_secret h t (text_member ?p ''secret_id'' []) (text_member ?p ''entry_type'' []) (text_member ?p ''entry_kind'' [])
      (bytes_member ?p ''encrypted_name_b64'') (bytes_member ?p ''encrypted_payload_b64'') mode st
      (if st = ''active'' then opt_member ?p ''projection_created_at'' else None) (opt_member ?p ''projection_updated_at'') = Inr pl"
  proof (elim disjE conjE)
    assume "st = ''active''" "set_plan h mode t = Inr pl"
    then show ?thesis unfolding set_plan_def Let_def
      by (elim rbind_InrE) (auto dest!: optional_text_member required_text_member required_identifier_member required_b64_member)
  next
    assume "st = ''deleted''" "delete_plan h mode t = Inr pl"
    then show ?thesis unfolding delete_plan_def Let_def
      by (elim rbind_InrE) (auto dest!: optional_text_member required_text_member required_identifier_member required_b64_member optional_b64_member)
  qed
  note r = plan_projected [OF this]
  from r(1) obtain name ids where "decode_storage_text h (bytes_member ?p ''encrypted_name_b64'') ''encrypted_name'' mode = Inr name"
    "entry_type_id_for_name (text_member ?p ''entry_type'' []) False = Inr (fst ids)"
    "entry_kind_id_for_name (text_member ?p ''entry_kind'' []) False = Inr (snd ids)"
    "sp_row pl = projected_row ?p st name ids
      (if st = ''active'' then text_member ?p ''projection_created_at'' (or_empty (tx_created_at t)) else or_empty (tx_created_at t))
      (text_member ?p ''projection_updated_at'' (or_empty (tx_created_at t)))"
    unfolding stamp cr by blast
  with m(1,2) r(2-4) show thesis by (intro that)
qed

lemma secret_upsert_other: "filter (\<lambda>q. sc_secret_id q \<noteq> sc_secret_id r) (secret_upsert r t) = filter (\<lambda>q. sc_secret_id q \<noteq> sc_secret_id r) t"
proof -
  have "filter (\<lambda>q. sc_secret_id q \<noteq> sc_secret_id r) (t_update sc_secret_id (sc_secret_id r)
      (\<lambda>q. if sc_secret_id q = sc_secret_id r then r\<lparr>sc_created_at := sc_created_at q\<rparr> else q) t) = filter (\<lambda>q. sc_secret_id q \<noteq> sc_secret_id r) t"
    unfolding t_update_def by (induction t) auto
  then show ?thesis by (simp add: secret_upsert_def t_upsert_def)
qed

lemma keyed_filter_get:
  assumes "t_keyed key t" "t_get key k t = Some r"
  shows "filter (\<lambda>q. key q = k) t = [r]"
proof -
  from t_get_SomeD [OF assms(2)] have r: "r \<in> set t" "key r = k" by simp_all
  have "filter (\<lambda>q. key q = k) t = filter (\<lambda>q. q = r) t"
    using assms(1) r by (intro filter_cong) (auto simp: t_keyed_def distinct_map dest: inj_onD)
  moreover have "distinct t" using assms(1) by (simp add: t_keyed_def distinct_map)
  then have "filter (\<lambda>q. q = r) t = [r]" using r(1) by (induction t) (auto simp: filter_empty_conv)
  ultimately show ?thesis by simp
qed

subsection \<open>Properties\<close>

text \<open>C29. A secret transaction that is applied leaves exactly one row of its secret, with every column determined by the payload:
  identifiers, owner, service group, schema, service, account, source and its URL and label, comment, rotation and expiry fields,
  hashes and sealed columns as they stand in the payload (absent or empty texts replaced by their defaults), the vocabulary
  identifiers of its type and kind, the decrypted name, the state \<open>active\<close> (set) or \<open>deleted\<close> (delete), the update time of the
  payload or of the transaction, and the creation time of an earlier row if there is one. The row refers to existing owner,
  service group and vocabulary rows. The secret is assigned the tags of the payload once each, has the domains of the payload in
  order and its custom fields as canonical texts; every other secret keeps its row, tags, domains and custom metadata; the
  vocabulary tables only grow and no other table changes.\<close>

theorem secret_projection_effect:
  assumes "apply_secret_set_projection h ds t = Inr ds' \<and> st = ''active'' \<or>
    apply_secret_delete_projection h ds t = Inr ds' \<and> st = ''deleted''"
  shows "\<exists>name ids mode. let p = tx_payload t; i = text_member p ''secret_id'' []; now = or_empty (tx_created_at t);
      at = text_member p ''projection_updated_at'' now;
      created = (case t_get sc_secret_id i (ds_secrets ds) of Some old \<Rightarrow> sc_created_at old
        | None \<Rightarrow> if st = ''active'' then text_member p ''projection_created_at'' now else now);
      row = projected_row p st name ids created at in
    read_sqlite_storage_mode ds = Inr mode \<and>
    decode_storage_text h (bytes_member p ''encrypted_name_b64'') ''encrypted_name'' mode = Inr name \<and>
    entry_type_id_for_name (text_member p ''entry_type'' []) False = Inr (fst ids) \<and>
    entry_kind_id_for_name (text_member p ''entry_kind'' []) False = Inr (snd ids) \<and>
    t_get sc_secret_id i (ds_secrets ds') = Some row \<and>
    (t_keyed sc_secret_id (ds_secrets ds) \<longrightarrow> filter (\<lambda>r. sc_secret_id r = i) (ds_secrets ds') = [row]) \<and>
    filter (\<lambda>r. sc_secret_id r \<noteq> i) (ds_secrets ds') = filter (\<lambda>r. sc_secret_id r \<noteq> i) (ds_secrets ds) \<and> secret_fk_ok ds' row \<and>
    distinct (tag_keys i ds') \<and> set (tag_keys i ds') = {k. \<exists>x \<in> set (texts_member p ''tags''). tag_id_for_name x False = Inr k} \<and>
    filter (\<lambda>r. si_secret_id r = i) (ds_domains ds') = map (\<lambda>d. \<lparr>si_secret_id = i, si_key = d, si_value = [], si_created_at = at\<rparr>)
      (sorted_list_of_set (set (texts_member p ''domains''))) \<and>
    filter (\<lambda>r. si_secret_id r = i) (ds_custom ds') = map (\<lambda>(k, v). \<lparr>si_secret_id = i, si_key = k, si_value = canonical_json_text v,
      si_created_at = at\<rparr>) (sort_key fst (custom_member p)) \<and>
    (\<forall>table \<in> {ds_tag_assignments, ds_domains, ds_custom}.
       filter (\<lambda>r. si_secret_id r \<noteq> i) (table ds') = filter (\<lambda>r. si_secret_id r \<noteq> i) (table ds)) \<and>
    prefix (ds_entry_types ds) (ds_entry_types ds') \<and> prefix (ds_entry_kinds ds) (ds_entry_kinds ds') \<and>
    prefix (ds_tags ds) (ds_tags ds') \<and>
    ds' = ds\<lparr>ds_entry_types := ds_entry_types ds', ds_entry_kinds := ds_entry_kinds ds', ds_tags := ds_tags ds',
      ds_secrets := ds_secrets ds', ds_tag_assignments := ds_tag_assignments ds', ds_domains := ds_domains ds', ds_custom := ds_custom ds'\<rparr>"
proof -
  let ?p = "tx_payload t" let ?i = "text_member ?p ''secret_id'' []" and ?now = "or_empty (tx_created_at t)"
  let ?at = "text_member ?p ''projection_updated_at'' ?now"
  let ?cr = "if st = ''active'' then text_member ?p ''projection_created_at'' ?now else ?now"
  obtain pl mode name ids where c: "commit_plan (h_now h) ds pl = Inr ds'" "read_sqlite_storage_mode ds = Inr mode"
    "decode_storage_text h (bytes_member ?p ''encrypted_name_b64'') ''encrypted_name'' mode = Inr name"
    "entry_type_id_for_name (text_member ?p ''entry_type'' []) False = Inr (fst ids)"
    "entry_kind_id_for_name (text_member ?p ''entry_kind'' []) False = Inr (snd ids)"
    and pl: "sp_row pl = projected_row ?p st name ids ?cr ?at"
    "sp_domains pl = texts_member ?p ''domains''" "sp_custom pl = custom_member ?p" "sp_tags pl = texts_member ?p ''tags''"
    by (rule secret_projection_reads [OF assms])
  note eff = commit_plan_effect [OF c(1)] and tg = commit_plan_tags [OF c(1)]
  define row where "row = projected_row ?p st name ids (case t_get sc_secret_id ?i (ds_secrets ds) of Some old \<Rightarrow> sc_created_at old | None \<Rightarrow> ?cr) ?at"
  have i: "sc_secret_id (sp_row pl) = ?i" "sc_updated_at (sp_row pl) = ?at" by (simp_all add: pl(1) projected_row_def)
  have get: "t_get sc_secret_id ?i (ds_secrets ds') = Some row"
    by (simp add: eff(1) secret_upsert_get i row_def pl(1) projected_row_def split: option.split)
  have one: "filter (\<lambda>r. sc_secret_id r = ?i) (ds_secrets ds') = [row]" if "t_keyed sc_secret_id (ds_secrets ds)"
    by (rule keyed_filter_get [OF _ get]) (simp add: eff(1) secret_upsert_keyed that)
  have others: "filter (\<lambda>r. sc_secret_id r \<noteq> ?i) (ds_secrets ds') = filter (\<lambda>r. sc_secret_id r \<noteq> ?i) (ds_secrets ds)"
    using secret_upsert_other [of "sp_row pl"] by (simp add: eff(1) i)
  have fk: "secret_fk_ok ds' row" using eff(8) by (simp add: secret_fk_ok_def row_def pl(1) projected_row_def)
  have items: "filter (\<lambda>r. si_secret_id r \<noteq> ?i) (table ds') = filter (\<lambda>r. si_secret_id r \<noteq> ?i) (table ds)"
    if "table \<in> {ds_tag_assignments, ds_domains, ds_custom}" for table
    using that eff(2) by (auto simp: i eff(3,4) write_domains_def write_custom_metadata_def filter_map o_def case_prod_beta)
  have domains: "filter (\<lambda>r. si_secret_id r = ?i) (ds_domains ds') = map (\<lambda>d. \<lparr>si_secret_id = ?i, si_key = d, si_value = [], si_created_at = ?at\<rparr>)
      (sorted_list_of_set (set (texts_member ?p ''domains'')))"
    by (simp add: eff(3) i pl(2) write_domains_def filter_map o_def)
  have custom: "filter (\<lambda>r. si_secret_id r = ?i) (ds_custom ds') = map (\<lambda>(k, v). \<lparr>si_secret_id = ?i, si_key = k, si_value = canonical_json_text v,
      si_created_at = ?at\<rparr>) (sort_key fst (custom_member ?p))"
    by (simp add: eff(4) i pl(3) write_custom_metadata_def filter_map o_def case_prod_beta)
  have grow: "prefix (ds_entry_types ds) (ds_entry_types ds')" "prefix (ds_entry_kinds ds) (ds_entry_kinds ds')"
    by (simp_all add: eff(5,6) prefix_ensure_vocabulary)
  show ?thesis
    unfolding Let_def
    by (rule exI [of _ name], rule exI [of _ ids], rule exI [of _ mode], fold row_def)
      (intro conjI impI ballI c(2-5) get one others fk tg(3) [unfolded i] tg(2) [unfolded i pl(4)] domains custom items grow eff(7,10); assumption)
qed

theorem secret_projection_effect_witness:
  "\<exists>ds'. apply_secret_set_projection example_host example_secrets_datastore example_set = Inr ds' \<and>
    map (\<lambda>r. (sc_secret_id r, sc_name r, sc_service r, sc_source r, sc_encrypted_payload r, sc_state r)) (ds_secrets ds') =
      [(format_identifier Secret 4, ''API'', ''svc'', ''manual'', ''s3cr3t'', ''active'')] \<and>
    ds_transactions ds' = ds_transactions example_secrets_datastore"
  using secret_projection_effect [of example_host example_secrets_datastore example_set example_set_result "''active''"]
    example_set_applied by (auto simp: Let_def example_set_result_def example_plan_def)

lemma plan_clock:
  "set_plan (h\<lparr>h_now := later\<rparr>) mode t = set_plan h mode t" "delete_plan (h\<lparr>h_now := later\<rparr>) mode t = delete_plan h mode t"
  by (simp_all add: set_plan_def delete_plan_def plan_secret_def secret_values_def projection_name_def decode_storage_text_def cong: if_cong)

lemma commit_plan_later:
  assumes "commit_plan now ds pl = Inr ds'"
  shows "commit_plan later ds' pl = Inr (ds'\<lparr>ds_tag_assignments :=
    map (\<lambda>r. if si_secret_id r = sc_secret_id (sp_row pl) then r\<lparr>si_created_at := later\<rparr> else r) (ds_tag_assignments ds')\<rparr>)"
proof -
  define row where "row = sp_row pl"
  define i where "i = sc_secret_id row"
  define g where "g r = (if si_secret_id r = i then later else si_created_at r)" for r :: secret_item_row
  note eff = commit_plan_effect [OF assms, folded row_def, folded i_def]
  have u: "\<forall>q \<in> set (ds_secrets ds'). sc_locator_hash q = sc_locator_hash row \<longrightarrow> sc_secret_id q = i"
    using eff(9) by (auto simp: eff(1) i_def dest!: secret_upsert_rows)
  have asg: "filter (\<lambda>r. si_secret_id r \<noteq> i) (ds_tag_assignments ds') =
      map (restamp g) (filter (\<lambda>r. si_secret_id r \<noteq> i) (ds_tag_assignments ds))"
    unfolding eff(2) by (rule map_idI [symmetric]) (auto simp: restamp_def g_def)
  have "commit_plan later ds' (pl\<lparr>sp_custom := sp_custom pl\<rparr>) =
    Inr (ds'\<lparr>ds_secrets := secret_upsert row (ds_secrets ds'),
           ds_tag_assignments := map (restamp g) (ds_tag_assignments ds'),
           ds_domains := ds_domains (write_domains ds' i (sp_domains pl) (sc_updated_at row)),
           ds_custom := ds_custom (write_custom_metadata ds' i (sp_custom pl) (sc_updated_at row))\<rparr>)"
    by (rule commit_plan_rerun [OF assms row_def i_def u eff(8) _ asg]) (simp_all add: g_def)
  moreover have "secret_upsert row (ds_secrets ds') = ds_secrets ds'" by (simp add: eff(1) secret_upsert_idem)
  moreover have "ds_domains (write_domains ds' i (sp_domains pl) (sc_updated_at row)) = ds_domains ds'"
    "ds_custom (write_custom_metadata ds' i (sp_custom pl) (sc_updated_at row)) = ds_custom ds'"
    using write_items_again eff(3,4) by (simp_all add: write_domains_def write_custom_metadata_def)
  moreover have "restamp g = (\<lambda>r. if si_secret_id r = i then r\<lparr>si_created_at := later\<rparr> else r)"
    by (rule ext) (simp add: restamp_def g_def)
  ultimately show ?thesis by (simp add: i_def row_def)
qed

text \<open>C30. Applying a secret transaction again, on any later clock, succeeds and changes at most one thing: the assignments of the
  secret's own tags get the time of the second application, since the tags are removed and assigned anew. With the same clock
  nothing changes. So a replica that receives a transaction twice, or replays one it has already materialised, keeps every
  secret, tag, domain and custom field.\<close>

theorem secret_projection_idempotent:
  "(apply_secret_set_projection h ds t = Inr ds' \<longrightarrow> apply_secret_set_projection (h\<lparr>h_now := later\<rparr>) ds' t =
     Inr (ds'\<lparr>ds_tag_assignments := map (\<lambda>r. if si_secret_id r = text_member (tx_payload t) ''secret_id'' [] then r\<lparr>si_created_at := later\<rparr> else r)
       (ds_tag_assignments ds')\<rparr>)) \<and>
   (apply_secret_delete_projection h ds t = Inr ds' \<longrightarrow> apply_secret_delete_projection (h\<lparr>h_now := later\<rparr>) ds' t =
     Inr (ds'\<lparr>ds_tag_assignments := map (\<lambda>r. if si_secret_id r = text_member (tx_payload t) ''secret_id'' [] then r\<lparr>si_created_at := later\<rparr> else r)
       (ds_tag_assignments ds')\<rparr>)) \<and>
   (apply_secret_set_projection h ds t = Inr ds' \<longrightarrow> apply_secret_set_projection h ds' t = Inr ds') \<and>
   (apply_secret_delete_projection h ds t = Inr ds' \<longrightarrow> apply_secret_delete_projection h ds' t = Inr ds')"
proof -
  have i: "sc_secret_id (sp_row pl) = text_member (tx_payload t) ''secret_id'' []" if "set_plan h mode t = Inr pl \<or> delete_plan h mode t = Inr pl" for mode pl
    using that by (elim disjE) (drule set_plan_fields(1) delete_plan_fields(1), erule required_identifier_member)+
  let ?d = "ds'\<lparr>ds_tag_assignments := map (\<lambda>r. if si_secret_id r = text_member (tx_payload t) ''secret_id'' [] then r\<lparr>si_created_at := later\<rparr> else r)
       (ds_tag_assignments ds')\<rparr>"
  have again: "read_sqlite_storage_mode ds' = Inr mode \<and> commit_plan later ds' pl = Inr ?d \<and> commit_plan (h_now h) ds' pl = Inr ds'"
    if "set_plan h mode t = Inr pl \<or> delete_plan h mode t = Inr pl" "commit_plan (h_now h) ds pl = Inr ds'" "read_sqlite_storage_mode ds = Inr mode" for mode pl
    using i [OF that(1)] commit_plan_later [OF that(2), of later] commit_plan_idem [OF that(2)] commit_plan_mode [OF that(2)] that(3) by simp
  show ?thesis
    unfolding apply_secret_set_iff apply_secret_delete_iff plan_clock host.select_convs host.update_convs
  proof (intro conjI impI; elim exE conjE)
    fix mode pl assume m: "read_sqlite_storage_mode ds = Inr mode" "commit_plan (h_now h) ds pl = Inr ds'"
    {
      assume p: "set_plan h mode t = Inr pl"
      note r = again [OF disjI1 [OF p] m(2,1)]
      show "\<exists>mode pl. read_sqlite_storage_mode ds' = Inr mode \<and> set_plan h mode t = Inr pl \<and> commit_plan (h_now (h\<lparr>h_now := later\<rparr>)) ds' pl = Inr ?d"
        "\<exists>mode pl. read_sqlite_storage_mode ds' = Inr mode \<and> set_plan h mode t = Inr pl \<and> commit_plan (h_now h) ds' pl = Inr ds'"
        using r p by auto
    next
      assume p: "delete_plan h mode t = Inr pl"
      note r = again [OF disjI2 [OF p] m(2,1)]
      show "\<exists>mode pl. read_sqlite_storage_mode ds' = Inr mode \<and> delete_plan h mode t = Inr pl \<and> commit_plan (h_now (h\<lparr>h_now := later\<rparr>)) ds' pl = Inr ?d"
        "\<exists>mode pl. read_sqlite_storage_mode ds' = Inr mode \<and> delete_plan h mode t = Inr pl \<and> commit_plan (h_now h) ds' pl = Inr ds'"
        using r p by auto
    }
  qed
qed

theorem secret_projection_idempotent_witness:
  "apply_secret_set_projection (example_host\<lparr>h_now := ''2026-02-03T00:00:00Z''\<rparr>) example_set_result example_set =
     Inr (example_set_result\<lparr>ds_tag_assignments := [\<lparr>si_secret_id = format_identifier Secret 4, si_key = example_tag_id, si_value = [],
       si_created_at = ''2026-02-03T00:00:00Z''\<rparr>]\<rparr>) \<and>
   apply_secret_set_projection example_host example_set_result example_set = Inr example_set_result"
proof -
  have "text_member (tx_payload example_set) ''secret_id'' [] = format_identifier Secret 4"
    using is_identifier_not_Nil [OF is_identifier_format, of Secret 4]
    by (simp add: text_member_def opt_member_def example_set_def example_transaction_def example_secret_payload_def)
  with secret_projection_idempotent [of example_host example_secrets_datastore example_set example_set_result "''2026-02-03T00:00:00Z''"]
  show ?thesis using example_set_applied by (simp add: example_set_result_def)
qed

end
