(* ===== verification/Kit_Peers.thy ===== *)
theory Kit_Peers
  imports Kit_Projections
begin

section \<open>Peers: registry, local node, endpoints and admission\<close>

text \<open>
  The peer side of the SQLite backend: \<open>local_node.py\<close> (the singleton local node),
  \<open>peer_registry.py\<close> (the read model and the eligibility checks every synchronisation path asks),
  \<open>peer_endpoint_auth.py\<close> and \<open>peer_endpoint_projection.py\<close> (the endpoint life cycle),
  \<open>peer_admission_auth.py\<close> (the proofs, up to the Ed25519 verification that is a field of \<open>host\<close>)
  and \<open>peer_admission_projection.py\<close> (the admission state machine). The lemmas: admission moves
  only from requested to active or rejected and from active to revoked; a node has at most one
  active endpoint, which is its service address; both eligibility functions agree.
\<close>

subsection \<open>The local node (\<open>local_node.py\<close>)\<close>

record KeyMaterial =
  km_public_key :: bytes
  km_algorithm :: string
  km_created_at :: string

record NodeIdentity =
  ni_node_id :: string
  ni_signing :: KeyMaterial
  ni_encryption :: KeyMaterial

record LocalNodeProjection =
  ln_node_id :: string
  ln_peer_group_id :: string
  ln_signing_public_key :: bytes
  ln_encryption_public_key :: bytes
  ln_state :: string
  ln_created_at :: string
  ln_updated_at :: string

text \<open>\<open>str(v)\<close> of a nullable text column, and \<open>bytes(v)\<close> of a nullable blob.\<close>

definition str_of :: "string option \<Rightarrow> string" where
  "str_of v = (case v of None \<Rightarrow> ''None'' | Some s \<Rightarrow> s)"

definition bytes_of :: "bytes option \<Rightarrow> bytes res" where
  "bytes_of v = (case v of None \<Rightarrow> Inl (TypeError ''cannot convert 'NoneType' object to bytes'') | Some b \<Rightarrow> Inr b)"

definition existing_node_created_at :: "datastore \<Rightarrow> string \<Rightarrow> string" where
  "existing_node_created_at ds node_id =
     (case t_get nd_node_id node_id (ds_nodes ds) of None \<Rightarrow> [] | Some r \<Rightarrow> str_of (nd_created_at r))"

definition validate_reference :: "string \<Rightarrow> string \<Rightarrow> unit res" where
  "validate_reference v field = rguard (v \<noteq> []) (ValueError (field @ '' is required''))"

text \<open>The CHECK constraints of \<open>nodes\<close>; NULL satisfies them.\<close>

definition node_checks :: "node_row \<Rightarrow> bool" where
  "node_checks r \<longleftrightarrow>
     (case nd_signing_public_key r of None \<Rightarrow> True | Some k \<Rightarrow> length k = 32) \<and>
     (case nd_signing_algorithm r of None \<Rightarrow> True | Some a \<Rightarrow> a = ''ed25519'') \<and>
     (case nd_encryption_public_key r of None \<Rightarrow> True | Some k \<Rightarrow> length k = 32) \<and>
     (case nd_encryption_algorithm r of None \<Rightarrow> True | Some a \<Rightarrow> a = ''x25519'') \<and>
     nd_authorization_mode r \<in> {''none'', ''allow_list'', ''all''}"

definition check_failed :: "string \<Rightarrow> py_error" where
  "check_failed t = IntegrityError (''CHECK constraint failed: '' @ t)"

definition blank_node :: "string \<Rightarrow> string \<Rightarrow> node_row" where
  "blank_node node_id peer_group_id =
     \<lparr>nd_node_id = node_id, nd_peer_group_id = peer_group_id, nd_signing_public_key = None,
      nd_signing_algorithm = None, nd_encryption_public_key = None, nd_encryption_algorithm = None,
      nd_authorization_mode = ''none'', nd_service_address = None, nd_operator_description = None,
      nd_last_seen_at = None, nd_state = None, nd_created_at = None, nd_updated_at = None,
      nd_operator_comment = None\<rparr>"

text \<open>
  The private-key references live in \<open>node_private\<close>, of which the model keeps the node identifiers.
\<close>

definition save_local_node_projection ::
  "datastore \<Rightarrow> NodeIdentity \<Rightarrow> string \<Rightarrow> string \<Rightarrow> datastore res" where
  "save_local_node_projection ds identity signing_ref encryption_ref =
     (let n = ni_node_id identity; s = ni_signing identity; e = ni_encryption identity in
     rbind (validate_identifier n Node ''node_id'') (\<lambda>_.
     rbind (local_peer_group_id_for_node n) (\<lambda>peer_group_id.
     rbind (validate_identifier peer_group_id Peer_group ''peer_group_id'') (\<lambda>_.
     rbind (validate_reference signing_ref ''signing_private_key_reference'') (\<lambda>_.
     rbind (validate_reference encryption_ref ''encryption_private_key_reference'') (\<lambda>_.
     let existing = existing_node_created_at ds n;
         created_at = (if existing \<noteq> [] then existing else min (km_created_at s) (km_created_at e));
         updated_at = max (km_created_at s) (km_created_at e) in
     rbind (local_peer_group_display_name peer_group_id) (\<lambda>name.
     let row = (blank_node n peer_group_id)\<lparr>nd_signing_public_key := Some (km_public_key s),
           nd_signing_algorithm := Some (km_algorithm s), nd_encryption_public_key := Some (km_public_key e),
           nd_encryption_algorithm := Some (km_algorithm e), nd_state := Some ''active'',
           nd_created_at := Some created_at, nd_updated_at := Some updated_at\<rparr> in
     if \<not> node_checks row then Inl (check_failed ''nodes'')
     else Inr (ds\<lparr>ds_peer_groups := t_insert_ignore pg_peer_group_id
                    \<lparr>pg_peer_group_id = peer_group_id, pg_name = Some name\<rparr> (ds_peer_groups ds),
                  ds_nodes := t_upsert nd_node_id row
                    (\<lambda>q. q\<lparr>nd_peer_group_id := peer_group_id, nd_signing_public_key := Some (km_public_key s),
                       nd_signing_algorithm := Some (km_algorithm s),
                       nd_encryption_public_key := Some (km_public_key e),
                       nd_encryption_algorithm := Some (km_algorithm e), nd_state := Some ''active'',
                       nd_updated_at := Some updated_at\<rparr>) (ds_nodes ds),
                  ds_node_private := t_insert_ignore id n (filter (\<lambda>m. m = n) (ds_node_private ds))\<rparr>))))))))"

definition load_local_node_projection :: "datastore \<Rightarrow> LocalNodeProjection option res" where
  "load_local_node_projection ds =
     (case sort_key nd_node_id (filter (\<lambda>r. nd_node_id r \<in> set (ds_node_private ds)) (ds_nodes ds)) of
        [] \<Rightarrow> Inr None
      | r # _ \<Rightarrow>
          rbind (bytes_of (nd_signing_public_key r)) (\<lambda>signing.
          rbind (bytes_of (nd_encryption_public_key r)) (\<lambda>encryption.
            Inr (Some \<lparr>ln_node_id = nd_node_id r, ln_peer_group_id = nd_peer_group_id r,
                       ln_signing_public_key = signing, ln_encryption_public_key = encryption,
                       ln_state = str_of (nd_state r), ln_created_at = str_of (nd_created_at r),
                       ln_updated_at = str_of (nd_updated_at r)\<rparr>))))"

subsection \<open>The registry (\<open>peer_registry.py\<close>)\<close>

definition ADMISSION_STATE_REQUESTED :: string where
  "ADMISSION_STATE_REQUESTED = ''admission_requested''"

definition ADMISSION_STATE_ACTIVE :: string where
  "ADMISSION_STATE_ACTIVE = ''active''"

definition ADMISSION_STATE_REJECTED :: string where
  "ADMISSION_STATE_REJECTED = ''rejected''"

definition ADMISSION_STATE_REVOKED :: string where
  "ADMISSION_STATE_REVOKED = ''revoked''"

definition AUTHORIZATION_MODE_NONE :: string where
  "AUTHORIZATION_MODE_NONE = ''none''"

definition AUTHORIZATION_MODE_ALLOW_LIST :: string where
  "AUTHORIZATION_MODE_ALLOW_LIST = ''allow_list''"

definition AUTHORIZATION_MODE_ALL :: string where
  "AUTHORIZATION_MODE_ALL = ''all''"

definition AUTHORIZATION_MODES :: "string list" where
  "AUTHORIZATION_MODES = [AUTHORIZATION_MODE_NONE, AUTHORIZATION_MODE_ALLOW_LIST, AUTHORIZATION_MODE_ALL]"

record PeerRegistryEntry =
  pr_node_id :: string
  pr_admission_state :: string
  pr_authorization_state :: string
  pr_authorization_mode :: string
  pr_synchronization_eligible :: bool
  pr_display_name :: string
  pr_local_alias :: string
  pr_service_address :: string
  pr_endpoint :: string
  pr_endpoint_state :: string
  pr_endpoint_expires_at :: string
  pr_signing_algorithm :: string
  pr_signing_public_key :: string
  pr_signing_fingerprint :: string
  pr_encryption_algorithm :: string
  pr_encryption_public_key :: string
  pr_encryption_fingerprint :: string
  pr_service_group_ids :: "string list"
  pr_created_at :: string
  pr_updated_at :: string
  pr_operator_metadata :: string

definition authorization_state :: "string \<Rightarrow> string" where
  "authorization_state admission_state =
     (if admission_state = ADMISSION_STATE_ACTIVE then ''authorized'' else ''unauthorized'')"

definition registry_service_group_ids :: "datastore \<Rightarrow> string \<Rightarrow> string list" where
  "registry_service_group_ids ds node_id =
     sort (map sn_service_group_id
       (filter (\<lambda>r. sn_node_id r = node_id \<and> sn_state r = ''active'') (ds_service_group_nodes ds)))"

text \<open>\<open>ORDER BY ... LIMIT 1\<close>: the first row under a strict order, the earliest of equals.\<close>

definition first_by :: "('r \<Rightarrow> 'r \<Rightarrow> bool) \<Rightarrow> 'r list \<Rightarrow> 'r option" where
  "first_by before rows =
     fold (\<lambda>r best. case best of None \<Rightarrow> Some r | Some q \<Rightarrow> if before r q then Some r else Some q) rows None"

definition endpoint_recent :: "endpoint_row \<Rightarrow> endpoint_row \<Rightarrow> bool" where
  "endpoint_recent r q \<longleftrightarrow>
     ep_updated_at q < ep_updated_at r \<or> ep_updated_at r = ep_updated_at q \<and> ep_endpoint r < ep_endpoint q"

definition endpoint_rank :: "endpoint_row \<Rightarrow> nat" where
  "endpoint_rank r = (if ep_state r = ''active'' then 0 else if ep_state r = ''expired'' then 1 else 2)"

definition endpoint_before :: "endpoint_row \<Rightarrow> endpoint_row \<Rightarrow> bool" where
  "endpoint_before r q \<longleftrightarrow>
     endpoint_rank r < endpoint_rank q \<or> endpoint_rank r = endpoint_rank q \<and> endpoint_recent r q"

definition endpoint_metadata :: "datastore \<Rightarrow> string \<Rightarrow> string \<Rightarrow> string \<times> string \<times> string" where
  "endpoint_metadata ds node_id legacy_service_address =
     (case first_by endpoint_before (filter (\<lambda>r. ep_node_id r = node_id) (ds_peer_endpoints ds)) of
        None \<Rightarrow> (legacy_service_address, ''unknown'', [])
      | Some r \<Rightarrow> (if ep_state r = ''active'' then ep_endpoint r else [], ep_state r, or_empty (ep_expires_at r)))"

definition bytes_or_empty :: "bytes option \<Rightarrow> bytes" where
  "bytes_or_empty v = (case v of None \<Rightarrow> [] | Some b \<Rightarrow> b)"

definition fingerprint :: "bytes \<Rightarrow> string" where
  "fingerprint v = (if v = [] then [] else sha256_hex v)"

definition entry_from_row :: "datastore \<Rightarrow> node_row \<Rightarrow> PeerRegistryEntry res" where
  "entry_from_row ds row =
     (let signing_public_key = bytes_or_empty (nd_signing_public_key row);
          encryption_public_key = bytes_or_empty (nd_encryption_public_key row);
          admission_state = or_empty (nd_state row);
          authorization_mode = (if nd_authorization_mode row = [] then AUTHORIZATION_MODE_NONE
                                else nd_authorization_mode row) in
      if authorization_mode \<notin> set AUTHORIZATION_MODES
      then Inl (SQLiteValidationError ''peer authorization_mode is invalid: '')
      else
        let auth = authorization_state admission_state;
            (endpoint, endpoint_state, endpoint_expires_at) =
              endpoint_metadata ds (nd_node_id row) (or_empty (nd_service_address row)) in
        Inr \<lparr>pr_node_id = nd_node_id row, pr_admission_state = admission_state, pr_authorization_state = auth,
             pr_authorization_mode = authorization_mode,
             pr_synchronization_eligible = (admission_state = ADMISSION_STATE_ACTIVE \<and> auth = ''authorized''),
             pr_display_name = or_empty (nd_operator_description row), pr_local_alias = [],
             pr_service_address = endpoint, pr_endpoint = endpoint, pr_endpoint_state = endpoint_state,
             pr_endpoint_expires_at = endpoint_expires_at,
             pr_signing_algorithm = or_empty (nd_signing_algorithm row),
             pr_signing_public_key = (if signing_public_key = [] then [] else encode_b64url signing_public_key),
             pr_signing_fingerprint = fingerprint signing_public_key,
             pr_encryption_algorithm = or_empty (nd_encryption_algorithm row),
             pr_encryption_public_key =
               (if encryption_public_key = [] then [] else encode_b64url encryption_public_key),
             pr_encryption_fingerprint = fingerprint encryption_public_key,
             pr_service_group_ids = registry_service_group_ids ds (nd_node_id row),
             pr_created_at = or_empty (nd_created_at row), pr_updated_at = or_empty (nd_updated_at row),
             pr_operator_metadata = or_empty (nd_operator_comment row)\<rparr>)"

definition get_peer_registry_entry :: "datastore \<Rightarrow> string \<Rightarrow> PeerRegistryEntry option res" where
  "get_peer_registry_entry ds node_id =
     rbind (validate_identifier node_id Node ''node_id'') (\<lambda>_.
       if node_id \<in> set (ds_node_private ds) then Inr None
       else (case t_get nd_node_id node_id (ds_nodes ds) of
               None \<Rightarrow> Inr None
             | Some row \<Rightarrow> rbind (entry_from_row ds row) (\<lambda>e. Inr (Some e))))"

definition list_peer_registry_entries :: "datastore \<Rightarrow> PeerRegistryEntry list res" where
  "list_peer_registry_entries ds =
     rmapM (entry_from_row ds)
       (sort_key nd_node_id (filter (\<lambda>r. nd_node_id r \<notin> set (ds_node_private ds)) (ds_nodes ds)))"

definition is_peer_synchronization_eligible :: "datastore \<Rightarrow> string \<Rightarrow> string option \<Rightarrow> bool res" where
  "is_peer_synchronization_eligible ds node_id service_group_id =
     rbind (get_peer_registry_entry ds node_id) (\<lambda>entry.
       case entry of
         None \<Rightarrow> Inr False
       | Some e \<Rightarrow>
           if \<not> pr_synchronization_eligible e then Inr False
           else (case service_group_id of
                   None \<Rightarrow> Inr True
                 | Some g \<Rightarrow>
                     rbind (validate_identifier g Service_group ''service_group_id'') (\<lambda>_.
                       if pr_authorization_mode e = AUTHORIZATION_MODE_ALL then Inr True
                       else if pr_authorization_mode e = AUTHORIZATION_MODE_ALLOW_LIST
                       then Inr (g \<in> set (pr_service_group_ids e))
                       else Inr False)))"

definition require_peer_synchronization_eligible :: "datastore \<Rightarrow> string \<Rightarrow> string option \<Rightarrow> unit res" where
  "require_peer_synchronization_eligible ds node_id service_group_id =
     rbind (get_peer_registry_entry ds node_id) (\<lambda>entry.
       case entry of
         None \<Rightarrow> Inl (SQLiteValidationError ''unknown peer: '')
       | Some e \<Rightarrow>
           if \<not> pr_synchronization_eligible e
           then Inl (SQLiteValidationError ''peer synchronization not permitted: '')
           else (case service_group_id of
                   None \<Rightarrow> Inr ()
                 | Some g \<Rightarrow>
                     if pr_authorization_mode e = AUTHORIZATION_MODE_ALL then Inr ()
                     else if pr_authorization_mode e = AUTHORIZATION_MODE_ALLOW_LIST
                             \<and> g \<in> set (pr_service_group_ids e) then Inr ()
                     else if pr_authorization_mode e = AUTHORIZATION_MODE_ALLOW_LIST
                     then Inl (SQLiteValidationError ''peer is not authorized for service group: '')
                     else Inl (SQLiteValidationError ''peer has no service-group synchronization authorization: '')))"

subsection \<open>Endpoint transactions (\<open>peer_endpoint_auth.py\<close>, \<open>peer_endpoint_projection.py\<close>)\<close>

definition PEER_ENDPOINT_TRANSACTION_TYPES :: "string list" where
  "PEER_ENDPOINT_TRANSACTION_TYPES =
     [''peer.endpoint.register'', ''peer.endpoint.update'', ''peer.endpoint.replace'', ''peer.endpoint.expire'',
      ''peer.endpoint.remove'']"

text \<open>\<open>len\<close> counts code points, \<open>_CONTROL_CHARACTERS\<close> is \<open>[\x00-\x1f\x7f]\<close>.\<close>

definition text_length :: "string \<Rightarrow> nat" where
  "text_length s = length (filter (\<lambda>c. \<not> utf8_cont c) s)"

definition control_character :: "char \<Rightarrow> bool" where
  "control_character c \<longleftrightarrow> (of_char c :: nat) < 32 \<or> (of_char c :: nat) = 127"

definition validate_endpoint :: "json option \<Rightarrow> string \<Rightarrow> string res" where
  "validate_endpoint v field =
     (case v of
        Some (JStr s) \<Rightarrow>
          if s = [] then Inl (SQLiteValidationError (field @ '' is required''))
          else if 2048 < text_length s then Inl (SQLiteValidationError (field @ '' exceeds 2048 characters''))
          else if s \<noteq> strip s \<or> list_ex control_character s
          then Inl (SQLiteValidationError (field @ '' contains invalid whitespace or control characters''))
          else Inr s
      | _ \<Rightarrow> Inl (SQLiteValidationError (field @ '' is required'')))"

text \<open>\<open>validate_identifier\<close> of a payload value: anything but a string is required text.\<close>

definition validate_identifier_value :: "json option \<Rightarrow> IdentifierType \<Rightarrow> string \<Rightarrow> string res" where
  "validate_identifier_value v t field =
     (case v of
        Some (JStr s) \<Rightarrow> validate_identifier s t field
      | _ \<Rightarrow> Inl (IdentifierValidationError (field @ '' is required'')))"

definition endpoint_node_id :: "json_obj \<Rightarrow> string res" where
  "endpoint_node_id p =
     rmap_error sqlite_validation (validate_identifier_value (payload_get p ''node_id'') Node ''node_id'')"

definition verify_peer_endpoint_transaction :: "datastore \<Rightarrow> Transaction \<Rightarrow> unit res" where
  "verify_peer_endpoint_transaction ds t =
     (let p = tx_payload t; ty = tx_transaction_type t in
     rbind (rguard (ty \<in> set PEER_ENDPOINT_TRANSACTION_TYPES)
              (SQLiteValidationError ''unsupported peer endpoint transaction type: '')) (\<lambda>_.
     rbind (endpoint_node_id p) (\<lambda>node_id.
     rbind (rguard (tx_origin_node_id t = Some node_id)
              (SQLiteValidationError ''peer endpoint origin_node_id must match payload node_id: '')) (\<lambda>_.
     rbind (validate_endpoint (payload_get p ''endpoint'') ''endpoint'') (\<lambda>_.
     let previous = payload_get p ''previous_endpoint'' in
     rbind (rguard (\<not> (ty \<in> {''peer.endpoint.update'', ''peer.endpoint.replace''} \<and> previous = None))
              (SQLiteValidationError (ty @ '' requires previous_endpoint''))) (\<lambda>_.
     rbind (if previous = None then Inr [] else validate_endpoint previous ''previous_endpoint'') (\<lambda>_.
     rbind (case payload_get p ''expires_at'' of
              None \<Rightarrow> Inr ()
            | Some (JStr s) \<Rightarrow> rguard (s \<noteq> [])
                (SQLiteValidationError ''expires_at must be a non-empty ISO-8601 string when present'')
            | Some _ \<Rightarrow> Inl (SQLiteValidationError ''expires_at must be a non-empty ISO-8601 string when present'')) (\<lambda>_.
     rbind (load_local_node_projection ds) (\<lambda>local_node.
       if (case local_node of None \<Rightarrow> False | Some l \<Rightarrow> ln_node_id l = node_id) then Inr ()
       else rbind (get_peer_registry_entry ds node_id) (\<lambda>entry.
         rguard (case entry of None \<Rightarrow> False | Some e \<Rightarrow> pr_synchronization_eligible e)
           (SQLiteValidationError ''peer endpoint transaction requires an admitted, authorized peer: '')))))))))))"

definition ep_optional_text :: "json_obj \<Rightarrow> string \<Rightarrow> string option res" where
  "ep_optional_text p field =
     (case payload_get p field of
        None \<Rightarrow> Inr None
      | Some (JStr s) \<Rightarrow>
          if s = [] then Inl (SQLiteValidationError (field @ '' must be a non-empty string when present''))
          else Inr (Some s)
      | Some _ \<Rightarrow> Inl (SQLiteValidationError (field @ '' must be a non-empty string when present'')))"

definition not_null :: "string \<Rightarrow> string option \<Rightarrow> string res" where
  "not_null column v =
     (case v of None \<Rightarrow> Inl (IntegrityError (''NOT NULL constraint failed: '' @ column)) | Some s \<Rightarrow> Inr s)"

abbreviation endpoint_key :: "endpoint_row \<Rightarrow> string \<times> string" where
  "endpoint_key r \<equiv> (ep_node_id r, ep_endpoint r)"

definition upsert_endpoint ::
  "datastore \<Rightarrow> string \<Rightarrow> string \<Rightarrow> string \<Rightarrow> string option \<Rightarrow> string option \<Rightarrow> string option \<Rightarrow> string option
    \<Rightarrow> datastore res" where
  "upsert_endpoint ds node_id endpoint state created_at updated_at expires_at comment =
     rbind (not_null ''peer_endpoints.created_at'' created_at) (\<lambda>created.
     rbind (not_null ''peer_endpoints.updated_at'' updated_at) (\<lambda>updated.
       if \<not> t_has nd_node_id node_id (ds_nodes ds) then Inl fk_failed
       else Inr (ds\<lparr>ds_peer_endpoints := t_upsert endpoint_key
              \<lparr>ep_node_id = node_id, ep_endpoint = endpoint, ep_state = state, ep_created_at = created,
               ep_updated_at = updated, ep_expires_at = expires_at, ep_last_seen_at = updated_at,
               ep_operator_comment = comment\<rparr>
              (\<lambda>q. q\<lparr>ep_state := state, ep_updated_at := updated, ep_expires_at := expires_at,
                     ep_last_seen_at := updated_at,
                     ep_operator_comment := (case comment of None \<Rightarrow> ep_operator_comment q | Some c \<Rightarrow> Some c)\<rparr>)
              (ds_peer_endpoints ds)\<rparr>)))"

definition set_endpoint_state ::
  "datastore \<Rightarrow> string \<Rightarrow> string \<Rightarrow> string \<Rightarrow> string option \<Rightarrow> datastore res" where
  "set_endpoint_state ds node_id endpoint state now =
     (if \<not> t_has endpoint_key (node_id, endpoint) (ds_peer_endpoints ds)
      then Inl (SQLiteValidationError ''peer endpoint record not found: '')
      else rbind (not_null ''peer_endpoints.updated_at'' now) (\<lambda>at.
        Inr (ds\<lparr>ds_peer_endpoints := t_update endpoint_key (node_id, endpoint)
               (\<lambda>q. q\<lparr>ep_state := state, ep_updated_at := at, ep_last_seen_at := now\<rparr>) (ds_peer_endpoints ds)\<rparr>)))"

definition remove_active_endpoint :: "datastore \<Rightarrow> string \<Rightarrow> string \<Rightarrow> string option \<Rightarrow> datastore res" where
  "remove_active_endpoint ds node_id endpoint now =
     (case t_get endpoint_key (node_id, endpoint) (ds_peer_endpoints ds) of
        None \<Rightarrow> Inl (SQLiteValidationError ''peer endpoint replacement source is not active: '')
      | Some r \<Rightarrow>
          if ep_state r \<noteq> ''active''
          then Inl (SQLiteValidationError ''peer endpoint replacement source is not active: '')
          else set_endpoint_state ds node_id endpoint ''removed'' now)"

definition active_endpoints :: "datastore \<Rightarrow> string \<Rightarrow> endpoint_row list" where
  "active_endpoints ds node_id = filter (\<lambda>r. ep_node_id r = node_id \<and> ep_state r = ''active'') (ds_peer_endpoints ds)"

definition active_endpoint :: "string list \<Rightarrow> string res" where
  "active_endpoint active =
     (case active of
        [] \<Rightarrow> Inl (SQLiteValidationError ''peer endpoint update requires an active endpoint'')
      | e # _ \<Rightarrow> Inr e)"

definition require_active_endpoint :: "string list \<Rightarrow> string \<Rightarrow> unit res" where
  "require_active_endpoint active endpoint =
     rguard (endpoint \<in> set active) (SQLiteValidationError ''peer endpoint is not active: '')"

text \<open>\<open>value or other\<close> on a payload value.\<close>

fun json_truthy :: "json \<Rightarrow> bool" where
  "json_truthy JNull = False"
| "json_truthy (JBool b) = b"
| "json_truthy (JInt i) = (i \<noteq> 0)"
| "json_truthy (JStr s) = (s \<noteq> [])"
| "json_truthy (JList js) = (js \<noteq> [])"
| "json_truthy (JObj kvs) = (kvs \<noteq> [])"

text \<open>The branch of \<open>apply_peer_endpoint_transaction\<close> on the transaction type.\<close>

definition endpoint_transition :: "datastore \<Rightarrow> Transaction \<Rightarrow> string \<Rightarrow> string \<Rightarrow> datastore res" where
  "endpoint_transition ds t node_id endpoint =
     (let p = tx_payload t; ty = tx_transaction_type t; now = tx_created_at t;
          row = t_get endpoint_key (node_id, endpoint) (ds_peer_endpoints ds);
          active = sort (map ep_endpoint (active_endpoints ds node_id)) in
      if ty = ''peer.endpoint.register'' then
        rbind (rguard (active = [] \<or> endpoint \<in> set active)
                 (SQLiteValidationError ''peer already has a different active endpoint; use peer.endpoint.replace: '')) (\<lambda>_.
        rbind (ep_optional_text p ''expires_at'') (\<lambda>expires_at.
        rbind (ep_optional_text p ''operator_comment'') (\<lambda>comment.
          upsert_endpoint ds node_id endpoint ''active''
            (case row of Some r \<Rightarrow> Some (ep_created_at r) | None \<Rightarrow> now) now expires_at comment)))
      else if ty \<in> {''peer.endpoint.update'', ''peer.endpoint.replace''} then
        rbind (case payload_get p ''previous_endpoint'' of
                 Some v \<Rightarrow> if json_truthy v then Inr v else rbind (active_endpoint active) (\<lambda>e. Inr (JStr e))
               | None \<Rightarrow> rbind (active_endpoint active) (\<lambda>e. Inr (JStr e))) (\<lambda>v.
        rbind (validate_endpoint (Some v) ''previous_endpoint'') (\<lambda>previous.
        rbind (rguard (\<not> (previous = endpoint \<and> ty = ''peer.endpoint.replace''))
                 (SQLiteValidationError ''peer endpoint replacement must change endpoint'')) (\<lambda>_.
        rbind (remove_active_endpoint ds node_id previous now) (\<lambda>ds1.
        rbind (ep_optional_text p ''expires_at'') (\<lambda>expires_at.
        rbind (ep_optional_text p ''operator_comment'') (\<lambda>comment.
          upsert_endpoint ds1 node_id endpoint ''active'' now now expires_at comment))))))
      else if ty = ''peer.endpoint.expire'' then
        rbind (require_active_endpoint active endpoint) (\<lambda>_.
          set_endpoint_state ds node_id endpoint ''expired'' now)
      else if ty = ''peer.endpoint.remove'' then
        rbind (rguard (case row of None \<Rightarrow> False | Some r \<Rightarrow> ep_state r \<noteq> ''removed'')
                 (SQLiteValidationError ''peer endpoint is not removable: '')) (\<lambda>_.
          set_endpoint_state ds node_id endpoint ''removed'' now)
      else Inl (SQLiteValidationError ''unsupported peer endpoint transaction: ''))"

text \<open>The service address follows the current active endpoint.\<close>

definition refresh_service_address :: "datastore \<Rightarrow> string \<Rightarrow> string option \<Rightarrow> datastore" where
  "refresh_service_address ds node_id now =
     ds\<lparr>ds_nodes := t_update nd_node_id node_id
         (\<lambda>r. r\<lparr>nd_service_address := map_option ep_endpoint (first_by endpoint_recent (active_endpoints ds node_id)),
               nd_last_seen_at := now, nd_updated_at := now\<rparr>) (ds_nodes ds)\<rparr>"

definition apply_peer_endpoint_transaction :: "datastore \<Rightarrow> Transaction \<Rightarrow> datastore res" where
  "apply_peer_endpoint_transaction ds t =
     rbind (endpoint_node_id (tx_payload t)) (\<lambda>node_id.
     rbind (validate_endpoint (payload_get (tx_payload t) ''endpoint'') ''endpoint'') (\<lambda>endpoint.
     rbind (endpoint_transition ds t node_id endpoint) (\<lambda>ds1.
       Inr (refresh_service_address ds1 node_id (tx_created_at t)))))"


subsection \<open>Admission proofs (\<open>peer_admission_auth.py\<close>, \<open>crypto/signatures.py\<close>)\<close>

definition verify_ed25519 :: "host \<Rightarrow> bytes \<Rightarrow> bytes \<Rightarrow> bytes \<Rightarrow> bool res" where
  "verify_ed25519 h public_key message signature =
     (if length public_key \<noteq> 32 then Inl (ValueError ''public_key must be 32 raw bytes'')
      else if \<not> h_ed25519_key_ok h public_key then Inl (ValueError ''An Ed25519 public key is invalid'')
      else Inr (h_ed25519_verify h public_key message signature))"

definition PROOF_TYPE_REQUEST :: string where
  "PROOF_TYPE_REQUEST = ''peer.admission.request''"

definition PROOF_TYPE_ACCEPT :: string where
  "PROOF_TYPE_ACCEPT = ''peer.admission.accept''"

definition PROOF_TYPE_REJECT :: string where
  "PROOF_TYPE_REJECT = ''peer.admission.reject''"

definition PROOF_TYPE_REVOKE :: string where
  "PROOF_TYPE_REVOKE = ''peer.admission.revoke''"

definition REQUEST_REQUIRED :: "string list" where
  "REQUEST_REQUIRED =
     [''proof_version'', ''proof_type'', ''request_id'', ''node_id'', ''signing_algorithm'', ''signing_public_key'',
      ''encryption_algorithm'', ''encryption_public_key'', ''created_at'', ''nonce'', ''signature'']"

definition DECISION_REQUIRED :: "string list" where
  "DECISION_REQUIRED =
     [''proof_version'', ''proof_type'', ''request_id'', ''decision_id'', ''node_id'', ''signer_node_id'',
      ''signer_signing_algorithm'', ''signer_signing_public_key'', ''signer_encryption_algorithm'',
      ''signer_encryption_public_key'', ''decided_at'', ''nonce'', ''signature'']"

definition REVOCATION_REQUIRED :: "string list" where
  "REVOCATION_REQUIRED =
     [''proof_version'', ''proof_type'', ''revocation_id'', ''node_id'', ''signer_node_id'',
      ''signer_signing_algorithm'', ''signer_signing_public_key'', ''revoked_at'', ''nonce'', ''signature'']"

definition without_signature :: "json_obj \<Rightarrow> json_obj" where
  "without_signature p = dict_pop ''signature'' p"

definition admission_signing_bytes :: "json_obj \<Rightarrow> bytes" where
  "admission_signing_bytes p = canonical_json_bytes (without_signature p)"

definition require_fields :: "json_obj \<Rightarrow> string list \<Rightarrow> unit res" where
  "require_fields p fs =
     (case find (\<lambda>f. \<not> dict_has f p) (sort fs) of
        None \<Rightarrow> Inr ()
      | Some f \<Rightarrow> Inl (SQLiteValidationError (f @ '' is required'')))"

definition require_int :: "json_obj \<Rightarrow> string \<Rightarrow> int \<Rightarrow> unit res" where
  "require_int p field expected =
     (case map_of p field of
        Some (JInt i) \<Rightarrow> rguard (i = expected) (SQLiteValidationError (field @ '' must be ''))
      | _ \<Rightarrow> Inl (SQLiteValidationError (field @ '' must be an integer'')))"

definition require_text :: "json_obj \<Rightarrow> string \<Rightarrow> string option \<Rightarrow> string res" where
  "require_text p field expected =
     (case map_of p field of
        Some (JStr s) \<Rightarrow>
          if s = [] then Inl (SQLiteValidationError (field @ '' is required''))
          else if expected \<noteq> None \<and> expected \<noteq> Some s
          then Inl (SQLiteValidationError (field @ '' must be '' @ or_empty expected))
          else Inr s
      | _ \<Rightarrow> Inl (SQLiteValidationError (field @ '' is required'')))"

definition auth_optional_text :: "json_obj \<Rightarrow> string \<Rightarrow> string option res" where
  "auth_optional_text p field =
     (case payload_get p field of
        None \<Rightarrow> Inr None
      | Some (JStr s) \<Rightarrow>
          if s = [] then Inl (SQLiteValidationError (field @ '' must be a non-empty string'')) else Inr (Some s)
      | Some _ \<Rightarrow> Inl (SQLiteValidationError (field @ '' must be a non-empty string'')))"

definition auth_optional_text_list :: "json_obj \<Rightarrow> string \<Rightarrow> string list res" where
  "auth_optional_text_list p field =
     (case payload_get p field of
        None \<Rightarrow> Inr []
      | Some (JList js) \<Rightarrow>
          rmapM (\<lambda>j. case j of
                   JStr s \<Rightarrow> if s = [] then Inl (SQLiteValidationError (field @ '' entries must be non-empty strings''))
                             else Inr s
                 | _ \<Rightarrow> Inl (SQLiteValidationError (field @ '' entries must be non-empty strings''))) js
      | Some _ \<Rightarrow> Inl (SQLiteValidationError (field @ '' must be a list'')))"

definition validate_service_group_ids :: "string list \<Rightarrow> unit res" where
  "validate_service_group_ids ids =
     rbind (rmapM (\<lambda>i. rmap_error sqlite_validation (validate_identifier i Service_group ''service_group_ids'')) ids)
       (\<lambda>_. Inr ())"

definition require_identifier :: "json_obj \<Rightarrow> string \<Rightarrow> IdentifierType \<Rightarrow> string res" where
  "require_identifier p field t =
     rbind (require_text p field None) (\<lambda>v. rmap_error sqlite_validation (validate_identifier v t field))"

definition auth_public_key :: "host \<Rightarrow> json_obj \<Rightarrow> string \<Rightarrow> string \<Rightarrow> string \<Rightarrow> string \<Rightarrow> bytes res" where
  "auth_public_key h p key_field algorithm_field expected_algorithm key_kind =
     rbind (require_text p algorithm_field (Some expected_algorithm)) (\<lambda>_.
     rbind (require_text p key_field None) (\<lambda>encoded.
     rbind (rmap_error (\<lambda>_. SQLiteValidationError (key_field @ '' must be base64url public key bytes''))
              (decode_b64url encoded)) (\<lambda>v.
     rbind (rguard (length v = 32) (SQLiteValidationError (key_field @ '' must decode to 32 bytes''))) (\<lambda>_.
     rbind (rguard (if key_kind = ''signing'' then h_ed25519_key_ok h v else h_x25519_key_ok h v)
              (SQLiteValidationError (key_field @ '' is not a valid '' @ expected_algorithm @ '' public key''))) (\<lambda>_.
       Inr v)))))"

definition auth_signature :: "json_obj \<Rightarrow> bytes res" where
  "auth_signature p =
     rbind (require_text p ''signature'' None) (\<lambda>encoded.
       rmap_error (\<lambda>_. SQLiteValidationError ''signature must be base64url bytes'') (decode_b64url encoded))"

text \<open>\<open>if not verify_ed25519(...): raise\<close> over the payload without its signature.\<close>

definition check_signature :: "host \<Rightarrow> bytes \<Rightarrow> json_obj \<Rightarrow> bytes \<Rightarrow> py_error \<Rightarrow> unit res" where
  "check_signature h key p signature e =
     rbind (verify_ed25519 h key (admission_signing_bytes p) signature) (\<lambda>ok. rguard ok e)"

definition verify_admission_request_payload :: "host \<Rightarrow> json_obj \<Rightarrow> unit res" where
  "verify_admission_request_payload h p =
     rbind (require_fields p REQUEST_REQUIRED) (\<lambda>_.
     rbind (require_int p ''proof_version'' 1) (\<lambda>_.
     rbind (require_text p ''proof_type'' (Some PROOF_TYPE_REQUEST)) (\<lambda>_.
     rbind (require_identifier p ''request_id'' IdentifierType.Transaction) (\<lambda>_.
     rbind (require_identifier p ''node_id'' Node) (\<lambda>_.
     rbind (require_text p ''created_at'' None) (\<lambda>_.
     rbind (require_text p ''nonce'' None) (\<lambda>_.
     rbind (auth_public_key h p ''signing_public_key'' ''signing_algorithm'' ''ed25519'' ''signing'') (\<lambda>signing.
     rbind (auth_public_key h p ''encryption_public_key'' ''encryption_algorithm'' ''x25519'' ''encryption'') (\<lambda>encryption.
     rbind (rguard (signing \<noteq> encryption)
              (SQLiteValidationError ''signing_public_key and encryption_public_key must differ'')) (\<lambda>_.
     rbind (auth_signature p) (\<lambda>signature.
       check_signature h signing p signature
         (SQLiteValidationError ''peer admission request signature verification failed''))))))))))))"

definition decision_authorization :: "json_obj \<Rightarrow> string \<Rightarrow> unit res" where
  "decision_authorization p proof_type =
     rbind (auth_optional_text p ''authorization_mode'') (\<lambda>authorization_mode.
     rbind (auth_optional_text_list p ''service_group_ids'') (\<lambda>ids.
       if proof_type = PROOF_TYPE_ACCEPT then
         (let mode = (case authorization_mode of None \<Rightarrow> AUTHORIZATION_MODE_NONE | Some m \<Rightarrow> m) in
          if mode \<notin> set AUTHORIZATION_MODES
          then Inl (SQLiteValidationError ''peer admission authorization_mode is unsupported: '')
          else if mode = AUTHORIZATION_MODE_ALL \<and> ids \<noteq> []
          then Inl (SQLiteValidationError ''peer admission authorization_mode all cannot include service_group_ids'')
          else if mode = AUTHORIZATION_MODE_NONE \<and> ids \<noteq> []
          then Inl (SQLiteValidationError ''peer admission authorization_mode none cannot include service_group_ids'')
          else if mode = AUTHORIZATION_MODE_ALLOW_LIST then validate_service_group_ids ids
          else Inr ())
       else rguard (authorization_mode = None \<and> ids = [])
              (SQLiteValidationError ''peer admission rejection cannot include synchronization authorization'')))"

definition verify_admission_decision_signature :: "host \<Rightarrow> json_obj \<Rightarrow> unit res" where
  "verify_admission_decision_signature h p =
     rbind (require_fields p DECISION_REQUIRED) (\<lambda>_.
     rbind (require_int p ''proof_version'' 1) (\<lambda>_.
     rbind (require_text p ''proof_type'' None) (\<lambda>proof_type.
     rbind (rguard (proof_type \<in> {PROOF_TYPE_ACCEPT, PROOF_TYPE_REJECT})
              (SQLiteValidationError ''peer admission decision proof_type is unsupported'')) (\<lambda>_.
     rbind (require_identifier p ''request_id'' IdentifierType.Transaction) (\<lambda>_.
     rbind (require_identifier p ''node_id'' Node) (\<lambda>_.
     rbind (require_identifier p ''decision_id'' IdentifierType.Transaction) (\<lambda>_.
     rbind (require_identifier p ''signer_node_id'' Node) (\<lambda>_.
     rbind (require_text p ''decided_at'' None) (\<lambda>_.
     rbind (require_text p ''nonce'' None) (\<lambda>_.
     rbind (decision_authorization p proof_type) (\<lambda>_.
     rbind (auth_public_key h p ''signer_signing_public_key'' ''signer_signing_algorithm'' ''ed25519'' ''signing'') (\<lambda>signing.
     rbind (auth_public_key h p ''signer_encryption_public_key'' ''signer_encryption_algorithm'' ''x25519''
              ''encryption'') (\<lambda>encryption.
     rbind (rguard (signing \<noteq> encryption)
              (SQLiteValidationError ''signer_signing_public_key and signer_encryption_public_key must differ'')) (\<lambda>_.
     rbind (auth_signature p) (\<lambda>signature.
       check_signature h signing p signature
         (SQLiteValidationError ''peer admission decision signature verification failed''))))))))))))))))"

fun find_request :: "string \<Rightarrow> string \<Rightarrow> transaction_row list \<Rightarrow> unit res" where
  "find_request node_id request_id [] =
     Inl (SQLiteValidationError (''peer admission acceptance references unknown request: '' @ request_id))"
| "find_request node_id request_id (r # rows) =
     (if tr_transaction_type r \<noteq> PROOF_TYPE_REQUEST then find_request node_id request_id rows
      else rbind (load_canonical_json (tr_payload r)) (\<lambda>p.
        if map_of p ''node_id'' = Some (JStr node_id) \<and> map_of p ''request_id'' = Some (JStr request_id) then Inr ()
        else find_request node_id request_id rows))"

definition require_matching_request :: "datastore \<Rightarrow> string \<Rightarrow> string \<Rightarrow> unit res" where
  "require_matching_request ds node_id request_id = find_request node_id request_id (ds_transactions ds)"

definition verify_admission_decision_payload :: "host \<Rightarrow> datastore \<Rightarrow> json_obj \<Rightarrow> unit res" where
  "verify_admission_decision_payload h ds p =
     rbind (verify_admission_decision_signature h p) (\<lambda>_.
     rbind (require_identifier p ''node_id'' Node) (\<lambda>node_id.
     rbind (require_identifier p ''request_id'' IdentifierType.Transaction) (\<lambda>request_id.
       require_matching_request ds node_id request_id)))"

definition verify_admission_revocation_payload :: "host \<Rightarrow> datastore \<Rightarrow> json_obj \<Rightarrow> unit res" where
  "verify_admission_revocation_payload h ds p =
     rbind (require_fields p REVOCATION_REQUIRED) (\<lambda>_.
     rbind (require_int p ''proof_version'' 1) (\<lambda>_.
     rbind (require_text p ''proof_type'' (Some PROOF_TYPE_REVOKE)) (\<lambda>_.
     rbind (require_identifier p ''revocation_id'' IdentifierType.Transaction) (\<lambda>_.
     rbind (require_identifier p ''node_id'' Node) (\<lambda>_.
     rbind (require_identifier p ''signer_node_id'' Node) (\<lambda>signer_node_id.
     rbind (require_text p ''revoked_at'' None) (\<lambda>_.
     rbind (require_text p ''nonce'' None) (\<lambda>_.
     rbind (auth_public_key h p ''signer_signing_public_key'' ''signer_signing_algorithm'' ''ed25519'' ''signing'') (\<lambda>key.
     rbind (load_local_node_projection ds) (\<lambda>local_node.
     rbind (rguard (case local_node of
                      None \<Rightarrow> False
                    | Some l \<Rightarrow> signer_node_id = ln_node_id l \<and> key = ln_signing_public_key l)
              (SQLiteValidationError ''peer revocation must be signed by the local node'')) (\<lambda>_.
     rbind (auth_signature p) (\<lambda>signature.
       check_signature h key p signature
         (SQLiteValidationError ''peer revocation signature verification failed'')))))))))))))"

definition deterministic_admission_transaction_id :: "string \<Rightarrow> json_obj \<Rightarrow> string res" where
  "deterministic_admission_transaction_id proof_type p =
     rbind (if proof_type = PROOF_TYPE_REQUEST then require_identifier p ''request_id'' IdentifierType.Transaction
            else if proof_type \<in> {PROOF_TYPE_ACCEPT, PROOF_TYPE_REJECT}
            then require_identifier p ''decision_id'' IdentifierType.Transaction
            else if proof_type = PROOF_TYPE_REVOKE
            then require_identifier p ''revocation_id'' IdentifierType.Transaction
            else Inl (SQLiteValidationError ''peer admission proof_type is unsupported'')) (\<lambda>stable_id.
       deterministic_identifier IdentifierType.Transaction ''peer.admission'' (proof_type @ NUL @ stable_id))"

fun reused_request :: "string \<Rightarrow> string \<Rightarrow> transaction_row list \<Rightarrow> unit res" where
  "reused_request transaction_id request_id [] = Inr ()"
| "reused_request transaction_id request_id (r # rows) =
     (if tr_transaction_type r \<noteq> PROOF_TYPE_REQUEST \<or> tr_transaction_id r = transaction_id
      then reused_request transaction_id request_id rows
      else rbind (load_canonical_json (tr_payload r)) (\<lambda>p.
        if map_of p ''request_id'' = Some (JStr request_id)
        then Inl (SQLiteValidationError (''peer admission request_id already used: '' @ request_id))
        else reused_request transaction_id request_id rows))"

definition reject_reused_request_id :: "datastore \<Rightarrow> Transaction \<Rightarrow> unit res" where
  "reject_reused_request_id ds t =
     rbind (require_text (tx_payload t) ''request_id'' None) (\<lambda>request_id.
       reused_request (tx_transaction_id t) request_id (ds_transactions ds))"

definition verify_peer_admission_transaction :: "host \<Rightarrow> datastore \<Rightarrow> Transaction \<Rightarrow> unit res" where
  "verify_peer_admission_transaction h ds t =
     (let p = tx_payload t; ty = tx_transaction_type t in
      if ty = PROOF_TYPE_REQUEST then
        rbind (verify_admission_request_payload h p) (\<lambda>_.
        rbind (require_text p ''node_id'' None) (\<lambda>node_id.
        rbind (rguard (tx_origin_node_id t = Some node_id)
                 (SQLiteValidationError ''peer admission request origin_node_id must match node_id'')) (\<lambda>_.
          reject_reused_request_id ds t)))
      else if ty \<in> {PROOF_TYPE_ACCEPT, PROOF_TYPE_REJECT} then
        rbind (verify_admission_decision_payload h ds p) (\<lambda>_.
        rbind (require_text p ''signer_node_id'' None) (\<lambda>signer.
          rguard (tx_origin_node_id t = Some signer)
            (SQLiteValidationError ''peer admission decision origin_node_id must match signer_node_id'')))
      else if ty = PROOF_TYPE_REVOKE then
        rbind (verify_admission_revocation_payload h ds p) (\<lambda>_.
        rbind (rguard (map_option JStr (tx_origin_node_id t) = map_of p ''signer_node_id'')
                 (SQLiteValidationError ''peer revocation origin_node_id must match signer_node_id'')) (\<lambda>_.
        rbind (deterministic_admission_transaction_id PROOF_TYPE_REVOKE p) (\<lambda>expected.
          rguard (tx_transaction_id t = expected)
            (SQLiteValidationError ''peer revocation transaction_id does not match proof''))))
      else Inl (SQLiteValidationError ''peer admission transaction type is unsupported''))"


subsection \<open>Admission projection (\<open>peer_admission_projection.py\<close>)\<close>

definition PEER_ADMISSION_GROUP_ID :: string where
  "PEER_ADMISSION_GROUP_ID = ''peer-group:admission''"

definition REQUEST_REQUIRED_FIELDS :: "string list" where
  "REQUEST_REQUIRED_FIELDS =
     [''node_id'', ''signing_public_key'', ''signing_algorithm'', ''encryption_public_key'', ''encryption_algorithm'']"

definition DECISION_REQUIRED_FIELDS :: "string list" where
  "DECISION_REQUIRED_FIELDS = [''node_id'']"

definition required_public_key :: "json_obj \<Rightarrow> string \<Rightarrow> bytes res" where
  "required_public_key p field =
     rbind (pj_required_text p field) (\<lambda>encoded.
     rbind (rmap_error (\<lambda>_. SQLiteValidationError (field @ '' must be base64url public key bytes''))
              (decode_b64url encoded)) (\<lambda>v.
     rbind (rguard (length v = 32) (SQLiteValidationError (field @ '' must decode to 32 bytes''))) (\<lambda>_. Inr v)))"

definition validate_signing_public_key :: "host \<Rightarrow> bytes \<Rightarrow> unit res" where
  "validate_signing_public_key h v =
     rguard (h_ed25519_key_ok h v) (SQLiteValidationError ''signing_public_key is not a valid Ed25519 public key'')"

definition validate_encryption_public_key :: "host \<Rightarrow> bytes \<Rightarrow> unit res" where
  "validate_encryption_public_key h v =
     rguard (h_x25519_key_ok h v) (SQLiteValidationError ''encryption_public_key is not a valid X25519 public key'')"

definition zero_key :: bytes where
  "zero_key = replicate 32 CHR 0x00"

definition REPLAY_SUPPORT_COMMENT :: string where
  "REPLAY_SUPPORT_COMMENT = ''local SQLite replay support''"

definition is_replay_support_placeholder :: "node_row \<Rightarrow> bool" where
  "is_replay_support_placeholder r \<longleftrightarrow>
     bytes_or_empty (nd_signing_public_key r) = zero_key \<and> bytes_or_empty (nd_encryption_public_key r) = zero_key \<and>
     or_empty (nd_operator_comment r) = REPLAY_SUPPORT_COMMENT"

definition node_state :: "datastore \<Rightarrow> string \<Rightarrow> string option" where
  "node_state ds node_id = map_option (\<lambda>r. or_empty (nd_state r)) (t_get nd_node_id node_id (ds_nodes ds))"

definition ensure_peer_admission_group :: "datastore \<Rightarrow> datastore" where
  "ensure_peer_admission_group ds =
     ds\<lparr>ds_peer_groups := t_insert_ignore pg_peer_group_id
         \<lparr>pg_peer_group_id = PEER_ADMISSION_GROUP_ID, pg_name = Some ''Peer admission''\<rparr> (ds_peer_groups ds)\<rparr>"

text \<open>The row the request inserts, and its ON CONFLICT clause: a placeholder keeps the columns not listed.\<close>

definition admission_request_row ::
  "string \<Rightarrow> bytes \<Rightarrow> string \<Rightarrow> bytes \<Rightarrow> string \<Rightarrow> string option \<Rightarrow> string option \<Rightarrow> string \<Rightarrow> string option
    \<Rightarrow> node_row" where
  "admission_request_row node_id signing signing_algorithm encryption encryption_algorithm service_address
     operator_description requested_at operator_comment =
     \<lparr>nd_node_id = node_id, nd_peer_group_id = PEER_ADMISSION_GROUP_ID, nd_signing_public_key = Some signing,
      nd_signing_algorithm = Some signing_algorithm, nd_encryption_public_key = Some encryption,
      nd_encryption_algorithm = Some encryption_algorithm, nd_authorization_mode = AUTHORIZATION_MODE_NONE,
      nd_service_address = service_address, nd_operator_description = operator_description,
      nd_last_seen_at = None, nd_state = Some ADMISSION_STATE_REQUESTED, nd_created_at = Some requested_at,
      nd_updated_at = Some requested_at, nd_operator_comment = operator_comment\<rparr>"

definition admission_request_update :: "node_row \<Rightarrow> node_row \<Rightarrow> node_row" where
  "admission_request_update row q =
     row\<lparr>nd_node_id := nd_node_id q, nd_last_seen_at := nd_last_seen_at q, nd_created_at := nd_created_at q\<rparr>"

definition apply_peer_admission_request :: "host \<Rightarrow> datastore \<Rightarrow> Transaction \<Rightarrow> datastore res" where
  "apply_peer_admission_request h ds t =
     (let p = tx_payload t in
     rbind (pj_validate_required_fields p REQUEST_REQUIRED_FIELDS) (\<lambda>_.
     rbind (pj_required_text p ''node_id'') (\<lambda>node_id.
     rbind (pj_required_text p ''signing_algorithm'') (\<lambda>signing_algorithm.
     rbind (pj_required_text p ''encryption_algorithm'') (\<lambda>encryption_algorithm.
     rbind (rguard (signing_algorithm = ''ed25519'') (SQLiteValidationError ''signing_algorithm must be ed25519'')) (\<lambda>_.
     rbind (rguard (encryption_algorithm = ''x25519'') (SQLiteValidationError ''encryption_algorithm must be x25519'')) (\<lambda>_.
     rbind (required_public_key p ''signing_public_key'') (\<lambda>signing.
     rbind (required_public_key p ''encryption_public_key'') (\<lambda>encryption.
     rbind (validate_signing_public_key h signing) (\<lambda>_.
     rbind (validate_encryption_public_key h encryption) (\<lambda>_.
     rbind (rguard (signing \<noteq> encryption)
              (SQLiteValidationError ''signing_public_key and encryption_public_key must differ'')) (\<lambda>_.
     rbind (pj_optional_text p ''requested_at'') (\<lambda>requested.
     rbind (if truthy requested then Inr (the requested) else pj_required_text p ''created_at'') (\<lambda>requested_at.
     rbind (rguard (case t_get nd_node_id node_id (ds_nodes ds) of
                      None \<Rightarrow> True | Some r \<Rightarrow> is_replay_support_placeholder r)
              (SQLiteValidationError (''duplicate peer admission request: '' @ node_id))) (\<lambda>_.
     rbind (pj_optional_text p ''service_address'') (\<lambda>service_address.
     rbind (pj_optional_text p ''operator_description'') (\<lambda>operator_description.
     rbind (pj_optional_text p ''operator_comment'') (\<lambda>operator_comment.
     let row = admission_request_row node_id signing signing_algorithm encryption encryption_algorithm
           service_address operator_description requested_at operator_comment in
     Inr ((ensure_peer_admission_group ds)\<lparr>ds_nodes :=
            t_upsert nd_node_id row (admission_request_update row) (ds_nodes ds)\<rparr>)))))))))))))))))))"

definition authorization_mode_for_decision :: "json_obj \<Rightarrow> string \<Rightarrow> string res" where
  "authorization_mode_for_decision p target_state =
     (if target_state \<noteq> ADMISSION_STATE_ACTIVE then Inr AUTHORIZATION_MODE_NONE
      else rbind (pj_optional_text p ''authorization_mode'') (\<lambda>m.
        case m of
          None \<Rightarrow> Inr AUTHORIZATION_MODE_NONE
        | Some mode \<Rightarrow>
            if mode \<notin> set AUTHORIZATION_MODES
            then Inl (SQLiteValidationError (''authorization_mode is unsupported: '' @ mode))
            else rbind (auth_optional_text_list p ''service_group_ids'') (\<lambda>ids.
              if mode = AUTHORIZATION_MODE_ALL \<and> ids \<noteq> []
              then Inl (SQLiteValidationError ''authorization_mode all cannot include service_group_ids'')
              else if mode = AUTHORIZATION_MODE_NONE \<and> ids \<noteq> []
              then Inl (SQLiteValidationError ''authorization_mode none cannot include service_group_ids'')
              else Inr mode)))"

fun apply_service_group_authorization :: "string \<Rightarrow> string option \<Rightarrow> string list \<Rightarrow> datastore \<Rightarrow> datastore res" where
  "apply_service_group_authorization node_id at [] ds = Inr ds"
| "apply_service_group_authorization node_id at (g # gs) ds =
     rbind (rmap_error sqlite_validation (validate_identifier g Service_group ''service_group_id'')) (\<lambda>_.
     let ds1 = ds\<lparr>ds_service_groups := t_insert_ignore sg_service_group_id
                     \<lparr>sg_service_group_id = g, sg_owner_id = None\<rparr> (ds_service_groups ds)\<rparr> in
     if \<not> t_has nd_node_id node_id (ds_nodes ds1) then Inl fk_failed
     else apply_service_group_authorization node_id at gs
       (ds1\<lparr>ds_service_group_nodes := t_upsert (\<lambda>r. (sn_service_group_id r, sn_node_id r))
          \<lparr>sn_service_group_id = g, sn_node_id = node_id, sn_state = ''active'', sn_created_at = at,
           sn_updated_at = at\<rparr>
          (\<lambda>q. q\<lparr>sn_state := ''active'', sn_updated_at := at\<rparr>) (ds_service_group_nodes ds1)\<rparr>))"

text \<open>The UPDATE of a decision and of a revocation; \<open>COALESCE\<close> keeps a stored description or comment.\<close>

definition decision_update ::
  "string \<Rightarrow> string option \<Rightarrow> string option \<Rightarrow> string option \<Rightarrow> string \<Rightarrow> node_row \<Rightarrow> node_row" where
  "decision_update target_state decided_at display_name operator_comment mode r =
     r\<lparr>nd_state := Some target_state, nd_updated_at := decided_at,
       nd_operator_description := (case display_name of None \<Rightarrow> nd_operator_description r | Some d \<Rightarrow> Some d),
       nd_operator_comment := (case operator_comment of None \<Rightarrow> nd_operator_comment r | Some c \<Rightarrow> Some c),
       nd_authorization_mode := mode\<rparr>"

definition revocation_update :: "string \<Rightarrow> string option \<Rightarrow> node_row \<Rightarrow> node_row" where
  "revocation_update revoked_at operator_comment r =
     r\<lparr>nd_state := Some ADMISSION_STATE_REVOKED, nd_authorization_mode := AUTHORIZATION_MODE_NONE,
       nd_updated_at := Some revoked_at,
       nd_operator_comment := (case operator_comment of None \<Rightarrow> nd_operator_comment r | Some c \<Rightarrow> Some c)\<rparr>"

definition apply_peer_admission_decision ::
  "datastore \<Rightarrow> Transaction \<Rightarrow> string \<Rightarrow> string \<Rightarrow> string \<Rightarrow> string \<Rightarrow> datastore res" where
  "apply_peer_admission_decision ds t target_state timestamp_field unknown_message already_message =
     (let p = tx_payload t in
     rbind (pj_validate_required_fields p DECISION_REQUIRED_FIELDS) (\<lambda>_.
     rbind (pj_required_text p ''node_id'') (\<lambda>node_id.
     rbind (case node_state ds node_id of
              None \<Rightarrow> Inl (SQLiteValidationError (unknown_message @ '': '' @ node_id))
            | Some state \<Rightarrow>
                if state = target_state then Inl (SQLiteValidationError (already_message @ '': '' @ node_id))
                else rguard (state = ADMISSION_STATE_REQUESTED)
                       (SQLiteValidationError (''peer admission request is not pending: '' @ node_id))) (\<lambda>_.
     rbind (pj_optional_text p timestamp_field) (\<lambda>decided.
     let decided_at = (if truthy decided then decided else tx_created_at t) in
     rbind (pj_optional_text p ''display_name'') (\<lambda>display_name.
     rbind (pj_optional_text p ''operator_comment'') (\<lambda>operator_comment.
     rbind (authorization_mode_for_decision p target_state) (\<lambda>mode.
     let ds1 = ds\<lparr>ds_nodes := t_update nd_node_id node_id
           (decision_update target_state decided_at display_name operator_comment mode) (ds_nodes ds)\<rparr> in
     if target_state = ADMISSION_STATE_ACTIVE
     then rbind (auth_optional_text_list p ''service_group_ids'') (\<lambda>ids.
            apply_service_group_authorization node_id decided_at ids ds1)
     else Inr ds1))))))))"

definition apply_peer_admission_accept :: "datastore \<Rightarrow> Transaction \<Rightarrow> datastore res" where
  "apply_peer_admission_accept ds t =
     apply_peer_admission_decision ds t ADMISSION_STATE_ACTIVE ''accepted_at''
       ''cannot accept unknown peer admission request'' ''peer admission already accepted''"

definition apply_peer_admission_reject :: "datastore \<Rightarrow> Transaction \<Rightarrow> datastore res" where
  "apply_peer_admission_reject ds t =
     apply_peer_admission_decision ds t ADMISSION_STATE_REJECTED ''rejected_at''
       ''cannot reject unknown peer admission request'' ''peer admission already rejected''"

definition deny_queued :: "string \<Rightarrow> string \<Rightarrow> envelope_row \<Rightarrow> envelope_row" where
  "deny_queued node_id at e =
     (if ev_destination_node_id e = node_id \<and> ev_state e \<in> {''pending'', ''retry_pending'', ''claimed'', ''sending''}
      then e\<lparr>ev_state := ''authorization_denied'', ev_failed_at := Some at, ev_next_attempt_at := None,
             ev_last_error := Some ''peer revoked locally''\<rparr>
      else e)"

definition apply_peer_admission_revoke :: "datastore \<Rightarrow> Transaction \<Rightarrow> datastore res" where
  "apply_peer_admission_revoke ds t =
     (let p = tx_payload t in
     rbind (pj_required_text p ''node_id'') (\<lambda>node_id.
     rbind (rguard (node_id \<notin> set (ds_node_private ds))
              (SQLiteValidationError ''local node identity cannot be revoked as a peer'')) (\<lambda>_.
     rbind (rguard (node_state ds node_id = Some ADMISSION_STATE_ACTIVE)
              (SQLiteValidationError (''peer is not actively admitted: '' @ node_id))) (\<lambda>_.
     rbind (pj_required_text p ''revoked_at'') (\<lambda>revoked_at.
     rbind (pj_optional_text p ''operator_comment'') (\<lambda>operator_comment.
       Inr (ds\<lparr>ds_nodes := t_update nd_node_id node_id
              (revocation_update revoked_at operator_comment) (ds_nodes ds),
            ds_envelopes := map (deny_queued node_id revoked_at) (ds_envelopes ds)\<rparr>)))))))"


subsection \<open>The admission life cycle\<close>

text \<open>
  One step of the peer tables: an admission or endpoint transaction that is applied. \<open>admission_edge\<close>
  lists the moves the admission state of a node may make. A placeholder row, which replay
  support inserts with zero keys, may still ask for admission.
\<close>

inductive peer_step :: "host \<Rightarrow> datastore \<Rightarrow> datastore \<Rightarrow> bool" for h where
  request: "apply_peer_admission_request h ds t = Inr ds' \<Longrightarrow> peer_step h ds ds'"
| accept: "apply_peer_admission_accept ds t = Inr ds' \<Longrightarrow> peer_step h ds ds'"
| reject: "apply_peer_admission_reject ds t = Inr ds' \<Longrightarrow> peer_step h ds ds'"
| revoke: "apply_peer_admission_revoke ds t = Inr ds' \<Longrightarrow> peer_step h ds ds'"
| endpoint: "apply_peer_endpoint_transaction ds t = Inr ds' \<Longrightarrow> peer_step h ds ds'"

text \<open>A node that asked for admission has two different public keys, so it is no placeholder.\<close>

definition has_identity :: "node_row \<Rightarrow> bool" where
  "has_identity r \<longleftrightarrow> nd_signing_public_key r \<noteq> None \<and> nd_encryption_public_key r \<noteq> None \<and>
     nd_signing_public_key r \<noteq> nd_encryption_public_key r"

inductive admission_edge :: "string \<Rightarrow> string \<Rightarrow> bool" where
  "admission_edge ADMISSION_STATE_REQUESTED ADMISSION_STATE_ACTIVE"
| "admission_edge ADMISSION_STATE_REQUESTED ADMISSION_STATE_REJECTED"
| "admission_edge ADMISSION_STATE_ACTIVE ADMISSION_STATE_REVOKED"

inductive_cases admission_edgeE: "admission_edge a b"

lemmas admission_states = ADMISSION_STATE_REQUESTED_def ADMISSION_STATE_ACTIVE_def
  ADMISSION_STATE_REJECTED_def ADMISSION_STATE_REVOKED_def

lemma request_effect:
  assumes "apply_peer_admission_request h ds t = Inr ds'"
  obtains n r where "pj_required_text (tx_payload t) ''node_id'' = Inr n"
    "\<And>q. t_get nd_node_id n (ds_nodes ds) = Some q \<Longrightarrow> is_replay_support_placeholder q"
    "t_get nd_node_id n (ds_nodes ds') = Some r" "nd_state r = Some ADMISSION_STATE_REQUESTED"
    "nd_authorization_mode r = AUTHORIZATION_MODE_NONE" "has_identity r" "node_checks r"
    "\<And>m. m \<noteq> n \<Longrightarrow> t_get nd_node_id m (ds_nodes ds') = t_get nd_node_id m (ds_nodes ds)"
    "ds' = ds\<lparr>ds_nodes := ds_nodes ds', ds_peer_groups := ds_peer_groups ds'\<rparr>"
proof -
  from assms obtain n sk ek sa od oc ra where
    n: "pj_required_text (tx_payload t) ''node_id'' = Inr n"
    and k: "length sk = 32" "length ek = 32" "sk \<noteq> ek"
    and old: "case t_get nd_node_id n (ds_nodes ds) of None \<Rightarrow> True | Some r \<Rightarrow> is_replay_support_placeholder r"
    and ds': "ds' = (let row = admission_request_row n sk ''ed25519'' ek ''x25519'' sa od ra oc in
      (ensure_peer_admission_group ds)\<lparr>ds_nodes :=
        t_upsert nd_node_id row (admission_request_update row) (ds_nodes ds)\<rparr>)"
    unfolding apply_peer_admission_request_def required_public_key_def Let_def
    by (elim rbind_InrE) (simp only: rguard_Inr_iff sum.inject, blast)
  define row where "row = admission_request_row n sk ''ed25519'' ek ''x25519'' sa od ra oc"
  have nodes: "ds_nodes ds' = t_upsert nd_node_id row (admission_request_update row) (ds_nodes ds)"
    by (simp add: ds' row_def Let_def)
  define r where "r = (case t_get nd_node_id n (ds_nodes ds) of None \<Rightarrow> row | Some x \<Rightarrow> admission_request_update row x)"
  have get: "t_get nd_node_id m (ds_nodes ds') = (if m = n then Some r else t_get nd_node_id m (ds_nodes ds))" for m
    unfolding nodes by (subst t_get_upsert) (simp_all add: admission_request_update_def row_def admission_request_row_def r_def)
  have r: "nd_state r = Some ADMISSION_STATE_REQUESTED" "nd_authorization_mode r = AUTHORIZATION_MODE_NONE"
    "nd_signing_public_key r = Some sk" "nd_encryption_public_key r = Some ek"
    "nd_signing_algorithm r = Some ''ed25519''" "nd_encryption_algorithm r = Some ''x25519''"
    by (cases "t_get nd_node_id n (ds_nodes ds)";
        simp add: r_def row_def admission_request_row_def admission_request_update_def)+
  show thesis
  proof (rule that [OF n _ _ r(1,2)])
    show "is_replay_support_placeholder q" if "t_get nd_node_id n (ds_nodes ds) = Some q" for q
      using old that by simp
    show "t_get nd_node_id n (ds_nodes ds') = Some r" by (simp add: get)
    show "has_identity r" using k(3) r(3,4) by (simp add: has_identity_def)
    show "node_checks r" using k r by (simp add: node_checks_def AUTHORIZATION_MODE_NONE_def)
    show "t_get nd_node_id m (ds_nodes ds') = t_get nd_node_id m (ds_nodes ds)" if "m \<noteq> n" for m
      using that by (simp add: get)
    show "ds' = ds\<lparr>ds_nodes := ds_nodes ds', ds_peer_groups := ds_peer_groups ds'\<rparr>"
      by (simp add: ds' ensure_peer_admission_group_def Let_def)
  qed
qed


lemma registry_ids_upsert:
  "set (registry_service_group_ids (ds\<lparr>ds_service_groups := sg, ds_service_group_nodes :=
      t_upsert (\<lambda>r. (sn_service_group_id r, sn_node_id r))
        \<lparr>sn_service_group_id = g, sn_node_id = n, sn_state = ''active'', sn_created_at = c, sn_updated_at = at\<rparr>
        (\<lambda>q. q\<lparr>sn_state := ''active'', sn_updated_at := at\<rparr>) (ds_service_group_nodes ds)\<rparr>) m) =
    set (registry_service_group_ids ds m) \<union> (if m = n then {g} else {})"
proof -
  let ?t = "ds_service_group_nodes ds"
  let ?key = "\<lambda>r. (sn_service_group_id r, sn_node_id r)"
  have mem: "k \<in> set (registry_service_group_ids d m) \<longleftrightarrow>
      (\<exists>r \<in> set (ds_service_group_nodes d). sn_service_group_id r = k \<and> sn_node_id r = m \<and> sn_state r = ''active'')" for k d
    by (auto simp: registry_service_group_ids_def)
  show ?thesis
  proof (cases "t_has ?key (g, n) ?t")
    case True
    define f where "f = (\<lambda>r :: service_group_node_row. if ?key r = (g, n) then r\<lparr>sn_state := ''active'', sn_updated_at := at\<rparr> else r)"
    have f: "sn_service_group_id (f r) = sn_service_group_id r" "sn_node_id (f r) = sn_node_id r"
      "sn_state (f r) = ''active'' \<longleftrightarrow> sn_state r = ''active'' \<or> ?key r = (g, n)" for r by (auto simp: f_def)
    from True have up: "ds_service_group_nodes (ds\<lparr>ds_service_groups := sg, ds_service_group_nodes := t_upsert ?key
        \<lparr>sn_service_group_id = g, sn_node_id = n, sn_state = ''active'', sn_created_at = c, sn_updated_at = at\<rparr>
        (\<lambda>q. q\<lparr>sn_state := ''active'', sn_updated_at := at\<rparr>) ?t\<rparr>) = map f ?t"
      by (simp add: t_upsert_def t_update_def f_def)
    from True obtain r0 where "r0 \<in> set ?t" "?key r0 = (g, n)" by (auto simp: t_has_def)
    then show ?thesis by (intro set_eqI) (simp add: mem up f, auto)
  next
    case False
    then show ?thesis by (intro set_eqI) (auto simp: mem t_upsert_def)
  qed
qed

lemma service_group_authorization_effect:
  assumes "apply_service_group_authorization n at gs ds = Inr ds'"
  shows "ds' = ds\<lparr>ds_service_groups := ds_service_groups ds', ds_service_group_nodes := ds_service_group_nodes ds'\<rparr> \<and>
    (\<forall>g \<in> set gs. is_identifier Service_group g) \<and>
    set (registry_service_group_ids ds' m) =
      set (registry_service_group_ids ds m) \<union> (if m = n then set gs else {})"
  using assms
proof (induction gs arbitrary: ds)
  case (Cons g gs)
  let ?sg = "t_insert_ignore sg_service_group_id \<lparr>sg_service_group_id = g, sg_owner_id = None\<rparr> (ds_service_groups ds)"
  define ds2 where "ds2 = ds\<lparr>ds_service_groups := ?sg, ds_service_group_nodes :=
      t_upsert (\<lambda>r. (sn_service_group_id r, sn_node_id r))
        \<lparr>sn_service_group_id = g, sn_node_id = n, sn_state = ''active'', sn_created_at = at, sn_updated_at = at\<rparr>
        (\<lambda>q. q\<lparr>sn_state := ''active'', sn_updated_at := at\<rparr>) (ds_service_group_nodes ds)\<rparr>"
  from Cons.prems obtain v where v: "validate_identifier g Service_group ''service_group_id'' = Inr v"
    and loop: "apply_service_group_authorization n at gs ds2 = Inr ds'"
    by (auto simp: rbind_Inr_iff ds2_def Let_def split: if_splits)
  have "is_identifier Service_group g" using v by (auto simp: is_identifier_iff validate_identifier_iff)
  moreover note Cons.IH [OF loop]
  moreover have "set (registry_service_group_ids ds2 m) = set (registry_service_group_ids ds m) \<union> (if m = n then {g} else {})"
    unfolding ds2_def by (rule registry_ids_upsert)
  moreover have "ds2\<lparr>ds_service_groups := a, ds_service_group_nodes := b\<rparr> =
    ds\<lparr>ds_service_groups := a, ds_service_group_nodes := b\<rparr>" for a b by (simp add: ds2_def)
  ultimately show ?case by auto
qed simp

lemma decision_effect:
  assumes "apply_peer_admission_decision ds t target field um am = Inr ds'"
  obtains n r r' mode where "pj_required_text (tx_payload t) ''node_id'' = Inr n"
    "t_get nd_node_id n (ds_nodes ds) = Some r" "nd_state r = Some ADMISSION_STATE_REQUESTED"
    "authorization_mode_for_decision (tx_payload t) target = Inr mode"
    "t_get nd_node_id n (ds_nodes ds') = Some r'" "nd_state r' = Some target" "nd_authorization_mode r' = mode"
    "nd_signing_public_key r' = nd_signing_public_key r" "nd_encryption_public_key r' = nd_encryption_public_key r"
    "\<And>m. m \<noteq> n \<Longrightarrow> t_get nd_node_id m (ds_nodes ds') = t_get nd_node_id m (ds_nodes ds)"
    "ds' = ds\<lparr>ds_nodes := ds_nodes ds', ds_service_groups := ds_service_groups ds',
      ds_service_group_nodes := ds_service_group_nodes ds'\<rparr>"
proof -
  from assms obtain n at dn oc mode where
    n: "pj_required_text (tx_payload t) ''node_id'' = Inr n"
    and st: "node_state ds n = Some ADMISSION_STATE_REQUESTED"
    and mode: "authorization_mode_for_decision (tx_payload t) target = Inr mode"
    and tail: "let ds1 = ds\<lparr>ds_nodes := t_update nd_node_id n (decision_update target at dn oc mode) (ds_nodes ds)\<rparr> in
      (if target = ADMISSION_STATE_ACTIVE
       then rbind (auth_optional_text_list (tx_payload t) ''service_group_ids'') (\<lambda>ids.
              apply_service_group_authorization n at ids ds1)
       else Inr ds1) = Inr ds'"
    unfolding apply_peer_admission_decision_def Let_def
    by (elim rbind_InrE) (auto split: option.splits if_split_asm)
  let ?f = "decision_update target at dn oc mode"
  define ds1 where "ds1 = ds\<lparr>ds_nodes := t_update nd_node_id n ?f (ds_nodes ds)\<rparr>"
  from st obtain r where r: "t_get nd_node_id n (ds_nodes ds) = Some r" "nd_state r = Some ADMISSION_STATE_REQUESTED"
    by (auto simp: node_state_def or_empty_def ADMISSION_STATE_REQUESTED_def split: option.splits)
  from tail have ds': "ds' = ds1\<lparr>ds_service_groups := ds_service_groups ds',
      ds_service_group_nodes := ds_service_group_nodes ds'\<rparr>"
    using service_group_authorization_effect
    by (auto simp: Let_def ds1_def [symmetric] rbind_Inr_iff split: if_splits)
  have nodes: "ds_nodes ds' = t_update nd_node_id n ?f (ds_nodes ds)" by (subst ds') (simp add: ds1_def)
  have get: "t_get nd_node_id m (ds_nodes ds') = (if m = n then map_option ?f (t_get nd_node_id n (ds_nodes ds))
      else t_get nd_node_id m (ds_nodes ds))" for m
    unfolding nodes by (rule t_get_update) (simp add: decision_update_def)
  show thesis
  proof (rule that [OF n r mode])
    show "t_get nd_node_id n (ds_nodes ds') = Some (?f r)" by (simp add: get r)
    show "t_get nd_node_id m (ds_nodes ds') = t_get nd_node_id m (ds_nodes ds)" if "m \<noteq> n" for m
      using that by (simp add: get)
    show "ds' = ds\<lparr>ds_nodes := ds_nodes ds', ds_service_groups := ds_service_groups ds',
        ds_service_group_nodes := ds_service_group_nodes ds'\<rparr>"
      by (subst ds') (simp add: nodes ds1_def)
  qed (simp_all add: decision_update_def)
qed

lemma revoke_effect:
  assumes "apply_peer_admission_revoke ds t = Inr ds'"
  obtains n r r' at where "pj_required_text (tx_payload t) ''node_id'' = Inr n"
    "pj_required_text (tx_payload t) ''revoked_at'' = Inr at"
    "n \<notin> set (ds_node_private ds)"
    "t_get nd_node_id n (ds_nodes ds) = Some r" "nd_state r = Some ADMISSION_STATE_ACTIVE"
    "t_get nd_node_id n (ds_nodes ds') = Some r'" "nd_state r' = Some ADMISSION_STATE_REVOKED"
    "nd_authorization_mode r' = AUTHORIZATION_MODE_NONE"
    "nd_signing_public_key r' = nd_signing_public_key r" "nd_encryption_public_key r' = nd_encryption_public_key r"
    "\<And>m. m \<noteq> n \<Longrightarrow> t_get nd_node_id m (ds_nodes ds') = t_get nd_node_id m (ds_nodes ds)"
    "ds_envelopes ds' = map (deny_queued n at) (ds_envelopes ds)"
    "ds' = ds\<lparr>ds_nodes := ds_nodes ds', ds_envelopes := ds_envelopes ds'\<rparr>"
proof -
  from assms obtain n at oc where
    n: "pj_required_text (tx_payload t) ''node_id'' = Inr n" "n \<notin> set (ds_node_private ds)"
    and st: "node_state ds n = Some ADMISSION_STATE_ACTIVE"
    and at: "pj_required_text (tx_payload t) ''revoked_at'' = Inr at"
    and ds': "ds' = ds\<lparr>ds_nodes := t_update nd_node_id n (revocation_update at oc) (ds_nodes ds),
      ds_envelopes := map (deny_queued n at) (ds_envelopes ds)\<rparr>"
    unfolding apply_peer_admission_revoke_def Let_def
    by (elim rbind_InrE) (simp only: rguard_Inr_iff sum.inject, blast)
  from st obtain r where r: "t_get nd_node_id n (ds_nodes ds) = Some r" "nd_state r = Some ADMISSION_STATE_ACTIVE"
    by (auto simp: node_state_def or_empty_def ADMISSION_STATE_ACTIVE_def split: option.splits)
  have nodes: "ds_nodes ds' = t_update nd_node_id n (revocation_update at oc) (ds_nodes ds)" by (simp add: ds')
  have get: "t_get nd_node_id m (ds_nodes ds') = (if m = n then map_option (revocation_update at oc) (t_get nd_node_id n (ds_nodes ds))
      else t_get nd_node_id m (ds_nodes ds))" for m
    unfolding nodes by (rule t_get_update) (simp add: revocation_update_def)
  show thesis
    by (rule that [OF n(1) at n(2) r, of "revocation_update at oc r"])
      (use get r ds' in \<open>simp_all add: revocation_update_def\<close>)
qed

lemma endpoint_transition_frame:
  assumes "endpoint_transition ds t n e = Inr ds'"
  shows "ds' = ds\<lparr>ds_peer_endpoints := ds_peer_endpoints ds'\<rparr>"
proof -
  have up: "upsert_endpoint a n e s c u x co = Inr b \<Longrightarrow> b = a\<lparr>ds_peer_endpoints := ds_peer_endpoints b\<rparr>"
    "set_endpoint_state a n e s c = Inr b \<Longrightarrow> b = a\<lparr>ds_peer_endpoints := ds_peer_endpoints b\<rparr>"
    for a b :: datastore and n e s c u x co
    by (auto simp: upsert_endpoint_def set_endpoint_state_def rbind_Inr_iff split: if_splits)
  have rm: "remove_active_endpoint a n e c = Inr b \<Longrightarrow> b = a\<lparr>ds_peer_endpoints := ds_peer_endpoints b\<rparr>"
    for a b :: datastore and n e c
    using up(2) by (auto simp: remove_active_endpoint_def split: option.splits if_splits)
  have two: "b = a\<lparr>ds_peer_endpoints := ds_peer_endpoints b\<rparr> \<Longrightarrow> c = b\<lparr>ds_peer_endpoints := ds_peer_endpoints c\<rparr>
      \<Longrightarrow> c = a\<lparr>ds_peer_endpoints := ds_peer_endpoints c\<rparr>" for a b c :: datastore
    by (cases a; cases b; cases c) simp
  show ?thesis
    using assms unfolding endpoint_transition_def Let_def
    by (auto simp: rbind_Inr_iff split: if_splits intro: up two [OF rm up(1)])
qed


lemma refresh_service_address_state:
  "t_get nd_node_id m (ds_nodes (refresh_service_address ds n now)) =
    map_option (\<lambda>r. if m = n
      then r\<lparr>nd_service_address := map_option ep_endpoint (first_by endpoint_recent (active_endpoints ds n)),
             nd_last_seen_at := now, nd_updated_at := now\<rparr> else r) (t_get nd_node_id m (ds_nodes ds))"
proof (cases "m = n")
  case True
  then show ?thesis unfolding refresh_service_address_def by (simp, subst t_get_update) simp_all
next
  case False
  then show ?thesis
    unfolding refresh_service_address_def by (simp, subst t_get_update) (simp_all add: option.map_ident)
qed

lemma endpoint_transaction_effect:
  assumes "apply_peer_endpoint_transaction ds t = Inr ds'"
  obtains n e ds1 where "endpoint_node_id (tx_payload t) = Inr n"
    "validate_endpoint (payload_get (tx_payload t) ''endpoint'') ''endpoint'' = Inr e"
    "endpoint_transition ds t n e = Inr ds1" "ds1 = ds\<lparr>ds_peer_endpoints := ds_peer_endpoints ds1\<rparr>"
    "ds' = refresh_service_address ds1 n (tx_created_at t)"
proof -
  from assms obtain n e ds1 where s: "endpoint_node_id (tx_payload t) = Inr n"
    "validate_endpoint (payload_get (tx_payload t) ''endpoint'') ''endpoint'' = Inr e"
    "endpoint_transition ds t n e = Inr ds1" "ds' = refresh_service_address ds1 n (tx_created_at t)"
    unfolding apply_peer_endpoint_transaction_def by (elim rbind_InrE) simp
  show thesis by (rule that [OF s(1-3) endpoint_transition_frame [OF s(3)] s(4)])
qed

lemma has_identity_no_placeholder: "has_identity r \<Longrightarrow> \<not> is_replay_support_placeholder r"
  by (auto simp: has_identity_def is_replay_support_placeholder_def bytes_or_empty_def)

definition same_identity :: "node_row \<Rightarrow> node_row \<Rightarrow> bool" where
  "same_identity r r' \<longleftrightarrow>
     nd_signing_public_key r' = nd_signing_public_key r \<and> nd_encryption_public_key r' = nd_encryption_public_key r"

lemma same_identity_has: "same_identity r r' \<Longrightarrow> has_identity r \<Longrightarrow> has_identity r'"
  by (simp add: same_identity_def has_identity_def)

lemma decision_node:
  assumes "apply_peer_admission_decision ds t target field um am = Inr ds'"
    and "t_get nd_node_id n (ds_nodes ds) = Some r"
  shows "\<exists>r'. t_get nd_node_id n (ds_nodes ds') = Some r' \<and> same_identity r r' \<and>
    (nd_state r' = nd_state r \<or> nd_state r = Some ADMISSION_STATE_REQUESTED \<and> nd_state r' = Some target)"
proof -
  from assms(1) obtain m q q' mode where d: "t_get nd_node_id m (ds_nodes ds) = Some q"
    "nd_state q = Some ADMISSION_STATE_REQUESTED" "t_get nd_node_id m (ds_nodes ds') = Some q'"
    "nd_state q' = Some target" "nd_signing_public_key q' = nd_signing_public_key q"
    "nd_encryption_public_key q' = nd_encryption_public_key q"
    "\<And>k. k \<noteq> m \<Longrightarrow> t_get nd_node_id k (ds_nodes ds') = t_get nd_node_id k (ds_nodes ds)"
    by (rule decision_effect) blast
  show ?thesis
  proof (cases "n = m")
    case True
    with d(1) assms(2) have "q = r" by simp
    with d True show ?thesis by (simp add: same_identity_def)
  next
    case False
    with d(7) assms(2) show ?thesis by (simp add: same_identity_def)
  qed
qed

lemma peer_step_node:
  assumes "peer_step h ds ds'" and "t_get nd_node_id n (ds_nodes ds) = Some r" and "has_identity r"
  shows "\<exists>r'. t_get nd_node_id n (ds_nodes ds') = Some r' \<and> same_identity r r' \<and>
    (nd_state r' = nd_state r \<or> (\<exists>a b. nd_state r = Some a \<and> nd_state r' = Some b \<and> admission_edge a b))"
  using assms(1)
proof cases
  case (request t)
  then obtain m where m: "\<And>q. t_get nd_node_id m (ds_nodes ds) = Some q \<Longrightarrow> is_replay_support_placeholder q"
    "\<And>k. k \<noteq> m \<Longrightarrow> t_get nd_node_id k (ds_nodes ds') = t_get nd_node_id k (ds_nodes ds)"
    by (rule request_effect) blast
  from m(1) assms(2,3) have "n \<noteq> m" using has_identity_no_placeholder by blast
  with m(2) assms(2) show ?thesis by (simp add: same_identity_def)
next
  case (accept t)
  then show ?thesis
    using decision_node [OF accept [unfolded apply_peer_admission_accept_def] assms(2)] admission_edge.intros by blast
next
  case (reject t)
  then show ?thesis
    using decision_node [OF reject [unfolded apply_peer_admission_reject_def] assms(2)] admission_edge.intros by blast
next
  case (revoke t)
  then obtain m q q' where d: "t_get nd_node_id m (ds_nodes ds) = Some q"
    "nd_state q = Some ADMISSION_STATE_ACTIVE" "t_get nd_node_id m (ds_nodes ds') = Some q'"
    "nd_state q' = Some ADMISSION_STATE_REVOKED" "nd_signing_public_key q' = nd_signing_public_key q"
    "nd_encryption_public_key q' = nd_encryption_public_key q"
    "\<And>k. k \<noteq> m \<Longrightarrow> t_get nd_node_id k (ds_nodes ds') = t_get nd_node_id k (ds_nodes ds)"
    by (rule revoke_effect) blast
  show ?thesis
  proof (cases "n = m")
    case True
    with d(1) assms(2) have "q = r" by simp
    with d True show ?thesis using admission_edge.intros(3) by (auto simp: same_identity_def)
  next
    case False
    with d(7) assms(2) show ?thesis by (simp add: same_identity_def)
  qed
next
  case (endpoint t)
  then obtain m e ds1 where "ds1 = ds\<lparr>ds_peer_endpoints := ds_peer_endpoints ds1\<rparr>"
    and ds': "ds' = refresh_service_address ds1 m (tx_created_at t)"
    by (rule endpoint_transaction_effect)
  then have "ds_nodes ds1 = ds_nodes ds" by (cases ds; cases ds1) simp
  with assms(2) show ?thesis by (simp add: ds' refresh_service_address_state same_identity_def)
qed


subsection \<open>One active endpoint per node\<close>

definition endpoints_wf :: "datastore \<Rightarrow> bool" where
  "endpoints_wf ds \<longleftrightarrow>
     t_keyed endpoint_key (ds_peer_endpoints ds) \<and>
     (\<forall>r \<in> set (ds_peer_endpoints ds). t_has nd_node_id (ep_node_id r) (ds_nodes ds)) \<and>
     (\<forall>r \<in> set (ds_peer_endpoints ds). \<forall>q \<in> set (ds_peer_endpoints ds).
        ep_state r = ''active'' \<longrightarrow> ep_state q = ''active'' \<longrightarrow> ep_node_id r = ep_node_id q \<longrightarrow>
        ep_endpoint r = ep_endpoint q)"

lemma t_upsert_cases:
  assumes "x \<in> set (t_upsert key r f t)"
  obtains "x \<in> set t" "key x \<noteq> key r" | "x = r" | q where "q \<in> set t" "key q = key r" "x = f q"
  using assms by (auto simp: t_upsert_def t_update_def t_has_def split: if_splits) (metis image_eqI)

lemma t_update_cases:
  assumes "x \<in> set (t_update key k f t)"
  obtains "x \<in> set t" "key x \<noteq> k" | q where "q \<in> set t" "key q = k" "x = f q"
  using assms by (auto simp: t_update_def split: if_splits)

lemma endpoints_wf_unique:
  "endpoints_wf ds \<Longrightarrow> r \<in> set (ds_peer_endpoints ds) \<Longrightarrow> q \<in> set (ds_peer_endpoints ds) \<Longrightarrow>
    ep_state r = ''active'' \<Longrightarrow> ep_state q = ''active'' \<Longrightarrow> ep_node_id r = ep_node_id q \<Longrightarrow>
    ep_endpoint r = ep_endpoint q"
  unfolding endpoints_wf_def by blast

lemma endpoints_wf_fk:
  "endpoints_wf ds \<Longrightarrow> r \<in> set (ds_peer_endpoints ds) \<Longrightarrow> t_has nd_node_id (ep_node_id r) (ds_nodes ds)"
  unfolding endpoints_wf_def by blast

lemma endpoints_wfI:
  assumes "t_keyed endpoint_key (ds_peer_endpoints ds)"
    and "\<And>r. r \<in> set (ds_peer_endpoints ds) \<Longrightarrow> t_has nd_node_id (ep_node_id r) (ds_nodes ds)"
    and "\<And>r q. r \<in> set (ds_peer_endpoints ds) \<Longrightarrow> q \<in> set (ds_peer_endpoints ds) \<Longrightarrow> ep_state r = ''active'' \<Longrightarrow>
      ep_state q = ''active'' \<Longrightarrow> ep_node_id r = ep_node_id q \<Longrightarrow> ep_endpoint r = ep_endpoint q"
  shows "endpoints_wf ds"
  unfolding endpoints_wf_def using assms by blast

lemma endpoints_wf_keyed: "endpoints_wf ds \<Longrightarrow> t_keyed endpoint_key (ds_peer_endpoints ds)"
  unfolding endpoints_wf_def by blast

lemma active_endpoints_le_1:
  assumes "endpoints_wf ds"
  shows "length (active_endpoints ds n) \<le> 1"
proof -
  have d: "distinct (map endpoint_key (active_endpoints ds n))"
    using endpoints_wf_keyed [OF assms] by (simp add: t_keyed_def active_endpoints_def distinct_map_filter)
  have eq: "endpoint_key r = endpoint_key q"
    if "r \<in> set (active_endpoints ds n)" "q \<in> set (active_endpoints ds n)" for r q
  proof -
    from that have "r \<in> set (ds_peer_endpoints ds)" "q \<in> set (ds_peer_endpoints ds)" "ep_state r = ''active''"
      "ep_state q = ''active''" "ep_node_id r = n" "ep_node_id q = n" by (simp_all add: active_endpoints_def)
    with endpoints_wf_unique [OF assms, of r q] show ?thesis by simp
  qed
  have no2: False if "active_endpoints ds n = a # b # ys" for a b ys
    using d eq [of a b] unfolding that by simp
  show ?thesis
  proof (cases "active_endpoints ds n")
    case (Cons a zs)
    then show ?thesis using no2 by (cases zs) auto
  qed simp
qed

lemma set_endpoint_state_active:
  assumes "set_endpoint_state ds n e st now = Inr ds'" and "st \<noteq> ''active''"
    and "r \<in> set (ds_peer_endpoints ds')" and "ep_state r = ''active''"
  shows "r \<in> set (ds_peer_endpoints ds)" "endpoint_key r \<noteq> (n, e)"
proof -
  from assms(1) obtain at where ds': "ds' = ds\<lparr>ds_peer_endpoints := t_update endpoint_key (n, e)
      (\<lambda>q. q\<lparr>ep_state := st, ep_updated_at := at, ep_last_seen_at := now\<rparr>) (ds_peer_endpoints ds)\<rparr>"
    by (auto simp: set_endpoint_state_def rbind_Inr_iff split: if_splits)
  let ?f = "\<lambda>q. q\<lparr>ep_state := st, ep_updated_at := at, ep_last_seen_at := now\<rparr>"
  from assms(3) have "r \<in> set (t_update endpoint_key (n, e) ?f (ds_peer_endpoints ds))" by (simp add: ds')
  then have "r \<in> set (ds_peer_endpoints ds) \<and> endpoint_key r \<noteq> (n, e)"
  proof (rule t_update_cases)
    fix q
    assume "r = ?f q"
    with assms(2,4) show ?thesis by simp
  qed simp
  then show "r \<in> set (ds_peer_endpoints ds)" "endpoint_key r \<noteq> (n, e)" by blast+
qed

lemma set_endpoint_state_wf:
  assumes "set_endpoint_state ds n e st now = Inr ds'" and "endpoints_wf ds" and "st \<noteq> ''active''"
  shows "endpoints_wf ds'"
proof -
  from assms(1) obtain at where ds': "ds' = ds\<lparr>ds_peer_endpoints := t_update endpoint_key (n, e)
      (\<lambda>q. q\<lparr>ep_state := st, ep_updated_at := at, ep_last_seen_at := now\<rparr>) (ds_peer_endpoints ds)\<rparr>"
    by (auto simp: set_endpoint_state_def rbind_Inr_iff split: if_splits)
  have keyed: "t_keyed endpoint_key (ds_peer_endpoints ds')"
    using endpoints_wf_keyed [OF assms(2)] by (simp add: ds')
  have node: "t_has nd_node_id (ep_node_id r) (ds_nodes ds')" if "r \<in> set (ds_peer_endpoints ds')" for r
  proof -
    from that obtain q where "q \<in> set (ds_peer_endpoints ds)" "ep_node_id r = ep_node_id q"
      by (auto simp: ds' t_update_def split: if_splits)
    with endpoints_wf_fk [OF assms(2)] show ?thesis by (simp add: ds')
  qed
  show ?thesis
  proof (rule endpoints_wfI [OF keyed node])
    fix r q
    assume r: "r \<in> set (ds_peer_endpoints ds')" "ep_state r = ''active''"
      and q: "q \<in> set (ds_peer_endpoints ds')" "ep_state q = ''active''" and n: "ep_node_id r = ep_node_id q"
    note old = set_endpoint_state_active(1) [OF assms(1,3)]
    show "ep_endpoint r = ep_endpoint q"
      by (rule endpoints_wf_unique [OF assms(2) old [OF r] old [OF q] r(2) q(2) n])
  qed
qed

lemma upsert_endpoint_form:
  assumes "upsert_endpoint ds n e st c u x co = Inr ds'"
  obtains row f where "ds' = ds\<lparr>ds_peer_endpoints := t_upsert endpoint_key row f (ds_peer_endpoints ds)\<rparr>"
    "t_has nd_node_id n (ds_nodes ds)" "endpoint_key row = (n, e)" "ep_state row = st"
    "\<And>q. endpoint_key (f q) = endpoint_key q" "\<And>q. ep_state (f q) = st"
proof -
  from assms obtain created updated where nn: "not_null ''peer_endpoints.created_at'' c = Inr created"
    "not_null ''peer_endpoints.updated_at'' u = Inr updated"
    unfolding upsert_endpoint_def by (elim rbind_InrE)
  define row where "row = \<lparr>ep_node_id = n, ep_endpoint = e, ep_state = st, ep_created_at = created,
      ep_updated_at = updated, ep_expires_at = x, ep_last_seen_at = u, ep_operator_comment = co\<rparr>"
  define f where "f = (\<lambda>q :: endpoint_row. q\<lparr>ep_state := st, ep_updated_at := updated, ep_expires_at := x,
      ep_last_seen_at := u, ep_operator_comment := (case co of None \<Rightarrow> ep_operator_comment q | Some c \<Rightarrow> Some c)\<rparr>)"
  have ds': "ds' = ds\<lparr>ds_peer_endpoints := t_upsert endpoint_key row f (ds_peer_endpoints ds)\<rparr>"
    and n: "t_has nd_node_id n (ds_nodes ds)"
    using assms by (simp_all add: upsert_endpoint_def nn row_def f_def split: if_splits)
  have row: "endpoint_key row = (n, e)" and st: "ep_state row = st"
    and f: "\<And>q. endpoint_key (f q) = endpoint_key q" "\<And>q. ep_state (f q) = st"
    by (simp_all add: row_def f_def)
  show thesis by (rule that [OF ds' n row st f])
qed

lemma upsert_endpoint_wf:
  assumes "upsert_endpoint ds n e st c u x co = Inr ds'" and "endpoints_wf ds"
    and only: "\<And>r. r \<in> set (ds_peer_endpoints ds) \<Longrightarrow> ep_state r = ''active'' \<Longrightarrow> ep_node_id r = n \<Longrightarrow> ep_endpoint r = e"
  shows "endpoints_wf ds'"
proof -
  obtain row f where ds': "ds' = ds\<lparr>ds_peer_endpoints := t_upsert endpoint_key row f (ds_peer_endpoints ds)\<rparr>"
    and n: "t_has nd_node_id n (ds_nodes ds)" and row: "endpoint_key row = (n, e)"
    and f: "\<And>q. endpoint_key (f q) = endpoint_key q" by (rule upsert_endpoint_form [OF assms(1)]) blast
  have cs: "r \<in> set (ds_peer_endpoints ds) \<or> endpoint_key r = (n, e)" if "r \<in> set (ds_peer_endpoints ds')" for r
  proof -
    from that have "r \<in> set (t_upsert endpoint_key row f (ds_peer_endpoints ds))" by (simp add: ds')
    then show ?thesis by (rule t_upsert_cases) (use row f in auto)
  qed
  have keyed: "t_keyed endpoint_key (ds_peer_endpoints ds')"
    using endpoints_wf_keyed [OF assms(2)] f by (simp add: ds')
  have node: "t_has nd_node_id (ep_node_id r) (ds_nodes ds')" if "r \<in> set (ds_peer_endpoints ds')" for r
    using cs [OF that] endpoints_wf_fk [OF assms(2)] n by (auto simp: ds')
  show ?thesis
  proof (rule endpoints_wfI [OF keyed node])
    fix r q
    assume r: "r \<in> set (ds_peer_endpoints ds')" "ep_state r = ''active''"
      and q: "q \<in> set (ds_peer_endpoints ds')" "ep_state q = ''active''" and nn: "ep_node_id r = ep_node_id q"
    have e: "ep_endpoint z = e" if "z \<in> set (ds_peer_endpoints ds')" "ep_state z = ''active''" "ep_node_id z = n" for z
      using cs [OF that(1)] only [of z] that(2,3) by (elim disjE) simp_all
    show "ep_endpoint r = ep_endpoint q"
    proof (cases "ep_node_id r = n")
      case True
      with e [OF r] e [OF q] nn show ?thesis by simp
    next
      case False
      with cs [OF r(1)] cs [OF q(1)] nn have "r \<in> set (ds_peer_endpoints ds)" "q \<in> set (ds_peer_endpoints ds)"
        by (elim disjE; simp)+
      from endpoints_wf_unique [OF assms(2) this r(2) q(2) nn] show ?thesis .
    qed
  qed
qed

lemma endpoint_transition_wf:
  assumes "endpoint_transition ds t n e = Inr ds'" and wf: "endpoints_wf ds"
  shows "endpoints_wf ds'"
proof -
  let ?ty = "tx_transaction_type t"
  have mem: "r \<in> set (ds_peer_endpoints ds) \<Longrightarrow> ep_state r = ''active'' \<Longrightarrow> ep_node_id r = n \<Longrightarrow>
      ep_endpoint r \<in> set (sort (map ep_endpoint (active_endpoints ds n)))" for r
    by (simp add: active_endpoints_def)
  have uniq: "x = y" if "x \<in> set (sort (map ep_endpoint (active_endpoints ds n)))"
    "y \<in> set (sort (map ep_endpoint (active_endpoints ds n)))" for x y
  proof -
    from that obtain r q where "r \<in> set (ds_peer_endpoints ds)" "q \<in> set (ds_peer_endpoints ds)"
      "ep_state r = ''active''" "ep_state q = ''active''" "ep_node_id r = n" "ep_node_id q = n"
      "x = ep_endpoint r" "y = ep_endpoint q" by (auto simp: active_endpoints_def)
    then show ?thesis using endpoints_wf_unique [OF wf, of r q] by simp
  qed
  consider (reg) "?ty = ''peer.endpoint.register''" | (upd) "?ty \<in> {''peer.endpoint.update'', ''peer.endpoint.replace''}"
    | (exp) "?ty = ''peer.endpoint.expire''" | (rem) "?ty = ''peer.endpoint.remove''"
    using assms(1) by (auto simp: endpoint_transition_def Let_def split: if_splits)
  then show ?thesis
  proof cases
    case reg
    with assms(1) obtain c u x co where
      a: "sort (map ep_endpoint (active_endpoints ds n)) = [] \<or> e \<in> set (sort (map ep_endpoint (active_endpoints ds n)))"
      and up: "upsert_endpoint ds n e ''active'' c u x co = Inr ds'"
      unfolding endpoint_transition_def Let_def by (auto simp: rbind_Inr_iff)
    show ?thesis
    proof (rule upsert_endpoint_wf [OF up wf])
      fix r
      assume r: "r \<in> set (ds_peer_endpoints ds)" "ep_state r = ''active''" "ep_node_id r = n"
      from a mem [OF r] have "e \<in> set (sort (map ep_endpoint (active_endpoints ds n)))" by (metis empty_iff empty_set)
      with mem [OF r] show "ep_endpoint r = e" using uniq by blast
    qed
  next
    case upd
    with assms(1) obtain prev ds1 c u x co where rm: "remove_active_endpoint ds n prev u = Inr ds1"
      and up: "upsert_endpoint ds1 n e ''active'' c u x co = Inr ds'"
      unfolding endpoint_transition_def Let_def by (auto simp: rbind_Inr_iff)
    from rm obtain q where q: "t_get endpoint_key (n, prev) (ds_peer_endpoints ds) = Some q" "ep_state q = ''active''"
      and st: "set_endpoint_state ds n prev ''removed'' u = Inr ds1"
      by (auto simp: remove_active_endpoint_def split: option.splits if_splits)
    have wf1: "endpoints_wf ds1" by (rule set_endpoint_state_wf [OF st wf]) simp
    have q': "q \<in> set (ds_peer_endpoints ds)" "ep_node_id q = n" "ep_endpoint q = prev"
      using t_get_SomeD [OF q(1)] by simp_all
    show ?thesis
    proof (rule upsert_endpoint_wf [OF up wf1])
      fix r
      assume r: "r \<in> set (ds_peer_endpoints ds1)" "ep_state r = ''active''" "ep_node_id r = n"
      have old: "r \<in> set (ds_peer_endpoints ds)" "\<not> (ep_node_id r = n \<and> ep_endpoint r = prev)"
        using set_endpoint_state_active [OF st _ r(1,2)] by simp_all
      with endpoints_wf_unique [OF wf, of r q] q q' r show "ep_endpoint r = e" by simp
    qed
  next
    case exp
    with assms(1) have "set_endpoint_state ds n e ''expired'' (tx_created_at t) = Inr ds'"
      unfolding endpoint_transition_def Let_def by (auto simp: rbind_Inr_iff)
    then show ?thesis by (rule set_endpoint_state_wf) (simp_all add: wf)
  next
    case rem
    with assms(1) have "set_endpoint_state ds n e ''removed'' (tx_created_at t) = Inr ds'"
      unfolding endpoint_transition_def Let_def by (auto simp: rbind_Inr_iff)
    then show ?thesis by (rule set_endpoint_state_wf) (simp_all add: wf)
  qed
qed


lemma endpoints_wf_nodes:
  assumes "endpoints_wf ds" and "ds_peer_endpoints ds' = ds_peer_endpoints ds"
    and "\<And>n. t_get nd_node_id n (ds_nodes ds) \<noteq> None \<Longrightarrow> t_get nd_node_id n (ds_nodes ds') \<noteq> None"
  shows "endpoints_wf ds'"
  using assms unfolding endpoints_wf_def assms(2) by (simp only: t_get_None_iff not_not) blast

lemma peer_step_endpoints_wf:
  assumes "peer_step h ds ds'" and wf: "endpoints_wf ds"
  shows "endpoints_wf ds'"
  using assms(1)
proof cases
  case (request t)
  then obtain n r where e: "t_get nd_node_id n (ds_nodes ds') = Some r"
    "\<And>m. m \<noteq> n \<Longrightarrow> t_get nd_node_id m (ds_nodes ds') = t_get nd_node_id m (ds_nodes ds)"
    "ds' = ds\<lparr>ds_nodes := ds_nodes ds', ds_peer_groups := ds_peer_groups ds'\<rparr>" by (rule request_effect) blast
  have "ds_peer_endpoints ds' = ds_peer_endpoints ds" by (subst e(3)) simp
  then show ?thesis by (rule endpoints_wf_nodes [OF wf]) (metis e(1,2) option.distinct(1))
next
  case (accept t)
  from this [unfolded apply_peer_admission_accept_def]
  obtain n r where e: "t_get nd_node_id n (ds_nodes ds') = Some r"
    "\<And>m. m \<noteq> n \<Longrightarrow> t_get nd_node_id m (ds_nodes ds') = t_get nd_node_id m (ds_nodes ds)"
    "ds' = ds\<lparr>ds_nodes := ds_nodes ds', ds_service_groups := ds_service_groups ds',
      ds_service_group_nodes := ds_service_group_nodes ds'\<rparr>" by (rule decision_effect) blast
  have "ds_peer_endpoints ds' = ds_peer_endpoints ds" by (subst e(3)) simp
  then show ?thesis by (rule endpoints_wf_nodes [OF wf]) (metis e(1,2) option.distinct(1))
next
  case (reject t)
  from this [unfolded apply_peer_admission_reject_def]
  obtain n r where e: "t_get nd_node_id n (ds_nodes ds') = Some r"
    "\<And>m. m \<noteq> n \<Longrightarrow> t_get nd_node_id m (ds_nodes ds') = t_get nd_node_id m (ds_nodes ds)"
    "ds' = ds\<lparr>ds_nodes := ds_nodes ds', ds_service_groups := ds_service_groups ds',
      ds_service_group_nodes := ds_service_group_nodes ds'\<rparr>" by (rule decision_effect) blast
  have "ds_peer_endpoints ds' = ds_peer_endpoints ds" by (subst e(3)) simp
  then show ?thesis by (rule endpoints_wf_nodes [OF wf]) (metis e(1,2) option.distinct(1))
next
  case (revoke t)
  then obtain n r where e: "t_get nd_node_id n (ds_nodes ds') = Some r"
    "\<And>m. m \<noteq> n \<Longrightarrow> t_get nd_node_id m (ds_nodes ds') = t_get nd_node_id m (ds_nodes ds)"
    "ds' = ds\<lparr>ds_nodes := ds_nodes ds', ds_envelopes := ds_envelopes ds'\<rparr>" by (rule revoke_effect) blast
  have "ds_peer_endpoints ds' = ds_peer_endpoints ds" by (subst e(3)) simp
  then show ?thesis by (rule endpoints_wf_nodes [OF wf]) (metis e(1,2) option.distinct(1))
next
  case (endpoint t)
  then obtain m e ds1 where tr: "endpoint_transition ds t m e = Inr ds1"
    and ds': "ds' = refresh_service_address ds1 m (tx_created_at t)"
    by (rule endpoint_transaction_effect)
  from endpoint_transition_wf [OF tr wf] show ?thesis
    by (rule endpoints_wf_nodes) (simp add: ds' refresh_service_address_def, simp add: ds' refresh_service_address_state)
qed

lemma endpoint_active_after:
  assumes "endpoint_transition ds t n e = Inr ds'"
  shows "tx_transaction_type t \<in> {''peer.endpoint.register'', ''peer.endpoint.update'', ''peer.endpoint.replace''} \<Longrightarrow>
      \<exists>r \<in> set (active_endpoints ds' n). ep_endpoint r = e"
    and "tx_transaction_type t \<in> {''peer.endpoint.expire'', ''peer.endpoint.remove''} \<Longrightarrow>
      \<forall>r \<in> set (active_endpoints ds' n). ep_endpoint r \<noteq> e"
proof -
  assume "tx_transaction_type t \<in> {''peer.endpoint.register'', ''peer.endpoint.update'', ''peer.endpoint.replace''}"
  with assms obtain d c u x co where up: "upsert_endpoint d n e ''active'' c u x co = Inr ds'"
    unfolding endpoint_transition_def Let_def by (auto simp: rbind_Inr_iff split: if_splits)
  obtain row f where ds': "ds' = d\<lparr>ds_peer_endpoints := t_upsert endpoint_key row f (ds_peer_endpoints d)\<rparr>"
    and row: "endpoint_key row = (n, e)" "ep_state row = ''active''"
    and f: "\<And>q. endpoint_key (f q) = endpoint_key q" "\<And>q. ep_state (f q) = ''active''"
    by (rule upsert_endpoint_form [OF up]) blast
  have "t_get endpoint_key (n, e) (ds_peer_endpoints ds') =
      Some (case t_get endpoint_key (n, e) (ds_peer_endpoints d) of None \<Rightarrow> row | Some q \<Rightarrow> f q)"
    using t_get_upsert [of endpoint_key f "(n, e)" row, OF f(1)] row(1) by (simp add: ds')
  then obtain r where r: "t_get endpoint_key (n, e) (ds_peer_endpoints ds') = Some r" "ep_state r = ''active''"
    using row(2) f(2) by (cases "t_get endpoint_key (n, e) (ds_peer_endpoints d)") simp_all
  then have "r \<in> set (active_endpoints ds' n)" "ep_endpoint r = e"
    using t_get_SomeD [OF r(1)] by (simp_all add: active_endpoints_def)
  then show "\<exists>r \<in> set (active_endpoints ds' n). ep_endpoint r = e" by blast
next
  assume "tx_transaction_type t \<in> {''peer.endpoint.expire'', ''peer.endpoint.remove''}"
  with assms obtain st where st: "set_endpoint_state ds n e st (tx_created_at t) = Inr ds'" "st \<noteq> ''active''"
    unfolding endpoint_transition_def Let_def by (auto simp: rbind_Inr_iff split: if_splits)
  have "ep_endpoint r \<noteq> e" if "r \<in> set (active_endpoints ds' n)" for r
    using set_endpoint_state_active(2) [OF st, of r] that by (simp add: active_endpoints_def)
  then show "\<forall>r \<in> set (active_endpoints ds' n). ep_endpoint r \<noteq> e" by blast
qed

lemma endpoint_only_active:
  assumes "endpoint_transition ds t n e = Inr ds1" "endpoints_wf ds"
    and "tx_transaction_type t \<in> {''peer.endpoint.register'', ''peer.endpoint.update'', ''peer.endpoint.replace''}"
  shows "map ep_endpoint (active_endpoints ds1 n) = [e]"
  using endpoint_active_after(1) [OF assms(1,3)] active_endpoints_le_1 [OF endpoint_transition_wf [OF assms(1,2)], of n]
  by (cases "active_endpoints ds1 n") auto


subsection \<open>Properties\<close>

lemma modes_set: "set AUTHORIZATION_MODES = {''none'', ''allow_list'', ''all''}"
  by (simp add: AUTHORIZATION_MODES_def AUTHORIZATION_MODE_NONE_def AUTHORIZATION_MODE_ALLOW_LIST_def
      AUTHORIZATION_MODE_ALL_def)

lemma entry_from_row_total:
  assumes "nd_authorization_mode r \<in> {''none'', ''allow_list'', ''all''}"
  obtains e where "entry_from_row ds r = Inr e"
proof (cases "entry_from_row ds r")
  case (Inl x)
  moreover have "nd_authorization_mode r \<noteq> []" using assms by auto
  ultimately show thesis
    using assms unfolding entry_from_row_def Let_def modes_set by (auto split: prod.split_asm if_split_asm)
next
  case (Inr e)
  then show thesis by (rule that)
qed

lemma entry_from_row_fields:
  assumes "entry_from_row ds r = Inr e"
  shows "pr_synchronization_eligible e \<longleftrightarrow> nd_state r = Some ADMISSION_STATE_ACTIVE"
    "pr_authorization_mode e = (if nd_authorization_mode r = [] then AUTHORIZATION_MODE_NONE else nd_authorization_mode r)"
    "pr_service_group_ids e = registry_service_group_ids ds (nd_node_id r)"
proof -
  obtain a b c where m: "endpoint_metadata ds (nd_node_id r) (or_empty (nd_service_address r)) = (a, b, c)"
    using prod_cases3 by blast
  have act: "or_empty (nd_state r) = ADMISSION_STATE_ACTIVE \<longleftrightarrow> nd_state r = Some ADMISSION_STATE_ACTIVE"
    by (cases "nd_state r") (simp_all add: or_empty_def ADMISSION_STATE_ACTIVE_def)
  show "pr_synchronization_eligible e \<longleftrightarrow> nd_state r = Some ADMISSION_STATE_ACTIVE"
    "pr_authorization_mode e = (if nd_authorization_mode r = [] then AUTHORIZATION_MODE_NONE else nd_authorization_mode r)"
    "pr_service_group_ids e = registry_service_group_ids ds (nd_node_id r)"
    using assms act unfolding entry_from_row_def Let_def m authorization_state_def
    by (auto split: if_split_asm)
qed

lemma admission_edge_source:
  "admission_edge a b \<Longrightarrow> a \<in> {ADMISSION_STATE_REQUESTED, ADMISSION_STATE_ACTIVE} \<and>
    a \<notin> {ADMISSION_STATE_REJECTED, ADMISSION_STATE_REVOKED}"
  by (erule admission_edge.cases) (simp_all add: admission_states)

text \<open>C28. Whatever admission and endpoint transactions are applied, in whatever order, a node that has
  asked for admission keeps its row and both public keys, and its admission state moves only along
  requested to active, requested to rejected and active to revoked: a rejected or revoked node never
  becomes anything else, and an active one was requested.\<close>

theorem admission_lifecycle:
  assumes "(peer_step h)\<^sup>*\<^sup>* ds ds'" and "t_get nd_node_id n (ds_nodes ds) = Some r" and "has_identity r"
    and "nd_state r = Some s"
  shows "\<exists>r' s'. t_get nd_node_id n (ds_nodes ds') = Some r' \<and> same_identity r r' \<and> nd_state r' = Some s' \<and>
    admission_edge\<^sup>*\<^sup>* s s' \<and>
    (s \<in> {ADMISSION_STATE_REJECTED, ADMISSION_STATE_REVOKED} \<longrightarrow> s' = s) \<and>
    (s' = ADMISSION_STATE_ACTIVE \<longrightarrow> s \<in> {ADMISSION_STATE_REQUESTED, ADMISSION_STATE_ACTIVE})"
proof -
  have "\<exists>r' s'. t_get nd_node_id n (ds_nodes ds') = Some r' \<and> same_identity r r' \<and> nd_state r' = Some s' \<and>
      admission_edge\<^sup>*\<^sup>* s s'"
    using assms(1)
  proof (induction rule: rtranclp_induct)
    case base
    then show ?case using assms by (auto simp: same_identity_def)
  next
    case (step d d')
    then obtain q t where q: "t_get nd_node_id n (ds_nodes d) = Some q" "same_identity r q" "nd_state q = Some t"
      "admission_edge\<^sup>*\<^sup>* s t" by blast
    from peer_step_node [OF step.hyps(2) q(1) same_identity_has [OF q(2) assms(3)]]
    obtain q' where q': "t_get nd_node_id n (ds_nodes d') = Some q'" "same_identity q q'"
      and st: "nd_state q' = nd_state q \<or> (\<exists>a b. nd_state q = Some a \<and> nd_state q' = Some b \<and> admission_edge a b)"
      by blast
    have "same_identity r q'" using q(2) q'(2) by (simp add: same_identity_def)
    moreover from st q(3,4) have "\<exists>t'. nd_state q' = Some t' \<and> admission_edge\<^sup>*\<^sup>* s t'"
      by (auto intro: rtranclp.rtrancl_into_rtrancl)
    ultimately show ?case using q' by blast
  qed
  then obtain r' s' where r': "t_get nd_node_id n (ds_nodes ds') = Some r'" "same_identity r r'" "nd_state r' = Some s'"
    and e: "admission_edge\<^sup>*\<^sup>* s s'" by blast
  from e have "s \<in> {ADMISSION_STATE_REJECTED, ADMISSION_STATE_REVOKED} \<longrightarrow> s' = s"
    by (induction rule: converse_rtranclp_induct) (use admission_edge_source in blast)+
  moreover from e have "s' = ADMISSION_STATE_ACTIVE \<longrightarrow> s \<in> {ADMISSION_STATE_REQUESTED, ADMISSION_STATE_ACTIVE}"
    by (induction rule: converse_rtranclp_induct) (use admission_edge_source in blast)+
  ultimately show ?thesis using r' e by blast
qed

definition example_peer :: node_row where
  "example_peer = (blank_node (format_identifier Node 2) PEER_ADMISSION_GROUP_ID)\<lparr>
     nd_signing_public_key := Some (replicate 32 CHR ''s''), nd_encryption_public_key := Some (replicate 32 CHR ''e''),
     nd_state := Some ADMISSION_STATE_REQUESTED\<rparr>"

definition example_peers :: datastore where
  "example_peers = empty_datastore\<lparr>ds_nodes := [example_node_row, example_peer]\<rparr>"

definition example_accept :: Transaction where
  "example_accept = example_transaction ''peer.admission.accept''
     [(''node_id'', JStr (format_identifier Node 2)), (''authorization_mode'', JStr ''all'')] 8"

lemma example_accept_applied:
  "apply_peer_admission_accept example_peers example_accept =
    Inr (example_peers\<lparr>ds_nodes := [example_node_row, decision_update ADMISSION_STATE_ACTIVE
      (Some ''2026-01-01T00:00:00Z'') None None ''all'' example_peer]\<rparr>)"
proof -
  have "format_identifier Node 1 \<noteq> format_identifier Node 2" by (simp add: format_identifier_inject)
  with is_identifier_not_Nil [OF is_identifier_format] show ?thesis
    by (simp add: apply_peer_admission_accept_def apply_peer_admission_decision_def example_accept_def
        example_transaction_def pj_validate_required_fields_def DECISION_REQUIRED_FIELDS_def dict_has_def
        pj_required_text_def payload_get_def node_state_def example_peers_def empty_datastore_def t_get_Cons
        example_peer_def blank_node_def example_node_row_def admission_states or_empty_def pj_optional_text_def
        truthy_def authorization_mode_for_decision_def AUTHORIZATION_MODES_def AUTHORIZATION_MODE_NONE_def
        AUTHORIZATION_MODE_ALL_def AUTHORIZATION_MODE_ALLOW_LIST_def auth_optional_text_list_def t_update_def)
qed

theorem admission_lifecycle_witness:
  "\<exists>ds' r'. (peer_step example_host)\<^sup>*\<^sup>* example_peers ds' \<and>
    t_get nd_node_id (format_identifier Node 2) (ds_nodes ds') = Some r' \<and> nd_state r' = Some ADMISSION_STATE_ACTIVE \<and>
    nd_signing_public_key r' = Some (replicate 32 CHR ''s'')"
proof -
  let ?ds = "example_peers\<lparr>ds_nodes := [example_node_row, decision_update ADMISSION_STATE_ACTIVE
      (Some ''2026-01-01T00:00:00Z'') None None ''all'' example_peer]\<rparr>"
  have ne: "format_identifier Node 1 \<noteq> format_identifier Node 2" by (simp add: format_identifier_inject)
  have steps: "(peer_step example_host)\<^sup>*\<^sup>* example_peers ?ds"
    using peer_step.accept [OF example_accept_applied] by (rule r_into_rtranclp)
  have "t_get nd_node_id (format_identifier Node 2) (ds_nodes example_peers) = Some example_peer"
    using ne by (simp add: example_peers_def t_get_Cons example_node_row_def example_peer_def blank_node_def)
  from admission_lifecycle [OF steps this] obtain r' where
    "t_get nd_node_id (format_identifier Node 2) (ds_nodes ?ds) = Some r'" "same_identity example_peer r'"
    by (auto simp: has_identity_def example_peer_def)
  with steps ne show ?thesis
    by (intro exI [of _ ?ds] exI [of _ r'])
      (auto simp: t_get_Cons example_node_row_def decision_update_def example_peer_def blank_node_def same_identity_def)
qed

text \<open>C32. Endpoints: whatever peer transactions are applied, no node ever has two active endpoints. An
  applied register, update or replace leaves its endpoint as the only active one, an applied expire or
  remove leaves it inactive, and the service address of the node is then exactly the active endpoint
  (none if there is none).\<close>

theorem endpoint_lifecycle:
  assumes "endpoints_wf ds"
  shows "((peer_step h)\<^sup>*\<^sup>* ds ds' \<longrightarrow> endpoints_wf ds' \<and> (\<forall>n. length (active_endpoints ds' n) \<le> 1)) \<and>
    (apply_peer_endpoint_transaction ds t = Inr ds' \<longrightarrow>
      (\<exists>n e. endpoint_node_id (tx_payload t) = Inr n \<and>
        validate_endpoint (payload_get (tx_payload t) ''endpoint'') ''endpoint'' = Inr e \<and>
        (tx_transaction_type t \<in> {''peer.endpoint.register'', ''peer.endpoint.update'', ''peer.endpoint.replace''} \<longrightarrow>
          map ep_endpoint (active_endpoints ds' n) = [e]) \<and>
        (tx_transaction_type t \<in> {''peer.endpoint.expire'', ''peer.endpoint.remove''} \<longrightarrow>
          e \<notin> set (map ep_endpoint (active_endpoints ds' n))) \<and>
        (\<forall>r. t_get nd_node_id n (ds_nodes ds') = Some r \<longrightarrow>
          nd_service_address r = (case active_endpoints ds' n of [] \<Rightarrow> None | a # _ \<Rightarrow> Some (ep_endpoint a)))))"
    (is "(_ \<longrightarrow> _) \<and> (_ \<longrightarrow> ?effect)")
proof (intro conjI impI)
  assume "(peer_step h)\<^sup>*\<^sup>* ds ds'"
  then show wf: "endpoints_wf ds'"
    using assms by (induction rule: rtranclp_induct) (auto intro: peer_step_endpoints_wf)
  then show "\<forall>n. length (active_endpoints ds' n) \<le> 1" using active_endpoints_le_1 by blast
next
  assume a: "apply_peer_endpoint_transaction ds t = Inr ds'"
  then obtain n e ds1 where s: "endpoint_node_id (tx_payload t) = Inr n"
    "validate_endpoint (payload_get (tx_payload t) ''endpoint'') ''endpoint'' = Inr e"
    "endpoint_transition ds t n e = Inr ds1" and ds': "ds' = refresh_service_address ds1 n (tx_created_at t)"
    by (rule endpoint_transaction_effect)
  have le: "length (active_endpoints ds1 n) \<le> 1"
    using endpoint_transition_wf [OF s(3) assms] by (rule active_endpoints_le_1)
  have same: "active_endpoints ds' n = active_endpoints ds1 n"
    by (simp add: ds' refresh_service_address_def active_endpoints_def)
  consider "active_endpoints ds1 n = []" | x where "active_endpoints ds1 n = [x]"
    using le by (cases "active_endpoints ds1 n") auto
  then have addr: "nd_service_address r = (case active_endpoints ds' n of [] \<Rightarrow> None | a # _ \<Rightarrow> Some (ep_endpoint a))"
    if "t_get nd_node_id n (ds_nodes ds') = Some r" for r
    using that unfolding same by cases (auto simp: ds' refresh_service_address_state first_by_def)
  have active: "map ep_endpoint (active_endpoints ds' n) = [e]"
    if "tx_transaction_type t \<in> {''peer.endpoint.register'', ''peer.endpoint.update'', ''peer.endpoint.replace''}"
    unfolding same by (rule endpoint_only_active [OF s(3) assms that])
  have inactive: "e \<notin> set (map ep_endpoint (active_endpoints ds' n))"
    if "tx_transaction_type t \<in> {''peer.endpoint.expire'', ''peer.endpoint.remove''}"
    using endpoint_active_after(2) [OF s(3) that] unfolding same by auto
  show ?effect
    by (intro exI conjI impI allI, rule s(1), rule s(2), erule active, erule inactive, erule addr)
qed

lemma eligible_row:
  assumes n: "is_identifier Node n" and sg: "pred_option (is_identifier Service_group) sg" and known: "n \<notin> set (ds_node_private ds)"
    and r: "t_get nd_node_id n (ds_nodes ds) = Some r" and mode: "nd_authorization_mode r \<in> {''none'', ''allow_list'', ''all''}"
    and may: "may \<longleftrightarrow> nd_state r = Some ADMISSION_STATE_ACTIVE \<and> (\<forall>g. sg = Some g \<longrightarrow>
      nd_authorization_mode r = AUTHORIZATION_MODE_ALL \<or>
      nd_authorization_mode r = AUTHORIZATION_MODE_ALLOW_LIST \<and> g \<in> set (registry_service_group_ids ds n))"
  shows "is_peer_synchronization_eligible ds n sg = Inr may" "require_peer_synchronization_eligible ds n sg = Inr () \<longleftrightarrow> may"
proof -
  have id: "nd_node_id r = n" using t_get_SomeD [OF r] by simp
  from mode obtain e where e: "entry_from_row ds r = Inr e" by (rule entry_from_row_total)
  have f: "pr_synchronization_eligible e \<longleftrightarrow> nd_state r = Some ADMISSION_STATE_ACTIVE"
    "pr_authorization_mode e = nd_authorization_mode r" "pr_service_group_ids e = registry_service_group_ids ds n"
    using entry_from_row_fields [OF e] mode id by auto
  have get: "get_peer_registry_entry ds n = Inr (Some e)"
    using known r e validate_identifier_ok [OF n] by (simp add: get_peer_registry_entry_def)
  have distinct: "AUTHORIZATION_MODE_ALL \<noteq> AUTHORIZATION_MODE_ALLOW_LIST"
    by (simp add: AUTHORIZATION_MODE_ALL_def AUTHORIZATION_MODE_ALLOW_LIST_def)
  have "sg = Some g \<Longrightarrow> validate_identifier g Service_group ''service_group_id'' = Inr g" for g
    using sg by (simp add: validate_identifier_ok)
  with may distinct show "is_peer_synchronization_eligible ds n sg = Inr may" "require_peer_synchronization_eligible ds n sg = Inr () \<longleftrightarrow> may"
    by (cases sg; simp add: is_peer_synchronization_eligible_def require_peer_synchronization_eligible_def get f)+
qed

text \<open>C34. Both eligibility functions of the registry decide the same thing, and it is this: the node is
  known and not the local one, its admission is active, and for a service group its mode is \<open>all\<close>, or
  \<open>allow_list\<close> with an active assignment to that group. In particular a requested, rejected or revoked
  peer, and an active one with mode \<open>none\<close>, may not synchronise any service group.\<close>

theorem eligibility_decision:
  assumes "is_identifier Node n" and "pred_option (is_identifier Service_group) sg"
    and "\<forall>r \<in> set (ds_nodes ds). node_checks r"
  shows "(is_peer_synchronization_eligible ds n sg = Inr True \<longleftrightarrow> require_peer_synchronization_eligible ds n sg = Inr ()) \<and>
    (\<exists>b. is_peer_synchronization_eligible ds n sg = Inr b) \<and>
    (is_peer_synchronization_eligible ds n sg = Inr True \<longleftrightarrow>
      n \<notin> set (ds_node_private ds) \<and>
      (\<exists>r. t_get nd_node_id n (ds_nodes ds) = Some r \<and> nd_state r = Some ADMISSION_STATE_ACTIVE \<and>
        (\<forall>g. sg = Some g \<longrightarrow> nd_authorization_mode r = AUTHORIZATION_MODE_ALL \<or>
          nd_authorization_mode r = AUTHORIZATION_MODE_ALLOW_LIST \<and>
          (\<exists>a \<in> set (ds_service_group_nodes ds). sn_node_id a = n \<and> sn_service_group_id a = g \<and> sn_state a = ''active''))))"
proof (cases "n \<in> set (ds_node_private ds) \<or> t_get nd_node_id n (ds_nodes ds) = None")
  case True
  then show ?thesis
    using validate_identifier_ok [OF assms(1)]
    by (auto simp: is_peer_synchronization_eligible_def require_peer_synchronization_eligible_def
        get_peer_registry_entry_def)
next
  case False
  then obtain r where r: "n \<notin> set (ds_node_private ds)" "t_get nd_node_id n (ds_nodes ds) = Some r" by auto
  have "nd_authorization_mode r \<in> {''none'', ''allow_list'', ''all''}" using t_get_SomeD [OF r(2)] assms(3) by (auto simp: node_checks_def)
  note d = eligible_row [OF assms(1,2) r this refl]
  have "g \<in> set (registry_service_group_ids ds n) \<longleftrightarrow>
      (\<exists>a \<in> set (ds_service_group_nodes ds). sn_node_id a = n \<and> sn_service_group_id a = g \<and> sn_state a = ''active'')" for g
    by (auto simp: registry_service_group_ids_def)
  with r show ?thesis unfolding d by simp
qed

definition example_register :: Transaction where
  "example_register = example_transaction ''peer.endpoint.register''
     [(''node_id'', JStr (format_identifier Node 2)), (''endpoint'', JStr ''tcp://b'')] 8"

lemma example_register_fields:
  "endpoint_node_id (tx_payload example_register) = Inr (format_identifier Node 2)"
  "validate_endpoint (payload_get (tx_payload example_register) ''endpoint'') ''endpoint'' = Inr ''tcp://b''"
proof -
  show "endpoint_node_id (tx_payload example_register) = Inr (format_identifier Node 2)"
    using validate_identifier_ok [OF is_identifier_format]
    by (simp add: endpoint_node_id_def example_register_def example_transaction_def payload_get_def
        validate_identifier_value_def)
  have "validate_endpoint (Some (JStr ''tcp://b'')) ''endpoint'' = Inr ''tcp://b''" by code_simp
  then show "validate_endpoint (payload_get (tx_payload example_register) ''endpoint'') ''endpoint'' = Inr ''tcp://b''"
    by (simp add: example_register_def example_transaction_def payload_get_def)
qed

lemma example_register_transition:
  "\<exists>ds1. endpoint_transition example_peers example_register (format_identifier Node 2) ''tcp://b'' = Inr ds1"
  by (simp add: endpoint_transition_def example_register_def example_transaction_def payload_get_def
      example_peers_def empty_datastore_def active_endpoints_def ep_optional_text_def upsert_endpoint_def
      t_has_def t_get_Cons example_peer_def blank_node_def rguard_def not_null_def Let_def)

theorem endpoint_lifecycle_witness:
  "endpoints_wf example_peers \<and>
    (\<exists>ds'. apply_peer_endpoint_transaction example_peers example_register = Inr ds' \<and>
      map ep_endpoint (active_endpoints ds' (format_identifier Node 2)) = [''tcp://b''])"
proof -
  have wf: "endpoints_wf example_peers"
    by (simp add: endpoints_wf_def example_peers_def empty_datastore_def t_keyed_def)
  obtain ds1 where "endpoint_transition example_peers example_register (format_identifier Node 2) ''tcp://b'' = Inr ds1"
    using example_register_transition by (elim exE)
  then have "apply_peer_endpoint_transaction example_peers example_register =
      Inr (refresh_service_address ds1 (format_identifier Node 2) (tx_created_at example_register))"
    unfolding apply_peer_endpoint_transaction_def by (simp add: example_register_fields)
  then obtain ds' where ds': "apply_peer_endpoint_transaction example_peers example_register = Inr ds'" by (rule that)
  have ty: "tx_transaction_type example_register \<in>
      {''peer.endpoint.register'', ''peer.endpoint.update'', ''peer.endpoint.replace''}"
    by (simp add: example_register_def example_transaction_def)
  obtain n e where "endpoint_node_id (tx_payload example_register) = Inr n"
    "validate_endpoint (payload_get (tx_payload example_register) ''endpoint'') ''endpoint'' = Inr e"
    "map ep_endpoint (active_endpoints ds' n) = [e]"
    using endpoint_lifecycle [OF wf, THEN conjunct2, THEN mp, OF ds']
    by (elim exE conjE) (rule that, assumption, assumption, erule mp, rule ty)
  then have "map ep_endpoint (active_endpoints ds' (format_identifier Node 2)) = [''tcp://b'']"
    by (simp only: example_register_fields sum.inject)
  with wf ds' show ?thesis by (intro conjI exI)
qed

theorem eligibility_decision_witness:
  "is_peer_synchronization_eligible example_peers (format_identifier Node 2)
      (Some (format_identifier Service_group 3)) = Inr False \<and>
    is_peer_synchronization_eligible (example_peers\<lparr>ds_nodes := [example_peer\<lparr>
        nd_state := Some ADMISSION_STATE_ACTIVE, nd_authorization_mode := AUTHORIZATION_MODE_ALL\<rparr>]\<rparr>)
      (format_identifier Node 2) (Some (format_identifier Service_group 3)) = Inr True"
proof -
  let ?a = "example_peer\<lparr>nd_state := Some ADMISSION_STATE_ACTIVE, nd_authorization_mode := AUTHORIZATION_MODE_ALL\<rparr>"
  have ne: "format_identifier Node 1 \<noteq> format_identifier Node 2" by (simp add: format_identifier_inject)
  have get: "t_get nd_node_id (format_identifier Node 2) (ds_nodes example_peers) = Some example_peer"
    using ne by (simp add: example_peers_def t_get_Cons example_node_row_def example_peer_def blank_node_def)
  have checks: "\<forall>r \<in> set (ds_nodes example_peers). node_checks r" "node_checks ?a"
    by (simp_all add: example_peers_def example_node_row_def example_peer_def blank_node_def node_checks_def
        admission_states AUTHORIZATION_MODE_ALL_def)
  have sg: "pred_option (is_identifier Service_group) (Some (format_identifier Service_group 3))" by simp
  note d = eligibility_decision [OF is_identifier_format [of Node 2] sg]
  have "\<exists>b. is_peer_synchronization_eligible example_peers (format_identifier Node 2)
      (Some (format_identifier Service_group 3)) = Inr b \<and> \<not> b"
    using d [OF checks(1)] get by (auto simp: example_peer_def admission_states)
  moreover have "is_peer_synchronization_eligible (example_peers\<lparr>ds_nodes := [?a]\<rparr>)
      (format_identifier Node 2) (Some (format_identifier Service_group 3)) = Inr True"
    using d [of "example_peers\<lparr>ds_nodes := [?a]\<rparr>"] checks(2)
    by (auto simp: t_get_Cons example_peers_def empty_datastore_def example_peer_def blank_node_def)
  ultimately show ?thesis by auto
qed

end
