(* ===== verification/Kit_Envelopes.thy ===== *)
theory Kit_Envelopes
  imports Kit_Peers "HOL-Library.Multiset"
begin

section \<open>Envelopes: payload codec, canonical form and signature\<close>

text \<open>
  \<open>protocol/payload_codec.py\<close>, \<open>protocol/envelope.py\<close> and \<open>protocol/envelope_signing.py\<close>: a transaction
  travels between peers as a canonical JSON object whose payload is encrypted for one recipient and
  whose bytes are signed by the sender. The theory holds the plaintext and the encrypted codec, the
  builder, the strict parser and the signature, and shows that what a sender builds and signs is what
  the recipient parses, verifies and decrypts, and that a parsed envelope is exactly its canonical
  dictionary, bound to the payload bytes by their hash.
\<close>

subsection \<open>The outside world\<close>

text \<open>
  What a peer takes from outside the repository when it builds or opens envelopes: the \<open>cryptography\<close>
  package (\<open>None\<close> is the failure of a key exchange), the ephemeral key pair and the nonce drawn while
  the envelope of a given identifier is built, the contents of its identity file and the two
  environment variables that select a payload codec.
\<close>

record identity_material =
  im_node_id :: string
  im_signing_private_key :: bytes
  im_signing_public_key :: bytes
  im_encryption_private_key :: bytes
  im_encryption_public_key :: bytes

record peer_env =
  pe_host :: host
  pe_ed25519_sign :: "bytes \<Rightarrow> bytes \<Rightarrow> bytes"
  pe_x25519_exchange :: "bytes \<Rightarrow> bytes \<Rightarrow> bytes option"
  pe_hkdf_sha256 :: "bytes \<Rightarrow> bytes \<Rightarrow> nat \<Rightarrow> bytes"
  pe_ephemeral :: "string \<Rightarrow> bytes \<times> bytes"
  pe_nonce :: "string \<Rightarrow> bytes"
  pe_identity :: "identity_material option"
  pe_codec_mode :: "string option"
  pe_unsafe_plaintext :: "string option"

definition derive_hkdf_sha256 :: "peer_env \<Rightarrow> bytes \<Rightarrow> bytes \<Rightarrow> nat \<Rightarrow> bytes res" where
  "derive_hkdf_sha256 e root_key context n =
     (if root_key = [] then Inl (ValueError ''root_key must be non-empty bytes'')
      else if context = [] then Inl (ValueError ''context must be non-empty bytes'')
      else if n < 1 then Inl (ValueError ''length must be a positive integer'')
      else Inr (pe_hkdf_sha256 e root_key context n))"

definition derive_x25519_shared_key :: "peer_env \<Rightarrow> bytes \<Rightarrow> bytes \<Rightarrow> bytes \<Rightarrow> bytes res" where
  "derive_x25519_shared_key e private_key peer_public_key context =
     (if length private_key \<noteq> 32 then Inl (ValueError ''private_key must be 32 raw bytes'')
      else if length peer_public_key \<noteq> 32 then Inl (ValueError ''peer_public_key must be 32 raw bytes'')
      else case pe_x25519_exchange e private_key peer_public_key of
             None \<Rightarrow> Inl (ValueError ''Error computing shared key.'')
           | Some shared_secret \<Rightarrow> derive_hkdf_sha256 e shared_secret context 32)"

definition sign_ed25519 :: "peer_env \<Rightarrow> bytes \<Rightarrow> bytes \<Rightarrow> bytes res" where
  "sign_ed25519 e private_key message =
     (if length private_key \<noteq> 32 then Inl (ValueError ''private_key must be 32 raw bytes'')
      else Inr (pe_ed25519_sign e private_key message))"

subsection \<open>Python comparisons on JSON values\<close>

text \<open>\<open>value != 1\<close> on a JSON value: \<open>True\<close> equals \<open>1\<close> and \<open>False\<close> equals \<open>0\<close>.\<close>

definition py_int_eq :: "json option \<Rightarrow> int \<Rightarrow> bool" where
  "py_int_eq v i =
     (case v of Some (JInt n) \<Rightarrow> n = i | Some (JBool b) \<Rightarrow> of_bool b = i | _ \<Rightarrow> False)"

text \<open>\<open>==\<close> of two JSON values: objects regardless of the order of their members, booleans as numbers.\<close>

fun py_norm :: "json \<Rightarrow> json" where
  "py_norm (JBool b) = JInt (of_bool b)"
| "py_norm (JList js) = JList (map py_norm js)"
| "py_norm (JObj kvs) = JObj (sort_key fst (map (\<lambda>(k, v). (k, py_norm v)) kvs))"
| "py_norm j = j"

definition py_eq :: "json \<Rightarrow> json \<Rightarrow> bool" where
  "py_eq a b \<longleftrightarrow> py_norm a = py_norm b"

text \<open>\<open>int(text, 16)\<close> succeeds.\<close>

definition int_base16_ok :: "string \<Rightarrow> bool" where
  "int_base16_ok text \<longleftrightarrow> int_base16 text \<noteq> None"

subsection \<open>Lenient base64 (\<open>base64.urlsafe_b64decode\<close>)\<close>

text \<open>
  \<open>binascii.a2b_base64\<close> without strict mode: characters outside the alphabet are skipped, and a pad
  that completes a group ends the input. The arguments are the position in the group of four, the
  bits left over and the pads seen since the last data character.
\<close>

fun a2b_base64 :: "nat \<Rightarrow> nat \<Rightarrow> nat \<Rightarrow> string \<Rightarrow> bytes option" where
  "a2b_base64 quad left pads [] = (if quad = 0 then Some [] else None)"
| "a2b_base64 quad left pads (c # s) =
     (if c = b64_pad then
        (if 2 \<le> quad then (if 4 \<le> quad + Suc pads then Some [] else a2b_base64 quad left (Suc pads) s)
         else a2b_base64 quad left pads s)
      else case b64_val c of
             None \<Rightarrow> a2b_base64 quad left pads s
           | Some v \<Rightarrow>
               if quad = 0 then a2b_base64 1 v 0 s
               else if quad = 1 then map_option (Cons (char_of (left * 4 + v div 16))) (a2b_base64 2 (v mod 16) 0 s)
               else if quad = 2 then map_option (Cons (char_of (left * 16 + v div 4))) (a2b_base64 3 (v mod 4) 0 s)
               else map_option (Cons (char_of (left * 64 + v))) (a2b_base64 0 0 0 s))"

definition b64url_decode :: "string \<Rightarrow> bytes res" where
  "b64url_decode v =
     (if \<not> list_all is_ascii v then Inl (EnvelopePayloadCodecError ''envelope payload data_b64 is invalid'')
      else case a2b_base64 0 0 0 (map url_to_std (v @ b64_padding v)) of
             None \<Rightarrow> Inl (EnvelopePayloadCodecError ''envelope payload data_b64 is invalid'')
           | Some bs \<Rightarrow> Inr bs)"

lemma b64_val_pad [simp]: "b64_val b64_pad = None"
  by code_simp

lemma b64_val_not_pad: "b64_val c = Some v \<Longrightarrow> c \<noteq> b64_pad"
  by auto

lemma a2b_base64_strict: "b64decode_strict s = Some bs \<Longrightarrow> a2b_base64 0 0 0 s = Some bs"
proof (induction s arbitrary: bs rule: b64decode_strict.induct)
  case (2 p q r t s)
  have ne: "b64_val c = Some v \<Longrightarrow> c \<noteq> b64_pad" for c v by (rule b64_val_not_pad)
  from 2 show ?case
    by (auto simp: b64_group1_def b64_group2_def b64_group3_def mult.commute dest!: ne
        split: if_split_asm option.split_asm)
qed simp_all

lemma b64url_decode_strict: "decode_b64url s = Inr bs \<Longrightarrow> b64url_decode s = Inr bs"
  by (auto simp: decode_b64url_def b64url_decode_def Let_def list_all_append
      dest!: a2b_base64_strict split: if_split_asm option.split_asm)

lemma b64url_decode_encode [simp]: "b64url_decode (encode_b64url bs) = Inr bs"
  by (rule b64url_decode_strict) (rule decode_b64url_encode)

subsection \<open>Payload codec (\<open>payload_codec.py\<close>)\<close>

definition PLAINTEXT_CODEC_MODE :: string where
  "PLAINTEXT_CODEC_MODE = ''plaintext''"

definition ENCRYPTED_CODEC_MODE :: string where
  "ENCRYPTED_CODEC_MODE = ''encrypted''"

definition PLAINTEXT_CODEC_ALGORITHM :: string where
  "PLAINTEXT_CODEC_ALGORITHM = ''identity''"

definition ENCRYPTED_CODEC_ALGORITHM :: string where
  "ENCRYPTED_CODEC_ALGORITHM = ''x25519-hkdf-sha256-chacha20poly1305''"

definition ENVELOPE_ENCRYPTION_METADATA_VERSION :: int where
  "ENVELOPE_ENCRYPTION_METADATA_VERSION = 1"

definition ENVELOPE_ENCRYPTION_AAD_PROFILE :: string where
  "ENVELOPE_ENCRYPTION_AAD_PROFILE = ''envelope-payload-v1''"

record EnvelopePayloadRecord =
  er_payload :: json_obj
  er_encoded_payload_bytes :: bytes
  er_metadata :: json_obj
  er_encryption_metadata :: "json_obj option"

record EnvelopePayloadContext =
  pc_envelope_id :: string
  pc_source_node_id :: string
  pc_destination_node_id :: string
  pc_transaction_id :: string
  pc_envelope_version :: int
  pc_protocol_version :: int

record EnvelopePayloadCodec =
  co_mode :: string
  co_algorithm :: string
  co_implemented :: bool
  co_context :: "EnvelopePayloadContext option"
  co_recipient_node_id :: string
  co_recipient_public_key :: bytes
  co_recipient_key_fingerprint :: string
  co_local_private_key :: bytes
  co_local_public_key :: bytes
  co_encryption_metadata :: json

definition codec_error :: "string \<Rightarrow> py_error" where
  "codec_error m = EnvelopePayloadCodecError m"

definition codec_metadata :: "EnvelopePayloadCodec \<Rightarrow> json_obj" where
  "codec_metadata c =
     [(''version'', JInt 1), (''mode'', JStr (co_mode c)), (''algorithm'', JStr (co_algorithm c))]"

definition validate_raw_public_key :: "bytes \<Rightarrow> string \<Rightarrow> unit res" where
  "validate_raw_public_key v field = rguard (length v = 32) (codec_error (field @ '' must be 32 raw bytes''))"

definition key_fingerprint :: "bytes \<Rightarrow> string res" where
  "key_fingerprint public_key =
     rbind (validate_raw_public_key public_key ''public_key'') (\<lambda>_. Inr (sha256_hex public_key))"

definition required_context :: "EnvelopePayloadContext option \<Rightarrow> EnvelopePayloadContext res" where
  "required_context c =
     (case c of None \<Rightarrow> Inl (codec_error ''encrypted envelope payload context is required'') | Some x \<Rightarrow> Inr x)"

definition encryption_metadata_of :: "EnvelopePayloadContext \<Rightarrow> string \<Rightarrow> bytes \<Rightarrow> json_obj" where
  "encryption_metadata_of context fp ephemeral_public_key =
     [(''version'', JInt ENVELOPE_ENCRYPTION_METADATA_VERSION), (''algorithm'', JStr ENCRYPTED_CODEC_ALGORITHM),
      (''recipient_node_id'', JStr (pc_destination_node_id context)),
      (''recipient_key_fingerprint'', JStr fp),
      (''ephemeral_public_key'', JStr (encode_b64url ephemeral_public_key)),
      (''aad_profile'', JStr ENVELOPE_ENCRYPTION_AAD_PROFILE)]"

definition envelope_aad :: "EnvelopePayloadContext \<Rightarrow> json_obj \<Rightarrow> json_obj \<Rightarrow> bytes" where
  "envelope_aad context cm encryption =
     canonical_json_bytes
       [(''aad_profile'', JStr ENVELOPE_ENCRYPTION_AAD_PROFILE), (''codec'', JObj cm),
        (''encryption_metadata'', JObj encryption), (''envelope_id'', JStr (pc_envelope_id context)),
        (''envelope_version'', JInt (pc_envelope_version context)),
        (''protocol_version'', JInt (pc_protocol_version context)),
        (''source_node_id'', JStr (pc_source_node_id context)),
        (''destination_node_id'', JStr (pc_destination_node_id context)),
        (''transaction_id'', JStr (pc_transaction_id context))]"

definition kdf_context :: "EnvelopePayloadContext \<Rightarrow> json_obj \<Rightarrow> json_obj \<Rightarrow> bytes" where
  "kdf_context context cm encryption =
     canonical_json_bytes
       [(''purpose'', JStr ''secrets-kit.envelope-payload-key''), (''codec'', JObj cm),
        (''encryption_metadata'', JObj encryption), (''envelope_id'', JStr (pc_envelope_id context)),
        (''source_node_id'', JStr (pc_source_node_id context)),
        (''destination_node_id'', JStr (pc_destination_node_id context)),
        (''transaction_id'', JStr (pc_transaction_id context))]"

definition metadata_without_nonce :: "json_obj \<Rightarrow> json_obj" where
  "metadata_without_nonce metadata =
     filter (\<lambda>(k, _). k \<in> {''version'', ''algorithm'', ''recipient_node_id'', ''recipient_key_fingerprint'',
       ''ephemeral_public_key'', ''aad_profile''}) metadata"

definition payload_codec_metadata :: "json \<Rightarrow> json_obj res" where
  "payload_codec_metadata payload =
     (case payload of
        JObj p \<Rightarrow>
          (case map_of p ''codec'' of
             Some (JObj m) \<Rightarrow> Inr m
           | _ \<Rightarrow> Inl (codec_error ''envelope payload codec metadata must be an object''))
      | _ \<Rightarrow> Inl (codec_error ''envelope payload must be an object''))"

text \<open>\<open>mode not in {...}\<close> hashes the mode first, which fails on a list or an object.\<close>

definition unhashable :: "json option \<Rightarrow> bool" where
  "unhashable v = (case v of Some (JList _) \<Rightarrow> True | Some (JObj _) \<Rightarrow> True | _ \<Rightarrow> False)"

definition validate_payload_codec_metadata :: "json option \<Rightarrow> string option \<Rightarrow> json_obj res" where
  "validate_payload_codec_metadata metadata expected_mode =
     (case metadata of
        Some (JObj m) \<Rightarrow>
          (let mode = map_of m ''mode''; algorithm = map_of m ''algorithm'' in
           if \<not> py_int_eq (map_of m ''version'') 1
           then Inl (codec_error ''payload codec metadata version is unsupported'')
           else if unhashable mode then Inl (TypeError ''unhashable type'')
           else if mode \<noteq> Some (JStr PLAINTEXT_CODEC_MODE) \<and> mode \<noteq> Some (JStr ENCRYPTED_CODEC_MODE)
           then Inl (codec_error ''unsupported envelope payload codec mode: '')
           else if expected_mode \<noteq> None \<and> mode \<noteq> map_option JStr expected_mode
           then Inl (codec_error ''payload codec mode mismatch: expected '')
           else if mode = Some (JStr PLAINTEXT_CODEC_MODE) \<and> algorithm \<noteq> Some (JStr PLAINTEXT_CODEC_ALGORITHM)
           then Inl (codec_error ''plaintext payload codec algorithm must be identity'')
           else if mode = Some (JStr ENCRYPTED_CODEC_MODE) \<and> algorithm \<noteq> Some (JStr ENCRYPTED_CODEC_ALGORITHM)
           then Inl (codec_error ''encrypted payload codec algorithm is unsupported'')
           else Inr m)
      | _ \<Rightarrow> Inl (codec_error ''payload codec metadata must be an object''))"

definition payload_data_bytes :: "json_obj \<Rightarrow> bytes res" where
  "payload_data_bytes p =
     (if map_of p ''encoding'' \<noteq> Some (JStr ''base64url'')
      then Inl (codec_error ''envelope payload encoding must be base64url'')
      else case map_of p ''data_b64'' of
             Some (JStr s) \<Rightarrow>
               if s = [] then Inl (codec_error ''envelope payload data_b64 must be a non-empty string'')
               else b64url_decode s
           | _ \<Rightarrow> Inl (codec_error ''envelope payload data_b64 must be a non-empty string''))"

definition encoded_payload_bytes :: "json \<Rightarrow> bytes res" where
  "encoded_payload_bytes payload =
     (case payload of
        JObj p \<Rightarrow>
          rbind (payload_codec_metadata payload) (\<lambda>m.
          rbind (validate_payload_codec_metadata (Some (JObj m)) None) (\<lambda>_. payload_data_bytes p))
      | _ \<Rightarrow> Inl (codec_error ''envelope payload must be an object''))"

definition is_text :: "json option \<Rightarrow> bool" where
  "is_text v = (case v of Some (JStr s) \<Rightarrow> s \<noteq> [] | _ \<Rightarrow> False)"

definition text_of :: "json option \<Rightarrow> string" where
  "text_of v = (case v of Some (JStr s) \<Rightarrow> s | _ \<Rightarrow> [])"

definition is_text_of_length :: "json option \<Rightarrow> nat \<Rightarrow> bool" where
  "is_text_of_length v n = (case v of Some (JStr s) \<Rightarrow> text_length s = n | _ \<Rightarrow> False)"

text \<open>\<open>raise ... from exc\<close> for every \<open>ValueError\<close> and \<open>TypeError\<close>; the codec errors are \<open>ValueError\<close>s.\<close>

definition invalid_base64url :: "'a res \<Rightarrow> 'a res" where
  "invalid_base64url = rmap_error (\<lambda>_. codec_error ''encryption_metadata contains invalid base64url'')"

definition validate_encryption_metadata :: "json \<Rightarrow> string option \<Rightarrow> json_obj res" where
  "validate_encryption_metadata metadata expected_recipient =
     (case metadata of
        JObj m \<Rightarrow>
          (let f = map_of m;
               recipient = f ''recipient_node_id''; fp = f ''recipient_key_fingerprint'' in
           rbind (rguard (py_int_eq (f ''version'') ENVELOPE_ENCRYPTION_METADATA_VERSION)
                    (codec_error ''encryption_metadata version is unsupported'')) (\<lambda>_.
           rbind (rguard (f ''algorithm'' = Some (JStr ENCRYPTED_CODEC_ALGORITHM))
                    (codec_error ''encryption_metadata algorithm is unsupported'')) (\<lambda>_.
           rbind (rguard (is_text recipient)
                    (codec_error ''encryption_metadata recipient_node_id is required'')) (\<lambda>_.
           rbind (rguard (expected_recipient = None \<or> Some (text_of recipient) = expected_recipient)
                    (codec_error ''encryption_metadata recipient_node_id mismatch'')) (\<lambda>_.
           rbind (rguard (is_text_of_length fp 64 \<and> int_base16_ok (text_of fp))
                    (codec_error ''encryption_metadata recipient_key_fingerprint must be sha256 hex'')) (\<lambda>_.
           rbind (rguard (lower (text_of fp) = text_of fp)
                    (codec_error ''encryption_metadata recipient_key_fingerprint must be lowercase'')) (\<lambda>_.
           rbind (rguard (is_text (f ''ephemeral_public_key''))
                    (codec_error ''encryption_metadata ephemeral_public_key is required'')) (\<lambda>_.
           rbind (rguard (is_text (f ''nonce'')) (codec_error ''encryption_metadata nonce is required'')) (\<lambda>_.
           rbind (rguard (f ''aad_profile'' = Some (JStr ENVELOPE_ENCRYPTION_AAD_PROFILE))
                    (codec_error ''encryption_metadata aad_profile is unsupported'')) (\<lambda>_.
           rbind (invalid_base64url (rbind (decode_b64url (text_of (f ''ephemeral_public_key'')))
                    (\<lambda>k. validate_raw_public_key k ''ephemeral_public_key''))) (\<lambda>_.
           rbind (invalid_base64url (decode_b64url (text_of (f ''nonce'')))) (\<lambda>nonce.
           rbind (rguard (length nonce = 12) (codec_error ''encryption_metadata nonce must be 12 bytes'')) (\<lambda>_.
             Inr (map (\<lambda>k. (k, the (f k)))
               [''version'', ''algorithm'', ''recipient_node_id'', ''recipient_key_fingerprint'',
                ''ephemeral_public_key'', ''nonce'', ''aad_profile'']))))))))))))))
      | _ \<Rightarrow> Inl (codec_error ''encryption_metadata must be an object''))"

definition payload_object :: "json_obj \<Rightarrow> bytes \<Rightarrow> json_obj" where
  "payload_object metadata encoded =
     [(''codec'', JObj metadata), (''encoding'', JStr ''base64url''), (''data_b64'', JStr (encode_b64url encoded))]"

definition encode_encrypted :: "peer_env \<Rightarrow> EnvelopePayloadCodec \<Rightarrow> bytes \<Rightarrow> EnvelopePayloadRecord res" where
  "encode_encrypted e c plaintext =
     rbind (required_context (co_context c)) (\<lambda>context.
     rbind (validate_raw_public_key (co_recipient_public_key c) ''recipient_public_key'') (\<lambda>_.
     rbind (rguard (co_recipient_node_id c = pc_destination_node_id context)
              (codec_error ''recipient_node_id must match destination_node_id'')) (\<lambda>_.
     rbind (key_fingerprint (co_recipient_public_key c)) (\<lambda>fp.
     rbind (rguard (co_recipient_key_fingerprint c = [] \<or> co_recipient_key_fingerprint c = fp)
              (codec_error ''recipient key fingerprint mismatch'')) (\<lambda>_.
     let (ephemeral_private_key, ephemeral_public_key) = pe_ephemeral e (pc_envelope_id context);
         metadata = codec_metadata c;
         encryption = encryption_metadata_of context fp ephemeral_public_key in
     rbind (derive_x25519_shared_key e ephemeral_private_key (co_recipient_public_key c)
              (kdf_context context metadata encryption)) (\<lambda>shared_key.
     rbind (encrypt_aead (h_aead (pe_host e)) (pe_nonce e (pc_envelope_id context)) shared_key plaintext
              (envelope_aad context metadata encryption) fp ENVELOPE_ENCRYPTION_AAD_PROFILE) (\<lambda>blob.
       Inr \<lparr>er_payload = payload_object metadata (eb_ciphertext blob), er_encoded_payload_bytes = eb_ciphertext blob,
            er_metadata = metadata,
            er_encryption_metadata = Some (encryption @ [(''nonce'', JStr (encode_b64url (eb_nonce blob)))])\<rparr>)))))))"

definition codec_encode :: "peer_env \<Rightarrow> EnvelopePayloadCodec \<Rightarrow> bytes \<Rightarrow> EnvelopePayloadRecord res" where
  "codec_encode e c plaintext =
     (if \<not> co_implemented c then Inl (codec_error (co_mode c @ '' envelope payload codec is not implemented; EL-03 required''))
      else if co_mode c = ENCRYPTED_CODEC_MODE then encode_encrypted e c plaintext
      else Inr \<lparr>er_payload = payload_object (codec_metadata c) plaintext, er_encoded_payload_bytes = plaintext,
                er_metadata = codec_metadata c, er_encryption_metadata = None\<rparr>)"

definition local_public_key :: "EnvelopePayloadCodec \<Rightarrow> bytes res" where
  "local_public_key c =
     rbind (validate_raw_public_key (co_local_public_key c) ''local_public_key'') (\<lambda>_. Inr (co_local_public_key c))"

definition decode_encrypted :: "peer_env \<Rightarrow> EnvelopePayloadCodec \<Rightarrow> bytes \<Rightarrow> bytes res" where
  "decode_encrypted e c encoded =
     rbind (required_context (co_context c)) (\<lambda>context.
     rbind (validate_encryption_metadata (co_encryption_metadata c) (Some (pc_destination_node_id context))) (\<lambda>m.
     rbind (local_public_key c) (\<lambda>public_key.
     rbind (key_fingerprint public_key) (\<lambda>expected.
     rbind (rguard (map_of m ''recipient_key_fingerprint'' = Some (JStr expected))
              (codec_error ''recipient key fingerprint mismatch'')) (\<lambda>_.
     rbind (invalid_base64url (decode_b64url (text_of (map_of m ''ephemeral_public_key'')))) (\<lambda>ephemeral_public_key.
     rbind (invalid_base64url (decode_b64url (text_of (map_of m ''nonce'')))) (\<lambda>nonce.
     rbind (validate_raw_public_key ephemeral_public_key ''ephemeral_public_key'') (\<lambda>_.
     rbind (rguard (length nonce = 12) (codec_error ''encryption nonce must be 12 bytes'')) (\<lambda>_.
     rbind (derive_x25519_shared_key e (co_local_private_key c) ephemeral_public_key
              (kdf_context context (codec_metadata c) (metadata_without_nonce m))) (\<lambda>shared_key.
     let blob = \<lparr>eb_header = \<lparr>ch_version = 1, ch_algorithm = ''chacha20poly1305'',
                   ch_key_id = text_of (map_of m ''recipient_key_fingerprint''),
                   ch_context = ENVELOPE_ENCRYPTION_AAD_PROFILE\<rparr>,
                 eb_nonce = nonce, eb_ciphertext = encoded\<rparr> in
       rmap_error (\<lambda>_. codec_error ''encrypted envelope payload authentication failed'')
         (decrypt_aead (h_aead (pe_host e)) shared_key blob
            (envelope_aad context (codec_metadata c) (metadata_without_nonce m)))))))))))))"

definition codec_decode :: "peer_env \<Rightarrow> EnvelopePayloadCodec \<Rightarrow> json \<Rightarrow> bytes res" where
  "codec_decode e c payload =
     rbind (payload_codec_metadata payload) (\<lambda>m.
     rbind (validate_payload_codec_metadata (Some (JObj m)) (Some (co_mode c))) (\<lambda>_.
     rbind (rguard (co_implemented c)
              (codec_error (co_mode c @ '' envelope payload codec is not implemented; EL-03 required''))) (\<lambda>_.
       case payload of
         JObj p \<Rightarrow>
           rbind (payload_data_bytes p) (\<lambda>encoded.
             if co_mode c = ENCRYPTED_CODEC_MODE then decode_encrypted e c encoded else Inr encoded)
       | _ \<Rightarrow> Inl (codec_error ''envelope payload must be an object''))))"

definition PLAINTEXT_ENVELOPE_PAYLOAD_CODEC :: EnvelopePayloadCodec where
  "PLAINTEXT_ENVELOPE_PAYLOAD_CODEC =
     \<lparr>co_mode = PLAINTEXT_CODEC_MODE, co_algorithm = PLAINTEXT_CODEC_ALGORITHM, co_implemented = True,
      co_context = None, co_recipient_node_id = [], co_recipient_public_key = [], co_recipient_key_fingerprint = [],
      co_local_private_key = [], co_local_public_key = [], co_encryption_metadata = JNull\<rparr>"

definition plaintext_envelope_payload_codec :: EnvelopePayloadCodec where
  "plaintext_envelope_payload_codec = PLAINTEXT_ENVELOPE_PAYLOAD_CODEC"

definition ENCRYPTED_ENVELOPE_PAYLOAD_CODEC :: EnvelopePayloadCodec where
  "ENCRYPTED_ENVELOPE_PAYLOAD_CODEC =
     PLAINTEXT_ENVELOPE_PAYLOAD_CODEC\<lparr>co_mode := ENCRYPTED_CODEC_MODE, co_algorithm := ENCRYPTED_CODEC_ALGORITHM\<rparr>"

text \<open>The arguments that a sender and a recipient give; the others keep their defaults.\<close>

definition encrypted_codec_for_recipient :: "string \<Rightarrow> bytes \<Rightarrow> string \<Rightarrow> EnvelopePayloadCodec" where
  "encrypted_codec_for_recipient node_id public_key fp =
     ENCRYPTED_ENVELOPE_PAYLOAD_CODEC\<lparr>co_recipient_node_id := node_id, co_recipient_public_key := public_key,
       co_recipient_key_fingerprint := fp\<rparr>"

definition encrypted_codec_for_local ::
  "EnvelopePayloadContext \<Rightarrow> bytes \<Rightarrow> bytes \<Rightarrow> json \<Rightarrow> EnvelopePayloadCodec" where
  "encrypted_codec_for_local context private_key public_key metadata =
     ENCRYPTED_ENVELOPE_PAYLOAD_CODEC\<lparr>co_context := Some context, co_local_private_key := private_key,
       co_local_public_key := public_key, co_encryption_metadata := metadata\<rparr>"

definition with_context :: "EnvelopePayloadCodec \<Rightarrow> EnvelopePayloadContext \<Rightarrow> EnvelopePayloadCodec" where
  "with_context c context = c\<lparr>co_context := Some context\<rparr>"

definition envelope_payload_codec_for_metadata :: "json \<Rightarrow> EnvelopePayloadCodec res" where
  "envelope_payload_codec_for_metadata metadata =
     (case metadata of
        JObj m \<Rightarrow>
          if map_of m ''mode'' = Some (JStr PLAINTEXT_CODEC_MODE) then Inr plaintext_envelope_payload_codec
          else if map_of m ''mode'' = Some (JStr ENCRYPTED_CODEC_MODE) then Inr ENCRYPTED_ENVELOPE_PAYLOAD_CODEC
          else Inl (codec_error ''unsupported envelope payload codec mode: '')
      | _ \<Rightarrow> Inl (codec_error ''payload codec metadata must be an object''))"

definition decode_envelope_payload :: "peer_env \<Rightarrow> json \<Rightarrow> bytes res" where
  "decode_envelope_payload e payload =
     rbind (payload_codec_metadata payload) (\<lambda>m.
     rbind (envelope_payload_codec_for_metadata (JObj m)) (\<lambda>c. codec_decode e c payload))"

definition configured_envelope_payload_codec_mode :: "peer_env \<Rightarrow> string res" where
  "configured_envelope_payload_codec_mode e =
     (let mode = (case pe_codec_mode e of None \<Rightarrow> ENCRYPTED_CODEC_MODE | Some m \<Rightarrow> m) in
      if mode \<noteq> PLAINTEXT_CODEC_MODE \<and> mode \<noteq> ENCRYPTED_CODEC_MODE
      then Inl (codec_error ''unsupported envelope payload codec mode: '')
      else if mode = PLAINTEXT_CODEC_MODE \<and> pe_unsafe_plaintext e \<noteq> Some ''1''
      then Inl (codec_error ''UNSAFE plaintext envelopes require SECKIT_UNSAFE_PLAINTEXT_ENVELOPES=1'')
      else Inr mode)"

subsection \<open>Canonical envelopes (\<open>envelope.py\<close>)\<close>

definition CANONICAL_ENVELOPE_VERSION :: int where
  "CANONICAL_ENVELOPE_VERSION = 1"

definition ENVELOPE_TYPE_TRANSACTION :: string where
  "ENVELOPE_TYPE_TRANSACTION = ''transaction''"

definition REQUIRED_FIELDS :: "string list" where
  "REQUIRED_FIELDS = [''version'', ''envelope_version'', ''envelope_id'', ''message_type'', ''message_id'',
     ''source_node_id'', ''destination_node_id'', ''transaction_id'', ''protocol_version'', ''created_at'',
     ''expires_at'', ''routing'', ''payload'', ''payload_hash'', ''signature_metadata'', ''encryption_metadata'']"

definition ALLOWED_FIELDS :: "string list" where
  "ALLOWED_FIELDS = REQUIRED_FIELDS"

record CanonicalEnvelope =
  ce_envelope_id :: string
  ce_source_node_id :: string
  ce_destination_node_id :: string
  ce_transaction_id :: string
  ce_payload :: json_obj
  ce_created_at :: string
  ce_payload_hash :: string
  ce_version :: int
  ce_envelope_version :: int
  ce_message_type :: string
  ce_protocol_version :: int
  ce_routing :: json_obj
  ce_expires_at :: "string option"
  ce_signature_metadata :: "json_obj option"
  ce_encryption_metadata :: "json_obj option"

definition message_id :: "CanonicalEnvelope \<Rightarrow> string" where
  "message_id = ce_envelope_id"

definition json_text_opt :: "string option \<Rightarrow> json" where
  "json_text_opt v = (case v of None \<Rightarrow> JNull | Some s \<Rightarrow> JStr s)"

definition json_obj_opt :: "json_obj option \<Rightarrow> json" where
  "json_obj_opt v = (case v of None \<Rightarrow> JNull | Some m \<Rightarrow> JObj m)"

definition env_required_string :: "json option \<Rightarrow> string \<Rightarrow> string res" where
  "env_required_string v field =
     (case v of
        Some (JStr s) \<Rightarrow>
          if s = [] then Inl (EnvelopeValidationError (field @ '' must be a non-empty string'')) else Inr s
      | _ \<Rightarrow> Inl (EnvelopeValidationError (field @ '' must be a non-empty string'')))"

definition env_required_int :: "json option \<Rightarrow> string \<Rightarrow> int res" where
  "env_required_int v field =
     (case v of Some (JInt i) \<Rightarrow> Inr i | _ \<Rightarrow> Inl (EnvelopeValidationError (field @ '' must be an integer'')))"

text \<open>The dictionary of a transaction; its \<open>signature\<close> is bytes, which JSON cannot hold, unless it is None.\<close>

definition transaction_payload :: "Transaction \<Rightarrow> json_obj" where
  "transaction_payload t =
     [(''transaction_id'', JStr (tx_transaction_id t)), (''transaction_type'', JStr (tx_transaction_type t)),
      (''transaction_version'', JInt (tx_transaction_version t)), (''payload_version'', JInt (tx_payload_version t)),
      (''protocol_version'', JInt (tx_protocol_version t)),
      (''organization_id'', json_text_opt (tx_organization_id t)), (''client_id'', json_text_opt (tx_client_id t)),
      (''owner_id'', json_text_opt (tx_owner_id t)), (''origin_node_id'', json_text_opt (tx_origin_node_id t)),
      (''previous_transaction_id'', json_text_opt (tx_previous_transaction_id t)),
      (''payload'', JObj (tx_payload t)), (''payload_hash'', JStr (tx_payload_hash t)), (''signature'', JNull),
      (''state'', JStr (tx_state t)), (''created_at'', json_text_opt (tx_created_at t)),
      (''received_at'', json_text_opt (tx_received_at t)), (''applied_at'', json_text_opt (tx_applied_at t)),
      (''acknowledged_at'', json_text_opt (tx_acknowledged_at t)), (''cleared_at'', json_text_opt (tx_cleared_at t))]"

definition transaction_payload_bytes :: "Transaction \<Rightarrow> bytes res" where
  "transaction_payload_bytes t =
     (if tx_signature t \<noteq> None then Inl (TypeError ''Object of type bytes is not JSON serializable'')
      else Inr (canonical_json_bytes (transaction_payload t)))"

definition payload_commitment :: "bytes \<Rightarrow> string" where
  "payload_commitment encoded = sha256_hex encoded"

definition envelope_id_for :: "string \<Rightarrow> string \<Rightarrow> string res" where
  "envelope_id_for transaction_id destination_node_id =
     deterministic_identifier Envelope ''protocol.envelope'' (transaction_id @ NUL @ destination_node_id)"

text \<open>The arguments \<open>envelope_id\<close>, \<open>created_at\<close>, \<open>routing\<close> and \<open>expires_at\<close> keep their defaults at every call.\<close>

definition build_transaction_envelope ::
  "peer_env \<Rightarrow> Transaction \<Rightarrow> string \<Rightarrow> EnvelopePayloadCodec \<Rightarrow> CanonicalEnvelope res" where
  "build_transaction_envelope e t destination_node_id c =
     rbind (env_required_string (map_option JStr (tx_origin_node_id t)) ''origin_node_id'') (\<lambda>source_node_id.
     rbind (env_required_string (Some (JStr (tx_transaction_id t))) ''transaction_id'') (\<lambda>transaction_id.
     rbind (validate_identifier source_node_id Node ''source_node_id'') (\<lambda>_.
     rbind (validate_identifier destination_node_id Node ''destination_node_id'') (\<lambda>_.
     rbind (validate_identifier transaction_id Kit_Identifiers.Transaction ''transaction_id'') (\<lambda>_.
     rbind (envelope_id_for transaction_id destination_node_id) (\<lambda>envelope_id.
     rbind (transaction_payload_bytes t) (\<lambda>plaintext.
     rbind (codec_encode e (with_context c
              \<lparr>pc_envelope_id = envelope_id, pc_source_node_id = source_node_id,
               pc_destination_node_id = destination_node_id, pc_transaction_id = transaction_id,
               pc_envelope_version = CANONICAL_ENVELOPE_VERSION, pc_protocol_version = tx_protocol_version t\<rparr>)
              plaintext) (\<lambda>r.
       Inr \<lparr>ce_envelope_id = envelope_id, ce_source_node_id = source_node_id,
            ce_destination_node_id = destination_node_id, ce_transaction_id = transaction_id,
            ce_payload = er_payload r, ce_created_at = h_now (pe_host e),
            ce_payload_hash = payload_commitment (er_encoded_payload_bytes r), ce_version = 1,
            ce_envelope_version = CANONICAL_ENVELOPE_VERSION, ce_message_type = ENVELOPE_TYPE_TRANSACTION,
            ce_protocol_version = tx_protocol_version t, ce_routing = [], ce_expires_at = None,
            ce_signature_metadata = None, ce_encryption_metadata = er_encryption_metadata r\<rparr>))))))))"

definition canonical_envelope_dict :: "CanonicalEnvelope \<Rightarrow> json_obj" where
  "canonical_envelope_dict v =
     [(''created_at'', JStr (ce_created_at v)), (''destination_node_id'', JStr (ce_destination_node_id v)),
      (''encryption_metadata'', json_obj_opt (ce_encryption_metadata v)), (''envelope_id'', JStr (ce_envelope_id v)),
      (''envelope_version'', JInt (ce_envelope_version v)), (''expires_at'', json_text_opt (ce_expires_at v)),
      (''message_id'', JStr (message_id v)), (''message_type'', JStr (ce_message_type v)),
      (''payload'', JObj (ce_payload v)), (''payload_hash'', JStr (ce_payload_hash v)),
      (''protocol_version'', JInt (ce_protocol_version v)), (''routing'', JObj (ce_routing v)),
      (''signature_metadata'', json_obj_opt (ce_signature_metadata v)),
      (''source_node_id'', JStr (ce_source_node_id v)), (''transaction_id'', JStr (ce_transaction_id v)),
      (''version'', JInt (ce_version v))]"

definition canonical_envelope_bytes :: "CanonicalEnvelope \<Rightarrow> bytes" where
  "canonical_envelope_bytes v = canonical_json_bytes (canonical_envelope_dict v)"

subsection \<open>Signatures (\<open>envelope_signing.py\<close>)\<close>

definition ENVELOPE_SIGNATURE_VERSION :: int where
  "ENVELOPE_SIGNATURE_VERSION = 1"

definition ENVELOPE_SIGNATURE_ALGORITHM :: string where
  "ENVELOPE_SIGNATURE_ALGORITHM = ''ed25519''"

definition signing_public_key_fingerprint :: "bytes \<Rightarrow> string res" where
  "signing_public_key_fingerprint public_key =
     (if length public_key \<noteq> 32 then Inl (EnvelopeSignatureError ''signing public key must be 32 raw bytes'')
      else Inr (sha256_hex public_key))"

definition signing_node_id :: "string \<Rightarrow> string \<Rightarrow> unit res" where
  "signing_node_id v field =
     rbind (rmap_error (\<lambda>x. case x of IdentifierValidationError m \<Rightarrow> EnvelopeSignatureError m | _ \<Rightarrow> x)
       (validate_identifier v Node field)) (\<lambda>_. Inr ())"

definition signature_metadata_of :: "string \<Rightarrow> string \<Rightarrow> json \<Rightarrow> json_obj" where
  "signature_metadata_of signer fp signature =
     [(''version'', JInt ENVELOPE_SIGNATURE_VERSION), (''algorithm'', JStr ENVELOPE_SIGNATURE_ALGORITHM),
      (''signer_node_id'', JStr signer), (''key_fingerprint'', JStr fp), (''signature'', signature)]"

definition unsigned_signature_metadata :: "string \<Rightarrow> bytes \<Rightarrow> json_obj res" where
  "unsigned_signature_metadata signer public_key =
     rbind (signing_public_key_fingerprint public_key) (\<lambda>fp. Inr (signature_metadata_of signer fp JNull))"

definition validated_signature_metadata :: "json \<Rightarrow> json_obj res" where
  "validated_signature_metadata metadata =
     (case metadata of
        JObj m \<Rightarrow>
          (let f = map_of m; fp = f ''key_fingerprint''; signature = f ''signature'' in
           rbind (rguard (py_int_eq (f ''version'') ENVELOPE_SIGNATURE_VERSION)
                    (EnvelopeSignatureError ''signature_metadata version is unsupported'')) (\<lambda>_.
           rbind (rguard (f ''algorithm'' = Some (JStr ENVELOPE_SIGNATURE_ALGORITHM))
                    (EnvelopeSignatureError ''signature_metadata algorithm is unsupported'')) (\<lambda>_.
           rbind (case f ''signer_node_id'' of
                    Some (JStr s) \<Rightarrow> signing_node_id s ''signature_metadata.signer_node_id''
                  | _ \<Rightarrow> Inl (EnvelopeSignatureError ''signature_metadata signer_node_id must be a string'')) (\<lambda>_.
           rbind (rguard (is_text_of_length fp 64 \<and> int_base16_ok (text_of fp))
                    (EnvelopeSignatureError ''signature_metadata key_fingerprint must be sha256 hex'')) (\<lambda>_.
           rbind (rguard (lower (text_of fp) = text_of fp)
                    (EnvelopeSignatureError ''signature_metadata key_fingerprint must be lowercase'')) (\<lambda>_.
           rbind (case signature of
                    None \<Rightarrow> Inr JNull
                  | Some JNull \<Rightarrow> Inr JNull
                  | Some (JStr s) \<Rightarrow>
                      if s = [] then Inl (EnvelopeSignatureError ''signature_metadata signature must be non-empty'')
                      else Inr (JStr s)
                  | Some _ \<Rightarrow> Inl (EnvelopeSignatureError ''signature_metadata signature must be a string or null'')) (\<lambda>sg.
             Inr (map (\<lambda>k. (k, the (f k))) [''version'', ''algorithm'', ''signer_node_id'', ''key_fingerprint'']
                    @ [(''signature'', sg)]))))))))
      | _ \<Rightarrow> Inl (EnvelopeSignatureError ''signature_metadata must be an object''))"

definition validate_signature_metadata :: "json \<Rightarrow> json_obj res" where
  "validate_signature_metadata = validated_signature_metadata"

definition decode_signature :: "json option \<Rightarrow> bytes res" where
  "decode_signature v =
     (if \<not> is_text v then Inl (EnvelopeSignatureError ''signature_metadata signature is required'')
      else rbind (rmap_error (\<lambda>_. EnvelopeSignatureError ''signature_metadata signature is invalid'')
                    (decode_b64url (text_of v))) (\<lambda>signature.
        if length signature \<noteq> 64 then Inl (EnvelopeSignatureError ''signature_metadata signature must be 64 raw bytes'')
        else Inr signature))"

definition sign_envelope :: "peer_env \<Rightarrow> CanonicalEnvelope \<Rightarrow> string \<Rightarrow> bytes \<Rightarrow> bytes \<Rightarrow> CanonicalEnvelope res" where
  "sign_envelope e v signer_node_id private_key public_key =
     rbind (signing_node_id signer_node_id ''signer_node_id'') (\<lambda>_.
     rbind (rguard (ce_source_node_id v = signer_node_id)
              (EnvelopeSignatureError ''signer_node_id must match envelope source_node_id'')) (\<lambda>_.
     rbind (rguard (ce_signature_metadata v = None) (EnvelopeSignatureError ''envelope is already signed'')) (\<lambda>_.
     rbind (unsigned_signature_metadata signer_node_id public_key) (\<lambda>metadata.
     rbind (sign_ed25519 e private_key
              (canonical_envelope_bytes (v\<lparr>ce_signature_metadata := Some metadata\<rparr>))) (\<lambda>signature.
       Inr (v\<lparr>ce_signature_metadata := Some (dict_set ''signature'' (JStr (encode_b64url signature)) metadata)\<rparr>))))))"

definition unsigned_bytes :: "CanonicalEnvelope \<Rightarrow> json_obj \<Rightarrow> bytes" where
  "unsigned_bytes v metadata =
     canonical_envelope_bytes (v\<lparr>ce_signature_metadata := Some (dict_set ''signature'' JNull metadata)\<rparr>)"

definition verify_envelope_signature ::
  "host \<Rightarrow> CanonicalEnvelope \<Rightarrow> string \<Rightarrow> bytes \<Rightarrow> string option \<Rightarrow> unit res" where
  "verify_envelope_signature h v expected_signer public_key expected_fingerprint =
     rbind (signing_node_id expected_signer ''expected_signer_node_id'') (\<lambda>_.
     rbind (rguard (ce_source_node_id v = expected_signer)
              (EnvelopeSignatureError ''envelope source_node_id does not match expected signer'')) (\<lambda>_.
     rbind (validated_signature_metadata (json_obj_opt (ce_signature_metadata v))) (\<lambda>m.
     rbind (rguard (map_of m ''signer_node_id'' = Some (JStr expected_signer))
              (EnvelopeSignatureError ''signature signer_node_id does not match expected signer'')) (\<lambda>_.
     rbind (signing_public_key_fingerprint public_key) (\<lambda>actual.
     rbind (rguard (map_of m ''key_fingerprint'' = Some (JStr actual))
              (EnvelopeSignatureError ''signature key fingerprint does not match signing public key'')) (\<lambda>_.
     rbind (rguard (expected_fingerprint = None \<or> map_of m ''key_fingerprint'' = map_option JStr expected_fingerprint)
              (EnvelopeSignatureError ''signature key fingerprint does not match admitted identity'')) (\<lambda>_.
     rbind (decode_signature (map_of m ''signature'')) (\<lambda>signature.
     rbind (rmap_error (\<lambda>x. case x of ValueError s \<Rightarrow> EnvelopeSignatureError s | TypeError s \<Rightarrow> EnvelopeSignatureError s | _ \<Rightarrow> x)
              (verify_ed25519 h public_key (unsigned_bytes v m) signature)) (\<lambda>valid.
       rguard valid (EnvelopeSignatureError ''envelope signature is invalid''))))))))))"

definition envelope_signing_bytes :: "CanonicalEnvelope \<Rightarrow> bytes res" where
  "envelope_signing_bytes v =
     rbind (validated_signature_metadata (json_obj_opt (ce_signature_metadata v))) (\<lambda>m. Inr (unsigned_bytes v m))"

subsection \<open>Parsing (\<open>envelope.py\<close>)\<close>

text \<open>\<open>raise EnvelopeValidationError(str(exc)) from exc\<close>\<close>

definition as_envelope_error :: "py_error \<Rightarrow> py_error" where
  "as_envelope_error x =
     (case x of
        IdentifierValidationError m \<Rightarrow> EnvelopeValidationError m
      | EnvelopePayloadCodecError m \<Rightarrow> EnvelopeValidationError m
      | EnvelopeSignatureError m \<Rightarrow> EnvelopeValidationError m
      | _ \<Rightarrow> x)"

definition optional_metadata :: "json \<Rightarrow> string \<Rightarrow> json_obj option res" where
  "optional_metadata v field =
     (case v of
        JNull \<Rightarrow> Inr None
      | JObj m \<Rightarrow> Inr (Some m)
      | _ \<Rightarrow> Inl (EnvelopeValidationError (field @ '' must be null or an object'')))"

definition optional_encryption_metadata :: "json \<Rightarrow> string \<Rightarrow> json \<Rightarrow> string \<Rightarrow> json_obj option res" where
  "optional_encryption_metadata v field payload_body destination_node_id =
     rbind (optional_metadata v field) (\<lambda>metadata.
     rbind (payload_codec_metadata payload_body) (\<lambda>cm.
       if map_of cm ''mode'' = Some (JStr ENCRYPTED_CODEC_MODE)
       then (case metadata of
               None \<Rightarrow> Inl (EnvelopeValidationError ''encryption_metadata is required for encrypted payloads'')
             | Some m \<Rightarrow>
                 rbind (rmap_error as_envelope_error (validate_encryption_metadata (JObj m) (Some destination_node_id)))
                   (\<lambda>r. Inr (Some r)))
       else if metadata \<noteq> None
       then Inl (EnvelopeValidationError ''encryption_metadata is only supported for encrypted payloads'')
       else Inr None))"

definition optional_signature_metadata :: "json \<Rightarrow> string \<Rightarrow> json_obj option res" where
  "optional_signature_metadata v field =
     rbind (optional_metadata v field) (\<lambda>metadata.
       case metadata of
         None \<Rightarrow> Inr None
       | Some m \<Rightarrow>
           rbind (rmap_error as_envelope_error (validate_signature_metadata (JObj m))) (\<lambda>r. Inr (Some r)))"

text \<open>The versions, the identifiers and the committed hash of \<open>parse_envelope_mapping\<close>, in its order.\<close>

definition envelope_versions :: "json_obj \<Rightarrow> (int \<times> int \<times> int) res" where
  "envelope_versions p =
     rbind (env_required_int (map_of p ''version'') ''version'') (\<lambda>version.
     rbind (env_required_int (map_of p ''envelope_version'') ''envelope_version'') (\<lambda>envelope_version.
     rbind (env_required_int (map_of p ''protocol_version'') ''protocol_version'') (\<lambda>protocol_version.
     rbind (rguard (version = 1) (EnvelopeValidationError ''version is unsupported'')) (\<lambda>_.
     rbind (rguard (envelope_version = CANONICAL_ENVELOPE_VERSION)
              (EnvelopeValidationError ''envelope_version is unsupported'')) (\<lambda>_.
     rbind (rguard (1 \<le> protocol_version) (EnvelopeValidationError ''protocol_version must be positive'')) (\<lambda>_.
       Inr (version, envelope_version, protocol_version)))))))"

definition envelope_identifiers :: "json_obj \<Rightarrow> (string \<times> string \<times> string \<times> string \<times> string) res" where
  "envelope_identifiers p =
     rbind (env_required_string (map_of p ''envelope_id'') ''envelope_id'') (\<lambda>envelope_id.
     rbind (env_required_string (map_of p ''message_id'') ''message_id'') (\<lambda>message_id.
     rbind (rguard (message_id = envelope_id) (EnvelopeValidationError ''message_id must match envelope_id'')) (\<lambda>_.
     rbind (env_required_string (map_of p ''message_type'') ''message_type'') (\<lambda>message_type.
     rbind (rguard (message_type = ENVELOPE_TYPE_TRANSACTION)
              (EnvelopeValidationError ''message_type is unsupported'')) (\<lambda>_.
     rbind (env_required_string (map_of p ''source_node_id'') ''source_node_id'') (\<lambda>source_node_id.
     rbind (env_required_string (map_of p ''destination_node_id'') ''destination_node_id'') (\<lambda>destination_node_id.
     rbind (env_required_string (map_of p ''transaction_id'') ''transaction_id'') (\<lambda>transaction_id.
     rbind (rmap_error as_envelope_error
       (rbind (validate_identifier envelope_id Envelope ''envelope_id'') (\<lambda>_.
        rbind (validate_identifier source_node_id Node ''source_node_id'') (\<lambda>_.
        rbind (validate_identifier destination_node_id Node ''destination_node_id'') (\<lambda>_.
          validate_identifier transaction_id Kit_Identifiers.Transaction ''transaction_id''))))) (\<lambda>_.
       Inr (envelope_id, message_type, source_node_id, destination_node_id, transaction_id))))))))))"

definition envelope_payload_hash :: "json_obj \<Rightarrow> json \<Rightarrow> string res" where
  "envelope_payload_hash p payload_body =
     rbind (rmap_error as_envelope_error
              (rbind (validate_payload_codec_metadata
                        (case payload_body of JObj b \<Rightarrow> map_of b ''codec'' | _ \<Rightarrow> None) None) (\<lambda>_.
                 encoded_payload_bytes payload_body))) (\<lambda>committed.
     rbind (env_required_string (map_of p ''payload_hash'') ''payload_hash'') (\<lambda>payload_hash.
     rbind (rguard (text_length payload_hash = 64 \<and> int_base16_ok payload_hash \<and> lower payload_hash = payload_hash)
              (EnvelopeValidationError ''payload_hash must be a lowercase sha256 hex string'')) (\<lambda>_.
     rbind (rguard (payload_hash = payload_commitment committed)
              (EnvelopeValidationError ''payload_hash does not match payload'')) (\<lambda>_. Inr payload_hash))))"

definition json_object :: "json option \<Rightarrow> string \<Rightarrow> json_obj res" where
  "json_object v field =
     (case v of Some (JObj m) \<Rightarrow> Inr m | _ \<Rightarrow> Inl (EnvelopeValidationError (field @ '' must be an object'')))"

definition parse_envelope_mapping :: "json \<Rightarrow> CanonicalEnvelope res" where
  "parse_envelope_mapping payload =
     (case payload of
        JObj p \<Rightarrow>
          (if \<exists>k \<in> set (map fst p). k \<notin> set ALLOWED_FIELDS
           then Inl (EnvelopeValidationError ''unknown envelope field: '')
           else if \<exists>k \<in> set REQUIRED_FIELDS. \<not> dict_has k p
           then Inl (EnvelopeValidationError ''missing required field: '')
           else
           rbind (envelope_versions p) (\<lambda>(version, envelope_version, protocol_version).
           rbind (envelope_identifiers p)
             (\<lambda>(envelope_id, message_type, source_node_id, destination_node_id, transaction_id).
           rbind (env_required_string (map_of p ''created_at'') ''created_at'') (\<lambda>created_at.
           rbind (case map_of p ''expires_at'' of
                    Some JNull \<Rightarrow> Inr None
                  | v \<Rightarrow> rbind (env_required_string v ''expires_at'') (\<lambda>s. Inr (Some s))) (\<lambda>expires_at.
           rbind (json_object (map_of p ''routing'') ''routing'') (\<lambda>routing.
           rbind (json_object (map_of p ''payload'') ''payload'') (\<lambda>payload_body.
           rbind (envelope_payload_hash p (JObj payload_body)) (\<lambda>payload_hash.
           rbind (optional_signature_metadata (the (map_of p ''signature_metadata'')) ''signature_metadata'')
             (\<lambda>signature_metadata.
           rbind (optional_encryption_metadata (the (map_of p ''encryption_metadata'')) ''encryption_metadata''
                    (JObj payload_body) destination_node_id) (\<lambda>encryption_metadata.
           let v = \<lparr>ce_envelope_id = envelope_id, ce_source_node_id = source_node_id,
                 ce_destination_node_id = destination_node_id, ce_transaction_id = transaction_id,
                 ce_payload = payload_body, ce_created_at = created_at, ce_payload_hash = payload_hash,
                 ce_version = version, ce_envelope_version = envelope_version, ce_message_type = message_type,
                 ce_protocol_version = protocol_version, ce_routing = routing, ce_expires_at = expires_at,
                 ce_signature_metadata = signature_metadata, ce_encryption_metadata = encryption_metadata\<rparr> in
             if \<not> py_eq (JObj (canonical_envelope_dict v)) (JObj p)
             then Inl (EnvelopeValidationError ''envelope is not in canonical protocol shape'')
             else Inr v))))))))))
      | _ \<Rightarrow> Inl (EnvelopeValidationError ''envelope must be a JSON object''))"

text \<open>
  The decoder refuses repeated members at any depth. A text that is JSON but repeats a member gets
  the error of the hook; both errors are the same exception.
\<close>

definition parse_envelope_bytes :: "bytes \<Rightarrow> CanonicalEnvelope res" where
  "parse_envelope_bytes data =
     (case utf8_decode data of
        None \<Rightarrow> Inl (EnvelopeValidationError ''envelope json must be UTF-8'')
      | Some s \<Rightarrow>
          (case json_loads_unique s of
             Some j \<Rightarrow> parse_envelope_mapping j
           | None \<Rightarrow>
               if json_loads s \<noteq> None then Inl (EnvelopeValidationError ''duplicate envelope field: '')
               else Inl (EnvelopeValidationError ''envelope json is invalid: '')))"

subsection \<open>Comparisons and hexadecimal text\<close>

lemma insort_key_map: "(\<And>x. key (f x) = key x) \<Longrightarrow> insort_key key (f x) (map f xs) = map f (insort_key key x xs)"
  by (induction xs) simp_all

lemma sort_key_map: "(\<And>x. key (f x) = key x) \<Longrightarrow> sort_key key (map f xs) = map f (sort_key key xs)"
  by (induction xs) (simp_all add: insort_key_map)

lemma py_norm_canon [simp]: "py_norm (canon j) = py_norm j"
proof (induction j rule: canon.induct)
  case (2 kvs)
  have "map (\<lambda>(k, v). (k, py_norm v)) (map (\<lambda>(k, v). (k, canon v)) kvs) = map (\<lambda>(k, v). (k, py_norm v)) kvs"
    using 2 by (auto simp: case_prod_unfold)
  then have "sort_key fst (sort_key fst (map (\<lambda>(k, v). (k, py_norm v)) (map (\<lambda>(k, v). (k, canon v)) kvs))) =
      sort_key fst (map (\<lambda>(k, v). (k, py_norm v)) kvs)"
    by (simp only: sort_key_id_if_sorted sorted_sort_key)
  moreover have "sort_key fst (map (\<lambda>(k, v). (k, py_norm v)) xs) = map (\<lambda>(k, v). (k, py_norm v)) (sort_key fst xs)"
    for xs :: json_obj by (rule sort_key_map) (simp add: case_prod_unfold)
  ultimately show ?case by (simp only: canon.simps py_norm.simps)
qed simp_all

lemma py_eq_canon: "canon a = canon b \<Longrightarrow> py_eq a b"
  unfolding py_eq_def by (metis py_norm_canon)

definition is_hex_text :: "string \<Rightarrow> bool" where
  "is_hex_text s \<longleftrightarrow> s \<noteq> [] \<and> (\<forall>c \<in> set s. c \<in> set hex_alphabet)"

lemma hex_alphabet_props:
  "c \<in> set hex_alphabet \<Longrightarrow> hex_val c \<noteq> None \<and> \<not> is_space c \<and> \<not> utf8_cont c \<and>
    c \<notin> {CHR ''+'', CHR ''-'', CHR ''x'', CHR ''X'', CHR ''_''}"
proof -
  have "list_all (\<lambda>c. hex_val c \<noteq> None \<and> \<not> is_space c \<and> \<not> utf8_cont c \<and>
    c \<notin> {CHR ''+'', CHR ''-'', CHR ''x'', CHR ''X'', CHR ''_''}) hex_alphabet" by code_simp
  then show "c \<in> set hex_alphabet \<Longrightarrow> ?thesis" by (simp add: list_all_iff)
qed

lemma hex_digits_alphabet:
  "\<forall>c \<in> set s. c \<in> set hex_alphabet \<Longrightarrow> s \<noteq> [] \<or> prev \<Longrightarrow> hex_digits acc prev s \<noteq> None"
  by (induction s arbitrary: acc prev) (auto dest: hex_alphabet_props)

lemma hex_body_alphabet: "is_hex_text s \<Longrightarrow> hex_body s \<noteq> None"
proof -
  assume h: "is_hex_text s"
  then have "CHR ''x'' \<notin> set s" "CHR ''X'' \<notin> set s"
    using hex_alphabet_props unfolding is_hex_text_def by blast+
  then show "hex_body s \<noteq> None"
    using hex_digits_alphabet [of s False 0] h by (auto simp: hex_body_def is_hex_text_def split: list.split)
qed

lemma int_base16_ok_hex: "is_hex_text s \<Longrightarrow> int_base16_ok s"
proof -
  assume h: "is_hex_text s"
  then obtain c r where s: "s = c # r" "c \<noteq> CHR ''+''" "c \<noteq> CHR ''-''"
    using hex_alphabet_props unfolding is_hex_text_def by (cases s) auto
  have "strip s = s" using h hex_alphabet_props by (intro strip_by_none) (auto simp: is_hex_text_def)
  then have "int_base16 s = map_option int (hex_body s)"
    using s by (simp add: int_base16_def split: char.split bool.split)
  then show ?thesis using hex_body_alphabet [OF h] by (simp add: int_base16_ok_def)
qed

lemma sha256_hex_text: "is_hex_text (sha256_hex m)"
proof -
  have "hex_char n \<in> set hex_alphabet" if "n < 16" for n
    using that unfolding hex_char_def by (intro nth_mem) (simp add: hex_alphabet_def)
  moreover have "sha256 m \<noteq> []" by (metis length_sha256 list.size(3) zero_neq_numeral)
  ultimately show ?thesis
    by (auto simp: is_hex_text_def sha256_hex_def bytes_to_hex_def)
qed

lemma text_length_hex: "is_hex_text s \<Longrightarrow> text_length s = length s"
  unfolding text_length_def
  by (subst filter_True) (auto simp: is_hex_text_def dest: hex_alphabet_props)

lemma sha256_hex_facts [simp]:
  "text_length (sha256_hex m) = 64" "int_base16_ok (sha256_hex m)" "lower (sha256_hex m) = sha256_hex m"
  "sha256_hex m \<noteq> []"
  using text_length_hex [OF sha256_hex_text, of m] int_base16_ok_hex [OF sha256_hex_text, of m]
    sha256_hex_text [of m]
  by (simp_all add: sha256_hex_def is_hex_text_def)

lemma utf8_ok_sha256_hex [simp]: "utf8_ok (sha256_hex m)"
  using sha256_hex_text [of m] below_del_alphabets(1)
  by (intro plain_utf8) (auto simp: is_hex_text_def list_all_iff)

subsection \<open>The encrypted codec\<close>

text \<open>
  What the \<open>cryptography\<close> package promises two peers that run it: the cipher opens what it sealed, HKDF
  returns the length asked for, both ends of a key exchange agree, and a signature verifies under
  the public key of the signing key.
\<close>

definition keys_raw :: "identity_material \<Rightarrow> bool" where
  "keys_raw a \<longleftrightarrow> length (im_signing_private_key a) = 32 \<and> length (im_signing_public_key a) = 32 \<and>
     length (im_encryption_private_key a) = 32 \<and> length (im_encryption_public_key a) = 32"

definition cipher_law :: "peer_env \<Rightarrow> peer_env \<Rightarrow> bool" where
  "cipher_law s r \<longleftrightarrow> aead_law (h_aead (pe_host s)) \<and> h_aead (pe_host r) = h_aead (pe_host s) \<and>
     pe_hkdf_sha256 r = pe_hkdf_sha256 s \<and> (\<forall>k c. length (pe_hkdf_sha256 s k c 32) = 32) \<and>
     (\<forall>i. length (pe_nonce s i) = 12 \<and> length (fst (pe_ephemeral s i)) = 32 \<and> length (snd (pe_ephemeral s i)) = 32)"

definition key_agreement_law :: "peer_env \<Rightarrow> peer_env \<Rightarrow> identity_material \<Rightarrow> bool" where
  "key_agreement_law s r b \<longleftrightarrow>
     (\<forall>i. \<exists>secret. secret \<noteq> [] \<and>
        pe_x25519_exchange s (fst (pe_ephemeral s i)) (im_encryption_public_key b) = Some secret \<and>
        pe_x25519_exchange r (im_encryption_private_key b) (snd (pe_ephemeral s i)) = Some secret)"

definition signature_law :: "peer_env \<Rightarrow> peer_env \<Rightarrow> identity_material \<Rightarrow> bool" where
  "signature_law s r a \<longleftrightarrow> h_ed25519_key_ok (pe_host r) (im_signing_public_key a) \<and>
     (\<forall>m. length (pe_ed25519_sign s (im_signing_private_key a) m) = 64 \<and>
        h_ed25519_verify (pe_host r) (im_signing_public_key a) m (pe_ed25519_sign s (im_signing_private_key a) m))"

text \<open>The members of validated encryption metadata, in the order in which the validator returns them.\<close>

definition encryption_fields :: "EnvelopePayloadContext \<Rightarrow> string \<Rightarrow> bytes \<Rightarrow> bytes \<Rightarrow> json_obj" where
  "encryption_fields context fp ephemeral nonce =
     [(''version'', JInt ENVELOPE_ENCRYPTION_METADATA_VERSION), (''algorithm'', JStr ENCRYPTED_CODEC_ALGORITHM),
      (''recipient_node_id'', JStr (pc_destination_node_id context)), (''recipient_key_fingerprint'', JStr fp),
      (''ephemeral_public_key'', JStr (encode_b64url ephemeral)), (''nonce'', JStr (encode_b64url nonce)),
      (''aad_profile'', JStr ENVELOPE_ENCRYPTION_AAD_PROFILE)]"

lemma metadata_without_nonce_fields [simp]:
  "metadata_without_nonce (encryption_fields context fp ephemeral nonce) = encryption_metadata_of context fp ephemeral"
  by (simp add: metadata_without_nonce_def encryption_fields_def encryption_metadata_of_def)

lemma kdf_context_neq_Nil [simp]: "kdf_context context cm encryption \<noteq> []"
  by (simp add: kdf_context_def canonical_json_bytes_def canonical_json_text_def)

lemma length_neq_Nil: "length bs = 32 \<Longrightarrow> bs \<noteq> []" "length bs = 12 \<Longrightarrow> bs \<noteq> []" "length bs = 64 \<Longrightarrow> bs \<noteq> []"
  by auto

lemma validate_encryption_metadata_fields:
  assumes "\<And>k. map_of m k = map_of (encryption_fields context fp ephemeral nonce) k"
    and "length ephemeral = 32" "length nonce = 12" "pc_destination_node_id context \<noteq> []"
    and "fp = sha256_hex key"
  shows "validate_encryption_metadata (JObj m) (Some (pc_destination_node_id context)) =
    Inr (encryption_fields context fp ephemeral nonce)"
proof -
  note b = encode_b64url_neq_Nil [OF length_neq_Nil(1) [OF assms(2)]]
    encode_b64url_neq_Nil [OF length_neq_Nil(2) [OF assms(3)]]
  show ?thesis
    unfolding validate_encryption_metadata_def json.case Let_def assms(1)
    using b assms(2-5)
    by (simp add: encryption_fields_def py_int_eq_def is_text_def text_of_def is_text_of_length_def
        ENVELOPE_ENCRYPTION_METADATA_VERSION_def invalid_base64url_def decode_b64url_encode validate_raw_public_key_def)
qed

text \<open>What the sender's codec produces for a recipient and what the recipient's codec makes of it.\<close>

lemma encode_encrypted_result:
  assumes "cipher_law s r" and "key_agreement_law s r b" and "keys_raw b"
    and "pc_destination_node_id context = im_node_id b" and "fp = [] \<or> fp = sha256_hex (im_encryption_public_key b)"
  obtains ct where "ct \<noteq> []"
    and "codec_encode s (with_context (encrypted_codec_for_recipient (im_node_id b) (im_encryption_public_key b) fp) context)
           plaintext =
         Inr \<lparr>er_payload = payload_object (codec_metadata ENCRYPTED_ENVELOPE_PAYLOAD_CODEC) ct,
              er_encoded_payload_bytes = ct, er_metadata = codec_metadata ENCRYPTED_ENVELOPE_PAYLOAD_CODEC,
              er_encryption_metadata = Some (encryption_metadata_of context (sha256_hex (im_encryption_public_key b))
                  (snd (pe_ephemeral s (pc_envelope_id context)))
                @ [(''nonce'', JStr (encode_b64url (pe_nonce s (pc_envelope_id context))))])\<rparr>"
    and "\<And>m. (\<And>k. map_of m k = map_of (encryption_fields context (sha256_hex (im_encryption_public_key b))
            (snd (pe_ephemeral s (pc_envelope_id context))) (pe_nonce s (pc_envelope_id context))) k) \<Longrightarrow>
         pc_destination_node_id context \<noteq> [] \<Longrightarrow>
         decode_encrypted r (encrypted_codec_for_local context (im_encryption_private_key b)
           (im_encryption_public_key b) (JObj m)) ct = Inr plaintext"
proof -
  let ?i = "pc_envelope_id context" and ?fp = "sha256_hex (im_encryption_public_key b)"
  let ?cm = "codec_metadata ENCRYPTED_ENVELOPE_PAYLOAD_CODEC"
  obtain k K where e: "pe_ephemeral s ?i = (k, K)" by (cases "pe_ephemeral s ?i")
  obtain secret where x: "secret \<noteq> []" "pe_x25519_exchange s k (im_encryption_public_key b) = Some secret"
    "pe_x25519_exchange r (im_encryption_private_key b) K = Some secret"
    using assms(2) e unfolding key_agreement_law_def by (metis fst_conv snd_conv)
  have len: "length k = 32" "length K = 32" "length (pe_nonce s ?i) = 12" "\<And>c. length (pe_hkdf_sha256 s secret c 32) = 32"
    and host: "h_aead (pe_host r) = h_aead (pe_host s)" "pe_hkdf_sha256 r = pe_hkdf_sha256 s" "aead_law (h_aead (pe_host s))"
    using assms(1) e unfolding cipher_law_def by (metis fst_conv snd_conv)+
  let ?enc = "encryption_metadata_of context ?fp K"
  let ?key = "pe_hkdf_sha256 s secret (kdf_context context ?cm ?enc) 32"
  let ?ct = "aead_seal (h_aead (pe_host s)) ?key (pe_nonce s ?i) plaintext (envelope_aad context ?cm ?enc)"
  have open_seal: "aead_open (h_aead (pe_host s)) ?key (pe_nonce s ?i) ?ct (envelope_aad context ?cm ?enc) = Some plaintext"
    and ct: "?ct \<noteq> []" using host(3) by (simp_all add: aead_law_def)
  have raw: "length (im_encryption_public_key b) = 32" "length (im_encryption_private_key b) = 32"
    using assms(3) by (simp_all add: keys_raw_def)
  note codec_defs = ENCRYPTED_ENVELOPE_PAYLOAD_CODEC_def PLAINTEXT_ENVELOPE_PAYLOAD_CODEC_def
  show thesis
  proof (rule that [OF ct])
    show "codec_encode s (with_context (encrypted_codec_for_recipient (im_node_id b) (im_encryption_public_key b) fp) context)
           plaintext =
         Inr \<lparr>er_payload = payload_object ?cm ?ct, er_encoded_payload_bytes = ?ct, er_metadata = ?cm,
              er_encryption_metadata = Some (encryption_metadata_of context ?fp (snd (pe_ephemeral s ?i))
                @ [(''nonce'', JStr (encode_b64url (pe_nonce s ?i)))])\<rparr>"
      using assms(4,5) x len raw
      by (simp add: codec_encode_def encode_encrypted_def with_context_def encrypted_codec_for_recipient_def codec_defs
          required_context_def validate_raw_public_key_def key_fingerprint_def e codec_metadata_def
          derive_x25519_shared_key_def derive_hkdf_sha256_def encrypt_aead_def validate_key_def Let_def)
  next
    fix m
    assume m: "\<And>k. map_of m k = map_of (encryption_fields context ?fp (snd (pe_ephemeral s ?i)) (pe_nonce s ?i)) k"
      and dest: "pc_destination_node_id context \<noteq> []"
    have v: "validate_encryption_metadata (JObj m) (Some (pc_destination_node_id context)) =
        Inr (encryption_fields context ?fp K (pe_nonce s ?i))"
      using m e len dest by (intro validate_encryption_metadata_fields) simp_all
    have f: "map_of (encryption_fields context ?fp K (pe_nonce s ?i)) ''recipient_key_fingerprint'' = Some (JStr ?fp)"
      "map_of (encryption_fields context ?fp K (pe_nonce s ?i)) ''ephemeral_public_key'' = Some (JStr (encode_b64url K))"
      "map_of (encryption_fields context ?fp K (pe_nonce s ?i)) ''nonce'' = Some (JStr (encode_b64url (pe_nonce s ?i)))"
      by (simp_all add: encryption_fields_def)
    have cm: "codec_metadata (encrypted_codec_for_local context (im_encryption_private_key b)
           (im_encryption_public_key b) (JObj m)) = ?cm"
      by (simp add: encrypted_codec_for_local_def codec_metadata_def)
    show "decode_encrypted r (encrypted_codec_for_local context (im_encryption_private_key b)
           (im_encryption_public_key b) (JObj m)) ?ct = Inr plaintext"
      unfolding decode_encrypted_def cm
      using v f x len raw host open_seal ct
      by (simp add: encrypted_codec_for_local_def required_context_def local_public_key_def
          validate_raw_public_key_def key_fingerprint_def invalid_base64url_def text_of_def decode_b64url_encode
          derive_x25519_shared_key_def derive_hkdf_sha256_def decrypt_aead_def validate_key_def AEAD_ALGORITHM_def)
  qed
qed

subsection \<open>Parsing what was serialised\<close>

lemma dict_wf_envelope [simp]: "dict_wf (canonical_envelope_dict v)"
  by (simp add: dict_wf_def canonical_envelope_dict_def)

lemma keys_canon_obj: "fst ` set (canon_obj p) = fst ` set p"
  by (force simp: canon_obj_def)

lemma keys_envelope: "fst ` set (canonical_envelope_dict v) = set REQUIRED_FIELDS"
proof -
  have "map fst (canonical_envelope_dict v) = [''created_at'', ''destination_node_id'', ''encryption_metadata'',
      ''envelope_id'', ''envelope_version'', ''expires_at'', ''message_id'', ''message_type'', ''payload'',
      ''payload_hash'', ''protocol_version'', ''routing'', ''signature_metadata'', ''source_node_id'',
      ''transaction_id'', ''version'']" by (simp add: canonical_envelope_dict_def)
  moreover have "set [''created_at'', ''destination_node_id'', ''encryption_metadata'',
      ''envelope_id'', ''envelope_version'', ''expires_at'', ''message_id'', ''message_type'', ''payload'',
      ''payload_hash'', ''protocol_version'', ''routing'', ''signature_metadata'', ''source_node_id'',
      ''transaction_id'', ''version''] = set REQUIRED_FIELDS" by code_simp
  ultimately show ?thesis by (metis set_map)
qed

lemma canon_obj_idem [simp]: "canon_obj (canon_obj p) = canon_obj p"
  using canon_idem [of "JObj p"] unfolding canon_JObj by simp

text \<open>What \<open>parse_envelope_mapping\<close> asks of the fields that are not metadata.\<close>

definition envelope_shape :: "CanonicalEnvelope \<Rightarrow> bool" where
  "envelope_shape v \<longleftrightarrow> ce_version v = 1 \<and> ce_envelope_version v = CANONICAL_ENVELOPE_VERSION \<and>
     1 \<le> ce_protocol_version v \<and> ce_message_type v = ENVELOPE_TYPE_TRANSACTION \<and>
     is_identifier Envelope (ce_envelope_id v) \<and> is_identifier Node (ce_source_node_id v) \<and>
     is_identifier Node (ce_destination_node_id v) \<and> is_identifier Kit_Identifiers.Transaction (ce_transaction_id v) \<and>
     ce_created_at v \<noteq> [] \<and> ce_expires_at v \<noteq> Some []"

lemma env_required_string_text [simp]: "s \<noteq> [] \<Longrightarrow> env_required_string (Some (JStr s)) field = Inr s"
  by (simp add: env_required_string_def)

lemma parse_envelope_canonical:
  fixes v :: CanonicalEnvelope
  defines "p \<equiv> canon_obj (canonical_envelope_dict v)"
  assumes shape: "envelope_shape v"
    and hash: "envelope_payload_hash p (JObj (canon_obj (ce_payload v))) = Inr (ce_payload_hash v)"
    and sg: "optional_signature_metadata (canon (json_obj_opt (ce_signature_metadata v))) ''signature_metadata'' = Inr sg"
      "canon (json_obj_opt sg) = canon (json_obj_opt (ce_signature_metadata v))"
    and en: "optional_encryption_metadata (canon (json_obj_opt (ce_encryption_metadata v))) ''encryption_metadata''
        (JObj (canon_obj (ce_payload v))) (ce_destination_node_id v) = Inr en"
      "canon (json_obj_opt en) = canon (json_obj_opt (ce_encryption_metadata v))"
  shows "parse_envelope_mapping (JObj p) =
    Inr (v\<lparr>ce_payload := canon_obj (ce_payload v), ce_routing := canon_obj (ce_routing v),
           ce_signature_metadata := sg, ce_encryption_metadata := en\<rparr>)" (is "_ = Inr ?w")
proof -
  have get: "map_of p k = map_option canon (map_of (canonical_envelope_dict v) k)" for k
    by (simp add: p_def map_of_canon_obj)
  have keys: "fst ` set p = set REQUIRED_FIELDS" by (simp add: p_def keys_canon_obj keys_envelope)
  then have fields: "\<not> (\<exists>k \<in> set (map fst p). k \<notin> set ALLOWED_FIELDS)" "\<not> (\<exists>k \<in> set REQUIRED_FIELDS. \<not> dict_has k p)"
    by (auto simp: ALLOWED_FIELDS_def dict_has_iff map_of_eq_None_iff)
  have f: "map_of p ''version'' = Some (JInt (ce_version v))"
    "map_of p ''envelope_version'' = Some (JInt (ce_envelope_version v))"
    "map_of p ''protocol_version'' = Some (JInt (ce_protocol_version v))"
    "map_of p ''envelope_id'' = Some (JStr (ce_envelope_id v))" "map_of p ''message_id'' = Some (JStr (ce_envelope_id v))"
    "map_of p ''message_type'' = Some (JStr (ce_message_type v))"
    "map_of p ''source_node_id'' = Some (JStr (ce_source_node_id v))"
    "map_of p ''destination_node_id'' = Some (JStr (ce_destination_node_id v))"
    "map_of p ''transaction_id'' = Some (JStr (ce_transaction_id v))"
    "map_of p ''created_at'' = Some (JStr (ce_created_at v))"
    "map_of p ''expires_at'' = Some (json_text_opt (ce_expires_at v))"
    "map_of p ''routing'' = Some (JObj (canon_obj (ce_routing v)))"
    "map_of p ''payload'' = Some (JObj (canon_obj (ce_payload v)))"
    "map_of p ''signature_metadata'' = Some (canon (json_obj_opt (ce_signature_metadata v)))"
    "map_of p ''encryption_metadata'' = Some (canon (json_obj_opt (ce_encryption_metadata v)))"
    unfolding get by (simp_all add: canonical_envelope_dict_def message_id_def json_text_opt_def canon_JObj
        split: option.split del: canon.simps(2))
  note s = shape [unfolded envelope_shape_def]
  then have ne: "ce_envelope_id v \<noteq> []" "ce_source_node_id v \<noteq> []" "ce_destination_node_id v \<noteq> []"
    "ce_transaction_id v \<noteq> []" using is_identifier_not_Nil by blast+
  have versions: "envelope_versions p = Inr (ce_version v, ce_envelope_version v, ce_protocol_version v)"
    using s by (simp add: envelope_versions_def f env_required_int_def)
  have ids: "envelope_identifiers p = Inr (ce_envelope_id v, ce_message_type v, ce_source_node_id v,
      ce_destination_node_id v, ce_transaction_id v)"
    using s ne by (simp add: envelope_identifiers_def f validate_identifier_ok ENVELOPE_TYPE_TRANSACTION_def)
  have expires: "(case map_of p ''expires_at'' of Some JNull \<Rightarrow> Inr None
      | v \<Rightarrow> rbind (env_required_string v ''expires_at'') (\<lambda>s. Inr (Some s))) = Inr (ce_expires_at v)"
    using s by (cases "ce_expires_at v") (simp_all add: f json_text_opt_def)
  have "canon (JObj (canonical_envelope_dict ?w)) = JObj p"
    unfolding p_def canon_JObj [symmetric]
    using sg(2) en(2) canon_obj_idem [unfolded canon_obj_def]
    by (simp add: canonical_envelope_dict_def message_id_def canon_obj_def)
  then have eq: "py_eq (JObj (canonical_envelope_dict ?w)) (JObj p)"
    by (intro py_eq_canon) (metis canon_idem)
  have w: "\<lparr>ce_envelope_id = ce_envelope_id v, ce_source_node_id = ce_source_node_id v,
      ce_destination_node_id = ce_destination_node_id v, ce_transaction_id = ce_transaction_id v,
      ce_payload = canon_obj (ce_payload v), ce_created_at = ce_created_at v, ce_payload_hash = ce_payload_hash v,
      ce_version = ce_version v, ce_envelope_version = ce_envelope_version v, ce_message_type = ce_message_type v,
      ce_protocol_version = ce_protocol_version v, ce_routing = canon_obj (ce_routing v),
      ce_expires_at = ce_expires_at v, ce_signature_metadata = sg, ce_encryption_metadata = en\<rparr> = ?w" by simp
  have c: "ce_created_at v \<noteq> []" using s by blast
  show ?thesis
    unfolding parse_envelope_mapping_def json.case if_not_P [OF fields(1)] if_not_P [OF fields(2)] versions ids
      rbind_simps prod.case expires
    by (simp add: f c json_object_def hash sg(1) en(1) Let_def w eq)
qed

lemma parse_envelope_bytes_canonical:
  assumes "json_wf (JObj (canonical_envelope_dict v))"
  shows "parse_envelope_bytes (canonical_envelope_bytes v) =
    parse_envelope_mapping (JObj (canon_obj (canonical_envelope_dict v)))"
proof -
  have "utf8_decode (canonical_envelope_bytes v) = Some (canonical_envelope_bytes v)"
    using utf8_ok_print(1) [OF canon_wf [OF assms]]
    by (simp add: utf8_decode_def canonical_envelope_bytes_def canonical_json_bytes_def canonical_json_text_def)
  then show ?thesis
    using json_loads_unique_dumps [OF assms]
    by (simp add: parse_envelope_bytes_def canonical_envelope_bytes_def canonical_json_bytes_def canon_JObj
        del: canon.simps)
qed

subsection \<open>From sender to recipient\<close>

text \<open>The envelope that a sender builds for an encrypted payload.\<close>

definition sealed_envelope ::
  "EnvelopePayloadContext \<Rightarrow> string \<Rightarrow> bytes \<Rightarrow> json_obj \<Rightarrow> json_obj option \<Rightarrow> CanonicalEnvelope" where
  "sealed_envelope context now ct encryption signature =
     \<lparr>ce_envelope_id = pc_envelope_id context, ce_source_node_id = pc_source_node_id context,
      ce_destination_node_id = pc_destination_node_id context, ce_transaction_id = pc_transaction_id context,
      ce_payload = payload_object (codec_metadata ENCRYPTED_ENVELOPE_PAYLOAD_CODEC) ct, ce_created_at = now,
      ce_payload_hash = payload_commitment ct, ce_version = 1, ce_envelope_version = pc_envelope_version context,
      ce_message_type = ENVELOPE_TYPE_TRANSACTION, ce_protocol_version = pc_protocol_version context,
      ce_routing = [], ce_expires_at = None, ce_signature_metadata = signature,
      ce_encryption_metadata = Some encryption\<rparr>"

definition context_ok :: "EnvelopePayloadContext \<Rightarrow> bool" where
  "context_ok context \<longleftrightarrow> is_identifier Envelope (pc_envelope_id context) \<and>
     is_identifier Node (pc_source_node_id context) \<and> is_identifier Node (pc_destination_node_id context) \<and>
     is_identifier Kit_Identifiers.Transaction (pc_transaction_id context) \<and>
     pc_envelope_version context = CANONICAL_ENVELOPE_VERSION \<and> 1 \<le> pc_protocol_version context"

definition context_for :: "Transaction \<Rightarrow> string \<Rightarrow> EnvelopePayloadContext" where
  "context_for t destination =
     \<lparr>pc_envelope_id = format_identifier Envelope (uuid5 CANONICAL_IDENTIFIER_NAMESPACE
        (identifier_type_value Envelope @ NUL @ ''protocol.envelope'' @ NUL @ tx_transaction_id t @ NUL @ destination)),
      pc_source_node_id = the (tx_origin_node_id t), pc_destination_node_id = destination,
      pc_transaction_id = tx_transaction_id t, pc_envelope_version = CANONICAL_ENVELOPE_VERSION,
      pc_protocol_version = tx_protocol_version t\<rparr>"

lemma build_transaction_envelope_result:
  assumes "tx_origin_node_id t = Some n" "is_identifier Node n" "is_identifier Node d"
    "is_identifier Kit_Identifiers.Transaction (tx_transaction_id t)" "tx_signature t = None"
    and enc: "codec_encode e (with_context c (context_for t d)) (canonical_json_bytes (transaction_payload t)) =
      Inr \<lparr>er_payload = payload_object (codec_metadata ENCRYPTED_ENVELOPE_PAYLOAD_CODEC) ct,
           er_encoded_payload_bytes = ct, er_metadata = cm, er_encryption_metadata = Some encryption\<rparr>"
  shows "build_transaction_envelope e t d c = Inr (sealed_envelope (context_for t d) (h_now (pe_host e)) ct encryption None)"
proof -
  have ne: "n \<noteq> []" "tx_transaction_id t \<noteq> []" using assms(2,4) is_identifier_not_Nil by blast+
  have id: "envelope_id_for (tx_transaction_id t) d = Inr (pc_envelope_id (context_for t d))"
    by (simp add: envelope_id_for_def deterministic_identifier_def context_for_def)
  show ?thesis
    using assms(1-5) ne enc
    by (simp add: build_transaction_envelope_def validate_identifier_ok id transaction_payload_bytes_def)
      (simp add: context_for_def sealed_envelope_def)
qed

lemma sign_envelope_result:
  assumes "is_identifier Node (pc_source_node_id context)" "keys_raw a"
  shows "sign_envelope e (sealed_envelope context now ct encryption None) (pc_source_node_id context)
      (im_signing_private_key a) (im_signing_public_key a) =
    Inr (sealed_envelope context now ct encryption (Some (signature_metadata_of (pc_source_node_id context)
      (sha256_hex (im_signing_public_key a)) (JStr (encode_b64url (pe_ed25519_sign e (im_signing_private_key a)
        (canonical_envelope_bytes (sealed_envelope context now ct encryption (Some (signature_metadata_of
          (pc_source_node_id context) (sha256_hex (im_signing_public_key a)) JNull))))))))))"
  using assms
  by (simp add: sign_envelope_def signing_node_id_def validate_identifier_ok sealed_envelope_def
      unsigned_signature_metadata_def signing_public_key_fingerprint_def keys_raw_def sign_ed25519_def signature_metadata_of_def)

lemma validated_signature_metadata_of:
  assumes "\<And>k. map_of m k = map_of (signature_metadata_of n (sha256_hex pk) (JStr sg)) k"
    and "is_identifier Node n" and "sg \<noteq> []"
  shows "validated_signature_metadata (JObj m) = Inr (signature_metadata_of n (sha256_hex pk) (JStr sg))"
  unfolding validated_signature_metadata_def json.case Let_def assms(1)
  using assms(2,3)
  by (simp add: signature_metadata_of_def py_int_eq_def ENVELOPE_SIGNATURE_VERSION_def signing_node_id_def
      validate_identifier_ok is_text_of_length_def text_of_def)

lemma payload_object_canonical:
  fixes ct :: bytes
  defines "body \<equiv> canon_obj (payload_object (codec_metadata ENCRYPTED_ENVELOPE_PAYLOAD_CODEC) ct)"
  assumes "ct \<noteq> []"
  shows "map_of body ''codec'' = Some (JObj (canon_obj (codec_metadata ENCRYPTED_ENVELOPE_PAYLOAD_CODEC)))"
    and "payload_data_bytes body = Inr ct"
    and "expected \<in> {None, Some ENCRYPTED_CODEC_MODE} \<Longrightarrow>
      validate_payload_codec_metadata (Some (JObj (canon_obj (codec_metadata ENCRYPTED_ENVELOPE_PAYLOAD_CODEC)))) expected =
      Inr (canon_obj (codec_metadata ENCRYPTED_ENVELOPE_PAYLOAD_CODEC))"
    and "map_of (canon_obj (codec_metadata ENCRYPTED_ENVELOPE_PAYLOAD_CODEC)) ''mode'' = Some (JStr ENCRYPTED_CODEC_MODE)"
proof -
  let ?cm = "codec_metadata ENCRYPTED_ENVELOPE_PAYLOAD_CODEC"
  have w: "dict_wf (payload_object ?cm ct)" "dict_wf ?cm"
    by (simp_all add: dict_wf_def payload_object_def codec_metadata_def)
  have g: "map_of body k = map_option canon (map_of (payload_object ?cm ct) k)"
    "map_of (canon_obj ?cm) k = map_option canon (map_of ?cm k)" for k
    by (simp_all add: body_def map_of_canon_obj w)
  show "map_of body ''codec'' = Some (JObj (canon_obj ?cm))"
    by (simp add: g(1) payload_object_def canon_obj_def)
  show "payload_data_bytes body = Inr ct"
    using encode_b64url_neq_Nil [OF assms(2)] by (simp add: payload_data_bytes_def g(1) payload_object_def)
  have c: "map_of (canon_obj ?cm) ''version'' = Some (JInt 1)"
    "map_of (canon_obj ?cm) ''mode'' = Some (JStr ENCRYPTED_CODEC_MODE)"
    "map_of (canon_obj ?cm) ''algorithm'' = Some (JStr ENCRYPTED_CODEC_ALGORITHM)"
    unfolding g(2) by (simp_all add: codec_metadata_def ENCRYPTED_ENVELOPE_PAYLOAD_CODEC_def)
  then show "map_of (canon_obj ?cm) ''mode'' = Some (JStr ENCRYPTED_CODEC_MODE)" by simp
  have "ENCRYPTED_CODEC_MODE \<noteq> PLAINTEXT_CODEC_MODE" by (simp add: ENCRYPTED_CODEC_MODE_def PLAINTEXT_CODEC_MODE_def)
  then show "expected \<in> {None, Some ENCRYPTED_CODEC_MODE} \<Longrightarrow>
      validate_payload_codec_metadata (Some (JObj (canon_obj ?cm))) expected = Inr (canon_obj ?cm)"
    by (auto simp: validate_payload_codec_metadata_def c py_int_eq_def unhashable_def)
qed

text \<open>The envelope that the recipient parses: member order is the only difference.\<close>

definition received_envelope ::
  "EnvelopePayloadContext \<Rightarrow> string \<Rightarrow> bytes \<Rightarrow> string \<Rightarrow> bytes \<Rightarrow> bytes \<Rightarrow> json_obj \<Rightarrow> CanonicalEnvelope" where
  "received_envelope context now ct fp ephemeral nonce signature =
     (sealed_envelope context now ct (encryption_fields context fp ephemeral nonce) (Some signature))
       \<lparr>ce_payload := canon_obj (payload_object (codec_metadata ENCRYPTED_ENVELOPE_PAYLOAD_CODEC) ct)\<rparr>"

lemma plain_identifier: "is_identifier ty s \<Longrightarrow> plain s"
proof -
  assume "is_identifier ty s"
  then obtain u where s: "s = format_identifier ty u" by (auto simp: is_identifier_iff)
  have "plain (PREFIX_BY_TYPE ty @ '':-'')" by (cases ty) (simp_all add: below_del_def)
  moreover from this have "plain (uuid_str u)"
    using uuid_str_chars below_del_alphabets(1) by (fastforce simp: list_all_iff)
  ultimately show "plain s" by (simp add: s format_identifier_def)
qed

lemma utf8_ok_identifier [simp]: "is_identifier ty s \<Longrightarrow> utf8_ok s"
  by (rule plain_utf8) (rule plain_identifier)

lemma utf8_ok_b64url [simp]: "utf8_ok (encode_b64url bs)"
  by (rule plain_utf8) (rule plain_b64url)

lemma json_wf_objI:
  "distinct (map fst kvs) \<Longrightarrow> list_all plain (map fst kvs) \<Longrightarrow> list_all json_wf (map snd kvs) \<Longrightarrow> json_wf (JObj kvs)"
  by (auto simp: dict_wf_def list_all_iff plain_utf8)

lemma encryption_metadata_wf:
  assumes "context_ok context" and "kvs = encryption_metadata_of context (sha256_hex pk) ephemeral @ [(''nonce'', JStr (encode_b64url nonce))]"
  shows "json_wf (JObj kvs)"
proof (rule json_wf_objI)
  have k: "map fst kvs = [''version'', ''algorithm'', ''recipient_node_id'', ''recipient_key_fingerprint'',
      ''ephemeral_public_key'', ''aad_profile'', ''nonce'']"
    by (simp add: assms(2) encryption_metadata_of_def)
  show "distinct (map fst kvs)" by (simp add: k)
  show "list_all plain (map fst kvs)" unfolding k by code_simp
  have "utf8_ok ENCRYPTED_CODEC_ALGORITHM" "utf8_ok ENVELOPE_ENCRYPTION_AAD_PROFILE" by code_simp+
  moreover have "utf8_ok (pc_destination_node_id context)"
    using assms(1) utf8_ok_identifier unfolding context_ok_def by blast
  ultimately show "list_all json_wf (map snd kvs)"
    by (simp add: assms(2) encryption_metadata_of_def del: utf8_ok.simps)
qed

lemma signature_metadata_wf:
  assumes "is_identifier Node n" "utf8_ok sg"
  shows "json_wf (JObj (signature_metadata_of n (sha256_hex pk) (JStr sg)))"
proof (rule json_wf_objI)
  let ?kvs = "signature_metadata_of n (sha256_hex pk) (JStr sg)"
  have k: "map fst ?kvs = [''version'', ''algorithm'', ''signer_node_id'', ''key_fingerprint'', ''signature'']"
    by (simp add: signature_metadata_of_def)
  show "distinct (map fst ?kvs)" by (simp add: k)
  show "list_all plain (map fst ?kvs)" unfolding k by code_simp
  have "utf8_ok ENVELOPE_SIGNATURE_ALGORITHM" by code_simp
  then show "list_all json_wf (map snd ?kvs)"
    using assms by (simp add: signature_metadata_of_def del: utf8_ok.simps)
qed

lemma payload_object_wf: "json_wf (JObj (payload_object (codec_metadata ENCRYPTED_ENVELOPE_PAYLOAD_CODEC) ct))"
proof (rule json_wf_objI)
  let ?cm = "codec_metadata ENCRYPTED_ENVELOPE_PAYLOAD_CODEC"
  let ?kvs = "payload_object ?cm ct"
  have k: "map fst ?kvs = [''codec'', ''encoding'', ''data_b64'']" by (simp add: payload_object_def)
  show "distinct (map fst ?kvs)" by (simp add: k)
  show "list_all plain (map fst ?kvs)" unfolding k by code_simp
  have "json_wf (JObj ?cm)" "utf8_ok ''base64url''" by code_simp+
  then show "list_all json_wf (map snd ?kvs)"
    by (simp add: payload_object_def del: utf8_ok.simps json_wf.simps(3))
qed

lemma canonical_envelope_wf:
  assumes "utf8_ok (ce_created_at v)" "utf8_ok (ce_destination_node_id v)" "utf8_ok (ce_envelope_id v)"
    "utf8_ok (ce_message_type v)" "utf8_ok (ce_payload_hash v)" "utf8_ok (ce_source_node_id v)" "utf8_ok (ce_transaction_id v)"
    "json_wf (json_text_opt (ce_expires_at v))" "json_wf (JObj (ce_payload v))" "json_wf (JObj (ce_routing v))"
    "json_wf (json_obj_opt (ce_signature_metadata v))" "json_wf (json_obj_opt (ce_encryption_metadata v))"
  shows "json_wf (JObj (canonical_envelope_dict v))"
proof (rule json_wf_objI)
  have k: "map fst (canonical_envelope_dict v) = [''created_at'', ''destination_node_id'', ''encryption_metadata'',
      ''envelope_id'', ''envelope_version'', ''expires_at'', ''message_id'', ''message_type'', ''payload'',
      ''payload_hash'', ''protocol_version'', ''routing'', ''signature_metadata'', ''source_node_id'',
      ''transaction_id'', ''version'']" by (simp add: canonical_envelope_dict_def)
  show "distinct (map fst (canonical_envelope_dict v))" by (simp add: k)
  show "list_all plain (map fst (canonical_envelope_dict v))" unfolding k by code_simp
  show "list_all json_wf (map snd (canonical_envelope_dict v))"
    using assms by (simp add: canonical_envelope_dict_def message_id_def del: utf8_ok.simps json_wf.simps(3))
qed

lemma sealed_envelope_wf:
  assumes "context_ok context" "utf8_ok now" "json_wf (JObj encryption)" "json_wf (JObj signature)" "json_wf (JObj body)"
  shows "json_wf (JObj (canonical_envelope_dict ((sealed_envelope context now ct encryption (Some signature))\<lparr>ce_payload := body\<rparr>)))"
proof (rule canonical_envelope_wf)
  let ?v = "(sealed_envelope context now ct encryption (Some signature))\<lparr>ce_payload := body\<rparr>"
  show "utf8_ok (ce_destination_node_id ?v)" "utf8_ok (ce_envelope_id ?v)" "utf8_ok (ce_source_node_id ?v)"
    "utf8_ok (ce_transaction_id ?v)"
    using assms(1) unfolding context_ok_def sealed_envelope_def by (simp_all, (blast intro: utf8_ok_identifier)+)
  have "utf8_ok ENVELOPE_TYPE_TRANSACTION" "json_wf (JObj [])" by code_simp+
  then show "utf8_ok (ce_created_at ?v)" "utf8_ok (ce_message_type ?v)" "utf8_ok (ce_payload_hash ?v)"
    "json_wf (json_text_opt (ce_expires_at ?v))" "json_wf (JObj (ce_payload ?v))" "json_wf (JObj (ce_routing ?v))"
    "json_wf (json_obj_opt (ce_signature_metadata ?v))" "json_wf (json_obj_opt (ce_encryption_metadata ?v))"
    using assms(2-5)
    by (simp_all add: sealed_envelope_def json_obj_opt_def json_text_opt_def payload_commitment_def
        del: utf8_ok.simps json_wf.simps(3))
qed

lemma sort_key_fst_eq:
  assumes "set a = set b" "distinct (map fst a)" "distinct (map fst b)"
  shows "sort_key fst a = sort_key fst b"
proof (rule sort_key_inj_key_eq)
  have "distinct a" "distinct b" using assms(2,3) distinct_map by blast+
  then show "mset a = mset (sort_key fst b)" using assms(1) by (simp add: set_eq_iff_mset_eq_distinct)
  show "inj_on fst (set a)" using assms(2) by (simp add: distinct_map)
qed simp

lemma json_wf_dict: "json_wf (JObj kvs) \<Longrightarrow> dict_wf kvs"
  by simp

lemma canon_fields_eq:
  assumes "json_wf (JObj a)" "dict_wf b" "\<And>k. map_of a k = map_of b k"
  shows "canon (JObj a) = canon (JObj b)"
proof -
  have "distinct (map fst a)" "distinct (map fst b)" using assms(1,2) by (simp_all add: dict_wf_def)
  then have "set a = set b" using assms(3) by (intro map_of_inject_set [THEN iffD1]) auto
  then have "set (map (\<lambda>(k, v). (k, canon v)) a) = set (map (\<lambda>(k, v). (k, canon v)) b)" by simp
  moreover have "distinct (map fst (map (\<lambda>(k, v). (k, canon v)) a))" "distinct (map fst (map (\<lambda>(k, v). (k, canon v)) b))"
    using \<open>distinct (map fst a)\<close> \<open>distinct (map fst b)\<close> by (simp_all add: map_fst_canon del: map_map)
  ultimately have "sort_key fst (map (\<lambda>(k, v). (k, canon v)) a) = sort_key fst (map (\<lambda>(k, v). (k, canon v)) b)"
    by (rule sort_key_fst_eq)
  then show ?thesis by simp
qed

lemma parse_sealed_envelope:
  assumes ok: "context_ok context" "now \<noteq> []" "utf8_ok now" and ct: "ct \<noteq> []"
    and len: "length ephemeral = 32" "length nonce = 12" and sg: "sg \<noteq> []" "utf8_ok sg"
    and encryption_def: "encryption = encryption_metadata_of context (sha256_hex pk) ephemeral @ [(''nonce'', JStr (encode_b64url nonce))]"
    and signature_def: "signature = signature_metadata_of (pc_source_node_id context) (sha256_hex spk) (JStr sg)"
  shows "parse_envelope_bytes (canonical_envelope_bytes (sealed_envelope context now ct encryption (Some signature))) =
    Inr (received_envelope context now ct (sha256_hex pk) ephemeral nonce signature)"
proof -
  let ?v = "sealed_envelope context now ct encryption (Some signature)"
  let ?p = "canon_obj (canonical_envelope_dict ?v)"
  let ?body = "canon_obj (payload_object (codec_metadata ENCRYPTED_ENVELOPE_PAYLOAD_CODEC) ct)"
  let ?fields = "encryption_fields context (sha256_hex pk) ephemeral nonce"
  have src: "is_identifier Node (pc_source_node_id context)" and dst: "pc_destination_node_id context \<noteq> []"
    using ok(1) is_identifier_not_Nil unfolding context_ok_def by blast+
  have ew: "json_wf (JObj encryption)" using ok(1) by (rule encryption_metadata_wf) (simp add: encryption_def)
  have sw: "json_wf (JObj signature)" using src sg(2) by (simp only: signature_def signature_metadata_wf)
  have body: "ce_payload ?v = payload_object (codec_metadata ENCRYPTED_ENVELOPE_PAYLOAD_CODEC) ct"
    "ce_signature_metadata ?v = Some signature" "ce_encryption_metadata ?v = Some encryption"
    "ce_destination_node_id ?v = pc_destination_node_id context" "ce_payload_hash ?v = payload_commitment ct"
    by (simp_all add: sealed_envelope_def)
  have efields: "map_of (canon_obj encryption) k = map_of ?fields k" for k
    unfolding map_of_canon_obj [OF json_wf_dict [OF ew]]
    by (simp add: encryption_def encryption_metadata_of_def encryption_fields_def)
  have sfields: "map_of (canon_obj signature) k = map_of signature k" for k
    unfolding map_of_canon_obj [OF json_wf_dict [OF sw]] by (simp add: signature_def signature_metadata_of_def)
  have shape: "envelope_shape ?v"
    using ok by (simp add: envelope_shape_def sealed_envelope_def context_ok_def)
  have "map_of ?p ''payload_hash'' = Some (JStr (payload_commitment ct))"
    by (simp add: map_of_canon_obj) (simp add: canonical_envelope_dict_def body)
  then have hash: "envelope_payload_hash ?p (JObj (canon_obj (ce_payload ?v))) = Inr (ce_payload_hash ?v)"
    using payload_object_canonical(1,2) [OF ct] payload_object_canonical(3) [OF ct, of None]
    by (simp add: envelope_payload_hash_def body encoded_payload_bytes_def payload_codec_metadata_def payload_commitment_def)
  have vs: "validated_signature_metadata (JObj (canon_obj signature)) = Inr signature"
    using validated_signature_metadata_of [OF sfields [unfolded signature_def] src sg(1)] by (simp only: signature_def)
  have s1: "optional_signature_metadata (canon (json_obj_opt (ce_signature_metadata ?v))) ''signature_metadata'' =
      Inr (Some signature)"
    by (simp add: body json_obj_opt_def canon_JObj optional_signature_metadata_def optional_metadata_def
        validate_signature_metadata_def vs del: canon.simps)
  have e1: "optional_encryption_metadata (canon (json_obj_opt (ce_encryption_metadata ?v))) ''encryption_metadata''
      (JObj (canon_obj (ce_payload ?v))) (ce_destination_node_id ?v) = Inr (Some ?fields)"
    using validate_encryption_metadata_fields [OF efields len dst refl] payload_object_canonical(1,4) [OF ct]
    by (simp add: body json_obj_opt_def canon_JObj optional_encryption_metadata_def optional_metadata_def
        payload_codec_metadata_def del: canon.simps)
  have e2: "canon (json_obj_opt (Some ?fields)) = canon (json_obj_opt (ce_encryption_metadata ?v))"
    unfolding body json_obj_opt_def option.case
    by (rule canon_fields_eq [symmetric, OF ew])
      (auto simp: dict_wf_def encryption_fields_def encryption_def encryption_metadata_of_def)
  have "parse_envelope_mapping (JObj ?p) =
      Inr (?v\<lparr>ce_payload := canon_obj (ce_payload ?v), ce_routing := canon_obj (ce_routing ?v),
        ce_signature_metadata := Some signature, ce_encryption_metadata := Some ?fields\<rparr>)"
    by (rule parse_envelope_canonical [OF shape hash s1 _ e1 e2]) (simp add: body)
  then show ?thesis
    using parse_envelope_bytes_canonical [of ?v] sealed_envelope_wf [OF ok(1,3) ew sw payload_object_wf, of ct ct]
    by (simp add: received_envelope_def sealed_envelope_def canon_obj_def)
qed

lemma received_signing_bytes:
  assumes "context_ok context" and "encryption = encryption_metadata_of context (sha256_hex pk) ephemeral @ [(''nonce'', JStr (encode_b64url nonce))]"
  shows "canonical_envelope_bytes ((received_envelope context now ct (sha256_hex pk) ephemeral nonce signature)
      \<lparr>ce_signature_metadata := Some m\<rparr>) = canonical_envelope_bytes (sealed_envelope context now ct encryption (Some m))"
proof -
  have "canon (JObj (encryption_fields context (sha256_hex pk) ephemeral nonce)) = canon (JObj encryption)"
    by (rule canon_fields_eq [symmetric, OF encryption_metadata_wf [OF assms]])
      (auto simp: dict_wf_def encryption_fields_def assms(2) encryption_metadata_of_def)
  then show ?thesis
    using canon_obj_idem [unfolded canon_obj_def]
    by (simp add: canonical_envelope_bytes_def canonical_json_bytes_def canonical_json_text_def canonical_envelope_dict_def
        received_envelope_def sealed_envelope_def json_obj_opt_def message_id_def canon_obj_def)
qed

lemma verify_received_envelope:
  assumes "context_ok context" and "keys_raw a" and law: "signature_law s r a"
    and enc: "encryption = encryption_metadata_of context (sha256_hex pk) ephemeral @ [(''nonce'', JStr (encode_b64url nonce))]"
    and sg: "sg = pe_ed25519_sign s (im_signing_private_key a) (canonical_envelope_bytes (sealed_envelope context now ct
      encryption (Some (signature_metadata_of (pc_source_node_id context) (sha256_hex (im_signing_public_key a)) JNull))))"
    and v: "v = received_envelope context now ct (sha256_hex pk) ephemeral nonce (signature_metadata_of
      (pc_source_node_id context) (sha256_hex (im_signing_public_key a)) (JStr (encode_b64url sg)))"
  shows "verify_envelope_signature (pe_host r) v (pc_source_node_id context) (im_signing_public_key a)
    (Some (sha256_hex (im_signing_public_key a))) = Inr ()"
proof -
  let ?n = "pc_source_node_id context" and ?fp = "sha256_hex (im_signing_public_key a)"
  let ?m = "signature_metadata_of ?n ?fp (JStr (encode_b64url sg))"
  have n: "is_identifier Node ?n" using assms(1) unfolding context_ok_def by blast
  have len: "length sg = 64" and ok: "h_ed25519_key_ok (pe_host r) (im_signing_public_key a)"
    using law by (simp_all add: signature_law_def sg)
  have ne: "encode_b64url sg \<noteq> []" using len by (intro encode_b64url_neq_Nil) auto
  have vm: "validated_signature_metadata (JObj ?m) = Inr ?m"
    by (rule validated_signature_metadata_of [OF refl n ne])
  have meta: "ce_source_node_id v = ?n" "ce_signature_metadata v = Some ?m"
    by (simp_all add: v received_envelope_def sealed_envelope_def)
  have "dict_set ''signature'' JNull ?m = signature_metadata_of ?n ?fp JNull" by (simp add: signature_metadata_of_def)
  then have bytes: "unsigned_bytes v ?m = canonical_envelope_bytes (sealed_envelope context now ct encryption
      (Some (signature_metadata_of ?n ?fp JNull)))"
    unfolding unsigned_bytes_def v by (simp only: received_signing_bytes [OF assms(1) enc])
  have "h_ed25519_verify (pe_host r) (im_signing_public_key a) (unsigned_bytes v ?m) sg"
    unfolding bytes using law by (simp add: signature_law_def sg)
  then have "verify_ed25519 (pe_host r) (im_signing_public_key a) (unsigned_bytes v ?m) sg = Inr True"
    using ok assms(2) by (simp add: verify_ed25519_def keys_raw_def)
  moreover have "decode_signature (map_of ?m ''signature'') = Inr sg"
    using ne len by (simp add: decode_signature_def signature_metadata_of_def is_text_def text_of_def decode_b64url_encode)
  moreover have "map_of ?m ''signer_node_id'' = Some (JStr ?n)" "map_of ?m ''key_fingerprint'' = Some (JStr ?fp)"
    by (simp_all add: signature_metadata_of_def)
  ultimately show ?thesis
    using assms(2) n meta vm
    by (simp add: verify_envelope_signature_def signing_node_id_def validate_identifier_ok json_obj_opt_def
        signing_public_key_fingerprint_def keys_raw_def)
qed

text \<open>The context that \<open>_decode_inbound_envelope_payload\<close> takes from an envelope.\<close>

definition envelope_context :: "CanonicalEnvelope \<Rightarrow> EnvelopePayloadContext" where
  "envelope_context v =
     \<lparr>pc_envelope_id = ce_envelope_id v, pc_source_node_id = ce_source_node_id v,
      pc_destination_node_id = ce_destination_node_id v, pc_transaction_id = ce_transaction_id v,
      pc_envelope_version = ce_envelope_version v, pc_protocol_version = ce_protocol_version v\<rparr>"

lemma envelope_context_received:
  "envelope_context (received_envelope context now ct fp ephemeral nonce signature) = context"
  by (simp add: envelope_context_def received_envelope_def sealed_envelope_def)

lemma decode_received_payload:
  assumes "ct \<noteq> []" and "decode_encrypted r c ct = Inr plaintext" and "co_mode c = ENCRYPTED_CODEC_MODE" "co_implemented c"
  shows "codec_decode r c (JObj (canon_obj (payload_object (codec_metadata ENCRYPTED_ENVELOPE_PAYLOAD_CODEC) ct))) =
    Inr plaintext"
  using assms(2-4) payload_object_canonical(1,2) [OF assms(1)]
    payload_object_canonical(3) [OF assms(1), of "Some ENCRYPTED_CODEC_MODE"]
  by (simp add: codec_decode_def payload_codec_metadata_def)

lemma context_for_ok:
  assumes "tx_origin_node_id t = Some n" "is_identifier Node n" "is_identifier Node d"
    "is_identifier Kit_Identifiers.Transaction (tx_transaction_id t)" "1 \<le> tx_protocol_version t"
  shows "context_ok (context_for t d)"
  using assms by (simp add: context_ok_def context_for_def)

lemma encryption_fields_wf:
  assumes "context_ok context"
  shows "json_wf (JObj (encryption_fields context (sha256_hex pk) ephemeral nonce))"
proof (rule json_wf_objI)
  let ?kvs = "encryption_fields context (sha256_hex pk) ephemeral nonce"
  have k: "map fst ?kvs = [''version'', ''algorithm'', ''recipient_node_id'', ''recipient_key_fingerprint'',
      ''ephemeral_public_key'', ''nonce'', ''aad_profile'']"
    by (simp add: encryption_fields_def)
  show "distinct (map fst ?kvs)" by (simp add: k)
  show "list_all plain (map fst ?kvs)" unfolding k by code_simp
  have "utf8_ok ENCRYPTED_CODEC_ALGORITHM" "utf8_ok ENVELOPE_ENCRYPTION_AAD_PROFILE" by code_simp+
  moreover have "utf8_ok (pc_destination_node_id context)"
    using assms(1) utf8_ok_identifier unfolding context_ok_def by blast
  ultimately show "list_all json_wf (map snd ?kvs)" by (simp add: encryption_fields_def del: utf8_ok.simps)
qed

lemma received_envelope_wf:
  assumes "context_ok context" "utf8_ok now" "json_wf (JObj signature)"
  shows "json_wf (JObj (canonical_envelope_dict (received_envelope context now ct (sha256_hex pk) ephemeral nonce signature)))"
  unfolding received_envelope_def
  using canon_wf [OF payload_object_wf]
  by (intro sealed_envelope_wf [OF assms(1,2) encryption_fields_wf [OF assms(1)] assms(3)]) (simp only: canon_JObj)

text \<open>A transaction that can be put into an envelope.\<close>

definition sendable :: "Transaction \<Rightarrow> string \<Rightarrow> bool" where
  "sendable t n \<longleftrightarrow> tx_origin_node_id t = Some n \<and> is_identifier Node n \<and>
     is_identifier Kit_Identifiers.Transaction (tx_transaction_id t) \<and> tx_signature t = None \<and> 1 \<le> tx_protocol_version t"

lemma envelope_delivery:
  assumes laws: "cipher_law s r" "key_agreement_law s r b" "signature_law s r a" and raw: "keys_raw a" "keys_raw b"
    and t: "sendable t (im_node_id a)" and dst: "is_identifier Node (im_node_id b)"
    and now: "h_now (pe_host s) \<noteq> []" "utf8_ok (h_now (pe_host s))"
    and fp: "fp = [] \<or> fp = sha256_hex (im_encryption_public_key b)"
  obtains v w where
    "rbind (build_transaction_envelope s t (im_node_id b)
        (encrypted_codec_for_recipient (im_node_id b) (im_encryption_public_key b) fp))
      (\<lambda>u. sign_envelope s u (im_node_id a) (im_signing_private_key a) (im_signing_public_key a)) = Inr v"
    "parse_envelope_bytes (canonical_envelope_bytes v) = Inr w"
    "envelope_context w = context_for t (im_node_id b)"
    "map_of (ce_payload w) ''codec'' = Some (JObj (canon_obj (codec_metadata ENCRYPTED_ENVELOPE_PAYLOAD_CODEC)))"
    "verify_envelope_signature (pe_host r) w (im_node_id a) (im_signing_public_key a)
      (Some (sha256_hex (im_signing_public_key a))) = Inr ()"
    "codec_decode r (encrypted_codec_for_local (envelope_context w) (im_encryption_private_key b)
        (im_encryption_public_key b) (json_obj_opt (ce_encryption_metadata w))) (JObj (ce_payload w)) =
      Inr (canonical_json_bytes (transaction_payload t))"
    "json_wf (JObj (canonical_envelope_dict w))"
proof -
  let ?c = "context_for t (im_node_id b)" and ?now = "h_now (pe_host s)"
  let ?fp = "sha256_hex (im_encryption_public_key b)" and ?sfp = "sha256_hex (im_signing_public_key a)"
  let ?K = "snd (pe_ephemeral s (pc_envelope_id ?c))" and ?N = "pe_nonce s (pc_envelope_id ?c)"
  let ?enc = "encryption_metadata_of ?c ?fp ?K @ [(''nonce'', JStr (encode_b64url ?N))]"
  have t': "tx_origin_node_id t = Some (im_node_id a)" "is_identifier Node (im_node_id a)"
    "is_identifier Kit_Identifiers.Transaction (tx_transaction_id t)" "tx_signature t = None" "1 \<le> tx_protocol_version t"
    using t by (simp_all add: sendable_def)
  have ok: "context_ok ?c" by (rule context_for_ok [OF t'(1,2) dst t'(3,5)])
  have c: "pc_destination_node_id ?c = im_node_id b" "pc_source_node_id ?c = im_node_id a" "im_node_id b \<noteq> []"
    using t'(1) is_identifier_not_Nil [OF dst] by (simp_all add: context_for_def)
  obtain ct where ct: "ct \<noteq> []"
    and enc: "codec_encode s (with_context (encrypted_codec_for_recipient (im_node_id b) (im_encryption_public_key b) fp) ?c)
        (canonical_json_bytes (transaction_payload t)) =
      Inr \<lparr>er_payload = payload_object (codec_metadata ENCRYPTED_ENVELOPE_PAYLOAD_CODEC) ct,
           er_encoded_payload_bytes = ct, er_metadata = codec_metadata ENCRYPTED_ENVELOPE_PAYLOAD_CODEC,
           er_encryption_metadata = Some ?enc\<rparr>"
    and dec: "\<And>m. (\<And>k. map_of m k = map_of (encryption_fields ?c ?fp ?K ?N) k) \<Longrightarrow> pc_destination_node_id ?c \<noteq> [] \<Longrightarrow>
      decode_encrypted r (encrypted_codec_for_local ?c (im_encryption_private_key b) (im_encryption_public_key b) (JObj m)) ct =
      Inr (canonical_json_bytes (transaction_payload t))"
    using encode_encrypted_result [OF laws(1,2) raw(2) c(1) fp] by blast
  define sg where "sg = pe_ed25519_sign s (im_signing_private_key a) (canonical_envelope_bytes
    (sealed_envelope ?c ?now ct ?enc (Some (signature_metadata_of (pc_source_node_id ?c) ?sfp JNull))))"
  define m where "m = signature_metadata_of (pc_source_node_id ?c) ?sfp (JStr (encode_b64url sg))"
  define w where "w = received_envelope ?c ?now ct ?fp ?K ?N m"
  have len: "length sg = 64" "length ?K = 32" "length ?N = 12"
    using laws(1,3) by (simp_all add: signature_law_def cipher_law_def sg_def)
  have ne: "encode_b64url sg \<noteq> []" using len(1) by (intro encode_b64url_neq_Nil) auto
  have built: "rbind (build_transaction_envelope s t (im_node_id b)
        (encrypted_codec_for_recipient (im_node_id b) (im_encryption_public_key b) fp))
      (\<lambda>u. sign_envelope s u (im_node_id a) (im_signing_private_key a) (im_signing_public_key a)) =
      Inr (sealed_envelope ?c ?now ct ?enc (Some m))"
    using sign_envelope_result [of ?c a s ?now ct ?enc] raw(1) c(2) t'(2)
    by (simp add: build_transaction_envelope_result [OF t'(1,2) dst t'(3,4) enc] m_def sg_def)
  have parsed: "parse_envelope_bytes (canonical_envelope_bytes (sealed_envelope ?c ?now ct ?enc (Some m))) = Inr w"
    unfolding w_def by (rule parse_sealed_envelope [OF ok now ct len(2,3) ne utf8_ok_b64url refl m_def])
  have "verify_envelope_signature (pe_host r) w (pc_source_node_id ?c) (im_signing_public_key a) (Some ?sfp) = Inr ()"
    by (rule verify_received_envelope [OF ok raw(1) laws(3) refl sg_def]) (simp add: w_def m_def)
  moreover have "codec_decode r (encrypted_codec_for_local ?c (im_encryption_private_key b) (im_encryption_public_key b)
        (json_obj_opt (ce_encryption_metadata w))) (JObj (ce_payload w)) =
      Inr (canonical_json_bytes (transaction_payload t))"
    using decode_received_payload [OF ct dec [OF refl]] c(1,3)
    by (simp add: w_def received_envelope_def sealed_envelope_def json_obj_opt_def encrypted_codec_for_local_def
        ENCRYPTED_ENVELOPE_PAYLOAD_CODEC_def PLAINTEXT_ENVELOPE_PAYLOAD_CODEC_def)
  moreover have "map_of (ce_payload w) ''codec'' = Some (JObj (canon_obj (codec_metadata ENCRYPTED_ENVELOPE_PAYLOAD_CODEC)))"
    using payload_object_canonical(1) [OF ct] by (simp add: w_def received_envelope_def)
  moreover have "json_wf (JObj (canonical_envelope_dict w))"
    unfolding w_def using c(2) t'(2)
    by (intro received_envelope_wf ok now(2)) (simp only: m_def signature_metadata_wf utf8_ok_b64url)
  ultimately show thesis
    using that [OF built parsed] c(2) by (simp add: w_def envelope_context_received)
qed

lemma validated_signature_metadata_shape:
  assumes "validated_signature_metadata (JObj m0) = Inr m"
  obtains a n f sg where "py_int_eq (Some a) 1" "map_of m0 ''version'' = Some a"
    "map_of m0 ''signer_node_id'' = Some (JStr n)" "is_identifier Node n"
    "map_of m0 ''key_fingerprint'' = Some (JStr f)" "text_length f = 64" "lower f = f"
    "m = [(''version'', a), (''algorithm'', JStr ENVELOPE_SIGNATURE_ALGORITHM), (''signer_node_id'', JStr n),
      (''key_fingerprint'', JStr f), (''signature'', sg)]"
    "sg = JNull \<or> map_of m0 ''signature'' = Some sg"
proof -
  note d = assms [unfolded validated_signature_metadata_def json.case Let_def]
  have "py_int_eq (map_of m0 ''version'') 1" using d by (simp add: rbind_Inr_iff ENVELOPE_SIGNATURE_VERSION_def)
  then obtain a where a: "py_int_eq (Some a) 1" "map_of m0 ''version'' = Some a"
    by (cases "map_of m0 ''version''") (simp_all add: py_int_eq_def)
  from d obtain n where n: "map_of m0 ''signer_node_id'' = Some (JStr n)" "is_identifier Node n"
    by (auto simp: rbind_Inr_iff signing_node_id_def is_identifier_def validate_identifier_iff
        split: option.split_asm json.split_asm)
  from d obtain f where f: "map_of m0 ''key_fingerprint'' = Some (JStr f)" "text_length f = 64" "lower f = f"
    by (auto simp: rbind_Inr_iff is_text_of_length_def text_of_def split: option.split_asm json.split_asm)
  from d obtain sg where "map_of m0 ''algorithm'' = Some (JStr ENVELOPE_SIGNATURE_ALGORITHM)"
      "m = map (\<lambda>k. (k, the (map_of m0 k))) [''version'', ''algorithm'', ''signer_node_id'', ''key_fingerprint'']
        @ [(''signature'', sg)]" "sg = JNull \<or> map_of m0 ''signature'' = Some sg"
    by (auto simp: rbind_Inr_iff split: option.split_asm json.split_asm if_split_asm)
  with a n f show thesis by (intro that [of a n f sg]) simp_all
qed

lemma unsigned_envelope_wf:
  assumes "json_wf (JObj (canonical_envelope_dict v))" and "ce_signature_metadata v = Some m0"
    and "validated_signature_metadata (JObj m0) = Inr m"
  shows "json_wf (JObj (canonical_envelope_dict (v\<lparr>ce_signature_metadata := Some (dict_set ''signature'' JNull m)\<rparr>)))"
proof -
  obtain a n f sg where "map_of m0 ''version'' = Some a" and n: "is_identifier Node n"
    and "map_of m0 ''key_fingerprint'' = Some (JStr f)"
    and m: "m = [(''version'', a), (''algorithm'', JStr ENVELOPE_SIGNATURE_ALGORITHM), (''signer_node_id'', JStr n),
      (''key_fingerprint'', JStr f), (''signature'', sg)]"
    using validated_signature_metadata_shape [OF assms(3)] by metis
  moreover have "json_wf (JObj m0)"
    using json_wf_member [OF assms(1), of "''signature_metadata''"] assms(2)
    by (simp add: canonical_envelope_dict_def json_obj_opt_def del: json_wf.simps)
  ultimately have wf: "json_wf a" "json_wf (JStr f)" using json_wf_member by blast+
  have "json_wf (JObj (dict_set ''signature'' JNull m))"
  proof (rule json_wf_objI)
    have k: "map fst (dict_set ''signature'' JNull m) =
      [''version'', ''algorithm'', ''signer_node_id'', ''key_fingerprint'', ''signature'']" by (simp add: m)
    show "distinct (map fst (dict_set ''signature'' JNull m))" by (simp add: k)
    show "list_all plain (map fst (dict_set ''signature'' JNull m))" unfolding k by code_simp
    have "utf8_ok ENVELOPE_SIGNATURE_ALGORITHM" by code_simp
    then show "list_all json_wf (map snd (dict_set ''signature'' JNull m))"
      using wf utf8_ok_identifier [OF n] by (simp add: m del: utf8_ok.simps)
  qed
  then show ?thesis
    using assms(1) by (auto simp: canonical_envelope_dict_def json_obj_opt_def message_id_def dict_wf_def
        simp del: utf8_ok.simps)
qed

lemma canon_obj_map_of:
  "dict_wf a \<Longrightarrow> dict_wf b \<Longrightarrow> canon (JObj a) = canon (JObj b) \<Longrightarrow> map_option canon (map_of a k) = map_option canon (map_of b k)"
  by (metis canon_JObj json.inject(5) map_of_canon_obj)

text \<open>C22. An envelope in transit: whatever a peer builds and signs for an admitted recipient is, once it is
  serialised to canonical bytes, parsed by the recipient as the same envelope (identifiers, versions
  and hash), its signature verifies against the sender's public key and fingerprint, and the
  recipient's codec decrypts exactly the canonical bytes of the transaction, which load back to its
  dictionary.\<close>

theorem envelope_roundtrip:
  assumes "cipher_law s r" "key_agreement_law s r b" "signature_law s r a" and "keys_raw a" "keys_raw b"
    and "sendable t (im_node_id a)" and "is_identifier Node (im_node_id b)"
    and "h_now (pe_host s) \<noteq> []" "utf8_ok (h_now (pe_host s))" and "json_wf (JObj (transaction_payload t))"
    and "fp = [] \<or> fp = sha256_hex (im_encryption_public_key b)"
  shows "\<exists>v w plaintext.
    rbind (build_transaction_envelope s t (im_node_id b)
        (encrypted_codec_for_recipient (im_node_id b) (im_encryption_public_key b) fp))
      (\<lambda>u. sign_envelope s u (im_node_id a) (im_signing_private_key a) (im_signing_public_key a)) = Inr v \<and>
    parse_envelope_bytes (canonical_envelope_bytes v) = Inr w \<and>
    ce_source_node_id w = im_node_id a \<and> ce_destination_node_id w = im_node_id b \<and>
    ce_transaction_id w = tx_transaction_id t \<and> envelope_id_for (tx_transaction_id t) (im_node_id b) = Inr (ce_envelope_id w) \<and>
    verify_envelope_signature (pe_host r) w (im_node_id a) (im_signing_public_key a)
      (Some (sha256_hex (im_signing_public_key a))) = Inr () \<and>
    codec_decode r (encrypted_codec_for_local (envelope_context w) (im_encryption_private_key b)
        (im_encryption_public_key b) (json_obj_opt (ce_encryption_metadata w))) (JObj (ce_payload w)) = Inr plaintext \<and>
    load_canonical_json plaintext = Inr (canon_obj (transaction_payload t))"
proof (rule envelope_delivery [OF assms(1-9,11)])
  fix v w
  assume *: "rbind (build_transaction_envelope s t (im_node_id b)
        (encrypted_codec_for_recipient (im_node_id b) (im_encryption_public_key b) fp))
      (\<lambda>u. sign_envelope s u (im_node_id a) (im_signing_private_key a) (im_signing_public_key a)) = Inr v"
    "parse_envelope_bytes (canonical_envelope_bytes v) = Inr w"
    "envelope_context w = context_for t (im_node_id b)"
    "verify_envelope_signature (pe_host r) w (im_node_id a) (im_signing_public_key a)
      (Some (sha256_hex (im_signing_public_key a))) = Inr ()"
    "codec_decode r (encrypted_codec_for_local (envelope_context w) (im_encryption_private_key b)
        (im_encryption_public_key b) (json_obj_opt (ce_encryption_metadata w))) (JObj (ce_payload w)) =
      Inr (canonical_json_bytes (transaction_payload t))"
  have "ce_source_node_id w = im_node_id a" "ce_destination_node_id w = im_node_id b"
    "ce_transaction_id w = tx_transaction_id t" "envelope_id_for (tx_transaction_id t) (im_node_id b) = Inr (ce_envelope_id w)"
    using *(3) assms(6) by (simp_all add: envelope_context_def context_for_def sendable_def envelope_id_for_def
        deterministic_identifier_def)
  with * load_canonical_json_bytes [OF assms(10)] show ?thesis by blast
qed

definition example_env :: "nat \<Rightarrow> peer_env" where
  "example_env n =
     \<lparr>pe_host = example_host\<lparr>h_ed25519_verify := \<lambda>key message signature. signature = replicate 64 (hd key)\<rparr>,
      pe_ed25519_sign = \<lambda>key message. replicate 64 (hd key), pe_x25519_exchange = \<lambda>key peer. Some ''shared'',
      pe_hkdf_sha256 = \<lambda>root context n. replicate n CHR ''h'',
      pe_ephemeral = \<lambda>envelope_id. (replicate 32 CHR ''e'', replicate 32 CHR ''f''),
      pe_nonce = \<lambda>envelope_id. replicate 12 CHR ''n'',
      pe_identity = Some \<lparr>im_node_id = format_identifier Node (of_nat n), im_signing_private_key = replicate 32 CHR ''a'',
        im_signing_public_key = replicate 32 CHR ''a'', im_encryption_private_key = replicate 32 CHR ''b'',
        im_encryption_public_key = replicate 32 CHR ''b''\<rparr>,
      pe_codec_mode = None, pe_unsafe_plaintext = None\<rparr>"

definition example_identity :: "nat \<Rightarrow> identity_material" where
  "example_identity n = the (pe_identity (example_env n))"

definition example_sent :: Transaction where
  "example_sent = example_transaction ''secret.set'' [(''name'', JStr ''k'')] 9"

lemma example_channel:
  "cipher_law (example_env m) (example_env n)" "key_agreement_law (example_env m) (example_env n) (example_identity n)"
  "signature_law (example_env m) (example_env n) (example_identity m)" "keys_raw (example_identity n)"
  "im_node_id (example_identity n) = format_identifier Node (of_nat n)"
  using example_aead_law
  by (simp_all add: cipher_law_def key_agreement_law_def signature_law_def keys_raw_def example_env_def
      example_identity_def example_host_def)

lemma example_sent_ok:
  "sendable example_sent (im_node_id (example_identity 1))" "json_wf (JObj (transaction_payload example_sent))"
  "h_now (pe_host (example_env 1)) \<noteq> []" "utf8_ok (h_now (pe_host (example_env 1)))"
proof -
  show "sendable example_sent (im_node_id (example_identity 1))"
    by (simp add: sendable_def example_sent_def example_transaction_def example_identity_def example_env_def)
  show "h_now (pe_host (example_env 1)) \<noteq> []" by (simp add: example_env_def example_host_def)
  have "utf8_ok ''2026-01-02T00:00:00Z''" by code_simp
  then show "utf8_ok (h_now (pe_host (example_env 1)))" by (simp add: example_env_def example_host_def)
  show "json_wf (JObj (transaction_payload example_sent))"
  proof (rule json_wf_objI)
    show "distinct (map fst (transaction_payload example_sent))" by (simp add: transaction_payload_def)
    show "list_all plain (map fst (transaction_payload example_sent))"
      unfolding transaction_payload_def by simp code_simp
    have "utf8_ok ''secret.set''" "json_wf (JObj [(''name'', JStr ''k'')])" "utf8_ok ''pending''"
      "utf8_ok ''2026-01-01T00:00:00Z''" by code_simp+
    then show "list_all json_wf (map snd (transaction_payload example_sent))"
      using utf8_ok_identifier [OF is_identifier_format]
      by (simp add: transaction_payload_def example_sent_def example_transaction_def json_text_opt_def hash_payload_def
          del: utf8_ok.simps json_wf.simps(3))
  qed
qed

theorem envelope_roundtrip_witness:
  "\<exists>v w plaintext.
    rbind (build_transaction_envelope (example_env 1) example_sent (im_node_id (example_identity 2))
        (encrypted_codec_for_recipient (im_node_id (example_identity 2)) (im_encryption_public_key (example_identity 2)) []))
      (\<lambda>u. sign_envelope (example_env 1) u (im_node_id (example_identity 1)) (im_signing_private_key (example_identity 1))
        (im_signing_public_key (example_identity 1))) = Inr v \<and>
    parse_envelope_bytes (canonical_envelope_bytes v) = Inr w \<and>
    ce_destination_node_id w = format_identifier Node 2 \<and>
    codec_decode (example_env 2) (encrypted_codec_for_local (envelope_context w)
        (im_encryption_private_key (example_identity 2)) (im_encryption_public_key (example_identity 2))
        (json_obj_opt (ce_encryption_metadata w))) (JObj (ce_payload w)) = Inr plaintext \<and>
    load_canonical_json plaintext = Inr (canon_obj (transaction_payload example_sent))"
  using envelope_roundtrip [OF example_channel(1-3) example_channel(4) example_channel(4) example_sent_ok(1) _ example_sent_ok(3,4,2),
      of 2 "[]"]
  by (simp add: example_channel(5)) blast

lemma validate_identifier_is: "validate_identifier s ty field = Inr w \<Longrightarrow> is_identifier ty s"
  by (simp add: validate_identifier_iff is_identifier_iff)

lemma envelope_versions_Inr: "envelope_versions p = Inr (a, b, c) \<Longrightarrow> a = 1 \<and> b = CANONICAL_ENVELOPE_VERSION \<and> 1 \<le> c"
  by (auto simp: envelope_versions_def rbind_Inr_iff)

lemma envelope_identifiers_Inr:
  "envelope_identifiers p = Inr (e, ty, s, d, t) \<Longrightarrow> ty = ENVELOPE_TYPE_TRANSACTION \<and> is_identifier Envelope e \<and>
    is_identifier Node s \<and> is_identifier Node d \<and> is_identifier Kit_Identifiers.Transaction t"
  by (auto simp: envelope_identifiers_def rbind_Inr_iff dest: validate_identifier_is)

lemma envelope_payload_hash_Inr:
  "envelope_payload_hash p body = Inr h \<Longrightarrow> \<exists>data. encoded_payload_bytes body = Inr data \<and> h = sha256_hex data"
  by (auto simp: envelope_payload_hash_def rbind_Inr_iff payload_commitment_def)

lemma optional_encryption_metadata_Inr:
  "optional_encryption_metadata v field body d = Inr m \<Longrightarrow>
    \<exists>cm. payload_codec_metadata body = Inr cm \<and> (m = None \<longleftrightarrow> map_of cm ''mode'' \<noteq> Some (JStr ENCRYPTED_CODEC_MODE))"
  by (auto simp: optional_encryption_metadata_def rbind_Inr_iff split: if_split_asm option.split_asm)

lemma env_required_string_Inr: "env_required_string v field = Inr s \<Longrightarrow> s \<noteq> []"
  by (auto simp: env_required_string_def split: option.split_asm json.split_asm if_split_asm)

lemma optional_expiry_Inr:
  "(case v of Some JNull \<Rightarrow> Inr None | v \<Rightarrow> rbind (env_required_string v field) (\<lambda>s. Inr (Some s))) = Inr x \<Longrightarrow> x \<noteq> Some []"
  by (auto simp: rbind_Inr_iff dest: env_required_string_Inr split: option.split_asm json.split_asm)

subsection \<open>Parsing a parsed envelope again\<close>

lemma parsed_envelope_fields:
  assumes "parse_envelope_mapping (JObj p) = Inr v"
  shows "\<not> (\<exists>k \<in> set (map fst p). k \<notin> set ALLOWED_FIELDS)" "\<not> (\<exists>k \<in> set REQUIRED_FIELDS. \<not> dict_has k p)"
    "envelope_shape v" "py_eq (JObj (canonical_envelope_dict v)) (JObj p)"
    "envelope_payload_hash p (JObj (ce_payload v)) = Inr (ce_payload_hash v)"
    "optional_signature_metadata (the (map_of p ''signature_metadata'')) ''signature_metadata'' = Inr (ce_signature_metadata v)"
    "optional_encryption_metadata (the (map_of p ''encryption_metadata'')) ''encryption_metadata'' (JObj (ce_payload v))
       (ce_destination_node_id v) = Inr (ce_encryption_metadata v)"
proof -
  have fields: "\<not> (\<exists>k \<in> set (map fst p). k \<notin> set ALLOWED_FIELDS)" "\<not> (\<exists>k \<in> set REQUIRED_FIELDS. \<not> dict_has k p)"
    using assms by (auto simp: parse_envelope_mapping_def split: if_split_asm)
  note d = assms [unfolded parse_envelope_mapping_def json.case if_not_P [OF fields(1)] if_not_P [OF fields(2)]]
  from d obtain a b c where vs: "envelope_versions p = Inr (a, b, c)" by (elim rbind_InrE) (metis prod_cases3)
  from d obtain e ty n m t where ids: "envelope_identifiers p = Inr (e, ty, n, m, t)"
    unfolding vs by (simp, elim rbind_InrE) (metis prod_cases5)
  note d' = d [unfolded vs ids rbind_simps prod.case Let_def]
  from d' obtain ca ex ro bo ha sg en where r:
    "env_required_string (map_of p ''created_at'') ''created_at'' = Inr ca"
    "(case map_of p ''expires_at'' of Some JNull \<Rightarrow> Inr None
       | v \<Rightarrow> rbind (env_required_string v ''expires_at'') (\<lambda>s. Inr (Some s))) = Inr ex"
    "envelope_payload_hash p (JObj bo) = Inr ha"
    "optional_signature_metadata (the (map_of p ''signature_metadata'')) ''signature_metadata'' = Inr sg"
    "optional_encryption_metadata (the (map_of p ''encryption_metadata'')) ''encryption_metadata'' (JObj bo) m = Inr en"
    and eq: "py_eq (JObj (canonical_envelope_dict v)) (JObj p)"
    and v: "v = \<lparr>ce_envelope_id = e, ce_source_node_id = n, ce_destination_node_id = m, ce_transaction_id = t,
      ce_payload = bo, ce_created_at = ca, ce_payload_hash = ha, ce_version = a, ce_envelope_version = b,
      ce_message_type = ty, ce_protocol_version = c, ce_routing = ro, ce_expires_at = ex,
      ce_signature_metadata = sg, ce_encryption_metadata = en\<rparr>"
    by (elim rbind_InrE) (simp split: if_split_asm, metis)
  show "envelope_shape v"
    using envelope_versions_Inr [OF vs] envelope_identifiers_Inr [OF ids] env_required_string_Inr [OF r(1)]
      optional_expiry_Inr [OF r(2)]
    by (simp add: envelope_shape_def v)
  show "\<not> (\<exists>k \<in> set (map fst p). k \<notin> set ALLOWED_FIELDS)" "\<not> (\<exists>k \<in> set REQUIRED_FIELDS. \<not> dict_has k p)"
    by (rule fields)+
  show "py_eq (JObj (canonical_envelope_dict v)) (JObj p)" by (rule eq)
  show "envelope_payload_hash p (JObj (ce_payload v)) = Inr (ce_payload_hash v)" using r(3) by (simp add: v)
  show "optional_signature_metadata (the (map_of p ''signature_metadata'')) ''signature_metadata'' = Inr (ce_signature_metadata v)"
    using r(4) by (simp add: v)
  show "optional_encryption_metadata (the (map_of p ''encryption_metadata'')) ''encryption_metadata'' (JObj (ce_payload v))
      (ce_destination_node_id v) = Inr (ce_encryption_metadata v)" using r(5) by (simp add: v)
qed


lemma validated_signature_metadata_idem:
  "validated_signature_metadata (JObj m0) = Inr m \<Longrightarrow> validated_signature_metadata (JObj m) = Inr m"
  by (auto simp: validated_signature_metadata_def Let_def rbind_Inr_iff py_int_eq_def is_text_of_length_def
      split: option.split_asm json.split_asm if_split_asm)

lemma optional_signature_metadata_idem:
  "optional_signature_metadata j f = Inr m \<Longrightarrow> optional_signature_metadata (json_obj_opt m) f = Inr m"
  by (auto simp: optional_signature_metadata_def optional_metadata_def json_obj_opt_def rbind_Inr_iff
      validate_signature_metadata_def validated_signature_metadata_idem split: option.split_asm json.split_asm)

lemma validate_encryption_metadata_idem:
  assumes "validate_encryption_metadata (JObj m0) r = Inr m"
  shows "validate_encryption_metadata (JObj m) r = Inr m"
proof -
  have m: "m = map (\<lambda>k. (k, the (map_of m0 k))) [''version'', ''algorithm'', ''recipient_node_id'',
      ''recipient_key_fingerprint'', ''ephemeral_public_key'', ''nonce'', ''aad_profile'']"
    using assms by (auto simp: validate_encryption_metadata_def Let_def rbind_Inr_iff)
  have some: "py_int_eq x n \<Longrightarrow> \<exists>y. x = Some y" "is_text x \<Longrightarrow> \<exists>y. x = Some y" "is_text_of_length x k \<Longrightarrow> \<exists>y. x = Some y"
    for x n k by (cases x; simp add: py_int_eq_def is_text_def is_text_of_length_def)+
  have "map_of m0 ''version'' \<noteq> None" "map_of m0 ''algorithm'' \<noteq> None" "map_of m0 ''recipient_node_id'' \<noteq> None"
    "map_of m0 ''recipient_key_fingerprint'' \<noteq> None" "map_of m0 ''ephemeral_public_key'' \<noteq> None"
    "map_of m0 ''nonce'' \<noteq> None" "map_of m0 ''aad_profile'' \<noteq> None"
    using assms unfolding validate_encryption_metadata_def Let_def json.case
    by (auto simp: rbind_Inr_iff dest!: some)
  then have f: "map_of m k = map_of m0 k" if "k \<in> {''version'', ''algorithm'', ''recipient_node_id'',
      ''recipient_key_fingerprint'', ''ephemeral_public_key'', ''nonce'', ''aad_profile''}" for k
    using that by (auto simp: m)
  from assms show ?thesis
    unfolding validate_encryption_metadata_def json.case Let_def by (simp add: f cong: rbind_cong)
qed

lemma optional_encryption_metadata_idem:
  "optional_encryption_metadata j f b d = Inr m \<Longrightarrow> optional_encryption_metadata (json_obj_opt m) f b d = Inr m"
  by (cases m) (auto simp: optional_encryption_metadata_def optional_metadata_def json_obj_opt_def rbind_Inr_iff
      dest: validate_encryption_metadata_idem split: option.split_asm json.split_asm if_split_asm)

lemma py_eq_refl [simp]: "py_eq j j"
  by (rule py_eq_canon) simp

lemma parse_canonical_dict:
  assumes "parse_envelope_mapping (JObj p) = Inr v"
  shows "parse_envelope_mapping (JObj (canonical_envelope_dict v)) = Inr v"
proof -
  note p = parsed_envelope_fields [OF assms]
  note s = p(3) [unfolded envelope_shape_def]
  let ?p = "canonical_envelope_dict v"
  have ne: "ce_envelope_id v \<noteq> []" "ce_source_node_id v \<noteq> []" "ce_destination_node_id v \<noteq> []"
    "ce_transaction_id v \<noteq> []" using s is_identifier_not_Nil by blast+
  have keys: "\<not> (\<exists>k \<in> set (map fst ?p). k \<notin> set ALLOWED_FIELDS)" "\<not> (\<exists>k \<in> set REQUIRED_FIELDS. \<not> dict_has k ?p)"
    using keys_envelope [of v] by (auto simp: ALLOWED_FIELDS_def dict_has_iff map_of_eq_None_iff)
  have f: "map_of ?p ''version'' = Some (JInt (ce_version v))"
    "map_of ?p ''envelope_version'' = Some (JInt (ce_envelope_version v))"
    "map_of ?p ''protocol_version'' = Some (JInt (ce_protocol_version v))"
    "map_of ?p ''envelope_id'' = Some (JStr (ce_envelope_id v))" "map_of ?p ''message_id'' = Some (JStr (ce_envelope_id v))"
    "map_of ?p ''message_type'' = Some (JStr (ce_message_type v))"
    "map_of ?p ''source_node_id'' = Some (JStr (ce_source_node_id v))"
    "map_of ?p ''destination_node_id'' = Some (JStr (ce_destination_node_id v))"
    "map_of ?p ''transaction_id'' = Some (JStr (ce_transaction_id v))"
    "map_of ?p ''created_at'' = Some (JStr (ce_created_at v))"
    "map_of ?p ''expires_at'' = Some (json_text_opt (ce_expires_at v))"
    "map_of ?p ''routing'' = Some (JObj (ce_routing v))" "map_of ?p ''payload'' = Some (JObj (ce_payload v))"
    "map_of ?p ''payload_hash'' = Some (JStr (ce_payload_hash v))"
    "map_of ?p ''signature_metadata'' = Some (json_obj_opt (ce_signature_metadata v))"
    "map_of ?p ''encryption_metadata'' = Some (json_obj_opt (ce_encryption_metadata v))"
    by (simp_all add: canonical_envelope_dict_def message_id_def)
  have versions: "envelope_versions ?p = Inr (ce_version v, ce_envelope_version v, ce_protocol_version v)"
    using s by (simp add: envelope_versions_def f env_required_int_def)
  have ids: "envelope_identifiers ?p = Inr (ce_envelope_id v, ce_message_type v, ce_source_node_id v,
      ce_destination_node_id v, ce_transaction_id v)"
    using s ne by (simp add: envelope_identifiers_def f validate_identifier_ok ENVELOPE_TYPE_TRANSACTION_def)
  have expires: "(case map_of ?p ''expires_at'' of Some JNull \<Rightarrow> Inr None
      | v \<Rightarrow> rbind (env_required_string v ''expires_at'') (\<lambda>s. Inr (Some s))) = Inr (ce_expires_at v)"
    using s by (cases "ce_expires_at v") (simp_all add: f json_text_opt_def)
  have hash: "envelope_payload_hash ?p (JObj (ce_payload v)) = Inr (ce_payload_hash v)"
    using p(5) by (auto simp: envelope_payload_hash_def rbind_Inr_iff f dest: env_required_string_Inr)
  have c: "ce_created_at v \<noteq> []" using s by blast
  have w: "\<lparr>ce_envelope_id = ce_envelope_id v, ce_source_node_id = ce_source_node_id v,
      ce_destination_node_id = ce_destination_node_id v, ce_transaction_id = ce_transaction_id v,
      ce_payload = ce_payload v, ce_created_at = ce_created_at v, ce_payload_hash = ce_payload_hash v,
      ce_version = ce_version v, ce_envelope_version = ce_envelope_version v, ce_message_type = ce_message_type v,
      ce_protocol_version = ce_protocol_version v, ce_routing = ce_routing v, ce_expires_at = ce_expires_at v,
      ce_signature_metadata = ce_signature_metadata v, ce_encryption_metadata = ce_encryption_metadata v\<rparr> = v" by simp
  show ?thesis
    unfolding parse_envelope_mapping_def json.case if_not_P [OF keys(1)] if_not_P [OF keys(2)] versions ids
      rbind_simps prod.case expires
    by (simp add: f c w json_object_def hash optional_signature_metadata_idem [OF p(6)] Let_def
        optional_encryption_metadata_idem [OF p(7)])
qed

text \<open>C26. What the strict parser accepts: a parsed envelope is, as a JSON value, exactly the mapping that
  was parsed, so no member is dropped, added or reinterpreted; its identifiers are canonical and of
  the right kinds, its versions are supported, its payload hash is the SHA-256 of the payload bytes
  that the codec will decode, and it carries encryption metadata exactly when its payload is encrypted.\<close>

theorem parsed_envelope_canonical:
  assumes "parse_envelope_mapping (JObj p) = Inr v"
  shows "py_eq (JObj (canonical_envelope_dict v)) (JObj p) \<and> set (map fst p) = set REQUIRED_FIELDS \<and>
    envelope_shape v \<and>
    (\<exists>data. encoded_payload_bytes (JObj (ce_payload v)) = Inr data \<and> ce_payload_hash v = sha256_hex data) \<and>
    (\<exists>m. payload_codec_metadata (JObj (ce_payload v)) = Inr m \<and>
      (ce_encryption_metadata v = None \<longleftrightarrow> map_of m ''mode'' \<noteq> Some (JStr ENCRYPTED_CODEC_MODE)))"
proof -
  note p = parsed_envelope_fields [OF assms]
  have "set (map fst p) = set REQUIRED_FIELDS"
    using p(1,2) by (auto simp: ALLOWED_FIELDS_def dict_has_iff map_of_eq_None_iff)
  with p(3,4) envelope_payload_hash_Inr [OF p(5)] optional_encryption_metadata_Inr [OF p(7)] show ?thesis by blast
qed

lemma verified_signature:
  assumes "verify_envelope_signature h v n pk f = Inr ()"
  obtains m0 m sg where "ce_source_node_id v = n" "ce_signature_metadata v = Some m0" "validated_signature_metadata (JObj m0) = Inr m"
    "decode_signature (map_of m0 ''signature'') = Inr sg" "h_ed25519_verify h pk (unsigned_bytes v m) sg"
proof (cases "ce_signature_metadata v")
  case (Some m0)
  with assms obtain m sg where m: "ce_source_node_id v = n" "validated_signature_metadata (JObj m0) = Inr m"
    "decode_signature (map_of m ''signature'') = Inr sg" "h_ed25519_verify h pk (unsigned_bytes v m) sg"
    by (auto simp: verify_envelope_signature_def rbind_Inr_iff json_obj_opt_def rmap_error_Inr_iff verify_ed25519_def split: if_split_asm)
  have "is_text (map_of m ''signature'')" using m(3) by (simp add: decode_signature_def split: if_split_asm)
  moreover obtain x where "map_of m ''signature'' = Some x" "x = JNull \<or> map_of m0 ''signature'' = Some x"
    by (rule validated_signature_metadata_shape [OF m(2)]) simp
  ultimately have "map_of m0 ''signature'' = map_of m ''signature''" by (auto simp: is_text_def)
  with that Some m show ?thesis by simp
qed (use assms in \<open>simp add: verify_envelope_signature_def rbind_Inr_iff json_obj_opt_def validated_signature_metadata_def\<close>)

lemma validated_signature_algorithm:
  "validated_signature_metadata (JObj m0) = Inr m \<Longrightarrow> map_of m0 ''algorithm'' = Some (JStr ENVELOPE_SIGNATURE_ALGORITHM)"
  by (auto simp: validated_signature_metadata_def Let_def rbind_Inr_iff)

text \<open>The canonical form of the unsigned envelope determines every field.\<close>

lemma unsigned_envelope_fields:
  assumes "unsigned_bytes v m = unsigned_bytes v' m'"
    and "json_wf (JObj (canonical_envelope_dict v))" "ce_signature_metadata v = Some m0" "validated_signature_metadata (JObj m0) = Inr m"
    and "json_wf (JObj (canonical_envelope_dict v'))" "ce_signature_metadata v' = Some m0'" "validated_signature_metadata (JObj m0') = Inr m'"
  shows "(ce_envelope_id v, ce_source_node_id v, ce_destination_node_id v, ce_transaction_id v) =
      (ce_envelope_id v', ce_source_node_id v', ce_destination_node_id v', ce_transaction_id v')"
    "(ce_created_at v, ce_expires_at v, ce_payload_hash v, ce_message_type v) = (ce_created_at v', ce_expires_at v', ce_payload_hash v', ce_message_type v')"
    "(ce_version v, ce_envelope_version v, ce_protocol_version v) = (ce_version v', ce_envelope_version v', ce_protocol_version v')"
    "canon (JObj (ce_payload v)) = canon (JObj (ce_payload v'))" "canon (JObj (ce_routing v)) = canon (JObj (ce_routing v'))"
    "canon (json_obj_opt (ce_encryption_metadata v)) = canon (json_obj_opt (ce_encryption_metadata v'))"
    "k \<in> {''version'', ''algorithm'', ''signer_node_id'', ''key_fingerprint''} \<Longrightarrow> map_option canon (map_of m0 k) = map_option canon (map_of m0' k)"
proof -
  let ?u = "v\<lparr>ce_signature_metadata := Some (dict_set ''signature'' JNull m)\<rparr>"
  let ?u' = "v'\<lparr>ce_signature_metadata := Some (dict_set ''signature'' JNull m')\<rparr>"
  note wf = unsigned_envelope_wf [OF assms(2-4)] unsigned_envelope_wf [OF assms(5-7)]
  have "canon (JObj (canonical_envelope_dict ?u)) = canon (JObj (canonical_envelope_dict ?u'))"
    using assms(1) by (intro canonical_json_text_eq [OF wf, THEN iffD1])
      (simp only: unsigned_bytes_def canonical_envelope_bytes_def canonical_json_bytes_def)
  then have eq: "map_option canon (map_of (canonical_envelope_dict ?u) k) = map_option canon (map_of (canonical_envelope_dict ?u') k)" for k
    by (intro canon_obj_map_of) simp_all
  note d = canonical_envelope_dict_def message_id_def
  show "(ce_envelope_id v, ce_source_node_id v, ce_destination_node_id v, ce_transaction_id v) =
      (ce_envelope_id v', ce_source_node_id v', ce_destination_node_id v', ce_transaction_id v')"
    using eq [of "''envelope_id''"] eq [of "''source_node_id''"] eq [of "''destination_node_id''"] eq [of "''transaction_id''"] by (simp add: d)
  show "(ce_created_at v, ce_expires_at v, ce_payload_hash v, ce_message_type v) = (ce_created_at v', ce_expires_at v', ce_payload_hash v', ce_message_type v')"
    using eq [of "''created_at''"] eq [of "''expires_at''"] eq [of "''payload_hash''"] eq [of "''message_type''"]
    by (auto simp: d json_text_opt_def split: option.split_asm)
  show "(ce_version v, ce_envelope_version v, ce_protocol_version v) = (ce_version v', ce_envelope_version v', ce_protocol_version v')"
    using eq [of "''version''"] eq [of "''envelope_version''"] eq [of "''protocol_version''"] by (simp add: d)
  show "canon (JObj (ce_payload v)) = canon (JObj (ce_payload v'))" "canon (JObj (ce_routing v)) = canon (JObj (ce_routing v'))"
    "canon (json_obj_opt (ce_encryption_metadata v)) = canon (json_obj_opt (ce_encryption_metadata v'))"
    using eq [of "''payload''"] eq [of "''routing''"] eq [of "''encryption_metadata''"] by (simp_all add: d del: canon.simps)
  have sig: "canon (JObj (dict_set ''signature'' JNull m)) = canon (JObj (dict_set ''signature'' JNull m'))"
    using eq [of "''signature_metadata''"] by (simp add: d json_obj_opt_def del: canon.simps)
  have dict: "dict_wf (dict_set ''signature'' JNull m)" "dict_wf (dict_set ''signature'' JNull m')"
    using json_wf_member [OF wf(1), of "''signature_metadata''"] json_wf_member [OF wf(2), of "''signature_metadata''"]
    by (simp_all add: d json_obj_opt_def)
  have member: "map_of (dict_set ''signature'' JNull q) k = map_of q0 k"
    if "k \<in> {''version'', ''algorithm'', ''signer_node_id'', ''key_fingerprint''}" "validated_signature_metadata (JObj q0) = Inr q" for k q q0
    by (rule validated_signature_metadata_shape [OF that(2)])
      (use that validated_signature_algorithm [OF that(2)] in auto)
  show "map_option canon (map_of m0 k) = map_option canon (map_of m0' k)"
    if "k \<in> {''version'', ''algorithm'', ''signer_node_id'', ''key_fingerprint''}"
    using canon_obj_map_of [OF dict sig, of k] unfolding member [OF that assms(4)] member [OF that assms(7)] .
qed

text \<open>C25. What a verified signature means: the envelope comes from the expected signer, the signature in its metadata decodes to 64 bytes for
  which the Ed25519 check holds under the sender's key over the envelope's canonical bytes with the signature set to null, and
  those bytes determine the whole envelope: two verified envelopes with the same signed bytes have the same identifiers, times,
  hash, versions and message type, the same payload, routing and encryption metadata (as canonical JSON), and signature metadata
  with the same version, algorithm, signer and key fingerprint; so no field but the signature itself can be altered under a
  valid signature.\<close>

theorem signature_covers_envelope:
  assumes "verify_envelope_signature h v n pk fp = Inr ()" and "verify_envelope_signature h v' n pk fp' = Inr ()"
    and "json_wf (JObj (canonical_envelope_dict v))" and "json_wf (JObj (canonical_envelope_dict v'))"
  shows "\<exists>m0 m0' bs sg. ce_source_node_id v = n \<and> ce_signature_metadata v = Some m0 \<and> ce_signature_metadata v' = Some m0' \<and>
    decode_signature (map_of m0 ''signature'') = Inr sg \<and> envelope_signing_bytes v = Inr bs \<and> h_ed25519_verify h pk bs sg \<and>
    (envelope_signing_bytes v' = Inr bs \<longrightarrow>
      ce_envelope_id v' = ce_envelope_id v \<and> ce_source_node_id v' = ce_source_node_id v \<and>
      ce_destination_node_id v' = ce_destination_node_id v \<and> ce_transaction_id v' = ce_transaction_id v \<and>
      ce_created_at v' = ce_created_at v \<and> ce_expires_at v' = ce_expires_at v \<and> ce_payload_hash v' = ce_payload_hash v \<and>
      ce_message_type v' = ce_message_type v \<and> ce_version v' = ce_version v \<and> ce_envelope_version v' = ce_envelope_version v \<and>
      ce_protocol_version v' = ce_protocol_version v \<and> canon (JObj (ce_payload v')) = canon (JObj (ce_payload v)) \<and>
      canon (JObj (ce_routing v')) = canon (JObj (ce_routing v)) \<and>
      canon (json_obj_opt (ce_encryption_metadata v')) = canon (json_obj_opt (ce_encryption_metadata v)) \<and>
      (\<forall>k \<in> {''version'', ''algorithm'', ''signer_node_id'', ''key_fingerprint''}. map_option canon (map_of m0' k) = map_option canon (map_of m0 k)))"
proof -
  obtain m0 m sg where m: "ce_source_node_id v = n" "ce_signature_metadata v = Some m0" "validated_signature_metadata (JObj m0) = Inr m"
    "decode_signature (map_of m0 ''signature'') = Inr sg" "h_ed25519_verify h pk (unsigned_bytes v m) sg"
    by (rule verified_signature [OF assms(1)])
  obtain m0' m' where m': "ce_signature_metadata v' = Some m0'" "validated_signature_metadata (JObj m0') = Inr m'"
    by (rule verified_signature [OF assms(2)])
  have bytes: "envelope_signing_bytes v = Inr (unsigned_bytes v m)" "envelope_signing_bytes v' = Inr (unsigned_bytes v' m')"
    using m m' by (simp_all add: envelope_signing_bytes_def json_obj_opt_def)
  show ?thesis
  proof (intro exI conjI impI)
    assume "envelope_signing_bytes v' = Inr (unsigned_bytes v m)"
    then have same: "unsigned_bytes v' m' = unsigned_bytes v m" using bytes(2) by simp
    note f = unsigned_envelope_fields [OF same assms(4) m' assms(3) m(2,3)]
    show "ce_envelope_id v' = ce_envelope_id v" "ce_source_node_id v' = ce_source_node_id v" "ce_destination_node_id v' = ce_destination_node_id v"
      "ce_transaction_id v' = ce_transaction_id v" using f(1) by simp_all
    show "ce_created_at v' = ce_created_at v" "ce_expires_at v' = ce_expires_at v" "ce_payload_hash v' = ce_payload_hash v"
      "ce_message_type v' = ce_message_type v" using f(2) by simp_all
    show "ce_version v' = ce_version v" "ce_envelope_version v' = ce_envelope_version v" "ce_protocol_version v' = ce_protocol_version v"
      using f(3) by simp_all
    show "canon (JObj (ce_payload v')) = canon (JObj (ce_payload v))" "canon (JObj (ce_routing v')) = canon (JObj (ce_routing v))"
      "canon (json_obj_opt (ce_encryption_metadata v')) = canon (json_obj_opt (ce_encryption_metadata v))" by (rule f(4-6))+
    show "\<forall>k \<in> {''version'', ''algorithm'', ''signer_node_id'', ''key_fingerprint''}. map_option canon (map_of m0' k) = map_option canon (map_of m0 k)"
      using f(7) by blast
  qed (use m m' bytes in simp_all)
qed

theorem parsed_envelope_canonical_witness:
  "\<exists>p v data. parse_envelope_mapping (JObj p) = Inr v \<and> py_eq (JObj (canonical_envelope_dict v)) (JObj p) \<and>
    encoded_payload_bytes (JObj (ce_payload v)) = Inr data \<and> ce_payload_hash v = sha256_hex data"
proof -
  have "is_identifier Node (im_node_id (example_identity 2))" by (simp add: example_channel(5))
  from envelope_delivery [OF example_channel(1-3) example_channel(4) example_channel(4) example_sent_ok(1) this
      example_sent_ok(3,4) disjI1 [OF refl]]
  obtain v w where "parse_envelope_bytes (canonical_envelope_bytes v) = Inr w" by metis
  then obtain p where p: "parse_envelope_mapping (JObj p) = Inr w"
    by (auto simp: parse_envelope_bytes_def parse_envelope_mapping_def split: option.split_asm json.split_asm if_split_asm)
  with parsed_envelope_canonical [OF p] show ?thesis by blast
qed

theorem signature_covers_envelope_witness:
  "\<exists>v m0 m sg. verify_envelope_signature (pe_host (example_env 2)) v (format_identifier Node 1) (replicate 32 CHR ''a'')
      (Some (sha256_hex (replicate 32 CHR ''a''))) = Inr () \<and>
    ce_source_node_id v = format_identifier Node 1 \<and> ce_signature_metadata v = Some m0 \<and>
    decode_signature (map_of m0 ''signature'') = Inr sg \<and> envelope_signing_bytes v = Inr m \<and>
    h_ed25519_verify (pe_host (example_env 2)) (replicate 32 CHR ''a'') m sg"
proof -
  have dst: "is_identifier Node (im_node_id (example_identity 2))" by (simp add: example_channel(5))
  have keys: "im_node_id (example_identity 1) = format_identifier Node 1"
    "im_signing_public_key (example_identity 1) = replicate 32 CHR ''a''"
    by (simp_all add: example_identity_def example_env_def)
  from envelope_delivery [OF example_channel(1-3) example_channel(4) example_channel(4) example_sent_ok(1) dst
      example_sent_ok(3,4) disjI1 [OF refl]]
  obtain w where w: "verify_envelope_signature (pe_host (example_env 2)) w (im_node_id (example_identity 1))
      (im_signing_public_key (example_identity 1)) (Some (sha256_hex (im_signing_public_key (example_identity 1)))) = Inr ()"
    and wf: "json_wf (JObj (canonical_envelope_dict w))" by metis
  from signature_covers_envelope [OF w w wf wf] w show ?thesis unfolding keys by blast
qed

end
