(* ===== verification/Kit_Outbound.thy ===== *)
theory Kit_Outbound
  imports Kit_Envelopes
begin

section \<open>Storage rewrapping and outbound envelopes\<close>

text \<open>
  \<open>backends/sqlite/sync_storage.py\<close> and \<open>backends/sqlite/envelopes.py\<close>: a secret leaves a peer decrypted
  from its storage key inside an encrypted envelope and is encrypted again under the storage key of
  the receiving peer; one signed envelope row is queued for each peer that is authorised for the
  transaction. The theory also has the part of \<open>node_identity.py\<close> that both ends call, the check of
  the identity file against the local node projection.
\<close>

subsection \<open>Local identity (\<open>node_identity.py\<close>)\<close>

text \<open>
  The parsed identity file is \<open>pe_identity\<close>; the references to the file that \<open>node_private\<close> holds are not
  modelled, so the comparison covers the identifier, both keys and the state.
\<close>

definition require_projection :: "datastore \<Rightarrow> LocalNodeProjection res" where
  "require_projection ds =
     (if length (ds_node_private ds) \<noteq> 1
      then Inl (SQLiteBackendError ''SQLite node identity projection must contain exactly one local node; found '')
      else rbind (load_local_node_projection ds) (\<lambda>p.
        case p of None \<Rightarrow> Inl (SQLiteBackendError ''SQLite node identity projection is missing'') | Some l \<Rightarrow> Inr l))"

definition validate_distinct_keypairs :: "identity_material \<Rightarrow> unit res" where
  "validate_distinct_keypairs i =
     (if im_signing_public_key i = im_encryption_public_key i
      then Inl (SQLiteBackendError ''SQLite node identity signing and encryption public keys match'')
      else if im_signing_private_key i = im_encryption_private_key i
      then Inl (SQLiteBackendError ''SQLite node identity signing and encryption private keys match'')
      else Inr ())"

definition load_identity_file :: "peer_env \<Rightarrow> identity_material res" where
  "load_identity_file e =
     (case pe_identity e of
        None \<Rightarrow> Inl (SQLiteBackendError ''SQLite node identity material is missing: '')
      | Some i \<Rightarrow> rbind (validate_distinct_keypairs i) (\<lambda>_. Inr i))"

definition validate_projection_matches_identity :: "LocalNodeProjection \<Rightarrow> identity_material \<Rightarrow> unit res" where
  "validate_projection_matches_identity l i =
     rguard (ln_node_id l = im_node_id i \<and> ln_signing_public_key l = im_signing_public_key i \<and>
             ln_encryption_public_key l = im_encryption_public_key i \<and> ln_state l = ''active'')
       (SQLiteBackendError ''SQLite node identity projection does not match local identity material: '')"

definition validate_sqlite_node_identity :: "peer_env \<Rightarrow> datastore \<Rightarrow> unit res" where
  "validate_sqlite_node_identity e ds =
     rbind (load_identity_file e) (\<lambda>identity.
     rbind (require_projection ds) (\<lambda>projection. validate_projection_matches_identity projection identity))"

definition load_sqlite_node_identity_material :: "peer_env \<Rightarrow> datastore \<Rightarrow> identity_material res" where
  "load_sqlite_node_identity_material e ds =
     rbind (validate_sqlite_node_identity e ds) (\<lambda>_. load_identity_file e)"

subsection \<open>Rewrapping (\<open>sync_storage.py\<close>)\<close>

definition STORAGE_REWRAP_PROTOCOL :: string where
  "STORAGE_REWRAP_PROTOCOL = ''sqlite_storage_rewrap/v1''"

text \<open>\<open>_LOCAL_FIELDS\<close> with the name of the storage column, \<open>local_field.removesuffix("_b64")\<close>.\<close>

record rewrap_field =
  rf_local :: string
  rf_wire :: string
  rf_column :: string

definition NAME_FIELD :: rewrap_field where
  "NAME_FIELD = \<lparr>rf_local = ''encrypted_name_b64'', rf_wire = ''name_b64'', rf_column = ''encrypted_name''\<rparr>"

definition PAYLOAD_FIELD :: rewrap_field where
  "PAYLOAD_FIELD = \<lparr>rf_local = ''encrypted_payload_b64'', rf_wire = ''payload_b64'', rf_column = ''encrypted_payload''\<rparr>"

definition LOCAL_FIELDS :: "rewrap_field list" where
  "LOCAL_FIELDS = [NAME_FIELD, PAYLOAD_FIELD]"

text \<open>\<open>except (TypeError, ValueError)\<close>: the cipher's \<open>InvalidTag\<close> is neither.\<close>

definition field_invalid :: "string \<Rightarrow> 'a res \<Rightarrow> 'a res" where
  "field_invalid field =
     rmap_error (\<lambda>x. case x of ValueError _ \<Rightarrow> SQLiteValidationError (field @ '' is invalid'')
       | TypeError _ \<Rightarrow> SQLiteValidationError (field @ '' is invalid'') | _ \<Rightarrow> x)"

definition wire_field :: "host \<Rightarrow> string \<Rightarrow> rewrap_field \<Rightarrow> json_obj \<Rightarrow> json_obj res" where
  "wire_field h ty f wire =
     (if ty = ''secret.delete'' \<and> rf_local f = ''encrypted_payload_b64'' \<and> \<not> dict_has (rf_local f) wire then Inr wire
      else if \<not> is_text (map_of wire (rf_local f)) then Inl (SQLiteValidationError (rf_local f @ '' is required''))
      else
        rbind (field_invalid (rf_local f)
          (rbind (decode_b64url (text_of (map_of wire (rf_local f)))) (\<lambda>stored.
             decrypt_payload (h_aead h) (h_storage_key h) stored (rf_column f) SQLITE_STORAGE_MODE_ENCRYPTED))) (\<lambda>plaintext.
          Inr (dict_set (rf_wire f) (JStr (encode_b64url plaintext)) (dict_pop (rf_local f) wire))))"

definition wire_payload_from_local :: "host \<Rightarrow> json_obj \<Rightarrow> string \<Rightarrow> json_obj res" where
  "wire_payload_from_local h payload ty =
     rfold (wire_field h ty) LOCAL_FIELDS (dict_set ''storage_rewrap'' (JStr STORAGE_REWRAP_PROTOCOL) payload)"

definition prepare_outbound_storage_payload :: "host \<Rightarrow> datastore \<Rightarrow> Transaction \<Rightarrow> bool \<Rightarrow> Transaction res" where
  "prepare_outbound_storage_payload h ds t envelope_encrypted =
     (if tx_transaction_type t \<notin> {''secret.set'', ''secret.delete''} then Inr t
      else rbind (read_sqlite_storage_mode ds) (\<lambda>mode.
        if mode \<noteq> SQLITE_STORAGE_MODE_ENCRYPTED then Inr t
        else if \<not> envelope_encrypted
        then Inl (SQLiteValidationError ''encrypted SQLite secret synchronization requires encrypted envelopes'')
        else rbind (wire_payload_from_local h (tx_payload t) (tx_transaction_type t)) (\<lambda>wire.
          Inr (t\<lparr>tx_payload := wire, tx_payload_hash := sha256_hex (canonical_json_bytes wire)\<rparr>))))"

definition decode_retained_payload :: "bytes \<Rightarrow> json_obj res" where
  "decode_retained_payload data =
     (case Option.bind (utf8_decode data) json_loads of
        Some (JObj p) \<Rightarrow> Inr p
      | _ \<Rightarrow> Inl (SQLiteValidationError ''retained transaction payload is invalid''))"

text \<open>The nonce of a column is drawn under the name of the transaction and the column.\<close>

definition local_field ::
  "peer_env \<Rightarrow> string \<Rightarrow> string \<Rightarrow> string \<Rightarrow> rewrap_field \<Rightarrow> json_obj \<Rightarrow> json_obj res" where
  "local_field e mode transaction_id ty f localized =
     (if ty = ''secret.delete'' \<and> rf_wire f = ''payload_b64'' \<and> \<not> dict_has (rf_wire f) localized then Inr localized
      else if \<not> is_text (map_of localized (rf_wire f)) then Inl (SQLiteValidationError (rf_wire f @ '' is required''))
      else
        rbind (field_invalid (rf_wire f)
          (rbind (decode_b64url (text_of (map_of localized (rf_wire f)))) (\<lambda>plaintext.
             encrypt_payload (h_aead (pe_host e)) (h_storage_key (pe_host e)) (pe_nonce e (transaction_id @ rf_column f))
               plaintext (rf_column f) mode))) (\<lambda>stored.
          Inr (dict_set (rf_local f) (JStr (b64encode stored)) (dict_pop (rf_wire f) localized))))"

definition localize_inbound_storage_payload ::
  "peer_env \<Rightarrow> datastore \<Rightarrow> string \<Rightarrow> string \<Rightarrow> json_obj \<Rightarrow> json_obj res" where
  "localize_inbound_storage_payload e ds transaction_id ty value =
     (let marker = map_of value ''storage_rewrap'' in
      if marker = None \<or> marker = Some JNull then Inr value
      else if ty \<notin> {''secret.set'', ''secret.delete''} \<or> marker \<noteq> Some (JStr STORAGE_REWRAP_PROTOCOL)
      then Inl (SQLiteValidationError ''SQLite storage rewrap protocol is invalid'')
      else if \<exists>f \<in> set LOCAL_FIELDS. dict_has (rf_local f) value
      then Inl (SQLiteValidationError ''SQLite storage rewrap payload is ambiguous'')
      else case t_get tr_transaction_id transaction_id (ds_transactions ds) of
        Some r \<Rightarrow>
          if tr_transaction_type r \<noteq> ty then Inl (SQLiteValidationError ''duplicate transaction type does not match'')
          else rbind (decode_retained_payload (tr_payload r)) (\<lambda>retained.
            rbind (wire_payload_from_local (pe_host e) retained ty) (\<lambda>wire.
              if \<not> py_eq (JObj wire) (JObj value)
              then Inl (SQLiteValidationError ''duplicate transaction payload does not match'')
              else Inr retained))
      | None \<Rightarrow>
          rbind (read_sqlite_storage_mode ds) (\<lambda>mode.
            rfold (local_field e mode transaction_id ty) LOCAL_FIELDS (dict_pop ''storage_rewrap'' value)))"

subsection \<open>Queueing envelopes (\<open>envelopes.py\<close>)\<close>

definition outbound_payload_codec_for_peer :: "peer_env \<Rightarrow> PeerRegistryEntry \<Rightarrow> EnvelopePayloadCodec res" where
  "outbound_payload_codec_for_peer e entry =
     rbind (configured_envelope_payload_codec_mode e) (\<lambda>mode.
       if mode \<noteq> ENCRYPTED_CODEC_MODE then Inr plaintext_envelope_payload_codec
       else if pr_encryption_algorithm entry \<noteq> ''x25519''
       then Inl (ValueError ''peer encryption algorithm is unsupported: '')
       else if pr_encryption_public_key entry = [] then Inl (ValueError ''peer encryption public key is missing: '')
       else rbind (rmap_error (\<lambda>_. ValueError ''peer encryption public key is invalid: '')
                     (decode_b64url (pr_encryption_public_key entry))) (\<lambda>recipient_public_key.
         Inr (encrypted_codec_for_recipient (pr_node_id entry) recipient_public_key (pr_encryption_fingerprint entry))))"

definition eligible_peer_entry ::
  "datastore \<Rightarrow> string option \<Rightarrow> string \<Rightarrow> (string \<times> PeerRegistryEntry) list \<Rightarrow> (string \<times> PeerRegistryEntry) list res" where
  "eligible_peer_entry ds service_group_id peer_id acc =
     rbind (is_peer_synchronization_eligible ds peer_id service_group_id) (\<lambda>ok.
       if \<not> ok then Inr acc
       else rbind (get_peer_registry_entry ds peer_id) (\<lambda>entry.
         Inr (case entry of None \<Rightarrow> acc | Some r \<Rightarrow> acc @ [(peer_id, r)])))"

definition eligible_peer_entries ::
  "datastore \<Rightarrow> string list \<Rightarrow> string option \<Rightarrow> (string \<times> PeerRegistryEntry) list res" where
  "eligible_peer_entries ds peers service_group_id = rfold (eligible_peer_entry ds service_group_id) peers []"

definition ensure_node :: "datastore \<Rightarrow> string \<Rightarrow> string \<Rightarrow> datastore res" where
  "ensure_node ds node_id peer_group_id =
     rbind (validate_identifier node_id Node ''node_id'') (\<lambda>_.
     rbind (validate_identifier peer_group_id Peer_group ''peer_group_id'') (\<lambda>_.
       Inr (ds\<lparr>ds_peer_groups := t_insert_ignore pg_peer_group_id
                 \<lparr>pg_peer_group_id = peer_group_id, pg_name = None\<rparr> (ds_peer_groups ds),
               ds_nodes := t_insert_ignore nd_node_id (blank_node node_id peer_group_id) (ds_nodes ds)\<rparr>)))"

text \<open>\<open>INSERT OR IGNORE INTO envelopes\<close>: a row with the same identifier stays; missing parents are an error.\<close>

definition envelope_queue_row :: "string \<Rightarrow> string \<Rightarrow> string \<Rightarrow> string \<Rightarrow> bytes \<Rightarrow> envelope_row" where
  "envelope_queue_row envelope_id transaction_id source destination data =
     \<lparr>ev_envelope_id = envelope_id, ev_transaction_id = transaction_id, ev_source_node_id = source,
      ev_destination_node_id = destination, ev_state = ''pending'', ev_encrypted_payload = data,
      ev_envelope_hash = sha256 data, ev_attempt_count = 0, ev_claimed_at = None, ev_sent_at = None,
      ev_failed_at = None, ev_next_attempt_at = None, ev_last_error = None\<rparr>"

definition insert_envelope :: "datastore \<Rightarrow> envelope_row \<Rightarrow> datastore res" where
  "insert_envelope ds r =
     (if t_has ev_envelope_id (ev_envelope_id r) (ds_envelopes ds) then Inr ds
      else if \<not> (t_has tr_transaction_id (ev_transaction_id r) (ds_transactions ds)
                 \<and> t_has nd_node_id (ev_source_node_id r) (ds_nodes ds)
                 \<and> t_has nd_node_id (ev_destination_node_id r) (ds_nodes ds))
      then Inl fk_failed
      else Inr (ds\<lparr>ds_envelopes := ds_envelopes ds @ [r]\<rparr>))"

definition queue_envelope ::
  "peer_env \<Rightarrow> identity_material \<Rightarrow> Transaction \<Rightarrow> string \<Rightarrow> string \<times> PeerRegistryEntry \<Rightarrow> datastore \<Rightarrow> datastore res" where
  "queue_envelope e identity t origin peer ds =
     (case peer of (peer_id, entry) \<Rightarrow>
     rbind (local_peer_group_id_for_node origin) (\<lambda>peer_group_id.
     rbind (ensure_node ds origin peer_group_id) (\<lambda>ds1.
     rbind (outbound_payload_codec_for_peer e entry) (\<lambda>c.
     rbind (prepare_outbound_storage_payload (pe_host e) ds1 t (co_mode c = ENCRYPTED_CODEC_MODE)) (\<lambda>envelope_transaction.
     rbind (build_transaction_envelope e envelope_transaction peer_id c) (\<lambda>unsigned.
     rbind (sign_envelope e unsigned (im_node_id identity) (im_signing_private_key identity)
              (im_signing_public_key identity)) (\<lambda>v.
       insert_envelope ds1 (envelope_queue_row (ce_envelope_id v) (tx_transaction_id t) origin peer_id
         (canonical_envelope_bytes v)))))))))"

definition persist_outbound_envelopes :: "peer_env \<Rightarrow> datastore \<Rightarrow> Transaction \<Rightarrow> string list \<Rightarrow> datastore res" where
  "persist_outbound_envelopes e ds t peers =
     rbind (service_group_scope_id t) (\<lambda>service_group_id.
     rbind (eligible_peer_entries ds peers service_group_id) (\<lambda>eligible_peers.
       if eligible_peers = [] then Inr ds
       else rbind (load_sqlite_node_identity_material e ds) (\<lambda>identity.
         if tx_origin_node_id t \<noteq> Some (im_node_id identity) then Inr ds
         else rfold (queue_envelope e identity t (im_node_id identity)) eligible_peers ds)))"

definition persist_outbound_envelopes_for_configured_peers :: "peer_env \<Rightarrow> datastore \<Rightarrow> Transaction \<Rightarrow> datastore res" where
  "persist_outbound_envelopes_for_configured_peers e ds t =
     rbind (list_peer_registry_entries ds) (\<lambda>entries.
       persist_outbound_envelopes e ds t
         (filter (\<lambda>n. Some n \<noteq> tx_origin_node_id t) (map pr_node_id entries)))"

record EnvelopeInspection =
  ei_envelope_id :: string
  ei_transaction_id :: string
  ei_destination_node_id :: string
  ei_state :: string
  ei_created_at :: string
  ei_sent_at :: string
  ei_attempt_count :: int
  ei_retry_state :: string
  ei_failure_reason :: string

definition AUTHORIZATION_DENIED_STATE :: string where
  "AUTHORIZATION_DENIED_STATE = ''authorization_denied''"

definition RETRY_PENDING_STATE :: string where
  "RETRY_PENDING_STATE = ''retry_pending''"

definition retry_state :: "envelope_row \<Rightarrow> string" where
  "retry_state r =
     (if ev_state r = RETRY_PENDING_STATE then ''retry_pending next_attempt_at='' @ or_empty (ev_next_attempt_at r)
      else if ev_state r = AUTHORIZATION_DENIED_STATE then AUTHORIZATION_DENIED_STATE
      else ''none'')"

definition created_at_from_payload :: "bytes \<Rightarrow> string" where
  "created_at_from_payload data = (case parse_envelope_bytes data of Inr v \<Rightarrow> ce_created_at v | Inl _ \<Rightarrow> [])"

definition inspection_from_row :: "envelope_row \<Rightarrow> EnvelopeInspection" where
  "inspection_from_row r =
     \<lparr>ei_envelope_id = ev_envelope_id r, ei_transaction_id = ev_transaction_id r,
      ei_destination_node_id = ev_destination_node_id r, ei_state = ev_state r,
      ei_created_at = created_at_from_payload (ev_encrypted_payload r), ei_sent_at = or_empty (ev_sent_at r),
      ei_attempt_count = ev_attempt_count r, ei_retry_state = retry_state r,
      ei_failure_reason = or_empty (ev_last_error r)\<rparr>"

definition list_persisted_envelopes :: "datastore \<Rightarrow> EnvelopeInspection list" where
  "list_persisted_envelopes ds = map inspection_from_row (sort_key ev_envelope_id (ds_envelopes ds))"

definition get_persisted_envelope :: "datastore \<Rightarrow> string \<Rightarrow> EnvelopeInspection option" where
  "get_persisted_envelope ds envelope_id =
     map_option inspection_from_row (t_get ev_envelope_id envelope_id (ds_envelopes ds))"


subsection \<open>Rewrapping is a round trip\<close>

lemmas rewrap_fields = NAME_FIELD_def PAYLOAD_FIELD_def

text \<open>What a local field of a payload stands for: its decrypted bytes.\<close>

definition field_plaintext :: "host \<Rightarrow> string \<Rightarrow> rewrap_field \<Rightarrow> json_obj \<Rightarrow> bytes option" where
  "field_plaintext h mode f p =
     (case map_of p (rf_local f) of
        Some (JStr s) \<Rightarrow>
          (case rbind (decode_b64url s) (\<lambda>stored. decrypt_payload (h_aead h) (h_storage_key h) stored (rf_column f) mode) of
             Inr plaintext \<Rightarrow> Some plaintext | Inl _ \<Rightarrow> None)
      | _ \<Rightarrow> None)"

lemma wire_field_InrE:
  assumes "wire_field h ty f w = Inr w'"
  obtains "ty = ''secret.delete''" "rf_local f = ''encrypted_payload_b64''" "map_of w (rf_local f) = None" "w' = w"
  | plaintext where "field_plaintext h SQLITE_STORAGE_MODE_ENCRYPTED f w = Some plaintext"
      "w' = dict_set (rf_wire f) (JStr (encode_b64url plaintext)) (dict_pop (rf_local f) w)"
proof (cases "ty = ''secret.delete'' \<and> rf_local f = ''encrypted_payload_b64'' \<and> \<not> dict_has (rf_local f) w")
  case True
  then have "wire_field h ty f w = Inr w" unfolding wire_field_def by (rule if_P)
  with assms True show thesis by (intro that(1)) (auto simp: dict_has_iff)
next
  case False
  with assms obtain plaintext s where "map_of w (rf_local f) = Some (JStr s)"
    "rbind (decode_b64url s) (\<lambda>stored.
        decrypt_payload (h_aead h) (h_storage_key h) stored (rf_column f) SQLITE_STORAGE_MODE_ENCRYPTED) = Inr plaintext"
    "w' = dict_set (rf_wire f) (JStr (encode_b64url plaintext)) (dict_pop (rf_local f) w)"
    by (auto simp: wire_field_def rbind_Inr_iff is_text_def text_of_def field_invalid_def
        split: if_split_asm option.split_asm json.split_asm)
  then show thesis by (intro that(2)) (simp_all add: field_plaintext_def)
qed

lemma local_field_result:
  assumes law: "aead_law (h_aead (pe_host e))" "length (h_storage_key (pe_host e)) = 32" "\<And>i. length (pe_nonce e i) = 12"
    and f: "storage_field (rf_column f)" and mode: "mode \<in> {SQLITE_STORAGE_MODE_ENCRYPTED, SQLITE_STORAGE_MODE_PLAINTEXT}"
    and w: "map_of l (rf_wire f) = Some (JStr (encode_b64url plaintext))" "plaintext \<noteq> []"
    and blob: "mode = SQLITE_STORAGE_MODE_PLAINTEXT \<Longrightarrow> \<not> looks_like_encrypted_blob plaintext"
  obtains stored where
    "local_field e mode i ty f l = Inr (dict_set (rf_local f) (JStr (b64encode stored)) (dict_pop (rf_wire f) l))"
    "decrypt_payload (h_aead (pe_host e)) (h_storage_key (pe_host e)) stored (rf_column f) mode = Inr plaintext"
proof -
  have "rbind (encrypt_payload (h_aead (pe_host e)) (h_storage_key (pe_host e)) (pe_nonce e (i @ rf_column f)) plaintext
        (rf_column f) mode)
      (\<lambda>stored. decrypt_payload (h_aead (pe_host e)) (h_storage_key (pe_host e)) stored (rf_column f) mode) = Inr plaintext"
    using mode blob by (intro storage_roundtrip law f) blast
  then obtain stored where s: "encrypt_payload (h_aead (pe_host e)) (h_storage_key (pe_host e))
      (pe_nonce e (i @ rf_column f)) plaintext (rf_column f) mode = Inr stored"
    "decrypt_payload (h_aead (pe_host e)) (h_storage_key (pe_host e)) stored (rf_column f) mode = Inr plaintext"
    by (rule rbind_InrE)
  have "local_field e mode i ty f l = Inr (dict_set (rf_local f) (JStr (b64encode stored)) (dict_pop (rf_wire f) l))"
    using w encode_b64url_neq_Nil [OF w(2)] s(1)
    by (simp add: local_field_def is_text_def text_of_def decode_b64url_encode field_invalid_def dict_has_iff)
  with s(2) show thesis using that by blast
qed

lemma local_field_absent:
  "map_of l ''payload_b64'' = None \<Longrightarrow> local_field e mode i ''secret.delete'' PAYLOAD_FIELD l = Inr l"
  by (simp add: local_field_def PAYLOAD_FIELD_def dict_has_iff)

lemma storage_fields: "storage_field ''encrypted_name''" "storage_field ''encrypted_payload''"
  by (simp_all add: storage_field_def)

lemma normalize_mode_cases:
  "normalize_sqlite_storage_mode v = Inr mode \<Longrightarrow> mode \<in> {SQLITE_STORAGE_MODE_ENCRYPTED, SQLITE_STORAGE_MODE_PLAINTEXT}"
  unfolding normalize_sqlite_storage_mode_def Let_def by (auto split: option.split_asm if_split_asm)

lemma sqlite_storage_mode_cases:
  "read_sqlite_storage_mode ds = Inr mode \<Longrightarrow> mode \<in> {SQLITE_STORAGE_MODE_ENCRYPTED, SQLITE_STORAGE_MODE_PLAINTEXT}"
  unfolding read_sqlite_storage_mode_def read_sqlite_storage_mode_opt_def
  by (cases "map_of (ds_metadata ds) ''storage_mode''") (auto simp only: rbind_Inr_iff option.case sum.inject
      option.inject dest!: normalize_mode_cases)

lemma field_plaintext_frame:
  "map_of p (rf_local f) = map_of q (rf_local f) \<Longrightarrow> field_plaintext h mode f p = field_plaintext h mode f q"
  by (simp add: field_plaintext_def)

lemma field_plaintext_some:
  "field_plaintext h mode f p = Some x \<Longrightarrow> \<exists>s. map_of p (rf_local f) = Some (JStr s)"
  by (auto simp: field_plaintext_def split: option.split_asm json.split_asm)

text \<open>The wire payload of a local one: name and value decrypted, the rest as it was.\<close>

lemma wire_payload_shape:
  assumes "wire_payload_from_local h p ty = Inr wire"
  obtains name where "field_plaintext h SQLITE_STORAGE_MODE_ENCRYPTED NAME_FIELD p = Some name"
    "map_of wire ''name_b64'' = Some (JStr (encode_b64url name))"
    "map_of wire ''storage_rewrap'' = Some (JStr STORAGE_REWRAP_PROTOCOL)"
    "map_of wire ''encrypted_name_b64'' = None" "map_of wire ''encrypted_payload_b64'' = None"
    "(\<exists>value. field_plaintext h SQLITE_STORAGE_MODE_ENCRYPTED PAYLOAD_FIELD p = Some value \<and>
        map_of wire ''payload_b64'' = Some (JStr (encode_b64url value))) \<or>
     (ty = ''secret.delete'' \<and> map_of p ''encrypted_payload_b64'' = None \<and> map_of wire ''payload_b64'' = map_of p ''payload_b64'')"
    "\<forall>k. k \<notin> {''storage_rewrap'', ''encrypted_name_b64'', ''encrypted_payload_b64'', ''name_b64'', ''payload_b64''} \<longrightarrow>
      map_of wire k = map_of p k"
proof -
  let ?w = "dict_set ''storage_rewrap'' (JStr STORAGE_REWRAP_PROTOCOL) p"
  from assms obtain w1 where w1: "wire_field h ty NAME_FIELD ?w = Inr w1" and w2: "wire_field h ty PAYLOAD_FIELD w1 = Inr wire"
    by (auto simp: wire_payload_from_local_def LOCAL_FIELDS_def rbind_Inr_iff)
  from w1 obtain name where name: "field_plaintext h SQLITE_STORAGE_MODE_ENCRYPTED NAME_FIELD ?w = Some name"
    and w1': "w1 = dict_set ''name_b64'' (JStr (encode_b64url name)) (dict_pop ''encrypted_name_b64'' ?w)"
    by (rule wire_field_InrE) (simp_all add: NAME_FIELD_def)
  have n: "field_plaintext h SQLITE_STORAGE_MODE_ENCRYPTED NAME_FIELD p = Some name"
    using name field_plaintext_frame [of ?w NAME_FIELD p] by (simp add: NAME_FIELD_def)
  have p: "field_plaintext h SQLITE_STORAGE_MODE_ENCRYPTED PAYLOAD_FIELD w1 =
      field_plaintext h SQLITE_STORAGE_MODE_ENCRYPTED PAYLOAD_FIELD p"
    by (rule field_plaintext_frame) (simp add: w1' PAYLOAD_FIELD_def)
  from w2 show thesis
  proof (rule wire_field_InrE)
    assume d: "ty = ''secret.delete''" "map_of w1 (rf_local PAYLOAD_FIELD) = None" and w: "wire = w1"
    show thesis by (rule that [OF n]) (use d in \<open>simp_all add: w w1' PAYLOAD_FIELD_def\<close>)
  next
    fix v
    assume v: "field_plaintext h SQLITE_STORAGE_MODE_ENCRYPTED PAYLOAD_FIELD w1 = Some v"
      and w: "wire = dict_set (rf_wire PAYLOAD_FIELD) (JStr (encode_b64url v)) (dict_pop (rf_local PAYLOAD_FIELD) w1)"
    have "wire = dict_set ''payload_b64'' (JStr (encode_b64url v)) (dict_pop ''encrypted_payload_b64'' w1)"
      using w by (simp add: PAYLOAD_FIELD_def)
    moreover have "field_plaintext h SQLITE_STORAGE_MODE_ENCRYPTED PAYLOAD_FIELD p = Some v" using v by (simp only: p)
    ultimately show thesis by (intro that [OF n]) (auto simp: w1')
  qed
qed

lemma rewrapped_field:
  "decrypt_payload (h_aead h) (h_storage_key h) stored (rf_column f) mode = Inr x \<Longrightarrow>
    map_of q (rf_local f) = Some (JStr (b64encode stored)) \<Longrightarrow> field_plaintext h mode f q = Some x"
  by (simp add: field_plaintext_def decode_b64url_of_std)

text \<open>A wire payload that is new to the receiver starts the localisation of its fields.\<close>

lemma localize_new_wire:
  assumes "map_of wire ''storage_rewrap'' = Some (JStr STORAGE_REWRAP_PROTOCOL)"
    "map_of wire ''encrypted_name_b64'' = None" "map_of wire ''encrypted_payload_b64'' = None"
    and "ty \<in> {''secret.set'', ''secret.delete''}" "t_get tr_transaction_id i (ds_transactions ds) = None"
      "read_sqlite_storage_mode ds = Inr mode" "\<And>k. map_of received k = map_option canon (map_of wire k)"
  shows "localize_inbound_storage_payload e ds i ty received =
    rfold (local_field e mode i ty) LOCAL_FIELDS (dict_pop ''storage_rewrap'' received)"
  using assms by (auto simp: localize_inbound_storage_payload_def Let_def LOCAL_FIELDS_def rewrap_fields dict_has_iff)

text \<open>C24. Rewrapping between peers: the wire payload that a peer makes of a secret transaction, in any
  member order, is localised by another peer, under its own storage key and storage mode, to a payload
  whose name and value decrypt there to what they decrypted to at the sender, and whose other members
  are unchanged.\<close>

theorem storage_rewrap_roundtrip:
  assumes wire: "wire_payload_from_local h p ty = Inr wire" and ty: "ty \<in> {''secret.set'', ''secret.delete''}"
    and law: "aead_law (h_aead (pe_host e))" "length (h_storage_key (pe_host e)) = 32" "\<And>i. length (pe_nonce e i) = 12"
    and new: "t_get tr_transaction_id i (ds_transactions ds) = None" and mode: "read_sqlite_storage_mode ds = Inr mode"
    and received: "\<And>k. map_of value k = map_option canon (map_of wire k)" and fresh: "map_of p ''payload_b64'' = None"
    and plain: "\<And>f x. f \<in> {NAME_FIELD, PAYLOAD_FIELD} \<Longrightarrow> field_plaintext h SQLITE_STORAGE_MODE_ENCRYPTED f p = Some x \<Longrightarrow>
      x \<noteq> [] \<and> (mode = SQLITE_STORAGE_MODE_PLAINTEXT \<longrightarrow> \<not> looks_like_encrypted_blob x)"
  shows "\<exists>q. localize_inbound_storage_payload e ds i ty value = Inr q \<and>
    field_plaintext (pe_host e) mode NAME_FIELD q = field_plaintext h SQLITE_STORAGE_MODE_ENCRYPTED NAME_FIELD p \<and>
    field_plaintext (pe_host e) mode PAYLOAD_FIELD q = field_plaintext h SQLITE_STORAGE_MODE_ENCRYPTED PAYLOAD_FIELD p \<and>
    (\<forall>k. k \<notin> {''storage_rewrap'', ''encrypted_name_b64'', ''encrypted_payload_b64'', ''name_b64'', ''payload_b64''} \<longrightarrow>
      map_of q k = map_option canon (map_of p k))"
proof -
  from wire obtain name where name: "field_plaintext h SQLITE_STORAGE_MODE_ENCRYPTED NAME_FIELD p = Some name"
    "map_of wire ''name_b64'' = Some (JStr (encode_b64url name))"
    and mark: "map_of wire ''storage_rewrap'' = Some (JStr STORAGE_REWRAP_PROTOCOL)"
    and gone: "map_of wire ''encrypted_name_b64'' = None" "map_of wire ''encrypted_payload_b64'' = None"
    and val: "(\<exists>x. field_plaintext h SQLITE_STORAGE_MODE_ENCRYPTED PAYLOAD_FIELD p = Some x \<and>
        map_of wire ''payload_b64'' = Some (JStr (encode_b64url x))) \<or>
      (ty = ''secret.delete'' \<and> map_of p ''encrypted_payload_b64'' = None \<and> map_of wire ''payload_b64'' = map_of p ''payload_b64'')"
    and rest: "\<forall>k. k \<notin> {''storage_rewrap'', ''encrypted_name_b64'', ''encrypted_payload_b64'', ''name_b64'', ''payload_b64''} \<longrightarrow>
      map_of wire k = map_of p k"
    by (rule wire_payload_shape)
  let ?l = "dict_pop ''storage_rewrap'' value"
  note start = localize_new_wire [OF mark gone ty new mode received, of e]
  note modes = sqlite_storage_mode_cases [OF mode]
  obtain s1 where s1: "local_field e mode i ty NAME_FIELD ?l =
      Inr (dict_set ''encrypted_name_b64'' (JStr (b64encode s1)) (dict_pop ''name_b64'' ?l))" (is "_ = Inr ?l1")
    "decrypt_payload (h_aead (pe_host e)) (h_storage_key (pe_host e)) s1 ''encrypted_name'' mode = Inr name"
    using local_field_result [OF law _ modes, of NAME_FIELD ?l name i ty] plain [of NAME_FIELD, OF _ name(1)] name(2)
    by (auto simp: received NAME_FIELD_def storage_fields)
  have n: "field_plaintext (pe_host e) mode NAME_FIELD q = Some name"
    if "map_of q ''encrypted_name_b64'' = Some (JStr (b64encode s1))" for q
    using that s1(2) by (intro rewrapped_field) (simp_all add: NAME_FIELD_def)
  from val show ?thesis
  proof
    assume "\<exists>x. field_plaintext h SQLITE_STORAGE_MODE_ENCRYPTED PAYLOAD_FIELD p = Some x \<and>
        map_of wire ''payload_b64'' = Some (JStr (encode_b64url x))"
    then obtain x where x: "field_plaintext h SQLITE_STORAGE_MODE_ENCRYPTED PAYLOAD_FIELD p = Some x"
      "map_of wire ''payload_b64'' = Some (JStr (encode_b64url x))" by blast
    obtain s2 where s2: "local_field e mode i ty PAYLOAD_FIELD ?l1 =
        Inr (dict_set ''encrypted_payload_b64'' (JStr (b64encode s2)) (dict_pop ''payload_b64'' ?l1))" (is "_ = Inr ?l2")
      "decrypt_payload (h_aead (pe_host e)) (h_storage_key (pe_host e)) s2 ''encrypted_payload'' mode = Inr x"
      using local_field_result [OF law _ modes, of PAYLOAD_FIELD ?l1 x i ty] plain [of PAYLOAD_FIELD, OF _ x(1)] x(2)
      by (auto simp: received PAYLOAD_FIELD_def storage_fields)
    have "field_plaintext (pe_host e) mode PAYLOAD_FIELD ?l2 = Some x"
      using s2(2) by (intro rewrapped_field) (simp_all add: PAYLOAD_FIELD_def)
    moreover have "localize_inbound_storage_payload e ds i ty value = Inr ?l2"
      unfolding start using s1(1) s2(1) by (simp add: LOCAL_FIELDS_def)
    ultimately show ?thesis
      using n [of ?l2] name(1) x(1) rest by (intro exI [of _ ?l2]) (simp add: received)
  next
    assume d: "ty = ''secret.delete'' \<and> map_of p ''encrypted_payload_b64'' = None \<and>
      map_of wire ''payload_b64'' = map_of p ''payload_b64''"
    then have "local_field e mode i ty PAYLOAD_FIELD ?l1 = Inr ?l1"
      using local_field_absent [of ?l1 e mode i] fresh by (simp add: received)
    then have "localize_inbound_storage_payload e ds i ty value = Inr ?l1"
      unfolding start using s1(1) by (simp add: LOCAL_FIELDS_def)
    moreover have "field_plaintext (pe_host e) mode PAYLOAD_FIELD ?l1 = None"
      "field_plaintext h SQLITE_STORAGE_MODE_ENCRYPTED PAYLOAD_FIELD p = None"
      using d gone by (simp_all add: field_plaintext_def PAYLOAD_FIELD_def received)
    ultimately show ?thesis
      using n [of ?l1] name(1) rest by (intro exI [of _ ?l1]) (simp add: received)
  qed
qed

lemma local_field_seals:
  assumes law: "aead_law (h_aead (pe_host e))" "length (h_storage_key (pe_host e)) = 32" "\<And>i. length (pe_nonce e i) = 12"
    and f: "storage_field (rf_column f)" and mode: "mode \<in> {SQLITE_STORAGE_MODE_ENCRYPTED, SQLITE_STORAGE_MODE_PLAINTEXT}"
    and w: "map_of l (rf_wire f) = Some (JStr (encode_b64url plaintext))" "plaintext \<noteq> []"
  obtains stored where "local_field e mode i ty f l = Inr (dict_set (rf_local f) (JStr (b64encode stored)) (dict_pop (rf_wire f) l))"
proof -
  have "\<exists>stored. encrypt_payload (h_aead (pe_host e)) (h_storage_key (pe_host e)) (pe_nonce e (i @ rf_column f)) plaintext (rf_column f) mode = Inr stored"
  proof (cases "mode = SQLITE_STORAGE_MODE_PLAINTEXT")
    case True
    then show ?thesis using f by (simp add: encrypt_payload_def validate_field_name_def storage_field_def validate_storage_mode_def)
  next
    case False
    then show ?thesis using mode by (auto intro: encrypt_payload_encrypted [OF law f])
  qed
  then obtain stored where "encrypt_payload (h_aead (pe_host e)) (h_storage_key (pe_host e)) (pe_nonce e (i @ rf_column f)) plaintext
      (rf_column f) mode = Inr stored" by blast
  then have "local_field e mode i ty f l = Inr (dict_set (rf_local f) (JStr (b64encode stored)) (dict_pop (rf_wire f) l))"
    using w encode_b64url_neq_Nil [OF w(2)]
    by (simp add: local_field_def is_text_def text_of_def decode_b64url_encode field_invalid_def dict_has_iff)
  then show thesis by (rule that)
qed

text \<open>C27. The empty value: a secret whose value is the empty text, which the store accepts, is put on the
  wire by an encrypted store with an empty \<open>payload_b64\<close>, and a receiving peer that does not yet have the transaction refuses it as
  missing, whatever its storage mode, key and tables. (The name is not empty: an empty name is refused first.)\<close>

theorem empty_value_refused:
  assumes wire: "wire_payload_from_local h p ty = Inr wire" and ty: "ty \<in> {''secret.set'', ''secret.delete''}"
    and law: "aead_law (h_aead (pe_host e))" "length (h_storage_key (pe_host e)) = 32" "\<And>i. length (pe_nonce e i) = 12"
    and new: "t_get tr_transaction_id i (ds_transactions ds) = None"
    and mode: "read_sqlite_storage_mode ds = Inr mode"
    and received: "\<And>k. map_of received k = map_option canon (map_of wire k)"
    and name: "field_plaintext h SQLITE_STORAGE_MODE_ENCRYPTED NAME_FIELD p \<noteq> Some []"
    and empty: "field_plaintext h SQLITE_STORAGE_MODE_ENCRYPTED PAYLOAD_FIELD p = Some []"
  shows "map_of wire ''payload_b64'' = Some (JStr []) \<and>
    localize_inbound_storage_payload e ds i ty received = Inl (SQLiteValidationError ''payload_b64 is required'')"
proof -
  from wire obtain nm where nm: "field_plaintext h SQLITE_STORAGE_MODE_ENCRYPTED NAME_FIELD p = Some nm"
    "map_of wire ''name_b64'' = Some (JStr (encode_b64url nm))"
    and mark: "map_of wire ''storage_rewrap'' = Some (JStr STORAGE_REWRAP_PROTOCOL)"
    and gone: "map_of wire ''encrypted_name_b64'' = None" "map_of wire ''encrypted_payload_b64'' = None"
    and val: "(\<exists>x. field_plaintext h SQLITE_STORAGE_MODE_ENCRYPTED PAYLOAD_FIELD p = Some x \<and>
        map_of wire ''payload_b64'' = Some (JStr (encode_b64url x))) \<or>
      (ty = ''secret.delete'' \<and> map_of p ''encrypted_payload_b64'' = None \<and> map_of wire ''payload_b64'' = map_of p ''payload_b64'')"
    and rest: "\<forall>k. k \<notin> {''storage_rewrap'', ''encrypted_name_b64'', ''encrypted_payload_b64'', ''name_b64'', ''payload_b64''} \<longrightarrow>
      map_of wire k = map_of p k"
    by (rule wire_payload_shape)
  have "encode_b64url [] = []" by code_simp
  moreover have "map_of p ''encrypted_payload_b64'' \<noteq> None"
    using field_plaintext_some [OF empty] by (auto simp: PAYLOAD_FIELD_def)
  ultimately have w: "map_of wire ''payload_b64'' = Some (JStr [])" using val empty by auto
  let ?l = "dict_pop ''storage_rewrap'' received"
  note start = localize_new_wire [OF mark gone ty new mode received, of e]
  obtain s1 where s1: "local_field e mode i ty NAME_FIELD ?l =
      Inr (dict_set ''encrypted_name_b64'' (JStr (b64encode s1)) (dict_pop ''name_b64'' ?l))" (is "_ = Inr ?l1")
    using local_field_seals [OF law _ sqlite_storage_mode_cases [OF mode], of NAME_FIELD ?l nm i ty] nm name
    by (auto simp: received NAME_FIELD_def storage_fields)
  have "local_field e mode i ty PAYLOAD_FIELD ?l1 = Inl (SQLiteValidationError ''payload_b64 is required'')"
    using w by (simp add: local_field_def PAYLOAD_FIELD_def dict_has_iff received is_text_def)
  then show ?thesis unfolding start using s1 w by (simp add: LOCAL_FIELDS_def)
qed

text \<open>Two peers with different storage keys, and a stored secret.\<close>

definition example_peer_env :: "nat \<Rightarrow> char \<Rightarrow> peer_env" where
  "example_peer_env n c = (example_env n)\<lparr>pe_host := (pe_host (example_env n))\<lparr>h_storage_key := replicate 32 c\<rparr>\<rparr>"

definition example_encrypted_datastore :: datastore where
  "example_encrypted_datastore = empty_datastore\<lparr>ds_metadata := [(''storage_mode'', ''encrypted'')]\<rparr>"

lemma example_peer_env_laws:
  "aead_law (h_aead (pe_host (example_peer_env n c)))" "length (h_storage_key (pe_host (example_peer_env n c))) = 32"
  "length (pe_nonce (example_peer_env n c) i) = 12"
  using example_aead_law by (simp_all add: example_peer_env_def example_env_def example_host_def)

lemma example_encrypted_mode: "read_sqlite_storage_mode example_encrypted_datastore = Inr SQLITE_STORAGE_MODE_ENCRYPTED"
  by code_simp

lemma example_stored:
  assumes "f \<in> {NAME_FIELD, PAYLOAD_FIELD}"
  obtains s where "s \<noteq> []" "\<forall>p. map_of p (rf_local f) = Some (JStr s) \<longrightarrow>
    field_plaintext (pe_host (example_peer_env n c)) SQLITE_STORAGE_MODE_ENCRYPTED f p = Some x"
proof -
  let ?e = "example_peer_env n c"
  have f: "storage_field (rf_column f)" using assms by (auto simp: rewrap_fields storage_fields)
  have "rbind (encrypt_payload (h_aead (pe_host ?e)) (h_storage_key (pe_host ?e)) (pe_nonce ?e []) x (rf_column f)
        SQLITE_STORAGE_MODE_ENCRYPTED)
      (\<lambda>d. decrypt_payload (h_aead (pe_host ?e)) (h_storage_key (pe_host ?e)) d (rf_column f) SQLITE_STORAGE_MODE_ENCRYPTED) = Inr x"
    by (rule storage_roundtrip [OF example_peer_env_laws f]) simp
  then obtain d where d: "decrypt_payload (h_aead (pe_host ?e)) (h_storage_key (pe_host ?e)) d (rf_column f)
      SQLITE_STORAGE_MODE_ENCRYPTED = Inr x" by (rule rbind_InrE)
  have "decode_encrypted_blob [] = Inl (ValueError ''encrypted blob must be valid JSON bytes'')" by code_simp
  then have "d \<noteq> []"
    using d by (auto simp: decrypt_payload_def rbind_Inr_iff validate_storage_mode_def SQLITE_STORAGE_MODE_ENCRYPTED_def
        SQLITE_STORAGE_MODE_PLAINTEXT_def)
  then show thesis
    using d by (intro that [of "b64encode d"]) (simp_all add: field_plaintext_def decode_b64url_of_std)
qed

lemma example_wire:
  obtains p wire where
    "wire_payload_from_local (pe_host (example_peer_env 1 CHR ''k'')) p ''secret.set'' = Inr wire" "dict_wf wire"
    "map_of p ''payload_b64'' = None" "map_of p ''service'' = Some (JStr ''web'')"
    "field_plaintext (pe_host (example_peer_env 1 CHR ''k'')) SQLITE_STORAGE_MODE_ENCRYPTED NAME_FIELD p = Some ''api''"
    "field_plaintext (pe_host (example_peer_env 1 CHR ''k'')) SQLITE_STORAGE_MODE_ENCRYPTED PAYLOAD_FIELD p = Some v"
proof -
  let ?h = "pe_host (example_peer_env 1 CHR ''k'')"
  obtain a where a: "a \<noteq> []" "\<forall>p. map_of p (rf_local NAME_FIELD) = Some (JStr a) \<longrightarrow>
      field_plaintext ?h SQLITE_STORAGE_MODE_ENCRYPTED NAME_FIELD p = Some ''api''"
    by (rule example_stored [of NAME_FIELD 1 "CHR ''k''" "''api''"]) simp
  obtain b where b: "b \<noteq> []" "\<forall>p. map_of p (rf_local PAYLOAD_FIELD) = Some (JStr b) \<longrightarrow>
      field_plaintext ?h SQLITE_STORAGE_MODE_ENCRYPTED PAYLOAD_FIELD p = Some v"
    by (rule example_stored [of PAYLOAD_FIELD 1 "CHR ''k''" v]) simp
  let ?p = "[(''service'', JStr ''web''), (''encrypted_name_b64'', JStr a), (''encrypted_payload_b64'', JStr b)]"
  have f: "field_plaintext ?h SQLITE_STORAGE_MODE_ENCRYPTED NAME_FIELD p = Some ''api''"
    if "map_of p ''encrypted_name_b64'' = Some (JStr a)" for p using a that by (simp add: NAME_FIELD_def)
  have g: "field_plaintext ?h SQLITE_STORAGE_MODE_ENCRYPTED PAYLOAD_FIELD p = Some v"
    if "map_of p ''encrypted_payload_b64'' = Some (JStr b)" for p using b that by (simp add: PAYLOAD_FIELD_def)
  have step: "wire_field ?h ty f w = Inr (dict_set (rf_wire f) (JStr (encode_b64url x)) (dict_pop (rf_local f) w))"
    if "field_plaintext ?h SQLITE_STORAGE_MODE_ENCRYPTED f w = Some x" "map_of w (rf_local f) = Some (JStr s)" "s \<noteq> []" for ty f w x s
    using that by (auto simp: wire_field_def field_plaintext_def is_text_def text_of_def field_invalid_def dict_has_iff
        split: sum.split_asm)
  let ?w = "dict_set ''storage_rewrap'' (JStr STORAGE_REWRAP_PROTOCOL) ?p"
  let ?w1 = "dict_set ''name_b64'' (JStr (encode_b64url ''api'')) (dict_pop ''encrypted_name_b64'' ?w)"
  let ?w2 = "dict_set ''payload_b64'' (JStr (encode_b64url v)) (dict_pop ''encrypted_payload_b64'' ?w1)"
  have "wire_field ?h ''secret.set'' NAME_FIELD ?w = Inr ?w1"
    using step [OF f, of ?w a "''secret.set''"] a(1) by (simp add: NAME_FIELD_def)
  moreover have "wire_field ?h ''secret.set'' PAYLOAD_FIELD ?w1 = Inr ?w2"
    using step [OF g, of ?w1 b "''secret.set''"] b(1) by (simp add: PAYLOAD_FIELD_def)
  ultimately have "wire_payload_from_local ?h ?p ''secret.set'' = Inr ?w2"
    by (simp add: wire_payload_from_local_def LOCAL_FIELDS_def)
  moreover have "dict_wf ?w2" by (intro dict_wf_set dict_wf_pop) (simp add: dict_wf_def)
  ultimately show thesis by (intro that [of ?p ?w2] f g) simp_all
qed

theorem storage_rewrap_roundtrip_witness:
  "\<exists>p wire q. wire_payload_from_local (pe_host (example_peer_env 1 CHR ''k'')) p ''secret.set'' = Inr wire \<and>
    localize_inbound_storage_payload (example_peer_env 2 CHR ''m'') example_encrypted_datastore ''t'' ''secret.set''
      (canon_obj wire) = Inr q \<and>
    field_plaintext (pe_host (example_peer_env 2 CHR ''m'')) SQLITE_STORAGE_MODE_ENCRYPTED PAYLOAD_FIELD q = Some ''s3cret'' \<and>
    map_of q ''service'' = Some (JStr ''web'')"
proof -
  obtain p wire where w: "wire_payload_from_local (pe_host (example_peer_env 1 CHR ''k'')) p ''secret.set'' = Inr wire"
    "dict_wf wire" "map_of p ''payload_b64'' = None" "map_of p ''service'' = Some (JStr ''web'')"
    and f: "field_plaintext (pe_host (example_peer_env 1 CHR ''k'')) SQLITE_STORAGE_MODE_ENCRYPTED NAME_FIELD p = Some ''api''"
      "field_plaintext (pe_host (example_peer_env 1 CHR ''k'')) SQLITE_STORAGE_MODE_ENCRYPTED PAYLOAD_FIELD p = Some ''s3cret''"
    by (rule example_wire)
  have new: "t_get tr_transaction_id ''t'' (ds_transactions example_encrypted_datastore) = None"
    by (simp add: example_encrypted_datastore_def empty_datastore_def)
  have ne: "SQLITE_STORAGE_MODE_ENCRYPTED \<noteq> SQLITE_STORAGE_MODE_PLAINTEXT"
    by (simp add: SQLITE_STORAGE_MODE_ENCRYPTED_def SQLITE_STORAGE_MODE_PLAINTEXT_def)
  have plain: "x \<noteq> [] \<and> (SQLITE_STORAGE_MODE_ENCRYPTED = SQLITE_STORAGE_MODE_PLAINTEXT \<longrightarrow> \<not> looks_like_encrypted_blob x)"
    if "g \<in> {NAME_FIELD, PAYLOAD_FIELD}"
      "field_plaintext (pe_host (example_peer_env 1 CHR ''k'')) SQLITE_STORAGE_MODE_ENCRYPTED g p = Some x" for g x
    using that f ne by auto
  have "\<exists>q. localize_inbound_storage_payload (example_peer_env 2 CHR ''m'') example_encrypted_datastore ''t''
      ''secret.set'' (canon_obj wire) = Inr q \<and>
    field_plaintext (pe_host (example_peer_env 2 CHR ''m'')) SQLITE_STORAGE_MODE_ENCRYPTED NAME_FIELD q =
      field_plaintext (pe_host (example_peer_env 1 CHR ''k'')) SQLITE_STORAGE_MODE_ENCRYPTED NAME_FIELD p \<and>
    field_plaintext (pe_host (example_peer_env 2 CHR ''m'')) SQLITE_STORAGE_MODE_ENCRYPTED PAYLOAD_FIELD q =
      field_plaintext (pe_host (example_peer_env 1 CHR ''k'')) SQLITE_STORAGE_MODE_ENCRYPTED PAYLOAD_FIELD p \<and>
    (\<forall>k. k \<notin> {''storage_rewrap'', ''encrypted_name_b64'', ''encrypted_payload_b64'', ''name_b64'', ''payload_b64''} \<longrightarrow>
      map_of q k = map_option canon (map_of p k))"
    by (rule storage_rewrap_roundtrip [OF w(1) insertI1 example_peer_env_laws new example_encrypted_mode map_of_canon_obj [OF w(2)] w(3)])
      (rule plain)
  then obtain q where q: "localize_inbound_storage_payload (example_peer_env 2 CHR ''m'') example_encrypted_datastore ''t''
      ''secret.set'' (canon_obj wire) = Inr q"
    "field_plaintext (pe_host (example_peer_env 2 CHR ''m'')) SQLITE_STORAGE_MODE_ENCRYPTED PAYLOAD_FIELD q =
      field_plaintext (pe_host (example_peer_env 1 CHR ''k'')) SQLITE_STORAGE_MODE_ENCRYPTED PAYLOAD_FIELD p"
    and rest: "\<forall>k. k \<notin> {''storage_rewrap'', ''encrypted_name_b64'', ''encrypted_payload_b64'', ''name_b64'', ''payload_b64''} \<longrightarrow>
      map_of q k = map_option canon (map_of p k)"
    by (elim exE conjE)
  have "map_of q ''service'' = Some (JStr ''web'')"
    using rest [rule_format, of "''service''"] w(4) by simp
  with w(1) q f(2) show ?thesis by (intro exI [of _ p] exI [of _ wire] exI [of _ q] conjI) simp_all
qed

theorem empty_value_refused_witness:
  "\<exists>p wire. wire_payload_from_local (pe_host (example_peer_env 1 CHR ''k'')) p ''secret.set'' = Inr wire \<and>
    map_of wire ''payload_b64'' = Some (JStr []) \<and>
    localize_inbound_storage_payload (example_peer_env 2 CHR ''m'') example_encrypted_datastore ''t'' ''secret.set''
      (canon_obj wire) = Inl (SQLiteValidationError ''payload_b64 is required'')"
proof -
  obtain p wire where w: "wire_payload_from_local (pe_host (example_peer_env 1 CHR ''k'')) p ''secret.set'' = Inr wire"
    "dict_wf wire"
    and f: "field_plaintext (pe_host (example_peer_env 1 CHR ''k'')) SQLITE_STORAGE_MODE_ENCRYPTED NAME_FIELD p = Some ''api''"
      "field_plaintext (pe_host (example_peer_env 1 CHR ''k'')) SQLITE_STORAGE_MODE_ENCRYPTED PAYLOAD_FIELD p = Some []"
    by (rule example_wire [of "[]"])
  have new: "t_get tr_transaction_id ''t'' (ds_transactions example_encrypted_datastore) = None"
    by (simp add: example_encrypted_datastore_def empty_datastore_def)
  from empty_value_refused [OF w(1) _ example_peer_env_laws new example_encrypted_mode map_of_canon_obj [OF w(2)] _ f(2),
      of 2 "CHR ''m''"] f(1) w(1)
  show ?thesis by auto
qed

subsection \<open>What is queued\<close>

lemma eligible_has_entry:
  "is_peer_synchronization_eligible ds n sg = Inr True \<Longrightarrow> \<exists>r. get_peer_registry_entry ds n = Inr (Some r)"
  by (auto simp: is_peer_synchronization_eligible_def rbind_Inr_iff split: option.split_asm)

lemma eligible_peer_entries_fst:
  "rfold (eligible_peer_entry ds sg) peers acc = Inr xs \<Longrightarrow>
    map fst xs = map fst acc @ filter (\<lambda>n. is_peer_synchronization_eligible ds n sg = Inr True) peers"
proof (induction peers arbitrary: acc)
  case (Cons n peers)
  then obtain acc1 where s: "eligible_peer_entry ds sg n acc = Inr acc1" "rfold (eligible_peer_entry ds sg) peers acc1 = Inr xs"
    by (auto simp: rbind_Inr_iff)
  have "map fst acc1 = map fst acc @ filter (\<lambda>n. is_peer_synchronization_eligible ds n sg = Inr True) [n]"
    using s(1) eligible_has_entry [of ds n sg] by (auto simp: eligible_peer_entry_def rbind_Inr_iff split: if_split_asm)
  with Cons.IH [OF s(2)] show ?case by simp
qed simp

lemma eligible_peer_entries_eq:
  "eligible_peer_entries ds peers sg = Inr xs \<Longrightarrow>
    map fst xs = filter (\<lambda>n. is_peer_synchronization_eligible ds n sg = Inr True) peers"
  using eligible_peer_entries_fst [of ds sg peers "[]" xs] by (simp add: eligible_peer_entries_def)

text \<open>One queued envelope: a node row for the origin if there is none, and at most one new row.\<close>

definition queued :: "string \<Rightarrow> string \<Rightarrow> string \<Rightarrow> string \<Rightarrow> bytes \<Rightarrow> envelope_row list \<Rightarrow> envelope_row list" where
  "queued i transaction_id origin peer data rows =
     (if t_has ev_envelope_id i rows then rows else rows @ [envelope_queue_row i transaction_id origin peer data])"

lemma build_envelope_id:
  "build_transaction_envelope e t d c = Inr v \<Longrightarrow> envelope_id_for (tx_transaction_id t) d = Inr (ce_envelope_id v)"
  by (auto simp: build_transaction_envelope_def rbind_Inr_iff env_required_string_def split: if_split_asm)

lemma sign_envelope_id: "sign_envelope e u n k p = Inr v \<Longrightarrow> ce_envelope_id v = ce_envelope_id u"
  by (auto simp: sign_envelope_def rbind_Inr_iff)

lemma prepare_transaction_id:
  "prepare_outbound_storage_payload h ds t b = Inr u \<Longrightarrow> tx_transaction_id u = tx_transaction_id t"
  by (auto simp: prepare_outbound_storage_payload_def rbind_Inr_iff split: if_split_asm)

lemma ensure_node_eq:
  "ensure_node ds n g = Inr ds1 \<Longrightarrow>
    ds1 = ds\<lparr>ds_peer_groups := t_insert_ignore pg_peer_group_id \<lparr>pg_peer_group_id = g, pg_name = None\<rparr> (ds_peer_groups ds),
             ds_nodes := t_insert_ignore nd_node_id (blank_node n g) (ds_nodes ds)\<rparr>"
  by (auto simp: ensure_node_def rbind_Inr_iff)

lemma insert_envelope_queued:
  "insert_envelope ds (envelope_queue_row i t origin peer data) = Inr ds' \<Longrightarrow>
    ds' = ds\<lparr>ds_envelopes := queued i t origin peer data (ds_envelopes ds)\<rparr>"
  by (auto simp: insert_envelope_def queued_def envelope_queue_row_def split: if_split_asm)

lemma queue_envelope_effect:
  assumes "queue_envelope e identity t origin (peer, entry) ds = Inr ds'"
  obtains i data g where "envelope_id_for (tx_transaction_id t) peer = Inr i"
    "ds' = ds\<lparr>ds_peer_groups := t_insert_ignore pg_peer_group_id \<lparr>pg_peer_group_id = g, pg_name = None\<rparr> (ds_peer_groups ds),
             ds_nodes := t_insert_ignore nd_node_id (blank_node origin g) (ds_nodes ds),
             ds_envelopes := queued i (tx_transaction_id t) origin peer data (ds_envelopes ds)\<rparr>"
proof -
  from assms obtain g ds1 c u v w where s: "ensure_node ds origin g = Inr ds1"
    "prepare_outbound_storage_payload (pe_host e) ds1 t (co_mode c = ENCRYPTED_CODEC_MODE) = Inr u"
    "build_transaction_envelope e u peer c = Inr v"
    "sign_envelope e v (im_node_id identity) (im_signing_private_key identity) (im_signing_public_key identity) = Inr w"
    "insert_envelope ds1 (envelope_queue_row (ce_envelope_id w) (tx_transaction_id t) origin peer (canonical_envelope_bytes w)) = Inr ds'"
    unfolding queue_envelope_def prod.case by (elim rbind_InrE) blast
  have "envelope_id_for (tx_transaction_id t) peer = Inr (ce_envelope_id w)"
    using build_envelope_id [OF s(3)] sign_envelope_id [OF s(4)] prepare_transaction_id [OF s(2)] by simp
  then show thesis
    using insert_envelope_queued [OF s(5)] ensure_node_eq [OF s(1)] by (intro that) simp_all
qed

definition queued_row :: "Transaction \<Rightarrow> string \<Rightarrow> string set \<Rightarrow> envelope_row \<Rightarrow> bool" where
  "queued_row t origin peers r \<longleftrightarrow> ev_transaction_id r = tx_transaction_id t \<and> ev_source_node_id r = origin \<and>
     ev_destination_node_id r \<in> peers \<and> envelope_id_for (tx_transaction_id t) (ev_destination_node_id r) = Inr (ev_envelope_id r) \<and>
     ev_state r = ''pending'' \<and> ev_attempt_count r = 0 \<and> ev_envelope_hash r = sha256 (ev_encrypted_payload r)"

lemma queue_envelopes_effect:
  assumes "rfold (queue_envelope e identity t origin) xs ds = Inr ds'" and "t_has nd_node_id origin (ds_nodes ds)"
  shows "\<exists>new. ds' = ds\<lparr>ds_peer_groups := ds_peer_groups ds', ds_envelopes := ds_envelopes ds @ new\<rparr> \<and>
    (\<forall>r \<in> set new. queued_row t origin (fst ` set xs) r) \<and>
    (\<forall>n \<in> fst ` set xs. \<exists>i. envelope_id_for (tx_transaction_id t) n = Inr i \<and> t_has ev_envelope_id i (ds_envelopes ds'))"
  using assms
proof (induction xs arbitrary: ds)
  case (Cons x xs)
  obtain n entry where x: "x = (n, entry)" by (cases x)
  from Cons.prems(1) obtain ds1 where s: "queue_envelope e identity t origin (n, entry) ds = Inr ds1"
    "rfold (queue_envelope e identity t origin) xs ds1 = Inr ds'" by (auto simp: x rbind_Inr_iff)
  from s(1) obtain i data g where i: "envelope_id_for (tx_transaction_id t) n = Inr i"
    and ds1: "ds1 = ds\<lparr>ds_peer_groups := t_insert_ignore pg_peer_group_id \<lparr>pg_peer_group_id = g, pg_name = None\<rparr> (ds_peer_groups ds),
      ds_nodes := t_insert_ignore nd_node_id (blank_node origin g) (ds_nodes ds),
      ds_envelopes := queued i (tx_transaction_id t) origin n data (ds_envelopes ds)\<rparr>"
    by (rule queue_envelope_effect)
  have nodes: "ds_nodes ds1 = ds_nodes ds"
    using Cons.prems(2) by (simp add: ds1 t_insert_ignore_def blank_node_def)
  obtain a where a: "ds_envelopes ds1 = ds_envelopes ds @ a" "\<forall>r \<in> set a. queued_row t origin {n} r"
    "t_has ev_envelope_id i (ds_envelopes ds1)"
    using i by (cases "t_has ev_envelope_id i (ds_envelopes ds)")
      (auto simp: ds1 queued_def queued_row_def envelope_queue_row_def t_has_simps)
  have "t_has nd_node_id origin (ds_nodes ds1)" using Cons.prems(2) nodes by simp
  from Cons.IH [OF s(2) this] obtain new where
    d: "ds' = ds1\<lparr>ds_peer_groups := ds_peer_groups ds', ds_envelopes := ds_envelopes ds1 @ new\<rparr>"
    "\<forall>r \<in> set new. queued_row t origin (fst ` set xs) r"
    "\<forall>n \<in> fst ` set xs. \<exists>i. envelope_id_for (tx_transaction_id t) n = Inr i \<and> t_has ev_envelope_id i (ds_envelopes ds')"
    by blast
  have "ds' = ds\<lparr>ds_peer_groups := ds_peer_groups ds', ds_envelopes := ds_envelopes ds @ a @ new\<rparr>"
    using d(1) nodes a(1) ds1 by (cases ds) simp
  moreover have "\<forall>r \<in> set (a @ new). queued_row t origin (fst ` set (x # xs)) r"
    using a(2) d(2) by (auto simp: x queued_row_def)
  moreover have "t_has ev_envelope_id i (ds_envelopes ds')"
    using a(3) arg_cong [OF d(1), of ds_envelopes] by (auto simp: t_has_def)
  moreover have "fst ` set (x # xs) = insert n (fst ` set xs)" by (simp add: x)
  ultimately show ?case using d(3) i by (intro exI [of _ "a @ new"] conjI) auto
next
  case Nil
  then show ?case by (intro exI [of _ "[]"]) simp
qed

lemma identity_node:
  assumes "load_sqlite_node_identity_material e ds = Inr a"
  shows "pe_identity e = Some a" "t_has nd_node_id (im_node_id a) (ds_nodes ds)" "im_node_id a \<in> set (ds_node_private ds)"
proof -
  from assms obtain l where a: "load_identity_file e = Inr a" and l: "load_local_node_projection ds = Inr (Some l)"
    and m: "validate_projection_matches_identity l a = Inr ()"
    by (auto simp: load_sqlite_node_identity_material_def validate_sqlite_node_identity_def rbind_Inr_iff
        require_projection_def split: if_split_asm option.split_asm)
  from a show "pe_identity e = Some a"
    by (auto simp: load_identity_file_def rbind_Inr_iff split: option.split_asm)
  let ?rows = "sort_key nd_node_id (filter (\<lambda>r. nd_node_id r \<in> set (ds_node_private ds)) (ds_nodes ds))"
  from l obtain r where "r \<in> set ?rows" "ln_node_id l = nd_node_id r"
    by (cases ?rows) (simp_all add: load_local_node_projection_def rbind_Inr_iff del: set_sort, force)
  then have "r \<in> set (ds_nodes ds)" "nd_node_id r \<in> set (ds_node_private ds)" "im_node_id a = nd_node_id r"
    using m by (auto simp: validate_projection_matches_identity_def)
  then show "t_has nd_node_id (im_node_id a) (ds_nodes ds)" "im_node_id a \<in> set (ds_node_private ds)"
    by (auto simp: t_has_def)
qed

text \<open>C23. Outbound authorisation: queueing a transaction only appends envelope rows (and possibly the peer
  group of the local node). Every new row is for a peer of the list that is eligible for the service
  group of the transaction, is pending and unattempted, carries the hash of its bytes and has the
  identifier derived from the transaction and its destination; and when the transaction is the
  local node's own, every eligible peer of the list has a row afterwards. A transaction of another
  origin is never forwarded.\<close>

theorem outbound_queue_authorised:
  assumes "persist_outbound_envelopes e ds t peers = Inr ds'"
  shows "\<exists>sg new. service_group_scope_id t = Inr sg \<and>
    ds' = ds\<lparr>ds_peer_groups := ds_peer_groups ds', ds_envelopes := ds_envelopes ds @ new\<rparr> \<and>
    (\<forall>r \<in> set new. is_peer_synchronization_eligible ds (ev_destination_node_id r) sg = Inr True \<and>
      queued_row t (the (tx_origin_node_id t)) (set peers) r) \<and>
    (\<forall>a. pe_identity e = Some a \<longrightarrow>
      (if tx_origin_node_id t = Some (im_node_id a)
       then \<forall>n \<in> set peers. is_peer_synchronization_eligible ds n sg = Inr True \<longrightarrow>
         (\<exists>i. envelope_id_for (tx_transaction_id t) n = Inr i \<and> t_has ev_envelope_id i (ds_envelopes ds'))
       else new = []))"
proof -
  from assms obtain sg xs where sg: "service_group_scope_id t = Inr sg" and xs: "eligible_peer_entries ds peers sg = Inr xs"
    and r: "(if xs = [] then Inr ds else rbind (load_sqlite_node_identity_material e ds) (\<lambda>identity.
         if tx_origin_node_id t \<noteq> Some (im_node_id identity) then Inr ds
         else rfold (queue_envelope e identity t (im_node_id identity)) xs ds)) = Inr ds'"
    by (auto simp: persist_outbound_envelopes_def rbind_Inr_iff)
  have el: "fst ` set xs = {n \<in> set peers. is_peer_synchronization_eligible ds n sg = Inr True}"
    using eligible_peer_entries_eq [OF xs] by (metis list.set_map set_filter)
  show ?thesis
  proof (cases "xs = []")
    case True
    with r el sg show ?thesis by (intro exI [of _ sg] exI [of _ "[]"]) auto
  next
    case False
    with r obtain a where a: "load_sqlite_node_identity_material e ds = Inr a"
      "(if tx_origin_node_id t \<noteq> Some (im_node_id a) then Inr ds
        else rfold (queue_envelope e a t (im_node_id a)) xs ds) = Inr ds'"
      by (auto simp: rbind_Inr_iff)
    note id = identity_node [OF a(1)]
    show ?thesis
    proof (cases "tx_origin_node_id t = Some (im_node_id a)")
      case True
      with a(2) have "rfold (queue_envelope e a t (im_node_id a)) xs ds = Inr ds'" by simp
      from queue_envelopes_effect [OF this id(2)] obtain new where
        new: "ds' = ds\<lparr>ds_peer_groups := ds_peer_groups ds', ds_envelopes := ds_envelopes ds @ new\<rparr>"
        "\<forall>r \<in> set new. queued_row t (im_node_id a) (fst ` set xs) r"
        "\<forall>n \<in> fst ` set xs. \<exists>i. envelope_id_for (tx_transaction_id t) n = Inr i \<and> t_has ev_envelope_id i (ds_envelopes ds')"
        by blast
      then show ?thesis
        using sg id(1) True el by (intro exI [of _ sg] exI [of _ new]) (auto simp: queued_row_def)
    next
      case False
      with a(2) id(1) sg show ?thesis by (intro exI [of _ sg] exI [of _ "[]"]) auto
    qed
  qed
qed

text \<open>A queued envelope of an encrypting peer is one that the destination accepts and decrypts.\<close>

definition encrypts_to :: "PeerRegistryEntry \<Rightarrow> identity_material \<Rightarrow> bool" where
  "encrypts_to entry b \<longleftrightarrow> pr_node_id entry = im_node_id b \<and> pr_encryption_algorithm entry = ''x25519'' \<and>
     pr_encryption_public_key entry = encode_b64url (im_encryption_public_key b) \<and>
     pr_encryption_fingerprint entry = sha256_hex (im_encryption_public_key b)"

definition signs_as :: "PeerRegistryEntry \<Rightarrow> identity_material \<Rightarrow> bool" where
  "signs_as entry a \<longleftrightarrow> pr_signing_algorithm entry = ''ed25519'' \<and>
     pr_signing_public_key entry = encode_b64url (im_signing_public_key a) \<and>
     pr_signing_fingerprint entry = sha256_hex (im_signing_public_key a)"

lemma outbound_codec_encrypts:
  assumes "configured_envelope_payload_codec_mode e = Inr ENCRYPTED_CODEC_MODE" "encrypts_to entry b" "keys_raw b"
  shows "outbound_payload_codec_for_peer e entry =
    Inr (encrypted_codec_for_recipient (im_node_id b) (im_encryption_public_key b) (sha256_hex (im_encryption_public_key b)))"
proof -
  have "encode_b64url (im_encryption_public_key b) \<noteq> []"
    using assms(3) by (intro encode_b64url_neq_Nil) (auto simp: keys_raw_def)
  then show ?thesis
    using assms(1,2) by (simp add: outbound_payload_codec_for_peer_def encrypts_to_def decode_b64url_encode)
qed

lemma prepare_outbound_metadata:
  "ds_metadata ds = ds_metadata ds' \<Longrightarrow> prepare_outbound_storage_payload h ds t b = prepare_outbound_storage_payload h ds' t b"
  by (simp add: prepare_outbound_storage_payload_def read_sqlite_storage_mode_def read_sqlite_storage_mode_opt_def)

lemma queue_envelope_delivery:
  assumes laws: "cipher_law s r" "key_agreement_law s r b" "signature_law s r a" and raw: "keys_raw a" "keys_raw b"
    and t: "sendable t (im_node_id a)" and dst: "is_identifier Node (im_node_id b)"
    and now: "h_now (pe_host s) \<noteq> []" "utf8_ok (h_now (pe_host s))"
    and mode: "configured_envelope_payload_codec_mode s = Inr ENCRYPTED_CODEC_MODE" and entry: "encrypts_to entry b"
    and prepared: "prepare_outbound_storage_payload (pe_host s) ds t True = Inr u" and u: "tx_origin_node_id u = tx_origin_node_id t"
      "tx_signature u = tx_signature t" "tx_protocol_version u = tx_protocol_version t"
    and nodes: "t_has nd_node_id (im_node_id a) (ds_nodes ds)" "t_has nd_node_id (im_node_id b) (ds_nodes ds)"
    and logged: "t_has tr_transaction_id (tx_transaction_id t) (ds_transactions ds)"
  obtains v w g where
    "queue_envelope s a t (im_node_id a) (im_node_id b, entry) ds = Inr (ds\<lparr>
       ds_peer_groups := t_insert_ignore pg_peer_group_id \<lparr>pg_peer_group_id = g, pg_name = None\<rparr> (ds_peer_groups ds),
       ds_envelopes := queued (ce_envelope_id v) (tx_transaction_id t) (im_node_id a) (im_node_id b)
         (canonical_envelope_bytes v) (ds_envelopes ds)\<rparr>)"
    "parse_envelope_bytes (canonical_envelope_bytes v) = Inr w"
    "envelope_context w = context_for u (im_node_id b)"
    "map_of (ce_payload w) ''codec'' = Some (JObj (canon_obj (codec_metadata ENCRYPTED_ENVELOPE_PAYLOAD_CODEC)))"
    "verify_envelope_signature (pe_host r) w (im_node_id a) (im_signing_public_key a)
      (Some (sha256_hex (im_signing_public_key a))) = Inr ()"
    "codec_decode r (encrypted_codec_for_local (envelope_context w) (im_encryption_private_key b)
        (im_encryption_public_key b) (json_obj_opt (ce_encryption_metadata w))) (JObj (ce_payload w)) =
      Inr (canonical_json_bytes (transaction_payload u))"
    "envelope_id_for (tx_transaction_id t) (im_node_id b) = Inr (ce_envelope_id v)"
proof -
  have id: "tx_transaction_id u = tx_transaction_id t" by (rule prepare_transaction_id [OF prepared])
  have su: "sendable u (im_node_id a)" using t u id by (simp add: sendable_def)
  have na: "is_identifier Node (im_node_id a)" using t by (simp add: sendable_def)
  obtain v w where v: "rbind (build_transaction_envelope s u (im_node_id b)
        (encrypted_codec_for_recipient (im_node_id b) (im_encryption_public_key b) (sha256_hex (im_encryption_public_key b))))
      (\<lambda>x. sign_envelope s x (im_node_id a) (im_signing_private_key a) (im_signing_public_key a)) = Inr v"
    and w: "parse_envelope_bytes (canonical_envelope_bytes v) = Inr w" "envelope_context w = context_for u (im_node_id b)"
      "map_of (ce_payload w) ''codec'' = Some (JObj (canon_obj (codec_metadata ENCRYPTED_ENVELOPE_PAYLOAD_CODEC)))"
      "verify_envelope_signature (pe_host r) w (im_node_id a) (im_signing_public_key a)
        (Some (sha256_hex (im_signing_public_key a))) = Inr ()"
      "codec_decode r (encrypted_codec_for_local (envelope_context w) (im_encryption_private_key b)
          (im_encryption_public_key b) (json_obj_opt (ce_encryption_metadata w))) (JObj (ce_payload w)) =
        Inr (canonical_json_bytes (transaction_payload u))"
    by (rule envelope_delivery [OF laws raw su dst now disjI2 [OF refl]])
  obtain x where x: "build_transaction_envelope s u (im_node_id b)
      (encrypted_codec_for_recipient (im_node_id b) (im_encryption_public_key b) (sha256_hex (im_encryption_public_key b))) = Inr x"
    "sign_envelope s x (im_node_id a) (im_signing_private_key a) (im_signing_public_key a) = Inr v"
    using v by (rule rbind_InrE)
  obtain g where g: "local_peer_group_id_for_node (im_node_id a) = Inr g" "is_identifier Peer_group g"
    using local_peer_group_ok [OF na] by blast
  let ?ds1 = "ds\<lparr>ds_peer_groups := t_insert_ignore pg_peer_group_id \<lparr>pg_peer_group_id = g, pg_name = None\<rparr> (ds_peer_groups ds)\<rparr>"
  have ensured: "ensure_node ds (im_node_id a) g = Inr ?ds1"
    using nodes(1) by (cases ds)
      (simp add: ensure_node_def validate_identifier_ok [OF na] validate_identifier_ok [OF g(2)] t_insert_ignore_def blank_node_def)
  have prep: "prepare_outbound_storage_payload (pe_host s) ?ds1 t True = Inr u"
    using prepared prepare_outbound_metadata [of ?ds1 ds] by simp
  have cm: "co_mode (encrypted_codec_for_recipient n k f) = ENCRYPTED_CODEC_MODE" for n k f
    by (simp add: encrypted_codec_for_recipient_def ENCRYPTED_ENVELOPE_PAYLOAD_CODEC_def)
  have "queue_envelope s a t (im_node_id a) (im_node_id b, entry) ds =
      insert_envelope ?ds1 (envelope_queue_row (ce_envelope_id v) (tx_transaction_id t) (im_node_id a) (im_node_id b)
        (canonical_envelope_bytes v))"
    by (simp add: queue_envelope_def g(1) ensured outbound_codec_encrypts [OF mode entry raw(2)] cm prep x)
  also have "\<dots> = Inr (?ds1\<lparr>ds_envelopes := queued (ce_envelope_id v) (tx_transaction_id t) (im_node_id a) (im_node_id b)
      (canonical_envelope_bytes v) (ds_envelopes ds)\<rparr>)"
    using nodes logged by (simp add: insert_envelope_def queued_def envelope_queue_row_def)
  finally show thesis
    using build_envelope_id [OF x(1)] sign_envelope_id [OF x(2)] id by (intro that [OF _ w]) simp_all
qed

text \<open>A peer with its own identity row, an admitted peer, and a vocabulary transaction of its own.\<close>

definition example_member :: "nat \<Rightarrow> node_row" where
  "example_member n = example_node_row\<lparr>nd_node_id := format_identifier Node (of_nat n),
     nd_signing_public_key := Some (replicate 32 CHR ''a''), nd_signing_algorithm := Some ''ed25519'',
     nd_encryption_public_key := Some (replicate 32 CHR ''b''), nd_encryption_algorithm := Some ''x25519''\<rparr>"

definition example_change :: Transaction where
  "example_change = example_transaction ''vocabulary.tag.upsert'' [(''name'', JStr ''prod'')] 5"

definition example_network :: "nat \<Rightarrow> nat \<Rightarrow> datastore" where
  "example_network local peer = empty_datastore\<lparr>ds_metadata := [(''storage_mode'', ''encrypted'')],
     ds_nodes := [example_member local, example_member peer], ds_node_private := [format_identifier Node (of_nat local)]\<rparr>"

lemma example_network_entry:
  assumes "format_identifier Node (of_nat m) \<noteq> format_identifier Node (of_nat n)"
  obtains entry where
    "get_peer_registry_entry (example_network m n\<lparr>ds_transactions := l\<rparr>) (format_identifier Node (of_nat n)) = Inr (Some entry)"
    "pr_synchronization_eligible entry" "encrypts_to entry (example_identity n)" "signs_as entry (example_identity n)"
proof -
  let ?ds = "example_network m n\<lparr>ds_transactions := l\<rparr>" and ?n = "format_identifier Node (of_nat n)"
  obtain x y z where m: "endpoint_metadata ?ds ?n [] = (x, y, z)" using prod_cases3 by blast
  have get: "t_get nd_node_id ?n (ds_nodes ?ds) = Some (example_member n)"
    using assms by (simp add: example_network_def t_get_Cons example_member_def)
  have row: "nd_node_id (example_member n) = ?n" "nd_service_address (example_member n) = None"
    "nd_authorization_mode (example_member n) = ''none''" "nd_state (example_member n) = Some ''active''"
    "nd_encryption_public_key (example_member n) = Some (replicate 32 CHR ''b'')"
    "nd_signing_public_key (example_member n) = Some (replicate 32 CHR ''a'')"
    "nd_signing_algorithm (example_member n) = Some ''ed25519''" "nd_encryption_algorithm (example_member n) = Some ''x25519''"
    by (simp_all add: example_member_def example_node_row_def)
  obtain entry where e: "entry_from_row ?ds (example_member n) = Inr entry"
    using entry_from_row_total [of "example_member n" ?ds] row by auto
  then have "pr_synchronization_eligible entry" "encrypts_to entry (example_identity n)" "signs_as entry (example_identity n)"
    using m unfolding entry_from_row_def Let_def row or_empty_def
    by (auto simp: encrypts_to_def signs_as_def example_identity_def example_env_def bytes_or_empty_def fingerprint_def
        authorization_state_def admission_states simp del: replicate.simps(2) split: if_split_asm)
  moreover have "get_peer_registry_entry ?ds ?n = Inr (Some entry)"
    using get e assms by (simp add: get_peer_registry_entry_def example_network_def)
  ultimately show thesis by (rule that [rotated])
qed

lemma example_network_identity:
  assumes "format_identifier Node (of_nat m) \<noteq> format_identifier Node (of_nat n)"
  shows "load_sqlite_node_identity_material (example_env m) (example_network m n\<lparr>ds_transactions := l\<rparr>) = Inr (example_identity m)"
  using assms
  by (simp add: load_sqlite_node_identity_material_def validate_sqlite_node_identity_def load_identity_file_def
      require_projection_def load_local_node_projection_def example_network_def example_member_def example_node_row_def
      validate_distinct_keypairs_def validate_projection_matches_identity_def bytes_of_def str_of_def
      example_identity_def example_env_def)

lemma example_change_outbound:
  "sendable example_change (im_node_id (example_identity 1))" "service_group_scope_id example_change = Inr None"
  "configured_envelope_payload_codec_mode (example_env n) = Inr ENCRYPTED_CODEC_MODE"
  "prepare_outbound_storage_payload h ds example_change True = Inr example_change"
proof -
  note One_nat_def [simp del]
  show "sendable example_change (im_node_id (example_identity 1))"
    by (simp add: sendable_def example_change_def example_transaction_def example_channel(5))
  show "service_group_scope_id example_change = Inr None"
    by (simp add: service_group_scope_id_def transaction_scope_def example_change_def example_transaction_def
        SERVICE_GROUP_SCOPED_TRANSACTION_TYPES_def CONTROL_TRANSACTION_TYPES_def starts_with_def
        reject_unexpected_service_group_id_def dict_has_def)
  show "configured_envelope_payload_codec_mode (example_env n) = Inr ENCRYPTED_CODEC_MODE"
    by (simp add: configured_envelope_payload_codec_mode_def example_env_def ENCRYPTED_CODEC_MODE_def PLAINTEXT_CODEC_MODE_def)
  show "prepare_outbound_storage_payload h ds example_change True = Inr example_change"
    by (simp add: prepare_outbound_storage_payload_def example_change_def example_transaction_def)
qed

lemma example_change_logged:
  obtains row where "insert_transaction (example_network 1 2) example_change = Inr (example_network 1 2\<lparr>ds_transactions := [row]\<rparr>)"
    "tr_transaction_id row = tx_transaction_id example_change"
    "t_has nd_node_id (im_node_id (example_identity 1)) (ds_nodes (example_network 1 2\<lparr>ds_transactions := [row]\<rparr>))"
    "t_has nd_node_id (im_node_id (example_identity 2)) (ds_nodes (example_network 1 2\<lparr>ds_transactions := [row]\<rparr>))"
    "t_has tr_transaction_id (tx_transaction_id example_change) (ds_transactions (example_network 1 2\<lparr>ds_transactions := [row]\<rparr>))"
proof -
  note One_nat_def [simp del]
  have "\<exists>row. insert_transaction (example_network 1 2) example_change = Inr (example_network 1 2\<lparr>ds_transactions := [row]\<rparr>)
      \<and> tr_transaction_id row = tx_transaction_id example_change"
    unfolding example_change_def
    by (subst example_transaction_insert)
      (simp_all add: example_network_def empty_datastore_def example_member_def transaction_to_row_def)
  then obtain row where row: "insert_transaction (example_network 1 2) example_change =
      Inr (example_network 1 2\<lparr>ds_transactions := [row]\<rparr>)" "tr_transaction_id row = tx_transaction_id example_change" by blast
  then show thesis
    by (rule that) (simp_all add: row(2) example_channel(5) example_network_def example_member_def t_has_simps)
qed

theorem outbound_queue_authorised_witness:
  "\<exists>row ds' i. insert_transaction (example_network 1 2) example_change = Inr (example_network 1 2\<lparr>ds_transactions := [row]\<rparr>) \<and>
    persist_outbound_envelopes (example_env 1) (example_network 1 2\<lparr>ds_transactions := [row]\<rparr>) example_change
      [format_identifier Node 2] = Inr ds' \<and>
    envelope_id_for (tx_transaction_id example_change) (format_identifier Node 2) = Inr i \<and>
    t_has ev_envelope_id i (ds_envelopes ds')"
proof -
  note One_nat_def [simp del]
  obtain row where row: "insert_transaction (example_network 1 2) example_change =
      Inr (example_network 1 2\<lparr>ds_transactions := [row]\<rparr>)" "tr_transaction_id row = tx_transaction_id example_change"
    and has: "t_has nd_node_id (im_node_id (example_identity 1)) (ds_nodes (example_network 1 2\<lparr>ds_transactions := [row]\<rparr>))"
    "t_has nd_node_id (im_node_id (example_identity 2)) (ds_nodes (example_network 1 2\<lparr>ds_transactions := [row]\<rparr>))"
    "t_has tr_transaction_id (tx_transaction_id example_change) (ds_transactions (example_network 1 2\<lparr>ds_transactions := [row]\<rparr>))"
    by (rule example_change_logged)
  let ?ds = "example_network 1 2\<lparr>ds_transactions := [row]\<rparr>"
  let ?a = "example_identity 1" and ?b = "example_identity 2" and ?n = "format_identifier Node 2"
  have ne: "format_identifier Node (of_nat 1) \<noteq> format_identifier Node (of_nat 2)" by (simp add: format_identifier_inject)
  obtain entry where "get_peer_registry_entry ?ds (format_identifier Node (of_nat 2)) = Inr (Some entry)"
    "pr_synchronization_eligible entry" "encrypts_to entry ?b" by (rule example_network_entry [OF ne])
  then have entry: "get_peer_registry_entry ?ds ?n = Inr (Some entry)" "pr_synchronization_eligible entry" "encrypts_to entry ?b"
    by simp_all
  note sg = example_change_outbound(2)
  have el: "is_peer_synchronization_eligible ?ds ?n None = Inr True"
    using entry(1,2) by (simp add: is_peer_synchronization_eligible_def)
  have xs: "eligible_peer_entries ?ds [?n] None = Inr [(?n, entry)]"
    by (simp add: eligible_peer_entries_def eligible_peer_entry_def el entry(1))
  have node: "im_node_id ?b = ?n" "im_node_id ?a = format_identifier Node 1" by (simp_all add: example_channel(5))
  have "is_identifier Node (im_node_id ?b)" by (simp add: node(1))
  from queue_envelope_delivery [OF example_channel(1-3) example_channel(4) example_channel(4) example_change_outbound(1) this
      example_sent_ok(3,4) example_change_outbound(3) entry(3) example_change_outbound(4) refl refl refl has]
  obtain ds' where ds': "queue_envelope (example_env 1) ?a example_change (im_node_id ?a) (im_node_id ?b, entry) ?ds = Inr ds'"
    by blast
  then have p: "persist_outbound_envelopes (example_env 1) ?ds example_change [?n] = Inr ds'"
    using node(1) by (simp add: persist_outbound_envelopes_def sg xs example_network_identity [OF ne])
      (simp add: example_change_def example_transaction_def node)
  have identity: "pe_identity (example_env 1) = Some ?a" by (simp add: example_identity_def example_env_def)
  have origin: "tx_origin_node_id example_change = Some (im_node_id ?a)"
    by (simp add: example_change_def example_transaction_def node)
  from outbound_queue_authorised [OF p] sg identity origin el
  obtain i where "envelope_id_for (tx_transaction_id example_change) ?n = Inr i" "t_has ev_envelope_id i (ds_envelopes ds')"
    by auto
  with row(1) p show ?thesis by blast
qed

end
