(* ===== verification/Kit_Engine.thy ===== *)
theory Kit_Engine
  imports Kit_Outbound
begin

section \<open>The transaction engine: submission, support rows and replay\<close>

text \<open>
  \<open>replay_support.py\<close>, \<open>transaction_apply.py\<close>, \<open>transaction_engine.py\<close> and \<open>replay.py\<close>: every change of the
  datastore is a transaction that one pipeline validates, authenticates, logs, applies to the
  projections, marks and queues for the peers, under one of four policies. Replay deletes the
  projections and submits the log again.
\<close>

subsection \<open>Support rows (\<open>replay_support.py\<close>)\<close>

record replay_support =
  rs_origin_node_ids :: "string list"
  rs_owner_ids :: "string list"
  rs_service_groups :: "(string \<times> string) list"
  rs_clients :: "(string \<times> string) list"
  rs_principal_clients :: "(string \<times> string) list"

definition no_support :: replay_support where
  "no_support = \<lparr>rs_origin_node_ids = [], rs_owner_ids = [], rs_service_groups = [], rs_clients = [],
     rs_principal_clients = []\<rparr>"

text \<open>\<open>dict.setdefault\<close>: the value of the key afterwards, and the dictionary.\<close>

definition setdefault :: "'k \<Rightarrow> 'v \<Rightarrow> ('k \<times> 'v) list \<Rightarrow> 'v \<times> ('k \<times> 'v) list" where
  "setdefault k v d = (case map_of d k of Some w \<Rightarrow> (w, d) | None \<Rightarrow> (v, d @ [(k, v)]))"

definition payload_text :: "json_obj \<Rightarrow> string \<Rightarrow> string option res" where
  "payload_text p field =
     (case map_of p field of
        None \<Rightarrow> Inr None
      | Some JNull \<Rightarrow> Inr None
      | Some (JStr s) \<Rightarrow> if s = [] then Inl (SQLiteValidationError (field @ '' must be a non-empty string'')) else Inr (Some s)
      | Some _ \<Rightarrow> Inl (SQLiteValidationError (field @ '' must be a non-empty string'')))"

definition rs_validate_identifier :: "string \<Rightarrow> IdentifierType \<Rightarrow> string \<Rightarrow> unit res" where
  "rs_validate_identifier v ty field = rbind (rmap_error sqlite_validation (validate_identifier v ty field)) (\<lambda>_. Inr ())"

definition support_origin :: "Transaction \<Rightarrow> replay_support \<Rightarrow> replay_support res" where
  "support_origin t s =
     (if \<not> truthy (tx_origin_node_id t) then Inr s
      else let n = the (tx_origin_node_id t) in
        rbind (rs_validate_identifier n Node ''origin_node_id'') (\<lambda>_.
          Inr (s\<lparr>rs_origin_node_ids := List.insert n (rs_origin_node_ids s)\<rparr>)))"

definition support_owner :: "Transaction \<Rightarrow> replay_support \<Rightarrow> replay_support res" where
  "support_owner t s =
     (if \<not> truthy (tx_owner_id t) then Inr s
      else let n = the (tx_owner_id t) in
        rbind (rs_validate_identifier n Owner ''owner_id'') (\<lambda>_.
          Inr (s\<lparr>rs_owner_ids := List.insert n (rs_owner_ids s)\<rparr>)))"

definition support_scope :: "Transaction \<Rightarrow> replay_support \<Rightarrow> replay_support res" where
  "support_scope t s =
     (case (tx_organization_id t, tx_client_id t) of
        (None, None) \<Rightarrow> Inr s
      | (Some organization, Some client) \<Rightarrow>
          rbind (rs_validate_identifier organization Organization ''organization_id'') (\<lambda>_.
          rbind (rs_validate_identifier client Client ''client_id'') (\<lambda>_.
            let (prior_organization, clients) = setdefault client organization (rs_clients s) in
            if prior_organization \<noteq> organization
            then Inl (SQLiteValidationError ''transaction client maps to multiple organizations'')
            else if \<not> truthy (tx_owner_id t) then Inr (s\<lparr>rs_clients := clients\<rparr>)
            else
              let (prior_client, principals) = setdefault (the (tx_owner_id t)) client (rs_principal_clients s) in
              if prior_client \<noteq> client
              then Inl (SQLiteValidationError ''transaction principal maps to multiple clients'')
              else Inr (s\<lparr>rs_clients := clients, rs_principal_clients := principals\<rparr>)))
      | _ \<Rightarrow> Inl (SQLiteValidationError ''transaction organization and client scope must be paired''))"

definition support_groups :: "Transaction \<Rightarrow> replay_support \<Rightarrow> replay_support res" where
  "support_groups t s =
     (if tx_transaction_type t \<notin> {''secret.set'', ''secret.delete''} then Inr s
      else
        rbind (payload_text (tx_payload t) ''owner_id'') (\<lambda>owner.
        rbind (payload_text (tx_payload t) ''service_group_id'') (\<lambda>service_group.
          case (owner, service_group) of
            (Some owner_id, Some service_group_id) \<Rightarrow>
              rbind (rs_validate_identifier owner_id Owner ''owner_id'') (\<lambda>_.
              rbind (rs_validate_identifier service_group_id Service_group ''service_group_id'') (\<lambda>_.
                let (existing_owner_id, groups) = setdefault service_group_id owner_id (rs_service_groups s) in
                if existing_owner_id \<noteq> owner_id
                then Inl (SQLiteValidationError
                  (''service_group_id maps to multiple owners during replay: '' @ service_group_id))
                else Inr (s\<lparr>rs_owner_ids := List.insert owner_id (rs_owner_ids s), rs_service_groups := groups\<rparr>)))
          | _ \<Rightarrow> Inr s)))"

definition support_row :: "Transaction \<Rightarrow> replay_support \<Rightarrow> replay_support res" where
  "support_row t s =
     rbind (support_origin t s) (\<lambda>s1.
     rbind (support_owner t s1) (\<lambda>s2.
     rbind (support_scope t s2) (\<lambda>s3. support_groups t s3)))"

definition replay_support_rows :: "Transaction list \<Rightarrow> replay_support res" where
  "replay_support_rows transactions = rfold support_row transactions no_support"

text \<open>
  \<open>INSERT OR IGNORE\<close> for each table. The parents of a row are inserted before it, so no reference can
  be missing.
\<close>

definition support_client :: "string \<times> string \<Rightarrow> datastore \<Rightarrow> datastore" where
  "support_client co ds =
     (case co of (client, organization) \<Rightarrow>
        ds\<lparr>ds_organizations := t_insert_ignore id organization (ds_organizations ds),
           ds_clients := t_insert_ignore cl_client_id
             \<lparr>cl_client_id = client, cl_organization_id = organization\<rparr> (ds_clients ds)\<rparr>)"

definition support_owner_row :: "(string \<times> string) list \<Rightarrow> string \<Rightarrow> datastore \<Rightarrow> datastore" where
  "support_owner_row principals owner ds =
     ds\<lparr>ds_owners := t_insert_ignore ow_owner_id
          \<lparr>ow_owner_id = owner,
           ow_client_id = (case map_of principals owner of Some c \<Rightarrow> c | None \<Rightarrow> LOCAL_CLIENT_ID)\<rparr> (ds_owners ds)\<rparr>"

definition placeholder_node :: "string \<Rightarrow> string \<Rightarrow> node_row" where
  "placeholder_node node_id peer_group_id =
     (blank_node node_id peer_group_id)\<lparr>nd_signing_public_key := Some zero_key, nd_signing_algorithm := Some ''ed25519'',
       nd_encryption_public_key := Some zero_key, nd_encryption_algorithm := Some ''x25519'',
       nd_state := Some ''active'', nd_operator_comment := Some REPLAY_SUPPORT_COMMENT\<rparr>"

definition support_node :: "string \<Rightarrow> datastore \<Rightarrow> datastore res" where
  "support_node node_id ds =
     rbind (local_peer_group_id_for_node node_id) (\<lambda>peer_group_id.
     rbind (local_peer_group_display_name peer_group_id) (\<lambda>name.
       Inr (ds\<lparr>ds_peer_groups := t_insert_ignore pg_peer_group_id
                 \<lparr>pg_peer_group_id = peer_group_id, pg_name = Some name\<rparr> (ds_peer_groups ds),
               ds_nodes := t_insert_ignore nd_node_id (placeholder_node node_id peer_group_id) (ds_nodes ds)\<rparr>)))"

definition support_service_group :: "string \<times> string \<Rightarrow> datastore \<Rightarrow> datastore" where
  "support_service_group go ds =
     (case go of (service_group, owner) \<Rightarrow>
        ds\<lparr>ds_service_groups := t_insert_ignore sg_service_group_id
             \<lparr>sg_service_group_id = service_group, sg_owner_id = Some owner\<rparr> (ds_service_groups ds)\<rparr>)"

definition bootstrap_replay_support_rows :: "datastore \<Rightarrow> Transaction list \<Rightarrow> datastore res" where
  "bootstrap_replay_support_rows ds transactions =
     rbind (replay_support_rows transactions) (\<lambda>s.
       if rs_origin_node_ids s = [] \<and> rs_owner_ids s = [] \<and> rs_service_groups s = [] then Inr ds
       else
         let ds1 = fold support_client ((LOCAL_CLIENT_ID, LOCAL_ORGANIZATION_ID) # sort_key fst (rs_clients s)) ds;
             ds2 = fold (support_owner_row (rs_principal_clients s)) (sort (rs_owner_ids s)) ds1 in
         rbind (rfold support_node (sort (rs_origin_node_ids s)) ds2) (\<lambda>ds3.
           Inr (fold support_service_group (sort_key fst (rs_service_groups s)) ds3)))"

subsection \<open>Application (\<open>transaction_apply.py\<close>)\<close>

definition apply_transaction :: "host \<Rightarrow> datastore \<Rightarrow> Transaction \<Rightarrow> datastore res" where
  "apply_transaction h ds t =
     (let ty = tx_transaction_type t in
      if ty = ''vocabulary.entry_type.upsert'' then apply_vocabulary_entry_type_upsert ds t
      else if ty = ''vocabulary.entry_kind.upsert'' then apply_vocabulary_entry_kind_upsert ds t
      else if ty = ''vocabulary.tag.upsert'' then apply_vocabulary_tag_upsert ds t
      else if ty = ''secret.set'' then apply_secret_set_projection h ds t
      else if ty = ''secret.delete'' then apply_secret_delete_projection h ds t
      else if ty = ''peer.admission.request'' then apply_peer_admission_request h ds t
      else if ty = ''peer.admission.accept'' then apply_peer_admission_accept ds t
      else if ty = ''peer.admission.reject'' then apply_peer_admission_reject ds t
      else if ty = ''peer.admission.revoke'' then apply_peer_admission_revoke ds t
      else if starts_with ''peer.endpoint.'' ty then apply_peer_endpoint_transaction ds t
      else Inl (SQLiteValidationError (''unsupported replay transaction type: '' @ ty)))"

subsection \<open>Submission (\<open>transaction_engine.py\<close>)\<close>

datatype TransactionSubmissionMode = LOCAL | REMOTE | RESTORE | REPLAY

record TransactionSubmissionPolicy =
  po_mode :: TransactionSubmissionMode
  po_persist_transaction :: bool
  po_apply_projection :: bool
  po_mark_applied :: bool
  po_generate_outbound_envelopes :: bool
  po_bootstrap_support_rows :: bool
  po_ignore_duplicate :: bool

record TransactionSubmissionResult =
  su_transaction_id :: string
  su_mode :: TransactionSubmissionMode
  su_persisted :: bool
  su_applied :: bool
  su_duplicate :: bool
  su_outbound_envelopes_requested :: bool

definition LOCAL_TRANSACTION_POLICY :: TransactionSubmissionPolicy where
  "LOCAL_TRANSACTION_POLICY = \<lparr>po_mode = LOCAL, po_persist_transaction = True, po_apply_projection = True,
     po_mark_applied = True, po_generate_outbound_envelopes = True, po_bootstrap_support_rows = False,
     po_ignore_duplicate = False\<rparr>"

definition REMOTE_TRANSACTION_POLICY :: TransactionSubmissionPolicy where
  "REMOTE_TRANSACTION_POLICY = \<lparr>po_mode = REMOTE, po_persist_transaction = True, po_apply_projection = True,
     po_mark_applied = True, po_generate_outbound_envelopes = True, po_bootstrap_support_rows = True,
     po_ignore_duplicate = True\<rparr>"

definition REPLAY_TRANSACTION_POLICY :: TransactionSubmissionPolicy where
  "REPLAY_TRANSACTION_POLICY = \<lparr>po_mode = REPLAY, po_persist_transaction = False, po_apply_projection = True,
     po_mark_applied = False, po_generate_outbound_envelopes = False, po_bootstrap_support_rows = False,
     po_ignore_duplicate = False\<rparr>"

definition RESTORE_TRANSACTION_POLICY :: TransactionSubmissionPolicy where
  "RESTORE_TRANSACTION_POLICY = \<lparr>po_mode = RESTORE, po_persist_transaction = True, po_apply_projection = True,
     po_mark_applied = True, po_generate_outbound_envelopes = False, po_bootstrap_support_rows = True,
     po_ignore_duplicate = False\<rparr>"

definition validate_authenticated_transaction :: "host \<Rightarrow> datastore \<Rightarrow> Transaction \<Rightarrow> unit res" where
  "validate_authenticated_transaction h ds t =
     (if starts_with ''peer.admission.'' (tx_transaction_type t) then verify_peer_admission_transaction h ds t
      else if starts_with ''peer.endpoint.'' (tx_transaction_type t) then verify_peer_endpoint_transaction ds t
      else Inr ())"

definition validate_duplicate_payload_matches :: "datastore \<Rightarrow> Transaction \<Rightarrow> unit res" where
  "validate_duplicate_payload_matches ds t =
     rbind (get_transaction ds (tx_transaction_id t)) (\<lambda>existing.
       rguard (tx_payload_hash existing = tx_payload_hash t)
         (SQLiteValidationError (''duplicate transaction_id has different payload: '' @ tx_transaction_id t)))"

definition duplicate_result :: "Transaction \<Rightarrow> TransactionSubmissionPolicy \<Rightarrow> TransactionSubmissionResult" where
  "duplicate_result t policy =
     \<lparr>su_transaction_id = tx_transaction_id t, su_mode = po_mode policy, su_persisted = False, su_applied = False,
      su_duplicate = True, su_outbound_envelopes_requested = False\<rparr>"

text \<open>The rest of the pipeline, once the transaction is logged or need not be.\<close>

definition complete_submission ::
  "peer_env \<Rightarrow> datastore \<Rightarrow> Transaction \<Rightarrow> TransactionSubmissionPolicy \<Rightarrow> (TransactionSubmissionResult \<times> datastore) res" where
  "complete_submission e ds t policy =
     rbind (if po_apply_projection policy then apply_transaction (pe_host e) ds t else Inr ds) (\<lambda>ds1.
     rbind (if po_mark_applied policy then mark_transaction_applied (h_now (pe_host e)) ds1 (tx_transaction_id t)
            else Inr ds1) (\<lambda>ds2.
     rbind (if po_generate_outbound_envelopes policy then persist_outbound_envelopes_for_configured_peers e ds2 t
            else Inr ds2) (\<lambda>ds3.
       Inr (\<lparr>su_transaction_id = tx_transaction_id t, su_mode = po_mode policy,
             su_persisted = po_persist_transaction policy, su_applied = po_apply_projection policy,
             su_duplicate = False, su_outbound_envelopes_requested = po_generate_outbound_envelopes policy\<rparr>, ds3))))"

definition submit_transaction ::
  "peer_env \<Rightarrow> datastore \<Rightarrow> Transaction \<Rightarrow> TransactionSubmissionPolicy \<Rightarrow> (TransactionSubmissionResult \<times> datastore) res" where
  "submit_transaction e ds t policy =
     rbind (validate_transaction t) (\<lambda>_.
     rbind (validate_authenticated_transaction (pe_host e) ds t) (\<lambda>_.
     rbind (if po_bootstrap_support_rows policy then bootstrap_replay_support_rows ds [t] else Inr ds) (\<lambda>ds1.
       if \<not> po_persist_transaction policy then complete_submission e ds1 t policy
       else if po_ignore_duplicate policy \<and> transaction_exists ds1 (tx_transaction_id t)
       then rbind (validate_duplicate_payload_matches ds1 t) (\<lambda>_. Inr (duplicate_result t policy, ds1))
       else
         (case insert_transaction ds1 t of
            Inr ds2 \<Rightarrow> complete_submission e ds2 t policy
          | Inl (DuplicateTransactionError m) \<Rightarrow>
              if \<not> po_ignore_duplicate policy then Inl (DuplicateTransactionError m)
              else rbind (validate_duplicate_payload_matches ds1 t) (\<lambda>_. Inr (duplicate_result t policy, ds1))
          | Inl x \<Rightarrow> Inl x))))"

subsection \<open>Replay (\<open>replay.py\<close>)\<close>

definition SUPPORTED_REPLAY_TRANSACTION_TYPES :: "string list" where
  "SUPPORTED_REPLAY_TRANSACTION_TYPES =
     [''secret.set'', ''secret.delete'', ''vocabulary.entry_type.upsert'', ''vocabulary.entry_kind.upsert'',
      ''vocabulary.tag.upsert'', ''peer.admission.request'', ''peer.admission.accept'', ''peer.admission.reject'',
      ''peer.admission.revoke'', ''peer.endpoint.register'', ''peer.endpoint.update'', ''peer.endpoint.replace'',
      ''peer.endpoint.expire'', ''peer.endpoint.remove'']"

definition replay_transactions :: "datastore \<Rightarrow> Transaction list res" where
  "replay_transactions ds =
     rmapM (\<lambda>r. get_transaction ds (tr_transaction_id r))
       (filter (\<lambda>r. tr_state r \<in> {''pending'', ''applied'', ''replayed''}) (ds_transactions ds))"

text \<open>Deleting the secrets deletes their tags, domains and metadata (\<open>ON DELETE CASCADE\<close>).\<close>

definition delete_projections :: "datastore \<Rightarrow> datastore" where
  "delete_projections ds =
     ds\<lparr>ds_secrets := [], ds_tag_assignments := [], ds_domains := [], ds_custom := [], ds_peer_endpoints := []\<rparr>"

definition rebuild_secret_projections :: "peer_env \<Rightarrow> datastore \<Rightarrow> datastore res" where
  "rebuild_secret_projections e ds =
     (let ds1 = delete_projections ds in
      rbind (replay_transactions ds1) (\<lambda>transactions.
      rbind (bootstrap_replay_support_rows ds1 transactions) (\<lambda>ds2.
        rfold (\<lambda>t d. rbind (submit_transaction e d t REPLAY_TRANSACTION_POLICY) (\<lambda>r. Inr (snd r))) transactions ds2)))"

subsection \<open>What each stage leaves alone\<close>

text \<open>Support rows are only added, to the tables of the hierarchy and the nodes.\<close>

definition support_extends :: "datastore \<Rightarrow> datastore \<Rightarrow> bool" where
  "support_extends ds ds' \<longleftrightarrow>
     ds' = ds\<lparr>ds_organizations := ds_organizations ds', ds_clients := ds_clients ds', ds_owners := ds_owners ds',
       ds_peer_groups := ds_peer_groups ds', ds_nodes := ds_nodes ds', ds_service_groups := ds_service_groups ds'\<rparr> \<and>
     prefix (ds_organizations ds) (ds_organizations ds') \<and> prefix (ds_clients ds) (ds_clients ds') \<and>
     prefix (ds_owners ds) (ds_owners ds') \<and> prefix (ds_peer_groups ds) (ds_peer_groups ds') \<and>
     prefix (ds_nodes ds) (ds_nodes ds') \<and> prefix (ds_service_groups ds) (ds_service_groups ds')"

lemma prefix_insert_ignore: "prefix t (t_insert_ignore key r t)"
  by (simp add: t_insert_ignore_def)

lemma support_extends_refl: "support_extends ds ds"
  by (simp add: support_extends_def)

lemma support_extends_trans:
  assumes "support_extends a b" "support_extends b c"
  shows "support_extends a c"
  unfolding support_extends_def
proof (intro conjI)
  note s = assms [unfolded support_extends_def]
  show "c = a\<lparr>ds_organizations := ds_organizations c, ds_clients := ds_clients c, ds_owners := ds_owners c,
      ds_peer_groups := ds_peer_groups c, ds_nodes := ds_nodes c, ds_service_groups := ds_service_groups c\<rparr>"
    using s by (cases a, cases b, cases c) simp
qed (use assms in \<open>auto simp: support_extends_def intro: prefix_order.trans\<close>)

lemma support_extends_steps:
  "support_extends ds (support_client co ds)" "support_extends ds (support_owner_row p owner ds)"
  "support_extends ds (support_service_group go ds)"
  "support_node n ds = Inr ds' \<Longrightarrow> support_extends ds ds'"
  by (auto simp: support_extends_def support_client_def support_owner_row_def support_service_group_def support_node_def
      rbind_Inr_iff prefix_insert_ignore split: prod.split)

lemma support_extends_fold:
  assumes "\<And>x d. support_extends d (f x d)"
  shows "support_extends ds (fold f xs ds)"
  by (induction xs arbitrary: ds) (auto intro: support_extends_refl support_extends_trans assms)

lemma bootstrap_extends:
  assumes "bootstrap_replay_support_rows ds ts = Inr ds'"
  shows "support_extends ds ds'"
proof -
  from assms obtain s where s: "replay_support_rows ts = Inr s"
    and r: "(if rs_origin_node_ids s = [] \<and> rs_owner_ids s = [] \<and> rs_service_groups s = [] then Inr ds
       else rbind (rfold support_node (sort (rs_origin_node_ids s))
           (fold (support_owner_row (rs_principal_clients s)) (sort (rs_owner_ids s))
             (fold support_client ((LOCAL_CLIENT_ID, LOCAL_ORGANIZATION_ID) # sort_key fst (rs_clients s)) ds))) (\<lambda>ds3.
           Inr (fold support_service_group (sort_key fst (rs_service_groups s)) ds3))) = Inr ds'"
    unfolding bootstrap_replay_support_rows_def Let_def by (rule rbind_InrE)
  show ?thesis
  proof (cases "rs_origin_node_ids s = [] \<and> rs_owner_ids s = [] \<and> rs_service_groups s = []")
    case True
    with r show ?thesis by (simp add: support_extends_refl)
  next
    case False
    let ?ds2 = "fold (support_owner_row (rs_principal_clients s)) (sort (rs_owner_ids s))
        (fold support_client ((LOCAL_CLIENT_ID, LOCAL_ORGANIZATION_ID) # sort_key fst (rs_clients s)) ds)"
    from False r obtain ds3 where ds3: "rfold support_node (sort (rs_origin_node_ids s)) ?ds2 = Inr ds3"
      "ds' = fold support_service_group (sort_key fst (rs_service_groups s)) ds3"
      unfolding if_not_P [OF False] by (auto elim: rbind_InrE)
    have "support_extends ds ?ds2"
      by (rule support_extends_trans) (rule support_extends_fold, rule support_extends_steps)+
    moreover have "support_extends ?ds2 ds3"
      using ds3(1) support_extends_refl
      by (rule rfold_invariant) (blast intro: support_extends_trans support_extends_steps(4))
    moreover have "support_extends ds3 ds'"
      unfolding ds3(2) by (rule support_extends_fold, rule support_extends_steps)
    ultimately show ?thesis by (blast intro: support_extends_trans)
  qed
qed

lemma authorization_groups:
  "apply_service_group_authorization n at gs ds = Inr ds' \<Longrightarrow> t_has sg_service_group_id k (ds_service_groups ds) \<Longrightarrow>
    t_has sg_service_group_id k (ds_service_groups ds')"
  by (induction gs arbitrary: ds) (auto simp: rbind_Inr_iff Let_def split: if_split_asm)

lemma decision_groups:
  assumes "apply_peer_admission_decision ds t target field um am = Inr ds'" "t_has sg_service_group_id k (ds_service_groups ds)"
  shows "t_has sg_service_group_id k (ds_service_groups ds')"
proof -
  from assms(1) obtain f n at ids where
    "(if target = ADMISSION_STATE_ACTIVE
      then apply_service_group_authorization n at ids (ds\<lparr>ds_nodes := f\<rparr>) else Inr (ds\<lparr>ds_nodes := f\<rparr>)) = Inr ds'"
    unfolding apply_peer_admission_decision_def Let_def
    by (elim rbind_InrE) (auto split: if_split_asm elim!: rbind_InrE)
  then show ?thesis using assms(2) by (auto split: if_split_asm dest: authorization_groups)
qed

text \<open>The peer transactions write the tables of the peers and the queue only.\<close>

definition peer_frame :: "datastore \<Rightarrow> datastore \<Rightarrow> bool" where
  "peer_frame ds ds' \<longleftrightarrow>
     ds' = ds\<lparr>ds_peer_groups := ds_peer_groups ds', ds_service_groups := ds_service_groups ds',
       ds_service_group_nodes := ds_service_group_nodes ds', ds_nodes := ds_nodes ds',
       ds_peer_endpoints := ds_peer_endpoints ds', ds_envelopes := ds_envelopes ds'\<rparr> \<and>
     (\<forall>k. t_has sg_service_group_id k (ds_service_groups ds) \<longrightarrow> t_has sg_service_group_id k (ds_service_groups ds'))"

lemma peer_frameI:
  assumes "ds' = ds\<lparr>ds_peer_groups := a, ds_service_groups := b, ds_service_group_nodes := c, ds_nodes := d,
      ds_peer_endpoints := f, ds_envelopes := g\<rparr>"
    and "\<And>k. t_has sg_service_group_id k (ds_service_groups ds) \<Longrightarrow> t_has sg_service_group_id k b"
  shows "peer_frame ds ds'"
  using assms by (simp add: peer_frame_def)

lemma decision_frame:
  assumes "apply_peer_admission_decision ds t target field um am = Inr ds'"
  shows "peer_frame ds ds'"
proof -
  have "ds' = ds\<lparr>ds_nodes := ds_nodes ds', ds_service_groups := ds_service_groups ds',
      ds_service_group_nodes := ds_service_group_nodes ds'\<rparr>" using assms by (rule decision_effect)
  then have "ds' = ds\<lparr>ds_peer_groups := ds_peer_groups ds, ds_service_groups := ds_service_groups ds',
      ds_service_group_nodes := ds_service_group_nodes ds', ds_nodes := ds_nodes ds',
      ds_peer_endpoints := ds_peer_endpoints ds, ds_envelopes := ds_envelopes ds\<rparr>" by (cases ds, cases ds') simp
  then show ?thesis by (rule peer_frameI) (rule decision_groups [OF assms])
qed

lemma peer_step_frame:
  assumes "peer_step h ds ds'"
  shows "peer_frame ds ds'"
  using assms
proof cases
  case (request t)
  then have "ds' = ds\<lparr>ds_nodes := ds_nodes ds', ds_peer_groups := ds_peer_groups ds'\<rparr>" by (rule request_effect)
  then have "ds' = ds\<lparr>ds_peer_groups := ds_peer_groups ds', ds_service_groups := ds_service_groups ds,
      ds_service_group_nodes := ds_service_group_nodes ds, ds_nodes := ds_nodes ds',
      ds_peer_endpoints := ds_peer_endpoints ds, ds_envelopes := ds_envelopes ds\<rparr>" by (cases ds, cases ds') simp
  then show ?thesis by (rule peer_frameI)
next
  case (accept t)
  then show ?thesis unfolding apply_peer_admission_accept_def by (rule decision_frame)
next
  case (reject t)
  then show ?thesis unfolding apply_peer_admission_reject_def by (rule decision_frame)
next
  case (revoke t)
  then have "ds' = ds\<lparr>ds_nodes := ds_nodes ds', ds_envelopes := ds_envelopes ds'\<rparr>" by (rule revoke_effect)
  then have "ds' = ds\<lparr>ds_peer_groups := ds_peer_groups ds, ds_service_groups := ds_service_groups ds,
      ds_service_group_nodes := ds_service_group_nodes ds, ds_nodes := ds_nodes ds',
      ds_peer_endpoints := ds_peer_endpoints ds, ds_envelopes := ds_envelopes ds'\<rparr>" by (cases ds, cases ds') simp
  then show ?thesis by (rule peer_frameI)
next
  case (endpoint t)
  then obtain n e ds1 where "ds1 = ds\<lparr>ds_peer_endpoints := ds_peer_endpoints ds1\<rparr>"
    "ds' = refresh_service_address ds1 n (tx_created_at t)" by (rule endpoint_transaction_effect)
  then have "ds' = ds\<lparr>ds_peer_groups := ds_peer_groups ds, ds_service_groups := ds_service_groups ds,
      ds_service_group_nodes := ds_service_group_nodes ds, ds_nodes := ds_nodes ds',
      ds_peer_endpoints := ds_peer_endpoints ds', ds_envelopes := ds_envelopes ds\<rparr>"
    by (cases ds, cases ds1) (simp add: refresh_service_address_def)
  then show ?thesis by (rule peer_frameI)
qed

lemma apply_transaction_cases:
  assumes "apply_transaction h ds t = Inr ds'"
  obtains (vocabulary) "apply_vocabulary_entry_type_upsert ds t = Inr ds' \<or> apply_vocabulary_entry_kind_upsert ds t = Inr ds'"
  | (tag) "apply_vocabulary_tag_upsert ds t = Inr ds'"
  | (secret) "apply_secret_set_projection h ds t = Inr ds' \<or> apply_secret_delete_projection h ds t = Inr ds'"
  | (peer) "peer_step h ds ds'"
  using assms unfolding apply_transaction_def Let_def
  by (simp split: if_split_asm) (auto intro: peer_step.intros)

lemma vocabulary_frame:
  "apply_vocabulary_entry_type_upsert ds t = Inr ds' \<Longrightarrow> \<exists>x. ds' = ds\<lparr>ds_entry_types := x\<rparr>"
  "apply_vocabulary_entry_kind_upsert ds t = Inr ds' \<Longrightarrow> \<exists>x. ds' = ds\<lparr>ds_entry_kinds := x\<rparr>"
  "apply_vocabulary_tag_upsert ds t = Inr ds' \<Longrightarrow> \<exists>x. ds' = ds\<lparr>ds_tags := x\<rparr>"
  by (auto simp: apply_vocabulary_entry_type_upsert_def apply_vocabulary_entry_kind_upsert_def
      apply_vocabulary_tag_upsert_def rbind_Inr_iff split: option.split_asm if_split_asm)

lemma secret_frame:
  assumes "apply_secret_set_projection h ds t = Inr ds' \<or> apply_secret_delete_projection h ds t = Inr ds'"
  shows "\<exists>a b c d f g i. ds' = ds\<lparr>ds_entry_types := a, ds_entry_kinds := b, ds_tags := c, ds_secrets := d,
      ds_tag_assignments := f, ds_domains := g, ds_custom := i\<rparr>"
proof -
  from assms obtain st where "apply_secret_set_projection h ds t = Inr ds' \<and> st = ''active'' \<or>
    apply_secret_delete_projection h ds t = Inr ds' \<and> st = ''deleted''" by blast
  then obtain pl where "commit_plan (h_now h) ds pl = Inr ds'" by (rule secret_projection_plan)
  from commit_plan_effect(10) [OF this] show ?thesis by blast
qed

text \<open>No projection touches the log, the metadata or the identity of the local node.\<close>

lemma apply_transaction_keeps:
  assumes "apply_transaction h ds t = Inr ds'"
  shows "ds_transactions ds' = ds_transactions ds" "ds_metadata ds' = ds_metadata ds" "ds_node_private ds' = ds_node_private ds"
proof -
  have "ds_transactions ds' = ds_transactions ds \<and> ds_metadata ds' = ds_metadata ds \<and> ds_node_private ds' = ds_node_private ds"
    using assms
  proof (cases rule: apply_transaction_cases)
    case vocabulary
    then show ?thesis by (auto dest: vocabulary_frame)
  next
    case tag
    then show ?thesis by (auto dest: vocabulary_frame)
  next
    case secret
    from secret_frame [OF secret] show ?thesis by (elim exE) simp
  next
    case peer
    from peer_step_frame [OF peer] obtain a b c d f g where "ds' = ds\<lparr>ds_peer_groups := a, ds_service_groups := b,
        ds_service_group_nodes := c, ds_nodes := d, ds_peer_endpoints := f, ds_envelopes := g\<rparr>"
      unfolding peer_frame_def by blast
    then show ?thesis by simp
  qed
  then show "ds_transactions ds' = ds_transactions ds" "ds_metadata ds' = ds_metadata ds"
    "ds_node_private ds' = ds_node_private ds" by simp_all
qed

subsection \<open>The invariant of the datastore\<close>

definition datastore_wf :: "datastore \<Rightarrow> bool" where
  "datastore_wf ds \<longleftrightarrow> projections_wf ds \<and> endpoints_wf ds \<and> log_wf ds"

lemma endpoints_wf_frame:
  "ds_peer_endpoints ds' = ds_peer_endpoints ds \<and> ds_nodes ds' = ds_nodes ds \<Longrightarrow> datastore_wf ds \<Longrightarrow> endpoints_wf ds'"
  unfolding datastore_wf_def by (elim conjE, rule endpoints_wf_nodes) simp_all

lemma projections_wf_mono:
  assumes "projections_wf ds" and "ds_secrets ds' = ds_secrets ds" "ds_tags ds' = ds_tags ds"
    "ds_tag_assignments ds' = ds_tag_assignments ds" "ds_domains ds' = ds_domains ds" "ds_custom ds' = ds_custom ds"
    "ds_entry_types ds' = ds_entry_types ds" "ds_entry_kinds ds' = ds_entry_kinds ds"
    and "\<And>k. t_has ow_owner_id k (ds_owners ds) \<Longrightarrow> t_has ow_owner_id k (ds_owners ds')"
    and "\<And>k. t_has sg_service_group_id k (ds_service_groups ds) \<Longrightarrow> t_has sg_service_group_id k (ds_service_groups ds')"
  shows "projections_wf ds'"
  using assms by (auto simp: projections_wf_def secrets_wf_def tags_wf_def items_wf_def secret_fk_ok_def)

lemma support_extends_wf:
  assumes "support_extends ds ds'" and "datastore_wf ds"
  shows "datastore_wf ds'"
proof -
  from assms(1) obtain a b c d f g where ds': "ds' = ds\<lparr>ds_organizations := a, ds_clients := b, ds_owners := c,
      ds_peer_groups := d, ds_nodes := f, ds_service_groups := g\<rparr>"
    and p: "prefix (ds_owners ds) c" "prefix (ds_nodes ds) f" "prefix (ds_service_groups ds) g"
    unfolding support_extends_def by blast
  have "projections_wf ds'"
    using assms(2) p(1,3) by (intro projections_wf_mono [of ds ds'])
      (auto simp: ds' datastore_wf_def intro: t_has_prefix)
  moreover have "endpoints_wf ds'"
    using assms(2) p(2) by (intro endpoints_wf_nodes [of ds ds'])
      (auto simp: ds' datastore_wf_def t_get_None_iff intro: t_has_prefix)
  ultimately show ?thesis using assms(2) by (simp add: datastore_wf_def log_wf_def ds')
qed

lemma apply_transaction_wf:
  assumes "apply_transaction h ds t = Inr ds'" and wf: "datastore_wf ds" and "tx_wf t"
  shows "datastore_wf ds'"
proof -
  note keeps = apply_transaction_keeps [OF assms(1)]
  have "log_wf ds'" using wf keeps(1) by (simp add: datastore_wf_def log_wf_def)
  moreover from assms(1) have "projections_wf ds' \<and> endpoints_wf ds'"
  proof (cases rule: apply_transaction_cases)
    case vocabulary
    then have "ds_peer_endpoints ds' = ds_peer_endpoints ds \<and> ds_nodes ds' = ds_nodes ds"
      by (auto dest: vocabulary_frame)
    with wf vocabulary_projection_wf [OF vocabulary] show ?thesis
      by (simp add: endpoints_wf_frame) (simp add: datastore_wf_def)
  next
    case tag
    from vocabulary_frame(3) [OF tag] have "ds_peer_endpoints ds' = ds_peer_endpoints ds \<and> ds_nodes ds' = ds_nodes ds"
      by auto
    with wf tag_projection_wf [OF tag] show ?thesis
      by (simp add: endpoints_wf_frame) (simp add: datastore_wf_def)
  next
    case secret
    from secret_frame [OF secret] have "ds_peer_endpoints ds' = ds_peer_endpoints ds \<and> ds_nodes ds' = ds_nodes ds"
      by (elim exE) simp
    with wf secret_projection_wf [OF secret] assms(3) show ?thesis
      by (simp add: endpoints_wf_frame) (simp add: datastore_wf_def tx_wf_def)
  next
    case peer
    from peer_step_frame [OF peer] obtain a b c d f g where ds': "ds' = ds\<lparr>ds_peer_groups := a, ds_service_groups := b,
        ds_service_group_nodes := c, ds_nodes := d, ds_peer_endpoints := f, ds_envelopes := g\<rparr>"
      and sg: "\<And>k. t_has sg_service_group_id k (ds_service_groups ds) \<Longrightarrow> t_has sg_service_group_id k (ds_service_groups ds')"
      unfolding peer_frame_def by blast
    have "projections_wf ds'"
      using wf sg by (intro projections_wf_mono [of ds ds']) (auto simp: ds' datastore_wf_def)
    with wf peer_step_endpoints_wf [OF peer] show ?thesis by (simp add: datastore_wf_def)
  qed
  ultimately show ?thesis by (simp add: datastore_wf_def)
qed

subsection \<open>Interface: projections of a log\<close>

text \<open>
  What replay relies on: applying an entry keeps the invariant and the log. Any sequence of entries
  then keeps them.
\<close>

locale projection =
  fixes app :: "'s \<Rightarrow> 't \<Rightarrow> 's res"
    and ok :: "'t \<Rightarrow> bool"
    and inv :: "'s \<Rightarrow> bool"
    and log :: "'s \<Rightarrow> 'l"
  assumes app_inv: "app s t = Inr s' \<Longrightarrow> ok t \<Longrightarrow> inv s \<Longrightarrow> inv s'"
    and app_log: "app s t = Inr s' \<Longrightarrow> log s' = log s"
begin

lemma replay_keeps:
  assumes "rfold (\<lambda>t s. app s t) ts s = Inr s'" and "inv s" and "\<forall>t \<in> set ts. ok t"
  shows "inv s'" "log s' = log s"
proof -
  have "inv s' \<and> log s' = log s"
    by (rule rfold_invariant [OF assms(1), of "\<lambda>d. inv d \<and> log d = log s"]) (use assms(2,3) app_inv app_log in force)+
  then show "inv s'" "log s' = log s" by simp_all
qed

end

interpretation proj: projection "apply_transaction h" tx_wf datastore_wf ds_transactions for h
  by unfold_locales (blast intro: apply_transaction_wf apply_transaction_keeps(1))+

subsection \<open>Queueing leaves everything but the queue alone\<close>

lemma persist_outbound_frame:
  assumes "persist_outbound_envelopes e ds t peers = Inr ds'"
  shows "\<exists>g new. ds' = ds\<lparr>ds_peer_groups := g, ds_envelopes := ds_envelopes ds @ new\<rparr>"
proof -
  from assms obtain sg xs where r: "(if xs = [] then Inr ds else rbind (load_sqlite_node_identity_material e ds) (\<lambda>identity.
         if tx_origin_node_id t \<noteq> Some (im_node_id identity) then Inr ds
         else rfold (queue_envelope e identity t (im_node_id identity)) xs ds)) = Inr ds'"
    by (auto simp: persist_outbound_envelopes_def rbind_Inr_iff)
  have self: "\<exists>g new. ds = ds\<lparr>ds_peer_groups := g, ds_envelopes := ds_envelopes ds @ new\<rparr>"
    by (intro exI [of _ "ds_peer_groups ds"] exI [of _ "[]"]) simp
  show ?thesis
  proof (cases "ds' = ds")
    case False
    with r obtain a where a: "load_sqlite_node_identity_material e ds = Inr a"
      "rfold (queue_envelope e a t (im_node_id a)) xs ds = Inr ds'"
      by (auto simp: rbind_Inr_iff split: if_split_asm)
    from queue_envelopes_effect [OF a(2) identity_node(2) [OF a(1)]] show ?thesis by blast
  qed (use self in simp)
qed

lemma configured_outbound_frame:
  "persist_outbound_envelopes_for_configured_peers e ds t = Inr ds' \<Longrightarrow>
    \<exists>g new. ds' = ds\<lparr>ds_peer_groups := g, ds_envelopes := ds_envelopes ds @ new\<rparr>"
  unfolding persist_outbound_envelopes_for_configured_peers_def by (elim rbind_InrE persist_outbound_frame)

lemma queue_wf: "datastore_wf ds \<Longrightarrow> datastore_wf (ds\<lparr>ds_peer_groups := g, ds_envelopes := v\<rparr>)"
  unfolding datastore_wf_def
  by (auto simp: log_wf_def intro: projections_wf_mono [of ds] endpoints_wf_nodes [of ds])

lemma mark_frame:
  "mark_transaction_applied now ds i = Inr ds' \<Longrightarrow> \<exists>l. ds' = ds\<lparr>ds_transactions := l\<rparr>"
  by (auto simp: mark_transaction_applied_def split: option.split_asm if_split_asm)

lemma log_change_wf: "datastore_wf ds \<Longrightarrow> log_wf ds' \<Longrightarrow> ds' = ds\<lparr>ds_transactions := l\<rparr> \<Longrightarrow> datastore_wf ds'"
  unfolding datastore_wf_def by (auto intro: projections_wf_mono [of ds] endpoints_wf_nodes [of ds])

subsection \<open>One submission\<close>

lemma complete_submission_InrE:
  assumes "complete_submission e ds t p = Inr (r, ds')"
  obtains ds1 ds2 g new where
    "if po_apply_projection p then apply_transaction (pe_host e) ds t = Inr ds1 else ds1 = ds"
    "if po_mark_applied p then mark_transaction_applied (h_now (pe_host e)) ds1 (tx_transaction_id t) = Inr ds2 else ds2 = ds1"
    "ds' = ds2\<lparr>ds_peer_groups := g, ds_envelopes := ds_envelopes ds2 @ new\<rparr>"
    "\<not> po_generate_outbound_envelopes p \<Longrightarrow> ds' = ds2"
    "\<not> su_duplicate r" "su_persisted r = po_persist_transaction p" "su_transaction_id r = tx_transaction_id t"
proof -
  from assms obtain ds1 ds2 ds3 where
    s: "(if po_apply_projection p then apply_transaction (pe_host e) ds t else Inr ds) = Inr ds1"
    "(if po_mark_applied p then mark_transaction_applied (h_now (pe_host e)) ds1 (tx_transaction_id t) else Inr ds1) = Inr ds2"
    "(if po_generate_outbound_envelopes p then persist_outbound_envelopes_for_configured_peers e ds2 t else Inr ds2) = Inr ds3"
    and r: "ds' = ds3" "\<not> su_duplicate r" "su_persisted r = po_persist_transaction p" "su_transaction_id r = tx_transaction_id t"
    unfolding complete_submission_def by (elim rbind_InrE) auto
  have "\<exists>g new. ds3 = ds2\<lparr>ds_peer_groups := g, ds_envelopes := ds_envelopes ds2 @ new\<rparr>"
  proof (cases "po_generate_outbound_envelopes p")
    case True
    with s(3) show ?thesis by (auto dest: configured_outbound_frame)
  next
    case False
    with s(3) show ?thesis by (intro exI [of _ "ds_peer_groups ds2"] exI [of _ "[]"]) simp
  qed
  then show thesis using s r by (auto split: if_split_asm intro: that)
qed

lemma submit_InrE:
  assumes "submit_transaction e ds t p = Inr (r, ds')"
  obtains (duplicate) "po_ignore_duplicate p" "po_persist_transaction p" "support_extends ds ds'" "r = duplicate_result t p"
      "transaction_exists ds (tx_transaction_id t)" "validate_duplicate_payload_matches ds' t = Inr ()"
  | (logged) ds1 ds2 where "po_persist_transaction p" "support_extends ds ds1" "insert_transaction ds1 t = Inr ds2"
      "complete_submission e ds2 t p = Inr (r, ds')" "po_bootstrap_support_rows p \<or> ds1 = ds"
  | (replayed) ds1 where "\<not> po_persist_transaction p" "support_extends ds ds1" "complete_submission e ds1 t p = Inr (r, ds')"
proof -
  from assms obtain ds1 where v: "validate_transaction t = Inr ()" and
    b: "(if po_bootstrap_support_rows p then bootstrap_replay_support_rows ds [t] else Inr ds) = Inr ds1"
    and s: "(if \<not> po_persist_transaction p then complete_submission e ds1 t p
       else if po_ignore_duplicate p \<and> transaction_exists ds1 (tx_transaction_id t)
       then rbind (validate_duplicate_payload_matches ds1 t) (\<lambda>_. Inr (duplicate_result t p, ds1))
       else
         (case insert_transaction ds1 t of
            Inr ds2 \<Rightarrow> complete_submission e ds2 t p
          | Inl (DuplicateTransactionError m) \<Rightarrow>
              if \<not> po_ignore_duplicate p then Inl (DuplicateTransactionError m)
              else rbind (validate_duplicate_payload_matches ds1 t) (\<lambda>_. Inr (duplicate_result t p, ds1))
          | Inl x \<Rightarrow> Inl x)) = Inr (r, ds')"
    unfolding submit_transaction_def by (elim rbind_InrE) auto
  have ext: "support_extends ds ds1" and own: "po_bootstrap_support_rows p \<or> ds1 = ds"
    using b by (auto split: if_split_asm intro: bootstrap_extends support_extends_refl)
  then obtain a b c d f g where "ds1 = ds\<lparr>ds_organizations := a, ds_clients := b, ds_owners := c,
      ds_peer_groups := d, ds_nodes := f, ds_service_groups := g\<rparr>" unfolding support_extends_def by blast
  then have ex: "transaction_exists ds1 i = transaction_exists ds i" for i by (simp add: transaction_exists_def)
  obtain hash where "payload_hash_hex_to_bytes (tx_payload_hash t) = Inr hash"
    using validate_transaction_hash [OF v] hash_payload_bytes [of "tx_payload t"] by metis
  then have dup: "insert_transaction ds1 t = Inl (DuplicateTransactionError m) \<Longrightarrow> transaction_exists ds1 (tx_transaction_id t)" for m
    using v by (auto simp: insert_transaction_def rbind_def sqlite_int_def Let_def transaction_exists_def transaction_to_row_def
        split: if_split_asm)
  show thesis
  proof (cases "po_persist_transaction p")
    case False
    then show ?thesis using s ext replayed by auto
  next
    case True
    show ?thesis
    proof (cases "po_ignore_duplicate p \<and> transaction_exists ds1 (tx_transaction_id t)")
      case d: True
      then show ?thesis using s True ext duplicate ex by (auto simp: rbind_Inr_iff)
    next
      case False
      then show ?thesis
        using s True ext own logged dup by (auto split: sum.split_asm py_error.split_asm if_split_asm)
    qed
  qed
qed

subsection \<open>Submissions and rebuilds over time\<close>

text \<open>The log grows at its end, and of a logged transaction only the state and the time of application change.\<close>

definition log_extends :: "datastore \<Rightarrow> datastore \<Rightarrow> bool" where
  "log_extends ds ds' \<longleftrightarrow> prefix (log_ids ds) (log_ids ds') \<and>
     (\<forall>i t. get_transaction ds i = Inr t \<longrightarrow>
       (\<exists>s a. get_transaction ds' i = Inr (t\<lparr>tx_state := s, tx_applied_at := a\<rparr>)))"

lemma log_extends_same:
  assumes "ds_transactions ds' = ds_transactions ds"
  shows "log_extends ds ds'"
  unfolding log_extends_def log_ids_def get_transaction_def assms
proof (intro conjI allI impI)
  fix i t
  assume "(case t_get tr_transaction_id i (ds_transactions ds) of None \<Rightarrow> Inl (TransactionNotFoundError ''transaction not found: '')
      | Some x \<Rightarrow> transaction_from_row x) = Inr t"
  then show "\<exists>s a. (case t_get tr_transaction_id i (ds_transactions ds) of
      None \<Rightarrow> Inl (TransactionNotFoundError ''transaction not found: '') | Some x \<Rightarrow> transaction_from_row x) =
    Inr (t\<lparr>tx_state := s, tx_applied_at := a\<rparr>)"
    by (intro exI [of _ "tx_state t"] exI [of _ "tx_applied_at t"]) simp
qed simp

lemma log_extends_trans:
  assumes "log_extends a b" "log_extends b c"
  shows "log_extends a c"
  unfolding log_extends_def
proof (intro conjI allI impI)
  show "prefix (log_ids a) (log_ids c)" using assms by (auto simp: log_extends_def intro: prefix_order.trans)
  fix i t
  assume "get_transaction a i = Inr t"
  then obtain s x where "get_transaction b i = Inr (t\<lparr>tx_state := s, tx_applied_at := x\<rparr>)"
    using assms(1) unfolding log_extends_def by blast
  then obtain s' x' where "get_transaction c i = Inr (t\<lparr>tx_state := s, tx_applied_at := x\<rparr>\<lparr>tx_state := s', tx_applied_at := x'\<rparr>)"
    using assms(2) unfolding log_extends_def by blast
  then show "\<exists>s x. get_transaction c i = Inr (t\<lparr>tx_state := s, tx_applied_at := x\<rparr>)" by auto
qed

lemma get_transaction_logged: "get_transaction ds i = Inr t \<Longrightarrow> i \<in> set (log_ids ds)"
  by (auto simp: get_transaction_def log_ids_def split: option.split_asm dest: t_get_SomeD)

lemma insert_log_extends:
  assumes "insert_transaction ds t = Inr ds'"
  shows "log_extends ds ds'"
  unfolding log_extends_def
proof (intro conjI allI impI)
  show "prefix (log_ids ds) (log_ids ds')" by (simp add: txlog.put_ids [OF assms])
  fix i u
  assume u: "get_transaction ds i = Inr u"
  have "i \<noteq> tx_transaction_id t" using txlog.put_fresh [OF assms] get_transaction_logged [OF u] by auto
  then have "get_transaction ds' i = Inr u" using txlog.get_other [OF assms, of i] u by simp
  then show "\<exists>s a. get_transaction ds' i = Inr (u\<lparr>tx_state := s, tx_applied_at := a\<rparr>)"
    by (intro exI [of _ "tx_state u"] exI [of _ "tx_applied_at u"]) simp
qed

lemma transaction_from_row_mark:
  "transaction_from_row r = Inr t \<Longrightarrow>
    transaction_from_row (r\<lparr>tr_state := s, tr_applied_at := a\<rparr>) = Inr (t\<lparr>tx_state := s, tx_applied_at := a\<rparr>)"
  by (auto simp: transaction_from_row_def rbind_Inr_iff)

lemma mark_log_extends:
  assumes "mark_transaction_applied now ds i = Inr ds'"
  shows "log_extends ds ds'"
  unfolding log_extends_def
proof (intro conjI allI impI)
  show "prefix (log_ids ds) (log_ids ds')" by (simp add: mark_applied_log(1) [OF assms])
  fix j u
  assume u: "get_transaction ds j = Inr u"
  let ?f = "\<lambda>r :: transaction_row. r\<lparr>tr_state := ''applied'', tr_applied_at := Some now\<rparr>"
  from assms have ds': "ds' = ds\<lparr>ds_transactions := t_update tr_transaction_id i ?f (ds_transactions ds)\<rparr>"
    by (auto simp: mark_transaction_applied_def split: option.split_asm if_split_asm)
  have get: "t_get tr_transaction_id j (ds_transactions ds') =
      (if j = i then map_option ?f (t_get tr_transaction_id i (ds_transactions ds)) else t_get tr_transaction_id j (ds_transactions ds))"
    by (simp add: ds' t_get_update)
  show "\<exists>s a. get_transaction ds' j = Inr (u\<lparr>tx_state := s, tx_applied_at := a\<rparr>)"
  proof (cases "j = i")
    case True
    with u get show ?thesis
      by (intro exI [of _ "''applied''"] exI [of _ "Some now"])
        (auto simp: get_transaction_def transaction_from_row_mark split: option.split_asm)
  next
    case False
    with u get show ?thesis
      by (intro exI [of _ "tx_state u"] exI [of _ "tx_applied_at u"]) (simp add: get_transaction_def)
  qed
qed

lemma support_keeps:
  assumes "support_extends ds ds'"
  shows "ds_transactions ds' = ds_transactions ds" "ds_metadata ds' = ds_metadata ds" "ds_envelopes ds' = ds_envelopes ds"
    "ds_secrets ds' = ds_secrets ds" "ds_tags ds' = ds_tags ds" "ds_tag_assignments ds' = ds_tag_assignments ds"
    "ds_domains ds' = ds_domains ds" "ds_custom ds' = ds_custom ds" "ds_entry_types ds' = ds_entry_types ds"
    "ds_entry_kinds ds' = ds_entry_kinds ds" "ds_peer_endpoints ds' = ds_peer_endpoints ds" "ds_node_private ds' = ds_node_private ds"
    "ds_service_group_nodes ds' = ds_service_group_nodes ds"
proof -
  from assms obtain a b c d f g where ds': "ds' = ds\<lparr>ds_organizations := a, ds_clients := b, ds_owners := c,
      ds_peer_groups := d, ds_nodes := f, ds_service_groups := g\<rparr>" unfolding support_extends_def by blast
  show "ds_transactions ds' = ds_transactions ds" "ds_metadata ds' = ds_metadata ds" "ds_envelopes ds' = ds_envelopes ds"
    "ds_secrets ds' = ds_secrets ds" "ds_tags ds' = ds_tags ds" "ds_tag_assignments ds' = ds_tag_assignments ds"
    "ds_domains ds' = ds_domains ds" "ds_custom ds' = ds_custom ds" "ds_entry_types ds' = ds_entry_types ds"
    "ds_entry_kinds ds' = ds_entry_kinds ds" "ds_peer_endpoints ds' = ds_peer_endpoints ds" "ds_node_private ds' = ds_node_private ds"
    "ds_service_group_nodes ds' = ds_service_group_nodes ds"
    by (simp_all add: ds')
qed

definition engine_keeps :: "datastore \<Rightarrow> datastore \<Rightarrow> bool" where
  "engine_keeps ds ds' \<longleftrightarrow> (datastore_wf ds \<longrightarrow> datastore_wf ds') \<and> log_extends ds ds' \<and> ds_metadata ds' = ds_metadata ds"

lemma engine_keeps_trans: "engine_keeps a b \<Longrightarrow> engine_keeps b c \<Longrightarrow> engine_keeps a c"
  by (auto simp: engine_keeps_def intro: log_extends_trans)

lemma engine_keeps_support: "support_extends ds ds' \<Longrightarrow> engine_keeps ds ds'"
  by (auto simp: engine_keeps_def support_keeps intro: support_extends_wf log_extends_same)

lemma complete_keeps:
  assumes "complete_submission e ds t p = Inr (r, ds')" and "tx_wf t"
  shows "engine_keeps ds ds'"
  using assms(1)
proof (rule complete_submission_InrE)
  fix ds1 ds2 g new
  assume applied: "if po_apply_projection p then apply_transaction (pe_host e) ds t = Inr ds1 else ds1 = ds"
    and mark: "if po_mark_applied p then mark_transaction_applied (h_now (pe_host e)) ds1 (tx_transaction_id t) = Inr ds2 else ds2 = ds1"
    and ds': "ds' = ds2\<lparr>ds_peer_groups := g, ds_envelopes := ds_envelopes ds2 @ new\<rparr>"
  have refl: "engine_keeps d d" for d by (rule engine_keeps_support [OF support_extends_refl])
  have "engine_keeps ds ds1"
    using applied refl assms(2) by (auto simp: engine_keeps_def apply_transaction_keeps split: if_split_asm
        intro: apply_transaction_wf log_extends_same)
  moreover have "engine_keeps ds1 ds2"
  proof (cases "po_mark_applied p")
    case True
    with mark have m: "mark_transaction_applied (h_now (pe_host e)) ds1 (tx_transaction_id t) = Inr ds2" by simp
    obtain l where l: "ds2 = ds1\<lparr>ds_transactions := l\<rparr>" using mark_frame [OF m] by blast
    then show ?thesis
      using mark_log_extends [OF m] mark_applied_log(2) [OF m]
      by (auto simp: engine_keeps_def datastore_wf_def intro: projections_wf_mono [of ds1] endpoints_wf_nodes [of ds1])
  qed (use mark refl in simp)
  moreover have "engine_keeps ds2 ds'"
    using queue_wf [of ds2] by (auto simp: engine_keeps_def ds' intro: log_extends_same)
  ultimately show ?thesis by (blast intro: engine_keeps_trans)
qed

lemma submit_keeps:
  assumes "submit_transaction e ds t p = Inr (r, ds')" and "tx_wf t"
  shows "engine_keeps ds ds'"
  using assms(1)
proof (cases rule: submit_InrE)
  case duplicate
  then show ?thesis by (blast intro: engine_keeps_support)
next
  case (logged ds1 ds2)
  then have i: "insert_transaction ds1 t = Inr ds2" by simp
  then obtain l where "ds2 = ds1\<lparr>ds_transactions := l\<rparr>" by (rule insert_transaction_InrD)
  then have "engine_keeps ds1 ds2"
    using insert_log_extends [OF i] insert_log_wf [OF i assms(2)]
    by (auto simp: engine_keeps_def datastore_wf_def intro: projections_wf_mono [of ds1] endpoints_wf_nodes [of ds1])
  with logged show ?thesis
    by (blast intro: engine_keeps_trans engine_keeps_support complete_keeps [OF _ assms(2)])
next
  case (replayed ds1)
  then show ?thesis by (blast intro: engine_keeps_trans engine_keeps_support complete_keeps [OF _ assms(2)])
qed

lemma replay_transactions_wf:
  assumes "replay_transactions ds = Inr ts" and "log_wf ds"
  shows "\<forall>t \<in> set ts. tx_wf t"
proof
  fix t
  assume "t \<in> set ts"
  with assms(1) obtain i where g: "get_transaction ds i = Inr t"
    by (fastforce simp: replay_transactions_def rmapM_Inr in_set_conv_nth)
  then obtain r where r: "t_get tr_transaction_id i (ds_transactions ds) = Some r" "transaction_from_row r = Inr t"
    by (auto simp: get_transaction_def split: option.split_asm)
  then obtain u where "tx_wf u" "t = tx_norm u"
    using assms(2) by (fastforce simp: log_wf_def row_wf_def dest: t_get_SomeD)
  then show "tx_wf t" using canon_wf [of "JObj (tx_payload u)"] by (simp add: tx_wf_def tx_norm_def canon_JObj del: canon.simps)
qed

lemma delete_projections_wf: "datastore_wf ds \<Longrightarrow> datastore_wf (delete_projections ds)"
  by (auto simp: datastore_wf_def delete_projections_def projections_wf_def secrets_wf_def tags_wf_def items_wf_def
      endpoints_wf_def log_wf_def t_keyed_def)

lemma rebuild_keeps:
  assumes "rebuild_secret_projections e ds = Inr ds'" and "datastore_wf ds"
  shows "engine_keeps ds ds'"
proof -
  let ?ds1 = "delete_projections ds"
  from assms(1) obtain ts ds2 where ts: "replay_transactions ?ds1 = Inr ts" and ds2: "bootstrap_replay_support_rows ?ds1 ts = Inr ds2"
    and ds': "rfold (\<lambda>t d. rbind (submit_transaction e d t REPLAY_TRANSACTION_POLICY) (\<lambda>r. Inr (snd r))) ts ds2 = Inr ds'"
    unfolding rebuild_secret_projections_def Let_def by (elim rbind_InrE)
  have "log_wf ?ds1" using delete_projections_wf [OF assms(2)] by (simp add: datastore_wf_def)
  note wf = replay_transactions_wf [OF ts this]
  have "engine_keeps ds ?ds1"
    using delete_projections_wf by (auto simp: engine_keeps_def intro: log_extends_same) (simp_all add: delete_projections_def log_extends_same)
  moreover have "engine_keeps ?ds1 ds2" by (rule engine_keeps_support [OF bootstrap_extends [OF ds2]])
  moreover have "engine_keeps ds2 ds'"
    using ds' engine_keeps_support [OF support_extends_refl]
    by (rule rfold_invariant [where P = "engine_keeps ds2"])
      (use wf in \<open>auto simp: rbind_Inr_iff intro: engine_keeps_trans submit_keeps\<close>)
  ultimately show ?thesis by (blast intro: engine_keeps_trans)
qed

text \<open>Any history of accepted submissions, under any policy, and of successful rebuilds.\<close>

inductive engine_step :: "datastore \<Rightarrow> datastore \<Rightarrow> bool" where
  submit: "submit_transaction e ds t p = Inr (r, ds') \<Longrightarrow> tx_wf t \<Longrightarrow> engine_step ds ds'"
| rebuild: "rebuild_secret_projections e ds = Inr ds' \<Longrightarrow> engine_step ds ds'"

lemma replayed_request_fails:
  assumes "rfold (\<lambda>t d. rbind (submit_transaction e d t REPLAY_TRANSACTION_POLICY) (\<lambda>r. Inr (snd r))) ts ds = Inr ds'"
    and "t \<in> set ts" "tx_transaction_type t = ''peer.admission.request''" "pj_required_text (tx_payload t) ''node_id'' = Inr n"
    and "t_get nd_node_id n (ds_nodes ds) = Some q" "has_identity q"
  shows False
  using assms(1,2,5,6)
proof (induction ts arbitrary: ds q)
  case (Cons u ts)
  then obtain r ds1 where u: "submit_transaction e ds u REPLAY_TRANSACTION_POLICY = Inr (r, ds1)"
    and tail: "rfold (\<lambda>t d. rbind (submit_transaction e d t REPLAY_TRANSACTION_POLICY) (\<lambda>r. Inr (snd r))) ts ds1 = Inr ds'"
    by (auto simp: rbind_Inr_iff)
  then have a: "apply_transaction (pe_host e) ds u = Inr ds1"
    by (auto simp: submit_transaction_def complete_submission_def REPLAY_TRANSACTION_POLICY_def rbind_Inr_iff)
  show ?case
  proof (cases "u = t")
    case True
    with a assms(3) have "apply_peer_admission_request (pe_host e) ds t = Inr ds1" by (simp add: apply_transaction_def)
    then have "is_replay_support_placeholder q"
      by (rule request_effect) (use assms(4) Cons.prems(3) in auto)
    then show False using has_identity_no_placeholder [OF Cons.prems(4)] by blast
  next
    case False
    then have t: "t \<in> set ts" using Cons.prems(2) by simp
    from a have "\<exists>q'. t_get nd_node_id n (ds_nodes ds1) = Some q' \<and> has_identity q'"
    proof (cases rule: apply_transaction_cases)
      case vocabulary
      then have "ds_nodes ds1 = ds_nodes ds" by (auto dest: vocabulary_frame)
      with Cons.prems(3,4) show ?thesis by simp
    next
      case tag
      then have "ds_nodes ds1 = ds_nodes ds" by (auto dest: vocabulary_frame)
      with Cons.prems(3,4) show ?thesis by simp
    next
      case secret
      from secret_frame [OF secret] have "ds_nodes ds1 = ds_nodes ds" by (elim exE) simp
      with Cons.prems(3,4) show ?thesis by simp
    next
      case peer
      from peer_step_node [OF peer Cons.prems(3,4)] show ?thesis
        using same_identity_has Cons.prems(4) by blast
    qed
    then show False using Cons.IH [OF tail t] by blast
  qed
qed simp

text \<open>A submission that logs its transaction, stage by stage.\<close>

lemma submission_logged:
  assumes s: "submit_transaction e ds t p = Inr (r, ds')" and wf: "tx_wf t" and new: "\<not> su_duplicate r"
    and p: "po_persist_transaction p" "po_apply_projection p" "po_mark_applied p"
  obtains a l b g new row where "support_extends ds a" "apply_transaction (pe_host e) (a\<lparr>ds_transactions := l\<rparr>) t = Inr b"
    "ds' = b\<lparr>ds_transactions := ds_transactions ds @ [row], ds_peer_groups := g, ds_envelopes := ds_envelopes b @ new\<rparr>"
    "transaction_from_row row = Inr ((tx_norm t)\<lparr>tx_state := ''applied'', tx_applied_at := Some (h_now (pe_host e))\<rparr>)"
    "tr_state row = ''applied''" "tr_transaction_id row = tx_transaction_id t" "tx_transaction_id t \<notin> set (log_ids ds)"
  using s
proof (cases rule: submit_InrE)
  case duplicate
  with new show ?thesis by (simp add: duplicate_result_def)
next
  case (replayed ds1)
  with p show ?thesis by simp
next
  case (logged ds1 ds2)
  note keep = support_keeps(1) [OF logged(2)]
  from logged(4) obtain ds3 ds4 g n where d: "apply_transaction (pe_host e) ds2 t = Inr ds3"
    "mark_transaction_applied (h_now (pe_host e)) ds3 (tx_transaction_id t) = Inr ds4"
    "ds' = ds4\<lparr>ds_peer_groups := g, ds_envelopes := ds_envelopes ds4 @ n\<rparr>"
    by (rule complete_submission_InrE) (use p in simp)
  from logged(3) obtain hash where h: "validate_transaction t = Inr ()" "payload_hash_hex_to_bytes (tx_payload_hash t) = Inr hash"
    "\<not> t_has tr_transaction_id (tx_transaction_id t) (ds_transactions ds1)"
    "ds2 = ds1\<lparr>ds_transactions := ds_transactions ds1 @ [transaction_to_row t hash]\<rparr>" by (rule insert_transaction_InrD)
  let ?f = "\<lambda>r :: transaction_row. r\<lparr>tr_state := ''applied'', tr_applied_at := Some (h_now (pe_host e))\<rparr>"
  let ?row = "?f (transaction_to_row t hash)"
  from d(2) have ds4: "ds4 = ds3\<lparr>ds_transactions := t_update tr_transaction_id (tx_transaction_id t) ?f (ds_transactions ds3)\<rparr>"
    by (auto simp: mark_transaction_applied_def split: option.split_asm if_split_asm)
  have "t_update tr_transaction_id (tx_transaction_id t) ?f (ds_transactions ds1) = ds_transactions ds1"
    using h(3) by (force simp: t_update_def t_has_def intro!: map_idI)
  then have "ds_transactions ds4 = ds_transactions ds @ [?row]"
    using apply_transaction_keeps(1) [OF d(1)] h(4) keep
    by (simp add: ds4) (simp add: t_update_def transaction_to_row_def)
  then have ds': "ds' = ds3\<lparr>ds_transactions := ds_transactions ds @ [?row], ds_peer_groups := g, ds_envelopes := ds_envelopes ds3 @ n\<rparr>"
    using d(3) ds4 by simp
  show ?thesis
  proof (rule that [OF logged(2) _ ds' transaction_from_row_mark [OF transaction_row_roundtrip [OF wf h(1,2)]]])
    show "apply_transaction (pe_host e) (ds1\<lparr>ds_transactions := ds_transactions ds1 @ [transaction_to_row t hash]\<rparr>) t = Inr ds3"
      using d(1) h(4) by simp
    show "tx_transaction_id t \<notin> set (log_ids ds)" using h(3) keep by (auto simp: log_ids_def t_has_def)
  qed (simp_all add: transaction_to_row_def)
qed

subsection \<open>Properties\<close>

text \<open>C14. The engine keeps the datastore: whatever is submitted, under whatever policy, and however often the
  projections are rebuilt, every key, uniqueness and reference constraint of the projection and endpoint
  tables holds, every logged row decodes to a transaction that validates, the log only grows at its
  end, and of a transaction that was logged nothing but its state and its time of application ever
  changes; the storage mode never changes.\<close>

theorem engine_invariant:
  assumes "engine_step\<^sup>*\<^sup>* ds ds'" and "datastore_wf ds"
  shows "datastore_wf ds' \<and> prefix (log_ids ds) (log_ids ds') \<and>
    (\<forall>i t. get_transaction ds i = Inr t \<longrightarrow>
      (\<exists>s a. get_transaction ds' i = Inr (t\<lparr>tx_state := s, tx_applied_at := a\<rparr>))) \<and>
    read_sqlite_storage_mode ds' = read_sqlite_storage_mode ds"
proof -
  from assms have "datastore_wf ds' \<and> engine_keeps ds ds'"
  proof (induction rule: rtranclp_induct)
    case base
    then show ?case using engine_keeps_support [OF support_extends_refl] by blast
  next
    case (step a b)
    from step.hyps(2) have "engine_keeps a b"
    proof cases
      case (rebuild e)
      then show ?thesis using step.IH step.prems by (blast intro: rebuild_keeps)
    qed (rule submit_keeps)
    with step show ?case by (auto simp: engine_keeps_def intro: log_extends_trans)
  qed
  then show ?thesis
    by (auto simp: engine_keeps_def log_extends_def read_sqlite_storage_mode_def read_sqlite_storage_mode_opt_def)
qed

text \<open>C16. What a submission does: under the local, remote and restore policies an accepted submission
  either logs the transaction once, as applied now, with every other entry as it was, and leaves the
  tables as the projection of that transaction leaves them, adding envelopes only; or, only for the
  remote policy, reports a duplicate of a logged transaction with the same payload hash and adds at
  most support rows.\<close>

theorem submission_effect:
  assumes s: "submit_transaction e ds t p = Inr (r, ds')" and wf: "tx_wf t"
    and p: "p \<in> {LOCAL_TRANSACTION_POLICY, REMOTE_TRANSACTION_POLICY, RESTORE_TRANSACTION_POLICY}"
  shows "if su_duplicate r
    then p = REMOTE_TRANSACTION_POLICY \<and> support_extends ds ds' \<and>
      (\<exists>u. get_transaction ds (tx_transaction_id t) = Inr u \<and> tx_payload_hash u = tx_payload_hash t)
    else tx_transaction_id t \<notin> set (log_ids ds) \<and> log_ids ds' = log_ids ds @ [tx_transaction_id t] \<and>
      get_transaction ds' (tx_transaction_id t) =
        Inr ((tx_norm t)\<lparr>tx_state := ''applied'', tx_applied_at := Some (h_now (pe_host e))\<rparr>) \<and>
      (\<forall>i. i \<noteq> tx_transaction_id t \<longrightarrow> get_transaction ds' i = get_transaction ds i) \<and>
      (\<exists>a b l g new. support_extends ds a \<and> apply_transaction (pe_host e) (a\<lparr>ds_transactions := l\<rparr>) t = Inr b \<and>
        ds' = b\<lparr>ds_transactions := ds_transactions ds', ds_peer_groups := g, ds_envelopes := ds_envelopes b @ new\<rparr>)"
  using s
proof (cases rule: submit_InrE)
  case duplicate
  have "p = REMOTE_TRANSACTION_POLICY" "su_duplicate r"
    using p duplicate by (auto simp: LOCAL_TRANSACTION_POLICY_def RESTORE_TRANSACTION_POLICY_def duplicate_result_def)
  moreover have "\<exists>u. get_transaction ds (tx_transaction_id t) = Inr u \<and> tx_payload_hash u = tx_payload_hash t"
    using duplicate(6) support_keeps(1) [OF duplicate(3)]
    by (auto simp: validate_duplicate_payload_matches_def rbind_Inr_iff get_transaction_def)
  ultimately show ?thesis using duplicate(3) by simp
next
  case (logged ds1 ds2)
  have flags: "po_persist_transaction p" "po_apply_projection p" "po_mark_applied p"
    using p by (auto simp: LOCAL_TRANSACTION_POLICY_def REMOTE_TRANSACTION_POLICY_def RESTORE_TRANSACTION_POLICY_def)
  have new: "\<not> su_duplicate r" using logged(4) by (rule complete_submission_InrE)
  from submission_logged [OF s wf new flags] obtain a l b g more row where d:
    "support_extends ds a" "apply_transaction (pe_host e) (a\<lparr>ds_transactions := l\<rparr>) t = Inr b"
    "ds' = b\<lparr>ds_transactions := ds_transactions ds @ [row], ds_peer_groups := g, ds_envelopes := ds_envelopes b @ more\<rparr>"
    "transaction_from_row row = Inr ((tx_norm t)\<lparr>tx_state := ''applied'', tx_applied_at := Some (h_now (pe_host e))\<rparr>)"
    "tr_transaction_id row = tx_transaction_id t" "tx_transaction_id t \<notin> set (log_ids ds)" .
  have log: "ds_transactions ds' = ds_transactions ds @ [row]" by (simp add: d(3))
  have "t_get tr_transaction_id (tx_transaction_id t) (ds_transactions ds) = None"
    using d(6) by (auto simp: t_get_None_iff t_has_def log_ids_def)
  then have "get_transaction ds' i = (if i = tx_transaction_id t then transaction_from_row row else get_transaction ds i)" for i
    using d(5) by (auto simp: get_transaction_def log t_get_append t_get_Cons split: option.split)
  moreover have "ds' = b\<lparr>ds_transactions := ds_transactions ds', ds_peer_groups := g, ds_envelopes := ds_envelopes b @ more\<rparr>"
    unfolding log by (rule d(3))
  ultimately show ?thesis using new d(1,2,4,5,6) log unfolding log_ids_def by simp blast
next
  case (replayed ds1)
  with p show ?thesis
    by (auto simp: LOCAL_TRANSACTION_POLICY_def REMOTE_TRANSACTION_POLICY_def RESTORE_TRANSACTION_POLICY_def)
qed

text \<open>C19. Duplicates: a transaction whose identifier is logged is refused with \<open>DuplicateTransactionError\<close> under the
  local and the restore policy; under the remote policy it is reported as a duplicate when the payload
  hashes agree and refused otherwise. In no case is it applied again.\<close>

theorem duplicate_submission:
  assumes valid: "validate_transaction t = Inr ()" "validate_authenticated_transaction (pe_host e) ds t = Inr ()"
    and ints: "\<forall>v \<in> {tx_transaction_version t, tx_payload_version t, tx_protocol_version t}. sqlite_int v = Inr v"
    and boot: "bootstrap_replay_support_rows ds [t] = Inr ds1" and old: "get_transaction ds (tx_transaction_id t) = Inr u"
  shows "submit_transaction e ds t LOCAL_TRANSACTION_POLICY = Inl (DuplicateTransactionError (tx_transaction_id t)) \<and>
    submit_transaction e ds t RESTORE_TRANSACTION_POLICY = Inl (DuplicateTransactionError (tx_transaction_id t)) \<and>
    submit_transaction e ds t REMOTE_TRANSACTION_POLICY =
      (if tx_payload_hash u = tx_payload_hash t then Inr (duplicate_result t REMOTE_TRANSACTION_POLICY, ds1)
       else Inl (SQLiteValidationError (''duplicate transaction_id has different payload: '' @ tx_transaction_id t)))"
proof -
  note keep = support_keeps(1) [OF bootstrap_extends [OF boot]]
  have has: "t_has tr_transaction_id (tx_transaction_id t) (ds_transactions ds)"
    using get_transaction_logged [OF old] by (auto simp: log_ids_def t_has_def)
  obtain hash where "payload_hash_hex_to_bytes (tx_payload_hash t) = Inr hash"
    using validate_transaction_hash [OF valid(1)] hash_payload_bytes [of "tx_payload t"] by metis
  then have ins: "t_has tr_transaction_id (tx_transaction_id t) (ds_transactions d) \<Longrightarrow>
      insert_transaction d t = Inl (DuplicateTransactionError (tx_transaction_id t))" for d
    using valid(1) ints by (simp add: insert_transaction_def transaction_to_row_def)
  have "get_transaction ds1 (tx_transaction_id t) = Inr u" using old keep by (simp add: get_transaction_def)
  then show ?thesis
    using ins [of ds] ins [of ds1] has keep valid boot
    by (simp add: submit_transaction_def LOCAL_TRANSACTION_POLICY_def RESTORE_TRANSACTION_POLICY_def
        REMOTE_TRANSACTION_POLICY_def transaction_exists_def validate_duplicate_payload_matches_def)
qed


subsection \<open>Examples\<close>

definition example_tag :: Transaction where
  "example_tag = example_transaction ''vocabulary.tag.upsert'' [(''name'', JStr ''prod''), (''tag_id'', JStr ''tag'')] 6"

lemma example_tag_wf: "tx_wf example_tag"
proof -
  have "json_wf (JObj [(''name'', JStr ''prod''), (''tag_id'', JStr ''tag'')])" by code_simp
  then show ?thesis by (simp add: tx_wf_def example_tag_def example_transaction_def del: json_wf.simps)
qed

lemma example_datastore_wf: "datastore_wf example_datastore"
  by (simp add: datastore_wf_def projections_wf_def secrets_wf_def tags_wf_def items_wf_def endpoints_wf_def log_wf_def
      vocabulary_wf_def t_keyed_def example_datastore_def empty_datastore_def)

text \<open>A local submission on a node whose only registry entry is its own.\<close>

lemma lone_submission:
  assumes "validate_transaction t = Inr ()" "validate_authenticated_transaction (pe_host e) ds t = Inr ()"
    and "insert_transaction ds t = Inr ds1" "apply_transaction (pe_host e) ds1 t = Inr ds2"
    and "mark_transaction_applied (h_now (pe_host e)) ds2 (tx_transaction_id t) = Inr ds3"
    and "list_peer_registry_entries ds3 = Inr [entry]" "tx_origin_node_id t = Some (pr_node_id entry)" "service_group_scope_id t = Inr sg"
  shows "submit_transaction e ds t LOCAL_TRANSACTION_POLICY =
    Inr (\<lparr>su_transaction_id = tx_transaction_id t, su_mode = LOCAL, su_persisted = True, su_applied = True,
      su_duplicate = False, su_outbound_envelopes_requested = True\<rparr>, ds3)"
  using assms by (simp add: submit_transaction_def LOCAL_TRANSACTION_POLICY_def complete_submission_def
      persist_outbound_envelopes_for_configured_peers_def persist_outbound_envelopes_def eligible_peer_entries_def)

lemma lone_remote_submission:
  assumes "validate_transaction t = Inr ()" "validate_authenticated_transaction (pe_host e) ds t = Inr ()"
    and "bootstrap_replay_support_rows ds [t] = Inr ds0" "\<not> transaction_exists ds0 (tx_transaction_id t)"
    and "insert_transaction ds0 t = Inr ds1" "apply_transaction (pe_host e) ds1 t = Inr ds2"
    and "mark_transaction_applied (h_now (pe_host e)) ds2 (tx_transaction_id t) = Inr ds3"
    and "list_peer_registry_entries ds3 = Inr [entry]" "tx_origin_node_id t = Some (pr_node_id entry)" "service_group_scope_id t = Inr sg"
  shows "\<exists>r. submit_transaction e ds t REMOTE_TRANSACTION_POLICY = Inr (r, ds3)"
  using assms by (simp add: submit_transaction_def REMOTE_TRANSACTION_POLICY_def complete_submission_def
      persist_outbound_envelopes_for_configured_peers_def persist_outbound_envelopes_def eligible_peer_entries_def)

lemma example_node_alone:
  assumes "ds_nodes ds = [example_node_row]" "ds_node_private ds = []"
  obtains entry where "list_peer_registry_entries ds = Inr [entry]" "pr_node_id entry = format_identifier Node 1"
proof -
  obtain entry where entry: "entry_from_row ds example_node_row = Inr entry"
    using entry_from_row_total [of example_node_row ds] by (auto simp: example_node_row_def)
  then have "pr_node_id entry = format_identifier Node 1"
    by (auto simp: entry_from_row_def Let_def example_node_row_def split: if_split_asm prod.split_asm)
  with entry assms show thesis by (intro that [of entry]) (simp_all add: list_peer_registry_entries_def)
qed

lemma example_tag_valid:
  "validate_transaction example_tag = Inr ()" "validate_authenticated_transaction h ds example_tag = Inr ()"
  "service_group_scope_id example_tag = Inr None" "tx_origin_node_id example_tag = Some (format_identifier Node 1)"
proof -
  show "validate_transaction example_tag = Inr ()"
    unfolding example_tag_def by (rule example_transaction_valid) simp
  show "validate_authenticated_transaction h ds example_tag = Inr ()"
    by (simp add: validate_authenticated_transaction_def example_tag_def example_transaction_def starts_with_def)
  show "service_group_scope_id example_tag = Inr None"
    by (simp add: service_group_scope_id_def transaction_scope_def example_tag_def example_transaction_def
        SERVICE_GROUP_SCOPED_TRANSACTION_TYPES_def CONTROL_TRANSACTION_TYPES_def starts_with_def
        reject_unexpected_service_group_id_def dict_has_def)
  show "tx_origin_node_id example_tag = Some (format_identifier Node 1)"
    by (simp add: example_tag_def example_transaction_def)
qed

lemma example_tag_steps:
  assumes "t_has nd_node_id (format_identifier Node 1) (ds_nodes ds)" "ds_transactions ds = []" "ds_tags ds = []"
  obtains ds1 ds2 ds3 where "insert_transaction ds example_tag = Inr ds1" "apply_transaction (pe_host (example_env n)) ds1 example_tag = Inr ds2"
    "mark_transaction_applied (h_now (pe_host (example_env n))) ds2 (tx_transaction_id example_tag) = Inr ds3"
    "ds_nodes ds3 = ds_nodes ds" "ds_node_private ds3 = ds_node_private ds" "log_ids ds3 = [tx_transaction_id example_tag]"
    "get_transaction ds3 (tx_transaction_id example_tag) =
      Inr ((tx_norm example_tag)\<lparr>tx_state := ''applied'', tx_applied_at := Some (h_now (pe_host (example_env n)))\<rparr>)"
proof -
  let ?row = "transaction_to_row example_tag (sha256 (canonical_json_bytes (tx_payload example_tag)))"
  let ?ds1 = "ds\<lparr>ds_transactions := [?row]\<rparr>"
  let ?ds2 = "?ds1\<lparr>ds_tags := [\<lparr>tg_tag_id = ''tag'', tg_name = ''prod'', tg_created_at = ''2026-01-01T00:00:00Z''\<rparr>]\<rparr>"
  let ?ds3 = "?ds2\<lparr>ds_transactions := [?row\<lparr>tr_state := ''applied'', tr_applied_at := Some (h_now (pe_host (example_env n)))\<rparr>]\<rparr>"
  have ins: "insert_transaction ds example_tag = Inr ?ds1"
    unfolding example_tag_def
    by (subst example_transaction_insert) (simp_all add: assms example_transaction_def t_has_simps)
  have texts: "nonblank_text (JStr ''tag'') = Some ''tag''" "nonblank_text (JStr ''prod'') = Some ''prod''" by code_simp+
  have app: "apply_transaction (pe_host (example_env n)) ?ds1 example_tag = Inr ?ds2"
    by (simp add: apply_transaction_def example_tag_def example_transaction_def apply_vocabulary_tag_upsert_def
        vp_required_text_def payload_get_def texts t_upsert_def t_has_def assms)
  have mark: "mark_transaction_applied (h_now (pe_host (example_env n))) ?ds2 (tx_transaction_id example_tag) = Inr ?ds3"
    by (simp add: mark_transaction_applied_def example_tag_def example_transaction_def transaction_to_row_def t_get_Cons t_update_def)
  have "payload_hash_hex_to_bytes (tx_payload_hash example_tag) = Inr (sha256 (canonical_json_bytes (tx_payload example_tag)))"
    by (simp add: example_tag_def example_transaction_def hash_payload_bytes)
  note read = transaction_from_row_mark [OF transaction_row_roundtrip [OF example_tag_wf example_tag_valid(1) this]]
  have get: "get_transaction ?ds3 (tx_transaction_id example_tag) =
      Inr ((tx_norm example_tag)\<lparr>tx_state := ''applied'', tx_applied_at := Some (h_now (pe_host (example_env n)))\<rparr>)"
    using read by (simp add: get_transaction_def t_get_Cons) (simp add: transaction_to_row_def)
  show thesis
    by (rule that [OF ins app mark _ _ _ get]) (simp_all add: log_ids_def transaction_to_row_def)
qed

lemma example_tag_submitted:
  obtains r ds' where "submit_transaction (example_env 1) example_datastore example_tag LOCAL_TRANSACTION_POLICY = Inr (r, ds')"
    "\<not> su_duplicate r" "log_ids ds' = [tx_transaction_id example_tag]"
    "get_transaction ds' (tx_transaction_id example_tag) =
      Inr ((tx_norm example_tag)\<lparr>tx_state := ''applied'', tx_applied_at := Some (h_now (pe_host (example_env 1)))\<rparr>)"
proof -
  obtain ds1 ds2 ds3 where d: "insert_transaction example_datastore example_tag = Inr ds1"
    "apply_transaction (pe_host (example_env 1)) ds1 example_tag = Inr ds2"
    "mark_transaction_applied (h_now (pe_host (example_env 1))) ds2 (tx_transaction_id example_tag) = Inr ds3"
    "ds_nodes ds3 = ds_nodes example_datastore" "ds_node_private ds3 = ds_node_private example_datastore"
    "log_ids ds3 = [tx_transaction_id example_tag]"
    "get_transaction ds3 (tx_transaction_id example_tag) =
      Inr ((tx_norm example_tag)\<lparr>tx_state := ''applied'', tx_applied_at := Some (h_now (pe_host (example_env 1)))\<rparr>)"
    by (rule example_tag_steps [of example_datastore 1])
      (simp_all add: example_datastore_def empty_datastore_def example_node_row_def t_has_simps)
  obtain entry where entry: "list_peer_registry_entries ds3 = Inr [entry]" "pr_node_id entry = format_identifier Node 1"
    by (rule example_node_alone [of ds3]) (simp_all add: d(4,5) example_datastore_def empty_datastore_def)
  have origin: "tx_origin_node_id example_tag = Some (pr_node_id entry)" by (simp add: example_tag_valid(4) entry(2))
  show thesis
    by (rule that [OF lone_submission [OF example_tag_valid(1,2) d(1-3) entry(1) origin example_tag_valid(3)] _ d(6,7)]) simp
qed

theorem engine_invariant_witness:
  "\<exists>ds'. engine_step\<^sup>*\<^sup>* example_datastore ds' \<and> ds' \<noteq> example_datastore \<and> datastore_wf ds' \<and>
    prefix (log_ids example_datastore) (log_ids ds')"
proof -
  obtain r ds' where s: "submit_transaction (example_env 1) example_datastore example_tag LOCAL_TRANSACTION_POLICY = Inr (r, ds')"
    "\<not> su_duplicate r" "log_ids ds' = [tx_transaction_id example_tag]" by (rule example_tag_submitted)
  have steps: "engine_step\<^sup>*\<^sup>* example_datastore ds'"
    using engine_step.submit [OF s(1) example_tag_wf] by (rule r_into_rtranclp)
  have "ds' \<noteq> example_datastore"
    using s(3) by (auto simp: log_ids_def example_datastore_def empty_datastore_def)
  with steps engine_invariant [OF steps example_datastore_wf] show ?thesis by blast
qed

theorem submission_effect_witness:
  "\<exists>r ds'. submit_transaction (example_env 1) example_datastore example_tag LOCAL_TRANSACTION_POLICY = Inr (r, ds') \<and>
    log_ids ds' = [tx_transaction_id example_tag] \<and> (\<exists>u. get_transaction ds' (tx_transaction_id example_tag) = Inr u \<and>
      tx_state u = ''applied'')"
proof -
  obtain r ds' where s: "submit_transaction (example_env 1) example_datastore example_tag LOCAL_TRANSACTION_POLICY = Inr (r, ds')"
    "\<not> su_duplicate r" by (rule example_tag_submitted)
  from submission_effect [OF s(1) example_tag_wf insertI1] s(2)
  have "log_ids ds' = log_ids example_datastore @ [tx_transaction_id example_tag]"
    "get_transaction ds' (tx_transaction_id example_tag) =
      Inr ((tx_norm example_tag)\<lparr>tx_state := ''applied'', tx_applied_at := Some (h_now (pe_host (example_env 1)))\<rparr>)" by simp_all
  with s(1) show ?thesis by (auto simp: log_ids_def example_datastore_def empty_datastore_def)
qed

lemma example_support:
  assumes "ty \<noteq> ''secret.set''" "ty \<noteq> ''secret.delete''"
  obtains o' c g i where "bootstrap_replay_support_rows ds [example_transaction ty p u] = Inr (ds\<lparr>ds_organizations := o', ds_clients := c,
    ds_peer_groups := g, ds_nodes := t_insert_ignore nd_node_id (placeholder_node (format_identifier Node 1) i) (ds_nodes ds)\<rparr>)"
proof -
  have id: "is_identifier Node (format_identifier Node 1)" by simp
  have s: "replay_support_rows [example_transaction ty p u] = Inr (no_support\<lparr>rs_origin_node_ids := [format_identifier Node 1]\<rparr>)"
    using assms is_identifier_not_Nil [OF id] validate_identifier_ok [OF id]
    by (simp add: replay_support_rows_def support_row_def support_origin_def support_owner_def support_scope_def
        support_groups_def example_transaction_def truthy_def no_support_def rs_validate_identifier_def)
  obtain g where g: "local_peer_group_id_for_node (format_identifier Node 1) = Inr g"
    "local_peer_group_display_name g = Inr (''peergroup-'' @ take 8 (drop 3 g))"
    using local_peer_group_ok [OF id] by blast
  show thesis
    by (rule that) (simp add: bootstrap_replay_support_rows_def s no_support_def support_node_def g Let_def support_client_def)
qed

theorem duplicate_submission_witness:
  "\<exists>r ds' ds1. submit_transaction (example_env 1) example_datastore example_tag LOCAL_TRANSACTION_POLICY = Inr (r, ds') \<and>
    submit_transaction (example_env 1) ds' example_tag LOCAL_TRANSACTION_POLICY =
      Inl (DuplicateTransactionError (tx_transaction_id example_tag)) \<and>
    submit_transaction (example_env 1) ds' example_tag REMOTE_TRANSACTION_POLICY =
      Inr (duplicate_result example_tag REMOTE_TRANSACTION_POLICY, ds1)"
proof -
  obtain r ds' where s: "submit_transaction (example_env 1) example_datastore example_tag LOCAL_TRANSACTION_POLICY = Inr (r, ds')"
    "\<not> su_duplicate r" "log_ids ds' = [tx_transaction_id example_tag]"
    "get_transaction ds' (tx_transaction_id example_tag) =
      Inr ((tx_norm example_tag)\<lparr>tx_state := ''applied'', tx_applied_at := Some (h_now (pe_host (example_env 1)))\<rparr>)"
    by (rule example_tag_submitted)
  have valid: "validate_transaction example_tag = Inr ()"
    unfolding example_tag_def by (rule example_transaction_valid) simp
  have auth: "validate_authenticated_transaction h ds' example_tag = Inr ()" for h
    by (simp add: validate_authenticated_transaction_def example_tag_def example_transaction_def starts_with_def)
  have ints: "\<forall>v \<in> {tx_transaction_version example_tag, tx_payload_version example_tag, tx_protocol_version example_tag}.
      sqlite_int v = Inr v"
    by (simp add: example_tag_def example_transaction_def sqlite_int_def)
  obtain ds1 where boot: "bootstrap_replay_support_rows ds' [example_tag] = Inr ds1"
    using example_support [of "''vocabulary.tag.upsert''" ds' "[(''name'', JStr ''prod''), (''tag_id'', JStr ''tag'')]" 6]
    by (auto simp: example_tag_def)
  from duplicate_submission [OF valid auth ints boot s(4)] s(1) show ?thesis by (auto simp: tx_norm_def)
qed

definition example_request :: Transaction where
  "example_request = example_transaction ''peer.admission.request'' [(''node_id'', JStr (format_identifier Node 2))] 8"


end
