(* ===== verification/Kit_Replay.thy ===== *)
theory Kit_Replay
  imports Kit_Engine
begin

section \<open>Rebuilding the secrets from the log\<close>

text \<open>
  The refinement behind \<open>replay.py\<close>: the secret tables are a function of the log. A history of secret
  and vocabulary transactions that was submitted one by one, and the replay of its log over emptied
  tables, run in lockstep: the replayed payloads are the submitted ones in canonical member order, and
  the tables differ at most in the time stamps of the tag assignments.
\<close>

subsection \<open>A projection reads a payload and its canonical form alike\<close>

lemma payload_get_canon: "dict_wf p \<Longrightarrow> payload_get (canon_obj p) k = map_option canon (payload_get p k)"
  by (auto simp: payload_get_def map_of_canon_obj split: option.split json.split)

lemma nonblank_text_canon [simp]: "nonblank_text (canon j) = nonblank_text j"
  by (cases j) (simp_all add: nonblank_text_def)

lemma rmapM_canon: "(\<And>j. f (canon j) = f j) \<Longrightarrow> rmapM f (map canon js) = rmapM f js"
  by (induction js) simp_all

lemma dict_has_canon: "dict_wf p \<Longrightarrow> dict_has k (canon_obj p) = dict_has k p"
  by (simp add: dict_has_iff map_of_canon_obj)

lemma pj_canon:
  assumes "dict_wf p"
  shows "pj_required_text (canon_obj p) k = pj_required_text p k" "pj_optional_text (canon_obj p) k = pj_optional_text p k"
    "pj_optional_int (canon_obj p) k = pj_optional_int p k" "pj_text_list (canon_obj p) k = pj_text_list p k"
    "tags_from_payload (canon_obj p) = tags_from_payload p"
    "pj_validate_required_fields (canon_obj p) fs = pj_validate_required_fields p fs"
    "pj_custom_metadata (canon_obj p) = rbind (pj_custom_metadata p) (\<lambda>c. Inr (canon_obj c))"
proof -
  show "pj_required_text (canon_obj p) k = pj_required_text p k" "pj_optional_text (canon_obj p) k = pj_optional_text p k"
    "pj_optional_int (canon_obj p) k = pj_optional_int p k"
    by (simp_all add: pj_required_text_def pj_optional_text_def pj_optional_int_def payload_get_canon [OF assms]
        split: option.split json.split)
  show "pj_validate_required_fields (canon_obj p) fs = pj_validate_required_fields p fs"
    by (simp add: pj_validate_required_fields_def dict_has_canon [OF assms])
  show "pj_text_list (canon_obj p) k = pj_text_list p k" "tags_from_payload (canon_obj p) = tags_from_payload p"
    by (auto simp: pj_text_list_def tags_from_payload_def map_of_canon_obj [OF assms] rmapM_canon split: option.split json.split)
  have keys: "set (map fst (canon_obj c)) = set (map fst c)" for c
    by (simp add: canon_obj_def image_image split_def)
  have none: "canon_obj [] = []" by (simp add: canon_obj_def)
  show "pj_custom_metadata (canon_obj p) = rbind (pj_custom_metadata p) (\<lambda>c. Inr (canon_obj c))"
  proof (cases "map_of p ''custom''")
    case None
    then show ?thesis by (simp add: pj_custom_metadata_def map_of_canon_obj [OF assms] none)
  next
    case (Some j)
    then show ?thesis
      by (cases j) (simp_all add: pj_custom_metadata_def map_of_canon_obj [OF assms] canon_JObj keys
          del: canon.simps(2) set_map)
  qed
qed

lemma pj_derived_canon:
  assumes "dict_wf p"
  shows "pj_required_identifier (canon_obj p) k ty = pj_required_identifier p k ty"
    "pj_optional_identifier (canon_obj p) k ty = pj_optional_identifier p k ty"
    "pj_required_b64 (canon_obj p) k = pj_required_b64 p k" "pj_optional_b64 (canon_obj p) k = pj_optional_b64 p k"
    "projection_name h (canon_obj p) en mode = projection_name h p en mode"
  by (simp_all add: pj_required_identifier_def pj_optional_identifier_def pj_required_b64_def pj_optional_b64_def
      projection_name_def pj_canon [OF assms])

lemma secret_values_canon:
  "dict_wf p \<Longrightarrow> secret_values h (canon_obj p) i ids mode en ep st c u = secret_values h p i ids mode en ep st c u"
  by (simp only: secret_values_def pj_canon pj_derived_canon)

text \<open>A logged transaction as replay reads it.\<close>

definition replayed_as :: "Transaction \<Rightarrow> Transaction \<Rightarrow> bool" where
  "replayed_as t t' \<longleftrightarrow> (\<exists>a. t' = (tx_norm t)\<lparr>tx_state := ''applied'', tx_applied_at := a\<rparr>)"

lemma replayed_as_fields:
  assumes "replayed_as t t'"
  shows "tx_payload t' = canon_obj (tx_payload t)" "tx_created_at t' = tx_created_at t"
    "tx_transaction_type t' = tx_transaction_type t" "tx_transaction_id t' = tx_transaction_id t"
  using assms by (auto simp: replayed_as_def tx_norm_def)

definition replayed_plan :: "secret_plan \<Rightarrow> secret_plan" where
  "replayed_plan pl = pl\<lparr>sp_custom := canon_obj (sp_custom pl)\<rparr>"

lemma plan_secret_canon:
  assumes "replayed_as t t'" "dict_wf (tx_payload t)"
  shows "plan_secret h t' i et ek en ep mode st c u = rbind (plan_secret h t i et ek en ep mode st c u) (\<lambda>pl. Inr (replayed_plan pl))"
  unfolding plan_secret_def Let_def replayed_as_fields [OF assms(1)] pj_canon [OF assms(2)] secret_values_canon [OF assms(2)]
    created_at_or_fail_def
  by (simp add: rbind_assoc replayed_plan_def)

lemma plans_canon:
  assumes "replayed_as t t'" "dict_wf (tx_payload t)"
  shows "set_plan h mode t' = rbind (set_plan h mode t) (\<lambda>pl. Inr (replayed_plan pl))"
    "delete_plan h mode t' = rbind (delete_plan h mode t) (\<lambda>pl. Inr (replayed_plan pl))"
  unfolding set_plan_def delete_plan_def Let_def replayed_as_fields [OF assms(1)] pj_canon [OF assms(2)]
    pj_derived_canon [OF assms(2)] plan_secret_canon [OF assms]
  by (simp_all add: rbind_assoc)

text \<open>Plans use the cipher and the storage key of the host, not its clock.\<close>

definition same_key :: "host \<Rightarrow> host \<Rightarrow> bool" where
  "same_key h h' \<longleftrightarrow> h_aead h' = h_aead h \<and> h_storage_key h' = h_storage_key h"

lemma plans_same_key:
  assumes "same_key h h'"
  shows "set_plan h' mode t = set_plan h mode t" "delete_plan h' mode t = delete_plan h mode t"
proof -
  have d: "decode_storage_text h' = decode_storage_text h"
    using assms by (intro ext) (simp add: decode_storage_text_def same_key_def)
  have "plan_secret h' = plan_secret h"
    by (intro ext) (simp only: plan_secret_def secret_values_def projection_name_def d)
  then show "set_plan h' mode t = set_plan h mode t" "delete_plan h' mode t = delete_plan h mode t"
    by (simp_all only: set_plan_def delete_plan_def d)
qed

lemma write_custom_canon: "write_custom_metadata ds i (canon_obj cu) u = write_custom_metadata ds i cu u"
proof -
  have "sort_key fst (canon_obj cu) = map (\<lambda>(k, v). (k, canon v)) (sort_key fst cu)"
    by (simp add: canon_obj_def sort_key_map split_def sort_key_id_if_sorted)
  then show ?thesis
    by (simp add: write_custom_metadata_def split_def canonical_json_text_def canon_idem comp_def)
qed

subsection \<open>One transaction, submitted and replayed\<close>

text \<open>The rows that secrets refer to.\<close>

definition parents_in :: "datastore \<Rightarrow> datastore \<Rightarrow> bool" where
  "parents_in A B \<longleftrightarrow> (\<forall>k.
     (t_has ow_owner_id k (ds_owners A) \<longrightarrow> t_has ow_owner_id k (ds_owners B)) \<and>
     (t_has sg_service_group_id k (ds_service_groups A) \<longrightarrow> t_has sg_service_group_id k (ds_service_groups B)) \<and>
     (t_has vo_id k (ds_entry_types A) \<longrightarrow> t_has vo_id k (ds_entry_types B)) \<and>
     (t_has vo_id k (ds_entry_kinds A) \<longrightarrow> t_has vo_id k (ds_entry_kinds B)) \<and>
     (t_has tg_tag_id k (ds_tags A) \<longrightarrow> t_has tg_tag_id k (ds_tags B)))"

lemma parents_in_trans: "parents_in A B \<Longrightarrow> parents_in B C \<Longrightarrow> parents_in A C"
  by (simp add: parents_in_def)

lemma parents_in_refl: "parents_in A A"
  by (simp add: parents_in_def)

text \<open>The secret tables of a replay against those of the original run.\<close>

definition same_secrets :: "string \<Rightarrow> datastore \<Rightarrow> datastore \<Rightarrow> bool" where
  "same_secrets now A B \<longleftrightarrow> ds_secrets B = ds_secrets A \<and> ds_domains B = ds_domains A \<and> ds_custom B = ds_custom A \<and>
     ds_tag_assignments B = map (restamp (\<lambda>_. now)) (ds_tag_assignments A)"

lemma replay_commit:
  assumes A: "commit_plan now A pl = Inr A'" and sim: "same_secrets now' A B" and fk: "parents_in A' B"
  obtains B' where "commit_plan now' B (replayed_plan pl) = Inr B'" "same_secrets now' A' B'"
    "B' = B\<lparr>ds_secrets := ds_secrets B', ds_tag_assignments := ds_tag_assignments B', ds_domains := ds_domains B',
      ds_custom := ds_custom B'\<rparr>"
proof -
  define row i where "row = sp_row pl" and "i = sc_secret_id row"
  note eff = commit_plan_effect [OF A, folded row_def, folded i_def]
  note s = sim [unfolded same_secrets_def]
  have keep: "si_secret_id (restamp g r) = si_secret_id r" for g r by (simp add: restamp_def)
  let ?B = "B\<lparr>ds_secrets := secret_upsert row (ds_secrets B),
           ds_tag_assignments := map (restamp (\<lambda>_. now')) (ds_tag_assignments A'),
           ds_domains := ds_domains (write_domains B i (sp_domains pl) (sc_updated_at row)),
           ds_custom := ds_custom (write_custom_metadata B i (canon_obj (sp_custom pl)) (sc_updated_at row))\<rparr>"
  have run: "commit_plan now' B (replayed_plan pl) = Inr ?B"
    unfolding replayed_plan_def
  proof (rule commit_plan_rerun [OF A row_def i_def])
    show "\<forall>q\<in>set (ds_secrets B). sc_locator_hash q = sc_locator_hash row \<longrightarrow> sc_secret_id q = i" using eff(9) s by simp
    show "secret_fk_ok B row" using eff(8) fk by (simp add: secret_fk_ok_def parents_in_def)
    show "\<And>k. t_has tg_tag_id k (ds_tags A') \<Longrightarrow> t_has tg_tag_id k (ds_tags B)" using fk by (simp add: parents_in_def)
    show "filter (\<lambda>r. si_secret_id r \<noteq> i) (ds_tag_assignments B) =
        map (restamp (\<lambda>_. now')) (filter (\<lambda>r. si_secret_id r \<noteq> i) (ds_tag_assignments A))"
      using s by (simp add: filter_map comp_def keep)
  qed simp
  moreover have "same_secrets now' A' ?B"
    using s by (simp add: same_secrets_def eff(1,3,4) write_custom_canon) (simp add: write_domains_def write_custom_metadata_def)
  ultimately show thesis by (rule that) simp
qed

lemma secret_plan_of:
  assumes "apply_secret_set_projection h A t = Inr A' \<and> ty = ''secret.set'' \<or> apply_secret_delete_projection h A t = Inr A' \<and> ty = ''secret.delete''"
    and "replayed_as t t'" "dict_wf (tx_payload t)" "same_key h h'" "read_sqlite_storage_mode B = read_sqlite_storage_mode A"
  obtains pl where "commit_plan (h_now h) A pl = Inr A'"
    "\<forall>B'. commit_plan (h_now h') B (replayed_plan pl) = Inr B' \<longrightarrow>
      (if ty = ''secret.set'' then apply_secret_set_projection h' B t' else apply_secret_delete_projection h' B t') = Inr B'"
proof -
  from assms(1) obtain mode pl where m: "read_sqlite_storage_mode A = Inr mode"
    "(if ty = ''secret.set'' then set_plan h mode t else delete_plan h mode t) = Inr pl" "commit_plan (h_now h) A pl = Inr A'"
    unfolding apply_secret_set_iff apply_secret_delete_iff by auto
  have "(if ty = ''secret.set'' then set_plan h' mode t' else delete_plan h' mode t') = Inr (replayed_plan pl)"
    using m(2) plans_canon [OF assms(2,3)] plans_same_key [OF assms(4)] by (simp split: if_split_asm)
  with m assms(5) show thesis
    by (intro that [OF m(3)]) (simp add: apply_secret_set_iff apply_secret_delete_iff split: if_split_asm)
qed

lemma vocabulary_parents:
  assumes "apply_vocabulary_entry_type_upsert ds t = Inr ds' \<or> apply_vocabulary_entry_kind_upsert ds t = Inr ds' \<or>
    apply_vocabulary_tag_upsert ds t = Inr ds'"
  shows "parents_in ds ds'" "same_secrets now ds B \<Longrightarrow> same_secrets now ds' B"
proof -
  show "parents_in ds ds'"
    using assms by (auto simp: apply_vocabulary_entry_type_upsert_def apply_vocabulary_entry_kind_upsert_def
        apply_vocabulary_tag_upsert_def rbind_Inr_iff upsert_vocabulary_row_def parents_in_def
        split: option.split_asm if_split_asm)
  show "same_secrets now ds' B" if "same_secrets now ds B"
    using assms that by (auto simp: same_secrets_def dest: vocabulary_frame)
qed

lemma vocabulary_canon:
  assumes "dict_wf p"
  shows "vp_required_text (canon_obj p) k = vp_required_text p k" "vp_optional_text (canon_obj p) k = vp_optional_text p k"
    "vp_required_identifier (canon_obj p) k ty = vp_required_identifier p k ty"
proof -
  show r: "vp_required_text (canon_obj p) k = vp_required_text p k" for k
    by (cases "payload_get p k") (simp_all add: vp_required_text_def payload_get_canon [OF assms])
  show "vp_optional_text (canon_obj p) k = vp_optional_text p k"
    by (simp add: vp_optional_text_def pj_canon [OF assms])
  show "vp_required_identifier (canon_obj p) k ty = vp_required_identifier p k ty"
    by (simp add: vp_required_identifier_def r)
qed

text \<open>A vocabulary transaction that is in effect stays in effect when it is replayed.\<close>

lemma vocabulary_replayed:
  assumes "apply_transaction h A t = Inr A" and "tx_transaction_type t \<in>
      {''vocabulary.entry_type.upsert'', ''vocabulary.entry_kind.upsert'', ''vocabulary.tag.upsert''}"
    and "replayed_as t t'" "dict_wf (tx_payload t)"
    and "ds_entry_types B = ds_entry_types A" "ds_entry_kinds B = ds_entry_kinds A" "ds_tags B = ds_tags A"
  shows "apply_transaction h' B t' = Inr B"
proof -
  note f = replayed_as_fields [OF assms(3)] and v = vocabulary_canon [OF assms(4)]
  have tables: "A\<lparr>ds_entry_types := x\<rparr> = A \<longleftrightarrow> x = ds_entry_types A" "A\<lparr>ds_entry_kinds := y\<rparr> = A \<longleftrightarrow> y = ds_entry_kinds A"
    "A\<lparr>ds_tags := z\<rparr> = A \<longleftrightarrow> z = ds_tags A" for x y z by (cases A, auto)+
  consider "tx_transaction_type t = ''vocabulary.entry_type.upsert''" "apply_vocabulary_entry_type_upsert A t = Inr A"
    | "tx_transaction_type t = ''vocabulary.entry_kind.upsert''" "apply_vocabulary_entry_kind_upsert A t = Inr A"
    | "tx_transaction_type t = ''vocabulary.tag.upsert''" "apply_vocabulary_tag_upsert A t = Inr A"
    using assms(1,2) by (auto simp: apply_transaction_def)
  then show ?thesis
  proof cases
    case 1
    then have "apply_vocabulary_entry_type_upsert B t' = Inr B"
      unfolding apply_vocabulary_entry_type_upsert_def f v assms(5)
      by (auto simp: rbind_Inr_iff tables assms(5) [symmetric])
    with 1(1) f(3) show ?thesis by (simp add: apply_transaction_def)
  next
    case 2
    then have "apply_vocabulary_entry_kind_upsert B t' = Inr B"
      unfolding apply_vocabulary_entry_kind_upsert_def f v assms(6)
      by (auto simp: rbind_Inr_iff tables assms(6) [symmetric])
    with 2(1) f(3) show ?thesis by (simp add: apply_transaction_def)
  next
    case 3
    from 3(2) obtain i name at where s: "vp_required_text (tx_payload t) ''tag_id'' = Inr i"
      "vp_required_text (tx_payload t) ''name'' = Inr name" "tx_created_at t = Some at"
      and u: "\<not> (\<exists>q \<in> set (ds_tags A). tg_name q = name \<and> tg_tag_id q \<noteq> i)"
      and "A = A\<lparr>ds_tags := t_upsert tg_tag_id \<lparr>tg_tag_id = i, tg_name = name, tg_created_at = at\<rparr>
        (\<lambda>q. q\<lparr>tg_name := name\<rparr>) (ds_tags A)\<rparr>"
      unfolding apply_vocabulary_tag_upsert_def by (elim rbind_InrE) (auto split: option.split_asm if_split_asm)
    then have rows: "t_upsert tg_tag_id \<lparr>tg_tag_id = i, tg_name = name, tg_created_at = at\<rparr>
        (\<lambda>q. q\<lparr>tg_name := name\<rparr>) (ds_tags B) = ds_tags B" using tables(3) assms(7) by metis
    have "apply_vocabulary_tag_upsert B t' = Inr B"
      using u unfolding apply_vocabulary_tag_upsert_def f v s rbind_simps option.case rows by (simp add: assms(7))
    with 3(1) f(3) show ?thesis by (simp add: apply_transaction_def)
  qed
qed

lemma replayed_valid:
  assumes "replayed_as t t'" "validate_transaction t = Inr ()" "tx_transaction_type t \<in> {''secret.set'', ''secret.delete'',
      ''vocabulary.entry_type.upsert'', ''vocabulary.entry_kind.upsert'', ''vocabulary.tag.upsert''}"
  shows "submit_transaction e ds t' REPLAY_TRANSACTION_POLICY = rbind (apply_transaction (pe_host e) ds t') (\<lambda>ds'.
    Inr (\<lparr>su_transaction_id = tx_transaction_id t, su_mode = REPLAY, su_persisted = False, su_applied = True,
      su_duplicate = False, su_outbound_envelopes_requested = False\<rparr>, ds'))"
proof -
  have "validate_transaction (tx_norm t) = Inr ()" using assms(2) by (simp add: validate_tx_norm)
  then have "validate_transaction t' = Inr ()"
    using assms(1) by (auto simp: replayed_as_def validate_transaction_def rbind_Inr_iff TRANSACTION_STATES_def)
  moreover have "validate_authenticated_transaction (pe_host e) ds t' = Inr ()"
    using assms(3) replayed_as_fields(3) [OF assms(1)] by (auto simp: validate_authenticated_transaction_def starts_with_def)
  ultimately show ?thesis
    using replayed_as_fields(4) [OF assms(1)]
    by (simp add: submit_transaction_def REPLAY_TRANSACTION_POLICY_def complete_submission_def)
qed

subsection \<open>Histories\<close>

text \<open>
  Accepted submissions of new secret and vocabulary transactions, one after another, each with its own
  clock, peers and policy, by nodes that share the storage key of \<open>h\<close>.
\<close>

inductive submitted :: "host \<Rightarrow> datastore \<Rightarrow> Transaction list \<Rightarrow> datastore \<Rightarrow> bool" for h where
  none: "submitted h ds [] ds"
| more: "submit_transaction e ds t p = Inr (r, ds1) \<Longrightarrow> \<not> su_duplicate r \<Longrightarrow>
    p \<in> {LOCAL_TRANSACTION_POLICY, REMOTE_TRANSACTION_POLICY, RESTORE_TRANSACTION_POLICY} \<Longrightarrow> tx_wf t \<Longrightarrow>
    tx_transaction_type t \<in> {''secret.set'', ''secret.delete'', ''vocabulary.entry_type.upsert'',
      ''vocabulary.entry_kind.upsert'', ''vocabulary.tag.upsert''} \<Longrightarrow>
    same_key (pe_host e) h \<Longrightarrow> submitted h ds1 ts ds2 \<Longrightarrow> submitted h ds (t # ts) ds2"

lemma submit_validates: "submit_transaction e ds t p = Inr x \<Longrightarrow> validate_transaction t = Inr ()"
  by (auto simp: submit_transaction_def rbind_Inr_iff)

lemma secret_parents:
  assumes "commit_plan now ds pl = Inr ds'"
  shows "parents_in ds ds'"
proof -
  note eff = commit_plan_effect [OF assms]
  have "ds_owners ds' = ds_owners ds" "ds_service_groups ds' = ds_service_groups ds" by (subst eff(10), simp)+
  then show ?thesis
    using eff(5,6,7) by (auto simp: parents_in_def intro: t_has_prefix [OF _ prefix_ensure_vocabulary] t_has_prefix)
qed

lemma support_parents: "support_extends ds ds' \<Longrightarrow> parents_in ds (ds'\<lparr>ds_transactions := l\<rparr>)"
  by (auto simp: parents_in_def support_keeps) (auto simp: support_extends_def intro: t_has_prefix)

lemma policies:
  assumes "p \<in> {LOCAL_TRANSACTION_POLICY, REMOTE_TRANSACTION_POLICY, RESTORE_TRANSACTION_POLICY}"
  shows "po_persist_transaction p" "po_apply_projection p" "po_mark_applied p"
  using assms by (auto simp: LOCAL_TRANSACTION_POLICY_def REMOTE_TRANSACTION_POLICY_def RESTORE_TRANSACTION_POLICY_def)

lemma apply_history_cases:
  assumes "apply_transaction h ds t = Inr ds'" and "tx_transaction_type t \<in> {''secret.set'', ''secret.delete'',
    ''vocabulary.entry_type.upsert'', ''vocabulary.entry_kind.upsert'', ''vocabulary.tag.upsert''}"
  obtains (secret) "apply_secret_set_projection h ds t = Inr ds' \<and> tx_transaction_type t = ''secret.set'' \<or>
      apply_secret_delete_projection h ds t = Inr ds' \<and> tx_transaction_type t = ''secret.delete''"
  | (vocabulary) "tx_transaction_type t \<in> {''vocabulary.entry_type.upsert'', ''vocabulary.entry_kind.upsert'', ''vocabulary.tag.upsert''}"
      "apply_vocabulary_entry_type_upsert ds t = Inr ds' \<or> apply_vocabulary_entry_kind_upsert ds t = Inr ds' \<or>
        apply_vocabulary_tag_upsert ds t = Inr ds'"
  using assms by (auto simp: apply_transaction_def)

lemma apply_history_parents:
  assumes "apply_transaction h ds t = Inr ds'" and "tx_transaction_type t \<in> {''secret.set'', ''secret.delete'',
    ''vocabulary.entry_type.upsert'', ''vocabulary.entry_kind.upsert'', ''vocabulary.tag.upsert''}"
  shows "parents_in ds ds'" "ds_peer_endpoints ds' = ds_peer_endpoints ds"
proof -
  from assms have "parents_in ds ds' \<and> ds_peer_endpoints ds' = ds_peer_endpoints ds"
  proof (cases rule: apply_history_cases)
    case secret
    then obtain pl where "commit_plan (h_now h) ds pl = Inr ds'" by (auto simp: apply_secret_set_iff apply_secret_delete_iff)
    moreover have "ds_peer_endpoints ds' = ds_peer_endpoints ds" using secret secret_frame [of h ds t ds'] by auto
    ultimately show ?thesis using secret_parents by blast
  next
    case vocabulary
    then show ?thesis using vocabulary_parents(1) [OF vocabulary(2)] by (auto dest: vocabulary_frame)
  qed
  then show "parents_in ds ds'" "ds_peer_endpoints ds' = ds_peer_endpoints ds" by simp_all
qed

text \<open>What one accepted submission adds to the log and to the parent rows.\<close>

lemma submitted_step:
  assumes "submit_transaction e ds t p = Inr (r, ds1)" "\<not> su_duplicate r"
    and "p \<in> {LOCAL_TRANSACTION_POLICY, REMOTE_TRANSACTION_POLICY, RESTORE_TRANSACTION_POLICY}" "tx_wf t"
    and "tx_transaction_type t \<in> {''secret.set'', ''secret.delete'', ''vocabulary.entry_type.upsert'',
      ''vocabulary.entry_kind.upsert'', ''vocabulary.tag.upsert''}"
  obtains row t' where "ds_transactions ds1 = ds_transactions ds @ [row]" "transaction_from_row row = Inr t'" "replayed_as t t'"
    "tr_state row = ''applied''" "parents_in ds ds1" "ds_metadata ds1 = ds_metadata ds" "ds_peer_endpoints ds1 = ds_peer_endpoints ds"
proof -
  obtain a l b g new row where d: "support_extends ds a"
    "apply_transaction (pe_host e) (a\<lparr>ds_transactions := l\<rparr>) t = Inr b"
    "ds1 = b\<lparr>ds_transactions := ds_transactions ds @ [row], ds_peer_groups := g, ds_envelopes := ds_envelopes b @ new\<rparr>"
    "transaction_from_row row = Inr ((tx_norm t)\<lparr>tx_state := ''applied'', tx_applied_at := Some (h_now (pe_host e))\<rparr>)"
    "tr_state row = ''applied''" by (rule submission_logged [OF assms(1,4,2) policies [OF assms(3)]])
  note ap = apply_history_parents [OF d(2) assms(5)] and keeps = apply_transaction_keeps [OF d(2)]
  have "parents_in ds b" using support_parents [OF d(1)] ap(1) by (rule parents_in_trans)
  then have "parents_in ds ds1" by (simp add: d(3) parents_in_def)
  then show thesis
    using d(4,5) ap(2) keeps support_keeps [OF d(1)]
    by (intro that [of row "(tx_norm t)\<lparr>tx_state := ''applied'', tx_applied_at := Some (h_now (pe_host e))\<rparr>"])
      (auto simp: d(3) replayed_as_def)
qed

text \<open>The same transaction replayed over tables that agree with the original ones.\<close>

lemma replay_step:
  assumes step: "submit_transaction e ds t p = Inr (r, ds1)" "\<not> su_duplicate r"
      "p \<in> {LOCAL_TRANSACTION_POLICY, REMOTE_TRANSACTION_POLICY, RESTORE_TRANSACTION_POLICY}" "tx_wf t"
      "tx_transaction_type t \<in> {''secret.set'', ''secret.delete'', ''vocabulary.entry_type.upsert'',
        ''vocabulary.entry_kind.upsert'', ''vocabulary.tag.upsert''}"
    and key: "same_key (pe_host e) h'" and re: "replayed_as t t'"
    and sim: "same_secrets (h_now h') ds B" and fk: "parents_in ds1 B" and mode: "ds_metadata B = ds_metadata ds"
    and settled: "tx_transaction_type t \<in> {''vocabulary.entry_type.upsert'', ''vocabulary.entry_kind.upsert'', ''vocabulary.tag.upsert''}
      \<Longrightarrow> apply_transaction h' B t' = Inr B"
  obtains B' where "apply_transaction h' B t' = Inr B'" "same_secrets (h_now h') ds1 B'"
    "B' = B\<lparr>ds_secrets := ds_secrets B', ds_tag_assignments := ds_tag_assignments B', ds_domains := ds_domains B',
      ds_custom := ds_custom B'\<rparr>"
proof -
  obtain a l b g new row where d: "support_extends ds a"
    "apply_transaction (pe_host e) (a\<lparr>ds_transactions := l\<rparr>) t = Inr b"
    "ds1 = b\<lparr>ds_transactions := ds_transactions ds @ [row], ds_peer_groups := g, ds_envelopes := ds_envelopes b @ new\<rparr>"
    by (rule submission_logged [OF step(1,4,2) policies [OF step(3)]])
  let ?a = "a\<lparr>ds_transactions := l\<rparr>"
  have sim_a: "same_secrets (h_now h') ?a B" using sim support_keeps [OF d(1)] by (simp add: same_secrets_def)
  have tables: "same_secrets (h_now h') b B' \<Longrightarrow> same_secrets (h_now h') ds1 B'" "parents_in b B" for B'
    using fk by (simp_all add: d(3) same_secrets_def parents_in_def)
  have wf: "dict_wf (tx_payload t)" using step(4) by (simp add: tx_wf_def)
  from d(2) step(5) show thesis
  proof (cases rule: apply_history_cases)
    case secret
    have m: "read_sqlite_storage_mode B = read_sqlite_storage_mode ?a"
      using mode support_keeps(2) [OF d(1)] by (simp add: read_sqlite_storage_mode_def read_sqlite_storage_mode_opt_def)
    obtain pl where pl: "commit_plan (h_now (pe_host e)) ?a pl = Inr b"
      "\<forall>B'. commit_plan (h_now h') B (replayed_plan pl) = Inr B' \<longrightarrow>
        (if tx_transaction_type t = ''secret.set'' then apply_secret_set_projection h' B t' else apply_secret_delete_projection h' B t') = Inr B'"
      by (rule secret_plan_of [OF secret re wf key m])
    obtain B' where B': "commit_plan (h_now h') B (replayed_plan pl) = Inr B'"
      "same_secrets (h_now h') b B'"
      "B' = B\<lparr>ds_secrets := ds_secrets B', ds_tag_assignments := ds_tag_assignments B', ds_domains := ds_domains B',
        ds_custom := ds_custom B'\<rparr>" by (rule replay_commit [OF pl(1) sim_a tables(2)])
    from pl(2) B'(1) have "(if tx_transaction_type t = ''secret.set'' then apply_secret_set_projection h' B t'
        else apply_secret_delete_projection h' B t') = Inr B'" by blast
    with secret have "apply_transaction h' B t' = Inr B'"
      using replayed_as_fields(3) [OF re] by (auto simp: apply_transaction_def)
    then show thesis using B'(3) tables(1) [OF B'(2)] by (intro that)
  next
    case vocabulary
    then show thesis
      using settled tables(1) [OF vocabulary_parents(2) [OF vocabulary(2) sim_a]] by (intro that [of B]) simp_all
  qed
qed

lemma submitted_log:
  assumes "submitted h ds ts ds'"
  shows "\<exists>rows. ds_transactions ds' = ds_transactions ds @ rows \<and>
      list_all2 (\<lambda>t r. tr_state r = ''applied'' \<and> (\<exists>t'. transaction_from_row r = Inr t' \<and> replayed_as t t')) ts rows \<and>
      parents_in ds ds' \<and> ds_metadata ds' = ds_metadata ds \<and> ds_peer_endpoints ds' = ds_peer_endpoints ds \<and>
      (datastore_wf ds \<longrightarrow> datastore_wf ds')"
  using assms
proof induction
  case (none ds)
  then show ?case by (simp add: parents_in_refl)
next
  case (more e ds t p r ds1 ts ds2)
  from more.hyps(1-5) obtain row t' where d: "ds_transactions ds1 = ds_transactions ds @ [row]" "transaction_from_row row = Inr t'"
    "replayed_as t t'" "tr_state row = ''applied''" "parents_in ds ds1" "ds_metadata ds1 = ds_metadata ds"
    "ds_peer_endpoints ds1 = ds_peer_endpoints ds" by (rule submitted_step)
  from more.IH obtain rows where rows: "ds_transactions ds2 = ds_transactions ds1 @ rows"
    "list_all2 (\<lambda>t r. tr_state r = ''applied'' \<and> (\<exists>t'. transaction_from_row r = Inr t' \<and> replayed_as t t')) ts rows"
    "parents_in ds1 ds2" "ds_metadata ds2 = ds_metadata ds1" "ds_peer_endpoints ds2 = ds_peer_endpoints ds1"
    "datastore_wf ds1 \<longrightarrow> datastore_wf ds2" by blast
  have "datastore_wf ds \<longrightarrow> datastore_wf ds1" using submit_keeps [OF more.hyps(1,4)] by (simp add: engine_keeps_def)
  then show ?case
    using d rows parents_in_trans [OF d(5) rows(3)] by (intro exI [of _ "row # rows"]) auto
qed

lemma replay_reads_log:
  assumes "t_keyed tr_transaction_id (ds_transactions ds)"
    and "list_all2 (\<lambda>t r. tr_state r = ''applied'' \<and> (\<exists>t'. transaction_from_row r = Inr t' \<and> replayed_as t t')) ts (ds_transactions ds)"
  obtains ts' where "replay_transactions ds = Inr ts'" "list_all2 replayed_as ts ts'"
proof -
  define f where "f r = projr (transaction_from_row r)" for r
  let ?rows = "ds_transactions ds"
  have len: "length ts = length ?rows" using assms(2) by (rule list_all2_lengthD)
  have row: "tr_state (?rows ! i) = ''applied''" "transaction_from_row (?rows ! i) = Inr (f (?rows ! i))"
    "replayed_as (ts ! i) (f (?rows ! i))" if "i < length ?rows" for i
    using list_all2_nthD2 [OF assms(2) that] by (auto simp: f_def)
  have get: "get_transaction ds (tr_transaction_id r) = transaction_from_row r" if "r \<in> set ?rows" for r
    using t_keyed_get [OF assms(1) that] by (simp add: get_transaction_def)
  have "filter (\<lambda>r. tr_state r \<in> {''pending'', ''applied'', ''replayed''}) ?rows = ?rows"
    using row(1) by (auto simp: in_set_conv_nth intro!: filter_True)
  then have "replay_transactions ds = Inr (map f ?rows)"
    using row(2) get by (simp add: replay_transactions_def rmapM_Inr)
  moreover have "list_all2 replayed_as ts (map f ?rows)"
    using row(3) len by (simp add: list_all2_conv_all_nth)
  ultimately show thesis by (rule that)
qed

lemma replay_simulation:
  assumes "submitted h ds ts dsn" and "list_all2 replayed_as ts ts'"
    and "same_secrets (h_now (pe_host e)) ds B" "parents_in dsn B" "ds_metadata B = ds_metadata ds" and key: "same_key h (pe_host e)"
    and settled: "\<forall>t \<in> set ts. starts_with ''vocabulary.'' (tx_transaction_type t) \<longrightarrow> apply_transaction hf F t = Inr F"
    and "ds_entry_types B = ds_entry_types F" "ds_entry_kinds B = ds_entry_kinds F" "ds_tags B = ds_tags F"
  shows "\<exists>B'. rfold (\<lambda>t d. rbind (submit_transaction e d t REPLAY_TRANSACTION_POLICY) (\<lambda>r. Inr (snd r))) ts' B = Inr B' \<and>
    same_secrets (h_now (pe_host e)) dsn B' \<and>
    B' = B\<lparr>ds_secrets := ds_secrets B', ds_tag_assignments := ds_tag_assignments B', ds_domains := ds_domains B',
      ds_custom := ds_custom B'\<rparr>"
  using assms(1,2,3,4,5,7,8,9,10)
proof (induction arbitrary: ts' B)
  case (none ds)
  then show ?case by simp
next
  case (more e0 ds t p r ds1 ts ds2)
  from more.prems(1) obtain t' us where ts': "ts' = t' # us" "replayed_as t t'" "list_all2 replayed_as ts us"
    by (auto simp: list_all2_Cons1)
  have wf: "dict_wf (tx_payload t)" using more.hyps(4) by (simp add: tx_wf_def)
  have key': "same_key (pe_host e0) (pe_host e)" using more.hyps(6) key by (simp add: same_key_def)
  have fk: "parents_in ds1 B" using submitted_log [OF more.hyps(7)] more.prems(3) parents_in_trans by blast
  have voc: "apply_transaction (pe_host e) B t' = Inr B"
    if v: "tx_transaction_type t \<in> {''vocabulary.entry_type.upsert'', ''vocabulary.entry_kind.upsert'', ''vocabulary.tag.upsert''}"
  proof -
    have "apply_transaction hf F t = Inr F" using more.prems(5) v by (auto simp: starts_with_def)
    then show ?thesis by (rule vocabulary_replayed [OF _ v ts'(2) wf more.prems(6-8)])
  qed
  obtain B1 where B1: "apply_transaction (pe_host e) B t' = Inr B1" "same_secrets (h_now (pe_host e)) ds1 B1"
    "B1 = B\<lparr>ds_secrets := ds_secrets B1, ds_tag_assignments := ds_tag_assignments B1, ds_domains := ds_domains B1,
      ds_custom := ds_custom B1\<rparr>"
    by (rule replay_step [OF more.hyps(1-5) key' ts'(2) more.prems(2) fk more.prems(4) voc])
  have head: "rbind (submit_transaction e B t' REPLAY_TRANSACTION_POLICY) (\<lambda>r. Inr (snd r)) = Inr B1"
    using replayed_valid [OF ts'(2) submit_validates [OF more.hyps(1)] more.hyps(5)] B1(1) by simp
  obtain s a d c where b: "B1 = B\<lparr>ds_secrets := s, ds_tag_assignments := a, ds_domains := d, ds_custom := c\<rparr>" using B1(3) by blast
  have m: "ds_metadata ds1 = ds_metadata ds" using more.hyps(1-5) by (rule submitted_step)
  have "parents_in ds2 B1" "ds_metadata B1 = ds_metadata ds1" "ds_entry_types B1 = ds_entry_types F"
    "ds_entry_kinds B1 = ds_entry_kinds F" "ds_tags B1 = ds_tags F"
    using more.prems(3,4,6-8) m by (simp_all add: b parents_in_def)
  from more.IH [OF ts'(3) B1(2) this(1,2) _ this(3-5)] more.prems(5) obtain B' where
    B': "rfold (\<lambda>t d. rbind (submit_transaction e d t REPLAY_TRANSACTION_POLICY) (\<lambda>r. Inr (snd r))) us B1 = Inr B'"
    "same_secrets (h_now (pe_host e)) ds2 B'"
    "B' = B1\<lparr>ds_secrets := ds_secrets B', ds_tag_assignments := ds_tag_assignments B', ds_domains := ds_domains B',
      ds_custom := ds_custom B'\<rparr>" by auto
  have "B1\<lparr>ds_secrets := w, ds_tag_assignments := x, ds_domains := y, ds_custom := z\<rparr> =
      B\<lparr>ds_secrets := w, ds_tag_assignments := x, ds_domains := y, ds_custom := z\<rparr>" for w x y z by (simp add: b)
  from trans [OF B'(3) this] B'(1,2) head show ?case
    unfolding ts'(1) by (intro exI [of _ B'] conjI) simp_all
qed

subsection \<open>The support rows of a replayed log\<close>

lemma support_row_replayed:
  assumes "replayed_as t t'" "dict_wf (tx_payload t)"
  shows "support_row t' s = support_row t s"
proof -
  have f: "tx_origin_node_id t' = tx_origin_node_id t" "tx_owner_id t' = tx_owner_id t" "tx_client_id t' = tx_client_id t"
    "tx_organization_id t' = tx_organization_id t"
    using assms(1) by (auto simp: replayed_as_def tx_norm_def)
  have "payload_text (canon_obj (tx_payload t)) k = payload_text (tx_payload t) k" for k
    by (simp add: payload_text_def map_of_canon_obj [OF assms(2)] split: option.split json.split)
  then show ?thesis
    by (simp only: support_row_def support_origin_def support_owner_def support_scope_def support_groups_def f
        replayed_as_fields [OF assms(1)])
qed

lemma replay_support_replayed:
  assumes "list_all2 replayed_as ts ts'" "\<forall>t \<in> set ts. dict_wf (tx_payload t)"
  shows "replay_support_rows ts' = replay_support_rows ts"
proof -
  have "rfold support_row ts' s = rfold support_row ts s" for s
    using assms by (induction arbitrary: s) (auto simp: support_row_replayed intro: rbind_cong)
  then show ?thesis by (simp add: replay_support_rows_def)
qed

lemma support_row_origins:
  assumes "support_row t s = Inr s'" and "\<forall>n \<in> set (rs_origin_node_ids s). is_identifier Node n"
  shows "\<forall>n \<in> set (rs_origin_node_ids s'). is_identifier Node n"
proof -
  from assms(1) obtain s1 s2 s3 where s: "support_origin t s = Inr s1" "support_owner t s1 = Inr s2" "support_scope t s2 = Inr s3"
    "support_groups t s3 = Inr s'" unfolding support_row_def by (elim rbind_InrE)
  have "\<forall>n \<in> set (rs_origin_node_ids s1). is_identifier Node n"
    using s(1) assms(2) by (auto simp: support_origin_def Let_def rbind_Inr_iff rs_validate_identifier_def is_identifier_iff
        validate_identifier_iff split: if_split_asm)
  moreover have "rs_origin_node_ids s2 = rs_origin_node_ids s1"
    using s(2) by (auto simp: support_owner_def Let_def rbind_Inr_iff split: if_split_asm)
  moreover have "rs_origin_node_ids s3 = rs_origin_node_ids s2"
    using s(3) by (auto simp: support_scope_def Let_def rbind_Inr_iff split: option.split_asm if_split_asm prod.split_asm)
  moreover have "rs_origin_node_ids s' = rs_origin_node_ids s3"
    using s(4) unfolding support_groups_def Let_def
    by (auto elim!: rbind_InrE split: option.split_asm if_split_asm prod.split_asm)
  ultimately show ?thesis by simp
qed

text \<open>Inserting the support rows of a consistent log cannot fail.\<close>

lemma bootstrap_total:
  assumes "replay_support_rows ts = Inr s"
  obtains ds' where "bootstrap_replay_support_rows ds ts = Inr ds'"
proof -
  have ids: "\<forall>n \<in> set (rs_origin_node_ids s). is_identifier Node n"
    using assms unfolding replay_support_rows_def
    by (rule rfold_invariant) (simp add: no_support_def, blast intro: support_row_origins [rule_format])
  have "\<exists>d'. rfold support_node ns d = Inr d'" if "\<forall>n \<in> set ns. is_identifier Node n" for ns d
    using that
  proof (induction ns arbitrary: d)
    case (Cons n ns)
    then have "is_identifier Node n" by simp
    then obtain g where "local_peer_group_id_for_node n = Inr g"
      "local_peer_group_display_name g = Inr (''peergroup-'' @ take 8 (drop 3 g))" by (rule local_peer_group_ok)
    with Cons show ?case by (simp add: support_node_def)
  qed simp
  from this [of "sort (rs_origin_node_ids s)"] ids have "\<exists>ds'. bootstrap_replay_support_rows ds ts = Inr ds'"
    unfolding bootstrap_replay_support_rows_def assms rbind_simps Let_def by (metis rbind_simps(2) set_sort)
  then show thesis using that by blast
qed

subsection \<open>The rebuild\<close>

lemma submitted_wf: "submitted h ds ts ds' \<Longrightarrow> \<forall>t \<in> set ts. dict_wf (tx_payload t)"
  by (induction rule: submitted.induct) (auto simp: tx_wf_def)

lemma empty_items:
  "datastore_wf ds \<Longrightarrow> ds_secrets ds = [] \<Longrightarrow> ds_tag_assignments ds = [] \<and> ds_domains ds = [] \<and> ds_custom ds = []"
  by (cases "ds_tag_assignments ds"; cases "ds_domains ds"; cases "ds_custom ds")
    (auto simp: datastore_wf_def projections_wf_def tags_wf_def items_wf_def)

lemma support_extends_restore:
  assumes "support_extends (delete_projections D) C"
    and "B = C\<lparr>ds_secrets := ds_secrets D, ds_tag_assignments := a, ds_domains := ds_domains D, ds_custom := ds_custom D\<rparr>"
    and "ds_peer_endpoints D = []"
  shows "support_extends (D\<lparr>ds_tag_assignments := a\<rparr>) B"
proof -
  from assms(1) obtain o' c w g n v where C: "C = (delete_projections D)\<lparr>ds_organizations := o', ds_clients := c, ds_owners := w,
      ds_peer_groups := g, ds_nodes := n, ds_service_groups := v\<rparr>" unfolding support_extends_def by blast
  show ?thesis
    using assms(1,3) unfolding assms(2) C support_extends_def delete_projections_def by (cases D) simp
qed

text \<open>C15. Rebuilding: after any history of accepted secret and vocabulary transactions from a datastore with no
  secrets, no endpoints and an empty log, a rebuild of the projections from that log succeeds and gives
  back the datastore as it was, every secret, domain, tag assignment and metadata row in place, except that
  the tag assignments carry the time of the rebuild and missing support rows are added. The vocabulary
  transactions must still be in effect and the scopes of the log consistent.\<close>

theorem rebuild_reproduces_secrets:
  assumes hist: "submitted (pe_host e) A ts D" and A: "datastore_wf A" "ds_transactions A = []" "ds_secrets A = []"
      "ds_peer_endpoints A = []"
    and settled: "\<forall>t \<in> set ts. starts_with ''vocabulary.'' (tx_transaction_type t) \<longrightarrow> apply_transaction (pe_host e) D t = Inr D"
    and scopes: "replay_support_rows ts = Inr s"
  shows "\<exists>D'. rebuild_secret_projections e D = Inr D' \<and>
    support_extends (D\<lparr>ds_tag_assignments := map (restamp (\<lambda>_. h_now (pe_host e))) (ds_tag_assignments D)\<rparr>) D'"
proof -
  obtain rows where log: "ds_transactions D = rows"
    "list_all2 (\<lambda>t r. tr_state r = ''applied'' \<and> (\<exists>t'. transaction_from_row r = Inr t' \<and> replayed_as t t')) ts rows"
    "ds_metadata D = ds_metadata A" "ds_peer_endpoints D = []" "datastore_wf D"
    using submitted_log [OF hist] A by auto
  let ?D = "delete_projections D"
  have "ds_transactions ?D = rows" "t_keyed tr_transaction_id rows"
    using log(1,5) by (simp_all add: delete_projections_def datastore_wf_def log_wf_def)
  then obtain ts' where ts': "replay_transactions ?D = Inr ts'" "list_all2 replayed_as ts ts'"
    using replay_reads_log [of ?D ts] log(2) by auto
  have "replay_support_rows ts' = Inr s" using replay_support_replayed [OF ts'(2) submitted_wf [OF hist]] scopes by simp
  then obtain C where C: "bootstrap_replay_support_rows ?D ts' = Inr C" by (rule bootstrap_total)
  note ext = bootstrap_extends [OF C] note keeps = support_keeps [OF ext]
  have empty: "same_secrets (h_now (pe_host e)) A C"
    using keeps empty_items [OF A(1,3)] A(3) by (simp add: same_secrets_def delete_projections_def)
  have fk: "parents_in D C" using support_parents [OF ext, of "ds_transactions C"] by (simp add: parents_in_def delete_projections_def)
  have "ds_metadata C = ds_metadata A" "ds_entry_types C = ds_entry_types D" "ds_entry_kinds C = ds_entry_kinds D" "ds_tags C = ds_tags D"
    using keeps log(3) by (simp_all add: delete_projections_def)
  from replay_simulation [OF hist ts'(2) empty fk this(1) _ settled this(2-4)] obtain B where
    B: "rfold (\<lambda>t d. rbind (submit_transaction e d t REPLAY_TRANSACTION_POLICY) (\<lambda>r. Inr (snd r))) ts' C = Inr B"
    "same_secrets (h_now (pe_host e)) D B"
    "B = C\<lparr>ds_secrets := ds_secrets B, ds_tag_assignments := ds_tag_assignments B, ds_domains := ds_domains B,
      ds_custom := ds_custom B\<rparr>" by (auto simp: same_key_def)
  have "rebuild_secret_projections e D = Inr B" using ts'(1) C B(1) by (simp add: rebuild_secret_projections_def)
  moreover have "support_extends (D\<lparr>ds_tag_assignments := map (restamp (\<lambda>_. h_now (pe_host e))) (ds_tag_assignments D)\<rparr>) B"
    using B(2) by (intro support_extends_restore [OF ext _ log(4)]) (subst B(3), simp add: same_secrets_def)
  ultimately show ?thesis by blast
qed

subsection \<open>Example: one stored secret\<close>

lemma example_set_wf: "tx_wf example_set"
proof -
  have "utf8_ok ''secret''" "utf8_ok ''api_key''" "utf8_ok ''svc''" "utf8_ok ''me''" "utf8_ok ''bG9j''" "utf8_ok ''QVBJ''"
    "utf8_ok ''czNjcjN0''" "utf8_ok ''Y29u''" "json_wf (JList [JStr ''Prod'', JStr ''prod''])" by code_simp+
  then have "list_all json_wf (map snd example_secret_payload)"
    using utf8_ok_identifier [OF is_identifier_format]
    by (simp add: example_secret_payload_def del: utf8_ok.simps json_wf.simps(2))
  moreover have "list_all plain (map fst example_secret_payload)"
    unfolding example_secret_payload_def by simp code_simp
  moreover have "distinct (map fst example_secret_payload)" by (simp add: example_secret_payload_def)
  ultimately show ?thesis unfolding tx_wf_def example_set_def by (simp add: example_transaction_def json_wf_objI del: json_wf.simps)
qed

lemma example_set_logged:
  "apply_transaction (pe_host (example_env 1)) (example_secrets_datastore\<lparr>ds_transactions := l\<rparr>) example_set =
    Inr (example_set_result\<lparr>ds_transactions := l\<rparr>)"
proof -
  have key: "same_key example_host (pe_host (example_env 1))" "h_now (pe_host (example_env 1)) = h_now example_host"
    by (simp_all add: same_key_def example_env_def)
  have "set_plan (pe_host (example_env 1)) ''plaintext'' example_set = Inr (example_plan ''active'')"
    using plans_same_key(1) [OF key(1)] example_set_plan by simp
  moreover have "commit_plan (h_now example_host) (example_secrets_datastore\<lparr>ds_transactions := l\<rparr>) (example_plan ''active'') =
      Inr (example_set_result\<lparr>ds_transactions := l\<rparr>)"
    by (simp add: commit_plan_def example_plan_def Let_def upsert_secret_def example_secrets_datastore_def
      example_datastore_def empty_datastore_def ensure_vocabulary_def t_insert_ignore2_def canonical_or_empty_def
      example_names t_upsert_def sync_secret_tags_def resolve_stored_canonical ensure_tag_id_def example_ids
      t_insert_ignore_def write_domains_def write_custom_metadata_def example_set_result_def lower_char_def is_upper_def)
  moreover have "read_sqlite_storage_mode (example_secrets_datastore\<lparr>ds_transactions := l\<rparr>) = Inr ''plaintext''"
    using example_mode by (simp add: read_sqlite_storage_mode_def read_sqlite_storage_mode_opt_def)
  ultimately have "apply_secret_set_projection (pe_host (example_env 1)) (example_secrets_datastore\<lparr>ds_transactions := l\<rparr>) example_set =
      Inr (example_set_result\<lparr>ds_transactions := l\<rparr>)"
    unfolding apply_secret_set_iff key(2) by blast
  moreover have "tx_transaction_type example_set = ''secret.set''" by (simp add: example_set_def example_transaction_def)
  ultimately show ?thesis by (simp add: apply_transaction_def)
qed

lemma example_set_submitted:
  obtains r ds' where "submit_transaction (example_env 1) example_secrets_datastore example_set LOCAL_TRANSACTION_POLICY = Inr (r, ds')"
    "\<not> su_duplicate r" "ds_secrets ds' \<noteq> []"
proof -
  note One_nat_def [simp del]
  let ?e = "example_env 1"
  let ?row = "transaction_to_row example_set (sha256 (canonical_json_bytes (tx_payload example_set)))"
  let ?l = "[?row\<lparr>tr_state := ''applied'', tr_applied_at := Some (h_now (pe_host ?e))\<rparr>]"
  have valid: "validate_transaction example_set = Inr ()" unfolding example_set_def by (rule example_transaction_valid) simp
  have auth: "validate_authenticated_transaction (pe_host ?e) example_secrets_datastore example_set = Inr ()"
    by (simp add: validate_authenticated_transaction_def example_set_def example_transaction_def starts_with_def)
  have ins: "insert_transaction example_secrets_datastore example_set = Inr (example_secrets_datastore\<lparr>ds_transactions := [?row]\<rparr>)"
    unfolding example_set_def
    by (subst example_transaction_insert)
      (simp_all add: example_secrets_datastore_def example_datastore_def empty_datastore_def example_node_row_def example_transaction_def)
  have mark: "mark_transaction_applied (h_now (pe_host ?e)) (example_set_result\<lparr>ds_transactions := [?row]\<rparr>) (tx_transaction_id example_set) =
      Inr (example_set_result\<lparr>ds_transactions := ?l\<rparr>)"
    by (simp add: mark_transaction_applied_def transaction_to_row_def example_set_def example_transaction_def t_get_Cons t_update_def)
  obtain entry where entry: "list_peer_registry_entries (example_set_result\<lparr>ds_transactions := ?l\<rparr>) = Inr [entry]"
      "pr_node_id entry = format_identifier Node 1"
    by (rule example_node_alone [of "example_set_result\<lparr>ds_transactions := ?l\<rparr>"])
      (simp_all add: example_set_result_def example_secrets_datastore_def example_datastore_def empty_datastore_def)
  have group: "map_of (tx_payload example_set) ''service_group_id'' = Some (JStr (format_identifier Service_group 3))"
    by (simp add: example_set_def example_transaction_def example_secret_payload_def)
  have ty: "tx_transaction_type example_set = ''secret.set''" by (simp add: example_set_def example_transaction_def)
  have "required_service_group_id example_set = Inr (format_identifier Service_group 3)"
    using validate_identifier_ok [OF is_identifier_format, of Service_group 3] is_identifier_not_Nil [OF is_identifier_format, of Service_group 3]
    by (simp add: required_service_group_id_def group)
  then have scope: "service_group_scope_id example_set = Inr (Some (format_identifier Service_group 3))"
    by (simp add: service_group_scope_id_def transaction_scope_def ty SERVICE_GROUP_SCOPED_TRANSACTION_TYPES_def)
  have origin: "tx_origin_node_id example_set = Some (pr_node_id entry)"
    by (simp add: entry(2) example_set_def example_transaction_def)
  show thesis
    by (rule that [OF lone_submission [OF valid auth ins example_set_logged mark entry(1) origin scope]])
      (simp_all add: example_set_result_def)
qed

theorem rebuild_reproduces_secrets_witness:
  "\<exists>D D'. submitted (pe_host (example_env 1)) example_secrets_datastore [example_set] D \<and> ds_secrets D \<noteq> [] \<and>
    rebuild_secret_projections (example_env 1) D = Inr D' \<and> ds_secrets D' = ds_secrets D"
proof -
  obtain r D where s: "submit_transaction (example_env 1) example_secrets_datastore example_set LOCAL_TRANSACTION_POLICY = Inr (r, D)"
    "\<not> su_duplicate r" "ds_secrets D \<noteq> []" by (rule example_set_submitted)
  have ty: "tx_transaction_type example_set = ''secret.set''" by (simp add: example_set_def example_transaction_def)
  have hist: "submitted (pe_host (example_env 1)) example_secrets_datastore [example_set] D"
    by (rule submitted.more [OF s(1,2) _ example_set_wf _ _ submitted.none]) (simp_all add: ty same_key_def)
  have A: "datastore_wf example_secrets_datastore" "ds_transactions example_secrets_datastore = []"
    "ds_secrets example_secrets_datastore = []" "ds_peer_endpoints example_secrets_datastore = []"
    by (simp_all add: datastore_wf_def projections_wf_def secrets_wf_def tags_wf_def items_wf_def endpoints_wf_def log_wf_def
        vocabulary_wf_def t_keyed_def example_secrets_datastore_def example_datastore_def empty_datastore_def)
  have settled: "\<forall>t \<in> set [example_set]. starts_with ''vocabulary.'' (tx_transaction_type t) \<longrightarrow>
      apply_transaction (pe_host (example_env 1)) D t = Inr D" by (simp add: ty starts_with_def)
  have "\<exists>x. replay_support_rows [example_set] = Inr x"
    using validate_identifier_ok [OF is_identifier_format] is_identifier_not_Nil [OF is_identifier_format]
    by (simp add: replay_support_rows_def support_row_def support_origin_def support_owner_def support_scope_def
        support_groups_def example_set_def example_transaction_def truthy_def no_support_def rs_validate_identifier_def
        payload_text_def example_secret_payload_def setdefault_def)
  then obtain x where "replay_support_rows [example_set] = Inr x" by blast
  from rebuild_reproduces_secrets [OF hist A settled this] obtain D' where D': "rebuild_secret_projections (example_env 1) D = Inr D'"
    "support_extends (D\<lparr>ds_tag_assignments := map (restamp (\<lambda>_. h_now (pe_host (example_env 1)))) (ds_tag_assignments D)\<rparr>) D'"
    by blast
  with hist s(3) support_keeps(4) [OF D'(2)] show ?thesis by auto
qed

end
