(* ===== verification/Kit_Inbound.thy ===== *)
theory Kit_Inbound
  imports Kit_Replay
begin

section \<open>Inbound envelopes\<close>

text \<open>
  \<open>runtime/inbound_envelopes.py\<close>: the bytes a peer receives are parsed, checked against the registry entry
  and the signing key of their source, decrypted, localised to the storage key of the receiver and
  submitted under the remote policy. \<open>e\<close> and \<open>ds\<close> are the receiving node and its datastore.
\<close>

definition TRANSACTION_REQUIRED_FIELDS :: "string list" where
  "TRANSACTION_REQUIRED_FIELDS = [''created_at'', ''origin_node_id'', ''payload'', ''transaction_id'', ''transaction_type'']"

definition ADMISSION_TRANSACTION_TYPES :: "string list" where
  "ADMISSION_TRANSACTION_TYPES = [''peer.admission.request'', ''peer.admission.accept'', ''peer.admission.reject'']"

text \<open>
  The keyword arguments taken from the payload. The record is typed: \<open>null\<close> is \<open>None\<close>, and a member of
  another JSON type than the declared one, which Python would carry on, is outside the model and answers
  \<open>TypeError\<close>.
\<close>

definition argument_text :: "json_obj \<Rightarrow> string \<Rightarrow> string option \<Rightarrow> string option res" where
  "argument_text p k absent =
     (case map_of p k of
        None \<Rightarrow> Inr absent
      | Some JNull \<Rightarrow> Inr None
      | Some (JStr s) \<Rightarrow> Inr (Some s)
      | Some _ \<Rightarrow> Inl (TypeError (k @ '' must be a string'')))"

definition argument_int :: "json_obj \<Rightarrow> string \<Rightarrow> int res" where
  "argument_int p k =
     (case map_of p k of
        None \<Rightarrow> Inr 1
      | Some (JInt i) \<Rightarrow> Inr i
      | Some (JBool b) \<Rightarrow> Inr (if b then 1 else 0)
      | Some _ \<Rightarrow> Inl (TypeError (k @ '' must be an integer'')))"

definition envelope_transaction_fields :: "json_obj \<Rightarrow> json_obj \<Rightarrow> Transaction res" where
  "envelope_transaction_fields p body =
     rbind (argument_text p ''transaction_id'' None) (\<lambda>transaction_id.
     rbind (argument_text p ''transaction_type'' None) (\<lambda>transaction_type.
     rbind (argument_text p ''origin_node_id'' None) (\<lambda>origin_node_id.
     rbind (argument_text p ''created_at'' None) (\<lambda>created_at.
     rbind (argument_int p ''transaction_version'') (\<lambda>transaction_version.
     rbind (argument_int p ''payload_version'') (\<lambda>payload_version.
     rbind (argument_int p ''protocol_version'') (\<lambda>protocol_version.
     rbind (argument_text p ''organization_id'' None) (\<lambda>organization_id.
     rbind (argument_text p ''client_id'' None) (\<lambda>client_id.
     rbind (argument_text p ''owner_id'' None) (\<lambda>owner_id.
     rbind (argument_text p ''previous_transaction_id'' None) (\<lambda>previous_transaction_id.
     rbind (argument_text p ''state'' (Some ''pending'')) (\<lambda>state.
     rbind (argument_text p ''received_at'' None) (\<lambda>received_at.
     rbind (argument_text p ''applied_at'' None) (\<lambda>applied_at.
     rbind (argument_text p ''acknowledged_at'' None) (\<lambda>acknowledged_at.
     rbind (argument_text p ''cleared_at'' None) (\<lambda>cleared_at.
       Inr \<lparr>tx_transaction_id = or_empty transaction_id, tx_transaction_type = or_empty transaction_type,
            tx_payload = body, tx_payload_hash = [], tx_transaction_version = transaction_version,
            tx_payload_version = payload_version, tx_protocol_version = protocol_version,
            tx_organization_id = organization_id, tx_client_id = client_id, tx_owner_id = owner_id,
            tx_origin_node_id = origin_node_id, tx_previous_transaction_id = previous_transaction_id,
            tx_signature = None, tx_state = or_empty state, tx_created_at = created_at, tx_received_at = received_at,
            tx_applied_at = applied_at, tx_acknowledged_at = acknowledged_at, tx_cleared_at = cleared_at\<rparr>))))))))))))))))"

definition transaction_from_envelope_payload :: "json \<Rightarrow> Transaction res" where
  "transaction_from_envelope_payload payload =
     (case payload of
        JObj p \<Rightarrow>
          (case find (\<lambda>f. \<not> dict_has f p) TRANSACTION_REQUIRED_FIELDS of
             Some f \<Rightarrow> Inl (SQLiteValidationError (''transaction.'' @ f @ '' is required''))
           | None \<Rightarrow>
               (case map_of p ''payload'' of
                  Some (JObj body) \<Rightarrow>
                    if map_of p ''signature'' \<noteq> None \<and> map_of p ''signature'' \<noteq> Some JNull
                    then Inl (SQLiteValidationError ''transaction.signature is not supported over JSON envelope'')
                    else rbind (envelope_transaction_fields p body) create_transaction
                | _ \<Rightarrow> Inl (SQLiteValidationError ''transaction.payload must be an object'')))
      | _ \<Rightarrow> Inl (SQLiteValidationError ''transaction payload must be an object''))"

definition apply_inbound_transaction :: "peer_env \<Rightarrow> datastore \<Rightarrow> Transaction \<Rightarrow> datastore res" where
  "apply_inbound_transaction e ds t =
     rbind (if tx_transaction_type t \<in> set ADMISSION_TRANSACTION_TYPES then Inr ()
            else
              rbind (load_local_node_projection ds) (\<lambda>local_node.
                if local_node \<noteq> None \<and> tx_origin_node_id t = Some (ln_node_id (the local_node))
                then rguard (transaction_exists ds (tx_transaction_id t))
                       (SQLiteValidationError ''remote transaction cannot claim local origin: '')
                else
                  rbind (service_group_scope_id t) (\<lambda>service_group_id.
                    require_peer_synchronization_eligible ds (or_empty (tx_origin_node_id t)) service_group_id))) (\<lambda>_.
     rbind (submit_transaction e ds t REMOTE_TRANSACTION_POLICY) (\<lambda>r. Inr (snd r)))"

definition codec_invalid :: "string \<Rightarrow> 'a res \<Rightarrow> 'a res" where
  "codec_invalid message =
     rmap_error (\<lambda>x. case x of EnvelopePayloadCodecError _ \<Rightarrow> SQLiteValidationError message | _ \<Rightarrow> x)"

definition require_encrypted :: "CanonicalEnvelope \<Rightarrow> unit res" where
  "require_encrypted v =
     rbind (codec_invalid ''invalid envelope payload codec: '' (payload_codec_metadata (JObj (ce_payload v)))) (\<lambda>metadata.
       rguard (map_of metadata ''mode'' = Some (JStr ENCRYPTED_CODEC_MODE))
         (SQLiteValidationError ''live synchronization requires encrypted envelopes''))"

definition verify_inbound_envelope_signature :: "peer_env \<Rightarrow> datastore \<Rightarrow> CanonicalEnvelope \<Rightarrow> unit res" where
  "verify_inbound_envelope_signature e ds v =
     rbind (require_encrypted v) (\<lambda>_.
     rbind (load_local_node_projection ds) (\<lambda>local_node.
       case local_node of
         None \<Rightarrow> Inl (SQLiteValidationError ''local node identity projection is missing'')
       | Some l \<Rightarrow>
           rbind (rguard (ce_destination_node_id v = ln_node_id l)
                    (SQLiteValidationError ''envelope destination does not match local node: '')) (\<lambda>_.
           rbind (get_peer_registry_entry ds (ce_source_node_id v)) (\<lambda>entry.
             case entry of
               None \<Rightarrow> Inl (SQLiteValidationError (''unknown peer: peer_id='' @ ce_source_node_id v))
             | Some r \<Rightarrow>
                 if \<not> pr_synchronization_eligible r
                 then Inl (SQLiteValidationError ''peer synchronization not permitted: '')
                 else if pr_signing_algorithm r \<noteq> ''ed25519''
                 then Inl (SQLiteValidationError ''peer signing algorithm is unsupported: '')
                 else if pr_signing_public_key r = []
                 then Inl (SQLiteValidationError (''peer signing public key is missing: peer_id='' @ ce_source_node_id v))
                 else
                   rbind (rmap_error (\<lambda>_. SQLiteValidationError
                            (''peer signing public key is invalid: peer_id='' @ ce_source_node_id v))
                            (decode_b64url (pr_signing_public_key r))) (\<lambda>signing_public_key.
                     rmap_error (\<lambda>x. case x of EnvelopeSignatureError _ \<Rightarrow>
                         SQLiteValidationError (''invalid envelope signature: peer_id='' @ ce_source_node_id v) | _ \<Rightarrow> x)
                       (verify_envelope_signature (pe_host e) v (ce_source_node_id v) signing_public_key
                         (Some (pr_signing_fingerprint r))))))))"

definition decode_inbound_envelope_payload :: "peer_env \<Rightarrow> datastore \<Rightarrow> CanonicalEnvelope \<Rightarrow> bytes res" where
  "decode_inbound_envelope_payload e ds v =
     rbind (require_encrypted v) (\<lambda>_.
     rbind (load_sqlite_node_identity_material e ds) (\<lambda>identity.
       codec_invalid ''invalid encrypted envelope payload: ''
         (codec_decode e (encrypted_codec_for_local (envelope_context v) (im_encryption_private_key identity)
            (im_encryption_public_key identity) (json_obj_opt (ce_encryption_metadata v))) (JObj (ce_payload v)))))"

text \<open>
  \<open>str\<close> of a member or of the default. The text of a list or of an object is compared with identifiers and
  transaction types only, which start with neither bracket.
\<close>

fun py_str :: "json \<Rightarrow> string" where
  "py_str (JStr s) = s"
| "py_str JNull = ''None''"
| "py_str (JBool b) = (if b then ''True'' else ''False'')"
| "py_str (JInt i) = dec_of_int i"
| "py_str j = canonical_json_text j"

definition str_member :: "json_obj \<Rightarrow> string \<Rightarrow> string" where
  "str_member p k = (case map_of p k of None \<Rightarrow> [] | Some j \<Rightarrow> py_str j)"

definition decoded_object :: "bytes res \<Rightarrow> json_obj res" where
  "decoded_object data =
     rbind (codec_invalid ''invalid envelope payload codec: '' data) (\<lambda>bs.
       case Option.bind (utf8_decode bs) json_loads of
         None \<Rightarrow> Inl (SQLiteValidationError ''invalid envelope payload codec: '')
       | Some (JObj p) \<Rightarrow> Inr p
       | Some _ \<Rightarrow> Inl (SQLiteValidationError ''transaction payload must be an object''))"

definition apply_inbound_transaction_envelope :: "peer_env \<Rightarrow> datastore \<Rightarrow> json \<Rightarrow> datastore res" where
  "apply_inbound_transaction_envelope e ds envelope =
     rbind (rmap_error (\<lambda>x. case x of EnvelopeValidationError m \<Rightarrow> SQLiteValidationError (''invalid envelope: '' @ m) | _ \<Rightarrow> x)
              (parse_envelope_mapping envelope)) (\<lambda>v.
     rbind (verify_inbound_envelope_signature e ds v) (\<lambda>_.
     rbind (rguard (ce_message_type v = ENVELOPE_TYPE_TRANSACTION)
              (SQLiteValidationError ''invalid envelope: message_type must be transaction'')) (\<lambda>_.
     rbind (decoded_object (decode_inbound_envelope_payload e ds v)) (\<lambda>decoded.
       case map_of decoded ''payload'' of
         Some (JObj raw) \<Rightarrow>
           rbind (localize_inbound_storage_payload e ds (str_member decoded ''transaction_id'')
                    (str_member decoded ''transaction_type'') raw) (\<lambda>localized.
           rbind (transaction_from_envelope_payload (JObj (dict_set ''payload'' (JObj localized) decoded))) (\<lambda>t.
           rbind (rguard (tx_transaction_id t = ce_transaction_id v)
                    (SQLiteValidationError ''transaction_id must match envelope transaction_id'')) (\<lambda>_.
           rbind (rguard (tx_origin_node_id t = Some (ce_source_node_id v))
                    (SQLiteValidationError ''origin_node_id must match envelope source_node_id'')) (\<lambda>_.
             apply_inbound_transaction e ds t))))
       | _ \<Rightarrow> Inl (SQLiteValidationError ''transaction.payload must be an object'')))))"

definition apply_inbound_transaction_envelope_bytes :: "peer_env \<Rightarrow> datastore \<Rightarrow> bytes \<Rightarrow> datastore res" where
  "apply_inbound_transaction_envelope_bytes e ds data =
     rbind (rmap_error (\<lambda>x. case x of EnvelopeValidationError m \<Rightarrow> SQLiteValidationError (''invalid envelope: '' @ m) | _ \<Rightarrow> x)
              (parse_envelope_bytes data)) (\<lambda>v.
       apply_inbound_transaction_envelope e ds (JObj (canonical_envelope_dict v)))"

subsection \<open>Accepted envelopes are authenticated and authorised\<close>

lemma verify_inbound_InrE:
  assumes "verify_inbound_envelope_signature e ds v = Inr ()"
  obtains m l r key where "payload_codec_metadata (JObj (ce_payload v)) = Inr m"
    "map_of m ''mode'' = Some (JStr ENCRYPTED_CODEC_MODE)" "load_local_node_projection ds = Inr (Some l)"
    "ce_destination_node_id v = ln_node_id l" "get_peer_registry_entry ds (ce_source_node_id v) = Inr (Some r)"
    "pr_synchronization_eligible r" "pr_signing_algorithm r = ''ed25519''" "decode_b64url (pr_signing_public_key r) = Inr key"
    "verify_envelope_signature (pe_host e) v (ce_source_node_id v) key (Some (pr_signing_fingerprint r)) = Inr ()"
  using assms
  by (auto simp: verify_inbound_envelope_signature_def require_encrypted_def codec_invalid_def rbind_Inr_iff
      split: option.split_asm if_split_asm)

lemma parsed_bytes_again:
  assumes "parse_envelope_bytes data = Inr v"
  shows "parse_envelope_mapping (JObj (canonical_envelope_dict v)) = Inr v"
proof -
  from assms obtain p where "parse_envelope_mapping (JObj p) = Inr v"
    by (auto simp: parse_envelope_bytes_def parse_envelope_mapping_def split: option.split_asm json.split_asm if_split_asm)
  then show ?thesis by (rule parse_canonical_dict)
qed

lemma inbound_bytes_InrE:
  assumes "apply_inbound_transaction_envelope_bytes e ds data = Inr ds'"
  obtains v t where "parse_envelope_bytes data = Inr v" "verify_inbound_envelope_signature e ds v = Inr ()"
    "tx_transaction_id t = ce_transaction_id v" "tx_origin_node_id t = Some (ce_source_node_id v)"
    "apply_inbound_transaction e ds t = Inr ds'"
proof -
  from assms obtain v where v: "parse_envelope_bytes data = Inr v"
    and a: "apply_inbound_transaction_envelope e ds (JObj (canonical_envelope_dict v)) = Inr ds'"
    by (auto simp: apply_inbound_transaction_envelope_bytes_def rbind_Inr_iff)
  note a' = a [unfolded apply_inbound_transaction_envelope_def parsed_bytes_again [OF v] rmap_error_simps rbind_simps]
  from a' obtain d where ver: "verify_inbound_envelope_signature e ds v = Inr ()"
    and d: "(case map_of d ''payload'' of
         Some (JObj raw) \<Rightarrow>
           rbind (localize_inbound_storage_payload e ds (str_member d ''transaction_id'')
                    (str_member d ''transaction_type'') raw) (\<lambda>localized.
           rbind (transaction_from_envelope_payload (JObj (dict_set ''payload'' (JObj localized) d))) (\<lambda>t.
           rbind (rguard (tx_transaction_id t = ce_transaction_id v)
                    (SQLiteValidationError ''transaction_id must match envelope transaction_id'')) (\<lambda>_.
           rbind (rguard (tx_origin_node_id t = Some (ce_source_node_id v))
                    (SQLiteValidationError ''origin_node_id must match envelope source_node_id'')) (\<lambda>_.
             apply_inbound_transaction e ds t))))
       | _ \<Rightarrow> Inl (SQLiteValidationError ''transaction.payload must be an object'')) = Inr ds'"
    by (elim rbind_InrE) (rule that, simp_all)
  from d obtain raw where "map_of d ''payload'' = Some (JObj raw)" by (simp split: option.split_asm json.split_asm)
  note d' = d [unfolded this option.case json.case]
  show thesis using d' by (elim rbind_InrE) (rule that [OF v ver], simp_all)
qed

lemma private_not_registered: "get_peer_registry_entry ds n = Inr (Some r) \<Longrightarrow> n \<notin> set (ds_node_private ds)"
  by (auto simp: get_peer_registry_entry_def rbind_Inr_iff split: if_split_asm)

lemma local_projection_private:
  assumes "load_local_node_projection ds = Inr (Some l)"
  shows "ln_node_id l \<in> set (ds_node_private ds)"
proof -
  let ?rows = "sort_key nd_node_id (filter (\<lambda>r. nd_node_id r \<in> set (ds_node_private ds)) (ds_nodes ds))"
  from assms obtain r where "r \<in> set ?rows" "ln_node_id l = nd_node_id r"
    by (cases ?rows) (simp_all add: load_local_node_projection_def rbind_Inr_iff del: set_sort, force)
  then show ?thesis by simp
qed

text \<open>C3. What a node accepts from the network: when the bytes of an envelope change the datastore, they parse
  as a canonical envelope addressed to the local node, encrypted, whose source is another, admitted and
  authorised peer and whose Ed25519 signature verifies under the key registered for that peer; the
  transaction applied is one of that peer with the envelope's transaction identifier, it is submitted under the
  remote policy, and unless it is an admission transaction the peer may synchronise its service group.\<close>

theorem inbound_authenticated:
  assumes "apply_inbound_transaction_envelope_bytes e ds data = Inr ds'"
  shows "\<exists>v m l r key t res. parse_envelope_bytes data = Inr v \<and>
    payload_codec_metadata (JObj (ce_payload v)) = Inr m \<and> map_of m ''mode'' = Some (JStr ENCRYPTED_CODEC_MODE) \<and>
    load_local_node_projection ds = Inr (Some l) \<and> ce_destination_node_id v = ln_node_id l \<and>
    ce_source_node_id v \<noteq> ln_node_id l \<and>
    get_peer_registry_entry ds (ce_source_node_id v) = Inr (Some r) \<and> pr_synchronization_eligible r \<and>
    decode_b64url (pr_signing_public_key r) = Inr key \<and>
    verify_envelope_signature (pe_host e) v (ce_source_node_id v) key (Some (pr_signing_fingerprint r)) = Inr () \<and>
    tx_transaction_id t = ce_transaction_id v \<and> tx_origin_node_id t = Some (ce_source_node_id v) \<and>
    (tx_transaction_type t \<in> set ADMISSION_TRANSACTION_TYPES \<or>
      (\<exists>sg. service_group_scope_id t = Inr sg \<and>
        require_peer_synchronization_eligible ds (ce_source_node_id v) sg = Inr ())) \<and>
    submit_transaction e ds t REMOTE_TRANSACTION_POLICY = Inr (res, ds')"
proof -
  from assms obtain v t where v: "parse_envelope_bytes data = Inr v" "verify_inbound_envelope_signature e ds v = Inr ()"
    and t: "tx_transaction_id t = ce_transaction_id v" "tx_origin_node_id t = Some (ce_source_node_id v)"
    and a: "apply_inbound_transaction e ds t = Inr ds'" by (rule inbound_bytes_InrE)
  from v(2) obtain m l r key where s: "payload_codec_metadata (JObj (ce_payload v)) = Inr m"
    "map_of m ''mode'' = Some (JStr ENCRYPTED_CODEC_MODE)" "load_local_node_projection ds = Inr (Some l)"
    "ce_destination_node_id v = ln_node_id l" "get_peer_registry_entry ds (ce_source_node_id v) = Inr (Some r)"
    "pr_synchronization_eligible r" "pr_signing_algorithm r = ''ed25519''" "decode_b64url (pr_signing_public_key r) = Inr key"
    "verify_envelope_signature (pe_host e) v (ce_source_node_id v) key (Some (pr_signing_fingerprint r)) = Inr ()"
    by (rule verify_inbound_InrE)
  have ne: "ce_source_node_id v \<noteq> ln_node_id l"
    using private_not_registered [OF s(5)] local_projection_private [OF s(3)] by metis
  from a obtain res where sub: "submit_transaction e ds t REMOTE_TRANSACTION_POLICY = Inr (res, ds')"
    and ok: "tx_transaction_type t \<in> set ADMISSION_TRANSACTION_TYPES \<or>
      (\<exists>sg. service_group_scope_id t = Inr sg \<and> require_peer_synchronization_eligible ds (ce_source_node_id v) sg = Inr ())"
    using ne by (auto simp: apply_inbound_transaction_def rbind_Inr_iff s(3) t(2) or_empty_def split: if_split_asm)
  show ?thesis using v(1) s ne t ok sub by blast
qed

subsection \<open>From the sender's queue to the receiver's engine\<close>

lemma argument_text_of:
  "map_of p k = Some (json_text_opt v) \<Longrightarrow> argument_text p k d = Inr v"
  "map_of p k = Some (JStr s) \<Longrightarrow> argument_text p k d = Inr (Some s)"
  by (cases v) (simp_all add: argument_text_def json_text_opt_def)

lemma argument_int_of: "map_of p k = Some (JInt i) \<Longrightarrow> argument_int p k = Inr i"
  by (simp add: argument_int_def)

lemma transaction_payload_keys: "dict_wf (transaction_payload u)"
  by (simp add: dict_wf_def transaction_payload_def)

lemma transaction_from_payload:
  assumes "tx_signature u = None"
  shows "transaction_from_envelope_payload (JObj (dict_set ''payload'' (JObj q) (canon_obj (transaction_payload u)))) =
    create_transaction (u\<lparr>tx_payload := q\<rparr>)"
proof -
  let ?p = "dict_set ''payload'' (JObj q) (canon_obj (transaction_payload u))"
  have get: "map_of ?p k = (if k = ''payload'' then Some (JObj q) else map_option canon (map_of (transaction_payload u) k))" for k
    by (simp add: map_of_dict_set map_of_canon_obj [OF transaction_payload_keys])
  have c: "canon (json_text_opt v) = json_text_opt v" for v by (cases v) (simp_all add: json_text_opt_def)
  have f: "map_of ?p ''transaction_id'' = Some (JStr (tx_transaction_id u))"
    "map_of ?p ''transaction_type'' = Some (JStr (tx_transaction_type u))"
    "map_of ?p ''transaction_version'' = Some (JInt (tx_transaction_version u))"
    "map_of ?p ''payload_version'' = Some (JInt (tx_payload_version u))"
    "map_of ?p ''protocol_version'' = Some (JInt (tx_protocol_version u))"
    "map_of ?p ''organization_id'' = Some (json_text_opt (tx_organization_id u))"
    "map_of ?p ''client_id'' = Some (json_text_opt (tx_client_id u))"
    "map_of ?p ''owner_id'' = Some (json_text_opt (tx_owner_id u))"
    "map_of ?p ''origin_node_id'' = Some (json_text_opt (tx_origin_node_id u))"
    "map_of ?p ''previous_transaction_id'' = Some (json_text_opt (tx_previous_transaction_id u))"
    "map_of ?p ''payload'' = Some (JObj q)" "map_of ?p ''signature'' = Some JNull"
    "map_of ?p ''state'' = Some (JStr (tx_state u))" "map_of ?p ''created_at'' = Some (json_text_opt (tx_created_at u))"
    "map_of ?p ''received_at'' = Some (json_text_opt (tx_received_at u))"
    "map_of ?p ''applied_at'' = Some (json_text_opt (tx_applied_at u))"
    "map_of ?p ''acknowledged_at'' = Some (json_text_opt (tx_acknowledged_at u))"
    "map_of ?p ''cleared_at'' = Some (json_text_opt (tx_cleared_at u))"
    unfolding get by (simp_all add: transaction_payload_def c)
  have fields: "envelope_transaction_fields ?p q = Inr (u\<lparr>tx_payload := q, tx_payload_hash := []\<rparr>)"
    unfolding envelope_transaction_fields_def f(6-10,14-18) [THEN argument_text_of(1)] f(1,2,13) [THEN argument_text_of(2)]
      f(3-5) [THEN argument_int_of] rbind_simps
    using assms by (simp add: or_empty_def)
  have "find (\<lambda>f. \<not> dict_has f ?p) TRANSACTION_REQUIRED_FIELDS = None"
    unfolding TRANSACTION_REQUIRED_FIELDS_def find.simps dict_has_iff f by simp
  then show ?thesis
    unfolding transaction_from_envelope_payload_def json.case f(11,12) by (simp add: fields create_transaction_def)
qed

lemma decoded_transaction:
  assumes "json_wf (JObj (transaction_payload u))"
  shows "decoded_object (Inr (canonical_json_bytes (transaction_payload u))) = Inr (canon_obj (transaction_payload u))"
  using json_loads_dumps [OF assms] utf8_ok_print(1) [OF canon_wf [OF assms]]
  by (simp add: decoded_object_def codec_invalid_def canonical_json_bytes_def utf8_decode_def canonical_json_text_def
      canon_JObj del: json_wf.simps canon.simps)

lemma decoded_members:
  "map_of (canon_obj (transaction_payload u)) ''payload'' = Some (JObj (canon_obj (tx_payload u)))"
  "str_member (canon_obj (transaction_payload u)) ''transaction_id'' = tx_transaction_id u"
  "str_member (canon_obj (transaction_payload u)) ''transaction_type'' = tx_transaction_type u"
  by (simp_all add: str_member_def map_of_canon_obj [OF transaction_payload_keys] canon_JObj del: canon.simps(2))
    (simp_all add: transaction_payload_def canon_obj_def)

lemma process_verified_envelope:
  assumes v: "parse_envelope_bytes data = Inr v" "verify_inbound_envelope_signature r dr v = Inr ()"
      "ce_message_type v = ENVELOPE_TYPE_TRANSACTION"
    and d: "decode_inbound_envelope_payload r dr v = Inr (canonical_json_bytes (transaction_payload u))"
    and u: "json_wf (JObj (transaction_payload u))" "tx_signature u = None" "tx_transaction_id u = ce_transaction_id v"
      "tx_origin_node_id u = Some (ce_source_node_id v)"
  shows "apply_inbound_transaction_envelope_bytes r dr data =
    rbind (localize_inbound_storage_payload r dr (tx_transaction_id u) (tx_transaction_type u) (canon_obj (tx_payload u)))
      (\<lambda>q. rbind (create_transaction (u\<lparr>tx_payload := q\<rparr>)) (apply_inbound_transaction r dr))"
proof -
  have c: "rbind (create_transaction (u\<lparr>tx_payload := q\<rparr>)) (\<lambda>t.
      rbind (rguard (tx_transaction_id t = ce_transaction_id v) x) (\<lambda>_.
      rbind (rguard (tx_origin_node_id t = Some (ce_source_node_id v)) y) (\<lambda>_. apply_inbound_transaction r dr t))) =
    rbind (create_transaction (u\<lparr>tx_payload := q\<rparr>)) (apply_inbound_transaction r dr)" for q x y
    by (rule rbind_cong [OF refl]) (auto simp: create_transaction_def Let_def rbind_Inr_iff u(3,4))
  show ?thesis
    unfolding apply_inbound_transaction_envelope_bytes_def apply_inbound_transaction_envelope_def v parsed_bytes_again [OF v(1)]
      rmap_error_simps rbind_simps d decoded_transaction [OF u(1)] decoded_members option.case json.case
    by (simp add: transaction_from_payload [OF u(2)] c)
qed

text \<open>What two peers need to talk: the primitives of both ends obey their laws, the keys are raw keys, and both
  are nodes.\<close>

definition channel :: "peer_env \<Rightarrow> peer_env \<Rightarrow> identity_material \<Rightarrow> identity_material \<Rightarrow> bool" where
  "channel s r a b \<longleftrightarrow> cipher_law s r \<and> key_agreement_law s r b \<and> signature_law s r a \<and> keys_raw a \<and> keys_raw b \<and>
     is_identifier Node (im_node_id b) \<and> h_now (pe_host s) \<noteq> [] \<and> utf8_ok (h_now (pe_host s)) \<and>
     configured_envelope_payload_codec_mode s = Inr ENCRYPTED_CODEC_MODE"

text \<open>A datastore of the receiver \<open>b\<close> that has admitted the sender \<open>a\<close>.\<close>

definition admits :: "peer_env \<Rightarrow> datastore \<Rightarrow> identity_material \<Rightarrow> identity_material \<Rightarrow> bool" where
  "admits r dr b a \<longleftrightarrow> load_sqlite_node_identity_material r dr = Inr b \<and>
     (\<exists>f. get_peer_registry_entry dr (im_node_id a) = Inr (Some f) \<and> pr_synchronization_eligible f \<and> signs_as f a)"

lemma identity_projection:
  assumes "load_sqlite_node_identity_material e ds = Inr a"
  obtains l where "load_local_node_projection ds = Inr (Some l)" "ln_node_id l = im_node_id a"
  using assms
  by (auto simp: load_sqlite_node_identity_material_def validate_sqlite_node_identity_def rbind_Inr_iff
      require_projection_def validate_projection_matches_identity_def split: if_split_asm option.split_asm)

lemma encrypted_metadata:
  assumes "map_of (ce_payload w) ''codec'' = Some (JObj (canon_obj (codec_metadata ENCRYPTED_ENVELOPE_PAYLOAD_CODEC)))"
  shows "require_encrypted w = Inr ()"
  using assms payload_object_canonical(4) [of "''x''"]
  by (simp add: require_encrypted_def payload_codec_metadata_def codec_invalid_def)

lemma admitted_verifies:
  assumes ad: "admits r dr b a" and raw: "keys_raw a" and c: "ce_source_node_id w = im_node_id a" "ce_destination_node_id w = im_node_id b"
    and enc: "require_encrypted w = Inr ()"
    and sig: "verify_envelope_signature (pe_host r) w (im_node_id a) (im_signing_public_key a)
      (Some (sha256_hex (im_signing_public_key a))) = Inr ()"
  shows "verify_inbound_envelope_signature r dr w = Inr ()"
proof -
  from ad obtain f where f: "get_peer_registry_entry dr (im_node_id a) = Inr (Some f)" "pr_synchronization_eligible f" "signs_as f a"
    and b: "load_sqlite_node_identity_material r dr = Inr b" by (auto simp: admits_def)
  obtain l where l: "load_local_node_projection dr = Inr (Some l)" "ln_node_id l = im_node_id b"
    using b by (rule identity_projection)
  have "encode_b64url (im_signing_public_key a) \<noteq> []"
    using raw by (intro encode_b64url_neq_Nil) (auto simp: keys_raw_def)
  then show ?thesis
    using f(2,3) sig by (simp add: verify_inbound_envelope_signature_def enc l f(1) c signs_as_def decode_b64url_encode)
qed

lemma prepared_transaction:
  assumes "prepare_outbound_storage_payload h ds t c = Inr u"
  shows "tx_origin_node_id u = tx_origin_node_id t" "tx_signature u = tx_signature t"
    "tx_protocol_version u = tx_protocol_version t" "tx_transaction_type u = tx_transaction_type t"
    "create_transaction (u\<lparr>tx_payload := q\<rparr>) = create_transaction (t\<lparr>tx_payload := q\<rparr>)"
  using assms by (auto simp: prepare_outbound_storage_payload_def rbind_Inr_iff create_transaction_def split: if_split_asm)

lemma queued_bytes_processed:
  assumes ch: "channel s r a b" and ad: "admits r dr b a" and t: "sendable t (im_node_id a)" and entry: "encrypts_to entry b"
    and prepared: "prepare_outbound_storage_payload (pe_host s) ds t True = Inr u"
    and wf: "json_wf (JObj (transaction_payload u))"
    and nodes: "t_has nd_node_id (im_node_id a) (ds_nodes ds)" "t_has nd_node_id (im_node_id b) (ds_nodes ds)"
    and logged: "t_has tr_transaction_id (tx_transaction_id t) (ds_transactions ds)"
  shows "\<exists>ds' i data. queue_envelope s a t (im_node_id a) (im_node_id b, entry) ds = Inr ds' \<and>
    envelope_id_for (tx_transaction_id t) (im_node_id b) = Inr i \<and>
    ds_envelopes ds' = queued i (tx_transaction_id t) (im_node_id a) (im_node_id b) data (ds_envelopes ds) \<and>
    apply_inbound_transaction_envelope_bytes r dr data =
      rbind (localize_inbound_storage_payload r dr (tx_transaction_id t) (tx_transaction_type t) (canon_obj (tx_payload u)))
        (\<lambda>q. rbind (create_transaction (t\<lparr>tx_payload := q\<rparr>)) (apply_inbound_transaction r dr))"
proof -
  note ch' = ch [unfolded channel_def]
  note f = prepared_transaction [OF prepared] prepare_transaction_id [OF prepared]
  have laws: "cipher_law s r" "key_agreement_law s r b" "signature_law s r a" "keys_raw a" "keys_raw b"
    "is_identifier Node (im_node_id b)" "h_now (pe_host s) \<noteq> []" "utf8_ok (h_now (pe_host s))"
    "configured_envelope_payload_codec_mode s = Inr ENCRYPTED_CODEC_MODE" using ch' by blast+
  have t': "tx_origin_node_id t = Some (im_node_id a)" "tx_signature t = None" using t by (simp_all add: sendable_def)
  obtain v w g where q: "queue_envelope s a t (im_node_id a) (im_node_id b, entry) ds = Inr (ds\<lparr>
       ds_peer_groups := t_insert_ignore pg_peer_group_id \<lparr>pg_peer_group_id = g, pg_name = None\<rparr> (ds_peer_groups ds),
       ds_envelopes := queued (ce_envelope_id v) (tx_transaction_id t) (im_node_id a) (im_node_id b)
         (canonical_envelope_bytes v) (ds_envelopes ds)\<rparr>)"
    and w: "parse_envelope_bytes (canonical_envelope_bytes v) = Inr w" "envelope_context w = context_for u (im_node_id b)"
      "map_of (ce_payload w) ''codec'' = Some (JObj (canon_obj (codec_metadata ENCRYPTED_ENVELOPE_PAYLOAD_CODEC)))"
      "verify_envelope_signature (pe_host r) w (im_node_id a) (im_signing_public_key a)
        (Some (sha256_hex (im_signing_public_key a))) = Inr ()"
      "codec_decode r (encrypted_codec_for_local (envelope_context w) (im_encryption_private_key b)
          (im_encryption_public_key b) (json_obj_opt (ce_encryption_metadata w))) (JObj (ce_payload w)) =
        Inr (canonical_json_bytes (transaction_payload u))"
    and i: "envelope_id_for (tx_transaction_id t) (im_node_id b) = Inr (ce_envelope_id v)"
    by (rule queue_envelope_delivery [OF laws(1-5) t laws(6-9) entry prepared f(1-3) nodes logged])
  have c: "ce_source_node_id w = im_node_id a" "ce_destination_node_id w = im_node_id b" "ce_transaction_id w = tx_transaction_id u"
    using w(2) f(1) t'(1) by (simp_all add: envelope_context_def context_for_def)
  have enc: "require_encrypted w = Inr ()" using w(3) by (rule encrypted_metadata)
  have dec: "decode_inbound_envelope_payload r dr w = Inr (canonical_json_bytes (transaction_payload u))"
    using ad w(5) by (simp add: decode_inbound_envelope_payload_def enc admits_def codec_invalid_def)
  have mt: "ce_message_type w = ENVELOPE_TYPE_TRANSACTION"
    using parsed_envelope_fields(3) [OF parsed_bytes_again [OF w(1)]] by (simp add: envelope_shape_def)
  note processed = process_verified_envelope [OF w(1) admitted_verifies [OF ad laws(4) c(1,2) enc w(4)] mt dec wf _ c(3) [symmetric],
      unfolded c f t', OF refl refl]
  from q i processed show ?thesis by (intro exI conjI) auto
qed

text \<open>C2. Replication end to end: take a transaction of node \<open>a\<close> that is logged and queued for the admitted peer \<open>b\<close>.
  The bytes of the new queue row, received by a node with the identity of \<open>b\<close> that has admitted \<open>a\<close>, pass every
  check of the receiver: their processing is exactly the localisation of the transaction's payload to the
  receiver's storage, the reconstruction of that same transaction around it and its submission. No member of the
  transaction is lost, altered or added on the way, and no check between the two engines can refuse it.\<close>

theorem envelope_replicates:
  assumes ch: "channel s r a b" and ad: "admits r dr b a" and t: "sendable t (im_node_id a)" and entry: "encrypts_to entry b"
    and prepared: "prepare_outbound_storage_payload (pe_host s) ds t True = Inr u"
    and wf: "json_wf (JObj (transaction_payload u))"
    and nodes: "t_has nd_node_id (im_node_id a) (ds_nodes ds)" "t_has nd_node_id (im_node_id b) (ds_nodes ds)"
    and logged: "t_has tr_transaction_id (tx_transaction_id t) (ds_transactions ds)"
    and unsent: "\<And>i. envelope_id_for (tx_transaction_id t) (im_node_id b) = Inr i \<Longrightarrow> \<not> t_has ev_envelope_id i (ds_envelopes ds)"
  shows "\<exists>ds' row. queue_envelope s a t (im_node_id a) (im_node_id b, entry) ds = Inr ds' \<and>
    ds_envelopes ds' = ds_envelopes ds @ [row] \<and> ev_destination_node_id row = im_node_id b \<and>
    apply_inbound_transaction_envelope_bytes r dr (ev_encrypted_payload row) =
      rbind (localize_inbound_storage_payload r dr (tx_transaction_id t) (tx_transaction_type t) (canon_obj (tx_payload u)))
        (\<lambda>q. rbind (create_transaction (t\<lparr>tx_payload := q\<rparr>)) (apply_inbound_transaction r dr))"
proof -
  from queued_bytes_processed [OF ch ad t entry prepared wf nodes logged] obtain ds' i data where
    q: "queue_envelope s a t (im_node_id a) (im_node_id b, entry) ds = Inr ds'"
    and i: "envelope_id_for (tx_transaction_id t) (im_node_id b) = Inr i"
    and rows: "ds_envelopes ds' = queued i (tx_transaction_id t) (im_node_id a) (im_node_id b) data (ds_envelopes ds)"
    and p: "apply_inbound_transaction_envelope_bytes r dr data =
      rbind (localize_inbound_storage_payload r dr (tx_transaction_id t) (tx_transaction_type t) (canon_obj (tx_payload u)))
        (\<lambda>q. rbind (create_transaction (t\<lparr>tx_payload := q\<rparr>)) (apply_inbound_transaction r dr))" by blast
  show ?thesis
    using unsent [OF i] rows
    by (intro exI [of _ ds'] exI [of _ "envelope_queue_row i (tx_transaction_id t) (im_node_id a) (im_node_id b) data"] conjI q)
      (simp_all add: queued_def envelope_queue_row_def p)
qed

subsection \<open>Examples\<close>

lemma example_tag_payload_wf: "json_wf (JObj (transaction_payload example_tag))"
proof (rule json_wf_objI)
  show "distinct (map fst (transaction_payload example_tag))" by (simp add: transaction_payload_def)
  show "list_all plain (map fst (transaction_payload example_tag))"
    unfolding transaction_payload_def by simp code_simp
  have "utf8_ok ''vocabulary.tag.upsert''" "utf8_ok ''pending''" "utf8_ok ''2026-01-01T00:00:00Z''" by code_simp+
  moreover have "json_wf (JObj [(''name'', JStr ''prod''), (''tag_id'', JStr ''tag'')])" by code_simp
  ultimately show "list_all json_wf (map snd (transaction_payload example_tag))"
    using utf8_ok_identifier [OF is_identifier_format]
    by (simp add: transaction_payload_def example_tag_def example_transaction_def json_text_opt_def hash_payload_def
        del: utf8_ok.simps json_wf.simps(3))
qed

lemma example_tag_norm: "create_transaction (example_tag\<lparr>tx_payload := canon_obj (tx_payload example_tag)\<rparr>) = Inr example_tag"
proof -
  have "canon_obj (tx_payload example_tag) = tx_payload example_tag"
    by (simp add: example_tag_def example_transaction_def canon_obj_def) 
  moreover have "tx_payload_hash example_tag = sha256_hex (canonical_json_bytes (tx_payload example_tag))"
    by (simp add: example_tag_def example_transaction_def hash_payload_def)
  then have "example_tag\<lparr>tx_payload_hash := sha256_hex (canonical_json_bytes (tx_payload example_tag))\<rparr> = example_tag"
    by (intro Transaction.equality) simp_all
  ultimately show ?thesis
    using example_tag_valid(1) by (simp add: create_transaction_def Let_def)
qed

text \<open>Node 2, which has admitted node 1, is given a vocabulary transaction of node 1.\<close>

lemma example_tag_received:
  obtains ds' where "apply_inbound_transaction (example_env 2) (example_network 2 1) example_tag = Inr ds'"
    "log_ids ds' = [tx_transaction_id example_tag]"
proof -
  note One_nat_def [simp del]
  let ?ds = "example_network 2 1"
  have ne: "format_identifier Node 2 \<noteq> format_identifier Node 1" by (simp add: format_identifier_inject)
  have ty: "''vocabulary.tag.upsert'' \<noteq> ''secret.set''" "''vocabulary.tag.upsert'' \<noteq> ''secret.delete''" by simp_all
  obtain o' c g i where boot: "bootstrap_replay_support_rows ?ds [example_tag] = Inr (?ds\<lparr>ds_organizations := o', ds_clients := c,
      ds_peer_groups := g, ds_nodes := t_insert_ignore nd_node_id (placeholder_node (format_identifier Node 1) i) (ds_nodes ?ds)\<rparr>)"
    by (rule example_support [OF ty, of ?ds "[(''name'', JStr ''prod''), (''tag_id'', JStr ''tag'')]" 6, folded example_tag_def])
  let ?base = "?ds\<lparr>ds_organizations := o', ds_clients := c, ds_peer_groups := g\<rparr>"
  have nodes: "t_insert_ignore nd_node_id (placeholder_node (format_identifier Node 1) i) (ds_nodes ?ds) = ds_nodes ?ds"
    by (simp add: t_insert_ignore_def placeholder_node_def blank_node_def example_network_def example_member_def t_has_simps)
  have boot: "bootstrap_replay_support_rows ?ds [example_tag] = Inr ?base"
    using boot unfolding nodes by simp
  obtain ds1 ds2 ds3 where d: "insert_transaction ?base example_tag = Inr ds1"
    "apply_transaction (pe_host (example_env 2)) ds1 example_tag = Inr ds2"
    "mark_transaction_applied (h_now (pe_host (example_env 2))) ds2 (tx_transaction_id example_tag) = Inr ds3"
    "ds_nodes ds3 = ds_nodes ?ds" "ds_node_private ds3 = ds_node_private ?ds" "log_ids ds3 = [tx_transaction_id example_tag]"
    by (rule example_tag_steps [of ?base 2])
      (simp_all add: example_network_def empty_datastore_def example_member_def t_has_simps)
  obtain entry where e: "entry_from_row ds3 (example_member 1) = Inr entry"
    using entry_from_row_total [of "example_member 1" ds3] by (auto simp: example_member_def example_node_row_def)
  then have en: "pr_node_id entry = format_identifier Node 1"
    by (auto simp: entry_from_row_def Let_def example_member_def split: if_split_asm prod.split_asm)
  have entries: "list_peer_registry_entries ds3 = Inr [entry]"
    using ne e by (simp add: list_peer_registry_entries_def d(4,5) example_network_def) (simp add: example_member_def)
  have "tx_origin_node_id example_tag = Some (pr_node_id entry)" by (simp add: example_tag_valid(4) en)
  moreover have "\<not> transaction_exists ?base (tx_transaction_id example_tag)"
    by (simp add: transaction_exists_def example_network_def empty_datastore_def t_has_simps)
  ultimately obtain r where sub: "submit_transaction (example_env 2) ?ds example_tag REMOTE_TRANSACTION_POLICY = Inr (r, ds3)"
    using lone_remote_submission [OF example_tag_valid(1,2) boot _ d(1-3) entries _ example_tag_valid(3)] by blast
  have ne': "format_identifier Node (of_nat 2) \<noteq> format_identifier Node (of_nat 1)" using ne by simp
  obtain f where f: "get_peer_registry_entry (?ds\<lparr>ds_transactions := []\<rparr>) (format_identifier Node (of_nat 1)) = Inr (Some f)"
    "pr_synchronization_eligible f" by (rule example_network_entry [OF ne'])
  obtain l where l: "load_local_node_projection (?ds\<lparr>ds_transactions := []\<rparr>) = Inr (Some l)" "ln_node_id l = im_node_id (example_identity 2)"
    using example_network_identity [OF ne'] by (rule identity_projection)
  have same: "?ds\<lparr>ds_transactions := []\<rparr> = ?ds" by (simp add: example_network_def empty_datastore_def)
  have "tx_transaction_type example_tag \<notin> set ADMISSION_TRANSACTION_TYPES"
    by (simp add: example_tag_def example_transaction_def ADMISSION_TRANSACTION_TYPES_def)
  then have "apply_inbound_transaction (example_env 2) ?ds example_tag = Inr ds3"
    using l f ne unfolding same
    by (simp add: apply_inbound_transaction_def example_tag_valid(3,4) example_channel(5) or_empty_def sub
        require_peer_synchronization_eligible_def)
  with d(6) show thesis by (rule that [rotated]) 
qed


lemma example_inbound:
  "channel (example_env 1) (example_env 2) (example_identity 1) (example_identity 2)"
  "admits (example_env 2) (example_network 2 1) (example_identity 2) (example_identity 1)"
  "sendable example_tag (im_node_id (example_identity 1))"
  "prepare_outbound_storage_payload h ds example_tag True = Inr example_tag"
  "localize_inbound_storage_payload e ds i ty (canon_obj (tx_payload example_tag)) = Inr (canon_obj (tx_payload example_tag))"
proof -
  note One_nat_def [simp del]
  have ne: "format_identifier Node (of_nat 2) \<noteq> format_identifier Node (of_nat 1)" by (simp add: format_identifier_inject)
  show "channel (example_env 1) (example_env 2) (example_identity 1) (example_identity 2)"
    using example_channel example_sent_ok(3,4) example_change_outbound(3) by (simp add: channel_def)
  obtain f where "get_peer_registry_entry (example_network 2 1\<lparr>ds_transactions := []\<rparr>) (format_identifier Node (of_nat 1)) = Inr (Some f)"
    "pr_synchronization_eligible f" "signs_as f (example_identity 1)" by (rule example_network_entry [OF ne])
  moreover have "example_network 2 1\<lparr>ds_transactions := []\<rparr> = example_network 2 1"
    by (simp add: example_network_def empty_datastore_def)
  ultimately show "admits (example_env 2) (example_network 2 1) (example_identity 2) (example_identity 1)"
    using example_network_identity [OF ne, of "[]"] by (simp add: admits_def example_channel(5))
  show "sendable example_tag (im_node_id (example_identity 1))"
    by (simp add: sendable_def example_tag_def example_transaction_def example_channel(5))
  show "prepare_outbound_storage_payload h ds example_tag True = Inr example_tag"
    by (simp add: prepare_outbound_storage_payload_def example_tag_def example_transaction_def)
  show "localize_inbound_storage_payload e ds i ty (canon_obj (tx_payload example_tag)) = Inr (canon_obj (tx_payload example_tag))"
    by (simp add: localize_inbound_storage_payload_def example_tag_def example_transaction_def canon_obj_def)
qed

lemma example_tag_delivered:
  obtains entry and ds :: datastore where "encrypts_to entry (example_identity 2)"
    "t_has nd_node_id (im_node_id (example_identity 1)) (ds_nodes ds)" "t_has nd_node_id (im_node_id (example_identity 2)) (ds_nodes ds)"
    "t_has tr_transaction_id (tx_transaction_id example_tag) (ds_transactions ds)" "ds_envelopes ds = []"
proof -
  note One_nat_def [simp del]
  let ?l = "[transaction_to_row example_tag []]"
  have ne: "format_identifier Node (of_nat 1) \<noteq> format_identifier Node (of_nat 2)" by (simp add: format_identifier_inject)
  obtain entry where "encrypts_to entry (example_identity 2)" by (rule example_network_entry [OF ne])
  then show thesis
    by (rule that [of entry "example_network 1 2\<lparr>ds_transactions := ?l\<rparr>"])
      (simp_all add: example_network_def example_member_def empty_datastore_def example_channel(5) t_has_simps transaction_to_row_def)
qed

theorem envelope_replicates_witness:
  "\<exists>entry ds ds' row dr'. queue_envelope (example_env 1) (example_identity 1) example_tag (im_node_id (example_identity 1))
      (im_node_id (example_identity 2), entry) ds = Inr ds' \<and> ds_envelopes ds' = ds_envelopes ds @ [row] \<and>
    apply_inbound_transaction_envelope_bytes (example_env 2) (example_network 2 1) (ev_encrypted_payload row) = Inr dr' \<and>
    log_ids dr' = [tx_transaction_id example_tag]"
proof -
  obtain entry and ds :: datastore where d: "encrypts_to entry (example_identity 2)"
    "t_has nd_node_id (im_node_id (example_identity 1)) (ds_nodes ds)" "t_has nd_node_id (im_node_id (example_identity 2)) (ds_nodes ds)"
    "t_has tr_transaction_id (tx_transaction_id example_tag) (ds_transactions ds)" "ds_envelopes ds = []"
    by (rule example_tag_delivered)
  have unsent: "\<not> t_has ev_envelope_id i (ds_envelopes ds)" for i by (simp add: d(5) t_has_simps)
  obtain dr' where r: "apply_inbound_transaction (example_env 2) (example_network 2 1) example_tag = Inr dr'"
    "log_ids dr' = [tx_transaction_id example_tag]" by (rule example_tag_received)
  from envelope_replicates [OF example_inbound(1-3) d(1) example_inbound(4) example_tag_payload_wf d(2-4) unsent] r
  show ?thesis by (simp add: example_inbound(5) example_tag_norm) blast
qed

theorem inbound_authenticated_witness:
  "\<exists>data ds' v r key. apply_inbound_transaction_envelope_bytes (example_env 2) (example_network 2 1) data = Inr ds' \<and>
    parse_envelope_bytes data = Inr v \<and> get_peer_registry_entry (example_network 2 1) (ce_source_node_id v) = Inr (Some r) \<and>
    decode_b64url (pr_signing_public_key r) = Inr key \<and>
    verify_envelope_signature (pe_host (example_env 2)) v (ce_source_node_id v) key (Some (pr_signing_fingerprint r)) = Inr ()"
proof -
  obtain entry and ds :: datastore where d: "encrypts_to entry (example_identity 2)"
    "t_has nd_node_id (im_node_id (example_identity 1)) (ds_nodes ds)" "t_has nd_node_id (im_node_id (example_identity 2)) (ds_nodes ds)"
    "t_has tr_transaction_id (tx_transaction_id example_tag) (ds_transactions ds)" "ds_envelopes ds = []"
    by (rule example_tag_delivered)
  obtain data where "apply_inbound_transaction_envelope_bytes (example_env 2) (example_network 2 1) data =
      rbind (create_transaction (example_tag\<lparr>tx_payload := canon_obj (tx_payload example_tag)\<rparr>))
        (apply_inbound_transaction (example_env 2) (example_network 2 1))"
    using queued_bytes_processed [OF example_inbound(1-3) d(1) example_inbound(4) example_tag_payload_wf d(2-4)]
    by (simp add: example_inbound(5)) blast
  moreover obtain ds' where "apply_inbound_transaction (example_env 2) (example_network 2 1) example_tag = Inr ds'"
    by (rule example_tag_received)
  ultimately have a: "apply_inbound_transaction_envelope_bytes (example_env 2) (example_network 2 1) data = Inr ds'"
    by (simp add: example_tag_norm)
  from inbound_authenticated [OF a] a show ?thesis by blast
qed

end
