(* ===== verification/Kit_Time.thy ===== *)
theory Kit_Time
  imports Kit_Prelude
begin

section \<open>Timestamps\<close>

text \<open>
  \<open>now_utc_iso\<close> of \<open>models.py\<close>: the UTC time in whole seconds as ISO 8601 text with a \<open>Z\<close>. A reading of the clock
  is the number of seconds since 1970; the date is found by stepping through the Gregorian calendar. The sources
  keep times as text and compare them as text, in SQL and in Python, which is right because the text of a later
  time is greater, up to the year 9999.
\<close>

definition leap_year :: "nat \<Rightarrow> bool" where
  "leap_year y \<longleftrightarrow> y mod 4 = 0 \<and> (y mod 100 \<noteq> 0 \<or> y mod 400 = 0)"

definition month_days :: "nat \<Rightarrow> nat \<Rightarrow> nat" where
  "month_days y m =
     (if m = 2 then if leap_year y then 29 else 28 else if m \<in> {4, 6, 9, 11} then 30 else 31)"

type_synonym date = "nat \<times> nat \<times> nat"

fun next_day :: "date \<Rightarrow> date" where
  "next_day (y, m, d) =
     (if d < month_days y m then (y, m, d + 1) else if m < 12 then (y, m + 1, 1) else (y + 1, 1, 1))"

definition date_of :: "nat \<Rightarrow> date" where
  "date_of n = (next_day ^^ n) (1970, 1, 1)"

fun digits :: "nat \<Rightarrow> nat \<Rightarrow> string" where
  "digits 0 n = []"
| "digits (Suc k) n = digits k (n div 10) @ [char_of (48 + n mod 10)]"

definition iso_text :: "date \<Rightarrow> nat \<Rightarrow> nat \<Rightarrow> nat \<Rightarrow> string" where
  "iso_text date h m s =
     (case date of (year, month, day) \<Rightarrow>
        digits 4 year @ ''-'' @ digits 2 month @ ''-'' @ digits 2 day @ ''T'' @
        digits 2 h @ '':'' @ digits 2 m @ '':'' @ digits 2 s @ ''Z'')"

definition utc_iso :: "nat \<Rightarrow> string" where
  "utc_iso t = iso_text (date_of (t div 86400)) (t mod 86400 div 3600) (t mod 3600 div 60) (t mod 60)"

definition now_utc_iso :: "nat \<Rightarrow> string" where
  "now_utc_iso clock = utc_iso clock"

text \<open>
  \<open>strftime('%Y-%m-%dT%H:%M:%SZ', value, '+60 seconds')\<close> of SQLite on a text that \<open>now_utc_iso\<close> wrote: the fields are read
  back and a minute is carried over hours and days. Other time texts that SQLite would read are outside the model.
\<close>

definition digit_value :: "char \<Rightarrow> nat option" where
  "digit_value c = (let n = of_char c in if 48 \<le> n \<and> n < 58 then Some (n - 48) else None)"

fun digits_value :: "nat \<Rightarrow> string \<Rightarrow> nat option" where
  "digits_value n [] = Some n"
| "digits_value n (c # s) = (case digit_value c of None \<Rightarrow> None | Some d \<Rightarrow> digits_value (10 * n + d) s)"

definition read_field :: "string \<Rightarrow> nat \<Rightarrow> nat \<Rightarrow> nat option" where
  "read_field s i k = digits_value 0 (take k (drop i s))"

fun next_minute :: "date \<times> nat \<times> nat \<Rightarrow> date \<times> nat \<times> nat" where
  "next_minute (d, h, m) = (if m < 59 then (d, h, m + 1) else if h < 23 then (d, h + 1, 0) else (next_day d, 0, 0))"

definition iso_plus_minute :: "string \<Rightarrow> string option" where
  "iso_plus_minute t =
     (case map (\<lambda>(i, k). read_field t i k) [(0, 4), (5, 2), (8, 2), (11, 2), (14, 2), (17, 2)] of
        [Some year, Some month, Some day, Some h, Some m, Some s] \<Rightarrow>
          if t = iso_text (year, month, day) h m s
          then (case next_minute ((year, month, day), h, m) of (d, h', m') \<Rightarrow> Some (iso_text d h' m' s))
          else None
      | _ \<Rightarrow> None)"

subsection \<open>The calendar\<close>

definition date_ok :: "date \<Rightarrow> bool" where
  "date_ok x \<longleftrightarrow> (case x of (y, m, d) \<Rightarrow> 1 \<le> m \<and> m \<le> 12 \<and> 1 \<le> d \<and> d \<le> month_days y m)"

definition date_less :: "date \<Rightarrow> date \<Rightarrow> bool" where
  "date_less a b \<longleftrightarrow> (case a of (y, m, d) \<Rightarrow> case b of (y', m', d') \<Rightarrow>
     y < y' \<or> y = y' \<and> (m < m' \<or> m = m' \<and> d < d'))"

lemma date_less_trans: "date_less a b \<Longrightarrow> date_less b c \<Longrightarrow> date_less a c"
  by (cases a; cases b; cases c) (auto simp: date_less_def)

lemma month_days_bounds: "28 \<le> month_days y m" "month_days y m \<le> 31"
  by (simp_all add: month_days_def)

lemma month_days_pos [simp]: "Suc 0 \<le> month_days y m"
  by (simp add: month_days_def)

lemma next_day_ok: "date_ok x \<Longrightarrow> date_ok (next_day x)"
  by (cases x) (auto simp: date_ok_def)

lemma next_day_less: "date_less x (next_day x)"
  by (cases x) (simp add: date_less_def)

lemma date_of_ok: "date_ok (date_of n)"
proof (induction n)
  case 0
  show ?case by (simp add: date_of_def date_ok_def month_days_def)
next
  case (Suc n)
  then show ?case using next_day_ok [of "date_of n"] by (simp add: date_of_def)
qed

lemma date_of_less: "m < n \<Longrightarrow> date_less (date_of m) (date_of n)"
proof (induction n)
  case (Suc n)
  have step: "date_less (date_of n) (date_of (Suc n))" using next_day_less by (simp add: date_of_def)
  from Suc.prems consider "m < n" | "m = n" by linarith
  then show ?case using step Suc.IH by cases (auto intro: date_less_trans)
qed simp

text \<open>Days of an ordinary year before each month; a year has at least 365 days.\<close>

definition month_start :: "nat \<Rightarrow> nat" where
  "month_start m = [0, 0, 31, 59, 90, 120, 151, 181, 212, 243, 273, 304, 334] ! m"

lemma month_start_next:
  assumes "1 \<le> m" "m < 12"
  shows "month_start (m + 1) \<le> month_start m + month_days y m"
proof -
  from assms have "m = 1 \<or> m = 2 \<or> m = 3 \<or> m = 4 \<or> m = 5 \<or> m = 6 \<or> m = 7 \<or> m = 8 \<or> m = 9 \<or> m = 10 \<or> m = 11"
    by arith
  then show ?thesis by (elim disjE) (simp_all add: month_start_def month_days_def)
qed

lemma date_of_year: "case date_of n of (y, m, d) \<Rightarrow> 1970 \<le> y \<and> 365 * (y - 1970) + month_start m + d \<le> n + 1"
proof (induction n)
  case 0
  show ?case by (simp add: date_of_def month_start_def)
next
  case (Suc n)
  obtain y m d where x: "date_of n = (y, m, d)" by (cases "date_of n")
  have s: "date_of (Suc n) = next_day (y, m, d)" using x by (simp add: date_of_def)
  have ok: "1 \<le> m" "m \<le> 12" "1 \<le> d" "d \<le> month_days y m" using date_of_ok [of n] by (simp_all add: x date_ok_def)
  have ih: "1970 \<le> y" "365 * (y - 1970) + month_start m + d \<le> n + 1" using Suc.IH by (simp_all add: x)
  show ?case
  proof (cases "d < month_days y m")
    case True
    with ih show ?thesis by (simp add: s)
  next
    case False
    then have d: "d = month_days y m" using ok(4) by simp
    show ?thesis
    proof (cases "m < 12")
      case True
      with ih month_start_next [OF ok(1) True, of y] show ?thesis by (simp add: s d)
    next
      case False
      then have "m = 12" using ok(2) by simp
      with ih d show ?thesis by (simp add: s) (simp add: month_start_def month_days_def)
    qed
  qed
qed

lemma date_of_year_bound:
  assumes "n < 365 * 8030" and "date_of n = (y, m, d)"
  shows "y < 10000"
proof -
  have "365 * (y - 1970) + month_start m + d \<le> n + 1" "1 \<le> d"
    using date_of_year [of n] date_of_ok [of n] assms(2) by (simp_all add: date_ok_def)
  then have "365 * (y - 1970) < 365 * 8030" using assms(1) by linarith
  then show ?thesis by arith
qed

subsection \<open>Later times have greater texts\<close>

lemma less_append_same_length:
  fixes a b c d :: "'a :: order list"
  shows "length a = length b \<Longrightarrow> a @ c < b @ d \<longleftrightarrow> a < b \<or> a = b \<and> c < d"
  by (induction a b rule: list_induct2) auto

lemma div_mod_less:
  fixes s t n :: nat
  assumes "s < t"
  shows "s div n < t div n \<or> s div n = t div n \<and> s mod n < t mod n"
proof (cases "s div n < t div n")
  case False
  then have d: "s div n = t div n" using assms by (simp add: div_le_mono le_antisym)
  have "n * (s div n) + s mod n < n * (t div n) + t mod n" using assms by (simp only: mult_div_mod_eq)
  then have "s mod n < t mod n" unfolding d by (rule add_less_imp_less_left)
  with d show ?thesis by blast
qed simp

lemma length_digits [simp]: "length (digits k n) = k"
  by (induction k arbitrary: n) simp_all

lemma digit_less: "a < b \<Longrightarrow> b < 10 \<Longrightarrow> (char_of (48 + a :: nat) :: char) < char_of (48 + b)"
  by (simp add: less_char_def)

lemma digits_less: "a < b \<Longrightarrow> b < 10 ^ k \<Longrightarrow> digits k a < digits k b"
proof (induction k arbitrary: a b)
  case (Suc k)
  have "b div 10 < 10 ^ k" using Suc.prems(2) by (simp add: less_mult_imp_div_less mult.commute)
  moreover have "b mod 10 < 10" by simp
  ultimately show ?case
    using div_mod_less [OF Suc.prems(1), of 10] Suc.IH [of "a div 10" "b div 10"] digit_less [of "a mod 10" "b mod 10"]
    by (elim disjE) (simp_all add: less_append_same_length)
qed simp

lemma digits_append_less: "a < b \<and> b < 10 ^ k \<or> a = b \<and> x < y \<Longrightarrow> digits k a @ x < digits k b @ y"
  using digits_less by (auto simp: less_append_same_length)

lemma iso_text_less:
  assumes "date_less (y, mo, d) (y', mo', d') \<or> (y, mo, d) = (y', mo', d') \<and>
      (h < h' \<or> h = h' \<and> (m < m' \<or> m = m' \<and> s < s'))"
    and b: "y' < 10000" "mo' < 100" "d' < 100" "h' < 100" "m' < 100" "s' < 100"
  shows "iso_text (y, mo, d) h m s < iso_text (y', mo', d') h' m' s'"
proof -
  from assms(1) have "y < y' \<or> y = y' \<and> (mo < mo' \<or> mo = mo' \<and> (d < d' \<or> d = d' \<and> (h < h' \<or> h = h' \<and>
    (m < m' \<or> m = m' \<and> s < s'))))" by (auto simp: date_less_def)
  then show ?thesis
    using b by (elim disjE conjE) (simp_all add: iso_text_def digits_append_less del: digits.simps)
qed

definition clock_ok :: "nat \<Rightarrow> bool" where
  "clock_ok t \<longleftrightarrow> t < 86400 * (365 * 8030)"

lemma utc_iso_less:
  assumes "s < t" "clock_ok t"
  shows "utc_iso s < utc_iso t"
proof -
  obtain y mo d where a: "date_of (s div 86400) = (y, mo, d)" by (cases "date_of (s div 86400)")
  obtain y' mo' d' where b: "date_of (t div 86400) = (y', mo', d')" by (cases "date_of (t div 86400)")
  have "t div 86400 < 365 * 8030" using assms(2) by (simp add: clock_ok_def)
  then have y: "y' < 10000" using date_of_year_bound b by blast
  have ok: "mo' < 100" "d' < 100"
    using date_of_ok [of "t div 86400"] month_days_bounds(2) [of y' mo'] by (simp_all add: b date_ok_def)
  have "date_less (y, mo, d) (y', mo', d') \<or> (y, mo, d) = (y', mo', d') \<and> s mod 86400 < t mod 86400"
    using div_mod_less [OF assms(1), of 86400] date_of_less [of "s div 86400" "t div 86400"] a b by auto
  moreover have "s mod 86400 div 3600 < t mod 86400 div 3600 \<or> s mod 86400 div 3600 = t mod 86400 div 3600 \<and>
      (s mod 3600 div 60 < t mod 3600 div 60 \<or> s mod 3600 div 60 = t mod 3600 div 60 \<and> s mod 60 < t mod 60)"
    if "s mod 86400 < t mod 86400"
  proof -
    have m: "x mod 86400 mod 3600 = x mod 3600" "x mod 3600 mod 60 = x mod 60" for x :: nat by (simp_all add: mod_mod_cancel)
    show ?thesis
      using div_mod_less [OF that, of 3600] div_mod_less [of "s mod 3600" "t mod 3600" 60] unfolding m by blast
  qed
  moreover have "t mod 86400 div 3600 < 100" "t mod 3600 div 60 < 100" "t mod 60 < 100"
  proof -
    have "t mod 86400 < 100 * 3600" "t mod 3600 < 100 * 60" "t mod 60 < 60"
      using mod_less_divisor [of 86400 t] mod_less_divisor [of 3600 t] by simp_all
    then show "t mod 86400 div 3600 < 100" "t mod 3600 div 60 < 100" "t mod 60 < 100"
      using less_mult_imp_div_less by (blast, blast, linarith)
  qed
  ultimately show ?thesis
    unfolding utc_iso_def a b using y ok by (intro iso_text_less) blast+
qed

lemma utc_iso_le_iff [simp]:
  assumes "clock_ok s" "clock_ok t"
  shows "utc_iso s \<le> utc_iso t \<longleftrightarrow> s \<le> t"
  using utc_iso_less [of s t] utc_iso_less [of t s] assms by (metis linorder_cases not_less order.order_iff_strict)

lemma utc_iso_less_iff [simp]:
  assumes "clock_ok s" "clock_ok t"
  shows "utc_iso s < utc_iso t \<longleftrightarrow> s < t"
  using assms utc_iso_le_iff by (metis not_le)

lemma utc_iso_inject: "clock_ok s \<Longrightarrow> clock_ok t \<Longrightarrow> utc_iso s = utc_iso t \<longleftrightarrow> s = t"
  by (metis antisym order_refl utc_iso_le_iff)

subsection \<open>Reading a time back\<close>

lemma digits_value_append: "digits_value n (a @ b) = Option.bind (digits_value n a) (\<lambda>m. digits_value m b)"
  by (induction a arbitrary: n) (auto split: option.split)

lemma digits_value_digits: "n < 10 ^ k \<Longrightarrow> digits_value m (digits k n) = Some (m * 10 ^ k + n)"
proof (induction k arbitrary: n m)
  case (Suc k)
  have d: "digit_value (char_of (48 + n mod 10)) = Some (n mod 10)"
    by (simp add: digit_value_def Let_def)
  have "n div 10 < 10 ^ k" using Suc.prems by (simp add: less_mult_imp_div_less mult.commute)
  from Suc.IH [OF this, of m] have "digits_value m (digits (Suc k) n) = Some (10 * (m * 10 ^ k + n div 10) + n mod 10)"
    by (simp add: digits_value_append d)
  moreover have "10 * (m * 10 ^ k + n div 10) + n mod 10 = m * 10 ^ Suc k + n" by simp
  ultimately show ?case by simp
qed simp

lemma read_iso_text:
  assumes "y < 10000" "mo < 100" "d < 100" "h < 100" "m < 100" "s < 100"
  shows "map (\<lambda>(i, k). read_field (iso_text (y, mo, d) h m s) i k) [(0, 4), (5, 2), (8, 2), (11, 2), (14, 2), (17, 2)] =
    [Some y, Some mo, Some d, Some h, Some m, Some s]"
proof -
  have v: "digits_value 0 (digits 4 y) = Some y" using digits_value_digits [of y 4 0] assms by (simp del: digits.simps)
  have w: "digits_value 0 (digits 2 x) = Some x" if "x < 100" for x
    using digits_value_digits [of x 2 0] that by (simp del: digits.simps)
  show ?thesis
    using assms by (simp add: read_field_def iso_text_def take_append drop_append v w del: digits.simps)
qed

lemma utc_fields_ok:
  assumes "clock_ok t" "date_of (t div 86400) = (y, mo, d)"
  shows "y < 10000" "mo < 100" "d < 100" "t mod 86400 div 3600 < 100" "t mod 3600 div 60 < 100" "t mod 60 < 100"
proof -
  have "t div 86400 < 365 * 8030" using assms(1) by (simp add: clock_ok_def)
  then show "y < 10000" using date_of_year_bound assms(2) by blast
  show "mo < 100" "d < 100"
    using date_of_ok [of "t div 86400"] month_days_bounds(2) [of y mo] by (simp_all add: assms(2) date_ok_def)
  have "t mod 86400 < 100 * 3600" "t mod 3600 < 100 * 60" "t mod 60 < 60"
    using mod_less_divisor [of 86400 t] mod_less_divisor [of 3600 t] by simp_all
  then show "t mod 86400 div 3600 < 100" "t mod 3600 div 60 < 100" "t mod 60 < 100"
    using less_mult_imp_div_less by (blast, blast, linarith)
qed

lemma minute_fields:
  fixes t :: nat
  shows "t div 86400 = t div 60 div 60 div 24" "t mod 86400 div 3600 = t div 60 div 60 mod 24" "t mod 3600 div 60 = t div 60 mod 60"
proof -
  have m: "0 < b \<Longrightarrow> a mod (b * c) div b = a div b mod c" for a b c :: nat by (simp add: mod_mult2_eq)
  show "t div 86400 = t div 60 div 60 div 24" by (simp add: div_mult2_eq [symmetric])
  show "t mod 86400 div 3600 = t div 60 div 60 mod 24" using m [of 3600 t 24] by (simp add: div_mult2_eq [symmetric])
  show "t mod 3600 div 60 = t div 60 mod 60" using m [of 60 t 60] by simp
qed

lemma next_minute_fields:
  "next_minute (date_of (q div 60 div 24), q div 60 mod 24, q mod 60) =
    (date_of (Suc q div 60 div 24), Suc q div 60 mod 24, Suc q mod 60)"
proof -
  have "q mod 60 < 60" "q div 60 mod 24 < 24" by simp_all
  then show ?thesis
    by (auto simp: div_Suc mod_Suc date_of_def)
qed

lemma iso_plus_minute_utc:
  assumes "clock_ok t"
  shows "iso_plus_minute (utc_iso t) = Some (utc_iso (t + 60))"
proof -
  obtain y mo d where a: "date_of (t div 86400) = (y, mo, d)" by (cases "date_of (t div 86400)")
  let ?h = "t mod 86400 div 3600" and ?m = "t mod 3600 div 60"
  have u: "utc_iso t = iso_text (y, mo, d) ?h ?m (t mod 60)" by (simp add: utc_iso_def a)
  note r = read_iso_text [OF utc_fields_ok [OF assms a]]
  have s: "(t + 60) mod 60 = t mod 60" and q: "(t + 60) div 60 = Suc (t div 60)" by simp_all
  have "next_minute (date_of (t div 86400), ?h, ?m) =
      (date_of ((t + 60) div 86400), (t + 60) mod 86400 div 3600, (t + 60) mod 3600 div 60)"
    unfolding minute_fields q by (rule next_minute_fields)
  with a show ?thesis
    unfolding iso_plus_minute_def u r list.case option.case by (simp add: utc_iso_def s)
qed

end
