(* ===== verification/Kit_Delivery.thy ===== *)
theory Kit_Delivery
  imports Kit_Inbound Kit_Time "HOL-Library.Product_Lexorder" "HOL-Library.Option_ord"
begin

section \<open>Delivery of queued envelopes\<close>

text \<open>
  \<open>runtime/outbound_delivery.py\<close>: a worker takes the due rows of the envelope queue, claims each, checks again that its
  peer may have it, hands the bytes to the transport and records the outcome. Failures consume a retry budget of
  the peer and postpone all of its rows; an exhausted budget parks them until the peer is heard of again.

  Every statement commits on its own, so an exception leaves what was done before it: operations of this theory
  answer the new state beside the error. The clock is a count of seconds; it advances while the transport works
  and is read as the same value in between. The transport, the client of the local daemon, is the argument
  \<open>route\<close>: for a peer and bytes it answers how long it took and what came back.
\<close>

definition CLAIM_LEASE_SECONDS :: nat where
  "CLAIM_LEASE_SECONDS = 60"

definition RETRY_BASE_SECONDS :: nat where
  "RETRY_BASE_SECONDS = 3"

definition RETRY_MAX_SECONDS :: nat where
  "RETRY_MAX_SECONDS = 60"

definition MAX_DELIVERY_ATTEMPTS :: int where
  "MAX_DELIVERY_ATTEMPTS = 4"

record DeliveryOutcome =
  do_delivered :: bool
  do_failure_reason :: string

datatype route_result = Response json_obj | Raised string

type_synonym route = "string \<Rightarrow> bytes \<Rightarrow> nat \<Rightarrow> nat \<times> route_result"

definition deliver_outbound_envelope :: "route \<Rightarrow> nat \<Rightarrow> envelope_row \<Rightarrow> nat \<times> DeliveryOutcome" where
  "deliver_outbound_envelope route clock row =
     (case route (ev_destination_node_id row) (ev_encrypted_payload row) clock of
        (elapsed, Raised reason) \<Rightarrow> (clock + elapsed, \<lparr>do_delivered = False, do_failure_reason = reason\<rparr>)
      | (elapsed, Response response) \<Rightarrow>
          (clock + elapsed,
           if map_of response ''status'' \<noteq> Some (JStr ''ok'') \<or> map_of response ''response'' \<noteq> Some (JStr ''delivered'')
           then \<lparr>do_delivered = False, do_failure_reason = ''transport did not deliver opaque payload: ''\<rparr>
           else \<lparr>do_delivered = True, do_failure_reason = []\<rparr>))"

subsection \<open>The statements on the queue\<close>

text \<open>\<open>UPDATE envelopes SET ... WHERE ...\<close>: the row count and the datastore.\<close>

definition update_envelopes ::
  "(envelope_row \<Rightarrow> bool) \<Rightarrow> (envelope_row \<Rightarrow> envelope_row) \<Rightarrow> datastore \<Rightarrow> nat \<times> datastore" where
  "update_envelopes c f ds =
     (length (filter c (ds_envelopes ds)),
      ds\<lparr>ds_envelopes := map (\<lambda>r. if c r then f r else r) (ds_envelopes ds)\<rparr>)"

text \<open>\<open>text[:n]\<close> counts code points.\<close>

fun text_take :: "nat \<Rightarrow> string \<Rightarrow> string" where
  "text_take n [] = []"
| "text_take n (c # s) =
     (if utf8_cont c then c # text_take n s else if n = 0 then [] else c # text_take (n - 1) s)"

definition retry_delay :: "int \<Rightarrow> nat" where
  "retry_delay attempt_count =
     (let exponent = max 0 (min (attempt_count - 1) 8)
      in min RETRY_MAX_SECONDS (RETRY_BASE_SECONDS * 2 ^ nat exponent))"

definition next_attempt_at :: "nat \<Rightarrow> int \<Rightarrow> string" where
  "next_attempt_at clock attempt_count = utc_iso (clock + retry_delay attempt_count)"

definition queued_state :: "envelope_row \<Rightarrow> bool" where
  "queued_state r \<longleftrightarrow> ev_state r \<in> {''pending'', ''retry_pending''}"

definition inflight_state :: "envelope_row \<Rightarrow> bool" where
  "inflight_state r \<longleftrightarrow> ev_state r \<in> {''claimed'', ''sending''}"

definition due :: "nat \<Rightarrow> envelope_row \<Rightarrow> bool" where
  "due clock r \<longleftrightarrow> (case ev_next_attempt_at r of None \<Rightarrow> True | Some t \<Rightarrow> t \<le> now_utc_iso clock)"

definition blocks :: "nat \<Rightarrow> envelope_row \<Rightarrow> bool" where
  "blocks clock r \<longleftrightarrow> ev_state r = ''retry_pending'' \<and>
     (case ev_next_attempt_at r of None \<Rightarrow> True | Some t \<Rightarrow> now_utc_iso clock < t)"

definition transaction_position :: "datastore \<Rightarrow> string \<Rightarrow> nat" where
  "transaction_position ds i = length (takeWhile (\<lambda>r. tr_transaction_id r \<noteq> i) (ds_transactions ds))"

text \<open>\<open>ORDER BY\<close>: retries first, most attempts first, earliest deadline (NULL first), log order, identifier.\<close>

definition delivery_order :: "datastore \<Rightarrow> envelope_row \<Rightarrow> nat \<times> int \<times> string option \<times> nat \<times> string" where
  "delivery_order ds r =
     (if ev_state r = ''retry_pending'' then 0 else 1, - ev_attempt_count r, ev_next_attempt_at r,
      transaction_position ds (ev_transaction_id r), ev_envelope_id r)"

definition deliverable_outbound_envelopes :: "nat \<Rightarrow> datastore \<Rightarrow> (string \<times> string) list" where
  "deliverable_outbound_envelopes clock ds =
     map (\<lambda>r. (ev_envelope_id r, ev_destination_node_id r)) (sort_key (delivery_order ds)
       (filter (\<lambda>r. t_has tr_transaction_id (ev_transaction_id r) (ds_transactions ds) \<and> queued_state r \<and> due clock r \<and>
            \<not> (\<exists>b \<in> set (ds_envelopes ds). ev_destination_node_id b = ev_destination_node_id r \<and> blocks clock b))
          (ds_envelopes ds)))"

definition recover_stale_inflight_envelopes :: "nat \<Rightarrow> datastore \<Rightarrow> nat \<times> datastore" where
  "recover_stale_inflight_envelopes clock =
     update_envelopes
       (\<lambda>r. inflight_state r \<and>
          (case ev_claimed_at r of None \<Rightarrow> False | Some t \<Rightarrow> t \<le> utc_iso (clock - CLAIM_LEASE_SECONDS)))
       (\<lambda>r. r\<lparr>ev_state := ''retry_pending'', ev_failed_at := Some (now_utc_iso clock),
          ev_next_attempt_at := (if MAX_DELIVERY_ATTEMPTS \<le> ev_attempt_count r then None else Some (now_utc_iso clock)),
          ev_last_error := Some ''delivery worker claim expired before completion''\<rparr>)"

definition claim_outbound_envelope :: "nat \<Rightarrow> datastore \<Rightarrow> string \<Rightarrow> envelope_row option \<times> datastore" where
  "claim_outbound_envelope clock ds envelope_id =
     (case update_envelopes (\<lambda>r. ev_envelope_id r = envelope_id \<and> queued_state r \<and> due clock r)
             (\<lambda>r. r\<lparr>ev_state := ''claimed'', ev_claimed_at := Some (now_utc_iso clock),
                ev_attempt_count := ev_attempt_count r + 1\<rparr>) ds of
        (n, ds') \<Rightarrow> (if n = 0 then None else t_get ev_envelope_id envelope_id (ds_envelopes ds'), ds'))"

definition mark_envelope_sending :: "datastore \<Rightarrow> string \<Rightarrow> bool \<times> datastore" where
  "mark_envelope_sending ds envelope_id =
     (case update_envelopes (\<lambda>r. ev_envelope_id r = envelope_id \<and> ev_state r = ''claimed'') (\<lambda>r. r\<lparr>ev_state := ''sending''\<rparr>) ds of
        (n, ds') \<Rightarrow> (0 < n, ds'))"

definition mark_envelope_sent_if_sending :: "nat \<Rightarrow> datastore \<Rightarrow> string \<Rightarrow> bool \<times> datastore" where
  "mark_envelope_sent_if_sending clock ds envelope_id =
     (case update_envelopes (\<lambda>r. ev_envelope_id r = envelope_id \<and> ev_state r = ''sending'')
             (\<lambda>r. r\<lparr>ev_state := ''sent'', ev_sent_at := Some (now_utc_iso clock), ev_next_attempt_at := None,
                ev_last_error := None\<rparr>) ds of
        (n, ds') \<Rightarrow> (0 < n, ds'))"

definition mark_envelope_retry_pending :: "nat \<Rightarrow> envelope_row \<Rightarrow> string \<Rightarrow> datastore \<Rightarrow> datastore" where
  "mark_envelope_retry_pending clock row failure_reason ds =
     snd (update_envelopes (\<lambda>r. ev_envelope_id r = ev_envelope_id row \<and> inflight_state r)
       (\<lambda>r. r\<lparr>ev_state := ''retry_pending'', ev_failed_at := Some (now_utc_iso clock),
          ev_next_attempt_at := Some (next_attempt_at clock (ev_attempt_count row)),
          ev_last_error := Some (text_take 500 failure_reason)\<rparr>) ds)"

definition mark_peer_retry_pending :: "nat \<Rightarrow> envelope_row \<Rightarrow> string \<Rightarrow> datastore \<Rightarrow> datastore" where
  "mark_peer_retry_pending clock row failure_reason ds =
     (let exhausted = MAX_DELIVERY_ATTEMPTS \<le> ev_attempt_count row;
          deadline = (if exhausted then None else Some (next_attempt_at clock (ev_attempt_count row))) in
      snd (update_envelopes
        (\<lambda>r. ev_destination_node_id r = ev_destination_node_id row \<and>
           (queued_state r \<or> ev_envelope_id r = ev_envelope_id row \<and> inflight_state r))
        (\<lambda>r. r\<lparr>ev_state := ''retry_pending'', ev_failed_at := Some (now_utc_iso clock), ev_next_attempt_at := deadline,
           ev_last_error := Some (text_take 500 failure_reason)\<rparr>) ds))"

definition resume_peer_delivery :: "nat \<Rightarrow> string \<Rightarrow> datastore \<Rightarrow> nat \<times> datastore" where
  "resume_peer_delivery clock peer_id =
     update_envelopes
       (\<lambda>r. ev_destination_node_id r = peer_id \<and> ev_state r = ''retry_pending'' \<and> ev_next_attempt_at r = None)
       (\<lambda>r. r\<lparr>ev_next_attempt_at := Some (now_utc_iso clock), ev_attempt_count := 0\<rparr>)"

definition mark_envelope_authorization_denied :: "nat \<Rightarrow> envelope_row \<Rightarrow> string \<Rightarrow> datastore \<Rightarrow> datastore" where
  "mark_envelope_authorization_denied clock row failure_reason ds =
     snd (update_envelopes (\<lambda>r. ev_envelope_id r = ev_envelope_id row \<and> inflight_state r)
       (\<lambda>r. r\<lparr>ev_state := ''authorization_denied'', ev_failed_at := Some (now_utc_iso clock), ev_next_attempt_at := None,
          ev_last_error := Some (text_take 500 failure_reason)\<rparr>) ds)"

definition peer_parked :: "datastore \<Rightarrow> string \<Rightarrow> bool" where
  "peer_parked ds n \<longleftrightarrow> (\<exists>b \<in> set (ds_envelopes ds). ev_destination_node_id b = n \<and> ev_state b = ''retry_pending'' \<and>
     ev_next_attempt_at b = None)"

text \<open>\<open>MIN\<close> over the retry deadlines and the ends of the claims of peers that are not parked; NULLs do not count.\<close>

definition delivery_deadlines :: "datastore \<Rightarrow> string list" where
  "delivery_deadlines ds =
     (let rows = filter (\<lambda>r. \<not> peer_parked ds (ev_destination_node_id r)) (ds_envelopes ds) in
      List.map_filter ev_next_attempt_at (filter (\<lambda>r. ev_state r = ''retry_pending'') rows) @
      List.map_filter (\<lambda>r. Option.bind (ev_claimed_at r) iso_plus_minute) (filter inflight_state rows))"

definition next_outbound_attempt_at :: "datastore \<Rightarrow> string option" where
  "next_outbound_attempt_at ds =
     (case delivery_deadlines ds of [] \<Rightarrow> None | t # ts \<Rightarrow> Some (fold min ts t))"

subsection \<open>Prerequisites of endpoint updates\<close>

definition pending_endpoint_updates :: "datastore \<Rightarrow> (string \<times> string) list" where
  "pending_endpoint_updates ds =
     take 64 (concat (map (\<lambda>t. map (\<lambda>r. (tr_transaction_id t, ev_destination_node_id r))
         (filter (\<lambda>r. ev_transaction_id r = tr_transaction_id t \<and> queued_state r) (ds_envelopes ds)))
       (filter (\<lambda>t. tr_state t = ''applied'' \<and> tr_transaction_type t \<in> {''peer.endpoint.update'', ''peer.endpoint.replace''} \<and>
            (case tr_origin_node_id t of None \<Rightarrow> False | Some n \<Rightarrow> n \<in> set (ds_node_private ds)))
         (ds_transactions ds))))"

fun find_endpoint_transaction :: "datastore \<Rightarrow> string \<Rightarrow> transaction_row list \<Rightarrow> Transaction option res" where
  "find_endpoint_transaction ds previous [] = Inr None"
| "find_endpoint_transaction ds previous (r # rows) =
     rbind (get_transaction ds (tr_transaction_id r)) (\<lambda>t.
       if map_of (tx_payload t) ''endpoint'' = Some (JStr previous) then Inr (Some t)
       else find_endpoint_transaction ds previous rows)"

definition endpoint_predecessor :: "datastore \<Rightarrow> Transaction \<Rightarrow> string \<Rightarrow> Transaction option res" where
  "endpoint_predecessor ds current previous =
     find_endpoint_transaction ds previous (take 128 (rev
       (filter (\<lambda>r. tr_origin_node_id r = tx_origin_node_id current \<and> tr_origin_node_id r \<noteq> None \<and> tr_state r = ''applied'' \<and>
            tr_transaction_type r \<in> {''peer.endpoint.register'', ''peer.endpoint.update'', ''peer.endpoint.replace''})
          (if t_has tr_transaction_id (tx_transaction_id current) (ds_transactions ds)
           then takeWhile (\<lambda>r. tr_transaction_id r \<noteq> tx_transaction_id current) (ds_transactions ds) else []))))"

definition envelope_to :: "datastore \<Rightarrow> string \<Rightarrow> string \<Rightarrow> envelope_row option" where
  "envelope_to ds transaction_id peer =
     find (\<lambda>r. ev_transaction_id r = transaction_id \<and> ev_destination_node_id r = peer) (ds_envelopes ds)"

text \<open>The loop \<open>for _ in range(128)\<close>: whether the history is complete, and the missing transactions, latest first.\<close>

fun endpoint_chain :: "nat \<Rightarrow> datastore \<Rightarrow> string \<Rightarrow> Transaction \<Rightarrow> Transaction list \<Rightarrow> (bool \<times> Transaction list) res" where
  "endpoint_chain 0 ds peer current chain = Inr (False, chain)"
| "endpoint_chain (Suc n) ds peer current chain =
     (if tx_transaction_type current = ''peer.endpoint.register'' then Inr (True, chain)
      else (case map_of (tx_payload current) ''previous_endpoint'' of
              Some (JStr previous) \<Rightarrow>
                rbind (endpoint_predecessor ds current previous) (\<lambda>predecessor.
                  case predecessor of
                    None \<Rightarrow> Inr (False, chain)
                  | Some t \<Rightarrow>
                      if map_option ev_state (envelope_to ds (tx_transaction_id t) peer) = Some ''sent'' then Inr (True, chain)
                      else endpoint_chain n ds peer t (chain @ [t]))
            | _ \<Rightarrow> Inr (False, chain)))"

definition queue_prerequisite :: "peer_env \<Rightarrow> string \<Rightarrow> Transaction \<Rightarrow> datastore \<Rightarrow> datastore res" where
  "queue_prerequisite e peer prerequisite ds =
     (if envelope_to ds (tx_transaction_id prerequisite) peer \<noteq> None then Inr ds
      else persist_outbound_envelopes e ds
        (prerequisite\<lparr>tx_state := ''pending'', tx_received_at := None, tx_applied_at := None, tx_acknowledged_at := None,
           tx_cleared_at := None\<rparr>) [peer])"

definition queue_endpoint_prerequisite ::
  "peer_env \<Rightarrow> string list option \<Rightarrow> string \<times> string \<Rightarrow> datastore \<Rightarrow> datastore res" where
  "queue_endpoint_prerequisite e selected item ds =
     (case item of (transaction_id, peer) \<Rightarrow>
        if selected \<noteq> None \<and> peer \<notin> set (the selected) then Inr ds
        else rbind (is_peer_synchronization_eligible ds peer None) (\<lambda>ok.
          if \<not> ok then Inr ds
          else rbind (get_transaction ds transaction_id) (\<lambda>current.
               rbind (endpoint_chain 128 ds peer current []) (\<lambda>(complete, chain).
                 if \<not> complete then Inr ds else rfold (queue_prerequisite e peer) (rev chain) ds))))"

text \<open>A loop whose turns commit one by one: an error ends it and keeps the turns before.\<close>

fun commit_each :: "('a \<Rightarrow> 's \<Rightarrow> 's res) \<Rightarrow> 'a list \<Rightarrow> 's \<Rightarrow> py_error option \<times> 's" where
  "commit_each f [] s = (None, s)"
| "commit_each f (x # xs) s = (case f x s of Inl err \<Rightarrow> (Some err, s) | Inr s' \<Rightarrow> commit_each f xs s')"

definition queue_endpoint_prerequisites ::
  "peer_env \<Rightarrow> string list option \<Rightarrow> datastore \<Rightarrow> py_error option \<times> datastore" where
  "queue_endpoint_prerequisites e selected ds =
     commit_each (queue_endpoint_prerequisite e selected) (pending_endpoint_updates ds) ds"

subsection \<open>One pass\<close>

text \<open>\<open>dv_calls\<close> lists what was handed to the transport, in order.\<close>

record delivery =
  dv_store :: datastore
  dv_clock :: nat
  dv_sent :: nat
  dv_failed :: "string list"
  dv_calls :: "(string \<times> bytes) list"

text \<open>Why a claimed row may not be sent: a reason to deny it, none, or an exception.\<close>

definition delivery_denied :: "datastore \<Rightarrow> envelope_row \<Rightarrow> string option res" where
  "delivery_denied ds row =
     (let peer = ev_destination_node_id row in
      rbind (is_peer_synchronization_eligible ds peer None) (\<lambda>known.
        if \<not> known then Inr (Some (''peer is not synchronization eligible: peer_id='' @ peer))
        else (case rbind (get_transaction ds (ev_transaction_id row)) service_group_scope_id of
                Inl _ \<Rightarrow> Inr (Some ''transaction scope is invalid: '')
              | Inr service_group_id \<Rightarrow>
                  rbind (is_peer_synchronization_eligible ds peer service_group_id) (\<lambda>ok.
                    if \<not> ok then Inr (Some (''peer is not authorized for service group: peer_id='' @ peer)) else Inr None))))"

definition send_row :: "route \<Rightarrow> envelope_row \<Rightarrow> delivery \<Rightarrow> delivery" where
  "send_row route row s =
     (case mark_envelope_sending (dv_store s) (ev_envelope_id row) of
        (False, ds) \<Rightarrow> s\<lparr>dv_store := ds\<rparr>
      | (True, ds) \<Rightarrow>
          (case deliver_outbound_envelope route (dv_clock s) row of (clock, outcome) \<Rightarrow>
             let s1 = s\<lparr>dv_clock := clock, dv_calls := dv_calls s @ [(ev_destination_node_id row, ev_encrypted_payload row)]\<rparr> in
             if \<not> do_delivered outcome
             then s1\<lparr>dv_failed := ev_destination_node_id row # dv_failed s,
                    dv_store := mark_peer_retry_pending clock row (do_failure_reason outcome) ds\<rparr>
             else (case mark_envelope_sent_if_sending clock ds (ev_envelope_id row) of
                     (marked, ds') \<Rightarrow> s1\<lparr>dv_store := ds', dv_sent := dv_sent s + (if marked then 1 else 0)\<rparr>)))"

definition deliver_row :: "route \<Rightarrow> string list option \<Rightarrow> string \<times> string \<Rightarrow> delivery \<Rightarrow> py_error option \<times> delivery" where
  "deliver_row route selected pending s =
     (case pending of (envelope_id, pending_peer_id) \<Rightarrow>
        if pending_peer_id \<in> set (dv_failed s) then (None, s)
        else (case claim_outbound_envelope (dv_clock s) (dv_store s) envelope_id of
          (None, ds) \<Rightarrow> (None, s\<lparr>dv_store := ds\<rparr>)
        | (Some row, ds) \<Rightarrow>
            let peer = ev_destination_node_id row; s1 = s\<lparr>dv_store := ds\<rparr> in
            if selected \<noteq> None \<and> peer \<notin> set (the selected)
            then (None, s1\<lparr>dv_store := mark_envelope_retry_pending (dv_clock s) row
                     (''peer delivery was not selected: peer_id='' @ peer) ds\<rparr>)
            else (case validate_identifier peer Node ''node_id'' of
                Inl _ \<Rightarrow> (Some (SQLiteBackendError ''node_id''), s1)
              | Inr _ \<Rightarrow>
                  (case delivery_denied ds row of
                     Inl x \<Rightarrow> (Some x, s1)
                   | Inr (Some reason) \<Rightarrow>
                       (None, s1\<lparr>dv_store := mark_envelope_authorization_denied (dv_clock s) row reason ds\<rparr>)
                   | Inr None \<Rightarrow> (None, send_row route row s1)))))"

fun deliver_rows :: "route \<Rightarrow> string list option \<Rightarrow> (string \<times> string) list \<Rightarrow> delivery \<Rightarrow> py_error option \<times> delivery" where
  "deliver_rows route selected [] s = (None, s)"
| "deliver_rows route selected (x # xs) s =
     (case deliver_row route selected x s of
        (Some err, s') \<Rightarrow> (Some err, s')
      | (None, s') \<Rightarrow> deliver_rows route selected xs s')"

definition start_delivery :: "nat \<Rightarrow> datastore \<Rightarrow> delivery" where
  "start_delivery clock ds = \<lparr>dv_store = ds, dv_clock = clock, dv_sent = 0, dv_failed = [], dv_calls = []\<rparr>"

definition process_pending_outbound_envelopes ::
  "peer_env \<Rightarrow> route \<Rightarrow> string list option \<Rightarrow> string list option \<Rightarrow> nat \<Rightarrow> datastore \<Rightarrow> py_error option \<times> delivery" where
  "process_pending_outbound_envelopes e route peer_ids peers clock ds =
     (if peer_ids \<noteq> None \<and> peers \<noteq> None
      then (Some (ValueError ''peer_ids and peers are mutually exclusive''), start_delivery clock ds)
      else
        let selected = (if peer_ids \<noteq> None then peer_ids else peers) in
        case queue_endpoint_prerequisites (e\<lparr>pe_host := (pe_host e)\<lparr>h_now := now_utc_iso clock\<rparr>\<rparr>) selected ds of
          (Some err, ds1) \<Rightarrow> (Some err, start_delivery clock ds1)
        | (None, ds1) \<Rightarrow>
            let ds2 = snd (recover_stale_inflight_envelopes clock ds1) in
            deliver_rows route selected (deliverable_outbound_envelopes clock ds2) (start_delivery clock ds2))"

definition configured_delivery_schedule ::
  "peer_env \<Rightarrow> route \<Rightarrow> string list \<Rightarrow> nat \<Rightarrow> datastore \<Rightarrow> py_error option \<times> string option \<times> delivery" where
  "configured_delivery_schedule e route recovered_peer_ids clock ds =
     (case process_pending_outbound_envelopes e route None None clock
             (fold (\<lambda>n d. snd (resume_peer_delivery clock n d)) recovered_peer_ids ds) of
        (err, s) \<Rightarrow> (err, if err = None then next_outbound_attempt_at (dv_store s) else None, s))"

subsection \<open>The life of a queue row\<close>

text \<open>
  The moves that the statements of the worker, a revocation and the recovery of stale claims make on one row. The
  content of a row (its identifiers, its bytes and their hash) never changes.
\<close>

definition same_content :: "envelope_row \<Rightarrow> envelope_row \<Rightarrow> bool" where
  "same_content r q \<longleftrightarrow> ev_envelope_id q = ev_envelope_id r \<and> ev_transaction_id q = ev_transaction_id r \<and>
     ev_source_node_id q = ev_source_node_id r \<and> ev_destination_node_id q = ev_destination_node_id r \<and>
     ev_encrypted_payload q = ev_encrypted_payload r \<and> ev_envelope_hash q = ev_envelope_hash r"

inductive row_move :: "envelope_row \<Rightarrow> envelope_row \<Rightarrow> bool" where
  claim: "queued_state r \<Longrightarrow> same_content r q \<Longrightarrow> ev_state q = ''claimed'' \<Longrightarrow> ev_attempt_count q = ev_attempt_count r + 1 \<Longrightarrow> row_move r q"
| send: "ev_state r = ''claimed'' \<Longrightarrow> q = r\<lparr>ev_state := ''sending''\<rparr> \<Longrightarrow> row_move r q"
| sent: "ev_state r = ''sending'' \<Longrightarrow> same_content r q \<Longrightarrow> ev_state q = ''sent'' \<Longrightarrow> row_move r q"
| retry: "queued_state r \<or> inflight_state r \<Longrightarrow> same_content r q \<Longrightarrow> ev_state q = ''retry_pending'' \<Longrightarrow>
    ev_attempt_count q = ev_attempt_count r \<Longrightarrow> row_move r q"
| resume: "ev_state r = ''retry_pending'' \<Longrightarrow> same_content r q \<Longrightarrow> ev_state q = ''retry_pending'' \<Longrightarrow> ev_attempt_count q = 0 \<Longrightarrow> row_move r q"
| deny: "queued_state r \<or> inflight_state r \<Longrightarrow> same_content r q \<Longrightarrow> ev_state q = ''authorization_denied'' \<Longrightarrow> row_move r q"

text \<open>What may happen to the queue: a statement on it, a revocation, or new rows.\<close>

inductive queue_step :: "datastore \<Rightarrow> datastore \<Rightarrow> bool" where
  claim: "queue_step ds (snd (claim_outbound_envelope clock ds i))"
| sending: "queue_step ds (snd (mark_envelope_sending ds i))"
| sent: "queue_step ds (snd (mark_envelope_sent_if_sending clock ds i))"
| retry: "queue_step ds (mark_envelope_retry_pending clock row reason ds)"
| peer_retry: "queue_step ds (mark_peer_retry_pending clock row reason ds)"
| denied: "queue_step ds (mark_envelope_authorization_denied clock row reason ds)"
| recover: "queue_step ds (snd (recover_stale_inflight_envelopes clock ds))"
| resume: "queue_step ds (snd (resume_peer_delivery clock n ds))"
| revoke: "apply_peer_admission_revoke ds t = Inr ds' \<Longrightarrow> queue_step ds ds'"
| enqueue: "persist_outbound_envelopes e ds t peers = Inr ds' \<Longrightarrow> queue_step ds ds'"

lemma update_envelopes_moves:
  assumes "\<And>r. c r \<Longrightarrow> row_move r (f r)"
  shows "list_all2 row_move\<^sup>=\<^sup>= (ds_envelopes ds) (ds_envelopes (snd (update_envelopes c f ds)))"
  using assms by (auto simp: update_envelopes_def list_all2_conv_all_nth)

lemma statement_moves:
  "list_all2 row_move\<^sup>=\<^sup>= (ds_envelopes ds) (ds_envelopes (snd (claim_outbound_envelope clock ds i)))"
  "list_all2 row_move\<^sup>=\<^sup>= (ds_envelopes ds) (ds_envelopes (snd (mark_envelope_sending ds i)))"
  "list_all2 row_move\<^sup>=\<^sup>= (ds_envelopes ds) (ds_envelopes (snd (mark_envelope_sent_if_sending clock ds i)))"
  "list_all2 row_move\<^sup>=\<^sup>= (ds_envelopes ds) (ds_envelopes (mark_envelope_retry_pending clock q reason ds))"
  "list_all2 row_move\<^sup>=\<^sup>= (ds_envelopes ds) (ds_envelopes (mark_peer_retry_pending clock q reason ds))"
  "list_all2 row_move\<^sup>=\<^sup>= (ds_envelopes ds) (ds_envelopes (mark_envelope_authorization_denied clock q reason ds))"
  "list_all2 row_move\<^sup>=\<^sup>= (ds_envelopes ds) (ds_envelopes (snd (recover_stale_inflight_envelopes clock ds)))"
  "list_all2 row_move\<^sup>=\<^sup>= (ds_envelopes ds) (ds_envelopes (snd (resume_peer_delivery clock n ds)))"
proof -
  note u = update_envelopes_moves
  show "list_all2 row_move\<^sup>=\<^sup>= (ds_envelopes ds) (ds_envelopes (snd (claim_outbound_envelope clock ds i)))"
    unfolding claim_outbound_envelope_def case_prod_beta snd_conv
    by (rule u, rule row_move.claim) (simp_all add: same_content_def)
  show "list_all2 row_move\<^sup>=\<^sup>= (ds_envelopes ds) (ds_envelopes (snd (mark_envelope_sending ds i)))"
    unfolding mark_envelope_sending_def case_prod_beta snd_conv by (rule u, rule row_move.send) simp_all
  show "list_all2 row_move\<^sup>=\<^sup>= (ds_envelopes ds) (ds_envelopes (snd (mark_envelope_sent_if_sending clock ds i)))"
    unfolding mark_envelope_sent_if_sending_def case_prod_beta snd_conv
    by (rule u, rule row_move.sent) (simp_all add: same_content_def)
  show "list_all2 row_move\<^sup>=\<^sup>= (ds_envelopes ds) (ds_envelopes (mark_envelope_retry_pending clock q reason ds))"
    unfolding mark_envelope_retry_pending_def by (rule u, rule row_move.retry) (simp_all add: same_content_def)
  show "list_all2 row_move\<^sup>=\<^sup>= (ds_envelopes ds) (ds_envelopes (mark_peer_retry_pending clock q reason ds))"
    unfolding mark_peer_retry_pending_def Let_def by (rule u, rule row_move.retry) (auto simp: same_content_def)
  show "list_all2 row_move\<^sup>=\<^sup>= (ds_envelopes ds) (ds_envelopes (mark_envelope_authorization_denied clock q reason ds))"
    unfolding mark_envelope_authorization_denied_def by (rule u, rule row_move.deny) (simp_all add: same_content_def)
  show "list_all2 row_move\<^sup>=\<^sup>= (ds_envelopes ds) (ds_envelopes (snd (recover_stale_inflight_envelopes clock ds)))"
    unfolding recover_stale_inflight_envelopes_def by (rule u, rule row_move.retry) (simp_all add: same_content_def)
  show "list_all2 row_move\<^sup>=\<^sup>= (ds_envelopes ds) (ds_envelopes (snd (resume_peer_delivery clock n ds)))"
    unfolding resume_peer_delivery_def by (rule u, rule row_move.resume) (simp_all add: same_content_def)
qed

lemma revoke_moves:
  assumes "apply_peer_admission_revoke ds t = Inr ds'"
  shows "list_all2 row_move\<^sup>=\<^sup>= (ds_envelopes ds) (ds_envelopes ds')"
proof -
  have "row_move\<^sup>=\<^sup>= r (deny_queued n at r)" for n at r
    by (auto simp: deny_queued_def same_content_def queued_state_def inflight_state_def intro!: row_move.deny)
  then have "list_all2 row_move\<^sup>=\<^sup>= rows (map (deny_queued n at) rows)" for n at rows
    by (simp only: list_all2_map2 list_all2_same) simp
  with assms show ?thesis by (auto simp: apply_peer_admission_revoke_def Let_def rbind_Inr_iff)
qed

lemma queue_step_rows:
  assumes "queue_step ds ds'"
  shows "\<exists>old new. ds_envelopes ds' = old @ new \<and> list_all2 row_move\<^sup>=\<^sup>= (ds_envelopes ds) old"
proof -
  have same: ?thesis if "list_all2 row_move\<^sup>=\<^sup>= (ds_envelopes ds) (ds_envelopes ds')"
    using that by (intro exI [of _ "ds_envelopes ds'"] exI [of _ "[]"]) simp
  from assms show ?thesis
proof cases
  case (revoke t)
  then show ?thesis by (intro same revoke_moves)
next
  case (enqueue e t peers)
  then obtain new where "ds_envelopes ds' = ds_envelopes ds @ new" using persist_outbound_frame by fastforce
  then show ?thesis by (intro exI [of _ "ds_envelopes ds"] exI [of _ new]) (simp add: list.rel_refl)
qed (rule same, simp only: statement_moves)+
qed

lemma row_moves_content: "row_move\<^sup>*\<^sup>* r q \<Longrightarrow> same_content r q"
proof (induction rule: rtranclp_induct)
  case (step q p)
  then have "same_content q p" by (auto elim!: row_move.cases simp: same_content_def)
  with step.IH show ?case by (simp add: same_content_def)
qed (simp add: same_content_def)

lemma row_moves_terminal:
  assumes "row_move\<^sup>*\<^sup>* r q" "ev_state r \<in> {''sent'', ''authorization_denied''}"
  shows "q = r"
  using assms by (cases rule: converse_rtranclpE) (auto elim!: row_move.cases simp: queued_state_def inflight_state_def)

lemma row_moves_sent:
  assumes "row_move\<^sup>*\<^sup>* r q" "ev_state q = ''sent''" "q \<noteq> r"
  shows "\<exists>p. row_move\<^sup>*\<^sup>* r p \<and> ev_state p = ''sending'' \<and> row_move p q"
  using assms
proof (cases rule: rtranclp.cases)
  case (rtrancl_into_rtrancl p)
  then have "ev_state p = ''sending''" using assms(2) by (auto elim!: row_move.cases)
  with rtrancl_into_rtrancl show ?thesis by blast
qed simp

text \<open>C13. The delivery queue as a state machine: however claims, sends, failures, recoveries, resumptions, revocations and
  new envelopes interleave, every row of the queue keeps its place and its content and only makes the moves of
  the life cycle. In particular a sent envelope and a denied one stay as they are, and no envelope becomes sent
  without having been in the sending state.\<close>

theorem delivery_state_machine:
  assumes "queue_step\<^sup>*\<^sup>* ds ds'" and "i < length (ds_envelopes ds)"
  shows "i < length (ds_envelopes ds') \<and> row_move\<^sup>*\<^sup>* (ds_envelopes ds ! i) (ds_envelopes ds' ! i) \<and>
    same_content (ds_envelopes ds ! i) (ds_envelopes ds' ! i) \<and>
    (ev_state (ds_envelopes ds ! i) \<in> {''sent'', ''authorization_denied''} \<longrightarrow> ds_envelopes ds' ! i = ds_envelopes ds ! i) \<and>
    (ev_state (ds_envelopes ds' ! i) = ''sent'' \<and> ds_envelopes ds' ! i \<noteq> ds_envelopes ds ! i \<longrightarrow>
      (\<exists>q. row_move\<^sup>*\<^sup>* (ds_envelopes ds ! i) q \<and> ev_state q = ''sending'' \<and> row_move q (ds_envelopes ds' ! i)))"
proof -
  have "i < length (ds_envelopes ds') \<and> row_move\<^sup>*\<^sup>* (ds_envelopes ds ! i) (ds_envelopes ds' ! i)"
    using assms(1)
  proof (induction rule: rtranclp_induct)
    case (step b c)
    from queue_step_rows [OF step.hyps(2)] obtain old new where c: "ds_envelopes c = old @ new"
      "list_all2 row_move\<^sup>=\<^sup>= (ds_envelopes b) old" by blast
    then have "i < length old" "row_move\<^sup>=\<^sup>= (ds_envelopes b ! i) (old ! i)"
      using step.IH by (auto simp: list_all2_conv_all_nth)
    then show ?case using step.IH by (auto simp: c(1) nth_append intro: rtranclp.rtrancl_into_rtrancl)
  qed (simp add: assms(2))
  then show ?thesis using row_moves_content row_moves_terminal row_moves_sent by blast
qed

subsection \<open>A pass only makes authorised steps\<close>

text \<open>Delivery touches the queue only; who may synchronise does not depend on it.\<close>

definition queue_frame :: "datastore \<Rightarrow> datastore \<Rightarrow> bool" where
  "queue_frame ds ds' \<longleftrightarrow> (\<exists>g v. ds' = ds\<lparr>ds_peer_groups := g, ds_envelopes := v\<rparr>)"

lemma queue_frame_refl: "queue_frame ds ds"
  unfolding queue_frame_def by (intro exI [of _ "ds_peer_groups ds"] exI [of _ "ds_envelopes ds"]) simp

lemma queue_frame_trans: "queue_frame a b \<Longrightarrow> queue_frame b c \<Longrightarrow> queue_frame a c"
  unfolding queue_frame_def by (elim exE) (rule exI, rule exI, simp)

lemma update_envelopes_frame: "queue_frame ds (snd (update_envelopes c f ds))"
  unfolding queue_frame_def update_envelopes_def snd_conv by (rule exI [of _ "ds_peer_groups ds"]) auto

lemma statement_frames [simp]:
  "queue_frame ds (snd (claim_outbound_envelope clock ds i))" "queue_frame ds (snd (mark_envelope_sending ds i))"
  "queue_frame ds (snd (mark_envelope_sent_if_sending clock ds i))"
  "queue_frame ds (mark_envelope_retry_pending clock q reason ds)" "queue_frame ds (mark_peer_retry_pending clock q reason ds)"
  "queue_frame ds (mark_envelope_authorization_denied clock q reason ds)"
  "queue_frame ds (snd (recover_stale_inflight_envelopes clock ds))" "queue_frame ds (snd (resume_peer_delivery clock n ds))"
  unfolding claim_outbound_envelope_def mark_envelope_sending_def mark_envelope_sent_if_sending_def mark_envelope_retry_pending_def
    mark_peer_retry_pending_def mark_envelope_authorization_denied_def recover_stale_inflight_envelopes_def
    resume_peer_delivery_def case_prod_beta Let_def snd_conv
  by (rule update_envelopes_frame)+

lemma eligible_frame:
  assumes "queue_frame ds ds'"
  shows "is_peer_synchronization_eligible ds' n sg = is_peer_synchronization_eligible ds n sg"
    "get_transaction ds' i = get_transaction ds i"
proof -
  obtain g v where ds': "ds' = ds\<lparr>ds_peer_groups := g, ds_envelopes := v\<rparr>" using assms by (auto simp: queue_frame_def)
  have "endpoint_metadata ds' = endpoint_metadata ds" "registry_service_group_ids ds' = registry_service_group_ids ds"
    by (simp_all add: fun_eq_iff ds' endpoint_metadata_def registry_service_group_ids_def)
  then have e: "entry_from_row ds' = entry_from_row ds"
    unfolding fun_eq_iff entry_from_row_def by (simp only: simp_thms)
  have n: "ds_nodes ds' = ds_nodes ds" "ds_node_private ds' = ds_node_private ds" by (simp_all add: ds')
  show "is_peer_synchronization_eligible ds' n sg = is_peer_synchronization_eligible ds n sg"
    by (simp only: is_peer_synchronization_eligible_def get_peer_registry_entry_def e n)
  show "get_transaction ds' i = get_transaction ds i" by (simp add: get_transaction_def ds')
qed

text \<open>A row that the pass may hand to the transport.\<close>

definition may_send :: "datastore \<Rightarrow> envelope_row \<Rightarrow> bool" where
  "may_send ds r \<longleftrightarrow> is_peer_synchronization_eligible ds (ev_destination_node_id r) None = Inr True \<and>
     (\<exists>sg. rbind (get_transaction ds (ev_transaction_id r)) service_group_scope_id = Inr sg \<and>
       is_peer_synchronization_eligible ds (ev_destination_node_id r) sg = Inr True)"

lemma delivery_denied_None: "delivery_denied ds r = Inr None \<longleftrightarrow> may_send ds r"
proof (cases "is_peer_synchronization_eligible ds (ev_destination_node_id r) None")
  case (Inr known)
  show ?thesis
  proof (cases "rbind (get_transaction ds (ev_transaction_id r)) service_group_scope_id")
    case (Inr sg)
    show ?thesis
      unfolding delivery_denied_def may_send_def Let_def \<open>is_peer_synchronization_eligible _ _ _ = _\<close> Inr
      by (cases "is_peer_synchronization_eligible ds (ev_destination_node_id r) sg") simp_all
  qed (simp add: delivery_denied_def may_send_def Let_def \<open>is_peer_synchronization_eligible _ _ _ = _\<close>)
qed (simp add: delivery_denied_def may_send_def Let_def)

lemma may_send_frame: "queue_frame ds ds' \<Longrightarrow> may_send ds' r = may_send ds r"
  by (simp add: may_send_def eligible_frame)

lemma claimed_row:
  assumes "claim_outbound_envelope clock ds i = (Some row, ds')"
  shows "row \<in> set (ds_envelopes ds')" "ev_envelope_id row = i"
  using assms by (auto simp: claim_outbound_envelope_def case_prod_beta split: if_split_asm dest: t_get_SomeD)

text \<open>The steps of a pass, and what it hands out: rows of the queue at its start that may be sent.\<close>

definition pass_ok :: "delivery \<Rightarrow> delivery \<Rightarrow> bool" where
  "pass_ok s s' \<longleftrightarrow> queue_step\<^sup>*\<^sup>* (dv_store s) (dv_store s') \<and> queue_frame (dv_store s) (dv_store s') \<and>
     (\<exists>new. dv_calls s' = dv_calls s @ new \<and>
       (\<forall>(n, data) \<in> set new. \<exists>r \<in> set (ds_envelopes (dv_store s')). ev_destination_node_id r = n \<and>
         ev_encrypted_payload r = data \<and> may_send (dv_store s) r))"

lemma queue_steps_keep_row:
  assumes "queue_step\<^sup>*\<^sup>* ds ds'" "r \<in> set (ds_envelopes ds)"
  shows "\<exists>q \<in> set (ds_envelopes ds'). same_content r q"
proof -
  have "\<exists>q \<in> set (ds_envelopes ds'). row_move\<^sup>*\<^sup>* r q" using assms(1)
  proof (induction rule: rtranclp_induct)
    case (step b c)
    from step.IH obtain q where q: "q \<in> set (ds_envelopes b)" "row_move\<^sup>*\<^sup>* r q" by blast
    from queue_step_rows [OF step.hyps(2)] obtain old new where c: "ds_envelopes c = old @ new"
      "list_all2 row_move\<^sup>=\<^sup>= (ds_envelopes b) old" by blast
    from q(1) obtain k where k: "k < length (ds_envelopes b)" "q = ds_envelopes b ! k" by (auto simp: in_set_conv_nth)
    then have "row_move\<^sup>=\<^sup>= q (old ! k)" "old ! k \<in> set old" using c(2) by (auto simp: list_all2_conv_all_nth)
    with q(2) show ?case by (intro bexI [of _ "old ! k"]) (auto simp: c(1) intro: rtranclp.rtrancl_into_rtrancl)
  qed (use assms(2) in blast)
  then show ?thesis using row_moves_content by blast
qed

lemma pass_ok_trans:
  assumes "pass_ok a b" "pass_ok b c"
  shows "pass_ok a c"
proof -
  from assms obtain new more where steps: "queue_step\<^sup>*\<^sup>* (dv_store a) (dv_store b)" "queue_step\<^sup>*\<^sup>* (dv_store b) (dv_store c)"
    and frame: "queue_frame (dv_store a) (dv_store b)" "queue_frame (dv_store b) (dv_store c)"
    and calls: "dv_calls c = dv_calls a @ new @ more"
    and new: "\<forall>(n, data) \<in> set new. \<exists>r \<in> set (ds_envelopes (dv_store b)). ev_destination_node_id r = n \<and>
         ev_encrypted_payload r = data \<and> may_send (dv_store a) r"
    and more: "\<forall>(n, data) \<in> set more. \<exists>r \<in> set (ds_envelopes (dv_store c)). ev_destination_node_id r = n \<and>
         ev_encrypted_payload r = data \<and> may_send (dv_store b) r"
    unfolding pass_ok_def by fastforce
  have "\<exists>q \<in> set (ds_envelopes (dv_store c)). ev_destination_node_id q = n \<and> ev_encrypted_payload q = data \<and> may_send (dv_store a) q"
    if "(n, data) \<in> set (new @ more)" for n data
    using that new more queue_steps_keep_row [OF steps(2)] may_send_frame [OF frame(1)]
    by (fastforce simp: same_content_def may_send_def)
  then show ?thesis
    unfolding pass_ok_def using steps frame calls by (auto intro: queue_frame_trans intro!: exI [of _ "new @ more"])
qed

lemma pass_ok_step:
  assumes "queue_step\<^sup>*\<^sup>* (dv_store s) (dv_store s')" "queue_frame (dv_store s) (dv_store s')" "dv_calls s' = dv_calls s"
  shows "pass_ok s s'"
  using assms unfolding pass_ok_def by (intro conjI exI [of _ "[]"]) simp_all

lemma send_row_ok:
  assumes "may_send (dv_store s) row" "row \<in> set (ds_envelopes (dv_store s))"
  shows "pass_ok s (send_row route row s)"
proof -
  obtain b ds1 where m: "mark_envelope_sending (dv_store s) (ev_envelope_id row) = (b, ds1)" by (cases "mark_envelope_sending (dv_store s) (ev_envelope_id row)")
  then have ds1: "ds1 = snd (mark_envelope_sending (dv_store s) (ev_envelope_id row))" by simp
  have first: "queue_step (dv_store s) ds1" "queue_frame (dv_store s) ds1"
    by (simp_all only: ds1 queue_step.sending statement_frames)
  obtain clock out where d: "deliver_outbound_envelope route (dv_clock s) row = (clock, out)" by (cases "deliver_outbound_envelope route (dv_clock s) row")
  show ?thesis
  proof (cases b)
    case False
    with m first show ?thesis by (intro pass_ok_step) (auto simp: send_row_def)
  next
    case True
    define ds2 where "ds2 = (if do_delivered out then snd (mark_envelope_sent_if_sending clock ds1 (ev_envelope_id row))
      else mark_peer_retry_pending clock row (do_failure_reason out) ds1)"
    have second: "queue_step ds1 ds2" "queue_frame ds1 ds2"
      unfolding ds2_def by (simp_all add: queue_step.sent queue_step.peer_retry)
    have r: "dv_store (send_row route row s) = ds2"
      "dv_calls (send_row route row s) = dv_calls s @ [(ev_destination_node_id row, ev_encrypted_payload row)]"
      using True by (simp_all add: send_row_def m d ds2_def Let_def case_prod_beta)
    have steps: "queue_step\<^sup>*\<^sup>* (dv_store s) ds2" using first(1) second(1) by (meson converse_rtranclp_into_rtranclp r_into_rtranclp)
    from queue_steps_keep_row [OF steps assms(2)] obtain q where "q \<in> set (ds_envelopes ds2)" "same_content row q" by blast
    then have "\<exists>q \<in> set (ds_envelopes ds2). ev_destination_node_id q = ev_destination_node_id row \<and>
        ev_encrypted_payload q = ev_encrypted_payload row \<and> may_send (dv_store s) q"
      using assms(1) by (auto simp: same_content_def may_send_def intro!: bexI [of _ q])
    with steps first(2) second(2) show ?thesis
      unfolding pass_ok_def r by (auto intro: queue_frame_trans)
  qed
qed

lemma deliver_row_ok:
  assumes "deliver_row route selected x s = (err, s')"
  shows "pass_ok s s'"
proof -
  obtain i n where x: "x = (i, n)" by (cases x)
  obtain r ds1 where c: "claim_outbound_envelope (dv_clock s) (dv_store s) i = (r, ds1)" by (cases "claim_outbound_envelope (dv_clock s) (dv_store s) i")
  then have "ds1 = snd (claim_outbound_envelope (dv_clock s) (dv_store s) i)" by simp
  then have first: "queue_step (dv_store s) ds1" "queue_frame (dv_store s) ds1"
    by (simp_all only: queue_step.claim statement_frames)
  have claimed: "pass_ok s (s\<lparr>dv_store := ds1\<rparr>)" using first by (intro pass_ok_step) auto
  have also_ok: "pass_ok s (s\<lparr>dv_store := ds2\<rparr>)" if "queue_step ds1 ds2" "queue_frame ds1 ds2" for ds2
    using claimed by (rule pass_ok_trans) (use that in \<open>auto intro!: pass_ok_step\<close>)
  show ?thesis
  proof (cases r)
    case None
    with assms claimed show ?thesis
      by (auto simp: deliver_row_def x c intro!: pass_ok_step queue_frame_refl split: if_split_asm)
  next
    case (Some row)
    have row: "row \<in> set (ds_envelopes ds1)" using claimed_row(1) c by (simp add: Some)
    have sent: "pass_ok s (send_row route row (s\<lparr>dv_store := ds1\<rparr>))" if "may_send ds1 row"
      using claimed by (rule pass_ok_trans) (use that row in \<open>auto intro!: send_row_ok\<close>)
    have "pass_ok s s" by (intro pass_ok_step queue_frame_refl) simp_all
    with assms claimed also_ok [OF queue_step.retry statement_frames(4)] also_ok [OF queue_step.denied statement_frames(6)] sent
    show ?thesis
      unfolding deliver_row_def x c Some prod.case option.case Let_def delivery_denied_None [symmetric]
      by (auto split: if_split_asm sum.split_asm option.split_asm)
  qed
qed

lemma deliver_rows_ok: "deliver_rows route selected xs s = (err, s') \<Longrightarrow> pass_ok s s'"
proof (induction xs arbitrary: s)
  case Nil
  then show ?case by (auto intro!: pass_ok_step queue_frame_refl)
next
  case (Cons x xs)
  obtain e1 s1 where d: "deliver_row route selected x s = (e1, s1)" by (cases "deliver_row route selected x s")
  from deliver_row_ok [OF d] have first: "pass_ok s s1" .
  with Cons d show ?case by (cases e1) (auto intro: pass_ok_trans)
qed

text \<open>Steps that enqueue only.\<close>

definition queue_run :: "datastore \<Rightarrow> datastore \<Rightarrow> bool" where
  "queue_run ds ds' \<longleftrightarrow> queue_step\<^sup>*\<^sup>* ds ds' \<and> queue_frame ds ds'"

lemma queue_run_refl: "queue_run ds ds"
  by (simp add: queue_run_def queue_frame_refl)

lemma queue_run_trans: "queue_run a b \<Longrightarrow> queue_run b c \<Longrightarrow> queue_run a c"
  unfolding queue_run_def by (blast intro: rtranclp_trans queue_frame_trans)

lemma queue_run_step: "queue_step a b \<Longrightarrow> queue_frame a b \<Longrightarrow> queue_run a b"
  unfolding queue_run_def by blast

lemma queue_prerequisites_run:
  assumes "rfold (queue_prerequisite e peer) ts ds = Inr ds'"
  shows "queue_run ds ds'"
  using assms
proof (induction ts arbitrary: ds)
  case (Cons t ts)
  from Cons.prems obtain ds1 where s: "queue_prerequisite e peer t ds = Inr ds1" "rfold (queue_prerequisite e peer) ts ds1 = Inr ds'"
    by (auto simp: rbind_Inr_iff)
  have "queue_run ds ds1"
  proof (cases "envelope_to ds (tx_transaction_id t) peer = None")
    case True
    with s(1) obtain u where "persist_outbound_envelopes e ds u [peer] = Inr ds1" by (auto simp: queue_prerequisite_def)
    then show ?thesis
      using persist_outbound_frame queue_step.enqueue unfolding queue_frame_def queue_run_def by blast
  next
    case False
    with s(1) show ?thesis by (simp add: queue_prerequisite_def queue_run_refl)
  qed
  then show ?case using Cons.IH [OF s(2)] by (rule queue_run_trans)
qed (simp add: queue_run_refl)

lemma queue_endpoint_prerequisite_run:
  assumes "queue_endpoint_prerequisite e selected x ds = Inr ds'"
  shows "queue_run ds ds'"
  using assms
  by (auto simp: queue_endpoint_prerequisite_def rbind_Inr_iff queue_run_refl queue_prerequisites_run split: prod.split_asm if_split_asm)

lemma commit_each_run:
  assumes "\<And>x s s'. f x s = Inr s' \<Longrightarrow> queue_run s s'" "commit_each f xs s = (err, s')"
  shows "queue_run s s'"
  using assms(2)
proof (induction xs arbitrary: s)
  case (Cons x xs)
  then show ?case
    by (cases "f x s") (auto simp: queue_run_refl dest: assms(1) intro: queue_run_trans)
qed (simp add: queue_run_refl)

text \<open>C10. One pass of the delivery worker, on any outcome and even when it ends in an exception: it is a sequence of
  steps of the delivery queue and touches nothing else, and everything it hands to the transport is the stored
  bytes of a queue row for that very peer, whose admission is active and who may synchronise the service group of the row's
  transaction.\<close>

theorem delivery_pass_authorised:
  assumes "process_pending_outbound_envelopes e route peer_ids peers clock ds = (err, s)"
  shows "queue_step\<^sup>*\<^sup>* ds (dv_store s) \<and> queue_frame ds (dv_store s) \<and>
    (\<forall>(n, data) \<in> set (dv_calls s). \<exists>r \<in> set (ds_envelopes (dv_store s)). ev_destination_node_id r = n \<and>
      ev_encrypted_payload r = data \<and> may_send ds r)"
proof (cases "peer_ids \<noteq> None \<and> peers \<noteq> None")
  case True
  with assms show ?thesis by (auto simp: process_pending_outbound_envelopes_def start_delivery_def queue_frame_refl)
next
  case False
  let ?sel = "if peer_ids \<noteq> None then peer_ids else peers" and ?e = "e\<lparr>pe_host := (pe_host e)\<lparr>h_now := now_utc_iso clock\<rparr>\<rparr>"
  obtain x ds1 where q: "queue_endpoint_prerequisites ?e ?sel ds = (x, ds1)" by (cases "queue_endpoint_prerequisites ?e ?sel ds")
  have run: "queue_run ds ds1"
    using commit_each_run [OF queue_endpoint_prerequisite_run q [unfolded queue_endpoint_prerequisites_def]] .
  show ?thesis
  proof (cases x)
    case (Some err')
    with assms q False run show ?thesis
      by (auto simp: process_pending_outbound_envelopes_def Let_def start_delivery_def queue_run_def)
  next
    case None
    let ?ds2 = "snd (recover_stale_inflight_envelopes clock ds1)"
    have run2: "queue_run ds ?ds2"
      using run by (rule queue_run_trans) (simp add: queue_run_step queue_step.recover)
    have "deliver_rows route ?sel (deliverable_outbound_envelopes clock ?ds2) (start_delivery clock ?ds2) = (err, s)"
      using assms [unfolded process_pending_outbound_envelopes_def if_not_P [OF False] Let_def q None prod.case option.case] .
    from deliver_rows_ok [OF this] have p: "queue_run ?ds2 (dv_store s)"
      "\<forall>(n, data) \<in> set (dv_calls s). \<exists>r \<in> set (ds_envelopes (dv_store s)). ev_destination_node_id r = n \<and>
        ev_encrypted_payload r = data \<and> may_send ?ds2 r"
      by (auto simp: pass_ok_def start_delivery_def queue_run_def)
    have "may_send ?ds2 r = may_send ds r" for r using run2 by (intro may_send_frame) (simp add: queue_run_def)
    with p queue_run_trans [OF run2 p(1)] show ?thesis by (simp add: queue_run_def)
  qed
qed

subsection \<open>A pass delivers what is due\<close>

lemma update_one:
  assumes "t_keyed ev_envelope_id (ds_envelopes ds)" "t_get ev_envelope_id i (ds_envelopes ds) = Some r" "c r"
  shows "\<exists>n > 0. update_envelopes (\<lambda>q. ev_envelope_id q = i \<and> c q) f ds =
    (n, ds\<lparr>ds_envelopes := t_update ev_envelope_id i f (ds_envelopes ds)\<rparr>)"
proof -
  have r: "r \<in> set (ds_envelopes ds)" "ev_envelope_id r = i" using t_get_SomeD [OF assms(2)] by simp_all
  have only: "q = r" if "q \<in> set (ds_envelopes ds)" "ev_envelope_id q = i" for q
    using t_keyed_get [OF assms(1) that(1)] that(2) assms(2) by simp
  have "map (\<lambda>q. if ev_envelope_id q = i \<and> c q then f q else q) (ds_envelopes ds) = t_update ev_envelope_id i f (ds_envelopes ds)"
    unfolding t_update_def by (rule map_cong [OF refl]) (auto dest: only simp: assms(3))
  moreover have "r \<in> set (filter (\<lambda>q. ev_envelope_id q = i \<and> c q) (ds_envelopes ds))" using r assms(3) by simp
  then have "0 < length (filter (\<lambda>q. ev_envelope_id q = i \<and> c q) (ds_envelopes ds))" by (rule length_pos_if_in_set)
  ultimately show ?thesis by (simp add: update_envelopes_def)
qed

lemma t_update_update:
  assumes "\<And>r. key (f r) = key r"
  shows "t_update key k g (t_update key k f t) = t_update key k (g \<circ> f) t"
  by (simp add: t_update_def assms)

lemma due_later: "due c r \<Longrightarrow> c \<le> c' \<Longrightarrow> clock_ok c' \<Longrightarrow> due c' r"
proof -
  assume a: "due c r" "c \<le> c'" "clock_ok c'"
  then have "clock_ok c" by (simp add: clock_ok_def)
  with a have "now_utc_iso c \<le> now_utc_iso c'" by (simp add: now_utc_iso_def)
  with a(1) show ?thesis by (auto simp: due_def intro: order_trans split: option.split)
qed

text \<open>A row after a claim at \<open>c\<close> and a delivery that ended at \<open>c'\<close>.\<close>

definition delivered_row :: "nat \<Rightarrow> nat \<Rightarrow> envelope_row \<Rightarrow> envelope_row" where
  "delivered_row c c' r = r\<lparr>ev_state := ''sent'', ev_claimed_at := Some (now_utc_iso c), ev_attempt_count := ev_attempt_count r + 1,
     ev_sent_at := Some (now_utc_iso c'), ev_next_attempt_at := None, ev_last_error := None\<rparr>"

definition delivers :: "route \<Rightarrow> nat \<Rightarrow> bool" where
  "delivers route T \<longleftrightarrow> (\<forall>n data c. \<exists>t resp. route n data c = (t, Response resp) \<and> t \<le> T \<and>
     map_of resp ''status'' = Some (JStr ''ok'') \<and> map_of resp ''response'' = Some (JStr ''delivered''))"

lemma delivers_outcome:
  assumes "delivers route T"
  shows "\<exists>t \<le> T. deliver_outbound_envelope route c row = (c + t, \<lparr>do_delivered = True, do_failure_reason = []\<rparr>)"
proof -
  obtain t resp where "route (ev_destination_node_id row) (ev_encrypted_payload row) c = (t, Response resp)" "t \<le> T"
    "map_of resp ''status'' = Some (JStr ''ok'')" "map_of resp ''response'' = Some (JStr ''delivered'')"
    using assms unfolding delivers_def by blast
  then show ?thesis by (intro exI [of _ t]) (simp add: deliver_outbound_envelope_def)
qed

lemma deliver_row_delivers:
  assumes rows: "t_keyed ev_envelope_id (ds_envelopes (dv_store s))" "t_get ev_envelope_id i (ds_envelopes (dv_store s)) = Some r"
    and r: "queued_state r" "due (dv_clock s) r" "ev_destination_node_id r = n" "is_identifier Node n" "may_send (dv_store s) r"
    and ok: "dv_failed s = []" "delivers route T"
  shows "\<exists>t \<le> T. deliver_row route None (i, n) s = (None, s\<lparr>
    dv_store := (dv_store s)\<lparr>ds_envelopes := t_update ev_envelope_id i (delivered_row (dv_clock s) (dv_clock s + t)) (ds_envelopes (dv_store s))\<rparr>,
    dv_clock := dv_clock s + t, dv_sent := dv_sent s + 1, dv_calls := dv_calls s @ [(n, ev_encrypted_payload r)]\<rparr>)"
proof -
  let ?ds = "dv_store s" and ?c = "dv_clock s"
  let ?f = "\<lambda>q. q\<lparr>ev_state := ''claimed'', ev_claimed_at := Some (now_utc_iso ?c), ev_attempt_count := ev_attempt_count q + 1\<rparr>"
  let ?g = "\<lambda>q. q\<lparr>ev_state := ''sending''\<rparr>"
  have id: "ev_envelope_id r = i" using t_get_SomeD [OF rows(2)] by simp
  define ds1 where "ds1 = ?ds\<lparr>ds_envelopes := t_update ev_envelope_id i ?f (ds_envelopes ?ds)\<rparr>"
  define row where "row = ?f r"
  have get1: "t_get ev_envelope_id i (ds_envelopes ds1) = Some row" "t_keyed ev_envelope_id (ds_envelopes ds1)"
    using rows by (simp_all add: ds1_def row_def t_get_update)
  obtain k where "0 < k" "update_envelopes (\<lambda>q. ev_envelope_id q = i \<and> queued_state q \<and> due ?c q) ?f ?ds = (k, ds1)"
    using update_one [OF rows, of "\<lambda>q. queued_state q \<and> due ?c q" ?f] r(1,2) by (auto simp: ds1_def)
  then have claim: "claim_outbound_envelope ?c ?ds i = (Some row, ds1)"
    by (simp add: claim_outbound_envelope_def get1(1))
  have content: "ev_envelope_id row = i" "ev_destination_node_id row = n" "ev_transaction_id row = ev_transaction_id r"
    "ev_encrypted_payload row = ev_encrypted_payload r" "ev_state row = ''claimed''"
    using r(3) id by (simp_all add: row_def)
  have "queue_frame ?ds ds1" unfolding queue_frame_def ds1_def by (rule exI [of _ "ds_peer_groups ?ds"]) auto
  then have "may_send ds1 row = may_send ?ds row" by (rule may_send_frame)
  also have "\<dots>" using r(3,5) unfolding may_send_def content by simp
  finally have "may_send ds1 row" .
  then have allowed: "delivery_denied ds1 row = Inr None" by (simp add: delivery_denied_None)
  define ds2 where "ds2 = ds1\<lparr>ds_envelopes := t_update ev_envelope_id i ?g (ds_envelopes ds1)\<rparr>"
  obtain k where "0 < k" "update_envelopes (\<lambda>q. ev_envelope_id q = i \<and> ev_state q = ''claimed'') ?g ds1 = (k, ds2)"
    using update_one [OF get1(2,1), of "\<lambda>q. ev_state q = ''claimed''" ?g] content by (auto simp: ds2_def)
  then have sending: "mark_envelope_sending ds1 i = (True, ds2)" by (simp add: mark_envelope_sending_def)
  have get2: "t_get ev_envelope_id i (ds_envelopes ds2) = Some (?g row)" "t_keyed ev_envelope_id (ds_envelopes ds2)"
    using get1 by (simp_all add: ds2_def t_get_update)
  obtain t where t: "t \<le> T" "deliver_outbound_envelope route ?c row = (?c + t, \<lparr>do_delivered = True, do_failure_reason = []\<rparr>)"
    using delivers_outcome [OF ok(2)] by blast
  let ?h = "\<lambda>q. q\<lparr>ev_state := ''sent'', ev_sent_at := Some (now_utc_iso (?c + t)), ev_next_attempt_at := None, ev_last_error := None\<rparr>"
  define ds3 where "ds3 = ds2\<lparr>ds_envelopes := t_update ev_envelope_id i ?h (ds_envelopes ds2)\<rparr>"
  obtain k where "0 < k" "update_envelopes (\<lambda>q. ev_envelope_id q = i \<and> ev_state q = ''sending'') ?h ds2 = (k, ds3)"
    using update_one [OF get2(2,1), of "\<lambda>q. ev_state q = ''sending''" ?h] by (auto simp: ds3_def)
  then have sent: "mark_envelope_sent_if_sending (?c + t) ds2 i = (True, ds3)" by (simp add: mark_envelope_sent_if_sending_def)
  have "?h \<circ> (?g \<circ> ?f) = delivered_row ?c (?c + t)" by (simp add: fun_eq_iff delivered_row_def)
  then have ds3: "ds3 = ?ds\<lparr>ds_envelopes := t_update ev_envelope_id i (delivered_row ?c (?c + t)) (ds_envelopes ?ds)\<rparr>"
    by (simp add: ds3_def ds2_def ds1_def t_update_update)
  show ?thesis
    using t(1) validate_identifier_ok [OF r(4)]
    by (intro exI [of _ t])
      (simp add: deliver_row_def ok(1) claim content allowed send_row_def sending t(2) sent ds3 [symmetric] Let_def)
qed

text \<open>The rows a delivering pass can work on, and the queue it leaves.\<close>

definition ready :: "delivery \<Rightarrow> string \<times> string \<Rightarrow> bool" where
  "ready s x \<longleftrightarrow> (\<exists>r. t_get ev_envelope_id (fst x) (ds_envelopes (dv_store s)) = Some r \<and> queued_state r \<and> due (dv_clock s) r \<and>
     ev_destination_node_id r = snd x \<and> is_identifier Node (snd x) \<and> may_send (dv_store s) r)"

definition rows_sent :: "string set \<Rightarrow> datastore \<Rightarrow> datastore \<Rightarrow> bool" where
  "rows_sent I ds ds' \<longleftrightarrow> list_all2 (\<lambda>r q. if ev_envelope_id r \<in> I then same_content r q \<and> ev_state q = ''sent'' else q = r)
     (ds_envelopes ds) (ds_envelopes ds')"

lemma rows_sent_trans:
  assumes "rows_sent I a b" "rows_sent J b c" "I \<inter> J = {}"
  shows "rows_sent (I \<union> J) a c"
  using assms unfolding rows_sent_def list_all2_conv_all_nth by (fastforce simp: same_content_def split: if_split_asm)

lemma rows_sent_one: "rows_sent {i} ds (ds\<lparr>ds_envelopes := t_update ev_envelope_id i (delivered_row c c') (ds_envelopes ds)\<rparr>)"
  by (simp add: rows_sent_def t_update_def list_all2_conv_all_nth same_content_def delivered_row_def)

lemma ready_next:
  assumes "ready s x" "fst x \<noteq> i" "clock_ok (dv_clock s + t)"
    and "s' = s\<lparr>dv_store := (dv_store s)\<lparr>ds_envelopes := t_update ev_envelope_id i (delivered_row c c') (ds_envelopes (dv_store s))\<rparr>,
      dv_clock := dv_clock s + t, dv_sent := k, dv_calls := calls\<rparr>"
  shows "ready s' x"
proof -
  have frame: "queue_frame (dv_store s) (dv_store s')" unfolding queue_frame_def assms(4)
    by (rule exI [of _ "ds_peer_groups (dv_store s)"]) auto
  from assms(1) obtain r where r: "t_get ev_envelope_id (fst x) (ds_envelopes (dv_store s)) = Some r" "queued_state r"
    "due (dv_clock s) r" "ev_destination_node_id r = snd x" "is_identifier Node (snd x)" "may_send (dv_store s) r"
    unfolding ready_def by blast
  have "due (dv_clock s + t) r" using due_later [OF r(3) _ assms(3)] by simp
  with r assms(2) may_send_frame [OF frame] show ?thesis
    unfolding ready_def by (intro exI [of _ r]) (simp add: assms(4) t_get_update delivered_row_def)
qed

definition stored_call :: "datastore \<Rightarrow> string \<times> string \<Rightarrow> string \<times> bytes" where
  "stored_call ds x = (snd x, ev_encrypted_payload (the (t_get ev_envelope_id (fst x) (ds_envelopes ds))))"

lemma deliver_rows_deliver:
  assumes "t_keyed ev_envelope_id (ds_envelopes (dv_store s))" "\<forall>x \<in> set xs. ready s x" "distinct (map fst xs)"
    and "dv_failed s = []" "delivers route T" "clock_ok (dv_clock s + T * length xs)"
  shows "\<exists>s'. deliver_rows route None xs s = (None, s') \<and> dv_sent s' = dv_sent s + length xs \<and>
    dv_calls s' = dv_calls s @ map (stored_call (dv_store s)) xs \<and> rows_sent (fst ` set xs) (dv_store s) (dv_store s')"
  using assms
proof (induction xs arbitrary: s)
  case Nil
  then show ?case by (simp add: rows_sent_def list.rel_refl)
next
  case (Cons x xs)
  obtain i n where x: "x = (i, n)" by (cases x)
  from Cons.prems(2) obtain r where r: "t_get ev_envelope_id i (ds_envelopes (dv_store s)) = Some r" "queued_state r"
    "due (dv_clock s) r" "ev_destination_node_id r = n" "is_identifier Node n" "may_send (dv_store s) r"
    by (auto simp: x ready_def)
  from deliver_row_delivers [OF Cons.prems(1) r Cons.prems(4,5)] obtain t s1 where s1: "t \<le> T" "deliver_row route None x s = (None, s1)"
    "s1 = s\<lparr>dv_store := (dv_store s)\<lparr>ds_envelopes := t_update ev_envelope_id i (delivered_row (dv_clock s) (dv_clock s + t)) (ds_envelopes (dv_store s))\<rparr>,
      dv_clock := dv_clock s + t, dv_sent := dv_sent s + 1, dv_calls := dv_calls s @ [(n, ev_encrypted_payload r)]\<rparr>"
    by (auto simp: x)
  have ok: "clock_ok (dv_clock s + t)" "clock_ok (dv_clock s1 + T * length xs)"
    using Cons.prems(6) s1(1) by (simp_all add: clock_ok_def s1(3))
  have "\<forall>y \<in> set xs. ready s1 y"
    using Cons.prems(2,3) ready_next [OF _ _ ok(1) s1(3)] by (force simp: x)
  moreover have "t_keyed ev_envelope_id (ds_envelopes (dv_store s1))"
    using Cons.prems(1) by (simp add: s1(3) delivered_row_def)
  ultimately obtain s' where s': "deliver_rows route None xs s1 = (None, s')" "dv_sent s' = dv_sent s1 + length xs"
    "dv_calls s' = dv_calls s1 @ map (stored_call (dv_store s1)) xs" "rows_sent (fst ` set xs) (dv_store s1) (dv_store s')"
    using Cons.IH [of s1] Cons.prems(3-5) ok(2) by (auto simp: s1(3))
  have "rows_sent {i} (dv_store s) (dv_store s1)" by (simp add: s1(3) rows_sent_one)
  from rows_sent_trans [OF this s'(4)] have "rows_sent (fst ` set (x # xs)) (dv_store s) (dv_store s')"
    using Cons.prems(3) by (simp add: x)
  moreover have "stored_call (dv_store s1) y = stored_call (dv_store s) y" if "y \<in> set xs" for y
    using that Cons.prems(3) by (auto simp: stored_call_def s1(3) t_get_update x delivered_row_def)
  then have "map (stored_call (dv_store s1)) xs = map (stored_call (dv_store s)) xs" by simp
  moreover have "stored_call (dv_store s) x = (n, ev_encrypted_payload r)" by (simp add: stored_call_def x r(1))
  ultimately show ?case using s' s1(2,3) by simp
qed

lemma deliverable_distinct:
  assumes "t_keyed ev_envelope_id (ds_envelopes ds)"
  shows "distinct (map fst (deliverable_outbound_envelopes clock ds))"
  using assms
  by (simp add: deliverable_outbound_envelopes_def o_def t_keyed_def distinct_map inj_on_subset [of _ "set (ds_envelopes ds)"])

lemma deliverable_mem:
  assumes "t_keyed ev_envelope_id (ds_envelopes ds)" "(i, n) \<in> set (deliverable_outbound_envelopes clock ds)"
  shows "\<exists>r. t_get ev_envelope_id i (ds_envelopes ds) = Some r \<and> queued_state r \<and> due clock r \<and> ev_destination_node_id r = n"
  using assms by (auto simp: deliverable_outbound_envelopes_def dest: t_keyed_get)

text \<open>The due rows themselves: queued, due, of a logged transaction, and with no blocking row of the same peer.\<close>

definition due_rows :: "nat \<Rightarrow> datastore \<Rightarrow> envelope_row set" where
  "due_rows clock ds = {r \<in> set (ds_envelopes ds). t_has tr_transaction_id (ev_transaction_id r) (ds_transactions ds) \<and> queued_state r \<and>
     due clock r \<and> (\<forall>b \<in> set (ds_envelopes ds). ev_destination_node_id b = ev_destination_node_id r \<longrightarrow> \<not> blocks clock b)}"

lemma deliverable_rows:
  assumes "t_keyed ev_envelope_id (ds_envelopes ds)"
  obtains rows where "deliverable_outbound_envelopes clock ds = map (\<lambda>r. (ev_envelope_id r, ev_destination_node_id r)) rows"
    "distinct rows" "sorted (map (delivery_order ds) rows)" "set rows = due_rows clock ds"
    "map (stored_call ds) (deliverable_outbound_envelopes clock ds) = map (\<lambda>r. (ev_destination_node_id r, ev_encrypted_payload r)) rows"
proof -
  define rows where "rows = sort_key (delivery_order ds) (filter (\<lambda>r. t_has tr_transaction_id (ev_transaction_id r) (ds_transactions ds) \<and>
    queued_state r \<and> due clock r \<and> \<not> (\<exists>b \<in> set (ds_envelopes ds). ev_destination_node_id b = ev_destination_node_id r \<and> blocks clock b))
    (ds_envelopes ds))"
  have d: "deliverable_outbound_envelopes clock ds = map (\<lambda>r. (ev_envelope_id r, ev_destination_node_id r)) rows"
    unfolding deliverable_outbound_envelopes_def rows_def ..
  have set: "set rows = due_rows clock ds" by (auto simp: rows_def due_rows_def)
  have "stored_call ds (ev_envelope_id r, ev_destination_node_id r) = (ev_destination_node_id r, ev_encrypted_payload r)" if "r \<in> set rows" for r
    using that t_keyed_get [OF assms, of r] by (simp add: set due_rows_def stored_call_def)
  moreover have "distinct rows" using assms by (simp add: rows_def t_keyed_def distinct_map)
  moreover have "sorted (map (delivery_order ds) rows)" by (simp add: rows_def)
  ultimately show thesis using d set by (intro that [of rows]) simp_all
qed

text \<open>C12. A pass delivers: when the transport delivers everything within \<open>T\<close> seconds and the peers of the due rows are
  authorised, a pass raises nothing and hands out, for every due row exactly once and in the order of the queue, the bytes that are stored in
  that row to the peer of that row; it leaves exactly these rows sent and the others as they were.\<close>

theorem delivery_pass_delivers:
  assumes "queue_endpoint_prerequisites (e\<lparr>pe_host := (pe_host e)\<lparr>h_now := now_utc_iso clock\<rparr>\<rparr>) None ds = (None, ds1)"
    and "ds2 = snd (recover_stale_inflight_envelopes clock ds1)" and "xs = deliverable_outbound_envelopes clock ds2"
    and "t_keyed ev_envelope_id (ds_envelopes ds2)"
    and "\<forall>r \<in> set (ds_envelopes ds2). queued_state r \<and> due clock r \<longrightarrow> is_identifier Node (ev_destination_node_id r) \<and> may_send ds2 r"
    and "delivers route T" and "clock_ok (clock + T * length xs)"
  shows "\<exists>s rows. process_pending_outbound_envelopes e route None None clock ds = (None, s) \<and>
    set rows = due_rows clock ds2 \<and> distinct rows \<and> sorted (map (delivery_order ds2) rows) \<and> dv_sent s = length rows \<and>
    dv_calls s = map (\<lambda>r. (ev_destination_node_id r, ev_encrypted_payload r)) rows \<and>
    rows_sent (ev_envelope_id ` set rows) ds2 (dv_store s)"
proof -
  let ?s = "start_delivery clock ds2"
  have "ready ?s x" if "x \<in> set xs" for x
    using that assms(5) deliverable_mem [OF assms(4), of "fst x" "snd x" clock] t_get_SomeD
    unfolding ready_def start_delivery_def assms(3) by fastforce
  with deliver_rows_deliver [of ?s xs route T] assms(3-7) obtain s where "deliver_rows route None xs ?s = (None, s)"
    "dv_sent s = length xs" "dv_calls s = map (stored_call ds2) xs" "rows_sent (fst ` set xs) ds2 (dv_store s)"
    by (auto simp: start_delivery_def deliverable_distinct)
  moreover from deliverable_rows [OF assms(4), of clock] obtain rows where "xs = map (\<lambda>r. (ev_envelope_id r, ev_destination_node_id r)) rows"
    "distinct rows" "sorted (map (delivery_order ds2) rows)" "set rows = due_rows clock ds2"
    "map (stored_call ds2) xs = map (\<lambda>r. (ev_destination_node_id r, ev_encrypted_payload r)) rows" unfolding assms(3) .
  ultimately show ?thesis using assms(1-3)
    by (intro exI [of _ s] exI [of _ rows]) (simp add: process_pending_outbound_envelopes_def image_image)
qed

subsection \<open>Backoff and schedule\<close>

lemma deliverable_iff:
  "x \<in> set (deliverable_outbound_envelopes clock ds) \<longleftrightarrow>
    (\<exists>r \<in> set (ds_envelopes ds). x = (ev_envelope_id r, ev_destination_node_id r) \<and>
      t_has tr_transaction_id (ev_transaction_id r) (ds_transactions ds) \<and> queued_state r \<and> due clock r \<and>
      \<not> (\<exists>b \<in> set (ds_envelopes ds). ev_destination_node_id b = ev_destination_node_id r \<and> blocks clock b))"
  by (auto simp: deliverable_outbound_envelopes_def)

text \<open>Every queued row of a peer has the same state and deadline.\<close>

definition peer_deadline :: "datastore \<Rightarrow> string \<Rightarrow> string option \<Rightarrow> bool" where
  "peer_deadline ds n d \<longleftrightarrow> (\<forall>r \<in> set (ds_envelopes ds). ev_destination_node_id r = n \<and> queued_state r \<longrightarrow>
     ev_state r = ''retry_pending'' \<and> ev_next_attempt_at r = d)"

lemma blocks_queued: "blocks clock r \<Longrightarrow> queued_state r"
  by (simp add: blocks_def queued_state_def)

lemma peer_deadline_deliverable:
  assumes "peer_deadline ds n d"
  shows "(i, n) \<in> set (deliverable_outbound_envelopes clock ds) \<longleftrightarrow> (\<exists>t. d = Some t \<and> t \<le> now_utc_iso clock) \<and>
    (\<exists>r \<in> set (ds_envelopes ds). ev_envelope_id r = i \<and> ev_destination_node_id r = n \<and> queued_state r \<and>
      t_has tr_transaction_id (ev_transaction_id r) (ds_transactions ds))"
    (is "?L \<longleftrightarrow> ?T \<and> ?R")
proof
  assume ?L
  then obtain r where r: "r \<in> set (ds_envelopes ds)" "ev_envelope_id r = i" "ev_destination_node_id r = n" "queued_state r" "due clock r"
    "t_has tr_transaction_id (ev_transaction_id r) (ds_transactions ds)" "\<not> blocks clock r"
    by (auto simp: deliverable_iff)
  with assms have "ev_state r = ''retry_pending''" "ev_next_attempt_at r = d" by (auto simp: peer_deadline_def)
  with r show "?T \<and> ?R" by (auto simp: due_def blocks_def split: option.split_asm)
next
  assume r: "?T \<and> ?R"
  have "\<not> blocks clock b" if "b \<in> set (ds_envelopes ds)" "ev_destination_node_id b = n" for b
    using that r assms by (auto simp: peer_deadline_def blocks_def queued_state_def)
  with r assms show ?L by (auto simp: deliverable_iff peer_deadline_def due_def)
qed

lemma mark_peer_deadline:
  "peer_deadline (mark_peer_retry_pending clock row reason ds) (ev_destination_node_id row)
     (if MAX_DELIVERY_ATTEMPTS \<le> ev_attempt_count row then None else Some (next_attempt_at clock (ev_attempt_count row)))"
  by (auto simp: peer_deadline_def mark_peer_retry_pending_def update_envelopes_def)

lemma resumed_rows:
  "q \<in> set (ds_envelopes (snd (resume_peer_delivery clock n ds))) \<longleftrightarrow>
    (\<exists>r \<in> set (ds_envelopes ds). q = (if ev_destination_node_id r = n \<and> ev_state r = ''retry_pending'' \<and> ev_next_attempt_at r = None
      then r\<lparr>ev_next_attempt_at := Some (now_utc_iso clock), ev_attempt_count := 0\<rparr> else r))"
proof -
  have rows: "ds_envelopes (snd (update_envelopes c f ds)) = map (\<lambda>r. if c r then f r else r) (ds_envelopes ds)" for c f
    by (simp add: update_envelopes_def)
  show ?thesis unfolding resume_peer_delivery_def rows by (simp only: set_map image_iff)
qed

lemma resume_peer_deadline:
  assumes "peer_deadline ds n None"
  shows "peer_deadline (snd (resume_peer_delivery clock n ds)) n (Some (now_utc_iso clock))"
  unfolding peer_deadline_def Ball_def resumed_rows
proof (intro allI impI, elim bexE conjE)
  fix q r
  assume r: "r \<in> set (ds_envelopes ds)" and n: "ev_destination_node_id q = n" "queued_state q"
    and q: "q = (if ev_destination_node_id r = n \<and> ev_state r = ''retry_pending'' \<and> ev_next_attempt_at r = None
      then r\<lparr>ev_next_attempt_at := Some (now_utc_iso clock), ev_attempt_count := 0\<rparr> else r)"
  then have "ev_destination_node_id r = n" "queued_state r" by (simp_all add: queued_state_def split: if_split_asm)
  with r assms have "ev_state r = ''retry_pending''" "ev_next_attempt_at r = None" by (simp_all add: peer_deadline_def)
  with \<open>ev_destination_node_id r = n\<close> show "ev_state q = ''retry_pending'' \<and> ev_next_attempt_at q = Some (now_utc_iso clock)"
    by (simp add: q)
qed

lemma resume_keeps_queued:
  assumes "\<And>r. P (r\<lparr>ev_next_attempt_at := Some (now_utc_iso clock), ev_attempt_count := 0\<rparr>) = P r"
  shows "(\<exists>q \<in> set (ds_envelopes (snd (resume_peer_delivery clock n ds))). P q) \<longleftrightarrow> (\<exists>r \<in> set (ds_envelopes ds). P r)"
  unfolding Bex_def resumed_rows using assms by (metis (no_types, lifting))

lemma retry_delay_bounds: "RETRY_BASE_SECONDS \<le> retry_delay k" "retry_delay k \<le> RETRY_MAX_SECONDS"
  "1 \<le> k \<Longrightarrow> k < MAX_DELIVERY_ATTEMPTS \<Longrightarrow> retry_delay k = 3 * 2 ^ nat (k - 1)"
proof -
  show "RETRY_BASE_SECONDS \<le> retry_delay k" "retry_delay k \<le> RETRY_MAX_SECONDS"
    by (simp_all add: retry_delay_def Let_def RETRY_BASE_SECONDS_def RETRY_MAX_SECONDS_def)
  assume "1 \<le> k" "k < MAX_DELIVERY_ATTEMPTS"
  then have "k \<in> {1, 2, 3}" by (auto simp: MAX_DELIVERY_ATTEMPTS_def)
  then show "retry_delay k = 3 * 2 ^ nat (k - 1)"
    by (auto simp: retry_delay_def Let_def RETRY_BASE_SECONDS_def RETRY_MAX_SECONDS_def)
qed

definition queued_to :: "datastore \<Rightarrow> string \<Rightarrow> string \<Rightarrow> bool" where
  "queued_to ds n i \<longleftrightarrow> (\<exists>r \<in> set (ds_envelopes ds). ev_envelope_id r = i \<and> ev_destination_node_id r = n \<and> queued_state r \<and>
     t_has tr_transaction_id (ev_transaction_id r) (ds_transactions ds))"

lemma queued_to_resume: "queued_to (snd (resume_peer_delivery clock m ds)) n i = queued_to ds n i"
proof -
  have "ds_transactions (snd (resume_peer_delivery clock m ds)) = ds_transactions ds"
    by (simp add: resume_peer_delivery_def update_envelopes_def)
  then show ?thesis unfolding queued_to_def by (simp only:) (rule resume_keeps_queued, simp add: queued_state_def)
qed

text \<open>C17. The backoff of a peer: a failed delivery postpones every queued row of the peer by the same time, 3, 6 and 12 seconds
  after the first three attempts of the failed row and never more than a minute, and the rows become deliverable
  exactly when that time has passed. From the fourth attempt on the peer is parked: its rows are deliverable at no time, until
  delivery is resumed, and then all at once.\<close>

theorem peer_backoff:
  assumes "n = ev_destination_node_id row" and "k = ev_attempt_count row" and "1 \<le> k"
    and "ds' = mark_peer_retry_pending clock row reason ds" and "queued_to ds' n i"
    and "clock_ok (clock + RETRY_MAX_SECONDS)" and "clock_ok later"
  shows "3 \<le> retry_delay k \<and> retry_delay k \<le> 60 \<and>
    (k < 4 \<longrightarrow> retry_delay k = 3 * 2 ^ nat (k - 1) \<and>
      ((i, n) \<in> set (deliverable_outbound_envelopes later ds') \<longleftrightarrow> clock + retry_delay k \<le> later)) \<and>
    (4 \<le> k \<longrightarrow> (i, n) \<notin> set (deliverable_outbound_envelopes later ds') \<and>
      (i, n) \<in> set (deliverable_outbound_envelopes later (snd (resume_peer_delivery later n ds'))))"
proof -
  note b = retry_delay_bounds [unfolded RETRY_BASE_SECONDS_def RETRY_MAX_SECONDS_def MAX_DELIVERY_ATTEMPTS_def]
  have p: "peer_deadline ds' n (if 4 \<le> k then None else Some (next_attempt_at clock k))"
    using mark_peer_deadline [of clock row reason ds] by (simp only: assms(1,2,4) MAX_DELIVERY_ATTEMPTS_def)
  have d: "(i, n) \<in> set (deliverable_outbound_envelopes c e) \<longleftrightarrow> (\<exists>t. x = Some t \<and> t \<le> now_utc_iso c)"
    if "peer_deadline e n x" "queued_to e n i" for c e x
    using that by (simp add: peer_deadline_deliverable queued_to_def)
  have "clock_ok (clock + retry_delay k)" using assms(6) b(2) [of k] by (simp add: clock_ok_def RETRY_MAX_SECONDS_def)
  then have early: "k < 4 \<Longrightarrow> (i, n) \<in> set (deliverable_outbound_envelopes later ds') \<longleftrightarrow> clock + retry_delay k \<le> later"
    using d [OF p assms(5)] assms(7) by (simp add: next_attempt_at_def now_utc_iso_def)
  have late: "(i, n) \<notin> set (deliverable_outbound_envelopes later ds') \<and>
      (i, n) \<in> set (deliverable_outbound_envelopes later (snd (resume_peer_delivery later n ds')))" if "4 \<le> k"
    using that d [OF p assms(5)] p d [OF resume_peer_deadline, of ds'] assms(5) by (simp add: queued_to_resume)
  show ?thesis using early late b assms(3) by simp
qed

lemma fold_min_le:
  fixes a :: "'a :: linorder"
  shows "t \<in> set (a # ts) \<Longrightarrow> fold min ts a \<le> t"
proof -
  have "fold min ts a = Min (set (a # ts))" by (simp only: Min.set_eq_fold)
  then show "t \<in> set (a # ts) \<Longrightarrow> fold min ts a \<le> t" by (simp only:) (rule Min_le, simp_all)
qed

lemma next_outbound_attempt_le:
  assumes "t \<in> set (delivery_deadlines ds)"
  shows "\<exists>m. next_outbound_attempt_at ds = Some m \<and> m \<le> t"
proof (cases "delivery_deadlines ds")
  case (Cons a ts)
  with assms have "fold min ts a \<le> t" by (intro fold_min_le) simp
  with Cons show ?thesis by (simp add: next_outbound_attempt_at_def)
qed (use assms in simp)

lemma retry_deadline:
  assumes "r \<in> set (ds_envelopes ds)" "\<not> peer_parked ds (ev_destination_node_id r)" "ev_state r = ''retry_pending''" "ev_next_attempt_at r = Some t"
  shows "t \<in> set (delivery_deadlines ds)"
  using assms by (force simp: delivery_deadlines_def Let_def List.map_filter_def)

lemma claim_deadline:
  assumes "r \<in> set (ds_envelopes ds)" "\<not> peer_parked ds (ev_destination_node_id r)" "inflight_state r" "ev_claimed_at r = Some (utc_iso t)" "clock_ok t"
  shows "utc_iso (t + 60) \<in> set (delivery_deadlines ds)"
  using assms by (force simp: delivery_deadlines_def Let_def List.map_filter_def iso_plus_minute_utc)

lemma parked_blocks:
  assumes "peer_parked ds n"
  shows "\<exists>b \<in> set (ds_envelopes (snd (recover_stale_inflight_envelopes clock ds))). ev_destination_node_id b = n \<and> blocks later b"
proof -
  obtain b where b: "b \<in> set (ds_envelopes ds)" "ev_destination_node_id b = n" "ev_state b = ''retry_pending''" "ev_next_attempt_at b = None"
    using assms by (auto simp: peer_parked_def)
  then have "\<not> inflight_state b" by (simp add: inflight_state_def)
  then have "b \<in> set (ds_envelopes (snd (recover_stale_inflight_envelopes clock ds)))"
    using b(1) by (force simp: recover_stale_inflight_envelopes_def update_envelopes_def)
  with b show ?thesis by (intro bexI [of _ b]) (simp_all add: blocks_def)
qed

text \<open>C18. The schedule of the worker is never late: if at some time a pass would find a deliverable row, after it has
  recovered the stale claims, then the row was freshly queued, or the announced next attempt is
  not after that time. Claim times have to be times that the worker wrote.\<close>

theorem delivery_schedule_not_late:
  assumes "\<forall>r \<in> set (ds_envelopes ds). inflight_state r \<longrightarrow> (\<exists>t. ev_claimed_at r = Some (utc_iso t) \<and> clock_ok (t + 60))"
    and "x \<in> set (deliverable_outbound_envelopes clock (snd (recover_stale_inflight_envelopes clock ds)))"
    and "60 \<le> clock" and "clock_ok clock"
  shows "(\<exists>r \<in> set (ds_envelopes ds). x = (ev_envelope_id r, ev_destination_node_id r) \<and> ev_state r = ''pending'') \<or>
    (\<exists>t. next_outbound_attempt_at ds = Some t \<and> t \<le> now_utc_iso clock)"
proof -
  let ?stale = "\<lambda>r. inflight_state r \<and> (case ev_claimed_at r of None \<Rightarrow> False | Some t \<Rightarrow> t \<le> utc_iso (clock - CLAIM_LEASE_SECONDS))"
  from assms(2) obtain q where q: "q \<in> set (ds_envelopes (snd (recover_stale_inflight_envelopes clock ds)))"
    "x = (ev_envelope_id q, ev_destination_node_id q)" "queued_state q" "due clock q"
    and open_peer: "\<not> (\<exists>b \<in> set (ds_envelopes (snd (recover_stale_inflight_envelopes clock ds))).
      ev_destination_node_id b = ev_destination_node_id q \<and> blocks clock b)"
    unfolding deliverable_iff by (elim bexE conjE)
  have free: "\<not> peer_parked ds (ev_destination_node_id q)" using open_peer parked_blocks by (rule contrapos_nn)
  have calm: "\<not> blocks clock q" using open_peer q(1) by blast
  from q(1) obtain r where r: "r \<in> set (ds_envelopes ds)" "ev_envelope_id q = ev_envelope_id r"
    "ev_destination_node_id q = ev_destination_node_id r" "?stale r \<or> q = r"
    by (auto simp: recover_stale_inflight_envelopes_def update_envelopes_def)
  consider "?stale r" | "ev_state r = ''pending''" | "q = r" "ev_state r = ''retry_pending''"
    using r(4) q(3) by (auto simp: queued_state_def)
  then show ?thesis
  proof cases
    case 1
    then obtain t where t: "ev_claimed_at r = Some (utc_iso t)" "clock_ok (t + 60)" "inflight_state r" using assms(1) r(1) by blast
    then have ok: "clock_ok t" "clock_ok (clock - 60)" using assms(4) by (simp_all add: clock_ok_def)
    with 1 t(1) have "t \<le> clock - 60" by (simp add: CLAIM_LEASE_SECONDS_def)
    with assms(3) have "t + 60 \<le> clock" by linarith
    then have le: "utc_iso (t + 60) \<le> now_utc_iso clock" using t(2) assms(4) by (simp add: now_utc_iso_def)
    have "utc_iso (t + 60) \<in> set (delivery_deadlines ds)" using claim_deadline r(1) free t ok(1) by (simp add: r(3))
    then show ?thesis using next_outbound_attempt_le le order_trans by blast
  next
    case 2
    with r q(2) show ?thesis by auto
  next
    case 3
    then obtain t where t: "ev_next_attempt_at r = Some t" "t \<le> now_utc_iso clock"
      using q(4) calm by (auto simp: due_def blocks_def split: option.split_asm)
    have "t \<in> set (delivery_deadlines ds)" using retry_deadline [OF r(1) _ 3(2) t(1)] free by (simp add: 3(1))
    then show ?thesis using next_outbound_attempt_le t(2) order_trans by blast
  qed
qed

subsection \<open>Witnesses\<close>

definition example_route :: route where
  "example_route n data clock = (1, Response [(''status'', JStr ''ok''), (''response'', JStr ''delivered'')])"

definition example_queued :: envelope_row where
  "example_queued = envelope_queue_row ''e'' (tx_transaction_id example_change) (format_identifier Node 1) (format_identifier Node 2) ''data''"

lemma example_route_delivers: "delivers example_route 1"
  by (simp add: delivers_def example_route_def)

lemma example_queued_fields [simp]:
  "ev_envelope_id example_queued = ''e''" "ev_transaction_id example_queued = tx_transaction_id example_change"
  "ev_destination_node_id example_queued = format_identifier Node 2" "ev_encrypted_payload example_queued = ''data''"
  "ev_state example_queued = ''pending''" "ev_next_attempt_at example_queued = None"
  by (simp_all add: example_queued_def envelope_queue_row_def)

lemma example_change_scope: "service_group_scope_id (tx_norm example_change) = Inr None" "tx_wf example_change"
proof -
  show "service_group_scope_id (tx_norm example_change) = Inr None"
    by (simp add: service_group_scope_id_def transaction_scope_def example_change_def example_transaction_def tx_norm_def
        SERVICE_GROUP_SCOPED_TRANSACTION_TYPES_def CONTROL_TRANSACTION_TYPES_def starts_with_def canon_obj_def
        reject_unexpected_service_group_id_def dict_has_def)
  have "json_wf (JObj [(''name'', JStr ''prod'')])" by code_simp
  then show "tx_wf example_change" by (simp add: tx_wf_def example_change_def example_transaction_def del: json_wf.simps)
qed

lemma example_queue:
  obtains ds where "ds_envelopes ds = [example_queued]" "may_send ds example_queued" "pending_endpoint_updates ds = []"
    "t_has tr_transaction_id (tx_transaction_id example_change) (ds_transactions ds)"
proof -
  note One_nat_def [simp del]
  obtain row where row: "insert_transaction (example_network 1 2) example_change = Inr (example_network 1 2\<lparr>ds_transactions := [row]\<rparr>)"
    and has: "t_has tr_transaction_id (tx_transaction_id example_change) (ds_transactions (example_network 1 2\<lparr>ds_transactions := [row]\<rparr>))"
    by (rule example_change_logged)
  let ?ds = "example_network 1 2\<lparr>ds_transactions := [row]\<rparr>"
  let ?q = "?ds\<lparr>ds_envelopes := [example_queued]\<rparr>"
  have ne: "format_identifier Node (of_nat 1) \<noteq> format_identifier Node (of_nat 2)" by (simp add: format_identifier_inject)
  obtain entry where "get_peer_registry_entry ?ds (format_identifier Node (of_nat 2)) = Inr (Some entry)"
    "pr_synchronization_eligible entry" by (rule example_network_entry [OF ne])
  then have el: "is_peer_synchronization_eligible ?ds (format_identifier Node 2) None = Inr True"
    by (simp add: is_peer_synchronization_eligible_def)
  have "get_transaction ?ds (tx_transaction_id example_change) = Inr (tx_norm example_change)"
    using txlog.get_put [OF row example_change_scope(2)] .
  with el have may: "may_send ?ds example_queued" by (simp add: may_send_def example_change_scope(1))
  have "queue_frame ?ds ?q" unfolding queue_frame_def by (rule exI [of _ "ds_peer_groups ?ds"]) auto
  from may_send_frame [OF this] may have "may_send ?q example_queued" by simp
  moreover have "tr_transaction_type row = ''vocabulary.tag.upsert''"
    using row by (elim insert_transaction_InrD)
      (simp add: transaction_to_row_def example_change_def example_transaction_def example_network_def empty_datastore_def)
  ultimately show thesis using has by (intro that [of ?q]) (simp_all add: pending_endpoint_updates_def)
qed

lemma example_pass:
  obtains ds s where "ds_envelopes ds = [example_queued]" "may_send ds example_queued" "pending_endpoint_updates ds = []"
    "t_has tr_transaction_id (tx_transaction_id example_change) (ds_transactions ds)"
    "process_pending_outbound_envelopes (example_env 1) example_route None None 0 ds = (None, s)"
    "dv_calls s = [(format_identifier Node 2, ''data'')]"
proof -
  obtain ds :: datastore where ds: "ds_envelopes ds = [example_queued]" "may_send ds example_queued" "pending_endpoint_updates ds = []"
    "t_has tr_transaction_id (tx_transaction_id example_change) (ds_transactions ds)" by (rule example_queue)
  have quiet: "snd (recover_stale_inflight_envelopes 0 ds) = ds"
    by (simp add: recover_stale_inflight_envelopes_def update_envelopes_def ds(1) inflight_state_def)
  have one: "deliverable_outbound_envelopes 0 ds = [(''e'', format_identifier Node 2)]"
    by (simp add: deliverable_outbound_envelopes_def ds(1,4) queued_state_def due_def blocks_def)
  let ?s = "start_delivery 0 ds"
  have "\<exists>t \<le> 1. deliver_row example_route None (''e'', format_identifier Node 2) ?s = (None, ?s\<lparr>
    dv_store := (dv_store ?s)\<lparr>ds_envelopes := t_update ev_envelope_id ''e'' (delivered_row (dv_clock ?s) (dv_clock ?s + t)) (ds_envelopes (dv_store ?s))\<rparr>,
    dv_clock := dv_clock ?s + t, dv_sent := dv_sent ?s + 1, dv_calls := dv_calls ?s @ [(format_identifier Node 2, ev_encrypted_payload example_queued)]\<rparr>)"
    by (rule deliver_row_delivers [OF _ _ _ _ _ _ _ _ example_route_delivers])
      (simp_all add: start_delivery_def ds(1,2) t_keyed_def t_get_Cons queued_state_def due_def)
  then show thesis
    by (elim exE conjE) (rule that [OF ds], auto simp: process_pending_outbound_envelopes_def queue_endpoint_prerequisites_def ds(3) quiet one start_delivery_def)
qed

theorem delivery_pass_authorised_witness:
  "\<exists>ds s r. process_pending_outbound_envelopes (example_env 1) example_route None None 0 ds = (None, s) \<and>
    dv_calls s = [(format_identifier Node 2, ''data'')] \<and> r \<in> set (ds_envelopes (dv_store s)) \<and>
    ev_destination_node_id r = format_identifier Node 2 \<and> ev_encrypted_payload r = ''data'' \<and> may_send ds r"
proof -
  obtain ds s where p: "process_pending_outbound_envelopes (example_env 1) example_route None None 0 ds = (None, s)"
    "dv_calls s = [(format_identifier Node 2, ''data'')]" by (rule example_pass)
  from delivery_pass_authorised [OF p(1)] p show ?thesis by auto
qed

theorem delivery_pass_delivers_witness:
  "\<exists>ds s q. ds_envelopes ds = [example_queued] \<and>
    process_pending_outbound_envelopes (example_env 1) example_route None None 0 ds = (None, s) \<and> dv_sent s = 1 \<and>
    dv_calls s = [(format_identifier Node 2, ''data'')] \<and> ds_envelopes (dv_store s) = [q] \<and> ev_state q = ''sent''"
proof -
  obtain ds :: datastore where ds: "ds_envelopes ds = [example_queued]" "may_send ds example_queued" "pending_endpoint_updates ds = []"
    "t_has tr_transaction_id (tx_transaction_id example_change) (ds_transactions ds)" by (rule example_queue)
  have quiet: "ds = snd (recover_stale_inflight_envelopes 0 ds)"
    by (simp add: recover_stale_inflight_envelopes_def update_envelopes_def ds(1) inflight_state_def)
  have one: "deliverable_outbound_envelopes 0 ds = [(''e'', format_identifier Node 2)]"
    by (simp add: deliverable_outbound_envelopes_def ds(1,4) queued_state_def due_def blocks_def)
  have pre: "queue_endpoint_prerequisites e None ds = (None, ds)" for e
    by (simp add: queue_endpoint_prerequisites_def ds(3))
  have "t_keyed ev_envelope_id (ds_envelopes ds)" "\<forall>r \<in> set (ds_envelopes ds). queued_state r \<and> due 0 r \<longrightarrow>
      is_identifier Node (ev_destination_node_id r) \<and> may_send ds r" by (simp_all add: ds(1,2) t_keyed_def)
  from delivery_pass_delivers [OF pre quiet one [symmetric] this example_route_delivers, where e = "example_env 1"]
  obtain s rows where s: "process_pending_outbound_envelopes (example_env 1) example_route None None 0 ds = (None, s)"
    "set rows = due_rows 0 ds" "distinct rows" "dv_sent s = length rows"
    "dv_calls s = map (\<lambda>r. (ev_destination_node_id r, ev_encrypted_payload r)) rows"
    "rows_sent (ev_envelope_id ` set rows) ds (dv_store s)" by (auto simp: clock_ok_def)
  have "due_rows 0 ds = {example_queued}" using ds(4) by (auto simp: due_rows_def ds(1) queued_state_def due_def blocks_def)
  with s(2,3) have "rows = [example_queued]" by (cases rows; cases "tl rows") auto
  with s(1,4-6) have "process_pending_outbound_envelopes (example_env 1) example_route None None 0 ds = (None, s)" "dv_sent s = 1"
    "dv_calls s = [(format_identifier Node 2, ''data'')]" "rows_sent {''e''} ds (dv_store s)" by simp_all
  with ds(1) show ?thesis by (auto simp: rows_sent_def list_all2_Cons1)
qed

theorem delivery_state_machine_witness:
  "\<exists>ds ds'. ds_envelopes ds = [example_queued] \<and> queue_step\<^sup>*\<^sup>* ds ds' \<and> ev_state (ds_envelopes ds' ! 0) = ''sending'' \<and>
    row_move\<^sup>*\<^sup>* example_queued (ds_envelopes ds' ! 0) \<and> same_content example_queued (ds_envelopes ds' ! 0)"
proof -
  define ds where "ds = empty_datastore\<lparr>ds_envelopes := [example_queued]\<rparr>"
  define ds1 where "ds1 = snd (claim_outbound_envelope 0 ds ''e'')"
  define ds2 where "ds2 = snd (mark_envelope_sending ds1 ''e'')"
  have steps: "queue_step\<^sup>*\<^sup>* ds ds2" unfolding ds1_def ds2_def
    by (meson queue_step.claim queue_step.sending converse_rtranclp_into_rtranclp r_into_rtranclp)
  have "ev_state (ds_envelopes ds2 ! 0) = ''sending''"
    by (simp add: ds2_def ds1_def ds_def mark_envelope_sending_def claim_outbound_envelope_def update_envelopes_def queued_state_def due_def)
  with delivery_state_machine [OF steps, of 0] steps show ?thesis
    by (intro exI [of _ ds] exI [of _ ds2]) (simp add: ds_def)
qed

theorem peer_backoff_witness:
  "\<exists>ds' ds''. (''e'', format_identifier Node 2) \<in> set (deliverable_outbound_envelopes 3 ds') \<and>
    (''e'', format_identifier Node 2) \<notin> set (deliverable_outbound_envelopes 1000 ds'') \<and>
    (''e'', format_identifier Node 2) \<in> set (deliverable_outbound_envelopes 1000 (snd (resume_peer_delivery 1000 (format_identifier Node 2) ds'')))"
proof -
  obtain ds :: datastore where ds: "ds_envelopes ds = [example_queued]"
    "t_has tr_transaction_id (tx_transaction_id example_change) (ds_transactions ds)" by (rule example_queue)
  let ?n = "format_identifier Node 2" and ?r = "\<lambda>k. example_queued\<lparr>ev_attempt_count := k\<rparr>"
  let ?ds = "\<lambda>k. mark_peer_retry_pending 0 (?r k) ''offline'' ds"
  have q: "queued_to (?ds k) ?n ''e''" for k
    by (simp add: queued_to_def mark_peer_retry_pending_def Let_def update_envelopes_def ds queued_state_def)
  have "(''e'', ?n) \<in> set (deliverable_outbound_envelopes 3 (?ds 1))"
    using peer_backoff [OF _ _ _ refl q, where k = 1 and later = 3] by (simp add: clock_ok_def RETRY_MAX_SECONDS_def)
  moreover have "(''e'', ?n) \<notin> set (deliverable_outbound_envelopes 1000 (?ds 4)) \<and>
      (''e'', ?n) \<in> set (deliverable_outbound_envelopes 1000 (snd (resume_peer_delivery 1000 ?n (?ds 4))))"
    using peer_backoff [OF _ _ _ refl q, where k = 4 and later = 1000] by (simp add: clock_ok_def RETRY_MAX_SECONDS_def)
  ultimately show ?thesis by blast
qed

theorem delivery_schedule_not_late_witness:
  "\<exists>ds t. set (deliverable_outbound_envelopes 100 ds) \<noteq> {} \<and> next_outbound_attempt_at ds = Some t \<and> t \<le> now_utc_iso 100"
proof -
  obtain d :: datastore where d: "ds_envelopes d = [example_queued]"
    "t_has tr_transaction_id (tx_transaction_id example_change) (ds_transactions d)" by (rule example_queue)
  define r where "r = example_queued\<lparr>ev_state := ''retry_pending'', ev_next_attempt_at := Some (now_utc_iso 100)\<rparr>"
  define ds where "ds = d\<lparr>ds_envelopes := [r]\<rparr>"
  have quiet: "snd (recover_stale_inflight_envelopes 100 ds) = ds" "\<not> inflight_state r"
    by (simp_all add: recover_stale_inflight_envelopes_def update_envelopes_def ds_def r_def inflight_state_def)
  have x: "(''e'', format_identifier Node 2) \<in> set (deliverable_outbound_envelopes 100 ds)"
    unfolding deliverable_iff using d(2) by (simp add: ds_def r_def queued_state_def due_def blocks_def)
  have "\<forall>r \<in> set (ds_envelopes ds). inflight_state r \<longrightarrow> (\<exists>t. ev_claimed_at r = Some (utc_iso t) \<and> clock_ok (t + 60))"
    using quiet(2) by (simp add: ds_def)
  from delivery_schedule_not_late [OF this, where clock = 100, unfolded quiet, OF x]
  obtain t where "next_outbound_attempt_at ds = Some t" "t \<le> now_utc_iso 100" by (auto simp: ds_def r_def clock_ok_def)
  with x show ?thesis by (intro exI [of _ ds] exI [of _ t]) auto
qed

end
