(* ===== verification/Kit_Metadata.thy ===== *)
theory Kit_Metadata
  imports Kit_Engine
begin

section \<open>Entry metadata\<close>

text \<open>
  \<open>models.py\<close> (the metadata record of a secret and the checks of its fields), \<open>internal_metadata.py\<close>,
  \<open>system_objects.py\<close> (reserved locators), \<open>schemas/identifiers.py\<close> and the host scope that \<open>host_context.py\<close> keeps in the
  datastore. As everywhere, letter case and blanks are those of ASCII, and JSON numbers are integers.
\<close>

subsection \<open>Python's \<open>str\<close> of a JSON value\<close>

text \<open>\<open>repr\<close> of a text: single quotes unless only they occur in it; characters beyond ASCII count as printable.\<close>

definition hex2 :: "char \<Rightarrow> string" where
  "hex2 c = bytes_to_hex [c]"

definition repr_char :: "char \<Rightarrow> char \<Rightarrow> string" where
  "repr_char quote c =
     (let n = (of_char c :: nat) in
      if c = quote \<or> n = 92 then [CHR 0x5C, c]
      else if n = 10 then [CHR 0x5C, CHR ''n''] else if n = 13 then [CHR 0x5C, CHR ''r'']
      else if n = 9 then [CHR 0x5C, CHR ''t'']
      else if n < 32 \<or> n = 127 then [CHR 0x5C, CHR ''x''] @ hex2 c else [c])"

definition repr_text :: "string \<Rightarrow> string" where
  "repr_text s =
     (let quote = (if CHR 0x27 \<in> set s \<and> CHR 0x22 \<notin> set s then CHR 0x22 else CHR 0x27)
      in quote # concat (map (repr_char quote) s) @ [quote])"

fun py_repr :: "json \<Rightarrow> string" where
  "py_repr JNull = ''None''"
| "py_repr (JBool b) = (if b then ''True'' else ''False'')"
| "py_repr (JInt i) = dec_of_int i"
| "py_repr (JStr s) = repr_text s"
| "py_repr (JList js) = ''['' @ join_with '', '' (map py_repr js) @ '']''"
| "py_repr (JObj kvs) = ''{'' @ join_with '', '' (map (\<lambda>(k, v). repr_text k @ '': '' @ py_repr v) kvs) @ ''}''"

definition py_str :: "json \<Rightarrow> string" where
  "py_str j = (case j of JStr s \<Rightarrow> s | _ \<Rightarrow> py_repr j)"

subsection \<open>The metadata record\<close>

definition METADATA_SCHEMA_VERSION :: int where
  "METADATA_SCHEMA_VERSION = 1"

record EntryMetadata =
  em_name :: string
  em_entry_type :: string
  em_entry_kind :: string
  em_tags :: "string list"
  em_comment :: string
  em_service :: string
  em_account :: string
  em_entry_id :: string
  em_sync_origin_host :: string
  em_created_at :: string
  em_updated_at :: string
  em_source :: string
  em_schema_id :: string
  em_schema_version :: int
  em_source_url :: string
  em_source_label :: string
  em_rotation_days :: "int option"
  em_rotation_warn_days :: "int option"
  em_last_rotated_at :: string
  em_expires_at :: string
  em_domains :: "string list"
  em_custom :: json_obj

text \<open>\<open>EntryMetadata(name=..., service=..., account=..., source=...)\<close> with every other field at its default.\<close>

definition new_metadata :: "string \<Rightarrow> string \<Rightarrow> string \<Rightarrow> string \<Rightarrow> string \<Rightarrow> EntryMetadata" where
  "new_metadata now name service account source =
     \<lparr>em_name = name, em_entry_type = ''secret'', em_entry_kind = ''generic'', em_tags = [], em_comment = [],
      em_service = service, em_account = account, em_entry_id = [], em_sync_origin_host = [], em_created_at = now,
      em_updated_at = now, em_source = source, em_schema_id = [], em_schema_version = METADATA_SCHEMA_VERSION,
      em_source_url = [], em_source_label = [], em_rotation_days = None, em_rotation_warn_days = None,
      em_last_rotated_at = [], em_expires_at = [], em_domains = [], em_custom = []\<rparr>"

definition make_registry_key :: "string \<Rightarrow> string \<Rightarrow> string \<Rightarrow> string" where
  "make_registry_key service account name = service @ ''::'' @ account @ ''::'' @ name"

definition metadata_key :: "EntryMetadata \<Rightarrow> string" where
  "metadata_key m = make_registry_key (em_service m) (em_account m) (em_name m)"

subsection \<open>Field checks\<close>

definition key_char :: "char \<Rightarrow> bool" where
  "key_char c \<longleftrightarrow> is_upper c \<or> is_digit c \<or> c = CHR ''_''"

definition validate_key_name :: "string \<Rightarrow> string res" where
  "validate_key_name name =
     (let stripped = strip name in
      if stripped = [] then Inl (ValidationError ''name cannot be empty'')
      else if \<not> list_all key_char stripped
      then Inl (ValidationError (''invalid key name: '' @ name))
      else Inr stripped)"

definition validate_entry_type :: "string \<Rightarrow> string res" where
  "validate_entry_type entry_type =
     (if entry_type \<in> {''secret'', ''pii''} then Inr entry_type
      else Inl (ValidationError ''type must be one of: secret, pii''))"

definition ENTRY_KIND_VALUES :: "string list" where
  "ENTRY_KIND_VALUES =
     [''generic'', ''token'', ''password'', ''user_id'', ''api_key'', ''email'', ''phone'', ''address'', ''credit_card'',
      ''wallet'', ''pii_other'']"

definition validate_entry_kind :: "string \<Rightarrow> string res" where
  "validate_entry_kind entry_kind =
     (if entry_kind \<in> set ENTRY_KIND_VALUES then Inr entry_kind
      else Inl (ValidationError ''kind must be one of: ''))"

definition infer_entry_kind_from_name :: "string \<Rightarrow> string" where
  "infer_entry_kind_from_name name =
     (let u = upper name; has = (\<lambda>s. has_substring s u); ends = (\<lambda>s. ends_with s u) in
      if has ''TOKEN'' then ''token''
      else if has ''PASSWORD'' \<or> has ''PASSWD'' \<or> ends ''_PWD'' then ''password''
      else if has ''USER_ID'' \<or> ends ''_UID'' \<or> ends ''_USER'' then ''user_id''
      else if has ''API_KEY'' \<or> ends ''_KEY'' then ''api_key''
      else if has ''EMAIL'' then ''email''
      else if has ''PHONE'' \<or> has ''MOBILE'' then ''phone''
      else if has ''ADDRESS'' \<or> has ''ADDR'' then ''address''
      else if has ''CREDIT_CARD'' \<or> has ''CARD_NUMBER'' \<or> has ''PAN'' then ''credit_card''
      else if has ''WALLET'' \<or> has ''SEED_PHRASE'' \<or> has ''PRIVATE_KEY'' then ''wallet''
      else ''generic'')"

definition sorted_nonblank :: "string list \<Rightarrow> string list" where
  "sorted_nonblank items = sorted_list_of_set (set (filter (\<lambda>s. s \<noteq> []) (map strip items)))"

definition normalize_tags :: "string option \<Rightarrow> string list option \<Rightarrow> string list" where
  "normalize_tags tags_csv tags =
     sorted_nonblank ((if truthy tags_csv then split_on CHR '','' (the tags_csv) else []) @
                      (case tags of None \<Rightarrow> [] | Some ts \<Rightarrow> ts))"

definition normalize_domains :: "json option \<Rightarrow> string list" where
  "normalize_domains raw =
     (case raw of
        Some (JStr s) \<Rightarrow> sorted_nonblank (split_on CHR '','' s)
      | Some (JList js) \<Rightarrow> sorted_nonblank (map py_str js)
      | _ \<Rightarrow> [])"

definition normalize_custom :: "json option \<Rightarrow> json_obj" where
  "normalize_custom raw = (case raw of Some (JObj kvs) \<Rightarrow> kvs | _ \<Rightarrow> [])"

subsection \<open>Reserved names\<close>

definition ENTRY_ID_CUSTOM_KEY :: string where
  "ENTRY_ID_CUSTOM_KEY = ''seckit_entry_id''"

definition SYNC_ORIGIN_CUSTOM_KEY :: string where
  "SYNC_ORIGIN_CUSTOM_KEY = ''seckit_sync_origin_host''"

definition is_internal_custom_field :: "string \<Rightarrow> bool" where
  "is_internal_custom_field field_name \<longleftrightarrow> field_name \<in> {ENTRY_ID_CUSTOM_KEY, SYNC_ORIGIN_CUSTOM_KEY}"

definition is_reserved_custom_field :: "string \<Rightarrow> bool" where
  "is_reserved_custom_field field_name \<longleftrightarrow> starts_with ''seckit_'' field_name"

datatype SystemObjectKind = SCHEMA_REGISTRY | TAXONOMY_REGISTRY | NODE_IDENTITY

definition kind_value :: "SystemObjectKind \<Rightarrow> string" where
  "kind_value k = (case k of SCHEMA_REGISTRY \<Rightarrow> ''schema_registry'' | TAXONOMY_REGISTRY \<Rightarrow> ''taxonomy_registry''
     | NODE_IDENTITY \<Rightarrow> ''node_identity'')"

definition SYSTEM_SERVICE :: string where
  "SYSTEM_SERVICE = ''seckit''"

definition SYSTEM_ACCOUNT :: string where
  "SYSTEM_ACCOUNT = ''__system__''"

definition system_object_id :: "SystemObjectKind \<Rightarrow> string" where
  "system_object_id k = ''system:'' @ kind_value k"

definition system_secret_name :: "SystemObjectKind \<Rightarrow> string" where
  "system_secret_name k = ''__'' @ kind_value k @ ''__''"

definition locator_for_kind :: "SystemObjectKind \<Rightarrow> string \<times> string \<times> string" where
  "locator_for_kind k = (SYSTEM_SERVICE, SYSTEM_ACCOUNT, system_secret_name k)"

definition is_system_locator :: "string \<Rightarrow> string \<Rightarrow> string \<Rightarrow> bool" where
  "is_system_locator service account name \<longleftrightarrow>
     service = SYSTEM_SERVICE \<and> account = SYSTEM_ACCOUNT \<and> starts_with ''__'' name \<and> ends_with ''__'' name"

definition kind_from_locator :: "string \<Rightarrow> string \<Rightarrow> string \<Rightarrow> SystemObjectKind option" where
  "kind_from_locator service account name =
     (if \<not> is_system_locator service account name then None
      else find (\<lambda>k. kind_value k = strip_by (\<lambda>c. c = CHR ''_'') name) [SCHEMA_REGISTRY, TAXONOMY_REGISTRY, NODE_IDENTITY])"

definition is_operator_locator :: "string \<Rightarrow> string \<Rightarrow> string \<Rightarrow> bool" where
  "is_operator_locator service account name \<longleftrightarrow> \<not> is_system_locator service account name"

definition is_operator_metadata :: "EntryMetadata \<Rightarrow> bool" where
  "is_operator_metadata m \<longleftrightarrow> is_operator_locator (em_service m) (em_account m) (em_name m)"

definition schema_id_for_name :: "string \<Rightarrow> string res" where
  "schema_id_for_name name = deterministic_identifier Schema ''schema'' name"

subsection \<open>Host scope\<close>

definition HOST_MEMBERSHIP_KEY :: string where
  "HOST_MEMBERSHIP_KEY = ''host_context_v1''"

text \<open>\<open>str(mapping[field])\<close>\<close>

definition str_member :: "json_obj \<Rightarrow> string \<Rightarrow> string res" where
  "str_member membership field =
     (case map_of membership field of None \<Rightarrow> Inl (KeyError field) | Some v \<Rightarrow> Inr (py_str v))"

definition local_host_scope :: "datastore \<Rightarrow> (string option \<times> string option \<times> string option) res" where
  "local_host_scope ds =
     (case map_of (ds_metadata ds) HOST_MEMBERSHIP_KEY of
        None \<Rightarrow> Inr (None, None, None)
      | Some text \<Rightarrow>
          (case json_loads text of
             None \<Rightarrow> Inl (ValueError ''invalid JSON'')
           | Some (JObj membership) \<Rightarrow>
               rbind (str_member membership ''organization_id'') (\<lambda>organization_id.
               rbind (str_member membership ''client_id'') (\<lambda>client_id.
               rbind (str_member membership ''principal_owner_id'') (\<lambda>principal_owner_id.
                 Inr (Some organization_id, Some client_id, Some principal_owner_id))))
           | Some _ \<Rightarrow> Inl (TypeError ''membership'')))"

text \<open>\<open>except (sqlite3.Error, SQLiteValidationError) as exc: raise SQLiteBackendError(str(exc))\<close> around every submission.\<close>

definition backend_error :: "py_error \<Rightarrow> py_error" where
  "backend_error x = (case x of IntegrityError m \<Rightarrow> SQLiteBackendError m | SQLiteValidationError m \<Rightarrow> SQLiteBackendError m | _ \<Rightarrow> x)"

end
