(* ===== verification/Kit_Secrets.thy ===== *)
theory Kit_Secrets
  imports Kit_Metadata "HOL-Library.Product_Lexorder"
begin

section \<open>The secret store\<close>

text \<open>
  \<open>backends/sqlite/secrets_api.py\<close>: setting, importing, reading, listing, deleting and sharing secrets. A write builds the
  parent rows of a local secret, emits the two vocabulary transactions and the transaction of the secret, and submits
  them to the engine, all in one SQLite transaction; a read joins the projection tables. The connection is the
  datastore argument and result; \<open>entropy\<close> is the randomness of the new transaction identifiers.
\<close>

subsection \<open>Identifiers and digests\<close>

definition deterministic_name :: "string list \<Rightarrow> string" where
  "deterministic_name parts = join_with NUL parts"

definition secret_id_for :: "string \<Rightarrow> string \<Rightarrow> string \<Rightarrow> string res" where
  "secret_id_for service account name = deterministic_identifier Secret ''sqlite.secret'' (deterministic_name [service, account, name])"

definition owner_id_for :: "string \<Rightarrow> string res" where
  "owner_id_for account = deterministic_identifier Owner ''sqlite.owner'' (deterministic_name [account])"

definition service_group_id_for :: "string \<Rightarrow> string \<Rightarrow> string res" where
  "service_group_id_for account service =
     deterministic_identifier Service_group ''sqlite.service_group'' (deterministic_name [account, service])"

definition new_transaction_id :: "bytes \<Rightarrow> string" where
  "new_transaction_id entropy = random_identifier IdentifierType.Transaction entropy"

definition digest_bytes :: "string list \<Rightarrow> bytes" where
  "digest_bytes parts = sha256 (deterministic_name parts)"

definition payload_schema_id :: "string \<Rightarrow> string option res" where
  "payload_schema_id schema_id =
     (if schema_id = [] then Inr None
      else (case validate_identifier schema_id Schema ''schema_id'' of
              Inr v \<Rightarrow> Inr (Some v)
            | Inl _ \<Rightarrow> rbind (schema_id_for_name schema_id) (\<lambda>v. Inr (Some v))))"

subsection \<open>Payloads\<close>

definition json_texts :: "string list \<Rightarrow> json" where
  "json_texts ss = JList (map JStr ss)"

definition json_int_opt :: "int option \<Rightarrow> json" where
  "json_int_opt i = (case i of None \<Rightarrow> JNull | Some v \<Rightarrow> JInt v)"

definition payload_custom :: "EntryMetadata \<Rightarrow> json_obj" where
  "payload_custom m =
     (let c0 = dict_pop SYNC_ORIGIN_CUSTOM_KEY (dict_pop ENTRY_ID_CUSTOM_KEY (em_custom m));
          c1 = (if em_entry_id m \<noteq> [] then dict_set ENTRY_ID_CUSTOM_KEY (JStr (em_entry_id m)) c0 else c0)
      in if em_sync_origin_host m \<noteq> [] then dict_set SYNC_ORIGIN_CUSTOM_KEY (JStr (em_sync_origin_host m)) c1 else c1)"

definition metadata_payload_fields :: "EntryMetadata \<Rightarrow> json_obj" where
  "metadata_payload_fields m =
     [(''tags'', json_texts (em_tags m)), (''source'', JStr (em_source m)), (''comment'', JStr (em_comment m)),
      (''source_url'', JStr (em_source_url m)), (''source_label'', JStr (em_source_label m)),
      (''rotation_days'', json_int_opt (em_rotation_days m)), (''rotation_warn_days'', json_int_opt (em_rotation_warn_days m)),
      (''last_rotated_at'', JStr (em_last_rotated_at m)), (''expires_at'', JStr (em_expires_at m)),
      (''domains'', json_texts (em_domains m)), (''custom'', JObj (payload_custom m))]"

text \<open>The members both payloads begin with.\<close>

definition payload_head :: "string \<Rightarrow> string \<Rightarrow> string \<Rightarrow> EntryMetadata \<Rightarrow> json_obj res" where
  "payload_head service account name m =
     rbind (secret_id_for service account name) (\<lambda>secret_id.
     rbind (owner_id_for account) (\<lambda>owner_id.
     rbind (service_group_id_for account service) (\<lambda>service_group_id.
     rbind (payload_schema_id (em_schema_id m)) (\<lambda>schema_id.
       Inr ([(''secret_id'', JStr secret_id), (''owner_id'', JStr owner_id), (''service_group_id'', JStr service_group_id),
             (''entry_type'', JStr (em_entry_type m)), (''entry_kind'', JStr (em_entry_kind m)),
             (''schema_id'', (case schema_id of None \<Rightarrow> JNull | Some s \<Rightarrow> JStr s)),
             (''schema_version'', JInt (em_schema_version m)), (''service'', JStr service), (''account'', JStr account)] @
            metadata_payload_fields m @
            [(''locator_hash_b64'', JStr (b64encode (digest_bytes [''locator'', service, account, name])))])))))"

definition encrypted_b64 :: "peer_env \<Rightarrow> string \<Rightarrow> string \<Rightarrow> bytes \<Rightarrow> string \<Rightarrow> json res" where
  "encrypted_b64 e transaction_id mode plaintext field =
     rbind (encrypt_payload (h_aead (pe_host e)) (h_storage_key (pe_host e)) (pe_nonce e (transaction_id @ field)) plaintext field mode)
       (\<lambda>stored. Inr (JStr (b64encode stored)))"

definition set_payload ::
  "peer_env \<Rightarrow> string \<Rightarrow> string \<Rightarrow> string \<Rightarrow> string \<Rightarrow> string \<Rightarrow> EntryMetadata \<Rightarrow> string \<Rightarrow> json_obj res" where
  "set_payload e transaction_id service account name value_text m mode =
     rbind (payload_head service account name m) (\<lambda>head.
     rbind (encrypted_b64 e transaction_id mode name ''encrypted_name'') (\<lambda>encrypted_name.
     rbind (encrypted_b64 e transaction_id mode value_text ''encrypted_payload'') (\<lambda>encrypted_payload.
       Inr (head @
            [(''encrypted_name_b64'', encrypted_name), (''encrypted_payload_b64'', encrypted_payload),
             (''content_hash_b64'', JStr (b64encode (sha256 value_text))),
             (''projection_created_at'', JStr (em_created_at m)), (''projection_updated_at'', JStr (em_updated_at m))]))))"

definition delete_payload ::
  "peer_env \<Rightarrow> string \<Rightarrow> string \<Rightarrow> string \<Rightarrow> string \<Rightarrow> EntryMetadata \<Rightarrow> string \<Rightarrow> json_obj res" where
  "delete_payload e transaction_id service account name m mode =
     rbind (payload_head service account name m) (\<lambda>head.
     rbind (encrypted_b64 e transaction_id mode name ''encrypted_name'') (\<lambda>encrypted_name.
       Inr (head @
            [(''encrypted_name_b64'', encrypted_name),
             (''content_hash_b64'', JStr (b64encode (digest_bytes [''deleted'', service, account, name]))),
             (''projection_updated_at'', JStr (h_now (pe_host e)))])))"

subsection \<open>Reading\<close>

definition nocase :: "string \<Rightarrow> string" where
  "nocase s = lower s"

text \<open>The row of a secret joined with the names of its type and kind.\<close>

type_synonym joined_row = "secret_row \<times> string \<times> string"

definition join_vocabulary :: "datastore \<Rightarrow> secret_row \<Rightarrow> joined_row option" where
  "join_vocabulary ds r =
     (case (t_get vo_id (sc_entry_type_id r) (ds_entry_types ds), t_get vo_id (sc_entry_kind_id r) (ds_entry_kinds ds)) of
        (Some ty, Some kind) \<Rightarrow> Some (r, vo_name ty, vo_name kind)
      | _ \<Rightarrow> None)"

definition find_active_secret :: "datastore \<Rightarrow> string \<Rightarrow> joined_row option" where
  "find_active_secret ds secret_id =
     (case t_get sc_secret_id secret_id (ds_secrets ds) of
        None \<Rightarrow> None
      | Some r \<Rightarrow> if sc_state r = ''active'' then join_vocabulary ds r else None)"

definition active_secret_row :: "datastore \<Rightarrow> string \<Rightarrow> string \<Rightarrow> string \<Rightarrow> joined_row res" where
  "active_secret_row ds service account name =
     rbind (secret_id_for service account name) (\<lambda>secret_id.
       case find_active_secret ds secret_id of
         None \<Rightarrow> Inl (SQLiteBackendError (''entry not found: '' @ make_registry_key service account name))
       | Some row \<Rightarrow> Inr row)"

definition tags_for_secret :: "datastore \<Rightarrow> string \<Rightarrow> string list" where
  "tags_for_secret ds secret_id =
     sort_key nocase (List.map_filter (\<lambda>a. map_option tg_name (t_get tg_tag_id (si_key a) (ds_tags ds)))
       (filter (\<lambda>a. si_secret_id a = secret_id) (ds_tag_assignments ds)))"

definition domains_for_secret :: "datastore \<Rightarrow> string \<Rightarrow> string list" where
  "domains_for_secret ds secret_id =
     sort_key nocase (map si_key (filter (\<lambda>d. si_secret_id d = secret_id) (ds_domains ds)))"

definition custom_for_secret :: "datastore \<Rightarrow> string \<Rightarrow> json_obj res" where
  "custom_for_secret ds secret_id =
     rmapM (\<lambda>r. case json_loads (si_value r) of
          None \<Rightarrow> Inl (SQLiteBackendError ''SQLite projection custom metadata is invalid JSON'')
        | Some v \<Rightarrow> Inr (si_key r, v))
       (sort_key (\<lambda>r. nocase (si_key r)) (filter (\<lambda>r. si_secret_id r = secret_id) (ds_custom ds)))"

definition custom_text :: "string \<Rightarrow> json_obj \<Rightarrow> string" where
  "custom_text key custom = (case map_of custom key of None \<Rightarrow> [] | Some v \<Rightarrow> py_str v)"

definition metadata_from_row :: "datastore \<Rightarrow> joined_row \<Rightarrow> EntryMetadata res" where
  "metadata_from_row ds row =
     (case row of (r, entry_type, entry_kind) \<Rightarrow>
        rbind (custom_for_secret ds (sc_secret_id r)) (\<lambda>custom.
          Inr \<lparr>em_name = sc_name r, em_entry_type = entry_type, em_entry_kind = entry_kind,
               em_tags = tags_for_secret ds (sc_secret_id r), em_comment = sc_comment r, em_service = sc_service r,
               em_account = sc_account r, em_entry_id = custom_text ENTRY_ID_CUSTOM_KEY custom,
               em_sync_origin_host = custom_text SYNC_ORIGIN_CUSTOM_KEY (dict_pop ENTRY_ID_CUSTOM_KEY custom),
               em_created_at = sc_created_at r, em_updated_at = sc_updated_at r,
               em_source = (if sc_source r = [] then ''manual'' else sc_source r), em_schema_id = or_empty (sc_schema_id r),
               em_schema_version = (case sc_schema_version r of None \<Rightarrow> METADATA_SCHEMA_VERSION | Some v \<Rightarrow> v),
               em_source_url = sc_source_url r, em_source_label = sc_source_label r, em_rotation_days = sc_rotation_days r,
               em_rotation_warn_days = sc_rotation_warn_days r, em_last_rotated_at = sc_last_rotated_at r,
               em_expires_at = sc_expires_at r, em_domains = domains_for_secret ds (sc_secret_id r),
               em_custom = dict_pop SYNC_ORIGIN_CUSTOM_KEY (dict_pop ENTRY_ID_CUSTOM_KEY custom)\<rparr>))"

definition decode_text_payload :: "host \<Rightarrow> bytes \<Rightarrow> string \<Rightarrow> string \<Rightarrow> string res" where
  "decode_text_payload h stored field mode =
     (case decrypt_payload (h_aead h) (h_storage_key h) stored field mode of
        Inl (ValueError _) \<Rightarrow> Inl (SQLiteBackendError (''SQLite projection '' @ field @ '' cannot be decrypted''))
      | Inl x \<Rightarrow> Inl x
      | Inr plaintext \<Rightarrow>
          (case utf8_decode plaintext of
             None \<Rightarrow> Inl (SQLiteBackendError (''SQLite projection '' @ field @ '' is not UTF-8 text''))
           | Some s \<Rightarrow> Inr s))"

definition get_sqlite_secret :: "host \<Rightarrow> datastore \<Rightarrow> string \<Rightarrow> string \<Rightarrow> string \<Rightarrow> string res" where
  "get_sqlite_secret h ds service account name =
     rbind (read_sqlite_storage_mode ds) (\<lambda>mode.
     rbind (active_secret_row ds service account name) (\<lambda>row.
       decode_text_payload h (sc_encrypted_payload (fst row)) ''encrypted_payload'' mode))"

definition get_sqlite_metadata :: "datastore \<Rightarrow> string \<Rightarrow> string \<Rightarrow> string \<Rightarrow> EntryMetadata res" where
  "get_sqlite_metadata ds service account name = rbind (active_secret_row ds service account name) (metadata_from_row ds)"

definition get_sqlite_secret_entry :: "host \<Rightarrow> datastore \<Rightarrow> string \<Rightarrow> string \<Rightarrow> string \<Rightarrow> (string \<times> EntryMetadata) res" where
  "get_sqlite_secret_entry h ds service account name =
     rbind (read_sqlite_storage_mode ds) (\<lambda>mode.
     rbind (active_secret_row ds service account name) (\<lambda>row.
     rbind (decode_text_payload h (sc_encrypted_payload (fst row)) ''encrypted_payload'' mode) (\<lambda>v.
     rbind (metadata_from_row ds row) (\<lambda>m. Inr (v, m)))))"

definition sqlite_secret_exists :: "datastore \<Rightarrow> string \<Rightarrow> string \<Rightarrow> string \<Rightarrow> bool res" where
  "sqlite_secret_exists ds service account name =
     rbind (secret_id_for service account name) (\<lambda>secret_id. Inr (find_active_secret ds secret_id \<noteq> None))"

definition list_active_sqlite_metadata :: "datastore \<Rightarrow> string option \<Rightarrow> string option \<Rightarrow> EntryMetadata list res" where
  "list_active_sqlite_metadata ds service account =
     rbind (rmapM (metadata_from_row ds) (List.map_filter (join_vocabulary ds)
       (sort_key (\<lambda>r. (sc_service r, sc_account r, sc_name r))
         (filter (\<lambda>r. sc_state r = ''active'' \<and> (truthy service \<longrightarrow> sc_service r = the service) \<and>
              (truthy account \<longrightarrow> sc_account r = the account)) (ds_secrets ds))))) (\<lambda>entries.
       Inr (sort_key (\<lambda>m. (em_service m, em_account m, em_name m)) (filter is_operator_metadata entries)))"

subsection \<open>Writing\<close>

definition local_origin_node_id :: "datastore \<Rightarrow> string res" where
  "local_origin_node_id ds =
     rbind (load_local_node_projection ds) (\<lambda>p.
       Inr (case p of None \<Rightarrow> LOCAL_FALLBACK_NODE_ID | Some l \<Rightarrow> ln_node_id l))"

definition local_node_row :: "string \<Rightarrow> string \<Rightarrow> node_row" where
  "local_node_row node_id peer_group_id =
     (blank_node node_id peer_group_id)\<lparr>nd_signing_public_key := Some zero_key, nd_signing_algorithm := Some ''ed25519'',
       nd_encryption_public_key := Some zero_key, nd_encryption_algorithm := Some ''x25519'', nd_state := Some ''active''\<rparr>"

text \<open>\<open>INSERT OR IGNORE\<close> does not ignore a missing parent: the client of the owner may be unknown.\<close>

definition ensure_local_projection_parents :: "datastore \<Rightarrow> string \<Rightarrow> string \<Rightarrow> datastore res" where
  "ensure_local_projection_parents ds account service =
     rbind (local_origin_node_id ds) (\<lambda>node_id.
     rbind (local_peer_group_id_for_node node_id) (\<lambda>peer_group_id.
     rbind (local_host_scope ds) (\<lambda>scope.
     rbind (owner_id_for account) (\<lambda>owner_id.
     let ds1 = support_client (LOCAL_CLIENT_ID, LOCAL_ORGANIZATION_ID) ds;
         client = or_default (fst (snd scope)) LOCAL_CLIENT_ID in
     if \<not> t_has ow_owner_id owner_id (ds_owners ds1) \<and> \<not> t_has cl_client_id client (ds_clients ds1) then Inl fk_failed
     else
       rbind (local_peer_group_display_name peer_group_id) (\<lambda>name.
       rbind (service_group_id_for account service) (\<lambda>service_group_id.
         Inr (support_service_group (service_group_id, owner_id)
           (ds1\<lparr>ds_owners := t_insert_ignore ow_owner_id \<lparr>ow_owner_id = owner_id, ow_client_id = client\<rparr> (ds_owners ds1),
                ds_peer_groups := t_insert_ignore pg_peer_group_id \<lparr>pg_peer_group_id = peer_group_id, pg_name = Some name\<rparr>
                  (ds_peer_groups ds1),
                ds_nodes := t_insert_ignore nd_node_id (local_node_row node_id peer_group_id) (ds_nodes ds1)\<rparr>))))))))"

text \<open>\<open>create_transaction\<close> as the store calls it.\<close>

definition local_transaction :: "peer_env \<Rightarrow> datastore \<Rightarrow> string \<Rightarrow> string \<Rightarrow> string \<Rightarrow> json_obj \<Rightarrow> Transaction res" where
  "local_transaction e ds origin_node_id transaction_id ty payload =
     rbind (local_host_scope ds) (\<lambda>(organization_id, client_id, principal_owner_id).
       create_transaction
         \<lparr>tx_transaction_id = transaction_id, tx_transaction_type = ty, tx_payload = payload, tx_payload_hash = [],
          tx_transaction_version = 1, tx_payload_version = 1, tx_protocol_version = 1, tx_organization_id = organization_id,
          tx_client_id = client_id, tx_owner_id = principal_owner_id, tx_origin_node_id = Some origin_node_id,
          tx_previous_transaction_id = None, tx_signature = None, tx_state = ''pending'',
          tx_created_at = Some (h_now (pe_host e)), tx_received_at = None, tx_applied_at = None,
          tx_acknowledged_at = None, tx_cleared_at = None\<rparr>)"

definition submit_local ::
  "peer_env \<Rightarrow> TransactionSubmissionPolicy \<Rightarrow> string \<Rightarrow> string \<Rightarrow> string \<Rightarrow> json_obj \<Rightarrow> datastore \<Rightarrow> datastore res" where
  "submit_local e policy origin_node_id transaction_id ty payload ds =
     rbind (local_transaction e ds origin_node_id transaction_id ty payload) (\<lambda>t.
     rbind (submit_transaction e ds t policy) (\<lambda>r. Inr (snd r)))"

definition emit_vocabulary_transactions_for_metadata ::
  "peer_env \<Rightarrow> bytes \<times> bytes \<Rightarrow> datastore \<Rightarrow> EntryMetadata \<Rightarrow> TransactionSubmissionPolicy \<Rightarrow> datastore res" where
  "emit_vocabulary_transactions_for_metadata e entropy ds m policy =
     rbind (local_origin_node_id ds) (\<lambda>origin_node_id.
     rbind (entry_type_id_for_name (em_entry_type m) False) (\<lambda>type_id.
     rbind (entry_kind_id_for_name (em_entry_kind m) False) (\<lambda>kind_id.
     rbind (submit_local e policy origin_node_id (new_transaction_id (fst entropy)) ''vocabulary.entry_type.upsert''
              (vocabulary_entry_type_payload type_id (em_entry_type m) []) ds) (\<lambda>ds1.
       submit_local e policy origin_node_id (new_transaction_id (snd entropy)) ''vocabulary.entry_kind.upsert''
         (vocabulary_entry_kind_payload kind_id (em_entry_kind m) []) ds1))))"

text \<open>\<open>json_extract(payload, '$.secret_id')\<close> of a logged payload.\<close>

definition row_secret_id :: "transaction_row \<Rightarrow> string option" where
  "row_secret_id r =
     (case load_canonical_json (tr_payload r) of
        Inr p \<Rightarrow> (case map_of p ''secret_id'' of Some (JStr s) \<Rightarrow> Some s | _ \<Rightarrow> None)
      | Inl _ \<Rightarrow> None)"

definition secret_history :: "datastore \<Rightarrow> string \<Rightarrow> transaction_row list" where
  "secret_history ds secret_id =
     filter (\<lambda>r. tr_transaction_type r \<in> {''secret.set'', ''secret.delete''} \<and> row_secret_id r = Some secret_id) (ds_transactions ds)"

definition refuse_existing_secret :: "datastore \<Rightarrow> string \<Rightarrow> string \<Rightarrow> string \<Rightarrow> unit res" where
  "refuse_existing_secret ds service account name =
     rbind (secret_id_for service account name) (\<lambda>secret_id.
       rguard (\<not> t_has sc_secret_id secret_id (ds_secrets ds) \<and> secret_history ds secret_id = [])
         (SQLiteBackendError ''migration target already exists''))"

definition store_secret ::
  "peer_env \<Rightarrow> bytes \<times> bytes \<times> bytes \<Rightarrow> datastore \<Rightarrow> string \<Rightarrow> string \<Rightarrow> string \<Rightarrow> string \<Rightarrow> EntryMetadata
    \<Rightarrow> TransactionSubmissionPolicy \<Rightarrow> bool \<Rightarrow> datastore res" where
  "store_secret e entropy ds service account name value_text m policy refuse_existing =
     rmap_error backend_error
       (rbind (read_sqlite_storage_mode ds) (\<lambda>mode.
        rbind (if refuse_existing then refuse_existing_secret ds service account name else Inr ()) (\<lambda>_.
        rbind (ensure_local_projection_parents ds account service) (\<lambda>ds1.
        rbind (local_origin_node_id ds1) (\<lambda>origin_node_id.
        rbind (emit_vocabulary_transactions_for_metadata e (fst entropy, fst (snd entropy)) ds1 m policy) (\<lambda>ds2.
        let transaction_id = new_transaction_id (snd (snd entropy)) in
        rbind (set_payload e transaction_id service account name value_text m mode) (\<lambda>payload.
          submit_local e policy origin_node_id transaction_id ''secret.set'' payload ds2)))))))"

definition set_sqlite_secret ::
  "peer_env \<Rightarrow> bytes \<times> bytes \<times> bytes \<Rightarrow> datastore \<Rightarrow> string \<Rightarrow> string \<Rightarrow> string \<Rightarrow> string \<Rightarrow> EntryMetadata \<Rightarrow> datastore res" where
  "set_sqlite_secret e entropy ds service account name value_text m =
     store_secret e entropy ds service account name value_text m LOCAL_TRANSACTION_POLICY False"

definition import_sqlite_secret_local ::
  "peer_env \<Rightarrow> bytes \<times> bytes \<times> bytes \<Rightarrow> datastore \<Rightarrow> string \<Rightarrow> string \<Rightarrow> string \<Rightarrow> string \<Rightarrow> EntryMetadata \<Rightarrow> datastore res" where
  "import_sqlite_secret_local e entropy ds service account name value_text m =
     store_secret e entropy ds service account name value_text m RESTORE_TRANSACTION_POLICY True"

definition import_sqlite_secret_for_sync ::
  "peer_env \<Rightarrow> bytes \<times> bytes \<times> bytes \<Rightarrow> datastore \<Rightarrow> string \<Rightarrow> string \<Rightarrow> string \<Rightarrow> string \<Rightarrow> EntryMetadata \<Rightarrow> datastore res" where
  "import_sqlite_secret_for_sync e entropy ds service account name value_text m =
     store_secret e entropy ds service account name value_text m LOCAL_TRANSACTION_POLICY True"

definition delete_sqlite_secret ::
  "peer_env \<Rightarrow> bytes \<Rightarrow> datastore \<Rightarrow> string \<Rightarrow> string \<Rightarrow> string \<Rightarrow> datastore res" where
  "delete_sqlite_secret e entropy ds service account name =
     rmap_error backend_error
       (rbind (read_sqlite_storage_mode ds) (\<lambda>mode.
        rbind (ensure_local_projection_parents ds account service) (\<lambda>ds1.
        rbind (local_origin_node_id ds1) (\<lambda>origin_node_id.
        rbind (local_host_scope ds1) (\<lambda>_.
        rbind (active_secret_row ds1 service account name) (\<lambda>row.
        rbind (metadata_from_row ds1 row) (\<lambda>m.
        let transaction_id = new_transaction_id entropy in
        rbind (delete_payload e transaction_id service account name m mode) (\<lambda>payload.
          submit_local e LOCAL_TRANSACTION_POLICY origin_node_id transaction_id ''secret.delete'' payload ds1))))))))"

subsection \<open>Sharing what is already stored\<close>

definition pending_outbound_copy :: "Transaction \<Rightarrow> Transaction" where
  "pending_outbound_copy t =
     t\<lparr>tx_state := ''pending'', tx_received_at := None, tx_applied_at := None, tx_acknowledged_at := None, tx_cleared_at := None\<rparr>"

definition or_null :: "json option \<Rightarrow> json" where
  "or_null v = (case v of None \<Rightarrow> JNull | Some j \<Rightarrow> j)"

definition share_prerequisite :: "peer_env \<Rightarrow> Transaction \<Rightarrow> transaction_row \<Rightarrow> datastore \<Rightarrow> datastore res" where
  "share_prerequisite e secret_tx row ds =
     rbind (get_transaction ds (tr_transaction_id row)) (\<lambda>prior.
     let expected = map_of (tx_payload secret_tx)
           (if ends_with ''entry_type.upsert'' (tx_transaction_type prior) then ''entry_type'' else ''entry_kind'') in
     if tx_state prior \<noteq> ''applied'' \<or> \<not> py_eq (or_null (map_of (tx_payload prior) ''name'')) (or_null expected)
     then Inl (SQLiteBackendError ''sync authorization prerequisites do not match'')
     else persist_outbound_envelopes_for_configured_peers e ds (pending_outbound_copy prior))"

definition authorize_existing_sqlite_secret_for_sync ::
  "peer_env \<Rightarrow> datastore \<Rightarrow> string \<Rightarrow> string \<Rightarrow> string \<Rightarrow> datastore res" where
  "authorize_existing_sqlite_secret_for_sync e ds service account name =
     rbind (secret_id_for service account name) (\<lambda>secret_id.
       case secret_history ds secret_id of
         [h] \<Rightarrow>
           if (case t_get sc_secret_id secret_id (ds_secrets ds) of None \<Rightarrow> True | Some r \<Rightarrow> sc_state r \<noteq> ''active'')
              \<or> tr_transaction_type h \<noteq> ''secret.set''
           then Inl (SQLiteBackendError ''sync authorization requires one unchanged active secret'')
           else
             rbind (get_transaction ds (tr_transaction_id h)) (\<lambda>secret_tx.
             if tx_state secret_tx \<noteq> ''applied''
             then Inl (SQLiteBackendError ''sync authorization requires applied local history'')
             else
               let predecessors = take 2 (rev (takeWhile (\<lambda>r. tr_transaction_id r \<noteq> tr_transaction_id h) (ds_transactions ds))) in
               if map tr_transaction_type predecessors \<noteq> [''vocabulary.entry_kind.upsert'', ''vocabulary.entry_type.upsert'']
               then Inl (SQLiteBackendError ''sync authorization prerequisites are unavailable'')
               else rbind (rfold (share_prerequisite e secret_tx) (rev predecessors) ds) (\<lambda>ds1.
                 persist_outbound_envelopes_for_configured_peers e ds1 (pending_outbound_copy secret_tx)))
       | _ \<Rightarrow> Inl (SQLiteBackendError ''sync authorization requires one unchanged active secret''))"

subsection \<open>The store object\<close>

definition store_set ::
  "peer_env \<Rightarrow> bytes \<times> bytes \<times> bytes \<Rightarrow> datastore \<Rightarrow> string \<Rightarrow> string \<Rightarrow> string \<Rightarrow> string \<Rightarrow> EntryMetadata option \<Rightarrow> datastore res" where
  "store_set e entropy ds service account name value_text metadata =
     set_sqlite_secret e entropy ds service account name value_text
       (case metadata of Some m \<Rightarrow> m | None \<Rightarrow> new_metadata (h_now (pe_host e)) name service account ''sqlite'')"

definition store_delete :: "peer_env \<Rightarrow> bytes \<Rightarrow> datastore \<Rightarrow> string \<Rightarrow> string \<Rightarrow> string \<Rightarrow> datastore res" where
  "store_delete e entropy ds service account name =
     rbind (get_sqlite_metadata ds service account name) (\<lambda>_. delete_sqlite_secret e entropy ds service account name)"

text \<open>Each call of the round trip commits on its own; the last state is the answer.\<close>

definition doctor_roundtrip ::
  "peer_env \<Rightarrow> (bytes \<times> bytes \<times> bytes) \<times> bytes \<Rightarrow> datastore \<Rightarrow> string \<Rightarrow> string \<Rightarrow> py_error option \<times> datastore" where
  "doctor_roundtrip e entropy ds service account =
     (let test_name = ''DOCTOR_TEST_KEY''; v = ''doctor_ok'' in
      case store_set e (fst entropy) ds service account test_name v
             (Some (new_metadata (h_now (pe_host e)) test_name service account ''sqlite-doctor'')) of
        Inl x \<Rightarrow> (Some x, ds)
      | Inr ds1 \<Rightarrow>
          (case get_sqlite_secret (pe_host e) ds1 service account test_name of
             Inl x \<Rightarrow> (Some x, ds1)
           | Inr fetched \<Rightarrow>
               if fetched \<noteq> v then (Some (SQLiteBackendError ''doctor roundtrip mismatch''), ds1)
               else (case store_delete e (snd entropy) ds1 service account test_name of
                       Inl x \<Rightarrow> (Some x, ds1)
                     | Inr ds2 \<Rightarrow> (None, ds2))))"

subsection \<open>What a write leaves alone\<close>

text \<open>Everything reading the value of secret \<open>j\<close> depends on, up to the display names of the vocabulary.\<close>

definition keeps_secret :: "string \<Rightarrow> datastore \<Rightarrow> datastore \<Rightarrow> bool" where
  "keeps_secret j ds ds' \<longleftrightarrow> ds_metadata ds' = ds_metadata ds \<and>
     t_get sc_secret_id j (ds_secrets ds') = t_get sc_secret_id j (ds_secrets ds) \<and>
     (\<forall>k. t_has vo_id k (ds_entry_types ds) \<longrightarrow> t_has vo_id k (ds_entry_types ds')) \<and>
     (\<forall>k. t_has vo_id k (ds_entry_kinds ds) \<longrightarrow> t_has vo_id k (ds_entry_kinds ds'))"

lemma keeps_secret_refl [simp]: "keeps_secret j ds ds"
  by (simp add: keeps_secret_def)

lemma keeps_secret_trans: "keeps_secret j a b \<Longrightarrow> keeps_secret j b c \<Longrightarrow> keeps_secret j a c"
  by (simp add: keeps_secret_def)

lemma keeps_secret_same:
  "ds_metadata ds' = ds_metadata ds \<Longrightarrow> ds_secrets ds' = ds_secrets ds \<Longrightarrow> ds_entry_types ds' = ds_entry_types ds \<Longrightarrow>
    ds_entry_kinds ds' = ds_entry_kinds ds \<Longrightarrow> keeps_secret j ds ds'"
  by (simp add: keeps_secret_def)

lemma keeps_secret_support: "support_extends ds ds' \<Longrightarrow> keeps_secret j ds ds'"
  unfolding support_extends_def by (elim conjE) (erule ssubst, rule keeps_secret_same; simp)

lemma support_secrets: "support_extends ds ds' \<Longrightarrow> ds_secrets ds' = ds_secrets ds"
  unfolding support_extends_def by (elim conjE) (erule ssubst, simp)

definition vocabulary_known :: "datastore \<Rightarrow> bool" where
  "vocabulary_known ds \<longleftrightarrow> (\<forall>r \<in> set (ds_secrets ds). t_has vo_id (sc_entry_type_id r) (ds_entry_types ds) \<and>
     t_has vo_id (sc_entry_kind_id r) (ds_entry_kinds ds))"

lemma wf_vocabulary_known: "projections_wf ds \<Longrightarrow> vocabulary_known ds"
  by (auto simp: projections_wf_def secrets_wf_def secret_fk_ok_def vocabulary_known_def)

lemma find_active_fst:
  assumes "t_get sc_secret_id j (ds_secrets ds) = Some r" "t_has vo_id (sc_entry_type_id r) (ds_entry_types ds)"
    "t_has vo_id (sc_entry_kind_id r) (ds_entry_kinds ds)"
  shows "map_option fst (find_active_secret ds j) = (if sc_state r = ''active'' then Some r else None)"
proof -
  obtain a b where "t_get vo_id (sc_entry_type_id r) (ds_entry_types ds) = Some a" "t_get vo_id (sc_entry_kind_id r) (ds_entry_kinds ds) = Some b"
    using assms(2,3) t_get_None_iff by (metis option.exhaust)
  then show ?thesis by (simp add: find_active_secret_def join_vocabulary_def assms(1))
qed

lemma keeps_secret_find:
  assumes "keeps_secret j ds ds'" "vocabulary_known ds"
  shows "map_option fst (find_active_secret ds' j) = map_option fst (find_active_secret ds j)"
proof (cases "t_get sc_secret_id j (ds_secrets ds)")
  case None
  with assms(1) show ?thesis by (simp add: find_active_secret_def keeps_secret_def)
next
  case (Some r)
  from t_get_SomeD [OF Some] assms(2) have v: "t_has vo_id (sc_entry_type_id r) (ds_entry_types ds)"
    "t_has vo_id (sc_entry_kind_id r) (ds_entry_kinds ds)" by (simp_all add: vocabulary_known_def)
  with assms(1) Some have "t_get sc_secret_id j (ds_secrets ds') = Some r" "t_has vo_id (sc_entry_type_id r) (ds_entry_types ds')"
    "t_has vo_id (sc_entry_kind_id r) (ds_entry_kinds ds')" by (simp_all add: keeps_secret_def)
  with Some v show ?thesis by (simp add: find_active_fst)
qed

text \<open>What is read through the first component of the joined row.\<close>

lemma get_secret_find:
  "get_sqlite_secret h ds s a n = rbind (read_sqlite_storage_mode ds) (\<lambda>mode. rbind (secret_id_for s a n) (\<lambda>i.
     case map_option fst (find_active_secret ds i) of
       None \<Rightarrow> Inl (SQLiteBackendError (''entry not found: '' @ make_registry_key s a n))
     | Some r \<Rightarrow> decode_text_payload h (sc_encrypted_payload r) ''encrypted_payload'' mode))"
  by (cases "secret_id_for s a n"; cases "read_sqlite_storage_mode ds")
    (auto simp: get_sqlite_secret_def active_secret_row_def split: option.split)

lemma storage_mode_metadata: "ds_metadata ds' = ds_metadata ds \<Longrightarrow> read_sqlite_storage_mode ds' = read_sqlite_storage_mode ds"
  by (simp add: read_sqlite_storage_mode_def read_sqlite_storage_mode_opt_def)

lemma keeps_secret_reads:
  assumes "keeps_secret j ds ds'" "vocabulary_known ds" "secret_id_for s a n = Inr j"
  shows "get_sqlite_secret h ds' s a n = get_sqlite_secret h ds s a n" "sqlite_secret_exists ds' s a n = sqlite_secret_exists ds s a n"
proof -
  note f = keeps_secret_find [OF assms(1,2)]
  have m: "read_sqlite_storage_mode ds' = read_sqlite_storage_mode ds"
    using assms(1) by (intro storage_mode_metadata) (simp add: keeps_secret_def)
  show "get_sqlite_secret h ds' s a n = get_sqlite_secret h ds s a n" by (simp only: get_secret_find m assms(3) rbind_simps f)
  show "sqlite_secret_exists ds' s a n = sqlite_secret_exists ds s a n"
    using arg_cong [OF f, of "\<lambda>x. x = None"] by (simp add: sqlite_secret_exists_def assms(3) del: not_None_eq)
qed

lemma keeps_secret_known:
  assumes "vocabulary_known ds" "\<And>j. keeps_secret j ds ds'" "set (ds_secrets ds') \<subseteq> set (ds_secrets ds)"
  shows "vocabulary_known ds'"
  using assms unfolding vocabulary_known_def keeps_secret_def by blast

subsection \<open>One local submission\<close>

definition store_policy :: "TransactionSubmissionPolicy \<Rightarrow> bool" where
  "store_policy p \<longleftrightarrow> po_persist_transaction p \<and> po_apply_projection p \<and> \<not> po_ignore_duplicate p"

lemma store_policies [simp]: "store_policy LOCAL_TRANSACTION_POLICY" "store_policy RESTORE_TRANSACTION_POLICY"
  by (simp_all add: store_policy_def LOCAL_TRANSACTION_POLICY_def RESTORE_TRANSACTION_POLICY_def)

lemma complete_tables:
  assumes "complete_submission e ds t p = Inr (r, ds')" "po_apply_projection p"
  shows "\<exists>b l g v. apply_transaction (pe_host e) ds t = Inr b \<and> ds' = b\<lparr>ds_transactions := l, ds_peer_groups := g, ds_envelopes := v\<rparr>"
  using assms(1)
proof (rule complete_submission_InrE)
  fix ds1 ds2 g new
  assume a: "if po_apply_projection p then apply_transaction (pe_host e) ds t = Inr ds1 else ds1 = ds"
    "if po_mark_applied p then mark_transaction_applied (h_now (pe_host e)) ds1 (tx_transaction_id t) = Inr ds2 else ds2 = ds1"
    "ds' = ds2\<lparr>ds_peer_groups := g, ds_envelopes := ds_envelopes ds2 @ new\<rparr>"
  have "\<exists>l. ds2 = ds1\<lparr>ds_transactions := l\<rparr>"
  proof (cases "po_mark_applied p")
    case True
    with a(2) show ?thesis by (auto dest: mark_frame)
  next
    case False
    with a(2) show ?thesis by (intro exI [of _ "ds_transactions ds1"]) simp
  qed
  then obtain l where "ds2 = ds1\<lparr>ds_transactions := l\<rparr>" ..
  then have "ds' = ds1\<lparr>ds_transactions := l, ds_peer_groups := g, ds_envelopes := ds_envelopes ds2 @ new\<rparr>" using a(3) by simp
  with a(1) assms(2) show ?thesis by auto
qed

lemma submit_local_tables:
  assumes "submit_local e p origin i ty payload ds = Inr ds'" "store_policy p"
  obtains t a l b l' g v where "tx_payload t = payload" "tx_transaction_type t = ty" "tx_created_at t = Some (h_now (pe_host e))"
    "support_extends ds a" "apply_transaction (pe_host e) (a\<lparr>ds_transactions := l\<rparr>) t = Inr b"
    "ds' = b\<lparr>ds_transactions := l', ds_peer_groups := g, ds_envelopes := v\<rparr>"
proof -
  from assms(1) obtain t r where t: "local_transaction e ds origin i ty payload = Inr t" "submit_transaction e ds t p = Inr (r, ds')"
    by (auto simp: submit_local_def rbind_Inr_iff)
  then have f: "tx_payload t = payload" "tx_transaction_type t = ty" "tx_created_at t = Some (h_now (pe_host e))"
    by (auto simp: local_transaction_def create_transaction_def Let_def rbind_Inr_iff)
  from t(2) show thesis
  proof (cases rule: submit_InrE)
    case (logged ds1 ds2)
    from insert_transaction_InrD [OF logged(3)] obtain l where "ds2 = ds1\<lparr>ds_transactions := l\<rparr>" by blast
    with complete_tables [OF logged(4)] assms(2) logged(2) f that show ?thesis by (auto simp: store_policy_def)
  qed (use assms(2) in \<open>simp_all add: store_policy_def\<close>)
qed

lemma upsert_vocabulary_known:
  "upsert_vocabulary_row c r t = Inr t' \<Longrightarrow> t_has vo_id k t \<Longrightarrow> t_has vo_id k t'"
  by (auto simp: upsert_vocabulary_row_def t_has_upsert split: if_split_asm)

lemma vocabulary_keeps_secret:
  assumes "apply_vocabulary_entry_type_upsert ds t = Inr ds' \<or> apply_vocabulary_entry_kind_upsert ds t = Inr ds'"
  shows "keeps_secret j ds ds'" "ds_secrets ds' = ds_secrets ds"
proof -
  show "keeps_secret j ds ds'" using assms
    by (auto simp: keeps_secret_def apply_vocabulary_entry_type_upsert_def apply_vocabulary_entry_kind_upsert_def rbind_Inr_iff
        intro: upsert_vocabulary_known)
  show "ds_secrets ds' = ds_secrets ds" using assms by (auto dest: vocabulary_frame)
qed

lemma emit_keeps_secret:
  assumes "emit_vocabulary_transactions_for_metadata e en ds m p = Inr ds'" "store_policy p"
  shows "keeps_secret j ds ds' \<and> ds_secrets ds' = ds_secrets ds"
proof -
  have one: "keeps_secret j a b \<and> ds_secrets b = ds_secrets a"
    if "submit_local e p origin i ty payload a = Inr b" "ty \<in> {''vocabulary.entry_type.upsert'', ''vocabulary.entry_kind.upsert''}"
    for a b origin i ty payload
  proof -
    from submit_local_tables [OF that(1) assms(2)] obtain t c l d l' g v where s: "tx_transaction_type t = ty"
      "support_extends a c" "apply_transaction (pe_host e) (c\<lparr>ds_transactions := l\<rparr>) t = Inr d"
      "b = d\<lparr>ds_transactions := l', ds_peer_groups := g, ds_envelopes := v\<rparr>" .
    from s(1,3) that(2) have v: "apply_vocabulary_entry_type_upsert (c\<lparr>ds_transactions := l\<rparr>) t = Inr d \<or>
        apply_vocabulary_entry_kind_upsert (c\<lparr>ds_transactions := l\<rparr>) t = Inr d"
      by (auto simp: apply_transaction_def Let_def)
    have "keeps_secret j a c" "ds_secrets c = ds_secrets a" using s(2) by (rule keeps_secret_support support_secrets)+
    moreover have "keeps_secret j c (c\<lparr>ds_transactions := l\<rparr>)" by (rule keeps_secret_same) simp_all
    moreover note vocabulary_keeps_secret [OF v]
    moreover have "keeps_secret j d b" unfolding s(4) by (rule keeps_secret_same) simp_all
    ultimately show ?thesis by (auto simp: s(4) intro: keeps_secret_trans)
  qed
  from assms(1) obtain origin i1 i2 p1 p2 ds1 where s:
    "submit_local e p origin i1 ''vocabulary.entry_type.upsert'' p1 ds = Inr ds1"
    "submit_local e p origin i2 ''vocabulary.entry_kind.upsert'' p2 ds1 = Inr ds'"
    by (auto simp: emit_vocabulary_transactions_for_metadata_def rbind_Inr_iff)
  from one [OF s(1)] one [OF s(2)] show ?thesis by (auto intro: keeps_secret_trans)
qed

lemma parents_keep_secret:
  assumes "ensure_local_projection_parents ds account service = Inr ds'"
  shows "keeps_secret j ds ds' \<and> ds_secrets ds' = ds_secrets ds"
  using assms
  by (auto simp: ensure_local_projection_parents_def Let_def rbind_Inr_iff support_client_def support_service_group_def
      split: if_split_asm intro!: keeps_secret_same)

subsection \<open>The transaction of the secret\<close>

lemma encrypted_b64_Inr:
  "encrypted_b64 e i mode x f = Inr j \<longleftrightarrow>
    (\<exists>stored. encrypt_payload (h_aead (pe_host e)) (h_storage_key (pe_host e)) (pe_nonce e (i @ f)) x f mode = Inr stored \<and>
      j = JStr (b64encode stored))"
  by (auto simp: encrypted_b64_def rbind_Inr_iff)

lemma deterministic_identifier_is: "deterministic_identifier t ns name = Inr v \<Longrightarrow> is_identifier t v"
  by (auto simp: deterministic_identifier_def split: if_split_asm)

lemma required_b64:
  "map_of p f = Some (JStr (b64encode bs)) \<Longrightarrow> pj_required_b64 p f = Inr v \<Longrightarrow> v = bs"
  by (auto simp: pj_required_b64_def pj_required_text_def payload_get_def decode_b64_encode rbind_Inr_iff split: if_split_asm)

lemma required_secret_id:
  "map_of p ''secret_id'' = Some (JStr i) \<Longrightarrow> pj_required_identifier p ''secret_id'' Secret = Inr v \<Longrightarrow> v = i"
  by (auto simp: pj_required_identifier_def pj_required_text_def payload_get_def pj_validate_identifier_def rbind_Inr_iff
      split: if_split_asm simp: validate_identifier_iff)

lemma payload_head_members:
  assumes "payload_head s a n m = Inr p"
  shows "\<exists>i. secret_id_for s a n = Inr i \<and> map_of p ''secret_id'' = Some (JStr i)" "map_of p ''encrypted_name_b64'' = None"
    "map_of p ''encrypted_payload_b64'' = None"
  using assms by (auto simp: payload_head_def metadata_payload_fields_def rbind_Inr_iff)

lemma set_payload_members:
  assumes "set_payload e t s a n v m mode = Inr p"
  shows "\<exists>i. secret_id_for s a n = Inr i \<and> map_of p ''secret_id'' = Some (JStr i)"
    "\<exists>stored. encrypt_payload (h_aead (pe_host e)) (h_storage_key (pe_host e)) (pe_nonce e (t @ ''encrypted_payload'')) v ''encrypted_payload'' mode = Inr stored \<and>
      map_of p ''encrypted_payload_b64'' = Some (JStr (b64encode stored))"
proof -
  from assms obtain head en ep where p: "payload_head s a n m = Inr head"
    "encrypted_b64 e t mode v ''encrypted_payload'' = Inr ep"
    "p = head @ [(''encrypted_name_b64'', en), (''encrypted_payload_b64'', ep), (''content_hash_b64'', JStr (b64encode (sha256 v))),
             (''projection_created_at'', JStr (em_created_at m)), (''projection_updated_at'', JStr (em_updated_at m))]"
    by (auto simp: set_payload_def rbind_Inr_iff)
  note h = payload_head_members [OF p(1)]
  show "\<exists>i. secret_id_for s a n = Inr i \<and> map_of p ''secret_id'' = Some (JStr i)" using h(1) by (auto simp: p(3) map_add_def)
  show "\<exists>stored. encrypt_payload (h_aead (pe_host e)) (h_storage_key (pe_host e)) (pe_nonce e (t @ ''encrypted_payload'')) v ''encrypted_payload'' mode = Inr stored \<and>
      map_of p ''encrypted_payload_b64'' = Some (JStr (b64encode stored))"
    using p(2) h(3) by (auto simp: p(3) map_add_def encrypted_b64_Inr)
qed

lemma delete_payload_members:
  assumes "delete_payload e t s a n m mode = Inr p"
  shows "\<exists>i. secret_id_for s a n = Inr i \<and> map_of p ''secret_id'' = Some (JStr i)"
  using assms payload_head_members(1) by (fastforce simp: delete_payload_def rbind_Inr_iff map_add_def)

text \<open>A committed plan, seen from the reading side.\<close>

lemma commit_plan_reads:
  assumes "commit_plan now ds pl = Inr ds'"
  shows "map_option fst (find_active_secret ds' (sc_secret_id (sp_row pl))) =
      (if sc_state (sp_row pl) = ''active'' then Some (kept_row ds (sp_row pl)) else None)"
    and "j \<noteq> sc_secret_id (sp_row pl) \<Longrightarrow> keeps_secret j ds ds'"
    and "ds_metadata ds' = ds_metadata ds"
    and "vocabulary_known ds \<Longrightarrow> vocabulary_known ds'"
proof -
  note eff = commit_plan_effect [OF assms]
  let ?r = "kept_row ds (sp_row pl)"
  have same: "sc_entry_type_id ?r = sc_entry_type_id (sp_row pl)" "sc_entry_kind_id ?r = sc_entry_kind_id (sp_row pl)"
    "sc_state ?r = sc_state (sp_row pl)" by (simp_all add: kept_row_def split: option.split)
  have get: "t_get sc_secret_id (sc_secret_id (sp_row pl)) (ds_secrets ds') = Some ?r"
    by (simp add: eff(1) secret_upsert_get kept_row_def)
  have voc: "t_has vo_id (sc_entry_type_id (sp_row pl)) (ds_entry_types ds')" "t_has vo_id (sc_entry_kind_id (sp_row pl)) (ds_entry_kinds ds')"
    using eff(8) by (simp_all add: secret_fk_ok_def)
  show "map_option fst (find_active_secret ds' (sc_secret_id (sp_row pl))) =
      (if sc_state (sp_row pl) = ''active'' then Some ?r else None)"
    using find_active_fst [OF get] voc by (simp add: same)
  show m: "ds_metadata ds' = ds_metadata ds" by (subst eff(10)) simp
  have types: "t_has vo_id k (ds_entry_types ds) \<Longrightarrow> t_has vo_id k (ds_entry_types ds')"
    "t_has vo_id k (ds_entry_kinds ds) \<Longrightarrow> t_has vo_id k (ds_entry_kinds ds')" for k
    by (auto simp: eff(5,6) intro: t_has_prefix [OF _ prefix_ensure_vocabulary])
  show "j \<noteq> sc_secret_id (sp_row pl) \<Longrightarrow> keeps_secret j ds ds'"
    using types m by (simp add: keeps_secret_def eff(1) secret_upsert_get)
  show "vocabulary_known ds'" if "vocabulary_known ds"
    using that voc types unfolding vocabulary_known_def eff(1) by (auto dest!: secret_upsert_rows)
qed

lemma set_plan_decodes:
  assumes "set_plan h mode t = Inr pl"
  shows "\<exists>s. decode_storage_text h (sc_encrypted_payload (sp_row pl)) ''encrypted_payload'' mode = Inr s"
proof -
  from assms obtain i et ek en ep c u s where s: "decode_storage_text h ep ''encrypted_payload'' mode = Inr s"
    "plan_secret h t i et ek en ep mode ''active'' c u = Inr pl"
    unfolding set_plan_def Let_def by (elim rbind_InrE) blast
  from s(1) show ?thesis using plan_secret_fields(2) [OF s(2)] by auto
qed

text \<open>A text that the projection could decode is the text that was encrypted, in either storage mode.\<close>

lemma stored_text:
  assumes "aead_law (h_aead h)" "length (h_storage_key h) = 32" "length nonce = 12"
    and f: "storage_field field" and "encrypt_payload (h_aead h) (h_storage_key h) nonce v field mode = Inr stored"
    and "decode_storage_text h stored field mode = Inr s"
  shows "s = v" "decode_text_payload h stored field mode = Inr v"
proof -
  obtain bs where d: "decrypt_payload (h_aead h) (h_storage_key h) stored field mode = Inr bs" "utf8_ok bs"
    using assms(6) by (auto simp: decode_storage_text_def utf8_decode_def split: sum.split_asm py_error.split_asm if_split_asm)
  have mode: "mode = SQLITE_STORAGE_MODE_ENCRYPTED \<or> mode = SQLITE_STORAGE_MODE_PLAINTEXT"
    using assms(5) by (auto simp: encrypt_payload_def validate_storage_mode_def rbind_Inr_iff split: if_split_asm)
  have "bs = v"
  proof (cases "mode = SQLITE_STORAGE_MODE_ENCRYPTED")
    case True
    have "rbind (encrypt_payload (h_aead h) (h_storage_key h) nonce v field mode)
        (\<lambda>x. decrypt_payload (h_aead h) (h_storage_key h) x field mode) = Inr v"
      by (rule storage_roundtrip [OF assms(1-3) f]) (simp add: True)
    then show ?thesis by (simp add: assms(5) d(1))
  next
    case False
    with mode have "mode = SQLITE_STORAGE_MODE_PLAINTEXT" by simp
    with assms(5) d(1) show ?thesis
      by (auto simp: encrypt_payload_def decrypt_payload_def validate_storage_mode_def rbind_Inr_iff split: if_split_asm)
  qed
  with d show "decode_text_payload h stored field mode = Inr v" by (simp add: decode_text_payload_def utf8_decode_def)
  show "s = v" using assms(6) d \<open>bs = v\<close> by (simp add: decode_storage_text_def utf8_decode_def)
qed

subsection \<open>The effect of a write on what is read\<close>

text \<open>A sequence of labelled steps.\<close>

inductive runs :: "('w \<Rightarrow> 's \<Rightarrow> 's \<Rightarrow> bool) \<Rightarrow> 'w list \<Rightarrow> 's \<Rightarrow> 's \<Rightarrow> bool" for step where
  none: "runs step [] s s"
| more: "runs step ws s s' \<Longrightarrow> step w s' s'' \<Longrightarrow> runs step (ws @ [w]) s s''"

text \<open>
  What a client of the store relies on: after a write the key reads as what was written, and every other key reads
  as before. Sequences of writes then read as the last write of each key.
\<close>

locale keyed_store =
  fixes put :: "'k \<Rightarrow> 'v option \<Rightarrow> 's \<Rightarrow> 's \<Rightarrow> bool"
    and look :: "'s \<Rightarrow> 'k \<Rightarrow> 'v option"
    and inv :: "'s \<Rightarrow> bool"
  assumes put_same: "put k v s s' \<Longrightarrow> inv s \<Longrightarrow> look s' k = v"
    and put_other: "put k v s s' \<Longrightarrow> inv s \<Longrightarrow> j \<noteq> k \<Longrightarrow> look s' j = look s j"
    and put_inv: "put k v s s' \<Longrightarrow> inv s \<Longrightarrow> inv s'"
begin

lemma runs_look:
  assumes "runs (\<lambda>(k, v). put k v) ws s s'" "inv s"
  shows "inv s' \<and> look s' k = (case find (\<lambda>w. fst w = k) (rev ws) of None \<Rightarrow> look s k | Some w \<Rightarrow> snd w)"
  using assms
proof (induction rule: runs.induct)
  case (more ws s s' w s'')
  obtain k' v where w: "w = (k', v)" by (cases w)
  from more have "inv s'" "look s' k = (case find (\<lambda>w. fst w = k) (rev ws) of None \<Rightarrow> look s k | Some w \<Rightarrow> snd w)" by auto
  with more.hyps(2) put_same put_other put_inv show ?case by (cases "k = k'") (auto simp: w)
qed simp

end

text \<open>The laws the cryptographic parameters of a store have to obey.\<close>

definition storage_ok :: "peer_env \<Rightarrow> bool" where
  "storage_ok e \<longleftrightarrow> aead_law (h_aead (pe_host e)) \<and> length (h_storage_key (pe_host e)) = 32 \<and> (\<forall>i. length (pe_nonce e i) = 12)"

text \<open>The vocabulary transactions leave the names of the metadata under their identifiers.\<close>

lemma upsert_vocabulary_name:
  assumes "upsert_vocabulary_row c r t = Inr t'"
  shows "map_option vo_name (t_get vo_id (vo_id r) t') = Some (vo_name r)"
proof (cases "t_has vo_id (vo_id r) t")
  case True
  then obtain q where "t_get vo_id (vo_id r) t = Some q" using t_has_iff_get by metis
  with True assms show ?thesis by (auto simp: upsert_vocabulary_row_def t_upsert_def t_get_update split: if_split_asm)
next
  case False
  then have "t_get vo_id (vo_id r) t = None" by (simp add: t_get_None_iff)
  with False assms show ?thesis
    by (auto simp: upsert_vocabulary_row_def t_upsert_def t_get_append t_get_Cons split: if_split_asm)
qed

lemma vocabulary_payload_name:
  "tx_payload t = vocabulary_entry_type_payload i n [] \<Longrightarrow> apply_vocabulary_entry_type_upsert ds t = Inr ds' \<Longrightarrow>
    map_option vo_name (t_get vo_id i (ds_entry_types ds')) = Some n"
  "tx_payload t = vocabulary_entry_kind_payload i n [] \<Longrightarrow> apply_vocabulary_entry_kind_upsert ds t = Inr ds' \<Longrightarrow>
    map_option vo_name (t_get vo_id i (ds_entry_kinds ds')) = Some n"
  using upsert_vocabulary_name
  by (fastforce simp: vocabulary_entry_type_payload_def apply_vocabulary_entry_type_upsert_def vocabulary_entry_kind_payload_def
      apply_vocabulary_entry_kind_upsert_def vp_required_identifier_def vp_required_text_def payload_get_def nonblank_text_def
      validate_identifier_iff rbind_Inr_iff split: if_split_asm)+

lemma support_vocabulary: "support_extends ds ds' \<Longrightarrow> ds_entry_types ds' = ds_entry_types ds \<and> ds_entry_kinds ds' = ds_entry_kinds ds"
  unfolding support_extends_def by (elim conjE) (erule ssubst, simp)

definition vocabulary_named :: "EntryMetadata \<Rightarrow> datastore \<Rightarrow> bool" where
  "vocabulary_named m ds \<longleftrightarrow>
     (\<forall>i. entry_type_id_for_name (em_entry_type m) False = Inr i \<longrightarrow> map_option vo_name (t_get vo_id i (ds_entry_types ds)) = Some (em_entry_type m)) \<and>
     (\<forall>i. entry_kind_id_for_name (em_entry_kind m) False = Inr i \<longrightarrow> map_option vo_name (t_get vo_id i (ds_entry_kinds ds)) = Some (em_entry_kind m))"

lemma emit_names:
  assumes "emit_vocabulary_transactions_for_metadata e en ds m p = Inr ds'" "store_policy p"
  shows "vocabulary_named m ds'"
proof -
  from assms(1) obtain origin i1 i2 ti ki ds1 where i: "entry_type_id_for_name (em_entry_type m) False = Inr ti" "entry_kind_id_for_name (em_entry_kind m) False = Inr ki"
    and s: "submit_local e p origin i1 ''vocabulary.entry_type.upsert'' (vocabulary_entry_type_payload ti (em_entry_type m) []) ds = Inr ds1"
    "submit_local e p origin i2 ''vocabulary.entry_kind.upsert'' (vocabulary_entry_kind_payload ki (em_entry_kind m) []) ds1 = Inr ds'"
    by (auto simp: emit_vocabulary_transactions_for_metadata_def rbind_Inr_iff)
  from submit_local_tables [OF s(1) assms(2)] obtain t a l b l' g v where a: "tx_payload t = vocabulary_entry_type_payload ti (em_entry_type m) []"
    "tx_transaction_type t = ''vocabulary.entry_type.upsert''" "apply_transaction (pe_host e) (a\<lparr>ds_transactions := l\<rparr>) t = Inr b"
    "ds1 = b\<lparr>ds_transactions := l', ds_peer_groups := g, ds_envelopes := v\<rparr>" .
  have type: "map_option vo_name (t_get vo_id ti (ds_entry_types ds1)) = Some (em_entry_type m)"
    using vocabulary_payload_name(1) [OF a(1)] a(2,3) by (simp add: apply_transaction_def a(4))
  from submit_local_tables [OF s(2) assms(2)] obtain t' a' k b' k' g' v' where b: "tx_payload t' = vocabulary_entry_kind_payload ki (em_entry_kind m) []"
    "tx_transaction_type t' = ''vocabulary.entry_kind.upsert''" "support_extends ds1 a'" "apply_transaction (pe_host e) (a'\<lparr>ds_transactions := k\<rparr>) t' = Inr b'"
    "ds' = b'\<lparr>ds_transactions := k', ds_peer_groups := g', ds_envelopes := v'\<rparr>" .
  have k: "apply_vocabulary_entry_kind_upsert (a'\<lparr>ds_transactions := k\<rparr>) t' = Inr b'" using b(2,4) by (simp add: apply_transaction_def)
  have "map_option vo_name (t_get vo_id ki (ds_entry_kinds ds')) = Some (em_entry_kind m)"
    using vocabulary_payload_name(2) [OF b(1) k] by (simp add: b(5))
  moreover have "ds_entry_types ds' = ds_entry_types ds1"
    using vocabulary_frame(2) [OF k] support_vocabulary [OF b(3)] by (auto simp: b(5))
  ultimately show ?thesis using type i by (simp add: vocabulary_named_def)
qed

lemma emit_keeps_tags:
  assumes "emit_vocabulary_transactions_for_metadata e en ds m p = Inr ds'" "store_policy p"
  shows "ds_tags ds' = ds_tags ds"
proof -
  have one: "ds_tags b = ds_tags a"
    if "submit_local e p origin i ty payload a = Inr b" "ty \<in> {''vocabulary.entry_type.upsert'', ''vocabulary.entry_kind.upsert''}"
    for a b origin i ty payload
  proof -
    from submit_local_tables [OF that(1) assms(2)] obtain t c l d l' g v where s: "tx_transaction_type t = ty"
      "support_extends a c" "apply_transaction (pe_host e) (c\<lparr>ds_transactions := l\<rparr>) t = Inr d"
      "b = d\<lparr>ds_transactions := l', ds_peer_groups := g, ds_envelopes := v\<rparr>" .
    from s(1,3) that(2) have "apply_vocabulary_entry_type_upsert (c\<lparr>ds_transactions := l\<rparr>) t = Inr d \<or>
        apply_vocabulary_entry_kind_upsert (c\<lparr>ds_transactions := l\<rparr>) t = Inr d"
      by (auto simp: apply_transaction_def Let_def)
    then show ?thesis using support_keeps(5) [OF s(2)] by (auto simp: s(4) dest!: vocabulary_frame)
  qed
  from assms(1) obtain origin i1 i2 p1 p2 ds1 where
    "submit_local e p origin i1 ''vocabulary.entry_type.upsert'' p1 ds = Inr ds1"
    "submit_local e p origin i2 ''vocabulary.entry_kind.upsert'' p2 ds1 = Inr ds'"
    by (auto simp: emit_vocabulary_transactions_for_metadata_def rbind_Inr_iff)
  then show ?thesis using one by simp
qed

lemma parents_keep_tags: "ensure_local_projection_parents ds account service = Inr ds' \<Longrightarrow> ds_tags ds' = ds_tags ds"
  by (auto simp: ensure_local_projection_parents_def Let_def rbind_Inr_iff support_client_def support_service_group_def
      split: if_split_asm)

lemma store_secret_InrE:
  assumes "store_secret e entropy ds s a n v m p refuse = Inr ds'" "store_policy p"
  obtains i mode pl b stored t where "secret_id_for s a n = Inr i" "read_sqlite_storage_mode ds = Inr mode"
    "\<forall>j. keeps_secret j ds b" "ds_secrets b = ds_secrets ds"
    "set_plan (pe_host e) mode t = Inr pl" "sc_secret_id (sp_row pl) = i" "sc_encrypted_payload (sp_row pl) = stored"
    "\<exists>c l g x. commit_plan (h_now (pe_host e)) b pl = Inr c \<and> ds' = c\<lparr>ds_transactions := l, ds_peer_groups := g, ds_envelopes := x\<rparr>"
    "\<exists>k. encrypt_payload (h_aead (pe_host e)) (h_storage_key (pe_host e)) (pe_nonce e k) v ''encrypted_payload'' mode = Inr stored"
    "\<exists>k. set_payload e k s a n v m mode = Inr (tx_payload t)" "tx_created_at t = Some (h_now (pe_host e))"
    "vocabulary_named m b" "ds_tags b = ds_tags ds"
proof -
  from assms(1) obtain mode ds1 origin ds2 payload tid where
    w: "read_sqlite_storage_mode ds = Inr mode" "ensure_local_projection_parents ds a s = Inr ds1"
    "emit_vocabulary_transactions_for_metadata e (fst entropy, fst (snd entropy)) ds1 m p = Inr ds2"
    "set_payload e tid s a n v m mode = Inr payload" "submit_local e p origin tid ''secret.set'' payload ds2 = Inr ds'"
    by (auto simp: store_secret_def Let_def rbind_Inr_iff)
  from submit_local_tables [OF w(5) assms(2)] obtain t c l d l' g x where t: "tx_payload t = payload" "tx_transaction_type t = ''secret.set''"
    "tx_created_at t = Some (h_now (pe_host e))" "support_extends ds2 c" "apply_transaction (pe_host e) (c\<lparr>ds_transactions := l\<rparr>) t = Inr d"
    "ds' = d\<lparr>ds_transactions := l', ds_peer_groups := g, ds_envelopes := x\<rparr>" .
  let ?b = "c\<lparr>ds_transactions := l\<rparr>"
  have keep: "keeps_secret j ds ?b \<and> ds_secrets ?b = ds_secrets ds" for j
  proof -
    have "keeps_secret j c ?b" by (rule keeps_secret_same) simp_all
    with parents_keep_secret [OF w(2), of j] emit_keeps_secret [OF w(3) assms(2), of j] keeps_secret_support [OF t(4), of j]
      support_secrets [OF t(4)] show ?thesis by (auto intro: keeps_secret_trans)
  qed
  then have "ds_metadata ?b = ds_metadata ds" by (simp add: keeps_secret_def)
  from storage_mode_metadata [OF this] w(1) have mode: "read_sqlite_storage_mode ?b = Inr mode" by simp
  from t(2,5) have "apply_secret_set_projection (pe_host e) ?b t = Inr d" by (simp add: apply_transaction_def)
  with mode obtain pl where pl: "set_plan (pe_host e) mode t = Inr pl" "commit_plan (h_now (pe_host e)) ?b pl = Inr d"
    by (auto simp: apply_secret_set_iff)
  from set_payload_members [OF w(4)] obtain i stored where m: "secret_id_for s a n = Inr i" "map_of payload ''secret_id'' = Some (JStr i)"
    "encrypt_payload (h_aead (pe_host e)) (h_storage_key (pe_host e)) (pe_nonce e (tid @ ''encrypted_payload'')) v ''encrypted_payload'' mode = Inr stored"
    "map_of payload ''encrypted_payload_b64'' = Some (JStr (b64encode stored))" by blast
  note f = set_plan_fields [OF pl(1), unfolded t(1)]
  show thesis
  proof (rule that [of i mode ?b t pl stored])
    show "sc_secret_id (sp_row pl) = i" using required_secret_id [OF m(2) f(1)] .
    show "sc_encrypted_payload (sp_row pl) = stored" using required_b64 [OF m(4) f(3)] .
    show "\<exists>c l g x. commit_plan (h_now (pe_host e)) ?b pl = Inr c \<and> ds' = c\<lparr>ds_transactions := l, ds_peer_groups := g, ds_envelopes := x\<rparr>"
      using pl(2) t(6) by blast
    show "\<exists>k. encrypt_payload (h_aead (pe_host e)) (h_storage_key (pe_host e)) (pe_nonce e k) v ''encrypted_payload'' mode = Inr stored"
      using m(3) by blast
    show "\<exists>k. set_payload e k s a n v m mode = Inr (tx_payload t)" using w(4) t(1) by blast
    show "vocabulary_named m ?b" using emit_names [OF w(3) assms(2)] support_vocabulary [OF t(4)] by (simp add: vocabulary_named_def)
    show "ds_tags ?b = ds_tags ds" using emit_keeps_tags [OF w(3) assms(2)] parents_keep_tags [OF w(2)] support_keeps(5) [OF t(4)] by simp
  qed (use m(1) w(1) keep pl(1) t(3) in auto)
qed

text \<open>The tables after a commit and the end of its submission.\<close>

lemma committed_reads:
  assumes c: "commit_plan now b pl = Inr c" and ds': "ds' = c\<lparr>ds_transactions := l, ds_peer_groups := g, ds_envelopes := x\<rparr>"
    and b: "\<forall>j. keeps_secret j ds b" "ds_secrets b = ds_secrets ds" and known: "vocabulary_known ds"
  shows "map_option fst (find_active_secret ds' (sc_secret_id (sp_row pl))) =
      (if sc_state (sp_row pl) = ''active'' then Some (kept_row ds (sp_row pl)) else None)"
    "j \<noteq> sc_secret_id (sp_row pl) \<Longrightarrow> keeps_secret j ds ds'" "read_sqlite_storage_mode ds' = read_sqlite_storage_mode ds"
    "vocabulary_known ds'"
proof -
  have kb: "vocabulary_known b" using keeps_secret_known [OF known, of b] b by simp
  note r = commit_plan_reads [OF c]
  have "join_vocabulary ds' = join_vocabulary c" "ds_secrets ds' = ds_secrets c"
    by (simp_all add: fun_eq_iff ds' join_vocabulary_def)
  then have f: "find_active_secret ds' i = find_active_secret c i" for i by (simp only: find_active_secret_def)
  show "map_option fst (find_active_secret ds' (sc_secret_id (sp_row pl))) =
      (if sc_state (sp_row pl) = ''active'' then Some (kept_row ds (sp_row pl)) else None)"
    using r(1) by (simp add: f kept_row_def b(2))
  show "j \<noteq> sc_secret_id (sp_row pl) \<Longrightarrow> keeps_secret j ds ds'"
    using b(1) [rule_format, of j] r(2) [of j] keeps_secret_same [of ds' c j] by (auto simp: ds' intro: keeps_secret_trans)
  have "ds_metadata ds' = ds_metadata ds" using b(1) r(3) by (simp add: ds' keeps_secret_def)
  then show "read_sqlite_storage_mode ds' = read_sqlite_storage_mode ds" by (rule storage_mode_metadata)
  show "vocabulary_known ds'" using r(4) [OF kb] by (simp add: vocabulary_known_def ds')
qed

lemma store_secret_reads:
  assumes "store_secret e entropy ds s a n v m p refuse = Inr ds'" "store_policy p" and ok: "storage_ok e" and known: "vocabulary_known ds"
  shows "get_sqlite_secret (pe_host e) ds' s a n = Inr v" "sqlite_secret_exists ds' s a n = Inr True"
    "secret_id_for s a n = Inr i \<Longrightarrow> j \<noteq> i \<Longrightarrow> keeps_secret j ds ds'" "vocabulary_known ds'"
proof -
  from assms(1,2) obtain i' mode pl b stored t where w: "secret_id_for s a n = Inr i'" "read_sqlite_storage_mode ds = Inr mode"
    "\<forall>j. keeps_secret j ds b" "ds_secrets b = ds_secrets ds"
    "set_plan (pe_host e) mode t = Inr pl" "sc_secret_id (sp_row pl) = i'" "sc_encrypted_payload (sp_row pl) = stored"
    "\<exists>c l g x. commit_plan (h_now (pe_host e)) b pl = Inr c \<and> ds' = c\<lparr>ds_transactions := l, ds_peer_groups := g, ds_envelopes := x\<rparr>"
    "\<exists>k. encrypt_payload (h_aead (pe_host e)) (h_storage_key (pe_host e)) (pe_nonce e k) v ''encrypted_payload'' mode = Inr stored"
    by (rule store_secret_InrE)
  from w(8) obtain c l g x where c: "commit_plan (h_now (pe_host e)) b pl = Inr c"
    "ds' = c\<lparr>ds_transactions := l, ds_peer_groups := g, ds_envelopes := x\<rparr>" by blast
  note r = committed_reads [OF c w(3,4) known, unfolded w(6)]
  have found: "map_option fst (find_active_secret ds' i') = Some (kept_row ds (sp_row pl))"
    using r(1) set_plan_fields(4) [OF w(5)] by simp
  from w(9) set_plan_decodes [OF w(5)] ok have "decode_text_payload (pe_host e) stored ''encrypted_payload'' mode = Inr v"
    unfolding w(7) storage_ok_def by (auto simp: storage_field_def intro: stored_text(2))
  moreover have "sc_encrypted_payload (kept_row ds (sp_row pl)) = stored" by (simp add: kept_row_def w(7) split: option.split)
  ultimately show "get_sqlite_secret (pe_host e) ds' s a n = Inr v"
    by (simp only: get_secret_find r(3) w(1,2) rbind_simps found option.case)
  show "sqlite_secret_exists ds' s a n = Inr True" using found by (auto simp: sqlite_secret_exists_def w(1))
  show "secret_id_for s a n = Inr i \<Longrightarrow> j \<noteq> i \<Longrightarrow> keeps_secret j ds ds'" using r(2) w(1) by simp
  show "vocabulary_known ds'" by (rule r(4))
qed

lemma delete_secret_InrE:
  assumes "delete_sqlite_secret e entropy ds s a n = Inr ds'"
  obtains i mode pl b t row ds1 where "secret_id_for s a n = Inr i" "\<forall>j. keeps_secret j ds b" "ds_secrets b = ds_secrets ds"
    "delete_plan (pe_host e) mode t = Inr pl" "sc_secret_id (sp_row pl) = i"
    "\<forall>j. keeps_secret j ds ds1" "find_active_secret ds1 i = Some row"
    "\<exists>c l g x. commit_plan (h_now (pe_host e)) b pl = Inr c \<and> ds' = c\<lparr>ds_transactions := l, ds_peer_groups := g, ds_envelopes := x\<rparr>"
proof -
  from assms obtain mode ds1 origin row m payload tid where
    w: "read_sqlite_storage_mode ds = Inr mode" "ensure_local_projection_parents ds a s = Inr ds1"
    "active_secret_row ds1 s a n = Inr row" "delete_payload e tid s a n m mode = Inr payload"
    "submit_local e LOCAL_TRANSACTION_POLICY origin tid ''secret.delete'' payload ds1 = Inr ds'"
    by (auto simp: delete_sqlite_secret_def Let_def rbind_Inr_iff)
  from submit_local_tables [OF w(5) store_policies(1)] obtain t c l d l' g x where t: "tx_payload t = payload"
    "tx_transaction_type t = ''secret.delete''" "support_extends ds1 c" "apply_transaction (pe_host e) (c\<lparr>ds_transactions := l\<rparr>) t = Inr d"
    "ds' = d\<lparr>ds_transactions := l', ds_peer_groups := g, ds_envelopes := x\<rparr>" .
  let ?b = "c\<lparr>ds_transactions := l\<rparr>"
  have first: "keeps_secret j ds ds1" "ds_secrets ds1 = ds_secrets ds" for j using parents_keep_secret [OF w(2), of j] by auto
  have keep: "keeps_secret j ds ?b" for j
    using first(1) keeps_secret_support [OF t(3), of j] keeps_secret_same [of ?b c j] by (auto intro: keeps_secret_trans)
  from delete_payload_members [OF w(4)] obtain i where m: "secret_id_for s a n = Inr i" "map_of payload ''secret_id'' = Some (JStr i)" by blast
  from t(2,4) have "apply_secret_delete_projection (pe_host e) ?b t = Inr d" by (simp add: apply_transaction_def)
  then obtain mode pl where pl: "delete_plan (pe_host e) mode t = Inr pl" "commit_plan (h_now (pe_host e)) ?b pl = Inr d"
    by (auto simp: apply_secret_delete_iff)
  note f = delete_plan_fields [OF pl(1), unfolded t(1)]
  from w(3) m(1) have active: "find_active_secret ds1 i = Some row" by (auto simp: active_secret_row_def split: option.split_asm)
  show thesis
  proof (rule that [of i ?b mode t pl ds1 row])
    show "sc_secret_id (sp_row pl) = i" using required_secret_id [OF m(2) f(1)] .
    show "\<exists>c l g x. commit_plan (h_now (pe_host e)) ?b pl = Inr c \<and> ds' = c\<lparr>ds_transactions := l, ds_peer_groups := g, ds_envelopes := x\<rparr>"
      using pl(2) t(5) by blast
    show "ds_secrets ?b = ds_secrets ds" using support_secrets [OF t(3)] first(2) by simp
  qed (use m(1) keep first pl(1) active in auto)
qed

lemma delete_secret_reads:
  assumes "delete_sqlite_secret e entropy ds s a n = Inr ds'" and known: "vocabulary_known ds"
  shows "get_sqlite_secret h ds' s a n = rbind (read_sqlite_storage_mode ds) (\<lambda>_. Inl (SQLiteBackendError (''entry not found: '' @ make_registry_key s a n)))"
    "sqlite_secret_exists ds' s a n = Inr False" "sqlite_secret_exists ds s a n = Inr True"
    "secret_id_for s a n = Inr i \<Longrightarrow> j \<noteq> i \<Longrightarrow> keeps_secret j ds ds'" "vocabulary_known ds'"
proof -
  from assms(1) obtain i' mode pl b t row ds1 where w: "secret_id_for s a n = Inr i'" "\<forall>j. keeps_secret j ds b" "ds_secrets b = ds_secrets ds"
    "delete_plan (pe_host e) mode t = Inr pl" "sc_secret_id (sp_row pl) = i'"
    "\<forall>j. keeps_secret j ds ds1" "find_active_secret ds1 i' = Some row"
    "\<exists>c l g x. commit_plan (h_now (pe_host e)) b pl = Inr c \<and> ds' = c\<lparr>ds_transactions := l, ds_peer_groups := g, ds_envelopes := x\<rparr>"
    by (rule delete_secret_InrE)
  from w(8) obtain c l g x where c: "commit_plan (h_now (pe_host e)) b pl = Inr c"
    "ds' = c\<lparr>ds_transactions := l, ds_peer_groups := g, ds_envelopes := x\<rparr>" by blast
  note r = committed_reads [OF c w(2,3) known, unfolded w(5)]
  have gone: "map_option fst (find_active_secret ds' i') = None" using r(1) delete_plan_fields(3) [OF w(4)] by simp
  show "get_sqlite_secret h ds' s a n = rbind (read_sqlite_storage_mode ds) (\<lambda>_. Inl (SQLiteBackendError (''entry not found: '' @ make_registry_key s a n)))"
    by (simp only: get_secret_find r(3) w(1) rbind_simps gone option.case)
  show "sqlite_secret_exists ds' s a n = Inr False" using gone by (simp add: sqlite_secret_exists_def w(1))
  have "map_option fst (find_active_secret ds i') = Some (fst row)"
    using keeps_secret_find [OF w(6) [rule_format] known, of i'] by (simp only: w(7) option.map)
  then show "sqlite_secret_exists ds s a n = Inr True" by (auto simp: sqlite_secret_exists_def w(1))
  show "secret_id_for s a n = Inr i \<Longrightarrow> j \<noteq> i \<Longrightarrow> keeps_secret j ds ds'" using r(2) w(1) by simp
  show "vocabulary_known ds'" by (rule r(4))
qed

subsection \<open>The store as a map\<close>

text \<open>A write of the store: a set or import (with a value) or a deletion; the key is the identifier of the secret.\<close>

inductive store_write :: "peer_env \<Rightarrow> string \<Rightarrow> string option \<Rightarrow> datastore \<Rightarrow> datastore \<Rightarrow> bool" for e where
  set: "secret_id_for s a n = Inr i \<Longrightarrow> set_sqlite_secret e entropy ds s a n v m = Inr ds' \<Longrightarrow> store_write e i (Some v) ds ds'"
| import_local: "secret_id_for s a n = Inr i \<Longrightarrow> import_sqlite_secret_local e entropy ds s a n v m = Inr ds' \<Longrightarrow> store_write e i (Some v) ds ds'"
| import_sync: "secret_id_for s a n = Inr i \<Longrightarrow> import_sqlite_secret_for_sync e entropy ds s a n v m = Inr ds' \<Longrightarrow> store_write e i (Some v) ds ds'"
| delete: "secret_id_for s a n = Inr i \<Longrightarrow> delete_sqlite_secret e entropy' ds s a n = Inr ds' \<Longrightarrow> store_write e i None ds ds'"

text \<open>The value stored under an identifier.\<close>

definition look_secret :: "host \<Rightarrow> datastore \<Rightarrow> string \<Rightarrow> string option" where
  "look_secret h ds i =
     (case read_sqlite_storage_mode ds of
        Inl _ \<Rightarrow> None
      | Inr mode \<Rightarrow>
          Option.bind (map_option fst (find_active_secret ds i)) (\<lambda>r.
            case decode_text_payload h (sc_encrypted_payload r) ''encrypted_payload'' mode of Inl _ \<Rightarrow> None | Inr v \<Rightarrow> Some v))"

lemma look_secret_get:
  assumes "secret_id_for s a n = Inr i"
  shows "look_secret h ds i = (case get_sqlite_secret h ds s a n of Inl _ \<Rightarrow> None | Inr v \<Rightarrow> Some v)"
  unfolding look_secret_def get_secret_find assms rbind_simps
  by (cases "read_sqlite_storage_mode ds"; cases "map_option fst (find_active_secret ds i)") (simp_all del: map_option_eq_Some None_eq_map_option_iff)

lemma keeps_secret_look:
  assumes "keeps_secret j ds ds'" "vocabulary_known ds"
  shows "look_secret h ds' j = look_secret h ds j"
proof -
  have "read_sqlite_storage_mode ds' = read_sqlite_storage_mode ds"
    using assms(1) by (intro storage_mode_metadata) (simp add: keeps_secret_def)
  then show ?thesis unfolding look_secret_def keeps_secret_find [OF assms] by simp
qed

lemma store_write_effect:
  assumes "store_write e i w ds ds'" "storage_ok e" "vocabulary_known ds"
  shows "look_secret (pe_host e) ds' i = w \<and> (\<forall>j. j \<noteq> i \<longrightarrow> look_secret (pe_host e) ds' j = look_secret (pe_host e) ds j) \<and>
    vocabulary_known ds'"
proof -
  have stored: ?thesis if "secret_id_for s a n = Inr i" "store_secret e entropy ds s a n v m p b = Inr ds'" "store_policy p" "w = Some v"
    for s a n entropy v m p b
  proof -
    note r = store_secret_reads [OF that(2,3) assms(2,3)]
    have "look_secret (pe_host e) ds' i = w" unfolding look_secret_get [OF that(1)] r(1) that(4) by simp
    moreover have "look_secret (pe_host e) ds' j = look_secret (pe_host e) ds j" if "j \<noteq> i" for j
      using keeps_secret_look [OF r(3) [OF \<open>secret_id_for s a n = Inr i\<close> that] assms(3)] .
    ultimately show ?thesis using r(4) by blast
  qed
  from assms(1) show ?thesis
  proof cases
    case (delete s a n entropy)
    note r = delete_secret_reads [OF delete(3) assms(3)]
    have "look_secret (pe_host e) ds' i = None"
      unfolding look_secret_get [OF delete(2)] r(1) by (cases "read_sqlite_storage_mode ds") simp_all
    moreover have "look_secret (pe_host e) ds' j = look_secret (pe_host e) ds j" if "j \<noteq> i" for j
      using keeps_secret_look [OF r(4) [OF delete(2) that] assms(3)] .
    ultimately show ?thesis using r(5) delete(1) by blast
  next
    case (set s a n entropy v m)
    show ?thesis by (rule stored [OF set(2) set(3) [unfolded set_sqlite_secret_def] store_policies(1) set(1)])
  next
    case (import_local s a n entropy v m)
    show ?thesis by (rule stored [OF import_local(2) import_local(3) [unfolded import_sqlite_secret_local_def] store_policies(2) import_local(1)])
  next
    case (import_sync s a n entropy v m)
    show ?thesis by (rule stored [OF import_sync(2) import_sync(3) [unfolded import_sqlite_secret_for_sync_def] store_policies(1) import_sync(1)])
  qed
qed

interpretation secrets: keyed_store "store_write e" "look_secret (pe_host e)" "\<lambda>ds. vocabulary_known ds \<and> storage_ok e" for e
  by unfold_locales (blast dest: store_write_effect)+

text \<open>C1. The store is a map from secrets to values: after any sequence of sets, imports and deletions, in whatever order, a
  secret reads as its last write says (the value that was set or imported, or not at all after a deletion) and
  a secret that was not written reads as before. This holds in both storage modes, through the transaction
  engine, the projection and the encryption of the columns.\<close>

theorem secret_store_map:
  assumes "runs (\<lambda>(i, w). store_write e i w) ws ds ds'" and "projections_wf ds" and "storage_ok e" and "secret_id_for s a n = Inr i"
  shows "(case get_sqlite_secret (pe_host e) ds' s a n of Inl _ \<Rightarrow> None | Inr v \<Rightarrow> Some v) =
    (case find (\<lambda>w. fst w = i) (rev ws) of
       None \<Rightarrow> (case get_sqlite_secret (pe_host e) ds s a n of Inl _ \<Rightarrow> None | Inr v \<Rightarrow> Some v)
     | Some w \<Rightarrow> snd w)"
proof -
  have "look_secret (pe_host e) ds' i = (case find (\<lambda>w. fst w = i) (rev ws) of None \<Rightarrow> look_secret (pe_host e) ds i | Some w \<Rightarrow> snd w)"
    using secrets.runs_look [OF assms(1), of i] wf_vocabulary_known [OF assms(2)] assms(3) by blast
  then show ?thesis unfolding look_secret_get [OF assms(4)] .
qed

subsection \<open>What the metadata reads as\<close>

lemma secret_values_all:
  assumes "secret_values h p i ids mode en ep st ca ua = Inr row"
  shows "\<exists>x. pj_optional_text p ''source'' = Inr x \<and> sc_source row = or_default x ''manual''"
    "\<exists>x. pj_optional_text p ''comment'' = Inr x \<and> sc_comment row = or_default x []"
    "\<exists>x. pj_optional_text p ''source_url'' = Inr x \<and> sc_source_url row = or_default x []"
    "\<exists>x. pj_optional_text p ''source_label'' = Inr x \<and> sc_source_label row = or_default x []"
    "\<exists>x. pj_optional_text p ''last_rotated_at'' = Inr x \<and> sc_last_rotated_at row = or_default x []"
    "\<exists>x. pj_optional_text p ''expires_at'' = Inr x \<and> sc_expires_at row = or_default x []"
    "\<exists>x. pj_optional_int p ''schema_version'' = Inr x \<and> sqlite_int_opt x = Inr (sc_schema_version row)"
    "\<exists>x. pj_optional_int p ''rotation_days'' = Inr x \<and> sqlite_int_opt x = Inr (sc_rotation_days row)"
    "\<exists>x. pj_optional_int p ''rotation_warn_days'' = Inr x \<and> sqlite_int_opt x = Inr (sc_rotation_warn_days row)"
  using assms unfolding secret_values_def by (elim rbind_InrE; (simp; fail)?; clarsimp)+

lemma optional_text: "map_of p f = Some (JStr x) \<Longrightarrow> pj_optional_text p f = Inr y \<Longrightarrow> y = Some x"
  by (simp add: pj_optional_text_def payload_get_def)

lemma optional_int: "map_of p f = Some (json_int_opt x) \<Longrightarrow> pj_optional_int p f = Inr y \<Longrightarrow> y = x"
  by (auto simp: pj_optional_int_def payload_get_def json_int_opt_def split: option.split_asm)

lemma or_default_Some: "or_default (Some x) d = (if x = [] then d else x)"
  by (simp add: or_default_def truthy_def)

lemma text_column:
  "\<exists>x. pj_optional_text p f = Inr x \<and> y = or_default x d \<Longrightarrow> map_of p f = Some (JStr z) \<Longrightarrow> y = (if z = [] then d else z)"
  by (auto dest!: optional_text simp: or_default_Some)

lemma int_column: "\<exists>x. pj_optional_int p f = Inr x \<and> sqlite_int_opt x = Inr y \<Longrightarrow> map_of p f = Some (json_int_opt z) \<Longrightarrow> y = z"
  by (auto dest!: optional_int sqlite_int_opt_id)

lemma set_payload_metadata:
  assumes "set_payload e t s a n v m mode = Inr p"
  shows "map_of p ''source'' = Some (JStr (em_source m))" "map_of p ''comment'' = Some (JStr (em_comment m))"
    "map_of p ''source_url'' = Some (JStr (em_source_url m))" "map_of p ''source_label'' = Some (JStr (em_source_label m))"
    "map_of p ''last_rotated_at'' = Some (JStr (em_last_rotated_at m))" "map_of p ''expires_at'' = Some (JStr (em_expires_at m))"
    "map_of p ''schema_version'' = Some (json_int_opt (Some (em_schema_version m)))"
    "map_of p ''rotation_days'' = Some (json_int_opt (em_rotation_days m))"
    "map_of p ''rotation_warn_days'' = Some (json_int_opt (em_rotation_warn_days m))"
    "map_of p ''domains'' = Some (json_texts (em_domains m))" "map_of p ''custom'' = Some (JObj (payload_custom m))"
    "map_of p ''service'' = Some (JStr s)" "map_of p ''account'' = Some (JStr a)" "map_of p ''name'' = None"
    "map_of p ''entry_type'' = Some (JStr (em_entry_type m))" "map_of p ''entry_kind'' = Some (JStr (em_entry_kind m))"
    "\<exists>stored. encrypt_payload (h_aead (pe_host e)) (h_storage_key (pe_host e)) (pe_nonce e (t @ ''encrypted_name'')) n ''encrypted_name'' mode = Inr stored \<and>
      map_of p ''encrypted_name_b64'' = Some (JStr (b64encode stored))"
proof -
  from assms obtain head en ep where p: "payload_head s a n m = Inr head" "encrypted_b64 e t mode n ''encrypted_name'' = Inr en"
    "p = head @ [(''encrypted_name_b64'', en), (''encrypted_payload_b64'', ep), (''content_hash_b64'', JStr (b64encode (sha256 v))),
             (''projection_created_at'', JStr (em_created_at m)), (''projection_updated_at'', JStr (em_updated_at m))]"
    unfolding set_payload_def by (elim rbind_InrE) auto
  from p(1) obtain i g h j where head: "head = [(''secret_id'', JStr i), (''owner_id'', JStr g), (''service_group_id'', JStr h),
             (''entry_type'', JStr (em_entry_type m)), (''entry_kind'', JStr (em_entry_kind m)), (''schema_id'', j),
             (''schema_version'', JInt (em_schema_version m)), (''service'', JStr s), (''account'', JStr a)] @
            metadata_payload_fields m @
            [(''locator_hash_b64'', JStr (b64encode (digest_bytes [''locator'', s, a, n])))]"
    unfolding payload_head_def by (elim rbind_InrE) blast
  note q = p(3) [unfolded head metadata_payload_fields_def]
  show "map_of p ''source'' = Some (JStr (em_source m))" "map_of p ''comment'' = Some (JStr (em_comment m))"
    "map_of p ''source_url'' = Some (JStr (em_source_url m))" "map_of p ''source_label'' = Some (JStr (em_source_label m))"
    "map_of p ''last_rotated_at'' = Some (JStr (em_last_rotated_at m))" "map_of p ''expires_at'' = Some (JStr (em_expires_at m))"
    "map_of p ''schema_version'' = Some (json_int_opt (Some (em_schema_version m)))"
    "map_of p ''rotation_days'' = Some (json_int_opt (em_rotation_days m))"
    "map_of p ''rotation_warn_days'' = Some (json_int_opt (em_rotation_warn_days m))"
    "map_of p ''domains'' = Some (json_texts (em_domains m))" "map_of p ''custom'' = Some (JObj (payload_custom m))"
    "map_of p ''service'' = Some (JStr s)" "map_of p ''account'' = Some (JStr a)" "map_of p ''name'' = None"
    "map_of p ''entry_type'' = Some (JStr (em_entry_type m))" "map_of p ''entry_kind'' = Some (JStr (em_entry_kind m))"
    unfolding q by (simp_all add: json_int_opt_def)
  show "\<exists>stored. encrypt_payload (h_aead (pe_host e)) (h_storage_key (pe_host e)) (pe_nonce e (t @ ''encrypted_name'')) n ''encrypted_name'' mode = Inr stored \<and>
      map_of p ''encrypted_name_b64'' = Some (JStr (b64encode stored))"
    using p(2) unfolding q encrypted_b64_Inr by (elim exE conjE) simp
qed

lemma plan_secret_parts:
  assumes "plan_secret h t i et ek en ep mode st c u = Inr pl"
  obtains ti ki ca ua where "secret_values h (tx_payload t) i (ti, ki) mode en ep st ca ua = Inr (sp_row pl)"
    "entry_type_id_for_name et False = Inr ti" "entry_kind_id_for_name ek False = Inr ki"
  using assms unfolding plan_secret_def Let_def by (elim rbind_InrE) auto

lemma set_plan_parts:
  assumes "set_plan h mode t = Inr pl" "map_of (tx_payload t) ''entry_type'' = Some (JStr et)" "map_of (tx_payload t) ''entry_kind'' = Some (JStr ek)"
  obtains i en ep c u where "plan_secret h t i et ek en ep mode ''active'' c u = Inr pl"
proof -
  from assms(1) obtain i et' ek' en ep c u where s: "pj_required_text (tx_payload t) ''entry_type'' = Inr et'"
    "pj_required_text (tx_payload t) ''entry_kind'' = Inr ek'" "plan_secret h t i et' ek' en ep mode ''active'' c u = Inr pl"
    unfolding set_plan_def Let_def by (elim rbind_InrE) blast
  moreover have "et' = et" "ek' = ek" using s(1,2) assms(2,3) by (auto simp: pj_required_text_def payload_get_def split: if_split_asm)
  ultimately show thesis using that by blast
qed

text \<open>The row of a set, column by column.\<close>

lemma set_plan_row:
  assumes pl: "set_plan (pe_host e) mode t = Inr pl" and p: "set_payload e k s a n v m mode = Inr (tx_payload t)" and ok: "storage_ok e"
  shows "sc_name (sp_row pl) = n" "sc_service (sp_row pl) = s" "sc_account (sp_row pl) = a"
    "sc_source (sp_row pl) = (if em_source m = [] then ''manual'' else em_source m)" "sc_comment (sp_row pl) = em_comment m"
    "sc_source_url (sp_row pl) = em_source_url m" "sc_source_label (sp_row pl) = em_source_label m"
    "sc_last_rotated_at (sp_row pl) = em_last_rotated_at m" "sc_expires_at (sp_row pl) = em_expires_at m"
    "sc_schema_version (sp_row pl) = Some (em_schema_version m)" "sc_rotation_days (sp_row pl) = em_rotation_days m"
    "sc_rotation_warn_days (sp_row pl) = em_rotation_warn_days m"
    "entry_type_id_for_name (em_entry_type m) False = Inr (sc_entry_type_id (sp_row pl))"
    "entry_kind_id_for_name (em_entry_kind m) False = Inr (sc_entry_kind_id (sp_row pl))"
    "sp_custom pl = payload_custom m" "sp_domains pl = em_domains m"
proof -
  note f = set_payload_metadata [OF p]
  from set_plan_parts [OF pl f(15,16)] obtain i en ep c u where
    ps: "plan_secret (pe_host e) t i (em_entry_type m) (em_entry_kind m) en ep mode ''active'' c u = Inr pl" .
  from plan_secret_parts [OF ps] obtain ti ki ca ua where
    r: "secret_values (pe_host e) (tx_payload t) i (ti, ki) mode en ep ''active'' ca ua = Inr (sp_row pl)"
    "entry_type_id_for_name (em_entry_type m) False = Inr ti" "entry_kind_id_for_name (em_entry_kind m) False = Inr ki" .
  note g = plan_secret_fields [OF ps] and h = secret_values_all [OF r(1)] and d = secret_values_row [OF r(1)]
  show "sc_service (sp_row pl) = s" "sc_account (sp_row pl) = a"
    using g(5,6) f(12,13) by (auto simp: pj_required_text_def payload_get_def split: if_split_asm)
  show "sc_source (sp_row pl) = (if em_source m = [] then ''manual'' else em_source m)" by (rule text_column [OF h(1) f(1)])
  show "sc_comment (sp_row pl) = em_comment m" using text_column [OF h(2) f(2)] by (simp split: if_split_asm)
  show "sc_source_url (sp_row pl) = em_source_url m" using text_column [OF h(3) f(3)] by (simp split: if_split_asm)
  show "sc_source_label (sp_row pl) = em_source_label m" using text_column [OF h(4) f(4)] by (simp split: if_split_asm)
  show "sc_last_rotated_at (sp_row pl) = em_last_rotated_at m" using text_column [OF h(5) f(5)] by (simp split: if_split_asm)
  show "sc_expires_at (sp_row pl) = em_expires_at m" using text_column [OF h(6) f(6)] by (simp split: if_split_asm)
  show "sc_schema_version (sp_row pl) = Some (em_schema_version m)" "sc_rotation_days (sp_row pl) = em_rotation_days m"
    "sc_rotation_warn_days (sp_row pl) = em_rotation_warn_days m"
    by (rule int_column [OF h(7) f(7)] int_column [OF h(8) f(8)] int_column [OF h(9) f(9)])+
  show "entry_type_id_for_name (em_entry_type m) False = Inr (sc_entry_type_id (sp_row pl))"
    "entry_kind_id_for_name (em_entry_kind m) False = Inr (sc_entry_kind_id (sp_row pl))" using r(2,3) d(2,3) by simp_all
  show "sp_custom pl = payload_custom m"
    using plan_secret_custom [OF ps] f(11) by (auto simp: pj_custom_metadata_def split: if_split_asm)
  have texts: "rmapM (\<lambda>j. case nonblank_text j of None \<Rightarrow> Inl (x :: py_error) | Some y \<Rightarrow> Inr y) (map JStr ys) = Inr zs \<Longrightarrow> zs = ys" for x ys zs
    by (induction ys arbitrary: zs) (auto simp: rbind_Inr_iff nonblank_text_def split: option.split_asm if_split_asm)
  show "sp_domains pl = em_domains m" using g(10) f(10) by (auto simp: pj_text_list_def json_texts_def dest: texts)
  from f(17) obtain stored where st: "encrypt_payload (h_aead (pe_host e)) (h_storage_key (pe_host e)) (pe_nonce e (k @ ''encrypted_name'')) n ''encrypted_name'' mode = Inr stored"
    "map_of (tx_payload t) ''encrypted_name_b64'' = Some (JStr (b64encode stored))" by blast
  have en: "en = stored" using required_b64 [OF st(2)] set_plan_fields(2) [OF pl] g(3) by simp
  have "decode_storage_text (pe_host e) stored ''encrypted_name'' mode = Inr (sc_name (sp_row pl))"
    using g(9) f(14) by (auto simp: projection_name_def pj_optional_text_def payload_get_def truthy_def rbind_Inr_iff en)
  with st(1) ok show "sc_name (sp_row pl) = n"
    unfolding storage_ok_def by (auto simp: storage_field_def intro: stored_text(1))
qed

lemma rmapM_map: "(\<And>x. x \<in> set xs \<Longrightarrow> f x = Inr (g x)) \<Longrightarrow> rmapM f xs = Inr (map g xs)"
  by (induction xs) simp_all

lemma insort_key_of_map: "insort_key f (g x) (map g xs) = map g (insort_key (\<lambda>y. f (g y)) x xs)"
  by (induction xs) simp_all

lemma sort_key_of_map: "sort_key f (map g xs) = map g (sort_key (\<lambda>y. f (g y)) xs)"
  by (induction xs) (simp_all add: insort_key_of_map)

text \<open>Custom metadata is read back with every value in canonical form.\<close>

lemma custom_read:
  assumes rows: "filter (\<lambda>r. si_secret_id r = i) (ds_custom ds) = map (\<lambda>(k, v). \<lparr>si_secret_id = i, si_key = k,
      si_value = canonical_json_text v, si_created_at = at\<rparr>) (sort_key fst custom)"
    and wf: "dict_wf custom" "\<forall>(k, v) \<in> set custom. json_wf v"
  shows "\<exists>c. custom_for_secret ds i = Inr c \<and> (\<forall>k. map_of c k = map_option canon (map_of custom k))"
proof -
  let ?row = "\<lambda>(k, v). \<lparr>si_secret_id = i, si_key = k, si_value = canonical_json_text v, si_created_at = at\<rparr>"
  let ?read = "\<lambda>r. case json_loads (si_value r) of None \<Rightarrow> Inl (SQLiteBackendError ''SQLite projection custom metadata is invalid JSON'')
        | Some v \<Rightarrow> Inr (si_key r, v)"
  define ks where "ks = sort_key (\<lambda>kv. nocase (fst kv)) (sort_key fst custom)"
  have sorted: "sort_key (\<lambda>r. nocase (si_key r)) (map ?row (sort_key fst custom)) = map ?row ks"
    unfolding ks_def sort_key_of_map by (simp add: case_prod_beta)
  have read: "?read (?row kv) = Inr (fst kv, canon (snd kv))" if "kv \<in> set ks" for kv
    using that wf(2) by (auto simp: ks_def json_loads_dumps)
  have "custom_for_secret ds i = rmapM (\<lambda>kv. ?read (?row kv)) ks"
    unfolding custom_for_secret_def rows sorted by (induction ks) auto
  also have "\<dots> = Inr (map (\<lambda>kv. (fst kv, canon (snd kv))) ks)" by (rule rmapM_map) (rule read)
  finally have c: "custom_for_secret ds i = Inr (map (\<lambda>kv. (fst kv, canon (snd kv))) ks)" .
  have "distinct (map fst ks)" using wf(1) by (simp add: ks_def dict_wf_def distinct_map_fst_sort_key)
  then have "map_of ks = map_of custom"
    using wf(1) by (intro map_of_inject_set [THEN iffD2]) (auto simp: ks_def dict_wf_def)
  moreover have "map_of (map (\<lambda>kv. (fst kv, canon (snd kv))) xs) k = map_option canon (map_of xs k)" for xs :: json_obj and k
    by (induction xs) auto
  ultimately show ?thesis using c by simp
qed

lemma payload_custom_map:
  "map_of (payload_custom m) k =
    (if k = SYNC_ORIGIN_CUSTOM_KEY then (if em_sync_origin_host m = [] then None else Some (JStr (em_sync_origin_host m)))
     else if k = ENTRY_ID_CUSTOM_KEY then (if em_entry_id m = [] then None else Some (JStr (em_entry_id m)))
     else map_of (em_custom m) k)"
  by (simp add: payload_custom_def Let_def SYNC_ORIGIN_CUSTOM_KEY_def ENTRY_ID_CUSTOM_KEY_def)

definition metadata_texts_ok :: "EntryMetadata \<Rightarrow> bool" where
  "metadata_texts_ok m \<longleftrightarrow> json_wf (JObj (em_custom m)) \<and> utf8_ok (em_entry_id m) \<and> utf8_ok (em_sync_origin_host m)"

lemma payload_custom_wf:
  assumes "metadata_texts_ok m"
  shows "dict_wf (payload_custom m)" "\<forall>(k, v) \<in> set (payload_custom m). json_wf v"
proof -
  show wf: "dict_wf (payload_custom m)" using assms by (simp add: metadata_texts_ok_def payload_custom_def Let_def)
  have "json_wf v" if "map_of (payload_custom m) k = Some v" for k v
  proof (cases "k \<in> {SYNC_ORIGIN_CUSTOM_KEY, ENTRY_ID_CUSTOM_KEY}")
    case True
    with that assms show ?thesis by (auto simp: payload_custom_map metadata_texts_ok_def split: if_split_asm)
  next
    case False
    with that have "map_of (em_custom m) k = Some v" by (simp add: payload_custom_map)
    with assms show ?thesis by (auto simp: metadata_texts_ok_def dest: map_of_SomeD)
  qed
  with wf show "\<forall>(k, v) \<in> set (payload_custom m). json_wf v" by (auto simp: dict_wf_def)
qed

text \<open>What is read after a set: the row of the plan, its vocabulary names and its lists.\<close>

lemma committed_metadata:
  assumes c: "commit_plan now b pl = Inr c" and ds': "ds' = c\<lparr>ds_transactions := l, ds_peer_groups := g, ds_envelopes := x\<rparr>"
    and names: "vocabulary_named m b"
      "entry_type_id_for_name (em_entry_type m) False = Inr (sc_entry_type_id (sp_row pl))"
      "entry_kind_id_for_name (em_entry_kind m) False = Inr (sc_entry_kind_id (sp_row pl))"
    and st: "sc_state (sp_row pl) = ''active''" and custom: "sp_custom pl = payload_custom m" "metadata_texts_ok m"
  obtains cu where "find_active_secret ds' (sc_secret_id (sp_row pl)) = Some (kept_row b (sp_row pl), em_entry_type m, em_entry_kind m)"
    "domains_for_secret ds' (sc_secret_id (sp_row pl)) = sort_key nocase (sorted_list_of_set (set (sp_domains pl)))"
    "custom_for_secret ds' (sc_secret_id (sp_row pl)) = Inr cu" "\<And>k. map_of cu k = map_option canon (map_of (payload_custom m) k)"
proof -
  note eff = commit_plan_effect [OF c]
  let ?i = "sc_secret_id (sp_row pl)" and ?r = "kept_row b (sp_row pl)"
  have r: "sc_entry_type_id ?r = sc_entry_type_id (sp_row pl)" "sc_entry_kind_id ?r = sc_entry_kind_id (sp_row pl)" "sc_state ?r = ''active''"
    using st by (simp_all add: kept_row_def split: option.split)
  have n: "map_option vo_name (t_get vo_id (sc_entry_type_id (sp_row pl)) (ds_entry_types b)) = Some (em_entry_type m)"
    "map_option vo_name (t_get vo_id (sc_entry_kind_id (sp_row pl)) (ds_entry_kinds b)) = Some (em_entry_kind m)"
    using names by (simp_all add: vocabulary_named_def)
  then have "t_has vo_id (sc_entry_type_id (sp_row pl)) (ds_entry_types b)" "t_has vo_id (sc_entry_kind_id (sp_row pl)) (ds_entry_kinds b)"
    by (auto simp: t_has_iff_get)
  then have same: "ds_entry_types ds' = ds_entry_types b" "ds_entry_kinds ds' = ds_entry_kinds b" by (simp_all add: ds' eff(5,6))
  have "t_get sc_secret_id ?i (ds_secrets ds') = Some ?r" by (simp add: ds' eff(1) secret_upsert_get kept_row_def)
  then have find: "find_active_secret ds' ?i = Some (?r, em_entry_type m, em_entry_kind m)"
    using n by (auto simp: find_active_secret_def join_vocabulary_def r same)
  have dom: "filter (\<lambda>d. si_secret_id d = ?i) (ds_domains ds') = map (\<lambda>d. \<lparr>si_secret_id = ?i, si_key = d, si_value = [], si_created_at = sc_updated_at (sp_row pl)\<rparr>)
      (sorted_list_of_set (set (sp_domains pl)))"
    by (simp add: ds' eff(3) write_domains_def filter_map o_def)
  have "domains_for_secret ds' ?i = sort_key nocase (sorted_list_of_set (set (sp_domains pl)))"
    unfolding domains_for_secret_def dom by (simp add: o_def)
  moreover have cu: "filter (\<lambda>r. si_secret_id r = ?i) (ds_custom ds') = map (\<lambda>(k, v). \<lparr>si_secret_id = ?i, si_key = k,
      si_value = canonical_json_text v, si_created_at = sc_updated_at (sp_row pl)\<rparr>) (sort_key fst (payload_custom m))"
    by (simp add: ds' eff(4) write_custom_metadata_def filter_map o_def case_prod_beta custom(1))
  ultimately show thesis
    using custom_read [OF cu payload_custom_wf [OF custom(2)]] find that by blast
qed

text \<open>A tag table on which the tags of a list keep their names: no row has the identifier of one of them under another name, and tags
  with different names have different identifiers.\<close>

definition tags_named :: "string list \<Rightarrow> tag_row list \<Rightarrow> bool" where
  "tags_named tags t \<longleftrightarrow> (\<forall>x \<in> set tags. \<forall>c k. canonical_taxonomy_name x = Inr c \<and> tag_id_for_name x False = Inr k \<longrightarrow>
     (\<forall>q \<in> set t. tg_tag_id q = k \<longrightarrow> tg_name q = c) \<and> (\<forall>y \<in> set tags. tag_id_for_name y False = Inr k \<longrightarrow> canonical_taxonomy_name y = Inr c))"

lemma tags_namedD:
  assumes "tags_named tags t" "x \<in> set tags" "canonical_taxonomy_name x = Inr c" "tag_id_for_name x False = Inr k"
  shows "q \<in> set t \<Longrightarrow> tg_tag_id q = k \<Longrightarrow> tg_name q = c"
    "y \<in> set tags \<Longrightarrow> tag_id_for_name y False = Inr k \<Longrightarrow> canonical_taxonomy_name y = Inr c"
  using assms unfolding tags_named_def by blast+

lemma sort_key_canonical:
  assumes "distinct xs" "\<forall>x \<in> set xs. lower x = x"
  shows "sort_key nocase xs = sorted_list_of_set (set xs)"
proof -
  have "insort_key nocase y ys = insort y ys" if "lower y = y" "\<forall>z \<in> set ys. lower z = z" for y ys
    using that by (induction ys) (simp_all add: nocase_def)
  then have "sort_key nocase xs = sort xs" using assms(2) by (induction xs) simp_all
  then show ?thesis using assms(1) by (simp add: sorted_list_of_set_sort_remdups distinct_remdups_id)
qed

text \<open>The tags read after a commit are the canonical names of the tags of the plan.\<close>

lemma committed_tags:
  assumes c: "commit_plan now b pl = Inr c" and named: "tags_named (sp_tags pl) (ds_tags b)"
  shows "tags_for_secret c (sc_secret_id (sp_row pl)) = sorted_list_of_set {n. \<exists>x \<in> set (sp_tags pl). canonical_taxonomy_name x = Inr n}"
proof -
  let ?i = "sc_secret_id (sp_row pl)" and ?S = "{n. \<exists>x \<in> set (sp_tags pl). canonical_taxonomy_name x = Inr n}"
  note r = commit_plan_tags [OF c]
  define nm where "nm k = map_option tg_name (t_get tg_tag_id k (ds_tags c))" for k
  have name: "nm k = Some n" if x: "x \<in> set (sp_tags pl)" "canonical_taxonomy_name x = Inr n" "tag_id_for_name x False = Inr k" for x n k
  proof -
    from x r(2,4) have "t_has tg_tag_id k (ds_tags c)" by blast
    then obtain q where q: "t_get tg_tag_id k (ds_tags c) = Some q" by (auto simp: t_has_iff_get)
    note q' = t_get_SomeD [OF q]
    from r(5) q' consider "q \<in> set (ds_tags b)" | y where "y \<in> set (sp_tags pl)" "canonical_taxonomy_name y = Inr (tg_name q)"
      "tag_id_for_name y False = Inr (tg_tag_id q)" by blast
    then have "tg_name q = n"
    proof cases
      case 1
      then show ?thesis using tags_namedD(1) [OF named x] q' by blast
    next
      case 2
      then have "canonical_taxonomy_name y = Inr n" using tags_namedD(2) [OF named x] q' by blast
      with 2(2) show ?thesis by simp
    qed
    then show ?thesis by (simp add: nm_def q)
  qed
  have one: "\<exists>x n. x \<in> set (sp_tags pl) \<and> canonical_taxonomy_name x = Inr n \<and> tag_id_for_name x False = Inr k \<and> nm k = Some n"
    if "k \<in> set (tag_keys ?i c)" for k
  proof -
    from that r(2) obtain x where x: "x \<in> set (sp_tags pl)" "tag_id_for_name x False = Inr k" by blast
    moreover from x(1) r(1) obtain n where "canonical_taxonomy_name x = Inr n" by blast
    ultimately show ?thesis using name by blast
  qed
  define ns where "ns = List.map_filter nm (tag_keys ?i c)"
  have ns: "ns = map (\<lambda>k. the (nm k)) (tag_keys ?i c)"
  proof -
    have "filter (\<lambda>k. nm k \<noteq> None) (tag_keys ?i c) = tag_keys ?i c" using one by (intro filter_True) fastforce
    then show ?thesis by (simp add: ns_def map_filter_def o_def)
  qed
  have inj: "inj_on (\<lambda>k. the (nm k)) (set (tag_keys ?i c))"
  proof (rule inj_onI)
    fix k l assume kl: "k \<in> set (tag_keys ?i c)" "l \<in> set (tag_keys ?i c)" "the (nm k) = the (nm l)"
    from one [OF kl(1)] one [OF kl(2)] kl(3) obtain x y n where "canonical_taxonomy_name x = Inr n" "tag_id_for_name x False = Inr k"
      "canonical_taxonomy_name y = Inr n" "tag_id_for_name y False = Inr l" by auto
    then show "k = l" using tag_id_canonical [of x n] tag_id_canonical [of y n] by simp
  qed
  have "distinct ns" unfolding ns using r(3) inj by (simp add: distinct_map)
  moreover have set_ns: "set ns = ?S"
  proof
    show "set ns \<subseteq> ?S" unfolding ns using one by fastforce
    show "?S \<subseteq> set ns"
    proof
      fix n assume "n \<in> ?S"
      then obtain x where x: "x \<in> set (sp_tags pl)" "canonical_taxonomy_name x = Inr n" by blast
      with r(1) obtain k where k: "tag_id_for_name x False = Inr k" "k \<in> set (tag_keys ?i c)" by blast
      with name [OF x] show "n \<in> set ns" unfolding ns by force
    qed
  qed
  ultimately have "sort_key nocase ns = sorted_list_of_set ?S" using canonical_lower by (subst sort_key_canonical) auto
  moreover have "tags_for_secret c ?i = sort_key nocase ns"
    by (simp add: tags_for_secret_def ns_def tag_keys_def nm_def map_filter_def filter_map o_def)
  ultimately show ?thesis by simp
qed

text \<open>The stamps, the schema and the tags of a set.\<close>

lemma set_payload_stamps:
  assumes "set_payload e k s a n v m mode = Inr p"
  shows "map_of p ''tags'' = Some (json_texts (em_tags m))" "map_of p ''projection_created_at'' = Some (JStr (em_created_at m))"
    "map_of p ''projection_updated_at'' = Some (JStr (em_updated_at m))"
    "\<exists>i. payload_schema_id (em_schema_id m) = Inr i \<and> map_of p ''schema_id'' = Some (case i of None \<Rightarrow> JNull | Some x \<Rightarrow> JStr x)"
  using assms by (auto simp: set_payload_def payload_head_def metadata_payload_fields_def rbind_Inr_iff)

lemma set_plan_projected:
  assumes "set_plan h mode t = Inr pl"
  shows "sp_tags pl = texts_member (tx_payload t) ''tags''" "sc_schema_id (sp_row pl) = opt_member (tx_payload t) ''schema_id''"
    "sc_created_at (sp_row pl) = text_member (tx_payload t) ''projection_created_at'' (or_empty (tx_created_at t))"
    "sc_updated_at (sp_row pl) = text_member (tx_payload t) ''projection_updated_at'' (or_empty (tx_created_at t))"
proof -
  let ?p = "tx_payload t"
  have "plan_secret h t (text_member ?p ''secret_id'' []) (text_member ?p ''entry_type'' []) (text_member ?p ''entry_kind'' [])
      (bytes_member ?p ''encrypted_name_b64'') (bytes_member ?p ''encrypted_payload_b64'') mode ''active''
      (opt_member ?p ''projection_created_at'') (opt_member ?p ''projection_updated_at'') = Inr pl"
    using assms unfolding set_plan_def Let_def
    by (elim rbind_InrE) (auto dest!: optional_text_member required_text_member required_identifier_member required_b64_member)
  note r = plan_projected [OF this]
  have stamp: "(if truthy (opt_member ?p f) then the (opt_member ?p f) else d) = text_member ?p f d" for f d
    using or_default_member [of ?p f d] by (simp add: or_default_def)
  show "sp_tags pl = texts_member ?p ''tags''" by (rule r(4))
  show "sc_schema_id (sp_row pl) = opt_member ?p ''schema_id''"
    "sc_created_at (sp_row pl) = text_member ?p ''projection_created_at'' (or_empty (tx_created_at t))"
    "sc_updated_at (sp_row pl) = text_member ?p ''projection_updated_at'' (or_empty (tx_created_at t))"
    using r(1) unfolding stamp by (auto simp: projected_row_def)
qed

lemma payload_schema_id_read:
  assumes "payload_schema_id x = Inr i"
  shows "if x = [] \<or> is_identifier Schema x then or_empty i = x else schema_id_for_name x = Inr (or_empty i)"
proof (cases "x = [] \<or> is_identifier Schema x")
  case True
  then show ?thesis using assms by (auto simp: payload_schema_id_def validate_identifier_ok or_empty_def split: if_split_asm)
next
  case False
  then have "validate_identifier x Schema ''schema_id'' \<noteq> Inr w" for w by (simp add: is_identifier_iff validate_identifier_iff)
  then show ?thesis using assms False by (auto simp: payload_schema_id_def or_empty_def rbind_Inr_iff split: sum.split_asm)
qed

lemma set_plan_stamps:
  assumes pl: "set_plan h mode t = Inr pl" and p: "set_payload e k s a n v m mode = Inr (tx_payload t)" and at: "tx_created_at t = Some now"
  shows "sc_created_at (sp_row pl) = (if em_created_at m = [] then now else em_created_at m)"
    "sc_updated_at (sp_row pl) = (if em_updated_at m = [] then now else em_updated_at m)" "sp_tags pl = em_tags m"
    "if em_schema_id m = [] \<or> is_identifier Schema (em_schema_id m) then or_empty (sc_schema_id (sp_row pl)) = em_schema_id m
      else schema_id_for_name (em_schema_id m) = Inr (or_empty (sc_schema_id (sp_row pl)))"
proof -
  note f = set_payload_stamps [OF p] and r = set_plan_projected [OF pl]
  show "sc_created_at (sp_row pl) = (if em_created_at m = [] then now else em_created_at m)"
    "sc_updated_at (sp_row pl) = (if em_updated_at m = [] then now else em_updated_at m)"
    by (simp_all add: r f text_member_def opt_member_def at or_empty_def)
  have "List.map_filter (\<lambda>j. case j of JStr s \<Rightarrow> Some s | _ \<Rightarrow> None) (map JStr ys) = ys" for ys
    by (induction ys) (simp_all add: map_filter_simps)
  then show "sp_tags pl = em_tags m" by (simp add: r f texts_member_def json_texts_def)
  from f(4) obtain i where i: "payload_schema_id (em_schema_id m) = Inr i" "sc_schema_id (sp_row pl) = i"
    by (auto simp: r opt_member_def split: option.split_asm)
  then show "if em_schema_id m = [] \<or> is_identifier Schema (em_schema_id m) then or_empty (sc_schema_id (sp_row pl)) = em_schema_id m
      else schema_id_for_name (em_schema_id m) = Inr (or_empty (sc_schema_id (sp_row pl)))"
    using payload_schema_id_read by blast
qed

lemma kept_row_fields:
  "sc_name (kept_row b r) = sc_name r" "sc_comment (kept_row b r) = sc_comment r" "sc_service (kept_row b r) = sc_service r"
  "sc_account (kept_row b r) = sc_account r" "sc_source (kept_row b r) = sc_source r" "sc_source_url (kept_row b r) = sc_source_url r"
  "sc_source_label (kept_row b r) = sc_source_label r" "sc_rotation_days (kept_row b r) = sc_rotation_days r"
  "sc_rotation_warn_days (kept_row b r) = sc_rotation_warn_days r" "sc_last_rotated_at (kept_row b r) = sc_last_rotated_at r"
  "sc_expires_at (kept_row b r) = sc_expires_at r" "sc_schema_version (kept_row b r) = sc_schema_version r"
  "sc_schema_id (kept_row b r) = sc_schema_id r" "sc_updated_at (kept_row b r) = sc_updated_at r"
  by (simp_all add: kept_row_def split: option.split)

text \<open>C11. The metadata of a secret survives the store: after a set, the metadata that is read has the locator and the name
  of the set, the entry type and kind as they were given, and the comment, source, labels, rotation and expiry fields, the
  schema version, the entry identifier and the origin host of the metadata that was set. A schema identifier is read as it was
  given, and a schema name as the identifier of that name. The update time is the given one (the clock if it is empty); the creation
  time is that of the row the secret had before, and for a new secret the given one. The tags are the canonical names of the given
  tags, sorted and without duplicates, as long as the tag table names them (a vocabulary transaction may have renamed a tag). The
  domains are the set of the given domains, sorted; custom fields have the canonical form of the values that were given, and the two
  reserved fields never show as custom fields.\<close>

theorem secret_metadata_roundtrip:
  assumes "set_sqlite_secret e entropy ds s a n v m = Inr ds'" and "storage_ok e" and "metadata_texts_ok m"
  shows "\<exists>m'. get_sqlite_metadata ds' s a n = Inr m' \<and> em_service m' = s \<and> em_account m' = a \<and> em_name m' = n \<and>
    em_entry_type m' = em_entry_type m \<and> em_entry_kind m' = em_entry_kind m \<and> em_comment m' = em_comment m \<and>
    em_source m' = (if em_source m = [] then ''manual'' else em_source m) \<and> em_source_url m' = em_source_url m \<and>
    em_source_label m' = em_source_label m \<and> em_schema_version m' = em_schema_version m \<and>
    em_rotation_days m' = em_rotation_days m \<and> em_rotation_warn_days m' = em_rotation_warn_days m \<and>
    em_last_rotated_at m' = em_last_rotated_at m \<and> em_expires_at m' = em_expires_at m \<and>
    em_entry_id m' = em_entry_id m \<and> em_sync_origin_host m' = em_sync_origin_host m \<and>
    (if em_schema_id m = [] \<or> is_identifier Schema (em_schema_id m) then em_schema_id m' = em_schema_id m
     else schema_id_for_name (em_schema_id m) = Inr (em_schema_id m')) \<and>
    em_updated_at m' = (if em_updated_at m = [] then h_now (pe_host e) else em_updated_at m) \<and>
    (\<exists>i. secret_id_for s a n = Inr i \<and> em_created_at m' = (case t_get sc_secret_id i (ds_secrets ds) of Some old \<Rightarrow> sc_created_at old
      | None \<Rightarrow> if em_created_at m = [] then h_now (pe_host e) else em_created_at m)) \<and>
    (tags_named (em_tags m) (ds_tags ds) \<longrightarrow>
      em_tags m' = sorted_list_of_set {c. \<exists>x \<in> set (em_tags m). canonical_taxonomy_name x = Inr c}) \<and>
    em_domains m' = sort_key nocase (sorted_list_of_set (set (em_domains m))) \<and>
    (\<forall>k. map_of (em_custom m') k = (if is_internal_custom_field k then None else map_option canon (map_of (em_custom m) k)))"
proof -
  from assms(1) [unfolded set_sqlite_secret_def] store_policies(1) obtain i mode pl b t where w: "secret_id_for s a n = Inr i"
    "set_plan (pe_host e) mode t = Inr pl" "sc_secret_id (sp_row pl) = i"
    "\<exists>c l g x. commit_plan (h_now (pe_host e)) b pl = Inr c \<and> ds' = c\<lparr>ds_transactions := l, ds_peer_groups := g, ds_envelopes := x\<rparr>"
    "\<exists>k. set_payload e k s a n v m mode = Inr (tx_payload t)" "vocabulary_named m b"
    "tx_created_at t = Some (h_now (pe_host e))" "ds_secrets b = ds_secrets ds" "ds_tags b = ds_tags ds"
    by (rule store_secret_InrE)
  from w(4,5) obtain c l g x k where c: "commit_plan (h_now (pe_host e)) b pl = Inr c"
    "ds' = c\<lparr>ds_transactions := l, ds_peer_groups := g, ds_envelopes := x\<rparr>" and p: "set_payload e k s a n v m mode = Inr (tx_payload t)" by blast
  note row = set_plan_row [OF w(2) p assms(2)] and stamps = set_plan_stamps [OF w(2) p w(7)]
  obtain cu where f: "find_active_secret ds' i = Some (kept_row b (sp_row pl), em_entry_type m, em_entry_kind m)"
    "domains_for_secret ds' i = sort_key nocase (sorted_list_of_set (set (em_domains m)))"
    "custom_for_secret ds' i = Inr cu" "\<And>k. map_of cu k = map_option canon (map_of (payload_custom m) k)"
    using committed_metadata [OF c w(6) row(13,14) set_plan_fields(4) [OF w(2)] row(15) assms(3)] by (auto simp: w(3) row(16))
  have i: "sc_secret_id (kept_row b (sp_row pl)) = i" by (simp add: kept_row_def w(3) split: option.split)
  obtain m' where m': "metadata_from_row ds' (kept_row b (sp_row pl), em_entry_type m, em_entry_kind m) = Inr m'"
    by (simp add: metadata_from_row_def i f(3))
  have read: "get_sqlite_metadata ds' s a n = Inr m'" by (simp add: get_sqlite_metadata_def active_secret_row_def w(1) f(1) m')
  have keys: "ENTRY_ID_CUSTOM_KEY \<noteq> SYNC_ORIGIN_CUSTOM_KEY" by (simp add: ENTRY_ID_CUSTOM_KEY_def SYNC_ORIGIN_CUSTOM_KEY_def)
  have created: "em_created_at m' = (case t_get sc_secret_id i (ds_secrets ds) of Some old \<Rightarrow> sc_created_at old
      | None \<Rightarrow> if em_created_at m = [] then h_now (pe_host e) else em_created_at m)"
    using m' by (auto simp: metadata_from_row_def i f(3) kept_row_def w(3,8) stamps(1) split: option.split)
  have schema: "em_schema_id m' = or_empty (sc_schema_id (sp_row pl))" "em_updated_at m' = sc_updated_at (sp_row pl)"
    "em_tags m' = tags_for_secret ds' i"
    using m' by (auto simp: metadata_from_row_def i f(3) kept_row_fields)
  have "tags_for_secret ds' i = tags_for_secret c i" by (simp add: c(2) tags_for_secret_def)
  then have tags: "tags_named (em_tags m) (ds_tags ds) \<longrightarrow>
      em_tags m' = sorted_list_of_set {c. \<exists>x \<in> set (em_tags m). canonical_taxonomy_name x = Inr c}"
    using committed_tags [OF c(1)] by (simp add: schema(3) w(3,9) stamps(3))
  have plain: "em_service m' = s \<and> em_account m' = a \<and> em_name m' = n \<and>
    em_entry_type m' = em_entry_type m \<and> em_entry_kind m' = em_entry_kind m \<and> em_comment m' = em_comment m \<and>
    em_source m' = (if em_source m = [] then ''manual'' else em_source m) \<and> em_source_url m' = em_source_url m \<and>
    em_source_label m' = em_source_label m \<and> em_schema_version m' = em_schema_version m \<and>
    em_rotation_days m' = em_rotation_days m \<and> em_rotation_warn_days m' = em_rotation_warn_days m \<and>
    em_last_rotated_at m' = em_last_rotated_at m \<and> em_expires_at m' = em_expires_at m \<and>
    em_entry_id m' = em_entry_id m \<and> em_sync_origin_host m' = em_sync_origin_host m"
    "em_domains m' = sort_key nocase (sorted_list_of_set (set (em_domains m))) \<and>
    (\<forall>k. map_of (em_custom m') k = (if is_internal_custom_field k then None else map_option canon (map_of (em_custom m) k)))"
    using m' keys
    by (auto simp: metadata_from_row_def i f kept_row_fields row custom_text_def payload_custom_map py_str_def is_internal_custom_field_def)
  show ?thesis
    using read plain created tags stamps(2,4) w(1) unfolding schema(1,2) [symmetric] by blast
qed

subsection \<open>An example\<close>

text \<open>The transaction of a store without a host scope, and its submission on a node without peers.\<close>

definition local_tx :: "peer_env \<Rightarrow> string \<Rightarrow> string \<Rightarrow> string \<Rightarrow> json_obj \<Rightarrow> Transaction" where
  "local_tx e origin i ty payload =
     \<lparr>tx_transaction_id = i, tx_transaction_type = ty, tx_payload = payload, tx_payload_hash = hash_payload payload,
      tx_transaction_version = 1, tx_payload_version = 1, tx_protocol_version = 1, tx_organization_id = None,
      tx_client_id = None, tx_owner_id = None, tx_origin_node_id = Some origin,
      tx_previous_transaction_id = None, tx_signature = None, tx_state = ''pending'',
      tx_created_at = Some (h_now (pe_host e)), tx_received_at = None, tx_applied_at = None,
      tx_acknowledged_at = None, tx_cleared_at = None\<rparr>"

lemma local_tx_valid:
  assumes "is_identifier IdentifierType.Transaction i" "is_identifier Node origin" "ty \<noteq> []" "h_now (pe_host e) \<noteq> []"
  shows "validate_transaction (local_tx e origin i ty payload) = Inr ()"
  using assms is_identifier_not_Nil [OF assms(1)] is_identifier_not_Nil [OF assms(2)] hash_payload_bytes [of payload]
  by (simp add: validate_transaction_def local_tx_def truthy_def tx_validate_identifier_def validate_identifier_ok
      optional_scope_def TRANSACTION_STATES_def) (simp add: hash_payload_def)

definition lone_store :: "string \<Rightarrow> datastore \<Rightarrow> bool" where
  "lone_store origin ds \<longleftrightarrow> (\<exists>g. ds_nodes ds = [local_node_row origin g]) \<and> ds_node_private ds = [] \<and>
     map_of (ds_metadata ds) HOST_MEMBERSHIP_KEY = None"

lemma submit_local_succeeds:
  assumes ids: "is_identifier IdentifierType.Transaction i" "is_identifier Node origin" "ty \<noteq> []" "h_now (pe_host e) \<noteq> []"
    and ty: "\<not> starts_with ''peer.admission.'' ty" "\<not> starts_with ''peer.endpoint.'' ty" and fresh: "\<not> t_has tr_transaction_id i (ds_transactions ds)" and lone: "lone_store origin ds"
    and app: "\<And>l. \<exists>d. apply_transaction (pe_host e) (ds\<lparr>ds_transactions := l\<rparr>) (local_tx e origin i ty payload) = Inr d \<and>
      lone_store origin d \<and> P d"
    and scope: "service_group_scope_id (local_tx e origin i ty payload) = Inr sg"
    and P: "\<And>d l. P d \<Longrightarrow> P (d\<lparr>ds_transactions := l\<rparr>)"
  obtains ds' where "submit_local e LOCAL_TRANSACTION_POLICY origin i ty payload ds = Inr ds'" "lone_store origin ds'" "P ds'"
    "log_ids ds' = log_ids ds @ [i]"
proof -
  let ?t = "local_tx e origin i ty payload" and ?h = "sha256 (canonical_json_bytes payload)"
  note valid = local_tx_valid [OF ids]
  have tx: "local_transaction e ds origin i ty payload = Inr ?t"
    using lone valid [of payload] by (simp add: local_transaction_def local_host_scope_def lone_store_def create_transaction_def Let_def)
      (simp add: local_tx_def hash_payload_def)
  have ins: "insert_transaction ds ?t = Inr (ds\<lparr>ds_transactions := ds_transactions ds @ [transaction_to_row ?t ?h]\<rparr>)"
    using lone fresh valid [of payload] hash_payload_bytes [of payload]
    by (auto simp: insert_transaction_def lone_store_def local_tx_def sqlite_int_def transaction_to_row_def transaction_fk_ok_def
        fk_opt_def local_node_row_def blank_node_def)
  obtain d where d: "apply_transaction (pe_host e) (ds\<lparr>ds_transactions := ds_transactions ds @ [transaction_to_row ?t ?h]\<rparr>) ?t = Inr d"
    "lone_store origin d" "P d" using app by blast
  note log = apply_transaction_keeps(1) [OF d(1)]
  have "t_get tr_transaction_id i (ds_transactions d) = Some (transaction_to_row ?t ?h)"
    using fresh by (simp add: log t_get_append t_get_None_iff [symmetric] t_get_Cons) (simp add: transaction_to_row_def local_tx_def)
  then obtain l where mark: "mark_transaction_applied (h_now (pe_host e)) d i = Inr (d\<lparr>ds_transactions := l\<rparr>)"
    "map tr_transaction_id l = map tr_transaction_id (ds_transactions d)"
    by (simp add: mark_transaction_applied_def transaction_to_row_def local_tx_def t_update_def o_def if_distrib cong: if_cong)
  let ?d = "d\<lparr>ds_transactions := l\<rparr>"
  obtain g where g: "ds_nodes ?d = [local_node_row origin g]" "ds_node_private ?d = []" using d(2) by (auto simp: lone_store_def)
  obtain entry where en: "entry_from_row ?d (local_node_row origin g) = Inr entry"
    by (rule entry_from_row_total [of "local_node_row origin g" ?d]) (simp add: local_node_row_def blank_node_def)
  then have "pr_node_id entry = origin"
    by (auto simp: entry_from_row_def Let_def local_node_row_def blank_node_def split: if_split_asm prod.split_asm)
  moreover have "list_peer_registry_entries ?d = Inr [entry]" using g en by (simp add: list_peer_registry_entries_def)
  moreover have "validate_authenticated_transaction (pe_host e) ds ?t = Inr ()"
    using ty by (simp add: validate_authenticated_transaction_def local_tx_def)
  moreover have "tx_transaction_id ?t = i" "tx_origin_node_id ?t = Some origin" by (simp_all add: local_tx_def)
  ultimately have "\<exists>r. submit_transaction e ds ?t LOCAL_TRANSACTION_POLICY = Inr (r, ?d)"
    using lone_submission [OF valid _ ins d(1), of ?d entry sg] mark(1) scope by simp
  then have "submit_local e LOCAL_TRANSACTION_POLICY origin i ty payload ds = Inr ?d" by (auto simp: submit_local_def tx)
  moreover have "log_ids ?d = log_ids ds @ [i]" using mark(2) by (simp add: log_ids_def log) (simp add: transaction_to_row_def local_tx_def)
  moreover have "lone_store origin ?d" using d(2) by (simp add: lone_store_def)
  ultimately show thesis using that P [OF d(3)] by blast
qed

definition example_store_env :: peer_env where
  "example_store_env = example_peer_env 1 CHR ''k''"

definition example_store :: datastore where
  "example_store = empty_datastore\<lparr>ds_metadata := [(''storage_mode'', ''plaintext'')]\<rparr>"

definition example_metadata :: EntryMetadata where
  "example_metadata = (new_metadata ''2026-01-02T00:00:00Z'' ''API'' ''svc'' ''me'' ''cli'')\<lparr>em_entry_kind := ''api_key'',
     em_comment := ''production'', em_domains := [''b.example'', ''a.example''], em_entry_id := ''42'', em_custom := [(''team'', JStr ''ops'')],
     em_tags := ['' PROD'', ''prod'']\<rparr>"

lemma example_storage_ok: "storage_ok example_store_env"
  using example_peer_env_laws [of 1 "CHR ''k''"] by (simp add: storage_ok_def example_store_env_def)

lemma example_now: "h_now (pe_host example_store_env) = ''2026-01-02T00:00:00Z''"
  by (simp add: example_store_env_def example_peer_env_def example_env_def example_host_def)

text \<open>What the steps of the example need of the store between them.\<close>

definition ready_store :: "string \<Rightarrow> string \<Rightarrow> datastore \<Rightarrow> bool" where
  "ready_store owner grp ds \<longleftrightarrow> ds_secrets ds = [] \<and> ds_tags ds = [] \<and> t_has ow_owner_id owner (ds_owners ds) \<and>
     t_has sg_service_group_id grp (ds_service_groups ds) \<and> read_sqlite_storage_mode ds = Inr ''plaintext''"

lemma ready_store_log: "ready_store owner grp ds \<Longrightarrow> ready_store owner grp (ds\<lparr>ds_transactions := l\<rparr>)"
  by (simp add: ready_store_def read_sqlite_storage_mode_def read_sqlite_storage_mode_opt_def)

lemma example_parents:
  obtains owner grp ds where "ensure_local_projection_parents example_store ''me'' ''svc'' = Inr ds" "lone_store LOCAL_FALLBACK_NODE_ID ds"
    "ready_store owner grp ds" "owner_id_for ''me'' = Inr owner" "service_group_id_for ''me'' ''svc'' = Inr grp"
    "is_identifier Owner owner" "is_identifier Service_group grp" "ds_entry_types ds = []" "ds_entry_kinds ds = []" "log_ids ds = []"
proof -
  obtain g where g: "local_peer_group_id_for_node LOCAL_FALLBACK_NODE_ID = Inr g"
    "local_peer_group_display_name g = Inr (''peergroup-'' @ take 8 (drop 3 g))"
    using local_peer_group_ok [OF local_ids_identifiers(3)] by blast
  obtain owner where ow: "owner_id_for ''me'' = Inr owner" "is_identifier Owner owner"
    by (simp add: owner_id_for_def deterministic_name_def deterministic_identifier_def)
  obtain grp where s: "service_group_id_for ''me'' ''svc'' = Inr grp" "is_identifier Service_group grp"
    by (simp add: service_group_id_for_def deterministic_name_def deterministic_identifier_def)
  have mode: "read_sqlite_storage_mode example_store = Inr ''plaintext''" by code_simp
  have origin: "local_origin_node_id example_store = Inr LOCAL_FALLBACK_NODE_ID"
    by (simp add: local_origin_node_id_def load_local_node_projection_def example_store_def empty_datastore_def)
  have scope: "local_host_scope example_store = Inr (None, None, None)"
    by (simp add: local_host_scope_def example_store_def HOST_MEMBERSHIP_KEY_def)
  obtain ds where ds: "ensure_local_projection_parents example_store ''me'' ''svc'' = Inr ds"
    "ds = example_store\<lparr>ds_organizations := [LOCAL_ORGANIZATION_ID],
      ds_clients := [\<lparr>cl_client_id = LOCAL_CLIENT_ID, cl_organization_id = LOCAL_ORGANIZATION_ID\<rparr>],
      ds_owners := [\<lparr>ow_owner_id = owner, ow_client_id = LOCAL_CLIENT_ID\<rparr>],
      ds_peer_groups := [\<lparr>pg_peer_group_id = g, pg_name = Some (''peergroup-'' @ take 8 (drop 3 g))\<rparr>],
      ds_nodes := [local_node_row LOCAL_FALLBACK_NODE_ID g],
      ds_service_groups := [\<lparr>sg_service_group_id = grp, sg_owner_id = Some owner\<rparr>]\<rparr>"
    unfolding ensure_local_projection_parents_def origin scope rbind_simps g ow(1) s(1)
    by (simp add: Let_def support_client_def support_service_group_def
        or_default_def truthy_def t_insert_ignore_def example_store_def empty_datastore_def)
  have "lone_store LOCAL_FALLBACK_NODE_ID ds" "ds_entry_types ds = []" "ds_entry_kinds ds = []" "log_ids ds = []"
    by (auto simp: ds(2) lone_store_def example_store_def empty_datastore_def HOST_MEMBERSHIP_KEY_def log_ids_def)
  moreover have "ready_store owner grp ds"
    using mode by (simp add: ready_store_def ds(2) read_sqlite_storage_mode_def read_sqlite_storage_mode_opt_def)
      (simp add: example_store_def empty_datastore_def)
  ultimately show thesis using that ds(1) ow s by blast
qed

lemma lone_store_frame:
  "lone_store n (ds\<lparr>ds_entry_types := x\<rparr>) = lone_store n ds" "lone_store n (ds\<lparr>ds_entry_kinds := x\<rparr>) = lone_store n ds"
  "lone_store n (ds\<lparr>ds_transactions := l\<rparr>) = lone_store n ds"
  by (simp_all add: lone_store_def)

lemma strip_nonblank: "c \<in> set s \<Longrightarrow> \<not> P c \<Longrightarrow> strip_by P s \<noteq> []"
proof -
  assume c: "c \<in> set s" "\<not> P c"
  then have "dropWhile P s \<noteq> []" by auto
  then have "\<not> P (hd (dropWhile P s))" "hd (dropWhile P s) \<in> set (rev (dropWhile P s))" by (simp_all add: hd_dropWhile)
  then show ?thesis by (auto simp: strip_by_def)
qed

lemma strip_identifier: "is_identifier t v \<Longrightarrow> strip v \<noteq> []"
  by (rule strip_nonblank [of "CHR '':''"]) (auto simp: is_identifier_iff format_identifier_def is_space_def)

lemma example_vocabulary_step:
  assumes ds: "lone_store LOCAL_FALLBACK_NODE_ID ds" "ready_store owner grp ds" "\<not> t_has tr_transaction_id i (ds_transactions ds)"
    and i: "is_identifier IdentifierType.Transaction i"
  shows "ds_entry_types ds = [] \<Longrightarrow> \<exists>ds'. submit_local example_store_env LOCAL_TRANSACTION_POLICY LOCAL_FALLBACK_NODE_ID i
      ''vocabulary.entry_type.upsert'' (vocabulary_entry_type_payload example_type_id ''secret'' []) ds = Inr ds' \<and>
      lone_store LOCAL_FALLBACK_NODE_ID ds' \<and> (ready_store owner grp ds' \<and> t_has vo_id example_type_id (ds_entry_types ds') \<and>
        ds_entry_kinds ds' = ds_entry_kinds ds) \<and> log_ids ds' = log_ids ds @ [i]" (is "_ \<Longrightarrow> ?type")
    and "ds_entry_kinds ds = [] \<Longrightarrow> \<exists>ds'. submit_local example_store_env LOCAL_TRANSACTION_POLICY LOCAL_FALLBACK_NODE_ID i
      ''vocabulary.entry_kind.upsert'' (vocabulary_entry_kind_payload example_kind_id ''api_key'' []) ds = Inr ds' \<and>
      lone_store LOCAL_FALLBACK_NODE_ID ds' \<and> (ready_store owner grp ds' \<and> t_has vo_id example_kind_id (ds_entry_kinds ds') \<and>
        ds_entry_types ds' = ds_entry_types ds) \<and> log_ids ds' = log_ids ds @ [i]" (is "_ \<Longrightarrow> ?kind")
proof -
  have id: "is_identifier Entry_type example_type_id" "is_identifier Entry_kind example_kind_id"
    by (simp_all add: example_type_id_def example_kind_id_def deterministic_constant_def deterministic_identifier_def)
  have blank: "strip ''secret'' \<noteq> []" "strip ''api_key'' \<noteq> []" by code_simp+
  note start = submit_local_succeeds [OF i local_ids_identifiers(3) _ _ _ _ ds(3,1), of _ example_store_env]
  note defs = apply_transaction_def local_tx_def apply_vocabulary_entry_type_upsert_def apply_vocabulary_entry_kind_upsert_def
    vocabulary_entry_type_payload_def vocabulary_entry_kind_payload_def vp_required_identifier_def vp_required_text_def payload_get_def
    nonblank_text_def blank strip_identifier [OF id(1)] strip_identifier [OF id(2)] validate_identifier_ok [OF id(1)] validate_identifier_ok [OF id(2)]
    vp_optional_text_def pj_optional_text_def or_empty_def upsert_vocabulary_row_def t_upsert_def
  note scope = service_group_scope_id_def transaction_scope_def local_tx_def SERVICE_GROUP_SCOPED_TRANSACTION_TYPES_def
    CONTROL_TRANSACTION_TYPES_def starts_with_def reject_unexpected_service_group_id_def dict_has_def
  note frame = lone_store_frame ready_store_def read_sqlite_storage_mode_def read_sqlite_storage_mode_opt_def
  show ?type if e: "ds_entry_types ds = []"
  proof -
    have "\<exists>d. apply_transaction (pe_host example_store_env) (ds\<lparr>ds_transactions := l\<rparr>) (local_tx example_store_env LOCAL_FALLBACK_NODE_ID i
        ''vocabulary.entry_type.upsert'' (vocabulary_entry_type_payload example_type_id ''secret'' [])) = Inr d \<and> lone_store LOCAL_FALLBACK_NODE_ID d \<and>
        (ready_store owner grp d \<and> t_has vo_id example_type_id (ds_entry_types d) \<and> ds_entry_kinds d = ds_entry_kinds ds)" for l
      using ds(1,2) e by (simp add: defs) (simp add: frame)
    then show ?thesis
      by (rule start [where P = "\<lambda>d. ready_store owner grp d \<and> t_has vo_id example_type_id (ds_entry_types d) \<and> ds_entry_kinds d = ds_entry_kinds ds"
            and sg = None and payload = "vocabulary_entry_type_payload example_type_id ''secret'' []" and ty = "''vocabulary.entry_type.upsert''", rotated 4])
        (auto simp: scope vocabulary_entry_type_payload_def example_now ready_store_log)
  qed
  show ?kind if e: "ds_entry_kinds ds = []"
  proof -
    have "\<exists>d. apply_transaction (pe_host example_store_env) (ds\<lparr>ds_transactions := l\<rparr>) (local_tx example_store_env LOCAL_FALLBACK_NODE_ID i
        ''vocabulary.entry_kind.upsert'' (vocabulary_entry_kind_payload example_kind_id ''api_key'' [])) = Inr d \<and> lone_store LOCAL_FALLBACK_NODE_ID d \<and>
        (ready_store owner grp d \<and> t_has vo_id example_kind_id (ds_entry_kinds d) \<and> ds_entry_types d = ds_entry_types ds)" for l
      using ds(1,2) e by (simp add: defs) (simp add: frame)
    then show ?thesis
      by (rule start [where P = "\<lambda>d. ready_store owner grp d \<and> t_has vo_id example_kind_id (ds_entry_kinds d) \<and> ds_entry_types d = ds_entry_types ds"
            and sg = None and payload = "vocabulary_entry_kind_payload example_kind_id ''api_key'' []" and ty = "''vocabulary.entry_kind.upsert''", rotated 4])
        (auto simp: scope vocabulary_entry_kind_payload_def example_now ready_store_log)
  qed
qed

definition example_entropy :: "bytes \<times> bytes \<times> bytes" where
  "example_entropy = (''1'', ''2'', ''3'')"

lemma example_uuids: "uuid4 ''1'' \<noteq> uuid4 ''2''" "uuid4 ''1'' \<noteq> uuid4 ''3''" "uuid4 ''2'' \<noteq> uuid4 ''3''"
  by (simp_all add: uuid4_def uuid_set_version_def bytes_uuid_def)

lemma example_transaction_ids:
  obtains i j k where "new_transaction_id (fst example_entropy) = i" "new_transaction_id (fst (snd example_entropy)) = j"
    "new_transaction_id (snd (snd example_entropy)) = k" "distinct [i, j, k]" "is_identifier IdentifierType.Transaction i"
    "is_identifier IdentifierType.Transaction j" "is_identifier IdentifierType.Transaction k"
  using example_uuids
  by (simp add: new_transaction_id_def random_identifier_def example_entropy_def format_identifier_inject)

lemma log_has: "t_has tr_transaction_id i (ds_transactions ds) \<longleftrightarrow> i \<in> set (log_ids ds)"
  by (auto simp: t_has_def log_ids_def)

lemma lone_origin: "lone_store LOCAL_FALLBACK_NODE_ID ds \<Longrightarrow> local_origin_node_id ds = Inr LOCAL_FALLBACK_NODE_ID"
  by (auto simp: local_origin_node_id_def load_local_node_projection_def lone_store_def)

lemma example_vocabulary:
  assumes ds: "lone_store LOCAL_FALLBACK_NODE_ID ds" "ready_store owner grp ds" "log_ids ds = []"
    "ds_entry_types ds = []" "ds_entry_kinds ds = []"
  obtains ds' where "emit_vocabulary_transactions_for_metadata example_store_env (fst example_entropy, fst (snd example_entropy)) ds
      example_metadata LOCAL_TRANSACTION_POLICY = Inr ds'"
    "lone_store LOCAL_FALLBACK_NODE_ID ds'" "ready_store owner grp ds'" "t_has vo_id example_type_id (ds_entry_types ds')"
    "t_has vo_id example_kind_id (ds_entry_kinds ds')" "new_transaction_id (snd (snd example_entropy)) \<notin> set (log_ids ds')"
proof -
  obtain i j k where ids: "new_transaction_id (fst example_entropy) = i" "new_transaction_id (fst (snd example_entropy)) = j"
    "new_transaction_id (snd (snd example_entropy)) = k" "distinct [i, j, k]" "is_identifier IdentifierType.Transaction i"
    "is_identifier IdentifierType.Transaction j" by (rule example_transaction_ids)
  have "\<not> t_has tr_transaction_id i (ds_transactions ds)" by (simp add: log_has ds(3))
  from example_vocabulary_step(1) [OF ds(1,2) this ids(5) ds(4)] obtain d1 where d1:
    "submit_local example_store_env LOCAL_TRANSACTION_POLICY LOCAL_FALLBACK_NODE_ID i ''vocabulary.entry_type.upsert''
      (vocabulary_entry_type_payload example_type_id ''secret'' []) ds = Inr d1"
    "lone_store LOCAL_FALLBACK_NODE_ID d1" "ready_store owner grp d1" "t_has vo_id example_type_id (ds_entry_types d1)"
    "ds_entry_kinds d1 = ds_entry_kinds ds" "log_ids d1 = [i]" by (auto simp: ds(3))
  have "\<not> t_has tr_transaction_id j (ds_transactions d1)" using ids(4) by (auto simp: log_has d1(6))
  from example_vocabulary_step(2) [OF d1(2,3) this ids(6)] d1(5) ds(5) obtain d2 where d2:
    "submit_local example_store_env LOCAL_TRANSACTION_POLICY LOCAL_FALLBACK_NODE_ID j ''vocabulary.entry_kind.upsert''
      (vocabulary_entry_kind_payload example_kind_id ''api_key'' []) d1 = Inr d2"
    "lone_store LOCAL_FALLBACK_NODE_ID d2" "ready_store owner grp d2" "t_has vo_id example_kind_id (ds_entry_kinds d2)"
    "ds_entry_types d2 = ds_entry_types d1" "log_ids d2 = [i, j]" by (auto simp: d1(6))
  have m: "em_entry_type example_metadata = ''secret''" "em_entry_kind example_metadata = ''api_key''"
    by (simp_all add: example_metadata_def new_metadata_def)
  have "emit_vocabulary_transactions_for_metadata example_store_env (fst example_entropy, fst (snd example_entropy)) ds
      example_metadata LOCAL_TRANSACTION_POLICY = Inr d2"
    by (simp add: emit_vocabulary_transactions_for_metadata_def lone_origin [OF ds(1)] m example_ids ids(1,2) d1(1) d2(1))
  then show thesis using that d2(2-4) d1(4) d2(5,6) ids(3,4) by auto
qed

definition example_payload :: "string \<Rightarrow> string \<Rightarrow> string \<Rightarrow> json_obj" where
  "example_payload i owner grp = [(''secret_id'', JStr i), (''owner_id'', JStr owner), (''service_group_id'', JStr grp),
     (''entry_type'', JStr ''secret''), (''entry_kind'', JStr ''api_key''), (''schema_id'', JNull),
     (''schema_version'', JInt METADATA_SCHEMA_VERSION), (''service'', JStr ''svc''), (''account'', JStr ''me'')] @
     metadata_payload_fields example_metadata @
     [(''locator_hash_b64'', JStr (b64encode (digest_bytes [''locator'', ''svc'', ''me'', ''API'']))),
      (''encrypted_name_b64'', JStr (b64encode ''API'')), (''encrypted_payload_b64'', JStr (b64encode ''s3cr3t'')),
      (''content_hash_b64'', JStr (b64encode (sha256 ''s3cr3t''))),
      (''projection_created_at'', JStr ''2026-01-02T00:00:00Z''), (''projection_updated_at'', JStr ''2026-01-02T00:00:00Z'')]"

lemma example_plain: "validate_storage_mode ''plaintext'' = Inr ''plaintext''" "\<exists>x. validate_field_name ''encrypted_name'' = Inr x"
  "\<exists>x. validate_field_name ''encrypted_payload'' = Inr x"
  by (code_simp, simp_all add: validate_field_name_def)

lemma example_set_payload:
  assumes "owner_id_for ''me'' = Inr owner" "service_group_id_for ''me'' ''svc'' = Inr grp" "secret_id_for ''svc'' ''me'' ''API'' = Inr i"
  shows "set_payload example_store_env t ''svc'' ''me'' ''API'' ''s3cr3t'' example_metadata ''plaintext'' = Inr (example_payload i owner grp)"
proof -
  have m: "em_entry_type example_metadata = ''secret''" "em_entry_kind example_metadata = ''api_key''" "em_schema_id example_metadata = []"
    "em_schema_version example_metadata = METADATA_SCHEMA_VERSION" "em_created_at example_metadata = ''2026-01-02T00:00:00Z''"
    "em_updated_at example_metadata = ''2026-01-02T00:00:00Z''"
    by (simp_all add: example_metadata_def new_metadata_def)
  have "encrypt_payload (h_aead (pe_host example_store_env)) (h_storage_key (pe_host example_store_env)) k x f ''plaintext'' = Inr x" 
    if "f \<in> {''encrypted_name'', ''encrypted_payload''}" for k x f
    using that example_plain(2,3) by (auto simp: encrypt_payload_def example_plain(1) SQLITE_STORAGE_MODE_PLAINTEXT_def)
  then show ?thesis
    by (simp add: set_payload_def payload_head_def assms m payload_schema_id_def encrypted_b64_def example_payload_def)
qed

lemma example_tags:
  "canonical_taxonomy_name '' PROD'' = Inr ''prod''" "canonical_taxonomy_name ''prod'' = Inr ''prod''" "lower ''prod'' = ''prod''"
  by code_simp+

lemma example_store_plan:
  assumes i: "is_identifier Secret i" "is_identifier Owner owner" "is_identifier Service_group grp"
    and t: "tx_payload t = example_payload i owner grp"
  shows "\<exists>pl. set_plan (pe_host example_store_env) ''plaintext'' t = Inr pl \<and> sc_owner_id (sp_row pl) = owner \<and>
    sc_service_group_id (sp_row pl) = grp \<and> sc_entry_type_id (sp_row pl) = example_type_id \<and>
    sc_entry_kind_id (sp_row pl) = example_kind_id \<and> sp_tags pl = ['' PROD'', ''prod'']"
proof -
  have blank: "strip ''a.example'' \<noteq> []" "strip ''b.example'' \<noteq> []" "strip ''secret'' \<noteq> []" "strip ''api_key'' \<noteq> []"
    "strip '' PROD'' \<noteq> []" "strip ''prod'' \<noteq> []" by code_simp+
  have b64: "pj_required_b64 p f = Inr x" if "map_of p f = Some (JStr (b64encode x))" "x \<noteq> []" for p f x
    using that by (simp add: pj_required_b64_def pj_required_text_def payload_get_def decode_b64_encode)
  have "length (sha256 x) \<noteq> 0" "length (digest_bytes y) \<noteq> 0" for x y by (simp_all add: digest_bytes_def)
  then have ne: "sha256 x \<noteq> []" "digest_bytes y \<noteq> []" for x y by fastforce+
  show ?thesis
    using is_identifier_not_Nil [OF i(1)] is_identifier_not_Nil [OF i(2)] is_identifier_not_Nil [OF i(3)] 
    by (simp add: t example_payload_def metadata_payload_fields_def set_plan_def 
    pj_validate_required_fields_def SET_REQUIRED_FIELDS_def dict_has_def pj_optional_text_def pj_required_text_def
    payload_get_def pj_required_identifier_def pj_validate_identifier_def validate_identifier_ok i
    b64 plan_secret_def pj_text_list_def pj_custom_metadata_def json_texts_def json_int_opt_def
    example_ids truthy_def created_at_or_fail_def secret_values_def pj_optional_identifier_def pj_optional_int_def
    projection_name_def sqlite_int_opt_def sqlite_int_def or_default_def tags_from_payload_def nonblank_text_def example_metadata_def new_metadata_def
    METADATA_SCHEMA_VERSION_def ne blank example_decode
    del: b64encode.simps)
    (simp add: payload_custom_def dict_pop_def ENTRY_ID_CUSTOM_KEY_def SYNC_ORIGIN_CUSTOM_KEY_def)
qed

lemma example_store_step:
  assumes ds: "lone_store LOCAL_FALLBACK_NODE_ID ds" "ready_store owner grp ds" "t_has vo_id example_type_id (ds_entry_types ds)"
      "t_has vo_id example_kind_id (ds_entry_kinds ds)" "k \<notin> set (log_ids ds)"
    and i: "is_identifier Secret i" "is_identifier Owner owner" "is_identifier Service_group grp" "is_identifier IdentifierType.Transaction k"
  shows "\<exists>ds'. submit_local example_store_env LOCAL_TRANSACTION_POLICY LOCAL_FALLBACK_NODE_ID k ''secret.set'' (example_payload i owner grp) ds = Inr ds'"
proof -
  let ?t = "local_tx example_store_env LOCAL_FALLBACK_NODE_ID k ''secret.set'' (example_payload i owner grp)"
  have t: "tx_payload ?t = example_payload i owner grp" "tx_transaction_type ?t = ''secret.set''" by (simp_all add: local_tx_def)
  obtain pl where pl: "set_plan (pe_host example_store_env) ''plaintext'' ?t = Inr pl" "sc_owner_id (sp_row pl) = owner"
    "sc_service_group_id (sp_row pl) = grp" "sc_entry_type_id (sp_row pl) = example_type_id"
    "sc_entry_kind_id (sp_row pl) = example_kind_id" "sp_tags pl = ['' PROD'', ''prod'']"
    using example_store_plan [OF i(1-3) t(1)] by blast
  have app: "\<exists>d. apply_transaction (pe_host example_store_env) (ds\<lparr>ds_transactions := l\<rparr>) ?t = Inr d \<and> lone_store LOCAL_FALLBACK_NODE_ID d \<and> True" for l
  proof -
    have "\<exists>d. commit_plan (h_now (pe_host example_store_env)) (ds\<lparr>ds_transactions := l\<rparr>) pl = Inr d \<and> lone_store LOCAL_FALLBACK_NODE_ID d"
      using ds(1-4) pl(2-6) by (simp add: commit_plan_def Let_def upsert_secret_def ensure_vocabulary_def ready_store_def sync_secret_tags_def
          write_domains_def write_custom_metadata_def resolve_stored_canonical ensure_tag_id_def example_ids example_tags
          t_insert_ignore2_def t_insert_ignore_def) (simp add: lone_store_def)
    moreover have "read_sqlite_storage_mode (ds\<lparr>ds_transactions := l\<rparr>) = Inr ''plaintext''"
      using ready_store_log [OF ds(2), of l] by (simp add: ready_store_def)
    ultimately show ?thesis using pl(1) apply_secret_set_iff by (auto simp: apply_transaction_def t(2))
  qed
  have "map_of (example_payload i owner grp) ''service_group_id'' = Some (JStr grp)" by (simp add: example_payload_def)
  then have scope: "service_group_scope_id ?t = Inr (Some grp)"
    using is_identifier_not_Nil [OF i(3)]
    by (simp add: service_group_scope_id_def transaction_scope_def t SERVICE_GROUP_SCOPED_TRANSACTION_TYPES_def required_service_group_id_def
        validate_identifier_ok [OF i(3)])
  have fresh: "\<not> t_has tr_transaction_id k (ds_transactions ds)" using ds(5) by (simp add: log_has)
  show ?thesis
    by (rule submit_local_succeeds [OF i(4) local_ids_identifiers(3) _ _ _ _ fresh ds(1) app scope]) (auto simp: starts_with_def example_now)
qed

lemma example_set_succeeds:
  obtains ds' where "set_sqlite_secret example_store_env example_entropy example_store ''svc'' ''me'' ''API'' ''s3cr3t'' example_metadata = Inr ds'"
proof -
  obtain owner grp d1 where d1: "ensure_local_projection_parents example_store ''me'' ''svc'' = Inr d1" "lone_store LOCAL_FALLBACK_NODE_ID d1"
    "ready_store owner grp d1" "owner_id_for ''me'' = Inr owner" "service_group_id_for ''me'' ''svc'' = Inr grp"
    "is_identifier Owner owner" "is_identifier Service_group grp" "ds_entry_types d1 = []" "ds_entry_kinds d1 = []" "log_ids d1 = []"
    by (rule example_parents)
  obtain d2 where d2: "emit_vocabulary_transactions_for_metadata example_store_env (fst example_entropy, fst (snd example_entropy)) d1
      example_metadata LOCAL_TRANSACTION_POLICY = Inr d2" "lone_store LOCAL_FALLBACK_NODE_ID d2" "ready_store owner grp d2"
    "t_has vo_id example_type_id (ds_entry_types d2)" "t_has vo_id example_kind_id (ds_entry_kinds d2)"
    "new_transaction_id (snd (snd example_entropy)) \<notin> set (log_ids d2)"
    by (rule example_vocabulary [OF d1(2,3,10,8,9)])
  obtain i where i: "secret_id_for ''svc'' ''me'' ''API'' = Inr i" "is_identifier Secret i"
    by (simp add: secret_id_for_def deterministic_name_def deterministic_identifier_def)
  have "is_identifier IdentifierType.Transaction (new_transaction_id (snd (snd example_entropy)))"
    by (simp add: new_transaction_id_def random_identifier_def)
  from example_store_step [OF d2(2-6) i(2) d1(6,7) this] obtain ds' where
    "submit_local example_store_env LOCAL_TRANSACTION_POLICY LOCAL_FALLBACK_NODE_ID (new_transaction_id (snd (snd example_entropy)))
      ''secret.set'' (example_payload i owner grp) d2 = Inr ds'" by blast
  moreover have "read_sqlite_storage_mode example_store = Inr ''plaintext''" by code_simp
  ultimately have "set_sqlite_secret example_store_env example_entropy example_store ''svc'' ''me'' ''API'' ''s3cr3t'' example_metadata = Inr ds'"
    by (simp add: set_sqlite_secret_def store_secret_def d1(1) lone_origin [OF d1(2)] d2(1) Let_def example_set_payload [OF d1(4,5) i(1)])
  then show thesis by (rule that)
qed

lemma example_store_wf: "projections_wf example_store"
  by (simp add: example_store_def empty_datastore_def projections_wf_def secrets_wf_def vocabulary_wf_def tags_wf_def items_wf_def t_keyed_def)

lemma example_run:
  obtains i ds' where "secret_id_for ''svc'' ''me'' ''API'' = Inr i"
    "runs (\<lambda>(i, w). store_write example_store_env i w) [(i, Some ''s3cr3t'')] example_store ds'"
proof -
  obtain i where i: "secret_id_for ''svc'' ''me'' ''API'' = Inr i"
    by (simp add: secret_id_for_def deterministic_name_def deterministic_identifier_def)
  obtain ds' where "set_sqlite_secret example_store_env example_entropy example_store ''svc'' ''me'' ''API'' ''s3cr3t'' example_metadata = Inr ds'"
    by (rule example_set_succeeds)
  from store_write.set [OF i this] have "store_write example_store_env i (Some ''s3cr3t'') example_store ds'" .
  then have "runs (\<lambda>(i, w). store_write example_store_env i w) [(i, Some ''s3cr3t'')] example_store ds'"
    using runs.more [OF runs.none, of "\<lambda>(i, w). store_write example_store_env i w" "(i, Some ''s3cr3t'')"] by simp
  with i show thesis by (rule that)
qed

theorem secret_store_map_witness:
  "\<exists>ds' i. secret_id_for ''svc'' ''me'' ''API'' = Inr i \<and>
    runs (\<lambda>(i, w). store_write example_store_env i w) [(i, Some ''s3cr3t'')] example_store ds' \<and> projections_wf example_store \<and>
    get_sqlite_secret (pe_host example_store_env) ds' ''svc'' ''me'' ''API'' = Inr ''s3cr3t''"
proof -
  obtain i ds' where run: "secret_id_for ''svc'' ''me'' ''API'' = Inr i"
    "runs (\<lambda>(i, w). store_write example_store_env i w) [(i, Some ''s3cr3t'')] example_store ds'" by (rule example_run)
  have "(case get_sqlite_secret (pe_host example_store_env) ds' ''svc'' ''me'' ''API'' of Inl _ \<Rightarrow> None | Inr v \<Rightarrow> Some v) = Some ''s3cr3t''"
    using secret_store_map [OF run(2) example_store_wf example_storage_ok run(1)] by simp
  then have "get_sqlite_secret (pe_host example_store_env) ds' ''svc'' ''me'' ''API'' = Inr ''s3cr3t''" by (simp split: sum.split_asm)
  with run example_store_wf show ?thesis by blast
qed

theorem secret_metadata_roundtrip_witness:
  "\<exists>ds' m'. set_sqlite_secret example_store_env example_entropy example_store ''svc'' ''me'' ''API'' ''s3cr3t'' example_metadata = Inr ds' \<and>
    get_sqlite_metadata ds' ''svc'' ''me'' ''API'' = Inr m' \<and> em_comment m' = ''production'' \<and> em_entry_id m' = ''42'' \<and>
    em_domains m' = [''a.example'', ''b.example''] \<and> em_tags m' = [''prod''] \<and> em_created_at m' = ''2026-01-02T00:00:00Z''"
proof -
  obtain ds' where ds': "set_sqlite_secret example_store_env example_entropy example_store ''svc'' ''me'' ''API'' ''s3cr3t'' example_metadata = Inr ds'"
    by (rule example_set_succeeds)
  have ok: "metadata_texts_ok example_metadata" by code_simp
  have m: "em_comment example_metadata = ''production''" "em_entry_id example_metadata = ''42''"
    "sort_key nocase (sorted_list_of_set (set (em_domains example_metadata))) = [''a.example'', ''b.example'']" by code_simp+
  have tg: "em_tags example_metadata = ['' PROD'', ''prod'']" "em_created_at example_metadata = ''2026-01-02T00:00:00Z''"
    by (simp_all add: example_metadata_def new_metadata_def)
  have no: "ds_tags example_store = []" "ds_secrets example_store = []" by (simp_all add: example_store_def empty_datastore_def)
  have "tags_named (em_tags example_metadata) (ds_tags example_store)" by (auto simp: tags_named_def tg no example_tags)
  moreover have "{c. \<exists>x \<in> set (em_tags example_metadata). canonical_taxonomy_name x = Inr c} = {''prod''}" by (auto simp: tg example_tags)
  moreover have "t_get sc_secret_id i (ds_secrets example_store) = None" for i by (simp add: no)
  ultimately obtain m' where "get_sqlite_metadata ds' ''svc'' ''me'' ''API'' = Inr m'" "em_comment m' = ''production''" "em_entry_id m' = ''42''"
    "em_domains m' = [''a.example'', ''b.example'']" "em_tags m' = [''prod'']" "em_created_at m' = ''2026-01-02T00:00:00Z''"
    using secret_metadata_roundtrip [OF ds' example_storage_ok ok] unfolding m tg(2) by (auto simp del: list.set)
  with ds' show ?thesis by blast
qed

subsection \<open>Imports, sharing and the round trip of the doctor\<close>

lemma committed_row:
  assumes c: "commit_plan now b pl = Inr c" "ds' = c\<lparr>ds_transactions := l, ds_peer_groups := g, ds_envelopes := x\<rparr>"
    and b: "\<forall>j. keeps_secret j ds b" "ds_secrets b = ds_secrets ds"
  shows "t_has sc_secret_id (sc_secret_id (sp_row pl)) (ds_secrets ds')"
    "\<forall>j. t_has sc_secret_id j (ds_secrets ds) \<longrightarrow> t_has sc_secret_id j (ds_secrets ds')" "ds_metadata ds' = ds_metadata ds"
proof -
  have s: "ds_secrets ds' = secret_upsert (sp_row pl) (ds_secrets ds)" using commit_plan_effect(1) [OF c(1)] by (simp add: c(2) b(2))
  have has: "t_has sc_secret_id j t \<longleftrightarrow> t_get sc_secret_id j t \<noteq> None" for j t by (simp add: t_get_None_iff)
  show "t_has sc_secret_id (sc_secret_id (sp_row pl)) (ds_secrets ds')" by (simp add: s has secret_upsert_get)
  show "\<forall>j. t_has sc_secret_id j (ds_secrets ds) \<longrightarrow> t_has sc_secret_id j (ds_secrets ds')"
    by (simp add: s has secret_upsert_get)
  have "ds_metadata c = ds_metadata b" by (subst commit_plan_effect(10) [OF c(1)]) simp
  then show "ds_metadata ds' = ds_metadata ds" using b(1) by (simp add: c(2) keeps_secret_def)
qed

text \<open>No write of the store removes a row: a deletion leaves one in state \<open>deleted\<close>.\<close>

lemma store_write_row:
  assumes "store_write e i w ds ds'"
  shows "t_has sc_secret_id i (ds_secrets ds') \<and> (\<forall>j. t_has sc_secret_id j (ds_secrets ds) \<longrightarrow> t_has sc_secret_id j (ds_secrets ds')) \<and>
    ds_metadata ds' = ds_metadata ds"
proof -
  have stored: ?thesis if "secret_id_for s a n = Inr i" "store_secret e entropy ds s a n v m p b = Inr ds'" "store_policy p" for s a n entropy v m p b
  proof -
    from that(2,3) obtain pl b where w: "\<forall>j. keeps_secret j ds b" "ds_secrets b = ds_secrets ds" "secret_id_for s a n = Inr (sc_secret_id (sp_row pl))"
      "\<exists>c l g x. commit_plan (h_now (pe_host e)) b pl = Inr c \<and> ds' = c\<lparr>ds_transactions := l, ds_peer_groups := g, ds_envelopes := x\<rparr>"
      by (rule store_secret_InrE) blast
    from w(4) obtain c l g x where "commit_plan (h_now (pe_host e)) b pl = Inr c"
      "ds' = c\<lparr>ds_transactions := l, ds_peer_groups := g, ds_envelopes := x\<rparr>" by blast
    from committed_row [OF this w(1,2)] that(1) w(3) show ?thesis by simp
  qed
  from assms show ?thesis
  proof cases
    case (delete s a n entropy)
    from delete(3) obtain pl b where w: "\<forall>j. keeps_secret j ds b" "ds_secrets b = ds_secrets ds" "secret_id_for s a n = Inr (sc_secret_id (sp_row pl))"
      "\<exists>c l g x. commit_plan (h_now (pe_host e)) b pl = Inr c \<and> ds' = c\<lparr>ds_transactions := l, ds_peer_groups := g, ds_envelopes := x\<rparr>"
      by (rule delete_secret_InrE) blast
    from w(4) obtain c l g x where "commit_plan (h_now (pe_host e)) b pl = Inr c"
      "ds' = c\<lparr>ds_transactions := l, ds_peer_groups := g, ds_envelopes := x\<rparr>" by blast
    from committed_row [OF this w(1,2)] delete(2) w(3) show ?thesis by simp
  next
    case (set s a n entropy v m)
    then show ?thesis using stored store_policies(1) unfolding set_sqlite_secret_def by blast
  next
    case (import_local s a n entropy v m)
    then show ?thesis using stored store_policies(2) unfolding import_sqlite_secret_local_def by blast
  next
    case (import_sync s a n entropy v m)
    then show ?thesis using stored store_policies(1) unfolding import_sqlite_secret_for_sync_def by blast
  qed
qed

lemma runs_rows:
  assumes "runs (\<lambda>(i, w). store_write e i w) ws ds ds'"
  shows "(\<forall>j. t_has sc_secret_id j (ds_secrets ds) \<or> j \<in> fst ` set ws \<longrightarrow> t_has sc_secret_id j (ds_secrets ds')) \<and> ds_metadata ds' = ds_metadata ds"
  using assms
proof (induction rule: runs.induct)
  case (more ws s s' w s'')
  then show ?case using store_write_row [of e "fst w" "snd w" s' s''] by (auto simp: case_prod_beta)
qed simp

text \<open>C39. An import never overwrites: once a secret has been written to the store (set, imported, or even deleted since), or
  was there before, or once the log has any set or deletion of it, both imports of it fail and say that the target exists; whatever
  was written in between.\<close>

theorem import_never_overwrites:
  assumes "runs (\<lambda>(i, w). store_write e i w) ws ds ds'" and "secret_id_for s a n = Inr i" and "read_sqlite_storage_mode ds = Inr mode"
    and "i \<in> fst ` set ws \<or> t_has sc_secret_id i (ds_secrets ds) \<or> secret_history ds' i \<noteq> []"
  shows "import_sqlite_secret_local e entropy ds' s a n v m = Inl (SQLiteBackendError ''migration target already exists'') \<and>
    import_sqlite_secret_for_sync e entropy ds' s a n v m = Inl (SQLiteBackendError ''migration target already exists'')"
proof -
  note rows = runs_rows [OF assms(1)]
  have mode: "read_sqlite_storage_mode ds' = Inr mode" using storage_mode_metadata [of ds' ds] rows assms(3) by simp
  have "refuse_existing_secret ds' s a n = Inl (SQLiteBackendError ''migration target already exists'')"
    using rows assms(2,4) by (auto simp: refuse_existing_secret_def rguard_def)
  then show ?thesis
    by (simp add: import_sqlite_secret_local_def import_sqlite_secret_for_sync_def store_secret_def mode backend_error_def)
qed

theorem import_never_overwrites_witness:
  "\<exists>ds' i. runs (\<lambda>(i, w). store_write example_store_env i w) [(i, Some ''s3cr3t'')] example_store ds' \<and>
    import_sqlite_secret_local example_store_env example_entropy ds' ''svc'' ''me'' ''API'' ''other'' example_metadata =
      Inl (SQLiteBackendError ''migration target already exists'')"
proof -
  obtain i ds' where run: "secret_id_for ''svc'' ''me'' ''API'' = Inr i"
    "runs (\<lambda>(i, w). store_write example_store_env i w) [(i, Some ''s3cr3t'')] example_store ds'" by (rule example_run)
  have "read_sqlite_storage_mode example_store = Inr ''plaintext''" by code_simp
  from import_never_overwrites [OF run(2,1) this, of example_entropy "''other''" example_metadata] run(2) show ?thesis by auto
qed

lemma store_set_reads:
  assumes "store_set e entropy ds s a n v m = Inr ds'" "storage_ok e" "vocabulary_known ds"
  shows "get_sqlite_secret (pe_host e) ds' s a n = Inr v"
  using store_secret_reads [OF assms(1) [unfolded store_set_def set_sqlite_secret_def] store_policies(1) assms(2,3)] by blast

text \<open>The doctor's round trip compares equal: on every well-formed store, when its set succeeds the value it reads back is the one it wrote, so
  the outcome of the check is that of the set and the deletion alone, and the mismatch branch is dead.\<close>

theorem doctor_roundtrip_reads_back:
  assumes "projections_wf ds" and "storage_ok e"
  shows "doctor_roundtrip e entropy ds service account =
      (case store_set e (fst entropy) ds service account ''DOCTOR_TEST_KEY'' ''doctor_ok''
              (Some (new_metadata (h_now (pe_host e)) ''DOCTOR_TEST_KEY'' service account ''sqlite-doctor'')) of
         Inl x \<Rightarrow> (Some x, ds)
       | Inr ds1 \<Rightarrow> (case store_delete e (snd entropy) ds1 service account ''DOCTOR_TEST_KEY'' of
           Inl x \<Rightarrow> (Some x, ds1)
         | Inr ds2 \<Rightarrow> (None, ds2)))" (is "?doctor = ?steps")
proof -
  note known = wf_vocabulary_known [OF assms(1)]
  show "?doctor = ?steps"
    using store_set_reads [OF _ assms(2) known] by (simp add: doctor_roundtrip_def Let_def split: sum.split)
qed

theorem doctor_roundtrip_reads_back_witness:
  "doctor_roundtrip example_store_env (example_entropy, ''4'') example_store ''svc'' ''me'' =
      (case store_set example_store_env example_entropy example_store ''svc'' ''me'' ''DOCTOR_TEST_KEY'' ''doctor_ok''
              (Some (new_metadata (h_now (pe_host example_store_env)) ''DOCTOR_TEST_KEY'' ''svc'' ''me'' ''sqlite-doctor'')) of
         Inl x \<Rightarrow> (Some x, example_store)
       | Inr ds1 \<Rightarrow> (case store_delete example_store_env ''4'' ds1 ''svc'' ''me'' ''DOCTOR_TEST_KEY'' of
           Inl x \<Rightarrow> (Some x, ds1)
         | Inr ds2 \<Rightarrow> (None, ds2)))"
proof -
  have "projections_wf example_store" by (rule example_store_wf)
  from doctor_roundtrip_reads_back [OF this example_storage_ok, of "(example_entropy, ''4'')" "''svc''" "''me''"] show ?thesis unfolding fst_conv snd_conv .
qed

end
