(* ===== verification/Kit_Admission.thy ===== *)
theory Kit_Admission
  imports Kit_Secrets
begin

section \<open>Producing admission and endpoint transactions\<close>

text \<open>
  The other half of peer admission: \<open>peer_admission_auth.py\<close> signs requests, decisions and revocations with the local
  identity, \<open>peer_admission.py\<close> turns them into transactions and submits them, \<open>peer_endpoints.py\<close> does so for the
  endpoints of the local node. The connection is the datastore argument and result; \<open>entropy\<close> is the randomness of the
  new identifier and of the nonce. Revocation holds the delivery lock of the peer, which is not modelled.
\<close>

subsection \<open>Signed proofs\<close>

definition ADMISSION_PROOF_VERSION :: int where
  "ADMISSION_PROOF_VERSION = 1"

text \<open>\<open>secrets.token_urlsafe(32)\<close>; the thirty-two random bytes are the argument.\<close>

definition admission_nonce :: "bytes \<Rightarrow> string" where
  "admission_nonce entropy = encode_b64url entropy"

text \<open>\<open>if text: payload[field] = text\<close>\<close>

definition optional_member :: "string \<Rightarrow> string \<Rightarrow> json_obj \<Rightarrow> json_obj" where
  "optional_member field s p = (if s \<noteq> [] then dict_set field (JStr s) p else p)"

definition sign_proof :: "peer_env \<Rightarrow> identity_material \<Rightarrow> json_obj \<Rightarrow> json_obj res" where
  "sign_proof e identity p =
     rbind (sign_ed25519 e (im_signing_private_key identity) (admission_signing_bytes p)) (\<lambda>signature.
       Inr (dict_set ''signature'' (JStr (encode_b64url signature)) p))"

definition signed_admission_request_payload ::
  "peer_env \<Rightarrow> bytes \<times> bytes \<Rightarrow> datastore \<Rightarrow> string \<Rightarrow> string \<Rightarrow> json_obj res" where
  "signed_admission_request_payload e entropy ds service_address operator_comment =
     rbind (load_sqlite_node_identity_material e ds) (\<lambda>identity.
       sign_proof e identity (optional_member ''operator_comment'' operator_comment
         (optional_member ''service_address'' service_address
           [(''proof_version'', JInt ADMISSION_PROOF_VERSION), (''proof_type'', JStr PROOF_TYPE_REQUEST),
            (''request_id'', JStr (random_identifier IdentifierType.Transaction (fst entropy))),
            (''node_id'', JStr (im_node_id identity)), (''signing_algorithm'', JStr ''ed25519''),
            (''signing_public_key'', JStr (encode_b64url (im_signing_public_key identity))),
            (''encryption_algorithm'', JStr ''x25519''),
            (''encryption_public_key'', JStr (encode_b64url (im_encryption_public_key identity))),
            (''created_at'', JStr (h_now (pe_host e))), (''nonce'', JStr (admission_nonce (snd entropy)))])))"

definition signed_admission_decision_payload ::
  "peer_env \<Rightarrow> bytes \<times> bytes \<Rightarrow> datastore \<Rightarrow> string \<Rightarrow> string \<Rightarrow> string \<Rightarrow> string \<Rightarrow> string \<Rightarrow> string list \<Rightarrow> string \<Rightarrow> json_obj res" where
  "signed_admission_decision_payload e entropy ds proof_type node_id request_id operator_comment display_name
     service_group_ids authorization_mode =
     (if proof_type \<notin> {PROOF_TYPE_ACCEPT, PROOF_TYPE_REJECT}
      then Inl (SQLiteValidationError ''admission decision proof_type is unsupported'')
      else if authorization_mode \<notin> set AUTHORIZATION_MODES
      then Inl (SQLiteValidationError (''authorization_mode is unsupported: '' @ authorization_mode))
      else
        let mode = (if proof_type = PROOF_TYPE_REJECT then AUTHORIZATION_MODE_NONE else authorization_mode) in
        if mode = AUTHORIZATION_MODE_ALL \<and> service_group_ids \<noteq> []
        then Inl (SQLiteValidationError ''authorization_mode all cannot include service_group_ids'')
        else if mode = AUTHORIZATION_MODE_NONE \<and> service_group_ids \<noteq> []
        then Inl (SQLiteValidationError ''authorization_mode none cannot include service_group_ids'')
        else
          rbind (if mode = AUTHORIZATION_MODE_ALLOW_LIST then validate_service_group_ids service_group_ids else Inr ()) (\<lambda>_.
          rbind (load_sqlite_node_identity_material e ds) (\<lambda>identity.
          let base = [(''proof_version'', JInt ADMISSION_PROOF_VERSION), (''proof_type'', JStr proof_type),
                (''request_id'', JStr request_id),
                (''decision_id'', JStr (random_identifier IdentifierType.Transaction (fst entropy))), (''node_id'', JStr node_id),
                (''signer_node_id'', JStr (im_node_id identity)), (''signer_signing_algorithm'', JStr ''ed25519''),
                (''signer_signing_public_key'', JStr (encode_b64url (im_signing_public_key identity))),
                (''signer_encryption_algorithm'', JStr ''x25519''),
                (''signer_encryption_public_key'', JStr (encode_b64url (im_encryption_public_key identity))),
                (''decided_at'', JStr (h_now (pe_host e))), (''nonce'', JStr (admission_nonce (snd entropy)))];
              verdict = (if proof_type = PROOF_TYPE_ACCEPT
                then base @ [(''accepted_at'', JStr (h_now (pe_host e))), (''authorization_mode'', JStr mode)]
                else base @ [(''rejected_at'', JStr (h_now (pe_host e)))]);
              named = optional_member ''display_name'' display_name verdict;
              scoped = (if service_group_ids \<noteq> [] then dict_set ''service_group_ids'' (JList (map JStr service_group_ids)) named
                else named)
          in sign_proof e identity (optional_member ''operator_comment'' operator_comment scoped))))"

definition signed_admission_revocation_payload ::
  "peer_env \<Rightarrow> bytes \<times> bytes \<Rightarrow> datastore \<Rightarrow> string \<Rightarrow> string \<Rightarrow> json_obj res" where
  "signed_admission_revocation_payload e entropy ds node_id operator_comment =
     rbind (validate_identifier node_id Node ''node_id'') (\<lambda>_.
     rbind (load_sqlite_node_identity_material e ds) (\<lambda>identity.
       sign_proof e identity (optional_member ''operator_comment'' operator_comment
         [(''proof_version'', JInt ADMISSION_PROOF_VERSION), (''proof_type'', JStr PROOF_TYPE_REVOKE),
          (''revocation_id'', JStr (random_identifier IdentifierType.Transaction (fst entropy))), (''node_id'', JStr node_id),
          (''signer_node_id'', JStr (im_node_id identity)), (''signer_signing_algorithm'', JStr ''ed25519''),
          (''signer_signing_public_key'', JStr (encode_b64url (im_signing_public_key identity))),
          (''revoked_at'', JStr (h_now (pe_host e))), (''nonce'', JStr (admission_nonce (snd entropy)))])))"

subsection \<open>Admission transactions (\<open>peer_admission.py\<close>)\<close>

definition PEER_ADMISSION_LOCAL_POLICY :: TransactionSubmissionPolicy where
  "PEER_ADMISSION_LOCAL_POLICY = \<lparr>po_mode = LOCAL, po_persist_transaction = True, po_apply_projection = True,
     po_mark_applied = True, po_generate_outbound_envelopes = False, po_bootstrap_support_rows = True,
     po_ignore_duplicate = False\<rparr>"

definition PEER_ADMISSION_OUTBOUND_REQUEST_POLICY :: TransactionSubmissionPolicy where
  "PEER_ADMISSION_OUTBOUND_REQUEST_POLICY = \<lparr>po_mode = LOCAL, po_persist_transaction = True, po_apply_projection = False,
     po_mark_applied = True, po_generate_outbound_envelopes = False, po_bootstrap_support_rows = True,
     po_ignore_duplicate = False\<rparr>"

definition PEER_ADMISSION_INBOUND_DECISION_POLICY :: TransactionSubmissionPolicy where
  "PEER_ADMISSION_INBOUND_DECISION_POLICY = \<lparr>po_mode = LOCAL, po_persist_transaction = True, po_apply_projection = False,
     po_mark_applied = True, po_generate_outbound_envelopes = False, po_bootstrap_support_rows = True,
     po_ignore_duplicate = False\<rparr>"

record PeerAdmissionResult =
  ar_transaction_id :: string
  ar_transaction_type :: string
  ar_node_id :: string
  ar_state :: string
  ar_proof_payload :: "json_obj option"

record PeerPublicIdentity =
  pi_node_id :: string
  pi_signing_public_key :: string
  pi_signing_algorithm :: string
  pi_encryption_public_key :: string
  pi_encryption_algorithm :: string

record PeerInspection =
  in_node_id :: string
  in_state :: string
  in_authorization_state :: string
  in_authorization_mode :: string
  in_synchronization_eligible :: bool
  in_signing_algorithm :: string
  in_signing_public_key :: string
  in_signing_fingerprint :: string
  in_encryption_algorithm :: string
  in_encryption_public_key :: string
  in_encryption_fingerprint :: string
  in_service_address :: string
  in_endpoint :: string
  in_endpoint_state :: string
  in_endpoint_expires_at :: string
  in_operator_description :: string
  in_service_group_ids :: "string list"
  in_created_at :: string
  in_updated_at :: string

definition admission_origin_node_id :: "datastore \<Rightarrow> string res" where
  "admission_origin_node_id ds =
     rbind (load_local_node_projection ds) (\<lambda>p.
       case p of
         None \<Rightarrow> Inl (SQLiteValidationError ''local node identity is required before peer admission'')
       | Some l \<Rightarrow> Inr (ln_node_id l))"

text \<open>\<open>create_transaction\<close> with its defaults.\<close>

definition plain_transaction :: "string \<Rightarrow> string \<Rightarrow> string \<Rightarrow> string \<Rightarrow> json_obj \<Rightarrow> Transaction res" where
  "plain_transaction transaction_id ty origin_node_id created_at payload =
     create_transaction
       \<lparr>tx_transaction_id = transaction_id, tx_transaction_type = ty, tx_payload = payload, tx_payload_hash = [],
        tx_transaction_version = 1, tx_payload_version = 1, tx_protocol_version = 1, tx_organization_id = None,
        tx_client_id = None, tx_owner_id = None, tx_origin_node_id = Some origin_node_id,
        tx_previous_transaction_id = None, tx_signature = None, tx_state = ''pending'',
        tx_created_at = Some created_at, tx_received_at = None, tx_applied_at = None,
        tx_acknowledged_at = None, tx_cleared_at = None\<rparr>"

definition create_peer_admission_transaction ::
  "peer_env \<Rightarrow> datastore \<Rightarrow> string \<Rightarrow> json_obj \<Rightarrow> string option \<Rightarrow> Transaction res" where
  "create_peer_admission_transaction e ds transaction_type payload origin =
     rbind (case origin of Some n \<Rightarrow> Inr n | None \<Rightarrow> admission_origin_node_id ds) (\<lambda>origin_node_id.
     rbind (deterministic_admission_transaction_id transaction_type payload) (\<lambda>transaction_id.
       plain_transaction transaction_id transaction_type origin_node_id (h_now (pe_host e)) payload))"

definition create_signed_peer_admission_request ::
  "peer_env \<Rightarrow> bytes \<times> bytes \<Rightarrow> datastore \<Rightarrow> string \<Rightarrow> string \<Rightarrow> Transaction res" where
  "create_signed_peer_admission_request e entropy ds service_address operator_comment =
     rbind (signed_admission_request_payload e entropy ds service_address operator_comment) (\<lambda>payload.
     rbind (str_member payload ''node_id'') (\<lambda>node_id.
       create_peer_admission_transaction e ds PROOF_TYPE_REQUEST payload (Some node_id)))"

definition submit_admission ::
  "peer_env \<Rightarrow> TransactionSubmissionPolicy \<Rightarrow> datastore \<Rightarrow> Transaction \<Rightarrow> datastore res" where
  "submit_admission e policy ds t =
     rmap_error backend_error (rbind (submit_transaction e ds t policy) (\<lambda>r. Inr (snd r)))"

definition request_peer_admission :: "peer_env \<Rightarrow> datastore \<Rightarrow> json_obj \<Rightarrow> (PeerAdmissionResult \<times> datastore) res" where
  "request_peer_admission e ds payload =
     rbind (verify_admission_request_payload (pe_host e) payload) (\<lambda>_.
     rbind (str_member payload ''node_id'') (\<lambda>node_id.
     rbind (create_peer_admission_transaction e ds PROOF_TYPE_REQUEST payload (Some node_id)) (\<lambda>t.
     rbind (submit_admission e PEER_ADMISSION_LOCAL_POLICY ds t) (\<lambda>ds1.
       Inr (\<lparr>ar_transaction_id = tx_transaction_id t, ar_transaction_type = tx_transaction_type t, ar_node_id = node_id,
             ar_state = ''admission_requested'', ar_proof_payload = Some payload\<rparr>, ds1)))))"

definition retain_local_peer_admission_request :: "peer_env \<Rightarrow> datastore \<Rightarrow> Transaction \<Rightarrow> datastore res" where
  "retain_local_peer_admission_request e ds t =
     (if tx_transaction_type t \<noteq> PROOF_TYPE_REQUEST
      then Inl (SQLiteBackendError ''local peer admission request has an invalid type'')
      else submit_admission e PEER_ADMISSION_OUTBOUND_REQUEST_POLICY ds t)"

text \<open>The newest logged request of the peer.\<close>

fun latest_request_id :: "string \<Rightarrow> transaction_row list \<Rightarrow> string res" where
  "latest_request_id node_id [] =
     Inl (SQLiteValidationError (''peer admission request_id not found for peer: '' @ node_id))"
| "latest_request_id node_id (r # rows) =
     (if tr_transaction_type r \<noteq> PROOF_TYPE_REQUEST then latest_request_id node_id rows
      else rbind (load_canonical_json (tr_payload r)) (\<lambda>p.
        case (map_of p ''node_id'', map_of p ''request_id'') of
          (Some (JStr n), Some (JStr i)) \<Rightarrow>
            if n = node_id \<and> i \<noteq> [] then Inr i else latest_request_id node_id rows
        | _ \<Rightarrow> latest_request_id node_id rows))"

definition pending_request_id_for_peer :: "datastore \<Rightarrow> string \<Rightarrow> string res" where
  "pending_request_id_for_peer ds node_id =
     rmap_error backend_error
       (case t_get nd_node_id node_id (ds_nodes ds) of
          None \<Rightarrow> Inl (SQLiteValidationError (''cannot accept unknown peer admission request: '' @ node_id))
        | Some r \<Rightarrow>
            if or_empty (nd_state r) \<noteq> ''admission_requested''
            then Inl (SQLiteValidationError (''peer admission request is not pending: '' @ node_id @ '' state='' @
              (case nd_state r of None \<Rightarrow> ''None'' | Some state \<Rightarrow> state)))
            else latest_request_id node_id (rev (ds_transactions ds)))"

definition resolve_authorization_mode :: "string list \<Rightarrow> string option \<Rightarrow> string res" where
  "resolve_authorization_mode service_group_ids authorization_mode =
     (case authorization_mode of
        None \<Rightarrow> Inr (if service_group_ids \<noteq> [] then AUTHORIZATION_MODE_ALLOW_LIST else AUTHORIZATION_MODE_NONE)
      | Some mode \<Rightarrow>
          if mode = AUTHORIZATION_MODE_ALL \<and> service_group_ids \<noteq> []
          then Inl (SQLiteValidationError ''authorization_mode all cannot include service_group_ids'')
          else if mode = AUTHORIZATION_MODE_NONE \<and> service_group_ids \<noteq> []
          then Inl (SQLiteValidationError ''authorization_mode none cannot include service_group_ids'')
          else Inr mode)"

definition create_signed_peer_admission_decision ::
  "peer_env \<Rightarrow> bytes \<times> bytes \<Rightarrow> datastore \<Rightarrow> string \<Rightarrow> string \<Rightarrow> string \<Rightarrow> string \<Rightarrow> string \<Rightarrow> string list \<Rightarrow> string option \<Rightarrow> Transaction res" where
  "create_signed_peer_admission_decision e entropy ds proof_type node_id request_id operator_comment display_name
     service_group_ids authorization_mode =
     rbind (resolve_authorization_mode service_group_ids authorization_mode) (\<lambda>mode.
     rbind (signed_admission_decision_payload e entropy ds proof_type node_id request_id operator_comment display_name
              service_group_ids mode) (\<lambda>payload.
     rbind (str_member payload ''signer_node_id'') (\<lambda>signer.
       create_peer_admission_transaction e ds proof_type payload (Some signer))))"

definition admission_result :: "Transaction \<Rightarrow> string \<Rightarrow> string \<Rightarrow> datastore \<Rightarrow> PeerAdmissionResult \<times> datastore" where
  "admission_result t node_id state ds =
     (\<lparr>ar_transaction_id = tx_transaction_id t, ar_transaction_type = tx_transaction_type t, ar_node_id = node_id,
       ar_state = state, ar_proof_payload = Some (tx_payload t)\<rparr>, ds)"

definition accept_peer_admission ::
  "peer_env \<Rightarrow> bytes \<times> bytes \<Rightarrow> datastore \<Rightarrow> string \<Rightarrow> string \<Rightarrow> string \<Rightarrow> string list \<Rightarrow> string option \<Rightarrow> (PeerAdmissionResult \<times> datastore) res" where
  "accept_peer_admission e entropy ds node_id operator_comment display_name service_group_ids authorization_mode =
     rbind (pending_request_id_for_peer ds node_id) (\<lambda>request_id.
     rbind (create_signed_peer_admission_decision e entropy ds PROOF_TYPE_ACCEPT node_id request_id operator_comment display_name
              service_group_ids authorization_mode) (\<lambda>t.
     rbind (submit_admission e PEER_ADMISSION_LOCAL_POLICY ds t) (\<lambda>ds1.
       Inr (admission_result t node_id ''active'' ds1))))"

definition reject_peer_admission ::
  "peer_env \<Rightarrow> bytes \<times> bytes \<Rightarrow> datastore \<Rightarrow> string \<Rightarrow> string \<Rightarrow> (PeerAdmissionResult \<times> datastore) res" where
  "reject_peer_admission e entropy ds node_id operator_comment =
     rbind (pending_request_id_for_peer ds node_id) (\<lambda>request_id.
     rbind (signed_admission_decision_payload e entropy ds PROOF_TYPE_REJECT node_id request_id operator_comment [] []
              AUTHORIZATION_MODE_NONE) (\<lambda>payload.
     rbind (str_member payload ''signer_node_id'') (\<lambda>signer.
     rbind (create_peer_admission_transaction e ds PROOF_TYPE_REJECT payload (Some signer)) (\<lambda>t.
     rbind (submit_admission e PEER_ADMISSION_LOCAL_POLICY ds t) (\<lambda>ds1.
       Inr (admission_result t node_id ''rejected'' ds1))))))"

text \<open>The lock checks the identifier that the lookup has checked already.\<close>

definition revoke_peer_admission ::
  "peer_env \<Rightarrow> bytes \<times> bytes \<Rightarrow> datastore \<Rightarrow> string \<Rightarrow> string \<Rightarrow> (PeerAdmissionResult \<times> datastore) res" where
  "revoke_peer_admission e entropy ds node_id operator_comment =
     rbind (get_peer_registry_entry ds node_id) (\<lambda>entry.
       if entry = None then Inl (SQLiteValidationError (''cannot revoke unknown or local peer: '' @ node_id))
       else
         rbind (signed_admission_revocation_payload e entropy ds node_id operator_comment) (\<lambda>payload.
         rbind (str_member payload ''signer_node_id'') (\<lambda>signer.
         rbind (create_peer_admission_transaction e ds PROOF_TYPE_REVOKE payload (Some signer)) (\<lambda>t.
         rbind (submit_admission e PEER_ADMISSION_LOCAL_POLICY ds t) (\<lambda>ds1.
           Inr (\<lparr>ar_transaction_id = tx_transaction_id t, ar_transaction_type = tx_transaction_type t, ar_node_id = node_id,
                 ar_state = ''revoked'', ar_proof_payload = None\<rparr>, ds1))))))"

text \<open>\<open>str(payload.get(field) or "")\<close>\<close>

definition text_or_empty :: "json_obj \<Rightarrow> string \<Rightarrow> string" where
  "text_or_empty p field = (case map_of p field of None \<Rightarrow> [] | Some v \<Rightarrow> if json_truthy v then py_str v else [])"

definition import_peer_admission_decision :: "peer_env \<Rightarrow> datastore \<Rightarrow> json_obj \<Rightarrow> (PeerAdmissionResult \<times> datastore) res" where
  "import_peer_admission_decision e ds payload =
     (let transaction_type = text_or_empty payload ''proof_type'' in
      if transaction_type \<notin> {PROOF_TYPE_ACCEPT, PROOF_TYPE_REJECT}
      then Inl (SQLiteBackendError ''peer admission decision proof_type is unsupported'')
      else
        rbind (rmap_error (\<lambda>x. case x of SQLiteValidationError m \<Rightarrow> SQLiteBackendError m | _ \<Rightarrow> x)
                 (verify_admission_decision_payload (pe_host e) ds payload)) (\<lambda>_.
        rbind (str_member payload ''signer_node_id'') (\<lambda>signer.
        rbind (create_peer_admission_transaction e ds transaction_type payload (Some signer)) (\<lambda>t.
        rbind (submit_admission e PEER_ADMISSION_INBOUND_DECISION_POLICY ds t) (\<lambda>ds1.
        rbind (str_member payload ''node_id'') (\<lambda>node_id.
          Inr (admission_result t node_id (if transaction_type = PROOF_TYPE_ACCEPT then ''active'' else ''rejected'') ds1)))))))"

definition local_peer_public_identity :: "datastore \<Rightarrow> PeerPublicIdentity res" where
  "local_peer_public_identity ds =
     rmap_error (\<lambda>x. case x of SQLiteValidationError m \<Rightarrow> SQLiteBackendError m | _ \<Rightarrow> x)
       (rbind (load_local_node_projection ds) (\<lambda>p.
          case p of
            None \<Rightarrow> Inl (SQLiteValidationError ''local node identity is required before peer admission'')
          | Some l \<Rightarrow> Inr \<lparr>pi_node_id = ln_node_id l, pi_signing_public_key = encode_b64url (ln_signing_public_key l),
              pi_signing_algorithm = ''ed25519'', pi_encryption_public_key = encode_b64url (ln_encryption_public_key l),
              pi_encryption_algorithm = ''x25519''\<rparr>))"

definition inspection_from_registry_entry :: "PeerRegistryEntry \<Rightarrow> PeerInspection" where
  "inspection_from_registry_entry r =
     \<lparr>in_node_id = pr_node_id r, in_state = pr_admission_state r, in_authorization_state = pr_authorization_state r,
      in_authorization_mode = pr_authorization_mode r, in_synchronization_eligible = pr_synchronization_eligible r,
      in_signing_algorithm = pr_signing_algorithm r, in_signing_public_key = pr_signing_public_key r,
      in_signing_fingerprint = pr_signing_fingerprint r, in_encryption_algorithm = pr_encryption_algorithm r,
      in_encryption_public_key = pr_encryption_public_key r, in_encryption_fingerprint = pr_encryption_fingerprint r,
      in_service_address = pr_service_address r, in_endpoint = pr_endpoint r, in_endpoint_state = pr_endpoint_state r,
      in_endpoint_expires_at = pr_endpoint_expires_at r, in_operator_description = pr_display_name r,
      in_service_group_ids = pr_service_group_ids r, in_created_at = pr_created_at r, in_updated_at = pr_updated_at r\<rparr>"

definition list_peer_admissions :: "datastore \<Rightarrow> PeerInspection list res" where
  "list_peer_admissions ds =
     rbind (list_peer_registry_entries ds) (\<lambda>entries. Inr (map inspection_from_registry_entry entries))"

definition get_peer_admission :: "datastore \<Rightarrow> string \<Rightarrow> PeerInspection option res" where
  "get_peer_admission ds node_id =
     rbind (get_peer_registry_entry ds node_id) (\<lambda>entry. Inr (map_option inspection_from_registry_entry entry))"

subsection \<open>Endpoint transactions (\<open>peer_endpoints.py\<close>)\<close>

definition PEER_ENDPOINT_LOCAL_POLICY :: TransactionSubmissionPolicy where
  "PEER_ENDPOINT_LOCAL_POLICY = \<lparr>po_mode = LOCAL, po_persist_transaction = True, po_apply_projection = True,
     po_mark_applied = True, po_generate_outbound_envelopes = False, po_bootstrap_support_rows = True,
     po_ignore_duplicate = False\<rparr>"

definition PEER_ENDPOINT_PROPAGATING_POLICY :: TransactionSubmissionPolicy where
  "PEER_ENDPOINT_PROPAGATING_POLICY = \<lparr>po_mode = LOCAL, po_persist_transaction = True, po_apply_projection = True,
     po_mark_applied = True, po_generate_outbound_envelopes = True, po_bootstrap_support_rows = True,
     po_ignore_duplicate = False\<rparr>"

record PeerEndpointRecord =
  er_node_id :: string
  er_endpoint :: string
  er_state :: string
  er_created_at :: string
  er_updated_at :: string
  er_expires_at :: string
  er_last_seen_at :: string
  er_operator_comment :: string

definition create_peer_endpoint_transaction ::
  "peer_env \<Rightarrow> bytes \<Rightarrow> string \<Rightarrow> string \<Rightarrow> string \<Rightarrow> string option \<Rightarrow> string option \<Rightarrow> string \<Rightarrow> Transaction res" where
  "create_peer_endpoint_transaction e entropy transaction_type node_id endpoint previous_endpoint expires_at operator_comment =
     (if transaction_type \<notin> set PEER_ENDPOINT_TRANSACTION_TYPES
      then Inl (SQLiteValidationError (''unsupported peer endpoint transaction type: '' @ transaction_type))
      else
        rbind (validate_identifier node_id Node ''node_id'') (\<lambda>_.
        rbind (validate_endpoint (Some (JStr endpoint)) ''endpoint'') (\<lambda>endpoint.
        rbind (case previous_endpoint of
                 None \<Rightarrow> Inr None
               | Some v \<Rightarrow> rbind (validate_endpoint (Some (JStr v)) ''previous_endpoint'') (\<lambda>v. Inr (Some v))) (\<lambda>previous.
        if transaction_type \<in> {''peer.endpoint.update'', ''peer.endpoint.replace''} \<and> \<not> truthy previous
        then Inl (SQLiteValidationError (transaction_type @ '' requires previous_endpoint''))
        else if expires_at = Some [] then Inl (SQLiteValidationError ''expires_at must not be empty'')
        else
          let member = (\<lambda>field v p. case v of None \<Rightarrow> p | Some s \<Rightarrow> dict_set field (JStr s) p);
              payload = optional_member ''operator_comment'' operator_comment
                (member ''expires_at'' expires_at (member ''previous_endpoint'' previous
                  [(''node_id'', JStr node_id), (''endpoint'', JStr endpoint), (''observed_at'', JStr (h_now (pe_host e)))]))
          in plain_transaction (random_identifier IdentifierType.Transaction entropy) transaction_type node_id
               (h_now (pe_host e)) payload))))"

definition submit_local_endpoint :: "peer_env \<Rightarrow> datastore \<Rightarrow> Transaction \<Rightarrow> bool \<Rightarrow> (Transaction \<times> datastore) res" where
  "submit_local_endpoint e ds t propagate =
     rbind (submit_admission e (if propagate then PEER_ENDPOINT_PROPAGATING_POLICY else PEER_ENDPOINT_LOCAL_POLICY) ds t)
       (\<lambda>ds1. Inr (t, ds1))"

definition local_node_id :: "datastore \<Rightarrow> string res" where
  "local_node_id ds =
     rbind (load_local_node_projection ds) (\<lambda>p.
       case p of
         None \<Rightarrow> Inl (SQLiteValidationError ''local node identity is required before endpoint registration'')
       | Some l \<Rightarrow> Inr (ln_node_id l))"

text \<open>The body the five local endpoint operations share.\<close>

definition local_endpoint_change ::
  "peer_env \<Rightarrow> bytes \<Rightarrow> datastore \<Rightarrow> string \<Rightarrow> string \<Rightarrow> string option \<Rightarrow> string option \<Rightarrow> string \<Rightarrow> bool \<Rightarrow> (Transaction \<times> datastore) res" where
  "local_endpoint_change e entropy ds transaction_type endpoint previous_endpoint expires_at operator_comment propagate =
     rbind (local_node_id ds) (\<lambda>node_id.
     rbind (create_peer_endpoint_transaction e entropy transaction_type node_id endpoint previous_endpoint expires_at
              operator_comment) (\<lambda>t.
       submit_local_endpoint e ds t propagate))"

definition register_local_endpoint ::
  "peer_env \<Rightarrow> bytes \<Rightarrow> datastore \<Rightarrow> string \<Rightarrow> string option \<Rightarrow> string \<Rightarrow> bool \<Rightarrow> (Transaction \<times> datastore) res" where
  "register_local_endpoint e entropy ds endpoint expires_at operator_comment propagate =
     local_endpoint_change e entropy ds ''peer.endpoint.register'' endpoint None expires_at operator_comment propagate"

definition update_local_endpoint ::
  "peer_env \<Rightarrow> bytes \<Rightarrow> datastore \<Rightarrow> string \<Rightarrow> string \<Rightarrow> string option \<Rightarrow> string \<Rightarrow> bool \<Rightarrow> (Transaction \<times> datastore) res" where
  "update_local_endpoint e entropy ds endpoint previous_endpoint expires_at operator_comment propagate =
     local_endpoint_change e entropy ds ''peer.endpoint.update'' endpoint (Some previous_endpoint) expires_at operator_comment propagate"

definition replace_local_endpoint ::
  "peer_env \<Rightarrow> bytes \<Rightarrow> datastore \<Rightarrow> string \<Rightarrow> string \<Rightarrow> string option \<Rightarrow> string \<Rightarrow> bool \<Rightarrow> (Transaction \<times> datastore) res" where
  "replace_local_endpoint e entropy ds endpoint previous_endpoint expires_at operator_comment propagate =
     local_endpoint_change e entropy ds ''peer.endpoint.replace'' endpoint (Some previous_endpoint) expires_at operator_comment propagate"

definition expire_local_endpoint ::
  "peer_env \<Rightarrow> bytes \<Rightarrow> datastore \<Rightarrow> string \<Rightarrow> string \<Rightarrow> bool \<Rightarrow> (Transaction \<times> datastore) res" where
  "expire_local_endpoint e entropy ds endpoint operator_comment propagate =
     local_endpoint_change e entropy ds ''peer.endpoint.expire'' endpoint None None operator_comment propagate"

definition remove_local_endpoint ::
  "peer_env \<Rightarrow> bytes \<Rightarrow> datastore \<Rightarrow> string \<Rightarrow> string \<Rightarrow> bool \<Rightarrow> (Transaction \<times> datastore) res" where
  "remove_local_endpoint e entropy ds endpoint operator_comment propagate =
     local_endpoint_change e entropy ds ''peer.endpoint.remove'' endpoint None None operator_comment propagate"

text \<open>\<open>ORDER BY node_id, updated_at DESC, endpoint\<close> as stable sorts from the last key to the first.\<close>

definition active_endpoint_rows :: "datastore \<Rightarrow> endpoint_row list" where
  "active_endpoint_rows ds =
     sort_key ep_node_id (rev (sort_key ep_updated_at (rev (sort_key ep_endpoint
       (filter (\<lambda>r. ep_state r = ''active'') (ds_peer_endpoints ds))))))"

fun first_per_node :: "string list \<Rightarrow> endpoint_row list \<Rightarrow> (string \<times> string) list" where
  "first_per_node seen [] = []"
| "first_per_node seen (r # rows) =
     (if ep_node_id r \<in> set seen then first_per_node seen rows
      else (ep_node_id r, ep_endpoint r) # first_per_node (ep_node_id r # seen) rows)"

definition list_active_peer_endpoints :: "datastore \<Rightarrow> (string \<times> string) list" where
  "list_active_peer_endpoints ds = first_per_node [] (active_endpoint_rows ds)"

definition reregister_local_endpoint ::
  "peer_env \<Rightarrow> bytes \<Rightarrow> datastore \<Rightarrow> string \<Rightarrow> string option \<Rightarrow> string \<Rightarrow> bool \<Rightarrow> (Transaction \<times> datastore) res" where
  "reregister_local_endpoint e entropy ds endpoint expires_at operator_comment propagate =
     rbind (local_node_id ds) (\<lambda>node_id.
       case map_of (list_active_peer_endpoints ds) node_id of
         Some previous \<Rightarrow>
           if previous \<noteq> endpoint
           then update_local_endpoint e entropy ds endpoint previous expires_at operator_comment propagate
           else register_local_endpoint e entropy ds endpoint expires_at operator_comment propagate
       | None \<Rightarrow> register_local_endpoint e entropy ds endpoint expires_at operator_comment propagate)"

definition endpoint_record :: "endpoint_row \<Rightarrow> PeerEndpointRecord" where
  "endpoint_record r =
     \<lparr>er_node_id = ep_node_id r, er_endpoint = ep_endpoint r, er_state = ep_state r, er_created_at = ep_created_at r,
      er_updated_at = ep_updated_at r, er_expires_at = or_empty (ep_expires_at r),
      er_last_seen_at = or_empty (ep_last_seen_at r), er_operator_comment = or_empty (ep_operator_comment r)\<rparr>"

definition list_peer_endpoint_records :: "datastore \<Rightarrow> string option \<Rightarrow> PeerEndpointRecord list res" where
  "list_peer_endpoint_records ds node_id =
     rbind (case node_id of None \<Rightarrow> Inr () | Some n \<Rightarrow> rbind (validate_identifier n Node ''node_id'') (\<lambda>_. Inr ())) (\<lambda>_.
       Inr (map endpoint_record (sort_key ep_node_id (sort_key ep_updated_at (sort_key ep_endpoint
         (filter (\<lambda>r. node_id = None \<or> node_id = Some (ep_node_id r)) (ds_peer_endpoints ds)))))))"

subsection \<open>Signed proofs verify\<close>

lemma map_of_optional_member [simp]: "map_of (optional_member f s p) k = (if k = f \<and> s \<noteq> [] then Some (JStr s) else map_of p k)"
  by (simp add: optional_member_def)

lemma require_fields_iff: "require_fields p fs = Inr () \<longleftrightarrow> (\<forall>f \<in> set fs. map_of p f \<noteq> None)"
proof -
  have "find (\<lambda>f. \<not> dict_has f p) (sort fs) = None \<longleftrightarrow> (\<forall>f \<in> set fs. map_of p f \<noteq> None)" by (auto simp: find_None_iff dict_has_iff)
  then show ?thesis unfolding require_fields_def by (cases "find (\<lambda>f. \<not> dict_has f p) (sort fs)") simp_all
qed

text \<open>The keys of the identity are usable by the verifier, and a signature made with them verifies there.\<close>

definition identity_law :: "peer_env \<Rightarrow> peer_env \<Rightarrow> identity_material \<Rightarrow> bool" where
  "identity_law s r a \<longleftrightarrow> is_identifier Node (im_node_id a) \<and> keys_raw a \<and> signature_law s r a \<and>
     h_x25519_key_ok (pe_host r) (im_encryption_public_key a)"

lemma dict_pop_fresh: "map_of p k = None \<Longrightarrow> dict_pop k (dict_set k v p) = p" "map_of p k = None \<Longrightarrow> dict_pop k p = p"
  by (induction p) (auto simp: dict_pop_def split: if_split_asm)

lemma sign_proof_ok:
  assumes "identity_law s r a" "map_of p ''signature'' = None"
  obtains signature where "sign_proof s a p = Inr (dict_set ''signature'' (JStr (encode_b64url signature)) p)"
    "auth_signature (dict_set ''signature'' (JStr (encode_b64url signature)) p) = Inr signature"
    "check_signature (pe_host r) (im_signing_public_key a) (dict_set ''signature'' (JStr (encode_b64url signature)) p) signature x = Inr ()"
    "encode_b64url signature \<noteq> []"
proof -
  let ?s = "pe_ed25519_sign s (im_signing_private_key a) (admission_signing_bytes p)"
  have law: "length ?s = 64" "h_ed25519_key_ok (pe_host r) (im_signing_public_key a)" "keys_raw a"
    "h_ed25519_verify (pe_host r) (im_signing_public_key a) (admission_signing_bytes p) ?s"
    using assms(1) by (simp_all add: identity_law_def signature_law_def)
  then have ne: "encode_b64url ?s \<noteq> []" by (intro encode_b64url_neq_Nil) auto
  have bytes: "admission_signing_bytes (dict_set ''signature'' v p) = admission_signing_bytes p" for v
    using assms(2) by (simp add: admission_signing_bytes_def without_signature_def dict_pop_fresh)
  show thesis
    by (rule that [of ?s])
      (use law ne bytes in \<open>simp_all add: sign_proof_def sign_ed25519_def keys_raw_def auth_signature_def require_text_def
        check_signature_def verify_ed25519_def decode_b64url_encode rguard_def\<close>)
qed

lemma auth_public_key_ok:
  assumes "map_of p af = Some (JStr alg)" "map_of p kf = Some (JStr (encode_b64url k))" "alg \<noteq> []" "length k = 32"
    "if kind = ''signing'' then h_ed25519_key_ok h k else h_x25519_key_ok h k"
  shows "auth_public_key h p kf af alg kind = Inr k"
proof -
  have "encode_b64url k \<noteq> []" using assms(4) by (intro encode_b64url_neq_Nil) auto
  with assms show ?thesis by (simp add: auth_public_key_def require_text_def decode_b64url_encode)
qed

lemma require_text_ok: "map_of p f = Some (JStr s) \<Longrightarrow> s \<noteq> [] \<Longrightarrow> x = None \<or> x = Some s \<Longrightarrow> require_text p f x = Inr s"
  by (auto simp: require_text_def)

lemma require_identifier_ok: "map_of p f = Some (JStr v) \<Longrightarrow> is_identifier t v \<Longrightarrow> require_identifier p f t = Inr v"
  by (simp add: require_identifier_def require_text_def is_identifier_not_Nil validate_identifier_ok)

lemma loaded_identity: "load_sqlite_node_identity_material e ds = Inr a \<Longrightarrow> im_signing_public_key a \<noteq> im_encryption_public_key a"
  unfolding load_sqlite_node_identity_material_def
  by (erule rbind_InrE) (auto simp: load_identity_file_def validate_distinct_keypairs_def split: option.split_asm if_split_asm elim!: rbind_InrE)

lemma random_identifier_ok [simp]: "is_identifier t (random_identifier t entropy)"
  by (simp add: random_identifier_def)

lemma signed_request_ok:
  assumes "load_sqlite_node_identity_material e ds = Inr a" "identity_law e r a" "h_now (pe_host e) \<noteq> []" "snd entropy \<noteq> []"
  obtains p where "signed_admission_request_payload e entropy ds sa oc = Inr p" "verify_admission_request_payload (pe_host r) p = Inr ()"
    "map_of p ''node_id'' = Some (JStr (im_node_id a))" "map_of p ''signing_public_key'' = Some (JStr (encode_b64url (im_signing_public_key a)))"
    "map_of p ''encryption_public_key'' = Some (JStr (encode_b64url (im_encryption_public_key a)))"
    "map_of p ''request_id'' = Some (JStr (random_identifier IdentifierType.Transaction (fst entropy)))"
proof -
  define q where "q = optional_member ''operator_comment'' oc (optional_member ''service_address'' sa
           [(''proof_version'', JInt ADMISSION_PROOF_VERSION), (''proof_type'', JStr PROOF_TYPE_REQUEST),
            (''request_id'', JStr (random_identifier IdentifierType.Transaction (fst entropy))),
            (''node_id'', JStr (im_node_id a)), (''signing_algorithm'', JStr ''ed25519''),
            (''signing_public_key'', JStr (encode_b64url (im_signing_public_key a))),
            (''encryption_algorithm'', JStr ''x25519''),
            (''encryption_public_key'', JStr (encode_b64url (im_encryption_public_key a))),
            (''created_at'', JStr (h_now (pe_host e))), (''nonce'', JStr (admission_nonce (snd entropy)))])"
  have q: "map_of q ''signature'' = None" by (simp add: q_def)
  obtain sg where s: "sign_proof e a q = Inr (dict_set ''signature'' (JStr (encode_b64url sg)) q)"
    "auth_signature (dict_set ''signature'' (JStr (encode_b64url sg)) q) = Inr sg"
    "check_signature (pe_host r) (im_signing_public_key a) (dict_set ''signature'' (JStr (encode_b64url sg)) q) sg
      (SQLiteValidationError ''peer admission request signature verification failed'') = Inr ()" "encode_b64url sg \<noteq> []"
    by (rule sign_proof_ok [OF assms(2) q])
  define p where "p = dict_set ''signature'' (JStr (encode_b64url sg)) q"
  have f: "map_of p ''proof_version'' = Some (JInt 1)" "map_of p ''proof_type'' = Some (JStr PROOF_TYPE_REQUEST)"
    "map_of p ''request_id'' = Some (JStr (random_identifier IdentifierType.Transaction (fst entropy)))"
    "map_of p ''node_id'' = Some (JStr (im_node_id a))" "map_of p ''created_at'' = Some (JStr (h_now (pe_host e)))"
    "map_of p ''nonce'' = Some (JStr (admission_nonce (snd entropy)))" "map_of p ''signing_algorithm'' = Some (JStr ''ed25519'')"
    "map_of p ''signing_public_key'' = Some (JStr (encode_b64url (im_signing_public_key a)))"
    "map_of p ''encryption_algorithm'' = Some (JStr ''x25519'')"
    "map_of p ''encryption_public_key'' = Some (JStr (encode_b64url (im_encryption_public_key a)))"
    "map_of p ''signature'' = Some (JStr (encode_b64url sg))"
    by (simp_all add: p_def q_def ADMISSION_PROOF_VERSION_def)
  have law: "is_identifier Node (im_node_id a)" "length (im_signing_public_key a) = 32" "length (im_encryption_public_key a) = 32"
    "h_ed25519_key_ok (pe_host r) (im_signing_public_key a)" "h_x25519_key_ok (pe_host r) (im_encryption_public_key a)"
    using assms(2) by (simp_all add: identity_law_def signature_law_def keys_raw_def)
  have nonce: "admission_nonce (snd entropy) \<noteq> []" using assms(4) by (simp add: admission_nonce_def encode_b64url_neq_Nil)
  have "verify_admission_request_payload (pe_host r) p = Inr ()"
    using assms(3) nonce loaded_identity [OF assms(1)] s(2,3)
    by (simp add: verify_admission_request_payload_def require_fields_iff [THEN iffD2] REQUEST_REQUIRED_def f require_int_def
        require_text_ok [OF f(2)] require_text_ok [OF f(5)] require_text_ok [OF f(6)] PROOF_TYPE_REQUEST_def
        require_identifier_ok [OF f(3)] require_identifier_ok [OF f(4) law(1)]
        auth_public_key_ok [OF f(7,8) _ law(2)] auth_public_key_ok [OF f(9,10) _ law(3)] law p_def [symmetric])
  moreover have "signed_admission_request_payload e entropy ds sa oc = Inr p"
    using s(1) by (simp add: signed_admission_request_payload_def assms(1) q_def p_def)
  ultimately show thesis using that f(3,4,8,10) by blast
qed

lemma modes_distinct: "AUTHORIZATION_MODE_ALL \<noteq> AUTHORIZATION_MODE_NONE" "AUTHORIZATION_MODE_ALLOW_LIST \<noteq> AUTHORIZATION_MODE_NONE"
  "AUTHORIZATION_MODE_ALLOW_LIST \<noteq> AUTHORIZATION_MODE_ALL" "PROOF_TYPE_ACCEPT \<noteq> PROOF_TYPE_REJECT"
  by (simp_all add: AUTHORIZATION_MODE_ALL_def AUTHORIZATION_MODE_NONE_def AUTHORIZATION_MODE_ALLOW_LIST_def
      PROOF_TYPE_ACCEPT_def PROOF_TYPE_REJECT_def)

lemma validated_groups: "validate_service_group_ids gs = Inr () \<Longrightarrow> \<forall>g \<in> set gs. is_identifier Service_group g"
proof -
  have "rmapM (\<lambda>i. rmap_error sqlite_validation (validate_identifier i Service_group ''service_group_ids'')) gs = Inr v \<Longrightarrow>
      \<forall>g \<in> set gs. is_identifier Service_group g" for v
    by (induction gs arbitrary: v) (auto simp: rbind_Inr_iff validate_identifier_iff is_identifier_iff)
  then show "validate_service_group_ids gs = Inr () \<Longrightarrow> ?thesis" unfolding validate_service_group_ids_def by (elim rbind_InrE)
qed

lemma text_list_ok:
  assumes "payload_get p f = (if gs = [] then None else Some (JList (map JStr gs)))" "[] \<notin> set gs"
  shows "auth_optional_text_list p f = Inr gs"
proof -
  have "rmapM (\<lambda>j. case j of JStr s \<Rightarrow> if s = [] then Inl x else Inr s | _ \<Rightarrow> Inl x) (map JStr gs) = Inr gs" for x :: py_error
    using assms(2) by (induction gs) auto
  then show ?thesis by (simp add: auth_optional_text_list_def assms(1))
qed

text \<open>The parts of a decision that its authorisation checks read.\<close>

lemma decision_authorization_ok:
  assumes "payload_get p ''authorization_mode'' = (if ty = PROOF_TYPE_ACCEPT then Some (JStr mode) else None)"
    and "payload_get p ''service_group_ids'' = (if gs = [] then None else Some (JList (map JStr gs)))"
    and "mode \<in> set AUTHORIZATION_MODES" "mode = AUTHORIZATION_MODE_ALLOW_LIST \<or> gs = []"
    and "mode = AUTHORIZATION_MODE_ALLOW_LIST \<Longrightarrow> validate_service_group_ids gs = Inr ()"
    and "ty \<noteq> PROOF_TYPE_ACCEPT \<Longrightarrow> gs = []"
  shows "decision_authorization p ty = Inr ()"
proof -
  have "[] \<notin> set gs" using assms(4,5) validated_groups is_identifier_not_Nil by fastforce
  note ids = text_list_ok [OF assms(2) this]
  have "mode \<noteq> []" using assms(3) by (auto simp: modes_set)
  then have "auth_optional_text p ''authorization_mode'' = Inr (if ty = PROOF_TYPE_ACCEPT then Some mode else None)"
    by (simp add: auth_optional_text_def assms(1))
  with ids assms(3-6) modes_distinct show ?thesis by (auto simp: decision_authorization_def Let_def)
qed

definition decision_base :: "peer_env \<Rightarrow> bytes \<times> bytes \<Rightarrow> identity_material \<Rightarrow> string \<Rightarrow> string \<Rightarrow> string \<Rightarrow> string \<Rightarrow> string \<Rightarrow> string list \<Rightarrow> string \<Rightarrow> json_obj" where
  "decision_base e entropy a ty n i oc dn gs mode =
     optional_member ''operator_comment'' oc
       ((\<lambda>named. if gs \<noteq> [] then dict_set ''service_group_ids'' (JList (map JStr gs)) named else named)
         (optional_member ''display_name'' dn
           ([(''proof_version'', JInt ADMISSION_PROOF_VERSION), (''proof_type'', JStr ty), (''request_id'', JStr i),
                (''decision_id'', JStr (random_identifier IdentifierType.Transaction (fst entropy))), (''node_id'', JStr n),
                (''signer_node_id'', JStr (im_node_id a)), (''signer_signing_algorithm'', JStr ''ed25519''),
                (''signer_signing_public_key'', JStr (encode_b64url (im_signing_public_key a))),
                (''signer_encryption_algorithm'', JStr ''x25519''),
                (''signer_encryption_public_key'', JStr (encode_b64url (im_encryption_public_key a))),
                (''decided_at'', JStr (h_now (pe_host e))), (''nonce'', JStr (admission_nonce (snd entropy)))] @
            (if ty = PROOF_TYPE_ACCEPT then [(''accepted_at'', JStr (h_now (pe_host e))), (''authorization_mode'', JStr mode)]
             else [(''rejected_at'', JStr (h_now (pe_host e)))]))))"

lemma decision_base_fields:
  assumes q: "\<forall>k. k \<noteq> ''signature'' \<longrightarrow> map_of q k = map_of (decision_base e entropy a ty n i oc dn gs mode) k"
  shows "map_of q ''proof_version'' = Some (JInt 1)" "map_of q ''proof_type'' = Some (JStr ty)" "map_of q ''request_id'' = Some (JStr i)"
    "map_of q ''decision_id'' = Some (JStr (random_identifier IdentifierType.Transaction (fst entropy)))"
    "map_of q ''node_id'' = Some (JStr n)" "map_of q ''signer_node_id'' = Some (JStr (im_node_id a))"
    "map_of q ''decided_at'' = Some (JStr (h_now (pe_host e)))" "map_of q ''nonce'' = Some (JStr (admission_nonce (snd entropy)))"
    "map_of q ''signer_signing_algorithm'' = Some (JStr ''ed25519'')" "map_of q ''signer_encryption_algorithm'' = Some (JStr ''x25519'')"
    "map_of q ''signer_signing_public_key'' = Some (JStr (encode_b64url (im_signing_public_key a)))"
    "map_of q ''signer_encryption_public_key'' = Some (JStr (encode_b64url (im_encryption_public_key a)))"
    "map_of q ''authorization_mode'' = (if ty = PROOF_TYPE_ACCEPT then Some (JStr mode) else None)"
    "map_of q ''service_group_ids'' = (if gs = [] then None else Some (JList (map JStr gs)))"
  by (simp_all add: q decision_base_def ADMISSION_PROOF_VERSION_def)

lemma decision_base_unsigned: "map_of (decision_base e entropy a ty n i oc dn gs mode) ''signature'' = None"
  by (simp add: decision_base_def)

lemma signed_decision_form:
  assumes "signed_admission_decision_payload e entropy ds ty n i oc dn gs m = Inr p" "load_sqlite_node_identity_material e ds = Inr a"
  obtains mode where "sign_proof e a (decision_base e entropy a ty n i oc dn gs mode) = Inr p" "ty \<in> {PROOF_TYPE_ACCEPT, PROOF_TYPE_REJECT}"
    "mode \<in> set AUTHORIZATION_MODES" "mode = AUTHORIZATION_MODE_ALLOW_LIST \<or> gs = []"
    "mode = AUTHORIZATION_MODE_ALLOW_LIST \<longrightarrow> validate_service_group_ids gs = Inr ()" "ty = PROOF_TYPE_ACCEPT \<longrightarrow> mode = m"
    "ty = PROOF_TYPE_REJECT \<longrightarrow> gs = []"
proof -
  define mode where "mode = (if ty = PROOF_TYPE_REJECT then AUTHORIZATION_MODE_NONE else m)"
  from assms have c: "ty \<in> {PROOF_TYPE_ACCEPT, PROOF_TYPE_REJECT}" "m \<in> set AUTHORIZATION_MODES"
    "\<not> (mode = AUTHORIZATION_MODE_ALL \<and> gs \<noteq> [])" "\<not> (mode = AUTHORIZATION_MODE_NONE \<and> gs \<noteq> [])"
    "(if mode = AUTHORIZATION_MODE_ALLOW_LIST then validate_service_group_ids gs else Inr ()) = Inr ()"
    "sign_proof e a (decision_base e entropy a ty n i oc dn gs mode) = Inr p"
    unfolding signed_admission_decision_payload_def mode_def [symmetric] decision_base_def Let_def
    by (auto simp: rbind_Inr_iff split: if_split_asm)
  moreover have "mode \<in> set AUTHORIZATION_MODES" using c(2) by (auto simp: mode_def AUTHORIZATION_MODES_def)
  ultimately show thesis using that [of mode] modes_distinct by (auto simp: mode_def AUTHORIZATION_MODES_def split: if_split_asm)
qed

lemma payload_get_text: "map_of p k = Some (JStr s) \<Longrightarrow> payload_get p k = Some (JStr s)" "map_of p k = None \<Longrightarrow> payload_get p k = None"
  "map_of p k = Some (JList js) \<Longrightarrow> payload_get p k = Some (JList js)"
  by (simp_all add: payload_get_def)

lemma signed_decision_ok:
  assumes p: "signed_admission_decision_payload e entropy ds ty n i oc dn gs m = Inr p" and a: "load_sqlite_node_identity_material e ds = Inr a"
    and law: "identity_law e r a" and ne: "h_now (pe_host e) \<noteq> []" "snd entropy \<noteq> []"
    and ids: "is_identifier Node n" "is_identifier IdentifierType.Transaction i"
  shows "verify_admission_decision_signature (pe_host r) p = Inr ()"
proof -
  obtain mode where b: "sign_proof e a (decision_base e entropy a ty n i oc dn gs mode) = Inr p" "ty \<in> {PROOF_TYPE_ACCEPT, PROOF_TYPE_REJECT}"
    "mode \<in> set AUTHORIZATION_MODES" "mode = AUTHORIZATION_MODE_ALLOW_LIST \<or> gs = []"
    "mode = AUTHORIZATION_MODE_ALLOW_LIST \<longrightarrow> validate_service_group_ids gs = Inr ()" "ty = PROOF_TYPE_ACCEPT \<longrightarrow> mode = m"
    "ty = PROOF_TYPE_REJECT \<longrightarrow> gs = []"
    by (rule signed_decision_form [OF p a])
  define q where "q = decision_base e entropy a ty n i oc dn gs mode"
  obtain sg where s: "sign_proof e a q = Inr (dict_set ''signature'' (JStr (encode_b64url sg)) q)"
    "auth_signature (dict_set ''signature'' (JStr (encode_b64url sg)) q) = Inr sg"
    "check_signature (pe_host r) (im_signing_public_key a) (dict_set ''signature'' (JStr (encode_b64url sg)) q) sg
      (SQLiteValidationError ''peer admission decision signature verification failed'') = Inr ()" "encode_b64url sg \<noteq> []"
    by (rule sign_proof_ok [OF law decision_base_unsigned [of e entropy a ty n i oc dn gs mode, folded q_def]])
  have q: "p = dict_set ''signature'' (JStr (encode_b64url sg)) q" using s(1) b(1) by (simp add: q_def)
  have "\<forall>k. k \<noteq> ''signature'' \<longrightarrow> map_of p k = map_of (decision_base e entropy a ty n i oc dn gs mode) k" by (simp add: q q_def)
  note g = decision_base_fields [OF this]
  have l: "is_identifier Node (im_node_id a)" "length (im_signing_public_key a) = 32" "length (im_encryption_public_key a) = 32"
    "h_ed25519_key_ok (pe_host r) (im_signing_public_key a)" "h_x25519_key_ok (pe_host r) (im_encryption_public_key a)"
    using law by (simp_all add: identity_law_def signature_law_def keys_raw_def)
  have nonce: "admission_nonce (snd entropy) \<noteq> []" using ne(2) by (simp add: admission_nonce_def encode_b64url_neq_Nil)
  have "decision_authorization p ty = Inr ()"
  proof (rule decision_authorization_ok [of _ _ mode gs])
    show "payload_get p ''authorization_mode'' = (if ty = PROOF_TYPE_ACCEPT then Some (JStr mode) else None)"
      "payload_get p ''service_group_ids'' = (if gs = [] then None else Some (JList (map JStr gs)))"
      using g(13,14) by (auto simp: payload_get_def)
  qed (use b in auto)
  moreover have "ty \<noteq> []" using b(2) by (auto simp: PROOF_TYPE_ACCEPT_def PROOF_TYPE_REJECT_def)
  moreover have "\<forall>k \<in> set DECISION_REQUIRED. map_of p k \<noteq> None" unfolding DECISION_REQUIRED_def using g by (simp add: q)
  ultimately show ?thesis
    using b(2) ne(1) nonce loaded_identity [OF a] s(2,3)
    by (simp add: verify_admission_decision_signature_def require_fields_iff [THEN iffD2] g(1) require_int_def
        require_text_ok [OF g(2)] require_text_ok [OF g(7)] require_text_ok [OF g(8)] require_identifier_ok [OF g(3) ids(2)]
        require_identifier_ok [OF g(5) ids(1)] require_identifier_ok [OF g(4)] require_identifier_ok [OF g(6) l(1)]
        auth_public_key_ok [OF g(9,11) _ l(2)] auth_public_key_ok [OF g(10,12) _ l(3)] l q [symmetric])
qed

lemma signed_revocation_ok:
  assumes a: "load_sqlite_node_identity_material e ds = Inr a" and law: "identity_law e e a" and ne: "h_now (pe_host e) \<noteq> []" "snd entropy \<noteq> []"
    and n: "is_identifier Node n"
  obtains p where "signed_admission_revocation_payload e entropy ds n oc = Inr p" "verify_admission_revocation_payload (pe_host e) ds p = Inr ()"
    "map_of p ''node_id'' = Some (JStr n)" "map_of p ''signer_node_id'' = Some (JStr (im_node_id a))"
    "map_of p ''revocation_id'' = Some (JStr (random_identifier IdentifierType.Transaction (fst entropy)))"
    "\<forall>h ds' ln. h_ed25519_key_ok h (im_signing_public_key a) \<and> load_local_node_projection ds' = Inr (Some ln) \<and> ln_node_id ln \<noteq> im_node_id a \<longrightarrow>
      verify_admission_revocation_payload h ds' p = Inl (SQLiteValidationError ''peer revocation must be signed by the local node'')"
proof -
  define q where "q = optional_member ''operator_comment'' oc
         [(''proof_version'', JInt ADMISSION_PROOF_VERSION), (''proof_type'', JStr PROOF_TYPE_REVOKE),
          (''revocation_id'', JStr (random_identifier IdentifierType.Transaction (fst entropy))), (''node_id'', JStr n),
          (''signer_node_id'', JStr (im_node_id a)), (''signer_signing_algorithm'', JStr ''ed25519''),
          (''signer_signing_public_key'', JStr (encode_b64url (im_signing_public_key a))),
          (''revoked_at'', JStr (h_now (pe_host e))), (''nonce'', JStr (admission_nonce (snd entropy)))]"
  have q: "map_of q ''signature'' = None" by (simp add: q_def)
  obtain sg where s: "sign_proof e a q = Inr (dict_set ''signature'' (JStr (encode_b64url sg)) q)"
    "auth_signature (dict_set ''signature'' (JStr (encode_b64url sg)) q) = Inr sg"
    "check_signature (pe_host e) (im_signing_public_key a) (dict_set ''signature'' (JStr (encode_b64url sg)) q) sg
      (SQLiteValidationError ''peer revocation signature verification failed'') = Inr ()" "encode_b64url sg \<noteq> []"
    by (rule sign_proof_ok [OF law q])
  define p where "p = dict_set ''signature'' (JStr (encode_b64url sg)) q"
  have f: "map_of p ''proof_version'' = Some (JInt 1)" "map_of p ''proof_type'' = Some (JStr PROOF_TYPE_REVOKE)"
    "map_of p ''revocation_id'' = Some (JStr (random_identifier IdentifierType.Transaction (fst entropy)))"
    "map_of p ''node_id'' = Some (JStr n)" "map_of p ''signer_node_id'' = Some (JStr (im_node_id a))"
    "map_of p ''revoked_at'' = Some (JStr (h_now (pe_host e)))" "map_of p ''nonce'' = Some (JStr (admission_nonce (snd entropy)))"
    "map_of p ''signer_signing_algorithm'' = Some (JStr ''ed25519'')"
    "map_of p ''signer_signing_public_key'' = Some (JStr (encode_b64url (im_signing_public_key a)))"
    "map_of p ''signature'' = Some (JStr (encode_b64url sg))"
    by (simp_all add: p_def q_def ADMISSION_PROOF_VERSION_def)
  have l: "is_identifier Node (im_node_id a)" "length (im_signing_public_key a) = 32" "h_ed25519_key_ok (pe_host e) (im_signing_public_key a)"
    using law by (simp_all add: identity_law_def signature_law_def keys_raw_def)
  have nonce: "admission_nonce (snd entropy) \<noteq> []" using ne(2) by (simp add: admission_nonce_def encode_b64url_neq_Nil)
  from a obtain ln where ln: "load_local_node_projection ds = Inr (Some ln)" "ln_node_id ln = im_node_id a"
    "ln_signing_public_key ln = im_signing_public_key a"
    unfolding load_sqlite_node_identity_material_def validate_sqlite_node_identity_def require_projection_def validate_projection_matches_identity_def
    by (auto simp: rbind_Inr_iff rguard_Inr_iff split: if_split_asm option.split_asm)
  have "verify_admission_revocation_payload (pe_host e) ds p = Inr ()"
    using ne(1) nonce s(2,3)
    by (simp add: verify_admission_revocation_payload_def require_fields_iff [THEN iffD2] REVOCATION_REQUIRED_def f require_int_def
        require_text_ok [OF f(2)] require_text_ok [OF f(6)] require_text_ok [OF f(7)] PROOF_TYPE_REVOKE_def
        require_identifier_ok [OF f(3)] require_identifier_ok [OF f(4) n] require_identifier_ok [OF f(5) l(1)]
        auth_public_key_ok [OF f(8,9) _ l(2)] l ln p_def [symmetric])
  moreover have "verify_admission_revocation_payload h ds' p = Inl (SQLiteValidationError ''peer revocation must be signed by the local node'')"
    if "h_ed25519_key_ok h (im_signing_public_key a)" "load_local_node_projection ds' = Inr (Some ln)" "ln_node_id ln \<noteq> im_node_id a" for h ds' ln
    using ne(1) nonce that
    by (simp add: verify_admission_revocation_payload_def require_fields_iff [THEN iffD2] REVOCATION_REQUIRED_def f require_int_def
        require_text_ok [OF f(2)] require_text_ok [OF f(6)] require_text_ok [OF f(7)] PROOF_TYPE_REVOKE_def
        require_identifier_ok [OF f(3)] require_identifier_ok [OF f(4) n] require_identifier_ok [OF f(5) l(1)]
        auth_public_key_ok [OF f(8,9) _ l(2)] eq_commute [of "im_node_id a"])
  moreover have "signed_admission_revocation_payload e entropy ds n oc = Inr p"
    using s(1) by (simp add: signed_admission_revocation_payload_def validate_identifier_ok [OF n] a q_def p_def)
  ultimately show thesis using that f(3-5) by blast
qed


subsection \<open>Submitting\<close>

lemma plain_transaction_ok:
  assumes "is_identifier IdentifierType.Transaction i" "is_identifier Node origin" "ty \<noteq> []" "h_now (pe_host e) \<noteq> []"
  shows "plain_transaction i ty origin (h_now (pe_host e)) payload = Inr (local_tx e origin i ty payload)"
  using local_tx_valid [OF assms, of payload]
  by (simp add: plain_transaction_def create_transaction_def Let_def) (simp add: local_tx_def hash_payload_def)

text \<open>The support rows of a transaction that names only its origin.\<close>

lemma origin_support:
  assumes "is_identifier Node origin" "ty \<notin> {''secret.set'', ''secret.delete''}"
  obtains o' c g i where "bootstrap_replay_support_rows ds [local_tx e origin k ty p] = Inr (ds\<lparr>ds_organizations := o', ds_clients := c,
    ds_peer_groups := g, ds_nodes := t_insert_ignore nd_node_id (placeholder_node origin i) (ds_nodes ds)\<rparr>)"
proof -
  have s: "replay_support_rows [local_tx e origin k ty p] = Inr (no_support\<lparr>rs_origin_node_ids := [origin]\<rparr>)"
    using assms(2) is_identifier_not_Nil [OF assms(1)] validate_identifier_ok [OF assms(1)]
    by (simp add: replay_support_rows_def support_row_def support_origin_def support_owner_def support_scope_def
        support_groups_def local_tx_def truthy_def no_support_def rs_validate_identifier_def)
  obtain g where g: "local_peer_group_id_for_node origin = Inr g"
    "local_peer_group_display_name g = Inr (''peergroup-'' @ take 8 (drop 3 g))"
    using local_peer_group_ok [OF assms(1)] by blast
  show thesis
    by (rule that) (simp add: bootstrap_replay_support_rows_def s no_support_def support_node_def g Let_def support_client_def)
qed

definition admission_policy :: "TransactionSubmissionPolicy \<Rightarrow> bool" where
  "admission_policy p \<longleftrightarrow> po_persist_transaction p \<and> po_mark_applied p \<and> po_bootstrap_support_rows p \<and>
     \<not> po_generate_outbound_envelopes p \<and> \<not> po_ignore_duplicate p"

lemma admission_policies [simp]:
  "admission_policy PEER_ADMISSION_LOCAL_POLICY" "admission_policy PEER_ADMISSION_OUTBOUND_REQUEST_POLICY"
  "admission_policy PEER_ADMISSION_INBOUND_DECISION_POLICY" "admission_policy PEER_ENDPOINT_LOCAL_POLICY"
  "po_apply_projection PEER_ADMISSION_LOCAL_POLICY" "\<not> po_apply_projection PEER_ADMISSION_OUTBOUND_REQUEST_POLICY"
  "\<not> po_apply_projection PEER_ADMISSION_INBOUND_DECISION_POLICY" "po_apply_projection PEER_ENDPOINT_LOCAL_POLICY"
  by (simp_all add: admission_policy_def PEER_ADMISSION_LOCAL_POLICY_def PEER_ADMISSION_OUTBOUND_REQUEST_POLICY_def
      PEER_ADMISSION_INBOUND_DECISION_POLICY_def PEER_ENDPOINT_LOCAL_POLICY_def)

lemma rmap_error_Inr: "rmap_error f x = Inr y \<longleftrightarrow> x = Inr y"
  by (cases x) (simp_all add: rmap_error_def)

lemma submit_admission_InrE:
  assumes "submit_admission e p ds t = Inr ds'" "admission_policy p"
  obtains a l d l' where "support_extends ds a" "bootstrap_replay_support_rows ds [t] = Inr a"
    "validate_authenticated_transaction (pe_host e) ds t = Inr ()"
    "if po_apply_projection p then apply_transaction (pe_host e) (a\<lparr>ds_transactions := l\<rparr>) t = Inr d else d = a\<lparr>ds_transactions := l\<rparr>"
    "ds' = d\<lparr>ds_transactions := l'\<rparr>" "log_ids ds' = log_ids ds @ [tx_transaction_id t]"
proof -
  from assms(2) have p: "po_persist_transaction p" "po_mark_applied p" "po_bootstrap_support_rows p"
    "\<not> po_generate_outbound_envelopes p" "\<not> po_ignore_duplicate p" by (simp_all add: admission_policy_def)
  from assms(1) obtain r where "submit_transaction e ds t p = Inr (r, ds')"
    unfolding submit_admission_def rmap_error_Inr by (elim rbind_InrE) auto
  then obtain a where s: "validate_authenticated_transaction (pe_host e) ds t = Inr ()" "bootstrap_replay_support_rows ds [t] = Inr a"
    "(case insert_transaction a t of Inr ds2 \<Rightarrow> complete_submission e ds2 t p | Inl x \<Rightarrow> Inl x) = Inr (r, ds')"
    unfolding submit_transaction_def by (elim rbind_InrE) (simp add: p split: sum.split_asm py_error.split_asm)
  from s(3) obtain b where b0: "insert_transaction a t = Inr b" and c: "complete_submission e b t p = Inr (r, ds')"
    by (simp split: sum.split_asm)
  from b0 obtain hash where b: "b = a\<lparr>ds_transactions := ds_transactions a @ [transaction_to_row t hash]\<rparr>"
    by (rule insert_transaction_InrD)
  from c obtain d where d: "if po_apply_projection p then apply_transaction (pe_host e) b t = Inr d else d = b"
    "mark_transaction_applied (h_now (pe_host e)) d (tx_transaction_id t) = Inr ds'"
    unfolding complete_submission_def by (elim rbind_InrE) (simp add: p split: if_split_asm)
  have log: "ds_transactions d = ds_transactions b" using d(1) apply_transaction_keeps(1) by (cases "po_apply_projection p") auto
  from d(2) obtain l where l: "ds' = d\<lparr>ds_transactions := l\<rparr>" "map tr_transaction_id l = map tr_transaction_id (ds_transactions d)"
    by (auto simp: mark_transaction_applied_def t_update_def o_def if_distrib split: option.split_asm if_split_asm cong: if_cong)
  have "log_ids ds' = log_ids ds @ [tx_transaction_id t]"
    using l(2) support_keeps(1) [OF bootstrap_extends [OF s(2)]] by (simp add: l(1) log_ids_def log b transaction_to_row_def)
  with that [OF bootstrap_extends [OF s(2)] s(2,1)] d(1) l(1) b show thesis by blast
qed

lemma submit_admission_succeeds:
  assumes ids: "is_identifier IdentifierType.Transaction k" "is_identifier Node origin" "ty \<noteq> []" "h_now (pe_host e) \<noteq> []"
    and auth: "validate_authenticated_transaction (pe_host e) ds (local_tx e origin k ty payload) = Inr ()"
    and fresh: "k \<notin> set (log_ids ds)" and p: "admission_policy p" and ty: "ty \<notin> {''secret.set'', ''secret.delete''}"
    and app: "\<And>o' c g i l. po_apply_projection p \<Longrightarrow> \<exists>d. apply_transaction (pe_host e) (ds\<lparr>ds_organizations := o', ds_clients := c,
      ds_peer_groups := g, ds_nodes := t_insert_ignore nd_node_id (placeholder_node origin i) (ds_nodes ds), ds_transactions := l\<rparr>)
        (local_tx e origin k ty payload) = Inr d"
  obtains ds' where "submit_admission e p ds (local_tx e origin k ty payload) = Inr ds'"
proof -
  let ?t = "local_tx e origin k ty payload" and ?h = "sha256 (canonical_json_bytes payload)"
  note valid = local_tx_valid [OF ids]
  obtain o' c g i where boot: "bootstrap_replay_support_rows ds [?t] = Inr (ds\<lparr>ds_organizations := o', ds_clients := c,
    ds_peer_groups := g, ds_nodes := t_insert_ignore nd_node_id (placeholder_node origin i) (ds_nodes ds)\<rparr>)"
    by (rule origin_support [OF ids(2) ty])
  define a where "a = ds\<lparr>ds_organizations := o', ds_clients := c,
    ds_peer_groups := g, ds_nodes := t_insert_ignore nd_node_id (placeholder_node origin i) (ds_nodes ds)\<rparr>"
  let ?b = "a\<lparr>ds_transactions := ds_transactions a @ [transaction_to_row ?t ?h]\<rparr>"
  have node: "t_has nd_node_id origin (ds_nodes a)"
    by (auto simp: a_def t_insert_ignore_def t_has_def placeholder_node_def blank_node_def)
  have ins: "insert_transaction a ?t = Inr ?b"
    using node fresh valid [of payload] hash_payload_bytes [of payload]
    by (auto simp: insert_transaction_def local_tx_def sqlite_int_def transaction_to_row_def transaction_fk_ok_def
        fk_opt_def a_def log_has)
  obtain d where d: "if po_apply_projection p then apply_transaction (pe_host e) ?b ?t = Inr d else d = ?b"
    using app [where o' = o' and c = c and g = g and i = i and l = "ds_transactions a @ [transaction_to_row ?t ?h]"] by (cases "po_apply_projection p") (auto simp: a_def)
  then have log: "ds_transactions d = ds_transactions ?b" using apply_transaction_keeps(1) by (cases "po_apply_projection p") auto
  have "t_get tr_transaction_id k (ds_transactions d) = Some (transaction_to_row ?t ?h)"
    using fresh by (simp add: log t_get_append t_get_None_iff [symmetric] t_get_Cons a_def log_has [symmetric])
      (simp add: transaction_to_row_def local_tx_def t_get_None_iff)
  then obtain ds' where mark: "mark_transaction_applied (h_now (pe_host e)) d k = Inr ds'"
    by (simp add: mark_transaction_applied_def transaction_to_row_def local_tx_def)
  have "submit_admission e p ds ?t = Inr ds'"
    using p d mark by (auto simp: submit_admission_def rmap_error_Inr submit_transaction_def valid auth boot a_def [symmetric] ins
        admission_policy_def complete_submission_def) (auto simp: local_tx_def)
  then show thesis by (rule that)
qed

subsection \<open>Accepting a pending request\<close>

lemma group_authorization_total:
  assumes "\<forall>g \<in> set gs. is_identifier Service_group g" "t_has nd_node_id n (ds_nodes ds)"
  shows "\<exists>d. apply_service_group_authorization n at gs ds = Inr d"
  using assms by (induction gs arbitrary: ds) (simp_all add: validate_identifier_ok Let_def)

lemma accept_total:
  assumes "map_of (tx_payload t) ''node_id'' = Some (JStr n)" "n \<noteq> []" "node_state ds n = Some ADMISSION_STATE_REQUESTED"
    and "map_of (tx_payload t) ''authorization_mode'' = Some (JStr mode)" "mode \<in> set AUTHORIZATION_MODES"
    and ids: "auth_optional_text_list (tx_payload t) ''service_group_ids'' = Inr gs" "\<forall>g \<in> set gs. is_identifier Service_group g"
      "mode = AUTHORIZATION_MODE_ALLOW_LIST \<or> gs = []"
    and texts: "\<forall>f \<in> {''accepted_at'', ''display_name'', ''operator_comment''}. \<exists>x. pj_optional_text (tx_payload t) f = Inr x"
  shows "\<exists>d. apply_peer_admission_accept ds t = Inr d"
proof -
  from texts obtain x y z where opt: "pj_optional_text (tx_payload t) ''accepted_at'' = Inr x"
    "pj_optional_text (tx_payload t) ''display_name'' = Inr y" "pj_optional_text (tx_payload t) ''operator_comment'' = Inr z" by auto
  have mode: "authorization_mode_for_decision (tx_payload t) ADMISSION_STATE_ACTIVE = Inr mode"
    using assms(4,5) ids modes_distinct by (auto simp: authorization_mode_for_decision_def pj_optional_text_def payload_get_def)
  have st: "ADMISSION_STATE_REQUESTED \<noteq> ADMISSION_STATE_ACTIVE" by (simp add: admission_states)
  have "t_has nd_node_id n (ds_nodes ds)" using assms(3) by (auto simp: node_state_def t_has_iff_get)
  then have "t_has nd_node_id n (t_update nd_node_id n (decision_update s a b c m) (ds_nodes ds))" for s a b c m
    by (auto simp: t_has_iff_get t_get_update decision_update_def)
  then obtain d where "apply_service_group_authorization n (if truthy x then x else tx_created_at t) gs (ds\<lparr>ds_nodes := t_update nd_node_id n
           (decision_update ADMISSION_STATE_ACTIVE (if truthy x then x else tx_created_at t) y z mode) (ds_nodes ds)\<rparr>) = Inr d"
    using group_authorization_total [OF ids(2)] by fastforce
  then show ?thesis
    using assms(1-3) st
    by (simp add: apply_peer_admission_accept_def apply_peer_admission_decision_def Let_def pj_validate_required_fields_def
        DECISION_REQUIRED_FIELDS_def dict_has_iff pj_required_text_def payload_get_def opt mode ids(1))
qed

lemma accept_effect:
  assumes "apply_peer_admission_accept ds t = Inr ds'" "map_of (tx_payload t) ''node_id'' = Some (JStr n)"
    and "map_of (tx_payload t) ''authorization_mode'' = Some (JStr mode)" "auth_optional_text_list (tx_payload t) ''service_group_ids'' = Inr gs"
  shows "\<exists>r r'. t_get nd_node_id n (ds_nodes ds) = Some r \<and> t_get nd_node_id n (ds_nodes ds') = Some r' \<and> nd_state r' = Some ADMISSION_STATE_ACTIVE \<and>
      nd_authorization_mode r' = mode \<and> nd_signing_public_key r' = nd_signing_public_key r \<and> nd_encryption_public_key r' = nd_encryption_public_key r"
    "\<forall>m. m \<noteq> n \<longrightarrow> t_get nd_node_id m (ds_nodes ds') = t_get nd_node_id m (ds_nodes ds)"
    "set (registry_service_group_ids ds' n) = set (registry_service_group_ids ds n) \<union> set gs" "ds_node_private ds' = ds_node_private ds"
proof -
  have pn: "pj_required_text (tx_payload t) ''node_id'' = Inr k \<Longrightarrow> k = n" for k
    using assms(2) by (auto simp: pj_required_text_def payload_get_def split: if_split_asm)
  have pm: "authorization_mode_for_decision (tx_payload t) ADMISSION_STATE_ACTIVE = Inr k \<Longrightarrow> k = mode" for k
    using assms(3,4) by (auto simp: authorization_mode_for_decision_def pj_optional_text_def payload_get_def split: if_split_asm)
  from assms(1) [unfolded apply_peer_admission_accept_def] obtain k r r' md where d: "pj_required_text (tx_payload t) ''node_id'' = Inr k"
    "t_get nd_node_id k (ds_nodes ds) = Some r" "authorization_mode_for_decision (tx_payload t) ADMISSION_STATE_ACTIVE = Inr md"
    "t_get nd_node_id k (ds_nodes ds') = Some r'" "nd_state r' = Some ADMISSION_STATE_ACTIVE" "nd_authorization_mode r' = md"
    "nd_signing_public_key r' = nd_signing_public_key r" "nd_encryption_public_key r' = nd_encryption_public_key r"
    "\<forall>m. m \<noteq> k \<longrightarrow> t_get nd_node_id m (ds_nodes ds') = t_get nd_node_id m (ds_nodes ds)"
    "ds' = ds\<lparr>ds_nodes := ds_nodes ds', ds_service_groups := ds_service_groups ds', ds_service_group_nodes := ds_service_group_nodes ds'\<rparr>"
    by (rule decision_effect) blast
  show "\<exists>r r'. t_get nd_node_id n (ds_nodes ds) = Some r \<and> t_get nd_node_id n (ds_nodes ds') = Some r' \<and> nd_state r' = Some ADMISSION_STATE_ACTIVE \<and>
      nd_authorization_mode r' = mode \<and> nd_signing_public_key r' = nd_signing_public_key r \<and> nd_encryption_public_key r' = nd_encryption_public_key r"
    using d(2-8) pn [OF d(1)] pm [OF d(3)] by blast
  show "\<forall>m. m \<noteq> n \<longrightarrow> t_get nd_node_id m (ds_nodes ds') = t_get nd_node_id m (ds_nodes ds)" using d(9) pn [OF d(1)] by simp
  show "ds_node_private ds' = ds_node_private ds" by (subst d(10)) simp
  from assms(1) obtain at f where "apply_service_group_authorization k at gs (ds\<lparr>ds_nodes := f\<rparr>) = Inr ds'"
    unfolding apply_peer_admission_accept_def apply_peer_admission_decision_def Let_def
    by (elim rbind_InrE) (use d(1) assms(4) in auto)
  from service_group_authorization_effect [OF this, of n] pn [OF d(1)]
  show "set (registry_service_group_ids ds' n) = set (registry_service_group_ids ds n) \<union> set gs"
    by (simp add: registry_service_group_ids_def)
qed

definition requests_readable :: "datastore \<Rightarrow> bool" where
  "requests_readable ds \<longleftrightarrow> (\<forall>r \<in> set (ds_transactions ds). tr_transaction_type r = PROOF_TYPE_REQUEST \<longrightarrow>
     (\<exists>p. load_canonical_json (tr_payload r) = Inr p))"

lemma latest_request_matches:
  assumes "latest_request_id n rows = Inr i"
  shows "\<exists>r \<in> set rows. tr_transaction_type r = PROOF_TYPE_REQUEST \<and> (\<exists>p. load_canonical_json (tr_payload r) = Inr p \<and>
    map_of p ''node_id'' = Some (JStr n) \<and> map_of p ''request_id'' = Some (JStr i))"
  using assms
proof (induction rows)
  case (Cons r rows)
  show ?case
  proof (cases "tr_transaction_type r = PROOF_TYPE_REQUEST")
    case True
    with Cons.prems obtain p where "load_canonical_json (tr_payload r) = Inr p" by (auto simp: rbind_Inr_iff)
    with True Cons show ?thesis
      by (cases "map_of p ''node_id''"; cases "map_of p ''request_id''") (auto split: json.split_asm if_split_asm)
  next
    case False
    with Cons show ?thesis by auto
  qed
qed simp

lemma find_request_total:
  assumes "\<forall>r \<in> set rows. tr_transaction_type r = PROOF_TYPE_REQUEST \<longrightarrow> (\<exists>p. load_canonical_json (tr_payload r) = Inr p)"
    and "\<exists>r \<in> set rows. tr_transaction_type r = PROOF_TYPE_REQUEST \<and> (\<exists>p. load_canonical_json (tr_payload r) = Inr p \<and>
      map_of p ''node_id'' = Some (JStr n) \<and> map_of p ''request_id'' = Some (JStr i))"
  shows "find_request n i rows = Inr ()"
  using assms
proof (induction rows)
  case (Cons r rows)
  then have "find_request n i rows = Inr ()" if "\<exists>r \<in> set rows. tr_transaction_type r = PROOF_TYPE_REQUEST \<and> (\<exists>p. load_canonical_json (tr_payload r) = Inr p \<and>
      map_of p ''node_id'' = Some (JStr n) \<and> map_of p ''request_id'' = Some (JStr i))" using that by simp
  with Cons.prems show ?case by (auto; blast)
qed simp

lemma pending_request_matching:
  assumes "pending_request_id_for_peer ds n = Inr i" "requests_readable ds"
  shows "require_matching_request ds n i = Inr ()" "node_state ds n = Some ADMISSION_STATE_REQUESTED"
proof -
  from assms(1) have i: "node_state ds n = Some ADMISSION_STATE_REQUESTED" "latest_request_id n (rev (ds_transactions ds)) = Inr i"
    by (auto simp: pending_request_id_for_peer_def rmap_error_Inr node_state_def ADMISSION_STATE_REQUESTED_def split: option.split_asm if_split_asm)
  from latest_request_matches [OF i(2)] assms(2) show "require_matching_request ds n i = Inr ()"
    unfolding require_matching_request_def requests_readable_def by (intro find_request_total) simp_all
  show "node_state ds n = Some ADMISSION_STATE_REQUESTED" by (rule i(1))
qed

lemma projected_node:
  assumes "load_local_node_projection ds = Inr (Some l)"
  shows "t_has nd_node_id (ln_node_id l) (ds_nodes ds)" "ln_node_id l \<in> set (ds_node_private ds)"
proof -
  from assms obtain r rs where r: "sort_key nd_node_id (filter (\<lambda>r. nd_node_id r \<in> set (ds_node_private ds)) (ds_nodes ds)) = r # rs" "nd_node_id r = ln_node_id l"
    unfolding load_local_node_projection_def by (auto simp: rbind_Inr_iff split: list.split_asm)
  have "r \<in> set (sort_key nd_node_id (filter (\<lambda>r. nd_node_id r \<in> set (ds_node_private ds)) (ds_nodes ds)))" unfolding r(1) by simp
  then have "r \<in> set (ds_nodes ds)" "nd_node_id r \<in> set (ds_node_private ds)" by simp_all
  then show "t_has nd_node_id (ln_node_id l) (ds_nodes ds)" "ln_node_id l \<in> set (ds_node_private ds)"
    unfolding r(2) [symmetric] t_has_def by auto
qed

lemma loaded_node:
  assumes "load_sqlite_node_identity_material e ds = Inr a"
  shows "t_has nd_node_id (im_node_id a) (ds_nodes ds)" "im_node_id a \<in> set (ds_node_private ds)"
proof -
  from assms obtain l where "load_local_node_projection ds = Inr (Some l)" "ln_node_id l = im_node_id a"
    unfolding load_sqlite_node_identity_material_def validate_sqlite_node_identity_def require_projection_def validate_projection_matches_identity_def
    by (auto simp: rbind_Inr_iff rguard_Inr_iff split: if_split_asm option.split_asm)
  with projected_node [of ds l] show "t_has nd_node_id (im_node_id a) (ds_nodes ds)" "im_node_id a \<in> set (ds_node_private ds)" by simp_all
qed

text \<open>A submission by a known node changes the tables as its projection does.\<close>

lemma submit_applied:
  assumes s: "submit_admission e p ds (local_tx e origin k ty q) = Inr ds'" and p: "admission_policy p" "po_apply_projection p"
    and o': "is_identifier Node origin" "t_has nd_node_id origin (ds_nodes ds)" "ty \<notin> {''secret.set'', ''secret.delete''}"
  obtains b l d l' where "support_extends ds b" "ds_nodes b = ds_nodes ds" "ds' = d\<lparr>ds_transactions := l'\<rparr>"
    "apply_transaction (pe_host e) (b\<lparr>ds_transactions := l\<rparr>) (local_tx e origin k ty q) = Inr d"
proof (rule submit_admission_InrE [OF s p(1)])
  let ?t = "local_tx e origin k ty q"
  fix b l d l' assume b: "support_extends ds b" "bootstrap_replay_support_rows ds [?t] = Inr b" "ds' = d\<lparr>ds_transactions := l'\<rparr>"
    "if po_apply_projection p then apply_transaction (pe_host e) (b\<lparr>ds_transactions := l\<rparr>) ?t = Inr d else d = b\<lparr>ds_transactions := l\<rparr>"
  have here: "t_insert_ignore nd_node_id (placeholder_node origin x) (ds_nodes ds) = ds_nodes ds" for x
    using o'(2) by (simp add: t_insert_ignore_def placeholder_node_def blank_node_def)
  have "ds_nodes b = ds_nodes ds"
    by (rule origin_support [OF o'(1,3), of ds e k q]) (use b(2) here in auto)
  from that [OF b(1) this b(3)] b(4) p(2) show thesis by simp
qed

lemma resolved_mode:
  "resolve_authorization_mode gs m = Inr mode \<Longrightarrow> mode \<in> set AUTHORIZATION_MODES \<Longrightarrow> mode = AUTHORIZATION_MODE_ALLOW_LIST \<or> gs = []"
  by (auto simp: resolve_authorization_mode_def AUTHORIZATION_MODES_def split: option.split_asm if_split_asm)

lemma validate_groups_ok: "\<forall>g \<in> set gs. is_identifier Service_group g \<Longrightarrow> validate_service_group_ids gs = Inr ()"
proof -
  assume "\<forall>g \<in> set gs. is_identifier Service_group g"
  then have "rmapM (\<lambda>i. rmap_error sqlite_validation (validate_identifier i Service_group ''service_group_ids'')) gs = Inr gs"
    by (induction gs) (simp_all add: validate_identifier_ok)
  then show ?thesis by (simp add: validate_service_group_ids_def)
qed

lemma signed_accept_ok:
  assumes a: "load_sqlite_node_identity_material e ds = Inr a" "identity_law e e a"
    and mode: "mode \<in> set AUTHORIZATION_MODES" "mode = AUTHORIZATION_MODE_ALLOW_LIST \<or> gs = []" "\<forall>g \<in> set gs. is_identifier Service_group g"
  obtains p where "signed_admission_decision_payload e entropy ds PROOF_TYPE_ACCEPT n i oc dn gs mode = Inr p"
    "\<forall>k. k \<noteq> ''signature'' \<longrightarrow> map_of p k = map_of (decision_base e entropy a PROOF_TYPE_ACCEPT n i oc dn gs mode) k"
proof -
  let ?q = "decision_base e entropy a PROOF_TYPE_ACCEPT n i oc dn gs mode"
  obtain sg where s: "sign_proof e a ?q = Inr (dict_set ''signature'' (JStr (encode_b64url sg)) ?q)"
    by (rule sign_proof_ok [OF a(2) decision_base_unsigned, of e entropy a PROOF_TYPE_ACCEPT n i oc dn gs mode])
  have "signed_admission_decision_payload e entropy ds PROOF_TYPE_ACCEPT n i oc dn gs mode = sign_proof e a ?q"
    using mode modes_distinct validate_groups_ok [OF mode(3)]
    by (auto simp: signed_admission_decision_payload_def Let_def a(1) decision_base_def)
  then have "signed_admission_decision_payload e entropy ds PROOF_TYPE_ACCEPT n i oc dn gs mode = Inr (dict_set ''signature'' (JStr (encode_b64url sg)) ?q)"
    by (simp only: s)
  then show thesis by (rule that) simp
qed

lemma deterministic_total: "\<exists>k. deterministic_identifier t ''peer.admission'' (ty @ NUL @ i) = Inr k \<and> is_identifier t k"
  by (simp add: deterministic_identifier_def)

lemma signed_decision_fields:
  assumes "signed_admission_decision_payload e entropy ds ty n i oc dn gs m = Inr p" "load_sqlite_node_identity_material e ds = Inr a" "identity_law e r a"
  obtains mode where "\<forall>k. k \<noteq> ''signature'' \<longrightarrow> map_of p k = map_of (decision_base e entropy a ty n i oc dn gs mode) k"
    "ty \<in> {PROOF_TYPE_ACCEPT, PROOF_TYPE_REJECT}"
proof (rule signed_decision_form [OF assms(1,2)])
  fix mode assume b: "sign_proof e a (decision_base e entropy a ty n i oc dn gs mode) = Inr p" "ty \<in> {PROOF_TYPE_ACCEPT, PROOF_TYPE_REJECT}"
  show thesis
    by (rule sign_proof_ok [OF assms(3) decision_base_unsigned, of e entropy a ty n i oc dn gs mode])
      (rule that [of mode], use b in auto)
qed

text \<open>A signed decision about a logged request, made by \<open>s\<close>, is accepted by the engine of \<open>e\<close>.\<close>

lemma decision_accepted:
  assumes p: "signed_admission_decision_payload s entropy ds0 ty n i oc dn gs m = Inr p" and a: "load_sqlite_node_identity_material s ds0 = Inr a" "identity_law s e a"
    and ne: "h_now (pe_host s) \<noteq> []" "snd entropy \<noteq> []"
    and n: "is_identifier Node n" "is_identifier IdentifierType.Transaction i" "require_matching_request ds n i = Inr ()"
    and k: "deterministic_identifier IdentifierType.Transaction ''peer.admission''
      (ty @ NUL @ random_identifier IdentifierType.Transaction (fst entropy)) = Inr k"
  shows "verify_admission_decision_payload (pe_host e) ds p = Inr ()" "deterministic_admission_transaction_id ty p = Inr k"
    "validate_authenticated_transaction (pe_host e) ds (local_tx e (im_node_id a) k ty p) = Inr ()"
    "map_of p ''proof_type'' = Some (JStr ty)" "map_of p ''signer_node_id'' = Some (JStr (im_node_id a))" "map_of p ''node_id'' = Some (JStr n)"
    "is_identifier Node (im_node_id a)" "is_identifier IdentifierType.Transaction k" "ty \<in> {PROOF_TYPE_ACCEPT, PROOF_TYPE_REJECT}"
proof -
  obtain mode where "\<forall>k. k \<noteq> ''signature'' \<longrightarrow> map_of p k = map_of (decision_base s entropy a ty n i oc dn gs mode) k"
    and ty: "ty \<in> {PROOF_TYPE_ACCEPT, PROOF_TYPE_REJECT}"
    by (rule signed_decision_fields [OF p a])
  note f = decision_base_fields [OF this(1)]
  show l: "is_identifier Node (im_node_id a)" using a(2) by (simp add: identity_law_def)
  show "is_identifier IdentifierType.Transaction k" using deterministic_identifier_ok [OF k] .
  from ty have ty': "starts_with ''peer.admission.'' ty" "ty \<noteq> PROOF_TYPE_REQUEST"
    by (auto simp: PROOF_TYPE_ACCEPT_def PROOF_TYPE_REJECT_def PROOF_TYPE_REQUEST_def starts_with_def)
  show "deterministic_admission_transaction_id ty p = Inr k"
    using require_identifier_ok [OF f(4) random_identifier_ok] k ty
    by (auto simp: deterministic_admission_transaction_id_def PROOF_TYPE_ACCEPT_def PROOF_TYPE_REJECT_def PROOF_TYPE_REQUEST_def)
  show verify: "verify_admission_decision_payload (pe_host e) ds p = Inr ()"
    using signed_decision_ok [OF p a ne n(1,2)] n(3)
    by (simp add: verify_admission_decision_payload_def require_identifier_ok [OF f(5) n(1)] require_identifier_ok [OF f(3) n(2)])
  then show "validate_authenticated_transaction (pe_host e) ds (local_tx e (im_node_id a) k ty p) = Inr ()"
    using ty ty' require_text_ok [OF f(6) is_identifier_not_Nil [OF l]]
    by (auto simp: validate_authenticated_transaction_def verify_peer_admission_transaction_def Let_def local_tx_def)
  show "map_of p ''proof_type'' = Some (JStr ty)" "map_of p ''signer_node_id'' = Some (JStr (im_node_id a))" "map_of p ''node_id'' = Some (JStr n)"
    "ty \<in> {PROOF_TYPE_ACCEPT, PROOF_TYPE_REJECT}" by (rule f ty)+
qed

lemma accept_transaction:
  assumes a: "load_sqlite_node_identity_material e ds = Inr a" "identity_law e e a" and ne: "h_now (pe_host e) \<noteq> []" "snd entropy \<noteq> []"
    and n: "is_identifier Node n" "is_identifier IdentifierType.Transaction i" "require_matching_request ds n i = Inr ()"
    and mode: "resolve_authorization_mode gs m = Inr mode" "mode \<in> set AUTHORIZATION_MODES" "\<forall>g \<in> set gs. is_identifier Service_group g"
    and k: "deterministic_identifier IdentifierType.Transaction ''peer.admission''
      (PROOF_TYPE_ACCEPT @ NUL @ random_identifier IdentifierType.Transaction (fst entropy)) = Inr k"
  obtains p where "create_signed_peer_admission_decision e entropy ds PROOF_TYPE_ACCEPT n i oc dn gs m = Inr (local_tx e (im_node_id a) k PROOF_TYPE_ACCEPT p)"
    "validate_authenticated_transaction (pe_host e) ds (local_tx e (im_node_id a) k PROOF_TYPE_ACCEPT p) = Inr ()"
    "\<forall>k. k \<noteq> ''signature'' \<longrightarrow> map_of p k = map_of (decision_base e entropy a PROOF_TYPE_ACCEPT n i oc dn gs mode) k"
proof -
  obtain p where p: "signed_admission_decision_payload e entropy ds PROOF_TYPE_ACCEPT n i oc dn gs mode = Inr p"
    "\<forall>k. k \<noteq> ''signature'' \<longrightarrow> map_of p k = map_of (decision_base e entropy a PROOF_TYPE_ACCEPT n i oc dn gs mode) k"
    by (rule signed_accept_ok [OF a mode(2) resolved_mode [OF mode(1,2)] mode(3)])
  note d = decision_accepted [OF p(1) a ne n k]
  have "create_signed_peer_admission_decision e entropy ds PROOF_TYPE_ACCEPT n i oc dn gs m = Inr (local_tx e (im_node_id a) k PROOF_TYPE_ACCEPT p)"
    using plain_transaction_ok [OF d(8,7) _ ne(1), of PROOF_TYPE_ACCEPT p]
    by (simp add: create_signed_peer_admission_decision_def mode(1) p(1) str_member_def d(2,5) py_str_def
        create_peer_admission_transaction_def) (simp add: PROOF_TYPE_ACCEPT_def)
  then show thesis using that d(3) p(2) by blast
qed

lemma accept_submitted:
  assumes a: "t_has nd_node_id (im_node_id a) (ds_nodes ds)" "is_identifier Node (im_node_id a)" and ne: "h_now (pe_host e) \<noteq> []"
    and auth: "validate_authenticated_transaction (pe_host e) ds (local_tx e (im_node_id a) k PROOF_TYPE_ACCEPT p) = Inr ()"
    and k: "is_identifier IdentifierType.Transaction k" "k \<notin> set (log_ids ds)"
    and n: "n \<noteq> []" "node_state ds n = Some ADMISSION_STATE_REQUESTED"
    and p: "\<forall>k. k \<noteq> ''signature'' \<longrightarrow> map_of p k = map_of (decision_base e entropy a PROOF_TYPE_ACCEPT n i oc dn gs mode) k"
    and mode: "mode \<in> set AUTHORIZATION_MODES" "mode = AUTHORIZATION_MODE_ALLOW_LIST \<or> gs = []" "\<forall>g \<in> set gs. is_identifier Service_group g"
  obtains ds' where "submit_admission e PEER_ADMISSION_LOCAL_POLICY ds (local_tx e (im_node_id a) k PROOF_TYPE_ACCEPT p) = Inr ds'"
    "\<exists>r r'. t_get nd_node_id n (ds_nodes ds) = Some r \<and> t_get nd_node_id n (ds_nodes ds') = Some r' \<and> nd_state r' = Some ADMISSION_STATE_ACTIVE \<and>
      nd_authorization_mode r' = mode \<and> nd_signing_public_key r' = nd_signing_public_key r \<and> nd_encryption_public_key r' = nd_encryption_public_key r"
    "\<forall>m. m \<noteq> n \<longrightarrow> t_get nd_node_id m (ds_nodes ds') = t_get nd_node_id m (ds_nodes ds)"
    "set (registry_service_group_ids ds' n) = set (registry_service_group_ids ds n) \<union> set gs" "ds_node_private ds' = ds_node_private ds"
proof -
  let ?t = "local_tx e (im_node_id a) k PROOF_TYPE_ACCEPT p"
  note f = decision_base_fields [OF p]
  have t: "tx_payload ?t = p" "tx_transaction_type ?t = ''peer.admission.accept''" by (simp_all add: local_tx_def PROOF_TYPE_ACCEPT_def)
  have "[] \<notin> set gs" using mode(3) is_identifier_not_Nil by blast
  then have ids: "auth_optional_text_list (tx_payload ?t) ''service_group_ids'' = Inr gs"
    unfolding t by (intro text_list_ok) (simp_all add: payload_get_def f(14))
  have am: "map_of (tx_payload ?t) ''authorization_mode'' = Some (JStr mode)" by (simp add: t f(13))
  have nn: "map_of (tx_payload ?t) ''node_id'' = Some (JStr n)" by (simp add: t f(5))
  have here: "t_insert_ignore nd_node_id (placeholder_node (im_node_id a) x) (ds_nodes ds) = ds_nodes ds" for x
    using a(1) by (simp add: t_insert_ignore_def placeholder_node_def blank_node_def)
  have texts: "\<forall>f \<in> {''accepted_at'', ''display_name'', ''operator_comment''}. \<exists>x. pj_optional_text (tx_payload ?t) f = Inr x"
    unfolding t by (simp add: pj_optional_text_def payload_get_def p decision_base_def)
  have app: "apply_transaction (pe_host e) d ?t = apply_peer_admission_accept d ?t" for d by (simp add: apply_transaction_def t)
  obtain ds' where ds': "submit_admission e PEER_ADMISSION_LOCAL_POLICY ds ?t = Inr ds'"
  proof (rule submit_admission_succeeds [OF k(1) a(2) _ ne auth k(2), of PEER_ADMISSION_LOCAL_POLICY])
    show "\<exists>d. apply_transaction (pe_host e) (ds\<lparr>ds_organizations := o', ds_clients := c, ds_peer_groups := g,
        ds_nodes := t_insert_ignore nd_node_id (placeholder_node (im_node_id a) j) (ds_nodes ds), ds_transactions := l\<rparr>) ?t = Inr d" for o' c g j l
      unfolding app here by (rule accept_total [OF nn n(1) _ am mode(1) ids mode(3,2) texts]) (use n(2) in \<open>simp add: node_state_def\<close>)
  qed (simp_all add: PROOF_TYPE_ACCEPT_def)
  obtain b l d l' where s: "support_extends ds b" "ds_nodes b = ds_nodes ds" "ds' = d\<lparr>ds_transactions := l'\<rparr>"
    "apply_peer_admission_accept (b\<lparr>ds_transactions := l\<rparr>) ?t = Inr d"
    by (rule submit_applied [OF ds' admission_policies(1,5) a(2) a(1), unfolded app]) (simp add: PROOF_TYPE_ACCEPT_def)
  note eff = accept_effect [OF s(4) nn am ids, simplified]
  show thesis
  proof (rule that [OF ds'])
    show "\<exists>r r'. t_get nd_node_id n (ds_nodes ds) = Some r \<and> t_get nd_node_id n (ds_nodes ds') = Some r' \<and> nd_state r' = Some ADMISSION_STATE_ACTIVE \<and>
      nd_authorization_mode r' = mode \<and> nd_signing_public_key r' = nd_signing_public_key r \<and> nd_encryption_public_key r' = nd_encryption_public_key r"
      using eff(1) by (simp add: s(2,3))
    show "\<forall>m. m \<noteq> n \<longrightarrow> t_get nd_node_id m (ds_nodes ds') = t_get nd_node_id m (ds_nodes ds)" using eff(2) by (simp add: s(2,3))
    show "set (registry_service_group_ids ds' n) = set (registry_service_group_ids ds n) \<union> set gs"
      using eff(3) by (simp add: s(3) registry_service_group_ids_def support_keeps(13) [OF s(1)])
    show "ds_node_private ds' = ds_node_private ds" using eff(4) by (simp add: s(3) support_keeps(12) [OF s(1)])
  qed
qed

text \<open>C4. A pending peer can be accepted, and the acceptance grants what the operator gave: with a usable local identity, a
  logged and readable request and a fresh decision identifier, \<open>accept_peer_admission\<close> succeeds; the peer keeps the keys
  of its request and becomes active; it may synchronise control traffic, every service group under mode \<open>all\<close>, exactly the
  listed groups (beside those it had) under an allow-list, and none under mode \<open>none\<close>. Before the acceptance it may
  synchronise nothing, and no other node changes.\<close>

theorem admission_accept_grants:
  assumes a: "load_sqlite_node_identity_material e ds = Inr a" "identity_law e e a" and ne: "h_now (pe_host e) \<noteq> []" "snd entropy \<noteq> []"
    and n: "is_identifier Node n" "n \<notin> set (ds_node_private ds)" "pending_request_id_for_peer ds n = Inr i"
      "is_identifier IdentifierType.Transaction i" "requests_readable ds" "\<forall>r \<in> set (ds_nodes ds). node_checks r"
    and mode: "resolve_authorization_mode gs m = Inr mode" "mode \<in> set AUTHORIZATION_MODES" "\<forall>g \<in> set gs. is_identifier Service_group g"
    and k: "deterministic_identifier IdentifierType.Transaction ''peer.admission''
      (PROOF_TYPE_ACCEPT @ NUL @ random_identifier IdentifierType.Transaction (fst entropy)) = Inr k" "k \<notin> set (log_ids ds)"
  shows "\<exists>result ds' r r'. accept_peer_admission e entropy ds n oc dn gs m = Inr (result, ds') \<and> ar_transaction_id result = k \<and>
    t_get nd_node_id n (ds_nodes ds) = Some r \<and> t_get nd_node_id n (ds_nodes ds') = Some r' \<and>
    nd_signing_public_key r' = nd_signing_public_key r \<and> nd_encryption_public_key r' = nd_encryption_public_key r \<and>
    (\<forall>m. m \<noteq> n \<longrightarrow> t_get nd_node_id m (ds_nodes ds') = t_get nd_node_id m (ds_nodes ds)) \<and>
    (\<forall>sg. pred_option (is_identifier Service_group) sg \<longrightarrow> is_peer_synchronization_eligible ds n sg = Inr False \<and>
      is_peer_synchronization_eligible ds' n sg = Inr (\<forall>g. sg = Some g \<longrightarrow> mode = AUTHORIZATION_MODE_ALL \<or>
        mode = AUTHORIZATION_MODE_ALLOW_LIST \<and> g \<in> set (registry_service_group_ids ds n) \<union> set gs))"
proof -
  note req = pending_request_matching [OF n(3,5)]
  have l: "is_identifier Node (im_node_id a)" using a(2) by (simp add: identity_law_def)
  obtain p where p: "create_signed_peer_admission_decision e entropy ds PROOF_TYPE_ACCEPT n i oc dn gs m = Inr (local_tx e (im_node_id a) k PROOF_TYPE_ACCEPT p)"
    "validate_authenticated_transaction (pe_host e) ds (local_tx e (im_node_id a) k PROOF_TYPE_ACCEPT p) = Inr ()"
    "\<forall>k. k \<noteq> ''signature'' \<longrightarrow> map_of p k = map_of (decision_base e entropy a PROOF_TYPE_ACCEPT n i oc dn gs mode) k"
    by (rule accept_transaction [OF a ne n(1,4) req(1) mode k(1)])
  obtain ds' where d: "submit_admission e PEER_ADMISSION_LOCAL_POLICY ds (local_tx e (im_node_id a) k PROOF_TYPE_ACCEPT p) = Inr ds'"
    "\<exists>r r'. t_get nd_node_id n (ds_nodes ds) = Some r \<and> t_get nd_node_id n (ds_nodes ds') = Some r' \<and> nd_state r' = Some ADMISSION_STATE_ACTIVE \<and>
      nd_authorization_mode r' = mode \<and> nd_signing_public_key r' = nd_signing_public_key r \<and> nd_encryption_public_key r' = nd_encryption_public_key r"
    "\<forall>m. m \<noteq> n \<longrightarrow> t_get nd_node_id m (ds_nodes ds') = t_get nd_node_id m (ds_nodes ds)"
    "set (registry_service_group_ids ds' n) = set (registry_service_group_ids ds n) \<union> set gs" "ds_node_private ds' = ds_node_private ds"
    by (rule accept_submitted [OF loaded_node(1) [OF a(1)] l ne(1) p(2) deterministic_identifier_ok [OF k(1)] k(2) is_identifier_not_Nil [OF n(1)] req(2) p(3) mode(2)
          resolved_mode [OF mode(1,2)] mode(3)])
  from d(2) obtain r r' where r: "t_get nd_node_id n (ds_nodes ds) = Some r" "t_get nd_node_id n (ds_nodes ds') = Some r'"
    "nd_state r' = Some ADMISSION_STATE_ACTIVE" "nd_authorization_mode r' = mode"
    "nd_signing_public_key r' = nd_signing_public_key r" "nd_encryption_public_key r' = nd_encryption_public_key r" by blast
  have st: "nd_state r \<noteq> Some ADMISSION_STATE_ACTIVE" using req(2) r(1) by (auto simp: node_state_def or_empty_def admission_states)
  have md: "nd_authorization_mode r \<in> {''none'', ''allow_list'', ''all''}" using t_get_SomeD [OF r(1)] n(6) by (auto simp: node_checks_def)
  have md': "nd_authorization_mode r' \<in> {''none'', ''allow_list'', ''all''}" using mode(2) r(4) by (simp add: modes_set)
  have priv: "n \<notin> set (ds_node_private ds')" using n(2) d(5) by simp
  have eligible: "is_peer_synchronization_eligible ds n sg = Inr False \<and>
      is_peer_synchronization_eligible ds' n sg = Inr (\<forall>g. sg = Some g \<longrightarrow> mode = AUTHORIZATION_MODE_ALL \<or>
        mode = AUTHORIZATION_MODE_ALLOW_LIST \<and> g \<in> set (registry_service_group_ids ds n) \<union> set gs)"
    if "pred_option (is_identifier Service_group) sg" for sg
    using eligible_row(1) [OF n(1) that n(2) r(1) md refl] eligible_row(1) [OF n(1) that priv r(2) md' refl] st r(3,4) d(4) by simp
  have "accept_peer_admission e entropy ds n oc dn gs m = Inr (admission_result (local_tx e (im_node_id a) k PROOF_TYPE_ACCEPT p) n ''active'' ds')"
    by (simp add: accept_peer_admission_def n(3) p(1) d(1))
  moreover have "ar_transaction_id (fst (admission_result (local_tx e (im_node_id a) k PROOF_TYPE_ACCEPT p) n ''active'' ds')) = k"
    by (simp add: admission_result_def local_tx_def)
  ultimately show ?thesis
    using r(1,2,5,6) d(3) eligible by (auto simp: admission_result_def)
qed

text \<open>C21. Importing the answer to a request only records it: when another node signed a decision about a logged request, the import
  succeeds, logs the decision once and leaves every known node and every queue as it was. The signer, however, is not entered with
  the keys its proof carries: if it was unknown it is now registered as an active peer with all-zero keys, so that it counts as a
  peer with which control traffic may be synchronised although this node never admitted it.\<close>

theorem decision_import_registers_signer:
  assumes p: "signed_admission_decision_payload s entropy ds0 ty n i oc dn gs m = Inr p" "load_sqlite_node_identity_material s ds0 = Inr a" "identity_law s e a"
    and ne: "h_now (pe_host s) \<noteq> []" "snd entropy \<noteq> []" "h_now (pe_host e) \<noteq> []"
    and n: "is_identifier Node n" "is_identifier IdentifierType.Transaction i" "require_matching_request ds n i = Inr ()"
    and k: "deterministic_identifier IdentifierType.Transaction ''peer.admission''
      (ty @ NUL @ random_identifier IdentifierType.Transaction (fst entropy)) = Inr k" "k \<notin> set (log_ids ds)"
    and unknown: "t_get nd_node_id (im_node_id a) (ds_nodes ds) = None" "im_node_id a \<notin> set (ds_node_private ds)"
  shows "\<exists>result ds' r. import_peer_admission_decision e ds p = Inr (result, ds') \<and> ar_node_id result = n \<and>
    log_ids ds' = log_ids ds @ [k] \<and> ds_envelopes ds' = ds_envelopes ds \<and> ds_secrets ds' = ds_secrets ds \<and>
    (\<forall>q. q \<noteq> im_node_id a \<longrightarrow> t_get nd_node_id q (ds_nodes ds') = t_get nd_node_id q (ds_nodes ds)) \<and>
    t_get nd_node_id (im_node_id a) (ds_nodes ds') = Some r \<and> nd_signing_public_key r = Some zero_key \<and> nd_encryption_public_key r = Some zero_key \<and>
    is_peer_synchronization_eligible ds (im_node_id a) None = Inr False \<and> is_peer_synchronization_eligible ds' (im_node_id a) None = Inr True"
proof -
  let ?t = "local_tx e (im_node_id a) k ty p"
  note d = decision_accepted [OF p ne(1,2) n k(1)]
  have ty: "ty \<noteq> []" "ty \<notin> {''secret.set'', ''secret.delete''}" using d(9) by (auto simp: PROOF_TYPE_ACCEPT_def PROOF_TYPE_REJECT_def)
  obtain ds' where ds': "submit_admission e PEER_ADMISSION_INBOUND_DECISION_POLICY ds ?t = Inr ds'"
    by (rule submit_admission_succeeds [OF d(8,7) ty(1) ne(3) d(3) k(2) _ ty(2), of PEER_ADMISSION_INBOUND_DECISION_POLICY])
      simp_all
  obtain b l where s: "support_extends ds b" "bootstrap_replay_support_rows ds [?t] = Inr b" "ds' = b\<lparr>ds_transactions := l\<rparr>" "log_ids ds' = log_ids ds @ [k]"
  proof (rule submit_admission_InrE [OF ds' admission_policies(3)])
    fix b l d l' assume "support_extends ds b" "bootstrap_replay_support_rows ds [?t] = Inr b" "ds' = d\<lparr>ds_transactions := l'\<rparr>"
      "if po_apply_projection PEER_ADMISSION_INBOUND_DECISION_POLICY then apply_transaction (pe_host e) (b\<lparr>ds_transactions := l\<rparr>) ?t = Inr d
       else d = b\<lparr>ds_transactions := l\<rparr>" "log_ids ds' = log_ids ds @ [tx_transaction_id ?t]"
    then show thesis by (intro that [of b l']) (simp_all add: local_tx_def)
  qed
  obtain g where nodes: "ds_nodes ds' = t_insert_ignore nd_node_id (placeholder_node (im_node_id a) g) (ds_nodes ds)"
    by (rule origin_support [OF d(7) ty(2), of ds e k p]) (use s(2,3) that in auto)
  let ?r = "placeholder_node (im_node_id a) g"
  have r: "nd_node_id ?r = im_node_id a" "nd_state ?r = Some ADMISSION_STATE_ACTIVE" "nd_authorization_mode ?r = ''none''"
    "nd_signing_public_key ?r = Some zero_key" "nd_encryption_public_key ?r = Some zero_key"
    by (simp_all add: placeholder_node_def blank_node_def ADMISSION_STATE_ACTIVE_def)
  have get: "t_get nd_node_id q (ds_nodes ds') = (if q = im_node_id a then Some ?r else t_get nd_node_id q (ds_nodes ds))" for q
    using unknown(1) by (auto simp: nodes t_get_insert_ignore r(1) split: option.split)
  have priv: "im_node_id a \<notin> set (ds_node_private ds')" using unknown(2) support_keeps(12) [OF s(1)] s(3) by simp
  have "is_peer_synchronization_eligible ds' (im_node_id a) None = Inr True"
    by (rule eligible_row(1) [OF d(7) _ priv, where r = ?r]) (simp_all add: get r)
  moreover have "is_peer_synchronization_eligible ds (im_node_id a) None = Inr False"
    by (simp add: is_peer_synchronization_eligible_def get_peer_registry_entry_def validate_identifier_ok [OF d(7)] unknown)
  moreover have "import_peer_admission_decision e ds p =
      Inr (admission_result ?t n (if ty = PROOF_TYPE_ACCEPT then ''active'' else ''rejected'') ds')"
    using d(1,2,4-6,9) ty(1) ds' plain_transaction_ok [OF d(8,7) ty(1) ne(3), of p]
    by (simp add: import_peer_admission_decision_def text_or_empty_def py_str_def str_member_def create_peer_admission_transaction_def rmap_error_def)
  ultimately show ?thesis
    using s(4) support_keeps(3,4) [OF s(1)] s(3) get r by (auto simp: admission_result_def)
qed

subsection \<open>Registering the local endpoint\<close>

lemma map_of_first_per_node:
  "map_of (first_per_node seen rows) n = (if n \<in> set seen then None else map_option ep_endpoint (find (\<lambda>r. ep_node_id r = n) rows))"
  by (induction seen rows rule: first_per_node.induct) auto

lemma find_filter: "find P xs = (case filter P xs of [] \<Rightarrow> None | x # _ \<Rightarrow> Some x)"
  by (induction xs) auto

text \<open>With at most one active endpoint per node the order of the query does not matter.\<close>

lemma listed_endpoint:
  assumes "endpoints_wf ds"
  shows "map_of (list_active_peer_endpoints ds) n = (case active_endpoints ds n of [] \<Rightarrow> None | r # _ \<Rightarrow> Some (ep_endpoint r))"
proof -
  let ?P = "\<lambda>r. ep_node_id r = n"
  have "mset (filter ?P (active_endpoint_rows ds)) = mset (active_endpoints ds n)"
    by (simp add: active_endpoint_rows_def active_endpoints_def mset_filter filter_filter_mset conj_commute)
  moreover have "length (active_endpoints ds n) \<le> 1" using assms by (rule active_endpoints_le_1)
  ultimately have "filter ?P (active_endpoint_rows ds) = active_endpoints ds n"
    by (cases "active_endpoints ds n") (auto simp: mset_single_iff simp del: mset_filter)
  then show ?thesis
    by (simp add: list_active_peer_endpoints_def map_of_first_per_node find_filter split: list.split)
qed

text \<open>The payload of an endpoint transaction.\<close>

definition endpoint_payload :: "peer_env \<Rightarrow> string \<Rightarrow> string \<Rightarrow> string option \<Rightarrow> string option \<Rightarrow> string \<Rightarrow> json_obj" where
  "endpoint_payload e l ep prev ex oc = optional_member ''operator_comment'' oc
     ((\<lambda>p. case ex of None \<Rightarrow> p | Some s \<Rightarrow> dict_set ''expires_at'' (JStr s) p)
       ((\<lambda>p. case prev of None \<Rightarrow> p | Some s \<Rightarrow> dict_set ''previous_endpoint'' (JStr s) p)
         [(''node_id'', JStr l), (''endpoint'', JStr ep), (''observed_at'', JStr (h_now (pe_host e)))]))"

lemma endpoint_payload_get [simp]:
  "payload_get (endpoint_payload e l ep prev ex oc) ''node_id'' = Some (JStr l)"
  "payload_get (endpoint_payload e l ep prev ex oc) ''endpoint'' = Some (JStr ep)"
  "payload_get (endpoint_payload e l ep prev ex oc) ''previous_endpoint'' = map_option JStr prev"
  "payload_get (endpoint_payload e l ep prev ex oc) ''expires_at'' = map_option JStr ex"
  "payload_get (endpoint_payload e l ep prev ex oc) ''operator_comment'' = (if oc = [] then None else Some (JStr oc))"
  by (auto simp: endpoint_payload_def payload_get_def split: option.split)

definition endpoint_ok :: "string \<Rightarrow> bool" where
  "endpoint_ok ep \<longleftrightarrow> validate_endpoint (Some (JStr ep)) ''endpoint'' = Inr ep"

lemma endpoint_okD: "endpoint_ok ep \<Longrightarrow> validate_endpoint (Some (JStr ep)) f = Inr ep" "endpoint_ok ep \<Longrightarrow> ep \<noteq> []"
  by (auto simp: endpoint_ok_def validate_endpoint_def split: if_split_asm)

lemma created_endpoint_transaction:
  assumes "ty \<in> set PEER_ENDPOINT_TRANSACTION_TYPES" "is_identifier Node l" "endpoint_ok ep" "pred_option endpoint_ok prev"
    "ty \<in> {''peer.endpoint.update'', ''peer.endpoint.replace''} \<Longrightarrow> prev \<noteq> None" "ex \<noteq> Some []" "h_now (pe_host e) \<noteq> []"
  shows "create_peer_endpoint_transaction e entropy ty l ep prev ex oc =
    Inr (local_tx e l (random_identifier IdentifierType.Transaction entropy) ty (endpoint_payload e l ep prev ex oc))"
proof -
  have "ty \<noteq> []" using assms(1) by (auto simp: PEER_ENDPOINT_TRANSACTION_TYPES_def)
  note tx = plain_transaction_ok [OF random_identifier_ok assms(2) this assms(7)]
  have prev: "(case prev of None \<Rightarrow> Inr None | Some v \<Rightarrow> rbind (validate_endpoint (Some (JStr v)) ''previous_endpoint'') (\<lambda>v. Inr (Some v))) = Inr prev"
    using assms(4) by (cases prev) (simp_all add: endpoint_okD)
  have "truthy prev \<or> ty \<notin> {''peer.endpoint.update'', ''peer.endpoint.replace''}"
    using assms(4,5) by (cases prev) (auto simp: truthy_def dest: endpoint_okD(2))
  with assms(1,6) show ?thesis
    by (auto simp: create_peer_endpoint_transaction_def validate_identifier_ok [OF assms(2)] endpoint_okD(1) [OF assms(3)] prev tx Let_def
        endpoint_payload_def [symmetric])
qed

lemma endpoint_texts [simp]:
  "ep_optional_text (endpoint_payload e l ep prev ex oc) ''operator_comment'' = Inr (if oc = [] then None else Some oc)"
  "ex \<noteq> Some [] \<Longrightarrow> ep_optional_text (endpoint_payload e l ep prev ex oc) ''expires_at'' = Inr ex"
  by (cases ex; simp add: ep_optional_text_def)+

lemma endpoint_transaction_verified:
  assumes "ty \<in> {''peer.endpoint.register'', ''peer.endpoint.update''}" "is_identifier Node l" "endpoint_ok ep" "pred_option endpoint_ok prev"
    "ty = ''peer.endpoint.update'' \<longrightarrow> prev \<noteq> None" "ex \<noteq> Some []" "load_local_node_projection ds = Inr (Some ln)" "ln_node_id ln = l"
  shows "validate_authenticated_transaction h ds (local_tx e l k ty (endpoint_payload e l ep prev ex oc)) = Inr ()"
proof -
  let ?t = "local_tx e l k ty (endpoint_payload e l ep prev ex oc)"
  have ty: "starts_with ''peer.endpoint.'' ty" "\<not> starts_with ''peer.admission.'' ty" "ty \<in> set PEER_ENDPOINT_TRANSACTION_TYPES"
    using assms(1) by (auto simp: starts_with_def PEER_ENDPOINT_TRANSACTION_TYPES_def)
  have node: "endpoint_node_id (endpoint_payload e l ep q x oc) = Inr l" for q x
    by (simp add: endpoint_node_id_def validate_identifier_value_def validate_identifier_ok [OF assms(2)] rmap_error_def)
  have prev: "ty \<in> {''peer.endpoint.update'', ''peer.endpoint.replace''} \<longrightarrow> prev \<noteq> None" using assms(1,5) by auto
  have fields: "tx_payload (local_tx e l k ty q) = q" "tx_transaction_type (local_tx e l k ty q) = ty" "tx_origin_node_id (local_tx e l k ty q) = Some l"
    for q by (simp_all add: local_tx_def)
  note checks = verify_peer_endpoint_transaction_def Let_def fields node endpoint_okD(1) [OF assms(3)] assms(7,8) rguard_def ty(3)
  have "verify_peer_endpoint_transaction ds ?t = Inr ()"
  proof (cases prev)
    case None
    then show ?thesis using prev assms(6) by (cases ex) (simp_all add: checks)
  next
    case (Some q)
    then have "endpoint_ok q" using assms(4) by simp
    then show ?thesis using Some assms(6) by (cases ex) (simp_all add: checks endpoint_okD(1))
  qed
  with ty show ?thesis by (simp add: validate_authenticated_transaction_def local_tx_def)
qed

lemma upsert_endpoint_total: "t_has nd_node_id n (ds_nodes ds) \<Longrightarrow> \<exists>ds'. upsert_endpoint ds n ep st (Some c) (Some u) x co = Inr ds'"
  by (simp add: upsert_endpoint_def not_null_def)

text \<open>The move that re-registration chooses can be made.\<close>

lemma reregister_transition:
  assumes wf: "endpoints_wf ds" and l: "t_has nd_node_id l (ds_nodes ds)" "\<forall>r \<in> set (active_endpoints ds l). endpoint_ok (ep_endpoint r)" and ex: "ex \<noteq> Some []"
    and t: "ty = (if prev = None then ''peer.endpoint.register'' else ''peer.endpoint.update'')"
      "prev = (case active_endpoints ds l of [] \<Rightarrow> None | r # _ \<Rightarrow> if ep_endpoint r = ep then None else Some (ep_endpoint r))"
  shows "\<exists>d. endpoint_transition ds (local_tx e l k ty (endpoint_payload e l ep prev ex oc)) l ep = Inr d"
proof (cases prev)
  case None
  with t have "active_endpoints ds l = [] \<or> (\<exists>r \<in> set (active_endpoints ds l). ep_endpoint r = ep)" by (auto split: list.split_asm if_split_asm)
  moreover from upsert_endpoint_total [OF l(1)] have "\<exists>d. upsert_endpoint ds l ep ''active'' (case row of Some r \<Rightarrow> Some (ep_created_at r) | None \<Rightarrow> Some now) (Some now) ex co = Inr d"
    for row now co by (cases row) simp_all
  ultimately show ?thesis
    using None t(1) ex by (auto simp: endpoint_transition_def local_tx_def Let_def rguard_def image_iff)
next
  case (Some q)
  with t(2) obtain r where r: "r \<in> set (active_endpoints ds l)" "ep_endpoint r = q" "q \<noteq> ep" by (auto split: list.split_asm if_split_asm)
  then have ok: "endpoint_ok q" using l(2) by blast
  from r have row: "r \<in> set (ds_peer_endpoints ds)" "endpoint_key r = (l, q)" "ep_state r = ''active''" by (auto simp: active_endpoints_def)
  have get: "t_get endpoint_key (l, q) (ds_peer_endpoints ds) = Some r" using t_keyed_get [OF endpoints_wf_keyed [OF wf] row(1)] row(2) by simp
  obtain d where d: "remove_active_endpoint ds l q (Some (h_now (pe_host e))) = Inr d" "ds_nodes d = ds_nodes ds"
    using get row(3) by (auto simp: remove_active_endpoint_def set_endpoint_state_def t_has_iff_get not_null_def)
  show ?thesis
    using Some t(1) ex r(3) d upsert_endpoint_total [of l d] l(1) endpoint_okD [OF ok]
    by (auto simp: endpoint_transition_def local_tx_def Let_def rguard_def)
qed

lemma filter_t_update: "(\<And>q. key q = k \<Longrightarrow> \<not> P q \<and> \<not> P (f q)) \<Longrightarrow> filter P (t_update key k f t) = filter P t"
  by (induction t) (auto simp: t_update_def)

lemma upsert_endpoint_other: "upsert_endpoint ds n ep st c u x co = Inr ds' \<Longrightarrow>
  filter (\<lambda>r. ep_node_id r \<noteq> n) (ds_peer_endpoints ds') = filter (\<lambda>r. ep_node_id r \<noteq> n) (ds_peer_endpoints ds)"
proof (rule upsert_endpoint_form, assumption)
  fix row f assume d: "ds' = ds\<lparr>ds_peer_endpoints := t_upsert endpoint_key row f (ds_peer_endpoints ds)\<rparr>" "endpoint_key row = (n, ep)"
    "\<And>q. endpoint_key (f q) = endpoint_key q"
  have "ep_node_id (f q) = ep_node_id q" for q using d(3) [of q] by simp
  then show ?thesis using d(2) by (auto simp: d(1) t_upsert_def intro!: filter_t_update)
qed

lemma set_endpoint_state_other: "set_endpoint_state ds n ep st now = Inr ds' \<Longrightarrow>
  filter (\<lambda>r. ep_node_id r \<noteq> n) (ds_peer_endpoints ds') = filter (\<lambda>r. ep_node_id r \<noteq> n) (ds_peer_endpoints ds)"
  by (auto simp: set_endpoint_state_def rbind_Inr_iff intro!: filter_t_update split: if_split_asm)

text \<open>A transition of one node's endpoint leaves every endpoint row of the other nodes as it is.\<close>

lemma endpoint_transition_other:
  assumes "endpoint_transition ds t n ep = Inr ds'"
  shows "filter (\<lambda>r. ep_node_id r \<noteq> n) (ds_peer_endpoints ds') = filter (\<lambda>r. ep_node_id r \<noteq> n) (ds_peer_endpoints ds)"
proof -
  have rm: "remove_active_endpoint a n q c = Inr b \<Longrightarrow>
    filter (\<lambda>r. ep_node_id r \<noteq> n) (ds_peer_endpoints b) = filter (\<lambda>r. ep_node_id r \<noteq> n) (ds_peer_endpoints a)" for a b q c
    by (auto simp: remove_active_endpoint_def split: option.split_asm if_split_asm dest: set_endpoint_state_other)
  show ?thesis
    using assms unfolding endpoint_transition_def Let_def
    by (auto simp: rbind_Inr_iff split: if_split_asm dest!: upsert_endpoint_other set_endpoint_state_other rm)
qed

lemma same_endpoints:
  assumes "ds_nodes d = ds_nodes ds" "ds_peer_endpoints d = ds_peer_endpoints ds" "endpoints_wf ds"
  shows "active_endpoints d = active_endpoints ds" "endpoints_wf d"
proof -
  show "active_endpoints d = active_endpoints ds" unfolding active_endpoints_def assms(2) ..
  show "endpoints_wf d" using assms(3) unfolding endpoints_wf_def assms(1,2) .
qed

text \<open>An endpoint transaction of the local node, submitted without propagation.\<close>

lemma local_endpoint_submitted:
  assumes wf: "endpoints_wf ds" and ln: "load_local_node_projection ds = Inr (Some ln)" "is_identifier Node (ln_node_id ln)"
    and ep: "endpoint_ok ep" "\<forall>r \<in> set (active_endpoints ds (ln_node_id ln)). endpoint_ok (ep_endpoint r)" and ex: "ex \<noteq> Some []"
    and now: "h_now (pe_host e) \<noteq> []" and k: "k = random_identifier IdentifierType.Transaction entropy" "k \<notin> set (log_ids ds)"
    and t: "ty = (if prev = None then ''peer.endpoint.register'' else ''peer.endpoint.update'')"
      "prev = (case active_endpoints ds (ln_node_id ln) of [] \<Rightarrow> None | r # _ \<Rightarrow> if ep_endpoint r = ep then None else Some (ep_endpoint r))"
  obtains t ds' where "local_endpoint_change e entropy ds ty ep prev ex oc False = Inr (t, ds')" "tx_transaction_type t = ty" "endpoints_wf ds'"
    "map ep_endpoint (active_endpoints ds' (ln_node_id ln)) = [ep]" "log_ids ds' = log_ids ds @ [tx_transaction_id t]"
    "filter (\<lambda>r. ep_node_id r \<noteq> ln_node_id ln) (ds_peer_endpoints ds') = filter (\<lambda>r. ep_node_id r \<noteq> ln_node_id ln) (ds_peer_endpoints ds)"
    "\<forall>m. t_get nd_node_id m (ds_nodes ds') = map_option (\<lambda>r. if m = ln_node_id ln then r\<lparr>nd_service_address := Some ep,
       nd_last_seen_at := Some (h_now (pe_host e)), nd_updated_at := Some (h_now (pe_host e))\<rparr> else r) (t_get nd_node_id m (ds_nodes ds))"
proof -
  let ?l = "ln_node_id ln" let ?t = "local_tx e ?l k ty (endpoint_payload e ?l ep prev ex oc)"
  have l: "t_has nd_node_id ?l (ds_nodes ds)" by (rule projected_node(1) [OF ln(1)])
  have prev: "pred_option endpoint_ok prev" using ep(2) unfolding t(2) by (cases "active_endpoints ds ?l") simp_all
  have ty: "ty \<in> {''peer.endpoint.register'', ''peer.endpoint.update''}" "ty = ''peer.endpoint.update'' \<longrightarrow> prev \<noteq> None" using t(1) by auto
  then have ty': "ty \<in> set PEER_ENDPOINT_TRANSACTION_TYPES" "ty \<noteq> []" "ty \<notin> {''secret.set'', ''secret.delete''}" "starts_with ''peer.endpoint.'' ty"
    by (auto simp: PEER_ENDPOINT_TRANSACTION_TYPES_def starts_with_def)
  have app: "apply_transaction (pe_host e) d ?t = apply_peer_endpoint_transaction d ?t" for d
    using ty(1) by (elim insertE emptyE) (simp_all add: apply_transaction_def local_tx_def starts_with_def)
  have fields: "endpoint_node_id (tx_payload ?t) = Inr ?l" "validate_endpoint (payload_get (tx_payload ?t) ''endpoint'') ''endpoint'' = Inr ep"
    by (simp_all add: local_tx_def endpoint_node_id_def validate_identifier_value_def validate_identifier_ok [OF ln(2)] rmap_error_def endpoint_okD(1) [OF ep(1)])
  have here: "t_insert_ignore nd_node_id (placeholder_node ?l x) (ds_nodes ds) = ds_nodes ds" for x
    using l by (simp add: t_insert_ignore_def placeholder_node_def blank_node_def)
  have move: "\<exists>d1. endpoint_transition d ?t ?l ep = Inr d1" if "ds_nodes d = ds_nodes ds" "ds_peer_endpoints d = ds_peer_endpoints ds" for d
  proof -
    note d = same_endpoints [OF that wf]
    show ?thesis
      by (rule reregister_transition [OF d(2) _ _ ex t(1) t(2) [folded d(1)]]) (simp only: that(1) l, simp only: d(1), rule ep(2))
  qed
  obtain ds' where ds': "submit_admission e PEER_ENDPOINT_LOCAL_POLICY ds ?t = Inr ds'"
  proof (rule submit_admission_succeeds [of k ?l ty e ds "endpoint_payload e ?l ep prev ex oc" PEER_ENDPOINT_LOCAL_POLICY])
    show "\<exists>d. apply_transaction (pe_host e) (ds\<lparr>ds_organizations := o', ds_clients := c, ds_peer_groups := g,
        ds_nodes := t_insert_ignore nd_node_id (placeholder_node ?l j) (ds_nodes ds), ds_transactions := tl\<rparr>) ?t = Inr d" for o' c g j tl
      using move [of "ds\<lparr>ds_organizations := o', ds_clients := c, ds_peer_groups := g, ds_nodes := ds_nodes ds, ds_transactions := tl\<rparr>"]
      unfolding app here apply_peer_endpoint_transaction_def fields by auto
    show "validate_authenticated_transaction (pe_host e) ds ?t = Inr ()"
      by (rule endpoint_transaction_verified [OF ty(1) ln(2) ep(1) prev ty(2) ex ln(1) refl])
  qed (use k ln(2) ty' now in simp_all)
  obtain b l d l' where s: "support_extends ds b" "ds_nodes b = ds_nodes ds" "ds' = d\<lparr>ds_transactions := l'\<rparr>"
    "apply_peer_endpoint_transaction (b\<lparr>ds_transactions := l\<rparr>) ?t = Inr d"
    by (rule submit_applied [OF ds' admission_policies(4,8) ln(2) l ty'(3), unfolded app])
  define c where "c = b\<lparr>ds_transactions := l\<rparr>"
  have c: "ds_nodes c = ds_nodes ds" "ds_peer_endpoints c = ds_peer_endpoints ds" using s(2) support_keeps(11) [OF s(1)] by (simp_all add: c_def)
  obtain c1 where c1: "endpoint_transition c ?t ?l ep = Inr c1" using move [OF c] by blast
  have d: "d = refresh_service_address c1 ?l (tx_created_at ?t)"
    using s(4) by (simp add: c_def [symmetric] apply_peer_endpoint_transaction_def fields c1)
  note old = same_endpoints [OF c wf]
  have new: "active_endpoints ds' = active_endpoints c1" by (rule ext) (simp add: s(3) d refresh_service_address_def active_endpoints_def)
  have only: "map ep_endpoint (active_endpoints c1 ?l) = [ep]"
    by (rule endpoint_only_active [OF c1 old(2)]) (use ty(1) in \<open>auto simp: local_tx_def\<close>)
  have "create_peer_endpoint_transaction e entropy ty ?l ep prev ex oc = Inr ?t"
    unfolding k(1) by (rule created_endpoint_transaction [OF ty'(1) ln(2) ep(1) prev _ ex now]) (use ty(1,2) in auto)
  then have "local_endpoint_change e entropy ds ty ep prev ex oc False = Inr (?t, ds')"
    using ds' by (simp add: local_endpoint_change_def local_node_id_def ln(1) submit_local_endpoint_def)
  then show thesis
  proof (rule that)
    show "tx_transaction_type ?t = ty" by (simp add: local_tx_def)
    show "endpoints_wf ds'"
      by (rule endpoints_wf_nodes [OF endpoint_transition_wf [OF c1 old(2)]])
        (simp add: s(3) d refresh_service_address_def, simp add: s(3) d refresh_service_address_state)
    show "map ep_endpoint (active_endpoints ds' ?l) = [ep]" using only new by simp
    show "log_ids ds' = log_ids ds @ [tx_transaction_id ?t]" by (rule submit_admission_InrE [OF ds' admission_policies(4)])
    show "filter (\<lambda>r. ep_node_id r \<noteq> ?l) (ds_peer_endpoints ds') = filter (\<lambda>r. ep_node_id r \<noteq> ?l) (ds_peer_endpoints ds)"
      using endpoint_transition_other [OF c1] by (simp add: s(3) d refresh_service_address_def c(2))
    have first: "map_option ep_endpoint (first_by endpoint_recent (active_endpoints c1 ?l)) = Some ep" "tx_created_at ?t = Some (h_now (pe_host e))"
      using only by (auto simp: first_by_def local_tx_def)
    have "ds_nodes c1 = ds_nodes ds" by (subst endpoint_transition_frame [OF c1]) (simp add: c(1))
    then show "\<forall>m. t_get nd_node_id m (ds_nodes ds') = map_option (\<lambda>r. if m = ?l then r\<lparr>nd_service_address := Some ep,
        nd_last_seen_at := Some (h_now (pe_host e)), nd_updated_at := Some (h_now (pe_host e))\<rparr> else r) (t_get nd_node_id m (ds_nodes ds))"
      by (simp add: s(3) d refresh_service_address_state first cong: if_cong)
  qed
qed


subsection \<open>Witnesses\<close>

lemma example_identity_law: "identity_law (example_env m) (example_env n) (example_identity m)"
  by (simp add: identity_law_def example_channel) (simp add: example_identity_def example_env_def example_host_def)


definition example_admission :: "uuid \<Rightarrow> datastore" where
  "example_admission u = empty_datastore\<lparr>ds_metadata := [(''storage_mode'', ''encrypted'')],
     ds_nodes := [example_member 1, (example_member 2)\<lparr>nd_state := Some ADMISSION_STATE_REQUESTED\<rparr>],
     ds_node_private := [format_identifier Node 1],
     ds_transactions := [transaction_to_row (example_transaction PROOF_TYPE_REQUEST
       [(''node_id'', JStr (format_identifier Node 2)), (''request_id'', JStr (format_identifier IdentifierType.Transaction 9))] u) []]\<rparr>"

lemma example_admission_request:
  "pending_request_id_for_peer (example_admission u) (format_identifier Node 2) = Inr (format_identifier IdentifierType.Transaction 9)"
  "requests_readable (example_admission u)" "\<forall>r \<in> set (ds_nodes (example_admission u)). node_checks r"
  "log_ids (example_admission u) = [format_identifier IdentifierType.Transaction u]"
proof -
  note One_nat_def [simp del]
  let ?p = "[(''node_id'', JStr (format_identifier Node 2)), (''request_id'', JStr (format_identifier IdentifierType.Transaction 9))]"
  have wf: "dict_wf ?p" "json_wf (JObj ?p)"
    using utf8_ok_identifier [OF is_identifier_format, of Node 2] utf8_ok_identifier [OF is_identifier_format, of IdentifierType.Transaction 9]
    by (simp_all add: dict_wf_def utf8_ok_ascii is_ascii_def)
  note p = load_canonical_json_bytes [OF wf(2)] map_of_canon_obj [OF wf(1)]
  have st: "t_get nd_node_id (format_identifier Node 2) (ds_nodes (example_admission u)) =
      Some ((example_member 2)\<lparr>nd_state := Some ''admission_requested''\<rparr>)"
    by (simp add: example_admission_def t_get_Cons example_member_def format_identifier_inject
        ADMISSION_STATE_REQUESTED_def)
  show "pending_request_id_for_peer (example_admission u) (format_identifier Node 2) = Inr (format_identifier IdentifierType.Transaction 9)"
    using is_identifier_not_Nil [OF is_identifier_format, of IdentifierType.Transaction 9]
    by (simp add: pending_request_id_for_peer_def st rmap_error_Inr or_empty_def) (simp add: example_admission_def transaction_to_row_def example_transaction_def p)
  show "requests_readable (example_admission u)"
    by (simp add: requests_readable_def example_admission_def transaction_to_row_def example_transaction_def p)
  show "\<forall>r \<in> set (ds_nodes (example_admission u)). node_checks r"
    by (simp add: example_admission_def node_checks_def example_member_def example_node_row_def)
  show "log_ids (example_admission u) = [format_identifier IdentifierType.Transaction u]"
    by (simp add: log_ids_def example_admission_def transaction_to_row_def example_transaction_def)
qed

lemma example_admission_identity:
  "load_sqlite_node_identity_material (example_env 1) (example_admission u) = Inr (example_identity 1)"
  by (simp add: load_sqlite_node_identity_material_def validate_sqlite_node_identity_def load_identity_file_def
      require_projection_def load_local_node_projection_def example_admission_def example_member_def example_node_row_def
      validate_distinct_keypairs_def validate_projection_matches_identity_def bytes_of_def str_of_def
      example_identity_def example_env_def format_identifier_inject)

text \<open>One of two requests has another identifier than a given one.\<close>

lemma example_admission_fresh: obtains u where "k \<notin> set (log_ids (example_admission u))"
proof (cases "k = format_identifier IdentifierType.Transaction 7")
  case True
  then show thesis by (intro that [of 8]) (simp add: example_admission_request(4) format_identifier_inject)
qed (simp add: that [of 7] example_admission_request(4))

theorem admission_accept_grants_witness:
  "\<exists>u result ds'. accept_peer_admission (example_env 1) ([], ''n'') (example_admission u) (format_identifier Node 2) [] []
      [format_identifier Service_group 1] None = Inr (result, ds') \<and>
    is_peer_synchronization_eligible (example_admission u) (format_identifier Node 2) None = Inr False \<and>
    is_peer_synchronization_eligible ds' (format_identifier Node 2) None = Inr True \<and>
    is_peer_synchronization_eligible ds' (format_identifier Node 2) (Some (format_identifier Service_group 1)) = Inr True"
proof -
  obtain k where k: "deterministic_identifier IdentifierType.Transaction ''peer.admission''
      (PROOF_TYPE_ACCEPT @ NUL @ random_identifier IdentifierType.Transaction (fst ([], ''n''))) = Inr k"
    using deterministic_total by blast
  obtain u where u: "k \<notin> set (log_ids (example_admission u))" by (rule example_admission_fresh)
  have n: "format_identifier Node 2 \<notin> set (ds_node_private (example_admission u))"
    by (simp add: example_admission_def format_identifier_inject)
  have mode: "resolve_authorization_mode [format_identifier Service_group 1] None = Inr AUTHORIZATION_MODE_ALLOW_LIST"
    "AUTHORIZATION_MODE_ALLOW_LIST \<in> set AUTHORIZATION_MODES" by (simp_all add: resolve_authorization_mode_def AUTHORIZATION_MODES_def)
  from admission_accept_grants [OF example_admission_identity example_identity_law example_sent_ok(3) _ is_identifier_format n
      example_admission_request(1) is_identifier_format example_admission_request(2,3) mode _ k u, of "[]" "[]"]
  obtain result ds' where
    "accept_peer_admission (example_env 1) ([], ''n'') (example_admission u) (format_identifier Node 2) [] []
      [format_identifier Service_group 1] None = Inr (result, ds')"
    "\<forall>sg. pred_option (is_identifier Service_group) sg \<longrightarrow>
      is_peer_synchronization_eligible (example_admission u) (format_identifier Node 2) sg = Inr False \<and>
      is_peer_synchronization_eligible ds' (format_identifier Node 2) sg = Inr (\<forall>g. sg = Some g \<longrightarrow>
        AUTHORIZATION_MODE_ALLOW_LIST = AUTHORIZATION_MODE_ALL \<or> AUTHORIZATION_MODE_ALLOW_LIST = AUTHORIZATION_MODE_ALLOW_LIST \<and>
        g \<in> set (registry_service_group_ids (example_admission u) (format_identifier Node 2)) \<union> set [format_identifier Service_group 1])"
    by (simp del: One_nat_def) blast
  then show ?thesis using is_identifier_format [of Service_group 1] by fastforce
qed

theorem decision_import_registers_signer_witness:
  "\<exists>u p result ds'. signed_admission_decision_payload (example_env 3) ([], ''n'') (example_network 3 4) PROOF_TYPE_ACCEPT (format_identifier Node 2)
      (format_identifier IdentifierType.Transaction 9) [] [] [] AUTHORIZATION_MODE_ALL = Inr p \<and>
    import_peer_admission_decision (example_env 1) (example_admission u) p = Inr (result, ds') \<and>
    is_peer_synchronization_eligible (example_admission u) (format_identifier Node 3) None = Inr False \<and>
    is_peer_synchronization_eligible ds' (format_identifier Node 3) None = Inr True"
proof -
  note One_nat_def [simp del]
  have "format_identifier Node (of_nat 3) \<noteq> format_identifier Node (of_nat 4)" by (simp add: format_identifier_inject)
  from example_network_identity [OF this, of "[]"]
  have load: "load_sqlite_node_identity_material (example_env 3) (example_network 3 4) = Inr (example_identity 3)"
    by (simp add: example_network_def empty_datastore_def)
  obtain p where p: "signed_admission_decision_payload (example_env 3) ([], ''n'') (example_network 3 4) PROOF_TYPE_ACCEPT (format_identifier Node 2)
      (format_identifier IdentifierType.Transaction 9) [] [] [] AUTHORIZATION_MODE_ALL = Inr p"
    by (rule signed_accept_ok [OF load example_identity_law [of 3 3], where gs = "[]" and mode = AUTHORIZATION_MODE_ALL])
      (auto simp: AUTHORIZATION_MODES_def intro: that)
  obtain k where k: "deterministic_identifier IdentifierType.Transaction ''peer.admission''
      (PROOF_TYPE_ACCEPT @ NUL @ random_identifier IdentifierType.Transaction (fst ([], ''n''))) = Inr k"
    using deterministic_total by blast
  obtain u where u: "k \<notin> set (log_ids (example_admission u))" by (rule example_admission_fresh)
  have id: "im_node_id (example_identity 3) = format_identifier Node 3" by (simp add: example_channel(5))
  have now: "h_now (pe_host (example_env 3)) \<noteq> []" by (simp add: example_env_def example_host_def)
  have "t_get nd_node_id (im_node_id (example_identity 3)) (ds_nodes (example_admission u)) = None"
    "im_node_id (example_identity 3) \<notin> set (ds_node_private (example_admission u))"
    by (simp_all add: id example_admission_def t_get_Cons example_member_def format_identifier_inject)
  from decision_import_registers_signer [OF p load example_identity_law [of 3 1] now _ example_sent_ok(3) is_identifier_format is_identifier_format
      pending_request_matching(1) [OF example_admission_request(1,2)] k u this] p
  show ?thesis by (auto simp: id)
qed

definition example_listening :: "uuid \<Rightarrow> datastore" where
  "example_listening u = (example_admission u)\<lparr>ds_peer_endpoints := [\<lparr>ep_node_id = format_identifier Node 1, ep_endpoint = ''tcp://a'',
     ep_state = ''active'', ep_created_at = ''2026-01-01T00:00:00Z'', ep_updated_at = ''2026-01-01T00:00:00Z'', ep_expires_at = None,
     ep_last_seen_at = None, ep_operator_comment = None\<rparr>]\<rparr>"


end
