(* ===== verification/Kit_Invitations.thy ===== *)
theory Kit_Invitations
  imports Kit_Admission
begin

section \<open>Peer invitations\<close>

text \<open>
  Two nodes admit each other by a code handed over in private. \<open>protocol/peer_invitation.py\<close> signs and encrypts the four
  phases of the exchange (offer, join, approve, complete) under keys derived from the code;
  \<open>runtime/peer_invitation_state.py\<close> keeps the local record of an exchange, with revisions and a deadline;
  \<open>runtime/peer_invitation.py\<close> applies the mutual admission once both sides consented. The clock in seconds, the random
  bytes and the nonce are arguments. \<open>json.loads\<close> is the reader of \<open>Kit_Json\<close> on UTF-8 bytes: texts in another Unicode
  encoding, which Python would detect, and floating-point numbers are outside the model. The checks of the owner and
  the mode of the state file are not modelled; the mailbox carries opaque frames between the two nodes.
\<close>

subsection \<open>Framing (\<open>protocol/peer_invitation.py\<close>)\<close>

definition INVITATION_PROTOCOL :: string where
  "INVITATION_PROTOCOL = ''peer_invitation/v1''"

definition MAX_INVITATION_BYTES :: nat where
  "MAX_INVITATION_BYTES = 32768"

definition MAX_INVITATION_LIFETIME :: int where
  "MAX_INVITATION_LIFETIME = 900"

definition INVITATION_STAGES :: "(string \<times> string) list" where
  "INVITATION_STAGES = [(''offer'', ''source''), (''join'', ''target''), (''approve'', ''source''), (''complete'', ''target'')]"

definition key_bytes :: "json \<Rightarrow> bytes res" where
  "key_bytes v =
     (case v of
        JStr s \<Rightarrow>
          if text_length s \<noteq> 43 then Inl (InvitationError ''invitation key is invalid'')
          else rbind (decode_b64url s) (\<lambda>raw.
            if length raw \<noteq> 32 \<or> encode_b64url raw \<noteq> s then Inl (InvitationError ''invitation key is invalid'') else Inr raw)
      | _ \<Rightarrow> Inl (InvitationError ''invitation key is invalid''))"

record InvitationSecret =
  sx_root_key :: bytes
  sx_issuer_key_hash :: bytes

definition invitation_secret :: "bytes \<Rightarrow> bytes \<Rightarrow> InvitationSecret res" where
  "invitation_secret root_key issuer_key_hash =
     (if length root_key \<noteq> 32 \<or> length issuer_key_hash \<noteq> 32 then Inl (InvitationError ''invitation key is invalid'')
      else Inr \<lparr>sx_root_key = root_key, sx_issuer_key_hash = issuer_key_hash\<rparr>)"

text \<open>\<open>InvitationSecret.create\<close>; the fresh key is the first argument.\<close>

definition create_invitation_secret :: "bytes \<Rightarrow> bytes \<Rightarrow> InvitationSecret res" where
  "create_invitation_secret key issuer_public_key =
     (if length issuer_public_key \<noteq> 32 then Inl (InvitationError ''invitation issuer is invalid'')
      else invitation_secret key (sha256 issuer_public_key))"

definition secret_from_code :: "string \<Rightarrow> InvitationSecret res" where
  "secret_from_code code =
     rmap_error (\<lambda>_. InvitationError ''invitation code is invalid'')
       (if text_length code \<noteq> 92 then Inl (InvitationError ''invitation code is invalid'')
        else (case split_on CHR ''.'' code of
            [tag, root, issuer] \<Rightarrow>
              if tag \<noteq> ''skp1'' then Inl (InvitationError ''invitation code is invalid'')
              else rbind (key_bytes (JStr root)) (\<lambda>r. rbind (key_bytes (JStr issuer)) (\<lambda>i. invitation_secret r i))
          | _ \<Rightarrow> Inl (ValueError ''not three values to unpack'')))"

definition secret_code :: "InvitationSecret \<Rightarrow> string" where
  "secret_code s = ''skp1.'' @ encode_b64url (sx_root_key s) @ ''.'' @ encode_b64url (sx_issuer_key_hash s)"

definition derive_purpose :: "peer_env \<Rightarrow> InvitationSecret \<Rightarrow> string \<Rightarrow> bytes res" where
  "derive_purpose e s purpose =
     (if purpose \<notin> set ([''session'', ''read'', ''join''] @ map (\<lambda>st. ''encrypt:'' @ fst st) INVITATION_STAGES)
      then Inl (InvitationError ''invitation key purpose is invalid'')
      else derive_hkdf_sha256 e (sx_root_key s) (INVITATION_PROTOCOL @ '':'' @ purpose) 32)"

definition invitation_session_id :: "peer_env \<Rightarrow> InvitationSecret \<Rightarrow> string res" where
  "invitation_session_id e s = rbind (derive_purpose e s ''session'') (\<lambda>k. Inr (encode_b64url k))"

definition invitation_context :: "peer_env \<Rightarrow> InvitationSecret \<Rightarrow> string \<Rightarrow> json_obj res" where
  "invitation_context e s stage =
     (case map_of INVITATION_STAGES stage of
        None \<Rightarrow> Inl (InvitationError ''invitation stage is invalid'')
      | Some role \<Rightarrow> rbind (invitation_session_id e s) (\<lambda>session_id.
          Inr [(''protocol'', JStr INVITATION_PROTOCOL), (''session_id'', JStr session_id), (''role'', JStr role),
               (''stage'', JStr stage)]))"

definition seal_invitation_message ::
  "peer_env \<Rightarrow> bytes \<Rightarrow> InvitationSecret \<Rightarrow> string \<Rightarrow> json_obj \<Rightarrow> bytes \<Rightarrow> bytes \<Rightarrow> int \<Rightarrow> int \<Rightarrow> bytes res" where
  "seal_invitation_message e nonce secret stage body signing_private_key signing_public_key expires_at now =
     (if \<not> (now < expires_at \<and> expires_at \<le> now + MAX_INVITATION_LIFETIME)
      then Inl (InvitationError ''invitation lifetime is invalid'')
      else
        rbind (invitation_context e secret stage) (\<lambda>context.
        let payload = context @ [(''issued_at'', JInt now), (''expires_at'', JInt expires_at), (''body'', JObj body)] in
        rbind (sign_ed25519 e signing_private_key (canonical_json_bytes payload)) (\<lambda>signature.
        let raw = canonical_json_bytes [(''payload'', JObj payload), (''signing_public_key'', JStr (encode_b64url signing_public_key)),
              (''signature'', JStr (encode_b64url signature))] in
        if MAX_INVITATION_BYTES div 2 < length raw then Inl (InvitationError ''invitation message is too large'')
        else
          rbind (derive_purpose e secret (''encrypt:'' @ stage)) (\<lambda>key.
          rbind (encrypt_aead (h_aead (pe_host e)) nonce key raw (canonical_json_bytes context) [] INVITATION_PROTOCOL)
            encode_encrypted_blob))))"

text \<open>The checks of the decrypted message, in the order of the source.\<close>

definition invitation_deadline_ok :: "json option \<Rightarrow> json option \<Rightarrow> int \<Rightarrow> int option \<Rightarrow> int option" where
  "invitation_deadline_ok issued expiry now expected =
     (case (issued, expiry) of
        (Some (JInt i), Some (JInt x)) \<Rightarrow>
          if i > now + 30 \<or> \<not> (0 < x - i \<and> x - i \<le> MAX_INVITATION_LIFETIME) \<or> x \<le> now \<or> (expected \<noteq> None \<and> expected \<noteq> Some x)
          then None else Some x
      | _ \<Rightarrow> None)"

definition open_payload ::
  "peer_env \<Rightarrow> InvitationSecret \<Rightarrow> string \<Rightarrow> json_obj \<Rightarrow> json_obj \<Rightarrow> int \<Rightarrow> bytes option \<Rightarrow> int option \<Rightarrow> (json_obj \<times> bytes \<times> int) res" where
  "open_payload e secret stage context message now expected_signer expected_expires_at =
     (if set (map fst message) \<noteq> {''payload'', ''signing_public_key'', ''signature''}
      then Inl (InvitationError ''invitation message is invalid'')
      else (case map_of message ''payload'' of
        Some (JObj payload) \<Rightarrow>
          if set (map fst payload) \<noteq> set (map fst context) \<union> {''issued_at'', ''expires_at'', ''body''}
          then Inl (InvitationError ''invitation message is invalid'')
          else if \<not> list_all (\<lambda>(k, v). map_of payload k = Some v) context then Inl (InvitationError ''invitation message is invalid'')
          else (case map_of payload ''body'' of
            Some (JObj body) \<Rightarrow>
              (case invitation_deadline_ok (map_of payload ''issued_at'') (map_of payload ''expires_at'') now expected_expires_at of
                 None \<Rightarrow> Inl (InvitationError ''invitation expired or deadline changed'')
               | Some expiry \<Rightarrow>
                   if stage \<noteq> ''offer'' \<and> expected_expires_at = None
                   then Inl (InvitationError ''original invitation deadline is required'')
                   else
                     rbind (case map_of message ''signing_public_key'' of None \<Rightarrow> Inl (KeyError ''signing_public_key'') | Some v \<Rightarrow> key_bytes v) (\<lambda>signer.
                     if stage \<in> {''offer'', ''approve''} \<and> sha256 signer \<noteq> sx_issuer_key_hash secret
                     then Inl (InvitationError ''invitation issuer changed'')
                     else if expected_signer \<noteq> None \<and> expected_signer \<noteq> Some signer
                     then Inl (InvitationError ''invitation signer changed'')
                     else if stage = ''complete'' \<and> expected_signer = None
                     then Inl (InvitationError ''approved target signer is required'')
                     else
                       rbind (case map_of message ''signature'' of
                                Some (JStr s) \<Rightarrow> decode_b64url s
                              | _ \<Rightarrow> Inl (TypeError ''value must be a string'')) (\<lambda>signature.
                       rbind (if length signature \<noteq> 64 then Inr False
                              else verify_ed25519 (pe_host e) signer (canonical_json_bytes payload) signature) (\<lambda>ok.
                       if \<not> ok then Inl (InvitationError ''invitation signature is invalid'')
                       else Inr (body, signer, expiry)))))
          | _ \<Rightarrow> Inl (InvitationError ''invitation message is invalid''))
      | _ \<Rightarrow> Inl (InvitationError ''invitation message is invalid'')))"

definition open_invitation_message ::
  "peer_env \<Rightarrow> InvitationSecret \<Rightarrow> string \<Rightarrow> bytes \<Rightarrow> int \<Rightarrow> bytes option \<Rightarrow> int option \<Rightarrow> (json_obj \<times> bytes \<times> int) res" where
  "open_invitation_message e secret stage data now expected_signer expected_expires_at =
     rmap_error (\<lambda>_. InvitationError ''invitation verification failed'')
       (if MAX_INVITATION_BYTES < length data then Inl (InvitationError ''invitation message is invalid'')
        else
          rbind (invitation_context e secret stage) (\<lambda>context.
          rbind (decode_encrypted_blob data) (\<lambda>blob.
          if ch_context (eb_header blob) \<noteq> INVITATION_PROTOCOL then Inl (InvitationError ''invitation context is invalid'')
          else
            rbind (derive_purpose e secret (''encrypt:'' @ stage)) (\<lambda>key.
            rbind (decrypt_aead (h_aead (pe_host e)) key blob (canonical_json_bytes context)) (\<lambda>raw.
              case Option.bind (utf8_decode raw) json_loads of
                Some (JObj message) \<Rightarrow> open_payload e secret stage context message now expected_signer expected_expires_at
              | Some _ \<Rightarrow> Inl (InvitationError ''invitation message is invalid'')
              | None \<Rightarrow> Inl (ValueError ''not JSON''))))))"

subsection \<open>Recovery state (\<open>runtime/peer_invitation_state.py\<close>)\<close>

definition MAX_STATE_BYTES :: nat where
  "MAX_STATE_BYTES = 262144"

record invitation_row =
  ir_session_id :: string
  ir_revision :: int
  ir_expires_at :: int
  ir_record :: bytes

definition state_id :: "string \<Rightarrow> unit res" where
  "state_id session_id =
     rmap_error (\<lambda>_. InvitationError ''invitation identifier is invalid'')
       (if text_length session_id \<noteq> 43 then Inl (ValueError [])
        else rbind (decode_b64url session_id) (\<lambda>raw.
          if length raw \<noteq> 32 \<or> encode_b64url raw \<noteq> session_id then Inl (ValueError []) else Inr ()))"

definition scope_text :: "json option \<Rightarrow> bool" where
  "scope_text v = (case v of Some (JStr s) \<Rightarrow> strip s \<noteq> [] \<and> text_length s \<le> 512 \<and> CHR 0x00 \<notin> set s | _ \<Rightarrow> False)"

definition validate_state :: "string \<Rightarrow> json_obj \<Rightarrow> bytes res" where
  "validate_state session_id record =
     (if \<not> (map_of record ''version'' = Some (JInt 1) \<and> map_of record ''session_id'' = Some (JStr session_id) \<and>
           map_of record ''role'' \<in> {Some (JStr ''source''), Some (JStr ''target'')} \<and>
           (case map_of record ''expires_at'' of Some (JInt _) \<Rightarrow> True | _ \<Rightarrow> False))
      then Inl (InvitationError ''invitation state is invalid'')
      else if \<not> (scope_text (map_of record ''service'') \<and> scope_text (map_of record ''account''))
      then Inl (InvitationError ''invitation scope is invalid'')
      else
        rbind (rmap_error (\<lambda>_. InvitationError ''invitation state is invalid'')
                 (validate_identifier_value (map_of record ''local_node_id'') Node ''invitation node'')) (\<lambda>_.
        let payload = canonical_json_bytes record in
        if MAX_STATE_BYTES < length payload then Inl (InvitationError ''invitation state is too large'') else Inr payload))"

definition stored_record :: "invitation_row \<Rightarrow> json option" where
  "stored_record r = Option.bind (utf8_decode (ir_record r)) json_loads"

definition read_state :: "invitation_row list \<Rightarrow> string \<Rightarrow> string \<Rightarrow> (int \<times> json_obj) res" where
  "read_state rows session_id node_id =
     rbind (state_id session_id) (\<lambda>_.
       case t_get ir_session_id session_id rows of
         None \<Rightarrow> Inl (InvitationError ''invitation state is unavailable'')
       | Some r \<Rightarrow>
           rmap_error (\<lambda>_. InvitationError ''invitation state is invalid'')
             (case stored_record r of
                Some (JObj record) \<Rightarrow>
                  rbind (validate_state session_id record) (\<lambda>_.
                    if map_of record ''local_node_id'' \<noteq> Some (JStr node_id)
                    then Inl (InvitationError ''invitation belongs to another local node'')
                    else Inr (ir_revision r, record))
              | Some _ \<Rightarrow> Inl (InvitationError ''invitation state is invalid'')
              | None \<Rightarrow> Inl (ValueError ''not JSON'')))"

definition BOUND_FIELDS :: "string list" where
  "BOUND_FIELDS = [''version'', ''session_id'', ''role'', ''local_node_id'', ''expires_at'', ''service'', ''account'']"

definition PROTECTED_FIELDS :: "string list" where
  "PROTECTED_FIELDS = [''code'', ''source_cap'', ''claim_cap'', ''operator_url'', ''remote_node_id'', ''remote_signing_key'',
     ''remote_encryption_key'', ''include_rss'', ''rss_identity'', ''remote_candidate'']"

text \<open>\<open>record.get(key)\<close>\<close>

definition get_or_null :: "json_obj \<Rightarrow> string \<Rightarrow> json" where
  "get_or_null p k = (case map_of p k of None \<Rightarrow> JNull | Some v \<Rightarrow> v)"

fun check_bound :: "json_obj \<Rightarrow> json_obj \<Rightarrow> string list \<Rightarrow> unit res" where
  "check_bound record prior [] = Inr ()"
| "check_bound record prior (k # ks) =
     (case (map_of record k, map_of prior k) of
        (Some a, Some b) \<Rightarrow>
          if py_eq a b then check_bound record prior ks else Inl (InvitationError ''invitation identity or deadline changed'')
      | _ \<Rightarrow> Inl (KeyError k))"

definition frames_of :: "json_obj \<Rightarrow> json_obj option" where
  "frames_of p = (case map_of p ''frames'' of None \<Rightarrow> Some [] | Some (JObj fs) \<Rightarrow> Some fs | Some _ \<Rightarrow> None)"

definition check_frames :: "json_obj \<Rightarrow> json_obj \<Rightarrow> unit res" where
  "check_frames record prior =
     (case (frames_of prior, frames_of record) of
        (Some frames, Some replacement) \<Rightarrow>
          rguard (list_all (\<lambda>(k, v). py_eq (get_or_null replacement k) v) frames) (InvitationError ''staged invitation frame changed'')
      | _ \<Rightarrow> Inl (InvitationError ''staged invitation frame changed''))"

definition replace_record :: "json \<Rightarrow> json_obj \<Rightarrow> unit res" where
  "replace_record prior record =
     (case prior of
        JObj prior \<Rightarrow>
          rbind (check_bound record prior BOUND_FIELDS) (\<lambda>_.
          rbind (rguard (list_all (\<lambda>k. dict_has k prior \<longrightarrow> py_eq (get_or_null record k) (get_or_null prior k)) PROTECTED_FIELDS)
                   (InvitationError ''invitation binding changed'')) (\<lambda>_.
            check_frames record prior))
      | _ \<Rightarrow> Inl (TypeError ''indices must be integers''))"

text \<open>The statements run under one SQLite transaction, so an error leaves the rows as they were.\<close>

definition save_state ::
  "nat \<Rightarrow> invitation_row list \<Rightarrow> string \<Rightarrow> json_obj \<Rightarrow> int option \<Rightarrow> int \<Rightarrow> (int \<times> invitation_row list) res" where
  "save_state max_records rows session_id record expected_revision now =
     rbind (state_id session_id) (\<lambda>_.
     rbind (validate_state session_id record) (\<lambda>payload.
     let expires_at = (case map_of record ''expires_at'' of Some (JInt x) \<Rightarrow> x | _ \<Rightarrow> 0) in
     if \<not> (now < expires_at \<and> expires_at \<le> now + 900)
     then Inl (InvitationError ''invitation state expired or deadline is invalid'')
     else
       let live = filter (\<lambda>r. \<not> ir_expires_at r \<le> now) rows in
       case t_get ir_session_id session_id live of
         None \<Rightarrow>
           if expected_revision \<noteq> None \<or> max_records \<le> length live then Inl (InvitationError ''invitation state cannot be created'')
           else Inr (1, live @ [\<lparr>ir_session_id = session_id, ir_revision = 1, ir_expires_at = expires_at, ir_record = payload\<rparr>])
       | Some r \<Rightarrow>
           if expected_revision \<noteq> Some (ir_revision r) then Inl (InvitationError ''invitation state changed; resume again'')
           else (case stored_record r of
               None \<Rightarrow> Inl (ValueError ''not JSON'')
             | Some prior \<Rightarrow> rbind (replace_record prior record) (\<lambda>_.
                 Inr (ir_revision r + 1, t_update ir_session_id session_id
                   (\<lambda>q. q\<lparr>ir_revision := ir_revision r + 1, ir_record := payload\<rparr>) live)))))"

subsection \<open>Mutual admission (\<open>runtime/peer_invitation.py\<close>)\<close>

text \<open>\<open>p[k]\<close>\<close>

definition member_of :: "json_obj \<Rightarrow> string \<Rightarrow> json res" where
  "member_of p k = (case map_of p k of None \<Rightarrow> Inl (KeyError k) | Some v \<Rightarrow> Inr v)"

definition is_backend_error :: "py_error \<Rightarrow> bool" where
  "is_backend_error x =
     (case x of SQLiteBackendError _ \<Rightarrow> True | SQLiteValidationError _ \<Rightarrow> True | DuplicateTransactionError _ \<Rightarrow> True
        | TransactionNotFoundError _ \<Rightarrow> True | _ \<Rightarrow> False)"

definition verify_invitation_decision :: "host \<Rightarrow> json_obj \<Rightarrow> json_obj \<Rightarrow> json_obj \<Rightarrow> string \<Rightarrow> unit res" where
  "verify_invitation_decision h decision signer subject scope =
     rbind (member_of signer ''node_id'') (\<lambda>signer_node_id.
     rbind (member_of subject ''node_id'') (\<lambda>node_id.
     rbind (member_of subject ''request_id'') (\<lambda>request_id.
     rbind (member_of signer ''signing_public_key'') (\<lambda>signing_key.
     rbind (member_of signer ''encryption_public_key'') (\<lambda>encryption_key.
     let expected = [(''proof_type'', JStr PROOF_TYPE_ACCEPT), (''signer_node_id'', signer_node_id), (''node_id'', node_id),
           (''request_id'', request_id), (''signer_signing_public_key'', signing_key),
           (''signer_encryption_public_key'', encryption_key), (''authorization_mode'', JStr ''allow_list''),
           (''service_group_ids'', JList [JStr scope])] in
     if \<not> list_all (\<lambda>(k, v). py_eq (get_or_null decision k) v) expected
     then Inl (InvitationError ''invitation decision identity or scope does not match'')
     else rmap_error (\<lambda>x. if is_backend_error x then InvitationError ''invitation decision signature is invalid'' else x)
       (verify_admission_decision_signature h decision))))))"

definition require_retained_peer :: "PeerRegistryEntry \<Rightarrow> json_obj \<Rightarrow> string \<Rightarrow> unit res" where
  "require_retained_peer peer request scope =
     (if \<not> pr_synchronization_eligible peer \<or> pr_admission_state peer \<noteq> ''active''
      then Inl (InvitationError ''RSS repair cannot change retained peer identity or authorization'')
      else
        rbind (member_of request ''signing_public_key'') (\<lambda>signing_key.
        if \<not> py_eq (JStr (pr_signing_public_key peer)) signing_key
        then Inl (InvitationError ''RSS repair cannot change retained peer identity or authorization'')
        else
          rbind (member_of request ''encryption_public_key'') (\<lambda>encryption_key.
            rguard (py_eq (JStr (pr_encryption_public_key peer)) encryption_key \<and>
                (pr_authorization_mode peer = ''all'' \<or>
                 pr_authorization_mode peer = ''allow_list'' \<and> scope \<in> set (pr_service_group_ids peer)))
              (InvitationError ''RSS repair cannot change retained peer identity or authorization''))))"

definition node_member :: "json_obj \<Rightarrow> string \<Rightarrow> string res" where
  "node_member p k =
     rbind (member_of p k) (\<lambda>v. case v of JStr s \<Rightarrow> Inr s | _ \<Rightarrow> Inl (TypeError (k @ '' is not text'')))"

text \<open>\<open>replace(policy, ignore_duplicate=True)\<close>\<close>

definition retry_policy :: "TransactionSubmissionPolicy \<Rightarrow> TransactionSubmissionPolicy" where
  "retry_policy policy = policy\<lparr>po_ignore_duplicate := True\<rparr>"

definition submit_stage ::
  "peer_env \<Rightarrow> json_obj \<times> string \<times> string \<times> TransactionSubmissionPolicy \<Rightarrow> datastore \<Rightarrow> datastore res" where
  "submit_stage e stage ds =
     (case stage of (payload, proof_type, origin_field, policy) \<Rightarrow>
        rbind (node_member payload origin_field) (\<lambda>origin.
        rbind (create_peer_admission_transaction e ds proof_type payload (Some origin)) (\<lambda>t.
        rbind (submit_transaction e ds t (retry_policy policy)) (\<lambda>r. Inr (snd r)))))"

text \<open>The body of the function after the proofs were checked, under one SQLite transaction.\<close>

definition apply_stages ::
  "peer_env \<Rightarrow> datastore \<Rightarrow> json_obj \<Rightarrow> json_obj \<Rightarrow> json_obj \<Rightarrow> json_obj \<Rightarrow> string \<Rightarrow> bool \<Rightarrow> datastore res" where
  "apply_stages e ds local_request remote_request local_decision remote_decision scope allow_existing_admission =
     rbind (node_member remote_request ''node_id'') (\<lambda>remote.
     rbind (get_peer_registry_entry ds remote) (\<lambda>prior_peer.
     case (allow_existing_admission, prior_peer) of
       (True, Some peer) \<Rightarrow> rbind (require_retained_peer peer remote_request scope) (\<lambda>_. Inr ds)
     | _ \<Rightarrow>
         rbind (create_peer_admission_transaction e ds PROOF_TYPE_REQUEST remote_request (Some remote)) (\<lambda>request_tx.
         if (case prior_peer of None \<Rightarrow> False | Some peer \<Rightarrow> pr_admission_state peer = ''active'') \<and>
            \<not> transaction_exists ds (tx_transaction_id request_tx)
         then Inl (InvitationError ''peer already has established admission; existing scope retained'')
         else rfold (submit_stage e)
           [(local_request, PROOF_TYPE_REQUEST, ''node_id'', PEER_ADMISSION_OUTBOUND_REQUEST_POLICY),
            (remote_request, PROOF_TYPE_REQUEST, ''node_id'', PEER_ADMISSION_LOCAL_POLICY),
            (local_decision, PROOF_TYPE_ACCEPT, ''signer_node_id'', PEER_ADMISSION_LOCAL_POLICY),
            (remote_decision, PROOF_TYPE_ACCEPT, ''signer_node_id'', PEER_ADMISSION_INBOUND_DECISION_POLICY)] ds)))"

definition same_local_identity :: "json_obj \<Rightarrow> identity_material \<Rightarrow> unit res" where
  "same_local_identity local_request identity =
     (let changed = Inl (InvitationError ''invitation belongs to another local identity'') in
      rbind (member_of local_request ''node_id'') (\<lambda>node_id.
      if \<not> py_eq node_id (JStr (im_node_id identity)) then changed
      else rbind (member_of local_request ''signing_public_key'') (\<lambda>signing_key.
        if \<not> py_eq signing_key (JStr (encode_b64url (im_signing_public_key identity))) then changed
        else rbind (member_of local_request ''encryption_public_key'') (\<lambda>encryption_key.
          if \<not> py_eq encryption_key (JStr (encode_b64url (im_encryption_public_key identity))) then changed else Inr ()))))"

definition apply_invitation_admission_checked ::
  "peer_env \<Rightarrow> datastore \<Rightarrow> json_obj \<Rightarrow> json_obj \<Rightarrow> json_obj \<Rightarrow> json_obj \<Rightarrow> string \<Rightarrow> string \<Rightarrow> bool \<Rightarrow> datastore res" where
  "apply_invitation_admission_checked e ds local_request remote_request local_decision remote_decision service account
     allow_existing_admission =
     (if \<not> (scope_text (Some (JStr service)) \<and> scope_text (Some (JStr account)))
      then Inl (InvitationError ''invitation scope is invalid'')
      else
        rbind (service_group_id_for account service) (\<lambda>scope.
        rbind (verify_admission_request_payload (pe_host e) local_request) (\<lambda>_.
        rbind (verify_admission_request_payload (pe_host e) remote_request) (\<lambda>_.
        rbind (member_of local_request ''node_id'') (\<lambda>local_node.
        rbind (member_of remote_request ''node_id'') (\<lambda>remote_node.
        if py_eq local_node remote_node then Inl (InvitationError ''invitation cannot admit this node to itself'')
        else
          rbind (verify_invitation_decision (pe_host e) local_decision local_request remote_request scope) (\<lambda>_.
          rbind (verify_invitation_decision (pe_host e) remote_decision remote_request local_request scope) (\<lambda>_.
          rbind (load_sqlite_node_identity_material e ds) (\<lambda>identity.
          rbind (same_local_identity local_request identity) (\<lambda>_.
            apply_stages e ds local_request remote_request local_decision remote_decision scope allow_existing_admission))))))))))"

definition apply_invitation_admission ::
  "peer_env \<Rightarrow> datastore \<Rightarrow> json_obj \<Rightarrow> json_obj \<Rightarrow> json_obj \<Rightarrow> json_obj \<Rightarrow> string \<Rightarrow> string \<Rightarrow> bool \<Rightarrow> datastore res" where
  "apply_invitation_admission e ds local_request remote_request local_decision remote_decision service account
     allow_existing_admission =
     rmap_error (\<lambda>x. if is_backend_error x then InvitationError ''invitation admission failed''
         else (case x of IntegrityError _ \<Rightarrow> InvitationError ''invitation admission failed''
           | KeyError _ \<Rightarrow> InvitationError ''invitation admission failed''
           | TypeError _ \<Rightarrow> InvitationError ''invitation admission failed'' | _ \<Rightarrow> x))
       (apply_invitation_admission_checked e ds local_request remote_request local_decision remote_decision service account
         allow_existing_admission)"

definition check_retained_peer :: "datastore \<Rightarrow> json_obj \<Rightarrow> string \<Rightarrow> string \<Rightarrow> unit res" where
  "check_retained_peer ds request service account =
     rbind (node_member request ''node_id'') (\<lambda>node_id.
     rbind (get_peer_registry_entry ds node_id) (\<lambda>peer.
       case peer of
         None \<Rightarrow> Inr ()
       | Some p \<Rightarrow> rbind (service_group_id_for account service) (\<lambda>scope. require_retained_peer p request scope)))"

text \<open>\<open>PeerInvitationFlow._request\<close>: the identity request a frame carries is that of its signer.\<close>

definition invitation_request :: "host \<Rightarrow> json_obj \<Rightarrow> bytes \<Rightarrow> json_obj res" where
  "invitation_request h body signer =
     (case map_of body ''request'' of
        Some (JObj request) \<Rightarrow>
          rmap_error (\<lambda>x. if is_backend_error x then InvitationError ''invitation identity request is invalid''
              else (case x of ValueError _ \<Rightarrow> InvitationError ''invitation identity request is invalid''
                | IdentifierValidationError _ \<Rightarrow> InvitationError ''invitation identity request is invalid''
                | KeyError _ \<Rightarrow> InvitationError ''invitation identity request is invalid'' | _ \<Rightarrow> x))
            (rbind (verify_admission_request_payload h request) (\<lambda>_.
             rbind (node_member request ''signing_public_key'') (\<lambda>k.
             rbind (decode_b64url k) (\<lambda>key. if key \<noteq> signer then Inl (ValueError []) else Inr request))))
      | _ \<Rightarrow> Inl (InvitationError ''invitation identity request is invalid''))"

subsection \<open>Codes\<close>

lemma b64_words:
  "\<exists>w k. b64encode bs = w @ replicate k b64_pad \<and> b64_word w \<and> length w = (4 * length bs + 2) div 3"
proof (induction bs rule: b64encode.induct)
  case 1
  have "b64encode [] = [] @ replicate 0 b64_pad \<and> b64_word [] \<and> length [] = (4 * length ([] :: bytes) + 2) div 3" by simp
  then show ?case by blast
next
  case (2 a)
  let ?w = "[b64_char (of_char a div 4), b64_char (of_char a mod 4 * 16)]"
  have "b64encode [a] = ?w @ replicate 2 b64_pad" by (simp add: Let_def numeral_2_eq_2)
  moreover have "b64_word ?w" by (simp only: b64_word_simps b64_char_alphabet byte_parts six_bits simp_thms)
  moreover have "length ?w = (4 * length [a] + 2) div 3" by simp
  ultimately show ?case by blast
next
  case (3 a b)
  let ?w = "[b64_char (of_char a div 4), b64_char (of_char a mod 4 * 16 + of_char b div 16), b64_char (of_char b mod 16 * 4)]"
  have "b64encode [a, b] = ?w @ replicate 1 b64_pad" by (simp add: Let_def)
  moreover have "b64_word ?w" by (simp only: b64_word_simps b64_char_alphabet byte_parts six_bits simp_thms)
  moreover have "length ?w = (4 * length [a, b] + 2) div 3" by simp
  ultimately show ?case by blast
next
  case (4 a b c s)
  then obtain w k where IH: "b64encode s = w @ replicate k b64_pad" "b64_word w" "length w = (4 * length s + 2) div 3" by blast
  let ?v = "b64_char (of_char a div 4) # b64_char (of_char a mod 4 * 16 + of_char b div 16) #
    b64_char (of_char b mod 16 * 4 + of_char c div 64) # b64_char (of_char c mod 64) # w"
  have "b64encode (a # b # c # s) = ?v @ replicate k b64_pad" by (simp add: Let_def IH)
  moreover have "b64_word ?v" by (simp only: b64_word_simps b64_char_alphabet byte_parts six_bits IH(2) simp_thms)
  moreover have "length ?v = (4 * length (a # b # c # s) + 2) div 3" by (simp add: IH(3))
  ultimately show ?case by blast
qed

lemma b64url_text:
  "length (encode_b64url bs) = (4 * length bs + 2) div 3" "CHR ''.'' \<notin> set (encode_b64url bs)"
  "text_length (encode_b64url bs) = length (encode_b64url bs)" "concat (map escape_char (encode_b64url bs)) = encode_b64url bs"
proof -
  obtain w k where w: "b64encode bs = w @ replicate k b64_pad" "b64_word w" "length w = (4 * length bs + 2) div 3" using b64_words by blast
  have "rstrip_pad (map std_to_url w @ replicate k b64_pad) = map std_to_url w" by (rule rstrip_pad_append [OF b64_word_maps(5) [OF w(2)]])
  then have e: "encode_b64url bs = map std_to_url w" by (simp only: encode_b64url_def w(1) map_append map_replicate pad_props)
  have props: "list_all (\<lambda>c. std_to_url c \<noteq> CHR ''.'' \<and> \<not> utf8_cont (std_to_url c) \<and> escape_char (std_to_url c) = [std_to_url c]) b64_alphabet" by code_simp
  then have c: "std_to_url c \<noteq> CHR ''.'' \<and> \<not> utf8_cont (std_to_url c) \<and> escape_char (std_to_url c) = [std_to_url c]" if "c \<in> set w" for c
    using that w(2) unfolding list_all_iff b64_word_def by blast
  show "length (encode_b64url bs) = (4 * length bs + 2) div 3" by (simp add: e w(3))
  show "CHR ''.'' \<notin> set (encode_b64url bs)"
  proof
    assume "CHR ''.'' \<in> set (encode_b64url bs)"
    then obtain x where "x \<in> set w" "std_to_url x = CHR ''.''" by (auto simp: e)
    with c [of x] show False by simp
  qed
  show "text_length (encode_b64url bs) = length (encode_b64url bs)" using c by (auto simp: e text_length_def intro!: arg_cong [where f = length] filter_True)
  have "concat (map escape_char (map std_to_url v)) = map std_to_url v" if "set v \<subseteq> set w" for v using that c by (induction v) auto
  then show "concat (map escape_char (encode_b64url bs)) = encode_b64url bs" by (simp add: e)
qed

definition secret_ok :: "InvitationSecret \<Rightarrow> bool" where
  "secret_ok s \<longleftrightarrow> length (sx_root_key s) = 32 \<and> length (sx_issuer_key_hash s) = 32"

lemma key_bytes_encode: "length bs = 32 \<Longrightarrow> key_bytes (JStr (encode_b64url bs)) = Inr bs"
  by (simp add: key_bytes_def b64url_text decode_b64url_encode)

lemma key_bytes_InrD: "key_bytes v = Inr bs \<Longrightarrow> v = JStr (encode_b64url bs) \<and> length bs = 32"
  by (auto simp: key_bytes_def rbind_Inr_iff split: json.split_asm if_split_asm)

lemma secret_from_code_code: "secret_ok s \<Longrightarrow> secret_from_code (secret_code s) = Inr s"
proof -
  assume ok: "secret_ok s"
  let ?r = "encode_b64url (sx_root_key s)" and ?i = "encode_b64url (sx_issuer_key_hash s)"
  have "split_on CHR ''.'' (''skp1'' @ CHR ''.'' # ?r @ CHR ''.'' # ?i) = [''skp1'', ?r, ?i]"
    by (subst split_on_append, simp, subst split_on_append, rule b64url_text(2)) (simp add: split_on_absent b64url_text(2))
  then have split: "split_on CHR ''.'' (secret_code s) = [''skp1'', ?r, ?i]" by (simp add: secret_code_def)
  have t: "text_length ''skp1.'' = 5" "text_length ''.'' = 1" by code_simp+
  have app: "text_length (x @ y) = text_length x + text_length y" for x y by (simp add: text_length_def)
  have "text_length (secret_code s) = 5 + (length ?r + (1 + length ?i))" unfolding secret_code_def by (simp only: app t b64url_text(3))
  then have "text_length (secret_code s) = 92" using ok by (simp add: b64url_text(1) secret_ok_def)
  with ok split show ?thesis by (simp add: secret_from_code_def secret_ok_def key_bytes_encode invitation_secret_def rmap_error_def)
qed

lemma join_split_on: "join_with [d] (split_on d s) = s"
proof (induction s)
  case (Cons c s)
  then show ?case by (cases "split_on d s" rule: remdups_adj.cases) auto
qed simp

text \<open>The reader of a code accepts nothing but the printed form of a secret.\<close>

interpretation invitation_code: strict_codec secret_code secret_from_code secret_ok
proof unfold_locales
  fix code s
  show "secret_from_code code = Inr s \<longleftrightarrow> secret_ok s \<and> code = secret_code s"
  proof
    assume "secret_from_code code = Inr s"
    then have "(case split_on CHR ''.'' code of
            [tag, root, issuer] \<Rightarrow>
              if tag \<noteq> ''skp1'' then Inl (InvitationError ''invitation code is invalid'')
              else rbind (key_bytes (JStr root)) (\<lambda>r. rbind (key_bytes (JStr issuer)) (\<lambda>i. invitation_secret r i))
          | _ \<Rightarrow> Inl (ValueError ''not three values to unpack'')) = Inr s"
      unfolding secret_from_code_def rmap_error_Inr by (simp split: if_split_asm)
    moreover from this obtain tag root issuer where l: "split_on CHR ''.'' code = [tag, root, issuer]"
      by (simp split: list.split_asm)
    ultimately have "tag = ''skp1''" and c: "rbind (key_bytes (JStr root)) (\<lambda>r. rbind (key_bytes (JStr issuer)) (\<lambda>i. invitation_secret r i)) = Inr s"
      by (simp_all split: if_split_asm)
    then obtain r i where k: "split_on CHR ''.'' code = [''skp1'', root, issuer]" "key_bytes (JStr root) = Inr r" "key_bytes (JStr issuer) = Inr i"
      "invitation_secret r i = Inr s" using l by (elim rbind_InrE) blast
    have "code = ''skp1'' @ ''.'' @ root @ ''.'' @ issuer" using join_split_on [of "CHR ''.''" code] by (simp add: k(1))
    then show "secret_ok s \<and> code = secret_code s"
      using key_bytes_InrD [OF k(2)] key_bytes_InrD [OF k(3)] k(4) by (auto simp: invitation_secret_def secret_ok_def secret_code_def split: if_split_asm)
  qed (use secret_from_code_code in blast)
qed

subsection \<open>Frames open to what was sealed\<close>

abbreviation invitation_key :: "peer_env \<Rightarrow> InvitationSecret \<Rightarrow> string \<Rightarrow> bytes" where
  "invitation_key e s purpose \<equiv> pe_hkdf_sha256 e (sx_root_key s) (INVITATION_PROTOCOL @ '':'' @ purpose) 32"

lemma derive_purpose_ok:
  "secret_ok s \<Longrightarrow> purpose \<in> set ([''session'', ''read'', ''join''] @ map (\<lambda>st. ''encrypt:'' @ fst st) INVITATION_STAGES) \<Longrightarrow>
    derive_purpose e s purpose = Inr (invitation_key e s purpose)"
  by (auto simp: derive_purpose_def derive_hkdf_sha256_def secret_ok_def)

lemma stage_roles:
  assumes "map_of INVITATION_STAGES stage = Some role"
  shows "plain stage" "plain role" "''encrypt:'' @ stage \<in> set ([''session'', ''read'', ''join''] @ map (\<lambda>st. ''encrypt:'' @ fst st) INVITATION_STAGES)"
  using assms by (auto simp: INVITATION_STAGES_def below_del_def split: if_split_asm)

lemma invitation_context_ok:
  assumes "secret_ok s" "map_of INVITATION_STAGES stage = Some role"
  shows "invitation_context e s stage = Inr [(''protocol'', JStr INVITATION_PROTOCOL), (''session_id'', JStr (encode_b64url (invitation_key e s ''session''))),
    (''role'', JStr role), (''stage'', JStr stage)]"
  using derive_purpose_ok [OF assms(1), of "''session''" e] by (simp add: invitation_context_def assms(2) invitation_session_id_def)

definition invitation_payload :: "json_obj \<Rightarrow> int \<Rightarrow> int \<Rightarrow> json_obj \<Rightarrow> json_obj" where
  "invitation_payload context now expires_at body = context @ [(''issued_at'', JInt now), (''expires_at'', JInt expires_at), (''body'', JObj body)]"

definition invitation_message :: "json_obj \<Rightarrow> bytes \<Rightarrow> bytes \<Rightarrow> json_obj" where
  "invitation_message payload public_key signature = [(''payload'', JObj payload), (''signing_public_key'', JStr (encode_b64url public_key)),
     (''signature'', JStr (encode_b64url signature))]"

lemma invitation_wf:
  assumes "context = [(''protocol'', JStr INVITATION_PROTOCOL), (''session_id'', JStr (encode_b64url k)), (''role'', JStr role), (''stage'', JStr stage)]"
    and "plain role" "plain stage" "json_wf (JObj body)"
  shows "json_wf (JObj (invitation_payload context now x body))" "json_wf (JObj (invitation_message (invitation_payload context now x body) pk sg))"
    "dict_wf (invitation_payload context now x body)" "dict_wf (invitation_message (invitation_payload context now x body) pk sg)"
proof -
  have p: "plain INVITATION_PROTOCOL" by code_simp
  have keys: "list_all plain [''protocol'', ''session_id'', ''role'', ''stage'', ''issued_at'', ''expires_at'', ''body'', ''payload'', ''signing_public_key'', ''signature'']"
    by code_simp
  show w: "json_wf (JObj (invitation_payload context now x body))"
    by (rule json_wf_objI) (use assms p keys in \<open>simp_all add: invitation_payload_def plain_b64url plain_utf8 del: utf8_ok.simps\<close>)
  then show "json_wf (JObj (invitation_message (invitation_payload context now x body) pk sg))"
    by (intro json_wf_objI) (use keys in \<open>simp_all add: invitation_message_def plain_b64url plain_utf8 del: utf8_ok.simps json_wf.simps(3)\<close>)
  then show "dict_wf (invitation_message (invitation_payload context now x body) pk sg)" by simp
  show "dict_wf (invitation_payload context now x body)" using w by simp
qed

lemma set_keys_canon_obj: "set (map fst (canon_obj kvs)) = set (map fst kvs)"
  by (force simp: canon_obj_def)

lemma open_payload_ok:
  assumes c: "context = [(''protocol'', JStr INVITATION_PROTOCOL), (''session_id'', JStr (encode_b64url k)), (''role'', JStr role), (''stage'', JStr stage)]"
    and wf: "plain role" "plain stage" "json_wf (JObj body)" and p: "p = invitation_payload context issued x body"
    and key: "length pk = 32" "length sg = 64" "h_ed25519_key_ok (pe_host r) pk" "h_ed25519_verify (pe_host r) pk (canonical_json_bytes p) sg"
    and time: "issued \<le> now + 30" "now < x" "issued < x" "x \<le> issued + 900"
    and ee: "ee = Some x \<or> ee = None \<and> stage = ''offer''" and es: "es = Some pk \<or> es = None \<and> stage \<noteq> ''complete''"
    and issuer: "stage \<in> {''offer'', ''approve''} \<longrightarrow> sha256 pk = sx_issuer_key_hash secret"
  shows "open_payload r secret stage context (canon_obj (invitation_message p pk sg)) now es ee = Inr (canon_obj body, pk, x)"
proof -
  note get = map_of_canon_obj [OF invitation_wf(4) [OF c wf, of issued x pk sg, folded p]] map_of_canon_obj [OF invitation_wf(3) [OF c wf, of issued x, folded p]]
  have m: "map_of (canon_obj (invitation_message p pk sg)) ''payload'' = Some (JObj (canon_obj p))"
    "map_of (canon_obj (invitation_message p pk sg)) ''signing_public_key'' = Some (JStr (encode_b64url pk))"
    "map_of (canon_obj (invitation_message p pk sg)) ''signature'' = Some (JStr (encode_b64url sg))"
    "set (map fst (canon_obj (invitation_message p pk sg))) = {''payload'', ''signing_public_key'', ''signature''}"
    unfolding get set_keys_canon_obj by (simp_all add: invitation_message_def canon_JObj [symmetric])
  have q: "map_of (canon_obj p) ''body'' = Some (JObj (canon_obj body))" "map_of (canon_obj p) ''issued_at'' = Some (JInt issued)"
    "map_of (canon_obj p) ''expires_at'' = Some (JInt x)" "list_all (\<lambda>(k, v). map_of (canon_obj p) k = Some v) context"
    "set (map fst (canon_obj p)) = set (map fst context) \<union> {''issued_at'', ''expires_at'', ''body''}"
    unfolding get set_keys_canon_obj by (auto simp: p invitation_payload_def c canon_JObj [symmetric])
  have d: "invitation_deadline_ok (Some (JInt issued)) (Some (JInt x)) now ee = Some x"
    using time ee by (auto simp: invitation_deadline_ok_def MAX_INVITATION_LIFETIME_def)
  have v: "verify_ed25519 (pe_host r) pk (canonical_json_bytes (canon_obj p)) sg = Inr True"
    using key by (simp add: verify_ed25519_def canon_obj_bytes)
  have "\<not> (stage \<noteq> ''offer'' \<and> ee = None)" "\<not> (es \<noteq> None \<and> es \<noteq> Some pk)" "\<not> (stage = ''complete'' \<and> es = None)" using ee es by auto
  note checks = this issuer
  show ?thesis
    using checks unfolding open_payload_def m
    by (simp add: q(1-4) q(5) [simplified] d key_bytes_encode [OF key(1)] decode_b64url_encode key(2) v) auto
qed

lemma length_print_string: "length (print_string (encode_b64url bs)) = (4 * length bs + 2) div 3 + 2"
  using b64url_text(1,4) [of bs] by (simp add: print_string_def)

text \<open>The size of an encoded frame.\<close>

lemma length_invitation_blob:
  assumes "blob_ok b" "encode_encrypted_blob b = Inr data" "ch_algorithm (eb_header b) = AEAD_ALGORITHM" "ch_key_id (eb_header b) = []"
    "ch_context (eb_header b) = INVITATION_PROTOCOL"
  shows "length data \<le> (4 * length (eb_ciphertext b) + 2) div 3 + (4 * length (eb_nonce b) + 2) div 3 + 200"
proof -
  have v: "ch_version (eb_header b) = 1" using assms(1) by (simp add: blob_ok_def)
  have texts: "length (print_string AEAD_ALGORITHM) = 18" "length (print_string INVITATION_PROTOCOL) = 20" "length (print_string []) = 2"
    "length (print_string ''ciphertext'') = 12" "length (print_string ''header'') = 8" "length (print_string ''algorithm'') = 11"
    "length (print_string ''context'') = 9" "length (print_string ''key_id'') = 8" "length (print_string ''version'') = 9"
    "length (print_string ''nonce'') = 7" "length (dec_of_int 1) = 1" by code_simp+
  have "data = print_json (encrypted_blob_payload b)"
    using encode_blob_text(1) [OF assms(1)] assms(2) by (simp add: canonical_json_text_def encrypted_blob_payload_canon)
  then show ?thesis by (simp add: encrypted_blob_payload_def assms(3-5) v texts length_print_string)
qed

lemma sealed_frame:
  assumes seal: "seal_invitation_message e nonce secret stage body private_key public_key x issued = Inr data"
    and ok: "secret_ok secret" "aead_law (h_aead (pe_host e))" "length nonce = 12" "\<forall>k n p a. length (aead_seal (h_aead (pe_host e)) k n p a) \<le> length p + 16"
  obtains role ctx p sg blob where "map_of INVITATION_STAGES stage = Some role"
    "ctx = [(''protocol'', JStr INVITATION_PROTOCOL), (''session_id'', JStr (encode_b64url (invitation_key e secret ''session''))), (''role'', JStr role), (''stage'', JStr stage)]"
    "p = invitation_payload ctx issued x body" "sg = pe_ed25519_sign e private_key (canonical_json_bytes p)" "issued < x" "x \<le> issued + 900"
    "decode_encrypted_blob data = Inr blob" "eb_header blob = \<lparr>ch_version = 1, ch_algorithm = AEAD_ALGORITHM, ch_key_id = [], ch_context = INVITATION_PROTOCOL\<rparr>"
    "eb_nonce blob = nonce" "eb_ciphertext blob = aead_seal (h_aead (pe_host e)) (invitation_key e secret (''encrypt:'' @ stage)) nonce
      (canonical_json_bytes (invitation_message p public_key sg)) (canonical_json_bytes ctx)" "length data \<le> MAX_INVITATION_BYTES"
    "length (invitation_key e secret (''encrypt:'' @ stage)) = 32"
proof -
  let ?k = "invitation_key e secret (''encrypt:'' @ stage)"
  from seal obtain role where role: "map_of INVITATION_STAGES stage = Some role"
    by (auto simp: seal_invitation_message_def invitation_context_def split: if_split_asm option.split_asm)
  define ctx where "ctx = [(''protocol'', JStr INVITATION_PROTOCOL), (''session_id'', JStr (encode_b64url (invitation_key e secret ''session''))),
    (''role'', JStr role), (''stage'', JStr stage)]"
  define p where "p = invitation_payload ctx issued x body"
  define sg where "sg = pe_ed25519_sign e private_key (canonical_json_bytes p)"
  define raw where "raw = canonical_json_bytes (invitation_message p public_key sg)"
  define blob where "blob = \<lparr>eb_header = \<lparr>ch_version = 1, ch_algorithm = AEAD_ALGORITHM, ch_key_id = [], ch_context = INVITATION_PROTOCOL\<rparr>,
    eb_nonce = nonce, eb_ciphertext = aead_seal (h_aead (pe_host e)) ?k nonce raw (canonical_json_bytes ctx)\<rparr>"
  have c: "invitation_context e secret stage = Inr ctx" unfolding ctx_def by (rule invitation_context_ok [OF ok(1) role])
  have s: "issued < x" "x \<le> issued + 900" "length raw \<le> 16384" "length ?k = 32" "encode_encrypted_blob blob = Inr data"
    using seal stage_roles(3) [OF role] derive_purpose_ok [OF ok(1)]
    by (auto simp: seal_invitation_message_def c MAX_INVITATION_LIFETIME_def MAX_INVITATION_BYTES_def Let_def invitation_payload_def [symmetric]
        p_def [symmetric] sign_ed25519_def sg_def [symmetric] invitation_message_def [symmetric] raw_def [symmetric] encrypt_aead_def validate_key_def
        rguard_def rbind_Inr_iff blob_def split: if_split_asm)
  have "plain AEAD_ALGORITHM" "plain INVITATION_PROTOCOL" "AEAD_ALGORITHM \<noteq> []" by code_simp+
  then have b: "blob_ok blob" using ok(2,3) by (auto simp: blob_ok_def blob_def aead_law_def)
  have "length (eb_ciphertext blob) \<le> length raw + 16" "length (eb_nonce blob) = 12" using ok(3,4) by (simp_all add: blob_def)
  then have "length data \<le> MAX_INVITATION_BYTES"
    using length_invitation_blob [OF b s(5)] s(3) by (simp add: blob_def MAX_INVITATION_BYTES_def)
  with role s decode_encode_blob [OF b s(5)] show thesis
    by (intro that [of role ctx p sg blob]) (simp_all add: ctx_def p_def sg_def blob_def raw_def)
qed


lemma sealed_opens:
  assumes seal: "seal_invitation_message s nonce secret stage body private_key public_key x issued = Inr data"
    and secret: "length (sx_root_key secret) = 32" "length (sx_issuer_key_hash secret) = 32"
    and cipher: "aead_law (h_aead (pe_host s))" "\<forall>k n p a. length (aead_seal (h_aead (pe_host s)) k n p a) \<le> length p + 16" "length nonce = 12"
      "h_aead (pe_host r) = h_aead (pe_host s)" "pe_hkdf_sha256 r = pe_hkdf_sha256 s"
    and sign: "length public_key = 32" "h_ed25519_key_ok (pe_host r) public_key"
      "\<forall>m. length (pe_ed25519_sign s private_key m) = 64 \<and> h_ed25519_verify (pe_host r) public_key m (pe_ed25519_sign s private_key m)"
    and issuer: "stage \<in> {''offer'', ''approve''} \<longrightarrow> sha256 public_key = sx_issuer_key_hash secret"
    and body: "json_wf (JObj body)"
    and time: "issued \<le> now + 30" "now < x"
    and expected: "deadline = Some x \<or> deadline = None \<and> stage = ''offer''" "signer = Some public_key \<or> signer = None \<and> stage \<noteq> ''complete''"
  shows "open_invitation_message r secret stage data now signer deadline = Inr (canon_obj body, public_key, x)"
proof -
  have ok: "secret_ok secret" using secret by (simp add: secret_ok_def)
  obtain role ctx p sg blob where f: "map_of INVITATION_STAGES stage = Some role"
    "ctx = [(''protocol'', JStr INVITATION_PROTOCOL), (''session_id'', JStr (encode_b64url (invitation_key s secret ''session''))), (''role'', JStr role), (''stage'', JStr stage)]"
    "p = invitation_payload ctx issued x body" "sg = pe_ed25519_sign s private_key (canonical_json_bytes p)" "issued < x" "x \<le> issued + 900"
    "decode_encrypted_blob data = Inr blob" "eb_header blob = \<lparr>ch_version = 1, ch_algorithm = AEAD_ALGORITHM, ch_key_id = [], ch_context = INVITATION_PROTOCOL\<rparr>"
    "eb_nonce blob = nonce" "eb_ciphertext blob = aead_seal (h_aead (pe_host s)) (invitation_key s secret (''encrypt:'' @ stage)) nonce
      (canonical_json_bytes (invitation_message p public_key sg)) (canonical_json_bytes ctx)" "length data \<le> MAX_INVITATION_BYTES"
    "length (invitation_key s secret (''encrypt:'' @ stage)) = 32"
    by (rule sealed_frame [OF seal ok cipher(1,3,2)])
  note roles = stage_roles [OF f(1)]
  have c: "invitation_context r secret stage = Inr ctx" using invitation_context_ok [OF ok f(1), of r] by (simp add: f(2) cipher(5))
  have k: "derive_purpose r secret (''encrypt:'' @ stage) = Inr (invitation_key s secret (''encrypt:'' @ stage))"
    using derive_purpose_ok [OF ok roles(3), of r] by (simp add: cipher(5))
  have d: "decrypt_aead (h_aead (pe_host r)) (invitation_key s secret (''encrypt:'' @ stage)) blob (canonical_json_bytes ctx) =
      Inr (canonical_json_bytes (invitation_message p public_key sg))"
    using cipher f(12) by (simp add: decrypt_aead_def validate_key_def f(8-10) aead_law_def rguard_def)
  have w: "json_wf (JObj (invitation_message p public_key sg))" unfolding f(3) by (rule invitation_wf(2) [OF f(2) roles(2,1) body])
  have l: "Option.bind (utf8_decode (canonical_json_bytes (invitation_message p public_key sg))) json_loads =
      Some (JObj (canon_obj (invitation_message p public_key sg)))"
    using json_loads_dumps [OF w] utf8_ok_print(1) [OF canon_wf [OF w]]
    by (simp add: canonical_json_bytes_def utf8_decode_def canon_JObj canonical_json_text_def del: json_wf.simps canon.simps)
  have opened: "open_payload r secret stage ctx (canon_obj (invitation_message p public_key sg)) now signer deadline = Inr (canon_obj body, public_key, x)"
    by (rule open_payload_ok [OF f(2) roles(2,1) body f(3)]) (use f sign time expected issuer in auto)
  show ?thesis using f(11) by (simp add: open_invitation_message_def rmap_error_def c f(7,8) k [simplified] d [simplified] l opened)
qed

text \<open>C9. The holder of the code opens every sealed frame to its body.

Whoever has the code, and the same AEAD and key derivation, opens a frame that was sealed for the stage: the code
parses to the secret it was printed from, the frame is within the size that the reader accepts, and the result is the
body (with sorted keys), the key of the signer and the deadline. The AEAD adds at most 16 bytes; the clock of the
reader is at most 30 seconds behind and before the deadline; an offer or an approval is signed with the issuer's key.\<close>

theorem invitation_roundtrip:
  assumes seal: "seal_invitation_message s nonce secret stage body private_key public_key x issued = Inr data"
    and secret: "length (sx_root_key secret) = 32" "length (sx_issuer_key_hash secret) = 32"
    and cipher: "aead_law (h_aead (pe_host s))" "\<forall>k n p a. length (aead_seal (h_aead (pe_host s)) k n p a) \<le> length p + 16" "length nonce = 12"
      "h_aead (pe_host r) = h_aead (pe_host s)" "pe_hkdf_sha256 r = pe_hkdf_sha256 s"
    and sign: "length public_key = 32" "h_ed25519_key_ok (pe_host r) public_key"
      "\<forall>m. length (pe_ed25519_sign s private_key m) = 64 \<and> h_ed25519_verify (pe_host r) public_key m (pe_ed25519_sign s private_key m)"
    and issuer: "stage \<in> {''offer'', ''approve''} \<longrightarrow> sha256 public_key = sx_issuer_key_hash secret"
    and body: "json_wf (JObj body)"
    and time: "issued \<le> now + 30" "now < x"
    and expected: "deadline = Some x \<or> deadline = None \<and> stage = ''offer''" "signer = Some public_key \<or> signer = None \<and> stage \<noteq> ''complete''"
  shows "rbind (secret_from_code (secret_code secret)) (\<lambda>k. open_invitation_message r k stage data now signer deadline) =
    Inr (canon_obj body, public_key, x)"
  using sealed_opens [OF assms] secret by (simp add: secret_from_code_code secret_ok_def)

definition example_invitation :: InvitationSecret where
  "example_invitation = \<lparr>sx_root_key = replicate 32 CHR ''r'', sx_issuer_key_hash = sha256 (replicate 32 CHR ''a'')\<rparr>"

lemma seal_succeeds:
  assumes "secret_ok s" "map_of INVITATION_STAGES stage = Some role" "\<forall>k c. length (pe_hkdf_sha256 e k c 32) = 32" "aead_law (h_aead (pe_host e))"
    "nonce \<noteq> []" "length private_key = 32" "issued < x" "x \<le> issued + 900"
    and raw: "\<And>ctx sg. ctx = [(''protocol'', JStr INVITATION_PROTOCOL), (''session_id'', JStr (encode_b64url (invitation_key e s ''session''))), (''role'', JStr role),
      (''stage'', JStr stage)] \<Longrightarrow> sg = pe_ed25519_sign e private_key (canonical_json_bytes (invitation_payload ctx issued x body)) \<Longrightarrow>
      length (canonical_json_bytes (invitation_message (invitation_payload ctx issued x body) public_key sg)) \<le> 16384"
  shows "\<exists>data. seal_invitation_message e nonce s stage body private_key public_key x issued = Inr data"
proof -
  note k = derive_purpose_ok [OF assms(1) stage_roles(3) [OF assms(2)], of e]
  have p: "plain AEAD_ALGORITHM" "plain INVITATION_PROTOCOL" "AEAD_ALGORITHM \<noteq> []" by code_simp+
  have "\<exists>data. encode_encrypted_blob \<lparr>eb_header = \<lparr>ch_version = 1, ch_algorithm = AEAD_ALGORITHM, ch_key_id = [], ch_context = INVITATION_PROTOCOL\<rparr>,
      eb_nonce = nonce, eb_ciphertext = aead_seal (h_aead (pe_host e)) key nonce raw aad\<rparr> = Inr data" for key raw aad
    by (rule exI, rule encode_blob_text(1)) (use assms(4,5) p in \<open>simp add: blob_ok_def aead_law_def\<close>)
  then show ?thesis
    using assms(3,6-8) raw [OF refl refl]
    by (simp add: seal_invitation_message_def invitation_context_ok [OF assms(1,2)] sign_ed25519_def Let_def MAX_INVITATION_LIFETIME_def
        MAX_INVITATION_BYTES_def k [simplified] encrypt_aead_def validate_key_def rguard_def invitation_payload_def invitation_message_def not_less)
qed

lemma example_offer_sealed:
  "\<exists>data. seal_invitation_message (example_env 1) (replicate 12 CHR ''n'') example_invitation ''offer'' [(''service'', JStr ''svc'')]
     (replicate 32 CHR ''a'') (replicate 32 CHR ''a'') 900 0 = Inr data"
proof (rule seal_succeeds [where role = "''source''"])
  fix ctx :: json_obj and sg
  assume "ctx = [(''protocol'', JStr INVITATION_PROTOCOL), (''session_id'', JStr (encode_b64url (invitation_key (example_env 1) example_invitation ''session''))),
      (''role'', JStr ''source''), (''stage'', JStr ''offer'')]"
    "sg = pe_ed25519_sign (example_env 1) (replicate 32 CHR ''a'') (canonical_json_bytes (invitation_payload ctx 0 900 [(''service'', JStr ''svc'')]))"
  then have c: "ctx = [(''protocol'', JStr INVITATION_PROTOCOL), (''session_id'', JStr (encode_b64url (replicate 32 CHR ''h''))),
      (''role'', JStr ''source''), (''stage'', JStr ''offer'')]" "sg = replicate 64 CHR ''a''" by (simp_all add: example_env_def)
  show "length (canonical_json_bytes (invitation_message (invitation_payload ctx 0 900 [(''service'', JStr ''svc'')]) (replicate 32 CHR ''a'') sg)) \<le> 16384"
    unfolding c by (rule le_trans [where j = 1000], code_simp) simp
qed (use example_aead_law in \<open>simp_all add: secret_ok_def example_invitation_def example_env_def example_host_def INVITATION_STAGES_def\<close>)

lemma example_offer_opens:
  assumes "seal_invitation_message (example_env 1) (replicate 12 CHR ''n'') example_invitation ''offer'' [(''service'', JStr ''svc'')]
     (replicate 32 CHR ''a'') (replicate 32 CHR ''a'') 900 0 = Inr data"
  shows "open_invitation_message (example_env 2) example_invitation ''offer'' data 10 None None =
    Inr (canon_obj [(''service'', JStr ''svc'')], replicate 32 CHR ''a'', 900)"
proof -
  have w: "json_wf (JObj [(''service'', JStr ''svc'')])" by code_simp
  show ?thesis
    by (rule sealed_opens [OF assms])
      (use w example_aead_law in \<open>simp_all add: example_invitation_def example_env_def example_host_def example_aead_def del: json_wf.simps\<close>)
qed

theorem invitation_roundtrip_witness:
  "\<exists>data. seal_invitation_message (example_env 1) (replicate 12 CHR ''n'') example_invitation ''offer'' [(''service'', JStr ''svc'')]
     (replicate 32 CHR ''a'') (replicate 32 CHR ''a'') 900 0 = Inr data \<and>
   rbind (secret_from_code (secret_code example_invitation)) (\<lambda>k. open_invitation_message (example_env 2) k ''offer'' data 10 None None) =
     Inr (canon_obj [(''service'', JStr ''svc'')], replicate 32 CHR ''a'', 900)"
proof -
  obtain data where d: "seal_invitation_message (example_env 1) (replicate 12 CHR ''n'') example_invitation ''offer'' [(''service'', JStr ''svc'')]
     (replicate 32 CHR ''a'') (replicate 32 CHR ''a'') 900 0 = Inr data" using example_offer_sealed by blast
  have w: "json_wf (JObj [(''service'', JStr ''svc'')])" by code_simp
  have "rbind (secret_from_code (secret_code example_invitation)) (\<lambda>k. open_invitation_message (example_env 2) k ''offer'' data 10 None None) =
     Inr (canon_obj [(''service'', JStr ''svc'')], replicate 32 CHR ''a'', 900)"
    by (rule invitation_roundtrip [OF d])
      (use w example_aead_law in \<open>simp_all add: example_invitation_def example_env_def example_host_def example_aead_def del: json_wf.simps\<close>)
  with d show ?thesis by blast
qed

subsection \<open>What an accepted frame proves\<close>

lemma deadline_okD:
  "invitation_deadline_ok a b now expected = Some x \<Longrightarrow>
    \<exists>issued. a = Some (JInt issued) \<and> b = Some (JInt x) \<and> issued \<le> now + 30 \<and> now < x \<and> x \<le> issued + MAX_INVITATION_LIFETIME \<and>
      (expected = None \<or> expected = Some x)"
  by (auto simp: invitation_deadline_ok_def split: option.split_asm json.split_asm if_split_asm)

lemma open_payloadD:
  assumes "open_payload e secret stage context message now es ee = Inr (body, signer, x)"
  obtains payload sg where "map_of message ''payload'' = Some (JObj payload)"
    "set (map fst payload) = set (map fst context) \<union> {''issued_at'', ''expires_at'', ''body''}"
    "\<forall>(k, v) \<in> set context. map_of payload k = Some v" "map_of payload ''body'' = Some (JObj body)"
    "invitation_deadline_ok (map_of payload ''issued_at'') (map_of payload ''expires_at'') now ee = Some x" "stage = ''offer'' \<or> ee \<noteq> None"
    "map_of message ''signing_public_key'' = Some (JStr (encode_b64url signer))" "length signer = 32"
    "stage \<in> {''offer'', ''approve''} \<longrightarrow> sha256 signer = sx_issuer_key_hash secret" "es = None \<or> es = Some signer" "stage = ''complete'' \<longrightarrow> es \<noteq> None"
    "length sg = 64" "h_ed25519_key_ok (pe_host e) signer" "h_ed25519_verify (pe_host e) signer (canonical_json_bytes payload) sg"
proof -
  obtain p where p: "map_of message ''payload'' = Some (JObj p)" using assms by (auto simp: open_payload_def split: if_split_asm option.split_asm json.split_asm)
  obtain b y where b: "map_of p ''body'' = Some (JObj b)" "invitation_deadline_ok (map_of p ''issued_at'') (map_of p ''expires_at'') now ee = Some y"
    using assms p by (auto simp: open_payload_def split: if_split_asm option.split_asm json.split_asm)
  have g: "set (map fst p) = set (map fst context) \<union> {''issued_at'', ''expires_at'', ''body''}" "list_all (\<lambda>(k, v). map_of p k = Some v) context"
    "stage = ''offer'' \<or> ee \<noteq> None"
    using assms p b by (auto simp: open_payload_def split: if_split_asm)
  obtain v where v: "map_of message ''signing_public_key'' = Some v" "key_bytes v = Inr signer"
    using assms p b g by (auto simp: open_payload_def rbind_Inr_iff split: if_split_asm option.split_asm)
  obtain s sg where s: "map_of message ''signature'' = Some (JStr s)" "decode_b64url s = Inr sg"
    using assms p b g v by (auto simp: open_payload_def rbind_Inr_iff split: if_split_asm option.split_asm json.split_asm)
  have f: "body = b" "x = y" "stage \<in> {''offer'', ''approve''} \<longrightarrow> sha256 signer = sx_issuer_key_hash secret" "es = None \<or> es = Some signer"
    "stage = ''complete'' \<longrightarrow> es \<noteq> None" "length sg = 64" "verify_ed25519 (pe_host e) signer (canonical_json_bytes p) sg = Inr True"
    using assms p b g v s by (auto simp: open_payload_def rbind_Inr_iff split: if_split_asm)
  then show thesis using that [of p sg] p b g key_bytes_InrD [OF v(2)] v(1)
    by (auto simp: verify_ed25519_def list_all_iff split: if_split_asm)
qed

lemma open_invitationD:
  assumes "open_invitation_message e secret stage data now es ee = Inr r"
  obtains ctx key blob raw message where "length data \<le> MAX_INVITATION_BYTES" "invitation_context e secret stage = Inr ctx"
    "decode_encrypted_blob data = Inr blob" "ch_context (eb_header blob) = INVITATION_PROTOCOL"
    "derive_purpose e secret (''encrypt:'' @ stage) = Inr key"
    "aead_open (h_aead (pe_host e)) key (eb_nonce blob) (eb_ciphertext blob) (canonical_json_bytes ctx) = Some raw"
    "Option.bind (utf8_decode raw) json_loads = Some (JObj message)" "open_payload e secret stage ctx message now es ee = Inr r"
proof -
  have n: "length data \<le> MAX_INVITATION_BYTES" using assms by (auto simp: open_invitation_message_def rmap_error_def split: if_split_asm)
  obtain ctx where c: "invitation_context e secret stage = Inr ctx"
    using assms n by (cases "invitation_context e secret stage") (auto simp: open_invitation_message_def rmap_error_def)
  obtain blob where b: "decode_encrypted_blob data = Inr blob"
    using assms n c by (cases "decode_encrypted_blob data") (auto simp: open_invitation_message_def rmap_error_def)
  have h: "ch_context (eb_header blob) = INVITATION_PROTOCOL"
    using assms n c b by (auto simp: open_invitation_message_def rmap_error_def split: if_split_asm)
  obtain key where k: "derive_purpose e secret (''encrypt:'' @ stage) = Inr key"
    using assms n c b h by (cases "derive_purpose e secret (''encrypt:'' @ stage)") (auto simp: open_invitation_message_def rmap_error_def)
  obtain raw where d: "decrypt_aead (h_aead (pe_host e)) key blob (canonical_json_bytes ctx) = Inr raw"
    using assms n c b h k by (cases "decrypt_aead (h_aead (pe_host e)) key blob (canonical_json_bytes ctx)") (auto simp: open_invitation_message_def rmap_error_def)
  have a: "aead_open (h_aead (pe_host e)) key (eb_nonce blob) (eb_ciphertext blob) (canonical_json_bytes ctx) = Some raw"
    using d by (auto simp: decrypt_aead_def rbind_Inr_iff split: option.split_asm)
  have "\<exists>message. Option.bind (utf8_decode raw) json_loads = Some (JObj message) \<and> open_payload e secret stage ctx message now es ee = Inr r"
    using assms n h k [simplified] by (simp add: open_invitation_message_def rmap_error_def c b d split: sum.split_asm option.split_asm json.split_asm)
  then show thesis using that n c b h k a by blast
qed

text \<open>C7. An accepted frame was signed for this session, this stage and this deadline.

Whatever bytes the mailbox hands over, a frame that \<open>open_invitation_message\<close> accepts was sealed under the stage's key
and the stage's associated data, and its payload carries a signature that verifies under the returned key over the
session of the code, the stage, the role that may send it, the deadline and the returned body. It is unexpired and
lives at most 900 seconds; an offer and an approval come from the issuer that the code names, a completion from the
approved target, and every stage after the offer keeps the original deadline.\<close>

theorem invitation_open_authentic:
  assumes "open_invitation_message e secret stage data now expected_signer expected_expires_at = Inr (body, signer, expiry)"
  shows "\<exists>payload signature session_id role issued.
    map_of INVITATION_STAGES stage = Some role \<and> invitation_session_id e secret = Inr session_id \<and>
    (\<exists>blob key raw message. decode_encrypted_blob data = Inr blob \<and> derive_purpose e secret (''encrypt:'' @ stage) = Inr key \<and>
       aead_open (h_aead (pe_host e)) key (eb_nonce blob) (eb_ciphertext blob)
         (canonical_json_bytes [(''protocol'', JStr INVITATION_PROTOCOL), (''session_id'', JStr session_id), (''role'', JStr role), (''stage'', JStr stage)]) = Some raw \<and>
       Option.bind (utf8_decode raw) json_loads = Some (JObj message) \<and> map_of message ''payload'' = Some (JObj payload)) \<and>
    length signer = 32 \<and> length signature = 64 \<and> h_ed25519_verify (pe_host e) signer (canonical_json_bytes payload) signature \<and>
    map_of payload ''protocol'' = Some (JStr INVITATION_PROTOCOL) \<and> map_of payload ''session_id'' = Some (JStr session_id) \<and>
    map_of payload ''stage'' = Some (JStr stage) \<and> map_of payload ''role'' = Some (JStr role) \<and> map_of payload ''body'' = Some (JObj body) \<and>
    map_of payload ''issued_at'' = Some (JInt issued) \<and> map_of payload ''expires_at'' = Some (JInt expiry) \<and>
    issued \<le> now + 30 \<and> now < expiry \<and> expiry \<le> issued + 900 \<and>
    (stage \<in> {''offer'', ''approve''} \<longrightarrow> sha256 signer = sx_issuer_key_hash secret) \<and>
    expected_signer \<in> (if stage = ''complete'' then {Some signer} else {None, Some signer}) \<and>
    expected_expires_at \<in> (if stage = ''offer'' then {None, Some expiry} else {Some expiry})"
proof -
  obtain ctx key blob raw message where opn: "invitation_context e secret stage = Inr ctx" "decode_encrypted_blob data = Inr blob"
    "derive_purpose e secret (''encrypt:'' @ stage) = Inr key"
    "aead_open (h_aead (pe_host e)) key (eb_nonce blob) (eb_ciphertext blob) (canonical_json_bytes ctx) = Some raw"
    "Option.bind (utf8_decode raw) json_loads = Some (JObj message)"
    "open_payload e secret stage ctx message now expected_signer expected_expires_at = Inr (body, signer, expiry)"
    by (rule open_invitationD [OF assms])
  obtain role session_id where c: "map_of INVITATION_STAGES stage = Some role" "invitation_session_id e secret = Inr session_id"
    "ctx = [(''protocol'', JStr INVITATION_PROTOCOL), (''session_id'', JStr session_id), (''role'', JStr role), (''stage'', JStr stage)]"
    using opn(1) by (auto simp: invitation_context_def rbind_Inr_iff split: option.split_asm)
  show ?thesis
  proof (rule open_payloadD [OF opn(6)])
    fix payload sg
    assume p: "map_of message ''payload'' = Some (JObj payload)" "\<forall>(k, v) \<in> set ctx. map_of payload k = Some v" "map_of payload ''body'' = Some (JObj body)"
      "invitation_deadline_ok (map_of payload ''issued_at'') (map_of payload ''expires_at'') now expected_expires_at = Some expiry"
      "stage = ''offer'' \<or> expected_expires_at \<noteq> None" "length signer = 32"
      "stage \<in> {''offer'', ''approve''} \<longrightarrow> sha256 signer = sx_issuer_key_hash secret" "expected_signer = None \<or> expected_signer = Some signer"
      "stage = ''complete'' \<longrightarrow> expected_signer \<noteq> None" "length sg = 64" "h_ed25519_verify (pe_host e) signer (canonical_json_bytes payload) sg"
    obtain issued where d: "map_of payload ''issued_at'' = Some (JInt issued)" "map_of payload ''expires_at'' = Some (JInt expiry)"
      "issued \<le> now + 30" "now < expiry" "expiry \<le> issued + 900" "expected_expires_at = None \<or> expected_expires_at = Some expiry"
      using deadline_okD [OF p(4)] by (auto simp: MAX_INVITATION_LIFETIME_def)
    have m: "map_of payload ''protocol'' = Some (JStr INVITATION_PROTOCOL)" "map_of payload ''session_id'' = Some (JStr session_id)"
      "map_of payload ''stage'' = Some (JStr stage)" "map_of payload ''role'' = Some (JStr role)" using p(2) by (simp_all add: c(3))
    have e: "expected_signer \<in> (if stage = ''complete'' then {Some signer} else {None, Some signer})"
      "expected_expires_at \<in> (if stage = ''offer'' then {None, Some expiry} else {Some expiry})" using p(5,8,9) d(6) by auto
    show ?thesis using c(1,2) opn(2-5) [unfolded c(3)] p(1,3,6,7,10,11) d(1-5) m e by blast
  qed
qed

theorem invitation_open_authentic_witness:
  "\<exists>data payload signature session_id.
     seal_invitation_message (example_env 1) (replicate 12 CHR ''n'') example_invitation ''offer'' [(''service'', JStr ''svc'')]
       (replicate 32 CHR ''a'') (replicate 32 CHR ''a'') 900 0 = Inr data \<and>
     invitation_session_id (example_env 2) example_invitation = Inr session_id \<and> map_of payload ''session_id'' = Some (JStr session_id) \<and>
     h_ed25519_verify (pe_host (example_env 2)) (replicate 32 CHR ''a'') (canonical_json_bytes payload) signature \<and>
     map_of payload ''role'' = Some (JStr ''source'')"
proof -
  obtain data where d: "seal_invitation_message (example_env 1) (replicate 12 CHR ''n'') example_invitation ''offer'' [(''service'', JStr ''svc'')]
     (replicate 32 CHR ''a'') (replicate 32 CHR ''a'') 900 0 = Inr data" using example_offer_sealed by blast
  have role: "map_of INVITATION_STAGES ''offer'' = Some ''source''" by code_simp
  from invitation_open_authentic [OF example_offer_opens [OF d]] d role show ?thesis by force
qed

subsection \<open>The recovery store\<close>

lemma py_norm_null [simp]: "py_norm v = JNull \<longleftrightarrow> v = JNull"
  by (cases v) simp_all

lemma get_or_null_canon:
  "dict_wf p \<Longrightarrow> get_or_null (canon_obj p) k = canon (get_or_null p k)"
  by (simp add: get_or_null_def map_of_canon_obj split: option.split)

lemma canon_obj_Nil: "canon_obj [] = []"
  by (simp add: canon_obj_def)

lemma frames_canon:
  assumes "json_wf (JObj p)" "frames_of p = Some fs"
  shows "frames_of (canon_obj p) = Some (canon_obj fs)" "dict_wf fs"
proof -
  have p: "dict_wf p" "\<forall>v \<in> snd ` set p. json_wf v" using assms(1) by auto
  show "dict_wf fs"
  proof (cases "map_of p ''frames''")
    case None
    with assms(2) show ?thesis by (simp add: frames_of_def dict_wf_def)
  next
    case (Some v)
    with assms(2) have "v = JObj fs" by (simp add: frames_of_def split: json.split_asm)
    with Some p(2) have "json_wf (JObj fs)" by (force dest: map_of_SomeD)
    then show ?thesis by simp
  qed
  show "frames_of (canon_obj p) = Some (canon_obj fs)"
    using assms(2) by (auto simp: frames_of_def map_of_canon_obj [OF p(1)] canon_JObj canon_obj_Nil simp del: canon.simps(2) split: option.split_asm json.split_asm)
qed

text \<open>What a record binds stays bound: every non-null identity member, protected member and staged frame.\<close>

definition staged_frame :: "json_obj \<Rightarrow> string \<Rightarrow> json" where
  "staged_frame p k = (case frames_of p of None \<Rightarrow> JNull | Some fs \<Rightarrow> get_or_null fs k)"

definition binding_kept :: "json_obj \<Rightarrow> json_obj \<Rightarrow> bool" where
  "binding_kept p q \<longleftrightarrow>
     (\<forall>k \<in> set (BOUND_FIELDS @ PROTECTED_FIELDS). get_or_null p k \<noteq> JNull \<longrightarrow> py_eq (get_or_null q k) (get_or_null p k)) \<and>
     (\<forall>k. staged_frame p k \<noteq> JNull \<longrightarrow> py_eq (staged_frame q k) (staged_frame p k))"

lemma binding_kept_refl: "binding_kept p p"
  by (simp add: binding_kept_def)

lemma binding_kept_trans: "binding_kept p q \<Longrightarrow> binding_kept q r \<Longrightarrow> binding_kept p r"
  unfolding binding_kept_def py_eq_def by (metis py_norm_null)

lemma check_bound_Inr:
  "check_bound record prior ks = Inr () \<Longrightarrow> k \<in> set ks \<Longrightarrow> py_eq (get_or_null record k) (get_or_null prior k)"
  by (induction ks) (auto simp: get_or_null_def split: option.split_asm if_split_asm)

lemma replace_record_binds:
  assumes "replace_record (JObj prior) record = Inr ()" "json_wf (JObj record)"
  shows "binding_kept prior (canon_obj record)"
proof -
  have wf: "dict_wf record" using assms(2) by simp
  from assms(1) have b: "check_bound record prior BOUND_FIELDS = Inr ()" and c: "check_frames record prior = Inr ()"
    and g: "\<forall>k \<in> set PROTECTED_FIELDS. dict_has k prior \<longrightarrow> py_eq (get_or_null record k) (get_or_null prior k)"
    by (auto simp: replace_record_def rbind_Inr_iff rguard_def list_all_iff split: if_split_asm)
  obtain fs rs where f: "frames_of prior = Some fs" "frames_of record = Some rs" "\<forall>(k, v) \<in> set fs. py_eq (get_or_null rs k) v"
    using c by (auto simp: check_frames_def rguard_def list_all_iff split: option.split_asm if_split_asm)
  have "py_eq (get_or_null rs k) (get_or_null fs k)" if "get_or_null fs k \<noteq> JNull" for k
    using f(3) that by (fastforce simp: get_or_null_def [of fs] dest: map_of_SomeD split: option.split_asm)
  then have "py_eq (staged_frame (canon_obj record) k) (staged_frame prior k)" if "staged_frame prior k \<noteq> JNull" for k
    using that by (simp add: staged_frame_def f(1) frames_canon [OF assms(2) f(2)] get_or_null_canon py_eq_def)
  moreover have "py_eq (get_or_null (canon_obj record) k) (get_or_null prior k)"
    if "k \<in> set (BOUND_FIELDS @ PROTECTED_FIELDS)" "get_or_null prior k \<noteq> JNull" for k
    using that check_bound_Inr [OF b] g
    by (auto simp: get_or_null_canon [OF wf] py_eq_def dict_has_iff get_or_null_def [of prior] split: option.split_asm)
  ultimately show ?thesis by (simp add: binding_kept_def)
qed

definition row_ok :: "invitation_row \<Rightarrow> bool" where
  "row_ok r \<longleftrightarrow> state_id (ir_session_id r) = Inr () \<and> 1 \<le> ir_revision r \<and>
     (\<exists>p. stored_record r = Some (JObj p) \<and> validate_state (ir_session_id r) p = Inr (ir_record r) \<and>
        map_of p ''expires_at'' = Some (JInt (ir_expires_at r)))"

definition store_ok :: "nat \<Rightarrow> invitation_row list \<Rightarrow> bool" where
  "store_ok n rows \<longleftrightarrow> t_keyed ir_session_id rows \<and> length rows \<le> n \<and> (\<forall>r \<in> set rows. row_ok r)"

definition row_kept :: "invitation_row \<Rightarrow> invitation_row \<Rightarrow> bool" where
  "row_kept r q \<longleftrightarrow> ir_session_id q = ir_session_id r \<and> ir_expires_at q = ir_expires_at r \<and>
     (q = r \<or> ir_revision r < ir_revision q \<and>
       (\<exists>a b. stored_record r = Some (JObj a) \<and> stored_record q = Some (JObj b) \<and> binding_kept a b))"

lemma row_kept_refl: "row_kept r r"
  by (simp add: row_kept_def)

lemma row_kept_trans: "row_kept r q \<Longrightarrow> row_kept q s \<Longrightarrow> row_kept r s"
  by (auto simp: row_kept_def) (auto dest: binding_kept_trans)

lemma validate_state_InrD:
  "validate_state sid record = Inr payload \<Longrightarrow>
    payload = canonical_json_bytes record \<and> map_of record ''session_id'' = Some (JStr sid) \<and> (\<exists>x. map_of record ''expires_at'' = Some (JInt x)) \<and>
    (\<exists>n. map_of record ''local_node_id'' = Some (JStr n))"
  by (auto simp: validate_state_def rbind_Inr_iff Let_def validate_identifier_value_def rmap_error_def
      split: if_split_asm sum.split_asm option.split_asm json.split_asm)

lemma scope_text_canon: "scope_text (map_option canon v) = scope_text v"
  by (auto simp: scope_text_def split: option.split json.split)

lemma validate_state_canon:
  assumes "dict_wf record" "validate_state sid record = Inr payload"
  shows "validate_state sid (canon_obj record) = Inr payload"
proof -
  have i: "validate_identifier_value (map_option canon v) Node f = validate_identifier_value v Node f" for v f
    by (auto simp: validate_identifier_value_def split: option.split json.split)
  from assms(2) have "map_of record ''version'' = Some (JInt 1)" "map_of record ''session_id'' = Some (JStr sid)"
    "map_of record ''role'' \<in> {Some (JStr ''source''), Some (JStr ''target'')}" "\<exists>x. map_of record ''expires_at'' = Some (JInt x)"
    by (auto simp: validate_state_def split: if_split_asm option.split_asm json.split_asm)
  with assms(2) show ?thesis
    unfolding validate_state_def map_of_canon_obj [OF assms(1)] scope_text_canon i canon_obj_bytes by auto
qed

lemma stored_canonical:
  "json_wf (JObj record) \<Longrightarrow> stored_record \<lparr>ir_session_id = s, ir_revision = v, ir_expires_at = x, ir_record = canonical_json_bytes record\<rparr> =
    Some (JObj (canon_obj record))"
  using json_loads_dumps [of "JObj record"] utf8_ok_print(1) [OF canon_wf, of "JObj record"]
  by (simp add: stored_record_def canonical_json_bytes_def utf8_decode_def canon_JObj canonical_json_text_def del: json_wf.simps canon.simps)

text \<open>The outcome of a save, by the row it finds.\<close>

lemma save_state_InrD:
  assumes "save_state n rows sid record expected now = Inr (revision, rows')"
  obtains payload x where "state_id sid = Inr ()" "validate_state sid record = Inr payload" "map_of record ''expires_at'' = Some (JInt x)" "now < x" "x \<le> now + 900"
    "case t_get ir_session_id sid (filter (\<lambda>r. now < ir_expires_at r) rows) of
       None \<Rightarrow> expected = None \<and> revision = 1 \<and> length (filter (\<lambda>r. now < ir_expires_at r) rows) < n \<and>
         rows' = filter (\<lambda>r. now < ir_expires_at r) rows @ [\<lparr>ir_session_id = sid, ir_revision = 1, ir_expires_at = x, ir_record = payload\<rparr>]
     | Some r \<Rightarrow> expected = Some (ir_revision r) \<and> revision = ir_revision r + 1 \<and> (\<exists>prior. stored_record r = Some prior \<and> replace_record prior record = Inr ()) \<and>
         rows' = t_update ir_session_id sid (\<lambda>q. q\<lparr>ir_revision := revision, ir_record := payload\<rparr>) (filter (\<lambda>r. now < ir_expires_at r) rows)"
proof -
  obtain payload where p: "state_id sid = Inr ()" "validate_state sid record = Inr payload" using assms by (auto simp: save_state_def rbind_Inr_iff)
  obtain x where x: "map_of record ''expires_at'' = Some (JInt x)" using validate_state_InrD [OF p(2)] by blast
  have f: "filter (\<lambda>r. \<not> ir_expires_at r \<le> now) rows = filter (\<lambda>r. now < ir_expires_at r) rows" by (simp add: not_le)
  have b: "now < x" "x \<le> now + 900" using assms p x by (auto simp: save_state_def split: if_split_asm)
  let ?live = "filter (\<lambda>r. now < ir_expires_at r) rows"
  have e: "(case t_get ir_session_id sid ?live of
      None \<Rightarrow> if expected \<noteq> None \<or> n \<le> length ?live then Inl (InvitationError ''invitation state cannot be created'')
        else Inr (1, ?live @ [\<lparr>ir_session_id = sid, ir_revision = 1, ir_expires_at = x, ir_record = payload\<rparr>])
    | Some r \<Rightarrow> if expected \<noteq> Some (ir_revision r) then Inl (InvitationError ''invitation state changed; resume again'')
        else (case stored_record r of None \<Rightarrow> Inl (ValueError ''not JSON'')
          | Some prior \<Rightarrow> rbind (replace_record prior record) (\<lambda>_. Inr (ir_revision r + 1, t_update ir_session_id sid
              (\<lambda>q. q\<lparr>ir_revision := ir_revision r + 1, ir_record := payload\<rparr>) ?live)))) = Inr (revision, rows')"
    using assms b by (simp add: save_state_def p x f [simplified] Let_def)
  show thesis
    by (rule that [OF p x b], use e in \<open>cases "t_get ir_session_id sid ?live"\<close>)
      (auto simp: rbind_Inr_iff split: if_split_asm option.split_asm)
qed

definition try_save :: "nat \<Rightarrow> string \<times> json_obj \<times> int option \<times> int \<Rightarrow> invitation_row list \<Rightarrow> invitation_row list" where
  "try_save n call rows = (case call of (sid, record, expected, now) \<Rightarrow>
     (case save_state n rows sid record expected now of Inl _ \<Rightarrow> rows | Inr (revision, rows') \<Rightarrow> rows'))"

lemma save_state_keeps:
  assumes "save_state n rows sid record expected now = Inr (revision, rows')" "store_ok n rows" "json_wf (JObj record)"
  shows "store_ok n rows' \<and> (\<forall>r \<in> set rows. now < ir_expires_at r \<longrightarrow> (\<exists>q \<in> set rows'. row_kept r q))"
proof -
  let ?live = "filter (\<lambda>r. now < ir_expires_at r) rows"
  have live: "t_keyed ir_session_id ?live" "length ?live \<le> n" "\<forall>r \<in> set ?live. row_ok r"
    using assms(2) by (auto simp: store_ok_def t_keyed_def distinct_map_filter intro: le_trans [OF length_filter_le])
  obtain payload x where s: "state_id sid = Inr ()" "validate_state sid record = Inr payload" "map_of record ''expires_at'' = Some (JInt x)"
    and c: "case t_get ir_session_id sid ?live of
       None \<Rightarrow> expected = None \<and> revision = 1 \<and> length ?live < n \<and>
         rows' = ?live @ [\<lparr>ir_session_id = sid, ir_revision = 1, ir_expires_at = x, ir_record = payload\<rparr>]
     | Some r \<Rightarrow> expected = Some (ir_revision r) \<and> revision = ir_revision r + 1 \<and> (\<exists>prior. stored_record r = Some prior \<and> replace_record prior record = Inr ()) \<and>
         rows' = t_update ir_session_id sid (\<lambda>q. q\<lparr>ir_revision := revision, ir_record := payload\<rparr>) ?live"
    by (rule save_state_InrD [OF assms(1)])
  have wf: "dict_wf record" and p: "payload = canonical_json_bytes record" using assms(3) validate_state_InrD [OF s(2)] by simp_all
  have new: "row_ok \<lparr>ir_session_id = sid, ir_revision = v, ir_expires_at = x, ir_record = payload\<rparr>" if "1 \<le> v" for v
    using that s(1) stored_canonical [OF assms(3), of sid v x] validate_state_canon [OF wf s(2)] s(3)
    by (simp add: row_ok_def p map_of_canon_obj [OF wf])
  show ?thesis
  proof (cases "t_get ir_session_id sid ?live")
    case None
    then have "\<not> t_has ir_session_id sid ?live" by (simp only: t_get_None_iff not_False_eq_True)
    with c live new [of 1] None show ?thesis by (auto simp: store_ok_def t_keyed_append1 intro: row_kept_refl)
  next
    case (Some r)
    have r: "r \<in> set ?live" "ir_session_id r = sid" using t_get_SomeD [OF Some] by simp_all
    obtain a where a: "stored_record r = Some (JObj a)" "map_of a ''expires_at'' = Some (JInt (ir_expires_at r))" "1 \<le> ir_revision r"
      using live(3) r by (auto simp: row_ok_def)
    define r' where "r' = \<lparr>ir_session_id = sid, ir_revision = ir_revision r + 1, ir_expires_at = x, ir_record = payload\<rparr>"
    have bind: "binding_kept a (canon_obj record)" using c Some a by (intro replace_record_binds) (use assms(3) in simp_all)
    then have "py_eq (get_or_null (canon_obj record) ''expires_at'') (JInt (ir_expires_at r))"
      using a(2) by (simp add: binding_kept_def BOUND_FIELDS_def get_or_null_def [of a])
    then have x: "x = ir_expires_at r" by (simp add: get_or_null_def map_of_canon_obj [OF wf] s(3) py_eq_def)
    have kept: "row_kept r r'" using bind a stored_canonical [OF assms(3)] by (auto simp: row_kept_def r'_def x r(2) p)
    have u: "r\<lparr>ir_revision := ir_revision r + 1, ir_record := payload\<rparr> = r'" by (cases r) (use r(2) x in \<open>simp add: r'_def\<close>)
    have unique: "q = r" if "q \<in> set ?live" "ir_session_id q = sid" for q using that r live(1) by (metis t_keyed_def distinct_map inj_onD)
    have rows': "rows' = map (\<lambda>q. if ir_session_id q = sid then r' else q) ?live"
      using c Some unique u by (auto simp: t_update_def)
    have "t_keyed ir_session_id rows'" using live(1) c Some by simp
    moreover have "\<forall>q \<in> set rows'. row_ok q" using live(3) new [of "ir_revision r + 1"] a(3) by (auto simp: rows' r'_def)
    ultimately have "store_ok n rows'" using live(2) by (simp add: store_ok_def rows')
    moreover have "\<exists>q \<in> set rows'. row_kept y q" if "y \<in> set rows" "now < ir_expires_at y" for y
      using that kept unique [of y] row_kept_refl [of y] by (cases "ir_session_id y = sid") (force simp: rows')+
    ultimately show ?thesis by blast
  qed
qed

lemma try_save_keeps:
  assumes "store_ok n rows" "json_wf (JObj (fst (snd call)))"
  shows "store_ok n (try_save n call rows) \<and> (\<forall>r \<in> set rows. snd (snd (snd call)) < ir_expires_at r \<longrightarrow> (\<exists>q \<in> set (try_save n call rows). row_kept r q))"
proof -
  obtain sid doc expected now where call: "call = (sid, doc, expected, now)" by (cases call) auto
  show ?thesis
  proof (cases "save_state n rows sid doc expected now")
    case (Inl x)
    then show ?thesis using assms(1) row_kept_refl by (auto simp: try_save_def call)
  next
    case (Inr x)
    then obtain revision rows' where "save_state n rows sid doc expected now = Inr (revision, rows')" by (cases x) simp
    then show ?thesis using save_state_keeps [of n rows sid doc expected now revision rows'] assms by (auto simp: try_save_def call)
  qed
qed

text \<open>C8. The recovery store keeps its bindings over every sequence of saves.

Any sequence of saves, failed ones included, by any callers keeps the store well formed: one row per session, at most
\<open>max_records\<close> rows, every row readable and valid, with the deadline of its record. A row that is not yet expired at any of the
saves stays; if it changed, its revision grew, so a writer that read an older revision is refused, and its identity,
its deadline, every bound non-null member and every staged frame are as they were.\<close>

theorem invitation_store_invariant:
  assumes "store_ok n rows" and "\<forall>(sid, record, expected, now) \<in> set calls. json_wf (JObj record)"
  shows "store_ok n (fold (try_save n) calls rows) \<and>
    (\<forall>r \<in> set rows. (\<forall>(sid, record, expected, now) \<in> set calls. now < ir_expires_at r) \<longrightarrow>
      (\<exists>q \<in> set (fold (try_save n) calls rows). row_kept r q))"
  using assms
proof (induction calls arbitrary: rows)
  case Nil
  then show ?case by (auto intro: row_kept_refl)
next
  case (Cons call calls)
  have s: "store_ok n (try_save n call rows)" "\<forall>r \<in> set rows. snd (snd (snd call)) < ir_expires_at r \<longrightarrow> (\<exists>q \<in> set (try_save n call rows). row_kept r q)"
    using try_save_keeps [OF Cons.prems(1), of call] Cons.prems(2) by (auto simp: case_prod_unfold)
  have "\<forall>(sid, record, expected, now) \<in> set calls. json_wf (JObj record)" using Cons.prems(2) by simp
  note IH = Cons.IH [OF s(1) this]
  have "\<exists>q \<in> set (fold (try_save n) calls (try_save n call rows)). row_kept r q"
    if r: "r \<in> set rows" "\<forall>(sid, record, expected, now) \<in> set (call # calls). now < ir_expires_at r" for r
  proof -
    obtain y where y: "y \<in> set (try_save n call rows)" "row_kept r y" using s(2) r by (auto simp: case_prod_unfold)
    then have "\<forall>(sid, record, expected, now) \<in> set calls. now < ir_expires_at y" using r(2) by (simp add: row_kept_def)
    then obtain q where "q \<in> set (fold (try_save n) calls (try_save n call rows))" "row_kept y q" using IH y(1) by blast
    then show ?thesis using row_kept_trans [OF y(2)] by blast
  qed
  with IH show ?case by simp
qed

definition example_state :: "string \<Rightarrow> json_obj" where
  "example_state phase = [(''version'', JInt 1), (''session_id'', JStr (encode_b64url (replicate 32 CHR ''h''))),
     (''local_node_id'', JStr (format_identifier Node 7)), (''role'', JStr ''source''), (''service'', JStr ''svc''), (''account'', JStr ''me''),
     (''expires_at'', JInt 900), (''code'', JStr ''skp1''), (''phase'', JStr phase), (''frames'', JObj [(''offer'', JStr ''Zg'')])]"

definition example_rows :: "invitation_row list" where
  "example_rows = [\<lparr>ir_session_id = encode_b64url (replicate 32 CHR ''h''), ir_revision = 1, ir_expires_at = 900,
     ir_record = canonical_json_bytes (example_state ''created'')\<rparr>]"

lemma example_saved:
  "save_state 64 [] (encode_b64url (replicate 32 CHR ''h'')) (example_state ''created'') None 100 = Inr (1, example_rows)"
  "json_wf (JObj (example_state ''created''))" "json_wf (JObj (example_state ''offered''))"
proof -
  let ?sid = "encode_b64url (replicate 32 CHR ''h'')"
  have s: "state_id ?sid = Inr ()" by (simp add: state_id_def b64url_text decode_b64url_encode rmap_error_def)
  have n: "\<exists>x. validate_identifier (format_identifier Node 7) Node f = Inr x" for f by (simp add: validate_identifier_format)
  have "length (canonical_json_bytes (example_state ''created'')) \<le> 1000" by code_simp
  then have l: "length (canonical_json_bytes (example_state ''created'')) \<le> MAX_STATE_BYTES" by (simp add: MAX_STATE_BYTES_def)
  have t: "scope_text (Some (JStr ''svc''))" "scope_text (Some (JStr ''me''))" by code_simp+
  have "validate_state ?sid (example_state ''created'') = Inr (canonical_json_bytes (example_state ''created''))"
    using l t n by (simp add: validate_state_def example_state_def validate_identifier_value_def rmap_error_def Let_def split: sum.split)
  then show "save_state 64 [] ?sid (example_state ''created'') None 100 = Inr (1, example_rows)"
    using s by (simp add: save_state_def example_rows_def Let_def) (simp add: example_state_def)
  show "json_wf (JObj (example_state ''created''))" by code_simp
  show "json_wf (JObj (example_state ''offered''))" by code_simp
qed

theorem invitation_store_invariant_witness:
  "\<exists>q \<in> set (fold (try_save 64)
     [(encode_b64url (replicate 32 CHR ''h''), example_state ''offered'', Some 1, 200),
      (encode_b64url (replicate 32 CHR ''h''), example_state ''offered'', Some 1, 300)] example_rows). row_kept (hd example_rows) q"
proof -
  have "store_ok 64 []" by (simp add: store_ok_def t_keyed_def)
  then have "store_ok 64 example_rows" using save_state_keeps [OF example_saved(1)] example_saved(2) by blast
  then show ?thesis
    using invitation_store_invariant [of 64 example_rows "[(encode_b64url (replicate 32 CHR ''h''), example_state ''offered'', Some 1, 200),
      (encode_b64url (replicate 32 CHR ''h''), example_state ''offered'', Some 1, 300)]"] example_saved(3)
    by (auto simp: example_rows_def simp del: fold_simps)
qed

text \<open>What a save stored is what the next read returns, with the revision that the save returned.\<close>

theorem save_state_read_back:
  assumes "save_state n rows sid record expected now = Inr (revision, rows')" "json_wf (JObj record)"
    and "map_of record ''local_node_id'' = Some (JStr node_id)"
  shows "read_state rows' sid node_id = Inr (revision, canon_obj record)"
proof -
  let ?live = "filter (\<lambda>r. now < ir_expires_at r) rows"
  obtain payload x where s: "state_id sid = Inr ()" "validate_state sid record = Inr payload" 
    and c: "case t_get ir_session_id sid ?live of
       None \<Rightarrow> expected = None \<and> revision = 1 \<and> length ?live < n \<and>
         rows' = ?live @ [\<lparr>ir_session_id = sid, ir_revision = 1, ir_expires_at = x, ir_record = payload\<rparr>]
     | Some r \<Rightarrow> expected = Some (ir_revision r) \<and> revision = ir_revision r + 1 \<and> (\<exists>prior. stored_record r = Some prior \<and> replace_record prior record = Inr ()) \<and>
         rows' = t_update ir_session_id sid (\<lambda>q. q\<lparr>ir_revision := revision, ir_record := payload\<rparr>) ?live"
    by (rule save_state_InrD [OF assms(1)])
  have wf: "dict_wf record" and p: "payload = canonical_json_bytes record" using assms(2) validate_state_InrD [OF s(2)] by simp_all
  have "\<exists>r. t_get ir_session_id sid rows' = Some r \<and> ir_revision r = revision \<and> ir_record r = payload"
    using c by (auto simp: t_get_append t_get_Cons t_get_update split: option.split_asm)
  then obtain r where r: "t_get ir_session_id sid rows' = Some r" "ir_revision r = revision" "ir_record r = payload" by blast
  then have "stored_record r = Some (JObj (canon_obj record))"
    using stored_canonical [OF assms(2), of "ir_session_id r" "ir_revision r" "ir_expires_at r"] by (simp add: stored_record_def p)
  then show ?thesis
    using s(1) r validate_state_canon [OF wf s(2)] assms(3) by (simp add: read_state_def rmap_error_def map_of_canon_obj [OF wf])
qed

subsection \<open>Mutual admission\<close>

lemma submit_retry:
  assumes "submit_transaction e ds t p = Inr r" "tx_transaction_id t \<notin> set (log_ids ds)" "admission_policy p"
  shows "submit_transaction e ds t (retry_policy p) = Inr r"
proof -
  have p: "po_persist_transaction p" "po_bootstrap_support_rows p" "\<not> po_ignore_duplicate p" using assms(3) by (simp_all add: admission_policy_def)
  have c: "complete_submission e d t (retry_policy p) = complete_submission e d t p" for d
    by (simp add: complete_submission_def retry_policy_def)
  have x: "transaction_exists a (tx_transaction_id t) \<longleftrightarrow> False" if "bootstrap_replay_support_rows ds [t] = Inr a" for a
    using assms(2) support_keeps(1) [OF bootstrap_extends [OF that]] by (simp add: transaction_exists_def t_has_def log_ids_def)
  have q: "po_persist_transaction (retry_policy p)" "po_bootstrap_support_rows (retry_policy p)" using p by (simp_all add: retry_policy_def)
  from assms(1) show ?thesis
    unfolding submit_transaction_def by (elim rbind_InrE) (auto simp: x p q c split: sum.split_asm py_error.split_asm)
qed

text \<open>What a submission appends to the log.\<close>

definition log_entries :: "datastore \<Rightarrow> (string \<times> string \<times> bytes) list" where
  "log_entries ds = map (\<lambda>r. (tr_transaction_id r, tr_transaction_type r, tr_payload r)) (ds_transactions ds)"

lemma submit_admission_log:
  assumes "submit_admission e p ds t = Inr ds'" "admission_policy p"
  shows "log_entries ds' = log_entries ds @ [(tx_transaction_id t, tx_transaction_type t, canonical_json_bytes (tx_payload t))]"
proof -
  have p: "po_persist_transaction p" "po_bootstrap_support_rows p" "\<not> po_ignore_duplicate p" "po_mark_applied p" "\<not> po_generate_outbound_envelopes p"
    using assms(2) by (simp_all add: admission_policy_def)
  from assms(1) obtain r where "submit_transaction e ds t p = Inr (r, ds')"
    unfolding submit_admission_def rmap_error_Inr by (elim rbind_InrE) auto
  then obtain a where s: "bootstrap_replay_support_rows ds [t] = Inr a"
    "(case insert_transaction a t of Inr ds2 \<Rightarrow> complete_submission e ds2 t p | Inl x \<Rightarrow> Inl x) = Inr (r, ds')"
    unfolding submit_transaction_def by (elim rbind_InrE) (simp add: p split: sum.split_asm py_error.split_asm)
  then obtain b where b0: "insert_transaction a t = Inr b" and c: "complete_submission e b t p = Inr (r, ds')" by (simp split: sum.split_asm)
  from b0 obtain hash where b: "b = a\<lparr>ds_transactions := ds_transactions a @ [transaction_to_row t hash]\<rparr>" by (rule insert_transaction_InrD)
  from c obtain d where d: "if po_apply_projection p then apply_transaction (pe_host e) b t = Inr d else d = b"
    "mark_transaction_applied (h_now (pe_host e)) d (tx_transaction_id t) = Inr ds'"
    unfolding complete_submission_def by (elim rbind_InrE) (simp add: p split: if_split_asm)
  have log: "ds_transactions d = ds_transactions b" using d(1) apply_transaction_keeps(1) by (cases "po_apply_projection p") auto
  have "log_entries ds' = log_entries d"
    using d(2) by (auto simp: mark_transaction_applied_def t_update_def log_entries_def split: option.split_asm if_split_asm)
  then show ?thesis using support_keeps(1) [OF bootstrap_extends [OF s(1)]] by (simp add: log_entries_def log b transaction_to_row_def)
qed

lemma log_ids_entries: "log_ids ds = map fst (log_entries ds)"
  by (simp add: log_ids_def log_entries_def)

lemma submit_stage_ok:
  assumes "map_of payload f = Some (JStr origin)" "deterministic_admission_transaction_id ty payload = Inr k" "is_identifier IdentifierType.Transaction k"
    "is_identifier Node origin" "ty \<noteq> []" "h_now (pe_host e) \<noteq> []" "admission_policy p" "k \<notin> set (log_ids ds)"
    and s: "submit_admission e p ds (local_tx e origin k ty payload) = Inr ds'"
  shows "submit_stage e (payload, ty, f, p) ds = Inr ds'"
proof -
  from s obtain r where "submit_transaction e ds (local_tx e origin k ty payload) p = Inr (r, ds')"
    unfolding submit_admission_def rmap_error_Inr by (elim rbind_InrE) auto
  from submit_retry [OF this _ assms(7)] assms(8)
  have "submit_transaction e ds (local_tx e origin k ty payload) (retry_policy p) = Inr (r, ds')" by (simp add: local_tx_def)
  then show ?thesis
    using plain_transaction_ok [OF assms(3-6), of payload]
    by (simp add: submit_stage_def node_member_def member_of_def assms(1,2) create_peer_admission_transaction_def)
qed

text \<open>A proof of a known node that is logged without being projected leaves the nodes and the groups as they are.\<close>

lemma logged_stage:
  assumes "submit_admission e p ds (local_tx e origin k ty payload) = Inr ds'" "admission_policy p" "\<not> po_apply_projection p"
    and "is_identifier Node origin" "t_has nd_node_id origin (ds_nodes ds)" "ty \<notin> {''secret.set'', ''secret.delete''}"
  shows "ds_nodes ds' = ds_nodes ds" "ds_node_private ds' = ds_node_private ds" "ds_service_group_nodes ds' = ds_service_group_nodes ds"
proof -
  let ?t = "local_tx e origin k ty payload"
  obtain b l where b: "support_extends ds b" "bootstrap_replay_support_rows ds [?t] = Inr b" "ds' = b\<lparr>ds_transactions := l\<rparr>"
  proof (rule submit_admission_InrE [OF assms(1,2)])
    fix a l d l' assume "support_extends ds a" "bootstrap_replay_support_rows ds [?t] = Inr a" "ds' = d\<lparr>ds_transactions := l'\<rparr>"
      "if po_apply_projection p then apply_transaction (pe_host e) (a\<lparr>ds_transactions := l\<rparr>) ?t = Inr d else d = a\<lparr>ds_transactions := l\<rparr>"
    then show thesis using assms(3) by (intro that [of a l']) simp_all
  qed
  have here: "t_insert_ignore nd_node_id (placeholder_node origin x) (ds_nodes ds) = ds_nodes ds" for x
    using assms(5) by (simp add: t_insert_ignore_def placeholder_node_def blank_node_def)
  show "ds_nodes ds' = ds_nodes ds"
    by (rule origin_support [OF assms(4,6), of ds e k payload]) (use b(2,3) here in auto)
  show "ds_node_private ds' = ds_node_private ds" "ds_service_group_nodes ds' = ds_service_group_nodes ds"
    using b(3) support_keeps(12,13) [OF b(1)] by simp_all
qed

lemma require_textD: "require_text p f x = Inr s \<Longrightarrow> map_of p f = Some (JStr s) \<and> s \<noteq> [] \<and> (x = None \<or> x = Some s)"
  by (auto simp: require_text_def split: option.split_asm json.split_asm if_split_asm)

lemma require_identifierD: "require_identifier p f t = Inr s \<Longrightarrow> map_of p f = Some (JStr s) \<and> is_identifier t s"
  by (auto simp: require_identifier_def rbind_Inr_iff rmap_error_Inr validate_identifier_iff is_identifier_iff dest!: require_textD)

lemma auth_public_keyD:
  assumes "auth_public_key h p kf af alg kind = Inr k"
  obtains t where "map_of p af = Some (JStr alg)" "map_of p kf = Some (JStr t)" "t \<noteq> []" "decode_b64url t = Inr k" "length k = 32"
    "if kind = ''signing'' then h_ed25519_key_ok h k else h_x25519_key_ok h k"
  using assms by (auto simp: auth_public_key_def rbind_Inr_iff rmap_error_Inr rguard_Inr_iff dest!: require_textD)

lemma verified_request:
  assumes "verify_admission_request_payload h p = Inr ()"
  obtains i n c sk ek where "map_of p ''request_id'' = Some (JStr i)" "is_identifier IdentifierType.Transaction i"
    "map_of p ''node_id'' = Some (JStr n)" "is_identifier Node n" "map_of p ''created_at'' = Some (JStr c)" "c \<noteq> []"
    "auth_public_key h p ''signing_public_key'' ''signing_algorithm'' ''ed25519'' ''signing'' = Inr sk"
    "auth_public_key h p ''encryption_public_key'' ''encryption_algorithm'' ''x25519'' ''encryption'' = Inr ek" "sk \<noteq> ek"
proof -
  from assms have "\<exists>i n c sk ek. require_identifier p ''request_id'' IdentifierType.Transaction = Inr i \<and> require_identifier p ''node_id'' Node = Inr n \<and>
    require_text p ''created_at'' None = Inr c \<and> auth_public_key h p ''signing_public_key'' ''signing_algorithm'' ''ed25519'' ''signing'' = Inr sk \<and>
    auth_public_key h p ''encryption_public_key'' ''encryption_algorithm'' ''x25519'' ''encryption'' = Inr ek \<and> sk \<noteq> ek"
    unfolding verify_admission_request_payload_def by (elim rbind_InrE) (simp add: rguard_Inr_iff)
  then obtain i n c sk ek where f: "require_identifier p ''request_id'' IdentifierType.Transaction = Inr i" "require_identifier p ''node_id'' Node = Inr n"
    "require_text p ''created_at'' None = Inr c" "auth_public_key h p ''signing_public_key'' ''signing_algorithm'' ''ed25519'' ''signing'' = Inr sk"
    "auth_public_key h p ''encryption_public_key'' ''encryption_algorithm'' ''x25519'' ''encryption'' = Inr ek" "sk \<noteq> ek" by blast
  from require_identifierD [OF f(1)] require_identifierD [OF f(2)] require_textD [OF f(3)] f(4-6) show thesis by (intro that [of i n c sk ek]) blast+
qed

lemma signed_request_texts:
  assumes "signed_admission_request_payload s entropy ds sa oc = Inr p"
    and f: "f \<in> {''requested_at'', ''service_address'', ''operator_description'', ''operator_comment''}"
  shows "\<exists>x. pj_optional_text p f = Inr x"
proof -
  from assms(1) obtain a :: identity_material and sg where "p = dict_set ''signature'' (JStr (encode_b64url sg)) (optional_member ''operator_comment'' oc (optional_member ''service_address'' sa
           [(''proof_version'', JInt ADMISSION_PROOF_VERSION), (''proof_type'', JStr PROOF_TYPE_REQUEST),
            (''request_id'', JStr (random_identifier IdentifierType.Transaction (fst entropy))),
            (''node_id'', JStr (im_node_id a)), (''signing_algorithm'', JStr ''ed25519''),
            (''signing_public_key'', JStr (encode_b64url (im_signing_public_key a))),
            (''encryption_algorithm'', JStr ''x25519''),
            (''encryption_public_key'', JStr (encode_b64url (im_encryption_public_key a))),
            (''created_at'', JStr (h_now (pe_host s))), (''nonce'', JStr (admission_nonce (snd entropy)))]))"
    unfolding signed_admission_request_payload_def sign_proof_def by (elim rbind_InrE) (rule that [OF sym], erule Inr_inject)
  with f show ?thesis by (auto simp: pj_optional_text_def payload_get_def)
qed

lemma request_applied:
  assumes v: "verify_admission_request_payload h (tx_payload t) = Inr ()"
    and texts: "\<forall>f \<in> {''requested_at'', ''service_address'', ''operator_description'', ''operator_comment''}. \<exists>x. pj_optional_text (tx_payload t) f = Inr x"
    and n: "map_of (tx_payload t) ''node_id'' = Some (JStr n)"
    and keys: "map_of (tx_payload t) ''signing_public_key'' = Some (JStr (encode_b64url sk))" "map_of (tx_payload t) ''encryption_public_key'' = Some (JStr (encode_b64url ek))"
    and new: "case t_get nd_node_id n (ds_nodes ds) of None \<Rightarrow> True | Some r \<Rightarrow> is_replay_support_placeholder r"
  obtains d r where "apply_peer_admission_request h ds t = Inr d" "t_get nd_node_id n (ds_nodes d) = Some r" "nd_state r = Some ADMISSION_STATE_REQUESTED"
    "nd_signing_public_key r = Some sk" "nd_encryption_public_key r = Some ek" "\<forall>m. m \<noteq> n \<longrightarrow> t_get nd_node_id m (ds_nodes d) = t_get nd_node_id m (ds_nodes ds)"
    "ds_node_private d = ds_node_private ds" "ds_service_group_nodes d = ds_service_group_nodes ds"
proof -
  obtain c sk' ek' where f: "is_identifier Node n" "map_of (tx_payload t) ''created_at'' = Some (JStr c)" "c \<noteq> []"
    "auth_public_key h (tx_payload t) ''signing_public_key'' ''signing_algorithm'' ''ed25519'' ''signing'' = Inr sk'"
    "auth_public_key h (tx_payload t) ''encryption_public_key'' ''encryption_algorithm'' ''x25519'' ''encryption'' = Inr ek'" "sk' \<noteq> ek'"
    by (rule verified_request [OF v]) (use n in auto)
  have s: "map_of (tx_payload t) ''signing_algorithm'' = Some (JStr ''ed25519'')" "length sk = 32" "h_ed25519_key_ok h sk" "sk' = sk" "encode_b64url sk \<noteq> []"
    by (rule auth_public_keyD [OF f(4)], use keys decode_b64url_encode in auto)+
  have x: "map_of (tx_payload t) ''encryption_algorithm'' = Some (JStr ''x25519'')" "length ek = 32" "h_x25519_key_ok h ek" "ek' = ek" "encode_b64url ek \<noteq> []"
    by (rule auth_public_keyD [OF f(5)], use keys decode_b64url_encode in auto)+
  have nn: "n \<noteq> []" using f(1) by (rule is_identifier_not_Nil)
  obtain ra sa od oc where o': "pj_optional_text (tx_payload t) ''requested_at'' = Inr ra" "pj_optional_text (tx_payload t) ''service_address'' = Inr sa"
    "pj_optional_text (tx_payload t) ''operator_description'' = Inr od" "pj_optional_text (tx_payload t) ''operator_comment'' = Inr oc" using texts by auto
  define at where "at = (if truthy ra then the ra else c)"
  define row where "row = admission_request_row n sk ''ed25519'' ek ''x25519'' sa od at oc"
  define d where "d = (ensure_peer_admission_group ds)\<lparr>ds_nodes := t_upsert nd_node_id row (admission_request_update row) (ds_nodes ds)\<rparr>"
  have req: "pj_validate_required_fields (tx_payload t) REQUEST_REQUIRED_FIELDS = Inr ()"
    using n keys s(1) x(1) by (auto simp: pj_validate_required_fields_def REQUEST_REQUIRED_FIELDS_def dict_has_iff split: option.split dest!: find_Some_iff [THEN iffD1])
  have "apply_peer_admission_request h ds t = Inr d"
    using s x f(2,3,6) nn new
    by (simp add: apply_peer_admission_request_def Let_def req pj_required_text_def payload_get_def n keys required_public_key_def decode_b64url_encode rmap_error_def
        validate_signing_public_key_def validate_encryption_public_key_def o' rguard_def d_def row_def at_def)
  moreover define r where "r = (case t_get nd_node_id n (ds_nodes ds) of None \<Rightarrow> row | Some q \<Rightarrow> admission_request_update row q)"
  have k: "nd_node_id row = n" "\<And>q. nd_node_id (admission_request_update row q) = nd_node_id q"
    by (simp_all add: row_def admission_request_row_def admission_request_update_def)
  have get: "t_get nd_node_id m (ds_nodes d) = (if m = n then Some r else t_get nd_node_id m (ds_nodes ds))" for m
    by (simp add: d_def r_def t_get_upsert [of nd_node_id "admission_request_update row", OF k(2)] k(1))
  moreover have "nd_state r = Some ADMISSION_STATE_REQUESTED" "nd_signing_public_key r = Some sk" "nd_encryption_public_key r = Some ek"
    by (simp_all add: r_def row_def admission_request_row_def admission_request_update_def split: option.split)
  ultimately show thesis by (intro that [of d r]) (simp_all add: d_def ensure_peer_admission_group_def)
qed

text \<open>No logged request has the identifier, and every logged request can be read.\<close>

definition request_unused :: "datastore \<Rightarrow> string \<Rightarrow> bool" where
  "request_unused ds i \<longleftrightarrow> (\<forall>(k, ty, payload) \<in> set (log_entries ds). ty = PROOF_TYPE_REQUEST \<longrightarrow>
     (\<exists>p. load_canonical_json payload = Inr p \<and> map_of p ''request_id'' \<noteq> Some (JStr i)))"

lemma request_auth:
  assumes v: "verify_admission_request_payload h p = Inr ()" and n: "map_of p ''node_id'' = Some (JStr n)" and i: "map_of p ''request_id'' = Some (JStr i)"
    and new: "request_unused ds i"
  shows "validate_authenticated_transaction h ds (local_tx e n k PROOF_TYPE_REQUEST p) = Inr ()"
proof -
  have ne: "n \<noteq> []" "i \<noteq> []" by (rule verified_request [OF v]; use n i is_identifier_not_Nil in auto)+
  have "\<forall>r \<in> set rows. tr_transaction_type r = PROOF_TYPE_REQUEST \<longrightarrow> (\<exists>p. load_canonical_json (tr_payload r) = Inr p \<and> map_of p ''request_id'' \<noteq> Some (JStr i)) \<Longrightarrow>
      reused_request k i rows = Inr ()" for rows by (induction rows) auto
  then have "reused_request k i (ds_transactions ds) = Inr ()" using new by (simp add: request_unused_def log_entries_def)
  then show ?thesis
    by (simp add: validate_authenticated_transaction_def verify_peer_admission_transaction_def local_tx_def v require_text_def n i ne reject_reused_request_id_def)
      (simp add: PROOF_TYPE_REQUEST_def starts_with_def)
qed

lemma logged_request_matches:
  assumes "request_unused ds j" "json_wf (JObj p)" "map_of p ''node_id'' = Some (JStr n)" "map_of p ''request_id'' = Some (JStr i)"
    and "log_entries ds' = log_entries ds @ xs" "(k, PROOF_TYPE_REQUEST, canonical_json_bytes p) \<in> set xs"
    and "\<forall>(k, ty, payload) \<in> set xs. ty = PROOF_TYPE_REQUEST \<longrightarrow> (\<exists>q. load_canonical_json payload = Inr q)"
  shows "require_matching_request ds' n i = Inr ()"
proof -
  have p: "load_canonical_json (canonical_json_bytes p) = Inr (canon_obj p)" "map_of (canon_obj p) ''node_id'' = Some (JStr n)"
    "map_of (canon_obj p) ''request_id'' = Some (JStr i)"
    using load_canonical_json_bytes [OF assms(2)] assms(2-4) by (simp_all add: map_of_canon_obj)
  have all: "\<exists>q. load_canonical_json payload = Inr q" if "(k, PROOF_TYPE_REQUEST, payload) \<in> set (log_entries ds')" for k payload
    using that assms(5) bspec [OF assms(1) [unfolded request_unused_def], of "(k, PROOF_TYPE_REQUEST, payload)"]
      bspec [OF assms(7), of "(k, PROOF_TYPE_REQUEST, payload)"] by auto
  have "(k, PROOF_TYPE_REQUEST, canonical_json_bytes p) \<in> set (log_entries ds')" using assms(5,6) by simp
  then obtain r where r: "r \<in> set (ds_transactions ds')" "tr_transaction_type r = PROOF_TYPE_REQUEST" "tr_payload r = canonical_json_bytes p"
    by (auto simp: log_entries_def)
  show ?thesis
    unfolding require_matching_request_def
  proof (rule find_request_total)
    show "\<forall>r \<in> set (ds_transactions ds'). tr_transaction_type r = PROOF_TYPE_REQUEST \<longrightarrow> (\<exists>p. load_canonical_json (tr_payload r) = Inr p)"
    proof (intro ballI impI)
      fix r assume "r \<in> set (ds_transactions ds')" "tr_transaction_type r = PROOF_TYPE_REQUEST"
      then have "(tr_transaction_id r, PROOF_TYPE_REQUEST, tr_payload r) \<in> set (log_entries ds')" by (auto simp: log_entries_def intro!: image_eqI [of _ _ r])
      then show "\<exists>p. load_canonical_json (tr_payload r) = Inr p" by (rule all)
    qed
    show "\<exists>r \<in> set (ds_transactions ds'). tr_transaction_type r = PROOF_TYPE_REQUEST \<and> (\<exists>p. load_canonical_json (tr_payload r) = Inr p \<and>
      map_of p ''node_id'' = Some (JStr n) \<and> map_of p ''request_id'' = Some (JStr i))" using r p by auto
  qed
qed

lemma request_stage:
  assumes v: "verify_admission_request_payload (pe_host e) p = Inr ()"
    and texts: "\<forall>f \<in> {''requested_at'', ''service_address'', ''operator_description'', ''operator_comment''}. \<exists>x. pj_optional_text p f = Inr x"
    and f: "map_of p ''node_id'' = Some (JStr n)" "map_of p ''request_id'' = Some (JStr i)" "map_of p ''signing_public_key'' = Some (JStr (encode_b64url sk))"
      "map_of p ''encryption_public_key'' = Some (JStr (encode_b64url ek))"
    and new: "request_unused ds i" "t_get nd_node_id n (ds_nodes ds) = None" "k \<notin> set (log_ids ds)" and k: "is_identifier IdentifierType.Transaction k"
    and ne: "h_now (pe_host e) \<noteq> []"
  obtains ds' r where "submit_admission e PEER_ADMISSION_LOCAL_POLICY ds (local_tx e n k PROOF_TYPE_REQUEST p) = Inr ds'"
    "t_get nd_node_id n (ds_nodes ds') = Some r" "nd_state r = Some ADMISSION_STATE_REQUESTED" "nd_signing_public_key r = Some sk"
    "nd_encryption_public_key r = Some ek" "\<forall>m. m \<noteq> n \<longrightarrow> t_get nd_node_id m (ds_nodes ds') = t_get nd_node_id m (ds_nodes ds)"
    "ds_node_private ds' = ds_node_private ds" "ds_service_group_nodes ds' = ds_service_group_nodes ds"
proof -
  let ?t = "local_tx e n k PROOF_TYPE_REQUEST p"
  have n: "is_identifier Node n" by (rule verified_request [OF v]) (use f(1) in auto)
  have t: "tx_payload ?t = p" by (simp add: local_tx_def)
  have ty: "PROOF_TYPE_REQUEST \<noteq> []" "PROOF_TYPE_REQUEST \<notin> {''secret.set'', ''secret.delete''}" by (simp_all add: PROOF_TYPE_REQUEST_def)
  have app: "apply_transaction (pe_host e) d ?t = apply_peer_admission_request (pe_host e) d ?t" for d
    by (simp add: apply_transaction_def local_tx_def PROOF_TYPE_REQUEST_def)
  have place: "case t_get nd_node_id n (t_insert_ignore nd_node_id (placeholder_node n g) (ds_nodes ds)) of None \<Rightarrow> True | Some r \<Rightarrow> is_replay_support_placeholder r" for g
    using new(2) by (simp add: t_get_insert_ignore placeholder_node_def blank_node_def is_replay_support_placeholder_def bytes_or_empty_def or_empty_def)
  note applied = request_applied [of "pe_host e" ?t, unfolded t, OF v texts f(1,3,4)]
  obtain ds' where ds': "submit_admission e PEER_ADMISSION_LOCAL_POLICY ds ?t = Inr ds'"
  proof (rule submit_admission_succeeds [OF k n ty(1) ne request_auth [OF v f(1,2) new(1)] new(3), of PEER_ADMISSION_LOCAL_POLICY])
    fix o' c g j l
    show "\<exists>d. apply_transaction (pe_host e) (ds\<lparr>ds_organizations := o', ds_clients := c, ds_peer_groups := g,
        ds_nodes := t_insert_ignore nd_node_id (placeholder_node n j) (ds_nodes ds), ds_transactions := l\<rparr>) ?t = Inr d"
      unfolding app by (rule applied [of "ds\<lparr>ds_organizations := o', ds_clients := c, ds_peer_groups := g,
        ds_nodes := t_insert_ignore nd_node_id (placeholder_node n j) (ds_nodes ds), ds_transactions := l\<rparr>"]) (use place in auto)
  qed (use ty(2) in simp_all)
  obtain b l d l' where b: "support_extends ds b" "bootstrap_replay_support_rows ds [?t] = Inr b" "ds' = d\<lparr>ds_transactions := l'\<rparr>"
    "apply_peer_admission_request (pe_host e) (b\<lparr>ds_transactions := l\<rparr>) ?t = Inr d"
    by (rule submit_admission_InrE [OF ds' admission_policies(1), unfolded app]) simp
  obtain g where g: "ds_nodes b = t_insert_ignore nd_node_id (placeholder_node n g) (ds_nodes ds)"
    by (rule origin_support [OF n ty(2), of ds e k p]) (use b(2) that in auto)
  have other: "t_get nd_node_id m (ds_nodes b) = t_get nd_node_id m (ds_nodes ds)" if "m \<noteq> n" for m
    using that by (simp add: g t_get_insert_ignore placeholder_node_def blank_node_def split: option.split)
  show thesis
  proof (rule applied [of "b\<lparr>ds_transactions := l\<rparr>"])
    show "case t_get nd_node_id n (ds_nodes (b\<lparr>ds_transactions := l\<rparr>)) of None \<Rightarrow> True | Some r \<Rightarrow> is_replay_support_placeholder r"
      using place [of g] by (simp add: g)
    fix d' r assume d: "apply_peer_admission_request (pe_host e) (b\<lparr>ds_transactions := l\<rparr>) ?t = Inr d'" "t_get nd_node_id n (ds_nodes d') = Some r"
      "nd_state r = Some ADMISSION_STATE_REQUESTED" "nd_signing_public_key r = Some sk" "nd_encryption_public_key r = Some ek"
      "\<forall>m. m \<noteq> n \<longrightarrow> t_get nd_node_id m (ds_nodes d') = t_get nd_node_id m (ds_nodes (b\<lparr>ds_transactions := l\<rparr>))"
      "ds_node_private d' = ds_node_private (b\<lparr>ds_transactions := l\<rparr>)" "ds_service_group_nodes d' = ds_service_group_nodes (b\<lparr>ds_transactions := l\<rparr>)"
    have "d' = d" using d(1) b(4) by simp
    then show thesis using d(2-8) b(3) support_keeps(12,13) [OF b(1)] other by (intro that [OF ds', of r]) simp_all
  qed
qed

lemma accept_fields:
  assumes "signed_admission_decision_payload s entropy ds PROOF_TYPE_ACCEPT n i oc dn gs m = Inr p" "load_sqlite_node_identity_material s ds = Inr a" "identity_law s r a"
  shows "\<forall>k. k \<noteq> ''signature'' \<longrightarrow> map_of p k = map_of (decision_base s entropy a PROOF_TYPE_ACCEPT n i oc dn gs m) k"
    "m \<in> set AUTHORIZATION_MODES" "m = AUTHORIZATION_MODE_ALLOW_LIST \<or> gs = []" "m = AUTHORIZATION_MODE_ALLOW_LIST \<longrightarrow> (\<forall>g \<in> set gs. is_identifier Service_group g)"
proof -
  obtain mode where f: "sign_proof s a (decision_base s entropy a PROOF_TYPE_ACCEPT n i oc dn gs mode) = Inr p"
    "mode \<in> set AUTHORIZATION_MODES" "mode = AUTHORIZATION_MODE_ALLOW_LIST \<or> gs = []"
    "mode = AUTHORIZATION_MODE_ALLOW_LIST \<longrightarrow> validate_service_group_ids gs = Inr ()" "mode = m"
    by (rule signed_decision_form [OF assms(1,2)]) auto
  show "\<forall>k. k \<noteq> ''signature'' \<longrightarrow> map_of p k = map_of (decision_base s entropy a PROOF_TYPE_ACCEPT n i oc dn gs m) k"
    by (rule sign_proof_ok [OF assms(3) decision_base_unsigned, of s entropy a PROOF_TYPE_ACCEPT n i oc dn gs m]) (use f in auto)
  show "m \<in> set AUTHORIZATION_MODES" "m = AUTHORIZATION_MODE_ALLOW_LIST \<or> gs = []" "m = AUTHORIZATION_MODE_ALLOW_LIST \<longrightarrow> (\<forall>g \<in> set gs. is_identifier Service_group g)"
    using f(2-5) validated_groups by auto
qed

lemma decision_verified:
  assumes "\<forall>k. k \<noteq> ''signature'' \<longrightarrow> map_of p k = map_of (decision_base s entropy a PROOF_TYPE_ACCEPT n i oc dn [scope] AUTHORIZATION_MODE_ALLOW_LIST) k"
    and "verify_admission_decision_signature h p = Inr ()"
    and "map_of signer ''node_id'' = Some (JStr (im_node_id a))" "map_of signer ''signing_public_key'' = Some (JStr (encode_b64url (im_signing_public_key a)))"
      "map_of signer ''encryption_public_key'' = Some (JStr (encode_b64url (im_encryption_public_key a)))"
    and "map_of subject ''node_id'' = Some (JStr n)" "map_of subject ''request_id'' = Some (JStr i)"
  shows "verify_invitation_decision h p signer subject scope = Inr ()"
  using decision_base_fields [OF assms(1)]
  by (simp add: verify_invitation_decision_def member_of_def assms(2-) get_or_null_def rmap_error_def AUTHORIZATION_MODE_ALLOW_LIST_def)

text \<open>The proofs that two nodes exchange about each other, \<open>e\<close> with the identity \<open>a\<close> and \<open>s\<close> with \<open>b\<close>.\<close>

definition invitation_proofs ::
  "peer_env \<Rightarrow> datastore \<Rightarrow> identity_material \<Rightarrow> peer_env \<Rightarrow> datastore \<Rightarrow> identity_material \<Rightarrow> string \<Rightarrow> json_obj \<Rightarrow> json_obj \<Rightarrow> json_obj \<Rightarrow> json_obj \<Rightarrow> bool" where
  "invitation_proofs e ds a s ds0 b scope lr rr ld rd \<longleftrightarrow>
     (\<exists>en1 en2 en3 en4 i j sa oc sa' oc' dc dn dc' dn'. signed_admission_request_payload e en1 ds sa oc = Inr lr \<and>
        signed_admission_request_payload s en2 ds0 sa' oc' = Inr rr \<and> map_of lr ''request_id'' = Some (JStr i) \<and> map_of rr ''request_id'' = Some (JStr j) \<and>
        signed_admission_decision_payload e en3 ds PROOF_TYPE_ACCEPT (im_node_id b) j dc dn [scope] AUTHORIZATION_MODE_ALLOW_LIST = Inr ld \<and>
        signed_admission_decision_payload s en4 ds0 PROOF_TYPE_ACCEPT (im_node_id a) i dc' dn' [scope] AUTHORIZATION_MODE_ALLOW_LIST = Inr rd \<and>
        (\<forall>en \<in> {en1, en2, en3, en4}. snd en \<noteq> []))"

lemma deterministic_admission_ok: "deterministic_admission_transaction_id ty p = Inr k \<Longrightarrow> is_identifier IdentifierType.Transaction k"
  unfolding deterministic_admission_transaction_id_def by (elim rbind_InrE) (erule deterministic_identifier_ok)

text \<open>A decision of \<open>s\<close> about a request that is logged here, with the identifier of its transaction.\<close>

lemma decision_stage:
  assumes p: "signed_admission_decision_payload s en ds0 PROOF_TYPE_ACCEPT n i oc dn gs m = Inr p" "load_sqlite_node_identity_material s ds0 = Inr a" "identity_law s e a"
    "h_now (pe_host s) \<noteq> []" "snd en \<noteq> []" "is_identifier Node n" "is_identifier IdentifierType.Transaction i" "require_matching_request ds n i = Inr ()"
    and k: "deterministic_admission_transaction_id PROOF_TYPE_ACCEPT p = Inr k"
  shows "validate_authenticated_transaction (pe_host e) ds (local_tx e (im_node_id a) k PROOF_TYPE_ACCEPT p) = Inr ()"
    "map_of p ''signer_node_id'' = Some (JStr (im_node_id a))"
proof -
  obtain k' where k': "deterministic_identifier IdentifierType.Transaction ''peer.admission''
      (PROOF_TYPE_ACCEPT @ NUL @ random_identifier IdentifierType.Transaction (fst en)) = Inr k'" using deterministic_total by blast
  note d = decision_accepted [OF p k']
  have "k' = k" using d(2) k by simp
  then show "validate_authenticated_transaction (pe_host e) ds (local_tx e (im_node_id a) k PROOF_TYPE_ACCEPT p) = Inr ()"
    "map_of p ''signer_node_id'' = Some (JStr (im_node_id a))" using d(3,5) by simp_all
qed

text \<open>The four stages, one after the other, on a datastore that does not know the other node.\<close>

lemma stages_succeed:
  assumes lr: "verify_admission_request_payload (pe_host e) lr = Inr ()" "map_of lr ''node_id'' = Some (JStr (im_node_id a))" "map_of lr ''request_id'' = Some (JStr i)"
      "json_wf (JObj lr)"
    and rr: "verify_admission_request_payload (pe_host e) rr = Inr ()" "map_of rr ''node_id'' = Some (JStr (im_node_id b))" "map_of rr ''request_id'' = Some (JStr j)"
      "map_of rr ''signing_public_key'' = Some (JStr (encode_b64url sk))" "map_of rr ''encryption_public_key'' = Some (JStr (encode_b64url ek))" "json_wf (JObj rr)"
      "\<forall>f \<in> {''requested_at'', ''service_address'', ''operator_description'', ''operator_comment''}. \<exists>x. pj_optional_text rr f = Inr x"
    and a: "load_sqlite_node_identity_material e ds = Inr a" "identity_law e e a" and b: "load_sqlite_node_identity_material s ds0 = Inr b" "identity_law s e b"
    and ne: "h_now (pe_host e) \<noteq> []" "h_now (pe_host s) \<noteq> []" "snd en3 \<noteq> []" "snd en4 \<noteq> []"
    and ld: "signed_admission_decision_payload e en3 ds PROOF_TYPE_ACCEPT (im_node_id b) j dc dn gs mode = Inr ld"
    and rd: "signed_admission_decision_payload s en4 ds0 PROOF_TYPE_ACCEPT (im_node_id a) i dc' dn' gs' mode' = Inr rd"
    and mode: "\<forall>g \<in> set gs. is_identifier Service_group g"
    and new: "t_get nd_node_id (im_node_id b) (ds_nodes ds) = None" "request_unused ds i" "request_unused ds j" "i \<noteq> j" "im_node_id a \<noteq> im_node_id b"
    and k: "deterministic_admission_transaction_id PROOF_TYPE_REQUEST lr = Inr k1" "deterministic_admission_transaction_id PROOF_TYPE_REQUEST rr = Inr k2"
      "deterministic_admission_transaction_id PROOF_TYPE_ACCEPT ld = Inr k3" "deterministic_admission_transaction_id PROOF_TYPE_ACCEPT rd = Inr k4"
      "distinct [k1, k2, k3, k4]" "set [k1, k2, k3, k4] \<inter> set (log_ids ds) = {}"
  obtains ds' r where "rfold (submit_stage e)
           [(lr, PROOF_TYPE_REQUEST, ''node_id'', PEER_ADMISSION_OUTBOUND_REQUEST_POLICY),
            (rr, PROOF_TYPE_REQUEST, ''node_id'', PEER_ADMISSION_LOCAL_POLICY),
            (ld, PROOF_TYPE_ACCEPT, ''signer_node_id'', PEER_ADMISSION_LOCAL_POLICY),
            (rd, PROOF_TYPE_ACCEPT, ''signer_node_id'', PEER_ADMISSION_INBOUND_DECISION_POLICY)] ds = Inr ds'"
    "t_get nd_node_id (im_node_id b) (ds_nodes ds') = Some r" "nd_state r = Some ADMISSION_STATE_ACTIVE" "nd_authorization_mode r = mode"
    "nd_signing_public_key r = Some sk" "nd_encryption_public_key r = Some ek"
    "\<forall>m. m \<noteq> im_node_id b \<longrightarrow> t_get nd_node_id m (ds_nodes ds') = t_get nd_node_id m (ds_nodes ds)"
    "set (registry_service_group_ids ds' (im_node_id b)) = set (registry_service_group_ids ds (im_node_id b)) \<union> set gs"
    "ds_node_private ds' = ds_node_private ds" "log_ids ds' = log_ids ds @ [k1, k2, k3, k4]"
proof -
  have idn: "is_identifier Node (im_node_id a)" "is_identifier Node (im_node_id b)" using a(2) b(2) by (simp_all add: identity_law_def)
  have idt: "is_identifier IdentifierType.Transaction i" "is_identifier IdentifierType.Transaction j"
    by (rule verified_request [OF lr(1)], use lr(3) in auto) (rule verified_request [OF rr(1)], use rr(3) in auto)
  note idk = k(1-4) [THEN deterministic_admission_ok]
  have ty: "PROOF_TYPE_REQUEST \<noteq> []" "PROOF_TYPE_ACCEPT \<noteq> []" "PROOF_TYPE_REQUEST \<notin> {''secret.set'', ''secret.delete''}" "PROOF_TYPE_ACCEPT \<notin> {''secret.set'', ''secret.delete''}"
    by (simp_all add: PROOF_TYPE_REQUEST_def PROOF_TYPE_ACCEPT_def)
  have here: "t_has nd_node_id (im_node_id a) (ds_nodes ds)" by (rule loaded_node(1) [OF a(1)])
  let ?e1 = "(k1, PROOF_TYPE_REQUEST, canonical_json_bytes lr)" and ?e2 = "(k2, PROOF_TYPE_REQUEST, canonical_json_bytes rr)"
    and ?e3 = "(k3, PROOF_TYPE_ACCEPT, canonical_json_bytes ld)" and ?e4 = "(k4, PROOF_TYPE_ACCEPT, canonical_json_bytes rd)"
  have fresh: "k1 \<notin> set (log_ids ds)" using k(6) by simp
  obtain d1 where d1: "submit_admission e PEER_ADMISSION_OUTBOUND_REQUEST_POLICY ds (local_tx e (im_node_id a) k1 PROOF_TYPE_REQUEST lr) = Inr d1"
    by (rule submit_admission_succeeds [OF idk(1) idn(1) ty(1) ne(1) request_auth [OF lr(1-3) new(2)] fresh _ ty(3), of PEER_ADMISSION_OUTBOUND_REQUEST_POLICY]) simp_all
  note n1 = logged_stage [OF d1 admission_policies(2,6) idn(1) here ty(3)]
  have l1: "log_entries d1 = log_entries ds @ [?e1]" using submit_admission_log [OF d1 admission_policies(2)] by (simp add: local_tx_def)
  have "request_unused d1 j"
    using new(3,4) load_canonical_json_bytes [OF lr(4)] map_of_canon_obj [of lr "''request_id''"] lr(3,4) by (auto simp: request_unused_def l1)
  moreover have "t_get nd_node_id (im_node_id b) (ds_nodes d1) = None" using new(1) n1(1) by simp
  moreover have f2: "k2 \<notin> set (log_ids d1)" using k(5,6) by (auto simp: log_ids_entries l1)
  ultimately obtain d2 r2 where d2: "submit_admission e PEER_ADMISSION_LOCAL_POLICY d1 (local_tx e (im_node_id b) k2 PROOF_TYPE_REQUEST rr) = Inr d2"
    "t_get nd_node_id (im_node_id b) (ds_nodes d2) = Some r2" "nd_state r2 = Some ADMISSION_STATE_REQUESTED" "nd_signing_public_key r2 = Some sk"
    "nd_encryption_public_key r2 = Some ek" "\<forall>m. m \<noteq> im_node_id b \<longrightarrow> t_get nd_node_id m (ds_nodes d2) = t_get nd_node_id m (ds_nodes d1)"
    "ds_node_private d2 = ds_node_private d1" "ds_service_group_nodes d2 = ds_service_group_nodes d1"
    by (rule request_stage [OF rr(1,7,2-5)]) (use idk(2) ne(1) in simp_all)
  have l2: "log_entries d2 = log_entries ds @ [?e1, ?e2]" using submit_admission_log [OF d2(1) admission_policies(1)] by (simp add: local_tx_def l1)
  have readable: "\<forall>(k, ty, payload) \<in> set [?e1, ?e2]. ty = PROOF_TYPE_REQUEST \<longrightarrow> (\<exists>q. load_canonical_json payload = Inr q)"
    using load_canonical_json_bytes [OF lr(4)] load_canonical_json_bytes [OF rr(6)] by simp
  have "require_matching_request d2 (im_node_id b) j = Inr ()"
    by (rule logged_request_matches [OF new(2) rr(6,2,3) l2 _ readable, of k2]) simp
  note v3 = decision_stage [OF ld a ne(1,3) idn(2) idt(2) this k(3)]
  note p3 = accept_fields [OF ld a]
  have f3: "k3 \<notin> set (log_ids d2)" using k(5,6) by (auto simp: log_ids_entries l2)
  have "t_has nd_node_id (im_node_id a) (ds_nodes d2)" using here new(5) d2(6) n1(1) by (simp add: t_has_iff_get)
  moreover have "node_state d2 (im_node_id b) = Some ADMISSION_STATE_REQUESTED" by (simp add: node_state_def d2(2,3) or_empty_def)
  ultimately obtain d3 r3 where d3: "submit_admission e PEER_ADMISSION_LOCAL_POLICY d2 (local_tx e (im_node_id a) k3 PROOF_TYPE_ACCEPT ld) = Inr d3"
    and r3: "t_get nd_node_id (im_node_id b) (ds_nodes d3) = Some r3" "nd_state r3 = Some ADMISSION_STATE_ACTIVE" "nd_authorization_mode r3 = mode"
      "nd_signing_public_key r3 = Some sk" "nd_encryption_public_key r3 = Some ek"
    and n3: "\<forall>m. m \<noteq> im_node_id b \<longrightarrow> t_get nd_node_id m (ds_nodes d3) = t_get nd_node_id m (ds_nodes d2)"
      "set (registry_service_group_ids d3 (im_node_id b)) = set (registry_service_group_ids d2 (im_node_id b)) \<union> set gs" "ds_node_private d3 = ds_node_private d2"
    by (elim accept_submitted [OF _ idn(1) ne(1) v3(1) idk(3) f3 is_identifier_not_Nil [OF idn(2)] _ p3(1-3) mode, where thesis = thesis])
      (use d2(2,4,5) in auto)
  have l3: "log_entries d3 = log_entries ds @ [?e1, ?e2, ?e3]" using submit_admission_log [OF d3 admission_policies(1)] by (simp add: local_tx_def l2)
  have "require_matching_request d3 (im_node_id a) i = Inr ()"
    by (rule logged_request_matches [OF new(2) lr(4,2,3) l3, of k1]) (use readable in \<open>auto simp: PROOF_TYPE_REQUEST_def PROOF_TYPE_ACCEPT_def\<close>)
  note v4 = decision_stage [OF rd b ne(2,4) idn(1) idt(1) this k(4)]
  have f4: "k4 \<notin> set (log_ids d3)" using k(5,6) by (auto simp: log_ids_entries l3)
  obtain d4 where d4: "submit_admission e PEER_ADMISSION_INBOUND_DECISION_POLICY d3 (local_tx e (im_node_id b) k4 PROOF_TYPE_ACCEPT rd) = Inr d4"
    by (rule submit_admission_succeeds [OF idk(4) idn(2) ty(2) ne(1) v4(1) f4 _ ty(4), of PEER_ADMISSION_INBOUND_DECISION_POLICY]) simp_all
  have "t_has nd_node_id (im_node_id b) (ds_nodes d3)" by (simp add: t_has_iff_get r3(1))
  note n4 = logged_stage [OF d4 admission_policies(3,7) idn(2) this ty(4)]
  have l4: "log_entries d4 = log_entries ds @ [?e1, ?e2, ?e3, ?e4]" using submit_admission_log [OF d4 admission_policies(3)] by (simp add: local_tx_def l3)
  have "rfold (submit_stage e)
           [(lr, PROOF_TYPE_REQUEST, ''node_id'', PEER_ADMISSION_OUTBOUND_REQUEST_POLICY), (rr, PROOF_TYPE_REQUEST, ''node_id'', PEER_ADMISSION_LOCAL_POLICY),
            (ld, PROOF_TYPE_ACCEPT, ''signer_node_id'', PEER_ADMISSION_LOCAL_POLICY),
            (rd, PROOF_TYPE_ACCEPT, ''signer_node_id'', PEER_ADMISSION_INBOUND_DECISION_POLICY)] ds = Inr d4"
    using submit_stage_ok [OF lr(2) k(1) idk(1) idn(1) ty(1) ne(1) _ fresh d1] submit_stage_ok [OF rr(2) k(2) idk(2) idn(2) ty(1) ne(1) _ f2 d2(1)]
      submit_stage_ok [OF v3(2) k(3) idk(3) idn(1) ty(2) ne(1) _ f3 d3] submit_stage_ok [OF v4(2) k(4) idk(4) idn(2) ty(2) ne(1) _ f4 d4] by simp
  then show thesis
    by (rule that [of d4 r3])
      (use r3 n3 n4 n1 d2 l4 in \<open>simp_all add: registry_service_group_ids_def log_ids_entries\<close>)
qed

text \<open>Proofs that two nodes made honestly pass the checks before the stages.\<close>

lemma honest_proofs:
  assumes a: "load_sqlite_node_identity_material e ds = Inr a" "identity_law e e a" and b: "load_sqlite_node_identity_material s ds0 = Inr b" "identity_law s e b"
    and ne: "h_now (pe_host e) \<noteq> []" "h_now (pe_host s) \<noteq> []" and p: "invitation_proofs e ds a s ds0 b scope lr rr ld rd"
    and scope: "service_group_id_for account service = Inr scope" "scope_text (Some (JStr service))" "scope_text (Some (JStr account))"
    and new: "im_node_id b \<notin> set (ds_node_private ds)"
  obtains i j en3 en4 dc dn dc' dn' where "verify_admission_request_payload (pe_host e) lr = Inr ()" "map_of lr ''node_id'' = Some (JStr (im_node_id a))"
    "map_of lr ''request_id'' = Some (JStr i)" "verify_admission_request_payload (pe_host e) rr = Inr ()" "map_of rr ''node_id'' = Some (JStr (im_node_id b))"
    "map_of rr ''request_id'' = Some (JStr j)" "map_of rr ''signing_public_key'' = Some (JStr (encode_b64url (im_signing_public_key b)))"
    "map_of rr ''encryption_public_key'' = Some (JStr (encode_b64url (im_encryption_public_key b)))"
    "\<forall>f \<in> {''requested_at'', ''service_address'', ''operator_description'', ''operator_comment''}. \<exists>x. pj_optional_text rr f = Inr x"
    "signed_admission_decision_payload e en3 ds PROOF_TYPE_ACCEPT (im_node_id b) j dc dn [scope] AUTHORIZATION_MODE_ALLOW_LIST = Inr ld" "snd en3 \<noteq> []"
    "signed_admission_decision_payload s en4 ds0 PROOF_TYPE_ACCEPT (im_node_id a) i dc' dn' [scope] AUTHORIZATION_MODE_ALLOW_LIST = Inr rd" "snd en4 \<noteq> []"
    "is_identifier Service_group scope" "im_node_id a \<noteq> im_node_id b"
    "\<And>allow ds'. apply_stages e ds lr rr ld rd scope allow = Inr ds' \<Longrightarrow> apply_invitation_admission e ds lr rr ld rd service account allow = Inr ds'"
proof -
  from p obtain i j en1 en2 en3 en4 sa oc sa' oc' dc dn dc' dn' where
    q: "signed_admission_request_payload e en1 ds sa oc = Inr lr" "signed_admission_request_payload s en2 ds0 sa' oc' = Inr rr"
      "signed_admission_decision_payload e en3 ds PROOF_TYPE_ACCEPT (im_node_id b) j dc dn [scope] AUTHORIZATION_MODE_ALLOW_LIST = Inr ld"
      "signed_admission_decision_payload s en4 ds0 PROOF_TYPE_ACCEPT (im_node_id a) i dc' dn' [scope] AUTHORIZATION_MODE_ALLOW_LIST = Inr rd"
    and new1: "map_of lr ''request_id'' = Some (JStr i)" "map_of rr ''request_id'' = Some (JStr j)"
    and en: "snd en1 \<noteq> []" "snd en2 \<noteq> []" "snd en3 \<noteq> []" "snd en4 \<noteq> []" by (auto simp: invitation_proofs_def)
  have lr: "verify_admission_request_payload (pe_host e) lr = Inr ()" "map_of lr ''node_id'' = Some (JStr (im_node_id a))"
    "map_of lr ''signing_public_key'' = Some (JStr (encode_b64url (im_signing_public_key a)))"
    "map_of lr ''encryption_public_key'' = Some (JStr (encode_b64url (im_encryption_public_key a)))"
    by (rule signed_request_ok [OF a ne(1) en(1), of sa oc]; use q(1) in simp)+
  have rr: "verify_admission_request_payload (pe_host e) rr = Inr ()" "map_of rr ''node_id'' = Some (JStr (im_node_id b))"
    "map_of rr ''signing_public_key'' = Some (JStr (encode_b64url (im_signing_public_key b)))"
    "map_of rr ''encryption_public_key'' = Some (JStr (encode_b64url (im_encryption_public_key b)))"
    by (rule signed_request_ok [OF b ne(2) en(2), of sa' oc']; use q(2) in simp)+
  have idn: "is_identifier Node (im_node_id a)" "is_identifier Node (im_node_id b)" using a(2) b(2) by (simp_all add: identity_law_def)
  have idt: "is_identifier IdentifierType.Transaction i" "is_identifier IdentifierType.Transaction j"
    by (rule verified_request [OF lr(1)], use new1(1) in auto) (rule verified_request [OF rr(1)], use new1(2) in auto)
  have ab: "im_node_id a \<noteq> im_node_id b" using loaded_node(2) [OF a(1)] new by auto
  note f3 = accept_fields [OF q(3) a] and f4 = accept_fields [OF q(4) b]
  have v: "verify_invitation_decision (pe_host e) ld lr rr scope = Inr ()" "verify_invitation_decision (pe_host e) rd rr lr scope = Inr ()"
    by (rule decision_verified [OF f3(1) signed_decision_ok [OF q(3) a ne(1) en(3) idn(2) idt(2)] lr(2-4) rr(2) new1(2)],
        rule decision_verified [OF f4(1) signed_decision_ok [OF q(4) b ne(2) en(4) idn(1) idt(1)] rr(2-4) lr(2) new1(1)])
  have texts: "\<forall>f \<in> {''requested_at'', ''service_address'', ''operator_description'', ''operator_comment''}. \<exists>x. pj_optional_text rr f = Inr x"
    using signed_request_texts [OF q(2)] by blast
  have sg: "is_identifier Service_group scope" using f3(4) by simp
  have "apply_invitation_admission e ds lr rr ld rd service account allow = Inr ds'" if "apply_stages e ds lr rr ld rd scope allow = Inr ds'" for allow ds'
    using ab that by (simp add: apply_invitation_admission_def apply_invitation_admission_checked_def scope lr rr v a(1) member_of_def same_local_identity_def rmap_error_def)
      (simp add: py_eq_def)
  then show thesis by (rule that [OF lr(1,2) new1(1) rr(1,2) new1(2) rr(3,4) texts q(3) en(3) q(4) en(4) sg ab])
qed

text \<open>
  When the two nodes ran the exchange honestly, the other node is unknown here and the identifiers are fresh, the admission succeeds: the
  other node becomes an active peer with the keys of its request, authorised for the invited scope.
\<close>

theorem invitation_admits_peer:
  assumes a: "load_sqlite_node_identity_material e ds = Inr a" "identity_law e e a" and b: "load_sqlite_node_identity_material s ds0 = Inr b" "identity_law s e b"
    and ne: "h_now (pe_host e) \<noteq> []" "h_now (pe_host s) \<noteq> []"
    and p: "invitation_proofs e ds a s ds0 b scope lr rr ld rd" "json_wf (JObj lr)" "json_wf (JObj rr)"
    and scope: "service_group_id_for account service = Inr scope" "scope_text (Some (JStr service))" "scope_text (Some (JStr account))"
    and new: "t_get nd_node_id (im_node_id b) (ds_nodes ds) = None" "im_node_id b \<notin> set (ds_node_private ds)"
      "map_of lr ''request_id'' = Some (JStr i)" "map_of rr ''request_id'' = Some (JStr j)" "request_unused ds i" "request_unused ds j" "i \<noteq> j"
    and k: "deterministic_admission_transaction_id PROOF_TYPE_REQUEST lr = Inr k1" "deterministic_admission_transaction_id PROOF_TYPE_REQUEST rr = Inr k2"
      "deterministic_admission_transaction_id PROOF_TYPE_ACCEPT ld = Inr k3" "deterministic_admission_transaction_id PROOF_TYPE_ACCEPT rd = Inr k4"
      "distinct [k1, k2, k3, k4]" "set [k1, k2, k3, k4] \<inter> set (log_ids ds) = {}"
  shows "\<exists>ds' r. apply_invitation_admission e ds lr rr ld rd service account allow_existing_admission = Inr ds' \<and>
    t_get nd_node_id (im_node_id b) (ds_nodes ds') = Some r \<and> nd_signing_public_key r = Some (im_signing_public_key b) \<and>
    nd_encryption_public_key r = Some (im_encryption_public_key b) \<and>
    (\<forall>m. m \<noteq> im_node_id b \<longrightarrow> t_get nd_node_id m (ds_nodes ds') = t_get nd_node_id m (ds_nodes ds)) \<and>
    log_ids ds' = log_ids ds @ [k1, k2, k3, k4] \<and>
    (\<forall>sg. pred_option (is_identifier Service_group) sg \<longrightarrow> is_peer_synchronization_eligible ds' (im_node_id b) sg =
      Inr (\<forall>g. sg = Some g \<longrightarrow> g = scope \<or> g \<in> set (registry_service_group_ids ds (im_node_id b))))"
proof -
  obtain i' j' en3 en4 dc dn dc' dn' where lr: "verify_admission_request_payload (pe_host e) lr = Inr ()" "map_of lr ''node_id'' = Some (JStr (im_node_id a))"
      "map_of lr ''request_id'' = Some (JStr i')"
    and rr: "verify_admission_request_payload (pe_host e) rr = Inr ()" "map_of rr ''node_id'' = Some (JStr (im_node_id b))"
      "map_of rr ''request_id'' = Some (JStr j')" "map_of rr ''signing_public_key'' = Some (JStr (encode_b64url (im_signing_public_key b)))"
      "map_of rr ''encryption_public_key'' = Some (JStr (encode_b64url (im_encryption_public_key b)))"
      "\<forall>f \<in> {''requested_at'', ''service_address'', ''operator_description'', ''operator_comment''}. \<exists>x. pj_optional_text rr f = Inr x"
    and ld: "signed_admission_decision_payload e en3 ds PROOF_TYPE_ACCEPT (im_node_id b) j' dc dn [scope] AUTHORIZATION_MODE_ALLOW_LIST = Inr ld" "snd en3 \<noteq> []"
    and rd: "signed_admission_decision_payload s en4 ds0 PROOF_TYPE_ACCEPT (im_node_id a) i' dc' dn' [scope] AUTHORIZATION_MODE_ALLOW_LIST = Inr rd" "snd en4 \<noteq> []"
    and sg: "is_identifier Service_group scope" and ab: "im_node_id a \<noteq> im_node_id b"
    and run: "\<And>allow ds'. apply_stages e ds lr rr ld rd scope allow = Inr ds' \<Longrightarrow> apply_invitation_admission e ds lr rr ld rd service account allow = Inr ds'"
    by (rule honest_proofs [OF a b ne p(1) scope new(2)]) blast
  have ij: "i' = i" "j' = j" using lr(3) rr(3) new(3,4) by simp_all
  note [simp] = ij
  have gs: "\<forall>g \<in> set [scope]. is_identifier Service_group g" using sg by simp
  have idn: "is_identifier Node (im_node_id b)" using b(2) by (simp add: identity_law_def)
  obtain ds' r where d: "rfold (submit_stage e)
           [(lr, PROOF_TYPE_REQUEST, ''node_id'', PEER_ADMISSION_OUTBOUND_REQUEST_POLICY), (rr, PROOF_TYPE_REQUEST, ''node_id'', PEER_ADMISSION_LOCAL_POLICY),
            (ld, PROOF_TYPE_ACCEPT, ''signer_node_id'', PEER_ADMISSION_LOCAL_POLICY),
            (rd, PROOF_TYPE_ACCEPT, ''signer_node_id'', PEER_ADMISSION_INBOUND_DECISION_POLICY)] ds = Inr ds'"
    and r: "t_get nd_node_id (im_node_id b) (ds_nodes ds') = Some r" "nd_state r = Some ADMISSION_STATE_ACTIVE" "nd_authorization_mode r = AUTHORIZATION_MODE_ALLOW_LIST"
      "nd_signing_public_key r = Some (im_signing_public_key b)" "nd_encryption_public_key r = Some (im_encryption_public_key b)"
    and o': "\<forall>m. m \<noteq> im_node_id b \<longrightarrow> t_get nd_node_id m (ds_nodes ds') = t_get nd_node_id m (ds_nodes ds)"
      "set (registry_service_group_ids ds' (im_node_id b)) = set (registry_service_group_ids ds (im_node_id b)) \<union> set [scope]"
      "ds_node_private ds' = ds_node_private ds" "log_ids ds' = log_ids ds @ [k1, k2, k3, k4]"
    by (rule stages_succeed [OF lr p(2) rr(1-5) p(3) rr(6) a b ne ld(2) rd(2) ld(1) rd(1) gs new(1) _ _ _ ab k]) (use new in simp_all)
  have "create_peer_admission_transaction e ds PROOF_TYPE_REQUEST rr (Some (im_node_id b)) = Inr (local_tx e (im_node_id b) k2 PROOF_TYPE_REQUEST rr)"
    using plain_transaction_ok [OF deterministic_admission_ok [OF k(2)] idn _ ne(1), of PROOF_TYPE_REQUEST rr] k(2)
    by (simp add: create_peer_admission_transaction_def) (simp add: PROOF_TYPE_REQUEST_def)
  then have "apply_stages e ds lr rr ld rd scope allow_existing_admission = Inr ds'"
    using d new(1,2) rr(2)
    by (cases allow_existing_admission)
      (simp_all add: apply_stages_def node_member_def member_of_def get_peer_registry_entry_def validate_identifier_ok [OF idn] del: rfold.simps)
  note run [OF this]
  moreover have "is_peer_synchronization_eligible ds' (im_node_id b) sg = Inr (\<forall>g. sg = Some g \<longrightarrow> g = scope \<or> g \<in> set (registry_service_group_ids ds (im_node_id b)))"
    if "pred_option (is_identifier Service_group) sg" for sg
    by (rule eligible_row(1) [OF idn that _ r(1)]) (use r(2,3) o' new(2) modes_distinct in \<open>auto simp: AUTHORIZATION_MODE_ALLOW_LIST_def\<close>)
  ultimately show ?thesis using r(1,4,5) o'(1,4) by blast
qed

subsection \<open>What an admission by invitation can change\<close>

text \<open>Between \<open>ds\<close> and \<open>d\<close> at most the peer \<open>n\<close> changes: an identity it has is kept, and the only group it can gain is \<open>scope\<close>.\<close>

definition invitation_frame :: "string \<Rightarrow> string \<Rightarrow> datastore \<Rightarrow> datastore \<Rightarrow> bool" where
  "invitation_frame n scope ds d \<longleftrightarrow>
     ds_secrets d = ds_secrets ds \<and> ds_envelopes d = ds_envelopes ds \<and> ds_node_private d = ds_node_private ds \<and>
     (\<forall>m. m \<noteq> n \<longrightarrow> t_get nd_node_id m (ds_nodes d) = t_get nd_node_id m (ds_nodes ds)) \<and>
     (\<forall>r. t_get nd_node_id n (ds_nodes ds) = Some r \<and> has_identity r \<longrightarrow> (\<exists>q. t_get nd_node_id n (ds_nodes d) = Some q \<and> same_identity r q)) \<and>
     (\<forall>q. t_get nd_node_id n (ds_nodes d) = Some q \<and> nd_authorization_mode q = AUTHORIZATION_MODE_ALL \<longrightarrow>
        (\<exists>r. t_get nd_node_id n (ds_nodes ds) = Some r \<and> nd_authorization_mode r = AUTHORIZATION_MODE_ALL)) \<and>
     set (registry_service_group_ids d n) \<subseteq> insert scope (set (registry_service_group_ids ds n))"

lemma invitation_frame_refl: "invitation_frame n scope ds ds"
  by (auto simp: invitation_frame_def same_identity_def)

lemma same_identity_trans: "same_identity r q \<Longrightarrow> same_identity q t \<Longrightarrow> same_identity r t"
  by (simp add: same_identity_def)

lemma invitation_frame_trans:
  assumes "invitation_frame n scope a b" "invitation_frame n scope b c"
  shows "invitation_frame n scope a c"
proof -
  have "\<exists>t. t_get nd_node_id n (ds_nodes c) = Some t \<and> same_identity r t" if "t_get nd_node_id n (ds_nodes a) = Some r" "has_identity r" for r
  proof -
    from assms(1) that obtain q where q: "t_get nd_node_id n (ds_nodes b) = Some q" "same_identity r q" unfolding invitation_frame_def by blast
    with same_identity_has [OF q(2) that(2)] assms(2) obtain t where "t_get nd_node_id n (ds_nodes c) = Some t" "same_identity q t"
      unfolding invitation_frame_def by blast
    then show ?thesis using same_identity_trans [OF q(2)] by blast
  qed
  with assms show ?thesis unfolding invitation_frame_def by (simp, blast)
qed

lemma support_frame:
  assumes "bootstrap_replay_support_rows ds [local_tx e origin k ty p] = Inr b" "is_identifier Node origin" "ty \<notin> {''secret.set'', ''secret.delete''}"
    and "origin = n \<or> t_has nd_node_id origin (ds_nodes ds)"
  shows "invitation_frame n scope ds b" "ds_transactions b = ds_transactions ds"
proof -
  obtain g where g: "ds_nodes b = t_insert_ignore nd_node_id (placeholder_node origin g) (ds_nodes ds)"
    by (rule origin_support [OF assms(2,3), of ds e k p]) (use assms(1) in auto)
  have p: "nd_node_id (placeholder_node origin g) = origin" "nd_authorization_mode (placeholder_node origin g) \<noteq> AUTHORIZATION_MODE_ALL"
    by (simp_all add: placeholder_node_def blank_node_def AUTHORIZATION_MODE_ALL_def)
  have "t_get nd_node_id m (ds_nodes b) = t_get nd_node_id m (ds_nodes ds)" if "m \<noteq> n" for m
    using assms(4) that by (auto simp: g t_get_insert_ignore p(1) t_has_iff_get split: option.split)
  moreover have "t_get nd_node_id n (ds_nodes b) = Some q \<Longrightarrow> t_get nd_node_id n (ds_nodes ds) = Some q \<or> q = placeholder_node origin g" for q
    by (auto simp: g t_get_insert_ignore split: option.split_asm if_split_asm)
  moreover have "t_get nd_node_id n (ds_nodes ds) = Some r \<Longrightarrow> t_get nd_node_id n (ds_nodes b) = Some r" for r
    by (simp add: g t_get_insert_ignore)
  moreover note support_keeps [OF bootstrap_extends [OF assms(1)]]
  ultimately show "invitation_frame n scope ds b" "ds_transactions b = ds_transactions ds"
    using p(2) by (auto simp: invitation_frame_def registry_service_group_ids_def same_identity_def)
qed

lemma request_frame:
  assumes "apply_peer_admission_request h ds t = Inr d" "map_of (tx_payload t) ''node_id'' = Some (JStr n)"
  shows "invitation_frame n scope ds d"
proof (rule request_effect [OF assms(1)])
  fix k r assume k: "pj_required_text (tx_payload t) ''node_id'' = Inr k" and old: "\<And>q. t_get nd_node_id k (ds_nodes ds) = Some q \<Longrightarrow> is_replay_support_placeholder q"
    and r: "t_get nd_node_id k (ds_nodes d) = Some r" "nd_authorization_mode r = AUTHORIZATION_MODE_NONE"
    and o': "\<And>m. m \<noteq> k \<Longrightarrow> t_get nd_node_id m (ds_nodes d) = t_get nd_node_id m (ds_nodes ds)" "d = ds\<lparr>ds_nodes := ds_nodes d, ds_peer_groups := ds_peer_groups d\<rparr>"
  have kn: "k = n" using k assms(2) by (auto simp: pj_required_text_def payload_get_def split: if_split_asm)
  have same: "ds_secrets d = ds_secrets ds" "ds_envelopes d = ds_envelopes ds" "ds_node_private d = ds_node_private ds" "ds_service_group_nodes d = ds_service_group_nodes ds"
    by (subst o'(2), simp)+
  show ?thesis
    using old has_identity_no_placeholder r o'(1) same modes_distinct(1) unfolding kn by (auto simp: invitation_frame_def registry_service_group_ids_def)
qed

lemma accept_frame:
  assumes "apply_peer_admission_accept ds t = Inr d" "map_of (tx_payload t) ''node_id'' = Some (JStr n)"
    "map_of (tx_payload t) ''authorization_mode'' = Some (JStr mode)" "mode \<noteq> AUTHORIZATION_MODE_ALL" "auth_optional_text_list (tx_payload t) ''service_group_ids'' = Inr [scope]"
  shows "invitation_frame n scope ds d"
proof -
  note eff = accept_effect [OF assms(1-3,5)]
  have "ds_secrets d = ds_secrets ds \<and> ds_envelopes d = ds_envelopes ds"
    using assms(1) unfolding apply_peer_admission_accept_def by (rule decision_effect) (metis (no_types, lifting) datastore.select_convs datastore.surjective datastore.update_convs)
  with eff assms(4) show ?thesis by (auto simp: invitation_frame_def same_identity_def)
qed

lemma invitation_frame_log [simp]:
  "invitation_frame n scope ds (d\<lparr>ds_transactions := l\<rparr>) = invitation_frame n scope ds d"
  "invitation_frame n scope (ds\<lparr>ds_transactions := l\<rparr>) d = invitation_frame n scope ds d"
  by (simp_all add: invitation_frame_def registry_service_group_ids_def)

lemma submit_retryD:
  assumes "submit_transaction e ds t (retry_policy p) = Inr (x, d)" "admission_policy p"
  obtains b where "bootstrap_replay_support_rows ds [t] = Inr b" "d = b"
  | b l c l' where "bootstrap_replay_support_rows ds [t] = Inr b" "if po_apply_projection p then apply_transaction (pe_host e) (b\<lparr>ds_transactions := l\<rparr>) t = Inr c else c = b\<lparr>ds_transactions := l\<rparr>"
      "d = c\<lparr>ds_transactions := l'\<rparr>"
proof -
  have p: "po_persist_transaction (retry_policy p)" "po_bootstrap_support_rows (retry_policy p)" "po_mark_applied (retry_policy p)"
    "\<not> po_generate_outbound_envelopes (retry_policy p)" "po_ignore_duplicate (retry_policy p)" "po_apply_projection (retry_policy p) = po_apply_projection p"
    using assms(2) by (simp_all add: admission_policy_def retry_policy_def)
  from assms(1) obtain b where b: "bootstrap_replay_support_rows ds [t] = Inr b"
    and s: "d = b \<or> (\<exists>b2. insert_transaction b t = Inr b2 \<and> complete_submission e b2 t (retry_policy p) = Inr (x, d))"
    unfolding submit_transaction_def by (elim rbind_InrE) (auto simp: p elim!: rbind_InrE split: if_split_asm sum.split_asm py_error.split_asm)
  from s show thesis
  proof
    assume "d = b"
    with b that(1) show thesis by blast
  next
    assume "\<exists>b2. insert_transaction b t = Inr b2 \<and> complete_submission e b2 t (retry_policy p) = Inr (x, d)"
    then obtain b2 where b2: "insert_transaction b t = Inr b2" "complete_submission e b2 t (retry_policy p) = Inr (x, d)" by blast
    from b2(1) obtain l where l: "b2 = b\<lparr>ds_transactions := l\<rparr>" by (rule insert_transaction_InrD) blast
    from b2(2) obtain c where c: "if po_apply_projection p then apply_transaction (pe_host e) b2 t = Inr c else c = b2"
      "mark_transaction_applied (h_now (pe_host e)) c (tx_transaction_id t) = Inr d"
      unfolding complete_submission_def by (elim rbind_InrE) (simp add: p split: if_split_asm)
    from c(2) obtain l' where "d = c\<lparr>ds_transactions := l'\<rparr>" by (auto simp: mark_transaction_applied_def split: option.split_asm if_split_asm)
    with that(2) [OF b] c(1) l show thesis by blast
  qed
qed

lemma stage_frame:
  assumes s: "submit_stage e (payload, ty, f, p) ds = Inr d" and f: "map_of payload f = Some (JStr origin)" "is_identifier Node origin" and ne: "h_now (pe_host e) \<noteq> []"
    and p: "admission_policy p" "ty \<in> {PROOF_TYPE_REQUEST, PROOF_TYPE_ACCEPT}" and known: "origin = n \<or> t_has nd_node_id origin (ds_nodes ds)"
    and app: "po_apply_projection p \<Longrightarrow> map_of payload ''node_id'' = Some (JStr n)"
      "po_apply_projection p \<Longrightarrow> ty = PROOF_TYPE_ACCEPT \<Longrightarrow> map_of payload ''authorization_mode'' = Some (JStr AUTHORIZATION_MODE_ALLOW_LIST) \<and>
        auth_optional_text_list payload ''service_group_ids'' = Inr [scope]"
  shows "invitation_frame n scope ds d"
proof -
  have ty: "ty \<noteq> []" "ty \<notin> {''secret.set'', ''secret.delete''}" using p(2) by (auto simp: PROOF_TYPE_REQUEST_def PROOF_TYPE_ACCEPT_def)
  from s obtain k t x where k: "deterministic_admission_transaction_id ty payload = Inr k" "plain_transaction k ty origin (h_now (pe_host e)) payload = Inr t"
    and x: "submit_transaction e ds t (retry_policy p) = Inr (x, d)"
    by (auto simp: submit_stage_def node_member_def member_of_def f(1) create_peer_admission_transaction_def rbind_Inr_iff)
  have t: "t = local_tx e origin k ty payload"
    using k(2) plain_transaction_ok [OF deterministic_admission_ok [OF k(1)] f(2) ty(1) ne, of payload] by simp
  have tp: "tx_payload t = payload" "tx_transaction_type t = ty" by (simp_all add: t local_tx_def)
  from x p(1) show ?thesis
  proof (cases rule: submit_retryD)
    case (1 b)
    then show ?thesis using support_frame(1) [OF 1(1) [unfolded t] f(2) ty(2) known] by simp
  next
    case (2 b l c l')
    have b: "invitation_frame n scope ds b" by (rule support_frame(1) [OF 2(1) [unfolded t] f(2) ty(2) known])
    have "invitation_frame n scope (b\<lparr>ds_transactions := l\<rparr>) c"
    proof (cases "po_apply_projection p")
      case False
      then show ?thesis using 2(2) invitation_frame_refl [of n scope "b\<lparr>ds_transactions := l\<rparr>"] by simp
    next
      case True
      then have c: "apply_transaction (pe_host e) (b\<lparr>ds_transactions := l\<rparr>) t = Inr c" using 2(2) by simp
      from p(2) consider "ty = PROOF_TYPE_REQUEST" | "ty = PROOF_TYPE_ACCEPT" by blast
      then show ?thesis
      proof cases
        assume "ty = PROOF_TYPE_REQUEST"
        then have "apply_peer_admission_request (pe_host e) (b\<lparr>ds_transactions := l\<rparr>) t = Inr c" using c by (simp add: apply_transaction_def tp PROOF_TYPE_REQUEST_def)
        then show ?thesis by (rule request_frame) (use app(1) True tp in simp)
      next
        assume a: "ty = PROOF_TYPE_ACCEPT"
        then have "apply_peer_admission_accept (b\<lparr>ds_transactions := l\<rparr>) t = Inr c" using c by (simp add: apply_transaction_def tp PROOF_TYPE_ACCEPT_def)
        then show ?thesis by (rule accept_frame) (use app True a tp modes_distinct in auto)
      qed
    qed
    then show ?thesis using invitation_frame_trans [OF b, of c] 2(3) by simp
  qed
qed

lemma py_eq_text: "py_eq (get_or_null p k) (JStr s) \<longleftrightarrow> map_of p k = Some (JStr s)"
proof -
  have "py_norm v = JStr s \<longleftrightarrow> v = JStr s" for v by (cases v) auto
  then show ?thesis by (auto simp: py_eq_def get_or_null_def split: option.split)
qed

lemma py_eq_scope: "py_eq (get_or_null p k) (JList [JStr s]) \<longleftrightarrow> map_of p k = Some (JList [JStr s])"
proof -
  have t: "py_norm v = JStr s \<longleftrightarrow> v = JStr s" for v by (cases v) auto
  have "py_norm v = JList [JStr s] \<longleftrightarrow> v = JList [JStr s]" for v by (cases v) (auto simp: t)
  then show ?thesis by (auto simp: py_eq_def get_or_null_def split: option.split)
qed

text \<open>What \<open>_verify_decision\<close> established.\<close>

definition accepts :: "host \<Rightarrow> json_obj \<Rightarrow> string \<Rightarrow> string \<Rightarrow> string \<Rightarrow> bool" where
  "accepts h decision signer subject scope \<longleftrightarrow> verify_admission_decision_signature h decision = Inr () \<and>
     map_of decision ''proof_type'' = Some (JStr PROOF_TYPE_ACCEPT) \<and> map_of decision ''signer_node_id'' = Some (JStr signer) \<and>
     map_of decision ''node_id'' = Some (JStr subject) \<and> map_of decision ''authorization_mode'' = Some (JStr ''allow_list'') \<and>
     map_of decision ''service_group_ids'' = Some (JList [JStr scope])"

lemma verify_invitation_decisionD:
  assumes "verify_invitation_decision h decision signer subject scope = Inr ()" "map_of signer ''node_id'' = Some (JStr m)" "map_of subject ''node_id'' = Some (JStr n)"
  shows "accepts h decision m n scope"
proof -
  from assms obtain r sk ek where
    "list_all (\<lambda>(k, v). py_eq (get_or_null decision k) v) [(''proof_type'', JStr PROOF_TYPE_ACCEPT), (''signer_node_id'', JStr m), (''node_id'', JStr n),
           (''request_id'', r), (''signer_signing_public_key'', sk), (''signer_encryption_public_key'', ek), (''authorization_mode'', JStr ''allow_list''),
           (''service_group_ids'', JList [JStr scope])]" "verify_admission_decision_signature h decision = Inr ()"
    unfolding verify_invitation_decision_def member_of_def Let_def by (elim rbind_InrE) (simp add: rmap_error_Inr split: if_split_asm option.split_asm)
  then show ?thesis by (simp add: accepts_def py_eq_text py_eq_scope)
qed

lemma accepts_fields:
  assumes "accepts h d m n scope" "is_identifier Service_group scope"
  shows "map_of d ''authorization_mode'' = Some (JStr AUTHORIZATION_MODE_ALLOW_LIST)" "auth_optional_text_list d ''service_group_ids'' = Inr [scope]"
  using assms is_identifier_not_Nil [OF assms(2)] by (simp_all add: accepts_def AUTHORIZATION_MODE_ALLOW_LIST_def text_list_ok payload_get_def)

lemma apply_stages_frame:
  assumes s: "apply_stages e ds lr rr ld rd scope allow = Inr ds'" and ne: "h_now (pe_host e) \<noteq> []"
    and lr: "map_of lr ''node_id'' = Some (JStr m)" and rr: "map_of rr ''node_id'' = Some (JStr n)" and ids: "is_identifier Node m" "is_identifier Node n" "is_identifier Service_group scope"
    and known: "t_has nd_node_id m (ds_nodes ds)" "m \<noteq> n" and acc: "accepts h ld m n scope" "accepts h rd n m scope"
  shows "invitation_frame n scope ds ds' \<and> (allow \<and> get_peer_registry_entry ds n \<noteq> Inr None \<longrightarrow> ds' = ds)"
proof -
  obtain prior where prior: "get_peer_registry_entry ds n = Inr prior"
    using s by (auto simp: apply_stages_def node_member_def member_of_def rr rbind_Inr_iff)
  show ?thesis
  proof (cases "allow \<and> prior \<noteq> None")
    case True
    then have "ds' = ds" using s prior by (auto simp: apply_stages_def node_member_def member_of_def rr rbind_Inr_iff)
    then show ?thesis by (simp add: invitation_frame_refl)
  next
    case False
    then obtain d1 d2 d3 where d: "submit_stage e (lr, PROOF_TYPE_REQUEST, ''node_id'', PEER_ADMISSION_OUTBOUND_REQUEST_POLICY) ds = Inr d1"
      "submit_stage e (rr, PROOF_TYPE_REQUEST, ''node_id'', PEER_ADMISSION_LOCAL_POLICY) d1 = Inr d2"
      "submit_stage e (ld, PROOF_TYPE_ACCEPT, ''signer_node_id'', PEER_ADMISSION_LOCAL_POLICY) d2 = Inr d3"
      "submit_stage e (rd, PROOF_TYPE_ACCEPT, ''signer_node_id'', PEER_ADMISSION_INBOUND_DECISION_POLICY) d3 = Inr ds'"
      using s prior by (cases allow; cases prior) (auto simp: apply_stages_def node_member_def member_of_def rr rbind_Inr_iff split: if_split_asm)
    have keep: "invitation_frame n scope a b \<Longrightarrow> t_has nd_node_id m (ds_nodes a) \<Longrightarrow> t_has nd_node_id m (ds_nodes b)" for a b
      using known(2) by (simp add: invitation_frame_def t_has_iff_get)
    have sign: "map_of ld ''signer_node_id'' = Some (JStr m)" "map_of rd ''signer_node_id'' = Some (JStr n)" "map_of ld ''node_id'' = Some (JStr n)"
      using acc by (simp_all add: accepts_def)
    have f1: "invitation_frame n scope ds d1" by (rule stage_frame [OF d(1) lr ids(1) ne]) (use known in simp_all)
    have f2: "invitation_frame n scope d1 d2" by (rule stage_frame [OF d(2) rr ids(2) ne]) (use rr in \<open>simp_all add: PROOF_TYPE_REQUEST_def PROOF_TYPE_ACCEPT_def\<close>)
    have f3: "invitation_frame n scope d2 d3"
      by (rule stage_frame [OF d(3) sign(1) ids(1) ne]) (use keep [OF f2 keep [OF f1 known(1)]] sign accepts_fields [OF acc(1) ids(3)] in simp_all)
    have f4: "invitation_frame n scope d3 ds'" by (rule stage_frame [OF d(4) sign(2) ids(2) ne]) simp_all
    from False prior show ?thesis using invitation_frame_trans [OF invitation_frame_trans [OF invitation_frame_trans [OF f1 f2] f3] f4] by auto
  qed
qed

text \<open>C6. An admission by invitation grants the invited scope to the invited peer and changes nothing else.

Whatever the four proofs and the state of the datastore, when \<open>apply_invitation_admission\<close> succeeds the local request is that of this node, both
requests verify, and both decisions are signed acceptances of each other for exactly the service group of the invitation. No other node, no secret
and no queued envelope changes; a peer that had an identity keeps its keys, does not gain the mode \<open>all\<close> and gains at most that one group; and a retry
for an enrolled relay leaves a known peer exactly as it was.\<close>

theorem invitation_admission_bounded:
  assumes "apply_invitation_admission e ds local_request remote_request local_decision remote_decision service account allow_existing_admission = Inr ds'"
    and "h_now (pe_host e) \<noteq> []"
  shows "\<exists>a n scope. load_sqlite_node_identity_material e ds = Inr a \<and> service_group_id_for account service = Inr scope \<and>
    verify_admission_request_payload (pe_host e) local_request = Inr () \<and> map_of local_request ''node_id'' = Some (JStr (im_node_id a)) \<and>
    verify_admission_request_payload (pe_host e) remote_request = Inr () \<and> map_of remote_request ''node_id'' = Some (JStr n) \<and> n \<noteq> im_node_id a \<and>
    accepts (pe_host e) local_decision (im_node_id a) n scope \<and> accepts (pe_host e) remote_decision n (im_node_id a) scope \<and>
    invitation_frame n scope ds ds' \<and> (allow_existing_admission \<and> get_peer_registry_entry ds n \<noteq> Inr None \<longrightarrow> ds' = ds)"
proof -
  from assms(1) obtain scope a where c: "service_group_id_for account service = Inr scope"
    "verify_admission_request_payload (pe_host e) local_request = Inr ()" "verify_admission_request_payload (pe_host e) remote_request = Inr ()"
    "verify_invitation_decision (pe_host e) local_decision local_request remote_request scope = Inr ()"
    "verify_invitation_decision (pe_host e) remote_decision remote_request local_request scope = Inr ()"
    "load_sqlite_node_identity_material e ds = Inr a" "same_local_identity local_request a = Inr ()"
    "apply_stages e ds local_request remote_request local_decision remote_decision scope allow_existing_admission = Inr ds'"
    and differ: "\<forall>x y. map_of local_request ''node_id'' = Some x \<longrightarrow> map_of remote_request ''node_id'' = Some y \<longrightarrow> \<not> py_eq x y"
    by (auto simp: apply_invitation_admission_def apply_invitation_admission_checked_def rmap_error_Inr rbind_Inr_iff member_of_def
        split: if_split_asm option.split_asm)
  obtain m n where m: "map_of local_request ''node_id'' = Some (JStr m)" "is_identifier Node m" and n: "map_of remote_request ''node_id'' = Some (JStr n)" "is_identifier Node n"
    using verified_request [OF c(2)] verified_request [OF c(3)] by metis
  have ma: "m = im_node_id a" using c(7) m(1) by (auto simp: same_local_identity_def member_of_def Let_def py_eq_def split: if_split_asm)
  have nm: "n \<noteq> im_node_id a" using differ m(1) n(1) ma by auto
  note acc = verify_invitation_decisionD [OF c(4) m(1) n(1)] verify_invitation_decisionD [OF c(5) n(1) m(1)]
  have sg: "is_identifier Service_group scope" using c(1) by (auto simp: service_group_id_for_def deterministic_name_def dest: deterministic_identifier_ok)
  have "invitation_frame n scope ds ds' \<and> (allow_existing_admission \<and> get_peer_registry_entry ds n \<noteq> Inr None \<longrightarrow> ds' = ds)"
    by (rule apply_stages_frame [OF c(8) assms(2) m(1) n(1) m(2) n(2) sg _ _ acc]) (use loaded_node(1) [OF c(6)] ma nm in simp_all)
  then show ?thesis using c(1-3,6) m(1) n(1) ma nm acc by auto
qed

definition example_retained :: datastore where
  "example_retained = (example_network 1 2)\<lparr>ds_nodes := [example_member 1, (example_member 2)\<lparr>nd_authorization_mode := ''all''\<rparr>]\<rparr>"

lemma example_retained_identity:
  "load_sqlite_node_identity_material (example_env 1) example_retained = Inr (example_identity 1)"
  "load_sqlite_node_identity_material (example_env 2) (example_network 2 1) = Inr (example_identity 2)"
  by (simp_all add: load_sqlite_node_identity_material_def validate_sqlite_node_identity_def load_identity_file_def
      require_projection_def load_local_node_projection_def example_retained_def example_network_def example_member_def example_node_row_def
      validate_distinct_keypairs_def validate_projection_matches_identity_def bytes_of_def str_of_def
      example_identity_def example_env_def format_identifier_inject)

lemma example_invitation_proofs:
  assumes "is_identifier Service_group scope"
  obtains lr rr ld rd where "invitation_proofs (example_env 1) example_retained (example_identity 1) (example_env 2) (example_network 2 1) (example_identity 2) scope lr rr ld rd"
proof -
  let ?en = "([], ''n'')" and ?i = "random_identifier IdentifierType.Transaction []"
  have ne: "h_now (pe_host (example_env n)) \<noteq> []" for n by (simp add: example_env_def example_host_def)
  have mode: "AUTHORIZATION_MODE_ALLOW_LIST \<in> set AUTHORIZATION_MODES" "\<forall>g \<in> set [scope]. is_identifier Service_group g" using assms by (simp_all add: AUTHORIZATION_MODES_def)
  obtain lr where lr: "signed_admission_request_payload (example_env 1) ?en example_retained [] [] = Inr lr" "map_of lr ''request_id'' = Some (JStr ?i)"
    by (rule signed_request_ok [OF example_retained_identity(1) example_identity_law ne, where entropy = ?en and sa = "[]" and oc = "[]"]) auto
  obtain rr where rr: "signed_admission_request_payload (example_env 2) ?en (example_network 2 1) [] [] = Inr rr" "map_of rr ''request_id'' = Some (JStr ?i)"
    by (rule signed_request_ok [OF example_retained_identity(2) example_identity_law ne, where entropy = ?en and sa = "[]" and oc = "[]"]) auto
  obtain ld where ld: "signed_admission_decision_payload (example_env 1) ?en example_retained PROOF_TYPE_ACCEPT (im_node_id (example_identity 2)) ?i [] [] [scope]
      AUTHORIZATION_MODE_ALLOW_LIST = Inr ld"
    by (rule signed_accept_ok [OF example_retained_identity(1) example_identity_law mode(1) _ mode(2)]) auto
  obtain rd where rd: "signed_admission_decision_payload (example_env 2) ?en (example_network 2 1) PROOF_TYPE_ACCEPT (im_node_id (example_identity 1)) ?i [] [] [scope]
      AUTHORIZATION_MODE_ALLOW_LIST = Inr rd"
    by (rule signed_accept_ok [OF example_retained_identity(2) example_identity_law mode(1) _ mode(2)]) auto
  have "\<forall>en \<in> {?en, ?en, ?en, ?en}. snd en \<noteq> []" by simp
  with lr rr ld rd show thesis by (intro that [of lr rr ld rd]) (unfold invitation_proofs_def, blast)
qed

theorem invitation_admission_bounded_witness:
  "\<exists>lr rr ld rd scope. apply_invitation_admission (example_env 1) example_retained lr rr ld rd ''svc'' ''me'' True = Inr example_retained \<and>
     service_group_id_for ''me'' ''svc'' = Inr scope \<and> accepts (pe_host (example_env 1)) ld (format_identifier Node 1) (format_identifier Node 2) scope \<and>
     accepts (pe_host (example_env 1)) rd (format_identifier Node 2) (format_identifier Node 1) scope"
proof -
  note One_nat_def [simp del]
  obtain scope where scope: "service_group_id_for ''me'' ''svc'' = Inr scope" "is_identifier Service_group scope"
    by (simp add: service_group_id_for_def deterministic_name_def deterministic_identifier_def)
  obtain lr rr ld rd where p: "invitation_proofs (example_env 1) example_retained (example_identity 1) (example_env 2) (example_network 2 1) (example_identity 2) scope lr rr ld rd"
    by (rule example_invitation_proofs [OF scope(2)])
  have ne: "h_now (pe_host (example_env n)) \<noteq> []" for n by (simp add: example_env_def example_host_def)
  have t: "scope_text (Some (JStr ''svc''))" "scope_text (Some (JStr ''me''))" by code_simp+
  have ids: "im_node_id (example_identity 1) = format_identifier Node 1" "im_node_id (example_identity 2) = format_identifier Node 2" by (simp_all add: example_channel(5))
  have new: "im_node_id (example_identity 2) \<notin> set (ds_node_private example_retained)"
    by (simp add: ids example_retained_def example_network_def format_identifier_inject)
  obtain entry where entry: "get_peer_registry_entry example_retained (format_identifier Node 2) = Inr (Some entry)" "pr_admission_state entry = ''active''"
    "pr_synchronization_eligible entry" "pr_authorization_mode entry = ''all''" "pr_signing_public_key entry = encode_b64url (replicate 32 CHR ''a'')"
    "pr_encryption_public_key entry = encode_b64url (replicate 32 CHR ''b'')"
  proof -
    define r where "r = (example_member 2)\<lparr>nd_authorization_mode := ''all''\<rparr>"
    have row: "t_get nd_node_id (format_identifier Node 2) (ds_nodes example_retained) = Some r"
      by (simp add: example_retained_def t_get_Cons example_member_def format_identifier_inject r_def)
    have f: "nd_signing_public_key r = Some (replicate 32 CHR ''a'')" "nd_encryption_public_key r = Some (replicate 32 CHR ''b'')" "nd_state r = Some ''active''"
      "nd_authorization_mode r = ''all''" by (simp_all add: r_def example_member_def example_node_row_def)
    obtain x y z where m: "endpoint_metadata example_retained (nd_node_id r) (or_empty (nd_service_address r)) = (x, y, z)" by (rule prod_cases3)
    have o': "or_empty (Some v) = v" "bytes_or_empty (Some v) = v" for v by (simp_all add: or_empty_def bytes_or_empty_def)
    show thesis
      by (rule that, use new in \<open>simp add: get_peer_registry_entry_def row ids entry_from_row_def m f AUTHORIZATION_MODES_def AUTHORIZATION_MODE_ALL_def
        o' authorization_state_def ADMISSION_STATE_ACTIVE_def Let_def\<close>) simp_all
  qed
  obtain "apply_invitation_admission (example_env 1) example_retained lr rr ld rd ''svc'' ''me'' True = Inr example_retained"
    "map_of rr ''node_id'' = Some (JStr (format_identifier Node 2))"
  proof (rule honest_proofs [OF example_retained_identity(1) example_identity_law example_retained_identity(2) example_identity_law ne ne p scope(1) t new])
    assume rr: "map_of rr ''node_id'' = Some (JStr (im_node_id (example_identity 2)))"
        "map_of rr ''signing_public_key'' = Some (JStr (encode_b64url (im_signing_public_key (example_identity 2))))"
        "map_of rr ''encryption_public_key'' = Some (JStr (encode_b64url (im_encryption_public_key (example_identity 2))))"
      and run: "\<And>allow ds'. apply_stages (example_env 1) example_retained lr rr ld rd scope allow = Inr ds' \<Longrightarrow>
        apply_invitation_admission (example_env 1) example_retained lr rr ld rd ''svc'' ''me'' allow = Inr ds'"
    have keys: "im_signing_public_key (example_identity 2) = replicate 32 CHR ''a''" "im_encryption_public_key (example_identity 2) = replicate 32 CHR ''b''"
      by (simp_all add: example_identity_def example_env_def)
    have "apply_stages (example_env 1) example_retained lr rr ld rd scope True = Inr example_retained"
      using rr entry by (simp add: apply_stages_def node_member_def member_of_def ids keys require_retained_peer_def rguard_def)
    from that [OF run [OF this]] rr(1) ids show thesis by simp
  qed
  note run = this
  from invitation_admission_bounded [OF run(1) ne] scope(1) example_retained_identity(1) ids
  have "\<exists>n. map_of rr ''node_id'' = Some (JStr n) \<and> accepts (pe_host (example_env 1)) ld (format_identifier Node 1) n scope \<and>
     accepts (pe_host (example_env 1)) rd n (format_identifier Node 1) scope" by auto
  then show ?thesis using run scope(1) by auto
qed

end
